(* ===== verification/Prelude.thy ===== *)
theory Prelude
  imports Main "HOL-Library.Char_ord" "HOL-Library.List_Lexorder"
begin

text \<open>
  Shared vocabulary of the development: thrown errors as values of a sum type, the handful of
  collection functions the TypeScript code takes from lodash and from the array prototype, and
  the generic facts about lists, sums and updates that the component proofs rest on.

  A value of type \<open>'a result\<close> is \<open>Inr x\<close> when the code returns \<open>x\<close> and \<open>Inl e\<close> when
  it throws \<open>e\<close>; the message carried by an error is the source's message.
\<close>

section \<open>Names of the model's basic types\<close>

type_synonym address = string
type_synonym bytes32 = string

text \<open>
  A \<open>Uint256\<close> of the code is a hex string that is only ever read through the
  \<open>BN\<close> wrapper of ethers' \<open>BigNumber\<close>, whose values are unbounded integers; the model keeps
  the integer the string denotes. Every string that \<open>BN\<close> produces is the canonical
  \<open>toHexString\<close> of that integer, so equal integers are equal strings on those.
\<close>

type_synonym uint256 = int

section \<open>Errors as values\<close>

datatype error =
    Error string
  | TypeError
  | ChannelError string
  | StoreError string
  | UpdateChannelError string
  | CloseChannelError string
  | JoinChannelError string
  | NonceError string
  | PushMessageError error
  | UniqueViolationError
  | ForeignKeyViolationError
  | CheckViolationError
  | OutOfRangeError
  | SigningWalletError string

type_synonym 'a result = "error + 'a"

definition bindE :: "'a result \<Rightarrow> ('a \<Rightarrow> 'b result) \<Rightarrow> 'b result" where
  "bindE m f = (case m of Inl e \<Rightarrow> Inl e | Inr x \<Rightarrow> f x)"

definition guardE :: "bool \<Rightarrow> error \<Rightarrow> unit result" where
  "guardE b e = (if b then Inr () else Inl e)"

fun mapE :: "('a \<Rightarrow> 'b result) \<Rightarrow> 'a list \<Rightarrow> 'b list result" where
  "mapE f [] = Inr []"
| "mapE f (x # xs) = bindE (f x) (\<lambda>y. bindE (mapE f xs) (\<lambda>ys. Inr (y # ys)))"

fun foldE :: "('s \<Rightarrow> 'a \<Rightarrow> 's result) \<Rightarrow> 's \<Rightarrow> 'a list \<Rightarrow> 's result" where
  "foldE f s [] = Inr s"
| "foldE f s (x # xs) = bindE (f s x) (\<lambda>s'. foldE f s' xs)"

named_theorems result_simps \<open>equations of the error monad\<close>

lemma bindE_Inl [simp, result_simps]: "bindE (Inl e) f = Inl e"
  by (simp add: bindE_def)

lemma bindE_Inr [simp, result_simps]: "bindE (Inr x) f = f x"
  by (simp add: bindE_def)

lemma guardE_True [simp, result_simps]: "guardE True e = Inr ()"
  by (simp add: guardE_def)

lemma guardE_False [simp, result_simps]: "guardE False e = Inl e"
  by (simp add: guardE_def)

lemma bindE_eq_Inr [result_simps]: "bindE m f = Inr y \<longleftrightarrow> (\<exists>x. m = Inr x \<and> f x = Inr y)"
  by (cases m) auto

lemma bindE_eq_Inl [result_simps]:
  "bindE m f = Inl e \<longleftrightarrow> m = Inl e \<or> (\<exists>x. m = Inr x \<and> f x = Inl e)"
  by (cases m) auto

lemma guardE_eq_Inr [simp, result_simps]: "guardE b e = Inr u \<longleftrightarrow> b"
  by (simp add: guardE_def)

lemma guardE_eq_Inl [simp, result_simps]: "guardE b e = Inl e' \<longleftrightarrow> \<not> b \<and> e' = e"
  by (auto simp: guardE_def)

lemma bindE_InrE:
  assumes "bindE m f = Inr y"
  obtains x where "m = Inr x" and "f x = Inr y"
  using assms by (auto simp: bindE_eq_Inr)

text \<open>
  What holds of the value when there is one. The introduction rules walk through a definition by
  its branches and leave one goal for each of its returns, with what was done on the way.
\<close>

definition returns :: "'a result \<Rightarrow> ('a \<Rightarrow> bool) \<Rightarrow> bool" where
  "returns m Q \<longleftrightarrow> (\<forall>x. m = Inr x \<longrightarrow> Q x)"

named_theorems walk \<open>introduction rules for returns\<close>

lemma returnsI: "(\<And>x. m = Inr x \<Longrightarrow> Q x) \<Longrightarrow> returns m Q"
  by (simp add: returns_def)

lemma returnsD: "returns m Q \<Longrightarrow> m = Inr x \<Longrightarrow> Q x"
  by (simp add: returns_def)

lemma returns_bindE [walk]: "(\<And>x. m = Inr x \<Longrightarrow> returns (f x) Q) \<Longrightarrow> returns (bindE m f) Q"
  by (auto simp: returns_def bindE_eq_Inr)

lemma returns_if [walk]:
  "(b \<Longrightarrow> returns x Q) \<Longrightarrow> (\<not> b \<Longrightarrow> returns y Q) \<Longrightarrow> returns (if b then x else y) Q"
  by simp

lemma returns_prod [walk]:
  "(\<And>a b. p = (a, b) \<Longrightarrow> returns (f a b) Q) \<Longrightarrow> returns (case p of (a, b) \<Rightarrow> f a b) Q"
  by (cases p) simp

lemma returns_option [walk]:
  "(x = None \<Longrightarrow> returns m Q) \<Longrightarrow> (\<And>y. x = Some y \<Longrightarrow> returns (f y) Q) \<Longrightarrow>
   returns (case x of None \<Rightarrow> m | Some y \<Rightarrow> f y) Q"
  by (cases x) simp_all

lemma returns_list [walk]:
  "(xs = [] \<Longrightarrow> returns m Q) \<Longrightarrow> (\<And>y ys. xs = y # ys \<Longrightarrow> returns (f y ys) Q) \<Longrightarrow>
   returns (case xs of [] \<Rightarrow> m | y # ys \<Rightarrow> f y ys) Q"
  by (cases xs) simp_all

lemma returns_Inr [walk]: "Q x \<Longrightarrow> returns (Inr x) Q"
  by (simp add: returns_def)

lemma returns_Inl [walk]: "returns (Inl e) Q"
  by (simp add: returns_def)

lemma bindE_assoc: "bindE (bindE m f) g = bindE m (\<lambda>x. bindE (f x) g)"
  by (cases m) auto

lemma mapE_length: "mapE f xs = Inr ys \<Longrightarrow> length ys = length xs"
  by (induction xs arbitrary: ys) (auto simp: bindE_eq_Inr)

lemma mapE_all2: "mapE f xs = Inr ys \<Longrightarrow> list_all2 (\<lambda>x y. f x = Inr y) xs ys"
  by (induction xs arbitrary: ys) (auto simp: bindE_eq_Inr)

lemma mapE_Inr_iff: "mapE f xs = Inr ys \<longleftrightarrow> list_all2 (\<lambda>x y. f x = Inr y) xs ys"
  by (induction xs arbitrary: ys) (auto simp: bindE_eq_Inr list_all2_Cons1)

lemma mapE_pure: "(\<And>x. x \<in> set xs \<Longrightarrow> f x = Inr (g x)) \<Longrightarrow> mapE f xs = Inr (map g xs)"
  by (induction xs) auto

lemma mapE_id: "(\<And>x. x \<in> set xs \<Longrightarrow> f x = Inr x) \<Longrightarrow> mapE f xs = Inr xs"
  using mapE_pure [of xs f id] by simp

lemma foldE_append: "foldE f s (xs @ ys) = bindE (foldE f s xs) (\<lambda>s'. foldE f s' ys)"
  by (induction xs arbitrary: s) (simp_all add: bindE_assoc)

text \<open>A step that keeps a property, when it returns, keeps it over a whole loop.\<close>

lemma foldE_inv:
  assumes "foldE f s xs = Inr s'" and "P s"
    and "\<And>s x s'. x \<in> set xs \<Longrightarrow> P s \<Longrightarrow> f s x = Inr s' \<Longrightarrow> P s'"
  shows "P s'"
  using assms
proof (induction xs arbitrary: s)
  case Nil
  then show ?case by simp
next
  case (Cons x xs)
  from Cons.prems(1) obtain t where t: "f s x = Inr t" "foldE f t xs = Inr s'"
    by (auto simp: bindE_eq_Inr)
  with Cons.prems have "P t" by auto
  with t(2) Cons.prems(3) show ?case
    by (intro Cons.IH [of t]) auto
qed

section \<open>Collection functions of the code\<close>

text \<open>\<open>_.uniq\<close> keeps the first occurrence of each value.\<close>

fun uniqBy :: "('a \<Rightarrow> 'b) \<Rightarrow> 'a list \<Rightarrow> 'a list" where
  "uniqBy f [] = []"
| "uniqBy f (x # xs) = x # filter (\<lambda>y. f y \<noteq> f x) (uniqBy f xs)"

abbreviation uniq :: "'a list \<Rightarrow> 'a list" where
  "uniq \<equiv> uniqBy (\<lambda>x. x)"

text \<open>\<open>_.xor\<close>: the values of exactly one of two arrays, each once.\<close>

definition xorList :: "'a list \<Rightarrow> 'a list \<Rightarrow> 'a list" where
  "xorList xs ys = uniq (filter (\<lambda>x. x \<notin> set ys) xs @ filter (\<lambda>y. y \<notin> set xs) ys)"

text \<open>Reading an array at an index: undefined past the end.\<close>

definition nthOpt :: "'a list \<Rightarrow> nat \<Rightarrow> 'a option" where
  "nthOpt xs i = (if i < length xs then Some (xs ! i) else None)"

text \<open>\<open>findIndex\<close> returns -1 when no element matches.\<close>

fun findIndex :: "('a \<Rightarrow> bool) \<Rightarrow> 'a list \<Rightarrow> int" where
  "findIndex P [] = -1"
| "findIndex P (x # xs) =
     (if P x then 0 else (let i = findIndex P xs in if i = -1 then -1 else i + 1))"

text \<open>
  Mutating the object that \<open>find\<close> returned: the array is unchanged except at the first
  element that matches.
\<close>

fun updateFirst :: "('a \<Rightarrow> bool) \<Rightarrow> ('a \<Rightarrow> 'a) \<Rightarrow> 'a list \<Rightarrow> 'a list" where
  "updateFirst P f [] = []"
| "updateFirst P f (x # xs) = (if P x then f x # xs else x # updateFirst P f xs)"

text \<open>\<open>_.groupBy\<close> with the groups in the order of the keys' first occurrences.\<close>

definition groupBy :: "('a \<Rightarrow> 'b) \<Rightarrow> 'a list \<Rightarrow> ('b \<times> 'a list) list" where
  "groupBy f xs = map (\<lambda>k. (k, filter (\<lambda>x. f x = k) xs)) (uniq (map f xs))"

text \<open>Indices of the elements that satisfy a predicate: references into an array of objects.\<close>

definition refsWhere :: "('a \<Rightarrow> bool) \<Rightarrow> 'a list \<Rightarrow> nat list" where
  "refsWhere P xs = filter (\<lambda>i. P (xs ! i)) [0..<length xs]"

section \<open>Facts about them\<close>

lemma set_uniqBy_subset: "set (uniqBy f xs) \<subseteq> set xs"
  by (induction xs) auto

lemma image_uniqBy [simp]: "f ` set (uniqBy f xs) = f ` set xs"
proof (induction xs)
  case (Cons x xs)
  have "f ` {y \<in> set (uniqBy f xs). f y \<noteq> f x} = f ` set (uniqBy f xs) - {f x}"
    by auto
  then show ?case using Cons.IH by auto
qed simp

lemma set_uniq [simp]: "set (uniq xs) = set xs"
  using image_uniqBy [of "\<lambda>x. x" xs] by simp

lemma distinct_map_uniqBy: "distinct (map f (uniqBy f xs))"
  by (induction xs) (auto simp: distinct_map inj_on_def)

lemma distinct_uniq [simp]: "distinct (uniq xs)"
  using distinct_map_uniqBy [of "\<lambda>x. x" xs] by simp

lemma uniqBy_distinct: "distinct (map f xs) \<Longrightarrow> uniqBy f xs = xs"
proof (induction xs)
  case (Cons x xs)
  then have "filter (\<lambda>y. f y \<noteq> f x) xs = xs"
    by (intro filter_True ballI) (metis distinct.simps(2) image_eqI list.set_map list.simps(9))
  with Cons show ?case by simp
qed simp

lemma set_xorList: "set (xorList xs ys) = (set xs - set ys) \<union> (set ys - set xs)"
  by (auto simp: xorList_def)

lemma distinct_xorList [simp]: "distinct (xorList xs ys)"
  by (simp add: xorList_def)

lemma xorList_Nil_iff: "xorList xs ys = [] \<longleftrightarrow> set xs = set ys"
  using set_xorList [of xs ys] by (metis Diff_cancel Diff_eq_empty_iff Un_empty set_empty
      subset_antisym sup_bot.right_neutral)

lemma length_xorList: "length (xorList xs ys) = card ((set xs - set ys) \<union> (set ys - set xs))"
  by (metis distinct_card distinct_xorList set_xorList)

lemma findIndex_ge: "-1 \<le> findIndex P xs"
  by (induction xs) (auto simp: Let_def)

lemma findIndex_neg_iff: "findIndex P xs = -1 \<longleftrightarrow> (\<forall>x \<in> set xs. \<not> P x)"
proof (induction xs)
  case (Cons x xs)
  then show ?case using findIndex_ge [of P xs] by (auto simp: Let_def)
qed simp

lemma findIndex_nonneg:
  assumes "0 \<le> findIndex P xs"
  shows "nat (findIndex P xs) < length xs \<and> P (xs ! nat (findIndex P xs))"
  using assms
proof (induction xs)
  case (Cons x xs)
  show ?case
  proof (cases "P x")
    case False
    let ?i = "findIndex P xs"
    from False Cons.prems have i: "0 \<le> ?i" and e: "findIndex P (x # xs) = ?i + 1"
      using findIndex_ge [of P xs] by (auto simp: Let_def split: if_splits)
    from i have "nat (?i + 1) = Suc (nat ?i)" by simp
    with Cons.IH [OF i] e show ?thesis by simp
  qed simp
qed simp

lemma length_updateFirst [simp]: "length (updateFirst P f xs) = length xs"
  by (induction xs) auto

lemma map_updateFirst:
  "(\<And>x. P x \<Longrightarrow> g (f x) = g x) \<Longrightarrow> map g (updateFirst P f xs) = map g xs"
  by (induction xs) auto

lemma updateFirst_none: "(\<And>x. x \<in> set xs \<Longrightarrow> \<not> P x) \<Longrightarrow> updateFirst P f xs = xs"
  by (induction xs) auto

lemma sum_list_updateFirst:
  fixes g :: "'a \<Rightarrow> int"
  assumes "find P xs = Some y"
  shows "sum_list (map g (updateFirst P f xs)) = sum_list (map g xs) - g y + g (f y)"
  using assms by (induction xs) (auto split: if_splits)

lemma find_updateFirst_other:
  assumes "\<And>x. P x \<Longrightarrow> Q (f x) = Q x" and "\<And>x. P x \<Longrightarrow> \<not> Q x"
  shows "find Q (updateFirst P f xs) = find Q xs"
  using assms by (induction xs) auto

lemma find_updateFirst_same:
  assumes "\<And>x. P x \<Longrightarrow> P (f x)"
  shows "find P (updateFirst P f xs) = map_option f (find P xs)"
  using assms by (induction xs) auto

lemma find_SomeD: "find P xs = Some x \<Longrightarrow> x \<in> set xs \<and> P x"
  by (induction xs) (auto split: if_splits)

lemma find_Some_ex: "x \<in> set xs \<Longrightarrow> P x \<Longrightarrow> \<exists>y. find P xs = Some y"
  by (induction xs) auto

lemma find_unique_key:
  assumes "distinct (map k xs)" and "x \<in> set xs"
  shows "find (\<lambda>y. k y = k x) xs = Some x"
  using assms by (induction xs) auto

lemma refsWhere_iff: "i \<in> set (refsWhere P xs) \<longleftrightarrow> i < length xs \<and> P (xs ! i)"
  by (auto simp: refsWhere_def)

lemma distinct_refsWhere [simp]: "distinct (refsWhere P xs)"
  by (simp add: refsWhere_def)

lemma sum_list_nonneg_int: "(\<And>x. x \<in> set xs \<Longrightarrow> (0::int) \<le> x) \<Longrightarrow> 0 \<le> sum_list xs"
  by (induction xs) auto

lemma sum_list_map_filter_split:
  fixes g :: "'a \<Rightarrow> int"
  shows "sum_list (map g xs) =
    sum_list (map g (filter P xs)) + sum_list (map g (filter (\<lambda>x. \<not> P x) xs))"
  by (induction xs) auto

text \<open>Loops that update the elements at distinct indices, each from its own old value.\<close>

lemma length_fold_update [simp]: "length (fold (\<lambda>i xs. xs[i := h (xs ! i)]) idx xs) = length xs"
  by (induction idx arbitrary: xs) simp_all

lemma nth_fold_update:
  assumes "distinct idx" and "j < length xs"
  shows "fold (\<lambda>i xs. xs[i := h (xs ! i)]) idx xs ! j = (if j \<in> set idx then h (xs ! j) else xs ! j)"
  using assms
proof (induction idx arbitrary: xs)
  case (Cons i idx)
  then show ?case by (cases "j = i") (auto simp: nth_list_update)
qed simp

lemma foldE_update:
  assumes "foldE (\<lambda>xs i. if bad (xs ! i) then Inl e else Inr (xs[i := h (xs ! i)])) xs idx = Inr xs'"
    and "distinct idx" and "\<forall>i \<in> set idx. i < length xs"
  shows "xs' = fold (\<lambda>i xs. xs[i := h (xs ! i)]) idx xs \<and> (\<forall>i \<in> set idx. \<not> bad (xs ! i))"
  using assms
proof (induction idx arbitrary: xs)
  case (Cons i idx)
  from Cons.prems(1) have b: "\<not> bad (xs ! i)"
    and r: "foldE (\<lambda>xs i. if bad (xs ! i) then Inl e else Inr (xs[i := h (xs ! i)]))
      (xs[i := h (xs ! i)]) idx = Inr xs'"
    by (auto simp: bindE_eq_Inr split: if_splits)
  have "xs[i := h (xs ! i)] ! j = xs ! j" if "j \<in> set idx" for j
    using that Cons.prems(2) by (metis distinct.simps(2) nth_list_update_neq)
  with Cons.IH [OF r] Cons.prems b show ?case by auto
qed simp

lemma foldE_update_total:
  assumes "\<forall>i \<in> set idx. i < length xs \<and> \<not> bad (xs ! i)" and "distinct idx"
  shows "foldE (\<lambda>xs i. if bad (xs ! i) then Inl e else Inr (xs[i := h (xs ! i)])) xs idx =
    Inr (fold (\<lambda>i xs. xs[i := h (xs ! i)]) idx xs)"
  using assms
proof (induction idx arbitrary: xs)
  case (Cons i idx)
  have "xs[i := h (xs ! i)] ! j = xs ! j" if "j \<in> set idx" for j
    using that Cons.prems(2) by (metis distinct.simps(2) nth_list_update_neq)
  with Cons show ?case by auto
qed simp

lemma foldE_pure: "foldE (\<lambda>s x. Inr (g x s)) s xs = Inr (fold g xs s)"
  by (induction xs arbitrary: s) simp_all

lemma foldE_as_update:
  "(\<And>xs i. i \<in> set idx \<Longrightarrow> f xs i = Inr (xs[i := h (xs ! i)])) \<Longrightarrow>
   foldE f xs idx = Inr (fold (\<lambda>i xs. xs[i := h (xs ! i)]) idx xs)"
  by (induction idx arbitrary: xs) simp_all

text \<open>
  A loop over distinct indices whose step replaces, in the list its state holds, the element at its
  index by one it is related to: each named element is related to its old value, every other is
  untouched.
\<close>

lemma foldE_touch:
  assumes "foldE f s idx = Inr s'" and "distinct idx"
    and "\<And>i. i \<in> set idx \<Longrightarrow> i < length (g s) \<and> P (g s ! i)"
    and "\<And>s i s'. f s i = Inr s' \<Longrightarrow> P (g s ! i) \<Longrightarrow> \<exists>x. g s' = (g s)[i := x] \<and> R (g s ! i) x"
  shows "length (g s') = length (g s) \<and>
    (\<forall>j < length (g s). if j \<in> set idx then R (g s ! j) (g s' ! j) else g s' ! j = g s ! j)"
  using assms(1-3)
proof (induction idx arbitrary: s)
  case (Cons i idx)
  from Cons.prems(1) obtain t where t: "f s i = Inr t" "foldE f t idx = Inr s'"
    by (auto simp: bindE_eq_Inr)
  from assms(4) [OF t(1)] Cons.prems(3) obtain x where x: "g t = (g s)[i := x]" "R (g s ! i) x"
    by auto
  have same: "g t ! j = g s ! j" if "j \<noteq> i" for j
    using that x(1) by simp
  have len: "length (g t) = length (g s)" and at: "i < length (g s) \<Longrightarrow> g t ! i = x"
    using x(1) by simp_all
  have pre: "k < length (g t) \<and> P (g t ! k)" if "k \<in> set idx" for k
  proof -
    have "k \<noteq> i" using that Cons.prems(2) by auto
    with Cons.prems(3) [of k] that same len show ?thesis by simp
  qed
  have IH: "length (g s') = length (g t) \<and>
    (\<forall>j < length (g t). if j \<in> set idx then R (g t ! j) (g s' ! j) else g s' ! j = g t ! j)"
    by (rule Cons.IH [OF t(2)]) (use Cons.prems(2) pre in auto)
  show ?case
  proof (intro conjI allI impI)
    show "length (g s') = length (g s)" using IH len by simp
    fix j assume j: "j < length (g s)"
    show "if j \<in> set (i # idx) then R (g s ! j) (g s' ! j) else g s' ! j = g s ! j"
    proof (cases "j = i")
      case True
      with Cons.prems(2) IH len j have "g s' ! i = g t ! i" by auto
      with True x(2) at j show ?thesis by simp
    next
      case False
      with IH len j same [OF False] show ?thesis by auto
    qed
  qed
qed simp

lemma unchanged_update: "Q (xs ! i) \<Longrightarrow> \<exists>x. xs = xs[i := x] \<and> Q x"
  by (rule exI [of _ "xs ! i"]) simp

lemma insort_key_cong_on:
  "\<forall>y \<in> insert x (set ys). f y = g y \<Longrightarrow> insort_key f x ys = insort_key g x ys"
  by (induction ys) auto

lemma sort_key_cong_on: "(\<And>x. x \<in> set xs \<Longrightarrow> f x = g x) \<Longrightarrow> sort_key f xs = sort_key g xs"
  by (induction xs) (auto intro!: insort_key_cong_on)

lemmas result_splits = sum.splits option.splits if_splits

end
