(* ===== verification/AssetHolder.thy ===== *)
theory AssetHolder
  imports Prelude
begin

text \<open>
  \<open>packages/nitro-protocol/src/contract/multi-asset-holder.ts\<close>: the off-chain emulation of the
  adjudicator's payout arithmetic. \<open>computeTransferEffectsAndInteractions\<close> pays allocations out
  of a channel in priority order, \<open>computeClaimEffectsAndInteractions\<close> pays the beneficiaries
  of a target channel out of a guarantee in a source channel. Amounts are the integers that
  \<open>BigNumber.from\<close> reads from the hex strings. The two loops over array indices are
  recursions over the remaining items that carry the loop's variables.
\<close>

section \<open>Data\<close>

datatype allocation_type = Simple | WithdrawHelper | Guarantee

record exit_allocation =
  ea_destination :: string
  ea_amount :: int
  ea_metadata :: string
  ea_type :: allocation_type

definition minBN :: "int \<Rightarrow> int \<Rightarrow> int" where
  "minBN a b = (if a > b then b else a)"

lemma minBN_eq [simp]: "minBN a b = min a b"
  by (simp add: minBN_def min_def)

section \<open>Transfer\<close>

text \<open>
  The state of the loop: the new allocations and the exit allocations pushed so far, the running
  total, whether only zeros were allocated, the surplus and the cursor \<open>k\<close> into the indices.
\<close>

record transfer_loop =
  newAllocations :: "exit_allocation list"
  allocatesOnlyZeros :: bool
  exitAllocations :: "exit_allocation list"
  totalPayouts :: int
  surplus :: int
  cursor :: nat

definition emptyExit :: exit_allocation where
  "emptyExit = \<lparr>ea_destination = ''0x0000000000000000000000000000000000000000000000000000000000000000'',
     ea_amount = 0, ea_metadata = ''0x'', ea_type = Simple\<rparr>"

text \<open>\<open>indices.length == 0 || (k < indices.length && indices[k] === i)\<close>\<close>

definition paysOut :: "nat list \<Rightarrow> nat \<Rightarrow> nat \<Rightarrow> bool" where
  "paysOut indices k i \<longleftrightarrow> indices = [] \<or> (k < length indices \<and> indices ! k = i)"

definition transferStep ::
  "nat list \<Rightarrow> nat \<Rightarrow> exit_allocation \<Rightarrow> transfer_loop \<Rightarrow> transfer_loop" where
  "transferStep indices i a s =
     (let affords = minBN (ea_amount a) (surplus s);
          pay = paysOut indices (cursor s) i;
          newAmount = (if pay then ea_amount a - affords else ea_amount a)
      in s\<lparr>newAllocations := newAllocations s @ [a\<lparr>ea_amount := newAmount\<rparr>],
           exitAllocations := (if pay then (exitAllocations s)[cursor s := a\<lparr>ea_amount := affords\<rparr>]
                               else exitAllocations s),
           totalPayouts := (if pay then totalPayouts s + affords else totalPayouts s),
           cursor := (if pay then Suc (cursor s) else cursor s),
           allocatesOnlyZeros := (if newAmount \<noteq> 0 then False else allocatesOnlyZeros s),
           surplus := surplus s - affords\<rparr>)"

fun transferLoop ::
  "nat list \<Rightarrow> nat \<Rightarrow> exit_allocation list \<Rightarrow> transfer_loop \<Rightarrow> transfer_loop" where
  "transferLoop indices i [] s = s"
| "transferLoop indices i (a # as) s =
     transferLoop indices (Suc i) as (transferStep indices i a s)"

definition computeTransferEffectsAndInteractions ::
  "int \<Rightarrow> exit_allocation list \<Rightarrow> nat list \<Rightarrow> transfer_loop" where
  "computeTransferEffectsAndInteractions initialHoldings allocations indices =
     transferLoop indices 0 allocations
       \<lparr>newAllocations = [], allocatesOnlyZeros = True,
        exitAllocations =
          replicate (if length indices > 0 then length indices else length allocations) emptyExit,
        totalPayouts = 0, surplus = initialHoldings, cursor = 0\<rparr>"

section \<open>Claim\<close>

record claim_loop =
  newSourceAllocations :: "exit_allocation list"
  newTargetAllocations :: "exit_allocation list"
  claimExits :: "exit_allocation list"
  claimPayouts :: int
  targetSurplus :: int
  claimCursor :: nat

text \<open>The surplus left for the guarantee after the allocations of higher priority.\<close>

fun sourceSurplus :: "int \<Rightarrow> exit_allocation list \<Rightarrow> int" where
  "sourceSurplus s [] = s"
| "sourceSurplus s (a # as) =
     (if s = 0 then s else sourceSurplus (s - minBN (ea_amount a) s) as)"

text \<open>The body under the inner \<open>if\<close>, at target item \<open>i\<close>.\<close>

definition claimItem :: "nat list \<Rightarrow> nat \<Rightarrow> nat \<Rightarrow> claim_loop \<Rightarrow> claim_loop" where
  "claimItem indices g i s =
     (let affords = minBN (ea_amount (newTargetAllocations s ! i)) (targetSurplus s);
          pay = paysOut indices (claimCursor s) i
      in s\<lparr>targetSurplus := targetSurplus s - affords,
           newTargetAllocations := (if pay then (newTargetAllocations s)
             [i := (newTargetAllocations s ! i)\<lparr>ea_amount := ea_amount (newTargetAllocations s ! i) - affords\<rparr>]
             else newTargetAllocations s),
           newSourceAllocations := (if pay then (newSourceAllocations s)
             [g := (newSourceAllocations s ! g)\<lparr>ea_amount := ea_amount (newSourceAllocations s ! g) - affords\<rparr>]
             else newSourceAllocations s),
           claimExits := (if pay then (claimExits s)
             [i := (claimExits s ! i)\<lparr>ea_amount := ea_amount (claimExits s ! i) + affords\<rparr>]
             else claimExits s),
           claimPayouts := (if pay then claimPayouts s + affords else claimPayouts s),
           claimCursor := (if pay then Suc (claimCursor s) else claimCursor s)\<rparr>)"

text \<open>
  The inner loop searches the target allocations for the first item of the guarantee
  destination (compared as numbers) and stops there. \<open>bn\<close> is ethers' \<open>BigNumber.from\<close> on
  hex strings.
\<close>

fun claimSearch ::
  "(string \<Rightarrow> int) \<Rightarrow> nat list \<Rightarrow> nat \<Rightarrow> string \<Rightarrow> nat list \<Rightarrow> claim_loop \<Rightarrow> claim_loop" where
  "claimSearch bn indices g d [] s = s"
| "claimSearch bn indices g d (i # is) s =
     (if targetSurplus s = 0 then s
      else if bn d = bn (ea_destination (newTargetAllocations s ! i))
      then claimItem indices g i s
      else claimSearch bn indices g d is s)"

fun claimLoop ::
  "(string \<Rightarrow> int) \<Rightarrow> nat list \<Rightarrow> nat \<Rightarrow> string list \<Rightarrow> claim_loop \<Rightarrow> claim_loop" where
  "claimLoop bn indices g [] s = s"
| "claimLoop bn indices g (d # ds) s =
     (if targetSurplus s = 0 then s
      else claimLoop bn indices g ds
             (claimSearch bn indices g d [0..<length (newTargetAllocations s)] s))"

text \<open>
  \<open>decode\<close> is \<open>decodeGuaranteeData\<close>, ethers' ABI decoder. Reading \<open>.amount\<close> of an index past
  the end of the source allocations is a JavaScript TypeError.
\<close>

definition computeClaimEffectsAndInteractions ::
  "(string \<Rightarrow> int) \<Rightarrow> (string \<Rightarrow> string list) \<Rightarrow> int \<Rightarrow> exit_allocation list \<Rightarrow>
   exit_allocation list \<Rightarrow> nat \<Rightarrow> nat list \<Rightarrow> claim_loop result" where
  "computeClaimEffectsAndInteractions bn decode initialHoldings sources targets g indices =
     (if \<not> g < length sources then Inl TypeError
      else if ea_type (sources ! g) \<noteq> Guarantee then Inl (Error ''not a guarantee allocation'')
      else Inr (claimLoop bn indices g (decode (ea_metadata (sources ! g)))
        \<lparr>newSourceAllocations = sources, newTargetAllocations = targets,
         claimExits = map (\<lambda>a. a\<lparr>ea_amount := 0\<rparr>) targets, claimPayouts = 0,
         targetSurplus = minBN (sourceSurplus initialHoldings (take g sources))
                               (ea_amount (sources ! g)),
         claimCursor = 0\<rparr>))"

section \<open>Sums of amounts\<close>

definition totalAmounts :: "exit_allocation list \<Rightarrow> int" where
  "totalAmounts as = sum_list (map ea_amount as)"

lemma totalAmounts_simps [simp]:
  "totalAmounts [] = 0"
  "totalAmounts (a # as) = ea_amount a + totalAmounts as"
  "totalAmounts (as @ bs) = totalAmounts as + totalAmounts bs"
  by (simp_all add: totalAmounts_def)

lemma totalAmounts_update:
  "i < length as \<Longrightarrow> totalAmounts (as[i := b]) = totalAmounts as - ea_amount (as ! i) + ea_amount b"
  by (induction as arbitrary: i) (auto split: nat.split)

lemma totalAmounts_replicate_empty [simp]: "totalAmounts (replicate n emptyExit) = 0"
  by (induction n) (simp_all add: emptyExit_def)

lemma totalAmounts_zeroed [simp]: "totalAmounts (map (\<lambda>a. a\<lparr>ea_amount := 0\<rparr>) as) = 0"
  by (induction as) simp_all

section \<open>Transfer: the loop invariant\<close>

definition nonneg :: "exit_allocation list \<Rightarrow> bool" where
  "nonneg as \<longleftrightarrow> (\<forall>a \<in> set as. 0 \<le> ea_amount a)"

text \<open>
  What the loop keeps between its variables after the allocations \<open>done\<close>: nothing is created or
  lost, no more than the holdings is paid out, the exits past the cursor are still empty, and the
  flag records whether all new amounts are zero.
\<close>

definition transferInv ::
  "int \<Rightarrow> nat list \<Rightarrow> nat \<Rightarrow> exit_allocation list \<Rightarrow> transfer_loop \<Rightarrow> bool" where
  "transferInv h indices n finished s \<longleftrightarrow>
     length (newAllocations s) = length finished \<and>
     totalAmounts (newAllocations s) + totalPayouts s = totalAmounts finished \<and>
     totalAmounts (exitAllocations s) = totalPayouts s \<and>
     length (exitAllocations s) = n \<and>
     (\<forall>j. cursor s \<le> j \<and> j < n \<longrightarrow> ea_amount (exitAllocations s ! j) = 0) \<and>
     cursor s \<le> length finished \<and>
     0 \<le> totalPayouts s \<and> 0 \<le> surplus s \<and> totalPayouts s + surplus s \<le> h \<and>
     nonneg (newAllocations s) \<and>
     (allocatesOnlyZeros s \<longleftrightarrow> (\<forall>a \<in> set (newAllocations s). ea_amount a = 0))"

lemma transferStep_inv:
  assumes "transferInv h indices n finished s" and "0 \<le> ea_amount a"
    and "if indices = [] then length finished < n else n = length indices"
  shows "transferInv h indices n (finished @ [a]) (transferStep indices i a s)"
proof (cases "paysOut indices (cursor s) i")
  case True
  with assms have c: "cursor s < length (exitAllocations s)"
    by (auto simp: transferInv_def paysOut_def split: if_splits)
  with True assms show ?thesis
    by (auto simp: transferInv_def transferStep_def Let_def totalAmounts_update nth_list_update
        nonneg_def)
next
  case False
  with assms show ?thesis
    by (auto simp: transferInv_def transferStep_def Let_def nonneg_def)
qed

lemma transferLoop_inv:
  assumes "transferInv h indices n finished s" and "nonneg as"
    and "if indices = [] then length finished + length as \<le> n else n = length indices"
  shows "transferInv h indices n (finished @ as) (transferLoop indices i as s)"
  using assms
proof (induction as arbitrary: finished i s)
  case Nil
  then show ?case by simp
next
  case (Cons a as)
  have "transferInv h indices n (finished @ [a]) (transferStep indices i a s)"
    using Cons.prems by (intro transferStep_inv) (auto simp: nonneg_def split: if_splits)
  from Cons.IH [OF this] Cons.prems show ?case
    by (auto simp: nonneg_def split: if_splits)
qed

lemma transfer_inv:
  assumes "0 \<le> h" and "nonneg as"
  shows "transferInv h indices (if length indices > 0 then length indices else length as) as
    (computeTransferEffectsAndInteractions h as indices)"
proof -
  let ?n = "if length indices > 0 then length indices else length as"
  have z: "\<And>j n. j < n \<Longrightarrow> ea_amount (replicate n emptyExit ! j) = 0"
    by (simp add: emptyExit_def)
  have "transferInv h indices ?n ([] @ as) (computeTransferEffectsAndInteractions h as indices)"
    unfolding computeTransferEffectsAndInteractions_def
    by (rule transferLoop_inv) (use assms z in \<open>auto simp: transferInv_def nonneg_def\<close>)
  then show ?thesis by simp
qed

text \<open>
  C9: paying out of a channel neither creates nor destroys funds: what is left in the allocations
  plus what is paid out is what was allocated, the exit allocations carry exactly the payouts, and
  the payouts never exceed the holdings. The flag \<open>allocatesOnlyZeros\<close>, on which the contract
  deletes the stored outcome, is set exactly when nothing is left.
\<close>

theorem transfer_conserves_funds:
  assumes "0 \<le> holdings" and "\<forall>a \<in> set allocations. 0 \<le> ea_amount a"
    and "r = computeTransferEffectsAndInteractions holdings allocations indices"
  shows "totalAmounts (newAllocations r) + totalPayouts r = totalAmounts allocations \<and>
    totalAmounts (exitAllocations r) = totalPayouts r \<and>
    0 \<le> totalPayouts r \<and> totalPayouts r \<le> holdings \<and>
    (\<forall>a \<in> set (newAllocations r). 0 \<le> ea_amount a) \<and>
    (allocatesOnlyZeros r \<longleftrightarrow> (\<forall>a \<in> set (newAllocations r). ea_amount a = 0))"
  using transfer_inv [of holdings allocations indices] assms
  unfolding transferInv_def nonneg_def by auto

theorem transfer_conserves_funds_witness:
  "totalAmounts (newAllocations (computeTransferEffectsAndInteractions 5
      [\<lparr>ea_destination = ''0xA'', ea_amount = 3, ea_metadata = ''0x'', ea_type = Simple\<rparr>,
       \<lparr>ea_destination = ''0xB'', ea_amount = 4, ea_metadata = ''0x'', ea_type = Simple\<rparr>] [1])) = 5"
proof -
  let ?as = "[\<lparr>ea_destination = ''0xA'', ea_amount = 3, ea_metadata = ''0x'', ea_type = Simple\<rparr>,
       \<lparr>ea_destination = ''0xB'', ea_amount = 4, ea_metadata = ''0x'', ea_type = Simple\<rparr>]"
  have "totalPayouts (computeTransferEffectsAndInteractions 5 ?as [1]) = 2"
    by (simp add: computeTransferEffectsAndInteractions_def transferStep_def paysOut_def)
  with transfer_conserves_funds [of 5 ?as _ "[1]", OF _ _ refl] show ?thesis by simp
qed

section \<open>Transfer: closed form\<close>

text \<open>What the priority order leaves for item \<open>i\<close>.\<close>

definition payoutAt :: "int \<Rightarrow> exit_allocation list \<Rightarrow> nat \<Rightarrow> int" where
  "payoutAt h as i = min (ea_amount (as ! i)) (max 0 (h - totalAmounts (take i as)))"

lemma strict_sorted_cursor:
  assumes "sorted_wrt (<) idx" and "\<forall>x \<in> set (take k idx). x < i" and "\<forall>x \<in> set (drop k idx). i \<le> x"
  shows "(k < length idx \<and> idx ! k = i) \<longleftrightarrow> (i::nat) \<in> set idx"
proof
  assume "i \<in> set idx"
  with assms(2) have "i \<in> set (drop k idx)"
    by (metis Un_iff append_take_drop_id less_irrefl set_append)
  then obtain y ys where d: "drop k idx = y # ys" by (cases "drop k idx") auto
  have "sorted_wrt (<) (y # ys)"
    using sorted_wrt_drop [OF assms(1), of k] d by simp
  with \<open>i \<in> set (drop k idx)\<close> assms(3) d have "y = i" by force
  with d show "k < length idx \<and> idx ! k = i"
    by (metis drop_eq_Nil2 linorder_not_le list.discI nth_via_drop)
qed auto

definition cursorInv :: "nat list \<Rightarrow> nat \<Rightarrow> nat \<Rightarrow> bool" where
  "cursorInv idx k i \<longleftrightarrow>
     idx \<noteq> [] \<longrightarrow> ((\<forall>x \<in> set (take k idx). x < i) \<and> (\<forall>x \<in> set (drop k idx). i \<le> x))"

lemma paysOut_cursorInv:
  assumes "sorted_wrt (<) idx" and "cursorInv idx k i"
  shows "paysOut idx k i \<longleftrightarrow> idx = [] \<or> i \<in> set idx"
  using strict_sorted_cursor [OF assms(1), of k i] assms(2)
  by (auto simp: paysOut_def cursorInv_def)

lemma cursorInv_step:
  assumes "sorted_wrt (<) idx" and "cursorInv idx k i"
  shows "cursorInv idx (if paysOut idx k i then Suc k else k) (Suc i)"
proof (cases "idx = []")
  case False
  note inv = assms(2) [unfolded cursorInv_def, rule_format, OF False]
  show ?thesis
  proof (cases "paysOut idx k i")
    case True
    with False have k: "k < length idx" "idx ! k = i" by (auto simp: paysOut_def)
    have d: "drop k idx = i # drop (Suc k) idx"
      using k by (metis Cons_nth_drop_Suc)
    have "sorted_wrt (<) (i # drop (Suc k) idx)"
      using sorted_wrt_drop [OF assms(1), of k] d by simp
    with True inv k show ?thesis
      by (auto simp: cursorInv_def take_Suc_conv_app_nth)
  next
    case no: False
    with False paysOut_cursorInv [OF assms] have "i \<notin> set idx" by simp
    with no inv show ?thesis
      by (auto simp: cursorInv_def Suc_le_eq dest: in_set_dropD in_set_takeD
          intro: less_Suc_eq_le [THEN iffD2] order.strict_implies_order
          simp: order_less_le)
  qed
qed (simp add: cursorInv_def)

lemma transferLoop_closed:
  assumes "nonneg as" and "0 \<le> h" and "sorted_wrt (<) idx"
    and "as = finished @ rest" and "i = length finished"
    and "surplus s = max 0 (h - totalAmounts finished)" and "cursorInv idx (cursor s) i"
  shows "newAllocations (transferLoop idx i rest s) = newAllocations s @
    map (\<lambda>j. (as ! j)\<lparr>ea_amount := ea_amount (as ! j) -
      (if idx = [] \<or> j \<in> set idx then payoutAt h as j else 0)\<rparr>) [i..<length as]"
  using assms(4-)
proof (induction rest arbitrary: finished i s)
  case Nil
  then show ?case by simp
next
  case (Cons a rest)
  let ?s = "transferStep idx i a s"
  have nth: "as ! i = a" and tk: "take i as = finished" and lt: "i < length as"
    using Cons.prems by auto
  have a0: "0 \<le> ea_amount a" using assms(1) Cons.prems(1) by (auto simp: nonneg_def)
  have pay: "paysOut idx (cursor s) i \<longleftrightarrow> idx = [] \<or> i \<in> set idx"
    by (rule paysOut_cursorInv [OF assms(3) Cons.prems(4)])
  have "newAllocations (transferLoop idx (Suc i) rest ?s) = newAllocations ?s @
    map (\<lambda>j. (as ! j)\<lparr>ea_amount := ea_amount (as ! j) -
      (if idx = [] \<or> j \<in> set idx then payoutAt h as j else 0)\<rparr>) [Suc i..<length as]"
  proof (rule Cons.IH [of "finished @ [a]"])
    show "as = (finished @ [a]) @ rest" using Cons.prems by simp
    show "Suc i = length (finished @ [a])" using Cons.prems by simp
    show "surplus ?s = max 0 (h - totalAmounts (finished @ [a]))"
      using Cons.prems(3) a0 by (simp add: transferStep_def Let_def)
    show "cursorInv idx (cursor ?s) (Suc i)"
      using cursorInv_step [OF assms(3) Cons.prems(4)]
      by (simp add: transferStep_def Let_def)
  qed
  moreover have "newAllocations ?s = newAllocations s @ [a\<lparr>ea_amount := ea_amount a -
      (if idx = [] \<or> i \<in> set idx then payoutAt h as i else 0)\<rparr>]"
    using Cons.prems(3) nth tk pay by (simp add: transferStep_def Let_def payoutAt_def)
  ultimately show ?case
    using lt nth by (simp add: upt_conv_Cons)
qed

text \<open>
  for indices in increasing order (or none, meaning all), each allocation that is named keeps
  what the holdings cannot cover after the allocations before it are served, and every other
  allocation is left as it was. Destinations, metadata and types never change.
\<close>

theorem transfer_closed_form:
  assumes "0 \<le> holdings" and "\<forall>a \<in> set allocations. 0 \<le> ea_amount a"
    and "sorted_wrt (<) indices"
  shows "newAllocations (computeTransferEffectsAndInteractions holdings allocations indices) =
    map (\<lambda>j. (allocations ! j)\<lparr>ea_amount := ea_amount (allocations ! j) -
      (if indices = [] \<or> j \<in> set indices then payoutAt holdings allocations j else 0)\<rparr>)
      [0..<length allocations]"
proof -
  have n: "nonneg allocations" using assms(2) by (simp add: nonneg_def)
  show ?thesis
    unfolding computeTransferEffectsAndInteractions_def
    by (subst transferLoop_closed [OF n assms(1,3), where finished = "[]"])
       (use assms(1) in \<open>auto simp: cursorInv_def\<close>)
qed

theorem transfer_closed_form_witness:
  "map ea_amount (newAllocations (computeTransferEffectsAndInteractions 5
      [\<lparr>ea_destination = ''0xA'', ea_amount = 3, ea_metadata = ''0x'', ea_type = Simple\<rparr>,
       \<lparr>ea_destination = ''0xB'', ea_amount = 4, ea_metadata = ''0x'', ea_type = Simple\<rparr>] [1]))
   = [3, 2]"
  using transfer_closed_form [of 5 "[\<lparr>ea_destination = ''0xA'', ea_amount = 3, ea_metadata = ''0x'', ea_type = Simple\<rparr>,
       \<lparr>ea_destination = ''0xB'', ea_amount = 4, ea_metadata = ''0x'', ea_type = Simple\<rparr>]" "[1]"]
  by (simp add: upt_rec payoutAt_def)

section \<open>Claim: the loop invariant\<close>

lemma sourceSurplus_bounds:
  "0 \<le> h \<Longrightarrow> nonneg as \<Longrightarrow> 0 \<le> sourceSurplus h as \<and> sourceSurplus h as \<le> h"
proof (induction h as rule: sourceSurplus.induct)
  case (2 s a as)
  have a: "0 \<le> ea_amount a" and n: "nonneg as" using "2.prems"(2) by (auto simp: nonneg_def)
  show ?case
  proof (cases "s = 0")
    case False
    with "2.IH" "2.prems"(1) a n
    have "0 \<le> sourceSurplus (s - min (ea_amount a) s) as \<and>
      sourceSurplus (s - min (ea_amount a) s) as \<le> s - min (ea_amount a) s" by simp
    with False a "2.prems"(1) show ?thesis by auto
  qed simp
qed simp

text \<open>The surplus is what the holdings leave after the whole prefix is served.\<close>

lemma sourceSurplus_eq:
  "0 \<le> h \<Longrightarrow> nonneg as \<Longrightarrow> sourceSurplus h as = max 0 (h - totalAmounts as)"
proof (induction h as rule: sourceSurplus.induct)
  case (2 s a as)
  have a: "0 \<le> ea_amount a" and n: "nonneg as" using "2.prems"(2) by (auto simp: nonneg_def)
  have t: "0 \<le> totalAmounts as"
    using n unfolding totalAmounts_def nonneg_def by (intro sum_list_nonneg_int) auto
  show ?case
  proof (cases "s = 0")
    case False
    with "2.IH" "2.prems"(1) a n
    have "sourceSurplus (s - min (ea_amount a) s) as =
      max 0 (s - min (ea_amount a) s - totalAmounts as)" by simp
    with False a t show ?thesis by auto
  qed (use a t in simp)
qed simp

definition claimInv ::
  "int \<Rightarrow> nat \<Rightarrow> exit_allocation list \<Rightarrow> exit_allocation list \<Rightarrow> claim_loop \<Rightarrow> bool" where
  "claimInv c g sources targets s \<longleftrightarrow>
     newSourceAllocations s =
       sources[g := (sources ! g)\<lparr>ea_amount := ea_amount (sources ! g) - claimPayouts s\<rparr>] \<and>
     length (newTargetAllocations s) = length targets \<and>
     length (claimExits s) = length targets \<and>
     totalAmounts (newTargetAllocations s) + claimPayouts s = totalAmounts targets \<and>
     totalAmounts (claimExits s) = claimPayouts s \<and>
     0 \<le> claimPayouts s \<and> 0 \<le> targetSurplus s \<and> claimPayouts s + targetSurplus s \<le> c \<and>
     nonneg (newTargetAllocations s)"

lemma claimItem_inv:
  assumes inv: "claimInv c g sources targets s" and i: "i < length targets"
    and g: "g < length sources"
  shows "claimInv c g sources targets (claimItem indices g i s)"
proof -
  have a: "0 \<le> ea_amount (newTargetAllocations s ! i)"
    using inv i by (auto simp: claimInv_def nonneg_def)
  have nn: "nonneg ((newTargetAllocations s)[i := b])" if "0 \<le> ea_amount b" for b
    using inv that by (auto simp: claimInv_def nonneg_def dest!: set_update_subset_insert [THEN subsetD])
  show ?thesis
    using inv i g a
    by (auto simp: claimItem_def claimInv_def Let_def totalAmounts_update nn diff_diff_eq)
qed

lemma claimSearch_inv:
  assumes "claimInv c g sources targets s" and "\<forall>i \<in> set is. i < length targets"
    and "g < length sources"
  shows "claimInv c g sources targets (claimSearch bn indices g d is s)"
  using assms by (induction "is") (auto intro: claimItem_inv)

lemma claimLoop_inv:
  assumes "claimInv c g sources targets s" and "g < length sources"
  shows "claimInv c g sources targets (claimLoop bn indices g ds s)"
  using assms
proof (induction ds arbitrary: s)
  case (Cons d ds)
  have "claimInv c g sources targets
    (claimSearch bn indices g d [0..<length (newTargetAllocations s)] s)"
    using Cons.prems by (intro claimSearch_inv) (auto simp: claimInv_def)
  with Cons show ?case by simp
qed simp

text \<open>
  C10: a claim moves funds only between the guarantee and the target's beneficiaries. The guarantee
  item shrinks by exactly the payouts and no other source item changes; the target items shrink by
  exactly the payouts in total; the exits carry them; and the payouts are bounded by what the
  guarantee is worth, both by its own amount and by the holdings that the source items of higher
  priority leave for it.
\<close>

theorem claim_conserves_funds:
  assumes "0 \<le> holdings" and "\<forall>a \<in> set sources. 0 \<le> ea_amount a"
    and "\<forall>a \<in> set targets. 0 \<le> ea_amount a"
    and "computeClaimEffectsAndInteractions bn decode holdings sources targets g indices = Inr r"
  shows "newSourceAllocations r =
      sources[g := (sources ! g)\<lparr>ea_amount := ea_amount (sources ! g) - claimPayouts r\<rparr>] \<and>
    totalAmounts (newTargetAllocations r) + claimPayouts r = totalAmounts targets \<and>
    totalAmounts (claimExits r) = claimPayouts r \<and>
    0 \<le> claimPayouts r \<and> claimPayouts r \<le> ea_amount (sources ! g) \<and>
    claimPayouts r \<le> max 0 (holdings - totalAmounts (take g sources)) \<and>
    (\<forall>a \<in> set (newTargetAllocations r). 0 \<le> ea_amount a)"
proof -
  let ?c = "min (sourceSurplus holdings (take g sources)) (ea_amount (sources ! g))"
  from assms(4) have g: "g < length sources"
    and r: "r = claimLoop bn indices g (decode (ea_metadata (sources ! g)))
        \<lparr>newSourceAllocations = sources, newTargetAllocations = targets,
         claimExits = map (\<lambda>a. a\<lparr>ea_amount := 0\<rparr>) targets, claimPayouts = 0,
         targetSurplus = ?c, claimCursor = 0\<rparr>"
    by (auto simp: computeClaimEffectsAndInteractions_def split: if_splits)
  have n: "nonneg (take g sources)" and n': "nonneg targets"
    using assms(2,3) by (auto simp: nonneg_def dest: in_set_takeD)
  have "0 \<le> ea_amount (sources ! g)" using assms(2) g by auto
  with sourceSurplus_bounds [OF assms(1) n] have "0 \<le> ?c" by simp
  then have "claimInv ?c g sources targets r"
    unfolding r using g n' by (intro claimLoop_inv) (auto simp: claimInv_def)
  then show ?thesis
    using sourceSurplus_eq [OF assms(1) n] by (auto simp: claimInv_def nonneg_def)
qed

theorem claim_conserves_funds_witness:
  "\<exists>r. computeClaimEffectsAndInteractions (\<lambda>s. int (length s)) (\<lambda>m. [''aa'', ''b'']) 6
      [\<lparr>ea_destination = ''a'', ea_amount = 2, ea_metadata = ''0x'', ea_type = Simple\<rparr>,
       \<lparr>ea_destination = ''t'', ea_amount = 5, ea_metadata = ''0x'', ea_type = Guarantee\<rparr>]
      [\<lparr>ea_destination = ''c'', ea_amount = 3, ea_metadata = ''0x'', ea_type = Simple\<rparr>,
       \<lparr>ea_destination = ''dd'', ea_amount = 3, ea_metadata = ''0x'', ea_type = Simple\<rparr>] 1 [] = Inr r \<and>
    claimPayouts r = 4 \<and> totalAmounts (newTargetAllocations r) + claimPayouts r = 6"
proof -
  let ?src = "[\<lparr>ea_destination = ''a'', ea_amount = 2, ea_metadata = ''0x'', ea_type = Simple\<rparr>,
       \<lparr>ea_destination = ''t'', ea_amount = 5, ea_metadata = ''0x'', ea_type = Guarantee\<rparr>]"
  let ?tgt = "[\<lparr>ea_destination = ''c'', ea_amount = 3, ea_metadata = ''0x'', ea_type = Simple\<rparr>,
       \<lparr>ea_destination = ''dd'', ea_amount = 3, ea_metadata = ''0x'', ea_type = Simple\<rparr>]"
  let ?f = "computeClaimEffectsAndInteractions (\<lambda>s. int (length s)) (\<lambda>m. [''aa'', ''b'']) 6 ?src ?tgt 1 []"
  obtain r where r: "?f = Inr r" and p: "claimPayouts r = 4"
    by (simp add: computeClaimEffectsAndInteractions_def claimItem_def paysOut_def upt_rec)
  from claim_conserves_funds [OF _ _ _ r] p r show ?thesis by auto
qed

end
