(* ===== verification/CoreTypes.thy ===== *)
theory CoreTypes
  imports Prelude
begin

text \<open>
  The data of \<open>packages/wallet-core/src/types.ts\<close>: participants, outcomes, channel constants,
  states and signed states, objectives and their identifiers, and the branded strings. An
  interface is a record with the source's field names (a prefix keeps two interfaces apart where
  they share a field), a tagged union is a datatype with the source's tags, an optional field is
  an option. Turn numbers are integers, since the code computes differences such as
  \<open>latestTurnNum - 2\<close> on JavaScript numbers.
\<close>

section \<open>Functions of ethers the code calls\<close>

text \<open>
  ethers is not part of the repository. The code uses \<open>utils.getAddress\<close> (checksums an address,
  throws on anything else), \<open>utils.hexZeroPad\<close> (left-pads a hex string to a number of bytes,
  throws when it is longer) and \<open>utils.isAddress\<close>; they are parameters of the definitions that
  need them. A thrown exception is None.
\<close>

record ethers =
  getAddress :: "string \<Rightarrow> string option"
  hexZeroPad :: "string \<Rightarrow> nat \<Rightarrow> string option"
  isAddress :: "string \<Rightarrow> bool"

section \<open>Participants and outcomes\<close>

record participant =
  participantId :: string
  signingAddress :: address
  destination :: bytes32

record allocation_item =
  item_destination :: bytes32
  amount :: uint256

record simple_allocation =
  asset :: address
  allocationItems :: "allocation_item list"

record simple_guarantee =
  targetChannelId :: bytes32
  guarantee_asset :: address
  destinations :: "bytes32 list"

datatype outcome =
    SimpleAllocation simple_allocation
  | SimpleGuarantee simple_guarantee
  | MixedAllocation "simple_allocation list"

fun isAllocation :: "outcome \<Rightarrow> bool" where
  "isAllocation (SimpleGuarantee _) = False"
| "isAllocation _ = True"

section \<open>States\<close>

record channel_constants =
  chainId :: string
  participants :: "participant list"
  channelNonce :: int
  appDefinition :: address
  challengeDuration :: int

record state = channel_constants +
  outcome :: outcome
  turnNum :: int
  appData :: string
  isFinal :: bool

record signature_entry =
  signature :: string
  signer :: address

record signed_state = state +
  signatures :: "signature_entry list"

record signed_state_with_hash = signed_state +
  stateHash :: bytes32

text \<open>The variable parts of a state, the form in which a channel stores its states.\<close>

record state_variables =
  v_outcome :: outcome
  v_turnNum :: int
  v_appData :: string
  v_isFinal :: bool

record signed_vars = state_variables +
  v_signatures :: "signature_entry list"
  v_stateHash :: bytes32

text \<open>The object spread \<open>{...channelConstants, ...vars}\<close>.\<close>

definition spreadVars :: "channel_constants \<Rightarrow> signed_vars \<Rightarrow> signed_state_with_hash" where
  "spreadVars c v =
     \<lparr>chainId = chainId c, participants = participants c, channelNonce = channelNonce c,
      appDefinition = appDefinition c, challengeDuration = challengeDuration c,
      outcome = v_outcome v, turnNum = v_turnNum v, appData = v_appData v,
      isFinal = v_isFinal v, signatures = v_signatures v, stateHash = v_stateHash v\<rparr>"

lemma spreadVars_simps [simp]:
  "chainId (spreadVars c v) = chainId c"
  "participants (spreadVars c v) = participants c"
  "channelNonce (spreadVars c v) = channelNonce c"
  "appDefinition (spreadVars c v) = appDefinition c"
  "challengeDuration (spreadVars c v) = challengeDuration c"
  "outcome (spreadVars c v) = v_outcome v"
  "turnNum (spreadVars c v) = v_turnNum v"
  "appData (spreadVars c v) = v_appData v"
  "isFinal (spreadVars c v) = v_isFinal v"
  "signatures (spreadVars c v) = v_signatures v"
  "stateHash (spreadVars c v) = v_stateHash v"
  by (simp_all add: spreadVars_def)

section \<open>Objectives\<close>

datatype funding_strategy = Direct | Ledger | Virtual | Fake | UnknownStrategy

datatype role = AppRole | LedgerRole

record open_channel_data =
  oc_targetChannelId :: bytes32
  oc_fundingStrategy :: funding_strategy
  oc_role :: "role option"
  oc_fundingLedgerChannelId :: "bytes32 option"

record close_channel_data =
  cc_targetChannelId :: bytes32
  cc_fundingStrategy :: funding_strategy
  cc_txSubmitterOrder :: "int list"

record virtually_fund_data =
  vf_targetChannelId :: bytes32
  vf_jointChannelId :: bytes32

record fund_guarantor_data =
  fg_jointChannelId :: bytes32
  fg_ledgerId :: bytes32
  fg_guarantorId :: bytes32

text \<open>An objective carries its participants, its tag and the data of the tag.\<close>

datatype objective =
    OpenChannel "participant list" open_channel_data
  | CloseChannel "participant list" close_channel_data
  | VirtuallyFund "participant list" virtually_fund_data
  | FundGuarantor "participant list" fund_guarantor_data
  | FundLedger "participant list" bytes32
  | CloseLedger "participant list" bytes32
  | SubmitChallenge "participant list" bytes32
  | DefundChannel "participant list" bytes32

datatype objective_type =
    OpenChannelT | CloseChannelT | VirtuallyFundT | FundGuarantorT | FundLedgerT | CloseLedgerT
  | SubmitChallengeT | DefundChannelT

fun typeOf :: "objective \<Rightarrow> objective_type" where
  "typeOf (OpenChannel _ _) = OpenChannelT"
| "typeOf (CloseChannel _ _) = CloseChannelT"
| "typeOf (VirtuallyFund _ _) = VirtuallyFundT"
| "typeOf (FundGuarantor _ _) = FundGuarantorT"
| "typeOf (FundLedger _ _) = FundLedgerT"
| "typeOf (CloseLedger _ _) = CloseLedgerT"
| "typeOf (SubmitChallenge _ _) = SubmitChallengeT"
| "typeOf (DefundChannel _ _) = DefundChannelT"

fun typeName :: "objective_type \<Rightarrow> string" where
  "typeName OpenChannelT = ''OpenChannel''"
| "typeName CloseChannelT = ''CloseChannel''"
| "typeName VirtuallyFundT = ''VirtuallyFund''"
| "typeName FundGuarantorT = ''FundGuarantor''"
| "typeName FundLedgerT = ''FundLedger''"
| "typeName CloseLedgerT = ''CloseLedger''"
| "typeName SubmitChallengeT = ''SubmitChallenge''"
| "typeName DefundChannelT = ''DefundChannel''"

definition guard :: "objective_type \<Rightarrow> objective \<Rightarrow> bool" where
  "guard name o' \<longleftrightarrow> typeOf o' = name"

definition isOpenChannel :: "objective \<Rightarrow> bool" where
  "isOpenChannel = guard OpenChannelT"

definition isCloseChannel :: "objective \<Rightarrow> bool" where
  "isCloseChannel = guard CloseChannelT"

definition isSubmitChallenge :: "objective \<Rightarrow> bool" where
  "isSubmitChallenge = guard SubmitChallengeT"

definition isDefundChannel :: "objective \<Rightarrow> bool" where
  "isDefundChannel = guard DefundChannelT"

definition calculateObjectiveId :: "objective_type \<Rightarrow> bytes32 \<Rightarrow> string" where
  "calculateObjectiveId objectiveType channelId = typeName objectiveType @ ''-'' @ channelId"

text \<open>The channel an objective's identifier is built from.\<close>

fun objectiveChannel :: "objective \<Rightarrow> bytes32" where
  "objectiveChannel (OpenChannel _ d) = oc_targetChannelId d"
| "objectiveChannel (CloseChannel _ d) = cc_targetChannelId d"
| "objectiveChannel (VirtuallyFund _ d) = vf_targetChannelId d"
| "objectiveChannel (SubmitChallenge _ c) = c"
| "objectiveChannel (DefundChannel _ c) = c"
| "objectiveChannel (FundGuarantor _ d) = fg_guarantorId d"
| "objectiveChannel (FundLedger _ c) = c"
| "objectiveChannel (CloseLedger _ c) = c"

definition objectiveId :: "objective \<Rightarrow> string" where
  "objectiveId o' = calculateObjectiveId (typeOf o') (objectiveChannel o')"

section \<open>Channel requests and payloads\<close>

datatype channel_request = GetChannel bytes32

record payload =
  walletVersion :: string
  signedStates :: "signed_state list option"
  objectives :: "objective list option"
  requests :: "channel_request list option"

section \<open>Funding descriptions\<close>

datatype funding_kind =
    DirectFunding
  | IndirectFunding bytes32
  | VirtualFunding bytes32
  | GuaranteesFunding "bytes32 \<times> bytes32"
  | GuaranteeFunding bytes32

fun isIndirectFunding :: "funding_kind option \<Rightarrow> bool" where
  "isIndirectFunding (Some (IndirectFunding _)) = True"
| "isIndirectFunding _ = False"

fun isVirtualFunding :: "funding_kind option \<Rightarrow> bool" where
  "isVirtualFunding (Some (VirtualFunding _)) = True"
| "isVirtualFunding _ = False"

fun isGuarantee :: "funding_kind option \<Rightarrow> bool" where
  "isGuarantee (Some (GuaranteeFunding _)) = True"
| "isGuarantee _ = False"

fun isGuarantees :: "funding_kind option \<Rightarrow> bool" where
  "isGuarantees (Some (GuaranteesFunding _)) = True"
| "isGuarantees _ = False"

section \<open>Sums of amounts\<close>

text \<open>\<open>Array.prototype.reduce\<close> without an initial value throws on an empty array.\<close>

definition reduceAdd :: "uint256 list \<Rightarrow> uint256 result" where
  "reduceAdd xs = (if xs = [] then Inl TypeError else Inr (sum_list xs))"

lemma reduceAdd_Inr: "reduceAdd xs = Inr n \<longleftrightarrow> xs \<noteq> [] \<and> n = sum_list xs"
  by (auto simp: reduceAdd_def)

section \<open>Branded strings\<close>

definition isHexDigit :: "char \<Rightarrow> bool" where
  "isHexDigit c \<longleftrightarrow> c \<in> set ''0123456789abcdefABCDEF''"

definition toLowerChar :: "char \<Rightarrow> char" where
  "toLowerChar c =
     (case map_of (zip ''ABCDEFGHIJKLMNOPQRSTUVWXYZ'' ''abcdefghijklmnopqrstuvwxyz'') c of
        None \<Rightarrow> c | Some d \<Rightarrow> d)"

definition toLowerCase :: "string \<Rightarrow> string" where
  "toLowerCase = map toLowerChar"

text \<open>The regular expression \<open>^0x[0-9a-fA-F]{n}$\<close>.\<close>

definition matchesBytes :: "nat \<Rightarrow> string \<Rightarrow> bool" where
  "matchesBytes n s \<longleftrightarrow>
     length s = n + 2 \<and> take 2 s = ''0x'' \<and> list_all isHexDigit (drop 2 s)"

definition makeBytes :: "nat \<Rightarrow> string \<Rightarrow> string result" where
  "makeBytes n bytes =
     (if \<not> matchesBytes n bytes then Inl (Error (''Invalid byte string '' @ bytes))
      else Inr (toLowerCase bytes))"

definition makePrivateKey :: "string \<Rightarrow> string result" where
  "makePrivateKey = makeBytes 64"

definition makeAddress :: "ethers \<Rightarrow> string \<Rightarrow> address result" where
  "makeAddress eth input =
     (case getAddress eth input of None \<Rightarrow> Inl (Error ''invalid address'') | Some a \<Rightarrow> Inr a)"

section \<open>Facts\<close>

lemma typeName_no_dash: "CHR ''-'' \<notin> set (typeName t)"
  by (cases t) auto

lemma typeName_inj: "typeName s = typeName t \<Longrightarrow> s = t"
  by (cases s; cases t) auto

lemma split_at_first:
  assumes "xs @ c # ys = xs' @ c # ys'" and "c \<notin> set xs" and "c \<notin> set xs'"
  shows "xs = xs' \<and> ys = ys'"
  using assms
proof (induction xs arbitrary: xs')
  case Nil
  then show ?case by (cases xs') auto
next
  case (Cons x xs)
  then show ?case by (cases xs') auto
qed

lemma calculateObjectiveId_inj:
  "calculateObjectiveId s c = calculateObjectiveId t d \<longleftrightarrow> s = t \<and> c = d"
proof
  assume "calculateObjectiveId s c = calculateObjectiveId t d"
  then have "typeName s @ CHR ''-'' # c = typeName t @ CHR ''-'' # d"
    by (simp add: calculateObjectiveId_def)
  from split_at_first [OF this typeName_no_dash typeName_no_dash]
  show "s = t \<and> c = d" using typeName_inj by blast
qed simp

lemma toLowerChar_hex: "isHexDigit c \<Longrightarrow> isHexDigit (toLowerChar c)"
proof -
  have "list_all (\<lambda>c. isHexDigit (toLowerChar c)) ''0123456789abcdefABCDEF''"
    by code_simp
  then show "isHexDigit c \<Longrightarrow> isHexDigit (toLowerChar c)"
    unfolding list_all_iff isHexDigit_def [of c] by blast
qed

lemma toLowerChar_idem: "toLowerChar (toLowerChar c) = toLowerChar c"
proof (cases "map_of (zip ''ABCDEFGHIJKLMNOPQRSTUVWXYZ'' ''abcdefghijklmnopqrstuvwxyz'') c")
  case None
  then show ?thesis by (simp only: toLowerChar_def option.case)
next
  case (Some d)
  have "list_all (\<lambda>d. toLowerChar d = d) ''abcdefghijklmnopqrstuvwxyz''"
    by code_simp
  moreover from Some have "d \<in> set ''abcdefghijklmnopqrstuvwxyz''"
    by (meson map_of_SomeD set_zip_rightD)
  ultimately have "toLowerChar d = d"
    unfolding list_all_iff by blast
  with Some show ?thesis by (simp only: toLowerChar_def option.case)
qed

lemma toLowerCase_idem [simp]: "toLowerCase (toLowerCase s) = toLowerCase s"
  by (simp add: toLowerCase_def toLowerChar_idem)

lemma length_toLowerCase [simp]: "length (toLowerCase s) = length s"
  by (simp add: toLowerCase_def)

lemma makeBytes_matches:
  assumes "makeBytes n s = Inr t"
  shows "matchesBytes n t \<and> makeBytes n t = Inr t"
proof -
  from assms have m: "matchesBytes n s" and t: "t = toLowerCase s"
    by (auto simp: makeBytes_def split: if_splits)
  from m obtain ds where s: "s = CHR ''0'' # CHR ''x'' # ds" and ds: "list_all isHexDigit ds"
    unfolding matchesBytes_def
    by (metis append_Cons append_Nil append_take_drop_id)
  have "toLowerCase s = CHR ''0'' # CHR ''x'' # toLowerCase ds"
    by (simp add: s toLowerCase_def toLowerChar_def)
  moreover have "list_all isHexDigit (toLowerCase ds)"
    using ds by (auto simp: toLowerCase_def list_all_iff toLowerChar_hex)
  ultimately have "matchesBytes n t"
    using m by (simp add: matchesBytes_def t s)
  then show ?thesis by (simp add: makeBytes_def t)
qed

text \<open>
  Two objectives have the same identifier exactly when they have the same type and refer to
  the same channel, so the identifier is a sound primary key for the objectives table.
\<close>

theorem objectiveId_eq_iff:
  "objectiveId p = objectiveId q \<longleftrightarrow>
     typeOf p = typeOf q \<and> objectiveChannel p = objectiveChannel q"
  by (simp add: objectiveId_def calculateObjectiveId_inj)

end
