(* ===== verification/Outcomes.thy ===== *)
theory Outcomes
  imports CoreTypes
begin

text \<open>
  Outcomes as \<open>packages/wallet-core/src/utils/outcome.ts\<close> and \<open>state-utils.ts\<close> handle them:
  the type tests, \<open>makeDestination\<close>, \<open>allocateToTarget\<close>, equality of outcomes, \<open>nextState\<close>
  and the conversion to and from the outcome format of nitro-protocol.
\<close>

section \<open>Type tests and constructors\<close>

definition zeroAddress :: address where
  "zeroAddress = ''0x0000000000000000000000000000000000000000''"

fun isSimpleAllocation :: "outcome \<Rightarrow> bool" where
  "isSimpleAllocation (SimpleAllocation _) = True"
| "isSimpleAllocation _ = False"

fun isSimpleEthAllocation :: "outcome \<Rightarrow> bool" where
  "isSimpleEthAllocation (SimpleAllocation a) = (asset a = zeroAddress)"
| "isSimpleEthAllocation _ = False"

text \<open>\<open>checkThat\<close> names the failed test in its error; an object prints as \<open>[object Object]\<close>.\<close>

definition checkThat :: "string \<Rightarrow> ('a \<Rightarrow> bool) \<Rightarrow> 'a \<Rightarrow> 'a result" where
  "checkThat name isT t =
     (if \<not> isT t then Inl (Error (''not valid, '' @ name @ '' failed on [object Object]''))
      else Inr t)"

text \<open>\<open>checkThat(outcome, isSimpleAllocation)\<close> with the destructuring that follows it.\<close>

definition checkSimpleAllocation :: "outcome \<Rightarrow> simple_allocation result" where
  "checkSimpleAllocation o' =
     bindE (checkThat ''isSimpleAllocation'' isSimpleAllocation o')
       (\<lambda>o''. case o'' of SimpleAllocation a \<Rightarrow> Inr a | _ \<Rightarrow> Inl TypeError)"

definition assertSimpleEthAllocation :: "outcome \<Rightarrow> outcome result" where
  "assertSimpleEthAllocation = checkThat ''isSimpleEthAllocation'' isSimpleEthAllocation"

definition simpleEthAllocation :: "allocation_item list \<Rightarrow> outcome" where
  "simpleEthAllocation items = SimpleAllocation \<lparr>asset = zeroAddress, allocationItems = items\<rparr>"

definition simpleEthGuarantee :: "bytes32 \<Rightarrow> bytes32 list \<Rightarrow> outcome" where
  "simpleEthGuarantee target ds = SimpleGuarantee
     \<lparr>targetChannelId = target, guarantee_asset = zeroAddress, destinations = ds\<rparr>"

definition simpleTokenAllocation :: "address \<Rightarrow> allocation_item list \<Rightarrow> outcome" where
  "simpleTokenAllocation a items = SimpleAllocation \<lparr>asset = a, allocationItems = items\<rparr>"

definition areAllocationItemsEqual :: "allocation_item \<Rightarrow> allocation_item \<Rightarrow> bool" where
  "areAllocationItemsEqual a b \<longleftrightarrow>
     item_destination a = item_destination b \<and> amount a = amount b"

section \<open>Destinations\<close>

definition zeroPrefix :: string where
  "zeroPrefix = ''0x'' @ replicate 24 (CHR ''0'')"

definition padAddress :: "ethers \<Rightarrow> string \<Rightarrow> bytes32 result" where
  "padAddress eth s = bindE (makeAddress eth s)
     (\<lambda>a. case hexZeroPad eth a 32 of None \<Rightarrow> Inl (Error ''value out of range'') | Some d \<Rightarrow> Inr d)"

text \<open>An address has 42 characters, a destination 66.\<close>

definition makeDestination :: "ethers \<Rightarrow> string \<Rightarrow> bytes32 result" where
  "makeDestination eth s =
     (if length s = 42 then padAddress eth s
      else if length s = 66 then
        (if take (length zeroPrefix) s = zeroPrefix then padAddress eth (drop (length zeroPrefix) s)
         else Inr (toLowerCase s))
      else Inl (Error ''Invalid input''))"

section \<open>Allocating to a target channel\<close>

text \<open>The loop over the deductions: the running total and the items, which are updated in place.\<close>

definition deductItem ::
  "uint256 \<times> allocation_item list \<Rightarrow> allocation_item \<Rightarrow> (uint256 \<times> allocation_item list) result"
where
  "deductItem s t =
     (case s of (tot, items) \<Rightarrow>
        (case find (\<lambda>i. item_destination i = item_destination t) items of
           None \<Rightarrow> Inl (Error ''Destination missing from ledger channel'')
         | Some l \<Rightarrow>
             (if amount l - amount t < 0 then Inl (Error ''Insufficient funds in ledger channel'')
              else Inr (tot + amount t,
                        updateFirst (\<lambda>i. item_destination i = item_destination t)
                          (\<lambda>i. i\<lparr>amount := amount i - amount t\<rparr>) items))))"

definition allocateToTarget ::
  "ethers \<Rightarrow> outcome \<Rightarrow> allocation_item list \<Rightarrow> string \<Rightarrow> outcome result" where
  "allocateToTarget eth currentOutcome deductions targetId =
     (case currentOutcome of
        SimpleAllocation a \<Rightarrow>
          bindE (foldE deductItem (0, allocationItems a) (filter (\<lambda>i. amount i > 0) deductions))
            (\<lambda>(tot, items).
               bindE (makeDestination eth targetId)
                 (\<lambda>d. Inr (SimpleAllocation (a\<lparr>allocationItems :=
                    filter (\<lambda>i. amount i > 0)
                      (items @ [\<lparr>item_destination = d, amount = tot\<rparr>])\<rparr>))))
      | _ \<Rightarrow> Inl (Error ''Invalid outcome type''))"

section \<open>Equality of outcomes\<close>

definition simpleAllocationsEqual :: "simple_allocation \<Rightarrow> simple_allocation \<Rightarrow> bool" where
  "simpleAllocationsEqual left right \<longleftrightarrow>
     asset left = asset right \<and>
     length (allocationItems left) = length (allocationItems right) \<and>
     (\<forall>(v, w) \<in> set (zip (allocationItems left) (allocationItems right)).
        item_destination v = item_destination w \<and> amount v = amount w)"

fun outcomesEqual :: "outcome \<Rightarrow> outcome option \<Rightarrow> bool" where
  "outcomesEqual (SimpleAllocation l) (Some (SimpleAllocation r)) = simpleAllocationsEqual l r"
| "outcomesEqual (SimpleGuarantee l) (Some (SimpleGuarantee r)) = (l = r)"
| "outcomesEqual (MixedAllocation ls) (Some (MixedAllocation rs)) =
     (length ls = length rs \<and> (\<forall>(l, r) \<in> set (zip ls rs). simpleAllocationsEqual l r))"
| "outcomesEqual _ _ = False"

section \<open>Successor states\<close>

fun sameOutcomeType :: "outcome \<Rightarrow> outcome \<Rightarrow> bool" where
  "sameOutcomeType (SimpleAllocation _) (SimpleAllocation _) = True"
| "sameOutcomeType (SimpleGuarantee _) (SimpleGuarantee _) = True"
| "sameOutcomeType (MixedAllocation _) (MixedAllocation _) = True"
| "sameOutcomeType _ _ = False"

definition nextState :: "state \<Rightarrow> outcome \<Rightarrow> state result" where
  "nextState s o' =
     (if \<not> sameOutcomeType (outcome s) o' then Inl (Error ''Attempting to change outcome type'')
      else Inr (s\<lparr>turnNum := turnNum s + 1, outcome := o'\<rparr>))"

definition firstState :: "outcome \<Rightarrow> channel_constants \<Rightarrow> string option \<Rightarrow> state" where
  "firstState o' c data =
     \<lparr>chainId = (if chainId c = [] then ''0x01'' else chainId c), participants = participants c,
      channelNonce = channelNonce c, appDefinition = appDefinition c,
      challengeDuration = challengeDuration c, outcome = o', turnNum = 0,
      appData = (case data of None \<Rightarrow> ''0x'' | Some d \<Rightarrow> if d = [] then ''0x'' else d),
      isFinal = False\<rparr>"

section \<open>Conversion to and from the format of nitro-protocol\<close>

text \<open>
  The outcome type of the nitro-protocol package that wallet-core depends on: one entry per asset,
  either items or a guarantee.
\<close>

record nitro_guarantee =
  ng_targetChannelId :: bytes32
  ng_destinations :: "bytes32 list"

datatype nitro_asset_outcome =
    NitroItems address "allocation_item list"
  | NitroGuarantee address nitro_guarantee

type_synonym nitro_outcome = "nitro_asset_outcome list"

text \<open>
  \<open>convertAddressToBytes32\<close> of nitro-protocol: \<open>toHex\<close> is \<open>BigNumber.from(...).toHexString()\<close>.
\<close>

definition convertAddressToBytes32 ::
  "ethers \<Rightarrow> (string \<Rightarrow> string option) \<Rightarrow> string \<Rightarrow> bytes32 result" where
  "convertAddressToBytes32 eth toHex a =
     (case toHex a of None \<Rightarrow> Inl (Error ''invalid BigNumber string'')
      | Some normalized \<Rightarrow>
          if \<not> isAddress eth a then Inl (Error ''Input is not a valid Ethereum address.'')
          else (case hexZeroPad eth normalized 32 of
                  None \<Rightarrow> Inl (Error ''value out of range'') | Some d \<Rightarrow> Inr d))"

definition convertToNitroAllocationItems ::
  "ethers \<Rightarrow> (string \<Rightarrow> string option) \<Rightarrow> allocation_item list \<Rightarrow> allocation_item list result" where
  "convertToNitroAllocationItems eth toHex =
     mapE (\<lambda>a. bindE (if length (item_destination a) = 42
                      then convertAddressToBytes32 eth toHex (item_destination a)
                      else Inr (item_destination a))
                 (\<lambda>d. Inr \<lparr>item_destination = d, amount = amount a\<rparr>))"

definition convertFromNitroAllocationItems ::
  "ethers \<Rightarrow> allocation_item list \<Rightarrow> allocation_item list result" where
  "convertFromNitroAllocationItems eth =
     mapE (\<lambda>a. bindE (makeDestination eth (item_destination a))
                 (\<lambda>d. Inr \<lparr>item_destination = d, amount = amount a\<rparr>))"

definition simpleToNitro ::
  "ethers \<Rightarrow> (string \<Rightarrow> string option) \<Rightarrow> simple_allocation \<Rightarrow> nitro_outcome result" where
  "simpleToNitro eth toHex a =
     bindE (convertToNitroAllocationItems eth toHex (allocationItems a))
       (\<lambda>items. Inr [NitroItems (asset a) items])"

text \<open>
  A mixed outcome is converted by its 0th allocation only; with no allocation at all the code
  returns \<open>undefined\<close>, here None.
\<close>

fun convertToNitroOutcome ::
  "ethers \<Rightarrow> (string \<Rightarrow> string option) \<Rightarrow> outcome \<Rightarrow> nitro_outcome option result" where
  "convertToNitroOutcome eth toHex (SimpleAllocation a) =
     bindE (simpleToNitro eth toHex a) (\<lambda>n. Inr (Some n))"
| "convertToNitroOutcome eth toHex (SimpleGuarantee g) =
     Inr (Some [NitroGuarantee (guarantee_asset g)
       \<lparr>ng_targetChannelId = targetChannelId g, ng_destinations = destinations g\<rparr>])"
| "convertToNitroOutcome eth toHex (MixedAllocation as) =
     bindE (mapE (simpleToNitro eth toHex) as)
       (\<lambda>ns. Inr (case ns of [] \<Rightarrow> None | n # _ \<Rightarrow> Some n))"

fun fromNitroOutcome :: "ethers \<Rightarrow> nitro_outcome \<Rightarrow> outcome result" where
  "fromNitroOutcome eth [] = Inl TypeError"
| "fromNitroOutcome eth (NitroItems a items # _) =
     bindE (makeAddress eth a) (\<lambda>a'.
     bindE (convertFromNitroAllocationItems eth items) (\<lambda>items'.
       Inr (SimpleAllocation \<lparr>asset = a', allocationItems = items'\<rparr>)))"
| "fromNitroOutcome eth (NitroGuarantee a g # _) =
     bindE (makeAddress eth a) (\<lambda>a'.
       Inr (SimpleGuarantee \<lparr>targetChannelId = ng_targetChannelId g, guarantee_asset = a',
                             destinations = ng_destinations g\<rparr>))"

section \<open>Facts\<close>

definition itemsTotal :: "allocation_item list \<Rightarrow> int" where
  "itemsTotal items = sum_list (map amount items)"

lemma itemsTotal_simps [simp]:
  "itemsTotal [] = 0"
  "itemsTotal (i # is) = amount i + itemsTotal is"
  "itemsTotal (is @ js) = itemsTotal is + itemsTotal js"
  by (simp_all add: itemsTotal_def)

lemma checkSimpleAllocation_simps [simp]:
  "checkSimpleAllocation (SimpleAllocation a) = Inr a"
  "checkSimpleAllocation (SimpleGuarantee g) =
     Inl (Error ''not valid, isSimpleAllocation failed on [object Object]'')"
  "checkSimpleAllocation (MixedAllocation m) =
     Inl (Error ''not valid, isSimpleAllocation failed on [object Object]'')"
  by (simp_all add: checkSimpleAllocation_def checkThat_def)

lemma checkSimpleAllocation_Inr:
  "checkSimpleAllocation o' = Inr a \<longleftrightarrow> o' = SimpleAllocation a"
  by (cases o') auto

lemma simpleAllocationsEqual_iff: "simpleAllocationsEqual l r \<longleftrightarrow> l = r"
proof
  assume eq: "simpleAllocationsEqual l r"
  then have "list_all2 (=) (allocationItems l) (allocationItems r)"
    by (auto simp: simpleAllocationsEqual_def list_all2_iff)
  with eq show "l = r"
    by (auto simp: simpleAllocationsEqual_def list.rel_eq)
next
  assume "l = r"
  then show "simpleAllocationsEqual l r"
    by (auto simp: simpleAllocationsEqual_def in_set_zip)
qed

lemma itemsTotal_filter_pos:
  "(\<forall>i \<in> set is. 0 \<le> amount i) \<Longrightarrow> itemsTotal (filter (\<lambda>i. amount i > 0) is) = itemsTotal is"
  by (induction "is") auto

lemma updateFirst_nonneg:
  assumes "\<forall>i \<in> set is. 0 \<le> amount i" and "find P is = Some l" and "0 \<le> amount (f l)"
  shows "\<forall>i \<in> set (updateFirst P f is). 0 \<le> amount i"
  using assms by (induction "is") (auto split: if_splits)

lemma deductItem_keeps:
  assumes "deductItem (tot, items) t = Inr (tot', items')"
    and "\<forall>i \<in> set items. 0 \<le> amount i"
  shows "tot' = tot + amount t \<and> tot' + itemsTotal items' = tot + itemsTotal items \<and>
    (\<forall>i \<in> set items'. 0 \<le> amount i) \<and> map item_destination items' = map item_destination items"
proof -
  let ?P = "\<lambda>i. item_destination i = item_destination t"
  let ?f = "\<lambda>i. i\<lparr>amount := amount i - amount t\<rparr>"
  from assms(1) obtain l where l: "find ?P items = Some l" "\<not> amount l - amount t < 0"
    and r: "tot' = tot + amount t" "items' = updateFirst ?P ?f items"
    by (auto simp: deductItem_def split: option.splits if_splits)
  have "itemsTotal items' = itemsTotal items - amount t"
    using sum_list_updateFirst [OF l(1), of amount ?f] by (simp add: itemsTotal_def r)
  moreover have "\<forall>i \<in> set items'. 0 \<le> amount i"
    unfolding r(2) by (rule updateFirst_nonneg [OF assms(2) l(1)]) (use l(2) in simp)
  moreover have "map item_destination items' = map item_destination items"
    unfolding r(2) by (rule map_updateFirst) simp
  ultimately show ?thesis using r(1) by simp
qed

lemma foldE_deductItem:
  assumes "foldE deductItem (tot, items) ts = Inr (tot', items')"
    and "\<forall>i \<in> set items. 0 \<le> amount i"
  shows "tot' = tot + itemsTotal ts \<and> tot' + itemsTotal items' = tot + itemsTotal items \<and>
    (\<forall>i \<in> set items'. 0 \<le> amount i) \<and> map item_destination items' = map item_destination items"
  using assms
proof (induction ts arbitrary: tot items)
  case (Cons t ts)
  from Cons.prems(1) obtain s where s: "deductItem (tot, items) t = Inr s"
    "foldE deductItem s ts = Inr (tot', items')" by (auto simp: bindE_eq_Inr)
  obtain u js where sj: "s = (u, js)" by (cases s)
  note keep = deductItem_keeps [OF s(1) [unfolded sj] Cons.prems(2)]
  from keep have "\<forall>i \<in> set js. 0 \<le> amount i" by blast
  from Cons.IH [OF s(2) [unfolded sj] this] keep show ?case by simp
qed simp

text \<open>
  \<open>allocateToTarget\<close> only moves funds: when it returns, the total is unchanged, every item
  left is positive, the target channel's new item holds exactly the sum of the positive
  deductions, and the outcome stays an allocation of the same asset.
\<close>

theorem allocateToTarget_conserves:
  assumes "\<forall>i \<in> set (allocationItems a). 0 \<le> amount i"
    and "allocateToTarget eth (SimpleAllocation a) deductions target = Inr o'"
  shows "\<exists>items d. makeDestination eth target = Inr d \<and>
    o' = SimpleAllocation (a\<lparr>allocationItems := items\<rparr>) \<and>
    itemsTotal items = itemsTotal (allocationItems a) \<and>
    (\<forall>i \<in> set items. 0 < amount i) \<and>
    (let moved = itemsTotal (filter (\<lambda>i. amount i > 0) deductions)
     in moved \<noteq> 0 \<longrightarrow> items \<noteq> [] \<and> last items = \<lparr>item_destination = d, amount = moved\<rparr>)"
proof -
  let ?ts = "filter (\<lambda>i. amount i > 0) deductions"
  from assms(2) obtain tot items d
    where f: "foldE deductItem (0, allocationItems a) ?ts = Inr (tot, items)"
      and d: "makeDestination eth target = Inr d"
      and o': "o' = SimpleAllocation (a\<lparr>allocationItems :=
                    filter (\<lambda>i. amount i > 0) (items @ [\<lparr>item_destination = d, amount = tot\<rparr>])\<rparr>)"
    by (auto simp: allocateToTarget_def bindE_eq_Inr)
  from foldE_deductItem [OF f assms(1)]
  have k: "tot = itemsTotal ?ts" "tot + itemsTotal items = itemsTotal (allocationItems a)"
    "\<forall>i \<in> set items. 0 \<le> amount i" by auto
  have t: "0 \<le> tot"
    unfolding k(1) itemsTotal_def by (intro sum_list_nonneg_int) auto
  let ?new = "items @ [\<lparr>item_destination = d, amount = tot\<rparr>]"
  have "itemsTotal (filter (\<lambda>i. amount i > 0) ?new) = itemsTotal ?new"
    by (rule itemsTotal_filter_pos) (use k(3) t in auto)
  then have "itemsTotal (filter (\<lambda>i. amount i > 0) ?new) = itemsTotal (allocationItems a)"
    using k(2) by simp
  with d o' k(1) t show ?thesis
    by (intro exI [of _ "filter (\<lambda>i. amount i > 0) ?new"] exI [of _ d]) (auto simp: Let_def)
qed

theorem allocateToTarget_conserves_witness:
  "\<exists>items. allocateToTarget \<lparr>getAddress = Some, hexZeroPad = (\<lambda>s n. Some s), isAddress = (\<lambda>s. True)\<rparr>
      (simpleEthAllocation [\<lparr>item_destination = ''a'', amount = 5\<rparr>, \<lparr>item_destination = ''b'', amount = 2\<rparr>])
      [\<lparr>item_destination = ''a'', amount = 5\<rparr>] (replicate 42 (CHR ''c''))
    = Inr (simpleEthAllocation items) \<and> itemsTotal items = 7"
proof -
  let ?eth = "\<lparr>getAddress = Some, hexZeroPad = (\<lambda>s n. Some s), isAddress = (\<lambda>s. True)\<rparr>"
  let ?a = "\<lparr>asset = zeroAddress, allocationItems =
    [\<lparr>item_destination = ''a'', amount = 5\<rparr>, \<lparr>item_destination = ''b'', amount = 2\<rparr>]\<rparr>"
  obtain o' where r: "allocateToTarget ?eth (SimpleAllocation ?a)
      [\<lparr>item_destination = ''a'', amount = 5\<rparr>] (replicate 42 (CHR ''c'')) = Inr o'"
    by (simp add: allocateToTarget_def deductItem_def makeDestination_def padAddress_def
        makeAddress_def)
  from allocateToTarget_conserves [OF _ r] r show ?thesis
    by (auto simp: simpleEthAllocation_def)
qed

text \<open>
  \<open>outcomesEqual\<close>, which compares lengths, assets, destinations and amounts item by item,
  decides equality of outcomes.
\<close>

theorem outcomesEqual_iff: "outcomesEqual left right \<longleftrightarrow> right = Some left"
proof -
  have "simpleAllocationsEqual = (=)"
    by (intro ext) (simp add: simpleAllocationsEqual_iff)
  then have mixed: "length ls = length rs \<and> (\<forall>(l, r) \<in> set (zip ls rs). simpleAllocationsEqual l r)
    \<longleftrightarrow> rs = ls" for ls rs
    by (metis list.rel_eq list_all2_iff)
  show ?thesis
    by (cases "(left, right)" rule: outcomesEqual.cases)
       (auto simp only: outcomesEqual.simps simpleAllocationsEqual_iff mixed
        option.inject outcome.inject outcome.distinct option.distinct)
qed

end
