(* ===== verification/LedgerOutcome.thy ===== *)
theory LedgerOutcome
  imports Outcomes
begin

text \<open>
  \<open>packages/server-wallet/src/models/channel/outcome.ts\<close>: the class
  \<open>SimpleAllocationOutcome\<close>, through which a ledger channel funds and defunds other channels.
  An instance is the simple allocation it wraps. \<open>remove\<close> and \<open>add\<close> mutate item objects found
  by destination; the model updates the first item with that destination, which is the object
  \<open>find\<close> returned. A result of None is the code's \<open>undefined\<close>: the outcome is left as it was.
\<close>

section \<open>Queries\<close>

definition destinationsOf :: "simple_allocation \<Rightarrow> bytes32 list" where
  "destinationsOf a = map item_destination (allocationItems a)"

definition itemFor :: "simple_allocation \<Rightarrow> bytes32 \<Rightarrow> allocation_item option" where
  "itemFor a d = find (\<lambda>i. item_destination i = d) (allocationItems a)"

definition balanceFor :: "simple_allocation \<Rightarrow> bytes32 \<Rightarrow> uint256 option" where
  "balanceFor a d = map_option amount (itemFor a d)"

text \<open>\<open>_.zip\<close> pads the shorter array with undefined, which equals no item.\<close>

fun zipPadded :: "'a list \<Rightarrow> 'b list \<Rightarrow> ('a option \<times> 'b option) list" where
  "zipPadded [] [] = []"
| "zipPadded (x # xs) [] = (Some x, None) # zipPadded xs []"
| "zipPadded [] (y # ys) = (None, Some y) # zipPadded [] ys"
| "zipPadded (x # xs) (y # ys) = (Some x, Some y) # zipPadded xs ys"

fun allocationItemsEqual :: "allocation_item option \<Rightarrow> allocation_item option \<Rightarrow> bool" where
  "allocationItemsEqual (Some a) (Some b) =
     (item_destination a = item_destination b \<and> amount a = amount b)"
| "allocationItemsEqual _ _ = False"

definition isEqualTo :: "simple_allocation \<Rightarrow> simple_allocation option \<Rightarrow> bool" where
  "isEqualTo a other =
     (case other of None \<Rightarrow> False
      | Some b \<Rightarrow> asset a = asset b \<and>
          list_all (\<lambda>(i, j). allocationItemsEqual i j)
            (zipPadded (allocationItems a) (allocationItems b)))"

section \<open>Removing a channel\<close>

text \<open>
  \<open>item.amount = BN.add(item.amount, amt)\<close> on the item object of a destination. The item of the
  removed channel is no longer in the array, so crediting it has no effect on the outcome.
\<close>

definition credit ::
  "bytes32 \<Rightarrow> bytes32 \<times> uint256 \<Rightarrow> allocation_item list \<Rightarrow> allocation_item list" where
  "credit removed r items =
     (if fst r = removed then items
      else updateFirst (\<lambda>i. item_destination i = fst r) (\<lambda>i. i\<lparr>amount := amount i + snd r\<rparr>) items)"

definition removeChannel ::
  "simple_allocation \<Rightarrow> bytes32 \<Rightarrow> bytes32 list \<Rightarrow> uint256 list \<Rightarrow> simple_allocation option result"
where
  "removeChannel a channelId refundDestinations refundAmounts =
     (if length refundDestinations \<noteq> length refundAmounts
      then Inl (Error ''Destinations and amounts have different lengths'')
      else (case itemFor a channelId of
              None \<Rightarrow> Inr None
            | Some itemToRemove \<Rightarrow>
                if list_ex (\<lambda>d. itemFor a d = None) refundDestinations then Inr None
                else bindE (reduceAdd refundAmounts) (\<lambda>refund.
                  if amount itemToRemove \<noteq> refund then Inr None
                  else Inr (Some (a\<lparr>allocationItems :=
                    fold (credit channelId) (zip refundDestinations refundAmounts)
                      (filter (\<lambda>i. i \<noteq> itemToRemove) (allocationItems a))\<rparr>)))))"

section \<open>Adding a channel\<close>

definition debit :: "bytes32 \<times> uint256 \<Rightarrow> allocation_item list \<Rightarrow> allocation_item list" where
  "debit r items =
     updateFirst (\<lambda>i. item_destination i = fst r) (\<lambda>i. i\<lparr>amount := amount i - snd r\<rparr>) items"

definition affords :: "simple_allocation \<Rightarrow> bytes32 \<times> uint256 \<Rightarrow> bool" where
  "affords a r = (case itemFor a (fst r) of None \<Rightarrow> False | Some i \<Rightarrow> amount i \<ge> snd r)"

definition addChannel ::
  "ethers \<Rightarrow> simple_allocation \<Rightarrow> bytes32 \<Rightarrow> bytes32 list \<Rightarrow> uint256 list \<Rightarrow>
   simple_allocation option result"
where
  "addChannel eth a channelId fundingSources fundingAmounts =
     (if length fundingSources \<noteq> length fundingAmounts
      then Inl (Error ''Sources and amounts have different lengths'')
      else if \<not> list_all (affords a) (zip fundingSources fundingAmounts) then Inr None
      else bindE (makeDestination eth channelId) (\<lambda>d.
           bindE (reduceAdd fundingAmounts) (\<lambda>funding.
             Inr (Some (a\<lparr>allocationItems :=
               fold debit (zip fundingSources fundingAmounts)
                 (allocationItems a @ [\<lparr>item_destination = d, amount = funding\<rparr>])\<rparr>)))))"

section \<open>Facts\<close>

lemma isEqualTo_iff: "isEqualTo a other \<longleftrightarrow> other = Some a"
proof -
  have z: "list_all (\<lambda>(i, j). allocationItemsEqual i j) (zipPadded is js) \<longleftrightarrow> is = js" for "is" js
    by (induction "is" js rule: zipPadded.induct) auto
  show ?thesis
    by (cases other) (auto simp: isEqualTo_def z)
qed

lemma itemFor_iff: "itemFor a d = None \<longleftrightarrow> d \<notin> set (destinationsOf a)"
  unfolding itemFor_def destinationsOf_def find_None_iff by auto

lemma itemFor_SomeD: "itemFor a d = Some i \<Longrightarrow> i \<in> set (allocationItems a) \<and> item_destination i = d"
  unfolding itemFor_def by (rule find_SomeD)

lemma map_destination_debit [simp]: "map item_destination (debit r is) = map item_destination is"
  unfolding debit_def by (rule map_updateFirst) simp

lemma map_destination_credit [simp]:
  "map item_destination (credit c r is) = map item_destination is"
  unfolding credit_def by (auto intro: map_updateFirst)

lemma map_destination_fold_debit [simp]:
  "map item_destination (fold debit rs is) = map item_destination is"
  by (induction rs arbitrary: "is") simp_all

lemma map_destination_fold_credit [simp]:
  "map item_destination (fold (credit c) rs is) = map item_destination is"
  by (induction rs arbitrary: "is") simp_all

lemma find_iff_destination:
  "(\<exists>x. find (\<lambda>i. item_destination i = d) is = Some x) \<longleftrightarrow> d \<in> set (map item_destination is)"
  using find_None_iff [of "\<lambda>i. item_destination i = d" "is"]
  by (cases "find (\<lambda>i. item_destination i = d) is") auto

lemma itemsTotal_debit:
  assumes "fst r \<in> set (map item_destination is)"
  shows "itemsTotal (debit r is) = itemsTotal is - snd r"
proof -
  from assms obtain x where "find (\<lambda>i. item_destination i = fst r) is = Some x"
    using find_iff_destination by blast
  from sum_list_updateFirst [OF this] show ?thesis
    by (simp add: itemsTotal_def debit_def)
qed

lemma itemsTotal_credit:
  assumes "fst r \<in> set (map item_destination is)" and "fst r \<noteq> c"
  shows "itemsTotal (credit c r is) = itemsTotal is + snd r"
proof -
  from assms(1) obtain x where "find (\<lambda>i. item_destination i = fst r) is = Some x"
    using find_iff_destination by blast
  from sum_list_updateFirst [OF this] assms(2) show ?thesis
    by (simp add: itemsTotal_def credit_def)
qed

lemma itemsTotal_fold_debit:
  "set (map fst rs) \<subseteq> set (map item_destination is) \<Longrightarrow>
   itemsTotal (fold debit rs is) = itemsTotal is - sum_list (map snd rs)"
proof (induction rs arbitrary: "is")
  case (Cons r rs)
  have "itemsTotal (fold debit rs (debit r is)) = itemsTotal (debit r is) - sum_list (map snd rs)"
    by (rule Cons.IH, unfold map_destination_debit) (use Cons.prems in auto)
  with Cons.prems show ?case by (simp add: itemsTotal_debit)
qed simp

lemma itemsTotal_fold_credit:
  "set (map fst rs) \<subseteq> set (map item_destination is) - {c} \<Longrightarrow>
   itemsTotal (fold (credit c) rs is) = itemsTotal is + sum_list (map snd rs)"
proof (induction rs arbitrary: "is")
  case (Cons r rs)
  have "itemsTotal (fold (credit c) rs (credit c r is)) =
      itemsTotal (credit c r is) + sum_list (map snd rs)"
    by (rule Cons.IH, unfold map_destination_credit) (use Cons.prems in auto)
  with Cons.prems show ?case by (simp add: itemsTotal_credit)
qed simp

lemma addChannel_SomeD:
  assumes "addChannel eth a c ds amts = Inr (Some b)"
  obtains d where "makeDestination eth c = Inr d" "length ds = length amts" "amts \<noteq> []"
    "list_all (affords a) (zip ds amts)"
    "b = a\<lparr>allocationItems := fold debit (zip ds amts)
       (allocationItems a @ [\<lparr>item_destination = d, amount = sum_list amts\<rparr>])\<rparr>"
  using assms by (auto simp: addChannel_def bindE_eq_Inr reduceAdd_Inr split: if_splits)

lemma removeChannel_SomeD:
  assumes "removeChannel a c ds amts = Inr (Some b)"
  obtains r where "itemFor a c = Some r" "length ds = length amts" "amts \<noteq> []"
    "set ds \<subseteq> set (destinationsOf a)" "amount r = sum_list amts"
    "b = a\<lparr>allocationItems := fold (credit c) (zip ds amts)
       (filter (\<lambda>i. i \<noteq> r) (allocationItems a))\<rparr>"
  using assms
  by (auto simp: removeChannel_def bindE_eq_Inr reduceAdd_Inr list_ex_iff itemFor_iff
      split: if_splits option.splits)

lemma affords_destination: "affords a r \<Longrightarrow> fst r \<in> set (destinationsOf a)"
  using itemFor_iff [of a "fst r"] by (auto simp: affords_def split: option.splits)

definition allocationTotal :: "simple_allocation \<Rightarrow> int" where
  "allocationTotal a = itemsTotal (allocationItems a)"

lemma addChannel_total:
  assumes "addChannel eth a c ds amts = Inr (Some b)"
  shows "allocationTotal b = allocationTotal a"
proof -
  from assms obtain d where len: "length ds = length amts"
    and aff: "list_all (affords a) (zip ds amts)"
    and b: "b = a\<lparr>allocationItems := fold debit (zip ds amts)
       (allocationItems a @ [\<lparr>item_destination = d, amount = sum_list amts\<rparr>])\<rparr>"
    by (rule addChannel_SomeD)
  have "set (map fst (zip ds amts)) \<subseteq> set (destinationsOf a)"
    using aff affords_destination by (force simp: list_all_iff)
  then have "itemsTotal (fold debit (zip ds amts)
      (allocationItems a @ [\<lparr>item_destination = d, amount = sum_list amts\<rparr>])) =
    itemsTotal (allocationItems a) + sum_list amts - sum_list (map snd (zip ds amts))"
    by (subst itemsTotal_fold_debit) (auto simp: destinationsOf_def)
  with len show ?thesis by (simp add: allocationTotal_def b)
qed

lemma filter_remove_unique:
  assumes "distinct (map item_destination is)" and "r \<in> set is"
  shows "itemsTotal (filter (\<lambda>i. i \<noteq> r) is) = itemsTotal is - amount r \<and>
    set (map item_destination (filter (\<lambda>i. i \<noteq> r) is)) =
      set (map item_destination is) - {item_destination r}"
  using assms
proof (induction "is")
  case (Cons i "is")
  show ?case
  proof (cases "i = r")
    case True
    with Cons.prems have "r \<notin> set is" by auto
    then have "filter (\<lambda>i. i \<noteq> r) is = is" by (intro filter_True) auto
    with True Cons.prems show ?thesis by auto
  next
    case False
    with Cons show ?thesis by auto
  qed
qed simp

lemma removeChannel_total:
  assumes "removeChannel a c ds amts = Inr (Some b)"
    and dist: "distinct (destinationsOf a)" and c: "c \<notin> set ds"
  shows "allocationTotal b = allocationTotal a"
proof -
  from assms(1) obtain r where r: "itemFor a c = Some r" and len: "length ds = length amts"
    and sub: "set ds \<subseteq> set (destinationsOf a)" and amt: "amount r = sum_list amts"
    and b: "b = a\<lparr>allocationItems := fold (credit c) (zip ds amts)
       (filter (\<lambda>i. i \<noteq> r) (allocationItems a))\<rparr>"
    by (rule removeChannel_SomeD)
  note f = filter_remove_unique [OF dist [unfolded destinationsOf_def], of r]
  from itemFor_SomeD [OF r] have rin: "r \<in> set (allocationItems a)" "item_destination r = c" by auto
  have "set (map fst (zip ds amts)) = set ds"
    using len by (simp add: map_fst_zip)
  then have "set (map fst (zip ds amts)) \<subseteq>
    set (map item_destination (filter (\<lambda>i. i \<noteq> r) (allocationItems a))) - {c}"
    using sub c f rin by (auto simp: destinationsOf_def)
  then have "itemsTotal (allocationItems b) =
    itemsTotal (filter (\<lambda>i. i \<noteq> r) (allocationItems a)) + sum_list (map snd (zip ds amts))"
    unfolding b by (simp add: itemsTotal_fold_credit del: set_map)
  with f rin amt len show ?thesis by (simp add: allocationTotal_def)
qed

section \<open>Amounts stay non-negative\<close>

lemma find_append_Some: "find P xs = Some y \<Longrightarrow> find P (xs @ ys) = Some y"
  by (induction xs) auto

lemma find_append_None: "find P xs = None \<Longrightarrow> find P (xs @ ys) = find P ys"
  by (induction xs) (auto split: if_splits)

lemma updateFirst_append:
  "find P xs = Some y \<Longrightarrow> updateFirst P f (xs @ ys) = updateFirst P f xs @ ys"
  by (induction xs) auto

lemma find_debit_other:
  assumes "d \<noteq> fst r"
  shows "find (\<lambda>i. item_destination i = d) (debit r is) = find (\<lambda>i. item_destination i = d) is"
  unfolding debit_def by (rule find_updateFirst_other) (use assms in auto)

lemma fold_debit_nonneg:
  assumes "\<forall>i \<in> set is. 0 \<le> amount i" and "distinct (map fst rs)"
    and "\<forall>r \<in> set rs. \<exists>l. find (\<lambda>i. item_destination i = fst r) is = Some l \<and> snd r \<le> amount l"
  shows "\<forall>i \<in> set (fold debit rs is). 0 \<le> amount i"
  using assms
proof (induction rs arbitrary: "is")
  case (Cons r rs)
  from Cons.prems(3) obtain l where l: "find (\<lambda>i. item_destination i = fst r) is = Some l"
    "snd r \<le> amount l" by auto
  have "\<forall>i \<in> set (debit r is). 0 \<le> amount i"
    unfolding debit_def by (rule updateFirst_nonneg [OF Cons.prems(1) l(1)]) (use l(2) in simp)
  moreover have "\<forall>r' \<in> set rs. \<exists>l. find (\<lambda>i. item_destination i = fst r') (debit r is) = Some l \<and>
      snd r' \<le> amount l"
  proof
    fix r' assume r': "r' \<in> set rs"
    with Cons.prems(2) have "fst r' \<noteq> fst r" by (metis distinct.simps(2) image_eqI list.set_map list.simps(9))
    from find_debit_other [OF this] r' Cons.prems(3) show "\<exists>l. find (\<lambda>i. item_destination i = fst r')
      (debit r is) = Some l \<and> snd r' \<le> amount l" by simp
  qed
  ultimately show ?case using Cons.IH Cons.prems(2) by simp
qed simp

lemma credit_nonneg:
  "\<forall>i \<in> set is. 0 \<le> amount i \<Longrightarrow> 0 \<le> snd r \<Longrightarrow> \<forall>i \<in> set (credit c r is). 0 \<le> amount i"
proof -
  have "\<forall>i \<in> set is. 0 \<le> amount i \<Longrightarrow> 0 \<le> n \<Longrightarrow>
    \<forall>i \<in> set (updateFirst P (\<lambda>i. i\<lparr>amount := amount i + n\<rparr>) is). 0 \<le> amount i" for n P "is"
    by (induction "is") auto
  from this [of "is" "snd r"]
  show "\<forall>i \<in> set is. 0 \<le> amount i \<Longrightarrow> 0 \<le> snd r \<Longrightarrow> \<forall>i \<in> set (credit c r is). 0 \<le> amount i"
    unfolding credit_def by presburger
qed

lemma fold_credit_nonneg:
  "\<forall>i \<in> set is. 0 \<le> amount i \<Longrightarrow> \<forall>r \<in> set rs. 0 \<le> snd r \<Longrightarrow>
   \<forall>i \<in> set (fold (credit c) rs is). 0 \<le> amount i"
proof (induction rs arbitrary: "is")
  case (Cons r rs)
  then show ?case using credit_nonneg [of "is" r c] by simp
qed simp

definition allocationNonneg :: "simple_allocation \<Rightarrow> bool" where
  "allocationNonneg a \<longleftrightarrow> (\<forall>i \<in> set (allocationItems a). 0 \<le> amount i)"

lemma addChannel_nonneg:
  assumes "addChannel eth a c ds amts = Inr (Some b)" and "allocationNonneg a"
    and "distinct ds" and "\<forall>n \<in> set amts. 0 \<le> n"
  shows "allocationNonneg b"
proof -
  from assms(1) obtain d where len: "length ds = length amts"
    and aff: "list_all (affords a) (zip ds amts)"
    and b: "b = a\<lparr>allocationItems := fold debit (zip ds amts)
       (allocationItems a @ [\<lparr>item_destination = d, amount = sum_list amts\<rparr>])\<rparr>"
    by (rule addChannel_SomeD)
  have "\<forall>i \<in> set (fold debit (zip ds amts)
      (allocationItems a @ [\<lparr>item_destination = d, amount = sum_list amts\<rparr>])). 0 \<le> amount i"
  proof (rule fold_debit_nonneg)
    show "\<forall>i \<in> set (allocationItems a @ [\<lparr>item_destination = d, amount = sum_list amts\<rparr>]). 0 \<le> amount i"
      using assms(2,4) by (auto simp: allocationNonneg_def intro: sum_list_nonneg_int)
    show "distinct (map fst (zip ds amts))" using len assms(3) by (simp add: map_fst_zip)
    show "\<forall>r \<in> set (zip ds amts). \<exists>l. find (\<lambda>i. item_destination i = fst r)
        (allocationItems a @ [\<lparr>item_destination = d, amount = sum_list amts\<rparr>]) = Some l \<and>
        snd r \<le> amount l"
    proof
      fix r assume "r \<in> set (zip ds amts)"
      with aff have "affords a r" unfolding list_all_iff by blast
      then obtain l where "find (\<lambda>i. item_destination i = fst r) (allocationItems a) = Some l"
        "snd r \<le> amount l" by (auto simp: affords_def itemFor_def split: option.splits)
      from find_append_Some [OF this(1)] this(2)
      show "\<exists>l. find (\<lambda>i. item_destination i = fst r)
        (allocationItems a @ [\<lparr>item_destination = d, amount = sum_list amts\<rparr>]) = Some l \<and>
        snd r \<le> amount l" by blast
    qed
  qed
  then show ?thesis by (simp add: allocationNonneg_def b)
qed

lemma removeChannel_nonneg:
  assumes "removeChannel a c ds amts = Inr (Some b)" and "allocationNonneg a"
    and "\<forall>n \<in> set amts. 0 \<le> n"
  shows "allocationNonneg b"
proof -
  from assms(1) obtain r where b: "b = a\<lparr>allocationItems := fold (credit c) (zip ds amts)
       (filter (\<lambda>i. i \<noteq> r) (allocationItems a))\<rparr>"
    by (rule removeChannel_SomeD)
  have "\<forall>i \<in> set (fold (credit c) (zip ds amts) (filter (\<lambda>i. i \<noteq> r) (allocationItems a))). 0 \<le> amount i"
    by (rule fold_credit_nonneg)
       (use assms(2,3) in \<open>auto simp: allocationNonneg_def dest: set_zip_rightD\<close>)
  then show ?thesis by (simp add: allocationNonneg_def b)
qed

section \<open>Adding and removing are inverse\<close>

lemma updateFirst_commute:
  assumes "\<And>x. P (g x) = P x" and "\<And>x. Q (f x) = Q x" and "\<And>x. P x \<Longrightarrow> Q x \<Longrightarrow> f (g x) = g (f x)"
    and "\<And>x y. P x \<Longrightarrow> Q x \<Longrightarrow> P y = Q y"
  shows "updateFirst P f (updateFirst Q g xs) = updateFirst Q g (updateFirst P f xs)"
  using assms by (induction xs) auto

lemma updateFirst_inverse:
  assumes "\<And>x. P (f x) = P x" and "\<And>x. g (f x) = x"
  shows "updateFirst P g (updateFirst P f xs) = xs"
  using assms by (induction xs) auto

lemma credit_debit_commute: "credit c r (debit r' is) = debit r' (credit c r is)"
  unfolding credit_def debit_def by (auto intro!: updateFirst_commute)

lemma credit_fold_debit: "credit c r (fold debit rs is) = fold debit rs (credit c r is)"
  by (induction rs arbitrary: "is") (simp_all add: credit_debit_commute)

lemma credit_debit_inverse: "fst r \<noteq> c \<Longrightarrow> credit c r (debit r is) = is"
  unfolding credit_def debit_def by (simp add: updateFirst_inverse)

lemma fold_credit_debit:
  "c \<notin> set (map fst rs) \<Longrightarrow> fold (credit c) rs (fold debit rs is) = is"
proof (induction rs arbitrary: "is")
  case (Cons r rs)
  then have "fst r \<noteq> c" by auto
  with Cons show ?case by (simp add: credit_fold_debit credit_debit_inverse)
qed simp

lemma fold_debit_append:
  "set (map fst rs) \<subseteq> set (map item_destination is) \<Longrightarrow>
   fold debit rs (is @ js) = fold debit rs is @ js"
proof (induction rs arbitrary: "is")
  case (Cons r rs)
  from Cons.prems obtain y where "find (\<lambda>i. item_destination i = fst r) is = Some y"
    using find_iff_destination [of "fst r" "is"] by auto
  from updateFirst_append [OF this] have "debit r (is @ js) = debit r is @ js"
    by (simp add: debit_def)
  moreover have "set (map fst rs) \<subseteq> set (map item_destination (debit r is))"
    unfolding map_destination_debit using Cons.prems by simp
  ultimately show ?case using Cons.IH [of "debit r is"] by (simp del: set_map)
qed simp

text \<open>
  funding a channel from a ledger and then defunding it with the same amounts gives back the
  ledger outcome exactly as it was, item order included.
\<close>

theorem removeChannel_addChannel:
  assumes "addChannel eth a c ds amts = Inr (Some b)"
    and "makeDestination eth c = Inr c" and "c \<notin> set (destinationsOf a)"
  shows "removeChannel b c ds amts = Inr (Some a)"
proof -
  let ?x = "\<lparr>item_destination = c, amount = sum_list amts\<rparr>"
  from assms(1,2) obtain d where len: "length ds = length amts" and ne: "amts \<noteq> []"
    and aff: "list_all (affords a) (zip ds amts)" and "makeDestination eth c = Inr d"
    and b: "b = a\<lparr>allocationItems := fold debit (zip ds amts)
       (allocationItems a @ [\<lparr>item_destination = d, amount = sum_list amts\<rparr>])\<rparr>"
    by (metis addChannel_SomeD)
  with assms(2) have d: "d = c" by simp
  have fst: "set (map fst (zip ds amts)) = set ds" using len by (simp add: map_fst_zip)
  have sub: "set ds \<subseteq> set (destinationsOf a)"
    using aff affords_destination fst unfolding list_all_iff by (metis image_subsetI set_map)
  with assms(3) have c: "c \<notin> set (map fst (zip ds amts))" using fst by auto
  have items: "allocationItems b = fold debit (zip ds amts) (allocationItems a) @ [?x]"
    unfolding b d using fold_debit_append [of "zip ds amts" "allocationItems a" "[?x]"] sub fst
    by (simp add: destinationsOf_def del: set_map)
  have dests: "destinationsOf b = destinationsOf a @ [c]"
    by (simp add: destinationsOf_def items)
  have "\<forall>i \<in> set (fold debit (zip ds amts) (allocationItems a)). item_destination i \<noteq> c"
  proof
    fix i assume "i \<in> set (fold debit (zip ds amts) (allocationItems a))"
    then have "item_destination i \<in> set (map item_destination (fold debit (zip ds amts) (allocationItems a)))"
      unfolding set_map by (rule imageI)
    with assms(3) show "item_destination i \<noteq> c"
      unfolding map_destination_fold_debit by (auto simp: destinationsOf_def)
  qed
  then have "find (\<lambda>i. item_destination i = c) (fold debit (zip ds amts) (allocationItems a)) = None"
    and f: "filter (\<lambda>i. i \<noteq> ?x) (fold debit (zip ds amts) (allocationItems a)) =
      fold debit (zip ds amts) (allocationItems a)"
    by (auto simp: find_None_iff intro!: filter_True)
  then have item: "itemFor b c = Some ?x"
    unfolding itemFor_def items by (simp add: find_append_None)
  have ex: "\<not> list_ex (\<lambda>d. itemFor b d = None) ds"
    using sub by (auto simp: list_ex_iff itemFor_iff dests)
  have restore: "b\<lparr>allocationItems := allocationItems a\<rparr> = a" by (simp add: b)
  show ?thesis
    unfolding removeChannel_def using len item ex ne f fold_credit_debit [OF c]
    by (simp add: reduceAdd_def items restore)
qed

theorem removeChannel_addChannel_witness:
  "\<exists>b. addChannel \<lparr>getAddress = Some, hexZeroPad = (\<lambda>s n. Some s), isAddress = (\<lambda>s. True)\<rparr>
       \<lparr>asset = ''e'', allocationItems =
         [\<lparr>item_destination = ''A'', amount = 5\<rparr>, \<lparr>item_destination = ''B'', amount = 2\<rparr>]\<rparr>
       (replicate 66 (CHR ''c'')) [''A'', ''B''] [3, 2] = Inr (Some b) \<and>
     removeChannel b (replicate 66 (CHR ''c'')) [''A'', ''B''] [3, 2] =
       Inr (Some \<lparr>asset = ''e'', allocationItems =
         [\<lparr>item_destination = ''A'', amount = 5\<rparr>, \<lparr>item_destination = ''B'', amount = 2\<rparr>]\<rparr>)"
proof -
  let ?eth = "\<lparr>getAddress = Some, hexZeroPad = (\<lambda>s n. Some s), isAddress = (\<lambda>s. True)\<rparr>"
  let ?a = "\<lparr>asset = ''e'', allocationItems =
         [\<lparr>item_destination = ''A'', amount = 5\<rparr>, \<lparr>item_destination = ''B'', amount = 2\<rparr>]\<rparr>"
  let ?c = "replicate 66 (CHR ''c'')"
  have d: "makeDestination ?eth ?c = Inr ?c"
    by code_simp
  then obtain b where b: "addChannel ?eth ?a ?c [''A'', ''B''] [3, 2] = Inr (Some b)"
    by (simp add: addChannel_def affords_def itemFor_def reduceAdd_def)
  moreover have "?c \<notin> set (destinationsOf ?a)" by code_simp
  ultimately show ?thesis using removeChannel_addChannel [OF b d] by blast
qed

end
