(* ===== verification/LedgerRequests.thy ===== *)
theory LedgerRequests
  imports Prelude
begin

text \<open>
  A row of the table \<open>ledger_requests\<close> and its predicates, from
  \<open>packages/server-wallet/src/models/ledger-request.ts\<close>. The queries of that class are in the
  theory \<open>Database\<close>.
\<close>

datatype request_status =
    Queued | Cancelled | Pending | Succeeded | InsufficientFunds | Inconsistent | Failed

datatype request_type = Fund | Defund

record ledger_request =
  ledgerChannelId :: bytes32
  channelToBeFunded :: bytes32
  req_status :: request_status
  amountA :: uint256
  amountB :: uint256
  lastSeenAgreedState :: "int option"
  missedOpportunityCount :: int
  req_type :: request_type

definition isFund :: "ledger_request \<Rightarrow> bool" where
  "isFund r \<longleftrightarrow> req_type r = Fund"

definition isDefund :: "ledger_request \<Rightarrow> bool" where
  "isDefund r \<longleftrightarrow> req_type r = Defund"

definition isQueued :: "ledger_request \<Rightarrow> bool" where
  "isQueued r \<longleftrightarrow> req_status r = Queued"

definition isPending :: "ledger_request \<Rightarrow> bool" where
  "isPending r \<longleftrightarrow> req_status r = Pending"

definition isActive :: "ledger_request \<Rightarrow> bool" where
  "isActive r \<longleftrightarrow> isQueued r \<or> isPending r"

definition isTerminal :: "ledger_request \<Rightarrow> bool" where
  "isTerminal r \<longleftrightarrow> \<not> isActive r"

definition totalAmount :: "ledger_request \<Rightarrow> uint256" where
  "totalAmount r = amountA r + amountB r"

lemmas request_predicates =
  isFund_def isDefund_def isQueued_def isPending_def isActive_def isTerminal_def

lemma isDefund_iff: "isDefund r \<longleftrightarrow> \<not> isFund r"
  by (cases "req_type r") (simp_all add: isDefund_def isFund_def)

section \<open>The life cycle of a request\<close>

text \<open>
  The transitions that the protocol's comment draws, plus the two that the code also makes: a
  pending request that turns out to be in the agreed state with another amount becomes
  inconsistent, and any request can be failed when its ledger ends.
\<close>

inductive status_step :: "request_status \<Rightarrow> request_status \<Rightarrow> bool" where
  propose: "status_step Queued Pending"
| requeue: "status_step Pending Queued"
| succeed_queued: "status_step Queued Succeeded"
| succeed_pending: "status_step Pending Succeeded"
| cancel: "status_step Queued Cancelled"
| insufficient: "status_step Queued InsufficientFunds"
| inconsistent_queued: "status_step Queued Inconsistent"
| inconsistent_pending: "status_step Pending Inconsistent"

inductive_cases status_step_from: "status_step s t"

inductive_simps status_step_simps [simp]:
  "status_step Queued t"
  "status_step Pending t"
  "status_step Succeeded t"
  "status_step Cancelled t"
  "status_step InsufficientFunds t"
  "status_step Inconsistent t"
  "status_step Failed t"

definition terminalStatus :: "request_status \<Rightarrow> bool" where
  "terminalStatus s \<longleftrightarrow> s \<noteq> Queued \<and> s \<noteq> Pending"

lemma terminal_status_final: "status_step\<^sup>*\<^sup>* s t \<Longrightarrow> terminalStatus s \<Longrightarrow> t = s"
proof (induction rule: converse_rtranclp_induct)
  case (step s u)
  then show ?case by (cases s) (auto simp: terminalStatus_def)
qed simp

end
