(* ===== verification/LedgerProtocol.thy ===== *)
theory LedgerProtocol
  imports LedgerOutcome LedgerRequests
begin

text \<open>
  \<open>packages/server-wallet/src/protocols/ledger-protocol.ts\<close> and the state wrapper of
  \<open>models/channel/state.ts\<close>: how a two-party ledger channel agrees on which channels it funds.

  The code mutates the request objects it is given. The model threads the list of requests and
  lets a sub-collection of it (a partition, a filter, an intersection) be the list of the indices
  of its members, so that writing through one collection is seen through every other.
\<close>

section \<open>The wrapper around a signed state\<close>

definition signedBy :: "signed_state \<Rightarrow> address option \<Rightarrow> bool" where
  "signedBy s a = (case a of None \<Rightarrow> False
     | Some a' \<Rightarrow> list_ex (\<lambda>sig. signer sig = a') (signatures s))"

definition fullySigned :: "signed_state \<Rightarrow> bool" where
  "fullySigned s = list_all (\<lambda>p. signedBy s (Some (signingAddress p))) (participants s)"

text \<open>Indexing past the end of the participants is a TypeError.\<close>

definition signerIndices :: "signed_state \<Rightarrow> int list result" where
  "signerIndices s = (case participants s of
     p0 # p1 # _ \<Rightarrow>
       Inr ((if signedBy s (Some (signingAddress p0)) then [0] else []) @
            (if signedBy s (Some (signingAddress p1)) then [1] else []))
   | _ \<Rightarrow> Inl TypeError)"

definition participantDestinations :: "ethers \<Rightarrow> signed_state \<Rightarrow> bytes32 list result" where
  "participantDestinations eth s = mapE (\<lambda>p. makeDestination eth (destination p)) (participants s)"

definition simpleAllocationOutcome :: "signed_state \<Rightarrow> simple_allocation option" where
  "simpleAllocationOutcome s = (case outcome s of SimpleAllocation a \<Rightarrow> Some a | _ \<Rightarrow> None)"

definition advanceToOutcome :: "signed_state \<Rightarrow> simple_allocation \<Rightarrow> signed_state" where
  "advanceToOutcome s a = s\<lparr>turnNum := turnNum s + 1, outcome := SimpleAllocation a\<rparr>"

section \<open>The state of the ledger\<close>

text \<open>The read-only view of a channel the protocol works on.\<close>

record readonly_channel = channel_constants +
  ro_myIndex :: int
  ro_latestTurnNum :: int
  ro_uniqueStateAt :: "int \<Rightarrow> signed_state option"

datatype ledger_state =
    Agreement (agreed: signed_state)
  | Proposal (agreed: signed_state) (proposed: signed_state)
  | CounterProposal (agreed: signed_state) (proposed: signed_state) (counterProposed: signed_state)
  | ProtocolViolation

definition determineLedgerState :: "readonly_channel \<Rightarrow> ledger_state" where
  "determineLedgerState ledger =
     (let leader = map_option signingAddress (nthOpt (participants ledger) 0);
          follower = map_option signingAddress (nthOpt (participants ledger) 1);
          turn = ro_latestTurnNum ledger
      in case ro_uniqueStateAt ledger turn of
           None \<Rightarrow> ProtocolViolation
         | Some latest \<Rightarrow>
             if fullySigned latest then Agreement latest
             else (case ro_uniqueStateAt ledger (turn - 1) of
                     None \<Rightarrow> ProtocolViolation
                   | Some penultimate \<Rightarrow>
                       if fullySigned penultimate then
                         (if signedBy latest leader then Proposal penultimate latest
                          else ProtocolViolation)
                       else (case ro_uniqueStateAt ledger (turn - 2) of
                               None \<Rightarrow> ProtocolViolation
                             | Some antepenultimate \<Rightarrow>
                                 if fullySigned antepenultimate \<and> signedBy penultimate leader \<and>
                                    signedBy latest follower
                                 then CounterProposal antepenultimate penultimate latest
                                 else ProtocolViolation)))"

section \<open>Processing an agreed state\<close>

type_synonym requests = "ledger_request list"

text \<open>
  \<open>_.intersectionWith(defundings, fundings, ...)\<close>: the defunds with a matching fund, one per
  channel. A defund that cancels a fund has to be queued. (The model keeps the constant part of
  the error's message.)
\<close>

definition cancellationDefunds :: "requests \<Rightarrow> nat list" where
  "cancellationDefunds rs =
     uniqBy (\<lambda>i. channelToBeFunded (rs ! i))
       (filter (\<lambda>i. list_ex (\<lambda>j. channelToBeFunded (rs ! i) = channelToBeFunded (rs ! j))
                     (refsWhere isFund rs))
         (refsWhere (\<lambda>r. \<not> isFund r) rs))"

definition identifyPotentialCancellations :: "requests \<Rightarrow> (nat list \<times> nat list) result" where
  "identifyPotentialCancellations rs =
     (let cancellations = cancellationDefunds rs;
          nonCancellations = filter (\<lambda>i. i \<notin> set cancellations) [0..<length rs]
      in if list_ex (\<lambda>i. \<not> isQueued (rs ! i)) cancellations
         then Inl (Error ''cancellation defund is not in queued state'')
         else Inr (cancellations, nonCancellations))"

definition setRequest :: "requests \<Rightarrow> nat \<Rightarrow> request_status \<Rightarrow> int \<Rightarrow> requests" where
  "setRequest rs i st turn =
     rs[i := (rs ! i)\<lparr>req_status := st, lastSeenAgreedState := Some turn\<rparr>]"

definition amountsMatch :: "simple_allocation \<Rightarrow> ledger_request \<Rightarrow> bool" where
  "amountsMatch a r = (balanceFor a (channelToBeFunded r) = Some (totalAmount r))"

definition markDefund :: "simple_allocation \<Rightarrow> int \<Rightarrow> requests \<Rightarrow> nat \<Rightarrow> requests result" where
  "markDefund a turn rs i =
     (let matches = filter (\<lambda>d. d = channelToBeFunded (rs ! i)) (destinationsOf a)
      in if length matches > 1 then Inl (Error ''Duplicate entries for destination'')
         else if length matches = 0 then Inr (setRequest rs i Succeeded turn)
         else if \<not> amountsMatch a (rs ! i) then Inr (setRequest rs i Inconsistent turn)
         else Inr rs)"

definition markFund :: "simple_allocation \<Rightarrow> int \<Rightarrow> requests \<Rightarrow> nat \<Rightarrow> requests" where
  "markFund a turn rs i =
     setRequest rs i (if amountsMatch a (rs ! i) then Succeeded else Inconsistent) turn"

text \<open>
  \<open>_.intersectionWith(fundings, destinations, ...)\<close> returns at most as many elements as the
  shorter array has.
\<close>

definition includedFundings :: "simple_allocation \<Rightarrow> requests \<Rightarrow> nat list \<Rightarrow> nat list" where
  "includedFundings a rs fundings =
     take (length (destinationsOf a))
       (filter (\<lambda>i. channelToBeFunded (rs ! i) \<in> set (destinationsOf a)) fundings)"

definition markSuccessesAndInconsistencies ::
  "nat list \<Rightarrow> signed_state \<Rightarrow> requests \<Rightarrow> requests result" where
  "markSuccessesAndInconsistencies idx agreedState rs =
     (case simpleAllocationOutcome agreedState of
        None \<Rightarrow> Inl (Error ''Ledger state doesn't have a simple allocation outcome'')
      | Some a \<Rightarrow>
          let fundings = filter (\<lambda>i. isFund (rs ! i)) idx;
              defundings = filter (\<lambda>i. \<not> isFund (rs ! i)) idx
          in bindE (foldE (markDefund a (turnNum agreedState)) rs defundings)
               (\<lambda>rs'. Inr (fold (\<lambda>i rs. markFund a (turnNum agreedState) rs i)
                              (includedFundings a rs' fundings) rs')))"

definition resetPendingRequestsToQueued :: "requests \<Rightarrow> requests" where
  "resetPendingRequestsToQueued =
     map (\<lambda>r. if isPending r then r\<lparr>req_status := Queued\<rparr> else r)"

text \<open>\<open>requests.find(r => r.isFund && r.channelToBeFunded === ...)\<close>, as an index.\<close>

definition findFund :: "requests \<Rightarrow> bytes32 \<Rightarrow> nat option" where
  "findFund rs c = find (\<lambda>j. isFund (rs ! j) \<and> channelToBeFunded (rs ! j) = c) [0..<length rs]"

fun applyCancellations :: "nat list \<Rightarrow> int \<Rightarrow> requests \<Rightarrow> nat list \<times> requests" where
  "applyCancellations [] turn rs = ([], rs)"
| "applyCancellations (i # is) turn rs =
     (let skip = (let (na, rs') = applyCancellations is turn rs in (i # na, rs'))
      in case findFund rs (channelToBeFunded (rs ! i)) of
           None \<Rightarrow> skip
         | Some j \<Rightarrow>
             if isQueued (rs ! j)
             then applyCancellations is turn
                    (setRequest (setRequest rs j Cancelled turn) i Cancelled turn)
             else skip)"

text \<open>\<open>if (r.lastSeenAgreedState)\<close> is false for null and for 0.\<close>

definition updateStateSeenAndMissedOps :: "int \<Rightarrow> requests \<Rightarrow> requests" where
  "updateStateSeenAndMissedOps turn =
     map (\<lambda>r. if isQueued r \<and> lastSeenAgreedState r \<noteq> Some turn
              then r\<lparr>missedOpportunityCount :=
                       (case lastSeenAgreedState r of
                          None \<Rightarrow> missedOpportunityCount r
                        | Some n \<Rightarrow> if n = 0 then missedOpportunityCount r
                                    else 1 + missedOpportunityCount r),
                     lastSeenAgreedState := Some turn\<rparr>
              else r)"

definition processAgreedState :: "signed_state \<Rightarrow> requests \<Rightarrow> requests result" where
  "processAgreedState agreedState rs =
     bindE (identifyPotentialCancellations rs) (\<lambda>(cancellations, nonCancellations).
     bindE (markSuccessesAndInconsistencies nonCancellations agreedState rs) (\<lambda>rs1.
     let rs2 = resetPendingRequestsToQueued rs1;
         (nonApplicable, rs3) = applyCancellations cancellations (turnNum agreedState) rs2
     in bindE (markSuccessesAndInconsistencies nonApplicable agreedState rs3) (\<lambda>rs4.
          Inr (updateStateSeenAndMissedOps (turnNum agreedState) rs4))))"

section \<open>Building an outcome from requests\<close>

definition setStatus :: "requests \<Rightarrow> nat \<Rightarrow> request_status \<Rightarrow> requests" where
  "setStatus rs i st = rs[i := (rs ! i)\<lparr>req_status := st\<rparr>]"

definition applyDefund ::
  "ethers \<Rightarrow> signed_state \<Rightarrow> simple_allocation \<Rightarrow> ledger_request \<Rightarrow> simple_allocation option result"
where
  "applyDefund eth s a r =
     bindE (participantDestinations eth s)
       (\<lambda>ds. removeChannel a (channelToBeFunded r) ds [amountA r, amountB r])"

definition applyFund ::
  "ethers \<Rightarrow> signed_state \<Rightarrow> simple_allocation \<Rightarrow> ledger_request \<Rightarrow> simple_allocation option result"
where
  "applyFund eth s a r =
     bindE (participantDestinations eth s)
       (\<lambda>ds. addChannel eth a (channelToBeFunded r) ds [amountA r, amountB r])"

text \<open>One iteration of either loop: a request that cannot be applied is marked and skipped.\<close>

definition buildStep ::
  "(simple_allocation \<Rightarrow> ledger_request \<Rightarrow> simple_allocation option result) \<Rightarrow> request_status \<Rightarrow>
   simple_allocation \<times> requests \<Rightarrow> nat \<Rightarrow> (simple_allocation \<times> requests) result"
where
  "buildStep apply_request failure = (\<lambda>(a, rs) i.
     bindE (apply_request a (rs ! i)) (\<lambda>res.
       Inr (case res of Some a' \<Rightarrow> (a', rs) | None \<Rightarrow> (a, setStatus rs i failure))))"

definition buildOutcome ::
  "ethers \<Rightarrow> signed_state \<Rightarrow> nat list \<Rightarrow> requests \<Rightarrow> (simple_allocation \<times> requests) result" where
  "buildOutcome eth s idx rs =
     (case simpleAllocationOutcome s of
        None \<Rightarrow> Inl (Error ''Ledger doesn't have simple allocation outcome'')
      | Some a \<Rightarrow>
          bindE (foldE (buildStep (applyDefund eth s) Inconsistent) (a, rs)
                   (filter (\<lambda>i. isDefund (rs ! i)) idx)) (\<lambda>(a', rs').
            foldE (buildStep (applyFund eth s) InsufficientFunds) (a', rs')
              (sort_key (\<lambda>i. channelToBeFunded (rs' ! i)) (filter (\<lambda>i. isFund (rs' ! i)) idx))))"

definition markIncludedRequestsAsPending :: "signed_state \<Rightarrow> requests \<Rightarrow> requests result" where
  "markIncludedRequestsAsPending proposedState rs =
     (case simpleAllocationOutcome proposedState of
        None \<Rightarrow> Inl (Error ''Ledger state doesn't have a simple allocation outcome'')
      | Some a \<Rightarrow>
          let fundings = refsWhere (\<lambda>r. isQueued r \<and> isFund r) rs;
              defundings = refsWhere (\<lambda>r. isQueued r \<and> \<not> isFund r) rs;
              missingDefundings =
                filter (\<lambda>i. channelToBeFunded (rs ! i) \<notin> set (destinationsOf a)) defundings;
              rs' = fold (\<lambda>i rs. setStatus rs i Pending) missingDefundings rs
          in foldE (\<lambda>rs i. if \<not> amountsMatch a (rs ! i) then Inl (Error ''amounts don't match'')
                           else Inr (setStatus rs i Pending))
               rs' (includedFundings a rs' fundings))"

section \<open>Comparing a proposal with the queue\<close>

datatype compare_result =
    FullAgreement
  | SomeOverlap simple_allocation
  | NoOverlap simple_allocation

definition compareChangesWithRequests ::
  "ethers \<Rightarrow> requests \<Rightarrow> signed_state \<Rightarrow> signed_state \<Rightarrow> (compare_result \<times> requests) result" where
  "compareChangesWithRequests eth rs baselineState candidateState =
     (case (simpleAllocationOutcome baselineState, simpleAllocationOutcome candidateState) of
        (Some baseline, Some candidate) \<Rightarrow>
          let changed = xorList (destinationsOf baseline) (destinationsOf candidate)
          in if length changed = 0 then Inr (FullAgreement, rs)
             else bindE (identifyPotentialCancellations rs) (\<lambda>(_, nonCancellations).
               let overlapping =
                     filter (\<lambda>i. channelToBeFunded (rs ! i) \<in> set changed) nonCancellations
               in if length overlapping = 0 then Inr (NoOverlap baseline, rs)
                  else bindE (buildOutcome eth baselineState overlapping rs) (\<lambda>(calculated, rs').
                    if length overlapping = length changed
                    then (if isEqualTo candidate (Some calculated) then Inr (FullAgreement, rs')
                          else Inl (Error ''Outcomes inconsistent''))
                    else Inr (SomeOverlap calculated, rs')))
      | _ \<Rightarrow> Inl (Error ''Ledger state doesn't have simple allocation outcome''))"

section \<open>Cranking\<close>

type_synonym crank_result = "(signed_state list \<times> requests) result"

definition crankAsLeaderInAgreement :: "ethers \<Rightarrow> signed_state \<Rightarrow> requests \<Rightarrow> crank_result" where
  "crankAsLeaderInAgreement eth agreedState rs =
     bindE (processAgreedState agreedState rs) (\<lambda>rs1.
       if list_ex isQueued rs1 then
         bindE (buildOutcome eth agreedState (refsWhere isQueued rs1) rs1) (\<lambda>(proposedOutcome, rs2).
           if \<not> isEqualTo proposedOutcome (simpleAllocationOutcome agreedState) then
             bindE (markIncludedRequestsAsPending (advanceToOutcome agreedState proposedOutcome) rs2)
               (\<lambda>rs3. Inr ([advanceToOutcome agreedState proposedOutcome], rs3))
           else Inr ([], rs2))
       else Inr ([], rs1))"

definition crankAsFollowerInAgreement :: "signed_state \<Rightarrow> requests \<Rightarrow> crank_result" where
  "crankAsFollowerInAgreement agreedState rs =
     bindE (processAgreedState agreedState rs) (\<lambda>rs1. Inr ([], rs1))"

definition crankAsLeaderInCounterProposal ::
  "ethers \<Rightarrow> signed_state \<Rightarrow> signed_state \<Rightarrow> requests \<Rightarrow> crank_result" where
  "crankAsLeaderInCounterProposal eth agreedState counter rs =
     bindE (compareChangesWithRequests eth rs agreedState counter) (\<lambda>(result, rs1).
       if result \<noteq> FullAgreement then Inl (Error ''protocol error'')
       else bindE (crankAsLeaderInAgreement eth counter rs1) (\<lambda>(others, rs2).
              Inr (counter # others, rs2)))"

definition crankAsFollowerInProposal ::
  "ethers \<Rightarrow> signed_state \<Rightarrow> signed_state \<Rightarrow> requests \<Rightarrow> crank_result" where
  "crankAsFollowerInProposal eth agreedState proposedState rs =
     bindE (processAgreedState agreedState rs) (\<lambda>rs1.
     bindE (compareChangesWithRequests eth rs1 agreedState proposedState) (\<lambda>(result, rs2).
       case result of
         FullAgreement \<Rightarrow>
           bindE (processAgreedState proposedState rs2) (\<lambda>rs3. Inr ([proposedState], rs3))
       | SomeOverlap narrowed \<Rightarrow>
           (let counter = advanceToOutcome proposedState narrowed
            in bindE (markIncludedRequestsAsPending counter rs2) (\<lambda>rs3. Inr ([counter], rs3)))
       | NoOverlap narrowed \<Rightarrow>
           (let counter = advanceToOutcome proposedState narrowed
            in bindE (markIncludedRequestsAsPending counter rs2) (\<lambda>rs3. Inr ([counter], rs3)))))"

definition crankLedger :: "ethers \<Rightarrow> readonly_channel \<Rightarrow> requests \<Rightarrow> crank_result" where
  "crankLedger eth ledger rs =
     (let amLeader = (ro_myIndex ledger = 0)
      in case determineLedgerState ledger of
           Agreement a \<Rightarrow>
             if amLeader then crankAsLeaderInAgreement eth a rs else crankAsFollowerInAgreement a rs
         | Proposal a p \<Rightarrow>
             if amLeader then Inr ([], rs) else crankAsFollowerInProposal eth a p rs
         | CounterProposal a p c \<Rightarrow>
             if amLeader then crankAsLeaderInCounterProposal eth a c rs else Inr ([], rs)
         | ProtocolViolation \<Rightarrow> Inl (Error ''protocol violation''))"

end
