(* ===== verification/LedgerFacts.thy ===== *)
theory LedgerFacts
  imports LedgerProtocol
begin

text \<open>
  Facts about the operations of the ledger protocol that its properties share: what each pass over
  the requests does to the request at an index, that no pass changes what a request asks for, and
  that the outcomes it builds conserve the ledger's funds.
\<close>

section \<open>What a request asks for\<close>

definition reqKey :: "ledger_request \<Rightarrow> bytes32 \<times> bytes32 \<times> uint256 \<times> uint256 \<times> request_type" where
  "reqKey r = (ledgerChannelId r, channelToBeFunded r, amountA r, amountB r, req_type r)"

definition evolves :: "ledger_request \<Rightarrow> ledger_request \<Rightarrow> bool" where
  "evolves r r' \<longleftrightarrow> reqKey r' = reqKey r \<and> status_step\<^sup>*\<^sup>* (req_status r) (req_status r')"

lemma evolves_refl [simp]: "evolves r r"
  by (simp add: evolves_def)

lemma evolves_trans: "evolves r s \<Longrightarrow> evolves s t \<Longrightarrow> evolves r t"
  by (auto simp: evolves_def)

lemma evolves_stepI: "reqKey r' = reqKey r \<Longrightarrow> status_step (req_status r) (req_status r') \<Longrightarrow> evolves r r'"
  by (auto simp: evolves_def)

lemma evolves_sameI: "reqKey r' = reqKey r \<Longrightarrow> req_status r' = req_status r \<Longrightarrow> evolves r r'"
  by (auto simp: evolves_def)

lemma reqKey_fields:
  "reqKey r = reqKey s \<Longrightarrow> channelToBeFunded r = channelToBeFunded s \<and> amountA r = amountA s \<and>
     amountB r = amountB s \<and> req_type r = req_type s \<and> totalAmount r = totalAmount s \<and>
     (isFund r \<longleftrightarrow> isFund s) \<and> (isDefund r \<longleftrightarrow> isDefund s)"
  by (simp add: reqKey_def totalAmount_def isFund_def isDefund_def)

lemma reqKey_update [simp]:
  "reqKey (r\<lparr>req_status := st\<rparr>) = reqKey r"
  "reqKey (r\<lparr>lastSeenAgreedState := l\<rparr>) = reqKey r"
  "reqKey (r\<lparr>missedOpportunityCount := m\<rparr>) = reqKey r"
  by (simp_all add: reqKey_def)

definition sameKeys :: "requests \<Rightarrow> requests \<Rightarrow> bool" where
  "sameKeys rs rs' \<longleftrightarrow> map reqKey rs' = map reqKey rs"

lemma sameKeys_refl [simp]: "sameKeys rs rs"
  by (simp add: sameKeys_def)

lemma sameKeys_trans: "sameKeys rs ss \<Longrightarrow> sameKeys ss ts \<Longrightarrow> sameKeys rs ts"
  by (simp add: sameKeys_def)

lemma sameKeys_length: "sameKeys rs rs' \<Longrightarrow> length rs' = length rs"
  by (metis sameKeys_def length_map)

lemma sameKeys_nth: "sameKeys rs rs' \<Longrightarrow> i < length rs \<Longrightarrow> reqKey (rs' ! i) = reqKey (rs ! i)"
  by (metis sameKeys_def length_map nth_map)

lemma sameKeys_updateI: "reqKey x = reqKey (rs ! i) \<Longrightarrow> sameKeys rs (rs[i := x])"
  unfolding sameKeys_def
  by (cases "i < length rs") (simp_all add: map_update list_update_same_conv list_update_beyond)

lemma sameKeys_setRequest [simp]: "sameKeys rs (setRequest rs i st t)"
  unfolding setRequest_def by (rule sameKeys_updateI) simp

lemma sameKeys_setStatus [simp]: "sameKeys rs (setStatus rs i st)"
  unfolding setStatus_def by (rule sameKeys_updateI) simp

lemma sameKeys_foldI:
  "(\<And>rs i. sameKeys rs (f i rs)) \<Longrightarrow> sameKeys rs (fold f is rs)"
  by (induction "is" arbitrary: rs) (auto intro: sameKeys_trans)

lemma sameKeys_foldE:
  assumes "foldE f rs is = Inr rs'" and "\<And>rs i rs'. f rs i = Inr rs' \<Longrightarrow> sameKeys rs rs'"
  shows "sameKeys rs rs'"
  by (rule foldE_inv [OF assms(1), of "sameKeys rs"]) (auto intro: sameKeys_trans assms(2))

lemma sameKeys_markSuccesses:
  assumes "markSuccessesAndInconsistencies idx s rs = Inr rs'"
  shows "sameKeys rs rs'"
proof -
  from assms obtain a rs1 where f: "foldE (markDefund a (turnNum s)) rs
      (filter (\<lambda>i. \<not> isFund (rs ! i)) idx) = Inr rs1"
    and rs': "rs' = fold (\<lambda>i rs. markFund a (turnNum s) rs i)
      (includedFundings a rs1 (filter (\<lambda>i. isFund (rs ! i)) idx)) rs1"
    by (auto simp: markSuccessesAndInconsistencies_def Let_def bindE_eq_Inr split: option.splits)
  have "sameKeys rs rs1"
    by (rule sameKeys_foldE [OF f]) (auto simp: markDefund_def Let_def split: if_splits)
  moreover have "sameKeys rs1 rs'"
    unfolding rs' by (rule sameKeys_foldI) (simp add: markFund_def)
  ultimately show ?thesis by (rule sameKeys_trans)
qed

lemma sameKeys_applyCancellations:
  "applyCancellations cs t rs = (na, rs') \<Longrightarrow> sameKeys rs rs'"
proof (induction cs arbitrary: rs na rs')
  case (Cons i cs)
  have two: "sameKeys rs (setRequest (setRequest rs j st t) i st t)" for j st
    by (rule sameKeys_trans [of _ "setRequest rs j st t"]) simp_all
  from Cons show ?case
    by (auto simp: Let_def split: option.splits if_splits prod.splits intro: sameKeys_trans [OF two])
qed simp

lemma sameKeys_reset: "sameKeys rs (resetPendingRequestsToQueued rs)"
  by (simp add: sameKeys_def resetPendingRequestsToQueued_def)

lemma sameKeys_updateSeen: "sameKeys rs (updateStateSeenAndMissedOps t rs)"
  by (auto simp: sameKeys_def updateStateSeenAndMissedOps_def)

lemma processAgreedState_stages:
  assumes "processAgreedState s rs = Inr rs'"
  obtains cs ncs rs1 na rs3 rs4 where "identifyPotentialCancellations rs = Inr (cs, ncs)"
    "markSuccessesAndInconsistencies ncs s rs = Inr rs1"
    "applyCancellations cs (turnNum s) (resetPendingRequestsToQueued rs1) = (na, rs3)"
    "markSuccessesAndInconsistencies na s rs3 = Inr rs4"
    "rs' = updateStateSeenAndMissedOps (turnNum s) rs4"
proof -
  from assms obtain c rs1 rs4 where c: "identifyPotentialCancellations rs = Inr c"
    and m: "markSuccessesAndInconsistencies (snd c) s rs = Inr rs1"
    and m': "markSuccessesAndInconsistencies
        (fst (applyCancellations (fst c) (turnNum s) (resetPendingRequestsToQueued rs1))) s
        (snd (applyCancellations (fst c) (turnNum s) (resetPendingRequestsToQueued rs1))) = Inr rs4"
    and r: "rs' = updateStateSeenAndMissedOps (turnNum s) rs4"
    by (auto simp: processAgreedState_def Let_def bindE_eq_Inr case_prod_unfold)
  show thesis
    by (rule that [of "fst c" "snd c" rs1 _ _ rs4]) (use c m m' r in simp_all)
qed

lemma sameKeys_processAgreedState:
  assumes "processAgreedState s rs = Inr rs'"
  shows "sameKeys rs rs'"
  using assms
  by (rule processAgreedState_stages)
     (metis sameKeys_applyCancellations sameKeys_markSuccesses sameKeys_reset sameKeys_trans
       sameKeys_updateSeen)

lemma sameKeys_buildStep:
  assumes "buildStep f st p i = Inr q"
  shows "sameKeys (snd p) (snd q)"
  using assms by (auto simp: buildStep_def bindE_eq_Inr split: prod.splits option.splits)

lemma sameKeys_buildLoop:
  assumes "foldE (buildStep f st) p is = Inr q"
  shows "sameKeys (snd p) (snd q)"
  by (rule foldE_inv [OF assms, of "\<lambda>q. sameKeys (snd p) (snd q)"])
     (auto intro: sameKeys_trans sameKeys_buildStep)

lemma sameKeys_buildOutcome:
  assumes "buildOutcome eth s idx rs = Inr (b, rs')"
  shows "sameKeys rs rs'"
proof -
  from assms obtain a q where q: "foldE (buildStep (applyDefund eth s) Inconsistent) (a, rs)
      (filter (\<lambda>i. isDefund (rs ! i)) idx) = Inr q"
    and f: "foldE (buildStep (applyFund eth s) InsufficientFunds) q
      (sort_key (\<lambda>i. channelToBeFunded (snd q ! i)) (filter (\<lambda>i. isFund (snd q ! i)) idx))
      = Inr (b, rs')"
    by (auto simp: buildOutcome_def bindE_eq_Inr case_prod_unfold split: option.splits)
  from sameKeys_buildLoop [OF q] sameKeys_buildLoop [OF f] show ?thesis by (auto intro: sameKeys_trans)
qed

lemma markIncluded_stages:
  assumes "markIncludedRequestsAsPending s rs = Inr rs'"
  obtains a rs1 where "simpleAllocationOutcome s = Some a"
    "rs1 = fold (\<lambda>i rs. setStatus rs i Pending)
       (filter (\<lambda>i. channelToBeFunded (rs ! i) \<notin> set (destinationsOf a))
         (refsWhere (\<lambda>r. isQueued r \<and> \<not> isFund r) rs)) rs"
    "foldE (\<lambda>rs i. if \<not> amountsMatch a (rs ! i) then Inl (Error ''amounts don't match'')
                  else Inr (setStatus rs i Pending))
       rs1 (includedFundings a rs1 (refsWhere (\<lambda>r. isQueued r \<and> isFund r) rs)) = Inr rs'"
  using assms by (auto simp: markIncludedRequestsAsPending_def Let_def split: option.splits)

lemma sameKeys_markIncluded:
  assumes "markIncludedRequestsAsPending s rs = Inr rs'"
  shows "sameKeys rs rs'"
proof (rule markIncluded_stages [OF assms])
  fix a rs1
  let ?P = "filter (\<lambda>i. channelToBeFunded (rs ! i) \<notin> set (destinationsOf a))
         (refsWhere (\<lambda>r. isQueued r \<and> \<not> isFund r) rs)"
  assume rs1: "rs1 = fold (\<lambda>i rs. setStatus rs i Pending) ?P rs"
    and f: "foldE (\<lambda>rs i. if \<not> amountsMatch a (rs ! i) then Inl (Error ''amounts don't match'')
                  else Inr (setStatus rs i Pending))
       rs1 (includedFundings a rs1 (refsWhere (\<lambda>r. isQueued r \<and> isFund r) rs)) = Inr rs'"
  have "sameKeys rs rs1"
    unfolding rs1 by (rule sameKeys_foldI) simp
  moreover have "sameKeys rs1 rs'"
    by (rule sameKeys_foldE [OF f]) (auto split: if_splits)
  ultimately show ?thesis by (rule sameKeys_trans)
qed

lemma sameKeys_compare:
  assumes "compareChangesWithRequests eth rs s t = Inr (res, rs')"
  shows "sameKeys rs rs'"
  using assms by (auto simp: compareChangesWithRequests_def Let_def bindE_eq_Inr
      split: option.splits if_splits prod.splits dest: sameKeys_buildOutcome)

lemmas sameKeys_passes = sameKeys_processAgreedState sameKeys_buildOutcome sameKeys_markIncluded
  sameKeys_compare

lemma sameKeys_leader:
  "crankAsLeaderInAgreement eth s rs = Inr (ts, rs') \<Longrightarrow> sameKeys rs rs'"
  by (auto simp: crankAsLeaderInAgreement_def bindE_eq_Inr case_prod_unfold split: if_splits
      dest!: sameKeys_passes intro: sameKeys_trans)

lemma follower_cases:
  assumes "crankAsFollowerInProposal eth s p rs = Inr (ts, rs')"
  obtains (accept) rs1 rs2 where "processAgreedState s rs = Inr rs1"
      "compareChangesWithRequests eth rs1 s p = Inr (FullAgreement, rs2)"
      "processAgreedState p rs2 = Inr rs'" "ts = [p]"
  | (counter) rs1 rs2 narrowed where "processAgreedState s rs = Inr rs1"
      "compareChangesWithRequests eth rs1 s p = Inr (SomeOverlap narrowed, rs2) \<or>
       compareChangesWithRequests eth rs1 s p = Inr (NoOverlap narrowed, rs2)"
      "markIncludedRequestsAsPending (advanceToOutcome p narrowed) rs2 = Inr rs'"
      "ts = [advanceToOutcome p narrowed]"
proof -
  from assms obtain rs1 res rs2 where 1: "processAgreedState s rs = Inr rs1"
    and 2: "compareChangesWithRequests eth rs1 s p = Inr (res, rs2)"
    and 3: "(case res of
         FullAgreement \<Rightarrow> bindE (processAgreedState p rs2) (\<lambda>rs3. Inr ([p], rs3))
       | SomeOverlap narrowed \<Rightarrow>
           (let counter = advanceToOutcome p narrowed
            in bindE (markIncludedRequestsAsPending counter rs2) (\<lambda>rs3. Inr ([counter], rs3)))
       | NoOverlap narrowed \<Rightarrow>
           (let counter = advanceToOutcome p narrowed
            in bindE (markIncludedRequestsAsPending counter rs2) (\<lambda>rs3. Inr ([counter], rs3)))) =
       Inr (ts, rs')"
    unfolding crankAsFollowerInProposal_def bindE_eq_Inr by auto
  show thesis
    by (cases res) (use 1 2 3 accept counter in \<open>auto simp: Let_def bindE_eq_Inr\<close>)
qed

lemma sameKeys_follower:
  assumes "crankAsFollowerInProposal eth s p rs = Inr (ts, rs')"
  shows "sameKeys rs rs'"
  using assms by (cases rule: follower_cases) (auto dest!: sameKeys_passes intro: sameKeys_trans)

lemma sameKeys_leader_counter:
  assumes "crankAsLeaderInCounterProposal eth s c rs = Inr (ts, rs')"
  shows "sameKeys rs rs'"
  using assms by (auto simp: crankAsLeaderInCounterProposal_def bindE_eq_Inr case_prod_unfold
      split: if_splits dest!: sameKeys_compare sameKeys_leader intro: sameKeys_trans)

lemma sameKeys_crank:
  assumes "crankLedger eth l rs = Inr (ts, rs')"
  shows "sameKeys rs rs'"
proof (cases "determineLedgerState l")
  case (Agreement s)
  with assms show ?thesis
    by (auto simp: crankLedger_def Let_def crankAsFollowerInAgreement_def bindE_eq_Inr
        split: if_splits dest: sameKeys_leader sameKeys_processAgreedState)
next
  case (Proposal s p)
  with assms show ?thesis
    by (auto simp: crankLedger_def Let_def split: if_splits dest: sameKeys_follower)
next
  case (CounterProposal s p c)
  with assms show ?thesis
    by (auto simp: crankLedger_def Let_def split: if_splits dest: sameKeys_leader_counter)
next
  case ProtocolViolation
  with assms show ?thesis by (simp add: crankLedger_def)
qed

end
