(* ===== verification/LedgerSettle.thy ===== *)
theory LedgerSettle
  imports LedgerFacts
begin

text \<open>
  What one pass of \<open>processAgreedState\<close> does to a queue that holds at most one request per
  channel: a closed form, request by request, which the properties of the two cranks rest on.
\<close>

section \<open>The closed form\<close>

text \<open>What an agreed outcome settles about a request that is not a cancellation.\<close>

definition settleStatus :: "simple_allocation \<Rightarrow> int \<Rightarrow> ledger_request \<Rightarrow> ledger_request" where
  "settleStatus a t r =
     (if isFund r then
        if channelToBeFunded r \<in> set (destinationsOf a)
        then r\<lparr>req_status := (if amountsMatch a r then Succeeded else Inconsistent),
               lastSeenAgreedState := Some t\<rparr>
        else r
      else if channelToBeFunded r \<notin> set (destinationsOf a)
        then r\<lparr>req_status := Succeeded, lastSeenAgreedState := Some t\<rparr>
      else if \<not> amountsMatch a r
        then r\<lparr>req_status := Inconsistent, lastSeenAgreedState := Some t\<rparr>
      else r)"

definition settle :: "simple_allocation \<Rightarrow> int \<Rightarrow> requests \<Rightarrow> requests" where
  "settle a t rs =
     updateStateSeenAndMissedOps t (resetPendingRequestsToQueued (map (settleStatus a t) rs))"

section \<open>Queues with one request per channel\<close>

lemma cancellationDefunds_distinct:
  assumes "distinct (map channelToBeFunded rs)"
  shows "cancellationDefunds rs = []"
proof -
  have "\<not> list_ex (\<lambda>j. channelToBeFunded (rs ! i) = channelToBeFunded (rs ! j)) (refsWhere isFund rs)"
    if "i \<in> set (refsWhere (\<lambda>r. \<not> isFund r) rs)" for i
  proof
    assume "list_ex (\<lambda>j. channelToBeFunded (rs ! i) = channelToBeFunded (rs ! j)) (refsWhere isFund rs)"
    then obtain j where j: "j < length rs" "isFund (rs ! j)"
      "channelToBeFunded (rs ! i) = channelToBeFunded (rs ! j)"
      by (auto simp: list_ex_iff refsWhere_iff)
    moreover from that have "i < length rs" "\<not> isFund (rs ! i)" by (auto simp: refsWhere_iff)
    ultimately show False
      using assms nth_eq_iff_index_eq [of "map channelToBeFunded rs" i j] by auto
  qed
  then show ?thesis by (simp add: cancellationDefunds_def)
qed

lemma identifyPotentialCancellations_distinct:
  "distinct (map channelToBeFunded rs) \<Longrightarrow>
   identifyPotentialCancellations rs = Inr ([], [0..<length rs])"
  by (simp add: identifyPotentialCancellations_def cancellationDefunds_distinct)

lemma filter_eq_distinct: "distinct xs \<Longrightarrow> x \<in> set xs \<Longrightarrow> filter (\<lambda>y. y = x) xs = [x]"
  by (induction xs) (auto simp: filter_empty_conv)

lemma markDefund_distinct:
  assumes "distinct (destinationsOf a)" and "\<not> isFund (rs ! i)"
  shows "markDefund a t rs i = Inr (rs[i := settleStatus a t (rs ! i)])"
proof (cases "channelToBeFunded (rs ! i) \<in> set (destinationsOf a)")
  case True
  from filter_eq_distinct [OF assms(1) True] True assms(2) show ?thesis
    by (simp add: markDefund_def settleStatus_def setRequest_def)
next
  case False
  then have "filter (\<lambda>d. d = channelToBeFunded (rs ! i)) (destinationsOf a) = []"
    by (auto simp: filter_empty_conv)
  with False assms(2) show ?thesis
    by (simp add: markDefund_def settleStatus_def setRequest_def)
qed

text \<open>With distinct channels the intersection is never longer than the destinations.\<close>

lemma includedFundings_distinct:
  assumes "distinct (map (\<lambda>i. channelToBeFunded (rs ! i)) idx)"
  shows "includedFundings a rs idx =
    filter (\<lambda>i. channelToBeFunded (rs ! i) \<in> set (destinationsOf a)) idx"
proof -
  let ?c = "\<lambda>i. channelToBeFunded (rs ! i)"
  let ?m = "filter (\<lambda>i. ?c i \<in> set (destinationsOf a)) idx"
  have "distinct (map ?c ?m)"
    using assms by (simp add: distinct_map_filter)
  then have "length ?m = card (set (map ?c ?m))"
    by (metis distinct_card length_map)
  also have "\<dots> \<le> card (set (destinationsOf a))"
    by (rule card_mono) auto
  also have "\<dots> \<le> length (destinationsOf a)"
    by (rule card_length)
  finally show ?thesis by (simp add: includedFundings_def)
qed

lemma distinct_channels_refs:
  assumes "distinct (map channelToBeFunded rs)" and "distinct idx" and "\<forall>i \<in> set idx. i < length rs"
  shows "distinct (map (\<lambda>i. channelToBeFunded (rs ! i)) idx)"
  unfolding distinct_map
proof (intro conjI inj_onI)
  fix i j
  assume "i \<in> set idx" "j \<in> set idx" "channelToBeFunded (rs ! i) = channelToBeFunded (rs ! j)"
  with assms nth_eq_iff_index_eq [OF assms(1), of i j] show "i = j" by auto
qed (use assms in simp)

lemma settleStatus_key [simp]: "reqKey (settleStatus a t r) = reqKey r"
  by (simp add: settleStatus_def)

lemma sameKeys_channel:
  "sameKeys rs rs' \<Longrightarrow> i < length rs \<Longrightarrow> channelToBeFunded (rs' ! i) = channelToBeFunded (rs ! i) \<and>
     isFund (rs' ! i) = isFund (rs ! i) \<and> isDefund (rs' ! i) = isDefund (rs ! i)"
  using reqKey_fields sameKeys_nth by metis

lemma sameKeys_channels:
  "sameKeys rs rs' \<Longrightarrow> map channelToBeFunded rs' = map channelToBeFunded rs"
  by (intro nth_equalityI) (auto simp: sameKeys_length sameKeys_channel)

lemma markFund_included:
  assumes "isFund (rs ! i)" and "channelToBeFunded (rs ! i) \<in> set (destinationsOf a)"
  shows "markFund a t rs i = rs[i := settleStatus a t (rs ! i)]"
  using assms by (simp add: markFund_def setRequest_def settleStatus_def)

lemma markSuccesses_distinct:
  assumes "simpleAllocationOutcome s = Some a" and "distinct (destinationsOf a)"
    and "distinct (map channelToBeFunded rs)"
  shows "markSuccessesAndInconsistencies [0..<length rs] s rs =
    Inr (map (settleStatus a (turnNum s)) rs)"
proof -
  let ?h = "settleStatus a (turnNum s)"
  let ?D = "filter (\<lambda>i. \<not> isFund (rs ! i)) [0..<length rs]"
  let ?F = "filter (\<lambda>i. isFund (rs ! i)) [0..<length rs]"
  let ?upd = "fold (\<lambda>i xs. xs[i := ?h (xs ! i)])"
  define rs1 where "rs1 = ?upd ?D rs"
  have len1: "length rs1 = length rs" by (simp add: rs1_def)
  have nth1: "rs1 ! j = (if isFund (rs ! j) then rs ! j else ?h (rs ! j))" if "j < length rs" for j
    using that unfolding rs1_def by (subst nth_fold_update) auto
  have D: "foldE (markDefund a (turnNum s)) xs is = Inr (?upd is xs)"
    if "\<forall>i \<in> set is. i < length xs \<and> \<not> isFund (xs ! i)" for "is" xs
    using that
  proof (induction "is" arbitrary: xs)
    case (Cons i "is")
    have "\<not> isFund (xs[i := ?h (xs ! i)] ! j)" if "j \<in> set is" for j
      using that Cons.prems
      by (cases "j = i") (auto simp: reqKey_fields [OF settleStatus_key])
    with Cons assms(2) show ?case by (simp add: markDefund_distinct)
  qed simp
  have keys: "sameKeys rs rs1"
    unfolding rs1_def by (rule sameKeys_foldI) (rule sameKeys_updateI, simp)
  let ?I = "filter (\<lambda>i. channelToBeFunded (rs1 ! i) \<in> set (destinationsOf a)) ?F"
  have inc: "includedFundings a rs1 ?F = ?I"
    by (rule includedFundings_distinct, rule distinct_channels_refs)
       (use assms(3) keys len1 in \<open>auto simp: sameKeys_channels\<close>)
  have F: "fold (\<lambda>i rs. markFund a (turnNum s) rs i) is xs = ?upd is xs"
    if "\<forall>i \<in> set is. i < length xs \<and> isFund (xs ! i) \<and>
      channelToBeFunded (xs ! i) \<in> set (destinationsOf a)" for "is" xs
    using that
  proof (induction "is" arbitrary: xs)
    case (Cons i "is")
    have "isFund (xs[i := ?h (xs ! i)] ! j) \<and>
      channelToBeFunded (xs[i := ?h (xs ! i)] ! j) \<in> set (destinationsOf a)" if "j \<in> set is" for j
      using that Cons.prems
      by (cases "j = i") (auto simp: reqKey_fields [OF settleStatus_key])
    with Cons show ?case by (simp add: markFund_included)
  qed simp
  have "?upd ?I rs1 = map ?h rs"
  proof (rule nth_equalityI)
    fix j assume "j < length (?upd ?I rs1)"
    then have j: "j < length rs" by (simp add: len1)
    then have "?upd ?I rs1 ! j = (if j \<in> set ?I then ?h (rs1 ! j) else rs1 ! j)"
      by (subst nth_fold_update) (simp_all add: len1)
    also have "\<dots> = ?h (rs ! j)"
      using j by (auto simp: nth1 settleStatus_def)
    finally show "?upd ?I rs1 ! j = map ?h rs ! j" using j by simp
  qed (simp add: len1)
  moreover have "fold (\<lambda>i rs. markFund a (turnNum s) rs i) ?I rs1 = ?upd ?I rs1"
    by (rule F) (auto simp: len1 nth1)
  moreover have "foldE (markDefund a (turnNum s)) rs ?D = Inr rs1"
    unfolding rs1_def by (rule D) auto
  ultimately show ?thesis
    using inc by (simp add: markSuccessesAndInconsistencies_def assms(1))
qed

lemma markSuccesses_Nil:
  "simpleAllocationOutcome s = Some a \<Longrightarrow> markSuccessesAndInconsistencies [] s rs = Inr rs"
  by (simp add: markSuccessesAndInconsistencies_def includedFundings_def)

lemma processAgreed_settle:
  assumes "simpleAllocationOutcome s = Some a" and "distinct (destinationsOf a)"
    and "distinct (map channelToBeFunded rs)"
  shows "processAgreedState s rs = Inr (settle a (turnNum s) rs)"
  using identifyPotentialCancellations_distinct [OF assms(3)] markSuccesses_distinct [OF assms]
    markSuccesses_Nil [OF assms(1)]
  by (simp add: processAgreedState_def settle_def)

text \<open>
  when a ledger's agreed outcome has one item per destination and the queue holds one request
  per channel, processing the agreed state never fails and decides every request by itself: a fund
  whose channel is in the outcome has succeeded when the amounts match and is inconsistent when
  they do not, a defund whose channel is gone has succeeded, and what is neither goes back to the
  queue.
\<close>

theorem processAgreedState_closed_form:
  assumes "simpleAllocationOutcome s = Some a" and "distinct (destinationsOf a)"
    and "distinct (map channelToBeFunded rs)"
  shows "processAgreedState s rs = Inr (settle a (turnNum s) rs) \<and>
    (\<forall>i < length rs. req_status (settle a (turnNum s) rs ! i) =
       (let r = rs ! i; present = (channelToBeFunded r \<in> set (destinationsOf a));
            reset = (if req_status r = Pending then Queued else req_status r)
        in if isFund r
           then if \<not> present then reset else if amountsMatch a r then Succeeded else Inconsistent
           else if \<not> present then Succeeded else if amountsMatch a r then reset else Inconsistent))"
  by (simp add: processAgreed_settle [OF assms])
     (simp add: settle_def updateStateSeenAndMissedOps_def resetPendingRequestsToQueued_def
        settleStatus_def isPending_def isQueued_def Let_def)

theorem processAgreedState_closed_form_witness:
  "map_option (map req_status)
     (case processAgreedState
        \<lparr>chainId = ''0x1'', participants = [], channelNonce = 1, appDefinition = ''0x'',
         challengeDuration = 1,
         outcome = SimpleAllocation \<lparr>asset = ''e'', allocationItems =
           [\<lparr>item_destination = ''A'', amount = 5\<rparr>, \<lparr>item_destination = ''c'', amount = 2\<rparr>]\<rparr>,
         turnNum = 4, appData = ''0x'', isFinal = False, signatures = []\<rparr>
        [\<lparr>ledgerChannelId = ''L'', channelToBeFunded = ''c'', req_status = Pending, amountA = 1,
          amountB = 1, lastSeenAgreedState = None, missedOpportunityCount = 0, req_type = Fund\<rparr>,
         \<lparr>ledgerChannelId = ''L'', channelToBeFunded = ''d'', req_status = Pending, amountA = 1,
          amountB = 1, lastSeenAgreedState = None, missedOpportunityCount = 0, req_type = Fund\<rparr>]
      of Inr rs \<Rightarrow> Some rs | Inl _ \<Rightarrow> None) = Some [Succeeded, Queued]"
  by (subst conjunct1 [OF processAgreedState_closed_form [where a = "\<lparr>asset = ''e'', allocationItems =
           [\<lparr>item_destination = ''A'', amount = 5\<rparr>, \<lparr>item_destination = ''c'', amount = 2\<rparr>]\<rparr>"]])
     (simp_all add: simpleAllocationOutcome_def destinationsOf_def settle_def settleStatus_def
        updateStateSeenAndMissedOps_def resetPendingRequestsToQueued_def amountsMatch_def
        balanceFor_def itemFor_def totalAmount_def request_predicates)

end
