(* ===== verification/LedgerAgreement.thy ===== *)
theory LedgerAgreement
  imports LedgerSettle
begin

text \<open>
  The two ledger cranks against each other: what the leader proposes from a queue, the follower
  double-signs when its queue is the same. The proof describes both computations of
  \<open>buildOutcome\<close> as one fold over the requests that are applied.
\<close>

section \<open>Building an outcome as a fold over the outcome alone\<close>

definition runRequest ::
  "(simple_allocation \<Rightarrow> ledger_request \<Rightarrow> simple_allocation option result) \<Rightarrow>
   simple_allocation \<Rightarrow> ledger_request \<Rightarrow> simple_allocation result"
where
  "runRequest f a r = bindE (f a r) (\<lambda>res. Inr (case res of None \<Rightarrow> a | Some a' \<Rightarrow> a'))"

definition respectsKeys ::
  "(simple_allocation \<Rightarrow> ledger_request \<Rightarrow> simple_allocation option result) \<Rightarrow> bool" where
  "respectsKeys f \<longleftrightarrow> (\<forall>a r r'. reqKey r = reqKey r' \<longrightarrow> f a r = f a r')"

lemma respectsKeys_apply [simp]:
  "respectsKeys (applyDefund eth s)" "respectsKeys (applyFund eth s)"
  by (auto simp: respectsKeys_def applyDefund_def applyFund_def dest!: reqKey_fields)

lemma buildStep_run:
  assumes "respectsKeys f" and "sameKeys rs0 rs" and "\<forall>i \<in> set is. i < length rs0"
  shows "(\<exists>rs'. foldE (buildStep f st) (a, rs) is = Inr (b, rs')) \<longleftrightarrow>
    foldE (\<lambda>a i. runRequest f a (rs0 ! i)) a is = Inr b"
  using assms(2,3)
proof (induction "is" arbitrary: a rs)
  case (Cons i "is")
  have i: "f a (rs ! i) = f a (rs0 ! i)" for a
    by (rule assms(1) [unfolded respectsKeys_def, rule_format], rule sameKeys_nth)
       (use Cons.prems in simp_all)
  have ss: "sameKeys rs0 (setStatus rs i st)"
    using Cons.prems(1) sameKeys_setStatus sameKeys_trans by blast
  have len: "\<forall>i \<in> set is. i < length rs0" using Cons.prems(2) by simp
  note IH = Cons.IH [OF Cons.prems(1) len] Cons.IH [OF ss len]
  show ?case
  proof (cases "f a (rs0 ! i)")
    case (Inl e)
    then show ?thesis by (simp add: buildStep_def runRequest_def i)
  next
    case (Inr res)
    show ?thesis
    proof (cases res)
      case None
      with Inr IH(2) [of a] show ?thesis by (simp add: buildStep_def runRequest_def i)
    next
      case (Some a')
      with Inr IH(1) [of a'] show ?thesis by (simp add: buildStep_def runRequest_def i)
    qed
  qed
qed auto

lemma buildOutcome_run:
  assumes "\<forall>i \<in> set idx. i < length rs"
  shows "(\<exists>rs'. buildOutcome eth s idx rs = Inr (b, rs')) \<longleftrightarrow>
    (\<exists>a m. simpleAllocationOutcome s = Some a \<and>
       foldE (\<lambda>a i. runRequest (applyDefund eth s) a (rs ! i)) a
         (filter (\<lambda>i. isDefund (rs ! i)) idx) = Inr m \<and>
       foldE (\<lambda>a i. runRequest (applyFund eth s) a (rs ! i)) m
         (sort_key (\<lambda>i. channelToBeFunded (rs ! i)) (filter (\<lambda>i. isFund (rs ! i)) idx)) = Inr b)"
proof (cases "simpleAllocationOutcome s")
  case None
  then show ?thesis by (simp add: buildOutcome_def)
next
  case (Some a)
  let ?D = "filter (\<lambda>i. isDefund (rs ! i)) idx"
  let ?F = "\<lambda>rs. sort_key (\<lambda>i. channelToBeFunded (rs ! i)) (filter (\<lambda>i. isFund (rs ! i)) idx)"
  let ?d = "foldE (buildStep (applyDefund eth s) Inconsistent) (a, rs) ?D"
  have D: "(\<exists>rs'. ?d = Inr (m, rs')) \<longleftrightarrow>
    foldE (\<lambda>a i. runRequest (applyDefund eth s) a (rs ! i)) a ?D = Inr m" for m
    by (rule buildStep_run) (use assms in auto)
  have keys: "sameKeys rs rs'" if "?d = Inr (m, rs')" for m rs'
    using sameKeys_buildLoop [OF that] by simp
  have same: "?F rs' = ?F rs" if "sameKeys rs rs'" for rs'
  proof -
    have fe: "filter (\<lambda>i. isFund (rs' ! i)) idx = filter (\<lambda>i. isFund (rs ! i)) idx"
      by (rule filter_cong) (use that assms sameKeys_channel in auto)
    show ?thesis
      unfolding fe
      by (rule sort_key_cong_on) (use that assms sameKeys_channel in auto)
  qed
  have F: "(\<exists>rs''. foldE (buildStep (applyFund eth s) InsufficientFunds) (m, rs') (?F rs') =
      Inr (b, rs'')) \<longleftrightarrow> foldE (\<lambda>a i. runRequest (applyFund eth s) a (rs ! i)) m (?F rs) = Inr b"
    if "sameKeys rs rs'" for m rs'
    unfolding same [OF that] by (rule buildStep_run) (use assms that in auto)
  have "(\<exists>rs'. buildOutcome eth s idx rs = Inr (b, rs')) \<longleftrightarrow>
    (\<exists>m rs1. ?d = Inr (m, rs1) \<and> (\<exists>rs''. foldE (buildStep (applyFund eth s) InsufficientFunds)
      (m, rs1) (?F rs1) = Inr (b, rs'')))"
    by (auto simp: buildOutcome_def Some bindE_eq_Inr)
  also have "\<dots> \<longleftrightarrow> (\<exists>m rs1. ?d = Inr (m, rs1) \<and>
      foldE (\<lambda>a i. runRequest (applyFund eth s) a (rs ! i)) m (?F rs) = Inr b)"
    using F keys by blast
  also have "\<dots> \<longleftrightarrow> (\<exists>m. foldE (\<lambda>a i. runRequest (applyDefund eth s) a (rs ! i)) a ?D = Inr m \<and>
      foldE (\<lambda>a i. runRequest (applyFund eth s) a (rs ! i)) m (?F rs) = Inr b)"
    using D by blast
  finally show ?thesis using Some by simp
qed

section \<open>What the two loops do to the destinations\<close>

lemma destinations_remove:
  assumes "distinct (destinationsOf a)" and "itemFor a c = Some r"
  shows "map item_destination (filter (\<lambda>i. i \<noteq> r) (allocationItems a)) =
    filter (\<lambda>d. d \<noteq> c) (destinationsOf a)"
proof -
  from itemFor_SomeD [OF assms(2)] have r: "r \<in> set (allocationItems a)" "item_destination r = c" by auto
  have "i \<noteq> r \<longleftrightarrow> item_destination i \<noteq> c" if "i \<in> set (allocationItems a)" for i
    using assms(1) r that by (auto simp: destinationsOf_def distinct_map dest: inj_onD)
  then show ?thesis
    by (simp add: destinationsOf_def filter_map o_def cong: filter_cong)
qed

lemma applyDefund_SomeD:
  assumes "applyDefund eth s a r = Inr (Some a')" and "distinct (destinationsOf a)"
  shows "channelToBeFunded r \<in> set (destinationsOf a) \<and>
    destinationsOf a' = filter (\<lambda>d. d \<noteq> channelToBeFunded r) (destinationsOf a)"
proof -
  from assms(1) obtain ds where
    "removeChannel a (channelToBeFunded r) ds [amountA r, amountB r] = Inr (Some a')"
    by (auto simp: applyDefund_def bindE_eq_Inr)
  then obtain x where x: "itemFor a (channelToBeFunded r) = Some x"
    and a': "a' = a\<lparr>allocationItems := fold (credit (channelToBeFunded r))
        (zip ds [amountA r, amountB r]) (filter (\<lambda>i. i \<noteq> x) (allocationItems a))\<rparr>"
    by (rule removeChannel_SomeD)
  have "channelToBeFunded r \<in> set (destinationsOf a)"
    using x itemFor_iff [of a "channelToBeFunded r"] by auto
  moreover have "destinationsOf a' = map item_destination (filter (\<lambda>i. i \<noteq> x) (allocationItems a))"
    by (simp add: a' destinationsOf_def)
  ultimately show ?thesis using destinations_remove [OF assms(2) x] by simp
qed

lemma applyFund_SomeD:
  assumes "applyFund eth s a r = Inr (Some a')"
    and "makeDestination eth (channelToBeFunded r) = Inr (channelToBeFunded r)"
  shows "destinationsOf a' = destinationsOf a @ [channelToBeFunded r]"
proof -
  from assms(1) obtain ds where
    "addChannel eth a (channelToBeFunded r) ds [amountA r, amountB r] = Inr (Some a')"
    by (auto simp: applyFund_def bindE_eq_Inr)
  then obtain d where d: "makeDestination eth (channelToBeFunded r) = Inr d"
    and a': "a' = a\<lparr>allocationItems := fold debit (zip ds [amountA r, amountB r])
       (allocationItems a @ [\<lparr>item_destination = d, amount = sum_list [amountA r, amountB r]\<rparr>])\<rparr>"
    by (rule addChannel_SomeD)
  have "destinationsOf a' = map item_destination
       (allocationItems a @ [\<lparr>item_destination = d, amount = sum_list [amountA r, amountB r]\<rparr>])"
    by (simp add: a' destinationsOf_def)
  with d assms(2) show ?thesis by (simp add: destinationsOf_def)
qed

abbreviation runDefunds where
  "runDefunds eth s rs \<equiv> foldE (\<lambda>a i. runRequest (applyDefund eth s) a (rs ! i))"

abbreviation runFunds where
  "runFunds eth s rs \<equiv> foldE (\<lambda>a i. runRequest (applyFund eth s) a (rs ! i))"

lemma filter_cong_new:
  "f i \<notin> f ` set is \<Longrightarrow>
     filter (\<lambda>j. f j \<in> insert (f i) R) is = filter (\<lambda>j. f j \<in> R) is"
  by (rule filter_cong) (auto simp: image_iff dest: sym)

lemma runDefunds_destinations:
  assumes "runDefunds eth s rs a is = Inr b" and "distinct (destinationsOf a)"
    and "distinct (map (\<lambda>i. channelToBeFunded (rs ! i)) is)"
  shows "\<exists>R. R \<subseteq> (\<lambda>i. channelToBeFunded (rs ! i)) ` set is \<and> R \<subseteq> set (destinationsOf a) \<and>
    destinationsOf b = filter (\<lambda>d. d \<notin> R) (destinationsOf a) \<and>
    runDefunds eth s rs a (filter (\<lambda>i. channelToBeFunded (rs ! i) \<in> R) is) = Inr b"
  using assms
proof (induction "is" arbitrary: a)
  case Nil
  then show ?case by (intro exI [of _ "{}"]) simp
next
  case (Cons i "is")
  let ?c = "\<lambda>i. channelToBeFunded (rs ! i)"
  from Cons.prems(1) obtain res where res: "applyDefund eth s a (rs ! i) = Inr res"
    and rest: "runDefunds eth s rs (case res of None \<Rightarrow> a | Some a' \<Rightarrow> a') is = Inr b"
    by (auto simp: runRequest_def bindE_eq_Inr)
  have new: "?c i \<notin> ?c ` set is" and dist: "distinct (map ?c is)" using Cons.prems(3) by auto
  show ?case
  proof (cases res)
    case None
    with rest have "runDefunds eth s rs a is = Inr b" by simp
    from Cons.IH [OF this Cons.prems(2) dist] obtain R where R: "R \<subseteq> ?c ` set is"
      "R \<subseteq> set (destinationsOf a)" "destinationsOf b = filter (\<lambda>d. d \<notin> R) (destinationsOf a)"
      "runDefunds eth s rs a (filter (\<lambda>i. ?c i \<in> R) is) = Inr b" by blast
    with new have "?c i \<notin> R" by blast
    with R show ?thesis by (intro exI [of _ R]) auto
  next
    case (Some a')
    with res applyDefund_SomeD [OF _ Cons.prems(2)] have c: "?c i \<in> set (destinationsOf a)"
      and d: "destinationsOf a' = filter (\<lambda>d. d \<noteq> ?c i) (destinationsOf a)" by auto
    have "distinct (destinationsOf a')" using Cons.prems(2) d by simp
    from Cons.IH [OF _ this dist] Some rest obtain R where R: "R \<subseteq> ?c ` set is"
      "R \<subseteq> set (destinationsOf a')" "destinationsOf b = filter (\<lambda>d. d \<notin> R) (destinationsOf a')"
      "runDefunds eth s rs a' (filter (\<lambda>i. ?c i \<in> R) is) = Inr b" by auto
    have tail: "filter (\<lambda>j. ?c j \<in> insert (?c i) R) is = filter (\<lambda>j. ?c j \<in> R) is"
      by (rule filter_cong_new [OF new])
    show ?thesis
    proof (intro exI [of _ "insert (?c i) R"] conjI)
      show "destinationsOf b = filter (\<lambda>d. d \<notin> insert (?c i) R) (destinationsOf a)"
        by (simp add: R(3) d)
      show "runDefunds eth s rs a (filter (\<lambda>j. ?c j \<in> insert (?c i) R) (i # is)) = Inr b"
        using R(4) tail res Some by (simp add: runRequest_def)
    qed (use R d c in auto)
  qed
qed

lemma runFunds_destinations:
  assumes "runFunds eth s rs a is = Inr b"
    and "\<forall>i \<in> set is. makeDestination eth (channelToBeFunded (rs ! i)) = Inr (channelToBeFunded (rs ! i))"
    and "distinct (map (\<lambda>i. channelToBeFunded (rs ! i)) is)"
  shows "\<exists>A. set A \<subseteq> (\<lambda>i. channelToBeFunded (rs ! i)) ` set is \<and> distinct A \<and>
    destinationsOf b = destinationsOf a @ A \<and>
    runFunds eth s rs a (filter (\<lambda>i. channelToBeFunded (rs ! i) \<in> set A) is) = Inr b"
  using assms
proof (induction "is" arbitrary: a)
  case Nil
  then show ?case by (intro exI [of _ "[]"]) simp
next
  case (Cons i "is")
  let ?c = "\<lambda>i. channelToBeFunded (rs ! i)"
  from Cons.prems(1) obtain res where res: "applyFund eth s a (rs ! i) = Inr res"
    and rest: "runFunds eth s rs (case res of None \<Rightarrow> a | Some a' \<Rightarrow> a') is = Inr b"
    by (auto simp: runRequest_def bindE_eq_Inr)
  have new: "?c i \<notin> ?c ` set is" and dist: "distinct (map ?c is)" using Cons.prems(3) by auto
  have can: "\<forall>i \<in> set is. makeDestination eth (?c i) = Inr (?c i)" using Cons.prems(2) by simp
  from Cons.IH [OF rest can dist] obtain A where A: "set A \<subseteq> ?c ` set is" "distinct A"
    "destinationsOf b = destinationsOf (case res of None \<Rightarrow> a | Some a' \<Rightarrow> a') @ A"
    "runFunds eth s rs (case res of None \<Rightarrow> a | Some a' \<Rightarrow> a')
       (filter (\<lambda>i. ?c i \<in> set A) is) = Inr b" by blast
  from A(1) new have out: "?c i \<notin> set A" by blast
  show ?case
  proof (cases res)
    case None
    with A out show ?thesis by (intro exI [of _ A]) auto
  next
    case (Some a')
    with res applyFund_SomeD Cons.prems(2) have d: "destinationsOf a' = destinationsOf a @ [?c i]"
      by auto
    have tail: "filter (\<lambda>j. ?c j \<in> insert (?c i) (set A)) is = filter (\<lambda>j. ?c j \<in> set A) is"
      by (rule filter_cong_new) (use new in simp)
    have "runFunds eth s rs a (filter (\<lambda>j. ?c j \<in> set (?c i # A)) (i # is)) = Inr b"
      using A(4) tail res Some by (simp add: runRequest_def)
    moreover have "destinationsOf b = destinationsOf a @ ?c i # A"
      using A(3) d Some by simp
    ultimately show ?thesis using A(1,2) out by (intro exI [of _ "?c i # A"]) auto
  qed
qed

section \<open>The follower reaches the leader's outcome\<close>

lemma settle_channels [simp]:
  "length (settle a t rs) = length rs"
  "map channelToBeFunded (settle a t rs) = map channelToBeFunded rs"
proof -
  have "sameKeys rs (settle a t rs)"
    unfolding settle_def
    by (rule sameKeys_trans [OF _ sameKeys_updateSeen], rule sameKeys_trans [OF _ sameKeys_reset])
       (simp add: sameKeys_def)
  then show "length (settle a t rs) = length rs"
    and "map channelToBeFunded (settle a t rs) = map channelToBeFunded rs"
    by (simp_all add: sameKeys_length sameKeys_channels)
qed

lemma settle_queued_fund:
  assumes "i < length rs" and "isQueued (settle a t rs ! i)" and "isFund (settle a t rs ! i)"
  shows "channelToBeFunded (settle a t rs ! i) \<notin> set (destinationsOf a)"
  using assms
  by (auto simp: settle_def updateStateSeenAndMissedOps_def resetPendingRequestsToQueued_def
      settleStatus_def request_predicates split: if_splits)

text \<open>
  The outcome built from the queued requests is also built from just those whose channel it adds
  or removes, and there is one of these for each destination that changes.
\<close>

lemma buildOutcome_restrict:
  assumes build: "buildOutcome eth s (refsWhere isQueued rs) rs = Inr (b, rs2)"
    and a: "simpleAllocationOutcome s = Some a" and dist: "distinct (destinationsOf a)"
    and chans: "distinct (map channelToBeFunded rs)"
    and can: "\<forall>r \<in> set rs. makeDestination eth (channelToBeFunded r) = Inr (channelToBeFunded r)"
    and fresh: "\<forall>i < length rs. isQueued (rs ! i) \<and> isFund (rs ! i) \<longrightarrow>
       channelToBeFunded (rs ! i) \<notin> set (destinationsOf a)"
  defines "C \<equiv> set (xorList (destinationsOf a) (destinationsOf b))"
  defines "O' \<equiv> filter (\<lambda>i. channelToBeFunded (rs ! i) \<in> C) [0..<length rs]"
  shows "distinct (destinationsOf b) \<and> length O' = card C \<and>
    (\<exists>rs3. buildOutcome eth s O' rs = Inr (b, rs3))"
proof -
  let ?c = "\<lambda>i. channelToBeFunded (rs ! i)"
  let ?Q = "refsWhere isQueued rs"
  let ?D = "filter (\<lambda>i. isDefund (rs ! i)) ?Q"
  let ?F = "sort_key ?c (filter (\<lambda>i. isFund (rs ! i)) ?Q)"
  have uniq: "i = j" if "?c i = ?c j" "i < length rs" "j < length rs" for i j
    using that nth_eq_iff_index_eq [OF chans, of i j] by simp
  have "\<forall>i \<in> set ?Q. i < length rs" by (simp add: refsWhere_iff)
  from build buildOutcome_run [OF this, of eth s b] a obtain m
    where m: "runDefunds eth s rs a ?D = Inr m" and f: "runFunds eth s rs m ?F = Inr b"
    by auto
  have "distinct (map ?c ?D)"
    by (rule distinct_channels_refs [OF chans]) (auto simp: refsWhere_iff)
  from runDefunds_destinations [OF m dist this] obtain R where R: "R \<subseteq> ?c ` set ?D"
    "R \<subseteq> set (destinationsOf a)" "destinationsOf m = filter (\<lambda>d. d \<notin> R) (destinationsOf a)"
    "runDefunds eth s rs a (filter (\<lambda>i. ?c i \<in> R) ?D) = Inr m" by blast
  have "distinct (map ?c ?F)"
    by (rule distinct_channels_refs [OF chans]) (auto simp: refsWhere_iff)
  moreover have "\<forall>i \<in> set ?F. makeDestination eth (?c i) = Inr (?c i)"
    using can by (auto simp: refsWhere_iff)
  ultimately obtain A where A: "set A \<subseteq> ?c ` set ?F" "distinct A"
    "destinationsOf b = destinationsOf m @ A"
    "runFunds eth s rs m (filter (\<lambda>i. ?c i \<in> set A) ?F) = Inr b"
    using runFunds_destinations [OF f] by blast
  have disj: "set A \<inter> set (destinationsOf a) = {}"
    using A(1) fresh by (auto simp: refsWhere_iff)
  have C: "C = R \<union> set A"
    using R(2) disj unfolding C_def set_xorList A(3) R(3) by auto
  have db: "distinct (destinationsOf b)"
    using dist disj A(2) by (auto simp: A(3) R(3))
  have qD: "isQueued (rs ! i) \<and> isDefund (rs ! i)" if "i < length rs" "?c i \<in> R" for i
    using that R(1) uniq by (fastforce simp: refsWhere_iff)
  have qF: "isQueued (rs ! i) \<and> isFund (rs ! i)" if "i < length rs" "?c i \<in> set A" for i
    using that A(1) uniq by (fastforce simp: refsWhere_iff)
  have OD: "filter (\<lambda>i. isDefund (rs ! i)) O' = filter (\<lambda>i. ?c i \<in> R) ?D"
    unfolding O'_def refsWhere_def filter_filter C
    by (rule filter_cong) (use qD qF in \<open>auto simp: isDefund_iff\<close>)
  have OF': "filter (\<lambda>i. isFund (rs ! i)) O' = filter (\<lambda>i. ?c i \<in> set A)
      (filter (\<lambda>i. isFund (rs ! i)) ?Q)"
    unfolding O'_def refsWhere_def filter_filter C
    by (rule filter_cong) (use qD qF in \<open>auto simp: isDefund_iff\<close>)
  have "distinct (map ?c O')"
    by (rule distinct_channels_refs [OF chans]) (auto simp: O'_def)
  then have "length O' = card (set (map ?c O'))"
    by (metis distinct_card length_map)
  also have "set (map ?c O') = C"
    using R(1) A(1) unfolding O'_def C by (auto simp: refsWhere_iff)
  finally have len: "length O' = card C" .
  have "\<forall>i \<in> set O'. i < length rs" by (auto simp: O'_def)
  moreover have "runFunds eth s rs m (sort_key ?c (filter (\<lambda>i. isFund (rs ! i)) O')) = Inr b"
    using A(4) unfolding OF' filter_sort .
  ultimately have "\<exists>rs3. buildOutcome eth s O' rs = Inr (b, rs3)"
    using buildOutcome_run [of O' rs eth s b] R(4) OD a by auto
  with db len show ?thesis by blast
qed

text \<open>
  C7: agreement between the two parties. Whatever the leader proposes from a queue with one request
  per channel, the follower with the same queue and the same agreed state double-signs exactly
  that state, and its crank does not fail.
\<close>

theorem follower_accepts_leader_proposal:
  assumes "simpleAllocationOutcome s = Some a" and "distinct (destinationsOf a)"
    and "distinct (map channelToBeFunded rs)"
    and "\<forall>r \<in> set rs. makeDestination eth (channelToBeFunded r) = Inr (channelToBeFunded r)"
    and "crankAsLeaderInAgreement eth s rs = Inr ([p], rsL)"
  shows "\<exists>rsF. crankAsFollowerInProposal eth s p rs = Inr ([p], rsF)"
proof -
  let ?rs = "settle a (turnNum s) rs"
  note process = processAgreed_settle [OF assms(1,2,3)]
  from assms(5) obtain b rs2 where b: "buildOutcome eth s (refsWhere isQueued ?rs) ?rs = Inr (b, rs2)"
    and p: "p = advanceToOutcome s b"
    by (auto simp: crankAsLeaderInAgreement_def process bindE_eq_Inr case_prod_unfold
        split: if_splits)
  have can: "\<forall>r \<in> set ?rs. makeDestination eth (channelToBeFunded r) = Inr (channelToBeFunded r)"
    using assms(4) by (metis (no_types, lifting) image_iff list.set_map settle_channels(2))
  have chans: "distinct (map channelToBeFunded ?rs)" using assms(3) by simp
  have fresh: "\<forall>i < length ?rs. isQueued (?rs ! i) \<and> isFund (?rs ! i) \<longrightarrow>
      channelToBeFunded (?rs ! i) \<notin> set (destinationsOf a)"
    using settle_queued_fund by simp
  note r = buildOutcome_restrict [OF b assms(1,2) chans can fresh]
  have pb: "simpleAllocationOutcome p = Some b"
    by (simp add: p advanceToOutcome_def simpleAllocationOutcome_def)
  let ?x = "xorList (destinationsOf a) (destinationsOf b)"
  let ?O = "filter (\<lambda>i. channelToBeFunded (?rs ! i) \<in> set ?x) [0..<length ?rs]"
  from r obtain rs3 where build: "buildOutcome eth s ?O ?rs = Inr (b, rs3)" by blast
  have len: "length ?O = length ?x"
    using r distinct_card [OF distinct_xorList] by metis
  have "\<exists>rs3. compareChangesWithRequests eth ?rs s p = Inr (FullAgreement, rs3)"
    unfolding compareChangesWithRequests_def assms(1) pb Let_def
      identifyPotentialCancellations_distinct [OF chans] bindE_Inr option.case prod.case build len
    by (simp add: isEqualTo_iff)
  then obtain rs3 where c: "compareChangesWithRequests eth ?rs s p = Inr (FullAgreement, rs3)" ..
  from sameKeys_compare [OF c] chans have "distinct (map channelToBeFunded rs3)"
    by (simp add: sameKeys_channels)
  with processAgreed_settle [OF pb] r show ?thesis
    by (simp add: crankAsFollowerInProposal_def process c)
qed

end
