(* ===== verification/LedgerLifecycle.thy ===== *)
theory LedgerLifecycle
  imports LedgerFacts
begin

text \<open>
  The life cycle of ledger requests: cranking an agreed state moves every active request along
  \<open>status_step\<close>, for any queue, cancellations included.
\<close>

section \<open>Passes as relations between queues\<close>

definition progress :: "requests \<Rightarrow> requests \<Rightarrow> bool" where
  "progress rs rs' \<longleftrightarrow> list_all2 evolves rs rs'"

lemma progress_iff:
  "progress rs rs' \<longleftrightarrow> length rs' = length rs \<and> (\<forall>j < length rs. evolves (rs ! j) (rs' ! j))"
  by (auto simp: progress_def list_all2_conv_all_nth)

lemma progress_refl [simp]: "progress rs rs"
  by (simp add: progress_iff)

lemma progress_trans: "progress rs ss \<Longrightarrow> progress ss ts \<Longrightarrow> progress rs ts"
  by (auto simp: progress_iff intro: evolves_trans)

text \<open>Each request in \<open>idx\<close> keeps its status or takes one of \<open>new\<close>; the others are untouched.\<close>

definition touches :: "nat set \<Rightarrow> request_status set \<Rightarrow> requests \<Rightarrow> requests \<Rightarrow> bool" where
  "touches I new rs rs' \<longleftrightarrow> length rs' = length rs \<and>
     (\<forall>j < length rs. if j \<in> I then reqKey (rs' ! j) = reqKey (rs ! j) \<and>
        (req_status (rs' ! j) = req_status (rs ! j) \<or> req_status (rs' ! j) \<in> new)
      else rs' ! j = rs ! j)"

lemma touches_progress:
  assumes "touches I new rs rs'"
    and "\<And>i st. i \<in> I \<Longrightarrow> i < length rs \<Longrightarrow> st \<in> new \<Longrightarrow> status_step (req_status (rs ! i)) st"
  shows "progress rs rs'"
  unfolding progress_iff
proof (intro conjI allI impI)
  fix j assume j: "j < length rs"
  show "evolves (rs ! j) (rs' ! j)"
  proof (cases "j \<in> I")
    case True
    with assms j show ?thesis
      by (metis evolves_sameI evolves_stepI touches_def)
  next
    case False
    with assms(1) j show ?thesis by (simp add: touches_def)
  qed
qed (use assms(1) in \<open>simp add: touches_def\<close>)

lemma touches_seq:
  "touches I new rs ss \<Longrightarrow> touches J new ss ts \<Longrightarrow> I \<inter> J = {} \<Longrightarrow> touches (I \<union> J) new rs ts"
  unfolding touches_def by (auto split: if_splits) (metis disjoint_iff)+

lemma touches_mono: "touches I new rs ss \<Longrightarrow> I \<subseteq> J \<Longrightarrow> touches J new rs ss"
  unfolding touches_def by (auto split: if_splits)

lemma touches_foldE:
  assumes "foldE f s idx = Inr s'" and "distinct idx" and "\<forall>i \<in> set idx. i < length (g s)"
    and "\<And>s i s'. f s i = Inr s' \<Longrightarrow> \<exists>x. g s' = (g s)[i := x] \<and> reqKey x = reqKey (g s ! i) \<and>
      (req_status x = req_status (g s ! i) \<or> req_status x \<in> new)"
  shows "touches (set idx) new (g s) (g s')"
  using foldE_touch [OF assms(1,2), where g = g and P = "\<lambda>_. True" and
      R = "\<lambda>r x. reqKey x = reqKey r \<and> (req_status x = req_status r \<or> req_status x \<in> new)"]
    assms(3,4)
  unfolding touches_def by simp

lemma touches_fold:
  assumes "distinct idx" and "\<forall>i \<in> set idx. i < length rs"
    and "\<And>rs i. \<exists>x. f i rs = rs[i := x] \<and> reqKey x = reqKey (rs ! i) \<and>
      (req_status x = req_status (rs ! i) \<or> req_status x \<in> new)"
  shows "touches (set idx) new rs (fold f idx rs)"
  by (rule touches_foldE [where g = "\<lambda>x. x" and f = "\<lambda>s x. Inr (f x s)", OF foldE_pure])
     (use assms in auto)

section \<open>The passes\<close>

lemma touches_markSuccesses:
  assumes "markSuccessesAndInconsistencies idx s rs = Inr rs'"
    and "distinct idx" and "\<forall>i \<in> set idx. i < length rs"
  shows "touches (set idx) {Succeeded, Inconsistent} rs rs'"
proof -
  let ?F = "filter (\<lambda>i. isFund (rs ! i)) idx" and ?D = "filter (\<lambda>i. \<not> isFund (rs ! i)) idx"
  from assms(1) obtain a rs1 where f: "foldE (markDefund a (turnNum s)) rs ?D = Inr rs1"
    and rs': "rs' = fold (\<lambda>i rs. markFund a (turnNum s) rs i) (includedFundings a rs1 ?F) rs1"
    by (auto simp: markSuccessesAndInconsistencies_def Let_def bindE_eq_Inr split: option.splits)
  have D: "touches (set ?D) {Succeeded, Inconsistent} rs rs1"
    by (rule touches_foldE [OF f, where g = "\<lambda>x. x"])
       (use assms(2,3) in \<open>auto simp: markDefund_def setRequest_def Let_def
          intro: unchanged_update split: if_splits\<close>)
  have sub: "set (includedFundings a rs1 ?F) \<subseteq> set ?F" "distinct (includedFundings a rs1 ?F)"
    using assms(2) by (auto simp: includedFundings_def dest: in_set_takeD)
  have len: "length rs1 = length rs" using D by (simp add: touches_def)
  have "touches (set (includedFundings a rs1 ?F)) {Succeeded, Inconsistent} rs1 rs'"
    unfolding rs'
    by (rule touches_fold) (use sub assms(3) len in \<open>auto simp: markFund_def setRequest_def\<close>)
  with D have "touches (set ?D \<union> set (includedFundings a rs1 ?F)) {Succeeded, Inconsistent} rs rs'"
    by (rule touches_seq) (use sub in auto)
  then show ?thesis by (rule touches_mono) (use sub in auto)
qed

lemma progress_reset: "progress rs (resetPendingRequestsToQueued rs)"
  by (auto simp: progress_iff resetPendingRequestsToQueued_def isPending_def
      intro: evolves_stepI)

lemma progress_updateSeen: "progress rs (updateStateSeenAndMissedOps t rs)"
  by (auto simp: progress_iff updateStateSeenAndMissedOps_def intro: evolves_sameI)

definition queuedDefunds :: "nat list \<Rightarrow> requests \<Rightarrow> bool" where
  "queuedDefunds cs rs \<longleftrightarrow> distinct cs \<and>
     (\<forall>i \<in> set cs. i < length rs \<and> isQueued (rs ! i) \<and> \<not> isFund (rs ! i))"

lemma findFund_SomeD: "findFund rs c = Some j \<Longrightarrow> j < length rs \<and> isFund (rs ! j)"
  unfolding findFund_def by (auto dest!: find_SomeD)

lemma progress_setRequest:
  "status_step (req_status (rs ! i)) st \<Longrightarrow> progress rs (setRequest rs i st t)"
  unfolding progress_iff setRequest_def
proof (intro conjI allI impI)
  fix j assume "status_step (req_status (rs ! i)) st" "j < length rs"
  then show "evolves (rs ! j) (rs[i := (rs ! i)\<lparr>req_status := st, lastSeenAgreedState := Some t\<rparr>] ! j)"
    by (cases "i = j") (auto intro: evolves_stepI)
qed simp

lemma progress_applyCancellations:
  assumes "applyCancellations cs t rs = (na, rs')" and "queuedDefunds cs rs"
  shows "progress rs rs' \<and> queuedDefunds na rs' \<and> set na \<subseteq> set cs \<and>
    (\<forall>i < length rs. i \<notin> set cs \<longrightarrow> \<not> isFund (rs ! i) \<longrightarrow> rs' ! i = rs ! i)"
  using assms
proof (induction cs t rs arbitrary: na rs' rule: applyCancellations.induct)
  case (1 t rs)
  then show ?case by (simp add: queuedDefunds_def)
next
  case (2 i cs t rs)
  have i: "i < length rs" "isQueued (rs ! i)" "\<not> isFund (rs ! i)" "i \<notin> set cs"
    and q: "queuedDefunds cs rs"
    using "2.prems"(2) by (auto simp: queuedDefunds_def)
  show ?case
  proof (cases "\<exists>j. findFund rs (channelToBeFunded (rs ! i)) = Some j \<and> isQueued (rs ! j)")
    case True
    then obtain j where f: "findFund rs (channelToBeFunded (rs ! i)) = Some j"
      and qj: "isQueued (rs ! j)" by blast
    from findFund_SomeD [OF f] have j: "j < length rs" "isFund (rs ! j)" by auto
    with i have ij: "i \<noteq> j" by auto
    let ?rs1 = "setRequest rs j Cancelled t"
    let ?rs2 = "setRequest ?rs1 i Cancelled t"
    have same: "?rs2 ! k = rs ! k" if "k \<noteq> i" "k \<noteq> j" for k
      using that by (simp add: setRequest_def)
    have ri: "?rs1 ! i = rs ! i" using ij by (simp add: setRequest_def)
    have "progress rs ?rs1" "progress ?rs1 ?rs2"
      using qj i(2) ri by (auto intro!: progress_setRequest simp: isQueued_def)
    then have p: "progress rs ?rs2" by (rule progress_trans)
    have q2: "queuedDefunds cs ?rs2"
      unfolding queuedDefunds_def
    proof (intro conjI ballI)
      fix k assume k: "k \<in> set cs"
      with q j i have "k \<noteq> i" "k \<noteq> j" by (auto simp: queuedDefunds_def)
      with k q same show "k < length ?rs2" "isQueued (?rs2 ! k)" "\<not> isFund (?rs2 ! k)"
        by (auto simp: queuedDefunds_def setRequest_def)
    qed (use q in \<open>simp add: queuedDefunds_def\<close>)
    from "2.prems"(1) f qj have "applyCancellations cs t ?rs2 = (na, rs')" by simp
    from "2.IH"(2) [OF refl f qj this q2] have IH: "progress ?rs2 rs'" "queuedDefunds na rs'"
      "set na \<subseteq> set cs"
      "\<forall>i < length ?rs2. i \<notin> set cs \<longrightarrow> \<not> isFund (?rs2 ! i) \<longrightarrow> rs' ! i = ?rs2 ! i" by auto
    have "rs' ! k = rs ! k" if "k < length rs" "k \<notin> set (i # cs)" "\<not> isFund (rs ! k)" for k
    proof -
      have "k \<noteq> i" "k \<noteq> j" using that j by auto
      with that IH(4) same [of k] show ?thesis by (auto simp: setRequest_def)
    qed
    with IH progress_trans [OF p IH(1)] show ?thesis by auto
  next
    case False
    obtain na' rs1 where r: "applyCancellations cs t rs = (na', rs1)"
      by (cases "applyCancellations cs t rs")
    with "2.prems"(1) False have na: "na = i # na'" "rs' = rs1"
      by (auto simp: Let_def split: option.splits if_splits)
    from "2.IH"(1) [OF r q] have IH: "progress rs rs1" "queuedDefunds na' rs1" "set na' \<subseteq> set cs"
      "\<forall>i < length rs. i \<notin> set cs \<longrightarrow> \<not> isFund (rs ! i) \<longrightarrow> rs1 ! i = rs ! i" by auto
    from IH(4) i have "rs1 ! i = rs ! i" by auto
    with IH na i show ?thesis by (auto simp: queuedDefunds_def progress_iff)
  qed
qed

lemma identify_queuedDefunds:
  assumes "identifyPotentialCancellations rs = Inr (cs, ncs)"
  shows "queuedDefunds cs rs \<and> ncs = filter (\<lambda>i. i \<notin> set cs) [0..<length rs]"
proof -
  have sub: "set (cancellationDefunds rs) \<subseteq> set (refsWhere (\<lambda>r. \<not> isFund r) rs)"
    unfolding cancellationDefunds_def using set_uniqBy_subset by fastforce
  have "distinct (cancellationDefunds rs)"
    unfolding cancellationDefunds_def
    by (meson distinct_map distinct_map_uniqBy)
  with assms sub show ?thesis
    by (auto simp: identifyPotentialCancellations_def Let_def queuedDefunds_def list_ex_iff
        refsWhere_iff split: if_splits)
qed

lemma progress_processAgreedState:
  assumes "processAgreedState s rs = Inr rs'" and "list_all isActive rs"
  shows "progress rs rs'"
proof (rule processAgreedState_stages [OF assms(1)])
  fix cs ncs rs1 na rs3 rs4
  assume c: "identifyPotentialCancellations rs = Inr (cs, ncs)"
    and m: "markSuccessesAndInconsistencies ncs s rs = Inr rs1"
    and ap: "applyCancellations cs (turnNum s) (resetPendingRequestsToQueued rs1) = (na, rs3)"
    and m': "markSuccessesAndInconsistencies na s rs3 = Inr rs4"
    and rs': "rs' = updateStateSeenAndMissedOps (turnNum s) rs4"
  from identify_queuedDefunds [OF c] have q: "queuedDefunds cs rs"
    and ncs: "ncs = filter (\<lambda>i. i \<notin> set cs) [0..<length rs]" by auto
  have t: "touches (set ncs) {Succeeded, Inconsistent} rs rs1"
    by (rule touches_markSuccesses [OF m]) (auto simp: ncs)
  have p1: "progress rs rs1"
    by (rule touches_progress [OF t])
       (use assms(2) in \<open>auto simp: ncs list_all_length isActive_def isQueued_def isPending_def\<close>)
  have "queuedDefunds cs (resetPendingRequestsToQueued rs1)"
    using q t unfolding queuedDefunds_def touches_def ncs
    by (auto simp: resetPendingRequestsToQueued_def isQueued_def isPending_def)
  from progress_applyCancellations [OF ap this] have p3: "progress (resetPendingRequestsToQueued rs1) rs3"
    and na: "queuedDefunds na rs3" by auto
  have "touches (set na) {Succeeded, Inconsistent} rs3 rs4"
    by (rule touches_markSuccesses [OF m']) (use na in \<open>auto simp: queuedDefunds_def\<close>)
  then have p4: "progress rs3 rs4"
    by (rule touches_progress) (use na in \<open>auto simp: queuedDefunds_def isQueued_def\<close>)
  from p1 p3 p4 show ?thesis
    unfolding rs' by (meson progress_reset progress_trans progress_updateSeen)
qed

lemma touches_buildLoop:
  assumes "foldE (buildStep f st) p idx = Inr q" and "distinct idx"
    and "\<forall>i \<in> set idx. i < length (snd p)"
  shows "touches (set idx) {st} (snd p) (snd q)"
  by (rule touches_foldE [where g = snd, OF assms])
     (auto simp: buildStep_def bindE_eq_Inr setStatus_def case_prod_unfold split: option.splits
       intro: unchanged_update)

lemma progress_buildOutcome:
  assumes "buildOutcome eth s (refsWhere isQueued rs) rs = Inr (b, rs')"
  shows "progress rs rs'"
proof -
  let ?D = "filter (\<lambda>i. isDefund (rs ! i)) (refsWhere isQueued rs)"
  let ?F = "\<lambda>rs1. sort_key (\<lambda>i. channelToBeFunded (rs1 ! i))
    (filter (\<lambda>i. isFund (rs1 ! i)) (refsWhere isQueued rs))"
  from assms obtain a q where q: "foldE (buildStep (applyDefund eth s) Inconsistent) (a, rs) ?D = Inr q"
    and f: "foldE (buildStep (applyFund eth s) InsufficientFunds) q (?F (snd q)) = Inr (b, rs')"
    by (auto simp: buildOutcome_def bindE_eq_Inr case_prod_unfold split: option.splits)
  have t: "touches (set ?D) {Inconsistent} rs (snd q)"
    using touches_buildLoop [OF q] by (auto simp: refsWhere_iff)
  then have len: "length (snd q) = length rs" by (simp add: touches_def)
  have t': "touches (set (?F (snd q))) {InsufficientFunds} (snd q) rs'"
    using touches_buildLoop [OF f] len by (auto simp: refsWhere_iff)
  have "progress rs (snd q)"
    by (rule touches_progress [OF t]) (auto simp: refsWhere_iff isQueued_def)
  moreover have "progress (snd q) rs'"
  proof (rule touches_progress [OF t'])
    fix i st assume i: "i \<in> set (?F (snd q))" "i < length (snd q)" "st \<in> {InsufficientFunds}"
    then have ir: "i < length rs" "isQueued (rs ! i)" "isFund (snd q ! i)"
      by (auto simp: refsWhere_iff)
    with t have "reqKey (snd q ! i) = reqKey (rs ! i)"
      by (auto simp: touches_def split: if_splits)
    with ir have "i \<notin> set ?D" by (auto simp: isDefund_iff dest!: reqKey_fields)
    with t ir have "snd q ! i = rs ! i" by (auto simp: touches_def split: if_splits)
    with ir i show "status_step (req_status (snd q ! i)) st" by (simp add: isQueued_def)
  qed
  ultimately show ?thesis by (rule progress_trans)
qed

lemma progress_markIncluded:
  assumes "markIncludedRequestsAsPending s rs = Inr rs'"
  shows "progress rs rs'"
proof (rule markIncluded_stages [OF assms])
  fix a rs1
  let ?D = "filter (\<lambda>i. channelToBeFunded (rs ! i) \<notin> set (destinationsOf a))
         (refsWhere (\<lambda>r. isQueued r \<and> \<not> isFund r) rs)"
  let ?F = "refsWhere (\<lambda>r. isQueued r \<and> isFund r) rs"
  assume rs1: "rs1 = fold (\<lambda>i rs. setStatus rs i Pending) ?D rs"
    and f: "foldE (\<lambda>rs i. if \<not> amountsMatch a (rs ! i) then Inl (Error ''amounts don't match'')
                  else Inr (setStatus rs i Pending)) rs1 (includedFundings a rs1 ?F) = Inr rs'"
  have t: "touches (set ?D) {Pending} rs rs1"
    unfolding rs1 by (rule touches_fold) (auto simp: refsWhere_iff setStatus_def)
  have sub: "set (includedFundings a rs1 ?F) \<subseteq> set ?F" "distinct (includedFundings a rs1 ?F)"
    by (auto simp: includedFundings_def dest: in_set_takeD)
  have len: "length rs1 = length rs" using t by (simp add: touches_def)
  have "touches (set (includedFundings a rs1 ?F)) {Pending} rs1 rs'"
    by (rule touches_foldE [OF f, where g = "\<lambda>x. x"])
       (use sub len in \<open>auto simp: refsWhere_iff setStatus_def split: if_splits\<close>)
  with t have "touches (set ?D \<union> set (includedFundings a rs1 ?F)) {Pending} rs rs'"
    by (rule touches_seq) (use sub in \<open>auto simp: refsWhere_iff\<close>)
  then show ?thesis
    by (rule touches_progress) (use sub in \<open>auto simp: refsWhere_iff isQueued_def\<close>)
qed

section \<open>The property\<close>

text \<open>
  cranking an agreed state, as leader or as follower, moves every active request along its
  life cycle and never changes which channel it is for, its amounts or its type. A request that has
  reached a final status keeps it, since \<open>status_step\<close> has no step from there.
\<close>

theorem agreement_requests_progress:
  assumes "list_all isActive rs"
    and "crankAsLeaderInAgreement eth s rs = Inr (ts, rs') \<or>
         crankAsFollowerInAgreement s rs = Inr (ts, rs')"
  shows "list_all2 (\<lambda>r r'. status_step\<^sup>*\<^sup>* (req_status r) (req_status r') \<and>
      ledgerChannelId r' = ledgerChannelId r \<and> channelToBeFunded r' = channelToBeFunded r \<and>
      amountA r' = amountA r \<and> amountB r' = amountB r \<and> req_type r' = req_type r) rs rs'"
proof -
  from assms(2) have "\<exists>rs1. processAgreedState s rs = Inr rs1 \<and> (rs1 = rs' \<or>
      (\<exists>b rs2. buildOutcome eth s (refsWhere isQueued rs1) rs1 = Inr (b, rs2) \<and>
        (rs2 = rs' \<or> markIncludedRequestsAsPending (advanceToOutcome s b) rs2 = Inr rs')))"
    by (auto simp: crankAsLeaderInAgreement_def crankAsFollowerInAgreement_def bindE_eq_Inr
        case_prod_unfold split: if_splits)
  then have "progress rs rs'"
    using assms(1) progress_processAgreedState progress_buildOutcome progress_markIncluded
      progress_trans by metis
  then show ?thesis
    unfolding progress_def by (rule list_all2_mono) (simp add: evolves_def reqKey_def)
qed

end
