(* ===== verification/ValidTransition.thy ===== *)
theory ValidTransition
  imports Outcomes
begin

text \<open>
  Which state may follow which: \<open>requireValidProtocolTransition\<close> of
  \<open>packages/nitro-protocol/src/valid-transition.ts\<close>, the conversion \<open>toNitroState\<close> of wallet-core,
  and \<open>validateTransition\<close> of \<open>packages/server-wallet/src/utilities/validate-transition.ts\<close>.
\<close>

section \<open>States of nitro-protocol\<close>

record nitro_channel =
  nc_chainId :: string
  nc_channelNonce :: int
  nc_participants :: "address list"

record nitro_state =
  ns_channel :: nitro_channel
  ns_turnNum :: int
  ns_isFinal :: bool
  ns_challengeDuration :: int
  ns_outcome :: "nitro_outcome option"
  ns_appDefinition :: address
  ns_appData :: string

text \<open>
  What the wallet calls and this repository does not contain: ethers, the native hashing, signing
  and recovery functions, the channel identifier of nitro-protocol and the EVM that runs an
  application's bytecode. \<open>evmAccepts\<close> is the whole of \<open>createValidTransitionTransaction\<close>,
  \<open>PureEVM.exec\<close> and the decoding of its result, None when one of them throws.
\<close>

record platform =
  ethersLib :: ethers
  toHexBN :: "string \<Rightarrow> string option"
  isZeroBN :: "string \<Rightarrow> bool"
  numBN :: "string \<Rightarrow> int"
  evmAccepts :: "nitro_state \<Rightarrow> nitro_state \<Rightarrow> string \<Rightarrow> bool option"
  hashNitroState :: "nitro_state \<Rightarrow> bytes32"
  signNitroState :: "nitro_state \<Rightarrow> string \<Rightarrow> string"
  recoverNitro :: "nitro_state \<Rightarrow> string \<Rightarrow> string option"
  nitroChannelId :: "nitro_channel \<Rightarrow> bytes32"
  walletAddress :: "string \<Rightarrow> address"

definition toNitroState :: "platform \<Rightarrow> 'a state_scheme \<Rightarrow> nitro_state result" where
  "toNitroState P s =
     bindE (convertToNitroOutcome (ethersLib P) (toHexBN P) (outcome s)) (\<lambda>o'.
       Inr \<lparr>ns_channel = \<lparr>nc_chainId = chainId s, nc_channelNonce = channelNonce s,
                         nc_participants = map signingAddress (participants s)\<rparr>,
            ns_turnNum = turnNum s, ns_isFinal = isFinal s,
            ns_challengeDuration = challengeDuration s, ns_outcome = o',
            ns_appDefinition = appDefinition s, ns_appData = appData s\<rparr>)"

definition calculateChannelId :: "platform \<Rightarrow> 'a channel_constants_scheme \<Rightarrow> bytes32" where
  "calculateChannelId P c = nitroChannelId P
     \<lparr>nc_chainId = chainId c, nc_channelNonce = channelNonce c,
      nc_participants = map signingAddress (participants c)\<rparr>"

section \<open>The protocol's rules\<close>

datatype transition_status = StatusTrue | NeedToCheckApp

definition requireE :: "bool \<Rightarrow> string \<Rightarrow> unit result" where
  "requireE b msg = guardE b (Error msg)"

definition requireExtraImplicitChecks :: "nitro_state \<Rightarrow> nitro_state \<Rightarrow> unit result" where
  "requireExtraImplicitChecks fromState toState =
     bindE (requireE (ns_turnNum toState = ns_turnNum fromState + 1)
              ''turnNum must increment by one'') (\<lambda>_.
     bindE (requireE (nc_chainId (ns_channel toState) = nc_chainId (ns_channel fromState))
              ''chainId must not change'') (\<lambda>_.
     bindE (requireE (nc_participants (ns_channel toState) = nc_participants (ns_channel fromState))
              ''participants must not change'') (\<lambda>_.
     bindE (requireE (nc_channelNonce (ns_channel toState) = nc_channelNonce (ns_channel fromState))
              ''channelNonce must not change'') (\<lambda>_.
     bindE (requireE (ns_appDefinition toState = ns_appDefinition fromState)
              ''appDefinition must not change'') (\<lambda>_.
       requireE (ns_challengeDuration toState = ns_challengeDuration fromState)
              ''challengeDuration must not change'')))))"

definition requireValidProtocolTransition ::
  "nitro_state \<Rightarrow> nitro_state \<Rightarrow> transition_status result" where
  "requireValidProtocolTransition fromState toState =
     bindE (requireExtraImplicitChecks fromState toState) (\<lambda>_.
       if ns_isFinal toState
       then bindE (requireE (ns_outcome toState = ns_outcome fromState) ''Outcome change verboten'')
              (\<lambda>_. Inr StatusTrue)
       else bindE (requireE (\<not> ns_isFinal fromState) ''isFinal retrograde'') (\<lambda>_.
         if ns_turnNum toState < 2 * int (length (nc_participants (ns_channel toState)))
         then bindE (requireE (ns_outcome toState = ns_outcome fromState) ''Outcome change forbidden'')
                (\<lambda>_. bindE (requireE (ns_appData toState = ns_appData fromState)
                              ''appData change forbidden'') (\<lambda>_. Inr StatusTrue))
         else Inr NeedToCheckApp))"

section \<open>The wallet's check\<close>

definition validateAppTransitionWithEVM ::
  "platform \<Rightarrow> nitro_state \<Rightarrow> nitro_state \<Rightarrow> string \<Rightarrow> bool result" where
  "validateAppTransitionWithEVM P fromState toState bytecode =
     (if isZeroBN P bytecode then Inr False
      else (case evmAccepts P fromState toState bytecode of
              None \<Rightarrow> Inl (Error ''EVM'') | Some b \<Rightarrow> Inr b))"

text \<open>Every exception of the body is caught and means that the transition is invalid.\<close>

definition validateTransition ::
  "platform \<Rightarrow> 'a state_scheme \<Rightarrow> 'b state_scheme \<Rightarrow> string option \<Rightarrow> bool \<Rightarrow> bool" where
  "validateTransition P fromState toState bytecode skipAppTransitionCheck =
     (case bindE (toNitroState P fromState) (\<lambda>f.
           bindE (toNitroState P toState) (\<lambda>t.
           bindE (requireValidProtocolTransition f t) (\<lambda>status.
             case status of
               StatusTrue \<Rightarrow> Inr True
             | NeedToCheckApp \<Rightarrow>
                 if skipAppTransitionCheck then Inr True
                 else (case bytecode of
                         None \<Rightarrow> Inr False
                       | Some b \<Rightarrow> if b = [] then Inr False
                                   else validateAppTransitionWithEVM P f t b)))) of
        Inl _ \<Rightarrow> False
      | Inr b \<Rightarrow> b)"

section \<open>Facts\<close>

lemma requireE_simps [simp]:
  "requireE b m = Inr u \<longleftrightarrow> b"
  "requireE b m = Inl e \<longleftrightarrow> \<not> b \<and> e = Error m"
  by (auto simp: requireE_def)

text \<open>The constants of a channel that a transition must not touch.\<close>

definition sameConstants :: "nitro_state \<Rightarrow> nitro_state \<Rightarrow> bool" where
  "sameConstants f t \<longleftrightarrow> ns_channel t = ns_channel f \<and>
     ns_appDefinition t = ns_appDefinition f \<and> ns_challengeDuration t = ns_challengeDuration f"

lemma requireExtraImplicitChecks_Inr:
  "requireExtraImplicitChecks f t = Inr u \<longleftrightarrow>
     ns_turnNum t = ns_turnNum f + 1 \<and> sameConstants f t"
  by (cases "ns_channel f"; cases "ns_channel t")
     (auto simp: requireExtraImplicitChecks_def sameConstants_def bindE_eq_Inr)

lemma requireValidProtocolTransition_Inr:
  "requireValidProtocolTransition f t = Inr st \<longleftrightarrow>
     ns_turnNum t = ns_turnNum f + 1 \<and> sameConstants f t \<and>
     (ns_isFinal t \<and> ns_outcome t = ns_outcome f \<and> st = StatusTrue \<or>
      \<not> ns_isFinal t \<and> \<not> ns_isFinal f \<and>
        (if ns_turnNum t < 2 * int (length (nc_participants (ns_channel t)))
         then ns_outcome t = ns_outcome f \<and> ns_appData t = ns_appData f \<and> st = StatusTrue
         else st = NeedToCheckApp))"
  by (auto simp: requireValidProtocolTransition_def bindE_eq_Inr requireExtraImplicitChecks_Inr)

lemma toNitroState_fields:
  "toNitroState P s = Inr n \<Longrightarrow>
     ns_turnNum n = turnNum s \<and> ns_isFinal n = isFinal s \<and> ns_appData n = appData s \<and>
     nc_participants (ns_channel n) = map signingAddress (participants s)"
  by (auto simp: toNitroState_def bindE_eq_Inr)

lemma validateTransition_turnNum:
  "validateTransition P f t bc skip \<Longrightarrow> turnNum t = turnNum f + 1"
  by (auto simp: validateTransition_def bindE_eq_Inr requireValidProtocolTransition_Inr
      split: sum.splits dest!: toNitroState_fields)

text \<open>
  C26: the validator accepts exactly the transitions the protocol allows. The turn number goes up by
  one and the channel's constants stay; a final state keeps the outcome; a non-final one never
  follows a final one, keeps outcome and app data while the channel is being set up, and afterwards
  is accepted by the application, unless the caller skips that check.
\<close>

theorem validateTransition_iff:
  assumes "toNitroState P f = Inr nf" and "toNitroState P t = Inr nt"
  shows "validateTransition P f t bytecode skip \<longleftrightarrow>
    turnNum t = turnNum f + 1 \<and> sameConstants nf nt \<and>
    (if isFinal t then ns_outcome nt = ns_outcome nf
     else \<not> isFinal f \<and>
       (if turnNum t < 2 * int (length (participants t))
        then ns_outcome nt = ns_outcome nf \<and> appData t = appData f
        else skip \<or> (\<exists>b. bytecode = Some b \<and> b \<noteq> [] \<and> \<not> isZeroBN P b \<and> evmAccepts P nf nt b = Some True)))"
proof -
  have v: "validateTransition P f t bytecode skip \<longleftrightarrow>
    (\<exists>st. requireValidProtocolTransition nf nt = Inr st \<and> (st = NeedToCheckApp \<longrightarrow>
       skip \<or> (\<exists>b. bytecode = Some b \<and> b \<noteq> [] \<and> \<not> isZeroBN P b \<and> evmAccepts P nf nt b = Some True)))"
    by (cases "requireValidProtocolTransition nf nt")
       (auto simp: validateTransition_def assms validateAppTransitionWithEVM_def
         split: sum.splits transition_status.splits option.splits)
  from toNitroState_fields [OF assms(1)] toNitroState_fields [OF assms(2)] show ?thesis
    unfolding v requireValidProtocolTransition_Inr by (auto split: if_splits)
qed

end
