(* ===== verification/WireFormat.thy ===== *)
theory WireFormat
  imports ValidTransition
begin

text \<open>
  What travels between wallets and between a wallet and its application: the message types of
  \<open>packages/wire-format/src/types.ts\<close>, and the (de)serialisers of
  \<open>packages/wallet-core/src/serde/wire-format\<close> and \<open>serde/app-messages\<close>. \<open>formatAmount\<close> pads a hex
  amount to 32 bytes and \<open>BN.from\<close> reads it back, so an amount that fits is the integer on both sides;
  one that is negative or longer than 32 bytes makes the serialiser throw.
\<close>

section \<open>Wire types\<close>

datatype wire_asset_outcome =
    WireAllocation address "allocation_item list"
  | WireGuarantee address bytes32 "bytes32 list"

type_synonym wire_outcome = "wire_asset_outcome list"

text \<open>The key \<open>allocationItems\<close> of the first element decides.\<close>

fun isAllocations :: "wire_outcome \<Rightarrow> bool" where
  "isAllocations [] = True"
| "isAllocations (WireAllocation _ _ # _) = True"
| "isAllocations (WireGuarantee _ _ _ # _) = False"

record wire_state = channel_constants +
  ws_outcome :: wire_outcome
  ws_turnNum :: int
  ws_appData :: string
  ws_isFinal :: bool
  ws_channelId :: bytes32
  ws_signatures :: "string list"

record wire_payload =
  wp_walletVersion :: string
  wp_signedStates :: "wire_state list option"
  wp_objectives :: "objective list option"
  wp_requests :: "channel_request list option"

record wire_message =
  recipient :: string
  sender :: "string option"
  msg_data :: wire_payload

section \<open>Serialising\<close>

text \<open>
  \<open>hexZeroPad(BN.from(amount), 32)\<close>: the hex string of a negative number starts with a minus sign and is
  not a hex string to \<open>hexZeroPad\<close>, and one of more than 32 bytes is out of range.
\<close>

definition formatAmount :: "uint256 \<Rightarrow> uint256 result" where
  "formatAmount n =
     (if n < 0 then Inl (Error ''invalid hex string'')
      else if 2 ^ 256 \<le> n then Inl (Error ''value out of range'')
      else Inr n)"

definition serializeAllocationItem :: "allocation_item \<Rightarrow> allocation_item result" where
  "serializeAllocationItem i =
     bindE (formatAmount (amount i)) (\<lambda>n. Inr \<lparr>item_destination = item_destination i, amount = n\<rparr>)"

definition serializeSimpleAllocation :: "simple_allocation \<Rightarrow> wire_asset_outcome result" where
  "serializeSimpleAllocation a =
     bindE (mapE serializeAllocationItem (allocationItems a)) (\<lambda>items. Inr (WireAllocation (asset a) items))"

definition serializeSimpleGuarantee :: "simple_guarantee \<Rightarrow> wire_asset_outcome" where
  "serializeSimpleGuarantee g = WireGuarantee (guarantee_asset g) (targetChannelId g) (destinations g)"

fun serializeOutcome :: "outcome \<Rightarrow> wire_outcome result" where
  "serializeOutcome (SimpleAllocation a) = bindE (serializeSimpleAllocation a) (\<lambda>w. Inr [w])"
| "serializeOutcome (MixedAllocation as) = mapE serializeSimpleAllocation as"
| "serializeOutcome (SimpleGuarantee g) = Inr [serializeSimpleGuarantee g]"

text \<open>An absent or empty channel id is computed.\<close>

definition serializeState :: "platform \<Rightarrow> 'a signed_state_scheme \<Rightarrow> bytes32 option \<Rightarrow> wire_state result" where
  "serializeState P s channelId =
     bindE (serializeOutcome (outcome s)) (\<lambda>w.
       Inr \<lparr>chainId = chainId s, participants = participants s, channelNonce = channelNonce s,
            appDefinition = appDefinition s, challengeDuration = challengeDuration s,
            ws_outcome = w, ws_turnNum = turnNum s, ws_appData = appData s, ws_isFinal = isFinal s,
            ws_channelId = (case channelId of Some (c # cs) \<Rightarrow> c # cs | _ \<Rightarrow> calculateChannelId P s),
            ws_signatures = map signature (signatures s)\<rparr>)"

definition serializeMessage ::
  "platform \<Rightarrow> string \<Rightarrow> payload \<Rightarrow> string \<Rightarrow> string option \<Rightarrow> bytes32 option \<Rightarrow> wire_message result" where
  "serializeMessage P version message to from' channelId =
     bindE (mapE (\<lambda>s. serializeState P s channelId)
         (case signedStates message of None \<Rightarrow> [] | Some ss \<Rightarrow> ss)) (\<lambda>ws.
       Inr \<lparr>recipient = to, sender = from',
            msg_data = \<lparr>wp_walletVersion = version, wp_signedStates = Some ws,
              wp_objectives = objectives message, wp_requests = requests message\<rparr>\<rparr>)"

section \<open>Deserialising\<close>

definition convertToInternalParticipant :: "ethers \<Rightarrow> participant \<Rightarrow> participant result" where
  "convertToInternalParticipant e p =
     bindE (makeAddress e (signingAddress p)) (\<lambda>a.
     bindE (makeDestination e (destination p)) (\<lambda>d.
       Inr (p\<lparr>signingAddress := a, destination := d\<rparr>)))"

definition deserializeAllocationItem :: "ethers \<Rightarrow> allocation_item \<Rightarrow> allocation_item result" where
  "deserializeAllocationItem e i =
     bindE (makeDestination e (item_destination i)) (\<lambda>d.
       Inr \<lparr>item_destination = d, amount = amount i\<rparr>)"

text \<open>A guarantee among allocations has no \<open>allocationItems\<close> to map over.\<close>

fun deserializeAllocation :: "ethers \<Rightarrow> wire_asset_outcome \<Rightarrow> simple_allocation result" where
  "deserializeAllocation e (WireAllocation a items) =
     bindE (makeAddress e a) (\<lambda>a'.
     bindE (mapE (deserializeAllocationItem e) items) (\<lambda>items'.
       Inr \<lparr>asset = a', allocationItems = items'\<rparr>))"
| "deserializeAllocation e (WireGuarantee a t ds) = bindE (makeAddress e a) (\<lambda>_. Inl TypeError)"

definition deserializeOutcome :: "ethers \<Rightarrow> wire_outcome \<Rightarrow> outcome result" where
  "deserializeOutcome e o' =
     (if isAllocations o' then
        (case o' of
           [] \<Rightarrow> Inl (Error ''Empty allocation'')
         | [a] \<Rightarrow> bindE (deserializeAllocation e a) (\<lambda>a'. Inr (SimpleAllocation a'))
         | _ \<Rightarrow> bindE (mapE (deserializeAllocation e) o') (\<lambda>as. Inr (MixedAllocation as)))
      else
        (case o' of
           [WireGuarantee a t ds] \<Rightarrow>
             bindE (makeAddress e a) (\<lambda>a'. Inr (SimpleGuarantee
               \<lparr>targetChannelId = t, guarantee_asset = a', destinations = ds\<rparr>))
         | _ \<Rightarrow> Inl (Error ''Currently only supporting guarantees of length 1.'')))"

definition wireStateToNitroState :: "platform \<Rightarrow> wire_state \<Rightarrow> nitro_state result" where
  "wireStateToNitroState P s =
     bindE (deserializeOutcome (ethersLib P) (ws_outcome s)) (\<lambda>o'.
     bindE (convertToNitroOutcome (ethersLib P) (toHexBN P) o') (\<lambda>n.
       Inr \<lparr>ns_channel = \<lparr>nc_chainId = chainId s, nc_channelNonce = channelNonce s,
                         nc_participants = map signingAddress (participants s)\<rparr>,
            ns_turnNum = ws_turnNum s, ns_isFinal = ws_isFinal s,
            ns_challengeDuration = challengeDuration s, ns_outcome = n,
            ns_appDefinition = appDefinition s, ns_appData = ws_appData s\<rparr>))"

definition recoverAddress :: "platform \<Rightarrow> nitro_state \<Rightarrow> string \<Rightarrow> address result" where
  "recoverAddress P n sig =
     (case recoverNitro P n sig of None \<Rightarrow> Inl (Error ''invalid signature'')
      | Some a \<Rightarrow> makeAddress (ethersLib P) a)"

definition getSignerAddress :: "platform \<Rightarrow> 'a state_scheme \<Rightarrow> string \<Rightarrow> address result" where
  "getSignerAddress P s sig = bindE (toNitroState P s) (\<lambda>n. recoverAddress P n sig)"

definition deserializeState :: "platform \<Rightarrow> wire_state \<Rightarrow> signed_state result" where
  "deserializeState P s =
     bindE (makeAddress (ethersLib P) (appDefinition s)) (\<lambda>app.
     bindE (deserializeOutcome (ethersLib P) (ws_outcome s)) (\<lambda>o'.
     bindE (mapE (convertToInternalParticipant (ethersLib P)) (participants s)) (\<lambda>ps.
     let st = \<lparr>chainId = chainId s, participants = ps, channelNonce = channelNonce s,
               appDefinition = app, challengeDuration = challengeDuration s, outcome = o',
               turnNum = ws_turnNum s, appData = ws_appData s, isFinal = ws_isFinal s\<rparr>
     in bindE (mapE (\<lambda>sig. bindE (getSignerAddress P st sig)
                       (\<lambda>a. Inr \<lparr>signature = sig, signer = a\<rparr>)) (ws_signatures s))
          (\<lambda>sigs. Inr (state.extend st (signed_state.fields sigs))))))"

fun withParticipants :: "participant list \<Rightarrow> objective \<Rightarrow> objective" where
  "withParticipants ps (OpenChannel _ d) = OpenChannel ps d"
| "withParticipants ps (CloseChannel _ d) = CloseChannel ps d"
| "withParticipants ps (VirtuallyFund _ d) = VirtuallyFund ps d"
| "withParticipants ps (FundGuarantor _ d) = FundGuarantor ps d"
| "withParticipants ps (FundLedger _ d) = FundLedger ps d"
| "withParticipants ps (CloseLedger _ d) = CloseLedger ps d"
| "withParticipants ps (SubmitChallenge _ d) = SubmitChallenge ps d"
| "withParticipants ps (DefundChannel _ d) = DefundChannel ps d"

fun objectiveParticipants :: "objective \<Rightarrow> participant list" where
  "objectiveParticipants (OpenChannel ps _) = ps"
| "objectiveParticipants (CloseChannel ps _) = ps"
| "objectiveParticipants (VirtuallyFund ps _) = ps"
| "objectiveParticipants (FundGuarantor ps _) = ps"
| "objectiveParticipants (FundLedger ps _) = ps"
| "objectiveParticipants (CloseLedger ps _) = ps"
| "objectiveParticipants (SubmitChallenge ps _) = ps"
| "objectiveParticipants (DefundChannel ps _) = ps"

definition deserializeObjective :: "ethers \<Rightarrow> objective \<Rightarrow> objective result" where
  "deserializeObjective e o' =
     bindE (mapE (convertToInternalParticipant e) (objectiveParticipants o')) (\<lambda>ps.
       Inr (withParticipants ps o'))"

definition mapOptionE :: "('a \<Rightarrow> 'b result) \<Rightarrow> 'a option \<Rightarrow> 'b option result" where
  "mapOptionE f x = (case x of None \<Rightarrow> Inr None | Some y \<Rightarrow> bindE (f y) (\<lambda>z. Inr (Some z)))"

definition deserializeMessage :: "platform \<Rightarrow> wire_message \<Rightarrow> payload result" where
  "deserializeMessage P m =
     bindE (mapOptionE (mapE (deserializeState P)) (wp_signedStates (msg_data m))) (\<lambda>ss.
     bindE (mapOptionE (mapE (deserializeObjective (ethersLib P))) (wp_objectives (msg_data m))) (\<lambda>os.
       Inr \<lparr>walletVersion = wp_walletVersion (msg_data m), signedStates = ss, objectives = os,
            requests = wp_requests (msg_data m)\<rparr>))"

section \<open>Application messages\<close>

text \<open>\<open>Allocations\<close> of the client API: a list of assets with their items.\<close>

type_synonym app_allocation = "address \<times> allocation_item list"

definition serializeAppAllocation :: "simple_allocation \<Rightarrow> app_allocation result" where
  "serializeAppAllocation a =
     bindE (mapE serializeAllocationItem (allocationItems a)) (\<lambda>items. Inr (asset a, items))"

fun serializeAllocation :: "outcome \<Rightarrow> app_allocation list result" where
  "serializeAllocation (SimpleAllocation a) = bindE (serializeAppAllocation a) (\<lambda>w. Inr [w])"
| "serializeAllocation (MixedAllocation as) = mapE serializeAppAllocation as"
| "serializeAllocation (SimpleGuarantee g) = Inr []"

definition deserializeAppAllocation :: "ethers \<Rightarrow> app_allocation \<Rightarrow> simple_allocation result" where
  "deserializeAppAllocation e x =
     bindE (mapE (deserializeAllocationItem e) (snd x)) (\<lambda>items.
     bindE (makeAddress e (fst x)) (\<lambda>a. Inr \<lparr>asset = a, allocationItems = items\<rparr>))"

definition deserializeAllocations :: "ethers \<Rightarrow> app_allocation list \<Rightarrow> outcome result" where
  "deserializeAllocations e as =
     (case as of
        [] \<Rightarrow> Inl (Error ''Allocations is empty'')
      | [a] \<Rightarrow> bindE (deserializeAppAllocation e a) (\<lambda>a'. Inr (SimpleAllocation a'))
      | _ \<Rightarrow> bindE (mapE (deserializeAppAllocation e) as) (\<lambda>as'. Inr (MixedAllocation as')))"

section \<open>Canonical values\<close>

text \<open>
  What the constructors \<open>makeAddress\<close> and \<open>makeDestination\<close> leave alone, with amounts of at most 32
  bytes. A mixed outcome has at least two allocations: the wire format does not tell a mixed outcome
  of one from a simple one.
\<close>

definition canonicalAddress :: "ethers \<Rightarrow> address \<Rightarrow> bool" where
  "canonicalAddress e a \<longleftrightarrow> makeAddress e a = Inr a"

definition canonicalDestination :: "ethers \<Rightarrow> bytes32 \<Rightarrow> bool" where
  "canonicalDestination e d \<longleftrightarrow> makeDestination e d = Inr d"

definition canonicalAllocation :: "ethers \<Rightarrow> simple_allocation \<Rightarrow> bool" where
  "canonicalAllocation e a \<longleftrightarrow> canonicalAddress e (asset a) \<and>
     (\<forall>i \<in> set (allocationItems a). canonicalDestination e (item_destination i) \<and>
        0 \<le> amount i \<and> amount i < 2 ^ 256)"

fun canonicalOutcome :: "ethers \<Rightarrow> outcome \<Rightarrow> bool" where
  "canonicalOutcome e (SimpleAllocation a) = canonicalAllocation e a"
| "canonicalOutcome e (MixedAllocation as) =
     (2 \<le> length as \<and> (\<forall>a \<in> set as. canonicalAllocation e a))"
| "canonicalOutcome e (SimpleGuarantee g) = canonicalAddress e (guarantee_asset g)"

definition canonicalParticipant :: "ethers \<Rightarrow> participant \<Rightarrow> bool" where
  "canonicalParticipant e p \<longleftrightarrow>
     canonicalAddress e (signingAddress p) \<and> canonicalDestination e (destination p)"

definition canonicalState :: "platform \<Rightarrow> signed_state \<Rightarrow> bool" where
  "canonicalState P s \<longleftrightarrow>
     canonicalAddress (ethersLib P) (appDefinition s) \<and> canonicalOutcome (ethersLib P) (outcome s) \<and>
     (\<forall>p \<in> set (participants s). canonicalParticipant (ethersLib P) p) \<and>
     (\<forall>g \<in> set (signatures s). getSignerAddress P s (signature g) = Inr (signer g))"

named_theorems canonical_defs \<open>what a canonical value is\<close>

declare canonicalAddress_def [canonical_defs] canonicalDestination_def [canonical_defs]
  canonicalAllocation_def [canonical_defs] canonicalParticipant_def [canonical_defs]

section \<open>Round trips\<close>

lemma formatAmount_Inr: "formatAmount n = Inr k \<longleftrightarrow> k = n \<and> 0 \<le> n \<and> n < 2 ^ 256"
  by (auto simp: formatAmount_def)

lemma serializeAllocationItem_Inr:
  "serializeAllocationItem i = Inr j \<longleftrightarrow> j = i \<and> 0 \<le> amount i \<and> amount i < 2 ^ 256"
  by (auto simp: serializeAllocationItem_def bindE_eq_Inr formatAmount_Inr)

lemma mapE_serializeItem:
  assumes "canonicalAllocation e a"
  shows "mapE serializeAllocationItem (allocationItems a) = Inr (allocationItems a)"
  by (rule mapE_id) (use assms in \<open>simp add: canonicalAllocation_def serializeAllocationItem_Inr\<close>)

lemma mapE_deserializeItem:
  assumes "canonicalAllocation e a"
  shows "mapE (deserializeAllocationItem e) (allocationItems a) = Inr (allocationItems a)"
  by (rule mapE_id) (use assms in \<open>simp add: deserializeAllocationItem_def canonical_defs\<close>)

text \<open>What the serialisers make of canonical values.\<close>

abbreviation wireOf :: "simple_allocation \<Rightarrow> wire_asset_outcome" where
  "wireOf a \<equiv> WireAllocation (asset a) (allocationItems a)"

lemma serializeSimpleAllocation_canonical:
  "canonicalAllocation e a \<Longrightarrow> serializeSimpleAllocation a = Inr (wireOf a)"
  by (simp add: serializeSimpleAllocation_def mapE_serializeItem)

lemma serializeAppAllocation_canonical:
  "canonicalAllocation e a \<Longrightarrow> serializeAppAllocation a = Inr (asset a, allocationItems a)"
  by (simp add: serializeAppAllocation_def mapE_serializeItem)

lemma deserializeAllocation_wireOf:
  "canonicalAllocation e a \<Longrightarrow> deserializeAllocation e (wireOf a) = Inr a"
  by (simp add: mapE_deserializeItem) (simp add: canonical_defs)

lemma mapE_deserializeAllocation:
  "\<forall>a \<in> set as. canonicalAllocation e a \<Longrightarrow> mapE (deserializeAllocation e) (map wireOf as) = Inr as"
  by (induction as) (simp_all add: deserializeAllocation_wireOf del: deserializeAllocation.simps)

lemma deserializeOutcome_serialize:
  assumes "canonicalOutcome e o'"
  shows "\<exists>w. serializeOutcome o' = Inr w \<and> deserializeOutcome e w = Inr o'"
proof (cases o')
  case (SimpleAllocation a)
  with assms deserializeAllocation_wireOf [of e a] show ?thesis
    by (simp add: deserializeOutcome_def serializeSimpleAllocation_canonical del: deserializeAllocation.simps)
next
  case (SimpleGuarantee g)
  with assms show ?thesis
    by (simp add: deserializeOutcome_def serializeSimpleGuarantee_def canonicalAddress_def)
next
  case (MixedAllocation as)
  with assms obtain x y zs where as: "as = x # y # zs"
    by (cases as; cases "tl as") auto
  from MixedAllocation assms have can: "\<forall>a \<in> set as. canonicalAllocation e a" by simp
  then have "mapE serializeSimpleAllocation as = Inr (map wireOf as)"
    by (auto intro!: mapE_pure serializeSimpleAllocation_canonical)
  with mapE_deserializeAllocation [OF can] show ?thesis
    by (simp add: MixedAllocation deserializeOutcome_def as del: deserializeAllocation.simps)
qed

lemma convertToInternalParticipant_canonical:
  "canonicalParticipant e p \<Longrightarrow> convertToInternalParticipant e p = Inr p"
  by (simp add: convertToInternalParticipant_def canonical_defs)

lemma toNitroState_cong:
  "outcome s = outcome t \<Longrightarrow> chainId s = chainId t \<Longrightarrow> channelNonce s = channelNonce t \<Longrightarrow>
   participants s = participants t \<Longrightarrow> turnNum s = turnNum t \<Longrightarrow> isFinal s = isFinal t \<Longrightarrow>
   challengeDuration s = challengeDuration t \<Longrightarrow> appDefinition s = appDefinition t \<Longrightarrow>
   appData s = appData t \<Longrightarrow> toNitroState P s = toNitroState P t"
  by (simp add: toNitroState_def)

lemma deserializeState_serialize:
  assumes "canonicalState P s"
  shows "\<exists>w. serializeState P s c = Inr w \<and> deserializeState P w = Inr s"
proof -
  let ?st = "\<lparr>chainId = chainId s, participants = participants s, channelNonce = channelNonce s,
      appDefinition = appDefinition s, challengeDuration = challengeDuration s, outcome = outcome s,
      turnNum = turnNum s, appData = appData s, isFinal = isFinal s\<rparr>"
  have ps: "mapE (convertToInternalParticipant (ethersLib P)) (participants s) = Inr (participants s)"
    by (rule mapE_id)
       (use assms in \<open>simp add: canonicalState_def convertToInternalParticipant_canonical\<close>)
  have "toNitroState P ?st = toNitroState P s"
    by (rule toNitroState_cong) simp_all
  then have "getSignerAddress P ?st sig = getSignerAddress P s sig" for sig
    by (simp add: getSignerAddress_def)
  then have "mapE (\<lambda>sig. bindE (getSignerAddress P ?st sig) (\<lambda>a. Inr \<lparr>signature = sig, signer = a\<rparr>))
      (map signature gs) = Inr gs" if "set gs \<subseteq> set (signatures s)" for gs
    using that assms by (induction gs) (auto simp: canonicalState_def)
  note sigs = this [of "signatures s", simplified]
  obtain w where "serializeOutcome (outcome s) = Inr w" "deserializeOutcome (ethersLib P) w = Inr (outcome s)"
    using assms deserializeOutcome_serialize [of "ethersLib P" "outcome s"] by (auto simp: canonicalState_def)
  with sigs assms ps show ?thesis
    by (simp add: deserializeState_def serializeState_def canonicalState_def canonicalAddress_def
        state.defs signed_state.defs)
qed

lemma deserializeStates_serialize:
  assumes "\<forall>s \<in> set ss. canonicalState P s"
  shows "\<exists>ws. mapE (\<lambda>s. serializeState P s c) ss = Inr ws \<and> mapE (deserializeState P) ws = Inr ss"
  using assms
proof (induction ss)
  case (Cons s ss)
  obtain w where "serializeState P s c = Inr w" "deserializeState P w = Inr s"
    using Cons.prems deserializeState_serialize by (meson list.set_intros(1))
  with Cons show ?case by fastforce
qed simp

lemma deserializeMessage_of_serialize:
  assumes "\<forall>s \<in> set (case signedStates m of None \<Rightarrow> [] | Some ss \<Rightarrow> ss). canonicalState P s"
    and "\<forall>o' \<in> set (case objectives m of None \<Rightarrow> [] | Some os \<Rightarrow> os).
           \<forall>p \<in> set (objectiveParticipants o'). canonicalParticipant (ethersLib P) p"
  shows "\<exists>w. serializeMessage P version m to from' channelId = Inr w \<and> recipient w = to \<and>
    deserializeMessage P w = Inr (m\<lparr>walletVersion := version,
      signedStates := Some (case signedStates m of None \<Rightarrow> [] | Some ss \<Rightarrow> ss)\<rparr>)"
proof -
  have wp: "withParticipants (objectiveParticipants o') o' = o'" for o'
    by (cases o') simp_all
  have os: "mapE (deserializeObjective (ethersLib P)) os = Inr os"
    if "\<forall>o' \<in> set os. \<forall>p \<in> set (objectiveParticipants o'). canonicalParticipant (ethersLib P) p" for os
  proof (rule mapE_id)
    fix o' assume "o' \<in> set os"
    with that have "mapE (convertToInternalParticipant (ethersLib P)) (objectiveParticipants o') =
        Inr (objectiveParticipants o')"
      by (intro mapE_id) (simp add: convertToInternalParticipant_canonical)
    with wp [of o'] show "deserializeObjective (ethersLib P) o' = Inr o'"
      by (simp add: deserializeObjective_def)
  qed
  from deserializeStates_serialize [OF assms(1), of channelId] os assms(2) show ?thesis
    by (cases "objectives m")
       (auto simp: deserializeMessage_def serializeMessage_def mapOptionE_def)
qed

text \<open>
  C27: a message survives the wire. Whatever payload of canonical states (what the parsers leave
  alone, with amounts between 0 and 2^256) and objectives a wallet sends, the serialiser accepts it
  and the receiver reads back the same states with the same signers, the same objectives and the
  same requests; only the wallet version is the one given to the serialiser, and an absent list
  of states arrives as an empty one.
\<close>

theorem deserializeMessage_serialize:
  assumes "\<forall>s \<in> set (case signedStates m of None \<Rightarrow> [] | Some ss \<Rightarrow> ss). canonicalState P s"
    and "\<forall>o' \<in> set (case objectives m of None \<Rightarrow> [] | Some os \<Rightarrow> os).
           \<forall>p \<in> set (objectiveParticipants o'). canonicalParticipant (ethersLib P) p"
  shows "bindE (serializeMessage P version m to from' channelId) (deserializeMessage P) =
    Inr (m\<lparr>walletVersion := version,
           signedStates := Some (case signedStates m of None \<Rightarrow> [] | Some ss \<Rightarrow> ss)\<rparr>)"
  using deserializeMessage_of_serialize [OF assms, of version to from' channelId] by auto

text \<open>An amount that does not fit 32 bytes stops the whole message.\<close>

lemma serializeOutcome_amounts:
  assumes "serializeOutcome (SimpleAllocation a) = Inr w"
  shows "\<forall>i \<in> set (allocationItems a). 0 \<le> amount i \<and> amount i < 2 ^ 256"
  using assms
  by (auto simp: serializeSimpleAllocation_def bindE_eq_Inr mapE_Inr_iff serializeAllocationItem_Inr
      list_all2_conv_all_nth in_set_conv_nth)

lemma mapE_deserializeAppAllocation:
  assumes "\<forall>a \<in> set as. canonicalAllocation e a"
  shows "mapE (deserializeAppAllocation e) (map (\<lambda>a. (asset a, allocationItems a)) as) = Inr as"
  using assms
proof (induction as)
  case (Cons a as)
  with mapE_deserializeItem [of e a] show ?case
    by (simp add: deserializeAppAllocation_def) (simp add: canonical_defs)
qed simp

text \<open>
  The allocations an application reads in a channel result and sends back in an update denote
  the same outcome.
\<close>

theorem deserializeAllocations_serialize:
  assumes "canonicalOutcome e o'" and "isAllocation o'"
  shows "bindE (serializeAllocation o') (deserializeAllocations e) = Inr o'"
proof (cases o')
  case (SimpleAllocation a)
  with assms mapE_deserializeAppAllocation [of "[a]" e] show ?thesis
    by (auto simp: deserializeAllocations_def bindE_eq_Inr serializeAppAllocation_canonical)
next
  case (MixedAllocation as)
  with assms obtain x y zs where as: "as = x # y # zs"
    by (cases as; cases "tl as") auto
  from MixedAllocation assms have can: "\<forall>a \<in> set as. canonicalAllocation e a" by simp
  then have "mapE serializeAppAllocation as = Inr (map (\<lambda>a. (asset a, allocationItems a)) as)"
    by (auto intro!: mapE_pure serializeAppAllocation_canonical)
  with MixedAllocation mapE_deserializeAppAllocation [OF can] show ?thesis
    by (simp add: deserializeAllocations_def as)
qed (use assms in simp)

end
