(* ===== verification/Fixtures.thy ===== *)
theory Fixtures
  imports WireFormat
begin

text \<open>
  Concrete values the witnesses of several theories share: destinations of 32 bytes that
  \<open>makeDestination\<close> leaves alone, two participants and the constants of their channel. They model
  no code.
\<close>

definition sampleDest :: "char \<Rightarrow> bytes32" where
  "sampleDest c = replicate 66 c"

definition sampleEthers :: ethers where
  "sampleEthers = \<lparr>getAddress = (\<lambda>s. Some s), hexZeroPad = (\<lambda>s n. Some (sampleDest CHR ''z'')),
     isAddress = (\<lambda>s. True)\<rparr>"

definition samplePlatform :: platform where
  "samplePlatform = \<lparr>ethersLib = sampleEthers, toHexBN = (\<lambda>s. Some s), isZeroBN = (\<lambda>s. s = zeroAddress),
     numBN = (\<lambda>s. 0), evmAccepts = (\<lambda>f t b. Some True),
     hashNitroState = (\<lambda>n. replicate (nat (ns_turnNum n)) (CHR ''h'')),
     signNitroState = (\<lambda>n k. ''sig'' @ k), recoverNitro = (\<lambda>n g. Some (drop 3 g)),
     nitroChannelId = (\<lambda>c. sampleDest CHR ''l''), walletAddress = (\<lambda>k. k)\<rparr>"

definition sampleParticipants :: "participant list" where
  "sampleParticipants =
     [\<lparr>participantId = ''alice'', signingAddress = ''0xA'', destination = sampleDest CHR ''a''\<rparr>,
      \<lparr>participantId = ''bob'', signingAddress = ''0xB'', destination = sampleDest CHR ''b''\<rparr>]"

definition sampleConstants :: channel_constants where
  "sampleConstants =
     \<lparr>chainId = ''0x1'', participants = sampleParticipants, channelNonce = 1,
      appDefinition = zeroAddress, challengeDuration = 60\<rparr>"

definition sampleAllocation :: "(char \<times> int) list \<Rightarrow> simple_allocation" where
  "sampleAllocation ps = \<lparr>asset = zeroAddress,
     allocationItems = map (\<lambda>(c, n). \<lparr>item_destination = sampleDest c, amount = n\<rparr>) ps\<rparr>"

definition sampleState :: "int \<Rightarrow> simple_allocation \<Rightarrow> address list \<Rightarrow> signed_state" where
  "sampleState n a signers =
     \<lparr>chainId = ''0x1'', participants = sampleParticipants, channelNonce = 1,
      appDefinition = zeroAddress, challengeDuration = 60, outcome = SimpleAllocation a,
      turnNum = n, appData = ''0x'', isFinal = False,
      signatures = map (\<lambda>x. \<lparr>signature = ''sig'' @ x, signer = x\<rparr>) signers\<rparr>"

lemmas sample_defs = sampleDest_def sampleEthers_def sampleParticipants_def sampleConstants_def
  sampleAllocation_def sampleState_def

lemma sampleDest_eq_iff [simp]: "sampleDest c = sampleDest d \<longleftrightarrow> c = d"
  by (simp add: sampleDest_def)

lemma makeDestination_sample [simp]:
  assumes "toLowerChar c = c"
  shows "makeDestination eth (sampleDest c) = Inr (sampleDest c)"
proof -
  have "take (length zeroPrefix) (sampleDest c) \<noteq> zeroPrefix"
  proof
    assume eq: "take (length zeroPrefix) (sampleDest c) = zeroPrefix"
    have "c = take (length zeroPrefix) (sampleDest c) ! 0"
      and "c = take (length zeroPrefix) (sampleDest c) ! 1"
      by (simp_all add: zeroPrefix_def sampleDest_def)
    then show False unfolding eq by (simp add: zeroPrefix_def)
  qed
  then show ?thesis
    using assms by (simp add: makeDestination_def sampleDest_def toLowerCase_def)
qed

section \<open>Witnesses of the transition rules and of the wire format\<close>

theorem validateTransition_iff_witness:
  "validateTransition samplePlatform (sampleState 4 (sampleAllocation [(CHR ''a'', 5)]) [])
     (sampleState 5 (sampleAllocation [(CHR ''a'', 3), (CHR ''b'', 2)]) []) (Some ''0x60'') False"
proof -
  let ?f = "sampleState 4 (sampleAllocation [(CHR ''a'', 5)]) []"
  let ?t = "sampleState 5 (sampleAllocation [(CHR ''a'', 3), (CHR ''b'', 2)]) []"
  obtain nf where f: "toNitroState samplePlatform ?f = Inr nf"
    by (simp add: toNitroState_def sampleState_def simpleToNitro_def convertToNitroAllocationItems_def
        sampleAllocation_def sampleDest_def)
  obtain nt where t: "toNitroState samplePlatform ?t = Inr nt"
    by (simp add: toNitroState_def sampleState_def simpleToNitro_def convertToNitroAllocationItems_def
        sampleAllocation_def sampleDest_def)
  have "sameConstants nf nt"
    using f t by (auto simp: sameConstants_def toNitroState_def bindE_eq_Inr sampleState_def)
  then show ?thesis
    unfolding validateTransition_iff [OF f t]
    by (simp add: sampleState_def sampleParticipants_def samplePlatform_def zeroAddress_def)
qed

lemma sampleState_canonical:
  assumes "\<forall>i \<in> set (allocationItems a). canonicalDestination sampleEthers (item_destination i) \<and>
      0 \<le> amount i \<and> amount i < 2 ^ 256"
  shows "canonicalState samplePlatform (sampleState n a ss)"
proof -
  have eth: "ethersLib samplePlatform = sampleEthers" by (simp add: samplePlatform_def)
  have addr: "makeAddress sampleEthers x = Inr x" for x
    by (simp add: makeAddress_def sampleEthers_def)
  have recover: "recoverNitro samplePlatform m (CHR ''s'' # CHR ''i'' # CHR ''g'' # x) = Some x" for m x
    by (simp add: samplePlatform_def)
  have "\<exists>m. toNitroState samplePlatform (sampleState n a ss) = Inr m"
  proof -
    have "\<exists>js. convertToNitroAllocationItems sampleEthers (toHexBN samplePlatform) is = Inr js" for "is"
      by (induction "is")
         (auto simp: convertToNitroAllocationItems_def convertAddressToBytes32_def sampleEthers_def
           samplePlatform_def bindE_eq_Inr)
    then show ?thesis
      by (simp add: toNitroState_def sampleState_def simpleToNitro_def eth bindE_eq_Inr)
  qed
  then have "getSignerAddress samplePlatform (sampleState n a ss) (''sig'' @ x) = Inr x" for x
    by (auto simp: getSignerAddress_def recoverAddress_def eth addr recover)
  then show ?thesis
    using assms
    by (auto simp: canonicalState_def canonical_defs eth addr sampleState_def sampleParticipants_def
        toLowerChar_def)
qed

theorem deserializeMessage_serialize_witness:
  "bindE (serializeMessage samplePlatform ''v1''
      \<lparr>walletVersion = ''v0'',
       signedStates = Some [sampleState 5 (sampleAllocation [(CHR ''a'', 3), (CHR ''b'', 2)]) [''0xA'']],
       objectives = Some [DefundChannel sampleParticipants ''0xc''], requests = None\<rparr>
      ''bob'' None None) (deserializeMessage samplePlatform) =
    Inr \<lparr>walletVersion = ''v1'',
       signedStates = Some [sampleState 5 (sampleAllocation [(CHR ''a'', 3), (CHR ''b'', 2)]) [''0xA'']],
       objectives = Some [DefundChannel sampleParticipants ''0xc''], requests = None\<rparr>"
proof -
  have "canonicalState samplePlatform
      (sampleState 5 (sampleAllocation [(CHR ''a'', 3), (CHR ''b'', 2)]) [''0xA''])"
    by (rule sampleState_canonical)
       (simp add: sampleAllocation_def canonicalDestination_def toLowerChar_def)
  moreover have "\<forall>p \<in> set sampleParticipants. canonicalParticipant (ethersLib samplePlatform) p"
    by (simp add: sampleParticipants_def canonical_defs samplePlatform_def makeAddress_def
        sampleEthers_def toLowerChar_def)
  ultimately show ?thesis
    by (subst deserializeMessage_serialize) simp_all
qed

theorem deserializeAllocations_serialize_witness:
  "bindE (serializeAllocation (SimpleAllocation (sampleAllocation [(CHR ''a'', 3), (CHR ''b'', 2)])))
      (deserializeAllocations sampleEthers) =
    Inr (SimpleAllocation (sampleAllocation [(CHR ''a'', 3), (CHR ''b'', 2)]))"
  by (rule deserializeAllocations_serialize)
     (simp_all add: canonical_defs sampleAllocation_def makeAddress_def toLowerChar_def
       sampleEthers_def [THEN arg_cong [of _ _ getAddress]])

end
