(* ===== verification/LedgerSafety.thy ===== *)
theory LedgerSafety
  imports LedgerAgreement LedgerLifecycle Fixtures
begin

text \<open>
  Safety of the ledger protocol: the life cycle of the requests, the funds of the ledger, the turn
  numbers of the states it signs, and two situations its follower handles wrongly.
\<close>

definition sampleRequest :: "char \<Rightarrow> int \<Rightarrow> int \<Rightarrow> request_type \<Rightarrow> ledger_request" where
  "sampleRequest c x y ty =
     \<lparr>ledgerChannelId = sampleDest CHR ''l'', channelToBeFunded = sampleDest c, req_status = Queued,
      amountA = x, amountB = y, lastSeenAgreedState = None, missedOpportunityCount = 0,
      req_type = ty\<rparr>"

theorem follower_accepts_leader_proposal_witness:
  "\<exists>p rsF. crankAsFollowerInProposal sampleEthers
      (sampleState 4 (sampleAllocation [(CHR ''a'', 5), (CHR ''b'', 5), (CHR ''c'', 2)])
        [''0xA'', ''0xB'']) p
      [sampleRequest CHR ''d'' 3 1 Fund, sampleRequest CHR ''c'' 1 1 Defund,
       sampleRequest CHR ''e'' 9 9 Fund] = Inr ([p], rsF)"
proof -
  let ?a = "sampleAllocation [(CHR ''a'', 5), (CHR ''b'', 5), (CHR ''c'', 2)]"
  let ?s = "sampleState 4 ?a [''0xA'', ''0xB'']"
  let ?rs = "[sampleRequest CHR ''d'' 3 1 Fund, sampleRequest CHR ''c'' 1 1 Defund,
       sampleRequest CHR ''e'' 9 9 Fund]"
  have "case crankAsLeaderInAgreement sampleEthers ?s ?rs of Inr (ts, rs') \<Rightarrow> length ts = 1 | _ \<Rightarrow> False"
    by code_simp
  then obtain p rsL where "crankAsLeaderInAgreement sampleEthers ?s ?rs = Inr ([p], rsL)"
    by (auto split: sum.splits simp: length_Suc_conv)
  from follower_accepts_leader_proposal [OF _ _ _ _ this, of ?a] show ?thesis
    by (auto simp: simpleAllocationOutcome_def sampleState_def destinationsOf_def
        sampleAllocation_def sampleRequest_def toLowerChar_def)
qed

theorem agreement_requests_progress_witness:
  "\<exists>ts r'. crankAsLeaderInAgreement sampleEthers
      (sampleState 4 (sampleAllocation [(CHR ''a'', 5), (CHR ''b'', 5)]) [''0xA'', ''0xB''])
      [sampleRequest CHR ''d'' 3 1 Fund] = Inr (ts, [r']) \<and>
    channelToBeFunded r' = sampleDest CHR ''d''"
proof -
  let ?s = "sampleState 4 (sampleAllocation [(CHR ''a'', 5), (CHR ''b'', 5)]) [''0xA'', ''0xB'']"
  let ?rs = "[sampleRequest CHR ''d'' 3 1 Fund]"
  have "case crankAsLeaderInAgreement sampleEthers ?s ?rs of Inr x \<Rightarrow> True | _ \<Rightarrow> False"
    by code_simp
  then obtain ts rs' where c: "crankAsLeaderInAgreement sampleEthers ?s ?rs = Inr (ts, rs')"
    by (auto split: sum.splits)
  have "list_all isActive ?rs" by code_simp
  from agreement_requests_progress [OF this disjI1 [OF c]] c show ?thesis
    by (auto simp: list_all2_Cons1 sampleRequest_def)
qed

section \<open>The funds of the ledger\<close>

definition fundsOf :: "simple_allocation \<Rightarrow> address \<times> int" where
  "fundsOf a = (asset a, allocationTotal a)"

text \<open>
  The contract of a way to apply one request: it keeps an invariant of the outcome and the ledger's
  funds, for requests that are admissible, and admissibility is a matter of what a request asks for.
\<close>

locale conserving_step =
  fixes apply_request :: "simple_allocation \<Rightarrow> ledger_request \<Rightarrow> simple_allocation option result"
    and inv :: "simple_allocation \<Rightarrow> bool"
    and ok :: "ledger_request \<Rightarrow> bool"
  assumes step: "apply_request a r = Inr (Some b) \<Longrightarrow> inv a \<Longrightarrow> ok r \<Longrightarrow> inv b \<and> fundsOf b = fundsOf a"
    and ok_key: "reqKey r' = reqKey r \<Longrightarrow> ok r \<Longrightarrow> ok r'"
begin

lemma ok_keys: "sameKeys rs rs' \<Longrightarrow> \<forall>r \<in> set rs. ok r \<Longrightarrow> \<forall>r \<in> set rs'. ok r"
proof
  fix r' assume k: "sameKeys rs rs'" and ok: "\<forall>r \<in> set rs. ok r" and "r' \<in> set rs'"
  then obtain i where i: "i < length rs'" "r' = rs' ! i" by (auto simp: in_set_conv_nth)
  then have "i < length rs" using sameKeys_length [OF k] by simp
  with sameKeys_nth [OF k this] i ok show "ok r'" using ok_key [of r' "rs ! i"] by simp
qed

lemma build:
  assumes "buildStep apply_request st (a, rs) i = Inr (b, rs')"
    and "inv a" and "\<forall>r \<in> set rs. ok r" and "i < length rs"
  shows "inv b \<and> fundsOf b = fundsOf a"
  using assms step [of a "rs ! i"]
  by (auto simp: buildStep_def bindE_eq_Inr split: option.splits)

lemma loop:
  assumes "foldE (buildStep apply_request st) (a, rs) is = Inr (b, rs')"
    and "inv a" and "\<forall>r \<in> set rs. ok r" and "\<forall>i \<in> set is. i < length rs"
  shows "inv b \<and> fundsOf b = fundsOf a"
  using assms
proof (induction "is" arbitrary: a rs)
  case (Cons i "is")
  from Cons.prems(1) obtain c ss where c: "buildStep apply_request st (a, rs) i = Inr (c, ss)"
    "foldE (buildStep apply_request st) (c, ss) is = Inr (b, rs')"
    by (auto simp: bindE_eq_Inr)
  from sameKeys_buildStep [OF c(1)] have k: "sameKeys rs ss" by simp
  from build [OF c(1)] Cons.prems have "inv c \<and> fundsOf c = fundsOf a" by auto
  moreover have "inv b \<and> fundsOf b = fundsOf c"
    by (rule Cons.IH [OF c(2)]) (use calculation Cons.prems ok_keys [OF k] sameKeys_length [OF k] in auto)
  ultimately show ?case by simp
qed simp

end

definition wellFormed :: "simple_allocation \<Rightarrow> bool" where
  "wellFormed a \<longleftrightarrow> distinct (destinationsOf a) \<and> allocationNonneg a"

text \<open>
  A request the ledger of state \<open>s\<close> can serve: amounts are not negative and the channel to be funded
  is not a participant's own destination.
\<close>

definition admissible :: "ethers \<Rightarrow> signed_state \<Rightarrow> ledger_request \<Rightarrow> bool" where
  "admissible eth s r \<longleftrightarrow> 0 \<le> amountA r \<and> 0 \<le> amountB r \<and>
     (\<forall>ds. participantDestinations eth s = Inr ds \<longrightarrow>
        distinct ds \<and> channelToBeFunded r \<notin> set ds)"

lemma admissible_key: "reqKey r' = reqKey r \<Longrightarrow> admissible eth s r \<Longrightarrow> admissible eth s r'"
  by (auto simp: admissible_def dest!: reqKey_fields)

interpretation defunding: conserving_step "applyDefund eth s" wellFormed "admissible eth s" for eth s
proof
  fix a r b
  assume r: "applyDefund eth s a r = Inr (Some b)" and w: "wellFormed a" and ok: "admissible eth s r"
  from r obtain ds where ds: "participantDestinations eth s = Inr ds"
    and rm: "removeChannel a (channelToBeFunded r) ds [amountA r, amountB r] = Inr (Some b)"
    by (auto simp: applyDefund_def bindE_eq_Inr)
  have "asset b = asset a" using removeChannel_SomeD [OF rm] by (metis simple_allocation.simps(1,6)
      simple_allocation.surjective simple_allocation.update_convs(2))
  with removeChannel_total [OF rm] removeChannel_nonneg [OF rm] applyDefund_SomeD [OF r] w ok ds
  show "wellFormed b \<and> fundsOf b = fundsOf a"
    by (auto simp: wellFormed_def fundsOf_def admissible_def)
qed (rule admissible_key)

interpretation funding: conserving_step "applyFund eth s" allocationNonneg "admissible eth s" for eth s
proof
  fix a r b
  assume r: "applyFund eth s a r = Inr (Some b)" and w: "allocationNonneg a" and ok: "admissible eth s r"
  from r obtain ds where ds: "participantDestinations eth s = Inr ds"
    and ad: "addChannel eth a (channelToBeFunded r) ds [amountA r, amountB r] = Inr (Some b)"
    by (auto simp: applyFund_def bindE_eq_Inr)
  have "asset b = asset a" using addChannel_SomeD [OF ad] by (metis simple_allocation.simps(1,6)
      simple_allocation.surjective simple_allocation.update_convs(2))
  with addChannel_total [OF ad] addChannel_nonneg [OF ad w] ok ds
  show "allocationNonneg b \<and> fundsOf b = fundsOf a"
    by (auto simp: fundsOf_def admissible_def)
qed (rule admissible_key)

lemma buildOutcome_conserves:
  assumes "buildOutcome eth s idx rs = Inr (b, rs')" and "simpleAllocationOutcome s = Some a"
    and "wellFormed a" and "\<forall>r \<in> set rs. admissible eth s r" and "\<forall>i \<in> set idx. i < length rs"
  shows "allocationNonneg b \<and> fundsOf b = fundsOf a"
proof -
  from assms(1,2) obtain m rs1
    where m: "foldE (buildStep (applyDefund eth s) Inconsistent) (a, rs)
        (filter (\<lambda>i. isDefund (rs ! i)) idx) = Inr (m, rs1)"
    and f: "foldE (buildStep (applyFund eth s) InsufficientFunds) (m, rs1)
        (sort_key (\<lambda>i. channelToBeFunded (rs1 ! i)) (filter (\<lambda>i. isFund (rs1 ! i)) idx)) = Inr (b, rs')"
    by (auto simp: buildOutcome_def bindE_eq_Inr)
  from sameKeys_buildLoop [OF m] have k: "sameKeys rs rs1" by simp
  from defunding.loop [OF m assms(3,4)] assms(5) have "wellFormed m \<and> fundsOf m = fundsOf a" by simp
  moreover have "allocationNonneg b \<and> fundsOf b = fundsOf m"
    by (rule funding.loop [OF f])
       (use calculation assms(5) funding.ok_keys [OF k assms(4)] sameKeys_length [OF k]
        in \<open>auto simp: wellFormed_def\<close>)
  ultimately show ?thesis by simp
qed

lemma advanceToOutcome_simps [simp]:
  "simpleAllocationOutcome (advanceToOutcome s b) = Some b"
  "turnNum (advanceToOutcome s b) = turnNum s + 1"
  by (simp_all add: advanceToOutcome_def simpleAllocationOutcome_def)

lemma compare_calculated:
  assumes "compareChangesWithRequests eth rs s p = Inr (res, rs')"
    and "simpleAllocationOutcome s = Some a" and "wellFormed a"
    and "\<forall>r \<in> set rs. admissible eth s r"
  shows "(case res of
      FullAgreement \<Rightarrow> (\<exists>b. simpleAllocationOutcome p = Some b \<and>
        (set (destinationsOf b) = set (destinationsOf a) \<or> allocationNonneg b \<and> fundsOf b = fundsOf a))
    | SomeOverlap b \<Rightarrow> allocationNonneg b \<and> fundsOf b = fundsOf a
    | NoOverlap b \<Rightarrow> b = a)"
proof -
  from assms(1,2) obtain c where c: "simpleAllocationOutcome p = Some c"
    by (auto simp: compareChangesWithRequests_def split: option.splits)
  let ?x = "xorList (destinationsOf a) (destinationsOf c)"
  show ?thesis
  proof (cases "?x = []")
    case True
    then have "set (destinationsOf c) = set (destinationsOf a)" by (simp add: xorList_Nil_iff)
    with assms(1,2) c True show ?thesis
      by (auto simp: compareChangesWithRequests_def)
  next
    case False
    from assms(1) obtain idc where idc: "identifyPotentialCancellations rs = Inr idc"
      using False assms(2) c
      by (auto simp: compareChangesWithRequests_def bindE_eq_Inr Let_def)
    let ?O = "filter (\<lambda>i. channelToBeFunded (rs ! i) \<in> set ?x) (snd idc)"
    have O: "\<forall>i \<in> set ?O. i < length rs"
      using identify_queuedDefunds [of rs "fst idc" "snd idc"] idc by auto
    show ?thesis
    proof (cases "?O = []")
      case True
      with assms(1,2) c False idc show ?thesis
        by (auto simp: compareChangesWithRequests_def Let_def case_prod_unfold)
    next
      case ne: False
      with assms(1,2) c False idc obtain b rs1 where b: "buildOutcome eth s ?O rs = Inr (b, rs1)"
        and res: "res = FullAgreement \<and> isEqualTo c (Some b) \<or> res = SomeOverlap b"
        by (auto simp: compareChangesWithRequests_def Let_def case_prod_unfold bindE_eq_Inr
            split: if_splits)
      from buildOutcome_conserves [OF b assms(2-4) O] res c show ?thesis
        by (auto simp: isEqualTo_iff)
    qed
  qed
qed

text \<open>
  C8: a state the protocol makes up itself never creates or destroys money. From a well-formed
  agreed outcome (no negative amount, one item per destination) and admissible requests (with amounts
  that are not negative, for channels other than the participants' destinations, which are distinct), what the leader
  proposes, and what the follower counter-proposes, has the asset and the total of the agreed
  outcome, has no negative amount, and is the successor of the state it answers.
\<close>

theorem ledger_proposals_conserve_funds:
  assumes "simpleAllocationOutcome s = Some a" and "wellFormed a"
    and "\<forall>r \<in> set rs. admissible eth s r"
  shows "(crankAsLeaderInAgreement eth s rs = Inr (ts, rs') \<longrightarrow>
      (\<forall>t \<in> set ts. turnNum t = turnNum s + 1 \<and>
        (\<exists>b. simpleAllocationOutcome t = Some b \<and> allocationNonneg b \<and> asset b = asset a \<and>
             allocationTotal b = allocationTotal a))) \<and>
    (crankAsFollowerInProposal eth s p rs = Inr (ts, rs') \<longrightarrow>
      (\<forall>t \<in> set ts. t = p \<or> turnNum t = turnNum p + 1 \<and>
        (\<exists>b. simpleAllocationOutcome t = Some b \<and> allocationNonneg b \<and> asset b = asset a \<and>
             allocationTotal b = allocationTotal a)))"
proof (intro conjI impI)
  assume "crankAsLeaderInAgreement eth s rs = Inr (ts, rs')"
  then obtain rs1 where p: "processAgreedState s rs = Inr rs1"
    and t: "ts = [] \<or> (\<exists>b rs2. buildOutcome eth s (refsWhere isQueued rs1) rs1 = Inr (b, rs2) \<and>
      ts = [advanceToOutcome s b])"
    by (auto simp: crankAsLeaderInAgreement_def bindE_eq_Inr case_prod_unfold split: if_splits)
  from funding.ok_keys [OF sameKeys_processAgreedState [OF p] assms(3)]
  show "\<forall>t \<in> set ts. turnNum t = turnNum s + 1 \<and>
        (\<exists>b. simpleAllocationOutcome t = Some b \<and> allocationNonneg b \<and> asset b = asset a \<and>
             allocationTotal b = allocationTotal a)"
    using t buildOutcome_conserves [OF _ assms(1,2)]
    by (fastforce simp: fundsOf_def refsWhere_iff)
next
  assume "crankAsFollowerInProposal eth s p rs = Inr (ts, rs')"
  then show "\<forall>t \<in> set ts. t = p \<or> turnNum t = turnNum p + 1 \<and>
        (\<exists>b. simpleAllocationOutcome t = Some b \<and> allocationNonneg b \<and> asset b = asset a \<and>
             allocationTotal b = allocationTotal a)"
  proof (cases rule: follower_cases)
    case (counter rs1 rs2 narrowed)
    note ok = funding.ok_keys [OF sameKeys_processAgreedState [OF counter(1)] assms(3)]
    from counter(2) have "allocationNonneg narrowed \<and> fundsOf narrowed = fundsOf a"
      using compare_calculated [OF _ assms(1,2) ok] assms(2) by (fastforce simp: wellFormed_def)
    with counter(4) show ?thesis by (simp add: fundsOf_def)
  qed simp
qed

text \<open>
  C21: when a proposal changes which channels the ledger funds, the follower double-signs it only if
  it conserves the ledger's funds, for a well-formed agreed outcome and admissible requests as above.
  (Proposals that leave the destinations alone are the subject
  of another property.)
\<close>

theorem follower_double_sign_conserves:
  assumes "simpleAllocationOutcome s = Some a" and "wellFormed a"
    and "\<forall>r \<in> set rs. admissible eth s r"
    and "simpleAllocationOutcome p = Some b"
    and "set (destinationsOf b) \<noteq> set (destinationsOf a)"
    and "crankAsFollowerInProposal eth s p rs = Inr (ts, rs')" and "p \<in> set ts"
  shows "allocationNonneg b \<and> asset b = asset a \<and> allocationTotal b = allocationTotal a"
  using assms(6)
proof (cases rule: follower_cases)
  case (accept rs1 rs2)
  from compare_calculated [OF accept(2) assms(1,2)
      funding.ok_keys [OF sameKeys_processAgreedState [OF accept(1)] assms(3)]] assms(4,5)
  show ?thesis by (simp add: fundsOf_def)
next
  case (counter rs1 rs2 narrowed)
  with assms(7) have "turnNum p = turnNum (advanceToOutcome p narrowed)" by simp
  then show ?thesis by simp
qed

section \<open>Two situations the follower handles wrongly\<close>

text \<open>
  C29: a proposal with the same set of destinations is double-signed whatever its amounts are: the
  comparison looks at destinations only. Whatever its queue of requests, all that can keep the
  follower from signing is an error in the bookkeeping of that queue, for the agreed state or for the
  proposal; with no request at all, it signs a state in which the leader has moved the whole ledger
  balance to itself.
\<close>

theorem follower_signs_any_reallocation:
  assumes "simpleAllocationOutcome s = Some a" and "simpleAllocationOutcome p = Some b"
    and "set (destinationsOf b) = set (destinationsOf a)"
  shows "crankAsFollowerInProposal eth s p rs =
      bindE (processAgreedState s rs) (\<lambda>rs1. bindE (processAgreedState p rs1) (\<lambda>rs2. Inr ([p], rs2))) \<and>
    crankAsFollowerInProposal eth s p [] = Inr ([p], [])"
proof -
  have p: "processAgreedState t [] = Inr []" if "simpleAllocationOutcome t = Some c" for t c
    using that by (simp add: processAgreedState_def identifyPotentialCancellations_def
        cancellationDefunds_def refsWhere_def markSuccesses_Nil resetPendingRequestsToQueued_def
        updateStateSeenAndMissedOps_def)
  have "xorList (destinationsOf a) (destinationsOf b) = []"
    using assms(3) by (simp add: xorList_Nil_iff)
  then have "compareChangesWithRequests eth rs s p = Inr (FullAgreement, rs)" for rs
    by (simp add: compareChangesWithRequests_def assms(1,2))
  with p [OF assms(1)] p [OF assms(2)] show ?thesis
    by (simp add: crankAsFollowerInProposal_def)
qed

text \<open>
  a follower whose queue holds a fund and a defund of a channel that is not funded yet fails on
  every proposal. The first pass over the queue cancels the pair, and the second look for
  cancellations then finds a defund that is no longer queued.
\<close>

theorem follower_fails_on_cancelled_pair:
  assumes "simpleAllocationOutcome s = Some a" and "simpleAllocationOutcome p = Some b"
    and "isFund f" and "\<not> isFund d" and "isQueued f" and "isQueued d"
    and "channelToBeFunded d = channelToBeFunded f"
    and "channelToBeFunded f \<notin> set (destinationsOf a)"
  shows "crankAsFollowerInProposal eth s p [f, d] =
    Inl (Error ''cancellation defund is not in queued state'')"
proof -
  let ?cancel = "\<lambda>r. r\<lparr>req_status := Cancelled, lastSeenAgreedState := Some (turnNum s)\<rparr>"
  have canc: "cancellationDefunds [x, y] = [1]"
    if "isFund x" "\<not> isFund y" "channelToBeFunded y = channelToBeFunded x" for x y
    using that by (simp add: cancellationDefunds_def refsWhere_def upt_rec)
  from canc [OF assms(3,4,7)] assms(6)
  have id: "identifyPotentialCancellations [f, d] = Inr ([1], [0])"
    by (simp add: identifyPotentialCancellations_def upt_rec)
  have m: "markSuccessesAndInconsistencies [0] s [f, d] = Inr [f, d]"
    by (simp add: markSuccessesAndInconsistencies_def assms(1,3,8) includedFundings_def)
  have reset: "resetPendingRequestsToQueued [f, d] = [f, d]"
    using assms(5,6) by (simp add: resetPendingRequestsToQueued_def isPending_def isQueued_def)
  have app: "applyCancellations [1] (turnNum s) [f, d] = ([], [?cancel f, ?cancel d])"
    using assms(3,5,7) by (simp add: findFund_def setRequest_def upt_rec)
  have seen: "updateStateSeenAndMissedOps (turnNum s) [?cancel f, ?cancel d] = [?cancel f, ?cancel d]"
    by (simp add: updateStateSeenAndMissedOps_def isQueued_def)
  have proc: "processAgreedState s [f, d] = Inr [?cancel f, ?cancel d]"
    by (simp add: processAgreedState_def id m reset app [unfolded One_nat_def] markSuccesses_Nil [OF assms(1)] seen
        del: applyCancellations.simps)
  have fail: "identifyPotentialCancellations [?cancel f, ?cancel d] =
      Inl (Error ''cancellation defund is not in queued state'')"
    using canc [of "?cancel f" "?cancel d"] assms(3,4,7)
    by (simp add: identifyPotentialCancellations_def isQueued_def isFund_def)
  show ?thesis
  proof (cases "xorList (destinationsOf a) (destinationsOf b) = []")
    case True
    then have "compareChangesWithRequests eth [?cancel f, ?cancel d] s p =
        Inr (FullAgreement, [?cancel f, ?cancel d])"
      by (simp add: compareChangesWithRequests_def assms(1,2))
    moreover have "processAgreedState p [?cancel f, ?cancel d] =
        Inl (Error ''cancellation defund is not in queued state'')"
      by (simp add: processAgreedState_def fail)
    ultimately show ?thesis by (simp add: crankAsFollowerInProposal_def proc)
  next
    case False
    then have "compareChangesWithRequests eth [?cancel f, ?cancel d] s p =
        Inl (Error ''cancellation defund is not in queued state'')"
      by (simp add: compareChangesWithRequests_def assms(1,2) fail Let_def)
    then show ?thesis by (simp add: crankAsFollowerInProposal_def proc)
  qed
qed

section \<open>Turn numbers\<close>

lemma determineLedgerState_turns:
  assumes "\<And>n s. ro_uniqueStateAt l n = Some s \<Longrightarrow> turnNum s = n"
  shows "case determineLedgerState l of
      Agreement s \<Rightarrow> turnNum s = ro_latestTurnNum l \<and> fullySigned s
    | Proposal s p \<Rightarrow> turnNum s = ro_latestTurnNum l - 1 \<and> turnNum p = ro_latestTurnNum l \<and>
        fullySigned s \<and> \<not> fullySigned p \<and> ro_uniqueStateAt l (turnNum p) = Some p
    | CounterProposal s p c \<Rightarrow> turnNum s = ro_latestTurnNum l - 2 \<and> turnNum c = ro_latestTurnNum l \<and>
        fullySigned s \<and> \<not> fullySigned c \<and> ro_uniqueStateAt l (turnNum c) = Some c
    | ProtocolViolation \<Rightarrow> True"
  by (auto simp: determineLedgerState_def Let_def assms split: option.splits)

text \<open>
  cranking never goes back. Every state a crank signs either is the latest state of the
  channel, not yet fully signed, or is a new state one turn after it, and the states come in
  increasing turn order, so no crank ever signs two states with one turn number.
\<close>

theorem crank_signs_latest_or_next:
  assumes "\<And>n s. ro_uniqueStateAt l n = Some s \<Longrightarrow> turnNum s = n"
    and "crankLedger eth l rs = Inr (ts, rs')"
  shows "sorted_wrt (<) (map turnNum ts) \<and>
    (\<forall>t \<in> set ts. turnNum t = ro_latestTurnNum l + 1 \<or>
       ro_uniqueStateAt l (ro_latestTurnNum l) = Some t \<and> \<not> fullySigned t)"
proof -
  have leader: "us = [] \<or> (\<exists>b. us = [advanceToOutcome s b])"
    if "crankAsLeaderInAgreement eth s qs = Inr (us, qs')" for s qs us qs'
    using that by (auto simp: crankAsLeaderInAgreement_def bindE_eq_Inr case_prod_unfold split: if_splits)
  note turns = determineLedgerState_turns [of l, OF assms(1)]
  show ?thesis
  proof (cases "determineLedgerState l")
    case (Agreement s)
    with assms(2) turns leader [of s rs ts rs'] show ?thesis
      by (auto simp: crankLedger_def Let_def crankAsFollowerInAgreement_def bindE_eq_Inr split: if_splits)
  next
    case (Proposal s p)
    show ?thesis
    proof (cases "ro_myIndex l = 0")
      case False
      with assms(2) Proposal have "crankAsFollowerInProposal eth s p rs = Inr (ts, rs')"
        by (simp add: crankLedger_def)
      then show ?thesis by (cases rule: follower_cases) (use turns Proposal in auto)
    qed (use assms(2) Proposal in \<open>simp add: crankLedger_def\<close>)
  next
    case (CounterProposal s p c)
    show ?thesis
    proof (cases "ro_myIndex l = 0")
      case True
      with assms(2) CounterProposal obtain us qs where "ts = c # us"
        "crankAsLeaderInAgreement eth c qs = Inr (us, rs')"
        by (auto simp: crankLedger_def crankAsLeaderInCounterProposal_def bindE_eq_Inr
            case_prod_unfold split: if_splits)
      with leader [of c qs us rs'] turns CounterProposal show ?thesis by auto
    qed (use assms(2) CounterProposal in \<open>simp add: crankLedger_def\<close>)
  next
    case ProtocolViolation
    with assms(2) show ?thesis by (simp add: crankLedger_def)
  qed
qed

section \<open>Witnesses\<close>

abbreviation "sampleAgreed \<equiv>
  sampleState 4 (sampleAllocation [(CHR ''a'', 5), (CHR ''b'', 5)]) [''0xA'', ''0xB'']"

lemma participantDestinations_sample:
  "participantDestinations eth (sampleState n a ss) = Inr [sampleDest CHR ''a'', sampleDest CHR ''b'']"
  by (simp add: participantDestinations_def sampleState_def sampleParticipants_def toLowerChar_def)

lemma sample_simps:
  "simpleAllocationOutcome (sampleState n a ss) = Some a"
  "wellFormed (sampleAllocation [(CHR ''a'', 5), (CHR ''b'', 5)])"
  "admissible eth sampleAgreed (sampleRequest CHR ''d'' 3 1 Fund)"
proof -
  show "simpleAllocationOutcome (sampleState n a ss) = Some a"
    by (simp add: simpleAllocationOutcome_def sampleState_def)
  show "wellFormed (sampleAllocation [(CHR ''a'', 5), (CHR ''b'', 5)])"
    by (simp add: wellFormed_def destinationsOf_def allocationNonneg_def sampleAllocation_def)
  show "admissible eth sampleAgreed (sampleRequest CHR ''d'' 3 1 Fund)"
    by (simp add: admissible_def participantDestinations_sample) (simp add: sampleRequest_def)
qed

theorem ledger_proposals_conserve_funds_witness:
  "\<exists>t rs' b. crankAsLeaderInAgreement sampleEthers sampleAgreed
      [sampleRequest CHR ''d'' 3 1 Fund] = Inr ([t], rs') \<and>
    simpleAllocationOutcome t = Some b \<and> allocationTotal b = 10"
proof -
  have "case crankAsLeaderInAgreement sampleEthers sampleAgreed [sampleRequest CHR ''d'' 3 1 Fund]
      of Inr (ts, rs') \<Rightarrow> length ts = 1 | _ \<Rightarrow> False"
    by code_simp
  then obtain t rs' where c: "crankAsLeaderInAgreement sampleEthers sampleAgreed
      [sampleRequest CHR ''d'' 3 1 Fund] = Inr ([t], rs')"
    by (auto split: sum.splits simp: length_Suc_conv)
  have "\<forall>r \<in> set [sampleRequest CHR ''d'' 3 1 Fund]. admissible sampleEthers sampleAgreed r"
    by (simp add: sample_simps)
  from ledger_proposals_conserve_funds [OF sample_simps(1,2) this, of "[t]" rs'] c
  show ?thesis by (auto simp: allocationTotal_def sampleAllocation_def)
qed

abbreviation "sampleProposed \<equiv> sampleState 5
  (sampleAllocation [(CHR ''a'', 2), (CHR ''b'', 4), (CHR ''d'', 4)]) [''0xA'']"

theorem follower_double_sign_conserves_witness:
  "\<exists>rs'. crankAsFollowerInProposal sampleEthers sampleAgreed sampleProposed
      [sampleRequest CHR ''d'' 3 1 Fund] = Inr ([sampleProposed], rs') \<and>
    allocationTotal (sampleAllocation [(CHR ''a'', 2), (CHR ''b'', 4), (CHR ''d'', 4)]) = 10"
proof -
  have "case crankAsFollowerInProposal sampleEthers sampleAgreed sampleProposed
      [sampleRequest CHR ''d'' 3 1 Fund] of Inr (ts, rs') \<Rightarrow> ts = [sampleProposed] | _ \<Rightarrow> False"
    by code_simp
  then obtain rs' where c: "crankAsFollowerInProposal sampleEthers sampleAgreed sampleProposed
      [sampleRequest CHR ''d'' 3 1 Fund] = Inr ([sampleProposed], rs')"
    by (auto split: sum.splits)
  have ok: "\<forall>r \<in> set [sampleRequest CHR ''d'' 3 1 Fund]. admissible sampleEthers sampleAgreed r"
    by (simp add: sample_simps)
  have "set (destinationsOf (sampleAllocation [(CHR ''a'', 2), (CHR ''b'', 4), (CHR ''d'', 4)])) \<noteq>
      set (destinationsOf (sampleAllocation [(CHR ''a'', 5), (CHR ''b'', 5)]))"
    by code_simp
  from follower_double_sign_conserves [OF sample_simps(1,2) ok sample_simps(1) this c] c
  show ?thesis by (auto simp: allocationTotal_def sampleAllocation_def)
qed

text \<open>Alice takes all of the balance, while Bob waits for a channel to be funded.\<close>

theorem follower_signs_any_reallocation_witness:
  "\<exists>rs'. crankAsFollowerInProposal sampleEthers sampleAgreed
      (sampleState 5 (sampleAllocation [(CHR ''a'', 10), (CHR ''b'', 0)]) [''0xA'']) [sampleRequest CHR ''e'' 1 1 Fund] =
    Inr ([sampleState 5 (sampleAllocation [(CHR ''a'', 10), (CHR ''b'', 0)]) [''0xA'']], rs')"
proof -
  let ?p = "sampleState 5 (sampleAllocation [(CHR ''a'', 10), (CHR ''b'', 0)]) [''0xA'']"
    and ?rs = "[sampleRequest CHR ''e'' 1 1 Fund]"
  let ?m = "bindE (processAgreedState sampleAgreed ?rs) (\<lambda>rs1. bindE (processAgreedState ?p rs1) (\<lambda>rs2. Inr ([?p], rs2)))"
  have "case ?m of Inl e \<Rightarrow> False | Inr (ps, rs') \<Rightarrow> ps = [?p]" by code_simp
  then obtain rs' where m: "?m = Inr ([?p], rs')" by (cases ?m) auto
  have "crankAsFollowerInProposal sampleEthers sampleAgreed ?p ?rs = ?m"
    by (rule follower_signs_any_reallocation [OF sample_simps(1) sample_simps(1), THEN conjunct1])
       (simp add: destinationsOf_def sampleAllocation_def)
  with m show ?thesis by auto
qed

theorem follower_fails_on_cancelled_pair_witness:
  "crankAsFollowerInProposal sampleEthers sampleAgreed
      (sampleState 5 (sampleAllocation [(CHR ''a'', 2), (CHR ''b'', 4), (CHR ''d'', 4)]) [''0xA''])
      [sampleRequest CHR ''e'' 1 1 Fund, sampleRequest CHR ''e'' 1 1 Defund] =
    Inl (Error ''cancellation defund is not in queued state'')"
  by (rule follower_fails_on_cancelled_pair [OF sample_simps(1) sample_simps(1)])
     (simp_all add: destinationsOf_def sampleAllocation_def sampleRequest_def isFund_def isQueued_def)

definition sampleLedger :: "int \<Rightarrow> signed_state list \<Rightarrow> readonly_channel" where
  "sampleLedger i ss =
     \<lparr>chainId = ''0x1'', participants = sampleParticipants, channelNonce = 1,
      appDefinition = zeroAddress, challengeDuration = 60, ro_myIndex = i,
      ro_latestTurnNum = Max (set (map turnNum ss)),
      ro_uniqueStateAt = (\<lambda>n. find (\<lambda>s. turnNum s = n) ss)\<rparr>"

theorem crank_signs_latest_or_next_witness:
  "\<exists>t rs'. crankLedger sampleEthers (sampleLedger 0 [sampleAgreed])
      [sampleRequest CHR ''d'' 3 1 Fund] = Inr ([t], rs') \<and> turnNum t = 5"
proof -
  let ?l = "sampleLedger 0 [sampleAgreed]"
  have "case crankLedger sampleEthers ?l [sampleRequest CHR ''d'' 3 1 Fund]
      of Inr (ts, rs') \<Rightarrow> length ts = 1 | _ \<Rightarrow> False"
    by code_simp
  then obtain t rs' where c: "crankLedger sampleEthers ?l
      [sampleRequest CHR ''d'' 3 1 Fund] = Inr ([t], rs')"
    by (auto split: sum.splits simp: length_Suc_conv)
  have u: "\<And>n s. ro_uniqueStateAt ?l n = Some s \<Longrightarrow> turnNum s = n"
    by (auto simp: sampleLedger_def split: if_splits)
  have "fullySigned sampleAgreed" by code_simp
  with crank_signs_latest_or_next [of ?l, OF u c] c show ?thesis
    by (auto simp: sampleLedger_def sampleState_def)
qed

end
