(* ===== verification/ChannelModel.thy ===== *)
theory ChannelModel
  imports WireFormat LedgerProtocol
begin

text \<open>
  The class \<open>Channel\<close> of \<open>packages/server-wallet/src/models/channel.ts\<close>: a row of the table
  \<open>channels\<close> with its related rows, and everything the wallet derives from it, above all which
  state is supported. The rows of the related tables are here too, since a channel carries them;
  a relation that was not fetched is None. A getter that can throw returns a result.
\<close>

section \<open>Related rows\<close>

record funding_row =
  f_channelId :: bytes32
  f_asset :: address
  f_amount :: uint256
  f_transferredOut :: "(bytes32 \<times> uint256) list"

datatype chain_request = FundRequest | WithdrawRequest | ChallengeRequest | PushOutcomeRequest

record chain_service_request =
  csr_channelId :: bytes32
  csr_request :: chain_request
  csr_timestamp :: int
  csr_attempts :: int

datatype channel_mode = OpenMode | ChallengeMode | FinalizedMode

definition getChannelMode :: "int \<Rightarrow> int \<Rightarrow> channel_mode" where
  "getChannelMode finalizesAt now =
     (if finalizesAt = 0 then OpenMode
      else if finalizesAt \<le> now then FinalizedMode else ChallengeMode)"

record adjudicator_row =
  as_channelId :: bytes32
  as_finalizesAt :: int
  as_blockNumber :: int
  as_blockTimestamp :: int
  as_states :: "signed_state list option"

datatype adjudicator_status = AdjudicatorOpen | AdjudicatorFinalized "signed_state list option"
  | AdjudicatorChallenge "signed_state list option"

text \<open>\<open>AdjudicatorStatusModel.convertResult\<close>, for an absent row as well.\<close>

definition convertResult :: "adjudicator_row option \<Rightarrow> adjudicator_status" where
  "convertResult result =
     (case result of
        None \<Rightarrow> AdjudicatorOpen
      | Some r \<Rightarrow>
          (case getChannelMode (as_finalizesAt r) (as_blockTimestamp r) of
             OpenMode \<Rightarrow> AdjudicatorOpen
           | FinalizedMode \<Rightarrow> AdjudicatorFinalized (as_states r)
           | ChallengeMode \<Rightarrow> AdjudicatorChallenge (as_states r)))"

fun modeOf :: "adjudicator_status \<Rightarrow> channel_mode" where
  "modeOf AdjudicatorOpen = OpenMode"
| "modeOf (AdjudicatorFinalized _) = FinalizedMode"
| "modeOf (AdjudicatorChallenge _) = ChallengeMode"

section \<open>The channel\<close>

record channel = channel_constants +
  ch_channelId :: bytes32
  ch_vars :: "signed_vars list"
  ch_signingAddress :: address
  ch_fundingStrategy :: funding_strategy
  ch_isLedgerChannel :: bool
  ch_fundingLedgerChannelId :: "bytes32 option"
  ch_initialSupport :: "signed_state list"
  ch_funding :: "funding_row list option"
  ch_adjudicatorStatus :: "adjudicator_row option"
  ch_chainServiceRequests :: "chain_service_request list option"

definition channelConstants :: "channel \<Rightarrow> channel_constants" where
  "channelConstants c = channel_constants.truncate c"

definition nParticipants :: "channel \<Rightarrow> int" where
  "nParticipants c = int (length (participants c))"

definition myIndex :: "channel \<Rightarrow> int" where
  "myIndex c = findIndex (\<lambda>p. signingAddress p = ch_signingAddress c) (participants c)"

text \<open>Reading a property of \<open>participants[i]\<close> past either end is a TypeError.\<close>

definition participantAt :: "channel \<Rightarrow> int \<Rightarrow> participant result" where
  "participantAt c i =
     (if 0 \<le> i \<and> i < nParticipants c then Inr (participants c ! nat i) else Inl TypeError)"

definition myParticipantInfo :: "channel \<Rightarrow> participant result" where
  "myParticipantInfo c = participantAt c (myIndex c)"

definition myAddress :: "channel \<Rightarrow> address result" where
  "myAddress c = bindE (participantAt c (myIndex c)) (\<lambda>p. Inr (signingAddress p))"

definition myParticipantId :: "channel \<Rightarrow> string result" where
  "myParticipantId c = bindE (participantAt c (myIndex c)) (\<lambda>p. Inr (participantId p))"

definition signedStates' :: "channel \<Rightarrow> signed_state_with_hash list" where
  "signedStates' c = map (spreadVars (channelConstants c)) (ch_vars c)"

text \<open>A stable sort, latest turn first.\<close>

definition sortedStates :: "channel \<Rightarrow> signed_state_with_hash list" where
  "sortedStates c = sort_key (\<lambda>s. - turnNum s) (signedStates' c)"

section \<open>Support\<close>

definition isNullApp :: "platform \<Rightarrow> channel \<Rightarrow> bool" where
  "isNullApp P c = isZeroBN P (appDefinition c)"

text \<open>The participant whose turn it is. A channel has at least one participant.\<close>

definition moverSigned :: "participant list \<Rightarrow> 'a signed_state_scheme \<Rightarrow> bool" where
  "moverSigned ps s =
     (case nthOpt ps (nat (turnNum s mod int (length ps))) of
        None \<Rightarrow> False
      | Some mover \<Rightarrow> list_ex (\<lambda>g. signer g = signingAddress mover) (signatures s))"

text \<open>
  The loop of \<open>_support\<close>: the support so far, the participants who have not signed, and the
  previous state. Deleting the signers one by one and returning as soon as nobody is left gives
  the same answer as deleting them all first, because the mover's signature is among them.
\<close>

fun supportLoop ::
  "platform \<Rightarrow> bool \<Rightarrow> participant list \<Rightarrow> signed_state_with_hash list \<Rightarrow> address list \<Rightarrow>
   signed_state_with_hash option \<Rightarrow> signed_state_with_hash list \<Rightarrow> signed_state_with_hash list"
where
  "supportLoop P skip ps support notSigned previous [] = []"
| "supportLoop P skip ps support notSigned previous (s # rest) =
     (let broken = (case previous of None \<Rightarrow> False
                    | Some p \<Rightarrow> \<not> validateTransition P s p None skip);
          support1 = (if broken then [] else support);
          notSigned1 = (if broken then map signingAddress ps else notSigned)
      in if moverSigned ps s then
           (let notSigned2 = filter (\<lambda>a. a \<notin> signer ` set (signatures s)) notSigned1
            in if notSigned2 = [] then support1 @ [s]
               else supportLoop P skip ps (support1 @ [s]) notSigned2 (Some s) rest)
         else supportLoop P skip ps support1 notSigned1 (Some s) rest)"

definition support :: "platform \<Rightarrow> channel \<Rightarrow> signed_state_with_hash list" where
  "support P c = supportLoop P (\<not> isNullApp P c) (participants c) []
     (map signingAddress (participants c)) None (sortedStates c)"

definition supported :: "platform \<Rightarrow> channel \<Rightarrow> signed_state_with_hash option" where
  "supported P c = (case support P c of [] \<Rightarrow> None | s # _ \<Rightarrow> Some s)"

definition isSupported :: "platform \<Rightarrow> channel \<Rightarrow> bool" where
  "isSupported P c \<longleftrightarrow> supported P c \<noteq> None"

definition hasConclusionProof :: "platform \<Rightarrow> channel \<Rightarrow> bool" where
  "hasConclusionProof P c \<longleftrightarrow> isSupported P c \<and> list_all isFinal (support P c)"

section \<open>Latest states\<close>

text \<open>
  With no state at all \<open>latest\<close> has only the constants; None here. The channel's signing address is
  that of a participant (\<open>createChannel\<close> looks it up among them), so \<open>myAddress\<close> does not throw.
\<close>

definition latest :: "channel \<Rightarrow> signed_state_with_hash option" where
  "latest c = (case sortedStates c of [] \<Rightarrow> None | s # _ \<Rightarrow> Some s)"

definition signedByMe :: "channel \<Rightarrow> signed_state_with_hash list" where
  "signedByMe c = filter (\<lambda>s. list_ex (\<lambda>g. myAddress c = Inr (signer g)) (signatures s))
     (signedStates' c)"

definition latestSignedByMe :: "channel \<Rightarrow> signed_state_with_hash option" where
  "latestSignedByMe c = (case signedByMe c of [] \<Rightarrow> None | s # _ \<Rightarrow> Some s)"

definition isSupportedByMe :: "channel \<Rightarrow> bool" where
  "isSupportedByMe c \<longleftrightarrow> latestSignedByMe c \<noteq> None"

definition uniqueStateAt :: "channel \<Rightarrow> int \<Rightarrow> signed_state option" where
  "uniqueStateAt c n =
     (case filter (\<lambda>s. turnNum s = n) (signedStates' c) of
        [s] \<Rightarrow> Some (signed_state.truncate s)
      | _ \<Rightarrow> None)"

definition latestFullySignedState :: "channel \<Rightarrow> signed_state option" where
  "latestFullySignedState c =
     (case filter (\<lambda>s. length (signatures s) = length (participants c)) (signedStates' c) of
        [s] \<Rightarrow> Some (signed_state.truncate s)
      | _ \<Rightarrow> None)"

definition myTurn :: "platform \<Rightarrow> channel \<Rightarrow> bool" where
  "myTurn P c =
     (case supported P c of
        Some s \<Rightarrow> (turnNum s + 1) mod nParticipants c = myIndex c
      | None \<Rightarrow> myIndex c = 0)"

section \<open>Stages\<close>

definition prefundSigned :: "channel \<Rightarrow> bool" where
  "prefundSigned c \<longleftrightarrow> latestSignedByMe c \<noteq> None"

definition postfundSigned :: "channel \<Rightarrow> bool" where
  "postfundSigned c \<longleftrightarrow>
     (case latestSignedByMe c of None \<Rightarrow> False | Some s \<Rightarrow> turnNum s \<ge> 2 * nParticipants c - 1)"

definition preFundComplete :: "platform \<Rightarrow> channel \<Rightarrow> bool" where
  "preFundComplete P c \<longleftrightarrow> supported P c \<noteq> None"

definition postFundComplete :: "platform \<Rightarrow> channel \<Rightarrow> bool" where
  "postFundComplete P c \<longleftrightarrow>
     (case supported P c of None \<Rightarrow> False | Some s \<Rightarrow> turnNum s \<ge> 2 * nParticipants c - 1)"

definition isRunning :: "platform \<Rightarrow> channel \<Rightarrow> bool" where
  "isRunning P c \<longleftrightarrow> postFundComplete P c \<and> list_all (\<lambda>s. \<not> isFinal s) (sortedStates c)"

section \<open>Funding\<close>

definition noSupportedState :: error where
  "noSupportedState = ChannelError ''The channel is expected to contain supported state''"

definition supportedAllocation :: "platform \<Rightarrow> channel \<Rightarrow> simple_allocation result" where
  "supportedAllocation P c =
     (case supported P c of None \<Rightarrow> Inl noSupportedState
      | Some s \<Rightarrow> checkSimpleAllocation (outcome s))"

definition allocationItemForParticipantIndex ::
  "platform \<Rightarrow> channel \<Rightarrow> int \<Rightarrow> allocation_item option result" where
  "allocationItemForParticipantIndex P c index =
     (if index \<ge> nParticipants c
      then Inl (ChannelError
        ''The participant index is greater than the number of participants in the channel'')
      else if supported P c = None then Inl noSupportedState
      else bindE (participantAt c index) (\<lambda>p.
           bindE (supportedAllocation P c) (\<lambda>a.
             Inr (find (\<lambda>i. item_destination i = destination p) (allocationItems a)))))"

definition sumAmounts :: "allocation_item list \<Rightarrow> uint256" where
  "sumAmounts items = foldl (+) 0 (map amount items)"

text \<open>The triple (targetBefore, targetAfter, targetTotal).\<close>

definition fundingMilestones :: "platform \<Rightarrow> channel \<Rightarrow> (uint256 \<times> uint256 \<times> uint256) result" where
  "fundingMilestones P c =
     bindE (supportedAllocation P c) (\<lambda>a.
     bindE (allocationItemForParticipantIndex P c (myIndex c)) (\<lambda>mine.
     bindE (participantAt c (myIndex c)) (\<lambda>me.
       case mine of
         None \<Rightarrow> Inl (ChannelError ''The destination is not in the channel allocatons'')
       | Some m \<Rightarrow>
           let prior = sumAmounts (takeWhile (\<lambda>i. item_destination i \<noteq> destination me)
                                      (allocationItems a))
           in Inr (prior, prior + amount m, sumAmounts (allocationItems a)))))"

datatype threshold = FullyFunded | PartlyFunded

text \<open>\<open>this.funding\<close> is undefined when the relation was not fetched.\<close>

definition isDirectFunded :: "platform \<Rightarrow> channel \<Rightarrow> threshold \<Rightarrow> bool result" where
  "isDirectFunded P c t =
     bindE (supportedAllocation P c) (\<lambda>a.
       case ch_funding c of
         None \<Rightarrow> Inl TypeError
       | Some fs \<Rightarrow>
           (case find (\<lambda>f. f_asset f = asset a) fs of
              None \<Rightarrow> Inr False
            | Some f \<Rightarrow>
                (case t of
                   FullyFunded \<Rightarrow> Inr (f_amount f \<ge> sumAmounts (allocationItems a))
                 | PartlyFunded \<Rightarrow>
                     bindE (fundingMilestones P c) (\<lambda>(prior, _, _). Inr (f_amount f > prior)))))"

definition amountOf :: "simple_allocation \<Rightarrow> participant \<Rightarrow> uint256" where
  "amountOf a p =
     (case find (\<lambda>i. item_destination i = destination p) (allocationItems a) of
        None \<Rightarrow> 0 | Some i \<Rightarrow> amount i)"

definition myAmount :: "platform \<Rightarrow> channel \<Rightarrow> uint256 result" where
  "myAmount P c =
     (if supported P c = None
      then Inl (Error ''Trying to get myFundingAmount for channel with no supported state'')
      else bindE (participantAt c (myIndex c)) (\<lambda>me.
           bindE (supportedAllocation P c) (\<lambda>a. Inr (amountOf a me))))"

definition opponentAmount :: "platform \<Rightarrow> channel \<Rightarrow> uint256 result" where
  "opponentAmount P c =
     (if supported P c = None
      then Inl (Error ''opponentFundingAmount: channel has no supported state'')
      else if nParticipants c > 2
      then Inl (Error ''opponentFundingAmount: channel has more than 2 participants'')
      else bindE (participantAt c (1 - myIndex c)) (\<lambda>them.
           bindE (supportedAllocation P c) (\<lambda>a. Inr (amountOf a them))))"

section \<open>What the protocols see\<close>

record channel_state_funding =
  csf_amount :: uint256
  csf_transferredOut :: "(bytes32 \<times> uint256) list"

datatype funding_status = Uncategorized | ReadyToFund | Funded | Defunded

datatype channel_status = Proposed | Opening | Running | Closing | Closed

definition sumTransferred :: "(bytes32 \<times> uint256) list \<Rightarrow> uint256" where
  "sumTransferred ts = foldl (+) 0 (map snd ts)"

text \<open>
  \<open>directFundingStatus\<close>. \<open>_.findIndex\<close> gives -1 for an absent destination, and then
  \<open>slice(0, -1)\<close> drops the last item and \<open>slice(0, 0)\<close> is empty.
\<close>

definition jsSlice0 :: "'a list \<Rightarrow> int \<Rightarrow> 'a list" where
  "jsSlice0 xs n = (if n < 0 then take (nat (int (length xs) + n)) xs else take (nat n) xs)"

definition directFundingStatus ::
  "signed_state_with_hash option \<Rightarrow> (address \<Rightarrow> channel_state_funding option) \<Rightarrow>
   participant option \<Rightarrow> funding_strategy \<Rightarrow> funding_status option result" where
  "directFundingStatus supp fundingFn myParticipant strategy =
     (if strategy = Fake then
        Inr (Some (case supp of None \<Rightarrow> Uncategorized
                   | Some s \<Rightarrow> if turnNum s < 3 then ReadyToFund else Funded))
      else if strategy \<noteq> Direct then Inr (Some Uncategorized)
      else (case supp of
        None \<Rightarrow> Inr (Some Uncategorized)
      | Some s \<Rightarrow>
          bindE (checkSimpleAllocation (outcome s)) (\<lambda>a.
          case myParticipant of None \<Rightarrow> Inl TypeError | Some me \<Rightarrow>
          (let items = allocationItems a;
               myDestination = destination me;
               myAmount = sumAmounts (filter (\<lambda>i. item_destination i = myDestination) items)
           in case fundingFn (asset a) of
                None \<Rightarrow> Inr None
              | Some funding \<Rightarrow>
                  let toMe = sumTransferred
                        (filter (\<lambda>t. fst t = myDestination) (csf_transferredOut funding));
                      toAll = sumTransferred (csf_transferredOut funding);
                      fullFunding = sumAmounts items;
                      i = findIndex (\<lambda>i. item_destination i = myDestination) items;
                      prior = sumAmounts (jsSlice0 items i);
                      withMe = sumAmounts (jsSlice0 items (i + 1))
                  in Inr (Some (
                       if isFinal s \<and> toMe \<ge> myAmount then Defunded
                       else if toMe = 0 \<and> csf_amount funding \<ge> fullFunding then Funded
                       else if toAll = 0 \<and> csf_amount funding \<ge> prior \<and> csf_amount funding < withMe
                       then ReadyToFund
                       else Uncategorized))))))"

record channel_state = 
  cs_channelId :: bytes32
  cs_myIndex :: int
  cs_participants :: "participant list"
  cs_support :: "signed_state_with_hash list"
  cs_supported :: "signed_state_with_hash option"
  cs_latest :: "signed_state_with_hash option"
  cs_latestSignedByMe :: "signed_state_with_hash option"
  cs_funding :: "address \<Rightarrow> channel_state_funding option"
  cs_chainServiceRequests :: "chain_service_request list"
  cs_fundingStrategy :: funding_strategy
  cs_fundingLedgerChannelId :: "bytes32 option"
  cs_directFundingStatus :: "funding_status option"
  cs_adjudicatorStatus :: channel_mode

definition fundingOf :: "channel \<Rightarrow> address \<Rightarrow> channel_state_funding option" where
  "fundingOf c a =
     (case ch_funding c of
        None \<Rightarrow> None
      | Some fs \<Rightarrow>
          (case find (\<lambda>f. f_asset f = a) fs of
             None \<Rightarrow> Some \<lparr>csf_amount = 0, csf_transferredOut = []\<rparr>
           | Some f \<Rightarrow> Some \<lparr>csf_amount = f_amount f, csf_transferredOut = f_transferredOut f\<rparr>))"

definition protocolState :: "platform \<Rightarrow> channel \<Rightarrow> channel_state result" where
  "protocolState P c =
     bindE (if ch_funding c = None then Inr None
            else directFundingStatus (supported P c) (fundingOf c)
                   (if myIndex c < 0 then None else Some (participants c ! nat (myIndex c)))
                   (ch_fundingStrategy c)) (\<lambda>dfs.
       Inr \<lparr>cs_channelId = ch_channelId c, cs_myIndex = myIndex c, cs_participants = participants c,
            cs_support = support P c, cs_supported = supported P c, cs_latest = latest c,
            cs_latestSignedByMe = latestSignedByMe c, cs_funding = fundingOf c,
            cs_chainServiceRequests = (case ch_chainServiceRequests c of None \<Rightarrow> [] | Some rs \<Rightarrow> rs),
            cs_fundingStrategy = ch_fundingStrategy c,
            cs_fundingLedgerChannelId = ch_fundingLedgerChannelId c,
            cs_directFundingStatus = dfs,
            cs_adjudicatorStatus = modeOf (convertResult (ch_adjudicatorStatus c))\<rparr>)"

definition status :: "channel_state \<Rightarrow> channel_status" where
  "status cs =
     (case cs_supported cs of
        None \<Rightarrow> if cs_latestSignedByMe cs = None then Proposed else Opening
      | Some s \<Rightarrow>
          if isFinal s then (if list_all isFinal (cs_support cs) then Closed else Closing)
          else if turnNum s < 2 * int (length (cs_participants cs)) - 1 then Opening
          else Running)"

record channel_result =
  cr_appData :: string
  cr_appDefinition :: address
  cr_channelId :: bytes32
  cr_participants :: "participant list"
  cr_turnNum :: int
  cr_allocations :: "app_allocation list"
  cr_status :: channel_status
  cr_fundingStatus :: "funding_status option"
  cr_adjudicatorStatus :: channel_mode

definition toChannelResult :: "channel_state \<Rightarrow> channel_result result" where
  "toChannelResult cs =
     (case (case cs_supported cs of Some s \<Rightarrow> Some s | None \<Rightarrow> cs_latest cs) of
        None \<Rightarrow> Inl TypeError
      | Some s \<Rightarrow>
          bindE (checkThat ''isAllocation'' isAllocation (outcome s)) (\<lambda>o'.
          bindE (serializeAllocation o') (\<lambda>as.
            Inr \<lparr>cr_appData = appData s, cr_appDefinition = appDefinition s,
                 cr_channelId = cs_channelId cs, cr_participants = participants s,
                 cr_turnNum = turnNum s, cr_allocations = as,
                 cr_status = status cs, cr_fundingStatus = cs_directFundingStatus cs,
                 cr_adjudicatorStatus = cs_adjudicatorStatus cs\<rparr>)))"

definition channelResult :: "platform \<Rightarrow> channel \<Rightarrow> channel_result result" where
  "channelResult P c = bindE (protocolState P c) toChannelResult"

section \<open>When a transition is checked\<close>

definition shouldValidateTransition :: "platform \<Rightarrow> signed_state_with_hash \<Rightarrow> channel \<Rightarrow> bool" where
  "shouldValidateTransition P incoming c =
     (if ch_fundingStrategy c = Fake \<and> turnNum incoming = 3 then False
      else
        (let alreadyHave = list_ex (\<lambda>s. stateHash s = stateHash incoming) (sortedStates c);
             isOld = turnNum incoming < (case supported P c of None \<Rightarrow> 0 | Some s \<Rightarrow> turnNum s);
             inFundingStage = turnNum incoming < 2 * int (length (participants incoming))
         in supported P c \<noteq> None \<and> \<not> isOld \<and> \<not> alreadyHave \<and> \<not> ch_isLedgerChannel c \<and>
            \<not> inFundingStage))"

end
