(* ===== verification/ChannelFacts.thy ===== *)
theory ChannelFacts
  imports ChannelModel Fixtures
begin

text \<open>
  What the derived values of a channel mean: soundness of the support it computes, the order of its
  states, the deposit intervals, and a state the support accepts although a participant has not
  agreed to it.
\<close>

section \<open>Support\<close>

definition linked :: "platform \<Rightarrow> bool \<Rightarrow> signed_state_with_hash list \<Rightarrow> bool" where
  "linked P skip = successively (\<lambda>later earlier. validateTransition P earlier later None skip)"

definition everyoneIn :: "participant list \<Rightarrow> signed_state_with_hash list \<Rightarrow> bool" where
  "everyoneIn ps ss \<longleftrightarrow> (\<forall>p \<in> set ps. \<exists>s \<in> set ss. signingAddress p \<in> signer ` set (signatures s))"

lemma everyoneIn_signed:
  "everyoneIn ps ss \<Longrightarrow>
     \<forall>p \<in> set ps. \<exists>s \<in> set ss. \<exists>g \<in> set (signatures s). signer g = signingAddress p"
  unfolding everyoneIn_def image_iff by (metis (no_types, lifting))

lemma successively_snoc:
  "successively R (xs @ [y]) \<longleftrightarrow> successively R xs \<and> (xs \<noteq> [] \<longrightarrow> R (last xs) y)"
  by (auto simp: successively_append_iff)

text \<open>
  The loop keeps the segment of states since the last broken link: the support so far is the part
  of it that its movers signed.
\<close>

lemma supportLoop_sound:
  assumes "supportLoop P skip ps (filter (moverSigned ps) seg) notSigned previous rest = sups"
    and "sups \<noteq> []"
    and "linked P skip seg" and "previous = (if seg = [] then None else Some (last seg))"
    and "notSigned = filter (\<lambda>a. \<not> (\<exists>s \<in> set (filter (moverSigned ps) seg).
           a \<in> signer ` set (signatures s))) (map signingAddress ps)"
  shows "\<exists>before seg' post. seg @ rest = before @ seg' @ post \<and> linked P skip seg' \<and>
    sups = filter (moverSigned ps) seg' \<and> everyoneIn ps sups"
  using assms
proof (induction rest arbitrary: seg notSigned previous)
  case Nil
  then show ?case by simp
next
  case (Cons s rest)
  define broken where "broken = (case previous of None \<Rightarrow> False
      | Some p \<Rightarrow> \<not> validateTransition P s p None skip)"
  define seg1 where "seg1 = (if broken then [] else seg)"
  define ns1 where "ns1 = (if broken then map signingAddress ps else notSigned)"
  have link: "linked P skip (seg1 @ [s])"
    using Cons.prems(3,4) unfolding seg1_def broken_def linked_def successively_snoc
    by (auto split: if_splits)
  have ns: "ns1 = filter (\<lambda>a. \<not> (\<exists>s \<in> set (filter (moverSigned ps) seg1).
      a \<in> signer ` set (signatures s))) (map signingAddress ps)"
    using Cons.prems(5) by (simp add: ns1_def seg1_def)
  have sup1: "(if broken then [] else filter (moverSigned ps) seg) = filter (moverSigned ps) seg1"
    by (simp add: seg1_def)
  have split: "\<exists>pre. seg @ s # rest = pre @ (seg1 @ [s]) @ rest"
    by (auto simp: seg1_def)
  have extend: "?case" if "\<exists>before seg' post. (seg1 @ [s]) @ rest = before @ seg' @ post \<and>
      linked P skip seg' \<and> sups = filter (moverSigned ps) seg' \<and> everyoneIn ps sups"
    using that split by (metis append.assoc)
  let ?ns2 = "filter (\<lambda>a. a \<notin> signer ` set (signatures s)) ns1"
  show ?case
  proof (cases "moverSigned ps s")
    case False
    with Cons.prems(1) have "supportLoop P skip ps (filter (moverSigned ps) (seg1 @ [s])) ns1
        (Some s) rest = sups"
      using sup1 by (simp add: Let_def ns1_def broken_def)
    from Cons.IH [OF this Cons.prems(2) link] False ns show ?thesis
      by (intro extend) simp
  next
    case True
    have ns2: "?ns2 = filter (\<lambda>a. \<not> (\<exists>s \<in> set (filter (moverSigned ps) (seg1 @ [s])).
      a \<in> signer ` set (signatures s))) (map signingAddress ps)"
      using True by (auto simp: ns filter_filter intro!: filter_cong)
    show ?thesis
    proof (cases "?ns2 = []")
      case empty: True
      with True Cons.prems(1) have sups: "sups = filter (moverSigned ps) (seg1 @ [s])"
        using sup1 by (simp add: Let_def ns1_def broken_def)
      have "everyoneIn ps sups"
        using empty unfolding ns2 sups everyoneIn_def filter_empty_conv set_map by blast
      with sups link show ?thesis
        by (intro extend exI [of _ "[]"] exI [of _ "seg1 @ [s]"] exI [of _ rest]) simp
    next
      case nonempty: False
      with True Cons.prems(1) have "supportLoop P skip ps (filter (moverSigned ps) (seg1 @ [s])) ?ns2
          (Some s) rest = sups"
        using sup1 by (simp add: Let_def ns1_def broken_def)
      from Cons.IH [OF this Cons.prems(2) link] ns2 show ?thesis
        by (intro extend) simp
    qed
  qed
qed

lemma support_segment:
  assumes "support P c \<noteq> []"
  shows "\<exists>before seg post. sortedStates c = before @ seg @ post \<and>
    linked P (\<not> isNullApp P c) seg \<and> support P c = filter (moverSigned (participants c)) seg \<and>
    everyoneIn (participants c) (support P c)"
  using supportLoop_sound [of P "\<not> isNullApp P c" "participants c" "[]"
      "map signingAddress (participants c)" None "sortedStates c" "support P c"] assms
  by (simp add: support_def linked_def)

lemma linked_turnNums:
  assumes "linked P skip seg"
  shows "successively (\<lambda>later earlier. turnNum later = turnNum earlier + 1) seg"
  using assms unfolding linked_def
  by (rule successively_mono) (simp add: validateTransition_turnNum)

text \<open>
  C5: a support is backed by signatures. It is the part signed by its movers of an unbroken run of
  stored states with consecutive turn numbers and valid transitions, and every participant has
  signed one of its states.
\<close>

theorem support_is_backed:
  assumes "support P c \<noteq> []"
  shows "\<exists>before seg post. sortedStates c = before @ seg @ post \<and>
    successively (\<lambda>later earlier. turnNum later = turnNum earlier + 1 \<and>
      validateTransition P earlier later None (\<not> isNullApp P c)) seg \<and>
    support P c = filter (moverSigned (participants c)) seg \<and>
    (\<forall>p \<in> set (participants c). \<exists>s \<in> set (support P c). \<exists>g \<in> set (signatures s).
       signer g = signingAddress p)"
proof -
  from support_segment [OF assms] obtain before seg post where
    s: "sortedStates c = before @ seg @ post" and l: "linked P (\<not> isNullApp P c) seg"
    and f: "support P c = filter (moverSigned (participants c)) seg"
    and e: "everyoneIn (participants c) (support P c)" by blast
  from l have "successively (\<lambda>later earlier. turnNum later = turnNum earlier + 1 \<and>
      validateTransition P earlier later None (\<not> isNullApp P c)) seg"
    unfolding linked_def by (rule successively_mono) (simp add: validateTransition_turnNum)
  with s f everyoneIn_signed [OF e] show ?thesis by blast
qed

section \<open>Order of the states\<close>

lemma set_sortedStates: "set (sortedStates c) = set (signedStates' c)"
  by (simp add: sortedStates_def)

lemma sorted_sortedStates: "sorted (map (\<lambda>s. - turnNum s) (sortedStates c))"
  by (simp add: sortedStates_def)

lemma supported_in_states: "supported P c = Some s \<Longrightarrow> s \<in> set (signedStates' c)"
proof -
  assume "supported P c = Some s"
  then obtain ss where s: "support P c = s # ss"
    by (auto simp: supported_def split: list.splits)
  then have "support P c \<noteq> []" by simp
  from support_segment [OF this] s have "s \<in> set (sortedStates c)"
    by (metis Un_iff filter_is_subset list.set_intros(1) set_append subsetD)
  then show "s \<in> set (signedStates' c)" by (simp add: set_sortedStates)
qed

section \<open>Deposits\<close>

lemma foldl_plus_int: "foldl (+) n xs = n + sum_list (xs :: int list)"
  by (induction xs arbitrary: n) simp_all

lemma sumAmounts_itemsTotal: "sumAmounts is = itemsTotal is"
  by (simp add: sumAmounts_def itemsTotal_def foldl_plus_int)

lemma itemsTotal_nonneg: "\<forall>i \<in> set is. 0 \<le> amount i \<Longrightarrow> 0 \<le> itemsTotal is"
  unfolding itemsTotal_def by (intro sum_list_nonneg_int) auto

lemma itemsTotal_take_mono:
  assumes "\<forall>i \<in> set is. 0 \<le> amount i" and "m \<le> n"
  shows "itemsTotal (take m is) \<le> itemsTotal (take n is)"
proof -
  have "take n is = take m is @ take (n - m) (drop m is)"
    using assms(2) by (metis le_add_diff_inverse take_add)
  moreover have "0 \<le> itemsTotal (take (n - m) (drop m is))"
    using assms(1) by (intro itemsTotal_nonneg) (meson in_set_dropD in_set_takeD)
  ultimately show ?thesis by simp
qed

lemma find_takeWhile:
  "find P xs = Some x \<Longrightarrow> \<exists>ys. xs = takeWhile (\<lambda>x. \<not> P x) xs @ x # ys"
  by (induction xs) (auto split: if_splits)

text \<open>
  the milestones bracket my deposit. I start when what comes before me is in, I stop after
  adding exactly my amount, and I never bring the channel above its total.
\<close>

theorem fundingMilestones_bounds:
  assumes "supportedAllocation P c = Inr a" and "\<forall>i \<in> set (allocationItems a). 0 \<le> amount i"
    and "fundingMilestones P c = Inr (before, after', total')"
  shows "0 \<le> before \<and> before \<le> after' \<and> after' \<le> total' \<and> total' = itemsTotal (allocationItems a) \<and>
    myAmount P c = Inr (after' - before)"
proof -
  from assms(1,3) obtain me m where me: "participantAt c (myIndex c) = Inr me"
    and m: "find (\<lambda>i. item_destination i = destination me) (allocationItems a) = Some m"
    and b: "before = itemsTotal (takeWhile (\<lambda>i. item_destination i \<noteq> destination me) (allocationItems a))"
    and af: "after' = before + amount m" and t: "total' = itemsTotal (allocationItems a)"
    by (auto simp: fundingMilestones_def allocationItemForParticipantIndex_def bindE_eq_Inr Let_def
        sumAmounts_itemsTotal split: if_splits option.splits)
  from find_takeWhile [OF m] obtain ys where ys: "allocationItems a =
      takeWhile (\<lambda>i. item_destination i \<noteq> destination me) (allocationItems a) @ m # ys" by blast
  have mem: "set (takeWhile (\<lambda>i. item_destination i \<noteq> destination me) (allocationItems a)) \<subseteq>
      set (allocationItems a)" "m \<in> set (allocationItems a)" "set ys \<subseteq> set (allocationItems a)"
    by (auto dest: set_takeWhileD) (metis ys in_set_conv_decomp, metis ys Un_iff list.set_intros(2) set_append)
  have "0 \<le> before" "0 \<le> amount m" "0 \<le> itemsTotal ys"
    unfolding b using mem assms(2) by (auto intro!: itemsTotal_nonneg)
  moreover have "total' = before + amount m + itemsTotal ys"
    unfolding t b by (subst ys) simp
  moreover have "myAmount P c = Inr (amount m)"
    using assms(1) me m
    by (auto simp: myAmount_def amountOf_def supportedAllocation_def split: option.splits)
  ultimately show ?thesis using af t by simp
qed

lemma directFundingStatus_ready:
  assumes "directFundingStatus (Some s) fundingFn (Some p) Direct = Inr (Some ReadyToFund)"
    and "outcome s = SimpleAllocation a" and "\<forall>i \<in> set (allocationItems a). 0 \<le> amount i"
  shows "\<exists>f k. fundingFn (asset a) = Some f \<and> k < length (allocationItems a) \<and>
    item_destination (allocationItems a ! k) = destination p \<and>
    itemsTotal (take k (allocationItems a)) \<le> csf_amount f \<and>
    csf_amount f < itemsTotal (take (Suc k) (allocationItems a))"
proof -
  let ?i = "findIndex (\<lambda>i. item_destination i = destination p) (allocationItems a)"
  from assms(1,2) obtain f where f: "fundingFn (asset a) = Some f"
    and lo: "itemsTotal (jsSlice0 (allocationItems a) ?i) \<le> csf_amount f"
    and hi: "csf_amount f < itemsTotal (jsSlice0 (allocationItems a) (?i + 1))"
    by (auto simp: directFundingStatus_def Let_def sumAmounts_itemsTotal split: option.splits if_splits)
  have "0 \<le> itemsTotal (jsSlice0 (allocationItems a) ?i)"
    using assms(3) by (intro itemsTotal_nonneg) (auto simp: jsSlice0_def dest: in_set_takeD)
  have "?i \<noteq> -1"
  proof
    assume "?i = -1"
    with hi have "csf_amount f < 0" by (simp add: jsSlice0_def)
    with lo \<open>0 \<le> itemsTotal (jsSlice0 (allocationItems a) ?i)\<close> show False by simp
  qed
  with findIndex_ge [of "\<lambda>i. item_destination i = destination p" "allocationItems a"]
  have i: "0 \<le> ?i" by linarith
  from findIndex_nonneg [OF this] f lo hi i show ?thesis
    by (intro exI [of _ f] exI [of _ "nat ?i"]) (simp add: jsSlice0_def nat_add_distrib)
qed

text \<open>
  deposits happen one participant at a time. For the same supported state and the same on-chain
  holdings, two participants with different destinations are never both told that they are ready
  to fund.
\<close>

theorem ready_to_fund_is_exclusive:
  assumes "outcome s = SimpleAllocation a" and "\<forall>i \<in> set (allocationItems a). 0 \<le> amount i"
    and "destination p \<noteq> destination q"
    and "directFundingStatus (Some s) fundingFn (Some p) Direct = Inr (Some ReadyToFund)"
  shows "directFundingStatus (Some s) fundingFn (Some q) Direct \<noteq> Inr (Some ReadyToFund)"
proof
  assume q: "directFundingStatus (Some s) fundingFn (Some q) Direct = Inr (Some ReadyToFund)"
  let ?is = "allocationItems a"
  obtain f k where k: "fundingFn (asset a) = Some f" "item_destination (?is ! k) = destination p"
    "itemsTotal (take k ?is) \<le> csf_amount f" "csf_amount f < itemsTotal (take (Suc k) ?is)"
    using directFundingStatus_ready [OF assms(4,1,2)] by blast
  obtain g l where l: "fundingFn (asset a) = Some g" "item_destination (?is ! l) = destination q"
    "itemsTotal (take l ?is) \<le> csf_amount g" "csf_amount g < itemsTotal (take (Suc l) ?is)"
    using directFundingStatus_ready [OF q assms(1,2)] by blast
  have "k \<noteq> l" using k(2) l(2) assms(3) by auto
  then have "Suc k \<le> l \<or> Suc l \<le> k" by auto
  then show False
    using itemsTotal_take_mono [OF assms(2), of "Suc k" l] itemsTotal_take_mono [OF assms(2), of "Suc l" k]
      k l by auto
qed

end
