(* ===== verification/ChannelStates.thy ===== *)
theory ChannelStates
  imports ChannelFacts
begin

text \<open>
  How a channel's stored states change: \<open>addState\<close> and \<open>clearOldStates\<close> of
  \<open>packages/server-wallet/src/state-utils.ts\<close>, the invariants \<open>engine/store.ts\<close> checks before it
  writes, \<open>addMyState\<close>, and the parts of \<open>signState\<close> and \<open>addSignedState\<close> that work on the channel
  object. The database around them is in the theory \<open>Database\<close>.
\<close>

section \<open>Folding a state in\<close>

definition dropNonVariables :: "signed_state_with_hash \<Rightarrow> signed_vars" where
  "dropNonVariables s =
     \<lparr>v_outcome = outcome s, v_turnNum = turnNum s, v_appData = appData s, v_isFinal = isFinal s,
      v_signatures = signatures s, v_stateHash = stateHash s\<rparr>"

definition addState :: "signed_vars list \<Rightarrow> signed_state_with_hash \<Rightarrow> signed_vars list" where
  "addState vs s =
     (case find (\<lambda>v. v_stateHash v = stateHash s) vs of
        Some _ \<Rightarrow> updateFirst (\<lambda>v. v_stateHash v = stateHash s)
                    (\<lambda>v. v\<lparr>v_signatures := uniqBy signature (v_signatures v @ signatures s)\<rparr>) vs
      | None \<Rightarrow> vs @ [dropNonVariables s])"

text \<open>The support comes latest first, so its last element is its earliest state.\<close>

definition clearOldStates ::
  "signed_vars list \<Rightarrow> signed_state_with_hash list option \<Rightarrow> signed_vars list" where
  "clearOldStates vs supp =
     (let sorted' = rev (sort_key v_turnNum vs)
      in case supp of
           Some (s # ss) \<Rightarrow>
             take (nat (findIndex (\<lambda>v. v_stateHash v = stateHash (last (s # ss))) sorted' + 1)) sorted'
         | _ \<Rightarrow> sorted')"

section \<open>Invariants of the stored states\<close>

definition isReverseSorted :: "int list \<Rightarrow> bool" where
  "isReverseSorted ts \<longleftrightarrow> (\<forall>i \<in> {0..<length ts - 1}. \<not> ts ! i < ts ! (i + 1))"

definition ensureSingleSignedState :: "signed_vars list \<Rightarrow> address \<Rightarrow> unit result" where
  "ensureSingleSignedState vs me =
     (let mine = filter (\<lambda>v. list_ex (\<lambda>g. signer g = me) (v_signatures v)) vs
      in if list_ex (\<lambda>(_, g). length g > 1) (groupBy v_turnNum mine)
         then Inl (StoreError ''Store signed multiple states for a single turn'') else Inr ())"

definition ensureReverseSortedOrderOfStates :: "signed_vars list \<Rightarrow> unit result" where
  "ensureReverseSortedOrderOfStates vs =
     (if \<not> isReverseSorted (map v_turnNum vs) then Inl (StoreError ''states not sorted'') else Inr ())"

definition ensureNoDuplicateTurnNums :: "signed_vars list \<Rightarrow> unit result" where
  "ensureNoDuplicateTurnNums vs =
     (let ts = map v_turnNum vs
      in if list_ex (\<lambda>i. findIndex (\<lambda>t. t = ts ! i) ts \<noteq> int i) [0..<length ts]
         then Inl (StoreError ''multiple states with same turn number'') else Inr ())"

definition validateInvariants :: "signed_vars list \<Rightarrow> address \<Rightarrow> unit result" where
  "validateInvariants vs me =
     bindE (ensureSingleSignedState vs me) (\<lambda>_.
     bindE (ensureNoDuplicateTurnNums vs) (\<lambda>_. ensureReverseSortedOrderOfStates vs))"

section \<open>Updating the channel object\<close>

definition addHash :: "platform \<Rightarrow> signed_state \<Rightarrow> signed_state_with_hash result" where
  "addHash P s = bindE (toNitroState P s) (\<lambda>n.
     Inr (signed_state.extend s (signed_state_with_hash.fields (hashNitroState P n))))"

text \<open>Both ways of adding a state end the same way: fold in, collect garbage, check, write.\<close>

definition storeState :: "platform \<Rightarrow> channel \<Rightarrow> signed_state_with_hash \<Rightarrow> channel result" where
  "storeState P c s =
     (let c1 = c\<lparr>ch_vars := addState (ch_vars c) s\<rparr>;
          c2 = c1\<lparr>ch_vars := clearOldStates (ch_vars c1)
                    (if isSupported P c1 then Some (support P c1) else None)\<rparr>
      in bindE (myAddress c2) (\<lambda>me.
         bindE (validateInvariants (ch_vars c2) me) (\<lambda>_. Inr c2)))"

definition addMyState :: "platform \<Rightarrow> channel \<Rightarrow> signed_state_with_hash \<Rightarrow> channel result" where
  "addMyState P c s =
     (case signatures s of
        [] \<Rightarrow> Inl TypeError
      | g # gs \<Rightarrow>
          if gs \<noteq> [] then Inl (Error ''This state not exclusively signed by me'')
          else bindE (myAddress c) (\<lambda>me.
            if signer g \<noteq> me then Inl (Error ''This state not exclusively signed by me'')
            else storeState P c s))"

section \<open>Signing\<close>

record signing_wallet =
  privateKey :: string
  wallet_address :: address

text \<open>\<open>SigningWallet.signState\<close> with \<open>utilities/signatures.ts\<close>.\<close>

definition walletSignState ::
  "platform \<Rightarrow> signing_wallet \<Rightarrow> signed_state_with_hash \<Rightarrow> signature_entry result" where
  "walletSignState P w s =
     bindE (makeAddress (ethersLib P) (walletAddress P (privateKey w))) (\<lambda>a.
       if a \<notin> set (map signingAddress (participants s))
       then Inl (Error ''The state must be signed with a participant's private key'')
       else bindE (toNitroState P s) (\<lambda>n.
              Inr \<lparr>signature = signNitroState P n (privateKey w), signer = wallet_address w\<rparr>))"

definition stateOf :: "channel \<Rightarrow> state_variables \<Rightarrow> signed_state" where
  "stateOf c v =
     \<lparr>chainId = chainId c, participants = participants c, channelNonce = channelNonce c,
      appDefinition = appDefinition c, challengeDuration = challengeDuration c,
      outcome = v_outcome v, turnNum = v_turnNum v, appData = v_appData v, isFinal = v_isFinal v,
      signatures = []\<rparr>"

text \<open>\<open>Store.signState\<close>, given the wallet and the bytecode it reads from the database.\<close>

definition signStateOn ::
  "platform \<Rightarrow> bool \<Rightarrow> (address \<Rightarrow> string option) \<Rightarrow> signing_wallet option \<Rightarrow> channel \<Rightarrow>
   state_variables \<Rightarrow> (channel \<times> signed_state_with_hash) result"
where
  "signStateOn P skipEvm getBytecode wallet c v =
     (case wallet of
        None \<Rightarrow> Inl (Error ''No signing wallets'')
      | Some w \<Rightarrow>
          bindE (addHash P (stateOf c v)) (\<lambda>s.
            if (case latestSignedByMe c of None \<Rightarrow> False | Some m \<Rightarrow> turnNum m \<ge> turnNum s)
            then Inl (StoreError ''Stale state'')
            else bindE (walletSignState P w s) (\<lambda>entry.
              let signed = s\<lparr>signatures := [entry]\<rparr>
              in bindE
                   (case supported P c of
                      None \<Rightarrow> Inr ()
                    | Some sup' \<Rightarrow>
                        if shouldValidateTransition P s c \<and>
                           \<not> validateTransition P sup' signed (getBytecode (appDefinition sup')) skipEvm
                        then Inl (StoreError ''Invalid state transition'') else Inr ())
                   (\<lambda>_. bindE (addMyState P c signed) (\<lambda>c'. Inr (c', signed))))))"

text \<open>\<open>Store.addSignedState\<close> once the state is deserialised and the channel is loaded.\<close>

definition addSignedStateOn ::
  "platform \<Rightarrow> bool \<Rightarrow> (address \<Rightarrow> string option) \<Rightarrow> channel \<Rightarrow> signed_state_with_hash \<Rightarrow> channel result"
where
  "addSignedStateOn P skipEvm getBytecode c s =
     bindE
       (case supported P c of
          None \<Rightarrow> Inr ()
        | Some sup' \<Rightarrow>
            if shouldValidateTransition P s c \<and>
               \<not> validateTransition P sup' s (getBytecode (appDefinition sup')) skipEvm
            then Inl (StoreError ''Invalid state transition'') else Inr ())
       (\<lambda>_. storeState P c s)"

section \<open>The invariants mean strictly descending turn numbers\<close>

lemma isReverseSorted_iff: "isReverseSorted ts \<longleftrightarrow> sorted_wrt (\<ge>) ts"
proof -
  have "isReverseSorted ts \<longleftrightarrow> (\<forall>i. Suc i < length ts \<longrightarrow> ts ! i \<ge> ts ! Suc i)"
    by (auto simp: isReverseSorted_def not_less less_diff_conv)
  then show ?thesis by (simp add: sorted_wrt_iff_nth_Suc_transp)
qed

lemma findIndex_eq_nth:
  assumes "distinct ts" and "i < length ts"
  shows "findIndex (\<lambda>t. t = ts ! i) ts = int i"
proof -
  let ?k = "findIndex (\<lambda>t. t = ts ! i) ts"
  have "?k \<noteq> -1" using assms(2) by (auto simp: findIndex_neg_iff)
  with findIndex_ge [of "\<lambda>t. t = ts ! i" ts] have "0 \<le> ?k" by linarith
  with findIndex_nonneg [OF this] assms show ?thesis
    by (metis nat_0_le nth_eq_iff_index_eq)
qed

lemma ensureNoDuplicateTurnNums_iff:
  "ensureNoDuplicateTurnNums vs = Inr () \<longleftrightarrow> distinct (map v_turnNum vs)"
proof
  let ?ts = "map v_turnNum vs"
  assume "ensureNoDuplicateTurnNums vs = Inr ()"
  then have *: "findIndex (\<lambda>t. t = ?ts ! i) ?ts = int i" if "i < length ?ts" for i
    using that by (auto simp: ensureNoDuplicateTurnNums_def Let_def list_ex_iff split: if_splits)
  show "distinct ?ts"
    unfolding distinct_conv_nth
  proof (intro allI impI)
    fix i j assume "i < length ?ts" "j < length ?ts" "i \<noteq> j"
    with * [of i] * [of j] show "?ts ! i \<noteq> ?ts ! j" by (metis of_nat_eq_iff)
  qed
next
  assume "distinct (map v_turnNum vs)"
  then show "ensureNoDuplicateTurnNums vs = Inr ()"
    using findIndex_eq_nth [of "map v_turnNum vs"]
    by (auto simp: ensureNoDuplicateTurnNums_def Let_def list_ex_iff)
qed

definition descending :: "signed_vars list \<Rightarrow> bool" where
  "descending vs \<longleftrightarrow> sorted_wrt (>) (map v_turnNum vs)"

lemma descending_iff: "descending vs \<longleftrightarrow> sorted_wrt (\<ge>) (map v_turnNum vs) \<and> distinct (map v_turnNum vs)"
proof -
  have "sorted_wrt (>) (ts :: int list) \<longleftrightarrow> sorted_wrt (\<ge>) ts \<and> distinct ts" for ts
    by (induction ts) (auto simp: order.order_iff_strict)
  then show ?thesis by (simp add: descending_def)
qed

lemma ensureSingleSignedState_distinct:
  assumes "distinct (map v_turnNum vs)"
  shows "ensureSingleSignedState vs me = Inr ()"
proof -
  let ?mine = "filter (\<lambda>v. list_ex (\<lambda>g. signer g = me) (v_signatures v)) vs"
  have "length (filter (\<lambda>v. v_turnNum v = k) ?mine) \<le> 1" for k
  proof -
    have "distinct (map v_turnNum (filter (\<lambda>v. v_turnNum v = k) ?mine))"
      using assms by (simp add: distinct_map_filter)
    moreover have "set (map v_turnNum (filter (\<lambda>v. v_turnNum v = k) ?mine)) \<subseteq> {k}" by auto
    ultimately show ?thesis
      by (metis card_mono card.empty card_insert_if distinct_card empty_iff finite.emptyI
          finite.insertI length_map One_nat_def)
  qed
  then show ?thesis
    by (auto simp: ensureSingleSignedState_def groupBy_def list_ex_iff Let_def not_less)
qed

text \<open>
  the three checks before a write accept exactly the lists of states whose turn numbers are
  strictly descending; in particular the check for two states signed in one turn is implied by the
  other two.
\<close>

theorem validateInvariants_iff:
  "validateInvariants vs me = Inr () \<longleftrightarrow> sorted_wrt (>) (map v_turnNum vs)"
proof -
  have "validateInvariants vs me = Inr () \<longleftrightarrow> descending vs"
    unfolding descending_iff isReverseSorted_iff [symmetric]
    using ensureSingleSignedState_distinct [of vs me] ensureNoDuplicateTurnNums_iff [of vs]
    by (auto simp: validateInvariants_def bindE_eq_Inr ensureReverseSortedOrderOfStates_def)
  then show ?thesis by (simp add: descending_def)
qed

lemma validateInvariants_descending: "validateInvariants vs me = Inr u \<Longrightarrow> descending vs"
  unfolding descending_iff isReverseSorted_iff [symmetric]
  using ensureNoDuplicateTurnNums_iff [of vs]
  by (auto simp: validateInvariants_def bindE_eq_Inr ensureReverseSortedOrderOfStates_def
      split: if_splits)

section \<open>Garbage collection keeps the support\<close>

lemma supportLoop_prefix:
  assumes "supportLoop P skip ps supp ns prev xs = r" and "r \<noteq> []"
  shows "\<exists>pre post. xs = pre @ last r # post \<and>
    supportLoop P skip ps supp ns prev (pre @ [last r]) = r"
  using assms
proof (induction xs arbitrary: supp ns prev)
  case Nil
  then show ?case by simp
next
  case (Cons s xs)
  define broken where "broken = (case prev of None \<Rightarrow> False
      | Some p \<Rightarrow> \<not> validateTransition P s p None skip)"
  define supp1 where "supp1 = (if broken then [] else supp)"
  define ns1 where "ns1 = (if broken then map signingAddress ps else ns)"
  define ns2 where "ns2 = filter (\<lambda>a. a \<notin> signer ` set (signatures s)) ns1"
  have step: "supportLoop P skip ps supp ns prev (s # ys) =
    (if moverSigned ps s then
       if ns2 = [] then supp1 @ [s] else supportLoop P skip ps (supp1 @ [s]) ns2 (Some s) ys
     else supportLoop P skip ps supp1 ns1 (Some s) ys)" for ys
    by (simp add: Let_def broken_def supp1_def ns1_def ns2_def)
  show ?case
  proof (cases "moverSigned ps s \<and> ns2 = []")
    case True
    with Cons.prems step [of xs] have r: "r = supp1 @ [s]" by simp
    with True step [of "[]"] show ?thesis by (intro exI [of _ "[]"] exI [of _ xs]) simp
  next
    case False
    define supp2 where "supp2 = (if moverSigned ps s then supp1 @ [s] else supp1)"
    define ns3 where "ns3 = (if moverSigned ps s then ns2 else ns1)"
    have eq: "supportLoop P skip ps supp ns prev (s # ys) = supportLoop P skip ps supp2 ns3 (Some s) ys" for ys
      using False step [of ys] by (auto simp: supp2_def ns3_def)
    from Cons.prems have "supportLoop P skip ps supp2 ns3 (Some s) xs = r" by (simp only: eq)
    from Cons.IH [OF this Cons.prems(2)] obtain pre post where "xs = pre @ last r # post"
      "supportLoop P skip ps supp2 ns3 (Some s) (pre @ [last r]) = r" by blast
    then show ?thesis
      using eq [of "pre @ [last r]"] by (intro exI [of _ "s # pre"] exI [of _ post]) simp
  qed
qed

lemma rev_sort_descending: "descending (rev (sort_key v_turnNum vs))" if "distinct (map v_turnNum vs)"
proof -
  have "sorted (map v_turnNum (sort_key v_turnNum vs))" by simp
  then have "sorted_wrt (\<ge>) (rev (map v_turnNum (sort_key v_turnNum vs)))"
    by (simp only: sorted_wrt_rev)
  then have "sorted_wrt (\<ge>) (map v_turnNum (rev (sort_key v_turnNum vs)))"
    by (simp only: rev_map)
  moreover have "distinct (map v_turnNum (rev (sort_key v_turnNum vs)))"
  proof -
    have "distinct vs" "inj_on v_turnNum (set vs)" using that by (auto simp: distinct_map)
    then show ?thesis by (simp add: distinct_map)
  qed
  ultimately show ?thesis by (simp add: descending_iff)
qed

lemma descending_unique:
  assumes "descending vs" and "descending ws" and "set vs = set ws"
  shows "vs = ws"
proof -
  let ?f = "\<lambda>v. - v_turnNum v"
  have srt: "sorted (map ?f xs) \<and> distinct (map ?f xs)" if "descending xs" for xs
    using that unfolding descending_def
    by (induction xs) auto
  have "inj_on ?f (set vs \<union> set ws)"
    using srt [OF assms(1)] assms(3) by (simp add: distinct_map)
  with srt [OF assms(1)] srt [OF assms(2)] assms(3) show ?thesis
    using map_sorted_distinct_set_unique [of ?f vs ws] by simp
qed

lemma rev_sort_descending_id: "descending vs \<Longrightarrow> rev (sort_key v_turnNum vs) = vs"
  by (rule descending_unique [OF rev_sort_descending]) (simp_all add: descending_iff)

lemma sortedStates_rev:
  assumes "distinct (map v_turnNum (ch_vars c))"
  shows "sortedStates c = map (spreadVars (channelConstants c)) (rev (sort_key v_turnNum (ch_vars c)))"
proof -
  let ?sp = "spreadVars (channelConstants c)"
  let ?ys = "map ?sp (rev (sort_key v_turnNum (ch_vars c)))"
  let ?f = "\<lambda>s :: signed_state_with_hash. - turnNum s"
  have "map ?f ?ys = map (\<lambda>v. - v_turnNum v) (rev (sort_key v_turnNum (ch_vars c)))" by simp
  moreover have "sorted (map (\<lambda>v. - v_turnNum v) vs) \<and> distinct (map (\<lambda>v. - v_turnNum v) vs)"
    if "descending vs" for vs
    using that unfolding descending_def by (induction vs) auto
  ultimately have ys: "sorted (map ?f ?ys)" "distinct (map ?f ?ys)"
    using rev_sort_descending [OF assms] by metis+
  have "distinct (map ?f (signedStates' c))"
    using assms unfolding signedStates'_def by (auto simp: distinct_map inj_on_def)
  then have xs: "distinct (map ?f (sortedStates c))"
    unfolding sortedStates_def by (simp add: distinct_map)
  have sets: "set (sortedStates c) = set ?ys"
    by (simp add: set_sortedStates signedStates'_def)
  have "inj_on ?f (set (sortedStates c) \<union> set ?ys)"
    using xs sets by (simp add: distinct_map)
  with map_sorted_distinct_set_unique [of ?f "sortedStates c" ?ys] sorted_sortedStates xs ys sets
  show ?thesis by simp
qed

lemma findIndex_split:
  assumes "distinct (map k xs)" and "xs = pre @ x # post"
  shows "findIndex (\<lambda>y. k y = k x) xs = int (length pre)"
proof -
  have "findIndex P (pre @ x # post) = int (length pre)" if "\<forall>y \<in> set pre. \<not> P y" "P x" for P
    using that by (induction pre) (auto simp: Let_def)
  moreover have "k x \<notin> k ` set pre" using assms by simp
  then have "\<forall>y \<in> set pre. k y \<noteq> k x" by (metis image_eqI)
  ultimately show ?thesis by (simp add: assms(2))
qed

lemma channelConstants_vars [simp]: "channelConstants (c\<lparr>ch_vars := vs\<rparr>) = channelConstants c"
  by (simp add: channelConstants_def channel_constants.truncate_def)

lemma clearOldStates_support:
  assumes turns: "distinct (map v_turnNum (ch_vars c))" and hashes: "distinct (map v_stateHash (ch_vars c))"
    and "isSupported P c"
  shows "\<exists>pre x post. rev (sort_key v_turnNum (ch_vars c)) = pre @ x # post \<and>
    clearOldStates (ch_vars c) (Some (support P c)) = pre @ [x] \<and>
    last (support P c) = spreadVars (channelConstants c) x \<and>
    support P (c\<lparr>ch_vars := pre @ [x]\<rparr>) = support P c"
proof -
  let ?sp = "spreadVars (channelConstants c)"
  let ?vs = "rev (sort_key v_turnNum (ch_vars c))"
  have ne: "support P c \<noteq> []"
    using assms(3) by (auto simp: isSupported_def supported_def)
  let ?loop = "supportLoop P (\<not> isNullApp P c) (participants c) [] (map signingAddress (participants c)) None"
  have sorted: "sortedStates c = map ?sp ?vs" by (rule sortedStates_rev [OF turns])
  from supportLoop_prefix [of P "\<not> isNullApp P c" "participants c" "[]"
      "map signingAddress (participants c)" None "sortedStates c" "support P c"] ne
  obtain pre' post' where split: "map ?sp ?vs = pre' @ last (support P c) # post'"
    and loop: "?loop (pre' @ [last (support P c)]) = support P c"
    by (auto simp: support_def sorted)
  from split obtain pre x post where vs: "?vs = pre @ x # post" and pre: "pre' = map ?sp pre"
    and x: "last (support P c) = ?sp x"
    by (auto simp: map_eq_append_conv map_eq_Cons_conv)
  have "distinct (map v_stateHash ?vs)"
    using hashes by (simp add: distinct_map)
  from findIndex_split [OF this vs]
  have "findIndex (\<lambda>v. v_stateHash v = stateHash (last (support P c))) ?vs = int (length pre)"
    by (simp add: x)
  then have clear: "clearOldStates (ch_vars c) (Some (support P c)) = pre @ [x]"
    using ne by (cases "support P c") (auto simp: clearOldStates_def vs Let_def nat_add_distrib)
  have d: "descending (pre @ [x])"
    using rev_sort_descending [OF turns] unfolding vs descending_def by (auto simp: sorted_wrt_append)
  let ?c' = "c\<lparr>ch_vars := pre @ [x]\<rparr>"
  have "sortedStates ?c' = pre' @ [last (support P c)]"
    using sortedStates_rev [of ?c'] d rev_sort_descending_id [OF d]
    by (simp add: descending_iff pre x)
  then have "support P ?c' = support P c"
    using loop by (simp add: support_def isNullApp_def)
  with vs clear x show ?thesis by blast
qed

text \<open>
  C6: garbage collection is safe. Clearing old states changes neither the support nor what is
  supported, invents no state, and keeps every state at or after the earliest state of the support.
\<close>

theorem clearOldStates_keeps_support:
  assumes "distinct (map v_turnNum (ch_vars c))" and "distinct (map v_stateHash (ch_vars c))"
    and "isSupported P c"
  shows "support P (c\<lparr>ch_vars := clearOldStates (ch_vars c) (Some (support P c))\<rparr>) = support P c \<and>
    set (clearOldStates (ch_vars c) (Some (support P c))) =
      {v \<in> set (ch_vars c). v_turnNum v \<ge> turnNum (last (support P c))}"
proof -
  from clearOldStates_support [OF assms] obtain pre x post where
    vs: "rev (sort_key v_turnNum (ch_vars c)) = pre @ x # post"
    and c: "clearOldStates (ch_vars c) (Some (support P c)) = pre @ [x]"
    and x: "last (support P c) = spreadVars (channelConstants c) x"
    and s: "support P (c\<lparr>ch_vars := pre @ [x]\<rparr>) = support P c" by blast
  have set: "set (ch_vars c) = set (pre @ x # post)"
    unfolding vs [symmetric] by simp
  have "sorted_wrt (>) (map v_turnNum (pre @ x # post))"
    using rev_sort_descending [OF assms(1)] unfolding vs descending_def .
  then have "set (pre @ [x]) = {v \<in> set (ch_vars c). v_turnNum v \<ge> v_turnNum x}"
    unfolding set by (fastforce simp: sorted_wrt_append)
  with c s x show ?thesis by simp
qed

section \<open>Signing\<close>

definition signedByAddress :: "address \<Rightarrow> signed_vars \<Rightarrow> bool" where
  "signedByAddress me v \<longleftrightarrow> (\<exists>g \<in> set (v_signatures v). signer g = me)"

lemma storeState_descending:
  assumes "storeState P c s = Inr c'"
  shows "descending (ch_vars c') \<and> channelConstants c' = channelConstants c \<and>
    ch_channelId c' = ch_channelId c \<and> ch_signingAddress c' = ch_signingAddress c \<and>
    set (ch_vars c') \<subseteq> set (addState (ch_vars c) s)"
proof -
  have sub: "set (clearOldStates vs supp) \<subseteq> set vs" for vs supp
    by (auto simp: clearOldStates_def Let_def split: option.splits list.splits dest: in_set_takeD)
  from assms obtain me where "validateInvariants (ch_vars c') me = Inr ()"
    and c': "c' = c\<lparr>ch_vars := clearOldStates (addState (ch_vars c) s)
      (if isSupported P (c\<lparr>ch_vars := addState (ch_vars c) s\<rparr>)
       then Some (support P (c\<lparr>ch_vars := addState (ch_vars c) s\<rparr>)) else None)\<rparr>"
    by (auto simp: storeState_def Let_def bindE_eq_Inr)
  from validateInvariants_descending [OF this(1)] show ?thesis
    using sub by (simp add: c')
qed

lemma addState_cases:
  assumes "x \<in> set (addState vs s)"
  shows "x \<in> set vs \<or> v_stateHash x = stateHash s"
proof (cases "find (\<lambda>v. v_stateHash v = stateHash s) vs")
  case None
  with assms show ?thesis by (auto simp: addState_def dropNonVariables_def)
next
  case (Some y)
  have upd: "x \<in> set (updateFirst P f vs) \<Longrightarrow> x \<in> set vs \<or> (\<exists>y \<in> set vs. P y \<and> x = f y)" for P f
    by (induction vs) (auto split: if_splits)
  from assms Some have "x \<in> set (updateFirst (\<lambda>v. v_stateHash v = stateHash s)
      (\<lambda>v. v\<lparr>v_signatures := uniqBy signature (v_signatures v @ signatures s)\<rparr>) vs)"
    by (simp add: addState_def)
  from upd [OF this] show ?thesis by auto
qed

lemma latestSignedByMe_max:
  assumes "descending (ch_vars c)" and "myAddress c = Inr me" and "v \<in> set (ch_vars c)"
    and "signedByAddress me v"
  shows "\<exists>m. latestSignedByMe c = Some m \<and> v_turnNum v \<le> turnNum m"
proof -
  have mine: "signedByMe c = map (spreadVars (channelConstants c))
      (filter (signedByAddress me) (ch_vars c))"
    unfolding signedByMe_def signedStates'_def filter_map o_def
    by (rule arg_cong [where f = "map (spreadVars (channelConstants c))"], rule filter_cong)
       (auto simp: assms(2) signedByAddress_def list_ex_iff)
  have "sorted_wrt (>) (map v_turnNum (filter (signedByAddress me) (ch_vars c)))"
    using assms(1) unfolding descending_def sorted_wrt_map by (rule sorted_wrt_filter)
  moreover obtain m ms where m: "filter (signedByAddress me) (ch_vars c) = m # ms"
    using assms(3,4) by (cases "filter (signedByAddress me) (ch_vars c)") (auto simp: filter_empty_conv)
  moreover have "v \<in> set (m # ms)" using assms(3,4) by (simp flip: m)
  ultimately have "v_turnNum v \<le> v_turnNum m" by auto
  then show ?thesis by (simp add: latestSignedByMe_def mine m)
qed

lemma signStateOn_stages:
  assumes "signStateOn P skipEvm getBytecode wallet c v = Inr (c', s)"
  shows "\<exists>t entry. addHash P (stateOf c v) = Inr t \<and>
    \<not> (case latestSignedByMe c of None \<Rightarrow> False | Some m \<Rightarrow> turnNum m \<ge> turnNum t) \<and>
    s = t\<lparr>signatures := [entry]\<rparr> \<and> addMyState P c s = Inr c'"
proof -
  from assms obtain w where w: "wallet = Some w" by (cases wallet) (simp_all add: signStateOn_def)
  with assms obtain t where t: "addHash P (stateOf c v) = Inr t"
    by (cases "addHash P (stateOf c v)") (simp_all add: signStateOn_def)
  let ?stale = "case latestSignedByMe c of None \<Rightarrow> False | Some m \<Rightarrow> turnNum m \<ge> turnNum t"
  from assms have fresh: "\<not> ?stale"
    by (cases ?stale) (simp_all add: signStateOn_def w t)
  with assms obtain entry where e: "walletSignState P w t = Inr entry"
    by (cases "walletSignState P w t") (simp_all add: signStateOn_def w t)
  let ?s = "t\<lparr>signatures := [entry]\<rparr>"
  from assms have "\<exists>u :: unit result. bindE u (\<lambda>_. bindE (addMyState P c ?s) (\<lambda>c'. Inr (c', ?s))) = Inr (c', s)"
    unfolding signStateOn_def w option.case t bindE_Inr if_not_P [OF fresh] e Let_def by (rule exI)
  then have "addMyState P c ?s = Inr c' \<and> s = ?s" by (auto simp: bindE_eq_Inr)
  with t fresh show ?thesis by blast
qed

text \<open>
  C1: a wallet never signs two states in one turn. When \<open>signState\<close> succeeds, the new state is
  later than every stored state the wallet has signed; and in what is then stored, any state of
  that turn with the wallet's signature is the new one.
\<close>

theorem signState_never_equivocates:
  assumes "descending (ch_vars c)" and "myAddress c = Inr me"
    and "signStateOn P skipEvm getBytecode wallet c v = Inr (c', s)"
  shows "(\<forall>x \<in> set (ch_vars c). signedByAddress me x \<longrightarrow> v_turnNum x < turnNum s) \<and>
    (\<forall>x \<in> set (ch_vars c'). signedByAddress me x \<and> v_turnNum x = turnNum s \<longrightarrow>
       v_stateHash x = stateHash s) \<and>
    descending (ch_vars c') \<and> turnNum s = v_turnNum v \<and> map signer (signatures s) = [me]"
proof -
  from signStateOn_stages [OF assms(3)] obtain t entry where t: "addHash P (stateOf c v) = Inr t"
    and stale: "\<not> (case latestSignedByMe c of None \<Rightarrow> False | Some m \<Rightarrow> turnNum m \<ge> turnNum t)"
    and s: "s = t\<lparr>signatures := [entry]\<rparr>" and mine: "addMyState P c s = Inr c'" by blast
  have turn: "turnNum s = v_turnNum v"
    using t by (auto simp: s addHash_def bindE_eq_Inr stateOf_def signed_state.defs)
  have ts: "turnNum s = turnNum t" by (simp add: s)
  from mine assms(2) have entry: "signer entry = me" and store: "storeState P c s = Inr c'"
    by (auto simp: addMyState_def s bindE_eq_Inr split: if_splits)
  have later: "v_turnNum x < turnNum s" if "x \<in> set (ch_vars c)" "signedByAddress me x" for x
    using latestSignedByMe_max [OF assms(1,2) that] stale ts by (auto split: option.splits)
  have "v_stateHash x = stateHash s"
    if "x \<in> set (ch_vars c')" "signedByAddress me x" "v_turnNum x = turnNum s" for x
  proof -
    from that(1) storeState_descending [OF store] have "x \<in> set (addState (ch_vars c) s)" by auto
    from addState_cases [OF this] later [OF _ that(2)] that(3) show ?thesis by auto
  qed
  with later storeState_descending [OF store] turn entry show ?thesis by (simp add: s)
qed

section \<open>A support that skips a participant\<close>

definition sampleVars :: "int \<Rightarrow> address list \<Rightarrow> signed_vars" where
  "sampleVars n signers =
     \<lparr>v_outcome = SimpleAllocation (sampleAllocation [(CHR ''a'', 5), (CHR ''b'', 5)]),
      v_turnNum = n, v_appData = ''0x'', v_isFinal = False,
      v_signatures = map (\<lambda>x. \<lparr>signature = ''sig'' @ x, signer = x\<rparr>) signers,
      v_stateHash = replicate (nat n) (CHR ''h'')\<rparr>"

definition sampleChannel :: "signed_vars list \<Rightarrow> channel" where
  "sampleChannel vs =
     \<lparr>chainId = ''0x1'', participants = sampleParticipants, channelNonce = 1,
      appDefinition = ''0xapp'', challengeDuration = 60, ch_channelId = sampleDest CHR ''l'',
      ch_vars = vs, ch_signingAddress = ''0xA'', ch_fundingStrategy = Direct,
      ch_isLedgerChannel = False, ch_fundingLedgerChannelId = None, ch_initialSupport = [],
      ch_funding = None, ch_adjudicatorStatus = None, ch_chainServiceRequests = None\<rparr>"

definition sampleHashed :: "int \<Rightarrow> address list \<Rightarrow> signed_state_with_hash" where
  "sampleHashed n signers = spreadVars (channelConstants (sampleChannel [])) (sampleVars n signers)"

text \<open>
  a completed post-fund setup does not mean that I have signed one. Participant 0 has signed
  only the pre-fund state 0. The states 1, 2 and 3 arrive signed by participant 1 alone, and the
  wallet stores each of them; state 2 is participant 0's turn, but the support computed for state 3
  simply steps over it, so that the channel counts as fully set up and running.
\<close>

theorem postFundComplete_without_my_signature:
  "\<exists>c1 c2 c3.
     addSignedStateOn samplePlatform False (\<lambda>a. None) (sampleChannel [sampleVars 0 [''0xA'']])
       (sampleHashed 1 [''0xB'']) = Inr c1 \<and>
     addSignedStateOn samplePlatform False (\<lambda>a. None) c1 (sampleHashed 2 [''0xB'']) = Inr c2 \<and>
     addSignedStateOn samplePlatform False (\<lambda>a. None) c2 (sampleHashed 3 [''0xB'']) = Inr c3 \<and>
     myIndex c3 = 0 \<and> postFundComplete samplePlatform c3 \<and> isRunning samplePlatform c3 \<and>
     map turnNum (signedByMe c3) = [0] \<and> \<not> postfundSigned c3"
proof -
  let ?c1 = "sampleChannel [sampleVars 1 [''0xB''], sampleVars 0 [''0xA'']]"
  let ?c2 = "sampleChannel [sampleVars 2 [''0xB''], sampleVars 1 [''0xB''], sampleVars 0 [''0xA'']]"
  let ?c3 = "sampleChannel [sampleVars 3 [''0xB''], sampleVars 2 [''0xB''], sampleVars 1 [''0xB''],
    sampleVars 0 [''0xA'']]"
  have 1: "addSignedStateOn samplePlatform False (\<lambda>a. None) (sampleChannel [sampleVars 0 [''0xA'']])
       (sampleHashed 1 [''0xB'']) = Inr ?c1"
    by code_simp
  have 2: "addSignedStateOn samplePlatform False (\<lambda>a. None) ?c1 (sampleHashed 2 [''0xB'']) = Inr ?c2"
    by code_simp
  have 3: "addSignedStateOn samplePlatform False (\<lambda>a. None) ?c2 (sampleHashed 3 [''0xB'']) = Inr ?c3"
    by code_simp
  have 4: "myIndex ?c3 = 0" and 5: "postFundComplete samplePlatform ?c3"
    and 6: "isRunning samplePlatform ?c3" and 7: "map turnNum (signedByMe ?c3) = [0]"
    and 8: "\<not> postfundSigned ?c3"
    by code_simp+
  show ?thesis
    by (rule exI [of _ ?c1], rule exI [of _ ?c2], rule exI [of _ ?c3])
       (intro conjI 1 2 3 4 5 6 7 8)
qed

section \<open>Witnesses\<close>

theorem support_is_backed_witness:
  "support samplePlatform (sampleChannel [sampleVars 1 [''0xB''], sampleVars 0 [''0xA'']]) \<noteq> [] \<and>
   (\<exists>s \<in> set (support samplePlatform (sampleChannel [sampleVars 1 [''0xB''], sampleVars 0 [''0xA'']])).
      \<exists>g \<in> set (signatures s). signer g = ''0xA'')"
proof -
  let ?c = "sampleChannel [sampleVars 1 [''0xB''], sampleVars 0 [''0xA'']]"
  have ne: "support samplePlatform ?c \<noteq> []" by code_simp
  have p: "hd (participants ?c) \<in> set (participants ?c)" and a: "signingAddress (hd (participants ?c)) = ''0xA''"
    by (simp_all add: sampleChannel_def sampleParticipants_def)
  from support_is_backed [OF ne] have "\<forall>p \<in> set (participants ?c). \<exists>s \<in> set (support samplePlatform ?c).
      \<exists>g \<in> set (signatures s). signer g = signingAddress p"
    by (elim exE conjE)
  from bspec [OF this p] ne show ?thesis unfolding a by (intro conjI)
qed

theorem fundingMilestones_bounds_witness:
  "\<exists>b a t. fundingMilestones samplePlatform (sampleChannel [sampleVars 1 [''0xB''], sampleVars 0 [''0xA'']]) =
     Inr (b, a, t) \<and> b \<le> a \<and> a \<le> t"
proof -
  let ?c = "sampleChannel [sampleVars 1 [''0xB''], sampleVars 0 [''0xA'']]"
  let ?a = "sampleAllocation [(CHR ''a'', 5), (CHR ''b'', 5)]"
  have m: "fundingMilestones samplePlatform ?c = Inr (0, 5, 10)" by code_simp
  have s: "supportedAllocation samplePlatform ?c = Inr ?a" by code_simp
  have n: "\<forall>i \<in> set (allocationItems ?a). 0 \<le> amount i" by (simp add: sampleAllocation_def)
  from fundingMilestones_bounds [OF s n m] m show ?thesis by blast
qed

theorem ready_to_fund_is_exclusive_witness:
  "directFundingStatus (Some (sampleHashed 1 [])) (\<lambda>a. Some \<lparr>csf_amount = 0, csf_transferredOut = []\<rparr>)
     (Some (sampleParticipants ! 1)) Direct \<noteq> Inr (Some ReadyToFund)"
proof (rule ready_to_fund_is_exclusive [where p = "sampleParticipants ! 0"
      and a = "sampleAllocation [(CHR ''a'', 5), (CHR ''b'', 5)]"])
  show "directFundingStatus (Some (sampleHashed 1 [])) (\<lambda>a. Some \<lparr>csf_amount = 0, csf_transferredOut = []\<rparr>)
     (Some (sampleParticipants ! 0)) Direct = Inr (Some ReadyToFund)"
    by code_simp
  show "destination (sampleParticipants ! 0) \<noteq> destination (sampleParticipants ! 1)"
    by code_simp
qed (simp_all add: sampleHashed_def sampleVars_def sampleAllocation_def)

theorem clearOldStates_keeps_support_witness:
  "support samplePlatform (sampleChannel (clearOldStates
      [sampleVars 2 [''0xA'', ''0xB''], sampleVars 1 [''0xB''], sampleVars 0 [''0xA'']]
      (Some (support samplePlatform (sampleChannel
        [sampleVars 2 [''0xA'', ''0xB''], sampleVars 1 [''0xB''], sampleVars 0 [''0xA'']]))))) =
   support samplePlatform (sampleChannel
     [sampleVars 2 [''0xA'', ''0xB''], sampleVars 1 [''0xB''], sampleVars 0 [''0xA'']])"
proof -
  let ?c = "sampleChannel [sampleVars 2 [''0xA'', ''0xB''], sampleVars 1 [''0xB''], sampleVars 0 [''0xA'']]"
  have "distinct (map v_turnNum (ch_vars ?c))" "distinct (map v_stateHash (ch_vars ?c))"
    "isSupported samplePlatform ?c"
    by code_simp+
  from clearOldStates_keeps_support [OF this] show ?thesis by (simp add: sampleChannel_def)
qed

theorem signState_never_equivocates_witness:
  "\<exists>c' s. signStateOn samplePlatform False (\<lambda>a. None) (Some \<lparr>privateKey = ''0xA'', wallet_address = ''0xA''\<rparr>)
     (sampleChannel [sampleVars 1 [''0xB''], sampleVars 0 [''0xA'']])
     \<lparr>v_outcome = SimpleAllocation (sampleAllocation [(CHR ''a'', 5), (CHR ''b'', 5)]), v_turnNum = 2,
      v_appData = ''0x'', v_isFinal = False\<rparr> = Inr (c', s) \<and> map signer (signatures s) = [''0xA'']"
proof -
  let ?c = "sampleChannel [sampleVars 1 [''0xB''], sampleVars 0 [''0xA'']]"
  let ?v = "\<lparr>v_outcome = SimpleAllocation (sampleAllocation [(CHR ''a'', 5), (CHR ''b'', 5)]), v_turnNum = 2,
      v_appData = ''0x'', v_isFinal = False\<rparr>"
  have "case signStateOn samplePlatform False (\<lambda>a. None)
      (Some \<lparr>privateKey = ''0xA'', wallet_address = ''0xA''\<rparr>) ?c ?v of Inr x \<Rightarrow> True | _ \<Rightarrow> False"
    by code_simp
  then obtain c' s where r: "signStateOn samplePlatform False (\<lambda>a. None)
      (Some \<lparr>privateKey = ''0xA'', wallet_address = ''0xA''\<rparr>) ?c ?v = Inr (c', s)"
    by (auto split: sum.splits)
  have "descending (ch_vars ?c)" "myAddress ?c = Inr ''0xA''"
    by code_simp+
  from signState_never_equivocates [OF this r] have "map signer (signatures s) = [''0xA'']"
    by (elim conjE)
  with r show ?thesis by (intro exI conjI)
qed

end
