(* ===== verification/DirectFunder.thy ===== *)
theory DirectFunder
  imports ChannelFacts
begin

text \<open>
  The cranker of \<open>packages/wallet-core/src/protocols/direct-funder.ts\<close>: a pure state machine that
  opens a directly funded channel. It takes the objective's state and an event, and returns the new
  state with the actions the wallet has to carry out.
\<close>

section \<open>Events, state and actions\<close>

datatype open_channel_event_body =
    Crank
  | StatesReceived "signed_state list"
  | FundingUpdated uint256 bool
  | DepositSubmitted string int int
  | Approval
  | UnknownEvent

record open_channel_event =
  ev_channelId :: bytes32
  ev_now :: "int option"
  ev_body :: open_channel_event_body

record signed_state_hash =
  ssh_hash :: bytes32
  ssh_signatures :: "signature_entry list"

datatype df_status =
    WaitingForApproval
  | WaitingForTheirPreFundSetup
  | WaitingForSafeToDeposit
  | WaitingForChannelFunded
  | WaitingForTheirPostFundState
  | ObjectiveSuccess
  | ObjectiveErrored

datatype df_step = PreFundSetup | PostFundSetup

record holdings_info =
  hi_amount :: uint256
  hi_finalized :: bool

record deposit_request =
  dr_tx :: string
  dr_attempts :: int
  dr_submittedAt :: int

record open_channel_objective =
  ob_status :: df_status
  ob_approved :: bool
  ob_channelId :: bytes32
  ob_openingState :: state
  ob_myIndex :: int
  ob_preFundSetup :: signed_state_hash
  ob_funding :: holdings_info
  ob_fundingRequest :: "deposit_request option"
  ob_postFundSetup :: signed_state_hash

datatype direct_funder_error =
    NonParticipantSignature signature_entry
  | ReceivedUnexpectedState bytes32 bytes32 bytes32
  | TimedOutWhileFunding int int
  | UnexpectedEvent open_channel_event

datatype df_action =
    SendStates "signed_state list"
  | DepositAction uint256
  | HandleError direct_funder_error

definition max_waiting_time :: int where
  "max_waiting_time = 5000"

section \<open>Parts of the machine\<close>

definition setupState :: "'a state_scheme \<Rightarrow> df_step \<Rightarrow> 'a state_scheme" where
  "setupState opening step =
     opening\<lparr>turnNum := (case step of PreFundSetup \<Rightarrow> 0
                         | PostFundSetup \<Rightarrow> 2 * int (length (participants opening)) - 1)\<rparr>"

definition hashState :: "platform \<Rightarrow> 'a state_scheme \<Rightarrow> bytes32 result" where
  "hashState P s = bindE (toNitroState P s) (\<lambda>n. Inr (hashNitroState P n))"

definition signState :: "platform \<Rightarrow> 'a state_scheme \<Rightarrow> string \<Rightarrow> string result" where
  "signState P s key = bindE (toNitroState P s) (\<lambda>n. Inr (signNitroState P n key))"

text \<open>\<open>_.sortBy\<close> compares strings by their character codes, and is stable.\<close>

definition mergeSignatures :: "signature_entry list \<Rightarrow> signature_entry list \<Rightarrow> signature_entry list" where
  "mergeSignatures left right = sort_key signer (uniqBy signer (left @ right))"

definition fundingMilestone :: "'a state_scheme \<Rightarrow> bytes32 \<Rightarrow> (uint256 \<times> uint256 \<times> uint256) result" where
  "fundingMilestone s dest =
     bindE (checkSimpleAllocation (outcome s)) (\<lambda>a.
       case find (\<lambda>i. item_destination i = dest) (allocationItems a) of
         None \<Rightarrow> Inl (Error ''unexpected outcome'')
       | Some mine \<Rightarrow>
           let prior = sumAmounts (takeWhile (\<lambda>i. item_destination i \<noteq> dest) (allocationItems a))
           in Inr (prior, prior + amount mine, sumAmounts (allocationItems a)))"

fun stepOf :: "df_step \<Rightarrow> open_channel_objective \<Rightarrow> signed_state_hash" where
  "stepOf PreFundSetup ob = ob_preFundSetup ob"
| "stepOf PostFundSetup ob = ob_postFundSetup ob"

fun mergeInto :: "df_step \<Rightarrow> signature_entry list \<Rightarrow> open_channel_objective \<Rightarrow> open_channel_objective" where
  "mergeInto PreFundSetup sigs ob = ob\<lparr>ob_preFundSetup := (ob_preFundSetup ob)
     \<lparr>ssh_signatures := mergeSignatures (ssh_signatures (ob_preFundSetup ob)) sigs\<rparr>\<rparr>"
| "mergeInto PostFundSetup sigs ob = ob\<lparr>ob_postFundSetup := (ob_postFundSetup ob)
     \<lparr>ssh_signatures := mergeSignatures (ssh_signatures (ob_postFundSetup ob)) sigs\<rparr>\<rparr>"

definition signedbyMe :: "open_channel_objective \<Rightarrow> df_step \<Rightarrow> address \<Rightarrow> bool" where
  "signedbyMe ob step me \<longleftrightarrow> me \<in> signer ` set (ssh_signatures (stepOf step ob))"

definition completed :: "open_channel_objective \<Rightarrow> df_step \<Rightarrow> bool" where
  "completed ob step \<longleftrightarrow>
     length (ssh_signatures (stepOf step ob)) = length (participants (ob_openingState ob))"

text \<open>\<open>participants[myIndex]\<close>, undefined outside the array.\<close>

definition myParticipantOf :: "open_channel_objective \<Rightarrow> participant option" where
  "myParticipantOf ob =
     (if 0 \<le> ob_myIndex ob \<and> ob_myIndex ob < int (length (participants (ob_openingState ob)))
      then Some (participants (ob_openingState ob) ! nat (ob_myIndex ob)) else None)"

text \<open>The signed state joins the first action that sends states, or becomes a new action.\<close>

fun pushState :: "signed_state \<Rightarrow> df_action list \<Rightarrow> df_action list" where
  "pushState s [] = [SendStates [s]]"
| "pushState s (SendStates ss # acts) = SendStates (ss @ [s]) # acts"
| "pushState s (act # acts) = act # pushState s acts"

definition withSignatures :: "state \<Rightarrow> signature_entry list \<Rightarrow> signed_state" where
  "withSignatures s sigs = state.extend s (signed_state.fields sigs)"

definition signStateAction ::
  "platform \<Rightarrow> df_step \<Rightarrow> string \<Rightarrow> open_channel_objective \<times> df_action list \<Rightarrow>
   (open_channel_objective \<times> df_action list) result"
where
  "signStateAction P step key oa =
     (let ob = fst oa; acts = snd oa in
      case myParticipantOf ob of
        None \<Rightarrow> Inl TypeError
      | Some me \<Rightarrow>
          let s = setupState (ob_openingState ob) step in
          bindE (signState P s key) (\<lambda>sig.
            let entry = \<lparr>signature = sig, signer = signingAddress me\<rparr>
            in Inr (mergeInto step [entry] ob, pushState (withSignatures s [entry]) acts)))"

definition initialize ::
  "platform \<Rightarrow> state \<Rightarrow> signature_entry list option \<Rightarrow> int \<Rightarrow> bool \<Rightarrow> open_channel_objective result"
where
  "initialize P opening sigs me approved =
     (if turnNum opening \<noteq> 0 then Inl (Error ''Unexpected state due to turnNum'')
      else if \<not> (0 \<le> me \<and> me < int (length (participants opening)))
      then Inl (Error ''Unexpected index due to index'')
      else
        bindE (fundingMilestone opening (destination (participants opening ! nat me))) (\<lambda>_.
        bindE (hashState P (setupState opening PreFundSetup)) (\<lambda>pre.
        bindE (hashState P (setupState opening PostFundSetup)) (\<lambda>post.
          Inr \<lparr>ob_status = (if approved then WaitingForTheirPreFundSetup else WaitingForApproval),
               ob_approved = approved, ob_channelId = calculateChannelId P opening,
               ob_openingState = opening, ob_myIndex = me,
               ob_preFundSetup = \<lparr>ssh_hash = pre,
                 ssh_signatures = (case sigs of None \<Rightarrow> [] | Some ss \<Rightarrow> mergeSignatures [] ss)\<rparr>,
               ob_funding = \<lparr>hi_amount = 0, hi_finalized = True\<rparr>,
               ob_fundingRequest = None,
               ob_postFundSetup = \<lparr>ssh_hash = post, ssh_signatures = []\<rparr>\<rparr>))))"

section \<open>The cranker\<close>

text \<open>Processing the event either finishes the crank with an error or goes on to the transition.\<close>

datatype df_flow = Finished open_channel_objective "df_action list" | Proceed open_channel_objective

definition failWith :: "open_channel_objective \<Rightarrow> direct_funder_error \<Rightarrow> df_flow" where
  "failWith ob e = Finished (ob\<lparr>ob_status := ObjectiveErrored\<rparr>) [HandleError e]"

definition receiveStates ::
  "platform \<Rightarrow> open_channel_objective \<Rightarrow> signed_state list \<Rightarrow> df_flow result" where
  "receiveStates P ob ss =
     (case ss of
        [] \<Rightarrow> Inr (Proceed ob)
      | s # _ \<Rightarrow>
          bindE (hashState P s) (\<lambda>h.
            case find (\<lambda>g. signer g \<notin> signingAddress ` set (participants (ob_openingState ob)))
                   (signatures s) of
              Some g \<Rightarrow> Inr (failWith ob (NonParticipantSignature g))
            | None \<Rightarrow>
                if h = ssh_hash (ob_preFundSetup ob)
                then Inr (Proceed (mergeInto PreFundSetup (signatures s) ob))
                else if h = ssh_hash (ob_postFundSetup ob)
                then Inr (Proceed (mergeInto PostFundSetup (signatures s) ob))
                else Inr (failWith ob (ReceivedUnexpectedState h (ssh_hash (ob_preFundSetup ob))
                            (ssh_hash (ob_postFundSetup ob))))))"

definition processEvent ::
  "platform \<Rightarrow> open_channel_objective \<Rightarrow> open_channel_event \<Rightarrow> df_flow result" where
  "processEvent P ob ev =
     (case ev_body ev of
        Crank \<Rightarrow> Inr (Proceed ob)
      | Approval \<Rightarrow> Inr (Proceed (ob\<lparr>ob_approved := True\<rparr>))
      | DepositSubmitted tx attempt at \<Rightarrow>
          Inr (Proceed (ob\<lparr>ob_fundingRequest :=
            Some \<lparr>dr_tx = tx, dr_attempts = attempt, dr_submittedAt = at\<rparr>\<rparr>))
      | FundingUpdated n finalized \<Rightarrow>
          Inr (Proceed (ob\<lparr>ob_funding := \<lparr>hi_amount = n, hi_finalized = finalized\<rparr>\<rparr>))
      | StatesReceived ss \<Rightarrow> receiveStates P ob ss
      | UnknownEvent \<Rightarrow> Inr (failWith ob (UnexpectedEvent ev)))"

text \<open>\<open>event.now\<close> is a number that the code tests for truth first, so 0 counts as absent.\<close>

definition timedOut :: "int option \<Rightarrow> deposit_request \<Rightarrow> bool" where
  "timedOut now req =
     (case now of None \<Rightarrow> False
      | Some t \<Rightarrow> t \<noteq> 0 \<and> t \<ge> dr_submittedAt req + max_waiting_time)"

text \<open>
  The on-chain stage: None when the channel is fully funded and final, otherwise the status to wait
  in and the action to take.
\<close>

definition fundingStage ::
  "open_channel_objective \<Rightarrow> int option \<Rightarrow> uint256 \<times> uint256 \<times> uint256 \<Rightarrow>
   (df_status \<times> df_action list) option"
where
  "fundingStage ob now milestones =
     (let (prior, after', total') = milestones; f = ob_funding ob in
      if hi_amount f \<ge> total' \<and> hi_finalized f then None
      else if hi_amount f < prior then Some (WaitingForSafeToDeposit, [])
      else if hi_amount f \<ge> after' then Some (WaitingForChannelFunded, [])
      else (case ob_fundingRequest ob of
              Some req \<Rightarrow>
                if timedOut now req
                then Some (ObjectiveErrored,
                  [HandleError (TimedOutWhileFunding (the now) (dr_submittedAt req))])
                else Some (WaitingForChannelFunded, [])
            | None \<Rightarrow> Some (WaitingForChannelFunded, [DepositAction (after' - hi_amount f)])))"

definition ensureSigned ::
  "platform \<Rightarrow> df_step \<Rightarrow> string \<Rightarrow> participant \<Rightarrow> open_channel_objective \<times> df_action list \<Rightarrow>
   (open_channel_objective \<times> df_action list) result"
where
  "ensureSigned P step key me oa =
     (if signedbyMe (fst oa) step (signingAddress me) then Inr oa else signStateAction P step key oa)"

definition transitionObjective ::
  "platform \<Rightarrow> open_channel_objective \<Rightarrow> int option \<Rightarrow> string \<Rightarrow>
   (open_channel_objective \<times> df_action list) result"
where
  "transitionObjective P ob now key =
     (if \<not> ob_approved ob then Inr (ob\<lparr>ob_status := WaitingForApproval\<rparr>, [])
      else (case myParticipantOf ob of
        None \<Rightarrow> Inl TypeError
      | Some me \<Rightarrow>
          bindE (ensureSigned P PreFundSetup key me (ob, [])) (\<lambda>(ob1, acts1).
            if \<not> completed ob1 PreFundSetup
            then Inr (ob1\<lparr>ob_status := WaitingForTheirPreFundSetup\<rparr>, acts1)
            else bindE (fundingMilestone (ob_openingState ob1) (destination me)) (\<lambda>milestones.
              case fundingStage ob1 now milestones of
                Some (st, acts) \<Rightarrow> Inr (ob1\<lparr>ob_status := st\<rparr>, acts1 @ acts)
              | None \<Rightarrow>
                  bindE (ensureSigned P PostFundSetup key me (ob1, acts1)) (\<lambda>(ob2, acts2).
                    Inr (ob2\<lparr>ob_status := (if completed ob2 PostFundSetup then ObjectiveSuccess
                                          else WaitingForTheirPostFundState)\<rparr>, acts2))))))"

definition openChannelCranker ::
  "platform \<Rightarrow> open_channel_objective \<Rightarrow> open_channel_event \<Rightarrow> string \<Rightarrow>
   (open_channel_objective \<times> df_action list) result"
where
  "openChannelCranker P ob ev key =
     bindE (processEvent P ob ev) (\<lambda>flow.
       case flow of
         Finished ob' acts \<Rightarrow> Inr (ob', acts)
       | Proceed ob' \<Rightarrow> transitionObjective P ob' (ev_now ev) key)"

end
