(* ===== verification/DirectFunderFacts.thy ===== *)
theory DirectFunderFacts
  imports DirectFunder
begin

text \<open>
  What the direct funding machine guarantees: its invariant, when it deposits, when it signs the
  post-fund state, that cranking it again changes nothing, and that it ends once everything has
  arrived. The shape of a crank is proved once, as a description of its result stage by stage.
\<close>

section \<open>Collected signatures\<close>

definition signersOf :: "signed_state_hash \<Rightarrow> address set" where
  "signersOf h = signer ` set (ssh_signatures h)"

lemma signers_mergeSignatures [simp]:
  "signer ` set (mergeSignatures xs ys) = signer ` set xs \<union> signer ` set ys"
  by (simp add: mergeSignatures_def image_Un)

lemma distinct_mergeSignatures [simp]: "distinct (map signer (mergeSignatures xs ys))"
proof -
  have "distinct (map signer (uniqBy signer (xs @ ys)))" by (rule distinct_map_uniqBy)
  then show ?thesis by (simp add: mergeSignatures_def distinct_map)
qed

lemma sorted_mergeSignatures [simp]: "sorted (map signer (mergeSignatures xs ys))"
  by (simp add: mergeSignatures_def)

definition collected :: "participant list \<Rightarrow> signed_state_hash \<Rightarrow> bool" where
  "collected ps h \<longleftrightarrow> distinct (map signer (ssh_signatures h)) \<and>
     signersOf h \<subseteq> signingAddress ` set ps"

lemma collected_merge:
  "collected ps h \<Longrightarrow> signer ` set sigs \<subseteq> signingAddress ` set ps \<Longrightarrow>
   collected ps (h\<lparr>ssh_signatures := mergeSignatures (ssh_signatures h) sigs\<rparr>)"
  by (simp add: collected_def signersOf_def)

lemma collected_length:
  assumes "collected ps h" and "distinct (map signingAddress ps)"
  shows "length (ssh_signatures h) = length ps \<longleftrightarrow> signersOf h = signingAddress ` set ps"
proof -
  have l: "length (ssh_signatures h) = card (signersOf h)"
    using assms(1) by (metis collected_def signersOf_def distinct_card length_map list.set_map)
  have r: "length ps = card (signingAddress ` set ps)"
    using assms(2) by (metis distinct_card length_map list.set_map)
  have sub: "signersOf h \<subseteq> signingAddress ` set ps" using assms(1) by (simp add: collected_def)
  show ?thesis
    unfolding l r using card_subset_eq [OF _ sub] by auto
qed

section \<open>The invariant\<close>

definition setupHash :: "platform \<Rightarrow> open_channel_objective \<Rightarrow> df_step \<Rightarrow> bool" where
  "setupHash P ob step \<longleftrightarrow>
     hashState P (setupState (ob_openingState ob) step) = Inr (ssh_hash (stepOf step ob))"

definition wfObjective :: "platform \<Rightarrow> open_channel_objective \<Rightarrow> bool" where
  "wfObjective P ob \<longleftrightarrow>
     myParticipantOf ob \<noteq> None \<and>
     distinct (map signingAddress (participants (ob_openingState ob))) \<and>
     collected (participants (ob_openingState ob)) (ob_preFundSetup ob) \<and>
     collected (participants (ob_openingState ob)) (ob_postFundSetup ob) \<and>
     setupHash P ob PreFundSetup \<and> setupHash P ob PostFundSetup"

text \<open>What no crank changes.\<close>

definition sameObjective :: "open_channel_objective \<Rightarrow> open_channel_objective \<Rightarrow> bool" where
  "sameObjective ob ob' \<longleftrightarrow>
     ob_channelId ob' = ob_channelId ob \<and> ob_openingState ob' = ob_openingState ob \<and>
     ob_myIndex ob' = ob_myIndex ob \<and>
     ssh_hash (ob_preFundSetup ob') = ssh_hash (ob_preFundSetup ob) \<and>
     ssh_hash (ob_postFundSetup ob') = ssh_hash (ob_postFundSetup ob) \<and>
     signersOf (ob_preFundSetup ob) \<subseteq> signersOf (ob_preFundSetup ob') \<and>
     signersOf (ob_postFundSetup ob) \<subseteq> signersOf (ob_postFundSetup ob')"

lemma sameObjective_refl [simp]: "sameObjective ob ob"
  by (simp add: sameObjective_def)

lemma sameObjective_trans: "sameObjective a b \<Longrightarrow> sameObjective b c \<Longrightarrow> sameObjective a c"
  by (auto simp: sameObjective_def)

lemma mergeInto_same [simp]: "sameObjective ob (mergeInto step sigs ob)"
  by (cases step) (auto simp: sameObjective_def signersOf_def)

lemma mergeInto_fields [simp]:
  "ob_openingState (mergeInto step sigs ob) = ob_openingState ob"
  "ob_myIndex (mergeInto step sigs ob) = ob_myIndex ob"
  "ob_approved (mergeInto step sigs ob) = ob_approved ob"
  "ob_funding (mergeInto step sigs ob) = ob_funding ob"
  "ob_fundingRequest (mergeInto step sigs ob) = ob_fundingRequest ob"
  "ob_status (mergeInto step sigs ob) = ob_status ob"
  "myParticipantOf (mergeInto step sigs ob) = myParticipantOf ob"
  by (cases step; simp add: myParticipantOf_def)+

lemma stepOf_mergeInto:
  "stepOf step (mergeInto step' sigs ob) =
     (if step = step' then (stepOf step ob)
        \<lparr>ssh_signatures := mergeSignatures (ssh_signatures (stepOf step ob)) sigs\<rparr>
      else stepOf step ob)"
  by (cases step; cases step') simp_all

lemma myParticipantOf_update [simp]:
  "myParticipantOf (ob\<lparr>ob_preFundSetup := h\<rparr>) = myParticipantOf ob"
  "myParticipantOf (ob\<lparr>ob_postFundSetup := h\<rparr>) = myParticipantOf ob"
  "myParticipantOf (ob\<lparr>ob_status := st\<rparr>) = myParticipantOf ob"
  "myParticipantOf (ob\<lparr>ob_approved := b\<rparr>) = myParticipantOf ob"
  "myParticipantOf (ob\<lparr>ob_funding := f\<rparr>) = myParticipantOf ob"
  "myParticipantOf (ob\<lparr>ob_fundingRequest := r\<rparr>) = myParticipantOf ob"
  by (simp_all add: myParticipantOf_def)

lemma wf_mergeInto:
  assumes "wfObjective P ob"
    and "signer ` set sigs \<subseteq> signingAddress ` set (participants (ob_openingState ob))"
  shows "wfObjective P (mergeInto step sigs ob)"
  using assms by (cases step) (simp_all add: wfObjective_def setupHash_def collected_merge)

declare mergeInto.simps [simp del]

lemma wf_completed:
  assumes "wfObjective P ob"
  shows "completed ob step \<longleftrightarrow>
    signersOf (stepOf step ob) = signingAddress ` set (participants (ob_openingState ob))"
proof -
  have "collected (participants (ob_openingState ob)) (stepOf step ob)"
    using assms by (cases step) (simp_all add: wfObjective_def)
  from collected_length [OF this] assms show ?thesis
    by (simp add: completed_def wfObjective_def)
qed

lemma myParticipant_in: "myParticipantOf ob = Some me \<Longrightarrow> me \<in> set (participants (ob_openingState ob))"
  by (auto simp: myParticipantOf_def split: if_splits)

text \<open>Two states of an objective that differ in the fields the invariant does not read.\<close>

lemma wf_irrelevant [simp]:
  "wfObjective P (ob\<lparr>ob_status := st\<rparr>) = wfObjective P ob"
  "wfObjective P (ob\<lparr>ob_approved := b\<rparr>) = wfObjective P ob"
  "wfObjective P (ob\<lparr>ob_funding := f\<rparr>) = wfObjective P ob"
  "wfObjective P (ob\<lparr>ob_fundingRequest := r\<rparr>) = wfObjective P ob"
  by (simp_all add: wfObjective_def setupHash_def)

lemma same_irrelevant [simp]:
  "sameObjective ob (ob'\<lparr>ob_status := st\<rparr>) = sameObjective ob ob'"
  "sameObjective ob (ob'\<lparr>ob_approved := b\<rparr>) = sameObjective ob ob'"
  "sameObjective ob (ob'\<lparr>ob_funding := f\<rparr>) = sameObjective ob ob'"
  "sameObjective ob (ob'\<lparr>ob_fundingRequest := r\<rparr>) = sameObjective ob ob'"
  by (simp_all add: sameObjective_def)

section \<open>One crank, stage by stage\<close>

lemma find_not_in_None: "find (\<lambda>g. f g \<notin> A) xs = None \<longleftrightarrow> f ` set xs \<subseteq> A"
  by (auto simp: find_None_iff)

definition flowWf :: "platform \<Rightarrow> open_channel_objective \<Rightarrow> df_flow \<Rightarrow> bool" where
  "flowWf P ob flow =
     (case flow of
        Finished ob' acts \<Rightarrow> wfObjective P ob' \<and> sameObjective ob ob' \<and>
          ob_status ob' = ObjectiveErrored \<and> (\<exists>e. acts = [HandleError e])
      | Proceed ob' \<Rightarrow> wfObjective P ob' \<and> sameObjective ob ob')"

lemma flowWf_simps [simp]:
  "flowWf P ob (Proceed ob') \<longleftrightarrow> wfObjective P ob' \<and> sameObjective ob ob'"
  "flowWf P ob (failWith ob' e) \<longleftrightarrow> wfObjective P ob' \<and> sameObjective ob ob'"
  by (simp_all add: flowWf_def failWith_def)

lemma receiveStates_wf:
  assumes "receiveStates P ob ss = Inr flow" and "wfObjective P ob"
  shows "flowWf P ob flow"
proof (cases ss)
  case Nil
  with assms show ?thesis by (auto simp: receiveStates_def)
next
  case (Cons s rest)
  with assms(1) obtain h where h: "hashState P s = Inr h"
    by (auto simp: receiveStates_def bindE_eq_Inr)
  show ?thesis
  proof (cases "find (\<lambda>g. signer g \<notin> signingAddress ` set (participants (ob_openingState ob))) (signatures s)")
    case None
    with Cons assms h have "flow = Proceed (mergeInto PreFundSetup (signatures s) ob) \<or>
        flow = Proceed (mergeInto PostFundSetup (signatures s) ob) \<or> (\<exists>e. flow = failWith ob e)"
      by (auto simp: receiveStates_def split: if_splits)
    with None assms(2) show ?thesis by (auto simp: find_not_in_None intro: wf_mergeInto)
  next
    case (Some g)
    with Cons assms h show ?thesis by (auto simp: receiveStates_def)
  qed
qed

lemma processEvent_wf:
  "processEvent P ob ev = Inr flow \<Longrightarrow> wfObjective P ob \<Longrightarrow> flowWf P ob flow"
  by (auto simp: processEvent_def receiveStates_wf split: open_channel_event_body.splits)

lemma ensureSigned_eq:
  assumes "ensureSigned P step key me (ob, acts) = Inr (ob', acts')" and "myParticipantOf ob = Some me"
  shows "(signedbyMe ob step (signingAddress me) \<and> ob' = ob \<and> acts' = acts) \<or>
    (\<exists>sig. \<not> signedbyMe ob step (signingAddress me) \<and>
       signState P (setupState (ob_openingState ob) step) key = Inr sig \<and>
       ob' = mergeInto step [\<lparr>signature = sig, signer = signingAddress me\<rparr>] ob \<and>
       acts' = pushState (withSignatures (setupState (ob_openingState ob) step)
         [\<lparr>signature = sig, signer = signingAddress me\<rparr>]) acts)"
  using assms by (auto simp: ensureSigned_def signStateAction_def bindE_eq_Inr Let_def split: if_splits)

lemma ensureSigned_wf:
  assumes "ensureSigned P step key me (ob, acts) = Inr (ob', acts')" and "myParticipantOf ob = Some me"
    and "wfObjective P ob"
  shows "wfObjective P ob' \<and> sameObjective ob ob' \<and> signedbyMe ob' step (signingAddress me) \<and>
    myParticipantOf ob' = Some me \<and> ob_funding ob' = ob_funding ob \<and>
    ob_fundingRequest ob' = ob_fundingRequest ob \<and> ob_approved ob' = ob_approved ob"
  using ensureSigned_eq [OF assms(1,2)]
proof
  assume "signedbyMe ob step (signingAddress me) \<and> ob' = ob \<and> acts' = acts"
  with assms show ?thesis by simp
next
  assume "\<exists>sig. \<not> signedbyMe ob step (signingAddress me) \<and>
       signState P (setupState (ob_openingState ob) step) key = Inr sig \<and>
       ob' = mergeInto step [\<lparr>signature = sig, signer = signingAddress me\<rparr>] ob \<and>
       acts' = pushState (withSignatures (setupState (ob_openingState ob) step)
         [\<lparr>signature = sig, signer = signingAddress me\<rparr>]) acts"
  then obtain sig where ob': "ob' = mergeInto step [\<lparr>signature = sig, signer = signingAddress me\<rparr>] ob"
    by blast
  have "wfObjective P ob'"
    unfolding ob' using assms(3) myParticipant_in [OF assms(2)] by (intro wf_mergeInto) auto
  then show ?thesis
    using assms(2) by (simp add: ob' signedbyMe_def stepOf_mergeInto)
qed

lemma transition_cases:
  assumes "transitionObjective P ob now key = Inr (ob', acts)"
  obtains
    (unapproved) "\<not> ob_approved ob" "ob' = ob\<lparr>ob_status := WaitingForApproval\<rparr>" "acts = []"
  | (preFund) me ob1 where "ob_approved ob" "myParticipantOf ob = Some me"
      "ensureSigned P PreFundSetup key me (ob, []) = Inr (ob1, acts)"
      "\<not> completed ob1 PreFundSetup" "ob' = ob1\<lparr>ob_status := WaitingForTheirPreFundSetup\<rparr>"
  | (onChain) me ob1 acts1 milestones st acts2 where "ob_approved ob" "myParticipantOf ob = Some me"
      "ensureSigned P PreFundSetup key me (ob, []) = Inr (ob1, acts1)" "completed ob1 PreFundSetup"
      "fundingMilestone (ob_openingState ob1) (destination me) = Inr milestones"
      "fundingStage ob1 now milestones = Some (st, acts2)"
      "ob' = ob1\<lparr>ob_status := st\<rparr>" "acts = acts1 @ acts2"
  | (postFund) me ob1 acts1 milestones ob2 where "ob_approved ob" "myParticipantOf ob = Some me"
      "ensureSigned P PreFundSetup key me (ob, []) = Inr (ob1, acts1)" "completed ob1 PreFundSetup"
      "fundingMilestone (ob_openingState ob1) (destination me) = Inr milestones"
      "fundingStage ob1 now milestones = None"
      "ensureSigned P PostFundSetup key me (ob1, acts1) = Inr (ob2, acts)"
      "ob' = ob2\<lparr>ob_status := (if completed ob2 PostFundSetup then ObjectiveSuccess
                                else WaitingForTheirPostFundState)\<rparr>"
proof (cases "ob_approved ob")
  case False
  with assms that(1) show ?thesis by (simp add: transitionObjective_def)
next
  case appr: True
  with assms obtain me ob1 acts1 where me: "myParticipantOf ob = Some me"
    and e: "ensureSigned P PreFundSetup key me (ob, []) = Inr (ob1, acts1)"
    by (auto simp: transitionObjective_def bindE_eq_Inr split: option.splits)
  show ?thesis
  proof (cases "completed ob1 PreFundSetup")
    case False
    with appr me e assms that(2) show ?thesis by (simp add: transitionObjective_def)
  next
    case True
    with appr me e assms obtain milestones where m:
      "fundingMilestone (ob_openingState ob1) (destination me) = Inr milestones"
      by (auto simp: transitionObjective_def bindE_eq_Inr)
    show ?thesis
    proof (cases "fundingStage ob1 now milestones")
      case None
      with appr me e True m assms obtain ob2 acts2 where
        "ensureSigned P PostFundSetup key me (ob1, acts1) = Inr (ob2, acts2)"
        "ob' = ob2\<lparr>ob_status := (if completed ob2 PostFundSetup then ObjectiveSuccess
                                else WaitingForTheirPostFundState)\<rparr>" "acts = acts2"
        by (auto simp: transitionObjective_def bindE_eq_Inr)
      with that(4) [OF appr me e True m None] show ?thesis by simp
    next
      case (Some sa)
      with appr me e True m assms that(3) show ?thesis
        by (cases sa) (auto simp: transitionObjective_def)
    qed
  qed
qed

lemma transition_wf:
  assumes "transitionObjective P ob now key = Inr (ob', acts)" and "wfObjective P ob"
  shows "wfObjective P ob' \<and> sameObjective ob ob'"
  using assms(1)
proof (cases rule: transition_cases)
  case unapproved
  with assms(2) show ?thesis by simp
next
  case (preFund me ob1)
  with ensureSigned_wf [OF preFund(3,2) assms(2)] show ?thesis by simp
next
  case (onChain me ob1 acts1 milestones st acts2)
  with ensureSigned_wf [OF onChain(3,2) assms(2)] show ?thesis by simp
next
  case (postFund me ob1 acts1 milestones ob2)
  from ensureSigned_wf [OF postFund(3,2) assms(2)]
  have 1: "wfObjective P ob1" "sameObjective ob ob1" "myParticipantOf ob1 = Some me" by auto
  with ensureSigned_wf [OF postFund(7) 1(3,1)] postFund(8) show ?thesis
    by (auto intro: sameObjective_trans)
qed

text \<open>A crank: an event, then a transition.\<close>

lemma crank_cases:
  assumes "openChannelCranker P ob ev key = Inr (ob', acts)" and "wfObjective P ob"
  obtains
    (failed) e where "wfObjective P ob'" "sameObjective ob ob'" "ob_status ob' = ObjectiveErrored"
      "acts = [HandleError e]"
  | (moved) mid where "processEvent P ob ev = Inr (Proceed mid)" "wfObjective P mid"
      "sameObjective ob mid" "transitionObjective P mid (ev_now ev) key = Inr (ob', acts)"
proof -
  from assms(1) obtain flow where p: "processEvent P ob ev = Inr flow"
    by (auto simp: openChannelCranker_def bindE_eq_Inr)
  from processEvent_wf [OF p assms(2)] have w: "flowWf P ob flow" .
  show ?thesis
  proof (cases flow)
    case (Finished o1 a1)
    with assms(1) p w that(1) show ?thesis by (auto simp: openChannelCranker_def flowWf_def)
  next
    case (Proceed mid)
    with assms(1) p w that(2) show ?thesis by (auto simp: openChannelCranker_def)
  qed
qed

section \<open>Reachable objectives\<close>

text \<open>The objectives that a wallet reaches from an initial one by any events, in any order.\<close>

inductive df_reachable ::
  "platform \<Rightarrow> string \<Rightarrow> open_channel_objective \<Rightarrow> open_channel_objective \<Rightarrow> bool"
  for P key start where
  start: "df_reachable P key start start"
| crank: "df_reachable P key start ob \<Longrightarrow> openChannelCranker P ob ev key = Inr (ob', acts) \<Longrightarrow>
    df_reachable P key start ob'"

lemma reachable_wf:
  "df_reachable P key start ob \<Longrightarrow> wfObjective P start \<Longrightarrow> wfObjective P ob \<and> sameObjective start ob"
proof (induction rule: df_reachable.induct)
  case start
  then show ?case by simp
next
  case (crank ob ev ob' acts)
  then have w: "wfObjective P ob" "sameObjective start ob" by auto
  from crank.hyps(2) w(1) show ?case
  proof (cases rule: crank_cases)
    case (failed e)
    with w show ?thesis by (auto intro: sameObjective_trans)
  next
    case (moved mid)
    from transition_wf [OF moved(4,2)] w moved(3) show ?thesis by (auto intro: sameObjective_trans)
  qed
qed

lemma initialize_wf:
  assumes "initialize P opening sigs me approved = Inr ob"
    and "distinct (map signingAddress (participants opening))"
    and "\<forall>ss. sigs = Some ss \<longrightarrow> signer ` set ss \<subseteq> signingAddress ` set (participants opening)"
  shows "wfObjective P ob"
proof -
  have "signer ` set (case sigs of None \<Rightarrow> [] | Some ss \<Rightarrow> mergeSignatures [] ss) \<subseteq>
      signingAddress ` set (participants opening)"
    using assms(3) by (cases sigs) simp_all
  moreover have "distinct (map signer (case sigs of None \<Rightarrow> [] | Some ss \<Rightarrow> mergeSignatures [] ss))"
    by (cases sigs) simp_all
  moreover from assms(1) obtain pre post where
    "hashState P (setupState opening PreFundSetup) = Inr pre"
    "hashState P (setupState opening PostFundSetup) = Inr post"
    "0 \<le> me" "me < int (length (participants opening))"
    "ob_openingState ob = opening" "ob_myIndex ob = me"
    "ob_preFundSetup ob = \<lparr>ssh_hash = pre,
       ssh_signatures = (case sigs of None \<Rightarrow> [] | Some ss \<Rightarrow> mergeSignatures [] ss)\<rparr>"
    "ob_postFundSetup ob = \<lparr>ssh_hash = post, ssh_signatures = []\<rparr>"
    by (auto simp: initialize_def bindE_eq_Inr split: if_splits)
  ultimately show ?thesis
    using assms(2)
    by (simp add: wfObjective_def setupHash_def myParticipantOf_def collected_def signersOf_def)
qed

section \<open>Safety\<close>

definition noMoney :: "df_action list \<Rightarrow> bool" where
  "noMoney acts \<longleftrightarrow> (\<forall>n. DepositAction n \<notin> set acts)"

lemma set_pushState_deposit: "DepositAction n \<in> set (pushState s acts) \<longleftrightarrow> DepositAction n \<in> set acts"
  by (induction s acts rule: pushState.induct) auto

lemma ensureSigned_noMoney:
  "ensureSigned P step key me (ob, acts) = Inr (ob', acts') \<Longrightarrow> myParticipantOf ob = Some me \<Longrightarrow>
   noMoney acts \<Longrightarrow> noMoney acts'"
  using ensureSigned_eq [of P step key me ob acts ob' acts']
  by (auto simp: noMoney_def set_pushState_deposit)

lemma deposit_conditions:
  assumes "transitionObjective P ob now key = Inr (ob', acts)" and "wfObjective P ob"
    and "DepositAction n \<in> set acts"
  shows "ob_approved ob' \<and> ob_fundingRequest ob' = None \<and> completed ob' PreFundSetup \<and>
    ob_status ob' = WaitingForChannelFunded \<and>
    (\<exists>me before after' total'. myParticipantOf ob' = Some me \<and>
       fundingMilestone (ob_openingState ob') (destination me) = Inr (before, after', total') \<and>
       before \<le> hi_amount (ob_funding ob') \<and> 0 < n \<and> hi_amount (ob_funding ob') + n = after')"
  using assms(1)
proof (cases rule: transition_cases)
  case unapproved
  with assms(3) show ?thesis by simp
next
  case (preFund me ob1)
  with ensureSigned_noMoney [OF preFund(3,2)] assms(3) show ?thesis by (simp add: noMoney_def)
next
  case (onChain me ob1 acts1 milestones st acts2)
  with ensureSigned_noMoney [OF onChain(3,2)] assms(3) have "DepositAction n \<in> set acts2"
    by (auto simp: noMoney_def)
  moreover obtain before after' total' where "milestones = (before, after', total')"
    by (cases milestones) auto
  ultimately show ?thesis
    using onChain ensureSigned_wf [OF onChain(3,2) assms(2)]
    by (auto simp: fundingStage_def Let_def completed_def split: if_splits option.splits)
next
  case (postFund me ob1 acts1 milestones ob2)
  from ensureSigned_wf [OF postFund(3,2) assms(2)] have "myParticipantOf ob1 = Some me" by simp
  from ensureSigned_noMoney [OF postFund(7) this] ensureSigned_noMoney [OF postFund(3,2)] assms(3)
  show ?thesis by (simp add: noMoney_def)
qed

text \<open>
  C31: deposits are safe. Take an objective that starts well-formed: the participants have distinct
  addresses and the signatures recorded at the start are theirs, which \<open>initialize\<close> does not check
  (\<open>outsider_completes_prefund\<close>). Whatever has happened since, when the machine asks for a deposit the
  objective is approved, every participant has signed the pre-fund state, no deposit is on its way,
  everything that comes before mine is already in the channel, and the deposit brings the holdings
  exactly to the point where my share is in.
\<close>

theorem deposits_are_safe:
  assumes "wfObjective P start" and "df_reachable P key start ob"
    and "openChannelCranker P ob ev key = Inr (ob', acts)" and "DepositAction n \<in> set acts"
  shows "ob_approved ob' \<and> ob_fundingRequest ob' = None \<and>
    signer ` set (ssh_signatures (ob_preFundSetup ob')) =
      signingAddress ` set (participants (ob_openingState ob')) \<and>
    (\<exists>me before after' total'. myParticipantOf ob' = Some me \<and>
       fundingMilestone (ob_openingState ob') (destination me) = Inr (before, after', total') \<and>
       before \<le> hi_amount (ob_funding ob') \<and> 0 < n \<and> hi_amount (ob_funding ob') + n = after')"
proof -
  from reachable_wf [OF assms(2,1)] have "wfObjective P ob" by simp
  from assms(3) this show ?thesis
  proof (cases rule: crank_cases)
    case (failed e)
    with assms(4) show ?thesis by simp
  next
    case (moved mid)
    from transition_wf [OF moved(4,2)] have "wfObjective P ob'" by simp
    from deposit_conditions [OF moved(4,2) assms(4)] wf_completed [OF this, of PreFundSetup]
    show ?thesis by (simp add: signersOf_def)
  qed
qed

fun sentStates :: "df_action list \<Rightarrow> signed_state list" where
  "sentStates [] = []"
| "sentStates (SendStates ss # acts) = ss @ sentStates acts"
| "sentStates (_ # acts) = sentStates acts"

lemma set_sentStates_push [simp]: "set (sentStates (pushState s acts)) = insert s (set (sentStates acts))"
  by (induction s acts rule: pushState.induct) auto

lemma sentStates_append [simp]: "sentStates (xs @ ys) = sentStates xs @ sentStates ys"
  by (induction xs rule: sentStates.induct) auto

lemma fundingStage_sends: "fundingStage ob now m = Some (st, acts) \<Longrightarrow> sentStates acts = []"
  by (auto simp: fundingStage_def Let_def split: prod.splits if_splits option.splits)

lemma fundingStage_None:
  "fundingStage ob now (before, after', total') = None \<longleftrightarrow>
     total' \<le> hi_amount (ob_funding ob) \<and> hi_finalized (ob_funding ob)"
  by (auto simp: fundingStage_def Let_def split: option.splits)

definition fullyFunded :: "open_channel_objective \<Rightarrow> bool" where
  "fullyFunded ob \<longleftrightarrow>
     (case myParticipantOf ob of
        None \<Rightarrow> False
      | Some me \<Rightarrow>
          (case fundingMilestone (ob_openingState ob) (destination me) of
             Inl _ \<Rightarrow> False
           | Inr (_, _, total') \<Rightarrow> total' \<le> hi_amount (ob_funding ob) \<and> hi_finalized (ob_funding ob)))"

text \<open>A state this wallet signs itself: one of the two setup states, with its signature alone.\<close>

definition myState :: "platform \<Rightarrow> string \<Rightarrow> open_channel_objective \<Rightarrow> df_step \<Rightarrow> signed_state \<Rightarrow> bool" where
  "myState P key ob step s \<longleftrightarrow>
     (\<exists>me sig. myParticipantOf ob = Some me \<and>
        signState P (setupState (ob_openingState ob) step) key = Inr sig \<and>
        s = withSignatures (setupState (ob_openingState ob) step)
              [\<lparr>signature = sig, signer = signingAddress me\<rparr>])"

lemma ensureSigned_sends:
  assumes "ensureSigned P step key me (ob, acts) = Inr (ob', acts')" and "myParticipantOf ob = Some me"
    and "s \<in> set (sentStates acts')"
  shows "s \<in> set (sentStates acts) \<or> myState P key ob step s"
  using ensureSigned_eq [OF assms(1,2)] assms(2,3) by (auto simp: myState_def)

lemma myState_cong:
  "ob_openingState ob' = ob_openingState ob \<Longrightarrow> myParticipantOf ob' = myParticipantOf ob \<Longrightarrow>
   myState P key ob' step s = myState P key ob step s"
  by (simp add: myState_def)

lemma sent_conditions:
  assumes "transitionObjective P ob now key = Inr (ob', acts)" and "wfObjective P ob"
    and "s \<in> set (sentStates acts)"
  shows "ob_approved ob' \<and>
    (myState P key ob' PreFundSetup s \<or>
     myState P key ob' PostFundSetup s \<and> completed ob' PreFundSetup \<and> fullyFunded ob')"
  using assms(1)
proof (cases rule: transition_cases)
  case unapproved
  with assms(3) show ?thesis by simp
next
  case (preFund me ob1)
  have "myState P key ob PreFundSetup s"
    using ensureSigned_sends [OF preFund(3,2) assms(3)] by simp
  with preFund ensureSigned_wf [OF preFund(3,2) assms(2)] show ?thesis
    using myState_cong [of ob' ob P key PreFundSetup s] by (simp add: sameObjective_def)
next
  case (onChain me ob1 acts1 milestones st acts2)
  with assms(3) fundingStage_sends [OF onChain(6)] have "s \<in> set (sentStates acts1)" by simp
  from ensureSigned_sends [OF onChain(3,2) this] have "myState P key ob PreFundSetup s" by simp
  with onChain ensureSigned_wf [OF onChain(3,2) assms(2)] show ?thesis
    using myState_cong [of ob' ob P key PreFundSetup s] by (simp add: sameObjective_def)
next
  case (postFund me ob1 acts1 milestones ob2)
  from ensureSigned_wf [OF postFund(3,2) assms(2)]
  have w1: "wfObjective P ob1" "sameObjective ob ob1" "myParticipantOf ob1 = Some me"
    "ob_approved ob1 = ob_approved ob" by auto
  from ensureSigned_wf [OF postFund(7) w1(3,1)]
  have w2: "wfObjective P ob2" "sameObjective ob1 ob2" "myParticipantOf ob2 = Some me"
    "ob_funding ob2 = ob_funding ob1" "ob_approved ob2 = ob_approved ob1" by auto
  have open2: "ob_openingState ob' = ob_openingState ob" "ob_openingState ob' = ob_openingState ob1"
    and part2: "myParticipantOf ob' = Some me"
    using w1(2) w2(2,3) postFund(8) by (auto simp: sameObjective_def)
  obtain before after' total' where m: "milestones = (before, after', total')" by (cases milestones)
  have full: "fullyFunded ob'"
    using postFund(5,6,8) w2 open2 part2
    by (simp add: fullyFunded_def fundingStage_None m sameObjective_def)
  have "completed ob' PreFundSetup"
  proof -
    have "signersOf (ob_preFundSetup ob1) = signingAddress ` set (participants (ob_openingState ob1))"
      using wf_completed [OF w1(1), of PreFundSetup] postFund(4) by simp
    moreover have "signersOf (ob_preFundSetup ob2) \<subseteq> signingAddress ` set (participants (ob_openingState ob2))"
      using w2(1) by (simp add: wfObjective_def collected_def)
    ultimately have "signersOf (ob_preFundSetup ob2) = signingAddress ` set (participants (ob_openingState ob2))"
      using w2(2) by (auto simp: sameObjective_def)
    with wf_completed [OF w2(1), of PreFundSetup] postFund(8) show ?thesis
      by (simp add: completed_def)
  qed
  moreover have "s \<in> set (sentStates acts1) \<or> myState P key ob1 PostFundSetup s"
    using ensureSigned_sends [OF postFund(7) w1(3) assms(3)] .
  moreover have "myState P key ob PreFundSetup s" if "s \<in> set (sentStates acts1)"
    using ensureSigned_sends [OF postFund(3,2) that] by simp
  moreover have "ob_approved ob'" using postFund(1,8) w1(4) w2(5) by simp
  ultimately show ?thesis
    using full open2 part2 postFund(2) w1(3) myState_cong [of ob' ob P key PreFundSetup s]
      myState_cong [of ob' ob1 P key PostFundSetup s] by auto
qed

text \<open>
  the machine signs nothing but the two setup states, only once the objective is approved, and
  the post-fund state only when every participant has signed the pre-fund state and the whole
  outcome is on chain for good.
\<close>

theorem signs_only_setup_states:
  assumes "wfObjective P start" and "df_reachable P key start ob"
    and "openChannelCranker P ob ev key = Inr (ob', acts)" and "s \<in> set (sentStates acts)"
  shows "ob_approved ob' \<and>
    (myState P key ob' PreFundSetup s \<or>
     myState P key ob' PostFundSetup s \<and> fullyFunded ob' \<and>
       signer ` set (ssh_signatures (ob_preFundSetup ob')) =
         signingAddress ` set (participants (ob_openingState ob')))"
proof -
  from reachable_wf [OF assms(2,1)] have "wfObjective P ob" by simp
  from assms(3) this show ?thesis
  proof (cases rule: crank_cases)
    case (failed e)
    with assms(4) show ?thesis by simp
  next
    case (moved mid)
    from transition_wf [OF moved(4,2)] have "wfObjective P ob'" by simp
    from sent_conditions [OF moved(4,2) assms(4)] wf_completed [OF this, of PreFundSetup]
    show ?thesis by (auto simp: signersOf_def)
  qed
qed

section \<open>Reaching the end\<close>

lemma fundingStage_status: "fundingStage ob now m = Some (st, acts) \<Longrightarrow> st \<noteq> ObjectiveSuccess"
  by (auto simp: fundingStage_def Let_def split: prod.splits if_splits option.splits)

text \<open>Once both setup states and the money are in, one crank is enough.\<close>

lemma ensureSigned_total:
  assumes "wfObjective P ob" and "myParticipantOf ob = Some me"
  shows "\<exists>ob' acts'. ensureSigned P step key me (ob, acts) = Inr (ob', acts') \<and>
    signersOf (stepOf step ob') = insert (signingAddress me) (signersOf (stepOf step ob)) \<and>
    (\<forall>step'. step' \<noteq> step \<longrightarrow> stepOf step' ob' = stepOf step' ob)"
proof -
  have "\<exists>h. hashState P (setupState (ob_openingState ob) step) = Inr h"
    using assms(1) by (cases step) (auto simp: wfObjective_def setupHash_def)
  then obtain n where n: "toNitroState P (setupState (ob_openingState ob) step) = Inr n"
    by (auto simp: hashState_def bindE_eq_Inr)
  show ?thesis
  proof (cases "signedbyMe ob step (signingAddress me)")
    case True
    then show ?thesis
      by (auto simp: ensureSigned_def signedbyMe_def signersOf_def insert_absorb)
  next
    case False
    with assms(2) n show ?thesis
      by (simp add: ensureSigned_def signStateAction_def signState_def Let_def stepOf_mergeInto
          signersOf_def)
  qed
qed


text \<open>
  success means open. An objective that a crank puts in its success state has the signatures of
  all participants on both setup states, and its holdings cover the outcome and are final.
\<close>

theorem success_means_open:
  assumes "wfObjective P start" and "df_reachable P key start ob"
    and "openChannelCranker P ob ev key = Inr (ob', acts)" and "ob_status ob' = ObjectiveSuccess"
  shows "signer ` set (ssh_signatures (ob_preFundSetup ob')) =
      signingAddress ` set (participants (ob_openingState ob')) \<and>
    signer ` set (ssh_signatures (ob_postFundSetup ob')) =
      signingAddress ` set (participants (ob_openingState ob')) \<and> fullyFunded ob'"
proof -
  from reachable_wf [OF assms(2,1)] have "wfObjective P ob" by simp
  from assms(3) this show ?thesis
  proof (cases rule: crank_cases)
    case (failed e)
    with assms(4) show ?thesis by simp
  next
    case (moved mid)
    from moved(4) show ?thesis
    proof (cases rule: transition_cases)
      case (onChain me ob1 acts1 milestones st acts2)
      with fundingStage_status [OF onChain(6)] assms(4) show ?thesis by simp
    next
      case (postFund me ob1 acts1 milestones ob2)
      from ensureSigned_wf [OF postFund(3,2) moved(2)]
      have w1: "wfObjective P ob1" "myParticipantOf ob1 = Some me" by auto
      from ensureSigned_wf [OF postFund(7) w1(2,1)]
      have w2: "wfObjective P ob2" "sameObjective ob1 ob2" "myParticipantOf ob2 = Some me"
        "ob_funding ob2 = ob_funding ob1" by auto
      obtain before after' total' where m: "milestones = (before, after', total')" by (cases milestones)
      have "fullyFunded ob'"
        using postFund(5,6,8) w2 by (simp add: fullyFunded_def fundingStage_None m sameObjective_def)
      moreover have "signersOf (ob_preFundSetup ob2) = signingAddress ` set (participants (ob_openingState ob2))"
        using wf_completed [OF w1(1), of PreFundSetup] postFund(4) w2(1,2)
        by (auto simp: wfObjective_def collected_def sameObjective_def)
      moreover have "completed ob2 PostFundSetup"
        using assms(4) postFund(8) by (auto split: if_splits)
      ultimately show ?thesis
        using wf_completed [OF w2(1), of PostFundSetup] postFund(8) by (simp add: signersOf_def)
    qed (use assms(4) in auto)
  qed
qed

section \<open>Cranking again\<close>

fun isSend :: "df_action \<Rightarrow> bool" where
  "isSend (SendStates _) = True"
| "isSend _ = False"

lemma status_irrelevant [simp]:
  "stepOf step (ob\<lparr>ob_status := st\<rparr>) = stepOf step ob"
  "signedbyMe (ob\<lparr>ob_status := st\<rparr>) step a = signedbyMe ob step a"
  "completed (ob\<lparr>ob_status := st\<rparr>) step = completed ob step"
  "fundingStage (ob\<lparr>ob_status := st\<rparr>) now m = fundingStage ob now m"
proof -
  show 1: "stepOf step (ob\<lparr>ob_status := st\<rparr>) = stepOf step ob" for step by (cases step) simp_all
  show "signedbyMe (ob\<lparr>ob_status := st\<rparr>) step a = signedbyMe ob step a"
    "completed (ob\<lparr>ob_status := st\<rparr>) step = completed ob step"
    by (simp_all add: signedbyMe_def completed_def 1)
  show "fundingStage (ob\<lparr>ob_status := st\<rparr>) now m = fundingStage ob now m"
    by (cases m) (simp add: fundingStage_def Let_def cong: if_cong)
qed

lemma ensureSigned_done:
  "signedbyMe ob step (signingAddress me) \<Longrightarrow> ensureSigned P step key me (ob, acts) = Inr (ob, acts)"
  by (simp add: ensureSigned_def)

lemma filter_pushState: "filter (\<lambda>a. \<not> isSend a) (pushState s acts) = filter (\<lambda>a. \<not> isSend a) acts"
  by (induction s acts rule: pushState.induct) auto

lemma ensureSigned_filter:
  assumes "ensureSigned P step key me (ob, acts) = Inr (ob', acts')" and "myParticipantOf ob = Some me"
  shows "filter (\<lambda>a. \<not> isSend a) acts' = filter (\<lambda>a. \<not> isSend a) acts"
  using ensureSigned_eq [OF assms] by (auto simp: filter_pushState)

lemma fundingStage_filter:
  "fundingStage ob now m = Some (st, acts) \<Longrightarrow> filter (\<lambda>a. \<not> isSend a) acts = acts"
  by (auto simp: fundingStage_def Let_def split: prod.splits if_splits option.splits)

lemma fundingStage_cong:
  "ob_funding ob' = ob_funding ob \<Longrightarrow> ob_fundingRequest ob' = ob_fundingRequest ob \<Longrightarrow>
   fundingStage ob' now m = fundingStage ob now m"
  by (cases m) (simp add: fundingStage_def Let_def cong: if_cong)

lemma transition_again:
  assumes "transitionObjective P ob now key = Inr (ob', acts)" and "wfObjective P ob"
  shows "transitionObjective P ob' now key = Inr (ob', filter (\<lambda>a. \<not> isSend a) acts)"
  using assms(1)
proof (cases rule: transition_cases)
  case unapproved
  then show ?thesis by (simp add: transitionObjective_def)
next
  case (preFund me ob1)
  with ensureSigned_wf [OF preFund(3,2) assms(2)] ensureSigned_filter [OF preFund(3,2)]
  show ?thesis by (simp add: transitionObjective_def ensureSigned_done)
next
  case (onChain me ob1 acts1 milestones st acts2)
  with ensureSigned_wf [OF onChain(3,2) assms(2)] ensureSigned_filter [OF onChain(3,2)]
    fundingStage_filter [OF onChain(6)]
  show ?thesis by (simp add: transitionObjective_def ensureSigned_done)
next
  case (postFund me ob1 acts1 milestones ob2)
  from ensureSigned_wf [OF postFund(3,2) assms(2)]
  have w1: "wfObjective P ob1" "myParticipantOf ob1 = Some me" "signedbyMe ob1 PreFundSetup (signingAddress me)"
    "ob_approved ob1 = ob_approved ob" by auto
  from ensureSigned_wf [OF postFund(7) w1(2,1)]
  have w2: "wfObjective P ob2" "sameObjective ob1 ob2" "myParticipantOf ob2 = Some me"
    "ob_funding ob2 = ob_funding ob1" "ob_fundingRequest ob2 = ob_fundingRequest ob1"
    "ob_approved ob2 = ob_approved ob1" "signedbyMe ob2 PostFundSetup (signingAddress me)" by auto
  have "signedbyMe ob2 PreFundSetup (signingAddress me)"
    using w1(3) w2(2) by (auto simp: signedbyMe_def sameObjective_def signersOf_def)
  moreover have "completed ob2 PreFundSetup"
    using wf_completed [OF w1(1), of PreFundSetup] wf_completed [OF w2(1), of PreFundSetup] postFund(4) w2(1,2)
    by (auto simp: wfObjective_def collected_def sameObjective_def)
  moreover have "fundingMilestone (ob_openingState ob2) (destination me) = Inr milestones"
    using postFund(5) w2(2) by (simp add: sameObjective_def)
  moreover have "fundingStage ob2 now milestones = None"
    using postFund(6) fundingStage_cong [OF w2(4,5)] by simp
  moreover have "filter (\<lambda>a. \<not> isSend a) acts = []"
    using ensureSigned_filter [OF postFund(7) w1(2)] ensureSigned_filter [OF postFund(3,2)] by simp
  ultimately show ?thesis
    using postFund(1,8) w1(4) w2(3,6,7) by (simp add: transitionObjective_def ensureSigned_done)
qed

text \<open>
  cranking is idempotent up to the deposit. After any crank that did not fail, cranking again at
  the same time leaves the objective exactly as it is and sends no state again; the only action it
  can repeat is the deposit, which it repeats as long as nobody reports it as submitted.
\<close>

theorem crank_again:
  assumes "wfObjective P start" and "df_reachable P key start ob"
    and "openChannelCranker P ob ev key = Inr (ob', acts)" and "ob_status ob' \<noteq> ObjectiveErrored"
  shows "openChannelCranker P ob' (ev\<lparr>ev_body := Crank\<rparr>) key =
    Inr (ob', filter (\<lambda>a. \<not> isSend a) acts)"
proof -
  from reachable_wf [OF assms(2,1)] have "wfObjective P ob" by simp
  from assms(3) this show ?thesis
  proof (cases rule: crank_cases)
    case (failed e)
    with assms(4) show ?thesis by simp
  next
    case (moved mid)
    from transition_again [OF moved(4,2)] show ?thesis
      by (simp add: openChannelCranker_def processEvent_def)
  qed
qed

section \<open>What is rejected, and what is not\<close>

text \<open>
  the machine whitelists states. A state other than the two setup states, or a signature by
  somebody outside the channel, puts the objective in its error state and changes nothing else.
\<close>

theorem unexpected_state_changes_nothing:
  assumes "hashState P s = Inr h"
    and "(h \<noteq> ssh_hash (ob_preFundSetup ob) \<and> h \<noteq> ssh_hash (ob_postFundSetup ob)) \<or>
      (\<exists>g \<in> set (signatures s). signer g \<notin> signingAddress ` set (participants (ob_openingState ob)))"
  shows "\<exists>e. openChannelCranker P ob \<lparr>ev_channelId = c, ev_now = now, ev_body = StatesReceived (s # ss)\<rparr>
      key = Inr (ob\<lparr>ob_status := ObjectiveErrored\<rparr>, [HandleError e])"
proof (cases "find (\<lambda>g. signer g \<notin> signingAddress ` set (participants (ob_openingState ob))) (signatures s)")
  case None
  then have "\<not> (\<exists>g \<in> set (signatures s). signer g \<notin> signingAddress ` set (participants (ob_openingState ob)))"
    by (auto simp: find_None_iff)
  with None assms show ?thesis
    by (simp add: openChannelCranker_def processEvent_def receiveStates_def failWith_def)
next
  case (Some g)
  with assms(1) show ?thesis
    by (simp add: openChannelCranker_def processEvent_def receiveStates_def failWith_def)
qed

lemma ensureSigned_status:
  "ensureSigned P step key me (ob\<lparr>ob_status := st\<rparr>, acts) =
   bindE (ensureSigned P step key me (ob, acts)) (\<lambda>(ob', acts'). Inr (ob'\<lparr>ob_status := st\<rparr>, acts'))"
proof -
  have "mergeInto step sigs (ob\<lparr>ob_status := st\<rparr>) = (mergeInto step sigs ob)\<lparr>ob_status := st\<rparr>" for sigs
    by (cases step) (simp_all add: mergeInto.simps)
  then show ?thesis
    by (cases "myParticipantOf ob") (simp_all add: ensureSigned_def signStateAction_def Let_def bindE_assoc)
qed

lemma transition_status:
  "transitionObjective P (ob\<lparr>ob_status := st\<rparr>) now key = transitionObjective P ob now key"
  by (auto simp: transitionObjective_def ensureSigned_status bindE_assoc bindE_def
      split: option.splits sum.splits prod.splits)

lemma processEvent_status:
  "processEvent P (ob\<lparr>ob_status := st\<rparr>) ev =
   bindE (processEvent P ob ev) (\<lambda>flow. Inr (case flow of Finished o1 acts \<Rightarrow> Finished o1 acts
     | Proceed o1 \<Rightarrow> Proceed (o1\<lparr>ob_status := st\<rparr>)))"
proof -
  have "mergeInto step sigs (ob\<lparr>ob_status := st\<rparr>) = (mergeInto step sigs ob)\<lparr>ob_status := st\<rparr>" for step sigs
    by (cases step) (simp_all add: mergeInto.simps)
  then have "receiveStates P (ob\<lparr>ob_status := st\<rparr>) ss =
      bindE (receiveStates P ob ss) (\<lambda>flow. Inr (case flow of Finished o1 acts \<Rightarrow> Finished o1 acts
        | Proceed o1 \<Rightarrow> Proceed (o1\<lparr>ob_status := st\<rparr>)))" for ss
    by (auto simp: receiveStates_def failWith_def bindE_def split: list.splits sum.splits option.splits)
  then show ?thesis
    by (auto simp: processEvent_def failWith_def split: open_channel_event_body.splits)
qed

text \<open>
  The status is an output only. No crank reads it, so an objective in its error state goes on
  exactly as if the error had not happened, and may still deposit and sign.
\<close>

theorem crank_ignores_status:
  "openChannelCranker P (ob\<lparr>ob_status := st\<rparr>) ev key = openChannelCranker P ob ev key"
  unfolding openChannelCranker_def processEvent_status bindE_assoc
  by (intro arg_cong [of _ _ "bindE (processEvent P ob ev)"] ext)
     (simp add: transition_status split: df_flow.split)

section \<open>A concrete opening\<close>

text \<open>Alice and Bob fund a channel with 3 and 2; the keys of the fixtures are their addresses.\<close>

definition sampleOpening :: state where
  "sampleOpening = state.truncate (sampleState 0 (sampleAllocation [(CHR ''a'', 3), (CHR ''b'', 2)]) [])"

definition sampleSignature :: "address \<Rightarrow> signature_entry" where
  "sampleSignature a = \<lparr>signature = ''sig'' @ a, signer = a\<rparr>"

definition sampleObjective :: "address list \<Rightarrow> open_channel_objective" where
  "sampleObjective as = projr (initialize samplePlatform sampleOpening
     (Some (map sampleSignature as)) 0 True)"

definition sampleEvent :: "open_channel_event_body \<Rightarrow> open_channel_event" where
  "sampleEvent b = \<lparr>ev_channelId = sampleDest CHR ''l'', ev_now = Some 100, ev_body = b\<rparr>"

definition sampleCrank ::
  "open_channel_objective \<Rightarrow> open_channel_event_body \<Rightarrow> open_channel_objective \<times> df_action list" where
  "sampleCrank ob b = projr (openChannelCranker samplePlatform ob (sampleEvent b) ''0xA'')"

text \<open>Alice's run: Bob's pre-fund signature is there, then the money, then Bob's post-fund signature.\<close>

definition sampleRun :: "open_channel_objective \<times> df_action list" where
  "sampleRun = sampleCrank (fst (sampleCrank (fst (sampleCrank (sampleObjective [''0xB'']) Crank))
     (FundingUpdated 5 True)))
     (StatesReceived [withSignatures (setupState sampleOpening PostFundSetup) [sampleSignature ''0xB'']])"

lemma sampleObjective_wf: "wfObjective samplePlatform (sampleObjective [''0xB''])"
proof -
  have "initialize samplePlatform sampleOpening (Some (map sampleSignature [''0xB''])) 0 True =
      Inr (sampleObjective [''0xB''])"
    by code_simp
  then show ?thesis
    by (rule initialize_wf)
       (simp_all add: sampleOpening_def sampleState_def sampleParticipants_def sampleSignature_def
         state.defs)
qed

lemma sampleCrank_reachable:
  assumes "isl (openChannelCranker samplePlatform ob (sampleEvent b) ''0xA'') = False"
    and "df_reachable samplePlatform ''0xA'' start ob"
  shows "openChannelCranker samplePlatform ob (sampleEvent b) ''0xA'' = Inr (sampleCrank ob b)"
    and "df_reachable samplePlatform ''0xA'' start (fst (sampleCrank ob b))"
proof -
  show 1: "openChannelCranker samplePlatform ob (sampleEvent b) ''0xA'' = Inr (sampleCrank ob b)"
    using assms(1) by (cases "openChannelCranker samplePlatform ob (sampleEvent b) ''0xA''")
       (simp_all add: sampleCrank_def)
  show "df_reachable samplePlatform ''0xA'' start (fst (sampleCrank ob b))"
    using df_reachable.crank [OF assms(2), of "sampleEvent b" "fst (sampleCrank ob b)" "snd (sampleCrank ob b)"] 1
    by simp
qed

lemma sample_steps:
  "isl (openChannelCranker samplePlatform (sampleObjective [''0xB'']) (sampleEvent Crank) ''0xA'') = False"
  "snd (sampleCrank (sampleObjective [''0xB'']) Crank) =
     [SendStates [withSignatures (setupState sampleOpening PreFundSetup) [sampleSignature ''0xA'']],
      DepositAction 3]"
  by code_simp+

definition sampleFunded :: open_channel_objective where
  "sampleFunded = fst (sampleCrank (fst (sampleCrank (sampleObjective [''0xB'']) Crank)) (FundingUpdated 5 True))"

lemma sample_chain:
  defines "ob0 \<equiv> sampleObjective [''0xB'']"
  shows "openChannelCranker samplePlatform ob0 (sampleEvent Crank) ''0xA'' = Inr (sampleCrank ob0 Crank)"
    and "df_reachable samplePlatform ''0xA'' ob0 (fst (sampleCrank ob0 Crank))"
    and "openChannelCranker samplePlatform (fst (sampleCrank ob0 Crank)) (sampleEvent (FundingUpdated 5 True))
      ''0xA'' = Inr (sampleCrank (fst (sampleCrank ob0 Crank)) (FundingUpdated 5 True))"
    and "df_reachable samplePlatform ''0xA'' ob0 sampleFunded"
    and "openChannelCranker samplePlatform sampleFunded (sampleEvent (StatesReceived
      [withSignatures (setupState sampleOpening PostFundSetup) [sampleSignature ''0xB'']])) ''0xA'' =
      Inr sampleRun"
proof -
  note st = sampleCrank_reachable [of _ _ ob0]
  show 1: "openChannelCranker samplePlatform ob0 (sampleEvent Crank) ''0xA'' = Inr (sampleCrank ob0 Crank)"
    and 2: "df_reachable samplePlatform ''0xA'' ob0 (fst (sampleCrank ob0 Crank))"
    using sample_steps(1) st [OF _ df_reachable.start] by (simp_all add: ob0_def)
  have 3: "isl (openChannelCranker samplePlatform (fst (sampleCrank ob0 Crank))
      (sampleEvent (FundingUpdated 5 True)) ''0xA'') = False"
    unfolding ob0_def by code_simp
  from st [OF 3 2] show
    "openChannelCranker samplePlatform (fst (sampleCrank ob0 Crank)) (sampleEvent (FundingUpdated 5 True))
      ''0xA'' = Inr (sampleCrank (fst (sampleCrank ob0 Crank)) (FundingUpdated 5 True))"
    and 4: "df_reachable samplePlatform ''0xA'' ob0 sampleFunded"
    by (simp_all add: sampleFunded_def ob0_def)
  have 5: "isl (openChannelCranker samplePlatform sampleFunded (sampleEvent (StatesReceived
      [withSignatures (setupState sampleOpening PostFundSetup) [sampleSignature ''0xB'']])) ''0xA'') = False"
    by code_simp
  from st(1) [OF 5 4] show
    "openChannelCranker samplePlatform sampleFunded (sampleEvent (StatesReceived
      [withSignatures (setupState sampleOpening PostFundSetup) [sampleSignature ''0xB'']])) ''0xA'' =
      Inr sampleRun"
    by (simp add: sampleRun_def sampleFunded_def ob0_def)
qed

theorem deposits_are_safe_witness:
  "DepositAction 3 \<in> set (snd (sampleCrank (sampleObjective [''0xB'']) Crank)) \<and>
   ob_approved (fst (sampleCrank (sampleObjective [''0xB'']) Crank))"
proof -
  have d: "DepositAction 3 \<in> set (snd (sampleCrank (sampleObjective [''0xB'']) Crank))"
    by (simp add: sample_steps)
  have "openChannelCranker samplePlatform (sampleObjective [''0xB'']) (sampleEvent Crank) ''0xA'' =
      Inr (fst (sampleCrank (sampleObjective [''0xB'']) Crank), snd (sampleCrank (sampleObjective [''0xB'']) Crank))"
    using sample_chain(1) by simp
  from deposits_are_safe [OF sampleObjective_wf df_reachable.start this d] d
  show ?thesis by (elim conjE) (intro conjI)
qed

theorem signs_only_setup_states_witness:
  "sentStates (snd (sampleCrank (fst (sampleCrank (sampleObjective [''0xB'']) Crank)) (FundingUpdated 5 True))) =
     [withSignatures (setupState sampleOpening PostFundSetup) [sampleSignature ''0xA'']] \<and>
   ob_approved sampleFunded"
proof -
  let ?r = "sampleCrank (fst (sampleCrank (sampleObjective [''0xB'']) Crank)) (FundingUpdated 5 True)"
  have s: "sentStates (snd ?r) =
      [withSignatures (setupState sampleOpening PostFundSetup) [sampleSignature ''0xA'']]"
    by code_simp
  then have m: "withSignatures (setupState sampleOpening PostFundSetup) [sampleSignature ''0xA''] \<in>
      set (sentStates (snd ?r))" by simp
  have "openChannelCranker samplePlatform (fst (sampleCrank (sampleObjective [''0xB'']) Crank))
      (sampleEvent (FundingUpdated 5 True)) ''0xA'' = Inr (fst ?r, snd ?r)"
    using sample_chain(3) by simp
  from signs_only_setup_states [OF sampleObjective_wf sample_chain(2) this m] s
  show ?thesis unfolding sampleFunded_def by (elim conjE) (intro conjI)
qed

theorem success_means_open_witness:
  "ob_status (fst sampleRun) = ObjectiveSuccess \<and> fullyFunded (fst sampleRun)"
proof -
  have s: "ob_status (fst sampleRun) = ObjectiveSuccess" by code_simp
  have "openChannelCranker samplePlatform sampleFunded (sampleEvent (StatesReceived
      [withSignatures (setupState sampleOpening PostFundSetup) [sampleSignature ''0xB'']])) ''0xA'' =
      Inr (fst sampleRun, snd sampleRun)"
    using sample_chain(5) by simp
  from success_means_open [OF sampleObjective_wf sample_chain(4) this s] s
  show ?thesis by (elim conjE) (intro conjI)
qed

theorem crank_again_witness:
  "openChannelCranker samplePlatform (fst (sampleCrank (sampleObjective [''0xB'']) Crank))
     ((sampleEvent Crank)\<lparr>ev_body := Crank\<rparr>) ''0xA'' =
   Inr (fst (sampleCrank (sampleObjective [''0xB'']) Crank), [DepositAction 3])"
proof -
  let ?r = "sampleCrank (sampleObjective [''0xB'']) Crank"
  have f: "filter (\<lambda>a. \<not> isSend a) (snd ?r) = [DepositAction 3]"
    by (simp add: sample_steps)
  have n: "ob_status (fst ?r) \<noteq> ObjectiveErrored" by code_simp
  have "openChannelCranker samplePlatform (sampleObjective [''0xB'']) (sampleEvent Crank) ''0xA'' =
      Inr (fst ?r, snd ?r)"
    using sample_chain(1) by simp
  from crank_again [OF sampleObjective_wf df_reachable.start this n] f show ?thesis by simp
qed

text \<open>Everything Bob sends and the money have arrived; Alice has signed nothing yet.\<close>

definition sampleArrived :: open_channel_objective where
  "sampleArrived = (sampleObjective [''0xB''])
     \<lparr>ob_funding := \<lparr>hi_amount = 5, hi_finalized = True\<rparr>,
      ob_postFundSetup := (ob_postFundSetup (sampleObjective [''0xB'']))
        \<lparr>ssh_signatures := [sampleSignature ''0xB'']\<rparr>\<rparr>"


theorem unexpected_state_changes_nothing_witness:
  "\<exists>e. openChannelCranker samplePlatform sampleArrived \<lparr>ev_channelId = ''c'', ev_now = None,
      ev_body = StatesReceived [withSignatures (setupState sampleOpening PreFundSetup) [sampleSignature ''0xM'']]\<rparr>
      ''0xA'' = Inr (sampleArrived\<lparr>ob_status := ObjectiveErrored\<rparr>, [HandleError e])"
proof (rule unexpected_state_changes_nothing)
  show "hashState samplePlatform (withSignatures (setupState sampleOpening PreFundSetup)
      [sampleSignature ''0xM'']) = Inr []" by code_simp
  show "([] \<noteq> ssh_hash (ob_preFundSetup sampleArrived) \<and> [] \<noteq> ssh_hash (ob_postFundSetup sampleArrived)) \<or>
      (\<exists>g \<in> set (signatures (withSignatures (setupState sampleOpening PreFundSetup) [sampleSignature ''0xM''])).
         signer g \<notin> signingAddress ` set (participants (ob_openingState sampleArrived)))"
    by code_simp
qed

text \<open>
  the signatures that come with the opening state are not checked against the participants, and
  completeness is a count. Alice deposits although Bob has signed nothing: the signature of an
  outsider on the opening state stands for his.
\<close>

theorem outsider_completes_prefund:
  "\<exists>ob acts ob'. initialize samplePlatform sampleOpening (Some [sampleSignature ''0xM'']) 0 True = Inr ob \<and>
     openChannelCranker samplePlatform ob (sampleEvent Crank) ''0xA'' = Inr (ob', acts) \<and>
     DepositAction 3 \<in> set acts \<and>
     ''0xM'' \<notin> signingAddress ` set (participants sampleOpening) \<and>
     ''0xB'' \<notin> signer ` set (ssh_signatures (ob_preFundSetup ob'))"
proof -
  let ?ob = "sampleObjective [''0xM'']"
  have "initialize samplePlatform sampleOpening (Some [sampleSignature ''0xM'']) 0 True = Inr ?ob"
    by code_simp
  moreover have "openChannelCranker samplePlatform ?ob (sampleEvent Crank) ''0xA'' =
      Inr (fst (sampleCrank ?ob Crank), snd (sampleCrank ?ob Crank))"
    by code_simp
  moreover have "DepositAction 3 \<in> set (snd (sampleCrank ?ob Crank))" by code_simp
  moreover have "''0xM'' \<notin> signingAddress ` set (participants sampleOpening)" by code_simp
  moreover have "''0xB'' \<notin> signer ` set (ssh_signatures (ob_preFundSetup (fst (sampleCrank ?ob Crank))))"
    by code_simp
  ultimately show ?thesis by (intro exI conjI)
qed

end
