(* ===== verification/Tables.thy ===== *)
theory Tables
  imports Prelude
begin

text \<open>
  Tables of the wallet's database and the queries its models run on them. The query builder and
  Postgres are not part of the repository; these are the few statements the models use, with their
  documented meaning: a table is the list of its rows, a unique key rejects a second row, an update
  changes the rows its condition selects, an upsert inserts or changes the one row with the key.
  Rows come back in the order of the table, which the code never relies on.
\<close>

definition selectFirst :: "('r \<Rightarrow> bool) \<Rightarrow> 'r list \<Rightarrow> 'r option" where
  "selectFirst P t = find P t"

definition patchWhere :: "('r \<Rightarrow> bool) \<Rightarrow> ('r \<Rightarrow> 'r) \<Rightarrow> 'r list \<Rightarrow> 'r list" where
  "patchWhere P f t = map (\<lambda>r. if P r then f r else r) t"

definition insertUnique :: "('r \<Rightarrow> 'k) \<Rightarrow> 'r \<Rightarrow> 'r list \<Rightarrow> 'r list result" where
  "insertUnique key r t = (if key r \<in> key ` set t then Inl UniqueViolationError else Inr (t @ [r]))"

definition insertOrIgnore :: "('r \<Rightarrow> 'k) \<Rightarrow> 'r \<Rightarrow> 'r list \<Rightarrow> 'r list" where
  "insertOrIgnore key r t = (if key r \<in> key ` set t then t else t @ [r])"

definition insertOrMerge :: "('r \<Rightarrow> 'k) \<Rightarrow> ('r \<Rightarrow> 'r) \<Rightarrow> 'r \<Rightarrow> 'r list \<Rightarrow> 'r list" where
  "insertOrMerge key merge r t =
     (if key r \<in> key ` set t then patchWhere (\<lambda>x. key x = key r) merge t else t @ [r])"

definition uniqueKey :: "('r \<Rightarrow> 'k) \<Rightarrow> 'r list \<Rightarrow> bool" where
  "uniqueKey key t \<longleftrightarrow> distinct (map key t)"

text \<open>The range of a Postgres \<open>integer\<close> column.\<close>

definition pgInteger :: "int \<Rightarrow> bool" where
  "pgInteger n \<longleftrightarrow> - 2147483648 \<le> n \<and> n \<le> 2147483647"

section \<open>Facts\<close>

lemma set_patchWhere: "set (patchWhere P f t) = (\<lambda>r. if P r then f r else r) ` set t"
  by (simp add: patchWhere_def)

lemma length_patchWhere [simp]: "length (patchWhere P f t) = length t"
  by (simp add: patchWhere_def)

lemma patchWhere_none: "(\<And>r. r \<in> set t \<Longrightarrow> \<not> P r) \<Longrightarrow> patchWhere P f t = t"
  by (simp add: patchWhere_def map_idI)

lemma insertUnique_eq: "insertUnique key r t = Inr t' \<longleftrightarrow> key r \<notin> key ` set t \<and> t' = t @ [r]"
  by (auto simp: insertUnique_def)

lemma uniqueKey_Nil [simp]: "uniqueKey key []"
  by (simp add: uniqueKey_def)

lemma uniqueKey_inj: "uniqueKey key t \<Longrightarrow> x \<in> set t \<Longrightarrow> y \<in> set t \<Longrightarrow> key x = key y \<Longrightarrow> x = y"
  by (auto simp: uniqueKey_def distinct_map inj_on_def)

lemma uniqueKey_insert: "insertUnique key r t = Inr t' \<Longrightarrow> uniqueKey key t \<Longrightarrow> uniqueKey key t'"
  by (auto simp: insertUnique_eq uniqueKey_def)

lemma uniqueKey_insertOrIgnore: "uniqueKey key t \<Longrightarrow> uniqueKey key (insertOrIgnore key r t)"
  by (auto simp: insertOrIgnore_def uniqueKey_def)

lemma selectFirst_unique:
  "uniqueKey key t \<Longrightarrow> r \<in> set t \<Longrightarrow> selectFirst (\<lambda>x. key x = key r) t = Some r"
  by (simp add: selectFirst_def uniqueKey_def find_unique_key)

lemma find_append: "find P (xs @ ys) = (case find P xs of None \<Rightarrow> find P ys | Some x \<Rightarrow> Some x)"
  by (induction xs) auto

lemma selectFirst_None: "selectFirst P t = None \<longleftrightarrow> (\<forall>r \<in> set t. \<not> P r)"
  by (auto simp: selectFirst_def find_None_iff)

lemma selectFirst_Some: "selectFirst P t = Some r \<Longrightarrow> r \<in> set t \<and> P r"
  unfolding selectFirst_def by (rule find_SomeD)

section \<open>Updates that keep the key\<close>

text \<open>
  Every update of the models finds rows by the primary key and leaves the key alone. A table and an
  update of that kind give the laws of a map: the updated row reads back updated, every other row
  reads back as it was, and the key stays unique.
\<close>

locale keyed_update =
  fixes key :: "'r \<Rightarrow> 'k" and upd :: "'a \<Rightarrow> 'r \<Rightarrow> 'r"
  assumes key_upd [simp]: "key (upd a r) = key r"
begin

lemma keys_patch [simp]: "map key (patchWhere (\<lambda>r. key r = k) (upd a) t) = map key t"
  by (simp add: patchWhere_def)

lemma unique_patch: "uniqueKey key t \<Longrightarrow> uniqueKey key (patchWhere (\<lambda>r. key r = k) (upd a) t)"
  by (simp add: uniqueKey_def)

lemma select_patch_same:
  "selectFirst (\<lambda>r. key r = k) (patchWhere (\<lambda>r. key r = k) (upd a) t) =
   map_option (upd a) (selectFirst (\<lambda>r. key r = k) t)"
  by (induction t) (simp_all add: selectFirst_def patchWhere_def)

lemma select_patch_other:
  "k' \<noteq> k \<Longrightarrow> selectFirst (\<lambda>r. key r = k') (patchWhere (\<lambda>r. key r = k) (upd a) t) =
   selectFirst (\<lambda>r. key r = k') t"
  by (induction t) (auto simp: selectFirst_def patchWhere_def)

lemma keys_set_patch [simp]: "key ` set (patchWhere (\<lambda>r. key r = k) (upd a) t) = key ` set t"
by (metis keys_patch list.set_map)

lemma unique_merge:
  "uniqueKey key t \<Longrightarrow> uniqueKey key (insertOrMerge key (upd a) r t)"
  using unique_patch [of t "key r" a] by (auto simp: insertOrMerge_def uniqueKey_def)

lemma select_merge_other:
  "k' \<noteq> key r \<Longrightarrow> selectFirst (\<lambda>x. key x = k') (insertOrMerge key (upd a) r t) =
   selectFirst (\<lambda>x. key x = k') t"
  using select_patch_other [of k' "key r" a t]
  by (auto simp: insertOrMerge_def selectFirst_def find_append split: option.splits)

lemma select_merge_same:
  "selectFirst (\<lambda>x. key x = key r) (insertOrMerge key (upd a) r t) =
   Some (case selectFirst (\<lambda>x. key x = key r) t of None \<Rightarrow> r | Some y \<Rightarrow> upd a y)"
proof (cases "selectFirst (\<lambda>x. key x = key r) t")
  case None
  then have "\<forall>x \<in> set t. key x \<noteq> key r" by (simp add: selectFirst_None)
  then have "key r \<notin> key ` set t" by (metis imageE)
  with None show ?thesis by (simp add: insertOrMerge_def selectFirst_def find_append)
next
  case (Some y)
  from selectFirst_Some [OF this] have "y \<in> set t" "key y = key r" by blast+
  then have "key r \<in> key ` set t" by (metis image_eqI)
  with Some select_patch_same [of "key r" a t] show ?thesis by (simp add: insertOrMerge_def)
qed

lemma merge_mem:
  "\<exists>x \<in> set (insertOrMerge key (upd a) r t). key x = key r \<and> (x = r \<or> (\<exists>y \<in> set t. x = upd a y))"
proof (cases "key r \<in> key ` set t")
  case True
  then obtain y where y: "y \<in> set t" "key y = key r" by (metis imageE)
  then have "upd a y \<in> set (patchWhere (\<lambda>x. key x = key r) (upd a) t)"
    unfolding set_patchWhere by (intro rev_image_eqI [of y]) simp_all
  moreover have "upd a y = r \<or> (\<exists>z \<in> set t. upd a y = upd a z)" using y(1) by blast
  moreover have "key (upd a y) = key r" by (simp add: y(2))
  ultimately show ?thesis unfolding insertOrMerge_def if_P [OF True] by blast
qed (simp add: insertOrMerge_def)

lemma patch_inv:
  assumes "\<And>r. r \<in> set t \<Longrightarrow> Q r" and "\<And>r. Q r \<Longrightarrow> key r = k \<Longrightarrow> Q (upd a r)"
  shows "\<forall>r \<in> set (patchWhere (\<lambda>r. key r = k) (upd a) t). Q r"
  using assms by (auto simp: set_patchWhere)

end

end
