(* ===== verification/Database.thy ===== *)
theory Database
  imports Tables ChannelStates
begin

text \<open>
  The tables of the server wallet and the models of \<open>packages/server-wallet/src/models\<close> that read
  and write them. A row is a record with the columns of its table; the constraints of the migrations
  under \<open>src/db/migrations\<close> that concern keys, references and integer ranges are part of the
  operations, those on the format of hex strings are not. An operation that runs in a transaction
  returns the new database or throws; throwing leaves the database as it was.
\<close>

section \<open>Tables\<close>

record nonce_row =
  n_addresses :: "address list"
  n_value :: int

record app_bytecode_row =
  ab_chainId :: string
  ab_appDefinition :: address
  ab_appBytecode :: string

datatype objective_status = PendingObjective | ApprovedObjective | RejectedObjective
  | FailedObjective | SucceededObjective

text \<open>
  The strings of \<open>waitingFor\<close>, one constructor for each member of the enumerations that
  \<open>objective-manager.ts\<close> unites.
\<close>

datatype waiting_for =
    NothingToWaitFor
  | WaitingApproval
  | OpenerTheirPreFundSetup
  | OpenerFunding
  | OpenerTheirPostFundState
  | CloserAllAllocationItemsExternal
  | CloserTheirFinalState
  | CloserDefunding
  | DefunderTransactionSubmission
  | ChallengeExistingRequest
  | ChallengeExistingChallenge

text \<open>
  A row of \<open>objectives\<close>, which is also what \<open>toObjective\<close> makes of it: the participants are not a
  column and come back empty.
\<close>

record wallet_objective =
  o_objectiveId :: string
  o_status :: objective_status
  o_objective :: objective
  o_waitingFor :: waiting_for
  o_createdAt :: int
  o_progressLastMadeAt :: int

record db =
  db_signingWallets :: "signing_wallet list"
  db_channels :: "channel list"
  db_nonces :: "nonce_row list"
  db_funding :: "funding_row list"
  db_adjudicatorStatus :: "adjudicator_row list"
  db_chainServiceRequests :: "chain_service_request list"
  db_objectives :: "wallet_objective list"
  db_objectivesChannels :: "(string \<times> bytes32) list"
  db_ledgerRequests :: "ledger_request list"
  db_appBytecode :: "app_bytecode_row list"
  db_bytecodeCache :: "(address \<times> string) list"

text \<open>
  A row of \<open>channels\<close> in the table has no related rows; a query fetches them. The last field is not a
  table but the only state the store keeps in memory, its cache of bytecodes.
\<close>

definition emptyDb :: db where
  "emptyDb = \<lparr>db_signingWallets = [], db_channels = [], db_nonces = [], db_funding = [],
     db_adjudicatorStatus = [], db_chainServiceRequests = [], db_objectives = [],
     db_objectivesChannels = [], db_ledgerRequests = [], db_appBytecode = [],
     db_bytecodeCache = []\<rparr>"

definition hasChannel :: "db \<Rightarrow> bytes32 \<Rightarrow> bool" where
  "hasChannel d cid \<longleftrightarrow> cid \<in> ch_channelId ` set (db_channels d)"

definition referencesChannel :: "db \<Rightarrow> bytes32 \<Rightarrow> unit result" where
  "referencesChannel d cid = guardE (hasChannel d cid) ForeignKeyViolationError"

section \<open>\<open>models/funding.ts\<close>\<close>

definition fundingKey :: "funding_row \<Rightarrow> bytes32 \<times> address" where
  "fundingKey f = (f_channelId f, f_asset f)"

definition setAmount :: "uint256 \<Rightarrow> funding_row \<Rightarrow> funding_row" where
  "setAmount n f = f\<lparr>f_amount := n\<rparr>"

definition addTransferred :: "(bytes32 \<times> uint256) list \<Rightarrow> funding_row \<Rightarrow> funding_row" where
  "addTransferred ts f = f\<lparr>f_transferredOut := f_transferredOut f @ ts\<rparr>"

definition findFunding :: "db \<Rightarrow> bytes32 \<Rightarrow> address \<Rightarrow> funding_row option" where
  "findFunding d cid a = selectFirst (\<lambda>f. fundingKey f = (cid, a)) (db_funding d)"

definition getFundingAmount :: "db \<Rightarrow> bytes32 \<Rightarrow> address \<Rightarrow> uint256" where
  "getFundingAmount d cid a = (case findFunding d cid a of None \<Rightarrow> 0 | Some f \<Rightarrow> f_amount f)"

definition updateFunding :: "bytes32 \<Rightarrow> uint256 \<Rightarrow> address \<Rightarrow> db \<Rightarrow> db result" where
  "updateFunding cid n a d =
     (case findFunding d cid a of
        None \<Rightarrow>
          bindE (referencesChannel d cid) (\<lambda>_.
          bindE (insertUnique fundingKey
            \<lparr>f_channelId = cid, f_asset = a, f_amount = n, f_transferredOut = []\<rparr> (db_funding d)) (\<lambda>t.
            Inr (d\<lparr>db_funding := t\<rparr>)))
      | Some _ \<Rightarrow>
          Inr (d\<lparr>db_funding := patchWhere (\<lambda>f. fundingKey f = (cid, a)) (setAmount n) (db_funding d)\<rparr>))"

definition updateTransferredOut ::
  "bytes32 \<Rightarrow> address \<Rightarrow> (bytes32 \<times> uint256) list \<Rightarrow> db \<Rightarrow> db result" where
  "updateTransferredOut cid a ts d =
     (case findFunding d cid a of
        None \<Rightarrow> Inl (Error ''Expected for funding row to exists with channelId'')
      | Some _ \<Rightarrow>
          Inr (d\<lparr>db_funding := patchWhere (\<lambda>f. fundingKey f = (cid, a)) (addTransferred ts)
                                (db_funding d)\<rparr>))"

section \<open>\<open>models/adjudicator-status.ts\<close>\<close>

definition findAdjudicatorStatus :: "db \<Rightarrow> bytes32 \<Rightarrow> adjudicator_row option" where
  "findAdjudicatorStatus d cid = selectFirst (\<lambda>r. as_channelId r = cid) (db_adjudicatorStatus d)"

definition getAdjudicatorStatus :: "db \<Rightarrow> bytes32 \<Rightarrow> adjudicator_status" where
  "getAdjudicatorStatus d cid = convertResult (findAdjudicatorStatus d cid)"

definition setBlock :: "int \<times> int \<Rightarrow> adjudicator_row \<Rightarrow> adjudicator_row" where
  "setBlock b r = r\<lparr>as_blockNumber := fst b, as_blockTimestamp := snd b\<rparr>"

definition insertAdjudicatorRow :: "adjudicator_row \<Rightarrow> db \<Rightarrow> db result" where
  "insertAdjudicatorRow r d =
     bindE (referencesChannel d (as_channelId r)) (\<lambda>_.
     bindE (insertUnique as_channelId r (db_adjudicatorStatus d)) (\<lambda>t.
       Inr (d\<lparr>db_adjudicatorStatus := t\<rparr>)))"

text \<open>An existing row keeps its \<open>finalizesAt\<close>: only the block is patched.\<close>

definition setFinalized ::
  "bytes32 \<Rightarrow> int \<Rightarrow> int \<Rightarrow> int \<Rightarrow> db \<Rightarrow> (adjudicator_status \<times> db) result" where
  "setFinalized cid blockNumber blockTimestamp finalizesAt d =
     bindE (case findAdjudicatorStatus d cid of
              Some _ \<Rightarrow> Inr d
            | None \<Rightarrow> insertAdjudicatorRow
                \<lparr>as_channelId = cid, as_finalizesAt = finalizesAt, as_blockNumber = blockNumber,
                 as_blockTimestamp = blockTimestamp, as_states = None\<rparr> d) (\<lambda>d1.
       let d2 = d1\<lparr>db_adjudicatorStatus := patchWhere (\<lambda>r. as_channelId r = cid)
                    (setBlock (blockNumber, blockTimestamp)) (db_adjudicatorStatus d1)\<rparr>
       in Inr (getAdjudicatorStatus d2 cid, d2))"

definition insertAdjudicatorStatus ::
  "bytes32 \<Rightarrow> int \<Rightarrow> signed_state list \<Rightarrow> db \<Rightarrow> (adjudicator_status \<times> db) result" where
  "insertAdjudicatorStatus cid finalizesAt states d =
     (let r = \<lparr>as_channelId = cid, as_finalizesAt = finalizesAt, as_blockNumber = 0,
               as_blockTimestamp = 0, as_states = Some states\<rparr>
      in bindE (insertAdjudicatorRow r d) (\<lambda>d1. Inr (convertResult (Some r), d1)))"

section \<open>\<open>models/nonce.ts\<close>\<close>

definition setValue :: "int \<Rightarrow> nonce_row \<Rightarrow> nonce_row" where
  "setValue v r = r\<lparr>n_value := v\<rparr>"

definition findNonce :: "db \<Rightarrow> address list \<Rightarrow> nonce_row option" where
  "findNonce d as = selectFirst (\<lambda>r. n_addresses r = as) (db_nonces d)"

definition putNonce :: "address list \<Rightarrow> int \<Rightarrow> db \<Rightarrow> db result" where
  "putNonce as v d =
     bindE (guardE (pgInteger v) OutOfRangeError) (\<lambda>_.
       Inr (d\<lparr>db_nonces := insertOrMerge n_addresses (setValue v)
                             \<lparr>n_addresses = as, n_value = v\<rparr> (db_nonces d)\<rparr>))"

text \<open>The value of a new row is the column's default, 0.\<close>

definition nextNonce :: "address list \<Rightarrow> db \<Rightarrow> (int \<times> db) result" where
  "nextNonce as d =
     bindE (guardE (list_all (matchesBytes 40) as) CheckViolationError) (\<lambda>_.
       let v = (case findNonce d as of None \<Rightarrow> 0 | Some r \<Rightarrow> n_value r + 1)
       in bindE (putNonce as v d) (\<lambda>d1. Inr (v, d1)))"

text \<open>
  \<open>ensureLatest\<close> with \<open>$beforeValidate\<close> and \<open>use\<close>: the larger of the two values stays. The offending
  address is tested for truth, so an empty string is left to the constraint of the table.
\<close>

definition ensureLatest :: "ethers \<Rightarrow> int \<Rightarrow> address list \<Rightarrow> db \<Rightarrow> db result" where
  "ensureLatest eth v as d =
     bindE (guardE (case find (\<lambda>a. \<not> isAddress eth a) as of None \<Rightarrow> True | Some a \<Rightarrow> a = [])
              (NonceError ''Not an address'')) (\<lambda>_.
     bindE (guardE (list_all (matchesBytes 40) as) CheckViolationError) (\<lambda>_.
     bindE (guardE (pgInteger v) OutOfRangeError) (\<lambda>_.
       putNonce as (case findNonce d as of None \<Rightarrow> v | Some r \<Rightarrow> max v (n_value r)) d)))"

section \<open>\<open>models/app-bytecode.ts\<close>\<close>

definition bytecodeKey :: "app_bytecode_row \<Rightarrow> string \<times> address" where
  "bytecodeKey r = (ab_chainId r, ab_appDefinition r)"

definition setBytecode :: "string \<Rightarrow> app_bytecode_row \<Rightarrow> app_bytecode_row" where
  "setBytecode b r = r\<lparr>ab_appBytecode := b\<rparr>"

definition upsertBytecode :: "string \<Rightarrow> address \<Rightarrow> string \<Rightarrow> db \<Rightarrow> db" where
  "upsertBytecode cid app b d =
     d\<lparr>db_appBytecode := insertOrMerge bytecodeKey (setBytecode b)
         \<lparr>ab_chainId = cid, ab_appDefinition = app, ab_appBytecode = b\<rparr> (db_appBytecode d)\<rparr>"

definition getBytecode :: "db \<Rightarrow> string \<Rightarrow> address \<Rightarrow> string option" where
  "getBytecode d cid app = map_option ab_appBytecode
     (selectFirst (\<lambda>r. bytecodeKey r = (cid, app)) (db_appBytecode d))"

section \<open>\<open>models/chain-service-request.ts\<close>\<close>

definition requestTimeout :: int where
  "requestTimeout = 10 * 60 * 1000"

definition chainRequestKey :: "chain_service_request \<Rightarrow> bytes32 \<times> chain_request" where
  "chainRequestKey r = (csr_channelId r, csr_request r)"

definition retryRequest :: "int \<Rightarrow> chain_service_request \<Rightarrow> chain_service_request" where
  "retryRequest now r = r\<lparr>csr_timestamp := now, csr_attempts := csr_attempts r + 1\<rparr>"

definition findChainRequest :: "db \<Rightarrow> bytes32 \<Rightarrow> chain_request \<Rightarrow> chain_service_request option" where
  "findChainRequest d cid q = selectFirst (\<lambda>r. chainRequestKey r = (cid, q)) (db_chainServiceRequests d)"

definition insertOrUpdate :: "int \<Rightarrow> bytes32 \<Rightarrow> chain_request \<Rightarrow> db \<Rightarrow> db result" where
  "insertOrUpdate now cid q d =
     bindE (referencesChannel d cid) (\<lambda>_.
       Inr (d\<lparr>db_chainServiceRequests := insertOrMerge chainRequestKey (retryRequest now)
                \<lparr>csr_channelId = cid, csr_request = q, csr_timestamp = now, csr_attempts = 1\<rparr>
                (db_chainServiceRequests d)\<rparr>))"

definition isValidRequest :: "int \<Rightarrow> chain_service_request \<Rightarrow> bool" where
  "isValidRequest now r \<longleftrightarrow> csr_attempts r \<ge> 2 \<or> now - csr_timestamp r < requestTimeout"

section \<open>\<open>models/ledger-request.ts\<close>\<close>

definition requestKey :: "ledger_request \<Rightarrow> bytes32 \<times> request_type" where
  "requestKey r = (channelToBeFunded r, req_type r)"

definition patchStatus :: "request_status \<Rightarrow> ledger_request \<Rightarrow> ledger_request" where
  "patchStatus st r = r\<lparr>req_status := st\<rparr>"

definition getRequest :: "db \<Rightarrow> bytes32 \<Rightarrow> request_type \<Rightarrow> ledger_request option" where
  "getRequest d cid ty = selectFirst (\<lambda>r. requestKey r = (cid, ty)) (db_ledgerRequests d)"

text \<open>A \<open>lastSeenAgreedState\<close> of 0 is falsy and stored as null.\<close>

definition setRequestRow :: "ledger_request \<Rightarrow> db \<Rightarrow> db result" where
  "setRequestRow r d =
     bindE (referencesChannel d (ledgerChannelId r)) (\<lambda>_.
     bindE (referencesChannel d (channelToBeFunded r)) (\<lambda>_.
     bindE (insertUnique requestKey
       (r\<lparr>lastSeenAgreedState := (if lastSeenAgreedState r = Some 0 then None else lastSeenAgreedState r)\<rparr>)
       (db_ledgerRequests d)) (\<lambda>t. Inr (d\<lparr>db_ledgerRequests := t\<rparr>))))"

definition setRequestStatus :: "bytes32 \<Rightarrow> request_type \<Rightarrow> request_status \<Rightarrow> db \<Rightarrow> db" where
  "setRequestStatus cid ty st d =
     d\<lparr>db_ledgerRequests := patchWhere (\<lambda>r. requestKey r = (cid, ty)) (patchStatus st) (db_ledgerRequests d)\<rparr>"

definition markAsFailed :: "ledger_request \<Rightarrow> db \<Rightarrow> db" where
  "markAsFailed r = setRequestStatus (channelToBeFunded r) (req_type r) Failed"

definition markLedgerRequests :: "bytes32 list \<Rightarrow> request_type \<Rightarrow> request_status \<Rightarrow> db \<Rightarrow> db" where
  "markLedgerRequests cids ty st = fold (\<lambda>cid. setRequestStatus cid ty st) cids"

definition markLedgerRequestsSuccessful :: "bytes32 list \<Rightarrow> request_type \<Rightarrow> db \<Rightarrow> db" where
  "markLedgerRequestsSuccessful cids ty = markLedgerRequests cids ty Succeeded"

definition getActiveRequests :: "db \<Rightarrow> bytes32 \<Rightarrow> ledger_request list" where
  "getActiveRequests d ledger =
     filter (\<lambda>r. ledgerChannelId r = ledger \<and> req_status r = Pending \<or>
                 ledgerChannelId r = ledger \<and> req_status r = Queued) (db_ledgerRequests d)"

definition ledgersWithNewRequestsIds :: "db \<Rightarrow> bytes32 list" where
  "ledgersWithNewRequestsIds d =
     map ledgerChannelId (filter (\<lambda>r. lastSeenAgreedState r = None) (db_ledgerRequests d))"

text \<open>\<open>update\<close> writes every column of the object to the row with its key.\<close>

definition overwrite :: "ledger_request \<Rightarrow> ledger_request \<Rightarrow> ledger_request" where
  "overwrite new old = (if requestKey old = requestKey new then new else old)"

definition saveRequest :: "ledger_request \<Rightarrow> db \<Rightarrow> db" where
  "saveRequest r d = d\<lparr>db_ledgerRequests :=
     patchWhere (\<lambda>x. requestKey x = requestKey r) (overwrite r) (db_ledgerRequests d)\<rparr>"

definition saveAll :: "ledger_request list \<Rightarrow> db \<Rightarrow> db" where
  "saveAll rs = fold saveRequest rs"

definition newRequest ::
  "request_type \<Rightarrow> bytes32 \<Rightarrow> bytes32 \<Rightarrow> uint256 \<Rightarrow> uint256 \<Rightarrow> ledger_request" where
  "newRequest ty cid ledger a b =
     \<lparr>ledgerChannelId = ledger, channelToBeFunded = cid, req_status = Queued, amountA = a,
      amountB = b, lastSeenAgreedState = None, missedOpportunityCount = 0, req_type = ty\<rparr>"

definition requestLedgerFunding ::
  "bytes32 \<Rightarrow> bytes32 \<Rightarrow> uint256 \<Rightarrow> uint256 \<Rightarrow> db \<Rightarrow> db result" where
  "requestLedgerFunding cid ledger a b = setRequestRow (newRequest Fund cid ledger a b)"

definition requestLedgerDefunding ::
  "bytes32 \<Rightarrow> bytes32 \<Rightarrow> uint256 \<Rightarrow> uint256 \<Rightarrow> db \<Rightarrow> db result" where
  "requestLedgerDefunding cid ledger a b = setRequestRow (newRequest Defund cid ledger a b)"

section \<open>\<open>models/objective.ts\<close>\<close>

fun extractReferencedChannels :: "objective \<Rightarrow> bytes32 list" where
  "extractReferencedChannels (OpenChannel _ d) = [oc_targetChannelId d]"
| "extractReferencedChannels (CloseChannel _ d) = [cc_targetChannelId d]"
| "extractReferencedChannels (VirtuallyFund _ d) = [vf_targetChannelId d]"
| "extractReferencedChannels (SubmitChallenge _ c) = [c]"
| "extractReferencedChannels (DefundChannel _ c) = [c]"
| "extractReferencedChannels (FundGuarantor _ d) = [fg_guarantorId d]"
| "extractReferencedChannels (FundLedger _ c) = [c]"
| "extractReferencedChannels (CloseLedger _ c) = [c]"

definition isSupportedObjective :: "objective \<Rightarrow> bool" where
  "isSupportedObjective o' \<longleftrightarrow>
     typeOf o' \<in> {OpenChannelT, CloseChannelT, SubmitChallengeT, DefundChannelT}"

definition isSharedObjective :: "objective \<Rightarrow> bool" where
  "isSharedObjective o' \<longleftrightarrow> typeOf o' = OpenChannelT \<or> typeOf o' = CloseChannelT"

definition toWireObjective :: "objective \<Rightarrow> objective result" where
  "toWireObjective o' =
     (if typeOf o' = SubmitChallengeT \<or> typeOf o' = DefundChannelT
      then Inl (Error
        ''SubmitChallenge and DefundChannel objectives are not supported as wire objectives'')
      else Inr o')"

definition toObjective :: "wallet_objective \<Rightarrow> wallet_objective result" where
  "toObjective m =
     (if isSupportedObjective (o_objective m)
      then Inr (m\<lparr>o_objective := withParticipants [] (o_objective m)\<rparr>)
      else Inl (Error ''unsupported''))"

text \<open>The columns a merge overrides: those that were given.\<close>

definition overrideObjective ::
  "objective_status option \<times> waiting_for option \<Rightarrow> wallet_objective \<Rightarrow> wallet_objective" where
  "overrideObjective ov m =
     m\<lparr>o_status := (case fst ov of None \<Rightarrow> o_status m | Some s \<Rightarrow> s),
       o_waitingFor := (case snd ov of None \<Rightarrow> o_waitingFor m | Some w \<Rightarrow> w)\<rparr>"

definition findObjective :: "db \<Rightarrow> string \<Rightarrow> wallet_objective option" where
  "findObjective d oid = selectFirst (\<lambda>m. o_objectiveId m = oid) (db_objectives d)"

text \<open>
  The value that comes back from an insert that ignores a conflict is up to the query builder; the
  parameter \<open>ignored\<close> chooses it from the existing and the proposed row. The empty string is the
  falsy \<open>waitingFor\<close>, which \<open>_.pickBy\<close> drops.
\<close>

definition insertObjective ::
  "(wallet_objective \<Rightarrow> wallet_objective \<Rightarrow> wallet_objective) \<Rightarrow> int \<Rightarrow> objective \<Rightarrow>
   objective_status option \<Rightarrow> waiting_for option \<Rightarrow> db \<Rightarrow> (wallet_objective \<times> db) result"
where
  "insertObjective ignored now o' approvalStatus waitingFor d =
     (let oid = objectiveId o';
          row = \<lparr>o_objectiveId = oid,
                 o_status = (case approvalStatus of None \<Rightarrow> PendingObjective | Some s \<Rightarrow> s),
                 o_objective = withParticipants [] o',
                 o_waitingFor = (case waitingFor of None \<Rightarrow> WaitingApproval | Some w \<Rightarrow> w),
                 o_createdAt = now, o_progressLastMadeAt = now\<rparr>;
          override = (approvalStatus, if waitingFor = Some NothingToWaitFor then None else waitingFor);
          d1 = d\<lparr>db_objectives := insertOrMerge o_objectiveId (overrideObjective override) row
                   (db_objectives d)\<rparr>;
          model = (case findObjective d oid of
                     None \<Rightarrow> row
                   | Some old \<Rightarrow> if override = (None, None) then ignored old row
                                else overrideObjective override old)
      in bindE (mapE (referencesChannel d1) (extractReferencedChannels o')) (\<lambda>_.
         let d2 = d1\<lparr>db_objectivesChannels := fold (\<lambda>c. insertOrIgnore id (oid, c))
                      (extractReferencedChannels o') (db_objectivesChannels d1)\<rparr>
         in bindE (toObjective model) (\<lambda>m. Inr (m, d2))))"

definition objectiveForId :: "db \<Rightarrow> string \<Rightarrow> wallet_objective result" where
  "objectiveForId d oid =
     (case findObjective d oid of None \<Rightarrow> Inl TypeError | Some m \<Rightarrow> toObjective m)"

definition objectivesForIds :: "db \<Rightarrow> string list \<Rightarrow> wallet_objective list result" where
  "objectivesForIds d oids = mapE toObjective (filter (\<lambda>m. o_objectiveId m \<in> set oids) (db_objectives d))"

definition setObjectiveStatus :: "objective_status \<Rightarrow> wallet_objective \<Rightarrow> wallet_objective" where
  "setObjectiveStatus st m = m\<lparr>o_status := st\<rparr>"

definition setProgress :: "int \<times> waiting_for option \<Rightarrow> wallet_objective \<Rightarrow> wallet_objective" where
  "setProgress p m = m\<lparr>o_progressLastMadeAt := fst p,
     o_waitingFor := (case snd p of None \<Rightarrow> o_waitingFor m | Some w \<Rightarrow> w)\<rparr>"

text \<open>\<open>findById(id).patch(...).returning('*').first()\<close> followed by \<open>toObjective\<close>.\<close>

definition patchObjective ::
  "(wallet_objective \<Rightarrow> wallet_objective) \<Rightarrow> string \<Rightarrow> db \<Rightarrow> (wallet_objective \<times> db) result" where
  "patchObjective f oid d =
     (let d1 = d\<lparr>db_objectives := patchWhere (\<lambda>m. o_objectiveId m = oid) f (db_objectives d)\<rparr>
      in bindE (objectiveForId d1 oid) (\<lambda>m. Inr (m, d1)))"

definition approveRow :: "string \<Rightarrow> db \<Rightarrow> (wallet_objective \<times> db) result" where
  "approveRow = patchObjective (setObjectiveStatus ApprovedObjective)"

definition succeedRow :: "string \<Rightarrow> db \<Rightarrow> (wallet_objective \<times> db) result" where
  "succeedRow = patchObjective (setObjectiveStatus SucceededObjective)"

definition failRow :: "string \<Rightarrow> db \<Rightarrow> (wallet_objective \<times> db) result" where
  "failRow = patchObjective (setObjectiveStatus FailedObjective)"

definition updateProgressDate :: "int \<Rightarrow> string \<Rightarrow> db \<Rightarrow> (wallet_objective \<times> db) result" where
  "updateProgressDate now = patchObjective (setProgress (now, None))"

definition updateWaitingFor ::
  "int \<Rightarrow> string \<Rightarrow> waiting_for \<Rightarrow> db \<Rightarrow> (wallet_objective \<times> db) result" where
  "updateWaitingFor now oid w = patchObjective (setProgress (now, Some w)) oid"

definition forChannelIds :: "db \<Rightarrow> bytes32 list \<Rightarrow> wallet_objective list result" where
  "forChannelIds d cids =
     objectivesForIds d (map fst (filter (\<lambda>oc. snd oc \<in> set cids) (db_objectivesChannels d)))"

definition approvedObjectiveIds :: "db \<Rightarrow> bytes32 list \<Rightarrow> string list result" where
  "approvedObjectiveIds d cids =
     bindE (forChannelIds d cids) (\<lambda>ms.
       Inr (map o_objectiveId (filter (\<lambda>m. o_status m = ApprovedObjective) ms)))"

section \<open>\<open>models/signing-wallet.ts\<close>\<close>

text \<open>The table holds one row; a second insert violates one of its unique columns.\<close>

definition insertSigningWallet :: "platform \<Rightarrow> string \<Rightarrow> address \<Rightarrow> db \<Rightarrow> (signing_wallet \<times> db) result" where
  "insertSigningWallet P key a d =
     bindE (makeAddress (ethersLib P) a) (\<lambda>a'.
     bindE (makeAddress (ethersLib P) (walletAddress P key)) (\<lambda>fromPK.
     bindE (guardE (fromPK = a') (SigningWalletError ''Invalid address'')) (\<lambda>_.
     bindE (guardE (db_signingWallets d = []) UniqueViolationError) (\<lambda>_.
       let w = \<lparr>privateKey = key, wallet_address = a'\<rparr>
       in Inr (w, d\<lparr>db_signingWallets := [w]\<rparr>)))))"

definition walletFor :: "db \<Rightarrow> address list \<Rightarrow> signing_wallet option" where
  "walletFor d as = selectFirst (\<lambda>w. wallet_address w \<in> set as) (db_signingWallets d)"

section \<open>\<open>models/channel.ts\<close>: the table\<close>

definition findChannel :: "db \<Rightarrow> bytes32 \<Rightarrow> channel option" where
  "findChannel d cid = selectFirst (\<lambda>c. ch_channelId c = cid) (db_channels d)"

definition withFunding :: "db \<Rightarrow> channel \<Rightarrow> channel" where
  "withFunding d c =
     c\<lparr>ch_funding := Some (filter (\<lambda>f. f_channelId f = ch_channelId c) (db_funding d))\<rparr>"

definition withChainRequests :: "db \<Rightarrow> channel \<Rightarrow> channel" where
  "withChainRequests d c = c\<lparr>ch_chainServiceRequests :=
     Some (filter (\<lambda>r. csr_channelId r = ch_channelId c) (db_chainServiceRequests d))\<rparr>"

definition withAdjudicatorStatus :: "db \<Rightarrow> channel \<Rightarrow> channel" where
  "withAdjudicatorStatus d c =
     c\<lparr>ch_adjudicatorStatus := findAdjudicatorStatus d (ch_channelId c)\<rparr>"

text \<open>\<open>Channel.forId\<close>, and \<open>Store.getChannel\<close>, which fetches the same relations but the wallet.\<close>

definition channelForId :: "db \<Rightarrow> bytes32 \<Rightarrow> channel option" where
  "channelForId d cid =
     map_option (\<lambda>c. withAdjudicatorStatus d (withChainRequests d (withFunding d c))) (findChannel d cid)"

definition setVars :: "signed_vars list \<Rightarrow> channel \<Rightarrow> channel" where
  "setVars vs c = c\<lparr>ch_vars := vs\<rparr>"

definition setSupport :: "signed_state list \<Rightarrow> channel \<Rightarrow> channel" where
  "setSupport ss c = c\<lparr>ch_initialSupport := ss\<rparr>"

definition setIsLedger :: "bool \<Rightarrow> channel \<Rightarrow> channel" where
  "setIsLedger b c = c\<lparr>ch_isLedgerChannel := b\<rparr>"

text \<open>An undefined value in a patch leaves the column alone.\<close>

definition setFundingSource :: "funding_strategy \<times> bytes32 option \<Rightarrow> channel \<Rightarrow> channel" where
  "setFundingSource p c = c\<lparr>ch_fundingStrategy := fst p,
     ch_fundingLedgerChannelId :=
       (case snd p of None \<Rightarrow> ch_fundingLedgerChannelId c | Some l \<Rightarrow> Some l)\<rparr>"

definition patchChannel :: "(channel \<Rightarrow> channel) \<Rightarrow> bytes32 \<Rightarrow> db \<Rightarrow> db" where
  "patchChannel f cid d =
     d\<lparr>db_channels := patchWhere (\<lambda>c. ch_channelId c = cid) f (db_channels d)\<rparr>"

definition setInitialSupport :: "bytes32 \<Rightarrow> signed_state list \<Rightarrow> db \<Rightarrow> db" where
  "setInitialSupport cid ss = patchChannel (setSupport ss) cid"

definition setLedger :: "bytes32 \<Rightarrow> db \<Rightarrow> db" where
  "setLedger cid = patchChannel (setIsLedger True) cid"

definition isLedger :: "db \<Rightarrow> bytes32 \<Rightarrow> bool result" where
  "isLedger d cid = (case channelForId d cid of None \<Rightarrow> Inl TypeError | Some c \<Rightarrow> Inr (ch_isLedgerChannel c))"

definition getLedgerChannels :: "db \<Rightarrow> participant list \<Rightarrow> channel list" where
  "getLedgerChannels d ps = filter (\<lambda>c. ch_isLedgerChannel c \<and> participants c = ps) (db_channels d)"

text \<open>\<open>$beforeInsert\<close>: the identifier and the hash of every state must be the computed ones.\<close>

definition checkHash :: "platform \<Rightarrow> channel_constants \<Rightarrow> signed_vars \<Rightarrow> unit result" where
  "checkHash P cc v = bindE (toNitroState P (spreadVars cc v)) (\<lambda>n.
     guardE (v_stateHash v = hashNitroState P n) (ChannelError ''Incorrect hash''))"

definition insertChannel :: "platform \<Rightarrow> channel \<Rightarrow> db \<Rightarrow> db result" where
  "insertChannel P c d =
     bindE (guardE (ch_channelId c = calculateChannelId P c) (ChannelError ''Invalid channel id'')) (\<lambda>_.
     bindE (mapE (checkHash P (channelConstants c)) (ch_vars c)) (\<lambda>_.
     bindE (guardE (pgInteger (channelNonce c) \<and> pgInteger (challengeDuration c)) OutOfRangeError) (\<lambda>_.
     bindE (guardE (0 \<le> channelNonce c \<and> 0 \<le> challengeDuration c) CheckViolationError) (\<lambda>_.
     bindE (guardE (ch_signingAddress c \<in> wallet_address ` set (db_signingWallets d))
              ForeignKeyViolationError) (\<lambda>_.
     bindE (insertUnique ch_channelId
       (c\<lparr>ch_funding := None, ch_adjudicatorStatus := None, ch_chainServiceRequests := None\<rparr>)
       (db_channels d)) (\<lambda>t. Inr (d\<lparr>db_channels := t\<rparr>)))))))"

end
