(* ===== verification/Response.thy ===== *)
theory Response
  imports Database
begin

text \<open>
  \<open>packages/server-wallet/src/engine/engine-response.ts\<close>: the object that collects, during a call of
  the engine, the messages for the other participants, the results for the application and the
  requests for the chain, and the merging of the messages.
\<close>

section \<open>The response\<close>

text \<open>Requests for the chain service, \<open>chain-service/types.ts\<close>.\<close>

datatype chain_tx =
    FundChannelTx bytes32 address uint256 uint256
  | ConcludeAndWithdrawTx "signed_state_with_hash list"
  | WithdrawTx "signed_state option"
  | ChallengeTx "signed_state list" string

record engine_response =
  er_channelResults :: "(bytes32 \<times> channel_result) list"
  er_messages :: "wire_message list"
  er_createdObjectives :: "wallet_objective list"
  er_succeededObjectives :: "wallet_objective list"
  er_chainRequests :: "chain_tx list"

definition initResponse :: engine_response where
  "initResponse = \<lparr>er_channelResults = [], er_messages = [], er_createdObjectives = [],
     er_succeededObjectives = [], er_chainRequests = []\<rparr>"

definition queueChainRequest :: "chain_tx list \<Rightarrow> engine_response \<Rightarrow> engine_response" where
  "queueChainRequest txs r = r\<lparr>er_chainRequests := er_chainRequests r @ txs\<rparr>"

text \<open>Assigning to a key of an object: in place when it is there, else at the end.\<close>

fun assignKey :: "'k \<Rightarrow> 'v \<Rightarrow> ('k \<times> 'v) list \<Rightarrow> ('k \<times> 'v) list" where
  "assignKey k v [] = [(k, v)]"
| "assignKey k v ((k', v') # kvs) = (if k' = k then (k, v) # kvs else (k', v') # assignKey k v kvs)"

definition queueResultUnder :: "bytes32 \<Rightarrow> channel_result \<Rightarrow> engine_response \<Rightarrow> engine_response" where
  "queueResultUnder cid cr r = r\<lparr>er_channelResults := assignKey cid cr (er_channelResults r)\<rparr>"

definition queueChannel :: "platform \<Rightarrow> channel \<Rightarrow> engine_response \<Rightarrow> engine_response result" where
  "queueChannel P c r = bindE (channelResult P c) (\<lambda>cr. Inr (queueResultUnder (ch_channelId c) cr r))"

definition queueChannelResult :: "channel_result \<Rightarrow> engine_response \<Rightarrow> engine_response" where
  "queueChannelResult cr r = queueResultUnder (cr_channelId cr) cr r"

definition queueChannelState :: "channel_state \<Rightarrow> engine_response \<Rightarrow> engine_response result" where
  "queueChannelState cs r = bindE (toChannelResult cs) (\<lambda>cr. Inr (queueChannelResult cr r))"

text \<open>
  A message to every participant but the one at \<open>myIndex\<close>, who sends it. Reading \<open>participantId\<close> of
  an index outside the participants throws, and so does serialising an amount that is out of range.
\<close>

definition toOthers ::
  "participant list \<Rightarrow> int \<Rightarrow> (string \<Rightarrow> string \<Rightarrow> wire_message result) \<Rightarrow> wire_message list result" where
  "toOthers ps me msg =
     (if 0 \<le> me \<and> me < int (length ps)
      then mapE (\<lambda>i. msg (participantId (ps ! i)) (participantId (ps ! nat me)))
             (filter (\<lambda>i. int i \<noteq> me) [0..<length ps])
      else Inl TypeError)"

definition queueMessages :: "wire_message list result \<Rightarrow> engine_response \<Rightarrow> engine_response result" where
  "queueMessages ms r = bindE ms (\<lambda>ms'. Inr (r\<lparr>er_messages := er_messages r @ ms'\<rparr>))"

definition emptyPayload :: "string \<Rightarrow> payload" where
  "emptyPayload v = \<lparr>walletVersion = v, signedStates = None, objectives = None, requests = None\<rparr>"

definition queueState ::
  "platform \<Rightarrow> string \<Rightarrow> signed_state \<Rightarrow> int \<Rightarrow> bytes32 \<Rightarrow> engine_response \<Rightarrow> engine_response result" where
  "queueState P v s me cid =
     queueMessages (toOthers (participants s) me (\<lambda>to from'.
       serializeMessage P v ((emptyPayload v)\<lparr>signedStates := Some [s]\<rparr>) to (Some from') (Some cid)))"

definition queueSendObjective ::
  "platform \<Rightarrow> string \<Rightarrow> wallet_objective \<Rightarrow> int \<Rightarrow> participant list \<Rightarrow> engine_response \<Rightarrow>
   engine_response result" where
  "queueSendObjective P v o' me ps r =
     (if \<not> (0 \<le> me \<and> me < int (length ps)) then Inl TypeError
      else if isSharedObjective (o_objective o')
      then bindE (toWireObjective (o_objective o')) (\<lambda>w.
             queueMessages (toOthers ps me (\<lambda>to from'.
               serializeMessage P v ((emptyPayload v)\<lparr>objectives := Some [w]\<rparr>) to (Some from') None)) r)
      else Inr r)"

definition queueCreatedObjective ::
  "platform \<Rightarrow> string \<Rightarrow> wallet_objective \<Rightarrow> int \<Rightarrow> participant list \<Rightarrow> engine_response \<Rightarrow>
   engine_response result" where
  "queueCreatedObjective P v o' me ps r =
     queueSendObjective P v o' me ps (r\<lparr>er_createdObjectives := er_createdObjectives r @ [o']\<rparr>)"

definition queueSucceededObjective :: "wallet_objective \<Rightarrow> engine_response \<Rightarrow> engine_response" where
  "queueSucceededObjective o' r = r\<lparr>er_succeededObjectives := er_succeededObjectives r @ [o']\<rparr>"

definition queueChannelRequest ::
  "platform \<Rightarrow> string \<Rightarrow> bytes32 \<Rightarrow> int \<Rightarrow> participant list \<Rightarrow> engine_response \<Rightarrow> engine_response result"
where
  "queueChannelRequest P v cid me ps =
     queueMessages (toOthers ps me (\<lambda>to from'.
       serializeMessage P v ((emptyPayload v)\<lparr>requests := Some [GetChannel cid]\<rparr>) to (Some from')
         (Some cid)))"

section \<open>Merging messages\<close>

text \<open>\<open>_.orderBy\<close> is stable in both directions.\<close>

definition sortDescBy :: "('a \<Rightarrow> 'b :: linorder) \<Rightarrow> 'a list \<Rightarrow> 'a list" where
  "sortDescBy k xs = rev (sort_key k (rev xs))"

fun requestChannel :: "channel_request \<Rightarrow> bytes32" where
  "requestChannel (GetChannel cid) = cid"

definition uniqueStates :: "wire_state list \<Rightarrow> wire_state list" where
  "uniqueStates xs = sortDescBy ws_channelId (sort_key ws_turnNum (uniq xs))"

definition uniqueRequests :: "channel_request list \<Rightarrow> channel_request list" where
  "uniqueRequests xs = sortDescBy requestChannel (uniq xs)"

text \<open>An objective has neither of the two keys, so sorting leaves the order.\<close>

definition uniqueObjectives :: "objective list \<Rightarrow> objective list" where
  "uniqueObjectives xs = uniq xs"

definition orEmpty :: "'a list option \<Rightarrow> 'a list" where
  "orEmpty x = (case x of None \<Rightarrow> [] | Some xs \<Rightarrow> xs)"

definition nonEmpty :: "'a list \<Rightarrow> 'a list option" where
  "nonEmpty xs = (if xs = [] then None else Some xs)"

definition mergeGroup :: "string \<Rightarrow> string option \<Rightarrow> string \<times> wire_message list \<Rightarrow> wire_message" where
  "mergeGroup v from' g =
     \<lparr>recipient = fst g, sender = from',
      msg_data = \<lparr>wp_walletVersion = v,
        wp_signedStates = nonEmpty (uniqueStates
          (concat (map (\<lambda>m. orEmpty (wp_signedStates (msg_data m))) (snd g)))),
        wp_objectives = nonEmpty (uniqueObjectives
          (concat (map (\<lambda>m. orEmpty (wp_objectives (msg_data m))) (snd g)))),
        wp_requests = nonEmpty (uniqueRequests
          (concat (map (\<lambda>m. orEmpty (wp_requests (msg_data m))) (snd g))))\<rparr>\<rparr>"

text \<open>The groups come in the order in which their recipients first occur.\<close>

definition mergeOutgoing :: "string \<Rightarrow> wire_message list \<Rightarrow> wire_message list result" where
  "mergeOutgoing v ms =
     (if ms = [] then Inr []
      else if length (uniq (map sender ms)) \<noteq> 1
      then Inl (Error ''Trying to merge outgoing messages with multiple recipients'')
      else Inr (map (mergeGroup v (sender (hd ms))) (groupBy recipient ms)))"

function sortedUniqBy :: "('a \<Rightarrow> 'b) \<Rightarrow> 'a list \<Rightarrow> 'a list" where
  "sortedUniqBy k [] = []"
| "sortedUniqBy k (x # xs) = x # sortedUniqBy k (dropWhile (\<lambda>y. k y = k x) xs)"
  by pat_completeness auto

termination
  by (relation "measure (\<lambda>(k, xs). length xs)") (simp_all add: le_imp_less_Suc length_dropWhile_le)

definition mergeChannelResults :: "channel_result list \<Rightarrow> channel_result list" where
  "mergeChannelResults crs =
     sortedUniqBy cr_channelId (sortDescBy cr_channelId (sortDescBy cr_turnNum crs))"

section \<open>Outputs\<close>

record single_output =
  so_outbox :: "wire_message list"
  so_channelResult :: channel_result
  so_newObjective :: "wallet_objective option"
  so_chainRequests :: "chain_tx list"

record multiple_output =
  mo_outbox :: "wire_message list"
  mo_channelResults :: "channel_result list"
  mo_newObjectives :: "wallet_objective list"
  mo_completedObjectives :: "wallet_objective list"
  mo_chainRequests :: "chain_tx list"

definition channelResultsOf :: "engine_response \<Rightarrow> channel_result list" where
  "channelResultsOf r = map snd (er_channelResults r)"

definition allMessages :: "string \<Rightarrow> engine_response \<Rightarrow> wire_message list result" where
  "allMessages v r = mergeOutgoing v (er_messages r)"

definition outbox :: "string \<Rightarrow> engine_response \<Rightarrow> wire_message list result" where
  "outbox v r = bindE (allMessages v r) (mergeOutgoing v)"

definition multipleChannelOutput :: "string \<Rightarrow> engine_response \<Rightarrow> multiple_output result" where
  "multipleChannelOutput v r =
     bindE (outbox v r) (\<lambda>ms. bindE (mergeOutgoing v ms) (\<lambda>out.
       Inr \<lparr>mo_outbox = out, mo_channelResults = mergeChannelResults (channelResultsOf r),
            mo_newObjectives = er_createdObjectives r,
            mo_completedObjectives = er_succeededObjectives r,
            mo_chainRequests = er_chainRequests r\<rparr>))"

definition singleChannelOutput :: "string \<Rightarrow> bool \<Rightarrow> engine_response \<Rightarrow> single_output result" where
  "singleChannelOutput v strict r =
     (case channelResultsOf r of
        [] \<Rightarrow> Inl (Error ''Response: expected exactly one channelResult.'')
      | cr # crs \<Rightarrow>
          if strict \<and> crs \<noteq> [] then Inl (Error ''Response: expected exactly one channelResult.'')
          else bindE (outbox v r) (\<lambda>ms. bindE (mergeOutgoing v ms) (\<lambda>out.
            Inr \<lparr>so_outbox = out, so_channelResult = cr,
                 so_newObjective = (case er_createdObjectives r of [] \<Rightarrow> None | o' # _ \<Rightarrow> Some o'),
                 so_chainRequests = er_chainRequests r\<rparr>)))"

definition hasNewObjective :: "single_output \<Rightarrow> bool" where
  "hasNewObjective s \<longleftrightarrow> so_newObjective s \<noteq> None"

end
