(* ===== verification/Store.thy ===== *)
theory Store
  imports Response
begin

text \<open>
  The class \<open>Store\<close> of \<open>packages/server-wallet/src/engine/store.ts\<close>: the operations of the engine on
  the database. An operation that the source runs inside a transaction of its caller returns the
  new database or throws. Locks have no counterpart: operations run one after the other here.
\<close>

section \<open>What a store is created with\<close>

text \<open>
  The platform, the options of the store, the identifier of the chain as the store has it (in hex)
  and as the configuration has it, the version of the wallet, the clock (read once per
  operation) and what the query builder returns for an insert that it ignored.
\<close>

record store_env =
  se_platform :: platform
  se_skipEvm :: bool
  se_chainNetworkID :: string
  se_configChainID :: string
  se_version :: string
  se_now :: int
  se_ignored :: "wallet_objective \<Rightarrow> wallet_objective \<Rightarrow> wallet_objective"

abbreviation se_ethers :: "store_env \<Rightarrow> ethers" where
  "se_ethers E \<equiv> ethersLib (se_platform E)"

section \<open>Signing keys and bytecode\<close>

definition getOrCreateSigningAddress :: "store_env \<Rightarrow> string \<Rightarrow> db \<Rightarrow> (address \<times> db) result" where
  "getOrCreateSigningAddress E key d =
     bindE (makePrivateKey key) (\<lambda>k.
     bindE (makeAddress (se_ethers E) (walletAddress (se_platform E) key)) (\<lambda>a.
       case insertSigningWallet (se_platform E) k a d of
         Inr (w, d1) \<Rightarrow> Inr (wallet_address w, d1)
       | Inl e \<Rightarrow>
           if e = UniqueViolationError
           then (case db_signingWallets d of [] \<Rightarrow> Inl TypeError | w # _ \<Rightarrow> Inr (wallet_address w, d))
           else Inl e))"

text \<open>\<open>getBytecode\<close>: the cache first, then the table, whose answer is cached.\<close>

definition bytecodeFor :: "store_env \<Rightarrow> db \<Rightarrow> address \<Rightarrow> string option" where
  "bytecodeFor E d app =
     (case map_of (db_bytecodeCache d) app of
        Some b \<Rightarrow> Some b
      | None \<Rightarrow> getBytecode d (se_chainNetworkID E) app)"

definition cacheBytecode :: "store_env \<Rightarrow> address \<Rightarrow> db \<Rightarrow> db" where
  "cacheBytecode E app d =
     (case bytecodeFor E d app of
        None \<Rightarrow> d
      | Some b \<Rightarrow> d\<lparr>db_bytecodeCache := (app, b) # db_bytecodeCache d\<rparr>)"

definition registerAppBytecode :: "store_env \<Rightarrow> address \<Rightarrow> string \<Rightarrow> db \<Rightarrow> db result" where
  "registerAppBytecode E app b d =
     bindE (makeAddress (se_ethers E) app) (\<lambda>a. Inr (upsertBytecode (se_chainNetworkID E) a b d))"

section \<open>Reading channels\<close>

definition channelMissing :: error where
  "channelMissing = ChannelError ''No channel found with id''"

definition lockApp ::
  "bytes32 \<Rightarrow> (channel \<Rightarrow> db \<Rightarrow> 'a result) \<Rightarrow> error \<Rightarrow> db \<Rightarrow> 'a result" where
  "lockApp cid criticalCode onMissing d =
     (case findChannel d cid of None \<Rightarrow> Inl onMissing | Some c \<Rightarrow> criticalCode c d)"

definition getAndLockChannel :: "db \<Rightarrow> bytes32 \<Rightarrow> channel result" where
  "getAndLockChannel d cid =
     (case findChannel d cid of None \<Rightarrow> Inl channelMissing | Some c \<Rightarrow> Inr (withAdjudicatorStatus d c))"

definition getChannelState :: "store_env \<Rightarrow> db \<Rightarrow> bytes32 \<Rightarrow> channel_state result" where
  "getChannelState E d cid =
     (case channelForId d cid of
        None \<Rightarrow> Inl (Error ''Channel not found with id'')
      | Some c \<Rightarrow> protocolState (se_platform E) c)"

definition getStates ::
  "store_env \<Rightarrow> db \<Rightarrow> bytes32 \<Rightarrow> (signed_state_with_hash list \<times> channel_state) result" where
  "getStates E d cid =
     (case channelForId d cid of
        None \<Rightarrow> Inl (StoreError ''Channel not found'')
      | Some c \<Rightarrow> bindE (protocolState (se_platform E) c) (\<lambda>cs. Inr (signedStates' c, cs)))"

definition getChannels :: "store_env \<Rightarrow> db \<Rightarrow> channel_state list result" where
  "getChannels E d = mapE (protocolState (se_platform E)) (db_channels d)"

text \<open>The query does not fetch the relation, so the filter keeps every channel.\<close>

definition getNonFinalizedChannels :: "store_env \<Rightarrow> db \<Rightarrow> channel_state list result" where
  "getNonFinalizedChannels E d =
     mapE (protocolState (se_platform E))
       (filter (\<lambda>c. modeOf (convertResult (ch_adjudicatorStatus c)) = OpenMode) (db_channels d))"

definition getLedgerChannelStates :: "store_env \<Rightarrow> db \<Rightarrow> participant list \<Rightarrow> channel_state list result" where
  "getLedgerChannelStates E d ps = mapE (protocolState (se_platform E)) (getLedgerChannels d ps)"

section \<open>Signing and adding states\<close>

text \<open>The bytecode is looked up only when a transition is going to be checked.\<close>

definition consultBytecode :: "store_env \<Rightarrow> channel \<Rightarrow> signed_state_with_hash \<Rightarrow> db \<Rightarrow> db" where
  "consultBytecode E c s d =
     (case supported (se_platform E) c of
        None \<Rightarrow> d
      | Some sup' \<Rightarrow>
          if shouldValidateTransition (se_platform E) s c then cacheBytecode E (appDefinition sup') d
          else d)"

text \<open>
  The channel object is updated in memory as well, with whatever relations it carries; the caller
  goes on with it.
\<close>

definition storeSignState ::
  "store_env \<Rightarrow> channel \<Rightarrow> state_variables \<Rightarrow> db \<Rightarrow> (channel \<times> signed_state_with_hash \<times> db) result"
where
  "storeSignState E c v d =
     bindE (signStateOn (se_platform E) (se_skipEvm E) (bytecodeFor E d)
              (walletFor d [ch_signingAddress c]) c v) (\<lambda>(c', s).
       Inr (c', s, patchChannel (setVars (ch_vars c')) (ch_channelId c) (consultBytecode E c s d)))"

definition fastDeserializeState :: "platform \<Rightarrow> wire_state \<Rightarrow> signed_state result" where
  "fastDeserializeState P s =
     bindE (wireStateToNitroState P s) (\<lambda>n.
     bindE (mapE (\<lambda>sig. bindE (recoverAddress P n sig) (\<lambda>a.
              if a \<notin> set (nc_participants (ns_channel n))
              then Inl (Error ''Recovered address is not a participant in channel'')
              else Inr \<lparr>signature = sig, signer = a\<rparr>)) (ws_signatures s)) (\<lambda>sigs.
     bindE (makeAddress (ethersLib P) (appDefinition s)) (\<lambda>app.
     bindE (deserializeOutcome (ethersLib P) (ws_outcome s)) (\<lambda>o'.
     bindE (mapE (convertToInternalParticipant (ethersLib P)) (participants s)) (\<lambda>ps.
       Inr \<lparr>chainId = chainId s, participants = ps, channelNonce = channelNonce s,
            appDefinition = app, challengeDuration = challengeDuration s, outcome = o',
            turnNum = ws_turnNum s, appData = ws_appData s, isFinal = ws_isFinal s,
            signatures = sigs\<rparr>)))))"

definition createChannelRow ::
  "store_env \<Rightarrow> 'a channel_constants_scheme \<Rightarrow> funding_strategy \<Rightarrow> bytes32 option \<Rightarrow> db \<Rightarrow>
   (channel \<times> db) result"
where
  "createChannelRow E cc strategy ledgerId d =
     (let P = se_platform E; addresses = map signingAddress (participants cc) in
      bindE (case ledgerId of
               None \<Rightarrow> Inr ()
             | Some l \<Rightarrow>
                 if l = [] then Inr ()
                 else (case channelForId d l of
                         None \<Rightarrow> Inl (StoreError
                           ''Ledger channel intended to fund channel does not exist'')
                       | Some ledger \<Rightarrow>
                           guardE (\<not> (isSupported P ledger \<and> list_ex isFinal (support P ledger)))
                             (StoreError
                               ''Ledger channel intended to fund channel is closed or closing''))) (\<lambda>_.
      case walletFor d addresses of
        None \<Rightarrow> Inl (StoreError ''Not in channel'')
      | Some w \<Rightarrow>
          bindE (ensureLatest (se_ethers E) (channelNonce cc) addresses d) (\<lambda>d1.
            let c = channel_constants.extend (channel_constants.truncate cc)
                      (channel.fields (calculateChannelId P cc) [] (wallet_address w) strategy False
                         ledgerId [] None None None)
            in bindE (insertChannel P c d1) (\<lambda>d2. Inr (c, d2)))))"

text \<open>The row that comes back from the update has no relations.\<close>

definition addSignedState ::
  "store_env \<Rightarrow> bytes32 \<Rightarrow> wire_state \<Rightarrow> db \<Rightarrow> (channel \<times> db) result" where
  "addSignedState E cid ws d =
     (let P = se_platform E in
      bindE (fastDeserializeState P ws) (\<lambda>st.
      bindE (guardE (numBN P (chainId st) = numBN P (se_chainNetworkID E))
               (Error ''This channel can only be concluded on a chain with id'')) (\<lambda>_.
      bindE (addHash P st) (\<lambda>s.
      bindE (case channelForId d cid of
               Some c \<Rightarrow> Inr (c, d)
             | None \<Rightarrow> createChannelRow E s UnknownStrategy None d) (\<lambda>(c, d1).
      bindE (addSignedStateOn P (se_skipEvm E) (bytecodeFor E d1) c s) (\<lambda>c'.
        let d2 = patchChannel (setVars (ch_vars c')) (ch_channelId c) (consultBytecode E c s d1)
        in case findChannel d2 (ch_channelId c) of
             None \<Rightarrow> Inl TypeError
           | Some row \<Rightarrow> Inr (row, d2)))))))"

section \<open>Messages and channels\<close>

definition storeIncomingState ::
  "store_env \<Rightarrow> channel_result list \<times> db \<Rightarrow> wire_state \<Rightarrow> (channel_result list \<times> db) result" where
  "storeIncomingState E crs_d ws =
     bindE (addSignedState E (ws_channelId ws) ws (snd crs_d)) (\<lambda>(c, d1).
     bindE (channelResult (se_platform E) c) (\<lambda>cr. Inr (fst crs_d @ [cr], d1)))"

text \<open>Only a \<open>CloseChannel\<close> needs no approval of this participant; others are logged and dropped.\<close>

definition storeIncomingObjective ::
  "store_env \<Rightarrow> wallet_objective list \<times> db \<Rightarrow> objective \<Rightarrow> (wallet_objective list \<times> db) result" where
  "storeIncomingObjective E os_d o' =
     (if isSupportedObjective o'
      then bindE (insertObjective (se_ignored E) (se_now E) o'
                    (if typeOf o' = CloseChannelT then Some ApprovedObjective else None) None (snd os_d))
             (\<lambda>(m, d1). Inr (fst os_d @ [m], d1))
      else Inr os_d)"

definition targetChannelOf :: "wallet_objective \<Rightarrow> bytes32" where
  "targetChannelOf m = objectiveChannel (o_objective m)"

definition storePushMessage ::
  "store_env \<Rightarrow> wire_payload \<Rightarrow> db \<Rightarrow>
   ((bytes32 list \<times> channel_result list \<times> wallet_objective list) \<times> db) result"
where
  "storePushMessage E m d =
     (let states = orEmpty (wp_signedStates m) in
      bindE (foldE (storeIncomingState E) ([], d) (sort_key channelNonce states)) (\<lambda>(crs, d1).
      bindE (mapE (deserializeObjective (se_ethers E)) (orEmpty (wp_objectives m))) (\<lambda>os.
      bindE (foldE (storeIncomingObjective E) ([], d1) os) (\<lambda>(stored, d2).
        let targets = map targetChannelOf (filter (\<lambda>o'.
              typeOf (o_objective o') \<in> {SubmitChallengeT, OpenChannelT, CloseChannelT}) stored)
        in Inr ((map ws_channelId states @ targets, crs, stored), d2)))))"

definition storeCreateChannel ::
  "store_env \<Rightarrow> channel_constants \<Rightarrow> string \<Rightarrow> outcome \<Rightarrow> funding_strategy \<Rightarrow> role \<Rightarrow> bytes32 option \<Rightarrow>
   db \<Rightarrow> ((channel_state \<times> signed_state_with_hash \<times> wallet_objective) \<times> db) result"
where
  "storeCreateChannel E cc data o' strategy role' ledgerId d =
     bindE (createChannelRow E cc strategy ledgerId d) (\<lambda>(c, d1).
     bindE (storeSignState E c
       \<lparr>v_outcome = o', v_turnNum = 0, v_appData = data, v_isFinal = False\<rparr> d1) (\<lambda>(c1, s, d2).
     let cid = ch_channelId c;
         d3 = (if role' = LedgerRole then setLedger cid d2 else d2)
     in bindE (insertObjective (se_ignored E) (se_now E)
          (OpenChannel (participants c)
             \<lparr>oc_targetChannelId = cid, oc_fundingStrategy = strategy, oc_role = Some role',
              oc_fundingLedgerChannelId = ledgerId\<rparr>)
          (Some ApprovedObjective) (Some OpenerTheirPreFundSetup) d3) (\<lambda>(m, d4).
        bindE (getChannelState E d4 cid) (\<lambda>cs. Inr ((cs, s, m), d4)))))"

section \<open>Objectives\<close>

text \<open>Approving an \<open>OpenChannel\<close> also writes its funding, and its role, to the channel.\<close>

definition approveObjective :: "string \<Rightarrow> db \<Rightarrow> (wallet_objective \<times> db) result" where
  "approveObjective oid d =
     bindE (approveRow oid d) (\<lambda>(m, d1).
       case o_objective m of
         OpenChannel _ data \<Rightarrow>
           let cid = oc_targetChannelId data;
               d2 = (if oc_role data = Some LedgerRole then setLedger cid d1 else d1)
           in Inr (m, patchChannel (setFundingSource
                (oc_fundingStrategy data, oc_fundingLedgerChannelId data)) cid d2)
       | _ \<Rightarrow> Inr (m, d1))"

definition markObjectiveStatus :: "wallet_objective \<Rightarrow> bool \<Rightarrow> db \<Rightarrow> (wallet_objective \<times> db) result" where
  "markObjectiveStatus m succeeded =
     (if succeeded then succeedRow (o_objectiveId m) else failRow (o_objectiveId m))"

definition getApprovedObjectives :: "db \<Rightarrow> wallet_objective list result" where
  "getApprovedObjectives d = mapE toObjective (filter (\<lambda>m. o_status m = ApprovedObjective) (db_objectives d))"

definition updateObjectiveProgressDate ::
  "store_env \<Rightarrow> string list \<Rightarrow> db \<Rightarrow> (wallet_objective list \<times> db) result" where
  "updateObjectiveProgressDate E oids d =
     foldE (\<lambda>(ms, d1) oid. bindE (updateProgressDate (se_now E) oid d1) (\<lambda>(m, d2). Inr (ms @ [m], d2)))
       ([], d) oids"

section \<open>Ledger requests and chain tables\<close>

definition getChannelIdsPendingLedgerFundingFrom :: "db \<Rightarrow> bytes32 list \<Rightarrow> bytes32 list" where
  "getChannelIdsPendingLedgerFundingFrom d ledgers = uniq (map channelToBeFunded
     (filter (\<lambda>r. ledgerChannelId r \<in> set ledgers \<and> req_status r = Pending) (db_ledgerRequests d)))"

text \<open>The disjunction is not in brackets in the query, so it reads: (listed and pending) or queued.\<close>

definition getLedgerChannelIdsFundingChannels :: "db \<Rightarrow> bytes32 list \<Rightarrow> bytes32 list" where
  "getLedgerChannelIdsFundingChannels d cids = uniq (map ledgerChannelId
     (filter (\<lambda>r. channelToBeFunded r \<in> set cids \<and> req_status r = Pending \<or> req_status r = Queued)
       (db_ledgerRequests d)))"

definition filterChannelIdsByIsLedger :: "db \<Rightarrow> bytes32 list \<Rightarrow> bytes32 list" where
  "filterChannelIdsByIsLedger d cids = map ch_channelId
     (filter (\<lambda>c. ch_channelId c \<in> set cids \<and> ch_isLedgerChannel c) (db_channels d))"

definition fundingRequestExists :: "store_env \<Rightarrow> db \<Rightarrow> bytes32 \<Rightarrow> bool" where
  "fundingRequestExists E d cid =
     (case findChainRequest d cid FundRequest of None \<Rightarrow> False | Some r \<Rightarrow> isValidRequest (se_now E) r)"

definition markAdjudicatorStatusAsFinalized ::
  "bytes32 \<Rightarrow> int \<Rightarrow> int \<Rightarrow> int \<Rightarrow> db \<Rightarrow> db result" where
  "markAdjudicatorStatusAsFinalized cid blockNumber blockTimestamp finalizedAt d =
     bindE (getAndLockChannel d cid) (\<lambda>_.
     bindE (setFinalized cid blockNumber blockTimestamp finalizedAt d) (\<lambda>(_, d1). Inr d1))"

definition storeUpdateTransferredOut ::
  "bytes32 \<Rightarrow> address \<Rightarrow> (bytes32 \<times> uint256) list \<Rightarrow> uint256 \<Rightarrow> db \<Rightarrow> db result" where
  "storeUpdateTransferredOut cid a ts newHoldings =
     lockApp cid (\<lambda>_ d. bindE (updateTransferredOut cid a ts d) (updateFunding cid newHoldings a))
       channelMissing"

end
