(* ===== verification/Protocols.thy ===== *)
theory Protocols
  imports Store
begin

text \<open>
  The protocols that advance an objective: \<open>channel-opener.ts\<close>, \<open>direct-funder.ts\<close>,
  \<open>ledger-funder.ts\<close>, \<open>channel-closer.ts\<close>, \<open>defunder.ts\<close>, \<open>defund-channel.ts\<close>,
  \<open>challenge-submitter.ts\<close> and \<open>ledger-manager.ts\<close> of \<open>packages/server-wallet/src/protocols\<close>, and the
  objective manager that dispatches to them. A crank runs in one transaction: it returns what the
  objective waits for with the new database and response, or throws and changes nothing.
\<close>

record world =
  w_db :: db
  w_out :: engine_response

definition onDb :: "(db \<Rightarrow> ('a \<times> db) result) \<Rightarrow> world \<Rightarrow> ('a \<times> world) result" where
  "onDb f w = bindE (f (w_db w)) (\<lambda>(x, d). Inr (x, w\<lparr>w_db := d\<rparr>))"

definition onOut :: "(engine_response \<Rightarrow> engine_response result) \<Rightarrow> world \<Rightarrow> world result" where
  "onOut f w = bindE (f (w_out w)) (\<lambda>r. Inr (w\<lparr>w_out := r\<rparr>))"

definition queue :: "(engine_response \<Rightarrow> engine_response) \<Rightarrow> world \<Rightarrow> world" where
  "queue f w = w\<lparr>w_out := f (w_out w)\<rparr>"

definition queueChannelW :: "store_env \<Rightarrow> channel \<Rightarrow> world \<Rightarrow> world result" where
  "queueChannelW E c = onOut (queueChannel (se_platform E) c)"

text \<open>Signing a state and queueing it for the others; the channel object comes back updated.\<close>

definition varsOf :: "'a state_scheme \<Rightarrow> state_variables" where
  "varsOf s = \<lparr>v_outcome = outcome s, v_turnNum = turnNum s, v_appData = appData s, v_isFinal = isFinal s\<rparr>"

definition signAndQueue :: "store_env \<Rightarrow> channel \<Rightarrow> state_variables \<Rightarrow> world \<Rightarrow> (channel \<times> world) result" where
  "signAndQueue E c v w =
     bindE (storeSignState E c v (w_db w)) (\<lambda>(c', s, d).
     bindE (onOut (queueState (se_platform E) (se_version E) (signed_state.truncate s) (myIndex c)
              (ch_channelId c)) (w\<lparr>w_db := d\<rparr>)) (\<lambda>w'. Inr (c', w')))"

section \<open>Funding\<close>

text \<open>\<open>direct-funder.ts\<close>: true when the channel is fully funded.\<close>

definition directFunderCrank :: "store_env \<Rightarrow> channel \<Rightarrow> world \<Rightarrow> (bool \<times> world) result" where
  "directFunderCrank E c w =
     (let P = se_platform E; d = w_db w; cid = ch_channelId c in
      bindE (case supported P c of
               None \<Rightarrow> Inl (Error ''Channel passed to DirectFunder has no supported state'')
             | Some s \<Rightarrow> checkSimpleAllocation (outcome s)) (\<lambda>a.
      bindE (fundingMilestones P c) (\<lambda>(prior, after', total').
        let current = (case findFunding d cid (asset a) of None \<Rightarrow> 0 | Some f \<Rightarrow> f_amount f)
        in if current \<ge> total' then Inr (True, w)
           else if current < prior then Inr (False, w)
           else if current \<ge> after' then Inr (False, w)
           else if fundingRequestExists E d cid then Inr (False, w)
           else bindE (insertOrUpdate (se_now E) cid FundRequest d) (\<lambda>d1.
             Inr (False, queue (queueChainRequest [FundChannelTx cid (asset a) current (after' - current)])
               (w\<lparr>w_db := d1\<rparr>))))))"

definition doesLedgerFundApp :: "platform \<Rightarrow> channel \<Rightarrow> channel \<Rightarrow> bool result" where
  "doesLedgerFundApp P ledger app =
     (case (supported P ledger, supported P app) of
        (Some l, Some s) \<Rightarrow>
          bindE (checkSimpleAllocation (outcome l)) (\<lambda>la.
          bindE (checkSimpleAllocation (outcome s)) (\<lambda>sa.
            Inr (list_ex (\<lambda>i. item_destination i = ch_channelId app \<and>
                              amount i = sumAmounts (allocationItems sa)) (allocationItems la))))
      | _ \<Rightarrow> Inr False)"

definition alreadyFunded :: "platform \<Rightarrow> channel \<Rightarrow> channel \<Rightarrow> bool result" where
  "alreadyFunded P c ledger =
     (if \<not> isRunning P ledger then Inr False else doesLedgerFundApp P ledger c)"

text \<open>My amount and the opponent's, in the order of the ledger's participants.\<close>

definition ledgerAmounts :: "platform \<Rightarrow> channel \<Rightarrow> channel \<Rightarrow> (uint256 \<times> uint256) result" where
  "ledgerAmounts P c ledger =
     bindE (myAmount P c) (\<lambda>mine. bindE (opponentAmount P c) (\<lambda>theirs.
       Inr (if myIndex ledger = 0 then (mine, theirs) else (theirs, mine))))"

text \<open>\<open>ledger-funder.ts\<close>\<close>

definition ledgerFunderCrank ::
  "store_env \<Rightarrow> bytes32 option \<Rightarrow> channel \<Rightarrow> world \<Rightarrow> (bool \<times> world) result" where
  "ledgerFunderCrank E ledgerId c w =
     (let P = se_platform E; d = w_db w in
      case ledgerId of
        None \<Rightarrow> Inl (Error ''LedgerFunder called with objective without a fundingLedgerChannelId'')
      | Some l \<Rightarrow>
          if l = [] then Inl (Error ''LedgerFunder called with objective without a fundingLedgerChannelId'')
          else (case channelForId d l of
            None \<Rightarrow> Inr (False, w)
          | Some ledger \<Rightarrow>
              bindE (alreadyFunded P c ledger) (\<lambda>funded.
                if funded then Inr (True, w)
                else if getRequest d (ch_channelId c) Fund \<noteq> None then Inr (False, w)
                else bindE (ledgerAmounts P c ledger) (\<lambda>(a, b).
                     bindE (requestLedgerFunding (ch_channelId c) (ch_channelId ledger) a b d) (\<lambda>d1.
                       Inr (False, w\<lparr>w_db := d1\<rparr>))))))"

section \<open>\<open>channel-opener.ts\<close>\<close>

definition crankChannelFunder ::
  "store_env \<Rightarrow> open_channel_data \<Rightarrow> channel \<Rightarrow> world \<Rightarrow> (bool \<times> world) result" where
  "crankChannelFunder E data c w =
     (case oc_fundingStrategy data of
        Direct \<Rightarrow> directFunderCrank E c w
      | Fake \<Rightarrow> Inr (True, w)
      | Ledger \<Rightarrow> ledgerFunderCrank E (oc_fundingLedgerChannelId data) c w
      | Virtual \<Rightarrow> Inr (False, w)
      | UnknownStrategy \<Rightarrow> Inr (False, w))"

definition signSetup :: "store_env \<Rightarrow> int \<Rightarrow> channel \<Rightarrow> world \<Rightarrow> (channel \<times> world) result" where
  "signSetup E n c w =
     (case latest c of
        None \<Rightarrow> Inl TypeError
      | Some s \<Rightarrow>
          bindE (signAndQueue E c ((varsOf s)\<lparr>v_turnNum := n\<rparr>) w) (\<lambda>(c', w1).
          bindE (queueChannelW E c' w1) (\<lambda>w2. Inr (c', w2))))"

definition signPrefundSetup :: "store_env \<Rightarrow> channel \<Rightarrow> world \<Rightarrow> (channel \<times> world) result" where
  "signPrefundSetup E = signSetup E 0"

definition signPostfundSetup :: "store_env \<Rightarrow> channel \<Rightarrow> world \<Rightarrow> (channel \<times> world) result" where
  "signPostfundSetup E c = signSetup E (nParticipants c * 2 - 1) c"

definition succeedObjective :: "wallet_objective \<Rightarrow> world \<Rightarrow> world result" where
  "succeedObjective m w =
     bindE (onDb (markObjectiveStatus m True) w) (\<lambda>(m', w1). Inr (queue (queueSucceededObjective m') w1))"

definition channelOpenerCrank ::
  "store_env \<Rightarrow> wallet_objective \<Rightarrow> open_channel_data \<Rightarrow> world \<Rightarrow> (waiting_for \<times> world) result" where
  "channelOpenerCrank E m data w =
     (let P = se_platform E in
      bindE (getAndLockChannel (w_db w) (oc_targetChannelId data)) (\<lambda>c.
      bindE (queueChannelW E c w) (\<lambda>w1.
      bindE (if prefundSigned c then Inr (c, w1) else signPrefundSetup E c w1) (\<lambda>(c2, w2).
        if \<not> preFundComplete P c2 then Inr (OpenerTheirPreFundSetup, w2)
        else bindE (crankChannelFunder E data c2 w2) (\<lambda>(funded, w3).
          if \<not> funded then Inr (OpenerFunding, w3)
          else bindE (if postfundSigned c2 then Inr (c2, w3) else signPostfundSetup E c2 w3) (\<lambda>(c4, w4).
            if \<not> postFundComplete P c4 then Inr (OpenerTheirPostFundState, w4)
            else bindE (succeedObjective m w4) (\<lambda>w5. Inr (NothingToWaitFor, w5))))))))"

section \<open>\<open>defunder.ts\<close>\<close>

record defunder_result =
  isChannelDefunded :: bool
  didSubmitTransaction :: bool

text \<open>The first submitter in the order who has money in the channel decides.\<close>

fun firstFundedSubmitter :: "platform \<Rightarrow> channel \<Rightarrow> int list \<Rightarrow> bool result" where
  "firstFundedSubmitter P c [] = Inr True"
| "firstFundedSubmitter P c (i # is) =
     bindE (allocationItemForParticipantIndex P c i) (\<lambda>item.
       if (case item of None \<Rightarrow> False | Some x \<Rightarrow> amount x > 0) then Inr (i = myIndex c)
       else firstFundedSubmitter P c is)"

fun shouldSubmitCollaborativeTx :: "platform \<Rightarrow> channel \<Rightarrow> objective \<Rightarrow> bool result" where
  "shouldSubmitCollaborativeTx P c (CloseChannel _ data) = firstFundedSubmitter P c (cc_txSubmitterOrder data)"
| "shouldSubmitCollaborativeTx P c _ = Inr True"

definition hasValidRequest :: "store_env \<Rightarrow> channel \<Rightarrow> bool result" where
  "hasValidRequest E c =
     (case ch_chainServiceRequests c of
        None \<Rightarrow> Inl TypeError
      | Some rs \<Rightarrow> Inr (list_ex (\<lambda>q. case find (\<lambda>r. csr_request r = q) rs of
            None \<Rightarrow> False | Some r \<Rightarrow> isValidRequest (se_now E) r) [WithdrawRequest, PushOutcomeRequest]))"

fun statesOfStatus :: "adjudicator_status \<Rightarrow> signed_state list option" where
  "statesOfStatus AdjudicatorOpen = None"
| "statesOfStatus (AdjudicatorFinalized ss) = ss"
| "statesOfStatus (AdjudicatorChallenge ss) = ss"

definition directDefunder :: "store_env \<Rightarrow> channel \<Rightarrow> objective \<Rightarrow> world \<Rightarrow> (defunder_result \<times> world) result" where
  "directDefunder E c o' w =
     (let P = se_platform E; cid = ch_channelId c;
          result = (\<lambda>b. \<lparr>isChannelDefunded = False, didSubmitTransaction = b\<rparr>) in
      bindE (isDirectFunded P c PartlyFunded) (\<lambda>funded.
        if \<not> funded then Inr (\<lparr>isChannelDefunded = True, didSubmitTransaction = False\<rparr>, w)
        else bindE (hasValidRequest E c) (\<lambda>valid.
          if valid then Inr (result False, w)
          else
            let adj = getAdjudicatorStatus (w_db w) cid in
            bindE (shouldSubmitCollaborativeTx P c o') (\<lambda>submit.
              if modeOf adj \<noteq> FinalizedMode \<and> hasConclusionProof P c \<and> submit
              then bindE (insertOrUpdate (se_now E) cid WithdrawRequest (w_db w)) (\<lambda>d1.
                   Inr (result True, queue (queueChainRequest [ConcludeAndWithdrawTx (support P c)])
                          (w\<lparr>w_db := d1\<rparr>)))
              else if modeOf adj = FinalizedMode \<and> submit
              then (case statesOfStatus adj of
                      None \<Rightarrow> Inl TypeError
                    | Some ss \<Rightarrow> Inr (result True, queue (queueChainRequest
                        [WithdrawTx (case ss of [] \<Rightarrow> None | s # _ \<Rightarrow> Some s)]) w))
              else Inr (result False, w)))))"

definition requestLedgerDefund :: "store_env \<Rightarrow> channel \<Rightarrow> world \<Rightarrow> world result" where
  "requestLedgerDefund E c w =
     (case (case ch_fundingLedgerChannelId c of None \<Rightarrow> None | Some l \<Rightarrow> channelForId (w_db w) l) of
        None \<Rightarrow> Inl (Error ''ledger defunder: ledger doesn't exist'')
      | Some ledger \<Rightarrow>
          bindE (ledgerAmounts (se_platform E) c ledger) (\<lambda>(a, b).
          bindE (makeDestination (se_ethers E) (the (ch_fundingLedgerChannelId c))) (\<lambda>l.
          bindE (requestLedgerDefunding (ch_channelId c) l a b (w_db w)) (\<lambda>d1.
            Inr (w\<lparr>w_db := d1\<rparr>)))))"

definition ledgerDefunder :: "store_env \<Rightarrow> channel \<Rightarrow> world \<Rightarrow> (defunder_result \<times> world) result" where
  "ledgerDefunder E c w =
     (let result = (\<lambda>b. \<lparr>isChannelDefunded = b, didSubmitTransaction = False\<rparr>) in
      if \<not> hasConclusionProof (se_platform E) c then Inr (result False, w)
      else (case getRequest (w_db w) (ch_channelId c) Defund of
              Some r \<Rightarrow> Inr (result (req_status r = Succeeded), w)
            | None \<Rightarrow> bindE (requestLedgerDefund E c w) (\<lambda>w1. Inr (result False, w1))))"

definition fetchFundingAndRequests :: "db \<Rightarrow> channel \<Rightarrow> channel" where
  "fetchFundingAndRequests d c = withChainRequests d (withFunding d c)"

definition defunderCrank :: "store_env \<Rightarrow> channel \<Rightarrow> objective \<Rightarrow> world \<Rightarrow> (defunder_result \<times> world) result" where
  "defunderCrank E c o' w =
     bindE (protocolState (se_platform E) c) (\<lambda>ps.
       let c1 = fetchFundingAndRequests (w_db w) c in
       case cs_fundingStrategy ps of
         Direct \<Rightarrow> directDefunder E c1 o' w
       | Ledger \<Rightarrow> ledgerDefunder E c1 w
       | Virtual \<Rightarrow> Inl (Error ''Virtual channel defunding is not implemented'')
       | _ \<Rightarrow> Inr (\<lparr>isChannelDefunded = True, didSubmitTransaction = False\<rparr>, w))"

section \<open>\<open>channel-closer.ts\<close>\<close>

text \<open>
  An external destination has twelve zero bytes in front, \<open>isExternalDestination\<close> of nitro-protocol.
\<close>

definition isExternalDestination :: "bytes32 \<Rightarrow> bool" where
  "isExternalDestination d \<longleftrightarrow>
     length d = 66 \<and> take 26 d = ''0x'' @ replicate 24 (CHR ''0'') \<and> list_all isHexDigit (drop 26 d)"

definition ensureAllAllocationItemsAreExternalDestinations ::
  "platform \<Rightarrow> channel \<Rightarrow> bool result" where
  "ensureAllAllocationItemsAreExternalDestinations P c =
     bindE (protocolState P c) (\<lambda>ps.
       case cs_supported ps of
         None \<Rightarrow> Inr False
       | Some s \<Rightarrow> bindE (checkSimpleAllocation (outcome s)) (\<lambda>a.
           Inr (list_all (\<lambda>i. isExternalDestination (item_destination i)) (allocationItems a))))"

definition signFinalState :: "store_env \<Rightarrow> channel \<Rightarrow> int \<Rightarrow> world \<Rightarrow> (channel \<times> world) result" where
  "signFinalState E c n w =
     (case supported (se_platform E) c of
        None \<Rightarrow> Inl (Error ''Must have a supported state'')
      | Some s \<Rightarrow> signAndQueue E c ((varsOf s)\<lparr>v_turnNum := n, v_isFinal := True\<rparr>) w)"

definition areAllFinalStatesSigned ::
  "store_env \<Rightarrow> channel \<Rightarrow> world \<Rightarrow> (bool \<times> channel \<times> world) result" where
  "areAllFinalStatesSigned E c w =
     (let P = se_platform E in
      if hasConclusionProof P c then Inr (True, c, w)
      else (case supported P c of
        None \<Rightarrow> Inr (False, c, w)
      | Some s \<Rightarrow>
          if latestSignedByMe c = None \<or> \<not> myTurn P c then Inr (False, c, w)
          else if \<not> isFinal s
          then bindE (signFinalState E c (turnNum s + 1) w) (\<lambda>(c1, w1). Inr (False, c1, w1))
          else bindE (signFinalState E c (turnNum s) w) (\<lambda>(c1, w1).
                 Inr (hasConclusionProof P c1, c1, w1))))"

text \<open>
  An error inside the \<open>try\<close> block is logged and given to \<open>tx.rollback\<close>, which makes the
  transaction fail with it: for the caller the crank throws.
\<close>

definition channelCloserCrank ::
  "store_env \<Rightarrow> wallet_objective \<Rightarrow> close_channel_data \<Rightarrow> world \<Rightarrow> (waiting_for \<times> world) result" where
  "channelCloserCrank E m data w =
     (let P = se_platform E in
      bindE (getAndLockChannel (w_db w) (cc_targetChannelId data)) (\<lambda>c0.
      bindE (queueChannelW E c0 w) (\<lambda>w1.
      let c = fetchFundingAndRequests (w_db w1) c0 in
      bindE (ensureAllAllocationItemsAreExternalDestinations P c) (\<lambda>external.
        if \<not> external
        then bindE (queueChannelW E c w1) (\<lambda>w2. Inr (CloserAllAllocationItemsExternal, w2))
        else bindE (areAllFinalStatesSigned E c w1) (\<lambda>(allSigned, c2, w2).
          if \<not> allSigned
          then bindE (queueChannelW E c2 w2) (\<lambda>w3. Inr (CloserTheirFinalState, w3))
          else bindE (defunderCrank E c2 (o_objective m) w2) (\<lambda>(res, w3).
            if \<not> isChannelDefunded res
            then bindE (queueChannelW E c2 w3) (\<lambda>w4. Inr (CloserDefunding, w4))
            else bindE (onDb (markObjectiveStatus m True) w3) (\<lambda>(m', w4).
                 bindE (queueChannelW E c2 w4) (\<lambda>w5.
                   Inr (NothingToWaitFor, queue (queueSucceededObjective m') w5)))))))))"

section \<open>\<open>defund-channel.ts\<close> and \<open>challenge-submitter.ts\<close>\<close>

definition channelDefunderCrank ::
  "store_env \<Rightarrow> wallet_objective \<Rightarrow> bytes32 \<Rightarrow> world \<Rightarrow> (waiting_for \<times> world) result" where
  "channelDefunderCrank E m cid w =
     bindE (getAndLockChannel (w_db w) cid) (\<lambda>c0.
     let c = fetchFundingAndRequests (w_db w) c0 in
     if ch_fundingStrategy c \<noteq> Direct
     then bindE (onDb (markObjectiveStatus m False) w) (\<lambda>(_, w1). Inr (NothingToWaitFor, w1))
     else bindE (defunderCrank E c (o_objective m) w) (\<lambda>(res, w1).
       if didSubmitTransaction res
       then bindE (onDb (markObjectiveStatus m True) w1) (\<lambda>(_, w2).
              Inr (NothingToWaitFor, queue (queueSucceededObjective m) w2))
       else Inr (DefunderTransactionSubmission, w1)))"

definition challengeSubmitterCrank ::
  "store_env \<Rightarrow> wallet_objective \<Rightarrow> bytes32 \<Rightarrow> world \<Rightarrow> (waiting_for \<times> world) result" where
  "challengeSubmitterCrank E m cid w =
     bindE (getAndLockChannel (w_db w) cid) (\<lambda>c.
       if modeOf (convertResult (ch_adjudicatorStatus c)) \<noteq> OpenMode
       then Inr (ChallengeExistingChallenge, w)
       else (case walletFor (w_db w) [ch_signingAddress c] of
         None \<Rightarrow> Inl (Error ''No signing wallet fetched for channel'')
       | Some wallet \<Rightarrow>
           if findChainRequest (w_db w) cid ChallengeRequest \<noteq> None
           then Inr (ChallengeExistingRequest, w)
           else bindE (insertOrUpdate (se_now E) cid ChallengeRequest (w_db w)) (\<lambda>d1.
             let w1 = w\<lparr>w_db := d1\<rparr> in
             if ch_initialSupport c = []
             then bindE (onDb (markObjectiveStatus m False) w1) (\<lambda>(_, w2). Inr (NothingToWaitFor, w2))
             else
               let w2 = queue (queueChainRequest
                     [ChallengeTx (ch_initialSupport c) (privateKey wallet)]) w1 in
               bindE (onDb (markObjectiveStatus m True) w2) (\<lambda>(m', w3).
               bindE (queueChannelW E c w3) (\<lambda>w4.
                 Inr (NothingToWaitFor, queue (queueSucceededObjective m') w4))))))"

section \<open>\<open>ledger-manager.ts\<close>\<close>

definition readonlyChannel :: "channel \<Rightarrow> signed_state_with_hash \<Rightarrow> readonly_channel" where
  "readonlyChannel c newest = channel_constants.extend (channelConstants c)
     (readonly_channel.fields (myIndex c) (turnNum newest) (uniqueStateAt c))"

definition signAll ::
  "store_env \<Rightarrow> signed_state list \<Rightarrow> channel \<times> world \<Rightarrow> (channel \<times> world) result" where
  "signAll E ss cw = foldE (\<lambda>(c, w) s. signAndQueue E c (varsOf s) w) cw ss"

definition ledgerManagerCrank :: "store_env \<Rightarrow> bytes32 \<Rightarrow> world \<Rightarrow> (bytes32 list \<times> world) result" where
  "ledgerManagerCrank E ledgerId w =
     (let P = se_platform E in
      bindE (getAndLockChannel (w_db w) ledgerId) (\<lambda>ledger.
        if \<not> isRunning P ledger \<or> \<not> ch_isLedgerChannel ledger then Inr ([], w)
        else
          let requests = getActiveRequests (w_db w) ledgerId;
              d1 = (if ch_initialSupport ledger = [] \<and> isSupported P ledger
                    then setInitialSupport (ch_channelId ledger)
                           (map signed_state.truncate (support P ledger)) (w_db w)
                    else w_db w)
          in (case latest ledger of
            None \<Rightarrow> Inl TypeError
          | Some newest \<Rightarrow>
              bindE (crankLedger (ethersLib P) (readonlyChannel ledger newest) requests) (\<lambda>(ss, requests').
              bindE (signAll E ss (ledger, w\<lparr>w_db := d1\<rparr>)) (\<lambda>(ledger', w1).
              bindE (queueChannelW E ledger' (w1\<lparr>w_db := saveAll requests' (w_db w1)\<rparr>)) (\<lambda>w2.
                Inr (uniq (map channelToBeFunded (filter (\<lambda>r. \<not> isActive r) requests')), w2)))))))"

section \<open>\<open>objective-manager.ts\<close> and \<open>close-channel.ts\<close>\<close>

definition dispatchObjective ::
  "store_env \<Rightarrow> wallet_objective \<Rightarrow> world \<Rightarrow> (waiting_for \<times> world) result" where
  "dispatchObjective E m w =
     (case o_objective m of
        OpenChannel _ data \<Rightarrow> channelOpenerCrank E m data w
      | CloseChannel _ data \<Rightarrow> channelCloserCrank E m data w
      | SubmitChallenge _ cid \<Rightarrow> challengeSubmitterCrank E m cid w
      | DefundChannel _ cid \<Rightarrow> channelDefunderCrank E m cid w
      | _ \<Rightarrow> Inl (Error ''unsupported''))"

definition objectiveManagerCrank :: "store_env \<Rightarrow> string \<Rightarrow> world \<Rightarrow> world result" where
  "objectiveManagerCrank E oid w =
     bindE (objectiveForId (w_db w) oid) (\<lambda>m.
     bindE (dispatchObjective E m w) (\<lambda>(waitingFor, w1).
       if o_waitingFor m \<noteq> waitingFor
       then bindE (onDb (updateWaitingFor (se_now E) oid waitingFor) w1) (\<lambda>(_, w2). Inr w2)
       else Inr w1))"

definition commenceCloseChannel :: "store_env \<Rightarrow> bytes32 \<Rightarrow> world \<Rightarrow> world result" where
  "commenceCloseChannel E cid w =
     (case findChannel (w_db w) cid of
        None \<Rightarrow> Inl (CloseChannelError ''channel not found'')
      | Some c \<Rightarrow>
          bindE (onDb (insertObjective (se_ignored E) (se_now E)
            (CloseChannel [] \<lparr>cc_targetChannelId = cid, cc_fundingStrategy = ch_fundingStrategy c,
                             cc_txSubmitterOrder = [1, 0]\<rparr>)
            (Some ApprovedObjective) None) w) (\<lambda>(m, w1).
          onOut (queueCreatedObjective (se_platform E) (se_version E) m (myIndex c) (participants c)) w1))"

end
