(* ===== verification/Engine.thy ===== *)
theory Engine
  imports Protocols
begin

text \<open>
  The class \<open>SingleThreadedEngine\<close> of \<open>packages/server-wallet/src/engine/engine.ts\<close> with its handlers
  (\<open>handlers/update-channel.ts\<close>, \<open>handlers/single-app-updater.ts\<close>, \<open>handlers/helpers.ts\<close>). A call of
  the engine runs several transactions in a row: when a later one throws, the earlier ones stay.
  So an operation returns the world together with its result or error, and None when it does not
  return, which only the loop of \<open>takeActions\<close> can do.
\<close>

section \<open>Operations that may fail half way\<close>

type_synonym ('s, 'a) sio = "'s \<Rightarrow> ('s \<times> 'a result) option"

type_synonym 'a io = "(world, 'a) sio"

definition returnIO :: "'a \<Rightarrow> ('s, 'a) sio" where
  "returnIO x w = Some (w, Inr x)"

definition throwIO :: "error \<Rightarrow> ('s, 'a) sio" where
  "throwIO e w = Some (w, Inl e)"

definition bindIO :: "('s, 'a) sio \<Rightarrow> ('a \<Rightarrow> ('s, 'b) sio) \<Rightarrow> ('s, 'b) sio" where
  "bindIO m f w =
     (case m w of
        None \<Rightarrow> None
      | Some (w1, Inl e) \<Rightarrow> Some (w1, Inl e)
      | Some (w1, Inr x) \<Rightarrow> f x w1)"

text \<open>A transaction: on an error everything it did is undone.\<close>

definition transaction :: "(world \<Rightarrow> ('a \<times> world) result) \<Rightarrow> 'a io" where
  "transaction f w = Some (case f w of Inl e \<Rightarrow> (w, Inl e) | Inr (x, w1) \<Rightarrow> (w1, Inr x))"

definition transactionU :: "(world \<Rightarrow> world result) \<Rightarrow> unit io" where
  "transactionU f = transaction (\<lambda>w. bindE (f w) (\<lambda>w1. Inr ((), w1)))"

definition dbTransaction :: "(db \<Rightarrow> ('a \<times> db) result) \<Rightarrow> 'a io" where
  "dbTransaction f = transaction (onDb f)"

text \<open>Reading the database, and changing the response.\<close>

definition readDb :: "(db \<Rightarrow> 'a result) \<Rightarrow> 'a io" where
  "readDb f w = Some (w, f (w_db w))"

definition respond :: "(engine_response \<Rightarrow> engine_response result) \<Rightarrow> unit io" where
  "respond f = transactionU (onOut f)"

definition newResponse :: "unit io" where
  "newResponse w = Some (w\<lparr>w_out := initResponse\<rparr>, Inr ())"

definition outputOf :: "(engine_response \<Rightarrow> 'a result) \<Rightarrow> 'a io" where
  "outputOf f w = Some (w, f (w_out w))"

fun foldIO :: "('b \<Rightarrow> 'a \<Rightarrow> ('s, 'b) sio) \<Rightarrow> 'b \<Rightarrow> 'a list \<Rightarrow> ('s, 'b) sio" where
  "foldIO f s [] = returnIO s"
| "foldIO f s (x # xs) = bindIO (f s x) (\<lambda>s'. foldIO f s' xs)"

definition forIO :: "'a list \<Rightarrow> ('a \<Rightarrow> ('s, unit) sio) \<Rightarrow> ('s, unit) sio" where
  "forIO xs f = foldIO (\<lambda>_ x. f x) () xs"

text \<open>
  \<open>Promise.all\<close> over calls that were all started: every one runs to its end, here one after the other,
  and the result is the first error if there is one.
\<close>

fun allIO :: "('a \<Rightarrow> ('s, 'b) sio) \<Rightarrow> 'a list \<Rightarrow> ('s, 'b list) sio" where
  "allIO f [] = returnIO []"
| "allIO f (x # xs) = (\<lambda>w.
     case f x w of
       None \<Rightarrow> None
     | Some (w1, r) \<Rightarrow>
         (case allIO f xs w1 of
            None \<Rightarrow> None
          | Some (w2, rs) \<Rightarrow> Some (w2, bindE r (\<lambda>y. bindE rs (\<lambda>ys. Inr (y # ys))))))"

section \<open>\<open>takeActions\<close>\<close>

text \<open>
  One turn of the loop: crank the approved objectives of the channels, then the ledgers among the
  channels and those with new requests; the channels whose requests ended are next.
\<close>

definition takeActionsStep :: "store_env \<Rightarrow> bytes32 list \<Rightarrow> bytes32 list io" where
  "takeActionsStep E cids =
     bindIO (readDb (\<lambda>d. approvedObjectiveIds d cids)) (\<lambda>oids.
     bindIO (forIO oids (\<lambda>oid. transactionU (objectiveManagerCrank E oid))) (\<lambda>_.
     bindIO (readDb (\<lambda>d. Inr (uniq (filterChannelIdsByIsLedger d cids @ ledgersWithNewRequestsIds d))))
       (\<lambda>ledgers.
       foldIO (\<lambda>acc l. bindIO (transaction (ledgerManagerCrank E l)) (\<lambda>touched. returnIO (acc @ touched)))
         [] ledgers)))"

partial_function (option) takeActions :: "store_env \<Rightarrow> bytes32 list \<Rightarrow> world \<Rightarrow> (world \<times> unit result) option"
where
  "takeActions E cids w =
     (if cids = [] then Some (w, Inr ())
      else case takeActionsStep E cids w of
             None \<Rightarrow> None
           | Some (w1, r) \<Rightarrow>
               (case r of Inl e \<Rightarrow> Some (w1, Inl e) | Inr cids' \<Rightarrow> takeActions E cids' w1))"

declare takeActions.simps [code]

section \<open>Synchronising\<close>

definition syncOne :: "store_env \<Rightarrow> bytes32 \<Rightarrow> unit io" where
  "syncOne E cid =
     bindIO (readDb (\<lambda>d. getStates E d cid)) (\<lambda>(states, cs).
     bindIO (forIO states (\<lambda>s. respond (queueState (se_platform E) (se_version E)
               (signed_state.truncate s) (cs_myIndex cs) cid))) (\<lambda>_.
     bindIO (respond (queueChannelRequest (se_platform E) (se_version E) cid (cs_myIndex cs)
               (cs_participants cs))) (\<lambda>_.
       respond (queueChannelState cs))))"

definition syncChannels :: "store_env \<Rightarrow> bytes32 list \<Rightarrow> multiple_output io" where
  "syncChannels E cids =
     bindIO newResponse (\<lambda>_. bindIO (allIO (syncOne E) cids) (\<lambda>_.
       outputOf (multipleChannelOutput (se_version E))))"

definition syncChannel :: "store_env \<Rightarrow> bytes32 \<Rightarrow> single_output io" where
  "syncChannel E cid =
     bindIO newResponse (\<lambda>_. bindIO (syncOne E cid) (\<lambda>_.
       outputOf (singleChannelOutput (se_version E) True)))"

definition syncObjective :: "store_env \<Rightarrow> wallet_objective \<Rightarrow> unit io" where
  "syncObjective E m =
     bindIO (readDb (\<lambda>d. getChannelState E d (targetChannelOf m))) (\<lambda>cs.
     bindIO (syncOne E (cs_channelId cs)) (\<lambda>_.
     bindIO (respond (queueSendObjective (se_platform E) (se_version E) m (cs_myIndex cs)
               (cs_participants cs))) (\<lambda>_.
       case cs_fundingLedgerChannelId cs of
         Some l \<Rightarrow> if cs_fundingStrategy cs = Ledger \<and> l \<noteq> [] then syncOne E l else returnIO ()
       | None \<Rightarrow> returnIO ())))"

definition syncObjectives :: "store_env \<Rightarrow> string list \<Rightarrow> wire_message list io" where
  "syncObjectives E oids =
     bindIO newResponse (\<lambda>_.
     bindIO (readDb (\<lambda>d. objectivesForIds d oids)) (\<lambda>ms.
       if set oids - set (map o_objectiveId ms) \<noteq> {}
       then throwIO (Error ''Could not find all objectives'')
       else bindIO (forIO ms (syncObjective E)) (\<lambda>_. outputOf (allMessages (se_version E)))))"

section \<open>Creating channels\<close>

record create_args =
  ca_participants :: "participant list"
  ca_allocations :: "app_allocation list"
  ca_appDefinition :: address
  ca_appData :: string
  ca_fundingStrategy :: funding_strategy
  ca_fundingLedgerChannelId :: "bytes32 option"
  ca_challengeDuration :: int

text \<open>The nonce is drawn in a statement of its own, before the transaction that creates the channel.\<close>

definition createOne :: "store_env \<Rightarrow> create_args \<Rightarrow> role \<Rightarrow> bytes32 io" where
  "createOne E a role' =
     bindIO (readDb (\<lambda>_. mapE (convertToInternalParticipant (se_ethers E)) (ca_participants a))) (\<lambda>ps.
     bindIO (readDb (\<lambda>_. deserializeAllocations (se_ethers E) (ca_allocations a))) (\<lambda>o'.
     bindIO (dbTransaction (nextNonce (map signingAddress ps))) (\<lambda>nonce.
     bindIO (readDb (\<lambda>_. makeAddress (se_ethers E) (ca_appDefinition a))) (\<lambda>app.
     bindIO (dbTransaction (storeCreateChannel E
       \<lparr>chainId = se_configChainID E, participants = ps, channelNonce = nonce, appDefinition = app,
        challengeDuration = ca_challengeDuration a\<rparr>
       (ca_appData a) o' (ca_fundingStrategy a) role' (ca_fundingLedgerChannelId a))) (\<lambda>(cs, s, m).
     bindIO (respond (queueState (se_platform E) (se_version E) (signed_state.truncate s)
               (cs_myIndex cs) (cs_channelId cs))) (\<lambda>_.
     bindIO (respond (queueCreatedObjective (se_platform E) (se_version E) m (cs_myIndex cs)
               (cs_participants cs))) (\<lambda>_.
     bindIO (respond (queueChannelState cs)) (\<lambda>_. returnIO (cs_channelId cs)))))))))"

definition requireNewObjective :: "string \<Rightarrow> single_output \<Rightarrow> single_output io" where
  "requireNewObjective msg r = (if hasNewObjective r then returnIO r else throwIO (Error msg))"

definition createLedgerChannel :: "store_env \<Rightarrow> create_args \<Rightarrow> funding_strategy \<Rightarrow> single_output io" where
  "createLedgerChannel E a strategy =
     bindIO newResponse (\<lambda>_.
     bindIO (createOne E (a\<lparr>ca_appDefinition := zeroAddress, ca_appData := ''0x'',
       ca_fundingStrategy := strategy, ca_fundingLedgerChannelId := None\<rparr>) LedgerRole) (\<lambda>cid.
     bindIO (takeActions E [cid]) (\<lambda>_.
     bindIO (outputOf (singleChannelOutput (se_version E) True))
       (requireNewObjective ''No new objective created for create channel''))))"

definition engineCreateChannel :: "store_env \<Rightarrow> create_args \<Rightarrow> single_output io" where
  "engineCreateChannel E a =
     bindIO newResponse (\<lambda>_.
     bindIO (createOne E a AppRole) (\<lambda>_.
     bindIO (outputOf (singleChannelOutput (se_version E) True))
       (requireNewObjective ''No new objective created for create channel'')))"

definition createChannels :: "store_env \<Rightarrow> create_args \<Rightarrow> nat \<Rightarrow> multiple_output io" where
  "createChannels E a n =
     bindIO newResponse (\<lambda>_.
     bindIO (forIO (replicate n a) (\<lambda>a. bindIO (createOne E a AppRole) (\<lambda>_. returnIO ()))) (\<lambda>_.
       outputOf (multipleChannelOutput (se_version E))))"

section \<open>Joining and approving\<close>

definition joinChannels :: "store_env \<Rightarrow> bytes32 list \<Rightarrow> multiple_output io" where
  "joinChannels E cids =
     bindIO newResponse (\<lambda>_.
     bindIO (readDb (\<lambda>d. forChannelIds d cids)) (\<lambda>ms.
     bindIO (allIO (\<lambda>m. dbTransaction (approveObjective (o_objectiveId m)))
       (filter (\<lambda>m. typeOf (o_objective m) = OpenChannelT) ms)) (\<lambda>_.
     bindIO (takeActions E cids) (\<lambda>_.
       outputOf (multipleChannelOutput (se_version E))))))"

text \<open>Only a pending objective is approved; any other comes back as it is.\<close>

definition approveIfPending :: "string \<Rightarrow> bytes32 \<Rightarrow> db \<Rightarrow> (wallet_objective \<times> db) result" where
  "approveIfPending oid cid d =
     bindE (getAndLockChannel d cid) (\<lambda>_.
     bindE (objectiveForId d oid) (\<lambda>m.
       if o_status m = PendingObjective then approveObjective oid d else Inr (m, d)))"

record approve_output =
  ao_objectives :: "wallet_objective list"
  ao_messages :: "wire_message list"
  ao_chainRequests :: "chain_tx list"
  ao_channelResults :: "channel_result list"

definition approveObjectives :: "store_env \<Rightarrow> string list \<Rightarrow> approve_output io" where
  "approveObjectives E oids =
     bindIO newResponse (\<lambda>_.
     bindIO (readDb (\<lambda>d. objectivesForIds d oids)) (\<lambda>ms.
     bindIO (forIO ms (\<lambda>m. bindIO (dbTransaction (approveIfPending (o_objectiveId m) (targetChannelOf m)))
       (\<lambda>_. returnIO ()))) (\<lambda>_.
     bindIO (takeActions E (map targetChannelOf ms)) (\<lambda>_.
     bindIO (readDb (\<lambda>d. objectivesForIds d oids)) (\<lambda>ms'.
     bindIO (outputOf (multipleChannelOutput (se_version E))) (\<lambda>out.
     bindIO (outputOf Inr) (\<lambda>r.
       returnIO \<lparr>ao_objectives = ms', ao_messages = mo_outbox out,
                 ao_chainRequests = er_chainRequests r, ao_channelResults = channelResultsOf r\<rparr>)))))))"

definition joinChannel :: "store_env \<Rightarrow> bytes32 \<Rightarrow> single_output io" where
  "joinChannel E cid =
     bindIO newResponse (\<lambda>_.
     bindIO (readDb (\<lambda>d. getChannelState E d cid)) (\<lambda>_.
     bindIO (readDb (\<lambda>d. forChannelIds d [cid])) (\<lambda>ms.
       case ms of
         [m] \<Rightarrow>
           bindIO (if typeOf (o_objective m) = OpenChannelT
                   then bindIO (dbTransaction (approveObjective (o_objectiveId m))) (\<lambda>_. returnIO ())
                   else returnIO ()) (\<lambda>_.
           bindIO (takeActions E [cid]) (\<lambda>_.
             outputOf (singleChannelOutput (se_version E) False)))
       | _ \<Rightarrow> throwIO (Error ''Expecting exactly one objective''))))"

definition crankChannels :: "store_env \<Rightarrow> bytes32 list \<Rightarrow> multiple_output io" where
  "crankChannels E cids =
     bindIO newResponse (\<lambda>_. bindIO (takeActions E cids) (\<lambda>_.
       outputOf (multipleChannelOutput (se_version E))))"

section \<open>Updating a channel\<close>

definition isMyTurn :: "channel_state \<Rightarrow> signed_state_with_hash \<Rightarrow> bool" where
  "isMyTurn cs s \<longleftrightarrow> (turnNum s + 1) mod int (length (participants s)) = cs_myIndex cs"

text \<open>\<open>handlers/update-channel.ts\<close>: the checks in their order, and the variables to sign.\<close>

definition updateChannelVars :: "string \<Rightarrow> outcome \<Rightarrow> channel_state \<Rightarrow> state_variables result" where
  "updateChannelVars data o' cs =
     (case cs_supported cs of
        None \<Rightarrow> Inl (UpdateChannelError ''must have latest state'')
      | Some s \<Rightarrow>
          if turnNum s < 3 then Inl (UpdateChannelError ''channel must be in running state'')
          else if \<not> isMyTurn cs s then Inl (UpdateChannelError ''it is not my turn'')
          else Inr \<lparr>v_outcome = o', v_turnNum = turnNum s + 1, v_appData = data, v_isFinal = False\<rparr>)"

definition updateChannelBody ::
  "store_env \<Rightarrow> app_allocation list \<Rightarrow> string \<Rightarrow> channel \<Rightarrow> world \<Rightarrow> world result" where
  "updateChannelBody E allocations data c w =
     bindE (deserializeAllocations (se_ethers E) allocations) (\<lambda>o'.
     bindE (protocolState (se_platform E) c) (\<lambda>cs.
     bindE (updateChannelVars data o' cs) (\<lambda>v.
     bindE (signAndQueue E c v w) (\<lambda>(_, w1).
     bindE (getChannelState E (w_db w1) (ch_channelId c)) (\<lambda>cs'.
       onOut (queueChannelState cs') w1)))))"

definition updateChannel ::
  "store_env \<Rightarrow> bytes32 \<Rightarrow> app_allocation list \<Rightarrow> string \<Rightarrow> single_output io" where
  "updateChannel E cid allocations data =
     bindIO newResponse (\<lambda>_.
       transaction (\<lambda>w.
         case findChannel (w_db w) cid of
           None \<Rightarrow> Inl (UpdateChannelError ''channel not found'')
         | Some c \<Rightarrow>
             bindE (updateChannelBody E allocations data c w) (\<lambda>w1.
             bindE (singleChannelOutput (se_version E) True (w_out w1)) (\<lambda>out. Inr (out, w1)))))"

section \<open>Closing and challenging\<close>

definition closeChannels :: "store_env \<Rightarrow> bytes32 list \<Rightarrow> multiple_output io" where
  "closeChannels E cids =
     bindIO newResponse (\<lambda>_.
     bindIO (forIO cids (\<lambda>cid. transactionU (commenceCloseChannel E cid))) (\<lambda>_.
     bindIO (takeActions E cids) (\<lambda>_.
       outputOf (multipleChannelOutput (se_version E)))))"

definition closeChannel :: "store_env \<Rightarrow> bytes32 \<Rightarrow> single_output io" where
  "closeChannel E cid =
     bindIO newResponse (\<lambda>_.
     bindIO (transactionU (commenceCloseChannel E cid)) (\<lambda>_.
     bindIO (takeActions E [cid]) (\<lambda>_.
     bindIO (outputOf (singleChannelOutput (se_version E) True))
       (requireNewObjective ''No new objective created for closeChannel''))))"

definition commenceChallenge :: "store_env \<Rightarrow> bytes32 \<Rightarrow> world \<Rightarrow> world result" where
  "commenceChallenge E cid w =
     (case channelForId (w_db w) cid of
        None \<Rightarrow> Inl (Error ''No channel found for channel id'')
      | Some c \<Rightarrow>
          if \<not> ch_isLedgerChannel c then Inl (Error ''Only ledger channels support challenging'')
          else bindE (onDb (insertObjective (se_ignored E) (se_now E) (SubmitChallenge [] cid)
                 (Some ApprovedObjective) None) w) (\<lambda>(m, w1).
               bindE (onOut (queueCreatedObjective (se_platform E) (se_version E) m (myIndex c)
                 (participants c)) w1) (\<lambda>w2. queueChannelW E c w2)))"

definition challenge :: "store_env \<Rightarrow> bytes32 \<Rightarrow> single_output io" where
  "challenge E cid =
     bindIO newResponse (\<lambda>_.
     bindIO (transactionU (commenceChallenge E cid)) (\<lambda>_.
     bindIO (takeActions E [cid]) (\<lambda>_.
       outputOf (singleChannelOutput (se_version E) True))))"

section \<open>Queries\<close>

definition engineGetLedgerChannels :: "store_env \<Rightarrow> participant list \<Rightarrow> multiple_output io" where
  "engineGetLedgerChannels E ps =
     bindIO newResponse (\<lambda>_.
     bindIO (readDb (\<lambda>d. bindE (mapE (convertToInternalParticipant (se_ethers E)) ps)
       (getLedgerChannelStates E d))) (\<lambda>css.
     bindIO (forIO css (\<lambda>cs. respond (queueChannelState cs))) (\<lambda>_.
       outputOf (multipleChannelOutput (se_version E)))))"

definition engineGetChannels :: "store_env \<Rightarrow> multiple_output io" where
  "engineGetChannels E =
     bindIO newResponse (\<lambda>_.
     bindIO (readDb (getChannels E)) (\<lambda>css.
     bindIO (forIO css (\<lambda>cs. respond (queueChannelState cs))) (\<lambda>_.
       outputOf (multipleChannelOutput (se_version E)))))"

definition getState :: "store_env \<Rightarrow> bytes32 \<Rightarrow> single_output io" where
  "getState E cid =
     bindIO newResponse (\<lambda>_.
     bindIO (readDb (\<lambda>d. getChannelState E d cid)) (\<lambda>cs.
     bindIO (respond (queueChannelState cs)) (\<lambda>_.
       outputOf (singleChannelOutput (se_version E) True))))"

section \<open>Messages from a counterparty\<close>

definition answerRequest :: "store_env \<Rightarrow> channel_request \<Rightarrow> unit io" where
  "answerRequest E q =
     bindIO (readDb (\<lambda>d. getStates E d (requestChannel q))) (\<lambda>(states, cs).
       forIO states (\<lambda>s. respond (queueState (se_platform E) (se_version E) (signed_state.truncate s)
         (cs_myIndex cs) (requestChannel q))))"

text \<open>The payload has been validated against its schema before.\<close>

definition handleMessage :: "store_env \<Rightarrow> wire_payload \<Rightarrow> unit io" where
  "handleMessage E m =
     bindIO (dbTransaction (storePushMessage E m)) (\<lambda>(cids, crs, stored).
     bindIO (respond (\<lambda>r. Inr (r\<lparr>er_createdObjectives := stored\<rparr>))) (\<lambda>_.
     bindIO (forIO (orEmpty (wp_requests m)) (answerRequest E)) (\<lambda>_.
     bindIO (respond (\<lambda>r. Inr (fold queueChannelResult crs r))) (\<lambda>_.
       takeActions E (uniq (cids @ map requestChannel (orEmpty (wp_requests m))))))))"

definition catchIO :: "('s, 'a) sio \<Rightarrow> (error \<Rightarrow> error) \<Rightarrow> ('s, 'a) sio" where
  "catchIO m f w =
     (case m w of
        None \<Rightarrow> None
      | Some (w1, Inl e) \<Rightarrow> Some (w1, Inl (f e))
      | Some (w1, Inr x) \<Rightarrow> Some (w1, Inr x))"

definition pushMessage :: "store_env \<Rightarrow> wire_payload \<Rightarrow> multiple_output io" where
  "pushMessage E m =
     bindIO newResponse (\<lambda>_.
       catchIO (bindIO (handleMessage E m) (\<lambda>_. outputOf (multipleChannelOutput (se_version E))))
         PushMessageError)"

text \<open>\<open>handlers/single-app-updater.ts\<close>\<close>

definition singleAppUpdate :: "store_env \<Rightarrow> wire_payload \<Rightarrow> unit io" where
  "singleAppUpdate E m =
     (case orEmpty (wp_signedStates m) of
        [ws] \<Rightarrow>
          if wp_objectives m \<noteq> None
          then throwIO (Error ''The payload sent to pushUpdate must not contain objectives.'')
          else if wp_requests m \<noteq> None
          then throwIO (Error ''The payload sent to pushUpdate must not contain requests.'')
          else transactionU (\<lambda>w.
            bindE (addSignedState E (ws_channelId ws) ws (w_db w)) (\<lambda>(c, d).
              if ch_isLedgerChannel c
              then Inl (Error ''The update sent to pushUpdate must be for an application channel'')
              else if \<not> isRunning (se_platform E) c
              then Inl (Error ''The update sent to pushUpdate must be for a running channel'')
              else queueChannelW E c (w\<lparr>w_db := d\<rparr>)))
      | _ \<Rightarrow> throwIO (Error ''The payload sent to pushUpdate must contain exactly 1 signedState.''))"

definition pushUpdate :: "store_env \<Rightarrow> wire_payload \<Rightarrow> single_output io" where
  "pushUpdate E m =
     bindIO newResponse (\<lambda>_. bindIO (singleAppUpdate E m) (\<lambda>_.
       outputOf (singleChannelOutput (se_version E) True)))"

end
