(* ===== verification/ChannelAdvance.thy ===== *)
theory ChannelAdvance
  imports ChannelStates
begin

text \<open>
  A stored channel only moves forward: what a row of stored states satisfies after every write, and
  that adding a state, with the garbage collection that follows, never loses this participant's
  latest signature.
\<close>

section \<open>Well-formed rows of states\<close>

text \<open>A signature names one signer, the hash names one state.\<close>

definition consistentSigs :: "signature_entry list \<Rightarrow> bool" where
  "consistentSigs gs \<longleftrightarrow> (\<forall>g \<in> set gs. \<forall>h \<in> set gs. signature g = signature h \<longrightarrow> signer g = signer h)"

definition statesOk :: "signed_vars list \<Rightarrow> bool" where
  "statesOk vs \<longleftrightarrow> descending vs \<and> distinct (map v_stateHash vs) \<and>
     (\<forall>v \<in> set vs. consistentSigs (v_signatures v))"

lemma statesOk_Nil [simp]: "statesOk []"
  by (simp add: statesOk_def descending_def)

lemma signers_uniqBy: "consistentSigs gs \<Longrightarrow> signer ` set (uniqBy signature gs) = signer ` set gs"
proof (intro subset_antisym subsetI)
  fix a assume c: "consistentSigs gs" and "a \<in> signer ` set gs"
  then obtain g where g: "g \<in> set gs" "a = signer g" by auto
  then have "signature g \<in> signature ` set (uniqBy signature gs)" by simp
  then obtain h where h: "h \<in> set (uniqBy signature gs)" "signature h = signature g"
    by (metis imageE)
  with set_uniqBy_subset have "h \<in> set gs" by fastforce
  with c g h have "signer h = signer g" unfolding consistentSigs_def by blast
  with h(1) g(2) show "a \<in> signer ` set (uniqBy signature gs)" by (metis image_eqI)
qed (use set_uniqBy_subset [of signature gs] in auto)

text \<open>The entries that are there already come first, so they survive whatever is merged in.\<close>

lemma signers_merge:
  assumes "consistentSigs gs"
  shows "signer ` set gs \<subseteq> signer ` set (uniqBy signature (gs @ hs))"
proof -
  have "uniqBy signature (gs @ hs) =
    uniqBy signature gs @ filter (\<lambda>h. signature h \<notin> signature ` set gs) (uniqBy signature hs)" for gs
    by (induction gs) (auto intro: filter_cong)
  then show ?thesis by (auto simp flip: signers_uniqBy [OF assms])
qed

lemma consistentSigs_uniqBy: "consistentSigs (uniqBy signature gs)"
  using distinct_map_uniqBy [of signature gs]
  by (auto simp: consistentSigs_def distinct_map dest: inj_onD)

lemma updateFirst_cases: "x \<in> set (updateFirst Q f xs) \<Longrightarrow> x \<in> set xs \<or> (\<exists>y \<in> set xs. Q y \<and> x = f y)"
  by (induction xs) (auto split: if_splits)

lemma updateFirst_keeps: "x \<in> set xs \<Longrightarrow> x \<in> set (updateFirst Q f xs) \<or> (Q x \<and> f x \<in> set (updateFirst Q f xs))"
  by (induction xs) auto

lemma map_updateFirst_key: "(\<And>x. k (f x) = k x) \<Longrightarrow> map k (updateFirst Q f xs) = map k xs"
  by (induction xs) auto

lemma addState_hashes:
  assumes "distinct (map v_stateHash vs)"
  shows "distinct (map v_stateHash (addState vs s))"
  using assms by (auto simp: addState_def dropNonVariables_def map_updateFirst_key find_None_iff split: option.splits)

lemma addState_consistent:
  assumes "\<forall>v \<in> set vs. consistentSigs (v_signatures v)" and "consistentSigs (signatures s)"
  shows "\<forall>v \<in> set (addState vs s). consistentSigs (v_signatures v)"
  using assms by (auto simp: addState_def dropNonVariables_def consistentSigs_uniqBy
      dest!: updateFirst_cases split: option.splits)

lemma addState_keeps_mine:
  assumes "v \<in> set vs" and "signedByAddress me v" and "consistentSigs (v_signatures v)"
  shows "\<exists>v' \<in> set (addState vs s). signedByAddress me v' \<and> v_turnNum v' = v_turnNum v"
proof (cases "find (\<lambda>v. v_stateHash v = stateHash s) vs")
  case None
  with assms show ?thesis by (auto simp: addState_def)
next
  case (Some y)
  let ?f = "\<lambda>v. v\<lparr>v_signatures := uniqBy signature (v_signatures v @ signatures s)\<rparr>"
  have mine: "signedByAddress me w \<longleftrightarrow> me \<in> signer ` set (v_signatures w)" for w
    by (auto simp: signedByAddress_def)
  have "signedByAddress me (?f v)"
    using assms(2) signers_merge [OF assms(3), of "signatures s"] unfolding mine by auto
  with assms(1,2) updateFirst_keeps [OF assms(1), of "\<lambda>v. v_stateHash v = stateHash s" ?f] Some
  show ?thesis by (fastforce simp: addState_def)
qed

section \<open>Garbage collection keeps this participant's latest signature\<close>

lemma rev_sorted_turns: "sorted_wrt (\<ge>) (map v_turnNum (rev (sort_key v_turnNum vs)))"
proof -
  have "sorted (map v_turnNum (sort_key v_turnNum vs))" by simp
  then show ?thesis by (simp only: sorted_wrt_rev flip: rev_map)
qed

lemma findIndex_last:
  assumes "distinct (map k xs)" and "x \<in> set xs"
  shows "\<exists>pre post. xs = pre @ x # post \<and> take (nat (findIndex (\<lambda>y. k y = k x) xs + 1)) xs = pre @ [x]"
proof -
  from assms(2) obtain pre post where xs: "xs = pre @ x # post" by (auto simp: in_set_conv_decomp)
  with findIndex_split [OF assms(1) this] show ?thesis
    by (intro exI [of _ pre] exI [of _ post]) (simp add: nat_add_distrib)
qed

lemma clearOldStates_keeps_late:
  assumes "distinct (map v_stateHash (ch_vars c))" and "support P c \<noteq> []"
  shows "\<exists>x. spreadVars (channelConstants c) x = last (support P c) \<and>
    x \<in> set (clearOldStates (ch_vars c) (Some (support P c))) \<and>
    {v \<in> set (ch_vars c). v_turnNum v > v_turnNum x} \<subseteq>
      set (clearOldStates (ch_vars c) (Some (support P c)))"
proof -
  let ?vs = "rev (sort_key v_turnNum (ch_vars c))"
  have "last (support P c) \<in> set (sortedStates c)"
  proof -
    from support_segment [OF assms(2)] obtain before seg post where
      "sortedStates c = before @ seg @ post" "support P c = filter (moverSigned (participants c)) seg" by blast
    then have "set (support P c) \<subseteq> set (sortedStates c)" by auto
    with last_in_set [OF assms(2)] show ?thesis by blast
  qed
  then obtain x where x: "x \<in> set (ch_vars c)" "spreadVars (channelConstants c) x = last (support P c)"
    by (auto simp: set_sortedStates signedStates'_def)
  have "x \<in> set ?vs" "distinct (map v_stateHash ?vs)" using x(1) assms(1) by (auto simp: distinct_map)
  from findIndex_last [OF this(2,1)] obtain pre post where vs: "?vs = pre @ x # post"
    and t: "take (nat (findIndex (\<lambda>y. v_stateHash y = v_stateHash x) ?vs + 1)) ?vs = pre @ [x]" by blast
  have "stateHash (last (support P c)) = v_stateHash x" by (simp flip: x(2))
  then have clear: "clearOldStates (ch_vars c) (Some (support P c)) = pre @ [x]"
    using assms(2) t by (cases "support P c") (auto simp: clearOldStates_def Let_def)
  have late: "v_turnNum v \<le> v_turnNum x" if "v \<in> set post" for v
    using rev_sorted_turns [of "ch_vars c"] that unfolding vs by (auto simp: sorted_wrt_append)
  have "set (ch_vars c) = set (pre @ x # post)" unfolding vs [symmetric] by simp
  with late have "{v \<in> set (ch_vars c). v_turnNum v > v_turnNum x} \<subseteq> set (pre @ [x])" by fastforce
  with x(2) clear show ?thesis by auto
qed

lemma support_turns:
  assumes "s \<in> set (support P c)"
  shows "s = last (support P c) \<or> turnNum (last (support P c)) < turnNum s"
proof -
  from assms have ne: "support P c \<noteq> []" by auto
  from support_segment [OF ne] obtain seg where l: "linked P (\<not> isNullApp P c) seg"
    and f: "support P c = filter (moverSigned (participants c)) seg" by blast
  have "successively (>) (map turnNum seg)"
    using linked_turnNums [OF l] unfolding successively_map by (rule successively_mono) simp
  then have "sorted_wrt (>) (map turnNum seg)"
    by (subst (asm) successively_conv_sorted_wrt) (auto intro: transpI)
  then have "sorted_wrt (\<lambda>a b. turnNum b < turnNum a) (support P c)"
    unfolding f sorted_wrt_map by (rule sorted_wrt_filter)
  moreover have "support P c = butlast (support P c) @ [last (support P c)]" using ne by simp
  ultimately have "\<forall>a \<in> set (butlast (support P c)). turnNum (last (support P c)) < turnNum a"
    by (metis (no_types, lifting) list.set_intros(1) sorted_wrt_append)
  with assms show ?thesis
    by (metis append_butlast_last_id ne rotate1.simps(2) set_ConsD set_rotate1)
qed

lemma signed_spreadVars:
  "me \<in> signer ` set (signatures (spreadVars cc v)) \<longleftrightarrow> signedByAddress me v"
  by (auto simp: signedByAddress_def)

lemma clearOldStates_keeps_mine:
  assumes hashes: "distinct (map v_stateHash (ch_vars c))"
    and me: "me \<in> signingAddress ` set (participants c)"
    and v: "v \<in> set (ch_vars c)" "signedByAddress me v"
  shows "\<exists>v' \<in> set (clearOldStates (ch_vars c) (if isSupported P c then Some (support P c) else None)).
    signedByAddress me v' \<and> v_turnNum v \<le> v_turnNum v'"
proof (cases "isSupported P c")
  case False
  with v show ?thesis by (auto simp: clearOldStates_def)
next
  case True
  then have ne: "support P c \<noteq> []" by (auto simp: isSupported_def supported_def)
  from clearOldStates_keeps_late [OF hashes ne] obtain x where
    x: "spreadVars (channelConstants c) x = last (support P c)"
    and kept: "x \<in> set (clearOldStates (ch_vars c) (Some (support P c)))"
    and late: "{v \<in> set (ch_vars c). v_turnNum v > v_turnNum x} \<subseteq>
      set (clearOldStates (ch_vars c) (Some (support P c)))" by blast
  show ?thesis
  proof (cases "v_turnNum v > v_turnNum x")
    case True
    with v late \<open>isSupported P c\<close> show ?thesis by auto
  next
    case False
    from support_segment [OF ne] me obtain s where s: "s \<in> set (support P c)" "me \<in> signer ` set (signatures s)"
      unfolding everyoneIn_def by blast
    have "s \<in> set (sortedStates c)"
      using support_segment [OF ne] s(1) by auto
    then obtain y where y: "y \<in> set (ch_vars c)" "s = spreadVars (channelConstants c) y"
      by (auto simp: set_sortedStates signedStates'_def)
    have "signedByAddress me y" using s(2) unfolding y(2) signed_spreadVars .
    moreover have "turnNum (last (support P c)) = v_turnNum x" by (simp flip: x)
    then have "s = last (support P c) \<or> v_turnNum x < v_turnNum y"
      using support_turns [OF s(1)] by (simp add: y(2))
    ultimately show ?thesis
    proof (elim disjE)
      assume "s = last (support P c)"
      with s(2) have "signedByAddress me x" by (simp only: signed_spreadVars flip: x)
      with kept False \<open>isSupported P c\<close> show ?thesis by auto
    next
      assume "signedByAddress me y" "v_turnNum x < v_turnNum y"
      with y(1) late False \<open>isSupported P c\<close> show ?thesis by fastforce
    qed
  qed
qed

section \<open>Writing a state moves the channel forward\<close>

definition latestTurn :: "channel \<Rightarrow> int option" where
  "latestTurn c = map_option turnNum (latestSignedByMe c)"

definition notBefore :: "channel \<Rightarrow> channel \<Rightarrow> bool" where
  "notBefore c c' \<longleftrightarrow> (\<forall>n. latestTurn c = Some n \<longrightarrow> (\<exists>n'. latestTurn c' = Some n' \<and> n \<le> n'))"

lemma notBefore_refl [simp]: "notBefore c c"
  by (simp add: notBefore_def)

lemma notBefore_trans: "notBefore c c' \<Longrightarrow> notBefore c' c'' \<Longrightarrow> notBefore c c''"
  unfolding notBefore_def by (meson order_trans)

definition knowsMe :: "channel \<Rightarrow> bool" where
  "knowsMe c \<longleftrightarrow> ch_signingAddress c \<in> signingAddress ` set (participants c)"

lemma knowsMe_myIndex: "knowsMe c \<Longrightarrow> 0 \<le> myIndex c \<and> myIndex c < nParticipants c \<and>
    signingAddress (participants c ! nat (myIndex c)) = ch_signingAddress c"
proof -
  let ?Q = "\<lambda>p. signingAddress p = ch_signingAddress c"
  assume "knowsMe c"
  then have "findIndex ?Q (participants c) \<noteq> -1" by (auto simp: findIndex_neg_iff knowsMe_def)
  with findIndex_ge [of ?Q "participants c"] have nonneg: "0 \<le> findIndex ?Q (participants c)" by linarith
  with findIndex_nonneg [OF this] show ?thesis unfolding myIndex_def nParticipants_def by linarith
qed

lemma knowsMe_myAddress: "knowsMe c \<Longrightarrow> myAddress c = Inr (ch_signingAddress c)"
  using knowsMe_myIndex by (simp add: myAddress_def participantAt_def)

text \<open>Every write of a state keeps the row well-formed and this participant's latest turn.\<close>

lemma storeState_vars:
  assumes "storeState P c s = Inr c'"
  shows "c' = c\<lparr>ch_vars := ch_vars c'\<rparr> \<and> descending (ch_vars c') \<and>
    ch_vars c' = clearOldStates (addState (ch_vars c) s)
      (if isSupported P (c\<lparr>ch_vars := addState (ch_vars c) s\<rparr>)
       then Some (support P (c\<lparr>ch_vars := addState (ch_vars c) s\<rparr>)) else None)"
  using assms by (auto simp: storeState_def Let_def bindE_eq_Inr dest: validateInvariants_descending)

lemma clearOldStates_take: "\<exists>n. clearOldStates vs supp = take n (rev (sort_key v_turnNum vs))"
  by (auto simp: clearOldStates_def Let_def split: option.splits list.splits intro: exI [of _ "length vs"])

lemma storeState_statesOk:
  assumes "storeState P c s = Inr c'" and "statesOk (ch_vars c)" and "consistentSigs (signatures s)"
  shows "statesOk (ch_vars c')"
proof -
  let ?vs = "addState (ch_vars c) s"
  from storeState_vars [OF assms(1)] clearOldStates_take obtain n
    where d: "descending (ch_vars c')" and t: "ch_vars c' = take n (rev (sort_key v_turnNum ?vs))" by metis
  have "distinct (map v_stateHash ?vs)" using assms(2) by (simp add: addState_hashes statesOk_def)
  then have "distinct (map v_stateHash (rev (sort_key v_turnNum ?vs)))" by (simp add: distinct_map)
  then have "distinct (map v_stateHash (ch_vars c'))" unfolding t take_map [symmetric] by (rule distinct_take)
  moreover have "set (ch_vars c') \<subseteq> set ?vs" unfolding t using set_take_subset by fastforce
  then have "\<forall>v \<in> set (ch_vars c'). consistentSigs (v_signatures v)"
    using addState_consistent [of "ch_vars c" s] assms(2,3) unfolding statesOk_def by blast
  ultimately show ?thesis using d by (simp add: statesOk_def)
qed

lemma myAddress_vars [simp]: "myAddress (c\<lparr>ch_vars := vs\<rparr>) = myAddress c"
  by (simp add: myAddress_def participantAt_def myIndex_def nParticipants_def)

lemma signed_in_vars:
  assumes "myAddress c = Inr me" and "latestSignedByMe c = Some m"
  shows "\<exists>v \<in> set (ch_vars c). signedByAddress me v \<and> v_turnNum v = turnNum m"
proof -
  from assms(2) have "m \<in> set (signedByMe c)" by (auto simp: latestSignedByMe_def split: list.splits)
  then have "m \<in> spreadVars (channelConstants c) ` set (ch_vars c)"
    and signed: "list_ex (\<lambda>g. myAddress c = Inr (signer g)) (signatures m)"
    unfolding signedByMe_def signedStates'_def set_filter set_map by blast+
  then obtain v where v: "v \<in> set (ch_vars c)" "m = spreadVars (channelConstants c) v" by blast
  have "signedByAddress me v"
    using signed unfolding assms(1) list_ex_iff signedByAddress_def v(2) by auto
  with v show ?thesis by auto
qed

lemma storeState_notBefore:
  assumes "storeState P c s = Inr c'" and "statesOk (ch_vars c)" and "knowsMe c"
  shows "notBefore c c'"
  unfolding notBefore_def
proof (intro allI impI)
  fix n
  assume "latestTurn c = Some n"
  then obtain m where m: "latestSignedByMe c = Some m" "turnNum m = n" by (auto simp: latestTurn_def)
  note me = knowsMe_myAddress [OF assms(3)]
  from storeState_vars [OF assms(1)] have c': "c' = c\<lparr>ch_vars := ch_vars c'\<rparr>" "descending (ch_vars c')"
    and vars: "ch_vars c' = clearOldStates (addState (ch_vars c) s)
      (if isSupported P (c\<lparr>ch_vars := addState (ch_vars c) s\<rparr>)
       then Some (support P (c\<lparr>ch_vars := addState (ch_vars c) s\<rparr>)) else None)" by blast+
  from signed_in_vars [OF me m(1)] obtain v where v: "v \<in> set (ch_vars c)"
    "signedByAddress (ch_signingAddress c) v" "v_turnNum v = n" using m(2) by auto
  with assms(2) have "consistentSigs (v_signatures v)" by (simp add: statesOk_def)
  from addState_keeps_mine [OF v(1,2) this, of s] obtain w where
    w: "w \<in> set (addState (ch_vars c) s)" "signedByAddress (ch_signingAddress c) w" "v_turnNum w = n"
    using v(3) by auto
  have "distinct (map v_stateHash (ch_vars (c\<lparr>ch_vars := addState (ch_vars c) s\<rparr>)))"
    using assms(2) by (simp add: statesOk_def addState_hashes)
  from clearOldStates_keeps_mine [OF this, of "ch_signingAddress c" w P] w assms(3) obtain x where
    x: "x \<in> set (ch_vars c')" "signedByAddress (ch_signingAddress c) x" "n \<le> v_turnNum x"
    by (auto simp: vars knowsMe_def)
  have "myAddress c' = Inr (ch_signingAddress c)" by (subst c'(1)) (simp add: me)
  from latestSignedByMe_max [OF c'(2) this x(1,2)] x(3)
  show "\<exists>n'. latestTurn c' = Some n' \<and> n \<le> n'" by (auto simp: latestTurn_def)
qed

lemma signStateOn_stores:
  assumes "signStateOn P skipEvm getBytecode wallet c v = Inr (c', s)"
  shows "storeState P c s = Inr c' \<and> consistentSigs (signatures s)"
proof -
  from signStateOn_stages [OF assms] obtain t entry where
    "s = t\<lparr>signatures := [entry]\<rparr>" "addMyState P c s = Inr c'" by blast
  then show ?thesis
    by (auto simp: addMyState_def bindE_eq_Inr consistentSigs_def split: if_splits)
qed

lemma addSignedStateOn_stores:
  "addSignedStateOn P skipEvm getBytecode c s = Inr c' \<Longrightarrow> storeState P c s = Inr c'"
  by (auto simp: addSignedStateOn_def bindE_eq_Inr)

end
