(* ===== verification/DatabaseFacts.thy ===== *)
theory DatabaseFacts
  imports Database ChannelAdvance LedgerFacts
begin

text \<open>
  The invariant of the database and the facts about its operations. Every update of the models is an
  interpretation of the locale of updates that keep the key, which gives the frame conditions;
  the invariant is a conjunction of one condition per table.
\<close>

section \<open>The updates keep the keys\<close>

interpretation amounts: keyed_update fundingKey setAmount
  by unfold_locales (simp add: fundingKey_def setAmount_def)

interpretation transfers: keyed_update fundingKey addTransferred
  by unfold_locales (simp add: fundingKey_def addTransferred_def)

interpretation blocks: keyed_update as_channelId setBlock
  by unfold_locales (simp add: setBlock_def)

interpretation nonces: keyed_update n_addresses setValue
  by unfold_locales (simp add: setValue_def)

interpretation bytecodes: keyed_update bytecodeKey setBytecode
  by unfold_locales (simp add: bytecodeKey_def setBytecode_def)

interpretation retries: keyed_update chainRequestKey retryRequest
  by unfold_locales (simp add: chainRequestKey_def retryRequest_def)

interpretation statuses: keyed_update requestKey patchStatus
  by unfold_locales (simp add: requestKey_def patchStatus_def)

interpretation saves: keyed_update requestKey overwrite
  by unfold_locales (simp add: overwrite_def)

interpretation overrides: keyed_update o_objectiveId overrideObjective
  by unfold_locales (simp add: overrideObjective_def)

interpretation objectiveStatuses: keyed_update o_objectiveId setObjectiveStatus
  by unfold_locales (simp add: setObjectiveStatus_def)

interpretation objectiveProgress: keyed_update o_objectiveId setProgress
  by unfold_locales (simp add: setProgress_def)

interpretation channelVars: keyed_update ch_channelId setVars
  by unfold_locales (simp add: setVars_def)

interpretation channelSupports: keyed_update ch_channelId setSupport
  by unfold_locales (simp add: setSupport_def)

interpretation channelLedgers: keyed_update ch_channelId setIsLedger
  by unfold_locales (simp add: setIsLedger_def)

interpretation channelFunding: keyed_update ch_channelId setFundingSource
  by unfold_locales (simp add: setFundingSource_def)

section \<open>Conditions on the tables\<close>

definition channelOk :: "platform \<Rightarrow> channel \<Rightarrow> bool" where
  "channelOk P c \<longleftrightarrow>
     ch_channelId c = calculateChannelId P c \<and> knowsMe c \<and> statesOk (ch_vars c) \<and>
     ch_funding c = None \<and> ch_adjudicatorStatus c = None \<and> ch_chainServiceRequests c = None"

definition channelsOk :: "platform \<Rightarrow> db \<Rightarrow> bool" where
  "channelsOk P d \<longleftrightarrow> uniqueKey ch_channelId (db_channels d) \<and> (\<forall>c \<in> set (db_channels d). channelOk P c)"

definition requestsOk :: "db \<Rightarrow> bool" where
  "requestsOk d \<longleftrightarrow> uniqueKey requestKey (db_ledgerRequests d) \<and>
     (\<forall>r \<in> set (db_ledgerRequests d). hasChannel d (ledgerChannelId r) \<and> hasChannel d (channelToBeFunded r))"

definition objectivesOk :: "db \<Rightarrow> bool" where
  "objectivesOk d \<longleftrightarrow> uniqueKey o_objectiveId (db_objectives d) \<and>
     (\<forall>m \<in> set (db_objectives d). o_objectiveId m = objectiveId (o_objective m))"

definition chainTablesOk :: "db \<Rightarrow> bool" where
  "chainTablesOk d \<longleftrightarrow> uniqueKey fundingKey (db_funding d) \<and> uniqueKey as_channelId (db_adjudicatorStatus d) \<and>
     uniqueKey chainRequestKey (db_chainServiceRequests d) \<and> length (db_signingWallets d) \<le> 1"

text \<open>The nonces table is ahead of every channel between the same addresses.\<close>

definition noncesOk :: "db \<Rightarrow> bool" where
  "noncesOk d \<longleftrightarrow> uniqueKey n_addresses (db_nonces d) \<and>
     (\<forall>c \<in> set (db_channels d). \<exists>r \<in> set (db_nonces d).
        n_addresses r = map signingAddress (participants c) \<and> channelNonce c \<le> n_value r)"

definition wfDb :: "platform \<Rightarrow> db \<Rightarrow> bool" where
  "wfDb P d \<longleftrightarrow> channelsOk P d \<and> requestsOk d \<and> objectivesOk d \<and> chainTablesOk d \<and> noncesOk d"

lemma wfDb_empty: "wfDb P emptyDb"
  by (simp add: wfDb_def channelsOk_def requestsOk_def objectivesOk_def chainTablesOk_def noncesOk_def
      emptyDb_def)

text \<open>Each condition reads only its own tables.\<close>

lemma conditions_frame [simp]:
  "channelsOk P (d\<lparr>db_nonces := ns\<rparr>) = channelsOk P d"
  "channelsOk P (d\<lparr>db_funding := fs\<rparr>) = channelsOk P d"
  "channelsOk P (d\<lparr>db_adjudicatorStatus := as\<rparr>) = channelsOk P d"
  "channelsOk P (d\<lparr>db_chainServiceRequests := rs\<rparr>) = channelsOk P d"
  "channelsOk P (d\<lparr>db_objectives := os\<rparr>) = channelsOk P d"
  "channelsOk P (d\<lparr>db_objectivesChannels := ocs\<rparr>) = channelsOk P d"
  "channelsOk P (d\<lparr>db_ledgerRequests := lrs\<rparr>) = channelsOk P d"
  "channelsOk P (d\<lparr>db_bytecodeCache := bs\<rparr>) = channelsOk P d"
  "channelsOk P (d\<lparr>db_appBytecode := bcs\<rparr>) = channelsOk P d"
  "channelsOk P (d\<lparr>db_signingWallets := ws\<rparr>) = channelsOk P d"
  by (simp_all add: channelsOk_def)

lemma hasChannel_frame [simp]:
  "hasChannel (d\<lparr>db_nonces := ns\<rparr>) cid = hasChannel d cid"
  "hasChannel (d\<lparr>db_funding := fs\<rparr>) cid = hasChannel d cid"
  "hasChannel (d\<lparr>db_adjudicatorStatus := as\<rparr>) cid = hasChannel d cid"
  "hasChannel (d\<lparr>db_chainServiceRequests := rs\<rparr>) cid = hasChannel d cid"
  "hasChannel (d\<lparr>db_objectives := os\<rparr>) cid = hasChannel d cid"
  "hasChannel (d\<lparr>db_objectivesChannels := ocs\<rparr>) cid = hasChannel d cid"
  "hasChannel (d\<lparr>db_ledgerRequests := lrs\<rparr>) cid = hasChannel d cid"
  "hasChannel (d\<lparr>db_bytecodeCache := bs\<rparr>) cid = hasChannel d cid"
  "hasChannel (d\<lparr>db_appBytecode := bcs\<rparr>) cid = hasChannel d cid"
  "hasChannel (d\<lparr>db_signingWallets := ws\<rparr>) cid = hasChannel d cid"
  by (simp_all add: hasChannel_def)

section \<open>Operations of the models keep the invariant\<close>

lemma wf_updateFunding: "updateFunding cid n a d = Inr d' \<Longrightarrow> wfDb P d \<Longrightarrow> wfDb P d'"
  by (auto simp: updateFunding_def bindE_eq_Inr wfDb_def requestsOk_def objectivesOk_def chainTablesOk_def
      noncesOk_def amounts.unique_patch uniqueKey_insert split: option.splits)

lemma wf_updateTransferredOut: "updateTransferredOut cid a ts d = Inr d' \<Longrightarrow> wfDb P d \<Longrightarrow> wfDb P d'"
  by (auto simp: updateTransferredOut_def wfDb_def requestsOk_def objectivesOk_def chainTablesOk_def
      noncesOk_def transfers.unique_patch split: option.splits)

lemma wf_insertAdjudicatorRow: "insertAdjudicatorRow r d = Inr d' \<Longrightarrow> wfDb P d \<Longrightarrow> wfDb P d'"
  by (auto simp: insertAdjudicatorRow_def bindE_eq_Inr wfDb_def requestsOk_def objectivesOk_def
      chainTablesOk_def noncesOk_def uniqueKey_insert)

lemma wf_blocks:
  "wfDb P d \<Longrightarrow> wfDb P (d\<lparr>db_adjudicatorStatus :=
     patchWhere (\<lambda>r. as_channelId r = cid) (setBlock b) (db_adjudicatorStatus d)\<rparr>)"
  by (auto simp: wfDb_def requestsOk_def objectivesOk_def chainTablesOk_def noncesOk_def blocks.unique_patch)

lemma wf_setFinalized: "setFinalized cid n t f d = Inr (r, d') \<Longrightarrow> wfDb P d \<Longrightarrow> wfDb P d'"
  by (auto simp: setFinalized_def bindE_eq_Inr Let_def intro: wf_blocks wf_insertAdjudicatorRow
      split: option.splits)

lemma wf_insertAdjudicatorStatus:
  "insertAdjudicatorStatus cid f ss d = Inr (r, d') \<Longrightarrow> wfDb P d \<Longrightarrow> wfDb P d'"
  by (auto simp: insertAdjudicatorStatus_def bindE_eq_Inr Let_def intro: wf_insertAdjudicatorRow)

lemma wf_insertOrUpdate: "insertOrUpdate now cid q d = Inr d' \<Longrightarrow> wfDb P d \<Longrightarrow> wfDb P d'"
  by (auto simp: insertOrUpdate_def bindE_eq_Inr wfDb_def requestsOk_def objectivesOk_def
      chainTablesOk_def noncesOk_def retries.unique_merge)

lemma wf_insertSigningWallet:
  "insertSigningWallet P key a d = Inr (w, d') \<Longrightarrow> wfDb Q d \<Longrightarrow> wfDb Q d'"
  by (auto simp: insertSigningWallet_def bindE_eq_Inr Let_def wfDb_def requestsOk_def objectivesOk_def
      chainTablesOk_def noncesOk_def)

lemma wf_cache [simp]: "wfDb P (d\<lparr>db_bytecodeCache := bs\<rparr>) = wfDb P d"
  by (simp add: wfDb_def requestsOk_def objectivesOk_def chainTablesOk_def noncesOk_def)

lemma wf_appBytecode [simp]: "wfDb P (d\<lparr>db_appBytecode := bs\<rparr>) = wfDb P d"
  by (simp add: wfDb_def requestsOk_def objectivesOk_def chainTablesOk_def noncesOk_def)

lemma wf_objectivesChannels [simp]: "wfDb P (d\<lparr>db_objectivesChannels := bs\<rparr>) = wfDb P d"
  by (simp add: wfDb_def requestsOk_def objectivesOk_def chainTablesOk_def noncesOk_def)

end
