(* ===== verification/Advance.thy ===== *)
theory Advance
  imports DatabaseFacts Response
begin

text \<open>
  How an operation may change the database. \<open>advances\<close> holds of every operation: the invariant stays,
  an ended ledger request stays as it is, and no channel goes back behind the latest state this
  participant has signed. \<open>calm\<close> is the stronger relation of the operations that write no state: the
  constants, the signing address and the states of every channel stay.
\<close>

section \<open>The relations\<close>

definition channelCore :: "channel \<Rightarrow> channel_constants \<times> bytes32 \<times> address \<times> signed_vars list" where
  "channelCore c = (channelConstants c, ch_channelId c, ch_signingAddress c, ch_vars c)"

definition continues :: "channel \<Rightarrow> channel \<Rightarrow> bool" where
  "continues c c' \<longleftrightarrow> channelConstants c' = channelConstants c \<and> ch_channelId c' = ch_channelId c \<and>
     ch_signingAddress c' = ch_signingAddress c \<and> notBefore c c'"

definition endedKept :: "db \<Rightarrow> db \<Rightarrow> bool" where
  "endedKept d d' \<longleftrightarrow>
     (\<forall>r \<in> set (db_ledgerRequests d). \<not> isActive r \<longrightarrow> r \<in> set (db_ledgerRequests d'))"

definition channelsKept :: "db \<Rightarrow> db \<Rightarrow> bool" where
  "channelsKept d d' \<longleftrightarrow> (\<forall>c \<in> set (db_channels d). \<exists>c' \<in> set (db_channels d'). continues c c')"

definition channelIds :: "db \<Rightarrow> bytes32 list" where
  "channelIds d = map ch_channelId (db_channels d)"

definition advances :: "platform \<Rightarrow> db \<Rightarrow> db \<Rightarrow> bool" where
  "advances P d d' \<longleftrightarrow> (wfDb P d \<longrightarrow> wfDb P d' \<and> endedKept d d' \<and> channelsKept d d')"

definition cranks :: "platform \<Rightarrow> db \<Rightarrow> db \<Rightarrow> bool" where
  "cranks P d d' \<longleftrightarrow> (wfDb P d \<longrightarrow> advances P d d' \<and> channelIds d' = channelIds d)"

definition calm :: "platform \<Rightarrow> db \<Rightarrow> db \<Rightarrow> bool" where
  "calm P d d' \<longleftrightarrow> (wfDb P d \<longrightarrow> wfDb P d' \<and> endedKept d d' \<and>
     map channelCore (db_channels d') = map channelCore (db_channels d))"

lemma continues_refl [simp]: "continues c c"
  by (simp add: continues_def)

lemma continues_trans: "continues c c' \<Longrightarrow> continues c' c'' \<Longrightarrow> continues c c''"
  unfolding continues_def by (metis notBefore_trans)

lemma endedKept_refl [simp]: "endedKept d d"
  by (simp add: endedKept_def)

lemma endedKept_trans: "endedKept d d' \<Longrightarrow> endedKept d' d'' \<Longrightarrow> endedKept d d''"
  by (simp add: endedKept_def)

lemma channelsKept_refl [simp]: "channelsKept d d"
  unfolding channelsKept_def using continues_refl by blast

lemma channelsKept_trans: "channelsKept d d' \<Longrightarrow> channelsKept d' d'' \<Longrightarrow> channelsKept d d''"
  unfolding channelsKept_def by (meson continues_trans)

lemma advances_refl [simp]: "advances P d d"
  by (simp add: advances_def)

lemma advances_trans: "advances P d d' \<Longrightarrow> advances P d' d'' \<Longrightarrow> advances P d d''"
  unfolding advances_def by (meson endedKept_trans channelsKept_trans)

lemma cranks_refl [simp]: "cranks P d d"
  by (simp add: cranks_def)

lemma cranks_trans: "cranks P d d' \<Longrightarrow> cranks P d' d'' \<Longrightarrow> cranks P d d''"
  unfolding cranks_def advances_def by (metis endedKept_trans channelsKept_trans)

lemma calm_refl [simp]: "calm P d d"
  by (simp add: calm_def)

lemma calm_trans: "calm P d d' \<Longrightarrow> calm P d' d'' \<Longrightarrow> calm P d d''"
  unfolding calm_def by (metis endedKept_trans)

text \<open>The order of the three.\<close>

lemma participants_constants: "participants c = participants (channelConstants c)"
  by (simp add: channelConstants_def channel_constants.truncate_def)

lemma latestTurn_core: "channelCore c = channelCore c' \<Longrightarrow> latestTurn c = latestTurn c'"
  by (simp add: channelCore_def latestTurn_def latestSignedByMe_def signedByMe_def signedStates'_def
      myAddress_def participantAt_def nParticipants_def myIndex_def participants_constants [of c]
      participants_constants [of c'])

lemma continues_core: "channelCore c' = channelCore c \<Longrightarrow> continues c c'"
  using latestTurn_core [of c' c] by (auto simp: continues_def notBefore_def channelCore_def)

lemma channelsKept_core:
  assumes "map channelCore (db_channels d') = map channelCore (db_channels d)"
  shows "channelsKept d d'"
  unfolding channelsKept_def
proof
  fix c assume "c \<in> set (db_channels d)"
  then have "channelCore c \<in> set (map channelCore (db_channels d'))" by (simp add: assms)
  then obtain c' where "c' \<in> set (db_channels d')" "channelCore c' = channelCore c" by auto
  then show "\<exists>c' \<in> set (db_channels d'). continues c c'" using continues_core by blast
qed

lemma channelIds_core: "channelIds d = map (\<lambda>x. fst (snd x)) (map channelCore (db_channels d))"
  by (simp add: channelIds_def channelCore_def)

lemma calm_cranks: "calm P d d' \<Longrightarrow> cranks P d d'"
  by (simp add: calm_def cranks_def advances_def channelsKept_core channelIds_core)

lemma cranks_advances: "cranks P d d' \<Longrightarrow> advances P d d'"
  by (simp add: cranks_def advances_def)

lemmas calm_advances = calm_cranks [THEN cranks_advances]

lemma calm_wf: "calm P d d' \<Longrightarrow> wfDb P d \<Longrightarrow> wfDb P d'"
  by (simp add: calm_def)

lemma cranks_wf: "cranks P d d' \<Longrightarrow> wfDb P d \<Longrightarrow> wfDb P d'"
  by (simp add: cranks_def advances_def)

lemma advances_wf: "advances P d d' \<Longrightarrow> wfDb P d \<Longrightarrow> wfDb P d'"
  by (simp add: advances_def)

lemma calmI:
  "(wfDb P d \<Longrightarrow> wfDb P d') \<Longrightarrow> db_channels d' = db_channels d \<Longrightarrow>
   db_ledgerRequests d' = db_ledgerRequests d \<Longrightarrow> calm P d d'"
  by (simp add: calm_def endedKept_def)

text \<open>A channel object of the engine that agrees with its row.\<close>

definition synced :: "db \<Rightarrow> channel \<Rightarrow> bool" where
  "synced d c \<longleftrightarrow> channelCore c \<in> channelCore ` set (db_channels d)"

lemma synced_calm: "calm P d d' \<Longrightarrow> wfDb P d \<Longrightarrow> synced d c \<Longrightarrow> synced d' c"
  unfolding synced_def calm_def by (metis list.set_map)

lemma synced_findChannel: "findChannel d cid = Some c \<Longrightarrow> synced d c \<and> ch_channelId c = cid"
  unfolding findChannel_def using selectFirst_Some by (fastforce simp: synced_def)

section \<open>Operations on the other tables\<close>

lemma calm_updateFunding: "updateFunding cid n a d = Inr d' \<Longrightarrow> calm P d d'"
  by (rule calmI, erule (1) wf_updateFunding) (auto simp: updateFunding_def bindE_eq_Inr split: option.splits)

lemma calm_updateTransferredOut: "updateTransferredOut cid a ts d = Inr d' \<Longrightarrow> calm P d d'"
  by (rule calmI, erule (1) wf_updateTransferredOut) (auto simp: updateTransferredOut_def split: option.splits)

lemma insertAdjudicatorRow_frame:
  "insertAdjudicatorRow r d = Inr d' \<Longrightarrow>
   db_channels d' = db_channels d \<and> db_ledgerRequests d' = db_ledgerRequests d"
  by (auto simp: insertAdjudicatorRow_def bindE_eq_Inr)

lemma calm_insertAdjudicatorStatus: "insertAdjudicatorStatus cid f ss d = Inr (r, d') \<Longrightarrow> calm P d d'"
  by (rule calmI, erule (1) wf_insertAdjudicatorStatus)
     (auto simp: insertAdjudicatorStatus_def bindE_eq_Inr Let_def dest: insertAdjudicatorRow_frame)

lemma calm_setFinalized: "setFinalized cid n t f d = Inr (r, d') \<Longrightarrow> calm P d d'"
  by (rule calmI, erule (1) wf_setFinalized)
     (auto simp: setFinalized_def bindE_eq_Inr Let_def dest: insertAdjudicatorRow_frame split: option.splits)

lemma calm_insertOrUpdate: "insertOrUpdate now cid q d = Inr d' \<Longrightarrow> calm P d d'"
  by (rule calmI, erule (1) wf_insertOrUpdate) (auto simp: insertOrUpdate_def bindE_eq_Inr)

lemma calm_insertSigningWallet: "insertSigningWallet P key a d = Inr (w, d') \<Longrightarrow> calm Q d d'"
  by (rule calmI, erule (1) wf_insertSigningWallet) (auto simp: insertSigningWallet_def bindE_eq_Inr Let_def)

lemma calm_upsertBytecode: "calm P d (upsertBytecode cid app b d)"
  by (rule calmI) (simp_all add: upsertBytecode_def)

lemma calm_cache: "calm P d (d\<lparr>db_bytecodeCache := bs\<rparr>)"
  by (rule calmI) simp_all

section \<open>Nonces\<close>

lemma channelNonce_constants: "channelNonce c = channelNonce (channelConstants c)"
  by (simp add: channelConstants_def channel_constants.truncate_def)

lemma findNonce_wf:
  assumes "noncesOk d" and "r \<in> set (db_nonces d)"
  shows "findNonce d (n_addresses r) = Some r"
  unfolding findNonce_def using assms by (auto simp: noncesOk_def intro: selectFirst_unique)

text \<open>Raising a nonce keeps the table ahead of the channels.\<close>

lemma noncesOk_raise:
  assumes "noncesOk d" and "\<And>r. findNonce d as = Some r \<Longrightarrow> n_value r \<le> v"
  shows "noncesOk (d\<lparr>db_nonces := insertOrMerge n_addresses (setValue v)
    \<lparr>n_addresses = as, n_value = v\<rparr> (db_nonces d)\<rparr>)"
proof -
  let ?t = "insertOrMerge n_addresses (setValue v) \<lparr>n_addresses = as, n_value = v\<rparr> (db_nonces d)"
  have "\<exists>r' \<in> set ?t. n_addresses r' = n_addresses r \<and> n_value r \<le> n_value r'" if "r \<in> set (db_nonces d)" for r
  proof (cases "n_addresses r = as")
    case True
    with that findNonce_wf [OF assms(1) that] assms(2) have "n_value r \<le> v" by blast
    with True that show ?thesis
      by (auto simp: insertOrMerge_def set_patchWhere setValue_def intro!: bexI [of _ "r\<lparr>n_value := v\<rparr>"] rev_image_eqI [of r])
  next
    case False
    with that show ?thesis
      by (auto simp: insertOrMerge_def set_patchWhere intro!: bexI [of _ r] rev_image_eqI [of r])
  qed
  note raised = this
  have "\<exists>r' \<in> set ?t. n_addresses r' = map signingAddress (participants c) \<and> channelNonce c \<le> n_value r'"
    if c: "c \<in> set (db_channels d)" for c
  proof -
    from assms(1) c obtain r where r: "r \<in> set (db_nonces d)"
      "n_addresses r = map signingAddress (participants c)" "channelNonce c \<le> n_value r"
      unfolding noncesOk_def by blast
    with raised [OF r(1)] show ?thesis by (metis order_trans)
  qed
  moreover have "uniqueKey n_addresses ?t"
    using assms(1) by (intro nonces.unique_merge) (simp add: noncesOk_def)
  ultimately show ?thesis by (simp add: noncesOk_def)
qed

lemma calm_putNonce:
  assumes "putNonce as v d = Inr d'" and "\<And>r. findNonce d as = Some r \<Longrightarrow> n_value r \<le> v"
  shows "calm P d d'"
proof -
  from assms(1) have d': "d' = d\<lparr>db_nonces := insertOrMerge n_addresses (setValue v)
    \<lparr>n_addresses = as, n_value = v\<rparr> (db_nonces d)\<rparr>" by (auto simp: putNonce_def bindE_eq_Inr)
  have "wfDb P d'" if "wfDb P d"
    using that noncesOk_raise [of d as v] assms(2) unfolding d'
    by (simp add: wfDb_def requestsOk_def objectivesOk_def chainTablesOk_def)
  then show ?thesis by (rule calmI) (simp_all add: d')
qed

lemma calm_nextNonce: "nextNonce as d = Inr (v, d') \<Longrightarrow> calm P d d'"
  by (auto simp: nextNonce_def bindE_eq_Inr Let_def elim!: calm_putNonce)

lemma calm_ensureLatest: "ensureLatest eth v as d = Inr d' \<Longrightarrow> calm P d d'"
  by (auto simp: ensureLatest_def bindE_eq_Inr elim!: calm_putNonce)

lemma ensureLatest_covers:
  assumes "ensureLatest eth v as d = Inr d'"
  shows "\<exists>r \<in> set (db_nonces d'). n_addresses r = as \<and> v \<le> n_value r"
proof -
  let ?u = "case findNonce d as of None \<Rightarrow> v | Some r \<Rightarrow> max v (n_value r)"
  from assms have "putNonce as ?u d = Inr d'" by (auto simp: ensureLatest_def bindE_eq_Inr)
  moreover have "v \<le> ?u" by (simp split: option.split)
  ultimately obtain u where u: "v \<le> u" "putNonce as u d = Inr d'" by blast
  then have "db_nonces d' = insertOrMerge n_addresses (setValue u) \<lparr>n_addresses = as, n_value = u\<rparr> (db_nonces d)"
    by (auto simp: putNonce_def bindE_eq_Inr)
  moreover have "n_value x = u" if "x = \<lparr>n_addresses = as, n_value = u\<rparr> \<or>
      (\<exists>y \<in> set (db_nonces d). x = setValue u y)" for x
    using that by (auto simp: setValue_def)
  ultimately show ?thesis
    using u(1) nonces.merge_mem [of u "\<lparr>n_addresses = as, n_value = u\<rparr>" "db_nonces d"]
    by (metis nonce_row.select_convs(1))
qed

section \<open>Ledger requests\<close>

lemma calm_requestsI:
  assumes "d' = d\<lparr>db_ledgerRequests := t\<rparr>" and "wfDb P d \<Longrightarrow> requestsOk d'" and "wfDb P d \<Longrightarrow> endedKept d d'"
  shows "calm P d d'"
  using assms by (simp add: calm_def wfDb_def objectivesOk_def chainTablesOk_def noncesOk_def)

lemma calm_setRequestRow: "setRequestRow r d = Inr d' \<Longrightarrow> calm P d d'"
  unfolding setRequestRow_def referencesChannel_def bindE_eq_Inr
  by (elim exE conjE, rule calm_requestsI)
     (auto simp: endedKept_def insertUnique_eq wfDb_def requestsOk_def uniqueKey_insert hasChannel_def)

lemma requestKey_reqKey: "reqKey r = reqKey s \<Longrightarrow> requestKey r = requestKey s \<and> ledgerChannelId r = ledgerChannelId s"
  by (simp add: reqKey_def requestKey_def)

text \<open>Saving requests with different keys replaces exactly the rows with their keys.\<close>

lemma saveAll_rows:
  assumes "distinct (map requestKey rs)"
  shows "saveAll rs d = d\<lparr>db_ledgerRequests :=
    map (\<lambda>r. case find (\<lambda>x. requestKey x = requestKey r) rs of None \<Rightarrow> r | Some x \<Rightarrow> x) (db_ledgerRequests d)\<rparr>"
  using assms
proof (induction rs arbitrary: d)
  case Nil
  then show ?case by (simp add: saveAll_def)
next
  case (Cons x rs)
  have "find (\<lambda>y. requestKey y = requestKey x) rs = None"
    using Cons.prems by (auto simp: find_None_iff) (metis image_eqI)
  with Cons show ?case
    by (auto simp: saveAll_def saveRequest_def patchWhere_def overwrite_def)
qed

lemma active_rows_distinct:
  "requestsOk d \<Longrightarrow> distinct (map requestKey (getActiveRequests d l))"
  unfolding requestsOk_def uniqueKey_def getActiveRequests_def by (blast intro: distinct_map_filter)

text \<open>The requests a crank of the ledger hands back replace the rows it was given.\<close>

definition savedFor :: "db \<Rightarrow> bytes32 \<Rightarrow> ledger_request list \<Rightarrow> bool" where
  "savedFor d l rs \<longleftrightarrow> requestsOk d \<and> sameKeys (getActiveRequests d l) rs"

lemma savedFor_nth:
  assumes "savedFor d l rs" and "i < length rs"
  shows "i < length (getActiveRequests d l) \<and> requestKey (rs ! i) = requestKey (getActiveRequests d l ! i) \<and>
    ledgerChannelId (rs ! i) = ledgerChannelId (getActiveRequests d l ! i)"
proof -
  from assms have "length rs = length (getActiveRequests d l)"
    unfolding savedFor_def using sameKeys_length by blast
  with assms(2) have "i < length (getActiveRequests d l)" by simp
  then show ?thesis using assms(1) requestKey_reqKey [OF sameKeys_nth] unfolding savedFor_def by blast
qed

lemma savedFor_keys: "savedFor d l rs \<Longrightarrow> map requestKey rs = map requestKey (getActiveRequests d l)"
  using savedFor_nth [of d l rs] sameKeys_length unfolding savedFor_def
  by (intro nth_equalityI) fastforce+

lemma savedFor_source: "savedFor d l rs \<Longrightarrow> x \<in> set rs \<Longrightarrow> \<exists>y \<in> set (getActiveRequests d l).
    ledgerChannelId x = ledgerChannelId y \<and> requestKey x = requestKey y"
  unfolding in_set_conv_nth [of x] using savedFor_nth [of d l rs] nth_mem by fastforce

lemma savedFor_distinct: "savedFor d l rs \<Longrightarrow> distinct (map requestKey rs)"
  using active_rows_distinct by (simp add: savedFor_keys) (simp add: savedFor_def)

lemma saved_rows:
  assumes "savedFor d l rs"
  shows "set (db_ledgerRequests (saveAll rs d)) =
    {r \<in> set (db_ledgerRequests d). requestKey r \<notin> requestKey ` set rs} \<union> set rs"
proof -
  let ?g = "\<lambda>r. case find (\<lambda>x. requestKey x = requestKey r) rs of None \<Rightarrow> r | Some x \<Rightarrow> x"
  have found: "?g r = x" if "x \<in> set rs" "requestKey x = requestKey r" for r x
    using find_unique_key [OF savedFor_distinct [OF assms] that(1)] that(2) by simp
  have other: "?g r = r" if "requestKey r \<notin> requestKey ` set rs" for r
  proof -
    from that have "\<forall>x \<in> set rs. requestKey x \<noteq> requestKey r" by (metis image_eqI)
    then have "find (\<lambda>x. requestKey x = requestKey r) rs = None" by (simp add: find_None_iff)
    then show ?thesis by simp
  qed
  have "?g ` set (db_ledgerRequests d) =
      {r \<in> set (db_ledgerRequests d). requestKey r \<notin> requestKey ` set rs} \<union> set rs"
  proof (intro subset_antisym subsetI)
    fix y assume "y \<in> ?g ` set (db_ledgerRequests d)"
    then obtain r where r: "r \<in> set (db_ledgerRequests d)" "y = ?g r" by blast
    show "y \<in> {r \<in> set (db_ledgerRequests d). requestKey r \<notin> requestKey ` set rs} \<union> set rs"
    proof (cases "requestKey r \<in> requestKey ` set rs")
      case True
      then obtain x where "x \<in> set rs" "requestKey x = requestKey r" by (metis imageE)
      with found r show ?thesis by auto
    next
      case False
      with other r show ?thesis by auto
    qed
  next
    fix y assume y: "y \<in> {r \<in> set (db_ledgerRequests d). requestKey r \<notin> requestKey ` set rs} \<union> set rs"
    show "y \<in> ?g ` set (db_ledgerRequests d)"
    proof (cases "y \<in> set rs")
      case True
      from savedFor_source [OF assms True] obtain z where z: "z \<in> set (db_ledgerRequests d)"
        "requestKey y = requestKey z" by (auto simp: getActiveRequests_def)
      show ?thesis by (rule image_eqI [of _ ?g, OF found [OF True z(2), symmetric] z(1)])
    next
      case False
      with y have "y \<in> set (db_ledgerRequests d)" "requestKey y \<notin> requestKey ` set rs" by auto
      from image_eqI [of _ ?g, OF other [OF this(2), symmetric] this(1)] show ?thesis .
    qed
  qed
  then show ?thesis by (simp add: saveAll_rows [OF savedFor_distinct [OF assms]])
qed

lemma saved_ended:
  assumes "savedFor d l rs" and "r \<in> set (db_ledgerRequests d)" and "\<not> isActive r"
  shows "requestKey r \<notin> requestKey ` set rs"
proof
  assume "requestKey r \<in> requestKey ` set rs"
  then obtain x where "x \<in> set rs" "requestKey x = requestKey r" by auto
  with savedFor_source [OF assms(1) this(1)] obtain y where y: "y \<in> set (getActiveRequests d l)"
    "requestKey y = requestKey r" by auto
  then have "y = r" using assms(1,2)
    by (auto simp: savedFor_def requestsOk_def uniqueKey_def getActiveRequests_def distinct_map dest: inj_onD)
  with y(1) assms(3) show False
    by (auto simp: getActiveRequests_def isActive_def isQueued_def isPending_def)
qed

lemma saved_table_keys:
  assumes "savedFor d l rs"
  shows "map requestKey (db_ledgerRequests (saveAll rs d)) = map requestKey (db_ledgerRequests d)"
  by (auto simp: saveAll_rows [OF savedFor_distinct [OF assms]] find_Some_iff split: option.split)

lemma saved_ok:
  assumes "savedFor d l rs"
  shows "requestsOk (saveAll rs d)"
proof -
  from assms have ok: "requestsOk d" by (simp add: savedFor_def)
  obtain t where t: "saveAll rs d = d\<lparr>db_ledgerRequests := t\<rparr>"
    using saveAll_rows [OF savedFor_distinct [OF assms]] by blast
  have "hasChannel d (ledgerChannelId r) \<and> hasChannel d (channelToBeFunded r)"
    if "r \<in> set (db_ledgerRequests (saveAll rs d))" for r
  proof (cases "r \<in> set rs")
    case True
    from savedFor_source [OF assms this] obtain y where "y \<in> set (db_ledgerRequests d)"
      "ledgerChannelId r = ledgerChannelId y" "channelToBeFunded r = channelToBeFunded y"
      by (auto simp: getActiveRequests_def requestKey_def)
    with ok show ?thesis by (simp add: requestsOk_def)
  next
    case False
    with that ok show ?thesis by (auto simp: saved_rows [OF assms] requestsOk_def)
  qed
  then have "\<forall>r \<in> set t. hasChannel d (ledgerChannelId r) \<and> hasChannel d (channelToBeFunded r)"
    by (simp add: t)
  moreover have "uniqueKey requestKey t"
    using ok saved_table_keys [OF assms] unfolding requestsOk_def uniqueKey_def t by simp
  ultimately show ?thesis by (simp add: requestsOk_def t)
qed

lemma calm_saveAll:
  assumes "sameKeys (getActiveRequests d l) rs"
  shows "calm P d (saveAll rs d)"
proof (cases "requestsOk d")
  case True
  with assms have s: "savedFor d l rs" by (simp add: savedFor_def)
  obtain t where "saveAll rs d = d\<lparr>db_ledgerRequests := t\<rparr>"
    using saveAll_rows [OF savedFor_distinct [OF s]] by blast
  moreover have "endedKept d (saveAll rs d)"
    using saved_ended [OF s] by (auto simp: endedKept_def saved_rows [OF s])
  ultimately show ?thesis using saved_ok [OF s] by (auto intro: calm_requestsI)
qed (simp add: calm_def wfDb_def)

section \<open>Objectives\<close>

lemma objectiveId_withParticipants [simp]: "objectiveId (withParticipants ps o') = objectiveId o'"
  by (cases o') (simp_all add: objectiveId_def)

lemma calm_objectivesI:
  assumes "d' = d\<lparr>db_objectives := t, db_objectivesChannels := u\<rparr>" and "objectivesOk d \<Longrightarrow> objectivesOk d'"
  shows "calm P d d'"
  using assms by (intro calmI) (simp_all add: wfDb_def requestsOk_def chainTablesOk_def noncesOk_def)

lemma objectivesOk_patch:
  assumes "objectivesOk d" and "\<And>m. o_objectiveId (f m) = o_objectiveId m \<and> o_objective (f m) = o_objective m"
  shows "objectivesOk (d\<lparr>db_objectives := patchWhere Q f (db_objectives d)\<rparr>)"
proof -
  have "map o_objectiveId (patchWhere Q f (db_objectives d)) = map o_objectiveId (db_objectives d)"
    using assms(2) by (simp add: patchWhere_def)
  then show ?thesis
    using assms by (auto simp: objectivesOk_def uniqueKey_def set_patchWhere)
qed

lemma calm_patchObjective:
  assumes "patchObjective f oid d = Inr (m, d')"
    and "\<And>m. o_objectiveId (f m) = o_objectiveId m \<and> o_objective (f m) = o_objective m"
  shows "calm P d d'"
  using assms(1) objectivesOk_patch [OF _ assms(2), of d "\<lambda>m. o_objectiveId m = oid"]
  by (intro calm_objectivesI [where d' = d' and d = d and u = "db_objectivesChannels d" and
        t = "patchWhere (\<lambda>m. o_objectiveId m = oid) f (db_objectives d)"]) (auto simp: patchObjective_def Let_def bindE_eq_Inr)

lemma calm_objective_updates:
  "approveRow oid d = Inr (m, d') \<Longrightarrow> calm P d d'"
  "succeedRow oid d = Inr (m, d') \<Longrightarrow> calm P d d'"
  "failRow oid d = Inr (m, d') \<Longrightarrow> calm P d d'"
  "updateProgressDate now oid d = Inr (m, d') \<Longrightarrow> calm P d d'"
  "updateWaitingFor now oid w d = Inr (m, d') \<Longrightarrow> calm P d d'"
  unfolding approveRow_def succeedRow_def failRow_def updateProgressDate_def updateWaitingFor_def
  by (rule calm_patchObjective, assumption, simp add: setObjectiveStatus_def setProgress_def)+

lemma calm_insertObjective:
  assumes "insertObjective ig now o' st wait d = Inr (m, d')"
  shows "calm P d d'"
proof -
  let ?ov = "(st, if wait = Some NothingToWaitFor then None else wait)"
  let ?row = "\<lparr>o_objectiveId = objectiveId o',
    o_status = (case st of None \<Rightarrow> PendingObjective | Some s \<Rightarrow> s), o_objective = withParticipants [] o',
    o_waitingFor = (case wait of None \<Rightarrow> WaitingApproval | Some w \<Rightarrow> w),
    o_createdAt = now, o_progressLastMadeAt = now\<rparr>"
  have "\<exists>u. d' = d\<lparr>db_objectives := insertOrMerge o_objectiveId (overrideObjective ?ov) ?row (db_objectives d),
      db_objectivesChannels := u\<rparr>"
    using assms unfolding insertObjective_def Let_def bindE_eq_Inr by auto
  moreover have "o_objectiveId ?row = objectiveId (o_objective ?row)" by simp
  ultimately obtain row ov where row: "o_objectiveId row = objectiveId (o_objective row)"
    and d': "\<exists>u. d' = d\<lparr>db_objectives := insertOrMerge o_objectiveId (overrideObjective ov) row (db_objectives d),
      db_objectivesChannels := u\<rparr>" by blast
  have over: "o_objective (overrideObjective ov x) = o_objective x \<and>
      o_objectiveId (overrideObjective ov x) = o_objectiveId x" for x
    by (simp add: overrideObjective_def)
  have ok: "\<forall>x \<in> set (insertOrMerge o_objectiveId (overrideObjective ov) row (db_objectives d)).
      o_objectiveId x = objectiveId (o_objective x)" if "objectivesOk d"
    using that row over by (auto simp: objectivesOk_def insertOrMerge_def set_patchWhere)
  have unique: "uniqueKey o_objectiveId (insertOrMerge o_objectiveId (overrideObjective ov) row (db_objectives d))"
    if "objectivesOk d"
    using that by (intro overrides.unique_merge) (simp add: objectivesOk_def)
  from d' obtain u where "d' = d\<lparr>db_objectives := insertOrMerge o_objectiveId (overrideObjective ov) row (db_objectives d),
      db_objectivesChannels := u\<rparr>" by blast
  then show ?thesis
    by (rule calm_objectivesI) (use ok unique in \<open>simp add: objectivesOk_def \<open>d' = _\<close>\<close>)
qed

section \<open>Columns of a channel that are not its core\<close>

lemma calm_patchChannel:
  assumes "\<And>c. channelCore (f c) = channelCore c" and "\<And>c. channelOk P (f c) = channelOk P c"
  shows "calm P d (patchChannel f cid d)"
proof -
  let ?t = "patchWhere (\<lambda>c. ch_channelId c = cid) f (db_channels d)"
  have cores: "map channelCore ?t = map channelCore (db_channels d)"
    using assms(1) by (simp add: patchWhere_def)
  then have ids: "map ch_channelId ?t = map ch_channelId (db_channels d)"
    using channelIds_core [of "d\<lparr>db_channels := ?t\<rparr>"] channelIds_core [of d] by (simp add: channelIds_def)
  then have has: "ch_channelId ` set ?t = ch_channelId ` set (db_channels d)" by (metis list.set_map)
  have constants: "channelConstants ` set ?t = channelConstants ` set (db_channels d)"
    using arg_cong [OF cores, of "\<lambda>xs. fst ` set xs"] by (simp add: image_image channelCore_def)
  have "noncesOk (d\<lparr>db_channels := ?t\<rparr>)" if "noncesOk d"
  proof -
    let ?covered = "\<lambda>k. \<exists>r \<in> set (db_nonces d). n_addresses r = map signingAddress (participants k) \<and>
      channelNonce k \<le> n_value r"
    have "\<forall>k \<in> channelConstants ` set (db_channels d). ?covered k"
      using that by (simp add: noncesOk_def flip: participants_constants channelNonce_constants)
    then have "\<forall>k \<in> channelConstants ` set ?t. ?covered k" by (simp only: constants)
    with that show ?thesis
      by (simp add: noncesOk_def flip: participants_constants channelNonce_constants)
  qed
  moreover have "channelsOk P (d\<lparr>db_channels := ?t\<rparr>)" if "channelsOk P d"
    using that assms(2) ids by (auto simp: channelsOk_def uniqueKey_def set_patchWhere)
  ultimately have "wfDb P (d\<lparr>db_channels := ?t\<rparr>)" if "wfDb P d"
    using that has by (simp add: wfDb_def requestsOk_def objectivesOk_def chainTablesOk_def hasChannel_def)
  then show ?thesis using cores by (simp add: calm_def patchChannel_def endedKept_def)
qed

lemma channelOk_columns:
  "channelOk P (setSupport ss c) = channelOk P c"
  "channelOk P (setIsLedger b c) = channelOk P c"
  "channelOk P (setFundingSource p c) = channelOk P c"
  by (simp_all add: channelOk_def setSupport_def setIsLedger_def setFundingSource_def knowsMe_def
      calculateChannelId_def)

lemma channelCore_columns:
  "channelCore (setSupport ss c) = channelCore c"
  "channelCore (setIsLedger b c) = channelCore c"
  "channelCore (setFundingSource p c) = channelCore c"
  by (simp_all add: channelCore_def setSupport_def setIsLedger_def setFundingSource_def
      channelConstants_def channel_constants.truncate_def)

lemma calm_columns:
  "calm P d (setInitialSupport cid ss d)"
  "calm P d (setLedger cid d)"
  "calm P d (patchChannel (setFundingSource p) cid d)"
  unfolding setInitialSupport_def setLedger_def
  by (rule calm_patchChannel; simp add: channelOk_columns channelCore_columns)+

end
