(* ===== verification/StoreFacts.thy ===== *)
theory StoreFacts
  imports Store Advance
begin

text \<open>
  Every operation of the store keeps the invariant of the database and moves channels forward only.
\<close>

section \<open>Writing the states of a channel\<close>

lemma channelCore_relations [simp]:
  "channelCore (withFunding d c) = channelCore c"
  "channelCore (withChainRequests d c) = channelCore c"
  "channelCore (withAdjudicatorStatus d c) = channelCore c"
  by (simp_all add: channelCore_def withFunding_def withChainRequests_def withAdjudicatorStatus_def
      channelConstants_def channel_constants.truncate_def)

lemma channelId_relations [simp]:
  "ch_channelId (withFunding d c) = ch_channelId c"
  "ch_channelId (withChainRequests d c) = ch_channelId c"
  "ch_channelId (withAdjudicatorStatus d c) = ch_channelId c"
  by (simp_all add: withFunding_def withChainRequests_def withAdjudicatorStatus_def)

lemma synced_core: "channelCore c = channelCore c' \<Longrightarrow> synced d c \<Longrightarrow> synced d c'"
  by (simp add: synced_def)

lemma synced_relations [simp]:
  "synced d (withFunding e c) = synced d c"
  "synced d (withChainRequests e c) = synced d c"
  "synced d (withAdjudicatorStatus e c) = synced d c"
  by (simp_all add: synced_def)

lemma synced_channelForId: "channelForId d cid = Some c \<Longrightarrow> synced d c \<and> ch_channelId c = cid"
  using synced_findChannel [of d cid] by (auto simp: channelForId_def)

lemma synced_getAndLockChannel: "getAndLockChannel d cid = Inr c \<Longrightarrow> synced d c \<and> ch_channelId c = cid"
  using synced_findChannel [of d cid] by (auto simp: getAndLockChannel_def split: option.splits)

lemma synced_ok:
  assumes "wfDb P d" and "synced d c"
  shows "knowsMe c \<and> statesOk (ch_vars c)"
proof -
  from assms(2) obtain r where "r \<in> set (db_channels d)" "channelCore c = channelCore r"
    by (auto simp: synced_def)
  with assms(1) show ?thesis
    by (auto simp: wfDb_def channelsOk_def channelOk_def channelCore_def knowsMe_def
        participants_constants [of c] participants_constants [of r])
qed

lemma core_vars: "channelCore c = channelCore r \<Longrightarrow> channelCore (c\<lparr>ch_vars := vs\<rparr>) = channelCore (r\<lparr>ch_vars := vs\<rparr>)"
  by (simp add: channelCore_def)

lemma channelOk_vars: "channelOk P c \<Longrightarrow> statesOk vs \<Longrightarrow> channelOk P (c\<lparr>ch_vars := vs\<rparr>)"
  by (simp add: channelOk_def knowsMe_def calculateChannelId_def)

lemma writeVars:
  assumes wf: "wfDb P d" and sync: "synced d c" and c': "c' = c\<lparr>ch_vars := ch_vars c'\<rparr>"
    and ok: "statesOk (ch_vars c')" and later: "notBefore c c'"
  shows "cranks P d (patchChannel (setVars (ch_vars c')) (ch_channelId c) d) \<and>
    synced (patchChannel (setVars (ch_vars c')) (ch_channelId c) d) c'"
proof -
  let ?f = "setVars (ch_vars c')"
  let ?t = "patchWhere (\<lambda>x. ch_channelId x = ch_channelId c) ?f (db_channels d)"
  let ?d = "d\<lparr>db_channels := ?t\<rparr>"
  have d': "patchChannel ?f (ch_channelId c) d = ?d" by (simp add: patchChannel_def)
  from sync obtain r where r: "r \<in> set (db_channels d)" "channelCore c = channelCore r"
    by (auto simp: synced_def)
  have rid: "ch_channelId r = ch_channelId c" using r(2) by (simp add: channelCore_def)
  have only: "x = r" if "x \<in> set (db_channels d)" "ch_channelId x = ch_channelId c" for x
    using wf that r(1) rid uniqueKey_inj [of ch_channelId "db_channels d" x r]
    by (simp add: wfDb_def channelsOk_def)
  have core: "channelCore (?f r) = channelCore c'"
    by (subst c') (simp add: core_vars [OF r(2)] setVars_def)
  have ids: "map ch_channelId ?t = map ch_channelId (db_channels d)" by (rule channelVars.keys_patch)
  then have has: "ch_channelId ` set ?t = ch_channelId ` set (db_channels d)" by (metis list.set_map)
  have chans: "channelsOk P ?d"
    using wf ids ok by (auto simp: wfDb_def channelsOk_def uniqueKey_def set_patchWhere setVars_def channelOk_vars)
  have nonces: "noncesOk ?d"
    using wf by (auto simp: wfDb_def noncesOk_def set_patchWhere setVars_def)
  have wf': "wfDb P ?d"
    using wf has chans nonces by (simp add: wfDb_def requestsOk_def objectivesOk_def chainTablesOk_def hasChannel_def)
  have forward: "continues r (?f r)"
    using latestTurn_core [OF core] latestTurn_core [OF r(2)] later
    by (simp add: continues_def setVars_def notBefore_def)
  have "channelsKept d ?d"
    unfolding channelsKept_def
  proof
    fix x assume x: "x \<in> set (db_channels d)"
    let ?x = "if ch_channelId x = ch_channelId c then ?f x else x"
    have "?x \<in> set (db_channels ?d)" using x by (simp add: set_patchWhere)
    moreover have "continues x ?x" using forward only [OF x] by auto
    ultimately show "\<exists>x' \<in> set (db_channels ?d). continues x x'" by blast
  qed
  moreover have "?f r \<in> set ?t" using r(1) rid by (auto simp: set_patchWhere image_iff intro: bexI [of _ r])
  then have "synced ?d c'" unfolding synced_def using core by (simp add: rev_image_eqI)
  ultimately show ?thesis
    unfolding d' using wf' ids by (simp add: cranks_def advances_def endedKept_def channelIds_def)
qed

lemma calm_consultBytecode: "calm P d (consultBytecode E c s d)"
  by (auto simp: consultBytecode_def cacheBytecode_def calm_cache split: option.split)

lemma storeState_write:
  assumes wf: "wfDb P d" and sync: "synced d c" and store: "storeState P c s = Inr c'"
    and sigs: "consistentSigs (signatures s)" and calm: "calm P d e"
  shows "cranks P d (patchChannel (setVars (ch_vars c')) (ch_channelId c) e) \<and>
    synced (patchChannel (setVars (ch_vars c')) (ch_channelId c) e) c'"
proof -
  from synced_ok [OF wf sync] have ok: "knowsMe c" "statesOk (ch_vars c)" by blast+
  have c': "c' = c\<lparr>ch_vars := ch_vars c'\<rparr>" using storeState_vars [OF store] by blast
  from writeVars [OF calm_wf [OF calm wf] synced_calm [OF calm wf sync] c'
      storeState_statesOk [OF store ok(2) sigs] storeState_notBefore [OF store ok(2,1)]]
  show ?thesis using cranks_trans [OF calm_cranks [OF calm]] by blast
qed

lemma cranks_storeSignState:
  assumes "storeSignState E c v d = Inr (c', s, d')" and "wfDb (se_platform E) d" and "synced d c"
  shows "cranks (se_platform E) d d' \<and> synced d' c'"
proof -
  from assms(1) have sign: "signStateOn (se_platform E) (se_skipEvm E) (bytecodeFor E d)
      (walletFor d [ch_signingAddress c]) c v = Inr (c', s)"
    and d': "d' = patchChannel (setVars (ch_vars c')) (ch_channelId c) (consultBytecode E c s d)"
    by (auto simp: storeSignState_def bindE_eq_Inr)
  from signStateOn_stores [OF sign] have "storeState (se_platform E) c s = Inr c'" "consistentSigs (signatures s)"
    by blast+
  from storeState_write [OF assms(2,3) this calm_consultBytecode] show ?thesis unfolding d' .
qed

section \<open>Signatures from the wire\<close>

lemma mapE_mem: "mapE f xs = Inr ys \<Longrightarrow> y \<in> set ys \<Longrightarrow> \<exists>x \<in> set xs. f x = Inr y"
  by (induction xs arbitrary: ys) (auto simp: bindE_eq_Inr)

lemma consistentSigs_recovered:
  assumes "mapE (\<lambda>sig. bindE (f sig) (\<lambda>a. if bad a then Inl e else Inr \<lparr>signature = sig, signer = a\<rparr>)) xs = Inr ys"
  shows "consistentSigs ys"
proof -
  have "f (signature y) = Inr (signer y)" if "y \<in> set ys" for y
    using mapE_mem [OF assms that] by (auto simp: bindE_eq_Inr split: if_splits)
  then show ?thesis unfolding consistentSigs_def by (metis sum.inject(2))
qed

lemma fastDeserializeState_consistent:
  "fastDeserializeState P ws = Inr st \<Longrightarrow> consistentSigs (signatures st)"
  unfolding fastDeserializeState_def bindE_eq_Inr by (auto intro: consistentSigs_recovered)

lemma addHash_signatures: "addHash P s = Inr t \<Longrightarrow> signatures t = signatures s"
  by (auto simp: addHash_def bindE_eq_Inr signed_state.defs)

section \<open>New channels\<close>

lemma insertChannel_advances:
  assumes ins: "insertChannel P c d = Inr d'" and wf: "wfDb P d" and ok: "channelOk P c"
    and nonce: "\<exists>r \<in> set (db_nonces d). n_addresses r = map signingAddress (participants c) \<and>
      channelNonce c \<le> n_value r"
  shows "advances P d d' \<and> synced d' c"
proof -
  have plain: "c\<lparr>ch_funding := None, ch_adjudicatorStatus := None, ch_chainServiceRequests := None\<rparr> = c"
    using ok by (cases c) (simp add: channelOk_def)
  from ins obtain t where t: "insertUnique ch_channelId c (db_channels d) = Inr t"
    and d': "d' = d\<lparr>db_channels := t\<rparr>"
    by (auto simp: insertChannel_def bindE_eq_Inr plain)
  then have t': "t = db_channels d @ [c]" by (simp add: insertUnique_eq)
  have "channelsOk P d'"
    using wf ok uniqueKey_insert [OF t] by (simp add: wfDb_def channelsOk_def d' t')
  moreover have "noncesOk d'" using wf nonce by (auto simp: wfDb_def noncesOk_def d' t')
  moreover have "requestsOk d'" using wf by (auto simp: wfDb_def requestsOk_def d' t' hasChannel_def)
  ultimately have "wfDb P d'" using wf by (simp add: wfDb_def objectivesOk_def chainTablesOk_def d')
  moreover have "channelsKept d d'"
    unfolding channelsKept_def d' t' using continues_refl by fastforce
  moreover have "synced d' c" by (simp add: synced_def d' t')
  ultimately show ?thesis by (simp add: advances_def endedKept_def d')
qed

lemma makeChannel_fields:
  "participants (channel_constants.extend k (channel.fields i vs a st il fl ss f as cr)) = participants k"
  "channelNonce (channel_constants.extend k (channel.fields i vs a st il fl ss f as cr)) = channelNonce k"
  "ch_channelId (channel_constants.extend k (channel.fields i vs a st il fl ss f as cr)) = i" "ch_vars (channel_constants.extend k (channel.fields i vs a st il fl ss f as cr)) = vs" "ch_signingAddress (channel_constants.extend k (channel.fields i vs a st il fl ss f as cr)) = a"
  "ch_funding (channel_constants.extend k (channel.fields i vs a st il fl ss f as cr)) = f" "ch_adjudicatorStatus (channel_constants.extend k (channel.fields i vs a st il fl ss f as cr)) = as" "ch_chainServiceRequests (channel_constants.extend k (channel.fields i vs a st il fl ss f as cr)) = cr"
  "calculateChannelId P (channel_constants.extend k (channel.fields i vs a st il fl ss f as cr)) = calculateChannelId P k"
  by (simp_all add: channel_constants.defs channel.defs calculateChannelId_def)

lemma truncate_constants [simp]:
  "participants (channel_constants.truncate k) = participants k"
  "channelNonce (channel_constants.truncate k) = channelNonce k"
  "calculateChannelId P (channel_constants.truncate k) = calculateChannelId P k"
  by (simp_all add: channel_constants.defs calculateChannelId_def)

lemma walletFor_mem: "walletFor d as = Some w \<Longrightarrow> wallet_address w \<in> set as"
  unfolding walletFor_def using selectFirst_Some by fastforce

lemma createChannelRow_advances:
  assumes cr: "createChannelRow E cc strategy ledgerId d = Inr (c, d')" and wf: "wfDb (se_platform E) d"
  shows "advances (se_platform E) d d' \<and> synced d' c"
proof -
  let ?P = "se_platform E" and ?as = "map signingAddress (participants cc)"
  from cr obtain w d1 where w: "walletFor d ?as = Some w"
    and nonce: "ensureLatest (se_ethers E) (channelNonce cc) ?as d = Inr d1"
    and c: "c = channel_constants.extend (channel_constants.truncate cc)
      (channel.fields (calculateChannelId ?P cc) [] (wallet_address w) strategy False ledgerId [] None None None)"
    and ins: "insertChannel ?P c d1 = Inr d'"
    by (auto simp: createChannelRow_def Let_def bindE_eq_Inr split: option.splits)
  from walletFor_mem [OF w] have "channelOk ?P c"
    unfolding channelOk_def knowsMe_def c makeChannel_fields by simp
  moreover from ensureLatest_covers [OF nonce] have "\<exists>r \<in> set (db_nonces d1).
      n_addresses r = map signingAddress (participants c) \<and> channelNonce c \<le> n_value r"
    unfolding c makeChannel_fields by simp
  ultimately show ?thesis
    using insertChannel_advances [OF ins calm_wf [OF calm_ensureLatest [OF nonce] wf]]
      advances_trans [OF calm_advances [OF calm_ensureLatest [OF nonce]]] by blast
qed

section \<open>The operations of the store\<close>

lemma addSignedState_advances:
  assumes run: "addSignedState E cid ws d = Inr (c', d')" and wf: "wfDb (se_platform E) d"
  shows "advances (se_platform E) d d'"
proof -
  let ?P = "se_platform E"
  from run obtain st s q where st: "fastDeserializeState ?P ws = Inr st"
    and s: "addHash ?P st = Inr s"
    and q: "(case channelForId d cid of Some c \<Rightarrow> Inr (c, d)
       | None \<Rightarrow> createChannelRow E s UnknownStrategy None d) = Inr q"
    and rest: "(case q of (c, d1) \<Rightarrow>
      bindE (addSignedStateOn ?P (se_skipEvm E) (bytecodeFor E d1) c s) (\<lambda>c'.
        case findChannel (patchChannel (setVars (ch_vars c')) (ch_channelId c) (consultBytecode E c s d1)) (ch_channelId c) of
          None \<Rightarrow> Inl TypeError
        | Some row \<Rightarrow> Inr (row, patchChannel (setVars (ch_vars c')) (ch_channelId c) (consultBytecode E c s d1)))) = Inr (c', d')"
    by (simp only: addSignedState_def Let_def bindE_eq_Inr [of _ _ "(c', d')"]) blast
  obtain c d1 where cd: "q = (c, d1)" by (cases q)
  from rest obtain c1 where c1: "addSignedStateOn ?P (se_skipEvm E) (bytecodeFor E d1) c s = Inr c1"
    and d': "d' = patchChannel (setVars (ch_vars c1)) (ch_channelId c) (consultBytecode E c s d1)"
    unfolding cd by (auto simp: bindE_eq_Inr split: option.splits)
  note c = q [unfolded cd]
  have found: "advances ?P d d1 \<and> synced d1 c"
  proof (cases "channelForId d cid")
    case None
    with c createChannelRow_advances [OF _ wf] show ?thesis by simp
  next
    case (Some x)
    with c synced_channelForId [OF Some] show ?thesis by simp
  qed
  have "consistentSigs (signatures s)"
    using fastDeserializeState_consistent [OF st] addHash_signatures [OF s] by simp
  from storeState_write [OF _ _ addSignedStateOn_stores [OF c1] this calm_consultBytecode] found
    advances_wf [OF _ wf]
  have "cranks ?P d1 d'" unfolding d' by blast
  with found show ?thesis using advances_trans cranks_advances by blast
qed

lemma storeIncomingState_advances:
  assumes "storeIncomingState E p ws = Inr q" and "wfDb (se_platform E) (snd p)"
  shows "advances (se_platform E) (snd p) (snd q)"
  using assms addSignedState_advances by (fastforce simp: storeIncomingState_def bindE_eq_Inr)

lemma storeIncomingObjective_calm:
  "storeIncomingObjective E p o' = Inr q \<Longrightarrow> calm P (snd p) (snd q)"
  by (auto simp: storeIncomingObjective_def bindE_eq_Inr split: if_splits elim!: calm_insertObjective)

lemma foldE_advances:
  assumes "foldE f s xs = Inr s'" and "wfDb P (g s)"
    and "\<And>s x s'. f s x = Inr s' \<Longrightarrow> wfDb P (g s) \<Longrightarrow> advances P (g s) (g s')"
  shows "advances P (g s) (g s')"
proof -
  have "advances P (g s) (g s') \<and> wfDb P (g s')"
    using assms(1)
    by (rule foldE_inv [where P = "\<lambda>t. advances P (g s) (g t) \<and> wfDb P (g t)"])
       (use assms(2,3) advances_trans advances_wf in \<open>blast | simp\<close>)+
  then show ?thesis ..
qed

lemma storePushMessage_advances:
  assumes run: "storePushMessage E m d = Inr (r, d')" and wf: "wfDb (se_platform E) d"
  shows "advances (se_platform E) d d'"
proof -
  let ?P = "se_platform E"
  from run obtain crs d1 os stored where
    1: "foldE (storeIncomingState E) ([], d) (sort_key channelNonce (orEmpty (wp_signedStates m))) = Inr (crs, d1)"
    and 2: "foldE (storeIncomingObjective E) ([], d1) os = Inr (stored, d')"
    by (auto simp: storePushMessage_def Let_def bindE_eq_Inr)
  from foldE_advances [OF 1, of ?P snd] wf storeIncomingState_advances
  have a: "advances ?P d d1" by simp
  have "advances ?P (snd ([] :: wallet_objective list, d1)) (snd (stored, d'))"
    by (rule foldE_advances [OF 2]) (use advances_wf [OF a wf] storeIncomingObjective_calm calm_advances in auto)
  with a show ?thesis using advances_trans by auto
qed

lemma storeCreateChannel_advances:
  assumes run: "storeCreateChannel E cc data o' strategy role' ledgerId d = Inr (r, d')"
    and wf: "wfDb (se_platform E) d"
  shows "advances (se_platform E) d d'"
proof -
  let ?P = "se_platform E"
  from run obtain c d1 v c1 s d2 d3 ob st wait m where 1: "createChannelRow E cc strategy ledgerId d = Inr (c, d1)"
    and 2: "storeSignState E c v d1 = Inr (c1, s, d2)"
    and 3: "d3 = (if role' = LedgerRole then setLedger (ch_channelId c) d2 else d2)"
    and 4: "insertObjective (se_ignored E) (se_now E) ob st wait d3 = Inr (m, d')"
    by (auto simp: storeCreateChannel_def Let_def bindE_eq_Inr)
  from createChannelRow_advances [OF 1 wf] have a: "advances ?P d d1" "synced d1 c" by blast+
  from cranks_storeSignState [OF 2 advances_wf [OF a(1) wf] a(2)] have b: "cranks ?P d1 d2" by blast
  have "calm ?P d2 d3" by (simp add: 3 calm_columns)
  from calm_trans [OF this calm_insertObjective [OF 4]] have "advances ?P d2 d'" by (rule calm_advances)
  with a(1) cranks_advances [OF b] show ?thesis using advances_trans by blast
qed

lemma approveObjective_calm:
  assumes "approveObjective oid d = Inr (m, d')"
  shows "calm P d d'"
  using assms [unfolded approveObjective_def Let_def]
proof (rule bindE_InrE)
  fix q
  let ?fund = "\<lambda>data d1. patchChannel (setFundingSource (oc_fundingStrategy data, oc_fundingLedgerChannelId data))
    (oc_targetChannelId data) (if oc_role data = Some LedgerRole then setLedger (oc_targetChannelId data) d1 else d1)"
  assume q: "approveRow oid d = Inr q"
    and rest: "(case q of (a, d1) \<Rightarrow>
      (case o_objective a of OpenChannel _ data \<Rightarrow> Inr (a, ?fund data d1) | _ \<Rightarrow> Inr (a, d1))) = Inr (m, d')"
  obtain a d1 where ad: "q = (a, d1)" by (cases q)
  have "calm P d1 (?fund data d1)" for data
    using calm_trans [OF calm_columns(2) calm_columns(3)] calm_columns(3) by simp
  with rest have "calm P d1 d'" unfolding ad by (cases "o_objective a") (auto simp del: if_split)
  with calm_objective_updates(1) [OF q [unfolded ad]] show ?thesis by (rule calm_trans)
qed

lemma markObjectiveStatus_calm: "markObjectiveStatus m b d = Inr (m', d') \<Longrightarrow> calm P d d'"
  by (auto simp: markObjectiveStatus_def split: if_splits elim: calm_objective_updates)

lemma updateObjectiveProgressDate_calm:
  assumes "updateObjectiveProgressDate E oids d = Inr (ms, d')"
  shows "calm P d d'"
proof -
  have "calm P (snd (([] :: wallet_objective list), d)) (snd (ms, d'))"
    using assms [unfolded updateObjectiveProgressDate_def]
    by (rule foldE_inv [where P = "\<lambda>q. calm P (snd ([] :: wallet_objective list, d)) (snd q)"])
       (auto simp: bindE_eq_Inr elim!: calm_trans calm_objective_updates(4))
  then show ?thesis by simp
qed

lemma markFinalized_calm:
  "markAdjudicatorStatusAsFinalized cid b t f d = Inr d' \<Longrightarrow> calm P d d'"
  by (auto simp: markAdjudicatorStatusAsFinalized_def bindE_eq_Inr elim: calm_setFinalized)

lemma storeUpdateTransferredOut_calm:
  "storeUpdateTransferredOut cid a ts h d = Inr d' \<Longrightarrow> calm P d d'"
  by (auto simp: storeUpdateTransferredOut_def lockApp_def bindE_eq_Inr split: option.splits
      intro: calm_trans dest: calm_updateTransferredOut calm_updateFunding)

lemma getOrCreateSigningAddress_calm:
  "getOrCreateSigningAddress E key d = Inr (a, d') \<Longrightarrow> calm P d d'"
proof -
  assume "getOrCreateSigningAddress E key d = Inr (a, d')"
  then obtain k x where "(case insertSigningWallet (se_platform E) k x d of
      Inr (w, d1) \<Rightarrow> Inr (wallet_address w, d1)
    | Inl e \<Rightarrow> if e = UniqueViolationError
        then (case db_signingWallets d of [] \<Rightarrow> Inl TypeError | w # _ \<Rightarrow> Inr (wallet_address w, d))
        else Inl e) = Inr (a, d')"
    by (auto simp only: getOrCreateSigningAddress_def bindE_eq_Inr)
  then show ?thesis
    by (cases "insertSigningWallet (se_platform E) k x d")
       (auto split: if_splits list.splits elim: calm_insertSigningWallet)
qed

end
