(* ===== verification/ProtocolFacts.thy ===== *)
theory ProtocolFacts
  imports Protocols StoreFacts
begin

text \<open>
  Every crank of a protocol keeps the invariant of the database, adds no channel and moves channels
  forward only; and a crank of a ledger that reports a channel has ended a request for good.
\<close>

section \<open>Building blocks\<close>

lemma queue_db [simp]: "w_db (queue f w) = w_db w"
  by (simp add: queue_def)

lemma onOut_db: "onOut f w = Inr w' \<Longrightarrow> w_db w' = w_db w"
  by (auto simp: onOut_def bindE_eq_Inr)

lemma queueChannelW_db: "queueChannelW E c w = Inr w' \<Longrightarrow> w_db w' = w_db w"
  unfolding queueChannelW_def by (rule onOut_db)

lemma onDb_eq: "onDb f w = Inr (x, w') \<Longrightarrow> f (w_db w) = Inr (x, w_db w')"
  by (auto simp: onDb_def bindE_eq_Inr)

lemma signAndQueue_cranks:
  assumes "signAndQueue E c v w = Inr (c', w')" and "wfDb (se_platform E) (w_db w)" and "synced (w_db w) c"
  shows "cranks (se_platform E) (w_db w) (w_db w') \<and> synced (w_db w') c'"
proof -
  from assms(1) obtain s d where s: "storeSignState E c v (w_db w) = Inr (c', s, d)"
    and "w_db w' = d"
    by (auto simp: signAndQueue_def bindE_eq_Inr dest!: onOut_db)
  with cranks_storeSignState [OF s assms(2,3)] show ?thesis by simp
qed

section \<open>Funding and defunding\<close>

lemma directFunderCrank_calm: "directFunderCrank E c w = Inr (b, w') \<Longrightarrow> calm P (w_db w) (w_db w')"
  by (auto simp: directFunderCrank_def Let_def bindE_eq_Inr split: if_splits prod.splits
      elim: calm_insertOrUpdate)

lemma ledgerFunderCrank_calm: "ledgerFunderCrank E l c w = Inr (b, w') \<Longrightarrow> calm P (w_db w) (w_db w')"
  by (auto simp: ledgerFunderCrank_def Let_def bindE_eq_Inr requestLedgerFunding_def
      split: if_splits prod.splits option.splits elim: calm_setRequestRow)

lemma crankChannelFunder_calm: "crankChannelFunder E data c w = Inr (b, w') \<Longrightarrow> calm P (w_db w) (w_db w')"
  by (auto simp: crankChannelFunder_def split: funding_strategy.splits
      elim: directFunderCrank_calm ledgerFunderCrank_calm)

lemma succeedObjective_calm: "succeedObjective m w = Inr w' \<Longrightarrow> calm P (w_db w) (w_db w')"
  by (auto simp: succeedObjective_def bindE_eq_Inr dest!: onDb_eq elim: markObjectiveStatus_calm)

lemma directDefunder_calm: "directDefunder E c ob w = Inr (r, w') \<Longrightarrow> calm P (w_db w) (w_db w')"
  by (auto simp: directDefunder_def Let_def bindE_eq_Inr split: if_splits option.splits
      elim: calm_insertOrUpdate)

lemma requestLedgerDefund_calm: "requestLedgerDefund E c w = Inr w' \<Longrightarrow> calm P (w_db w) (w_db w')"
  by (auto simp: requestLedgerDefund_def bindE_eq_Inr requestLedgerDefunding_def
      split: option.splits prod.splits elim: calm_setRequestRow)

lemma ledgerDefunder_calm: "ledgerDefunder E c w = Inr (r, w') \<Longrightarrow> calm P (w_db w) (w_db w')"
  by (auto simp: ledgerDefunder_def Let_def bindE_eq_Inr split: if_splits option.splits
      elim: requestLedgerDefund_calm)

lemma defunderCrank_calm:
  assumes "defunderCrank E c ob w = Inr (r, w')"
  shows "calm P (w_db w) (w_db w')"
  using assms unfolding defunderCrank_def Let_def
proof (rule bindE_InrE)
  fix ps
  assume "(case cs_fundingStrategy ps of
      Direct \<Rightarrow> directDefunder E (fetchFundingAndRequests (w_db w) c) ob w
    | Ledger \<Rightarrow> ledgerDefunder E (fetchFundingAndRequests (w_db w) c) w
    | Virtual \<Rightarrow> Inl (Error ''Virtual channel defunding is not implemented'')
    | _ \<Rightarrow> Inr (\<lparr>isChannelDefunded = True, didSubmitTransaction = False\<rparr>, w)) = Inr (r, w')"
  then show ?thesis
    by (cases "cs_fundingStrategy ps") (auto elim: directDefunder_calm ledgerDefunder_calm)
qed

section \<open>Cranks that sign states\<close>

text \<open>
  Where a crank that started in the database \<open>d0\<close> may have got to, with the channel object it holds.
\<close>

definition reached :: "platform \<Rightarrow> db \<Rightarrow> world \<Rightarrow> channel \<Rightarrow> bool" where
  "reached P d0 w c \<longleftrightarrow> wfDb P d0 \<and> cranks P d0 (w_db w) \<and> synced (w_db w) c"

lemma reached_cranks: "reached P d0 w c \<Longrightarrow> cranks P d0 (w_db w)"
  by (simp add: reached_def)

lemma reached_wf: "reached P d0 w c \<Longrightarrow> wfDb P (w_db w)"
  unfolding reached_def using cranks_wf by blast

lemma reached_start:
  "getAndLockChannel (w_db w) cid = Inr c \<Longrightarrow> wfDb P (w_db w) \<Longrightarrow> reached P (w_db w) w c"
  by (simp add: reached_def synced_getAndLockChannel)

lemma reached_same: "reached P d0 w c \<Longrightarrow> w_db w' = w_db w \<Longrightarrow> reached P d0 w' c"
  by (simp add: reached_def)

lemma reached_calm: "reached P d0 w c \<Longrightarrow> calm P (w_db w) (w_db w') \<Longrightarrow> reached P d0 w' c"
  using reached_wf [of P d0 w c] cranks_trans [OF _ calm_cranks] synced_calm
  unfolding reached_def by blast

lemma reached_relations [simp]:
  "reached P d0 w (fetchFundingAndRequests d c) = reached P d0 w c"
  by (simp add: reached_def fetchFundingAndRequests_def)

lemma reached_sign:
  assumes "reached (se_platform E) d0 w c" and "signAndQueue E c v w = Inr (c', w')"
  shows "reached (se_platform E) d0 w' c'"
  using signAndQueue_cranks [OF assms(2) reached_wf [OF assms(1)]] assms(1) cranks_trans
  unfolding reached_def by blast

lemma reached_setup:
  assumes "reached (se_platform E) d0 w c" and "signSetup E n c w = Inr (c', w')"
  shows "reached (se_platform E) d0 w' c'"
proof -
  from assms(2) obtain v w1 where s: "signAndQueue E c v w = Inr (c', w1)" and "w_db w' = w_db w1"
    by (auto simp: signSetup_def bindE_eq_Inr split: option.splits dest: queueChannelW_db)
  with reached_sign [OF assms(1) s] show ?thesis by (simp add: reached_same)
qed

lemma reached_setup_if:
  "reached (se_platform E) d0 w c \<Longrightarrow> (if b then Inr (c, w) else signSetup E n c w) = Inr (c', w') \<Longrightarrow>
   reached (se_platform E) d0 w' c'"
  by (auto split: if_splits elim: reached_setup)

lemmas reached_steps = reached_same [OF _ queueChannelW_db] reached_setup_if
  reached_calm [OF _ crankChannelFunder_calm] reached_calm [OF _ succeedObjective_calm]
  reached_calm [OF _ defunderCrank_calm]

lemma channelOpenerCrank_cranks:
  assumes "channelOpenerCrank E m data w = Inr (wait, w')" and wf: "wfDb (se_platform E) (w_db w)"
  shows "cranks (se_platform E) (w_db w) (w_db w')"
proof -
  let ?P = "se_platform E"
  have "returns (channelOpenerCrank E m data w) (\<lambda>(wait, w'). cranks ?P (w_db w) (w_db w'))"
    unfolding channelOpenerCrank_def Let_def signPrefundSetup_def signPostfundSetup_def
    by (intro walk; simp; drule reached_start [OF _ wf]; (drule (1) reached_steps)+; erule reached_cranks)
  then show ?thesis using assms(1) by (auto dest: returnsD)
qed

lemma signFinalState_reached:
  "reached (se_platform E) d0 w c \<Longrightarrow> signFinalState E c n w = Inr (c', w') \<Longrightarrow> reached (se_platform E) d0 w' c'"
  by (auto simp: signFinalState_def split: option.splits elim: reached_sign)

lemma areAllFinalStatesSigned_reached:
  assumes "reached (se_platform E) d0 w c" and "areAllFinalStatesSigned E c w = Inr (b, c', w')"
  shows "reached (se_platform E) d0 w' c'"
proof -
  have "returns (areAllFinalStatesSigned E c w) (\<lambda>(b, c', w'). reached (se_platform E) d0 w' c')"
    unfolding areAllFinalStatesSigned_def Let_def
    by (intro walk; use assms(1) in \<open>auto elim: signFinalState_reached\<close>)
  then show ?thesis using assms(2) by (auto dest: returnsD)
qed

lemma markObjective_reached:
  "reached P d0 w c \<Longrightarrow> onDb (markObjectiveStatus m b) w = Inr (m', w') \<Longrightarrow> reached P d0 w' c"
  by (rule reached_calm, assumption) (auto dest!: onDb_eq elim: markObjectiveStatus_calm)

lemmas closing_steps = reached_same [OF _ queueChannelW_db] areAllFinalStatesSigned_reached
  reached_calm [OF _ defunderCrank_calm] markObjective_reached

lemma channelCloserCrank_cranks:
  assumes "channelCloserCrank E m data w = Inr (wait, w')" and wf: "wfDb (se_platform E) (w_db w)"
  shows "cranks (se_platform E) (w_db w) (w_db w')"
proof -
  let ?P = "se_platform E"
  have fetch: "reached ?P (w_db w) w1 c \<Longrightarrow> reached ?P (w_db w) w1 (fetchFundingAndRequests d c)" for w1 c d
    by simp
  have "returns (channelCloserCrank E m data w) (\<lambda>(wait, w'). cranks ?P (w_db w) (w_db w'))"
    unfolding channelCloserCrank_def Let_def
    by (intro walk; simp; drule reached_start [OF _ wf]; drule (1) reached_same [OF _ queueChannelW_db];
        drule fetch [where d = "w_db _"]; (drule (1) closing_steps)+; erule reached_cranks)
  then show ?thesis using assms(1) by (auto dest: returnsD)
qed

lemma channelDefunderCrank_cranks:
  assumes "channelDefunderCrank E m cid w = Inr (wait, w')" and wf: "wfDb (se_platform E) (w_db w)"
  shows "cranks (se_platform E) (w_db w) (w_db w')"
proof -
  let ?P = "se_platform E"
  have "returns (channelDefunderCrank E m cid w) (\<lambda>(wait, w'). cranks ?P (w_db w) (w_db w'))"
    unfolding channelDefunderCrank_def Let_def
    by (intro walk; simp; drule reached_start [OF _ wf]; (drule (1) closing_steps)+; erule reached_cranks)
  then show ?thesis using assms(1) by (auto dest: returnsD)
qed

lemma insertOrUpdate_reached:
  "reached P d0 w c \<Longrightarrow> insertOrUpdate now cid q (w_db w) = Inr d1 \<Longrightarrow> reached P d0 (w\<lparr>w_db := d1\<rparr>) c"
  by (rule reached_calm, assumption) (auto elim: calm_insertOrUpdate)

lemma queue_reached: "reached P d0 w c \<Longrightarrow> reached P d0 (queue f w) c"
  by (simp add: reached_def)

lemma challengeSubmitterCrank_cranks:
  assumes "challengeSubmitterCrank E m cid w = Inr (wait, w')" and wf: "wfDb (se_platform E) (w_db w)"
  shows "cranks (se_platform E) (w_db w) (w_db w')"
proof -
  let ?P = "se_platform E"
  have "returns (challengeSubmitterCrank E m cid w) (\<lambda>(wait, w'). cranks ?P (w_db w) (w_db w'))"
    unfolding challengeSubmitterCrank_def Let_def
    by (intro walk; simp; drule reached_start [OF _ wf]; (drule (1) insertOrUpdate_reached)?;
        ((drule (1) closing_steps | drule queue_reached, drule (1) closing_steps)+)?; erule reached_cranks)
  then show ?thesis using assms(1) by (auto dest: returnsD)
qed

section \<open>The ledger manager\<close>

lemma consultBytecode_requests [simp]: "db_ledgerRequests (consultBytecode E c s d) = db_ledgerRequests d"
  by (simp add: consultBytecode_def cacheBytecode_def split: option.split)

lemma patchChannel_requests [simp]: "db_ledgerRequests (patchChannel f cid d) = db_ledgerRequests d"
  by (simp add: patchChannel_def)

lemma signAndQueue_requests:
  "signAndQueue E c v w = Inr (c', w') \<Longrightarrow> db_ledgerRequests (w_db w') = db_ledgerRequests (w_db w)"
  by (auto simp: signAndQueue_def storeSignState_def bindE_eq_Inr dest!: onOut_db)

lemma signAll_reached:
  assumes "signAll E ss (c, w) = Inr (c', w')" and "reached (se_platform E) d0 w c"
  shows "reached (se_platform E) d0 w' c' \<and> db_ledgerRequests (w_db w') = db_ledgerRequests (w_db w)"
proof -
  let ?Q = "\<lambda>cw. reached (se_platform E) d0 (snd cw) (fst cw) \<and>
    db_ledgerRequests (w_db (snd cw)) = db_ledgerRequests (w_db w)"
  have "?Q (c', w')"
    using assms(1) [unfolded signAll_def]
    by (rule foldE_inv [where P = ?Q])
       (use assms(2) in \<open>auto elim: reached_sign dest: signAndQueue_requests\<close>)
  then show ?thesis by simp
qed

lemma getActive_cong: "db_ledgerRequests d = db_ledgerRequests e \<Longrightarrow> getActiveRequests d l = getActiveRequests e l"
  by (simp add: getActiveRequests_def)

text \<open>A crank of a ledger that does something, in its stages.\<close>

lemma ledgerManagerCrank_stages:
  assumes run: "ledgerManagerCrank E l w = Inr (touched, w')" and wf: "wfDb (se_platform E) (w_db w)"
  shows "w' = w \<and> touched = [] \<or>
    (\<exists>c' w1 rs. reached (se_platform E) (w_db w) w1 c' \<and> savedFor (w_db w1) l rs \<and>
      db_ledgerRequests (w_db w1) = db_ledgerRequests (w_db w) \<and>
      w_db w' = saveAll rs (w_db w1) \<and>
      touched = uniq (map channelToBeFunded (filter (\<lambda>r. \<not> isActive r) rs)))"
proof -
  let ?P = "se_platform E"
  from run obtain c where c: "getAndLockChannel (w_db w) l = Inr c"
    by (auto simp: ledgerManagerCrank_def Let_def bindE_eq_Inr)
  show ?thesis
  proof (cases "\<not> isRunning ?P c \<or> \<not> ch_isLedgerChannel c")
    case True
    with run c show ?thesis by (auto simp: ledgerManagerCrank_def)
  next
    case False
    let ?d1 = "if ch_initialSupport c = [] \<and> isSupported ?P c
      then setInitialSupport (ch_channelId c) (map signed_state.truncate (support ?P c)) (w_db w) else w_db w"
    from run c False obtain newest where n: "latest c = Some newest"
      by (cases "latest c") (simp_all add: ledgerManagerCrank_def Let_def)
    from run [unfolded ledgerManagerCrank_def Let_def c bindE_Inr if_not_P [OF False] n option.case]
    obtain ss rs c' w1 where crank: "crankLedger (ethersLib ?P) (readonlyChannel c newest)
        (getActiveRequests (w_db w) l) = Inr (ss, rs)"
      and sign: "signAll E ss (c, w\<lparr>w_db := ?d1\<rparr>) = Inr (c', w1)"
      and q: "queueChannelW E c' (w1\<lparr>w_db := saveAll rs (w_db w1)\<rparr>) = Inr w'"
      and t: "touched = uniq (map channelToBeFunded (filter (\<lambda>r. \<not> isActive r) rs))"
      by (auto simp: bindE_eq_Inr simp del: if_split)
    have d1: "calm ?P (w_db w) ?d1" by (simp add: calm_columns)
    have start: "reached ?P (w_db w) (w\<lparr>w_db := ?d1\<rparr>) c"
      by (rule reached_calm [OF reached_start [OF c wf]]) (use d1 in simp)
    have same: "db_ledgerRequests ?d1 = db_ledgerRequests (w_db w)" by (simp add: setInitialSupport_def)
    from signAll_reached [OF sign start] same
    have r: "reached ?P (w_db w) w1 c'" and req: "db_ledgerRequests (w_db w1) = db_ledgerRequests (w_db w)"
      by simp_all
    from reached_wf [OF r] have "savedFor (w_db w1) l rs"
      using sameKeys_crank [OF crank] getActive_cong [OF req] by (simp add: savedFor_def wfDb_def)
    moreover from queueChannelW_db [OF q] have "w_db w' = saveAll rs (w_db w1)" by simp
    ultimately show ?thesis using r req t by blast
  qed
qed

lemma ledgerManagerCrank_cranks:
  assumes "ledgerManagerCrank E l w = Inr (touched, w')" and wf: "wfDb (se_platform E) (w_db w)"
  shows "cranks (se_platform E) (w_db w) (w_db w')"
  using ledgerManagerCrank_stages [OF assms]
proof (elim disjE exE conjE)
  fix c' w1 rs
  assume r: "reached (se_platform E) (w_db w) w1 c'" and s: "savedFor (w_db w1) l rs"
    and w': "w_db w' = saveAll rs (w_db w1)"
  from s have "calm (se_platform E) (w_db w1) (saveAll rs (w_db w1))"
    by (intro calm_saveAll [of _ l]) (simp add: savedFor_def)
  with reached_cranks [OF r] show ?thesis unfolding w' using calm_cranks cranks_trans by blast
qed simp

text \<open>The keys of the requests that have ended.\<close>

definition endedKeys :: "db \<Rightarrow> (bytes32 \<times> request_type) set" where
  "endedKeys d = requestKey ` {r \<in> set (db_ledgerRequests d). \<not> isActive r}"

lemma endedKeys_mono: "endedKept d d' \<Longrightarrow> endedKeys d \<subseteq> endedKeys d'"
  by (auto simp: endedKeys_def endedKept_def)

lemma ledgerManagerCrank_ends:
  assumes run: "ledgerManagerCrank E l w = Inr (touched, w')" and wf: "wfDb (se_platform E) (w_db w)"
    and touched: "touched \<noteq> []"
  shows "endedKeys (w_db w) \<subset> endedKeys (w_db w')"
proof -
  from ledgerManagerCrank_stages [OF run wf] touched obtain c' w1 rs where
    r: "reached (se_platform E) (w_db w) w1 c'" and s: "savedFor (w_db w1) l rs"
    and req: "db_ledgerRequests (w_db w1) = db_ledgerRequests (w_db w)"
    and w': "w_db w' = saveAll rs (w_db w1)"
    and t: "touched = uniq (map channelToBeFunded (filter (\<lambda>r. \<not> isActive r) rs))" by blast
  from touched t obtain x where x: "x \<in> set rs" "\<not> isActive x"
    by (metis (mono_tags, lifting) filter_False list.simps(8) uniqBy.simps(1))
  have "requestKey x \<in> endedKeys (w_db w')"
    using x by (auto simp: endedKeys_def w' saved_rows [OF s])
  moreover have "requestKey x \<notin> endedKeys (w_db w)"
  proof
    assume "requestKey x \<in> endedKeys (w_db w)"
    then obtain y where "y \<in> set (db_ledgerRequests (w_db w1))" "\<not> isActive y" "requestKey x = requestKey y"
      by (auto simp: endedKeys_def req)
    with saved_ended [OF s this(1,2)] x(1) show False by (metis image_eqI)
  qed
  moreover have "endedKeys (w_db w) \<subseteq> endedKeys (w_db w')"
    using ledgerManagerCrank_cranks [OF run wf] wf
    by (intro endedKeys_mono) (simp add: cranks_def advances_def)
  ultimately show ?thesis by blast
qed

lemma endedKeys_bound:
  assumes "wfDb P d"
  shows "endedKeys d \<subseteq> set (channelIds d) \<times> {Fund, Defund}" and "finite (endedKeys d)"
proof -
  have "requestKey r \<in> set (channelIds d) \<times> {Fund, Defund}" if "r \<in> set (db_ledgerRequests d)" for r
    using that assms by (cases "req_type r") (auto simp: wfDb_def requestsOk_def hasChannel_def requestKey_def channelIds_def)
  then show "endedKeys d \<subseteq> set (channelIds d) \<times> {Fund, Defund}" unfolding endedKeys_def by blast
  show "finite (endedKeys d)" by (simp add: endedKeys_def)
qed

section \<open>The objective manager\<close>

lemma dispatchObjective_cranks:
  "dispatchObjective E m w = Inr (wait, w') \<Longrightarrow> wfDb (se_platform E) (w_db w) \<Longrightarrow>
   cranks (se_platform E) (w_db w) (w_db w')"
  by (cases "o_objective m")
     (auto simp: dispatchObjective_def elim: channelOpenerCrank_cranks channelCloserCrank_cranks
       challengeSubmitterCrank_cranks channelDefunderCrank_cranks)

lemma objectiveManagerCrank_cranks:
  assumes "objectiveManagerCrank E oid w = Inr w'" and wf: "wfDb (se_platform E) (w_db w)"
  shows "cranks (se_platform E) (w_db w) (w_db w')"
proof -
  from assms(1) obtain m wait w1 where d: "dispatchObjective E m w = Inr (wait, w1)"
    and w': "w' = w1 \<or> (\<exists>x. onDb (updateWaitingFor (se_now E) oid wait) w1 = Inr (x, w'))"
    by (auto simp: objectiveManagerCrank_def bindE_eq_Inr split: if_splits)
  from w' have "calm (se_platform E) (w_db w1) (w_db w')"
    by (auto dest!: onDb_eq elim: calm_objective_updates(5))
  with dispatchObjective_cranks [OF d wf] show ?thesis using calm_cranks cranks_trans by blast
qed

lemma commenceCloseChannel_calm: "commenceCloseChannel E cid w = Inr w' \<Longrightarrow> calm P (w_db w) (w_db w')"
  by (auto simp: commenceCloseChannel_def bindE_eq_Inr split: option.splits
      dest!: onDb_eq onOut_db elim: calm_insertObjective)

end
