(* ===== verification/EngineFacts.thy ===== *)
theory EngineFacts
  imports Engine ProtocolFacts
begin

text \<open>
  Total correctness of the engine's calls: a triple says that a call returns, what then holds, and
  what holds when it throws half way. Every call returns on a well-formed database, keeps it
  well-formed and moves channels forward only, whether it succeeds or throws; for \<open>takeActions\<close>
  this rests on the number of ledger requests that can still end.
\<close>

section \<open>Triples\<close>

definition runs :: "('s \<Rightarrow> bool) \<Rightarrow> ('s, 'a) sio \<Rightarrow> ('a \<Rightarrow> 's \<Rightarrow> bool) \<Rightarrow> ('s \<Rightarrow> bool) \<Rightarrow> bool" where
  "runs A m B C \<longleftrightarrow> (\<forall>w. A w \<longrightarrow>
     (\<exists>w' r. m w = Some (w', r) \<and> (case r of Inl _ \<Rightarrow> C w' | Inr x \<Rightarrow> B x w')))"

lemma runsI:
  "(\<And>w. A w \<Longrightarrow> \<exists>w' r. m w = Some (w', r) \<and> (case r of Inl _ \<Rightarrow> C w' | Inr x \<Rightarrow> B x w')) \<Longrightarrow> runs A m B C"
  by (simp add: runs_def)

lemma runsD:
  assumes "runs A m B C" and "A w"
  obtains w' e where "m w = Some (w', Inl e)" and "C w'"
  | w' x where "m w = Some (w', Inr x)" and "B x w'"
proof -
  from assms obtain w' r where "m w = Some (w', r)" "case r of Inl _ \<Rightarrow> C w' | Inr x \<Rightarrow> B x w'"
    unfolding runs_def by blast
  with that show thesis by (cases r) auto
qed

lemma runs_return: "(\<And>w. A w \<Longrightarrow> B x w) \<Longrightarrow> runs A (returnIO x) B C"
  by (simp add: runs_def returnIO_def)

lemma runs_throw: "(\<And>w. A w \<Longrightarrow> C w) \<Longrightarrow> runs A (throwIO e) B C"
  by (simp add: runs_def throwIO_def)

lemma runs_bind:
  assumes "runs A m B C" and "\<And>x. runs (B x) (f x) D C"
  shows "runs A (bindIO m f) D C"
proof (rule runsI)
  fix w assume "A w"
  from runsD [OF assms(1) this] show "\<exists>w' r. bindIO m f w = Some (w', r) \<and>
      (case r of Inl _ \<Rightarrow> C w' | Inr x \<Rightarrow> D x w')"
  proof cases
    case (2 w' x)
    with assms(2) [of x] show ?thesis by (auto simp: bindIO_def runs_def)
  qed (simp add: bindIO_def)
qed

lemma runs_transaction:
  assumes "\<And>w. A w \<Longrightarrow> C w" and "\<And>w x w'. A w \<Longrightarrow> f w = Inr (x, w') \<Longrightarrow> B x w'"
  shows "runs A (transaction f) B C"
  using assms by (auto simp: runs_def transaction_def split: sum.split)

lemma runs_read: "(\<And>w. A w \<Longrightarrow> C w) \<Longrightarrow> (\<And>w x. A w \<Longrightarrow> f (w_db w) = Inr x \<Longrightarrow> B x w) \<Longrightarrow> runs A (readDb f) B C"
  by (auto simp: runs_def readDb_def split: sum.split)

lemma runs_fold:
  assumes "\<And>s x. x \<in> set xs \<Longrightarrow> runs (B s) (f s x) B C"
  shows "runs (B s) (foldIO f s xs) B C"
  using assms
proof (induction xs arbitrary: s)
  case Nil
  then show ?case by (simp add: runs_return)
next
  case (Cons x xs)
  show ?case unfolding foldIO.simps
    by (rule runs_bind [OF Cons.prems [of x s]]) (use Cons in auto)
qed

lemma runs_all:
  assumes "\<And>x. x \<in> set xs \<Longrightarrow> runs A (f x) (\<lambda>_. A) A"
  shows "runs A (allIO f xs) (\<lambda>_. A) A"
  using assms
proof (induction xs)
  case Nil
  then show ?case by (simp add: runs_return)
next
  case (Cons x xs)
  show ?case
  proof (rule runsI)
    fix w assume "A w"
    with Cons.prems [of x] obtain w1 r where 1: "f x w = Some (w1, r)" "A w1"
      by (fastforce simp: runs_def split: sum.splits)
    from Cons have "runs A (allIO f xs) (\<lambda>_. A) A" by simp
    with 1(2) obtain w2 rs where "allIO f xs w1 = Some (w2, rs)" "A w2"
      by (fastforce simp: runs_def split: sum.splits)
    with 1 show "\<exists>w' r. allIO f (x # xs) w = Some (w', r) \<and> (case r of Inl _ \<Rightarrow> A w' | Inr _ \<Rightarrow> A w')"
      by (simp split: sum.split)
  qed
qed

lemma runs_pre: "runs A m B C \<Longrightarrow> (\<And>w. A' w \<Longrightarrow> A w) \<Longrightarrow> runs A' m B C"
  by (simp add: runs_def)

section \<open>One turn of \<open>takeActions\<close>\<close>

definition cranked :: "platform \<Rightarrow> db \<Rightarrow> world \<Rightarrow> bool" where
  "cranked P d0 w \<longleftrightarrow> wfDb P d0 \<and> cranks P d0 (w_db w)"

definition touchedEnds :: "platform \<Rightarrow> db \<Rightarrow> bytes32 list \<Rightarrow> world \<Rightarrow> bool" where
  "touchedEnds P d0 acc w \<longleftrightarrow> cranked P d0 w \<and> (acc \<noteq> [] \<longrightarrow> endedKeys d0 \<subset> endedKeys (w_db w))"

lemma cranked_wf: "cranked P d0 w \<Longrightarrow> wfDb P (w_db w)"
  unfolding cranked_def using cranks_wf by blast

lemma cranked_step: "cranked P d0 w \<Longrightarrow> cranks P (w_db w) (w_db w') \<Longrightarrow> cranked P d0 w'"
  unfolding cranked_def using cranks_trans by blast

lemma cranked_ended: "cranked P d0 w \<Longrightarrow> endedKeys d0 \<subseteq> endedKeys (w_db w)"
  by (rule endedKeys_mono) (simp add: cranked_def cranks_def advances_def)

lemma touchedEnds_step:
  assumes "touchedEnds (se_platform E) d0 acc w" and "ledgerManagerCrank E l w = Inr (touched, w')"
  shows "touchedEnds (se_platform E) d0 (acc @ touched) w'"
proof -
  let ?P = "se_platform E"
  from assms(1) have c: "cranked ?P d0 w" by (simp add: touchedEnds_def)
  note wf = cranked_wf [OF c]
  note k = ledgerManagerCrank_cranks [OF assms(2) wf]
  have "cranked ?P (w_db w) w'" using k wf by (simp add: cranked_def)
  from cranked_ended [OF this] cranked_ended [OF c]
  have "endedKeys d0 \<subseteq> endedKeys (w_db w)" "endedKeys (w_db w) \<subseteq> endedKeys (w_db w')" by blast+
  moreover have "endedKeys (w_db w) \<subset> endedKeys (w_db w')" if "touched \<noteq> []"
    using ledgerManagerCrank_ends [OF assms(2) wf that] .
  ultimately have "acc @ touched \<noteq> [] \<longrightarrow> endedKeys d0 \<subset> endedKeys (w_db w')"
    using assms(1) unfolding touchedEnds_def by blast
  with cranked_step [OF c k] show ?thesis by (simp add: touchedEnds_def)
qed

lemma takeActionsStep_runs:
  "runs (cranked (se_platform E) d0) (takeActionsStep E cids) (touchedEnds (se_platform E) d0)
     (cranked (se_platform E) d0)"
proof -
  let ?P = "se_platform E"
  have objectives: "runs (cranked ?P d0) (forIO oids (\<lambda>oid. transactionU (objectiveManagerCrank E oid)))
      (\<lambda>_. cranked ?P d0) (cranked ?P d0)" for oids
    unfolding forIO_def transactionU_def
    by (intro runs_fold runs_transaction)
       (auto simp: bindE_eq_Inr intro: cranked_step objectiveManagerCrank_cranks cranked_wf)
  have ledger: "runs (touchedEnds ?P d0 acc) (bindIO (transaction (ledgerManagerCrank E l))
      (\<lambda>touched. returnIO (acc @ touched))) (touchedEnds ?P d0) (cranked ?P d0)" for acc l
  proof (rule runs_bind [where B = "\<lambda>touched. touchedEnds ?P d0 (acc @ touched)"])
    show "runs (touchedEnds ?P d0 acc) (transaction (ledgerManagerCrank E l))
        (\<lambda>touched. touchedEnds ?P d0 (acc @ touched)) (cranked ?P d0)"
      by (rule runs_transaction) (simp add: touchedEnds_def, rule touchedEnds_step)
  qed (rule runs_return)
  have ledgers: "runs (cranked ?P d0) (foldIO (\<lambda>acc l. bindIO (transaction (ledgerManagerCrank E l))
      (\<lambda>touched. returnIO (acc @ touched))) [] ls) (touchedEnds ?P d0) (cranked ?P d0)" for ls
    by (rule runs_pre [OF runs_fold [OF ledger]]) (simp add: touchedEnds_def)
  have read: "runs (cranked ?P d0) (readDb f) (\<lambda>_. cranked ?P d0) (cranked ?P d0)" for f :: "db \<Rightarrow> 'b result"
    by (rule runs_read) simp_all
  show ?thesis
    unfolding takeActionsStep_def by (intro runs_bind [OF read] runs_bind [OF objectives] ledgers)
qed

section \<open>\<open>takeActions\<close> returns\<close>

definition requestsLeft :: "db \<Rightarrow> nat" where
  "requestsLeft d = card (set (channelIds d) \<times> {Fund, Defund}) - card (endedKeys d)"

lemma requestsLeft_less:
  assumes "wfDb P d'" and "channelIds d' = channelIds d" and "endedKeys d \<subset> endedKeys d'"
  shows "requestsLeft d' < requestsLeft d"
proof -
  have "card (endedKeys d) < card (endedKeys d')"
    using endedKeys_bound(2) [OF assms(1)] assms(3) by (rule psubset_card_mono)
  moreover have "card (endedKeys d') \<le> card (set (channelIds d') \<times> {Fund, Defund})"
    by (rule card_mono) (use endedKeys_bound(1) [OF assms(1)] in auto)
  ultimately show ?thesis by (simp add: requestsLeft_def assms(2))
qed

lemma takeActions_runs:
  "runs (cranked (se_platform E) d0) (takeActions E cids) (\<lambda>_. cranked (se_platform E) d0)
     (cranked (se_platform E) d0)"
proof (rule runsI)
  let ?P = "se_platform E"
  let ?post = "\<lambda>cids w. \<exists>w' r. takeActions E cids w = Some (w', r) \<and>
      (case r of Inl _ \<Rightarrow> cranked ?P d0 w' | Inr _ \<Rightarrow> cranked ?P d0 w')"
  fix w assume "cranked ?P d0 w"
  then show "?post cids w"
  proof (induction "requestsLeft (w_db w)" arbitrary: w cids rule: less_induct)
    case less
    note wf = cranked_wf [OF less.prems]
    show ?case
    proof (cases "cids = []")
      case True
      with less.prems show ?thesis by (simp add: takeActions.simps)
    next
      case False
      have "cranked ?P (w_db w) w" using wf by (simp add: cranked_def)
      from runsD [OF takeActionsStep_runs this, of cids] show ?thesis
      proof cases
        case (1 w' e)
        with False cranked_step [OF less.prems] show ?thesis
          by (auto simp: takeActions.simps [of E cids w] cranked_def)
      next
        case (2 w1 cids')
        then have k: "cranks ?P (w_db w) (w_db w1)" by (simp add: touchedEnds_def cranked_def)
        note at = cranked_step [OF less.prems k]
        have eq: "takeActions E cids w = takeActions E cids' w1"
          using False 2(1) by (simp add: takeActions.simps [of E cids w])
        show ?thesis
        proof (cases "cids' = []")
          case True
          with at show ?thesis by (simp add: eq takeActions.simps [of E "[]" w1])
        next
          case False
          with 2(2) have "endedKeys (w_db w) \<subset> endedKeys (w_db w1)" by (simp add: touchedEnds_def)
          moreover have "channelIds (w_db w1) = channelIds (w_db w)" using k wf by (simp add: cranks_def)
          ultimately have "requestsLeft (w_db w1) < requestsLeft (w_db w)"
            by (rule requestsLeft_less [OF cranked_wf [OF at], rotated])
          from less.hyps [OF this at, of cids'] show ?thesis by (simp add: eq)
        qed
      qed
    qed
  qed
qed

section \<open>Every call of the engine\<close>

definition advanced :: "platform \<Rightarrow> db \<Rightarrow> world \<Rightarrow> bool" where
  "advanced P d0 w \<longleftrightarrow> wfDb P d0 \<and> advances P d0 (w_db w)"

definition soundIO :: "store_env \<Rightarrow> 'a io \<Rightarrow> bool" where
  "soundIO E m \<longleftrightarrow>
     (\<forall>d0. runs (advanced (se_platform E) d0) m (\<lambda>_. advanced (se_platform E) d0) (advanced (se_platform E) d0))"

named_theorems sound \<open>introduction rules for calls that return and keep the database well-formed\<close>

lemma advanced_wf: "advanced P d0 w \<Longrightarrow> wfDb P (w_db w)"
  unfolding advanced_def using advances_wf by blast

lemma advanced_step: "advanced P d0 w \<Longrightarrow> advances P (w_db w) (w_db w') \<Longrightarrow> advanced P d0 w'"
  unfolding advanced_def using advances_trans by blast

lemma advanced_out [simp]: "advanced P d0 (w\<lparr>w_out := r\<rparr>) = advanced P d0 w"
  by (simp add: advanced_def)

lemma sound_return [sound]: "soundIO E (returnIO x)"
  by (simp add: soundIO_def runs_return)

lemma sound_throw [sound]: "soundIO E (throwIO e)"
  by (simp add: soundIO_def runs_throw)

lemma sound_bind [sound]: "soundIO E m \<Longrightarrow> (\<And>x. soundIO E (f x)) \<Longrightarrow> soundIO E (bindIO m f)"
  unfolding soundIO_def by (blast intro: runs_bind)

lemma sound_transaction:
  assumes "\<And>w x w'. f w = Inr (x, w') \<Longrightarrow> wfDb (se_platform E) (w_db w) \<Longrightarrow> advances (se_platform E) (w_db w) (w_db w')"
  shows "soundIO E (transaction f)"
  unfolding soundIO_def
  by (intro allI runs_transaction) (use assms advanced_step advanced_wf in blast)+

lemma sound_transactionU:
  assumes "\<And>w w'. f w = Inr w' \<Longrightarrow> wfDb (se_platform E) (w_db w) \<Longrightarrow> advances (se_platform E) (w_db w) (w_db w')"
  shows "soundIO E (transactionU f)"
  unfolding transactionU_def
  by (rule sound_transaction) (use assms in \<open>auto simp: bindE_eq_Inr\<close>)

lemma sound_db:
  assumes "\<And>d x d'. f d = Inr (x, d') \<Longrightarrow> wfDb (se_platform E) d \<Longrightarrow> advances (se_platform E) d d'"
  shows "soundIO E (dbTransaction f)"
  unfolding dbTransaction_def
  by (rule sound_transaction) (use assms in \<open>auto dest!: onDb_eq\<close>)

lemma sound_db_calm:
  "(\<And>d x d'. f d = Inr (x, d') \<Longrightarrow> calm (se_platform E) d d') \<Longrightarrow> soundIO E (dbTransaction f)"
  by (rule sound_db) (blast intro: calm_advances)

lemma sound_read [sound]: "soundIO E (readDb f)"
  unfolding soundIO_def by (intro allI runs_read)

lemma sound_respond [sound]: "soundIO E (respond f)"
  unfolding respond_def by (rule sound_transactionU) (auto dest: onOut_db)

lemma sound_newResponse [sound]: "soundIO E newResponse"
  by (simp add: soundIO_def runs_def newResponse_def)

lemma sound_outputOf [sound]: "soundIO E (outputOf f)"
  by (simp add: soundIO_def runs_def outputOf_def split: sum.split)

lemma sound_fold [sound]: "(\<And>s x. x \<in> set xs \<Longrightarrow> soundIO E (f s x)) \<Longrightarrow> soundIO E (foldIO f s xs)"
  unfolding soundIO_def by (intro allI runs_fold) blast

lemma sound_for [sound]: "(\<And>x. x \<in> set xs \<Longrightarrow> soundIO E (f x)) \<Longrightarrow> soundIO E (forIO xs f)"
  unfolding forIO_def by (rule sound_fold)

lemma sound_all [sound]: "(\<And>x. x \<in> set xs \<Longrightarrow> soundIO E (f x)) \<Longrightarrow> soundIO E (allIO f xs)"
  unfolding soundIO_def by (intro allI runs_all) blast

lemma sound_catch [sound]:
  assumes "soundIO E m"
  shows "soundIO E (catchIO m g)"
  unfolding soundIO_def
proof (intro allI runsI)
  fix d0 w assume "advanced (se_platform E) d0 w"
  from runsD [OF assms [unfolded soundIO_def, THEN spec] this]
  show "\<exists>w' r. catchIO m g w = Some (w', r) \<and>
      (case r of Inl _ \<Rightarrow> advanced (se_platform E) d0 w' | Inr x \<Rightarrow> advanced (se_platform E) d0 w')"
    by cases (simp_all add: catchIO_def)
qed

lemma sound_if [sound]: "soundIO E m \<Longrightarrow> soundIO E n \<Longrightarrow> soundIO E (if b then m else n)"
  by simp

lemma sound_prod [sound]: "(\<And>a b. soundIO E (f a b)) \<Longrightarrow> soundIO E (case p of (a, b) \<Rightarrow> f a b)"
  by (cases p) simp

lemma sound_option [sound]: "soundIO E m \<Longrightarrow> (\<And>y. soundIO E (f y)) \<Longrightarrow> soundIO E (case x of None \<Rightarrow> m | Some y \<Rightarrow> f y)"
  by (cases x) simp_all

lemma sound_list [sound]:
  "soundIO E m \<Longrightarrow> (\<And>y ys. soundIO E (f y ys)) \<Longrightarrow> soundIO E (case xs of [] \<Rightarrow> m | y # ys \<Rightarrow> f y ys)"
  by (cases xs) simp_all

lemma sound_takeActions [sound]: "soundIO E (takeActions E cids)"
  unfolding soundIO_def
proof (intro allI runsI)
  fix d0 w assume a: "advanced (se_platform E) d0 w"
  have "cranked (se_platform E) (w_db w) w" using advanced_wf [OF a] by (simp add: cranked_def)
  from runsD [OF takeActions_runs this, of cids]
  show "\<exists>w' r. takeActions E cids w = Some (w', r) \<and>
      (case r of Inl _ \<Rightarrow> advanced (se_platform E) d0 w' | Inr x \<Rightarrow> advanced (se_platform E) d0 w')"
    by cases (auto simp: cranked_def intro: advanced_step [OF a] cranks_advances)
qed

lemma sound_createOne [sound]: "soundIO E (createOne E a role')"
  unfolding createOne_def
  by (intro sound sound_db) (auto intro: calm_advances calm_nextNonce storeCreateChannel_advances)

lemma sound_objectives [sound]:
  "soundIO E (dbTransaction (approveObjective oid))"
  "soundIO E (dbTransaction (approveIfPending oid cid))"
  "soundIO E (transactionU (commenceCloseChannel E cid))"
  by (rule sound_db_calm, erule approveObjective_calm)
     (rule sound_db_calm, auto simp: approveIfPending_def bindE_eq_Inr split: if_splits elim: approveObjective_calm,
      rule sound_transactionU, blast intro: calm_advances commenceCloseChannel_calm)

lemma sound_commenceChallenge [sound]: "soundIO E (transactionU (commenceChallenge E cid))"
  by (rule sound_transactionU, rule calm_advances)
     (auto simp: commenceChallenge_def bindE_eq_Inr split: option.splits if_splits
       dest!: onDb_eq onOut_db queueChannelW_db elim: calm_insertObjective)

lemma sound_storePushMessage [sound]: "soundIO E (dbTransaction (storePushMessage E m))"
  by (rule sound_db) (rule storePushMessage_advances)

lemma updateChannelBody_advances:
  assumes "updateChannelBody E allocations data c w = Inr w'" and "wfDb (se_platform E) (w_db w)"
    and "synced (w_db w) c"
  shows "advances (se_platform E) (w_db w) (w_db w')"
proof -
  from assms(1) obtain v c' w1 where s: "signAndQueue E c v w = Inr (c', w1)" and "w_db w' = w_db w1"
    by (auto simp: updateChannelBody_def bindE_eq_Inr dest!: onOut_db)
  with signAndQueue_cranks [OF s assms(2,3)] show ?thesis by (simp add: cranks_advances)
qed

lemma sound_updateChannel [sound]: "soundIO E (updateChannel E cid allocations data)"
  unfolding updateChannel_def
  by (intro sound sound_transaction)
     (auto simp: bindE_eq_Inr split: option.splits dest: synced_findChannel elim: updateChannelBody_advances)

lemma sound_singleAppUpdate [sound]: "soundIO E (singleAppUpdate E m)"
  unfolding singleAppUpdate_def
  by (intro sound sound_transactionU)
     (auto simp: bindE_eq_Inr split: if_splits dest!: queueChannelW_db elim: addSignedState_advances)

lemma sound_sync [sound]: "soundIO E (syncOne E cid)" "soundIO E (syncObjective E ob)"
  unfolding syncObjective_def syncOne_def by (intro sound)+

lemma sound_answer [sound]: "soundIO E (answerRequest E q)" "soundIO E (handleMessage E m)"
  "soundIO E (requireNewObjective msg r)"
  unfolding handleMessage_def answerRequest_def requireNewObjective_def by (intro sound)+

lemma sound_calls:
  "soundIO E (syncChannels E cids)" "soundIO E (syncChannel E cid)" "soundIO E (syncObjectives E oids)"
  "soundIO E (createLedgerChannel E a strategy)" "soundIO E (engineCreateChannel E a)"
  "soundIO E (createChannels E a n)" "soundIO E (joinChannels E cids)" "soundIO E (approveObjectives E oids)"
  "soundIO E (joinChannel E cid)" "soundIO E (crankChannels E cids)" "soundIO E (closeChannels E cids)"
  "soundIO E (closeChannel E cid)" "soundIO E (challenge E cid)" "soundIO E (engineGetLedgerChannels E ps)"
  "soundIO E (engineGetChannels E)" "soundIO E (getState E cid)" "soundIO E (pushMessage E m)"
  "soundIO E (pushUpdate E m)"
  unfolding syncChannels_def syncChannel_def syncObjectives_def createLedgerChannel_def
    engineCreateChannel_def createChannels_def joinChannels_def approveObjectives_def joinChannel_def
    crankChannels_def closeChannels_def closeChannel_def challenge_def engineGetLedgerChannels_def
    engineGetChannels_def getState_def pushMessage_def pushUpdate_def
  by (intro sound)+

end
