(* ===== verification/EngineFixtures.thy ===== *)
theory EngineFixtures
  imports Engine
begin

text \<open>
  Concrete environments and databases for the witnesses about the store and the engine. They model
  no code.
\<close>

definition sampleEnv :: store_env where
  "sampleEnv = \<lparr>se_platform = samplePlatform, se_skipEvm = False, se_chainNetworkID = ''0x1'',
     se_configChainID = ''0x1'', se_version = ''1'', se_now = 1000000, se_ignored = (\<lambda>old new. old)\<rparr>"

text \<open>Alice's database with the channel of \<open>sampleChannel\<close>.\<close>

definition sampleDb :: "signed_vars list \<Rightarrow> db" where
  "sampleDb vs = emptyDb\<lparr>
     db_signingWallets := [\<lparr>privateKey = ''0xA'', wallet_address = ''0xA''\<rparr>],
     db_channels := [sampleChannel vs],
     db_nonces := [\<lparr>n_addresses = [''0xA'', ''0xB''], n_value = 1\<rparr>]\<rparr>"

definition openObjective :: wallet_objective where
  "openObjective = \<lparr>o_objectiveId = ''OpenChannel-'' @ sampleDest CHR ''l'', o_status = ApprovedObjective,
     o_objective = OpenChannel [] \<lparr>oc_targetChannelId = sampleDest CHR ''l'', oc_fundingStrategy = Direct,
       oc_role = Some AppRole, oc_fundingLedgerChannelId = None\<rparr>,
     o_waitingFor = WaitingApproval, o_createdAt = 0, o_progressLastMadeAt = 0\<rparr>"

text \<open>The same with an approved objective to open it and a deposit.\<close>

definition openingDb :: "uint256 \<Rightarrow> signed_vars list \<Rightarrow> db" where
  "openingDb n vs = (sampleDb vs)\<lparr>
     db_objectives := [openObjective],
     db_objectivesChannels := [(o_objectiveId openObjective, sampleDest CHR ''l'')],
     db_funding := [\<lparr>f_channelId = sampleDest CHR ''l'', f_asset = zeroAddress, f_amount = n,
                     f_transferredOut = []\<rparr>]\<rparr>"

definition worldOf :: "db \<Rightarrow> world" where
  "worldOf d = \<lparr>w_db = d, w_out = initResponse\<rparr>"

end
