(* ===== verification/EngineSafety.thy ===== *)
theory EngineSafety
  imports EngineFacts EngineFixtures
begin

text \<open>
  What holds of the engine over its lifetime: the databases it can reach are well-formed, its loop
  returns, it never signs two states of a channel in one turn, and the nonces it hands out are new;
  with the one check it does not make, that a state belongs to the channel it is stored in.
\<close>

section \<open>The steps of the database\<close>

text \<open>
  The engine's public calls, whatever they return, and the calls of the store that the wallet makes
  when the chain reports something. No code is translated here: the relation collects the modelled
  operations, each a transaction of its own, so that statements can speak of whatever happens in
  between. The environment may change from step to step (it holds the clock), the platform may not.
\<close>

inductive dbStep :: "platform \<Rightarrow> db \<Rightarrow> db \<Rightarrow> bool" for P where
  createLedger: "se_platform E = P \<Longrightarrow> createLedgerChannel E a st \<lparr>w_db = d, w_out = r\<rparr> = Some (w, x1) \<Longrightarrow> dbStep P d (w_db w)"
| create: "se_platform E = P \<Longrightarrow> engineCreateChannel E a \<lparr>w_db = d, w_out = r\<rparr> = Some (w, x2) \<Longrightarrow> dbStep P d (w_db w)"
| createMany: "se_platform E = P \<Longrightarrow> createChannels E a n \<lparr>w_db = d, w_out = r\<rparr> = Some (w, x3) \<Longrightarrow> dbStep P d (w_db w)"
| joinMany: "se_platform E = P \<Longrightarrow> joinChannels E cids \<lparr>w_db = d, w_out = r\<rparr> = Some (w, x3) \<Longrightarrow> dbStep P d (w_db w)"
| join: "se_platform E = P \<Longrightarrow> joinChannel E cid \<lparr>w_db = d, w_out = r\<rparr> = Some (w, x2) \<Longrightarrow> dbStep P d (w_db w)"
| approve: "se_platform E = P \<Longrightarrow> approveObjectives E oids \<lparr>w_db = d, w_out = r\<rparr> = Some (w, x4) \<Longrightarrow> dbStep P d (w_db w)"
| crank: "se_platform E = P \<Longrightarrow> crankChannels E cids \<lparr>w_db = d, w_out = r\<rparr> = Some (w, x3) \<Longrightarrow> dbStep P d (w_db w)"
| update: "se_platform E = P \<Longrightarrow> updateChannel E cid al da \<lparr>w_db = d, w_out = r\<rparr> = Some (w, x2) \<Longrightarrow> dbStep P d (w_db w)"
| closeMany: "se_platform E = P \<Longrightarrow> closeChannels E cids \<lparr>w_db = d, w_out = r\<rparr> = Some (w, x3) \<Longrightarrow> dbStep P d (w_db w)"
| close: "se_platform E = P \<Longrightarrow> closeChannel E cid \<lparr>w_db = d, w_out = r\<rparr> = Some (w, x2) \<Longrightarrow> dbStep P d (w_db w)"
| challenge: "se_platform E = P \<Longrightarrow> challenge E cid \<lparr>w_db = d, w_out = r\<rparr> = Some (w, x2) \<Longrightarrow> dbStep P d (w_db w)"
| push: "se_platform E = P \<Longrightarrow> pushMessage E m \<lparr>w_db = d, w_out = r\<rparr> = Some (w, x3) \<Longrightarrow> dbStep P d (w_db w)"
| pushOne: "se_platform E = P \<Longrightarrow> pushUpdate E m \<lparr>w_db = d, w_out = r\<rparr> = Some (w, x2) \<Longrightarrow> dbStep P d (w_db w)"
| sync: "se_platform E = P \<Longrightarrow> syncObjectives E oids \<lparr>w_db = d, w_out = r\<rparr> = Some (w, x5) \<Longrightarrow> dbStep P d (w_db w)"
| signingAddress: "getOrCreateSigningAddress E key d = Inr (x6, d') \<Longrightarrow> dbStep P d d'"
| bytecode: "registerAppBytecode E app b d = Inr d' \<Longrightarrow> dbStep P d d'"
| progress: "updateObjectiveProgressDate E oids d = Inr (x7, d') \<Longrightarrow> dbStep P d d'"
| holding: "updateFunding cid h asset' d = Inr d' \<Longrightarrow> dbStep P d d'"
| payout: "storeUpdateTransferredOut cid asset' ts h d = Inr d' \<Longrightarrow> dbStep P d d'"
| challenged: "insertAdjudicatorStatus cid f ss d = Inr (x8, d') \<Longrightarrow> dbStep P d d'"
| finalized: "markAdjudicatorStatusAsFinalized cid b t f d = Inr d' \<Longrightarrow> dbStep P d d'"

definition reachableDb :: "platform \<Rightarrow> db \<Rightarrow> bool" where
  "reachableDb P d \<longleftrightarrow> (dbStep P)\<^sup>*\<^sup>* emptyDb d"

lemma soundIO_advances:
  assumes "soundIO E m" and "se_platform E = P" and "m \<lparr>w_db = d, w_out = r\<rparr> = Some (w, x)"
  shows "advances P d (w_db w)"
proof (cases "wfDb P d")
  case True
  then have "advanced (se_platform E) d \<lparr>w_db = d, w_out = r\<rparr>" by (simp add: advanced_def assms(2))
  from runsD [OF assms(1) [unfolded soundIO_def, THEN spec] this]
  have "advanced (se_platform E) d w" by cases (use assms(3) in simp_all)
  then show ?thesis by (simp add: advanced_def assms(2))
qed (simp add: advances_def)

lemma registerAppBytecode_calm: "registerAppBytecode E app b d = Inr d' \<Longrightarrow> calm P d d'"
  by (auto simp: registerAppBytecode_def bindE_eq_Inr calm_upsertBytecode)

lemma dbStep_advances:
  assumes "dbStep P d d'"
  shows "advances P d d'"
  using assms
proof cases
  case (createLedger E a st r w x) with soundIO_advances sound_calls(4) show ?thesis by blast
next
  case (create E a r w x) with soundIO_advances sound_calls(5) show ?thesis by blast
next
  case (createMany E a n r w x) with soundIO_advances sound_calls(6) show ?thesis by blast
next
  case (joinMany E cids r w x) with soundIO_advances sound_calls(7) show ?thesis by blast
next
  case (approve E oids r w x) with soundIO_advances sound_calls(8) show ?thesis by blast
next
  case (join E cid r w x) with soundIO_advances sound_calls(9) show ?thesis by blast
next
  case (crank E cids r w x) with soundIO_advances sound_calls(10) show ?thesis by blast
next
  case (closeMany E cids r w x) with soundIO_advances sound_calls(11) show ?thesis by blast
next
  case (close E cid r w x) with soundIO_advances sound_calls(12) show ?thesis by blast
next
  case (challenge E cid r w x) with soundIO_advances sound_calls(13) show ?thesis by blast
next
  case (push E m r w x) with soundIO_advances sound_calls(17) show ?thesis by blast
next
  case (pushOne E m r w x) with soundIO_advances sound_calls(18) show ?thesis by blast
next
  case (update E cid al da r w x) with soundIO_advances sound_updateChannel show ?thesis by blast
next
  case (sync E oids r w x) with soundIO_advances sound_calls(3) show ?thesis by blast
qed (auto intro: calm_advances elim: getOrCreateSigningAddress_calm registerAppBytecode_calm
  updateObjectiveProgressDate_calm calm_updateFunding storeUpdateTransferredOut_calm
  calm_insertAdjudicatorStatus markFinalized_calm)

lemma steps_advance: "(dbStep P)\<^sup>*\<^sup>* d d' \<Longrightarrow> advances P d d'"
  by (induction rule: rtranclp_induct) (auto intro: advances_trans dbStep_advances)

text \<open>
  C3: every database the engine can reach is well-formed. Keys are unique and references resolve,
  every channel has the identifier its constants give and was joined by this participant, its
  states have strictly descending turn numbers and different hashes, and the table of nonces is
  ahead of every channel.
\<close>

theorem reachable_wellformed: "reachableDb P d \<Longrightarrow> wfDb P d"
  unfolding reachableDb_def using steps_advance wfDb_empty advances_wf by blast

text \<open>
  C4: the loop of \<open>takeActions\<close> returns. Every turn but the last ends a ledger request for good,
  and there are at most two of them for each channel.
\<close>

theorem takeActions_returns:
  assumes "wfDb (se_platform E) (w_db w)"
  shows "\<exists>w' r. takeActions E cids w = Some (w', r)"
proof -
  have "cranked (se_platform E) (w_db w) w" using assms by (simp add: cranked_def)
  from runsD [OF takeActions_runs this] show ?thesis by blast
qed

text \<open>
  C2: a wallet never signs a turn of a channel twice, whatever happens in between. Let \<open>n\<close> be the
  turn of the latest state the wallet has signed on a channel; after any calls, with any messages
  and chain events, the next state it signs on that channel is of a later turn.
\<close>

theorem never_signs_a_turn_twice:
  assumes "wfDb P d" and "c \<in> set (db_channels d)" and "latestTurn c = Some n"
    and "(dbStep P)\<^sup>*\<^sup>* d d'" and "se_platform E = P"
    and "getAndLockChannel d' (ch_channelId c) = Inr c'"
    and "storeSignState E c' v d' = Inr (c'', s, d'')"
  shows "n < turnNum s"
proof -
  have a: "advances P d d'" by (rule steps_advance [OF assms(4)])
  from a assms(1) have wf: "wfDb P d'" by (rule advances_wf)
  from a assms(1,2) obtain k where k: "k \<in> set (db_channels d')" "continues c k"
    unfolding advances_def channelsKept_def by blast
  from synced_getAndLockChannel [OF assms(6)] obtain r where
    r: "r \<in> set (db_channels d')" "channelCore c' = channelCore r" and id: "ch_channelId c' = ch_channelId c"
    by (auto simp: synced_def)
  have "ch_channelId r = ch_channelId k"
    using r(2) id k(2) by (simp add: channelCore_def continues_def)
  with wf r(1) k(1) have "r = k"
    using uniqueKey_inj [of ch_channelId "db_channels d'" r k] by (simp add: wfDb_def channelsOk_def)
  with latestTurn_core [OF r(2)] k(2) assms(3) obtain n' where n': "latestTurn c' = Some n'" "n \<le> n'"
    by (auto simp: continues_def notBefore_def)
  from assms(7) have "signStateOn (se_platform E) (se_skipEvm E) (bytecodeFor E d')
      (walletFor d' [ch_signingAddress c']) c' v = Inr (c'', s)"
    by (auto simp: storeSignState_def bindE_eq_Inr)
  from signStateOn_stages [OF this] n' show ?thesis
    by (auto simp: latestTurn_def)
qed

text \<open>
  nonces are fresh. The nonce that is handed out for a list of addresses is larger than the
  nonce of every channel between those addresses, and the table remembers it.
\<close>

theorem nextNonce_fresh:
  assumes "wfDb P d" and "nextNonce as d = Inr (n, d')" and "c \<in> set (db_channels d)"
    and "map signingAddress (participants c) = as"
  shows "channelNonce c < n \<and> findNonce d' as = Some \<lparr>n_addresses = as, n_value = n\<rparr>"
proof -
  from assms(1) have ok: "noncesOk d" by (simp add: wfDb_def)
  with assms(3,4) obtain r where r: "r \<in> set (db_nonces d)" "n_addresses r = as" "channelNonce c \<le> n_value r"
    unfolding noncesOk_def by blast
  from findNonce_wf [OF ok r(1)] have f: "findNonce d as = Some r" by (simp add: r(2))
  with assms(2) have n: "n = n_value r + 1"
    and d': "d' = d\<lparr>db_nonces := insertOrMerge n_addresses (setValue n) \<lparr>n_addresses = as, n_value = n\<rparr> (db_nonces d)\<rparr>"
    by (auto simp: nextNonce_def putNonce_def bindE_eq_Inr Let_def)
  have "as \<in> n_addresses ` set (db_nonces d)" using r by auto
  then have "findNonce d' as = Some (setValue n r)"
    using nonces.select_patch_same [of as n "db_nonces d"] f
    by (simp add: findNonce_def d' insertOrMerge_def)
  then show ?thesis using n r by (simp add: setValue_def)
qed

section \<open>Witnesses\<close>

definition hexKey :: string where
  "hexKey = ''0x'' @ replicate 64 (CHR ''a'')"

theorem reachable_wellformed_witness:
  "wfDb samplePlatform (emptyDb\<lparr>db_signingWallets := [\<lparr>privateKey = hexKey, wallet_address = hexKey\<rparr>]\<rparr>)"
proof (rule reachable_wellformed)
  have "getOrCreateSigningAddress sampleEnv hexKey emptyDb =
      Inr (hexKey, emptyDb\<lparr>db_signingWallets := [\<lparr>privateKey = hexKey, wallet_address = hexKey\<rparr>]\<rparr>)"
    by code_simp
  then show "reachableDb samplePlatform
      (emptyDb\<lparr>db_signingWallets := [\<lparr>privateKey = hexKey, wallet_address = hexKey\<rparr>]\<rparr>)"
    unfolding reachableDb_def by (intro r_into_rtranclp dbStep.signingAddress)
qed

theorem takeActions_returns_witness:
  "\<exists>w' r. takeActions sampleEnv [sampleDest CHR ''l'']
     (worldOf (openingDb 10 [sampleVars 1 [''0xB''], sampleVars 0 [''0xA'']])) = Some (w', r)"
proof (rule takeActions_returns)
  show "wfDb (se_platform sampleEnv)
      (w_db (worldOf (openingDb 10 [sampleVars 1 [''0xB''], sampleVars 0 [''0xA'']])))"
    by code_simp
qed

text \<open>A deposit is reported, and then Alice signs the post-fund state.\<close>

theorem never_signs_a_turn_twice_witness:
  "\<exists>c' c'' s d'' d'. updateFunding (sampleDest CHR ''l'') 10 zeroAddress
       (openingDb 5 [sampleVars 1 [''0xB''], sampleVars 0 [''0xA'']]) = Inr d' \<and>
     getAndLockChannel d' (sampleDest CHR ''l'') = Inr c' \<and>
     storeSignState sampleEnv c' \<lparr>v_outcome = SimpleAllocation (sampleAllocation [(CHR ''a'', 5), (CHR ''b'', 5)]),
       v_turnNum = 2, v_appData = ''0x'', v_isFinal = False\<rparr> d' = Inr (c'', s, d'') \<and> 0 < turnNum s"
proof -
  let ?vs = "[sampleVars 1 [''0xB''], sampleVars 0 [''0xA'']]"
  let ?d = "openingDb 5 ?vs" and ?e = "openingDb 10 ?vs" and ?c = "sampleChannel ?vs"
  let ?v = "\<lparr>v_outcome = SimpleAllocation (sampleAllocation [(CHR ''a'', 5), (CHR ''b'', 5)]),
       v_turnNum = 2, v_appData = ''0x'', v_isFinal = False\<rparr>"
  have u: "updateFunding (sampleDest CHR ''l'') 10 zeroAddress ?d = Inr ?e" by code_simp
  have wf: "wfDb samplePlatform ?d" by code_simp
  have mem: "?c \<in> set (db_channels ?d)" by (simp add: openingDb_def sampleDb_def)
  have t: "latestTurn ?c = Some 0" by code_simp
  have step: "(dbStep samplePlatform)\<^sup>*\<^sup>* ?d ?e" by (rule r_into_rtranclp) (rule dbStep.holding [OF u])
  have P: "se_platform sampleEnv = samplePlatform" by (simp add: sampleEnv_def)
  have lock: "getAndLockChannel ?e (ch_channelId ?c) = Inr ?c" by code_simp
  have "case storeSignState sampleEnv ?c ?v ?e of Inr x \<Rightarrow> True | Inl e \<Rightarrow> False" by code_simp
  then obtain q where "storeSignState sampleEnv ?c ?v ?e = Inr q" by (auto split: sum.splits)
  moreover obtain c'' s d'' where "q = (c'', s, d'')" by (cases q)
  ultimately have sign: "storeSignState sampleEnv ?c ?v ?e = Inr (c'', s, d'')" by simp
  have "0 < turnNum s" by (rule never_signs_a_turn_twice [OF wf mem t step P lock sign])
  moreover have "getAndLockChannel ?e (sampleDest CHR ''l'') = Inr ?c"
    using lock by (simp add: sampleChannel_def)
  ultimately show ?thesis using u sign by (intro exI conjI)
qed

definition hexParticipants :: "participant list" where
  "hexParticipants =
     [\<lparr>participantId = ''alice'', signingAddress = ''0x'' @ replicate 40 (CHR ''a''), destination = sampleDest CHR ''a''\<rparr>,
      \<lparr>participantId = ''bob'', signingAddress = ''0x'' @ replicate 40 (CHR ''b''), destination = sampleDest CHR ''b''\<rparr>]"

definition hexChannel :: channel where
  "hexChannel = (sampleChannel [])\<lparr>participants := hexParticipants, channelNonce := 4,
     ch_signingAddress := ''0x'' @ replicate 40 (CHR ''a'')\<rparr>"

definition hexDb :: db where
  "hexDb = emptyDb\<lparr>db_channels := [hexChannel],
     db_nonces := [\<lparr>n_addresses = map signingAddress hexParticipants, n_value = 6\<rparr>]\<rparr>"

theorem nextNonce_fresh_witness:
  "\<exists>d'. nextNonce (map signingAddress hexParticipants) hexDb = Inr (7, d') \<and>
     (4 :: int) < 7 \<and> findNonce d' (map signingAddress hexParticipants) =
       Some \<lparr>n_addresses = map signingAddress hexParticipants, n_value = 7\<rparr>"
proof -
  let ?d = "hexDb\<lparr>db_nonces := [\<lparr>n_addresses = map signingAddress hexParticipants, n_value = 7\<rparr>]\<rparr>"
  have wf: "wfDb samplePlatform hexDb" by code_simp
  have n: "nextNonce (map signingAddress hexParticipants) hexDb = Inr (7, ?d)" by code_simp
  have mem: "hexChannel \<in> set (db_channels hexDb)" by (simp add: hexDb_def)
  have as: "map signingAddress (participants hexChannel) = map signingAddress hexParticipants"
    by (simp add: hexChannel_def)
  from nextNonce_fresh [OF wf n mem as] n show ?thesis
    by (intro exI [of _ ?d]) (simp add: hexChannel_def)
qed

end
