(* ===== verification/StoreSafety.thy ===== *)
theory StoreSafety
  imports ProtocolFacts EngineFixtures
begin

text \<open>
  What the protocols guarantee about money and signatures: when a deposit is requested, when the
  post-fund state is signed, who submits the collaborative transaction; and two places where the
  store does less than its callers expect.
\<close>

section \<open>Deposits\<close>

lemma funder_allocation:
  "(case supported P c of None \<Rightarrow> Inl e | Some s \<Rightarrow> checkSimpleAllocation (outcome s)) = Inr a \<longleftrightarrow>
   supportedAllocation P c = Inr a"
  by (simp add: supportedAllocation_def split: option.split)

text \<open>
  a crank of the direct funder that asks the chain for anything asks for one deposit: the
  channel is supported, everything before this participant's share is in, the deposit brings the
  holdings exactly to the end of the share, no valid request was outstanding, and now one is, so
  that the next crank asks for nothing.
\<close>

theorem directFunder_deposits_once:
  assumes "directFunderCrank E c w = Inr (b, w')"
    and "er_chainRequests (w_out w') \<noteq> er_chainRequests (w_out w)"
  shows "\<exists>a prior after' total'. supportedAllocation (se_platform E) c = Inr a \<and>
    fundingMilestones (se_platform E) c = Inr (prior, after', total') \<and>
    (let held = getFundingAmount (w_db w) (ch_channelId c) (asset a) in
      prior \<le> held \<and> held < after' \<and> held < total' \<and>
      er_chainRequests (w_out w') = er_chainRequests (w_out w) @
        [FundChannelTx (ch_channelId c) (asset a) held (after' - held)]) \<and>
    \<not> fundingRequestExists E (w_db w) (ch_channelId c) \<and>
    fundingRequestExists E (w_db w') (ch_channelId c) \<and> \<not> b"
proof -
  let ?P = "se_platform E" and ?cid = "ch_channelId c"
  let ?Q = "\<lambda>(b, w'). er_chainRequests (w_out w') \<noteq> er_chainRequests (w_out w) \<longrightarrow>
    (\<exists>a prior after' total' d1. supportedAllocation ?P c = Inr a \<and>
      fundingMilestones ?P c = Inr (prior, after', total') \<and>
      (let held = getFundingAmount (w_db w) ?cid (asset a) in
        prior \<le> held \<and> held < after' \<and> held < total' \<and>
        er_chainRequests (w_out w') = er_chainRequests (w_out w) @
          [FundChannelTx ?cid (asset a) held (after' - held)]) \<and>
      \<not> fundingRequestExists E (w_db w) ?cid \<and> w_db w' = d1 \<and>
      insertOrUpdate (se_now E) ?cid FundRequest (w_db w) = Inr d1 \<and> \<not> b)"
  have "returns (directFunderCrank E c w) ?Q"
    unfolding directFunderCrank_def Let_def getFundingAmount_def [symmetric]
    by (intro walk; simp add: queue_def queueChainRequest_def not_le not_less funder_allocation)
  from returnsD [OF this assms(1)] assms(2) obtain a prior after' total' d1 where
    *: "supportedAllocation ?P c = Inr a"
      "fundingMilestones ?P c = Inr (prior, after', total')"
      "let held = getFundingAmount (w_db w) ?cid (asset a) in
        prior \<le> held \<and> held < after' \<and> held < total' \<and>
        er_chainRequests (w_out w') = er_chainRequests (w_out w) @
          [FundChannelTx ?cid (asset a) held (after' - held)]"
      "\<not> fundingRequestExists E (w_db w) ?cid" "w_db w' = d1"
      "insertOrUpdate (se_now E) ?cid FundRequest (w_db w) = Inr d1" "\<not> b"
    by blast
  have "fundingRequestExists E d1 ?cid"
  proof -
    let ?r = "\<lparr>csr_channelId = ?cid, csr_request = FundRequest, csr_timestamp = se_now E, csr_attempts = 1\<rparr>"
    from *(6) have d1: "db_chainServiceRequests d1 = insertOrMerge chainRequestKey (retryRequest (se_now E)) ?r
        (db_chainServiceRequests (w_db w))" by (auto simp: insertOrUpdate_def bindE_eq_Inr)
    have "selectFirst (\<lambda>x. chainRequestKey x = chainRequestKey ?r) (db_chainServiceRequests d1) =
        Some (case selectFirst (\<lambda>x. chainRequestKey x = chainRequestKey ?r) (db_chainServiceRequests (w_db w)) of
          None \<Rightarrow> ?r | Some y \<Rightarrow> retryRequest (se_now E) y)"
      unfolding d1 by (rule retries.select_merge_same)
    moreover have "chainRequestKey ?r = (?cid, FundRequest)" by (simp add: chainRequestKey_def)
    ultimately have "\<exists>r. findChainRequest d1 ?cid FundRequest = Some r \<and> csr_timestamp r = se_now E"
      by (simp add: findChainRequest_def retryRequest_def split: option.split)
    then show ?thesis by (auto simp: fundingRequestExists_def isValidRequest_def requestTimeout_def)
  qed
  with * show ?thesis by (intro exI [of _ a] exI [of _ prior] exI [of _ after'] exI [of _ total'])
      simp
qed

section \<open>The post-fund state\<close>

lemma latestSignedByMe_core:
  "channelCore c = channelCore c' \<Longrightarrow> latestSignedByMe c = latestSignedByMe c'"
  by (simp add: channelCore_def latestSignedByMe_def signedByMe_def signedStates'_def
      myAddress_def participantAt_def nParticipants_def myIndex_def participants_constants [of c]
      participants_constants [of c'])

lemma postfundSigned_core:
  assumes "channelCore c = channelCore c'"
  shows "postfundSigned c = postfundSigned c'"
proof -
  from assms have "participants c = participants c'"
    by (metis channelCore_def fst_conv participants_constants)
  then show ?thesis using latestSignedByMe_core [OF assms]
    unfolding postfundSigned_def nParticipants_def by (simp split: option.split)
qed

text \<open>A calm operation leaves what is signed as it was.\<close>

lemma postfundSigned_calm:
  assumes "calm P d d'" and "wfDb P d" and "synced d c"
    and "getAndLockChannel d' (ch_channelId c) = Inr c'"
  shows "postfundSigned c' = postfundSigned c"
proof -
  from synced_calm [OF assms(1-3)] synced_getAndLockChannel [OF assms(4)] obtain r k where
    r: "r \<in> set (db_channels d')" "channelCore c = channelCore r"
    and k: "k \<in> set (db_channels d')" "channelCore c' = channelCore k" and id: "ch_channelId c' = ch_channelId c"
    by (auto simp: synced_def)
  then have "ch_channelId r = ch_channelId k" by (simp add: channelCore_def)
  with calm_wf [OF assms(1,2)] r(1) k(1) have "r = k"
    using uniqueKey_inj [of ch_channelId "db_channels d'" r k] by (simp add: wfDb_def channelsOk_def)
  with r(2) k(2) show ?thesis using postfundSigned_core [of c' c] by simp
qed

lemma directFunder_true:
  assumes "directFunderCrank E c w = Inr (True, w')"
  shows "\<exists>a. supportedAllocation (se_platform E) c = Inr a \<and>
    sumAmounts (allocationItems a) \<le> getFundingAmount (w_db w) (ch_channelId c) (asset a)"
proof -
  let ?P = "se_platform E"
  have total: "fundingMilestones ?P c = Inr (p, q, t) \<Longrightarrow> supportedAllocation ?P c = Inr a \<Longrightarrow>
      t = sumAmounts (allocationItems a)" for p q t a
    by (auto simp: fundingMilestones_def bindE_eq_Inr Let_def split: option.splits)
  have "returns (directFunderCrank E c w) (\<lambda>(b, w'). b \<longrightarrow> (\<exists>a. supportedAllocation ?P c = Inr a \<and>
      sumAmounts (allocationItems a) \<le> getFundingAmount (w_db w) (ch_channelId c) (asset a)))"
    unfolding directFunderCrank_def Let_def getFundingAmount_def [symmetric]
    by (intro walk; auto simp: funder_allocation dest: total)
  from returnsD [OF this assms] show ?thesis by simp
qed

text \<open>
  Signing the pre-fund state is done by the same crank when it has not been done before. No stored
  state of another turn has the hash of the pre-fund state that would be signed; two states with one
  hash would be taken for the same.
\<close>

definition collisionFree :: "platform \<Rightarrow> channel \<Rightarrow> bool" where
  "collisionFree P c \<longleftrightarrow>
     (\<forall>s t. latest c = Some s \<longrightarrow> addHash P (stateOf c ((varsOf s)\<lparr>v_turnNum := 0\<rparr>)) = Inr t \<longrightarrow>
        (\<forall>x \<in> set (ch_vars c). v_stateHash x = stateHash t \<longrightarrow> v_turnNum x = 0))"

lemma addState_turn:
  assumes "x \<in> set (addState vs s)" and "x \<notin> set vs" and "\<forall>y \<in> set vs. v_stateHash y = stateHash s \<longrightarrow> v_turnNum y = turnNum s"
  shows "v_turnNum x = turnNum s"
proof (cases "find (\<lambda>v. v_stateHash v = stateHash s) vs")
  case None
  with assms show ?thesis by (simp add: addState_def dropNonVariables_def)
next
  case (Some y)
  with assms(1) have "x \<in> set (updateFirst (\<lambda>v. v_stateHash v = stateHash s)
      (\<lambda>v. v\<lparr>v_signatures := uniqBy signature (v_signatures v @ signatures s)\<rparr>) vs)"
    by (simp add: addState_def)
  from updateFirst_cases [OF this] assms(2,3) show ?thesis by auto
qed

lemma addHash_turnNum: "addHash P s = Inr t \<Longrightarrow> turnNum t = turnNum s"
  by (auto simp: addHash_def bindE_eq_Inr signed_state.defs)

lemma stateOf_turnNum [simp]: "turnNum (stateOf c v) = v_turnNum v"
  by (simp add: stateOf_def)

lemma signPrefundSetup_stored:
  assumes "signPrefundSetup E c w = Inr (c', w')"
  shows "\<exists>s0 t s. latest c = Some s0 \<and> addHash (se_platform E) (stateOf c ((varsOf s0)\<lparr>v_turnNum := 0\<rparr>)) = Inr t \<and>
    stateHash s = stateHash t \<and> turnNum s = 0 \<and> storeState (se_platform E) c s = Inr c' \<and>
    db_funding (w_db w') = db_funding (w_db w)"
proof -
  from assms obtain s0 w1 where s0: "latest c = Some s0"
    and sq: "signAndQueue E c ((varsOf s0)\<lparr>v_turnNum := 0\<rparr>) w = Inr (c', w1)" and w': "w_db w' = w_db w1"
    by (auto simp: signPrefundSetup_def signSetup_def bindE_eq_Inr split: option.splits dest: queueChannelW_db)
  from sq obtain s d where st: "storeSignState E c ((varsOf s0)\<lparr>v_turnNum := 0\<rparr>) (w_db w) = Inr (c', s, d)" and d: "w_db w1 = d"
    by (auto simp: signAndQueue_def bindE_eq_Inr dest!: onOut_db)
  from st have sign: "signStateOn (se_platform E) (se_skipEvm E) (bytecodeFor E (w_db w))
      (walletFor (w_db w) [ch_signingAddress c]) c ((varsOf s0)\<lparr>v_turnNum := 0\<rparr>) = Inr (c', s)"
    and db: "db_funding d = db_funding (w_db w)"
    by (auto simp: storeSignState_def bindE_eq_Inr patchChannel_def consultBytecode_def cacheBytecode_def split: option.split)
  from signStateOn_stages [OF sign] obtain t e where
    t: "addHash (se_platform E) (stateOf c ((varsOf s0)\<lparr>v_turnNum := 0\<rparr>)) = Inr t" "s = t\<lparr>signatures := [e]\<rparr>" by blast
  with signStateOn_stores [OF sign] addHash_turnNum [OF t(1)] s0 db d w'
  show ?thesis by (intro exI [of _ s0] exI [of _ t] exI [of _ s]) simp
qed

lemma prefund_is_not_postfund:
  assumes "signPrefundSetup E c w = Inr (c', w')" and "\<not> prefundSigned c" and "knowsMe c"
    and "collisionFree (se_platform E) c"
  shows "\<not> postfundSigned c' \<and> ch_channelId c' = ch_channelId c \<and> db_funding (w_db w') = db_funding (w_db w)"
proof -
  from signPrefundSetup_stored [OF assms(1)] obtain s0 t s where
    s: "latest c = Some s0" "addHash (se_platform E) (stateOf c ((varsOf s0)\<lparr>v_turnNum := 0\<rparr>)) = Inr t"
    "stateHash s = stateHash t" "turnNum s = 0" "storeState (se_platform E) c s = Inr c'"
    "db_funding (w_db w') = db_funding (w_db w)" by blast
  from storeState_vars [OF s(5)] clearOldStates_take obtain n
    where c': "c' = c\<lparr>ch_vars := ch_vars c'\<rparr>"
      and vars: "ch_vars c' = take n (rev (sort_key v_turnNum (addState (ch_vars c) s)))" by metis
  note me = knowsMe_myAddress [OF assms(3)]
  have mine: "\<not> signedByAddress (ch_signingAddress c) v" if "v \<in> set (ch_vars c)" for v
    using assms(2) that me
    by (auto simp: prefundSigned_def latestSignedByMe_def signedByMe_def signedStates'_def signedByAddress_def
        filter_empty_conv list_ex_iff split: list.splits) (metis)
  have me': "myAddress c' = Inr (ch_signingAddress c)" by (subst c') (simp add: me)
  have "turnNum m = 0" if m: "latestSignedByMe c' = Some m" for m
  proof -
    from signed_in_vars [OF me' m] obtain v where v: "v \<in> set (ch_vars c')"
      "signedByAddress (ch_signingAddress c) v" "v_turnNum v = turnNum m" by blast
    have "v \<in> set (addState (ch_vars c) s)" using v(1) unfolding vars using in_set_takeD by fastforce
    moreover have "v \<notin> set (ch_vars c)" using mine v(2) by blast
    ultimately have "v_turnNum v = turnNum s"
      by (rule addState_turn) (use assms(4) s in \<open>auto simp: collisionFree_def\<close>)
    with v(3) s(4) show ?thesis by simp
  qed
  moreover have "1 \<le> nParticipants c'"
  proof -
    have "nParticipants c' = nParticipants c" by (subst c') (simp add: nParticipants_def)
    then show ?thesis using knowsMe_myIndex [OF assms(3)] by linarith
  qed
  ultimately have "\<not> postfundSigned c'"
    by (auto simp: postfundSigned_def split: option.split)
  moreover have "ch_channelId c' = ch_channelId c" by (subst c') simp
  ultimately show ?thesis using s(6) by blast
qed

text \<open>
  C24: nobody is talked into a post-fund state before the money is there. Take a crank of a directly
  funded channel's opener after which this participant has signed the post-fund state, and had not
  before. Then in the channel it works on, which is the stored one or, when this participant had
  signed nothing yet, the one with the pre-fund state it signs first, the pre-fund state is supported
  and the holdings cover its whole allocation.
\<close>

theorem opener_signs_postfund_only_when_funded:
  assumes "channelOpenerCrank E m data w = Inr (wait, w')" and "wfDb (se_platform E) (w_db w)"
    and "getAndLockChannel (w_db w) (oc_targetChannelId data) = Inr c"
    and "getAndLockChannel (w_db w') (oc_targetChannelId data) = Inr c'"
    and "oc_fundingStrategy data = Direct" and "prefundSigned c \<or> collisionFree (se_platform E) c"
    and "\<not> postfundSigned c" and "postfundSigned c'"
  shows "\<exists>c2. (if prefundSigned c then c2 = c
      else \<exists>w1 w2. queueChannelW E c w = Inr w1 \<and> signPrefundSetup E c w1 = Inr (c2, w2)) \<and>
    preFundComplete (se_platform E) c2 \<and> (\<exists>a. supportedAllocation (se_platform E) c2 = Inr a \<and>
      sumAmounts (allocationItems a) \<le> getFundingAmount (w_db w) (ch_channelId c) (asset a))"
proof -
  let ?P = "se_platform E"
  let ?first = "\<lambda>c2 w2. \<exists>w1. queueChannelW E c w = Inr w1 \<and>
    (if prefundSigned c then Inr (c, w1) else signPrefundSetup E c w1) = Inr (c2, w2)"
  let ?funded = "\<lambda>c2 w2. preFundComplete ?P c2 \<and> (\<exists>a. supportedAllocation ?P c2 = Inr a \<and>
    sumAmounts (allocationItems a) \<le> getFundingAmount (w_db w2) (ch_channelId c2) (asset a))"
  let ?rest = "\<lambda>c2 w2. if \<not> preFundComplete ?P c2 then Inr (OpenerTheirPreFundSetup, w2)
      else bindE (directFunderCrank E c2 w2) (\<lambda>(funded, w3).
        if \<not> funded then Inr (OpenerFunding, w3)
        else bindE (if postfundSigned c2 then Inr (c2, w3) else signPostfundSetup E c2 w3) (\<lambda>(c4, w4).
          if \<not> postFundComplete ?P c4 then Inr (OpenerTheirPostFundState, w4)
          else bindE (succeedObjective m w4) (\<lambda>w5. Inr (NothingToWaitFor, w5))))"
  have rest: "returns (?rest c2 w2) (\<lambda>(wait, w'). ?funded c2 w2 \<or> calm ?P (w_db w2) (w_db w'))" for c2 w2
    by (intro walk; auto dest: directFunderCrank_calm [of _ _ _ _ _ ?P] directFunder_true)
  have "bindE (queueChannelW E c w) (\<lambda>w1. bindE (if prefundSigned c then Inr (c, w1) else signPrefundSetup E c w1)
      (\<lambda>(c2, w2). ?rest c2 w2)) = Inr (wait, w')"
    using assms(1) by (simp only: channelOpenerCrank_def Let_def assms(3,5) bindE_Inr crankChannelFunder_def funding_strategy.case)
  then obtain w1 z where q: "queueChannelW E c w = Inr w1"
    and z: "(if prefundSigned c then Inr (c, w1) else signPrefundSetup E c w1) = Inr z"
    and r: "(case z of (c2, w2) \<Rightarrow> ?rest c2 w2) = Inr (wait, w')"
    by (elim bindE_InrE)
  obtain c2 w2 where cw: "z = (c2, w2)" by (cases z)
  note first = z [unfolded cw]
  have run: "?funded c2 w2 \<or> calm ?P (w_db w2) (w_db w')"
    using returnsD [OF rest r [unfolded cw prod.case]] by simp
  note db = queueChannelW_db [OF q]
  have start: "reached ?P (w_db w) w1 c" by (rule reached_same [OF reached_start [OF assms(3,2)] db])
  have here: "reached ?P (w_db w) w2 c2"
    using reached_setup_if [OF start first [unfolded signPrefundSetup_def]] .
  have c2: "\<not> postfundSigned c2 \<and> ch_channelId c2 = ch_channelId c \<and> db_funding (w_db w2) = db_funding (w_db w)"
  proof (cases "prefundSigned c")
    case True
    with first assms(7) db show ?thesis by simp
  next
    case False
    have "knowsMe c" using synced_ok assms(2) synced_getAndLockChannel [OF assms(3)] by blast
    with prefund_is_not_postfund [of E c w1 c2 w2] first False assms(6) db show ?thesis by simp
  qed
  have "synced (w_db w2) c2" using here by (simp add: reached_def)
  then have "\<not> calm ?P (w_db w2) (w_db w')"
    using postfundSigned_calm [of ?P "w_db w2" "w_db w'" c2 c'] reached_wf [OF here] assms(4,8) c2
      synced_getAndLockChannel [OF assms(3)] by auto
  with run c2 have "?funded c2 w" by (simp add: getFundingAmount_def findFunding_def)
  with first q c2 show ?thesis by (intro exI [of _ c2]) (auto split: if_splits)
qed


section \<open>One transaction for a closed channel\<close>

lemma firstFundedSubmitter_unique:
  assumes "firstFundedSubmitter P c order = Inr True" and "myIndex c' \<noteq> myIndex c"
    and "allocationItemForParticipantIndex P c' = allocationItemForParticipantIndex P c"
    and "i \<in> set order" and "allocationItemForParticipantIndex P c i = Inr (Some x)" and "0 < amount x"
  shows "firstFundedSubmitter P c' order = Inr False"
  using assms
proof (induction order)
  case (Cons j js)
  from Cons.prems(1) obtain it where it: "allocationItemForParticipantIndex P c j = Inr it"
    by (auto simp: bindE_eq_Inr)
  with Cons show ?case by (cases "case it of None \<Rightarrow> False | Some y \<Rightarrow> 0 < amount y") auto
qed simp

text \<open>
  at most one participant submits the collaborative transaction. When one participant decides to
  submit, and some submitter in the order has money in the channel, every other participant with
  the same view of the allocation decides not to.
\<close>

theorem one_collaborative_submitter:
  assumes "shouldSubmitCollaborativeTx P c (CloseChannel ps data) = Inr True"
    and "myIndex c' \<noteq> myIndex c"
    and "allocationItemForParticipantIndex P c' = allocationItemForParticipantIndex P c"
    and "i \<in> set (cc_txSubmitterOrder data)"
    and "allocationItemForParticipantIndex P c i = Inr (Some x)" and "0 < amount x"
  shows "shouldSubmitCollaborativeTx P c' (CloseChannel ps' data) = Inr False"
  using firstFundedSubmitter_unique [OF _ assms(2-6)] assms(1) by simp

section \<open>Channels that are not finalized\<close>

text \<open>
  the query for the channels that are not finalized returns every channel, whatever has been
  recorded about them: it never fetches the adjudicator status its filter looks at.
\<close>

theorem getNonFinalizedChannels_returns_all:
  assumes "wfDb P d"
  shows "getNonFinalizedChannels E d = getChannels E d"
proof -
  have "filter (\<lambda>c. modeOf (convertResult (ch_adjudicatorStatus c)) = OpenMode) (db_channels d) = db_channels d"
    using assms by (auto simp: wfDb_def channelsOk_def channelOk_def convertResult_def intro!: filter_True)
  then show ?thesis by (simp add: getNonFinalizedChannels_def getChannels_def)
qed

section \<open>States of other channels\<close>

lemma supportLoop_all_signed:
  assumes "ps \<noteq> []" and "signingAddress ` set ps \<subseteq> signer ` set (signatures s)"
  shows "supportLoop P skip ps [] (map signingAddress ps) None (s # rest) = [s]"
proof -
  let ?i = "nat (turnNum s mod int (length ps))"
  have i: "?i < length ps" using assms(1) by (simp add: nat_less_iff)
  then have "ps ! ?i \<in> set ps" by simp
  then have "signingAddress (ps ! ?i) \<in> signer ` set (signatures s)" using assms(2) by blast
  then have "moverSigned ps s"
    using i by (auto simp: moverSigned_def nthOpt_def list_ex_iff)
  moreover have "filter (\<lambda>a. a \<notin> signer ` set (signatures s)) (map signingAddress ps) = []"
    using assms(2) by (auto simp: filter_empty_conv)
  ultimately show ?thesis by (simp add: Let_def)
qed

lemma sort_key_new_least:
  fixes k :: "'a \<Rightarrow> int"
  assumes "\<forall>y \<in> set xs. k x < k y"
  shows "sort_key k (xs @ [x]) = x # sort_key k xs"
proof -
  have "foldr (insort_key k) xs [x] = x # foldr (insort_key k) xs []"
    using assms by (induction xs) auto
  then show ?thesis by (simp add: sort_key_def)
qed

lemma sort_key_new_greatest:
  fixes k :: "'a \<Rightarrow> int"
  assumes "\<forall>y \<in> set xs. k y \<le> k x"
  shows "sort_key k (xs @ [x]) = sort_key k xs @ [x]"
proof -
  have ins: "insort_key k y (zs @ [x]) = insort_key k y zs @ [x]" if "k y \<le> k x" for y zs
    using that by (induction zs) auto
  have "foldr (insort_key k) xs [x] = foldr (insort_key k) xs [] @ [x]"
    using assms by (induction xs) (auto simp: ins)
  then show ?thesis by (simp add: sort_key_def)
qed

text \<open>A later state signed by everyone is all that is left.\<close>

lemma storeState_all_signed:
  assumes me: "knowsMe c" and new: "\<forall>v \<in> set (ch_vars c). v_stateHash v \<noteq> stateHash s \<and> v_turnNum v < turnNum s"
    and signed: "signingAddress ` set (participants c) \<subseteq> signer ` set (signatures s)"
  shows "storeState P c s = Inr (c\<lparr>ch_vars := [dropNonVariables s]\<rparr>)"
proof -
  let ?v = "dropNonVariables s" and ?c = "c\<lparr>ch_vars := ch_vars c @ [dropNonVariables s]\<rparr>"
  have ps: "participants c \<noteq> []" using me by (auto simp: knowsMe_def)
  have add: "addState (ch_vars c) s = ch_vars c @ [?v]"
    using new by (auto simp: addState_def split: option.split dest!: find_SomeD)
  have "sortedStates ?c = spreadVars (channelConstants c) ?v # sort_key (\<lambda>s. - turnNum s) (map (spreadVars (channelConstants c)) (ch_vars c))"
    unfolding sortedStates_def signedStates'_def using new
    by (simp add: sort_key_new_least dropNonVariables_def)
  then have supp: "support P ?c = [spreadVars (channelConstants c) ?v]"
    using supportLoop_all_signed [of "participants c" "spreadVars (channelConstants c) ?v"] ps signed
    by (simp add: support_def dropNonVariables_def)
  have "rev (sort_key v_turnNum (ch_vars c @ [?v])) = ?v # rev (sort_key v_turnNum (ch_vars c))"
    using new by (subst sort_key_new_greatest) (auto simp: dropNonVariables_def less_imp_le)
  then have clear: "clearOldStates (ch_vars c @ [?v]) (Some [spreadVars (channelConstants c) ?v]) = [?v]"
    by (simp add: clearOldStates_def Let_def)
  have "isSupported P ?c" by (simp add: isSupported_def supported_def supp)
  moreover have "validateInvariants [?v] a = Inr ()" for a
    by (simp add: validateInvariants_def ensureSingleSignedState_def ensureNoDuplicateTurnNums_def
        ensureReverseSortedOrderOfStates_def isReverseSorted_def groupBy_def)
  ultimately show ?thesis
    using me by (simp add: storeState_def Let_def add supp clear knowsMe_myAddress)
qed

lemma supported_single:
  assumes "knowsMe c" and "ch_vars c = [v]" and "signingAddress ` set (participants c) \<subseteq> signer ` set (v_signatures v)"
  shows "supported P c = Some (spreadVars (channelConstants c) v)"
proof -
  have "participants c \<noteq> []" using assms(1) by (auto simp: knowsMe_def)
  then show ?thesis using assms(3)
    supportLoop_all_signed [of "participants c" "spreadVars (channelConstants c) v" P "\<not> isNullApp P c" "[]"]
    by (simp add: supported_def support_def sortedStates_def signedStates'_def assms(2))
qed

lemma find_patchWhere:
  assumes "find (\<lambda>x. k x = i) xs = Some r" and "\<And>x. k (f x) = k x"
  shows "find (\<lambda>x. k x = i) (patchWhere (\<lambda>x. k x = i) f xs) = Some (f r)"
  using assms by (induction xs) (auto simp: patchWhere_def split: if_splits)

lemma fastDeserializeState_fields:
  assumes "fastDeserializeState P ws = Inr st"
  shows "turnNum st = ws_turnNum ws \<and> deserializeOutcome (ethersLib P) (ws_outcome ws) = Inr (outcome st)"
  using assms by (auto simp: fastDeserializeState_def bindE_eq_Inr)

lemma addHash_fields:
  assumes "addHash P st = Inr s"
  shows "turnNum s = turnNum st \<and> outcome s = outcome st \<and> participants s = participants st \<and> signatures s = signatures st"
  using assms by (auto simp: addHash_def bindE_eq_Inr signed_state.defs)



section \<open>Witnesses\<close>

definition bothPrefund :: "signed_vars list" where
  "bothPrefund = [sampleVars 1 [''0xB''], sampleVars 0 [''0xA'']]"

theorem directFunder_deposits_once_witness:
  "\<exists>w'. directFunderCrank sampleEnv (sampleChannel bothPrefund) (worldOf (openingDb 0 bothPrefund)) = Inr (False, w') \<and>
     fundingRequestExists sampleEnv (w_db w') (sampleDest CHR ''l'')"
proof -
  let ?w = "worldOf (openingDb 0 bothPrefund)" and ?c = "sampleChannel bothPrefund"
  have "case directFunderCrank sampleEnv ?c ?w of Inl e \<Rightarrow> False
      | Inr (b, w') \<Rightarrow> \<not> b \<and> er_chainRequests (w_out w') \<noteq> er_chainRequests (w_out ?w)"
    by code_simp
  then obtain w' where r: "directFunderCrank sampleEnv ?c ?w = Inr (False, w')"
    and n: "er_chainRequests (w_out w') \<noteq> er_chainRequests (w_out ?w)"
    by (auto split: sum.splits)
  from directFunder_deposits_once [OF r n] have "fundingRequestExists sampleEnv (w_db w') (ch_channelId ?c)"
    by (elim exE conjE)
  then show ?thesis using r by (intro exI [of _ w']) (simp add: sampleChannel_def)
qed

text \<open>Alice signs both states in one crank; the holdings are already there.\<close>

theorem opener_signs_postfund_only_when_funded_witness:
  "\<exists>w1 c2 w2 a. queueChannelW sampleEnv (sampleChannel [sampleVars 0 [''0xB'']]) (worldOf (openingDb 10 [sampleVars 0 [''0xB'']])) = Inr w1 \<and>
     signPrefundSetup sampleEnv (sampleChannel [sampleVars 0 [''0xB'']]) w1 = Inr (c2, w2) \<and>
     supportedAllocation samplePlatform c2 = Inr a \<and>
     sumAmounts (allocationItems a) \<le> getFundingAmount (openingDb 10 [sampleVars 0 [''0xB'']]) (sampleDest CHR ''l'') (asset a)"
proof -
  let ?vs = "[sampleVars 0 [''0xB'']]"
  let ?d = "openingDb 10 ?vs" and ?c = "sampleChannel ?vs"
  let ?data = "\<lparr>oc_targetChannelId = sampleDest CHR ''l'', oc_fundingStrategy = Direct,
       oc_role = Some AppRole, oc_fundingLedgerChannelId = None\<rparr>"
  have "case channelOpenerCrank sampleEnv openObjective ?data (worldOf ?d) of Inl e \<Rightarrow> False
      | Inr (wait, w') \<Rightarrow> (case getAndLockChannel (w_db w') (sampleDest CHR ''l'') of
          Inl e \<Rightarrow> False | Inr c' \<Rightarrow> postfundSigned c')"
    by code_simp
  then obtain wait w' where r: "channelOpenerCrank sampleEnv openObjective ?data (worldOf ?d) = Inr (wait, w')"
    and signed: "case getAndLockChannel (w_db w') (sampleDest CHR ''l'') of Inl e \<Rightarrow> False | Inr c' \<Rightarrow> postfundSigned c'"
    by (cases "channelOpenerCrank sampleEnv openObjective ?data (worldOf ?d)") auto
  from signed obtain c' where c': "getAndLockChannel (w_db w') (sampleDest CHR ''l'') = Inr c'" "postfundSigned c'"
    by (cases "getAndLockChannel (w_db w') (sampleDest CHR ''l'')") auto
  have wf: "wfDb (se_platform sampleEnv) (w_db (worldOf ?d))" by code_simp
  have c: "getAndLockChannel (w_db (worldOf ?d)) (oc_targetChannelId ?data) = Inr ?c" by code_simp
  have d: "getAndLockChannel (w_db w') (oc_targetChannelId ?data) = Inr c'" using c'(1) by simp
  have direct: "oc_fundingStrategy ?data = Direct" by simp
  have pre: "\<not> prefundSigned ?c" and post: "\<not> postfundSigned ?c" by code_simp+
  have "\<forall>x \<in> set (ch_vars ?c). v_turnNum x = 0" by code_simp
  then have "prefundSigned ?c \<or> collisionFree (se_platform sampleEnv) ?c" by (simp add: collisionFree_def)
  from opener_signs_postfund_only_when_funded [OF r wf c d direct this post c'(2)] pre
  show ?thesis by (auto simp: sampleEnv_def worldOf_def sampleChannel_def)
qed

text \<open>A platform that tells the channels of Alice and Bob apart by their nonces.\<close>

definition twoChannels :: platform where
  "twoChannels = samplePlatform\<lparr>nitroChannelId :=
     (\<lambda>k. if nc_channelNonce k = 1 then sampleDest CHR ''l'' else sampleDest CHR ''m'')\<rparr>"

definition foreignState :: wire_state where
  "foreignState = \<lparr>chainId = ''0x1'', participants = sampleParticipants, channelNonce = 2,
     appDefinition = zeroAddress, challengeDuration = 60,
     ws_outcome = [wireOf (sampleAllocation [(CHR ''a'', 0), (CHR ''b'', 10)])],
     ws_turnNum = 1, ws_appData = ''0x'', ws_isFinal = False, ws_channelId = sampleDest CHR ''l'',
     ws_signatures = [''sig0xA'', ''sig0xB'']\<rparr>"


text \<open>Bob is first in the order and submits, so Alice does not.\<close>

theorem one_collaborative_submitter_witness:
  "shouldSubmitCollaborativeTx samplePlatform (sampleChannel bothPrefund)
     (CloseChannel [] \<lparr>cc_targetChannelId = sampleDest CHR ''l'', cc_fundingStrategy = Direct,
       cc_txSubmitterOrder = [1, 0]\<rparr>) = Inr False"
proof -
  let ?alice = "sampleChannel bothPrefund"
  let ?bob = "?alice\<lparr>ch_signingAddress := ''0xB''\<rparr>"
  let ?data = "\<lparr>cc_targetChannelId = sampleDest CHR ''l'', cc_fundingStrategy = Direct,
       cc_txSubmitterOrder = [1, 0]\<rparr>"
  let ?item = "\<lparr>item_destination = sampleDest CHR ''b'', amount = 5\<rparr>"
  have bob: "shouldSubmitCollaborativeTx samplePlatform ?bob (CloseChannel [] ?data) = Inr True" by code_simp
  have other: "myIndex ?alice \<noteq> myIndex ?bob" by code_simp
  have "supported samplePlatform ?alice = supported samplePlatform ?bob"
    by (simp add: supported_def support_def sortedStates_def signedStates'_def isNullApp_def
        channelConstants_def channel_constants.truncate_def)
  then have items: "allocationItemForParticipantIndex samplePlatform ?alice =
      allocationItemForParticipantIndex samplePlatform ?bob"
    by (auto simp: fun_eq_iff allocationItemForParticipantIndex_def supportedAllocation_def participantAt_def
        nParticipants_def)
  have one: "1 \<in> set (cc_txSubmitterOrder ?data)" by simp
  have paid: "allocationItemForParticipantIndex samplePlatform ?bob 1 = Inr (Some ?item)" by code_simp
  have money: "0 < amount ?item" by simp
  show ?thesis by (rule one_collaborative_submitter [OF bob other items one paid money])
qed

theorem getNonFinalizedChannels_returns_all_witness:
  "getAdjudicatorStatus ((sampleDb bothPrefund)\<lparr>db_adjudicatorStatus :=
       [\<lparr>as_channelId = sampleDest CHR ''l'', as_finalizesAt = 5, as_blockNumber = 7, as_blockTimestamp = 6,
         as_states = None\<rparr>]\<rparr>) (sampleDest CHR ''l'') = AdjudicatorFinalized None \<and>
   getNonFinalizedChannels sampleEnv ((sampleDb bothPrefund)\<lparr>db_adjudicatorStatus :=
       [\<lparr>as_channelId = sampleDest CHR ''l'', as_finalizesAt = 5, as_blockNumber = 7, as_blockTimestamp = 6,
         as_states = None\<rparr>]\<rparr>) =
     mapE (protocolState samplePlatform) [sampleChannel bothPrefund]"
proof -
  let ?d = "(sampleDb bothPrefund)\<lparr>db_adjudicatorStatus :=
       [\<lparr>as_channelId = sampleDest CHR ''l'', as_finalizesAt = 5, as_blockNumber = 7, as_blockTimestamp = 6,
         as_states = None\<rparr>]\<rparr>"
  have "wfDb samplePlatform ?d" by code_simp
  from getNonFinalizedChannels_returns_all [OF this, of sampleEnv]
  have "getNonFinalizedChannels sampleEnv ?d = mapE (protocolState samplePlatform) [sampleChannel bothPrefund]"
    by (simp add: getChannels_def sampleDb_def sampleEnv_def)
  moreover have "getAdjudicatorStatus ?d (sampleDest CHR ''l'') = AdjudicatorFinalized None" by code_simp
  ultimately show ?thesis by (rule conjI [rotated])
qed

end
