(* ===== verification/ResponseFacts.thy ===== *)
theory ResponseFacts
  imports Response Fixtures
begin

text \<open>
  Merging the messages of a response: one message for each recipient, with everything that was to be
  sent to them and nothing else, each thing once.
\<close>

definition deliveredTo :: "(wire_payload \<Rightarrow> 'a list option) \<Rightarrow> string \<Rightarrow> wire_message list \<Rightarrow> 'a set" where
  "deliveredTo part r ms =
     (\<Union>m \<in> {m \<in> set ms. recipient m = r}. set (orEmpty (part (msg_data m))))"

lemma orEmpty_nonEmpty [simp]: "orEmpty (nonEmpty xs) = xs"
  by (simp add: orEmpty_def nonEmpty_def)

lemma set_sortDescBy [simp]: "set (sortDescBy k xs) = set xs"
  by (simp add: sortDescBy_def)

lemma distinct_sortDescBy [simp]: "distinct (sortDescBy k xs) = distinct xs"
  by (simp add: sortDescBy_def)

lemma unique_parts [simp]:
  "set (uniqueStates ss) = set ss" "distinct (uniqueStates ss)"
  "set (uniqueObjectives os) = set os" "distinct (uniqueObjectives os)"
  "set (uniqueRequests rs) = set rs" "distinct (uniqueRequests rs)"
  by (simp_all add: uniqueStates_def uniqueObjectives_def uniqueRequests_def)

lemma mergeGroup_simps [simp]:
  "recipient (mergeGroup v s g) = fst g" "sender (mergeGroup v s g) = s"
  "set (orEmpty (wp_signedStates (msg_data (mergeGroup v s g)))) =
     (\<Union>m \<in> set (snd g). set (orEmpty (wp_signedStates (msg_data m))))"
  "set (orEmpty (wp_objectives (msg_data (mergeGroup v s g)))) =
     (\<Union>m \<in> set (snd g). set (orEmpty (wp_objectives (msg_data m))))"
  "set (orEmpty (wp_requests (msg_data (mergeGroup v s g)))) =
     (\<Union>m \<in> set (snd g). set (orEmpty (wp_requests (msg_data m))))"
  by (simp_all add: mergeGroup_def)

lemma mergeOutgoing_groups:
  assumes "mergeOutgoing v ms = Inr out"
  shows "\<exists>s. out = map (mergeGroup v s) (groupBy recipient ms)"
  using assms by (auto simp: mergeOutgoing_def groupBy_def split: if_splits)

lemma recipients_merged: "map recipient (map (mergeGroup v s) (groupBy recipient ms)) = uniq (map recipient ms)"
  by (simp add: groupBy_def o_def)

text \<open>A part of the payload that merging collects by union arrives unchanged.\<close>

lemma delivered_merged:
  assumes "\<And>s g. set (orEmpty (part (msg_data (mergeGroup v s g)))) =
    (\<Union>m \<in> set (snd g). set (orEmpty (part (msg_data m))))"
  shows "deliveredTo part r (map (mergeGroup v s) (groupBy recipient ms)) = deliveredTo part r ms"
  by (auto simp: deliveredTo_def groupBy_def assms)

text \<open>
  merging loses nothing and adds nothing. Every recipient gets one message, from the common
  sender, with exactly the states, objectives and requests that the messages to them carried, each
  of them once.
\<close>

theorem mergeOutgoing_keeps_content:
  assumes "mergeOutgoing v ms = Inr out"
  shows "map recipient out = uniq (map recipient ms) \<and>
    (\<forall>r. deliveredTo wp_signedStates r out = deliveredTo wp_signedStates r ms \<and>
         deliveredTo wp_objectives r out = deliveredTo wp_objectives r ms \<and>
         deliveredTo wp_requests r out = deliveredTo wp_requests r ms) \<and>
    (\<forall>m \<in> set out. distinct (orEmpty (wp_signedStates (msg_data m))) \<and>
       distinct (orEmpty (wp_objectives (msg_data m))) \<and> distinct (orEmpty (wp_requests (msg_data m))))"
proof -
  from mergeOutgoing_groups [OF assms] obtain s where out: "out = map (mergeGroup v s) (groupBy recipient ms)"
    by blast
  have "\<forall>r. deliveredTo wp_signedStates r out = deliveredTo wp_signedStates r ms \<and>
         deliveredTo wp_objectives r out = deliveredTo wp_objectives r ms \<and>
         deliveredTo wp_requests r out = deliveredTo wp_requests r ms"
    unfolding out by (intro allI conjI delivered_merged) simp_all
  moreover have "\<forall>m \<in> set out. distinct (orEmpty (wp_signedStates (msg_data m))) \<and>
       distinct (orEmpty (wp_objectives (msg_data m))) \<and> distinct (orEmpty (wp_requests (msg_data m)))"
    unfolding out by (auto simp: mergeGroup_def)
  ultimately show ?thesis using recipients_merged out by simp
qed

definition sampleRequestMessage :: "string \<Rightarrow> bytes32 \<Rightarrow> wire_message" where
  "sampleRequestMessage r c = \<lparr>recipient = r, sender = Some ''alice'', msg_data =
     \<lparr>wp_walletVersion = ''1'', wp_signedStates = None, wp_objectives = None, wp_requests = Some [GetChannel c]\<rparr>\<rparr>"

theorem mergeOutgoing_keeps_content_witness:
  "\<exists>out. mergeOutgoing ''1'' [sampleRequestMessage ''bob'' ''c1'', sampleRequestMessage ''eve'' ''c1'',
     sampleRequestMessage ''bob'' ''c2''] = Inr out \<and> map recipient out = [''bob'', ''eve'']"
proof -
  let ?ms = "[sampleRequestMessage ''bob'' ''c1'', sampleRequestMessage ''eve'' ''c1'',
     sampleRequestMessage ''bob'' ''c2'']"
  have "case mergeOutgoing ''1'' ?ms of Inl e \<Rightarrow> False | Inr out \<Rightarrow> True" by code_simp
  then obtain out where m: "mergeOutgoing ''1'' ?ms = Inr out" by (auto split: sum.splits)
  from mergeOutgoing_keeps_content [OF m] have "map recipient out = uniq (map recipient ?ms)" by (elim conjE)
  also have "\<dots> = [''bob'', ''eve'']" by code_simp
  finally show ?thesis using m by (intro exI conjI)
qed

end
