(* ===== verification/EventTracker.thy ===== *)
theory EventTracker
  imports AssetHolder Response
begin

text \<open>
  \<open>packages/server-wallet/src/chain-service/event-tracker.ts\<close> with the events of
  \<open>chain-service/types.ts\<close>: the wrapper around a subscriber that passes on an event of the asset
  holder only when it is later, by block and log index, than every event of its queue seen so far.
\<close>

section \<open>Events\<close>

record holding_updated_arg =
  hu_channelId :: bytes32
  hu_asset :: address
  hu_amount :: uint256

record allocation_updated_arg =
  au_channelId :: bytes32
  au_asset :: address
  au_newHoldings :: uint256
  au_externalPayouts :: "exit_allocation list"
  au_internalPayouts :: "exit_allocation list"
  au_newAssetOutcome :: "exit_allocation list"

record channel_finalized_arg =
  cf_channelId :: bytes32
  cf_blockNumber :: int
  cf_blockTimestamp :: int
  cf_finalizedAt :: int

record challenge_registered_arg =
  cr'_channelId :: bytes32
  cr'_finalizesAt :: int
  cr'_challengeStates :: "signed_state list"

text \<open>What a subscriber can be told, \<open>ChainEventSubscriberInterface\<close>.\<close>

datatype chain_event =
    HoldingUpdated holding_updated_arg
  | AllocationUpdated allocation_updated_arg
  | ChannelFinalized channel_finalized_arg
  | ChallengeRegistered challenge_registered_arg

section \<open>The tracker\<close>

text \<open>A position on the chain: block number and log index. A call of a subscriber.\<close>

type_synonym position = "int \<times> int"

type_synonym notice = "nat \<times> chain_event"

text \<open>The subscriber is an object of the application; it is known by a number.\<close>

record event_tracker =
  managedSubscriber :: nat
  eventRecordFor :: "string \<Rightarrow> position option"

definition newTracker :: "nat \<Rightarrow> event_tracker" where
  "newTracker sub = \<lparr>managedSubscriber = sub, eventRecordFor = (\<lambda>_. None)\<rparr>"

definition isNewEvent :: "string \<Rightarrow> int \<Rightarrow> int \<Rightarrow> event_tracker \<Rightarrow> bool \<times> event_tracker" where
  "isNewEvent queue' blockNumber logIndex t =
     (let isNew =
            (case eventRecordFor t queue' of
               None \<Rightarrow> True
             | Some r \<Rightarrow>
                 if blockNumber > fst r then True
                 else if blockNumber = fst r then logIndex > snd r
                 else False)
      in if isNew
         then (True, t\<lparr>eventRecordFor := (eventRecordFor t)(queue' \<mapsto> (blockNumber, logIndex))\<rparr>)
         else (False, t))"

definition passIfNew ::
  "string \<Rightarrow> int \<Rightarrow> int \<Rightarrow> chain_event \<Rightarrow> event_tracker \<Rightarrow> event_tracker \<times> notice list" where
  "passIfNew queue' blockNumber logIndex e t =
     (case isNewEvent queue' blockNumber logIndex t of (isNew, t') \<Rightarrow> (t', if isNew then [(managedSubscriber t, e)] else []))"

definition MAX_SAFE_INTEGER :: int where
  "MAX_SAFE_INTEGER = 9007199254740991"

text \<open>Without a log index the amount counts as the latest one of its block.\<close>

definition holdingUpdated ::
  "holding_updated_arg \<Rightarrow> int \<Rightarrow> int option \<Rightarrow> event_tracker \<Rightarrow> event_tracker \<times> notice list" where
  "holdingUpdated arg blockNumber logIndex =
     passIfNew (hu_asset arg) blockNumber (case logIndex of None \<Rightarrow> MAX_SAFE_INTEGER | Some l \<Rightarrow> l)
       (HoldingUpdated arg)"

definition allocationUpdatedQueue :: string where
  "allocationUpdatedQueue = ''AllocationUpdatedQueue''"

definition allocationUpdated ::
  "allocation_updated_arg \<Rightarrow> int \<Rightarrow> int \<Rightarrow> event_tracker \<Rightarrow> event_tracker \<times> notice list" where
  "allocationUpdated arg blockNumber logIndex =
     passIfNew allocationUpdatedQueue blockNumber logIndex (AllocationUpdated arg)"

definition channelFinalized :: "channel_finalized_arg \<Rightarrow> event_tracker \<Rightarrow> event_tracker \<times> notice list" where
  "channelFinalized arg t = (t, [(managedSubscriber t, ChannelFinalized arg)])"

definition challengeRegistered ::
  "challenge_registered_arg \<Rightarrow> event_tracker \<Rightarrow> event_tracker \<times> notice list" where
  "challengeRegistered arg t = (t, [(managedSubscriber t, ChallengeRegistered arg)])"

section \<open>What a tracker passes on\<close>

text \<open>
  Calls of the tracker with their queue, position and event; \<open>deliveries\<close> are those of a sequence
  of calls that it passes on.
\<close>

type_synonym tracked = "string \<times> position \<times> chain_event"

fun deliveries :: "event_tracker \<Rightarrow> tracked list \<Rightarrow> tracked list" where
  "deliveries t [] = []"
| "deliveries t ((q, p, e) # es) =
     (case isNewEvent q (fst p) (snd p) t of
        (isNew, t') \<Rightarrow> (if isNew then [(q, p, e)] else []) @ deliveries t' es)"

definition earlier :: "position \<Rightarrow> position \<Rightarrow> bool" where
  "earlier p r \<longleftrightarrow> fst p < fst r \<or> (fst p = fst r \<and> snd p < snd r)"

definition positionsIn :: "string \<Rightarrow> tracked list \<Rightarrow> position list" where
  "positionsIn q es = map (fst \<circ> snd) (filter (\<lambda>x. fst x = q) es)"

lemma positionsIn_simps [simp]:
  "positionsIn q [] = []"
  "positionsIn q ((q', p, e) # es) = (if q' = q then p # positionsIn q es else positionsIn q es)"
  "positionsIn q (es @ fs) = positionsIn q es @ positionsIn q fs"
  by (simp_all add: positionsIn_def)

lemma earlier_irrefl [simp]: "\<not> earlier p p"
  by (simp add: earlier_def)

lemma earlier_trans: "earlier p q \<Longrightarrow> earlier q r \<Longrightarrow> earlier p r"
  by (auto simp: earlier_def)

lemma earlier_total: "earlier p q \<or> p = q \<or> earlier q p"
  by (auto simp: earlier_def prod_eq_iff)

lemma not_earlier_trans: "\<not> earlier r p \<Longrightarrow> earlier p q \<or> p = q \<Longrightarrow> \<not> earlier r p"
  by blast

text \<open>An event is new when its queue is, or when the recorded position is earlier.\<close>

definition recordBefore :: "event_tracker \<Rightarrow> string \<Rightarrow> position \<Rightarrow> bool" where
  "recordBefore t q p \<longleftrightarrow> (case eventRecordFor t q of None \<Rightarrow> True | Some r \<Rightarrow> earlier r p)"

lemma isNewEvent_eq:
  "isNewEvent q (fst p) (snd p) t =
     (if recordBefore t q p then (True, t\<lparr>eventRecordFor := (eventRecordFor t)(q \<mapsto> p)\<rparr>) else (False, t))"
  by (auto simp: isNewEvent_def recordBefore_def earlier_def Let_def split: option.split)

lemma deliveries_later:
  assumes "r \<in> set (positionsIn q (deliveries t es))"
  shows "recordBefore t q r"
  using assms
proof (induction es arbitrary: t)
  case (Cons x es)
  obtain q' p e where x: "x = (q', p, e)" by (cases x)
  show ?case
  proof (cases "recordBefore t q' p")
    case True
    let ?t = "t\<lparr>eventRecordFor := (eventRecordFor t)(q' \<mapsto> p)\<rparr>"
    from Cons.prems True have "r = p \<and> q' = q \<or> r \<in> set (positionsIn q (deliveries ?t es))"
      by (auto simp: x isNewEvent_eq split: if_splits)
    with Cons.IH [of ?t] True show ?thesis
      by (auto simp: recordBefore_def split: option.splits if_splits dest: earlier_trans)
  next
    case False
    with Cons show ?thesis by (simp add: x isNewEvent_eq)
  qed
qed simp

lemma deliveries_sorted: "sorted_wrt earlier (positionsIn q (deliveries t es))"
proof (induction es arbitrary: t)
  case (Cons x es)
  obtain q' p e where x: "x = (q', p, e)" by (cases x)
  let ?t = "t\<lparr>eventRecordFor := (eventRecordFor t)(q' \<mapsto> p)\<rparr>"
  have "q' = q \<Longrightarrow> \<forall>r \<in> set (positionsIn q (deliveries ?t es)). earlier p r"
    using deliveries_later [of _ q ?t es] by (auto simp: recordBefore_def)
  with Cons.IH [of ?t] Cons.IH [of t] show ?case by (auto simp: x isNewEvent_eq)
qed simp

lemma deliveries_sub: "set (deliveries t es) \<subseteq> set es"
proof (induction es arbitrary: t)
  case (Cons x es) then show ?case by (cases x) (auto simp: isNewEvent_eq)
qed simp

text \<open>Every call is passed on or comes no later than one that was passed on, or was recorded.\<close>

lemma deliveries_cover:
  assumes "p \<in> set (positionsIn q es)"
  shows "(\<exists>r \<in> set (positionsIn q (deliveries t es)). \<not> earlier r p) \<or> \<not> recordBefore t q p"
  using assms
proof (induction es arbitrary: t)
  case (Cons x es)
  obtain q' p' e where x: "x = (q', p', e)" by (cases x)
  let ?t = "t\<lparr>eventRecordFor := (eventRecordFor t)(q' \<mapsto> p')\<rparr>"
  show ?case
  proof (cases "recordBefore t q' p'")
    case True
    from Cons.prems consider "q' = q" "p = p'" | "p \<in> set (positionsIn q es)"
      by (auto simp: x split: if_splits)
    then show ?thesis
    proof cases
      case 1 with True show ?thesis by (auto simp: x isNewEvent_eq)
    next
      case 2
      from Cons.IH [OF this, of ?t] True show ?thesis
        by (auto simp: x isNewEvent_eq recordBefore_def split: if_splits)
    qed
  next
    case False
    from Cons.prems consider "q' = q" "p = p'" | "p \<in> set (positionsIn q es)"
      by (auto simp: x split: if_splits)
    then show ?thesis using False Cons.IH [of t] by cases (auto simp: x isNewEvent_eq)
  qed
qed simp

end
