(* ===== verification/NitroTransactions.thy ===== *)
theory NitroTransactions
  imports WireFormat
begin

text \<open>
  What the wallet sends to the adjudicator: \<open>packages/nitro-protocol/src/transactions.ts\<close>, the
  creators of \<open>contract/transaction-creators\<close>, the parts of a state of \<open>contract/state.ts\<close> and the
  challenge signature of \<open>signatures.ts\<close>. A transaction is modelled by the function called and its
  arguments, before ethers encodes them.
\<close>

section \<open>Parts of a state\<close>

text \<open>The ABI encoder, the hash and the native signature of ethers.\<close>

record abi =
  encodeOutcome :: "nitro_outcome option \<Rightarrow> string"
  keccakOutcome :: "nitro_outcome option \<Rightarrow> bytes32"
  keccakAppPart :: "int \<Rightarrow> address \<Rightarrow> string \<Rightarrow> bytes32"
  signDigestOfChallenge :: "nitro_state \<Rightarrow> string \<Rightarrow> string"

record fixed_part =
  fp_chainId :: string
  fp_participants :: "address list"
  fp_channelNonce :: int
  fp_appDefinition :: address
  fp_challengeDuration :: int

definition getFixedPart :: "nitro_state \<Rightarrow> fixed_part" where
  "getFixedPart s =
     \<lparr>fp_chainId = nc_chainId (ns_channel s), fp_participants = nc_participants (ns_channel s),
      fp_channelNonce = nc_channelNonce (ns_channel s), fp_appDefinition = ns_appDefinition s,
      fp_challengeDuration = ns_challengeDuration s\<rparr>"

record variable_part =
  vp_outcome :: string
  vp_appData :: string

definition getVariablePart :: "abi \<Rightarrow> nitro_state \<Rightarrow> variable_part" where
  "getVariablePart A s = \<lparr>vp_outcome = encodeOutcome A (ns_outcome s), vp_appData = ns_appData s\<rparr>"

definition hashAppPart :: "abi \<Rightarrow> nitro_state \<Rightarrow> bytes32" where
  "hashAppPart A s = keccakAppPart A (ns_challengeDuration s) (ns_appDefinition s) (ns_appData s)"

section \<open>Signed states of nitro-protocol\<close>

text \<open>
  A nitro signed state carries one signature. Its functions compare objects with \<open>===\<close>, so each
  object has an identity: the states are numbered by the wallet's signed state they come from, which
  all the signed states made of it share.
\<close>

record signed_nitro =
  sn_object :: "nat \<times> nat"
  sn_stateObject :: nat
  sn_state :: nitro_state
  sn_signature :: string

definition toNitroSignedState ::
  "platform \<Rightarrow> nat \<Rightarrow> 'a signed_state_scheme \<Rightarrow> signed_nitro list result" where
  "toNitroSignedState P i s =
     bindE (toNitroState P s) (\<lambda>n.
       Inr (map (\<lambda>(j, g). \<lparr>sn_object = (i, j), sn_stateObject = i, sn_state = n, sn_signature = signature g\<rparr>)
             (enumerate 0 (signatures s))))"

text \<open>\<open>signedStates.flatMap(toNitroSignedState)\<close>\<close>

definition flatMapNitro :: "platform \<Rightarrow> 'a signed_state_scheme list \<Rightarrow> signed_nitro list result" where
  "flatMapNitro P ss =
     bindE (mapE (\<lambda>(i, s). toNitroSignedState P i s) (enumerate 0 ss)) (\<lambda>xss. Inr (concat xss))"

section \<open>Signature arguments\<close>

text \<open>Assigning to an index of an array: a negative one only sets a property.\<close>

definition jsSet :: "int \<Rightarrow> 'a \<Rightarrow> 'a option list \<Rightarrow> 'a option list" where
  "jsSet i x xs =
     (if i < 0 then xs
      else if nat i < length xs then xs[nat i := Some x]
      else xs @ replicate (nat i - length xs) None @ [Some x])"

definition getStateSignerAddress :: "platform \<Rightarrow> signed_nitro \<Rightarrow> address result" where
  "getStateSignerAddress P s =
     (case recoverNitro P (sn_state s) (sn_signature s) of
        None \<Rightarrow> Inl (Error ''invalid signature'')
      | Some a \<Rightarrow>
          if a \<in> set (nc_participants (ns_channel (sn_state s))) then Inr a
          else Inl (Error ''Recovered address is not a participant in channel''))"

record signature_arguments =
  sa_states :: "nitro_state list"
  sa_signatures :: "string option list"
  sa_whoSignedWhat :: "nat option list"

text \<open>The body of the inner loop, and the two loops.\<close>

definition setSignature ::
  "platform \<Rightarrow> address list \<Rightarrow> nat \<Rightarrow> string option list \<times> nat option list \<Rightarrow> signed_nitro \<Rightarrow>
   (string option list \<times> nat option list) result" where
  "setSignature P ps i acc ss =
     bindE (getStateSignerAddress P ss) (\<lambda>a.
       let k = findIndex (\<lambda>p. p = a) ps
       in Inr (jsSet k (sn_signature ss) (fst acc), jsSet k i (snd acc)))"

definition setSignaturesOf ::
  "platform \<Rightarrow> address list \<Rightarrow> signed_nitro list \<Rightarrow> string option list \<times> nat option list \<Rightarrow>
   nat \<times> signed_nitro \<Rightarrow> (string option list \<times> nat option list) result" where
  "setSignaturesOf P ps us acc x =
     foldE (setSignature P ps (fst x)) acc (filter (\<lambda>s. sn_stateObject s = sn_stateObject (snd x)) us)"

definition createSignatureArguments :: "platform \<Rightarrow> signed_nitro list \<Rightarrow> signature_arguments result" where
  "createSignatureArguments P sns =
     (case sns of
        [] \<Rightarrow> Inl TypeError
      | s0 # _ \<Rightarrow>
          let ps = nc_participants (ns_channel (sn_state s0));
              us = uniqBy sn_object sns;
              states = uniqBy sn_stateObject us
          in bindE (foldE (setSignaturesOf P ps us)
                     (replicate (length states) None, replicate (length ps) None)
                     (enumerate 0 states)) (\<lambda>(sigs, who).
               Inr \<lparr>sa_states = map sn_state states, sa_signatures = sigs, sa_whoSignedWhat = who\<rparr>))"

section \<open>Transactions\<close>

datatype adjudicator_call =
    DepositCall address bytes32 uint256 uint256
  | ChallengeCall fixed_part int "variable_part list" nat "string option list" "nat option list" string
  | RespondCall bool bool fixed_part variable_part variable_part string
  | CheckpointCall fixed_part int "variable_part list" nat "string option list" "nat option list"
  | ConcludeCall int fixed_part bytes32 bytes32 nat "nat option list" "string option list"
  | ConcludeAndTransferCall int fixed_part bytes32 string nat "nat option list" "string option list"
  | TransferAllCall bytes32 string bytes32

definition maxTurnNum :: "nitro_state list \<Rightarrow> int" where
  "maxTurnNum ss = foldl (\<lambda>m s. max m (ns_turnNum s)) (ns_turnNum (hd ss)) ss"

definition checkLengths :: "nitro_state list \<Rightarrow> string option list \<Rightarrow> unit result" where
  "checkLengths ss sigs =
     (case ss of
        [] \<Rightarrow> Inl (Error ''No states provided'')
      | s # _ \<Rightarrow> guardE (length (nc_participants (ns_channel s)) = length sigs)
                   (Error ''Participants and signatures need to be the same length''))"

text \<open>\<open>signChallengeMessage\<close>: the last of the states is signed.\<close>

definition signChallengeMessage :: "platform \<Rightarrow> abi \<Rightarrow> nitro_state list \<Rightarrow> string \<Rightarrow> string result" where
  "signChallengeMessage P A ss key =
     (case ss of
        [] \<Rightarrow> Inl (Error ''At least one signed state must be provided'')
      | s # _ \<Rightarrow>
          if walletAddress P key \<notin> set (nc_participants (ns_channel s))
          then Inl (Error ''The state must be signed with a participant's private key'')
          else Inr (signDigestOfChallenge A (last ss) key))"

definition challengeArgs ::
  "platform \<Rightarrow> abi \<Rightarrow> signature_arguments \<Rightarrow> string \<Rightarrow> adjudicator_call result" where
  "challengeArgs P A a key =
     (let ss = sa_states a in
      bindE (checkLengths ss (sa_signatures a)) (\<lambda>_.
      bindE (signChallengeMessage P A ss key) (\<lambda>g.
        Inr (ChallengeCall (getFixedPart (hd ss)) (maxTurnNum ss) (map (getVariablePart A) ss)
               (length (filter ns_isFinal ss)) (sa_signatures a) (sa_whoSignedWhat a) g))))"

definition createChallengeTransaction ::
  "platform \<Rightarrow> abi \<Rightarrow> signed_nitro list \<Rightarrow> string \<Rightarrow> adjudicator_call result" where
  "createChallengeTransaction P A sns key =
     bindE (createSignatureArguments P sns) (\<lambda>a. challengeArgs P A a key)"

definition respondArgs :: "abi \<Rightarrow> nitro_state \<Rightarrow> nitro_state \<Rightarrow> string \<Rightarrow> adjudicator_call" where
  "respondArgs A challenge response g =
     RespondCall (ns_isFinal challenge) (ns_isFinal response) (getFixedPart response)
       (getVariablePart A challenge) (getVariablePart A response) g"

definition createRespondTransaction ::
  "abi \<Rightarrow> nitro_state option \<Rightarrow> signed_nitro \<Rightarrow> adjudicator_call result" where
  "createRespondTransaction A challengeState r =
     (case challengeState of
        None \<Rightarrow> Inl (Error ''No active challenge in challenge state'')
      | Some c \<Rightarrow> Inr (respondArgs A c (sn_state r) (sn_signature r)))"

definition checkpointArgs :: "abi \<Rightarrow> signature_arguments \<Rightarrow> adjudicator_call" where
  "checkpointArgs A a =
     (let ss = sa_states a
      in CheckpointCall (getFixedPart (hd ss)) (maxTurnNum ss) (map (getVariablePart A) ss)
           (length (filter ns_isFinal ss)) (sa_signatures a) (sa_whoSignedWhat a))"

definition createCheckpointTransaction ::
  "platform \<Rightarrow> abi \<Rightarrow> signed_nitro list \<Rightarrow> adjudicator_call result" where
  "createCheckpointTransaction P A sns =
     bindE (createSignatureArguments P sns) (\<lambda>a. Inr (checkpointArgs A a))"

text \<open>The state of the largest turn number, the first of them.\<close>

definition lastState :: "nitro_state list \<Rightarrow> nitro_state" where
  "lastState ss = foldl (\<lambda>s1 s2. if ns_turnNum s1 \<ge> ns_turnNum s2 then s1 else s2) (hd ss) ss"

definition concludeArgs :: "abi \<Rightarrow> signature_arguments \<Rightarrow> adjudicator_call result" where
  "concludeArgs A a =
     bindE (checkLengths (sa_states a) (sa_signatures a)) (\<lambda>_.
       let l = lastState (sa_states a)
       in Inr (ConcludeCall (ns_turnNum l) (getFixedPart l) (hashAppPart A l)
                (keccakOutcome A (ns_outcome l)) (length (sa_states a)) (sa_whoSignedWhat a)
                (sa_signatures a)))"

definition createConcludeTransaction ::
  "platform \<Rightarrow> abi \<Rightarrow> signed_nitro list \<Rightarrow> adjudicator_call result" where
  "createConcludeTransaction P A sns = bindE (createSignatureArguments P sns) (concludeArgs A)"

definition concludeAndTransferAllAssetsArgs :: "abi \<Rightarrow> signature_arguments \<Rightarrow> adjudicator_call result" where
  "concludeAndTransferAllAssetsArgs A a =
     bindE (checkLengths (sa_states a) (sa_signatures a)) (\<lambda>_.
       let l = lastState (sa_states a)
       in Inr (ConcludeAndTransferCall (ns_turnNum l) (getFixedPart l) (hashAppPart A l)
                (encodeOutcome A (ns_outcome l)) (length (sa_states a)) (sa_whoSignedWhat a)
                (sa_signatures a)))"

definition createConcludeAndTransferAllAssetsTransaction ::
  "platform \<Rightarrow> abi \<Rightarrow> signed_nitro list \<Rightarrow> adjudicator_call result" where
  "createConcludeAndTransferAllAssetsTransaction P A sns =
     bindE (createSignatureArguments P sns) (concludeAndTransferAllAssetsArgs A)"

definition hashZero :: bytes32 where
  "hashZero = ''0x'' @ replicate 64 (CHR ''0'')"

definition transferAllAssetsArgs :: "platform \<Rightarrow> abi \<Rightarrow> nitro_state \<Rightarrow> bool \<Rightarrow> adjudicator_call" where
  "transferAllAssetsArgs P A s overrideStateHash =
     TransferAllCall (nitroChannelId P (ns_channel s)) (encodeOutcome A (ns_outcome s))
       (if overrideStateHash then hashZero else hashNitroState P s)"

text \<open>The wallet's own creator never sets the override.\<close>

definition createTransferAllAssetsTransaction :: "platform \<Rightarrow> abi \<Rightarrow> nitro_state \<Rightarrow> adjudicator_call" where
  "createTransferAllAssetsTransaction P A s = transferAllAssetsArgs P A s False"

definition createETHDepositTransaction :: "bytes32 \<Rightarrow> uint256 \<Rightarrow> uint256 \<Rightarrow> adjudicator_call" where
  "createETHDepositTransaction cid expectedHeld n = DepositCall zeroAddress cid expectedHeld n"

definition createERC20DepositTransaction ::
  "address \<Rightarrow> bytes32 \<Rightarrow> uint256 \<Rightarrow> uint256 \<Rightarrow> adjudicator_call" where
  "createERC20DepositTransaction token cid expectedHeld n = DepositCall token cid expectedHeld n"

end
