(* ===== verification/ChannelStorage.thy ===== *)
theory ChannelStorage
  imports NitroTransactions Fixtures
begin

text \<open>
  What the adjudicator stores and reports about a channel: the status word of
  \<open>packages/nitro-protocol/src/contract/channel-storage.ts\<close>, the challenge events of
  \<open>contract/challenge.ts\<close> and their conversion to the wallet's states in \<open>state-utils.ts\<close> of wallet-core.
\<close>

section \<open>The status word\<close>

record channel_data =
  cd_turnNumRecord :: int
  cd_finalizesAt :: int
  cd_state :: "nitro_state option"
  cd_outcome :: "nitro_outcome option"

text \<open>
  Ethers: \<open>hexPad6\<close> is \<open>hexZeroPad(hexlify(n), 6)\<close>, which throws on a number that does not fit,
  \<open>hexNumber\<close> is \<open>BigNumber.from(h).toNumber()\<close>, and \<open>hashPreimage\<close> the hash of the encoded pair of
  hashes.
\<close>

record hex_lib =
  hexPad6 :: "int \<Rightarrow> string option"
  hexNumber :: "string \<Rightarrow> int option"
  hashPreimage :: "bytes32 \<Rightarrow> bytes32 \<Rightarrow> bytes32"

definition getFingerprintPreimage :: "platform \<Rightarrow> abi \<Rightarrow> channel_data \<Rightarrow> bytes32 \<times> bytes32" where
  "getFingerprintPreimage P A d =
     (let isOpen = (cd_finalizesAt d = 0)
      in (if isOpen then hashZero else (case cd_state d of None \<Rightarrow> hashZero | Some s \<Rightarrow> hashNitroState P s),
          if isOpen then hashZero
          else (case cd_outcome d of None \<Rightarrow> hashZero | Some o' \<Rightarrow> keccakOutcome A (Some o'))))"

text \<open>The last 20 bytes of the hash.\<close>

definition fingerprintOf :: "platform \<Rightarrow> abi \<Rightarrow> hex_lib \<Rightarrow> channel_data \<Rightarrow> string" where
  "fingerprintOf P A H d =
     (case getFingerprintPreimage P A d of (s, o') \<Rightarrow> ''0x'' @ drop 26 (hashPreimage H s o'))"

definition channelDataToStatus :: "platform \<Rightarrow> abi \<Rightarrow> hex_lib \<Rightarrow> channel_data \<Rightarrow> string result" where
  "channelDataToStatus P A H d =
     (case (hexPad6 H (cd_turnNumRecord d), hexPad6 H (cd_finalizesAt d)) of
        (Some t, Some f) \<Rightarrow> Inr (''0x'' @ drop 2 t @ drop 2 f @ drop 2 (fingerprintOf P A H d))
      | _ \<Rightarrow> Inl (Error ''value out of range''))"

definition isHexString :: "string \<Rightarrow> bool" where
  "isHexString s \<longleftrightarrow> take 2 s = ''0x'' \<and> list_all isHexDigit (drop 2 s)"

definition validateHexString :: "string \<Rightarrow> unit result" where
  "validateHexString s =
     bindE (guardE (isHexString s) (Error ''Not a hex string'')) (\<lambda>_.
       guardE (length s = 66) (Error ''Incorrect length''))"

definition asNumber :: "hex_lib \<Rightarrow> string \<Rightarrow> int result" where
  "asNumber H s = (case hexNumber H s of None \<Rightarrow> Inl (Error ''overflow'') | Some n \<Rightarrow> Inr n)"

record parsed_status =
  ps_turnNumRecord :: int
  ps_finalizesAt :: int
  ps_fingerprint :: string

definition parseStatus :: "hex_lib \<Rightarrow> string \<Rightarrow> parsed_status result" where
  "parseStatus H status =
     bindE (validateHexString status) (\<lambda>_.
     bindE (asNumber H (''0x'' @ take 12 (drop 2 status))) (\<lambda>t.
     bindE (asNumber H (''0x'' @ take 12 (drop 14 status))) (\<lambda>f.
       Inr \<lparr>ps_turnNumRecord = t, ps_finalizesAt = f, ps_fingerprint = ''0x'' @ drop 26 status\<rparr>)))"

text \<open>
  What ethers documents: padding gives 12 hex digits after the prefix, which read as the number
  again, and a hash has 64 of them.
\<close>

definition hexLaws :: "hex_lib \<Rightarrow> bool" where
  "hexLaws H \<longleftrightarrow>
     (\<forall>n h. hexPad6 H n = Some h \<longrightarrow>
        length h = 14 \<and> isHexString h \<and> hexNumber H h = Some n) \<and>
     (\<forall>s t. length (hashPreimage H s t) = 66 \<and> isHexString (hashPreimage H s t))"

lemma isHexString_parts: "isHexString h \<Longrightarrow> h = ''0x'' @ drop 2 h"
  unfolding isHexString_def by (metis append_take_drop_id)

lemma isHexString_append:
  "isHexString (''0x'' @ xs) \<longleftrightarrow> list_all isHexDigit xs"
  by (simp add: isHexString_def)

text \<open>
  the status word of a channel reads back as what was put into it, and the two numbers and the
  fingerprint take their 6, 6 and 20 bytes of it whatever they are.
\<close>

theorem parseStatus_channelDataToStatus:
  assumes "hexLaws H" and "channelDataToStatus P A H d = Inr status"
  shows "parseStatus H status = Inr \<lparr>ps_turnNumRecord = cd_turnNumRecord d,
     ps_finalizesAt = cd_finalizesAt d, ps_fingerprint = fingerprintOf P A H d\<rparr>"
proof -
  from assms(2) obtain t f where t: "hexPad6 H (cd_turnNumRecord d) = Some t"
    and f: "hexPad6 H (cd_finalizesAt d) = Some f"
    and st: "status = ''0x'' @ drop 2 t @ drop 2 f @ drop 2 (fingerprintOf P A H d)"
    by (auto simp: channelDataToStatus_def split: option.splits)
  obtain s o' where "getFingerprintPreimage P A d = (s, o')" by (cases "getFingerprintPreimage P A d")
  then have fp: "fingerprintOf P A H d = ''0x'' @ drop 26 (hashPreimage H s o')" by (simp add: fingerprintOf_def)
  from assms(1) t f have lt: "length (drop 2 t) = 12" and lf: "length (drop 2 f) = 12"
    and nt: "hexNumber H t = Some (cd_turnNumRecord d)" "hexNumber H f = Some (cd_finalizesAt d)"
    and ht: "list_all isHexDigit (drop 2 t)" "list_all isHexDigit (drop 2 f)"
    and lh: "length (hashPreimage H s o') = 66" and h2: "list_all isHexDigit (drop 2 (hashPreimage H s o'))"
    by (auto simp: hexLaws_def isHexString_def)
  have "drop 26 (hashPreimage H s o') = drop 24 (drop 2 (hashPreimage H s o'))" by simp
  with h2 have hh: "list_all isHexDigit (drop 26 (hashPreimage H s o'))"
    unfolding list_all_iff by (metis in_set_dropD)
  have t0: "t = ''0x'' @ drop 2 t" and f0: "f = ''0x'' @ drop 2 f"
    using assms(1) t f isHexString_parts unfolding hexLaws_def by metis+
  have cut: "take 12 (drop 2 status) = drop 2 t" "take 12 (drop 14 status) = drop 2 f"
    "drop 26 status = drop 26 (hashPreimage H s o')" "length status = 66" "isHexString status"
    using lt lf ht lh hh by (simp_all add: st fp isHexString_def numeral_eq_Suc)
  show ?thesis
    unfolding parseStatus_def validateHexString_def asNumber_def cut
    using cut t0 f0 nt by (simp add: fp)
qed

definition sampleAbi :: abi where
  "sampleAbi = \<lparr>encodeOutcome = (\<lambda>_. ''o''), keccakOutcome = (\<lambda>_. ''ho''), keccakAppPart = (\<lambda>_ _ _. ''ha''),
     signDigestOfChallenge = (\<lambda>n k. replicate (nat (ns_turnNum n)) (CHR ''c'') @ k)\<rparr>"

definition sampleHex :: hex_lib where
  "sampleHex = \<lparr>hexPad6 = (\<lambda>n. if n \<in> set [0..9] then Some (''0x00000000000'' @ [''0123456789'' ! nat n]) else None),
     hexNumber = (\<lambda>h. Some (findIndex (\<lambda>c. c = last h) ''0123456789'')),
     hashPreimage = (\<lambda>s t. ''0x'' @ replicate 64 (CHR ''f''))\<rparr>"

lemma sampleHex_laws: "hexLaws sampleHex"
proof -
  have "list_all (\<lambda>n. length (''0x00000000000'' @ [''0123456789'' ! nat n]) = 14 \<and>
      isHexString (''0x00000000000'' @ [''0123456789'' ! nat n]) \<and>
      hexNumber sampleHex (''0x00000000000'' @ [''0123456789'' ! nat n]) = Some n) [0..9]" by code_simp
  moreover have "isHexString (''0x'' @ replicate 64 (CHR ''f''))" by code_simp
  ultimately show ?thesis unfolding hexLaws_def list_all_iff
    by (simp add: sampleHex_def del: set_upto) (metis length_append length_replicate)?
qed

theorem parseStatus_channelDataToStatus_witness:
  "\<exists>status. channelDataToStatus samplePlatform sampleAbi sampleHex
       \<lparr>cd_turnNumRecord = 5, cd_finalizesAt = 7, cd_state = None, cd_outcome = None\<rparr> = Inr status \<and>
     bindE (parseStatus sampleHex status) (\<lambda>p. Inr (ps_turnNumRecord p, ps_finalizesAt p)) = Inr (5, 7)"
proof -
  let ?d = "\<lparr>cd_turnNumRecord = 5, cd_finalizesAt = 7, cd_state = None, cd_outcome = None\<rparr>"
  have "\<not> isl (channelDataToStatus samplePlatform sampleAbi sampleHex ?d)" by code_simp
  then obtain status where st: "channelDataToStatus samplePlatform sampleAbi sampleHex ?d = Inr status"
    by (cases "channelDataToStatus samplePlatform sampleAbi sampleHex ?d") auto
  from parseStatus_channelDataToStatus [OF sampleHex_laws st] st show ?thesis by simp
qed

section \<open>Challenge events\<close>

text \<open>
  The arguments of a \<open>ChallengeRegistered\<close> event as ethers decodes them; \<open>decode\<close> is \<open>decodeOutcome\<close>.
  A signature that is missing is None.
\<close>

record challenge_registered_struct =
  crs_channelId :: bytes32
  crs_turnNumRecord :: int
  crs_finalizesAt :: int
  crs_isFinal :: bool
  crs_fixedPart :: fixed_part
  crs_variableParts :: "variable_part list"
  crs_sigs :: "string list"

record challenge_registered_event =
  cre_channelId :: bytes32
  cre_finalizesAt :: int
  cre_challengeStates :: "(nitro_state \<times> string option) list"

text \<open>\<open>hexOf\<close> is \<open>BigNumber.from(x).toHexString()\<close>.\<close>

definition challengeState ::
  "(string \<Rightarrow> nitro_outcome option) \<Rightarrow> (string \<Rightarrow> string) \<Rightarrow> challenge_registered_struct \<Rightarrow> nat \<Rightarrow>
   variable_part \<Rightarrow> nitro_state" where
  "challengeState decode hexOf e i v =
     \<lparr>ns_channel = \<lparr>nc_chainId = hexOf (fp_chainId (crs_fixedPart e)),
        nc_channelNonce = fp_channelNonce (crs_fixedPart e),
        nc_participants = map hexOf (fp_participants (crs_fixedPart e))\<rparr>,
      ns_turnNum = crs_turnNumRecord e - (int (length (crs_variableParts e)) - int i - 1),
      ns_isFinal = crs_isFinal e,
      ns_challengeDuration = fp_challengeDuration (crs_fixedPart e),
      ns_outcome = decode (vp_outcome v), ns_appDefinition = fp_appDefinition (crs_fixedPart e),
      ns_appData = vp_appData v\<rparr>"

definition getChallengeRegisteredEvent ::
  "(string \<Rightarrow> nitro_outcome option) \<Rightarrow> (string \<Rightarrow> string) \<Rightarrow> challenge_registered_struct \<Rightarrow>
   challenge_registered_event" where
  "getChallengeRegisteredEvent decode hexOf e =
     \<lparr>cre_channelId = crs_channelId e, cre_finalizesAt = crs_finalizesAt e,
      cre_challengeStates = map (\<lambda>(i, v). (challengeState decode hexOf e i v, nthOpt (crs_sigs e) i))
        (enumerate 0 (crs_variableParts e))\<rparr>"

text \<open>
  \<open>fromNitroState\<close> and \<open>fromNitroSignedState\<close>: the participant identifier and destination are made up of
  the address. \<open>join\<close> is \<open>joinSignature\<close>; a missing signature makes it throw.
\<close>

definition padStart64 :: "string \<Rightarrow> string" where
  "padStart64 s = replicate (64 - length s) (CHR ''0'') @ s"

definition fromNitroState :: "platform \<Rightarrow> nitro_state \<Rightarrow> state result" where
  "fromNitroState P n =
     bindE (makeAddress (ethersLib P) (ns_appDefinition n)) (\<lambda>app.
     bindE (case ns_outcome n of None \<Rightarrow> Inl TypeError | Some o' \<Rightarrow> fromNitroOutcome (ethersLib P) o') (\<lambda>o'.
     bindE (mapE (\<lambda>x. bindE (makeAddress (ethersLib P) x) (\<lambda>a.
              Inr \<lparr>participantId = x, signingAddress = a, destination = padStart64 x\<rparr>))
            (nc_participants (ns_channel n))) (\<lambda>ps.
       Inr \<lparr>chainId = nc_chainId (ns_channel n), participants = ps,
            channelNonce = nc_channelNonce (ns_channel n), appDefinition = app,
            challengeDuration = ns_challengeDuration n, outcome = o', turnNum = ns_turnNum n,
            appData = ns_appData n, isFinal = ns_isFinal n\<rparr>)))"

definition fromNitroSignedState :: "platform \<Rightarrow> nitro_state \<times> string option \<Rightarrow> signed_state result" where
  "fromNitroSignedState P ns =
     bindE (fromNitroState P (fst ns)) (\<lambda>s.
     case snd ns of
       None \<Rightarrow> Inl TypeError
     | Some g \<Rightarrow> bindE (getSignerAddress P s g) (\<lambda>a.
         Inr (state.extend s \<lparr>signatures = [\<lparr>signature = g, signer = a\<rparr>]\<rparr>)))"

end
