(* ===== verification/ChainService.thy ===== *)
theory ChainService
  imports EventTracker ChannelStorage Engine "HOL-Library.Multiset"
begin

text \<open>
  The class \<open>ChainService\<close> of \<open>packages/server-wallet/src/chain-service/chain-service.ts\<close>: the event
  trackers of the registered channels, the queue of channels whose challenge period runs, and the
  transactions that carry out the engine's requests. Every callback of the service is one step; what
  is awaited in between (ethers, the provider) is a parameter.
\<close>

section \<open>State\<close>

record finalizing_channel =
  fin_finalizesAtS :: int
  fin_channelId :: bytes32

record chain_service =
  channelToEventTrackers :: "bytes32 \<Rightarrow> event_tracker list option"
  finalizingChannels :: "finalizing_channel list"
  polling :: bool

definition initChainService :: chain_service where
  "initChainService = \<lparr>channelToEventTrackers = (\<lambda>_. None), finalizingChannels = [], polling = True\<rparr>"

definition trackersOf :: "chain_service \<Rightarrow> bytes32 \<Rightarrow> event_tracker list" where
  "trackersOf cs cid = (case channelToEventTrackers cs cid of None \<Rightarrow> [] | Some ts \<Rightarrow> ts)"

definition setTrackers :: "bytes32 \<Rightarrow> event_tracker list \<Rightarrow> chain_service \<Rightarrow> chain_service" where
  "setTrackers cid ts cs =
     cs\<lparr>channelToEventTrackers := (channelToEventTrackers cs)(cid \<mapsto> ts)\<rparr>"

text \<open>\<open>destructor\<close>\<close>

definition destructor :: "chain_service \<Rightarrow> chain_service" where
  "destructor cs = cs\<lparr>channelToEventTrackers := (\<lambda>_. None), polling := False\<rparr>"

text \<open>Calling every tracker of a channel, in order.\<close>

definition notifyAll ::
  "bytes32 \<Rightarrow> (event_tracker \<Rightarrow> event_tracker \<times> notice list) \<Rightarrow> chain_service \<Rightarrow>
   chain_service \<times> notice list" where
  "notifyAll cid f cs =
     (case channelToEventTrackers cs cid of
        None \<Rightarrow> (cs, [])
      | Some ts \<Rightarrow> (setTrackers cid (map (fst \<circ> f) ts) cs, concat (map (snd \<circ> f) ts)))"

section \<open>Finalizing channels\<close>

definition addFinalizingChannel :: "finalizing_channel \<Rightarrow> chain_service \<Rightarrow> chain_service" where
  "addFinalizingChannel f cs =
     (if list_ex (\<lambda>c. fin_channelId c = fin_channelId f) (finalizingChannels cs) then cs
      else cs\<lparr>finalizingChannels := sort_key fin_finalizesAtS (finalizingChannels cs @ [f])\<rparr>)"

record block =
  bl_number :: int
  bl_timestamp :: int

definition finalizedArg :: "block \<Rightarrow> finalizing_channel \<Rightarrow> channel_finalized_arg" where
  "finalizedArg b f = \<lparr>cf_channelId = fin_channelId f, cf_blockNumber = bl_number b,
     cf_blockTimestamp = bl_timestamp b, cf_finalizedAt = fin_finalizesAtS f\<rparr>"

text \<open>
  What happens to the channel taken from the queue when its time has come: \<open>s\<close> is the time the
  contract reports.
\<close>

definition settleFinalizing ::
  "int \<Rightarrow> block \<Rightarrow> finalizing_channel \<Rightarrow> chain_service \<Rightarrow> chain_service \<times> notice list" where
  "settleFinalizing s b f cs =
     (if s = fin_finalizesAtS f
      then notifyAll (fin_channelId f) (channelFinalized (finalizedArg b f)) cs
      else if s \<noteq> 0
      then (addFinalizingChannel \<lparr>fin_finalizesAtS = s, fin_channelId = fin_channelId f\<rparr> cs, [])
      else (cs, []))"

text \<open>
  \<open>checkFinalizingChannels\<close> on every block; \<open>unpackStatus\<close> is the contract's answer, which does not change
  while the block is handled. A channel is requeued at most once, with the time of the contract.
\<close>

definition misdated :: "(bytes32 \<Rightarrow> int) \<Rightarrow> finalizing_channel \<Rightarrow> nat" where
  "misdated unpackStatus f = (if unpackStatus (fin_channelId f) = fin_finalizesAtS f then 1 else 2)"

lemma finalizingChannels_notifyAll [simp]:
  "finalizingChannels (fst (notifyAll cid f cs)) = finalizingChannels cs"
  by (simp add: notifyAll_def setTrackers_def split: option.split)

lemma sum_addFinalizing:
  "sum_list (map w (finalizingChannels (addFinalizingChannel f cs))) \<le>
   (sum_list (map w (finalizingChannels cs)) + w f :: nat)"
proof -
  have "sum_list (map w (sort_key fin_finalizesAtS (finalizingChannels cs @ [f]))) =
      sum_list (map w (finalizingChannels cs @ [f]))"
    by (metis mset_map mset_sort sum_mset_sum_list)
  then show ?thesis by (simp add: addFinalizingChannel_def)
qed

lemma settle_decreases:
  "sum_list (map (misdated u) (finalizingChannels (fst (settleFinalizing (u (fin_channelId f)) b f cs)))) <
   misdated u f + sum_list (map (misdated u) (finalizingChannels cs))"
  using sum_addFinalizing [of "misdated u" "\<lparr>fin_finalizesAtS = u (fin_channelId f), fin_channelId = fin_channelId f\<rparr>" cs]
  by (auto simp: settleFinalizing_def misdated_def)

function checkFinalizingChannels ::
  "(bytes32 \<Rightarrow> int) \<Rightarrow> block \<Rightarrow> chain_service \<Rightarrow> chain_service \<times> notice list" where
  "checkFinalizingChannels unpackStatus b cs =
     (case finalizingChannels cs of
        [] \<Rightarrow> (cs, [])
      | f # rest \<Rightarrow>
          (let cs1 = cs\<lparr>finalizingChannels := rest\<rparr> in
           if fin_finalizesAtS f > bl_timestamp b then (addFinalizingChannel f cs1, [])
           else (case settleFinalizing (unpackStatus (fin_channelId f)) b f cs1 of (cs2, out) \<Rightarrow>
                   (case checkFinalizingChannels unpackStatus b cs2 of (cs3, out') \<Rightarrow> (cs3, out @ out')))))"
  by pat_completeness auto

termination
proof (relation "measure (\<lambda>(u, b, cs). sum_list (map (misdated u) (finalizingChannels cs)))", goal_cases)
  case (2 u b cs f rest x cs2 out)
  from settle_decreases [of u f b x] 2 show ?case by (simp add: eq_commute [of "(cs2, out)"])
qed simp

declare checkFinalizingChannels.simps [simp del]

section \<open>Events of the adjudicator\<close>

text \<open>
  What the service asks of ethers and of the published nitro-protocol package: \<open>computeNewOutcome\<close>
  (None when it throws), the contract's holdings at a block (None for the latest; None as an answer
  is an exception), the logs from a block on, and the order \<open>Array.sort\<close> gives for the comparator
  \<open>e => e.blockNumber\<close>, which looks at one of the two events only and which the language does not
  define.
\<close>

datatype asset_args =
    DepositedArgs bytes32 address uint256 uint256
  | AllocationUpdatedArgs bytes32 nat uint256

record ethers_event =
  ev_event :: string
  ev_blockNumber :: int
  ev_logIndex :: int
  ev_transactionHash :: string
  ev_args :: "asset_args option"

record new_outcome =
  no_assets :: "(address \<times> exit_allocation list) list"
  no_newHoldings :: uint256
  no_externalPayouts :: "exit_allocation list"
  no_internalPayouts :: "exit_allocation list"

record chain_view =
  cv_computeNewOutcome :: "bytes32 \<Rightarrow> nat \<Rightarrow> uint256 \<Rightarrow> string \<Rightarrow> new_outcome option"
  cv_currentBlock :: int
  cv_holdings :: "address \<Rightarrow> bytes32 \<Rightarrow> int option \<Rightarrow> uint256 option"
  cv_logsFrom :: "int \<Rightarrow> ethers_event list"
  cv_sorted :: "ethers_event list \<Rightarrow> ethers_event list"
  cv_finalizesAt :: "bytes32 \<Rightarrow> int"

definition getDepositedEvent :: "ethers_event \<Rightarrow> holding_updated_arg result" where
  "getDepositedEvent e =
     (case ev_args e of
        Some (DepositedArgs cid a _ holdings) \<Rightarrow> Inr \<lparr>hu_channelId = cid, hu_asset = a, hu_amount = holdings\<rparr>
      | None \<Rightarrow> Inl (Error ''Deposited event must have args'')
      | _ \<Rightarrow> Inl TypeError)"

definition getAllocationUpdatedEvent ::
  "ethers \<Rightarrow> chain_view \<Rightarrow> ethers_event \<Rightarrow> allocation_updated_arg result" where
  "getAllocationUpdatedEvent eth V e =
     (case ev_args e of
        Some (AllocationUpdatedArgs cid i initialHoldings) \<Rightarrow>
          (case cv_computeNewOutcome V cid i initialHoldings (ev_transactionHash e) of
             None \<Rightarrow> Inl (Error ''computeNewOutcome'')
           | Some n \<Rightarrow>
               (case nthOpt (no_assets n) i of
                  None \<Rightarrow> Inl TypeError
                | Some (a, allocations) \<Rightarrow>
                    bindE (makeAddress eth a) (\<lambda>a'.
                      Inr \<lparr>au_channelId = cid, au_asset = a', au_newHoldings = no_newHoldings n,
                           au_externalPayouts = no_externalPayouts n,
                           au_internalPayouts = no_internalPayouts n,
                           au_newAssetOutcome = allocations\<rparr>)))
      | None \<Rightarrow> Inl (Error ''AllocationUpdated event must have args'')
      | _ \<Rightarrow> Inl TypeError)"

text \<open>An exception here rejects a promise that nothing awaits: nothing happens.\<close>

definition onAssetEvent ::
  "ethers \<Rightarrow> chain_view \<Rightarrow> ethers_event \<Rightarrow> chain_service \<Rightarrow> chain_service \<times> notice list" where
  "onAssetEvent eth V e cs =
     (if ev_event e = ''Deposited'' then
        (case getDepositedEvent e of
           Inl _ \<Rightarrow> (cs, [])
         | Inr a \<Rightarrow> notifyAll (hu_channelId a) (holdingUpdated a (ev_blockNumber e) (Some (ev_logIndex e))) cs)
      else if ev_event e = ''AllocationUpdated'' then
        (case getAllocationUpdatedEvent eth V e of
           Inl _ \<Rightarrow> (cs, [])
         | Inr a \<Rightarrow> notifyAll (au_channelId a) (allocationUpdated a (ev_blockNumber e) (ev_logIndex e)) cs)
      else (cs, []))"

text \<open>
  \<open>ChallengeRegistered\<close>: the channel is queued first; when one of the states does not convert, the
  exception leaves it there and no tracker hears of the challenge.
\<close>

definition onChallengeRegistered ::
  "platform \<Rightarrow> (string \<Rightarrow> nitro_outcome option) \<Rightarrow> (string \<Rightarrow> string) \<Rightarrow> challenge_registered_struct \<Rightarrow>
   chain_service \<Rightarrow> chain_service \<times> notice list" where
  "onChallengeRegistered P decode hexOf e cs =
     (let ev = getChallengeRegisteredEvent decode hexOf e;
          cs1 = addFinalizingChannel
                  \<lparr>fin_finalizesAtS = cre_finalizesAt ev, fin_channelId = cre_channelId ev\<rparr> cs
      in case mapE (fromNitroSignedState P) (cre_challengeStates ev) of
           Inl _ \<Rightarrow> (cs1, [])
         | Inr states \<Rightarrow> notifyAll (cre_channelId ev)
             (challengeRegistered \<lparr>cr'_channelId = cre_channelId ev, cr'_finalizesAt = cre_finalizesAt ev,
                cr'_challengeStates = states\<rparr>) cs1)"

definition onConcluded :: "bytes32 \<Rightarrow> int \<Rightarrow> chain_service \<Rightarrow> chain_service" where
  "onConcluded cid finalizesAtS =
     addFinalizingChannel \<lparr>fin_finalizesAtS = finalizesAtS, fin_channelId = cid\<rparr>"

section \<open>Registering a channel\<close>

definition runAll ::
  "('a \<Rightarrow> chain_service \<Rightarrow> chain_service \<times> notice list) \<Rightarrow> 'a list \<Rightarrow> chain_service \<Rightarrow>
   chain_service \<times> notice list" where
  "runAll f xs cs = foldl (\<lambda>(cs, out) x. case f x cs of (cs', out') \<Rightarrow> (cs', out @ out')) (cs, []) xs"

text \<open>The tracker at place \<open>i\<close> of a channel, the one just registered.\<close>

definition notifyOne ::
  "bytes32 \<Rightarrow> nat \<Rightarrow> (event_tracker \<Rightarrow> event_tracker \<times> notice list) \<Rightarrow> chain_service \<Rightarrow>
   chain_service \<times> notice list" where
  "notifyOne cid i f cs =
     (case nthOpt (trackersOf cs cid) i of
        None \<Rightarrow> (cs, [])
      | Some t \<Rightarrow> (setTrackers cid ((trackersOf cs cid)[i := fst (f t)]) cs, snd (f t)))"

definition getInitialHoldings ::
  "ethers \<Rightarrow> chain_view \<Rightarrow> int \<Rightarrow> bytes32 \<Rightarrow> nat \<Rightarrow> address \<Rightarrow> chain_service \<Rightarrow> chain_service \<times> notice list" where
  "getInitialHoldings eth V blockConfirmations cid i a cs =
     (if \<not> polling cs then (cs, [])
      else
        let confirmedBlock = cv_currentBlock V - blockConfirmations in
        case cv_holdings V a cid None of
          None \<Rightarrow> (cs, [])
        | Some _ \<Rightarrow>
            let confirmedHolding = (case cv_holdings V a cid (Some confirmedBlock) of None \<Rightarrow> 0 | Some h \<Rightarrow> h);
                first = notifyOne cid i (holdingUpdated
                  \<lparr>hu_channelId = cid, hu_asset = a, hu_amount = confirmedHolding\<rparr> confirmedBlock None) cs;
                rest = runAll (onAssetEvent eth V) (cv_sorted V (cv_logsFrom V confirmedBlock)) (fst first)
            in (fst rest, snd first @ snd rest))"

definition registerFinalizationStatus :: "chain_view \<Rightarrow> bytes32 \<Rightarrow> chain_service \<Rightarrow> chain_service" where
  "registerFinalizationStatus V cid cs =
     (let finalizesAtS = cv_finalizesAt V cid
      in if finalizesAtS \<noteq> 0
         then addFinalizingChannel \<lparr>fin_finalizesAtS = finalizesAtS, fin_channelId = cid\<rparr> cs else cs)"

text \<open>The calls that \<open>registerChannel\<close> starts and does not await follow in the order it starts them.\<close>

definition registerChannel ::
  "ethers \<Rightarrow> chain_view \<Rightarrow> int \<Rightarrow> bytes32 \<Rightarrow> address list \<Rightarrow> nat \<Rightarrow> chain_service \<Rightarrow>
   chain_service \<times> notice list" where
  "registerChannel eth V blockConfirmations cid assets sub cs =
     (let i = length (trackersOf cs cid);
          cs1 = setTrackers cid (trackersOf cs cid @ [newTracker sub]) cs;
          r = runAll (getInitialHoldings eth V blockConfirmations cid i) assets cs1
      in (registerFinalizationStatus V cid (fst r), snd r))"

definition unregisterChannel :: "bytes32 \<Rightarrow> chain_service \<Rightarrow> chain_service" where
  "unregisterChannel cid = setTrackers cid []"

section \<open>Transactions\<close>

datatype tx_call =
    Adjudicator adjudicator_call
  | IncreaseAllowance uint256
  | ApproveMax

datatype tx_target = ToAdjudicator | ToToken address

record tx_request =
  tx_to :: tx_target
  tx_value :: "uint256 option"
  tx_call :: tx_call

definition toAdjudicator :: "adjudicator_call \<Rightarrow> tx_request" where
  "toAdjudicator c = \<lparr>tx_to = ToAdjudicator, tx_value = None, tx_call = Adjudicator c\<rparr>"

datatype allowance_mode = PerDeposit | MaxUint

text \<open>
  The provider: whether it takes a transaction after those it has taken before, and the allowance a
  token has for the adjudicator then.
\<close>

record chain_provider =
  cp_refuses :: "tx_request list \<Rightarrow> tx_request \<Rightarrow> error option"
  cp_allowance :: "tx_request list \<Rightarrow> address \<Rightarrow> uint256"
  cp_finalizedRevert :: "error \<Rightarrow> bool"
  cp_finalizesAt :: "bytes32 \<Rightarrow> int"
  cp_latestTimestamp :: int

text \<open>
  The queue runs one submission at a time. The state is the list of transactions taken; the nonce
  the manager gives back after a failure is ethers' own.
\<close>

type_synonym 'a tx_io = "(tx_request list, 'a) sio"

definition sendTransaction :: "chain_provider \<Rightarrow> tx_request \<Rightarrow> unit tx_io" where
  "sendTransaction C t sent =
     (case cp_refuses C sent t of
        None \<Rightarrow> Some (sent @ [t], Inr ())
      | Some e \<Rightarrow> Some (sent, Inl e))"

definition maxUint256 :: uint256 where
  "maxUint256 = 2 ^ 256 - 1"

definition increaseAllowance :: "chain_provider \<Rightarrow> allowance_mode \<Rightarrow> address \<Rightarrow> uint256 \<Rightarrow> unit tx_io" where
  "increaseAllowance C mode token n =
     (case mode of
        PerDeposit \<Rightarrow> sendTransaction C \<lparr>tx_to = ToToken token, tx_value = None, tx_call = IncreaseAllowance n\<rparr>
      | MaxUint \<Rightarrow> (\<lambda>sent.
          if maxUint256 div 2 > cp_allowance C sent token
          then sendTransaction C \<lparr>tx_to = ToToken token, tx_value = None, tx_call = ApproveMax\<rparr> sent
          else Some (sent, Inr ())))"

definition fundChannel ::
  "chain_provider \<Rightarrow> allowance_mode \<Rightarrow> bytes32 \<Rightarrow> address \<Rightarrow> uint256 \<Rightarrow> uint256 \<Rightarrow> unit tx_io" where
  "fundChannel C mode cid a expectedHeld n =
     (if a = zeroAddress
      then sendTransaction C
        \<lparr>tx_to = ToAdjudicator, tx_value = Some n,
         tx_call = Adjudicator (createETHDepositTransaction cid expectedHeld n)\<rparr>
      else bindIO (increaseAllowance C mode a n) (\<lambda>_.
        sendTransaction C (toAdjudicator (createERC20DepositTransaction a cid expectedHeld n))))"

definition liftTx :: "'a result \<Rightarrow> ('s, 'a) sio" where
  "liftTx r s = Some (s, r)"

text \<open>\<open>captureExpectedErrors\<close>\<close>

definition captureExpectedErrors :: "chain_provider \<Rightarrow> bytes32 \<Rightarrow> error \<Rightarrow> error" where
  "captureExpectedErrors C cid reason =
     (if cp_finalizedRevert C reason then Error ''Conclude failed''
      else if cp_latestTimestamp C \<ge> cp_finalizesAt C cid then Error ''Conclude failed''
      else reason)"

definition concludeAndWithdraw ::
  "platform \<Rightarrow> abi \<Rightarrow> chain_provider \<Rightarrow> 'a signed_state_scheme list \<Rightarrow> unit tx_io" where
  "concludeAndWithdraw P A C proof =
     (case proof of
        [] \<Rightarrow> throwIO (Error ''ChainService: concludeAndWithdraw was called with an empty array?'')
      | s # _ \<Rightarrow>
          bindIO (liftTx (bindE (flatMapNitro P proof) (createConcludeAndTransferAllAssetsTransaction P A)))
            (\<lambda>t. catchIO (sendTransaction C (toAdjudicator t))
                   (captureExpectedErrors C (calculateChannelId P s))))"

definition challengeTx ::
  "platform \<Rightarrow> abi \<Rightarrow> chain_provider \<Rightarrow> 'a signed_state_scheme list \<Rightarrow> string \<Rightarrow> unit tx_io" where
  "challengeTx P A C states key =
     (if states = [] then throwIO (Error ''Must challenge with at least one state'')
      else bindIO (liftTx (bindE (flatMapNitro P states) (\<lambda>sns. createChallengeTransaction P A sns key)))
        (\<lambda>t. sendTransaction C (toAdjudicator t)))"

definition withdraw :: "platform \<Rightarrow> abi \<Rightarrow> chain_provider \<Rightarrow> 'a state_scheme \<Rightarrow> unit tx_io" where
  "withdraw P A C s =
     bindIO (liftTx (toNitroState P s)) (\<lambda>n.
       sendTransaction C (toAdjudicator (createTransferAllAssetsTransaction P A n)))"

definition handleChainRequest ::
  "platform \<Rightarrow> abi \<Rightarrow> chain_provider \<Rightarrow> allowance_mode \<Rightarrow> chain_tx \<Rightarrow> unit tx_io" where
  "handleChainRequest P A C mode r =
     (case r of
        ChallengeTx states key \<Rightarrow> challengeTx P A C states key
      | ConcludeAndWithdrawTx proof \<Rightarrow> concludeAndWithdraw P A C proof
      | FundChannelTx cid a expectedHeld n \<Rightarrow> fundChannel C mode cid a expectedHeld n
      | WithdrawTx s \<Rightarrow> (case s of None \<Rightarrow> throwIO TypeError | Some s' \<Rightarrow> withdraw P A C s'))"

text \<open>One after the other: the first that fails ends the call.\<close>

definition handleChainRequests ::
  "platform \<Rightarrow> abi \<Rightarrow> chain_provider \<Rightarrow> allowance_mode \<Rightarrow> chain_tx list \<Rightarrow> unit tx_io" where
  "handleChainRequests P A C mode rs = forIO rs (handleChainRequest P A C mode)"

definition checkChainId :: "int \<Rightarrow> int \<Rightarrow> unit result" where
  "checkChainId rpcChainId networkChainId =
     guardE (rpcChainId = networkChainId) (Error ''ChainId mismatch'')"

definition fetchBytecode :: "(string \<Rightarrow> string) \<Rightarrow> string \<Rightarrow> string result" where
  "fetchBytecode getCode app =
     (if getCode app = ''0x'' then Inl (Error ''Bytecode missing'') else Inr (getCode app))"

end
