(* ===== verification/Wallet.thy ===== *)
theory Wallet
  imports ChainService
begin

text \<open>
  The class \<open>Wallet\<close> of \<open>packages/server-wallet/src/wallet/wallet.ts\<close>, which drives the engine: it
  hands the engine's output to the application (events), to the message service and to the chain
  service, and turns what the chain reports into calls of the engine. What it does to the outside is
  a log of effects. A promise handed to the application is the place in the log from which its
  listeners were registered.
\<close>

section \<open>State\<close>

datatype effect =
    ChannelUpdated channel_result
  | ObjectiveCompleted wallet_objective
  | ObjectiveProposed wallet_objective
  | ObjectiveTimedOut wallet_objective
  | SendMessages "wire_message list"
  | SubmitTx tx_request

text \<open>
  \<open>wl_notices\<close> are events of the chain service that the wallet's listener has not handled yet; it runs
  on its own, nothing awaits it.
\<close>

record wallet =
  wl_world :: world
  wl_chain :: chain_service
  wl_effects :: "effect list"
  wl_notices :: "notice list"

text \<open>
  The message service may fail after what it did so far; \<open>we_late\<close> tells, for the write to the
  database that a listener starts without awaiting it, whether it lands after the listener's crank.
\<close>

record wallet_env =
  we_store :: store_env
  we_abi :: abi
  we_provider :: chain_provider
  we_view :: chain_view
  we_allowanceMode :: allowance_mode
  we_blockConfirmations :: int
  we_sendFails :: "effect list \<Rightarrow> wire_message list \<Rightarrow> error option"
  we_late :: "notice \<Rightarrow> bool"
  we_staleThreshold :: int
  we_timeOutThreshold :: int

type_synonym 'a wio = "(wallet, 'a) sio"

abbreviation we_platform :: "wallet_env \<Rightarrow> platform" where
  "we_platform W \<equiv> se_platform (we_store W)"

definition onEngine :: "'a io \<Rightarrow> 'a wio" where
  "onEngine m w =
     (case m (wl_world w) of
        None \<Rightarrow> None
      | Some (d, r) \<Rightarrow> Some (w\<lparr>wl_world := d\<rparr>, r))"

definition emit :: "effect \<Rightarrow> unit wio" where
  "emit e w = Some (w\<lparr>wl_effects := wl_effects w @ [e]\<rparr>, Inr ())"

definition emitAll :: "effect list \<Rightarrow> unit wio" where
  "emitAll es w = Some (w\<lparr>wl_effects := wl_effects w @ es\<rparr>, Inr ())"

definition sendMessages :: "wallet_env \<Rightarrow> wire_message list \<Rightarrow> unit wio" where
  "sendMessages W ms w =
     (case we_sendFails W (wl_effects w) ms of
        Some e \<Rightarrow> Some (w, Inl e)
      | None \<Rightarrow> emit (SendMessages ms) w)"

fun submittedTx :: "effect \<Rightarrow> tx_request list" where
  "submittedTx (SubmitTx t) = [t]"
| "submittedTx _ = []"

text \<open>The transactions taken by the chain service are those it took before and the new ones.\<close>

definition submitRequests :: "wallet_env \<Rightarrow> chain_tx list \<Rightarrow> unit wio" where
  "submitRequests W rs w =
     (let sent = concat (map submittedTx (wl_effects w)) in
      case handleChainRequests (we_platform W) (we_abi W) (we_provider W) (we_allowanceMode W) rs sent of
        None \<Rightarrow> None
      | Some (sent', r) \<Rightarrow>
          Some (w\<lparr>wl_effects := wl_effects w @ map SubmitTx (drop (length sent) sent')\<rparr>, r))"

section \<open>Promises\<close>

datatype done_result =
    SuccessResult bytes32
  | ObjectiveTimedOutError string int
  | InternalError error

datatype done_promise =
    Listening nat string
  | Resolved done_result

fun doneEvent :: "string \<Rightarrow> effect \<Rightarrow> done_result option" where
  "doneEvent oid (ObjectiveTimedOut m) =
     (if o_objectiveId m = oid then Some (ObjectiveTimedOutError (o_objectiveId m) (o_progressLastMadeAt m)) else None)"
| "doneEvent oid (ObjectiveCompleted m) =
     (if o_objectiveId m = oid then Some (SuccessResult (targetChannelOf m)) else None)"
| "doneEvent oid _ = None"

text \<open>The first event for the objective since the listeners were registered settles the promise.\<close>

fun doneOf :: "effect list \<Rightarrow> done_promise \<Rightarrow> done_result option" where
  "doneOf es (Listening n oid) =
     (case List.map_filter (doneEvent oid) (drop n es) of [] \<Rightarrow> None | r # _ \<Rightarrow> Some r)"
| "doneOf es (Resolved r) = Some r"

definition createObjectiveDoneResult :: "string \<Rightarrow> done_promise wio" where
  "createObjectiveDoneResult oid w = Some (w, Inr (Listening (length (wl_effects w)) oid))"

record objective_result =
  or_objectiveId :: string
  or_currentStatus :: objective_status
  or_channelId :: bytes32
  or_done :: done_promise

section \<open>Handling the engine's output\<close>

datatype engine_output = SingleOut single_output | MultipleOut multiple_output

definition proposedEvents :: "wallet_objective list \<Rightarrow> effect list" where
  "proposedEvents ms = map ObjectiveProposed (filter (\<lambda>m. o_status m = PendingObjective) ms)"

fun eventsOf :: "engine_output \<Rightarrow> effect list" where
  "eventsOf (MultipleOut r) =
     map ChannelUpdated (mo_channelResults r) @ map ObjectiveCompleted (mo_completedObjectives r) @
     proposedEvents (mo_newObjectives r)"
| "eventsOf (SingleOut r) =
     ChannelUpdated (so_channelResult r) #
     proposedEvents (case so_newObjective r of None \<Rightarrow> [] | Some m \<Rightarrow> [m])"

definition emitEvents :: "engine_output \<Rightarrow> unit wio" where
  "emitEvents r = emitAll (eventsOf r)"

fun outboxOf :: "engine_output \<Rightarrow> wire_message list" where
  "outboxOf (MultipleOut r) = mo_outbox r"
| "outboxOf (SingleOut r) = so_outbox r"

fun requestsOf :: "engine_output \<Rightarrow> chain_tx list" where
  "requestsOf (MultipleOut r) = mo_chainRequests r"
| "requestsOf (SingleOut r) = so_chainRequests r"

definition handleEngineOutput :: "wallet_env \<Rightarrow> engine_output \<Rightarrow> unit wio" where
  "handleEngineOutput W r =
     bindIO (emitEvents r) (\<lambda>_. bindIO (sendMessages W (outboxOf r)) (\<lambda>_.
       submitRequests W (requestsOf r)))"

section \<open>Registering channels with the chain service\<close>

text \<open>The one listener of the wallet has the number 0.\<close>

definition registerOne :: "wallet_env \<Rightarrow> bytes32 \<times> address list \<Rightarrow> unit wio" where
  "registerOne W x w =
     (case registerChannel (se_ethers (we_store W)) (we_view W) (we_blockConfirmations W) (fst x) (snd x) 0
             (wl_chain w) of
        (cs, ns) \<Rightarrow> Some (w\<lparr>wl_chain := cs, wl_notices := wl_notices w @ ns\<rparr>, Inr ()))"

definition assetHoldersOf :: "wallet_env \<Rightarrow> channel_result \<Rightarrow> (bytes32 \<times> address list) result" where
  "assetHoldersOf W cr =
     bindE (mapE (\<lambda>a. makeAddress (se_ethers (we_store W)) (fst a)) (cr_allocations cr)) (\<lambda>as.
       Inr (cr_channelId cr, as))"

definition registerChannels :: "wallet_env \<Rightarrow> channel_result list \<Rightarrow> unit wio" where
  "registerChannels W crs =
     bindIO (liftTx (mapE (assetHoldersOf W) crs)) (\<lambda>xs. forIO xs (registerOne W))"

definition registerExistingChannelsWithChainService :: "wallet_env \<Rightarrow> unit wio" where
  "registerExistingChannelsWithChainService W =
     bindIO (onEngine (readDb (getNonFinalizedChannels (we_store W)))) (\<lambda>css.
     bindIO (liftTx (mapE toChannelResult css)) (registerChannels W))"

section \<open>The application's calls\<close>

definition registerAppDefinition :: "wallet_env \<Rightarrow> (string \<Rightarrow> string) \<Rightarrow> address \<Rightarrow> unit wio" where
  "registerAppDefinition W getCode app =
     bindIO (liftTx (fetchBytecode getCode app)) (\<lambda>b.
       onEngine (transactionU (\<lambda>w.
         bindE (registerAppBytecode (we_store W) app b (w_db w)) (\<lambda>d. Inr (w\<lparr>w_db := d\<rparr>)))))"

definition newObjectiveOf :: "single_output \<Rightarrow> wallet_objective result" where
  "newObjectiveOf r = (case so_newObjective r of None \<Rightarrow> Inl TypeError | Some m \<Rightarrow> Inr m)"

text \<open>What follows the creation of a channel, whichever call created it.\<close>

definition announceChannel :: "wallet_env \<Rightarrow> single_output \<Rightarrow> objective_result wio" where
  "announceChannel W r =
     bindIO (registerChannels W [so_channelResult r]) (\<lambda>_.
     bindIO (liftTx (newObjectiveOf r)) (\<lambda>m.
     bindIO (createObjectiveDoneResult (o_objectiveId m)) (\<lambda>promise.
     bindIO (handleEngineOutput W (SingleOut r)) (\<lambda>_.
       returnIO \<lparr>or_objectiveId = o_objectiveId m, or_currentStatus = o_status m,
                 or_channelId = cr_channelId (so_channelResult r), or_done = promise\<rparr>))))"

text \<open>\<open>try ... catch\<close> with a value for the error.\<close>

definition recoverIO :: "('s, 'a) sio \<Rightarrow> (error \<Rightarrow> 'a) \<Rightarrow> ('s, 'a) sio" where
  "recoverIO m f w =
     (case m w of
        None \<Rightarrow> None
      | Some (w1, Inl e) \<Rightarrow> Some (w1, Inr (f e))
      | Some (w1, Inr x) \<Rightarrow> Some (w1, Inr x))"

definition errorResult :: "error \<Rightarrow> objective_result" where
  "errorResult e = \<lparr>or_objectiveId = ''ERROR'', or_currentStatus = FailedObjective,
     or_channelId = ''ERROR'', or_done = Resolved (InternalError e)\<rparr>"

definition walletCreateLedgerChannel ::
  "wallet_env \<Rightarrow> create_args \<Rightarrow> funding_strategy \<Rightarrow> objective_result wio" where
  "walletCreateLedgerChannel W a strategy =
     recoverIO (bindIO (onEngine (createLedgerChannel (we_store W) a strategy)) (announceChannel W)) errorResult"

definition walletCreateChannels :: "wallet_env \<Rightarrow> create_args list \<Rightarrow> objective_result list wio" where
  "walletCreateChannels W =
     allIO (\<lambda>a. recoverIO (bindIO (onEngine (engineCreateChannel (we_store W) a)) (announceChannel W)) errorResult)"

definition resultFor :: "wallet_objective \<Rightarrow> objective_result wio" where
  "resultFor m =
     bindIO (createObjectiveDoneResult (o_objectiveId m)) (\<lambda>promise.
       returnIO \<lparr>or_objectiveId = o_objectiveId m, or_currentStatus = o_status m,
                 or_channelId = targetChannelOf m, or_done = promise\<rparr>)"

text \<open>Here the transactions go out before the messages.\<close>

definition walletApproveObjectives :: "wallet_env \<Rightarrow> string list \<Rightarrow> objective_result list wio" where
  "walletApproveObjectives W oids =
     bindIO (onEngine (approveObjectives (we_store W) oids)) (\<lambda>out.
     bindIO (registerChannels W (ao_channelResults out)) (\<lambda>_.
     bindIO (allIO resultFor (ao_objectives out)) (\<lambda>results.
     bindIO (emitAll (map ObjectiveCompleted (filter (\<lambda>m. o_status m = SucceededObjective) (ao_objectives out))))
       (\<lambda>_.
     bindIO (submitRequests W (ao_chainRequests out)) (\<lambda>_.
     bindIO (sendMessages W (ao_messages out)) (\<lambda>_. returnIO results))))))"

definition walletUpdateChannel ::
  "wallet_env \<Rightarrow> bytes32 \<Rightarrow> app_allocation list \<Rightarrow> string \<Rightarrow> channel_result result wio" where
  "walletUpdateChannel W cid allocations data =
     recoverIO
       (bindIO (onEngine (updateChannel (we_store W) cid allocations data)) (\<lambda>r.
        bindIO (handleEngineOutput W (SingleOut r)) (\<lambda>_. returnIO (Inr (so_channelResult r)))))
       Inl"

definition walletCloseChannel :: "wallet_env \<Rightarrow> bytes32 \<times> done_promise \<Rightarrow> objective_result wio" where
  "walletCloseChannel W x =
     bindIO (onEngine (closeChannel (we_store W) (fst x))) (\<lambda>r.
     bindIO (liftTx (newObjectiveOf r)) (\<lambda>m.
     bindIO (onEngine (readDb (\<lambda>d. objectiveForId d (o_objectiveId m)))) (\<lambda>latest.
     bindIO (handleEngineOutput W (SingleOut r)) (\<lambda>_.
       returnIO \<lparr>or_objectiveId = o_objectiveId m, or_currentStatus = o_status latest,
                 or_channelId = cr_channelId (so_channelResult r), or_done = snd x\<rparr>))))"

text \<open>All the listeners are registered before the first channel is closed.\<close>

definition walletCloseChannels :: "wallet_env \<Rightarrow> bytes32 list \<Rightarrow> objective_result list wio" where
  "walletCloseChannels W cids =
     bindIO (allIO (\<lambda>cid. createObjectiveDoneResult (calculateObjectiveId CloseChannelT cid)) cids) (\<lambda>ps.
       allIO (walletCloseChannel W) (zip cids ps))"

text \<open>The wallet's timer: objectives that made no progress for long are resent or reported.\<close>

definition walletSyncObjectives :: "wallet_env \<Rightarrow> unit wio" where
  "walletSyncObjectives W =
     (let staleDate = se_now (we_store W) - we_staleThreshold W;
          timeOutDate = se_now (we_store W) - we_timeOutThreshold W in
      bindIO (onEngine (readDb getApprovedObjectives)) (\<lambda>ms.
      bindIO (emitAll (map ObjectiveTimedOut (filter (\<lambda>m. o_progressLastMadeAt m < timeOutDate) ms))) (\<lambda>_.
      bindIO (onEngine (syncObjectives (we_store W)
        (map o_objectiveId (filter (\<lambda>m. o_progressLastMadeAt m < staleDate) ms)))) (sendMessages W))))"

definition jumpStartObjectives :: "wallet_env \<Rightarrow> objective_result list wio" where
  "jumpStartObjectives W =
     bindIO (onEngine (readDb getApprovedObjectives)) (\<lambda>ms.
     bindIO (onEngine (dbTransaction (updateObjectiveProgressDate (we_store W) (map o_objectiveId ms)))) (\<lambda>_.
     bindIO (onEngine (syncObjectives (we_store W) (map o_objectiveId ms))) (\<lambda>messages.
     bindIO (allIO resultFor ms) (\<lambda>results.
     bindIO (sendMessages W messages) (\<lambda>_. returnIO results)))))"

section \<open>Messages and chain events\<close>

definition handleIncomingMessage :: "wallet_env \<Rightarrow> wire_payload \<Rightarrow> unit wio" where
  "handleIncomingMessage W m =
     bindIO (onEngine (pushMessage (we_store W) m)) (\<lambda>r. handleEngineOutput W (MultipleOut r))"

definition dbUpdate :: "(db \<Rightarrow> db result) \<Rightarrow> unit wio" where
  "dbUpdate f = onEngine (transactionU (\<lambda>w. bindE (f (w_db w)) (\<lambda>d. Inr (w\<lparr>w_db := d\<rparr>))))"

text \<open>
  The writes of the four listeners. The payouts and the finalization are stored by methods that start
  a transaction and do not await it: its errors are lost and it may land after the crank.
\<close>

fun eventChannel :: "chain_event \<Rightarrow> bytes32" where
  "eventChannel (HoldingUpdated a) = hu_channelId a"
| "eventChannel (AllocationUpdated a) = au_channelId a"
| "eventChannel (ChannelFinalized a) = cf_channelId a"
| "eventChannel (ChallengeRegistered a) = cr'_channelId a"

definition transferredOut :: "wallet_env \<Rightarrow> exit_allocation list \<Rightarrow> (bytes32 \<times> uint256) list result" where
  "transferredOut W = mapE (\<lambda>a. bindE (makeDestination (se_ethers (we_store W)) (ea_destination a)) (\<lambda>d.
     Inr (d, ea_amount a)))"

definition lost :: "unit wio \<Rightarrow> unit wio" where
  "lost m = recoverIO m (\<lambda>_. ())"

definition crankAndHandle :: "wallet_env \<Rightarrow> bytes32 \<Rightarrow> unit wio" where
  "crankAndHandle W cid =
     bindIO (onEngine (crankChannels (we_store W) [cid])) (\<lambda>r. handleEngineOutput W (MultipleOut r))"

definition unawaited :: "bool \<Rightarrow> unit wio \<Rightarrow> unit wio \<Rightarrow> unit wio" where
  "unawaited late m rest =
     (if late then (\<lambda>w. case rest w of
        None \<Rightarrow> None
      | Some (w1, r) \<Rightarrow> (case lost m w1 of None \<Rightarrow> None | Some (w2, _) \<Rightarrow> Some (w2, r)))
      else bindIO (lost m) (\<lambda>_. rest))"

definition chainEventListener :: "wallet_env \<Rightarrow> notice \<Rightarrow> unit wio" where
  "chainEventListener W n =
     (let rest = crankAndHandle W (eventChannel (snd n)) in
      case snd n of
        HoldingUpdated a \<Rightarrow>
          bindIO (dbUpdate (updateFunding (hu_channelId a) (hu_amount a) (hu_asset a))) (\<lambda>_. rest)
      | AllocationUpdated a \<Rightarrow>
          bindIO (liftTx (transferredOut W (au_externalPayouts a))) (\<lambda>ts.
            unawaited (we_late W n)
              (dbUpdate (storeUpdateTransferredOut (au_channelId a) (au_asset a) ts (au_newHoldings a))) rest)
      | ChallengeRegistered a \<Rightarrow>
          bindIO (dbUpdate (\<lambda>d. bindE (insertAdjudicatorStatus (cr'_channelId a) (cr'_finalizesAt a)
            (cr'_challengeStates a) d) (\<lambda>(_, d1). Inr d1))) (\<lambda>_. rest)
      | ChannelFinalized a \<Rightarrow>
          unawaited (we_late W n)
            (dbUpdate (markAdjudicatorStatusAsFinalized (cf_channelId a) (cf_blockNumber a)
              (cf_blockTimestamp a) (cf_finalizedAt a))) rest)"

text \<open>The listener takes a notice; whatever happens to it, it is gone.\<close>

definition handleNextNotice :: "wallet_env \<Rightarrow> unit wio" where
  "handleNextNotice W w =
     (case wl_notices w of
        [] \<Rightarrow> Some (w, Inr ())
      | n # ns \<Rightarrow> chainEventListener W n (w\<lparr>wl_notices := ns\<rparr>))"

text \<open>A step of the chain service, with the notices it gives.\<close>

definition onChain :: "(chain_service \<Rightarrow> chain_service \<times> notice list) \<Rightarrow> unit wio" where
  "onChain f w =
     (case f (wl_chain w) of
        (cs, ns) \<Rightarrow> Some (w\<lparr>wl_chain := cs, wl_notices := wl_notices w @ ns\<rparr>, Inr ()))"

definition walletGetChannels :: "wallet_env \<Rightarrow> channel_result list wio" where
  "walletGetChannels W =
     bindIO (onEngine (engineGetChannels (we_store W))) (\<lambda>r. returnIO (mo_channelResults r))"

end
