(* ===== verification/ChainServiceFacts.thy ===== *)
theory ChainServiceFacts
  imports ChainService EngineFixtures DatabaseFacts
begin

text \<open>
  What the chain service reports: a channel is reported as finalized exactly when the contract says
  so, and the holdings stored in the end are those of the latest event, in whatever order the events
  come in.
\<close>

section \<open>The queue of finalizing channels\<close>

definition queueOk :: "chain_service \<Rightarrow> bool" where
  "queueOk cs \<longleftrightarrow> distinct (map fin_channelId (finalizingChannels cs)) \<and>
     sorted (map fin_finalizesAtS (finalizingChannels cs)) \<and>
     (\<forall>f \<in> set (finalizingChannels cs). 0 < fin_finalizesAtS f)"

lemma addFinalizing_set:
  assumes "fin_channelId f \<notin> fin_channelId ` set (finalizingChannels cs)"
  shows "set (finalizingChannels (addFinalizingChannel f cs)) = insert f (set (finalizingChannels cs))"
proof -
  have "\<not> list_ex (\<lambda>c. fin_channelId c = fin_channelId f) (finalizingChannels cs)"
    using assms by (auto simp: list_ex_iff image_iff)
  then show ?thesis by (simp add: addFinalizingChannel_def)
qed

lemma addFinalizing_ok:
  assumes "queueOk cs" and "0 < fin_finalizesAtS f"
  shows "queueOk (addFinalizingChannel f cs)"
proof (cases "fin_channelId f \<in> fin_channelId ` set (finalizingChannels cs)")
  case True
  then show ?thesis using assms(1) by (auto simp: addFinalizingChannel_def list_ex_iff)
next
  case False
  let ?q = "finalizingChannels cs @ [f]"
  have "distinct (map fin_channelId ?q)" using assms(1) False by (simp add: queueOk_def)
  then have "distinct (map fin_channelId (sort_key fin_finalizesAtS ?q))"
    by (metis distinct_map distinct_sort set_sort)
  with False assms show ?thesis by (auto simp: queueOk_def addFinalizingChannel_def list_ex_iff)
qed

lemma trackers_addFinalizing [simp]:
  "channelToEventTrackers (addFinalizingChannel f cs) = channelToEventTrackers cs"
  "trackersOf (addFinalizingChannel f cs) = trackersOf cs"
  by (auto simp: addFinalizingChannel_def trackersOf_def)

lemma queueOk_cong:
  "finalizingChannels cs = finalizingChannels cs' \<Longrightarrow> queueOk cs = queueOk cs'"
  by (simp add: queueOk_def)

text \<open>Reporting a finalized channel changes no tracker.\<close>

lemma notifyAll_finalized:
  "notifyAll cid (channelFinalized a) cs =
     (cs, map (\<lambda>t. (managedSubscriber t, ChannelFinalized a)) (trackersOf cs cid))"
proof (cases "channelToEventTrackers cs cid")
  case (Some ts)
  have "map (fst \<circ> channelFinalized a) ts = ts" by (simp add: channelFinalized_def comp_def)
  moreover have "concat (map (snd \<circ> channelFinalized a) ts) =
      map (\<lambda>t. (managedSubscriber t, ChannelFinalized a)) ts"
    by (induction ts) (simp_all add: channelFinalized_def)
  ultimately show ?thesis using Some
    by (simp add: notifyAll_def setTrackers_def trackersOf_def fun_upd_idem)
qed (simp add: notifyAll_def trackersOf_def)

text \<open>
  With \<open>u\<close> for the contract: the channels of a queue whose time has come, those of them the contract
  takes for finalized by now, and what stays queued.
\<close>

definition isDue :: "block \<Rightarrow> finalizing_channel \<Rightarrow> bool" where
  "isDue b f \<longleftrightarrow> fin_finalizesAtS f \<le> bl_timestamp b"

definition finalizedNow :: "(bytes32 \<Rightarrow> int) \<Rightarrow> block \<Rightarrow> finalizing_channel list \<Rightarrow> bytes32 set" where
  "finalizedNow u b q = {c. 0 < u c \<and> u c \<le> bl_timestamp b \<and> (\<exists>f \<in> set q. isDue b f \<and> fin_channelId f = c)}"

definition stillQueued :: "(bytes32 \<Rightarrow> int) \<Rightarrow> block \<Rightarrow> finalizing_channel list \<Rightarrow> finalizing_channel set" where
  "stillQueued u b q = {f \<in> set q. \<not> isDue b f} \<union>
     {\<lparr>fin_finalizesAtS = u (fin_channelId f), fin_channelId = fin_channelId f\<rparr> | f.
        f \<in> set q \<and> isDue b f \<and> bl_timestamp b < u (fin_channelId f)}"

definition finalizedNotices :: "chain_service \<Rightarrow> (bytes32 \<Rightarrow> int) \<Rightarrow> block \<Rightarrow> bytes32 \<Rightarrow> notice list" where
  "finalizedNotices cs u b c = map (\<lambda>t. (managedSubscriber t, ChannelFinalized (finalizedArg b
     \<lparr>fin_finalizesAtS = u c, fin_channelId = c\<rparr>))) (trackersOf cs c)"

definition settled :: "(bytes32 \<Rightarrow> int) \<Rightarrow> block \<Rightarrow> chain_service \<Rightarrow> chain_service \<Rightarrow> notice list \<Rightarrow> bool" where
  "settled u b cs cs' out \<longleftrightarrow> queueOk cs' \<and> channelToEventTrackers cs' = channelToEventTrackers cs \<and>
     set (finalizingChannels cs') = stillQueued u b (finalizingChannels cs) \<and>
     (\<exists>ids. distinct ids \<and> set ids = finalizedNow u b (finalizingChannels cs) \<and>
        out = concat (map (finalizedNotices cs u b) ids))"

lemma settle_trackers:
  "channelToEventTrackers (fst (settleFinalizing s b f cs)) = channelToEventTrackers cs"
  by (auto simp: settleFinalizing_def notifyAll_finalized)

text \<open>One channel taken from the front of the queue.\<close>

lemma settle_one:
  assumes "queueOk cs" and "finalizingChannels cs = f # rest" and "isDue b f" and "\<forall>c. 0 \<le> u c"
    and "settleFinalizing (u (fin_channelId f)) b f (cs\<lparr>finalizingChannels := rest\<rparr>) = (cs2, out)"
    and "settled u b cs2 cs3 out'"
  shows "settled u b cs cs3 (out @ out')"
proof -
  let ?c = "fin_channelId f" and ?q = "finalizingChannels cs2"
  let ?g = "\<lparr>fin_finalizesAtS = u ?c, fin_channelId = ?c\<rparr>"
  have tr: "channelToEventTrackers cs2 = channelToEventTrackers cs"
    using settle_trackers [of "u ?c" b f "cs\<lparr>finalizingChannels := rest\<rparr>"] assms(5) by simp
  then have notices: "finalizedNotices cs2 u b = finalizedNotices cs u b"
    by (simp add: finalizedNotices_def trackersOf_def fun_eq_iff)
  have new: "?c \<notin> fin_channelId ` set rest" and pos: "0 < fin_finalizesAtS f"
    using assms(1,2) by (auto simp: queueOk_def)
  obtain ids where ids: "distinct ids" "set ids = finalizedNow u b ?q" "out' = concat (map (finalizedNotices cs u b) ids)"
    using assms(6) notices by (auto simp: settled_def)
  consider (matched) "u ?c = fin_finalizesAtS f" | (moved) "u ?c \<noteq> fin_finalizesAtS f" "u ?c \<noteq> 0" | (cleared) "u ?c = 0"
    by blast
  then show ?thesis
  proof cases
    case matched
    then have g: "?g = f" by simp
    from assms(5) matched have q: "?q = rest" and out: "out = finalizedNotices cs u b ?c"
      by (auto simp: settleFinalizing_def notifyAll_finalized finalizedNotices_def g trackersOf_def finalizedArg_def)
    have "?c \<notin> set ids" using ids(2) new unfolding finalizedNow_def q by (force simp: image_iff)
    moreover have "insert ?c (finalizedNow u b rest) = finalizedNow u b (f # rest)"
      using matched assms(3) pos by (auto simp: finalizedNow_def isDue_def)
    moreover have "stillQueued u b rest = stillQueued u b (f # rest)"
      using matched assms(3) by (auto simp: stillQueued_def isDue_def)
    ultimately show ?thesis using assms(6) ids q out tr unfolding settled_def assms(2)
      by (auto intro!: exI [of _ "?c # ids"])
  next
    case moved
    from assms(5) moved have cs2: "cs2 = addFinalizingChannel ?g (cs\<lparr>finalizingChannels := rest\<rparr>)" and out: "out = []"
      by (auto simp: settleFinalizing_def split: if_splits)
    have q: "set ?q = insert ?g (set rest)" unfolding cs2 using new by (subst addFinalizing_set) auto
    have u: "0 < u ?c" using moved(2) assms(4) by (metis le_less)
    have "finalizedNow u b ?q = finalizedNow u b (f # rest)"
      using u assms(3) by (auto simp: finalizedNow_def q isDue_def)
    moreover have "stillQueued u b ?q = stillQueued u b (f # rest)"
      using assms(3) by (auto simp: stillQueued_def q isDue_def)
    ultimately show ?thesis using assms(6) ids tr unfolding settled_def assms(2) by (auto simp: out)
  next
    case cleared
    with pos assms(5) have q: "?q = rest" and out: "out = []" by (auto simp: settleFinalizing_def)
    have "finalizedNow u b rest = finalizedNow u b (f # rest)"
      using cleared by (auto simp: finalizedNow_def)
    moreover have "stillQueued u b rest = stillQueued u b (f # rest)"
      using cleared assms(3) pos by (auto simp: stillQueued_def isDue_def)
    ultimately show ?thesis using assms(6) ids tr unfolding settled_def assms(2) by (auto simp: out q)
  qed
qed

lemma settle_ok:
  assumes "queueOk cs" and "finalizingChannels cs = f # rest" and "\<forall>c. 0 \<le> u c"
  shows "queueOk (fst (settleFinalizing (u (fin_channelId f)) b f (cs\<lparr>finalizingChannels := rest\<rparr>)))"
proof -
  have "queueOk (cs\<lparr>finalizingChannels := rest\<rparr>)" using assms(1,2) by (auto simp: queueOk_def)
  moreover have "u (fin_channelId f) \<noteq> 0 \<Longrightarrow> 0 < u (fin_channelId f)" using assms(3) by (metis le_less)
  ultimately show ?thesis
    by (auto simp: settleFinalizing_def notifyAll_finalized intro: addFinalizing_ok)
qed

text \<open>
  on every block the service reports, once to each tracker, exactly the queued channels whose
  time has come and which the contract takes for finalized, with the time of the contract; a channel
  whose time the contract has moved is queued again for the new time, one with no challenge left is
  dropped, and the others stay.
\<close>

theorem checkFinalizingChannels_settles:
  assumes "queueOk cs" and "\<forall>c. 0 \<le> unpackStatus c"
    and "checkFinalizingChannels unpackStatus b cs = (cs', out)"
  shows "settled unpackStatus b cs cs' out"
  using assms
proof (induction unpackStatus b cs arbitrary: cs' out rule: checkFinalizingChannels.induct)
  case (1 u b cs)
  show ?case
  proof (cases "finalizingChannels cs")
    case Nil
    with "1.prems" show ?thesis
      by (simp add: checkFinalizingChannels.simps settled_def stillQueued_def finalizedNow_def)
  next
    case (Cons f rest)
    let ?cs1 = "cs\<lparr>finalizingChannels := rest\<rparr>"
    show ?thesis
    proof (cases "fin_finalizesAtS f > bl_timestamp b")
      case True
      with "1.prems"(3) Cons have r: "cs' = addFinalizingChannel f ?cs1" "out = []"
        by (simp_all add: checkFinalizingChannels.simps [of u b cs] Let_def)
      have new: "fin_channelId f \<notin> fin_channelId ` set rest" and pos: "0 < fin_finalizesAtS f" and
        ok: "queueOk ?cs1" and late: "\<forall>g \<in> set (f # rest). \<not> isDue b g"
        using "1.prems"(1) Cons True by (auto simp: queueOk_def isDue_def)
      have "set (finalizingChannels cs') = set (f # rest)" unfolding r using new by (subst addFinalizing_set) auto
      with late addFinalizing_ok [OF ok pos] show ?thesis
        by (auto simp: settled_def r Cons stillQueued_def finalizedNow_def)
    next
      case False
      obtain cs2 out1 where one: "settleFinalizing (u (fin_channelId f)) b f ?cs1 = (cs2, out1)"
        by (cases "settleFinalizing (u (fin_channelId f)) b f ?cs1")
      obtain cs3 out2 where two: "checkFinalizingChannels u b cs2 = (cs3, out2)"
        by (cases "checkFinalizingChannels u b cs2")
      from "1.prems"(3) Cons False one two have r: "cs' = cs3" "out = out1 @ out2"
        by (simp_all add: checkFinalizingChannels.simps [of u b cs] Let_def)
      have "queueOk cs2" using settle_ok [OF "1.prems"(1) Cons "1.prems"(2), of b] one by simp
      from "1.IH" [OF Cons refl False one [symmetric] this "1.prems"(2) two]
      have "settled u b cs2 cs3 out2" .
      with settle_one [OF "1.prems"(1) Cons _ "1.prems"(2) one] False show ?thesis
        by (simp add: r isDue_def)
    qed
  qed
qed

definition sampleService :: chain_service where
  "sampleService = \<lparr>channelToEventTrackers = (\<lambda>_. None)(''c1'' \<mapsto> [newTracker 0]),
     finalizingChannels = [\<lparr>fin_finalizesAtS = 5, fin_channelId = ''c1''\<rparr>, \<lparr>fin_finalizesAtS = 6, fin_channelId = ''c2''\<rparr>],
     polling = True\<rparr>"

theorem checkFinalizingChannels_settles_witness:
  "queueOk sampleService \<and>
   (\<exists>cs' out. checkFinalizingChannels (\<lambda>c. if c = ''c1'' then 7 else 9) \<lparr>bl_number = 1, bl_timestamp = 8\<rparr>
      sampleService = (cs', out) \<and> finalizingChannels cs' \<noteq> [] \<and> out \<noteq> [])"
proof -
  let ?u = "\<lambda>c. if c = ''c1'' then 7 else (9 :: int)" and ?b = "\<lparr>bl_number = 1, bl_timestamp = 8\<rparr>"
  have ok: "queueOk sampleService" by (simp add: queueOk_def sampleService_def)
  obtain cs' out where r: "checkFinalizingChannels ?u ?b sampleService = (cs', out)"
    by (cases "checkFinalizingChannels ?u ?b sampleService")
  have nonneg: "\<forall>c. 0 \<le> ?u c" by simp
  from checkFinalizingChannels_settles [OF ok nonneg r] obtain ids where
    s: "set (finalizingChannels cs') = stillQueued ?u ?b (finalizingChannels sampleService)"
       "set ids = finalizedNow ?u ?b (finalizingChannels sampleService)"
       "out = concat (map (finalizedNotices sampleService ?u ?b) ids)"
    by (auto simp: settled_def)
  have "\<lparr>fin_finalizesAtS = 9, fin_channelId = ''c2''\<rparr> \<in> set (finalizingChannels cs')"
    unfolding s(1) by (auto simp: stillQueued_def sampleService_def isDue_def
      intro!: exI [of _ "\<lparr>fin_finalizesAtS = 6, fin_channelId = ''c2''\<rparr>"])
  moreover have "''c1'' \<in> set ids" unfolding s(2) by (auto simp: finalizedNow_def sampleService_def isDue_def)
  then have "out \<noteq> []"
    unfolding s(3) by (auto simp: finalizedNotices_def trackersOf_def sampleService_def intro!: bexI [of _ "''c1''"])
  ultimately show ?thesis using ok r by force
qed

section \<open>Holdings\<close>

text \<open>
  What the wallet does with the reports of a tracker: it stores each amount. The reports come in any
  order and may be repeated, since the subscription and the initial query both replay them.
\<close>

definition storeHolding :: "db \<Rightarrow> tracked \<Rightarrow> db result" where
  "storeHolding d x =
     (case snd (snd x) of
        HoldingUpdated a \<Rightarrow> updateFunding (hu_channelId a) (hu_amount a) (hu_asset a) d
      | _ \<Rightarrow> Inr d)"

definition holdingReports :: "bytes32 \<Rightarrow> tracked list \<Rightarrow> bool" where
  "holdingReports cid es \<longleftrightarrow>
     (\<forall>x \<in> set es. \<exists>a. snd (snd x) = HoldingUpdated a \<and> fst x = hu_asset a \<and> hu_channelId a = cid)"

lemma updateFunding_stores:
  assumes "hasChannel d cid"
  shows "\<exists>d'. updateFunding cid n a d = Inr d' \<and> getFundingAmount d' cid a = n \<and> db_channels d' = db_channels d"
proof (cases "findFunding d cid a")
  case None
  then have new: "(cid, a) \<notin> fundingKey ` set (db_funding d)"
    by (auto simp: findFunding_def selectFirst_None image_iff)
  let ?row = "\<lparr>f_channelId = cid, f_asset = a, f_amount = n, f_transferredOut = []\<rparr>"
  have key: "fundingKey ?row = (cid, a)" by (simp add: fundingKey_def)
  have "insertUnique fundingKey ?row (db_funding d) = Inr (db_funding d @ [?row])"
    using new by (simp add: insertUnique_eq key)
  with None assms have "updateFunding cid n a d = Inr (d\<lparr>db_funding := db_funding d @ [?row]\<rparr>)"
    by (simp add: updateFunding_def referencesChannel_def)
  moreover have "getFundingAmount (d\<lparr>db_funding := db_funding d @ [?row]\<rparr>) cid a = n"
    using None by (simp add: getFundingAmount_def findFunding_def selectFirst_def find_append key)
  ultimately show ?thesis by simp
next
  case (Some f)
  then have "updateFunding cid n a d =
      Inr (d\<lparr>db_funding := patchWhere (\<lambda>f. fundingKey f = (cid, a)) (setAmount n) (db_funding d)\<rparr>)"
    by (simp add: updateFunding_def)
  moreover have "getFundingAmount (d\<lparr>db_funding := patchWhere (\<lambda>f. fundingKey f = (cid, a)) (setAmount n)
      (db_funding d)\<rparr>) cid a = n"
    using Some by (simp add: getFundingAmount_def findFunding_def amounts.select_patch_same setAmount_def)
  ultimately show ?thesis by simp
qed

lemma updateFunding_others:
  assumes "updateFunding cid n a d = Inr d'" and "a' \<noteq> a"
  shows "getFundingAmount d' cid a' = getFundingAmount d cid a'"
proof (cases "findFunding d cid a")
  case None
  with assms show ?thesis
    by (auto simp: updateFunding_def bindE_eq_Inr insertUnique_eq getFundingAmount_def findFunding_def
      selectFirst_def find_append fundingKey_def split: option.splits)
next
  case (Some f)
  with assms show ?thesis
    by (auto simp: updateFunding_def getFundingAmount_def findFunding_def amounts.select_patch_other)
qed

lemma storeHoldings_runs:
  assumes "holdingReports cid xs" and "hasChannel d cid"
  shows "\<exists>d'. foldE storeHolding d xs = Inr d' \<and> hasChannel d' cid \<and>
     ((\<forall>x \<in> set xs. fst x \<noteq> a) \<longrightarrow> getFundingAmount d' cid a = getFundingAmount d cid a)"
  using assms
proof (induction xs arbitrary: d)
  case (Cons x xs)
  from Cons.prems(1) obtain h where h: "snd (snd x) = HoldingUpdated h" "fst x = hu_asset h" "hu_channelId h = cid"
    by (auto simp: holdingReports_def)
  from updateFunding_stores [OF Cons.prems(2), of "hu_amount h" "hu_asset h"] obtain d1 where
    d1: "updateFunding cid (hu_amount h) (hu_asset h) d = Inr d1" "db_channels d1 = db_channels d" by blast
  have step: "storeHolding d x = Inr d1" by (simp add: storeHolding_def h d1(1))
  have "hasChannel d1 cid" using Cons.prems(2) d1(2) by (simp add: hasChannel_def)
  with Cons.IH [of d1] Cons.prems(1) obtain d2 where
    "foldE storeHolding d1 xs = Inr d2" "hasChannel d2 cid"
    "(\<forall>x \<in> set xs. fst x \<noteq> a) \<longrightarrow> getFundingAmount d2 cid a = getFundingAmount d1 cid a"
    by (auto simp: holdingReports_def)
  moreover have "fst x \<noteq> a \<longrightarrow> getFundingAmount d1 cid a = getFundingAmount d cid a"
    using updateFunding_others [OF d1(1)] by (auto simp: h(2))
  ultimately show ?case by (simp add: step)
qed simp

lemma sorted_last_only:
  assumes "sorted_wrt earlier (positionsIn q (xs @ (q, p, e) # ys))"
    and "\<forall>x \<in> set ys. fst x = q \<longrightarrow> \<not> earlier p (fst (snd x))"
  shows "\<forall>x \<in> set ys. fst x \<noteq> q"
proof
  fix x assume x: "x \<in> set ys"
  show "fst x \<noteq> q"
  proof
    assume q: "fst x = q"
    with x have "fst (snd x) \<in> set (positionsIn q ys)" by (auto simp: positionsIn_def)
    with assms(1) have "earlier p (fst (snd x))" by (auto simp: sorted_wrt_append)
    with assms(2) x q show False by blast
  qed
qed

text \<open>
  C23: the tracker and the table of funding refine the chain. From any reports of a channel's
  holdings, in any order and with any repetitions, the amount stored in the end for an asset is the
  one of the latest report, provided a position on the chain names one event.
\<close>

theorem latest_holding_is_stored:
  assumes "holdingReports cid es" and "hasChannel d cid"
    and "(hu_asset a, p, HoldingUpdated a) \<in> set es"
    and "\<forall>x \<in> set es. fst x = hu_asset a \<longrightarrow> earlier (fst (snd x)) p \<or> x = (hu_asset a, p, HoldingUpdated a)"
  shows "\<exists>d'. foldE storeHolding d (deliveries (newTracker sub) es) = Inr d' \<and>
     getFundingAmount d' cid (hu_asset a) = hu_amount a"
proof -
  let ?ds = "deliveries (newTracker sub) es" and ?q = "hu_asset a"
  have sub: "set ?ds \<subseteq> set es" by (rule deliveries_sub)
  have "p \<in> set (positionsIn ?q es)" using assms(3) by (force simp: positionsIn_def)
  from deliveries_cover [OF this, of "newTracker sub"] obtain r where
    r: "r \<in> set (positionsIn ?q ?ds)" "\<not> earlier r p" by (auto simp: recordBefore_def newTracker_def)
  from r(1) obtain x where x: "x \<in> set ?ds" "fst x = ?q" "fst (snd x) = r" by (auto simp: positionsIn_def)
  with assms(4) sub r(2) have "x = (?q, p, HoldingUpdated a)" by blast
  with x(1) obtain xs ys where ds: "?ds = xs @ (?q, p, HoldingUpdated a) # ys" by (metis split_list)
  have rest: "\<forall>x \<in> set ys. fst x \<noteq> ?q"
  proof (rule sorted_last_only)
    show "sorted_wrt earlier (positionsIn ?q (xs @ (?q, p, HoldingUpdated a) # ys))"
      using deliveries_sorted [of ?q "newTracker sub" es] by (simp only: ds)
    show "\<forall>x \<in> set ys. fst x = ?q \<longrightarrow> \<not> earlier p (fst (snd x))"
    proof (intro ballI impI notI)
      fix x assume "x \<in> set ys" "fst x = ?q" "earlier p (fst (snd x))"
      moreover from this sub have "earlier (fst (snd x)) p \<or> x = (?q, p, HoldingUpdated a)"
        using assms(4) ds by auto
      ultimately show False by (auto simp: earlier_def)
    qed
  qed
  have reports: "holdingReports cid ?ds" using assms(1) sub by (auto simp: holdingReports_def)
  then have cid: "hu_channelId a = cid" by (auto simp: ds holdingReports_def)
  from reports have rx: "holdingReports cid xs" and ry: "holdingReports cid ys" by (auto simp: ds holdingReports_def)
  from storeHoldings_runs [OF rx assms(2)] obtain d1 where
    d1: "foldE storeHolding d xs = Inr d1" "hasChannel d1 cid" by blast
  from updateFunding_stores [OF d1(2), of "hu_amount a" ?q] obtain d2 where
    d2: "updateFunding cid (hu_amount a) ?q d1 = Inr d2" "getFundingAmount d2 cid ?q = hu_amount a"
      "db_channels d2 = db_channels d1" by blast
  from d1(2) d2(3) have "hasChannel d2 cid" by (simp add: hasChannel_def)
  from storeHoldings_runs [OF ry this, of ?q] rest obtain d3 where
    d3: "foldE storeHolding d2 ys = Inr d3" "getFundingAmount d3 cid ?q = getFundingAmount d2 cid ?q" by blast
  have "foldE storeHolding d ?ds = Inr d3"
    by (simp add: ds foldE_append d1(1) storeHolding_def cid d2(1) d3(1))
  with d3(2) d2(2) show ?thesis by simp
qed

definition sampleHolding :: "int \<Rightarrow> position \<Rightarrow> tracked" where
  "sampleHolding n p = (zeroAddress, p, HoldingUpdated
     \<lparr>hu_channelId = sampleDest CHR ''l'', hu_asset = zeroAddress, hu_amount = n\<rparr>)"

theorem latest_holding_is_stored_witness:
  "\<exists>d'. foldE storeHolding (sampleDb []) (deliveries (newTracker 0)
       [sampleHolding 5 (3, 1), sampleHolding 10 (4, 0), sampleHolding 5 (3, 1)]) = Inr d' \<and>
     getFundingAmount d' (sampleDest CHR ''l'') zeroAddress = 10"
proof -
  let ?a = "\<lparr>hu_channelId = sampleDest CHR ''l'', hu_asset = zeroAddress, hu_amount = 10\<rparr>"
  let ?es = "[sampleHolding 5 (3, 1), sampleHolding 10 (4, 0), sampleHolding 5 (3, 1)]"
  have "holdingReports (sampleDest CHR ''l'') ?es" by (simp add: holdingReports_def sampleHolding_def)
  moreover have "hasChannel (sampleDb []) (sampleDest CHR ''l'')"
    by (simp add: hasChannel_def sampleDb_def emptyDb_def sampleChannel_def)
  moreover have "(hu_asset ?a, (4, 0), HoldingUpdated ?a) \<in> set ?es" by (simp add: sampleHolding_def)
  moreover have "\<forall>x \<in> set ?es. fst x = hu_asset ?a \<longrightarrow>
      earlier (fst (snd x)) (4, 0) \<or> x = (hu_asset ?a, (4, 0), HoldingUpdated ?a)"
    by (simp add: sampleHolding_def earlier_def)
  ultimately show ?thesis using latest_holding_is_stored [of "sampleDest CHR ''l''" ?es "sampleDb []" ?a "(4, 0)" 0]
    by simp
qed

end
