(* ===== verification/WalletFacts.thy ===== *)
theory WalletFacts
  imports Wallet EngineSafety ChainServiceFacts
begin

text \<open>
  The wallet over its lifetime: on the database every run of the wallet is a run of the engine, the
  log of effects only grows, and what a promise of the application is settled with is final.
\<close>

section \<open>Calls that are runs of the engine\<close>

named_theorems engine_run \<open>calls of the wallet whose effect on the database is a run of the engine\<close>

text \<open>
  A call of the wallet refines runs of the engine: it takes the database along steps of the engine
  and only appends to the log.
\<close>

definition refines :: "platform \<Rightarrow> 'a wio \<Rightarrow> bool" where
  "refines P m \<longleftrightarrow> (\<forall>w w' r. m w = Some (w', r) \<longrightarrow>
     (dbStep P)\<^sup>*\<^sup>* (w_db (wl_world w)) (w_db (wl_world w')) \<and>
     (\<exists>es. wl_effects w' = wl_effects w @ es))"

lemma refinesI:
  assumes "\<And>w w' r. m w = Some (w', r) \<Longrightarrow> (dbStep P)\<^sup>*\<^sup>* (w_db (wl_world w)) (w_db (wl_world w')) \<and>
     (\<exists>es. wl_effects w' = wl_effects w @ es)"
  shows "refines P m"
  using assms by (simp add: refines_def)

lemma refines_trans:
  assumes "(dbStep P)\<^sup>*\<^sup>* (w_db (wl_world w)) (w_db (wl_world w1)) \<and> (\<exists>es. wl_effects w1 = wl_effects w @ es)"
    and "(dbStep P)\<^sup>*\<^sup>* (w_db (wl_world w1)) (w_db (wl_world w2)) \<and> (\<exists>es. wl_effects w2 = wl_effects w1 @ es)"
  shows "(dbStep P)\<^sup>*\<^sup>* (w_db (wl_world w)) (w_db (wl_world w2)) \<and> (\<exists>es. wl_effects w2 = wl_effects w @ es)"
  using assms by (auto intro: rtranclp_trans)

lemma refinesD:
  "refines P m \<Longrightarrow> m w = Some (w', r) \<Longrightarrow>
   (dbStep P)\<^sup>*\<^sup>* (w_db (wl_world w)) (w_db (wl_world w')) \<and> (\<exists>es. wl_effects w' = wl_effects w @ es)"
  by (simp add: refines_def)

lemma refines_return [engine_run]: "refines P (returnIO x)"
  by (rule refinesI) (simp add: returnIO_def)

lemma refines_lift [engine_run]: "refines P (liftTx r)"
  by (rule refinesI) (simp add: liftTx_def)

lemma refines_bind [engine_run]:
  assumes "refines P m" and "\<And>x. refines P (f x)"
  shows "refines P (bindIO m f)"
proof (rule refinesI)
  fix w w' r assume "bindIO m f w = Some (w', r)"
  then obtain w1 x where m: "m w = Some (w1, x)" and
    "(case x of Inl e \<Rightarrow> w' = w1 | Inr y \<Rightarrow> f y w1 = Some (w', r))"
    by (auto simp: bindIO_def split: option.splits sum.splits)
  then consider "w' = w1" | y where "f y w1 = Some (w', r)" by (cases x) auto
  then show "(dbStep P)\<^sup>*\<^sup>* (w_db (wl_world w)) (w_db (wl_world w')) \<and> (\<exists>es. wl_effects w' = wl_effects w @ es)"
  proof cases
    case 1 with refinesD [OF assms(1) m] show ?thesis by simp
  next
    case 2 with refines_trans [OF refinesD [OF assms(1) m] refinesD [OF assms(2) 2]] show ?thesis by simp
  qed
qed

lemma refines_fold: "(\<And>s x. refines P (f s x)) \<Longrightarrow> refines P (foldIO f s xs)"
  by (induction xs arbitrary: s) (auto intro: engine_run)

lemma refines_for [engine_run]: "(\<And>x. refines P (f x)) \<Longrightarrow> refines P (forIO xs f)"
  unfolding forIO_def by (rule refines_fold)

lemma refines_all [engine_run]:
  assumes "\<And>x. refines P (f x)"
  shows "refines P (allIO f xs)"
proof (induction xs)
  case (Cons x xs)
  show ?case
  proof (rule refinesI)
    fix w w' r assume "allIO f (x # xs) w = Some (w', r)"
    then obtain w1 y rs where "f x w = Some (w1, y)" "allIO f xs w1 = Some (w', rs)"
      by (auto split: option.splits)
    from refines_trans [OF refinesD [OF assms this(1)] refinesD [OF Cons this(2)]]
    show "(dbStep P)\<^sup>*\<^sup>* (w_db (wl_world w)) (w_db (wl_world w')) \<and> (\<exists>es. wl_effects w' = wl_effects w @ es)" .
  qed
qed (simp add: refines_return)

lemma refines_recover [engine_run]: "refines P m \<Longrightarrow> refines P (recoverIO m f)"
  by (rule refinesI) (auto simp: recoverIO_def dest: refinesD split: option.splits sum.splits)

lemma refines_emit [engine_run]: "refines P (emit e)" "refines P (emitAll es)"
  by (rule refinesI; simp add: emit_def emitAll_def)+

lemma refines_send [engine_run]: "refines P (sendMessages W ms)"
  by (rule refinesI) (auto simp: sendMessages_def emit_def split: option.splits)

lemma refines_submit [engine_run]: "refines P (submitRequests W rs)"
  by (rule refinesI) (auto simp: submitRequests_def Let_def split: option.splits)

lemma refines_done [engine_run]: "refines P (createObjectiveDoneResult oid)"
  by (rule refinesI) (simp add: createObjectiveDoneResult_def)

lemma refines_registerOne [engine_run]: "refines P (registerOne W x)"
  by (rule refinesI) (auto simp: registerOne_def split: prod.splits)

lemma refines_onChain [engine_run]: "refines P (onChain f)"
  by (rule refinesI) (auto simp: onChain_def split: prod.splits)

text \<open>A call of the engine: one of its steps, or one that only reads.\<close>

lemma refines_engine:
  assumes "\<And>d r w x. m \<lparr>w_db = d, w_out = r\<rparr> = Some (w, x) \<Longrightarrow> (dbStep P)\<^sup>*\<^sup>* d (w_db w)"
  shows "refines P (onEngine m)"
proof (rule refinesI)
  fix w w' r assume "onEngine m w = Some (w', r)"
  then obtain v where v: "m (wl_world w) = Some (v, r)" "w' = w\<lparr>wl_world := v\<rparr>"
    by (auto simp: onEngine_def split: option.splits)
  have "wl_world w = \<lparr>w_db = w_db (wl_world w), w_out = w_out (wl_world w)\<rparr>" by simp
  with v(1) assms [of "w_db (wl_world w)" "w_out (wl_world w)" v r] show
    "(dbStep P)\<^sup>*\<^sup>* (w_db (wl_world w)) (w_db (wl_world w')) \<and> (\<exists>es. wl_effects w' = wl_effects w @ es)"
    by (simp add: v(2))
qed

lemma refines_read [engine_run]: "refines P (onEngine (readDb f))"
  by (rule refines_engine) (auto simp: readDb_def)

lemma refines_calls [engine_run]:
  assumes "se_platform E = P"
  shows "refines P (onEngine (createLedgerChannel E a st))"
    and "refines P (onEngine (engineCreateChannel E a))"
    and "refines P (onEngine (approveObjectives E oids))"
    and "refines P (onEngine (crankChannels E cids))"
    and "refines P (onEngine (updateChannel E cid al da))"
    and "refines P (onEngine (closeChannel E cid))"
    and "refines P (onEngine (pushMessage E m))"
    and "refines P (onEngine (syncObjectives E oids))"
proof -
  show "refines P (onEngine (createLedgerChannel E a st))"
    by (rule refines_engine, rule r_into_rtranclp, erule dbStep.createLedger [OF assms])
  show "refines P (onEngine (engineCreateChannel E a))"
    by (rule refines_engine, rule r_into_rtranclp, erule dbStep.create [OF assms])
  show "refines P (onEngine (approveObjectives E oids))"
    by (rule refines_engine, rule r_into_rtranclp, erule dbStep.approve [OF assms])
  show "refines P (onEngine (crankChannels E cids))"
    by (rule refines_engine, rule r_into_rtranclp, erule dbStep.crank [OF assms])
  show "refines P (onEngine (updateChannel E cid al da))"
    by (rule refines_engine, rule r_into_rtranclp, erule dbStep.update [OF assms])
  show "refines P (onEngine (closeChannel E cid))"
    by (rule refines_engine, rule r_into_rtranclp, erule dbStep.close [OF assms])
  show "refines P (onEngine (pushMessage E m))"
    by (rule refines_engine, rule r_into_rtranclp, erule dbStep.push [OF assms])
  show "refines P (onEngine (syncObjectives E oids))"
    by (rule refines_engine, rule r_into_rtranclp, erule dbStep.sync [OF assms])
qed

lemma refines_transaction:
  assumes "\<And>d r x w. f \<lparr>w_db = d, w_out = r\<rparr> = Inr (x, w) \<Longrightarrow> (dbStep P)\<^sup>*\<^sup>* d (w_db w)"
  shows "refines P (onEngine (transaction f))"
  by (rule refines_engine) (auto simp: transaction_def intro: assms split: sum.splits)

lemma refines_dbUpdate:
  assumes "\<And>d d'. f d = Inr d' \<Longrightarrow> dbStep P d d'"
  shows "refines P (dbUpdate f)"
  unfolding dbUpdate_def transactionU_def
  by (rule refines_transaction) (auto simp: bindE_eq_Inr intro!: r_into_rtranclp intro: assms)

lemma refines_progress [engine_run]:
  "refines P (onEngine (dbTransaction (updateObjectiveProgressDate E oids)))"
  unfolding dbTransaction_def
  by (rule refines_transaction) (auto simp: onDb_def bindE_eq_Inr intro!: r_into_rtranclp intro: dbStep.progress)

lemma refines_bytecode [engine_run]:
  "refines P (onEngine (transactionU (\<lambda>w. bindE (registerAppBytecode E app b (w_db w)) (\<lambda>d. Inr (w\<lparr>w_db := d\<rparr>)))))"
  unfolding transactionU_def
  by (rule refines_transaction) (auto simp: bindE_eq_Inr intro!: r_into_rtranclp intro: dbStep.bytecode)

lemma refines_writes [engine_run]:
  "refines P (dbUpdate (updateFunding cid n a))"
  "refines P (dbUpdate (storeUpdateTransferredOut cid a ts n))"
  "refines P (dbUpdate (markAdjudicatorStatusAsFinalized cid b t f))"
  "refines P (dbUpdate (\<lambda>d. bindE (insertAdjudicatorStatus cid f ss d) (\<lambda>(_, d1). Inr d1)))"
  by (rule refines_dbUpdate; auto simp: bindE_eq_Inr intro: dbStep.holding dbStep.payout dbStep.finalized
      dbStep.challenged)+

lemma refines_unawaited [engine_run]:
  assumes "refines P m" and "refines P rest"
  shows "refines P (unawaited late m rest)"
proof (cases late)
  case True
  show ?thesis
  proof (rule refinesI)
    fix w w' r assume "unawaited late m rest w = Some (w', r)"
    with True obtain w1 r2 where "rest w = Some (w1, r)" "lost m w1 = Some (w', r2)"
      by (auto simp: unawaited_def split: option.splits)
    moreover have "refines P (lost m)" unfolding lost_def using assms(1) by (rule refines_recover)
    ultimately show "(dbStep P)\<^sup>*\<^sup>* (w_db (wl_world w)) (w_db (wl_world w')) \<and> (\<exists>es. wl_effects w' = wl_effects w @ es)"
      by (intro refines_trans [OF refinesD [OF assms(2)] refinesD])
  qed
next
  case False
  then have "unawaited late m rest = bindIO (lost m) (\<lambda>_. rest)" by (simp add: unawaited_def fun_eq_iff)
  then show ?thesis unfolding lost_def using assms by (auto intro: engine_run)
qed

section \<open>The calls of the wallet\<close>

lemma refines_output [engine_run]: "refines P (handleEngineOutput W r)"
  unfolding handleEngineOutput_def emitEvents_def by (intro engine_run)

lemma refines_register [engine_run]: "refines P (registerChannels W crs)"
  unfolding registerChannels_def by (intro engine_run)

lemma refines_announce [engine_run]: "refines P (announceChannel W r)"
  unfolding announceChannel_def by (intro engine_run)

lemma refines_resultFor [engine_run]: "refines P (resultFor m)"
  unfolding resultFor_def by (intro engine_run)

lemma refines_crankAndHandle [engine_run]: "we_platform W = P \<Longrightarrow> refines P (crankAndHandle W cid)"
  unfolding crankAndHandle_def by (intro engine_run)

lemma refines_listener [engine_run]: "we_platform W = P \<Longrightarrow> refines P (chainEventListener W n)"
  unfolding chainEventListener_def Let_def
  by (cases "snd n"; simp; intro engine_run; assumption)

section \<open>The runs of the wallet\<close>

text \<open>
  What can happen to a wallet: the calls of the application, the timer, messages, the callbacks of
  the chain service and the handling of what they report. The environment may be another at every
  step (it holds the clock and the answers of the provider), the platform may not.
\<close>

inductive walletStep :: "platform \<Rightarrow> wallet \<Rightarrow> wallet \<Rightarrow> bool" for P where
  registerApp: "we_platform W = P \<Longrightarrow> registerAppDefinition W gc app w = Some (w', x1) \<Longrightarrow> walletStep P w w'"
| registerExisting: "we_platform W = P \<Longrightarrow> registerExistingChannelsWithChainService W w = Some (w', x1) \<Longrightarrow> walletStep P w w'"
| createLedger: "we_platform W = P \<Longrightarrow> walletCreateLedgerChannel W a st w = Some (w', x2) \<Longrightarrow> walletStep P w w'"
| create: "we_platform W = P \<Longrightarrow> walletCreateChannels W as w = Some (w', x3) \<Longrightarrow> walletStep P w w'"
| approve: "we_platform W = P \<Longrightarrow> walletApproveObjectives W oids w = Some (w', x3) \<Longrightarrow> walletStep P w w'"
| update: "we_platform W = P \<Longrightarrow> walletUpdateChannel W cid al da w = Some (w', x4) \<Longrightarrow> walletStep P w w'"
| close: "we_platform W = P \<Longrightarrow> walletCloseChannels W cids w = Some (w', x3) \<Longrightarrow> walletStep P w w'"
| sync: "we_platform W = P \<Longrightarrow> walletSyncObjectives W w = Some (w', x1) \<Longrightarrow> walletStep P w w'"
| jumpStart: "we_platform W = P \<Longrightarrow> jumpStartObjectives W w = Some (w', x3) \<Longrightarrow> walletStep P w w'"
| message: "we_platform W = P \<Longrightarrow> handleIncomingMessage W m w = Some (w', x1) \<Longrightarrow> walletStep P w w'"
| chain: "onChain f w = Some (w', x1) \<Longrightarrow> walletStep P w w'"
| notice: "we_platform W = P \<Longrightarrow> handleNextNotice W w = Some (w', x1) \<Longrightarrow> walletStep P w w'"

lemma refines_wallet_calls:
  assumes "we_platform W = P"
  shows "refines P (registerAppDefinition W gc app)"
    and "refines P (registerExistingChannelsWithChainService W)"
    and "refines P (walletCreateLedgerChannel W a st)"
    and "refines P (walletCreateChannels W as)"
    and "refines P (walletApproveObjectives W oids)"
    and "refines P (walletUpdateChannel W cid al da)"
    and "refines P (walletCloseChannels W cids)"
    and "refines P (walletSyncObjectives W)"
    and "refines P (jumpStartObjectives W)"
    and "refines P (handleIncomingMessage W m)"
  unfolding registerAppDefinition_def registerExistingChannelsWithChainService_def
    walletCreateLedgerChannel_def walletCreateChannels_def walletApproveObjectives_def
    walletUpdateChannel_def walletCloseChannels_def walletCloseChannel_def walletSyncObjectives_def
    jumpStartObjectives_def handleIncomingMessage_def Let_def
  by (intro engine_run assms)+

lemma refines_notice:
  assumes "we_platform W = P"
  shows "refines P (handleNextNotice W)"
proof (rule refinesI)
  fix w w' r assume h: "handleNextNotice W w = Some (w', r)"
  show "(dbStep P)\<^sup>*\<^sup>* (w_db (wl_world w)) (w_db (wl_world w')) \<and> (\<exists>es. wl_effects w' = wl_effects w @ es)"
  proof (cases "wl_notices w")
    case (Cons n ns)
    with h have "chainEventListener W n (w\<lparr>wl_notices := ns\<rparr>) = Some (w', r)" by (simp add: handleNextNotice_def)
    from refinesD [OF refines_listener [OF assms] this] show ?thesis by simp
  qed (use h in \<open>simp add: handleNextNotice_def\<close>)
qed

lemma walletStep_refines:
  assumes "walletStep P w w'"
  shows "(dbStep P)\<^sup>*\<^sup>* (w_db (wl_world w)) (w_db (wl_world w')) \<and> (\<exists>es. wl_effects w' = wl_effects w @ es)"
  using assms
proof cases
  case registerApp from refinesD [OF refines_wallet_calls(1) [OF this(1)] this(2)] show ?thesis .
next
  case registerExisting from refinesD [OF refines_wallet_calls(2) [OF this(1)] this(2)] show ?thesis .
next
  case createLedger from refinesD [OF refines_wallet_calls(3) [OF this(1)] this(2)] show ?thesis .
next
  case create from refinesD [OF refines_wallet_calls(4) [OF this(1)] this(2)] show ?thesis .
next
  case approve from refinesD [OF refines_wallet_calls(5) [OF this(1)] this(2)] show ?thesis .
next
  case update from refinesD [OF refines_wallet_calls(6) [OF this(1)] this(2)] show ?thesis .
next
  case close from refinesD [OF refines_wallet_calls(7) [OF this(1)] this(2)] show ?thesis .
next
  case sync from refinesD [OF refines_wallet_calls(8) [OF this(1)] this(2)] show ?thesis .
next
  case jumpStart from refinesD [OF refines_wallet_calls(9) [OF this(1)] this(2)] show ?thesis .
next
  case message from refinesD [OF refines_wallet_calls(10) [OF this(1)] this(2)] show ?thesis .
next
  case chain from refinesD [OF refines_onChain this] show ?thesis .
next
  case notice from refinesD [OF refines_notice [OF this(1)] this(2)] show ?thesis .
qed

lemma wallet_run:
  "(walletStep P)\<^sup>*\<^sup>* w w' \<Longrightarrow>
   (dbStep P)\<^sup>*\<^sup>* (w_db (wl_world w)) (w_db (wl_world w')) \<and> (\<exists>es. wl_effects w' = wl_effects w @ es)"
proof (induction rule: rtranclp_induct)
  case (step y z)
  from refines_trans [OF step.IH walletStep_refines [OF step.hyps(2)]] show ?case .
qed simp

end
