(* ===== verification/WalletFixtures.thy ===== *)
theory WalletFixtures
  imports Wallet EngineFixtures
begin

text \<open>
  A concrete provider, environment and wallet for the witnesses about the wallet. They model no code.
\<close>

definition extDest :: "char \<Rightarrow> bytes32" where
  "extDest c = ''0x'' @ replicate 24 (CHR ''0'') @ replicate 40 c"

text \<open>A state of the sample channel that divides its ten coins between two external destinations.\<close>

definition closingVars :: "int \<Rightarrow> bool \<Rightarrow> address list \<Rightarrow> signed_vars" where
  "closingVars n final signers = (sampleVars n signers)\<lparr>
     v_outcome := SimpleAllocation \<lparr>asset = zeroAddress, allocationItems =
       [\<lparr>item_destination = extDest CHR ''a'', amount = 5\<rparr>,
        \<lparr>item_destination = extDest CHR ''b'', amount = 5\<rparr>]\<rparr>,
     v_isFinal := final\<rparr>"

text \<open>Alice's database when Bob has signed a final state on top of her latest state.\<close>

definition closingDb :: db where
  "closingDb = (sampleDb [])\<lparr>db_channels :=
     [(sampleChannel [closingVars 5 True [''0xB''], closingVars 4 False [''0xA'']])\<lparr>
        ch_fundingStrategy := Fake\<rparr>]\<rparr>"

definition sampleProvider :: chain_provider where
  "sampleProvider = \<lparr>cp_refuses = (\<lambda>_ _. None), cp_allowance = (\<lambda>_ _. 0), cp_finalizedRevert = (\<lambda>_. False),
     cp_finalizesAt = (\<lambda>_. 0), cp_latestTimestamp = 0\<rparr>"

definition sampleView :: chain_view where
  "sampleView = \<lparr>cv_computeNewOutcome = (\<lambda>_ _ _ _. None), cv_currentBlock = 10, cv_holdings = (\<lambda>_ _ _. Some 0),
     cv_logsFrom = (\<lambda>_. []), cv_sorted = (\<lambda>es. es), cv_finalizesAt = (\<lambda>_. 0)\<rparr>"

definition sampleWalletEnv :: wallet_env where
  "sampleWalletEnv = \<lparr>we_store = sampleEnv\<lparr>se_skipEvm := True\<rparr>, we_abi = sampleAbi,
     we_provider = sampleProvider, we_view = sampleView, we_allowanceMode = MaxUint,
     we_blockConfirmations = 5, we_sendFails = (\<lambda>_ _. None), we_late = (\<lambda>_. False),
     we_staleThreshold = 100, we_timeOutThreshold = 1000\<rparr>"

definition walletOf :: "db \<Rightarrow> wallet" where
  "walletOf d = \<lparr>wl_world = worldOf d, wl_chain = initChainService, wl_effects = [], wl_notices = []\<rparr>"

text \<open>An approved objective that has made no progress for long.\<close>

definition timedOutDb :: db where
  "timedOutDb = openingDb 0 [sampleVars 0 [''0xA'']]"

definition sampleClosing :: "(wallet \<times> (error + objective_result list)) option" where
  "sampleClosing = walletCloseChannels sampleWalletEnv [sampleDest CHR ''l''] (walletOf closingDb)"

end
