(* ===== verification/BrowserEntry.thy ===== *)
theory BrowserEntry
  imports ChannelStates DirectFunder
begin

text \<open>
  The class \<open>ChannelStoreEntry\<close> of \<open>packages/browser-wallet/src/store/channel-store-entry.ts\<close>: a
  channel of the browser wallet with its stored states, and \<open>utils/wallet-core-v0.8.0.ts\<close>.

  The constructor keeps the array of the stored data it is given, so an entry and the backend it was
  read from share that array and the objects in it until \<open>clearOldStates\<close> puts a sorted copy in the
  entry's field. The model keeps the objects in a list and the two arrays as lists of indices.

  A stored row is the spread of the channel's constants and the row's own fields. Rows added with a
  whole state carry the constants of that state, and those win. The outcome of a row is an object too,
  which several rows may share and which \<open>_.merge\<close> changes in place: a row carries a reference, and rows
  with the same reference hold the same object. Different outcome objects are taken to share no parts.
\<close>

section \<open>Data\<close>

record stored_state = signed_state_with_hash +
  outcomeRef :: nat

record stored_channel =
  csd_vars :: "stored_state list"
  csd_constants :: channel_constants
  csd_funding :: "funding_kind option"
  csd_applicationDomain :: "string option"
  csd_myIndex :: int

record store_entry =
  ce_constants :: channel_constants
  ce_funding :: "funding_kind option"
  ce_applicationDomain :: "string option"
  ce_myIndex :: int
  ce_objects :: "stored_state list"
  ce_own :: "nat list"
  ce_shared :: "nat list"
  ce_detached :: bool

definition newEntry :: "stored_channel \<Rightarrow> store_entry" where
  "newEntry d =
     \<lparr>ce_constants = csd_constants d, ce_funding = csd_funding d,
      ce_applicationDomain = csd_applicationDomain d, ce_myIndex = csd_myIndex d,
      ce_objects = csd_vars d, ce_own = [0..<length (csd_vars d)], ce_shared = [0..<length (csd_vars d)],
      ce_detached = False\<rparr>"

definition ownStates :: "store_entry \<Rightarrow> stored_state list" where
  "ownStates e = map ((!) (ce_objects e)) (ce_own e)"

definition sharedStates :: "store_entry \<Rightarrow> stored_state list" where
  "sharedStates e = map ((!) (ce_objects e)) (ce_shared e)"

definition entryData :: "store_entry \<Rightarrow> stored_channel" where
  "entryData e =
     \<lparr>csd_vars = ownStates e, csd_constants = ce_constants e, csd_funding = ce_funding e,
      csd_applicationDomain = ce_applicationDomain e, csd_myIndex = ce_myIndex e\<rparr>"

section \<open>Reading\<close>

definition entryChannelId :: "platform \<Rightarrow> store_entry \<Rightarrow> bytes32" where
  "entryChannelId P e = calculateChannelId P (ce_constants e)"

definition entryParticipant :: "store_entry \<Rightarrow> participant result" where
  "entryParticipant e =
     (if ce_myIndex e < 0 then Inl TypeError
      else (case nthOpt (participants (ce_constants e)) (nat (ce_myIndex e)) of
              None \<Rightarrow> Inl TypeError | Some p \<Rightarrow> Inr p))"

definition entryAddress :: "store_entry \<Rightarrow> address result" where
  "entryAddress e = bindE (entryParticipant e) (\<lambda>p. Inr (signingAddress p))"

text \<open>\<open>validChain\<close>, a check of the parts of a transition that need no application.\<close>

definition validChain :: "nat \<Rightarrow> 'a state_scheme \<Rightarrow> 'b state_scheme \<Rightarrow> bool" where
  "validChain n firstState' secondState =
     (if turnNum firstState' + 1 \<noteq> turnNum secondState then False
      else if isFinal secondState then outcomesEqual (outcome firstState') (Some (outcome secondState))
      else if turnNum secondState < 2 * int n
      then outcomesEqual (outcome firstState') (Some (outcome secondState)) \<and>
           appData firstState' = appData secondState
      else True)"

fun entrySupportLoop ::
  "participant list \<Rightarrow> stored_state list \<Rightarrow> address list \<Rightarrow> stored_state option \<Rightarrow>
   stored_state list \<Rightarrow> stored_state list"
where
  "entrySupportLoop ps supp notSigned previous [] = []"
| "entrySupportLoop ps supp notSigned previous (s # rest) =
     (let broken = (case previous of None \<Rightarrow> False | Some p \<Rightarrow> \<not> validChain (length ps) s p);
          supp1 = (if broken then [] else supp);
          notSigned1 = (if broken then map signingAddress ps else notSigned)
      in if moverSigned ps s then
           (let notSigned2 = filter (\<lambda>a. a \<notin> signer ` set (signatures s)) notSigned1
            in if notSigned2 = [] then supp1 @ [s]
               else entrySupportLoop ps (supp1 @ [s]) notSigned2 (Some s) rest)
         else entrySupportLoop ps supp1 notSigned1 (Some s) rest)"

definition supportIn :: "channel_constants \<Rightarrow> stored_state list \<Rightarrow> stored_state list" where
  "supportIn c ss =
     entrySupportLoop (participants c) [] (map signingAddress (participants c)) None ss"

definition entrySupport :: "store_entry \<Rightarrow> stored_state list" where
  "entrySupport e = supportIn (ce_constants e) (ownStates e)"

definition entryIsSupported :: "store_entry \<Rightarrow> bool" where
  "entryIsSupported e \<longleftrightarrow> entrySupport e \<noteq> []"

definition entrySupported :: "store_entry \<Rightarrow> stored_state result" where
  "entrySupported e =
     (case entrySupport e of [] \<Rightarrow> Inl (Error ''No supported state found'') | s # _ \<Rightarrow> Inr s)"

definition entryHasConclusionProof :: "store_entry \<Rightarrow> bool" where
  "entryHasConclusionProof e \<longleftrightarrow> entryIsSupported e \<and> list_all isFinal (entrySupport e)"

definition entryMyTurn :: "store_entry \<Rightarrow> bool result" where
  "entryMyTurn e =
     bindE (entrySupported e) (\<lambda>s.
       Inr ((turnNum s + 1) mod int (length (participants (ce_constants e))) = ce_myIndex e))"

definition signedByAddr :: "address \<Rightarrow> stored_state \<Rightarrow> bool" where
  "signedByAddr a s \<longleftrightarrow> list_ex (\<lambda>g. signer g = a) (signatures s)"

definition entrySignedByMe :: "store_entry \<Rightarrow> stored_state list result" where
  "entrySignedByMe e =
     (if list_all (\<lambda>s. signatures s = []) (ownStates e) then Inr []
      else bindE (entryAddress e) (\<lambda>me. Inr (filter (signedByAddr me) (ownStates e))))"

definition entryLatestSignedByMe :: "store_entry \<Rightarrow> stored_state option result" where
  "entryLatestSignedByMe e =
     bindE (entrySignedByMe e) (\<lambda>ss. Inr (case ss of [] \<Rightarrow> None | s # _ \<Rightarrow> Some s))"

definition latestSignedByMeOrThrow :: "store_entry \<Rightarrow> stored_state result" where
  "latestSignedByMeOrThrow e =
     bindE (entryLatestSignedByMe e) (\<lambda>m. case m of
       None \<Rightarrow> Inl (Error ''No state supported by me'') | Some s \<Rightarrow> Inr s)"

text \<open>With no state at all \<open>latest\<close> is the constants alone.\<close>

definition entryLatest :: "store_entry \<Rightarrow> stored_state option" where
  "entryLatest e = (case ownStates e of [] \<Rightarrow> None | s # _ \<Rightarrow> Some s)"

section \<open>Adding a state\<close>

text \<open>Giving the array of the field an order of its own and cutting what is older than the support.\<close>

definition clearOldEntries :: "store_entry \<Rightarrow> store_entry" where
  "clearOldEntries e =
     (let sorted' = rev (sort_key (\<lambda>i. turnNum (ce_objects e ! i)) (ce_own e));
          e1 = e\<lparr>ce_own := sorted', ce_detached := True\<rparr>
      in case entrySupport e1 of
           [] \<Rightarrow> e1
         | s # ss \<Rightarrow>
             e1\<lparr>ce_own := take (nat (findIndex (\<lambda>i. stateHash (ce_objects e ! i) =
                             stateHash (last (s # ss))) sorted' + 1)) sorted'\<rparr>)"

definition checkEntryInvariants :: "store_entry \<Rightarrow> unit result" where
  "checkEntryInvariants e =
     bindE (entrySignedByMe e) (\<lambda>mine.
       let turnNums = map turnNum (ownStates e) in
       if list_ex (\<lambda>(_, g). length g > 1) (groupBy turnNum mine)
       then Inl (Error ''Store signed multiple states for a single turn'')
       else if list_ex (\<lambda>i. findIndex (\<lambda>t. t = turnNums ! i) turnNums \<noteq> int i) [0..<length turnNums]
       then Inl (Error ''multiple states with same turn number'')
       else if \<not> isReverseSorted turnNums then Inl (Error ''states not sorted'')
       else Inr ())"

definition freshRef :: "stored_state list \<Rightarrow> nat" where
  "freshRef ss = foldr (\<lambda>s n. max (outcomeRef s + 1) n) ss 0"

definition pushEntry :: "stored_state \<Rightarrow> store_entry \<Rightarrow> nat \<times> store_entry" where
  "pushEntry s e =
     (let i = length (ce_objects e) in
      (i, e\<lparr>ce_objects := ce_objects e @ [s], ce_own := ce_own e @ [i],
            ce_shared := (if ce_detached e then ce_shared e else ce_shared e @ [i])\<rparr>))"

definition hashedWith :: "bytes32 \<Rightarrow> nat \<Rightarrow> 'a state_scheme \<Rightarrow> stored_state" where
  "hashedWith h ref s =
     \<lparr>chainId = chainId s, participants = participants s, channelNonce = channelNonce s,
      appDefinition = appDefinition s, challengeDuration = challengeDuration s,
      outcome = outcome s, turnNum = turnNum s, appData = appData s, isFinal = isFinal s,
      signatures = [], stateHash = h, outcomeRef = ref\<rparr>"

text \<open>
  The result is the entry as the call leaves it, with what it returns or throws: a state by somebody
  who is no participant is refused after it was put into the array. The argument \<open>ref\<close> is the state's
  outcome object.
\<close>

definition entryAddState ::
  "platform \<Rightarrow> nat \<Rightarrow> 'a state_scheme \<Rightarrow> signature_entry \<Rightarrow> store_entry \<Rightarrow>
   store_entry \<times> stored_state result" where
  "entryAddState P ref s sig e =
     (case hashState P s of
        Inl err \<Rightarrow> (e, Inl err)
      | Inr h \<Rightarrow>
          (let (i, e1) = (case find (\<lambda>i. stateHash (ce_objects e ! i) = h) (ce_own e) of
                            Some i \<Rightarrow> (i, e)
                          | None \<Rightarrow> pushEntry (hashedWith h ref s) e)
           in if findIndex (\<lambda>p. signingAddress p = signer sig) (participants (ce_constants e)) = -1
              then (e1, Inl (Error ''State not signed by a participant of this channel''))
              else
                let row = ce_objects e1 ! i;
                    row' = row\<lparr>signatures := uniq (signatures row @ [sig])\<rparr>;
                    e2 = clearOldEntries (e1\<lparr>ce_objects := (ce_objects e1)[i := row']\<rparr>)
                in case checkEntryInvariants e2 of
                     Inl err \<Rightarrow> (e2, Inl err)
                   | Inr _ \<Rightarrow> (e2, Inr row')))"

definition createSignatureEntry :: "platform \<Rightarrow> 'a state_scheme \<Rightarrow> string \<Rightarrow> signature_entry result" where
  "createSignatureEntry P s key =
     bindE (toNitroState P s) (\<lambda>n.
     bindE (makeAddress (ethersLib P) (walletAddress P key)) (\<lambda>a.
       Inr \<lparr>signature = signNitroState P n key, signer = a\<rparr>))"

definition entryState :: "channel_constants \<Rightarrow> state_variables \<Rightarrow> state" where
  "entryState c v =
     \<lparr>chainId = chainId c, participants = participants c, channelNonce = channelNonce c,
      appDefinition = appDefinition c, challengeDuration = challengeDuration c,
      outcome = v_outcome v, turnNum = v_turnNum v, appData = v_appData v, isFinal = v_isFinal v\<rparr>"

definition signAndAdd ::
  "platform \<Rightarrow> nat \<Rightarrow> state_variables \<Rightarrow> string \<Rightarrow> store_entry \<Rightarrow> store_entry \<times> stored_state result" where
  "signAndAdd P ref v key e =
     (case entryLatestSignedByMe e of
        Inl err \<Rightarrow> (e, Inl err)
      | Inr mine \<Rightarrow>
          if (case mine of None \<Rightarrow> False | Some s \<Rightarrow> turnNum s \<ge> v_turnNum v)
          then (e, Inl (Error ''Attempting to sign a stale state''))
          else
            let s = entryState (ce_constants e) v in
            case createSignatureEntry P s key of
              Inl err \<Rightarrow> (e, Inl err)
            | Inr sig \<Rightarrow> entryAddState P ref s sig e)"

section \<open>What the application sees\<close>

text \<open>The status is that of the latest state, whoever signed it.\<close>

definition entryStatus :: "store_entry \<Rightarrow> stored_state \<Rightarrow> channel_status" where
  "entryStatus e s =
     (if turnNum s = 0 then Proposed
      else if turnNum s < 2 * int (length (participants (ce_constants e))) - 1 then Opening
      else if entryHasConclusionProof e then Closed
      else if entryIsSupported e \<and> (case entrySupport e of [] \<Rightarrow> False | t # _ \<Rightarrow> isFinal t) then Closing
      else Running)"

definition serializeChannelEntry :: "platform \<Rightarrow> store_entry \<Rightarrow> channel_result result" where
  "serializeChannelEntry P e =
     (case entryLatest e of
        None \<Rightarrow> Inl TypeError
      | Some s \<Rightarrow>
          if \<not> isAllocation (outcome s) then Inl (Error ''Can only send allocations to the app'')
          else bindE (serializeAllocation (outcome s)) (\<lambda>as.
            Inr \<lparr>cr_appData = appData s, cr_appDefinition = appDefinition (ce_constants e),
                 cr_channelId = entryChannelId P e, cr_participants = participants (ce_constants e),
                 cr_turnNum = turnNum s, cr_allocations = as,
                 cr_status = entryStatus e s, cr_fundingStatus = None,
                 cr_adjudicatorStatus = OpenMode\<rparr>))"

end
