(* ===== verification/BrowserStore.thy ===== *)
theory BrowserStore
  imports BrowserEntry "HOL-Library.AList"
begin

text \<open>
  The class \<open>Store\<close> of \<open>packages/browser-wallet/src/store/store.ts\<close> over the backend it has by default,
  \<open>MemoryBackend\<close> of \<open>store/memory-backend.ts\<close>. That backend hands out the objects it holds and its
  transactions neither lock nor undo anything: what a call did before it threw stays. Calls run one
  after the other; the locks of \<open>async-lock\<close> have no counterpart.
\<close>

section \<open>Budgets\<close>

text \<open>A record of the source whose keys are looked up or listed is an association list.\<close>

record asset_budget =
  ab_asset :: address
  ab_availableReceiveCapacity :: uint256
  ab_availableSendCapacity :: uint256
  ab_channels :: "(bytes32 \<times> uint256) list"

record domain_budget =
  bud_domain :: string
  bud_hubAddress :: address
  bud_forAsset :: "(address \<times> asset_budget) list"

section \<open>State\<close>

text \<open>What the store emits: its own events and those of its feeds.\<close>

datatype browser_event =
    ChannelUpdatedEvent stored_channel
  | AddToOutbox "signed_state list"
  | RichObjectiveFeed open_channel_objective
  | RichObjectiveEventFeed open_channel_event

record browser_store =
  bs_channels :: "(bytes32 \<times> stored_channel) list"
  bs_privateKeys :: "(address \<times> string) list"
  bs_nonces :: "string \<Rightarrow> int option"
  bs_ledgers :: "string \<Rightarrow> bytes32 option"
  bs_budgets :: "string \<Rightarrow> domain_budget option"
  bs_destinationAddress :: "string option"
  bs_objectives :: "objective list"
  bs_richObjectives :: "bytes32 \<Rightarrow> open_channel_objective option"
  bs_registered :: "bytes32 list"
  bs_events :: "browser_event list"

definition emptyStore :: browser_store where
  "emptyStore = \<lparr>bs_channels = [], bs_privateKeys = [], bs_nonces = (\<lambda>_. None), bs_ledgers = (\<lambda>_. None),
     bs_budgets = (\<lambda>_. None), bs_destinationAddress = None, bs_objectives = [],
     bs_richObjectives = (\<lambda>_. None), bs_registered = [], bs_events = []\<rparr>"

text \<open>The configuration, and whether the chain is connected to its contracts.\<close>

record browser_env =
  be_platform :: platform
  be_chainNetworkId :: string
  be_hubDestination :: bytes32
  be_randomKey :: string
  be_connected :: bool

section \<open>Calls of the store\<close>

type_synonym 'a bio = "browser_store \<Rightarrow> browser_store \<times> 'a result"

definition returnB :: "'a \<Rightarrow> 'a bio" where
  "returnB x s = (s, Inr x)"

definition throwB :: "error \<Rightarrow> 'a bio" where
  "throwB e s = (s, Inl e)"

definition bindB :: "'a bio \<Rightarrow> ('a \<Rightarrow> 'b bio) \<Rightarrow> 'b bio" where
  "bindB m f s = (case m s of (s1, Inl e) \<Rightarrow> (s1, Inl e) | (s1, Inr x) \<Rightarrow> f x s1)"

definition readB :: "(browser_store \<Rightarrow> 'a result) \<Rightarrow> 'a bio" where
  "readB f s = (s, f s)"

definition liftB :: "'a result \<Rightarrow> 'a bio" where
  "liftB r = readB (\<lambda>_. r)"

definition writeB :: "(browser_store \<Rightarrow> browser_store) \<Rightarrow> unit bio" where
  "writeB f s = (f s, Inr ())"

text \<open>\<open>Promise.all\<close>: every call is started; the first error is that of the whole.\<close>

fun allB :: "('a \<Rightarrow> 'b bio) \<Rightarrow> 'a list \<Rightarrow> 'b list bio" where
  "allB f [] s = (s, Inr [])"
| "allB f (x # xs) s =
     (case f x s of (s1, r) \<Rightarrow>
        (case allB f xs s1 of (s2, rs) \<Rightarrow> (s2, bindE r (\<lambda>y. bindE rs (\<lambda>ys. Inr (y # ys))))))"

text \<open>A promise nobody awaits: its error is lost.\<close>

definition ignoreB :: "'a bio \<Rightarrow> unit bio" where
  "ignoreB m s = (fst (m s), Inr ())"

section \<open>The backend\<close>

definition getChannel :: "browser_store \<Rightarrow> bytes32 \<Rightarrow> stored_channel option" where
  "getChannel s cid = map_of (bs_channels s) cid"

definition setChannel :: "bytes32 \<Rightarrow> stored_channel \<Rightarrow> browser_store \<Rightarrow> browser_store" where
  "setChannel cid d s = s\<lparr>bs_channels := AList.update cid d (bs_channels s)\<rparr>"

definition getNonce' :: "string \<Rightarrow> browser_store \<Rightarrow> int" where
  "getNonce' key s = (case bs_nonces s key of None \<Rightarrow> -1 | Some n \<Rightarrow> n)"

definition setPrivateKey :: "address \<Rightarrow> string \<Rightarrow> browser_store \<Rightarrow> browser_store" where
  "setPrivateKey a key s = s\<lparr>bs_privateKeys := AList.update a key (bs_privateKeys s)\<rparr>"

definition setBudget :: "string \<Rightarrow> domain_budget \<Rightarrow> browser_store \<Rightarrow> browser_store" where
  "setBudget domain b s = s\<lparr>bs_budgets := (bs_budgets s)(domain \<mapsto> b)\<rparr>"

text \<open>A clean slate leaves the destination address.\<close>

definition initializeBackend :: "bool \<Rightarrow> browser_store \<Rightarrow> browser_store" where
  "initializeBackend cleanSlate s =
     (if cleanSlate
      then s\<lparr>bs_channels := [], bs_nonces := (\<lambda>_. None), bs_privateKeys := [], bs_ledgers := (\<lambda>_. None),
             bs_budgets := (\<lambda>_. None)\<rparr>
      else s)"

section \<open>Keys, nonces and entries\<close>

definition storeAddress :: "browser_store \<Rightarrow> address option" where
  "storeAddress s = (case bs_privateKeys s of [] \<Rightarrow> None | (a, _) # _ \<Rightarrow> Some a)"

definition initializeStore :: "browser_env \<Rightarrow> string list \<Rightarrow> bool \<Rightarrow> browser_store \<Rightarrow> browser_store" where
  "initializeStore E keys cleanSlate s =
     (let s1 = initializeBackend cleanSlate s;
          keys' = (if keys = [] \<and> storeAddress s1 = None then [be_randomKey E] else keys)
      in foldl (\<lambda>s k. setPrivateKey (walletAddress (be_platform E) k) k s) s1 keys')"

definition getPrivateKey :: "address \<Rightarrow> browser_store \<Rightarrow> string result" where
  "getPrivateKey a s =
     (case map_of (bs_privateKeys s) a of
        None \<Rightarrow> Inl (Error ''Private key missing for your address'')
      | Some k \<Rightarrow> if k = [] then Inl (Error ''Private key missing for your address'') else Inr k)"

definition myIndexIn :: "address list \<Rightarrow> browser_store \<Rightarrow> int" where
  "myIndexIn addresses s = findIndex (\<lambda>a. \<not> isl (getPrivateKey a s)) addresses"

fun nonceKeyFromAddresses :: "address list \<Rightarrow> string" where
  "nonceKeyFromAddresses [] = []"
| "nonceKeyFromAddresses [a] = a"
| "nonceKeyFromAddresses (a # as) = a @ ''::'' @ nonceKeyFromAddresses as"

definition storeNonce :: "address list \<Rightarrow> browser_store \<Rightarrow> int" where
  "storeNonce addresses s = getNonce' (nonceKeyFromAddresses addresses) s"

definition setNonce :: "address list \<Rightarrow> int \<Rightarrow> unit bio" where
  "setNonce addresses v s =
     (if v \<le> storeNonce addresses s then (s, Inl (Error ''Invalid nonce''))
      else (s\<lparr>bs_nonces := (bs_nonces s)(nonceKeyFromAddresses addresses \<mapsto> v)\<rparr>, Inr ()))"

definition entryMissing :: error where
  "entryMissing = Error ''No channel found with id.''"

definition getEntry :: "bytes32 \<Rightarrow> store_entry bio" where
  "getEntry cid = readB (\<lambda>s. case getChannel s cid of None \<Rightarrow> Inl entryMissing | Some d \<Rightarrow> Inr (newEntry d))"

text \<open>
  A call on an entry read from the backend under a key: the rows it shares with the backend change
  there, also when the call throws.
\<close>

definition onEntry ::
  "bytes32 \<Rightarrow> (store_entry \<Rightarrow> store_entry \<times> 'a result) \<Rightarrow> store_entry \<Rightarrow> (store_entry \<times> 'a) bio" where
  "onEntry key f e s =
     (case f e of (e', r) \<Rightarrow>
        (case getChannel s key of
           None \<Rightarrow> s
         | Some d \<Rightarrow> setChannel key (d\<lparr>csd_vars := sharedStates e'\<rparr>) s,
         bindE r (\<lambda>x. Inr (e', x))))"

definition emitEvent :: "browser_event \<Rightarrow> unit bio" where
  "emitEvent ev = writeB (\<lambda>s. s\<lparr>bs_events := bs_events s @ [ev]\<rparr>)"

definition emitChannelUpdatedEventAfterTX :: "store_entry \<Rightarrow> stored_state option \<Rightarrow> store_entry bio" where
  "emitChannelUpdatedEventAfterTX e signed =
     bindB (emitEvent (ChannelUpdatedEvent (entryData e))) (\<lambda>_.
     bindB (case signed of None \<Rightarrow> returnB () | Some st \<Rightarrow> emitEvent (AddToOutbox [signed_state.truncate st])) (\<lambda>_.
       returnB e))"

section \<open>Channels\<close>

definition constantsOf :: "'a channel_constants_scheme \<Rightarrow> channel_constants" where
  "constantsOf c =
     \<lparr>chainId = chainId c, participants = participants c, channelNonce = channelNonce c,
      appDefinition = appDefinition c, challengeDuration = challengeDuration c\<rparr>"

text \<open>The nonce is stored before the state is hashed.\<close>

definition initializeChannel :: "platform \<Rightarrow> 'a state_scheme \<Rightarrow> string option \<Rightarrow> store_entry bio" where
  "initializeChannel P st domain =
     (let addresses = map signingAddress (participants st) in
      bindB (readB (\<lambda>s. Inr (myIndexIn addresses s))) (\<lambda>i.
      if i = -1 then throwB (Error ''Attempting to initialize  channel as a non-participant'')
      else
        bindB (setNonce addresses (channelNonce st)) (\<lambda>_.
        bindB (liftB (hashState P st)) (\<lambda>h.
          let d = \<lparr>csd_vars = [hashedWith h 0 st], csd_constants = constantsOf st, csd_funding = None,
                   csd_applicationDomain = domain, csd_myIndex = i\<rparr>
          in bindB (writeB (setChannel (calculateChannelId P st) d)) (\<lambda>_. returnB (newEntry d))))))"

text \<open>\<open>_.pick(stateVars, 'outcome', 'turnNum', 'appData', 'isFinal')\<close>\<close>

definition pickVars :: "'a state_scheme \<Rightarrow> state_variables" where
  "pickVars s = \<lparr>v_outcome = outcome s, v_turnNum = turnNum s, v_appData = appData s, v_isFinal = isFinal s\<rparr>"

text \<open>The reference is that of the outcome object passed in, None for one that no row has.\<close>

definition signAndAddStateWithinTx ::
  "platform \<Rightarrow> bytes32 \<Rightarrow> nat option \<Rightarrow> state_variables \<Rightarrow> (store_entry \<times> stored_state) bio" where
  "signAndAddStateWithinTx P cid ref v =
     bindB (getEntry cid) (\<lambda>e.
     bindB (liftB (entryAddress e)) (\<lambda>a.
     bindB (readB (getPrivateKey a)) (\<lambda>key.
     bindB (onEntry cid (signAndAdd P (case ref of None \<Rightarrow> freshRef (ce_objects e) | Some r \<Rightarrow> r) v key) e)
       (\<lambda>(e', st).
     bindB (writeB (setChannel cid (entryData e'))) (\<lambda>_. returnB (e', st))))))"

definition signAndAddState :: "platform \<Rightarrow> bytes32 \<Rightarrow> state_variables \<Rightarrow> store_entry bio" where
  "signAndAddState P cid v =
     bindB (signAndAddStateWithinTx P cid None v) (\<lambda>(e, st). emitChannelUpdatedEventAfterTX e (Some st))"

definition browserCreateChannel ::
  "browser_env \<Rightarrow> participant list \<Rightarrow> int \<Rightarrow> state_variables \<Rightarrow> string \<Rightarrow> string option \<Rightarrow> store_entry bio" where
  "browserCreateChannel E ps duration v appDef domain =
     (let P = be_platform E; addresses = map signingAddress ps in
      bindB (readB (\<lambda>s. Inr (myIndexIn addresses s))) (\<lambda>i.
      if i = -1 then throwB (Error ''Attempting to initialize  channel as a non-participant'')
      else
        bindB (readB (\<lambda>s. Inr (storeNonce addresses s + 1))) (\<lambda>nonce.
        bindB (liftB (makeAddress (ethersLib P) appDef)) (\<lambda>app.
        bindB (initializeChannel P
          (entryState \<lparr>chainId = be_chainNetworkId E, participants = ps, channelNonce = nonce,
                       appDefinition = app, challengeDuration = duration\<rparr> v) domain) (\<lambda>e.
        bindB (signAndAddStateWithinTx P (entryChannelId P e) (Some 0) v) (\<lambda>(e', st).
          emitChannelUpdatedEventAfterTX e' (Some st)))))))"

text \<open>Adding the signatures of a received state one by one; the first refused one ends it.\<close>

fun addSignatures ::
  "platform \<Rightarrow> nat \<Rightarrow> 'a state_scheme \<Rightarrow> signature_entry list \<Rightarrow> store_entry \<Rightarrow> store_entry \<times> unit result" where
  "addSignatures P ref s [] e = (e, Inr ())"
| "addSignatures P ref s (g # gs) e =
     (case entryAddState P ref s g e of
        (e1, Inl err) \<Rightarrow> (e1, Inl err)
      | (e1, Inr _) \<Rightarrow> addSignatures P ref s gs e1)"

definition storeAddState :: "platform \<Rightarrow> signed_state \<Rightarrow> bool \<Rightarrow> store_entry bio" where
  "storeAddState P st notifyOutbox =
     (let cid = calculateChannelId P st in
      bindB (readB (\<lambda>s. Inr (getChannel s cid))) (\<lambda>known.
      bindB (case known of Some d \<Rightarrow> returnB (newEntry d) | None \<Rightarrow> initializeChannel P st None) (\<lambda>e.
      bindB (onEntry cid (addSignatures P (freshRef (ce_objects e)) st (signatures st)) e) (\<lambda>(e', _).
      bindB (writeB (setChannel cid (entryData e'))) (\<lambda>_.
        emitChannelUpdatedEventAfterTX e'
          (if notifyOutbox then Some (hashedWith [] 0 st\<lparr>signatures := signatures st\<rparr>) else None))))))"

section \<open>Updating a channel\<close>

record update_data =
  ud_outcome :: "simple_allocation option"
  ud_appData :: "string option"
  ud_isFinal :: "bool option"

text \<open>
  \<open>_.merge\<close> goes through arrays by index: what the new array does not reach stays. The keys an
  allocation does not have are those of another kind of outcome and are not looked at any more.
\<close>

fun mergeItems :: "allocation_item list \<Rightarrow> allocation_item list \<Rightarrow> allocation_item list" where
  "mergeItems (x # xs) (y # ys) = y # mergeItems xs ys"
| "mergeItems [] ys = ys"
| "mergeItems xs [] = xs"

fun mergeOutcome :: "outcome \<Rightarrow> simple_allocation \<Rightarrow> outcome" where
  "mergeOutcome (SimpleAllocation a) u =
     SimpleAllocation \<lparr>asset = asset u, allocationItems = mergeItems (allocationItems a) (allocationItems u)\<rparr>"
| "mergeOutcome _ u = SimpleAllocation u"

text \<open>The merge changes the outcome object itself, in every row that holds it.\<close>

definition mergeInPlace :: "nat \<Rightarrow> simple_allocation \<Rightarrow> stored_channel \<Rightarrow> stored_channel" where
  "mergeInPlace ref u d =
     d\<lparr>csd_vars := map (\<lambda>r. if outcomeRef r = ref then r\<lparr>outcome := mergeOutcome (outcome r) u\<rparr> else r)
                    (csd_vars d)\<rparr>"

definition mergeStored :: "bytes32 \<Rightarrow> nat \<Rightarrow> simple_allocation option \<Rightarrow> unit bio" where
  "mergeStored cid ref u =
     writeB (\<lambda>s. case (u, getChannel s cid) of
       (Some u', Some d) \<Rightarrow> setChannel cid (mergeInPlace ref u' d) s
     | _ \<Rightarrow> s)"

definition mergedVars :: "stored_state \<Rightarrow> update_data \<Rightarrow> state_variables" where
  "mergedVars s u =
     \<lparr>v_outcome = (case ud_outcome u of None \<Rightarrow> outcome s | Some u' \<Rightarrow> mergeOutcome (outcome s) u'),
      v_turnNum = turnNum s + 1,
      v_appData = (case ud_appData u of None \<Rightarrow> appData s | Some a \<Rightarrow> a),
      v_isFinal = (case ud_isFinal u of None \<Rightarrow> isFinal s | Some b \<Rightarrow> b)\<rparr>"

definition notMyTurn :: error where
  "notMyTurn = Error ''Cannot update channel unless it's your turn''"

definition browserUpdateChannel :: "platform \<Rightarrow> bytes32 \<Rightarrow> update_data \<Rightarrow> store_entry bio" where
  "browserUpdateChannel P cid u =
     bindB (getEntry cid) (\<lambda>e.
     bindB (liftB (entrySupported e)) (\<lambda>existing.
     bindB (liftB (entryMyTurn e)) (\<lambda>mine.
     if \<not> mine then throwB notMyTurn
     else
       bindB (mergeStored cid (outcomeRef existing) (ud_outcome u)) (\<lambda>_.
       bindB (signAndAddStateWithinTx P cid (Some (outcomeRef existing)) (mergedVars existing u)) (\<lambda>(e', st).
         emitChannelUpdatedEventAfterTX e' (Some st))))))"

definition browserSignFinalState :: "platform \<Rightarrow> bytes32 \<Rightarrow> unit bio" where
  "browserSignFinalState P cid =
     bindB (getEntry cid) (\<lambda>e.
     bindB (liftB (entrySupported e)) (\<lambda>s.
     bindB (liftB (latestSignedByMeOrThrow e)) (\<lambda>mine.
     if \<not> isFinal s then throwB (Error ''Supported state not final'')
     else if turnNum mine = turnNum s then returnB ()
     else
       bindB (signAndAddStateWithinTx P cid (Some (outcomeRef s)) (pickVars s)) (\<lambda>(e', st).
       bindB (emitChannelUpdatedEventAfterTX e' (Some st)) (\<lambda>_. returnB ())))))"

definition supportState :: "platform \<Rightarrow> state \<Rightarrow> unit bio" where
  "supportState P st =
     bindB (liftB (hashState P st)) (\<lambda>h.
     bindB (getEntry (calculateChannelId P st)) (\<lambda>e.
     bindB (liftB (entryLatestSignedByMe e)) (\<lambda>mine.
     if (case mine of None \<Rightarrow> True | Some m \<Rightarrow> stateHash m \<noteq> h)
     then
       bindB (signAndAddStateWithinTx P (calculateChannelId P st) None (pickVars st)) (\<lambda>(e', signed).
       bindB (emitChannelUpdatedEventAfterTX e' (Some signed)) (\<lambda>_. returnB ()))
     else returnB ())))"

section \<open>Funding, ledgers and domains\<close>

definition setFunding :: "platform \<Rightarrow> bytes32 \<Rightarrow> funding_kind \<Rightarrow> unit bio" where
  "setFunding P cid f =
     bindB (getEntry cid) (\<lambda>e.
       if ce_funding e \<noteq> None then throwB (Error ''Channel already funded.'')
       else writeB (setChannel (entryChannelId P e) ((entryData e)\<lparr>csd_funding := Some f\<rparr>)))"

definition getLedger :: "string \<Rightarrow> store_entry bio" where
  "getLedger peer =
     bindB (readB (\<lambda>s. case bs_ledgers s peer of
         None \<Rightarrow> Inl (Error (''No ledger exists with peer'' @ '': '' @ peer)) | Some l \<Rightarrow> Inr l)) getEntry"

definition setapplicationDomain :: "bytes32 \<Rightarrow> string \<Rightarrow> unit bio" where
  "setapplicationDomain cid domain =
     bindB (getEntry cid) (\<lambda>e.
       if ce_applicationDomain e \<noteq> None then throwB (Error ''Channel already has a domain.'')
       else writeB (setChannel cid ((entryData e)\<lparr>csd_applicationDomain := Some domain\<rparr>)))"

definition browserSetLedger :: "platform \<Rightarrow> bytes32 \<Rightarrow> unit bio" where
  "browserSetLedger P cid =
     bindB (getEntry cid) (\<lambda>e.
     bindB (writeB (setChannel (entryChannelId P e) (entryData e))) (\<lambda>_.
     bindB (readB (\<lambda>s. Inr (storeAddress s))) (\<lambda>me.
       case find (\<lambda>p. Some (signingAddress p) \<noteq> me) (participants (ce_constants e)) of
         None \<Rightarrow> throwB TypeError
       | Some hub \<Rightarrow> writeB (\<lambda>s. s\<lparr>bs_ledgers := (bs_ledgers s)(participantId hub \<mapsto> entryChannelId P e)\<rparr>))))"

definition getApplicationChannels ::
  "platform \<Rightarrow> string \<Rightarrow> bool \<Rightarrow> browser_store \<Rightarrow> store_entry list" where
  "getApplicationChannels P domain includeClosed s =
     filter (\<lambda>e. ce_applicationDomain e = Some domain \<and>
                 (\<not> entryHasConclusionProof e \<or> includeClosed) \<and>
                 \<not> isZeroBN P (appDefinition (ce_constants e)))
       (map (newEntry \<circ> snd) (bs_channels s))"

definition addObjective :: "objective \<Rightarrow> unit bio" where
  "addObjective o' = writeB (\<lambda>s. if o' \<in> set (bs_objectives s) then s
     else s\<lparr>bs_objectives := bs_objectives s @ [o']\<rparr>)"

section \<open>Budgets of a domain\<close>

text \<open>An existing budget aborts the transaction, which the memory backend does not do.\<close>

definition createBudget :: "domain_budget \<Rightarrow> unit bio" where
  "createBudget b = writeB (setBudget (bud_domain b) b)"

definition clearBudget :: "string \<Rightarrow> unit bio" where
  "clearBudget domain = writeB (\<lambda>s. s\<lparr>bs_budgets := (bs_budgets s)(domain := None)\<rparr>)"

definition noBudget :: error where
  "noBudget = Error ''No budget exists for domain. ''"

definition getAllocationAmount :: "outcome \<Rightarrow> bytes32 \<Rightarrow> uint256 result" where
  "getAllocationAmount o' dest =
     bindE (checkThat ''isSimpleEthAllocation'' isSimpleEthAllocation o') (\<lambda>o1.
     bindE (checkSimpleAllocation o1) (\<lambda>a.
       case find (\<lambda>i. item_destination i = dest) (allocationItems a) of
         None \<Rightarrow> Inl (Error (''Cannot find allocation entry with destination'' @ '' '' @ dest))
       | Some i \<Rightarrow> Inr (amount i)))"

definition setAssetBudget :: "address \<Rightarrow> asset_budget \<Rightarrow> domain_budget \<Rightarrow> domain_budget" where
  "setAssetBudget a ab b = b\<lparr>bud_forAsset := AList.update a ab (bud_forAsset b)\<rparr>"

text \<open>The objects are changed where the backend has them, one assignment after the other.\<close>

definition releaseFunds :: "browser_env \<Rightarrow> address \<Rightarrow> bytes32 \<Rightarrow> bytes32 \<Rightarrow> domain_budget bio" where
  "releaseFunds E a ledgerId target =
     bindB (getEntry ledgerId) (\<lambda>e.
     bindB (liftB (entrySupported e)) (\<lambda>st.
     case ce_applicationDomain e of
       None \<Rightarrow> throwB (Error ''No domain defined for channel'')
     | Some domain \<Rightarrow>
     bindB (readB (\<lambda>s. case bs_budgets s domain of None \<Rightarrow> Inl noBudget | Some b \<Rightarrow> Inr b)) (\<lambda>b.
     case map_of (bud_forAsset b) a of
       None \<Rightarrow> throwB noBudget
     | Some ab \<Rightarrow>
     (case map_of (ab_channels ab) target of
       None \<Rightarrow> throwB (Error ''This domain's budget does not reference this channel'')
     | Some _ \<Rightarrow>
     bindB (readB (\<lambda>s. Inr (storeAddress s))) (\<lambda>me.
     case find (\<lambda>p. Some (signingAddress p) = me) (participants (ce_constants e)) of
       None \<Rightarrow> throwB (Error ''Cannot find destination for participant'')
     | Some p \<Rightarrow>
     if destination p = [] then throwB (Error ''Cannot find destination for participant'')
     else
     bindB (liftB (getAllocationAmount (outcome st) (destination p))) (\<lambda>send.
     let ab1 = ab\<lparr>ab_availableSendCapacity := send\<rparr> in
     bindB (writeB (setBudget domain (setAssetBudget a ab1 b))) (\<lambda>_.
     bindB (liftB (getAllocationAmount (outcome st) (be_hubDestination E))) (\<lambda>receive.
     let b2 = setAssetBudget a (ab1\<lparr>ab_availableReceiveCapacity := receive,
                                     ab_channels := AList.delete target (ab_channels ab)\<rparr>) b in
     bindB (writeB (setBudget domain b2)) (\<lambda>_. returnB b2)))))))))"

definition reserveFunds :: "address \<Rightarrow> bytes32 \<Rightarrow> uint256 \<Rightarrow> uint256 \<Rightarrow> domain_budget bio" where
  "reserveFunds a cid send receive =
     bindB (getEntry cid) (\<lambda>e.
     case ce_applicationDomain e of
       None \<Rightarrow> throwB (Error (''No domain defined for channel'' @ '' '' @ cid))
     | Some domain \<Rightarrow>
     bindB (readB (\<lambda>s. case bs_budgets s domain of
         None \<Rightarrow> Inl (Error (''No budget exists for domain. '' @ domain)) | Some b \<Rightarrow> Inr b)) (\<lambda>b.
     case map_of (bud_forAsset b) a of
       None \<Rightarrow> throwB (Error ''This domain's budget does contain this asset'')
     | Some ab \<Rightarrow>
     if ab_availableSendCapacity ab < send \<or> ab_availableReceiveCapacity ab < receive
     then throwB (Error ''Budget insufficient to reserve funds'')
     else
     let b' = setAssetBudget a
           (ab\<lparr>ab_availableSendCapacity := ab_availableSendCapacity ab - send,
               ab_availableReceiveCapacity := ab_availableReceiveCapacity ab - receive,
               ab_channels := AList.update cid (send + receive) (ab_channels ab)\<rparr>) b in
     bindB (writeB (setBudget (bud_domain b) b')) (\<lambda>_. returnB b')))"

section \<open>Rich objectives\<close>

definition registerChannelWithChain :: "browser_env \<Rightarrow> bytes32 \<Rightarrow> unit bio" where
  "registerChannelWithChain E cid s =
     (if be_connected E then (s\<lparr>bs_registered := bs_registered s @ [cid]\<rparr>, Inr ())
      else (s, Inl (Error ''Not connected to contracts'')))"

definition storeRichObjective :: "browser_env \<Rightarrow> bytes32 \<Rightarrow> open_channel_objective \<Rightarrow> unit bio" where
  "storeRichObjective E cid ob =
     bindB (writeB (\<lambda>s. s\<lparr>bs_richObjectives := (bs_richObjectives s)(cid \<mapsto> ob)\<rparr>)) (\<lambda>_.
     bindB (registerChannelWithChain E cid) (\<lambda>_. emitEvent (RichObjectiveFeed ob)))"

text \<open>The nonce is not stored before a state of the channel is.\<close>

definition createAndStoreOpenChannelObjective ::
  "browser_env \<Rightarrow> channel_constants \<Rightarrow> outcome \<Rightarrow> string \<Rightarrow> open_channel_objective bio" where
  "createAndStoreOpenChannelObjective E c o' data =
     (let P = be_platform E in
      bindB (readB (\<lambda>s. Inr (storeNonce (map signingAddress (participants c)) s + 1))) (\<lambda>nonce.
      let st = entryState (c\<lparr>channelNonce := nonce\<rparr>)
                 \<lparr>v_outcome = o', v_turnNum = 0, v_appData = data, v_isFinal = False\<rparr>;
          cid = calculateChannelId P st in
      bindB (readB (\<lambda>s. Inr (bs_richObjectives s cid))) (\<lambda>known.
      if known \<noteq> None then throwB (Error ''Objective for a channel id already exists'')
      else
        bindB (liftB (initialize P st None 0 False)) (\<lambda>ob.
        bindB (storeRichObjective E cid ob) (\<lambda>_. returnB ob)))))"

definition createAndStoreRichObjectiveFromObjective :: "browser_env \<Rightarrow> objective \<Rightarrow> unit bio" where
  "createAndStoreRichObjectiveFromObjective E o' =
     (case o' of
        OpenChannel ps d \<Rightarrow>
          bindB (readB (\<lambda>s. Inr (bs_richObjectives s (oc_targetChannelId d)))) (\<lambda>known.
          if known \<noteq> None
          then throwB (Error (''Rich objective already exists for channel '' @ oc_targetChannelId d))
          else
            bindB (getEntry (oc_targetChannelId d)) (\<lambda>e.
            bindB (liftB (case entryLatest e of
                None \<Rightarrow> Inl (Error ''Unexpected state due to turnNum'')
              | Some st \<Rightarrow> initialize (be_platform E) (state.truncate st) (Some (signatures st)) (ce_myIndex e) False))
              (\<lambda>ob. storeRichObjective E (ob_channelId ob) ob)))
      | _ \<Rightarrow> throwB (Error ''addRichObjective not implemented for an objective type''))"

definition pushMessage2 :: "browser_env \<Rightarrow> signed_state list option \<Rightarrow> objective list option \<Rightarrow> unit bio" where
  "pushMessage2 E ss os =
     bindB (case os of None \<Rightarrow> returnB [] | Some os' \<Rightarrow> allB (createAndStoreRichObjectiveFromObjective E) os') (\<lambda>_.
       case ss of
         Some (st # sts) \<Rightarrow>
           (let cid = calculateChannelId (be_platform E) st in
            bindB (readB (\<lambda>s. Inr (bs_richObjectives s cid))) (\<lambda>known.
            if known \<noteq> None
            then emitEvent (RichObjectiveEventFeed \<lparr>ev_channelId = cid, ev_now = None, ev_body = StatesReceived (st # sts)\<rparr>)
            else returnB ()))
       | _ \<Rightarrow> returnB ())"

definition browserPushMessage :: "browser_env \<Rightarrow> payload \<Rightarrow> unit bio" where
  "browserPushMessage E m =
     bindB (allB (\<lambda>st. storeAddState (be_platform E) st False)
              (case signedStates m of None \<Rightarrow> [] | Some ss \<Rightarrow> ss)) (\<lambda>_.
     bindB (allB addObjective (case objectives m of None \<Rightarrow> [] | Some os \<Rightarrow> os)) (\<lambda>_.
       ignoreB (pushMessage2 E (signedStates m) (objectives m))))"

end
