(* ===== verification/BrowserChain.thy ===== *)
theory BrowserChain
  imports NitroTransactions ChannelStorage BrowserStore
begin

text \<open>
  \<open>packages/browser-wallet/src/chain.ts\<close>: the chain the wallet fakes, and what the real one is asked.
  Subscriptions are left out: the events a chain emits are a list.
\<close>

section \<open>The fake chain\<close>

text \<open>The fields of a status are set one by one; those not yet set are undefined.\<close>

record chain_status =
  cst_amount :: "uint256 option"
  cst_storage :: "(int \<times> int) option"
  cst_finalized :: bool
  cst_blockNum :: "int option"

definition noStatus :: chain_status where
  "noStatus = \<lparr>cst_amount = None, cst_storage = None, cst_finalized = False, cst_blockNum = None\<rparr>"

datatype fake_event =
    Updated bytes32 chain_status
  | FakeChallengeRegistered bytes32 signed_state int

record fake_chain =
  fk_blockNumber :: int
  fk_channelStatus :: "(bytes32 \<times> chain_status) list"
  fk_events :: "fake_event list"

definition initFakeChain :: fake_chain where
  "initFakeChain = \<lparr>fk_blockNumber = 1, fk_channelStatus = [], fk_events = []\<rparr>"

definition statusOf :: "fake_chain \<Rightarrow> bytes32 \<Rightarrow> chain_status" where
  "statusOf c cid = (case map_of (fk_channelStatus c) cid of None \<Rightarrow> noStatus | Some s \<Rightarrow> s)"

definition setChainStatus :: "bytes32 \<Rightarrow> chain_status \<Rightarrow> fake_chain \<Rightarrow> fake_chain" where
  "setChainStatus cid st c = c\<lparr>fk_channelStatus := AList.update cid st (fk_channelStatus c)\<rparr>"

definition emitFake :: "fake_event \<Rightarrow> fake_chain \<Rightarrow> fake_chain" where
  "emitFake e c = c\<lparr>fk_events := fk_events c @ [e]\<rparr>"

definition statusEmitted :: "bytes32 \<Rightarrow> chain_status \<Rightarrow> fake_chain \<Rightarrow> fake_chain" where
  "statusEmitted cid st c = emitFake (Updated cid st) (setChainStatus cid st c)"

text \<open>A channel of which only a deposit is known has no storage to look into.\<close>

definition finalizeAtBlock :: "int \<Rightarrow> fake_chain \<Rightarrow> bytes32 \<Rightarrow> fake_chain result" where
  "finalizeAtBlock n c cid =
     (case cst_storage (statusOf c cid) of
        None \<Rightarrow> Inl TypeError
      | Some (_, finalizesAt) \<Rightarrow>
          Inr (if finalizesAt > 0 \<and> finalizesAt \<le> n
               then statusEmitted cid ((statusOf c cid)\<lparr>cst_finalized := True\<rparr>) c else c))"

text \<open>The channels before the one that throws have been updated.\<close>

fun finalizeAll :: "int \<Rightarrow> bytes32 list \<Rightarrow> fake_chain \<Rightarrow> fake_chain \<times> unit result" where
  "finalizeAll n [] c = (c, Inr ())"
| "finalizeAll n (cid # cids) c =
     (case finalizeAtBlock n c cid of Inl e \<Rightarrow> (c, Inl e) | Inr c' \<Rightarrow> finalizeAll n cids c')"

definition setBlockNumber :: "int \<Rightarrow> fake_chain \<Rightarrow> fake_chain \<times> unit result" where
  "setBlockNumber n c = finalizeAll n (map fst (fk_channelStatus c)) (c\<lparr>fk_blockNumber := n\<rparr>)"

definition depositSync :: "bytes32 \<Rightarrow> uint256 \<Rightarrow> uint256 \<Rightarrow> fake_chain \<Rightarrow> fake_chain" where
  "depositSync cid expectedHeld n c =
     (let current = (case cst_amount (statusOf c cid) of None \<Rightarrow> 0 | Some a \<Rightarrow> a) in
      if current \<ge> expectedHeld
      then statusEmitted cid ((statusOf c cid)\<lparr>cst_amount := Some (current + n)\<rparr>) c
      else c)"

definition fakeChallenge :: "platform \<Rightarrow> signed_state list \<Rightarrow> fake_chain \<Rightarrow> fake_chain \<times> unit result" where
  "fakeChallenge P supp c =
     (case supp of
        [] \<Rightarrow> (c, Inl TypeError)
      | s # _ \<Rightarrow>
          (let cid = calculateChannelId P s;
               l = last supp;
               expiry = fk_blockNumber c + challengeDuration l;
               st = (statusOf c cid)\<lparr>cst_storage := Some (turnNum l, expiry),
                                     cst_finalized := (challengeDuration l = 0)\<rparr>
           in (emitFake (FakeChallengeRegistered cid l expiry) (statusEmitted cid st c), Inr ())))"

definition finalizeSync :: "bytes32 \<Rightarrow> int \<Rightarrow> fake_chain \<Rightarrow> fake_chain" where
  "finalizeSync cid n c = setChainStatus cid ((statusOf c cid)\<lparr>cst_storage := Some (n, fk_blockNumber c)\<rparr>) c"

definition fakeFinalizeAndWithdraw :: "platform \<Rightarrow> signed_state list \<Rightarrow> fake_chain \<Rightarrow> fake_chain \<times> unit result" where
  "fakeFinalizeAndWithdraw P proof c =
     (case proof of
        [] \<Rightarrow> (c, Inl TypeError)
      | s # _ \<Rightarrow>
          (let cid = calculateChannelId P s;
               c1 = finalizeSync cid 0 c
           in (statusEmitted cid ((statusOf c1 cid)\<lparr>cst_amount := Some 0, cst_blockNum := Some (fk_blockNumber c1)\<rparr>) c1,
               Inr ())))"

record chain_info =
  ci_amount :: uint256
  ci_turnNumRecord :: int
  ci_finalizesAt :: int
  ci_finalized :: bool
  ci_blockNum :: int

definition fakeChainInfo :: "fake_chain \<Rightarrow> bytes32 \<Rightarrow> chain_info" where
  "fakeChainInfo c cid =
     (let st = statusOf c cid in
      \<lparr>ci_amount = (case cst_amount st of None \<Rightarrow> 0 | Some a \<Rightarrow> a),
       ci_turnNumRecord = (case cst_storage st of None \<Rightarrow> 0 | Some (t, _) \<Rightarrow> t),
       ci_finalizesAt = (case cst_storage st of None \<Rightarrow> 0 | Some (_, f) \<Rightarrow> f),
       ci_finalized = (case cst_storage st of None \<Rightarrow> False
         | Some (_, f) \<Rightarrow> f > 0 \<and> f \<le> fk_blockNumber c),
       ci_blockNum = fk_blockNumber c\<rparr>)"

section \<open>The real chain\<close>

text \<open>Transactions for the adjudicator, with the value sent along.\<close>

type_synonym watcher_tx = "adjudicator_call \<times> uint256 option"

definition watcherDeposit :: "bytes32 \<Rightarrow> uint256 \<Rightarrow> uint256 \<Rightarrow> watcher_tx" where
  "watcherDeposit cid expectedHeld n = (createETHDepositTransaction cid expectedHeld n, Some n)"

definition watcherFinalizeAndWithdraw ::
  "platform \<Rightarrow> abi \<Rightarrow> 'a signed_state_scheme list \<Rightarrow> watcher_tx result" where
  "watcherFinalizeAndWithdraw P A proof =
     bindE (bindE (flatMapNitro P proof) (createConcludeAndTransferAllAssetsTransaction P A)) (\<lambda>t. Inr (t, None))"

text \<open>Here the states are put in the order the adjudicator expects.\<close>

definition watcherChallenge ::
  "platform \<Rightarrow> abi \<Rightarrow> 'a signed_state_scheme list \<Rightarrow> string \<Rightarrow> watcher_tx result" where
  "watcherChallenge P A supp key =
     bindE (flatMapNitro P supp) (\<lambda>sns.
     bindE (createChallengeTransaction P A (sort_key (ns_turnNum \<circ> sn_state) sns) key) (\<lambda>t. Inr (t, None)))"

text \<open>
  What is read from the contract and the provider: the holdings, the two numbers of the status and the
  number of the latest block, with which the time of finalization is compared.
\<close>

definition watcherChainInfo :: "uint256 \<Rightarrow> int \<times> int \<Rightarrow> int \<Rightarrow> chain_info" where
  "watcherChainInfo holdings st blockNum =
     \<lparr>ci_amount = holdings, ci_turnNumRecord = fst st, ci_finalizesAt = snd st,
      ci_finalized = (snd st > 0 \<and> snd st \<le> blockNum), ci_blockNum = blockNum\<rparr>"

text \<open>After a deposit event the amount is the one of the event.\<close>

definition depositedInfo :: "uint256 \<Rightarrow> chain_info \<Rightarrow> chain_info" where
  "depositedInfo destinationHoldings i = i\<lparr>ci_amount := destinationHoldings\<rparr>"

text \<open>The state of a registered challenge is the last of its states.\<close>

definition challengeRegisteredInfo ::
  "platform \<Rightarrow> nitro_state list \<Rightarrow> int \<Rightarrow> (state \<times> int) result" where
  "challengeRegisteredInfo P states finalizesAt =
     (case states of
        [] \<Rightarrow> Inl TypeError
      | _ \<Rightarrow> bindE (fromNitroState P (last states)) (\<lambda>s. Inr (s, finalizesAt)))"

end
