(* ===== verification/BrowserWallet.thy ===== *)
theory BrowserWallet
  imports BrowserChain
begin

text \<open>
  The class \<open>ChannelWallet\<close> of \<open>packages/browser-wallet/src/channel-wallet.ts\<close>, as far as it opens
  channels with rich objectives. A crank reads the objective and then awaits the private key before
  it goes on: in the model it is started with what it read and finished later, and the environment
  chooses the order in which the cranks under way are finished.
\<close>

section \<open>State\<close>

record browser_wallet =
  bw_store :: browser_store
  bw_pending :: "(open_channel_objective \<times> open_channel_event) list"
  bw_deposits :: "(bytes32 \<times> uint256 \<times> uint256) list"
  bw_objectivesSent :: "objective list"

text \<open>The chain's answer to a deposit, after those made before: a transaction, nothing, or an error.\<close>

record wallet2_env =
  w2_browser :: browser_env
  w2_deposit :: "(bytes32 \<times> uint256 \<times> uint256) list \<Rightarrow> string option result"
  w2_now :: int

abbreviation w2_platform :: "wallet2_env \<Rightarrow> platform" where
  "w2_platform W \<equiv> be_platform (w2_browser W)"

type_synonym 'a bw = "browser_wallet \<Rightarrow> browser_wallet \<times> 'a result"

definition onStore :: "'a bio \<Rightarrow> 'a bw" where
  "onStore m w = (case m (bw_store w) of (s, r) \<Rightarrow> (w\<lparr>bw_store := s\<rparr>, r))"

definition bindW :: "'a bw \<Rightarrow> ('a \<Rightarrow> 'b bw) \<Rightarrow> 'b bw" where
  "bindW m f w = (case m w of (w1, Inl e) \<Rightarrow> (w1, Inl e) | (w1, Inr x) \<Rightarrow> f x w1)"

section \<open>Cranking a rich objective\<close>

text \<open>The start of a crank; without an objective it throws, into a promise nobody awaits.\<close>

definition startCrank :: "open_channel_event \<Rightarrow> browser_wallet \<Rightarrow> browser_wallet" where
  "startCrank ev w =
     (case bs_richObjectives (bw_store w) (ev_channelId ev) of
        None \<Rightarrow> w
      | Some ob \<Rightarrow> w\<lparr>bw_pending := bw_pending w @ [(ob, ev)]\<rparr>)"

definition depositArguments :: "open_channel_objective \<Rightarrow> uint256 \<Rightarrow> (bytes32 \<times> uint256 \<times> uint256) result" where
  "depositArguments ob n =
     (case myParticipantOf ob of
        None \<Rightarrow> Inl TypeError
      | Some me \<Rightarrow>
          bindE (fundingMilestone (ob_openingState ob) (destination me)) (\<lambda>(targetBefore, _, _).
            Inr (ob_channelId ob, targetBefore, n)))"

definition depositSubmitted :: "wallet2_env \<Rightarrow> bytes32 \<Rightarrow> string option \<Rightarrow> open_channel_event" where
  "depositSubmitted W cid tx =
     \<lparr>ev_channelId = cid, ev_now = None,
      ev_body = DepositSubmitted (case tx of None \<Rightarrow> [] | Some t \<Rightarrow> t) 0 (w2_now W)\<rparr>"

text \<open>The deposit is awaited; the crank for its submission is only started.\<close>

definition chainDeposit :: "wallet2_env \<Rightarrow> open_channel_objective \<Rightarrow> uint256 \<Rightarrow> unit bw" where
  "chainDeposit W ob n w =
     (case depositArguments ob n of
        Inl e \<Rightarrow> (w, Inl e)
      | Inr d \<Rightarrow>
          (case w2_deposit W (bw_deposits w @ [d]) of
             Inl e \<Rightarrow> (w, Inl e)
           | Inr tx \<Rightarrow>
               (startCrank (depositSubmitted W (ob_channelId ob) tx) (w\<lparr>bw_deposits := bw_deposits w @ [d]\<rparr>), Inr ())))"

fun performAction :: "wallet2_env \<Rightarrow> open_channel_objective \<Rightarrow> df_action \<Rightarrow> unit bw" where
  "performAction W ob (SendStates ss) =
     bindW (onStore (allB (\<lambda>st. storeAddState (w2_platform W) st True) ss)) (\<lambda>_ w. (w, Inr ()))"
| "performAction W ob (DepositAction n) = chainDeposit W ob n"
| "performAction W ob (HandleError e) = (\<lambda>w. (w, Inl (Error ''Not expected to reach here'')))"

definition openChannelMessage :: "open_channel_objective \<Rightarrow> objective" where
  "openChannelMessage ob = OpenChannel (participants (ob_openingState ob))
     \<lparr>oc_targetChannelId = ob_channelId ob, oc_fundingStrategy = Direct, oc_role = None,
      oc_fundingLedgerChannelId = None\<rparr>"

definition sendObjective :: "bytes32 \<Rightarrow> browser_wallet \<Rightarrow> browser_wallet" where
  "sendObjective cid w =
     (case bs_richObjectives (bw_store w) cid of
        None \<Rightarrow> w
      | Some ob \<Rightarrow>
          if ob_myIndex ob = 0 then w\<lparr>bw_objectivesSent := bw_objectivesSent w @ [openChannelMessage ob]\<rparr> else w)"

text \<open>An approved objective is sent after each of the actions.\<close>

fun performActions :: "wallet2_env \<Rightarrow> open_channel_objective \<Rightarrow> open_channel_event \<Rightarrow> df_action list \<Rightarrow> unit bw" where
  "performActions W ob ev [] w = (w, Inr ())"
| "performActions W ob ev (a # as) w =
     bindW (performAction W ob a)
       (\<lambda>_ w1. performActions W ob ev as
          (if ev_body ev = Approval then sendObjective (ob_channelId ob) w1 else w1)) w"

definition storedKey :: "browser_store \<Rightarrow> string result" where
  "storedKey s =
     (case storeAddress s of
        None \<Rightarrow> Inl (Error ''Private key missing for your address'') | Some a \<Rightarrow> getPrivateKey a s)"

definition finishCrank :: "wallet2_env \<Rightarrow> open_channel_objective \<times> open_channel_event \<Rightarrow> unit bw" where
  "finishCrank W x w =
     (case bindE (storedKey (bw_store w)) (openChannelCranker (w2_platform W) (fst x) (snd x)) of
        Inl e \<Rightarrow> (w, Inl e)
      | Inr (ob', acts) \<Rightarrow>
          performActions W (fst x) (snd x) acts
            (w\<lparr>bw_store := (bw_store w)\<lparr>bs_richObjectives :=
                 (bs_richObjectives (bw_store w))(ob_channelId (fst x) \<mapsto> ob')\<rparr>\<rparr>))"

text \<open>The environment picks the crank that goes on.\<close>

definition finishNth :: "wallet2_env \<Rightarrow> nat \<Rightarrow> browser_wallet \<Rightarrow> browser_wallet" where
  "finishNth W i w =
     (case nthOpt (bw_pending w) i of
        None \<Rightarrow> w
      | Some x \<Rightarrow> fst (finishCrank W x (w\<lparr>bw_pending := take i (bw_pending w) @ drop (Suc i) (bw_pending w)\<rparr>)))"

section \<open>What starts a crank\<close>

definition walletApprove :: "bytes32 \<Rightarrow> browser_wallet \<Rightarrow> browser_wallet" where
  "walletApprove cid = startCrank \<lparr>ev_channelId = cid, ev_now = None, ev_body = Approval\<rparr>"

text \<open>The chain's news of a registered channel count as final.\<close>

definition walletFunding :: "bytes32 \<Rightarrow> uint256 \<Rightarrow> browser_wallet \<Rightarrow> browser_wallet" where
  "walletFunding cid n w =
     (if cid \<in> set (bs_registered (bw_store w))
      then startCrank \<lparr>ev_channelId = cid, ev_now = None, ev_body = FundingUpdated n True\<rparr> w else w)"

fun feedEvents :: "browser_event list \<Rightarrow> open_channel_event list" where
  "feedEvents [] = []"
| "feedEvents (RichObjectiveEventFeed ev # es) = ev # feedEvents es"
| "feedEvents (_ # es) = feedEvents es"

definition walletPushMessage :: "wallet2_env \<Rightarrow> payload \<Rightarrow> browser_wallet \<Rightarrow> browser_wallet" where
  "walletPushMessage W m w =
     (let s' = fst (browserPushMessage (w2_browser W) m (bw_store w))
      in fold startCrank (feedEvents (drop (length (bs_events (bw_store w))) (bs_events s')))
           (w\<lparr>bw_store := s'\<rparr>))"

definition walletCreateObjective ::
  "wallet2_env \<Rightarrow> channel_constants \<Rightarrow> outcome \<Rightarrow> string \<Rightarrow> browser_wallet \<Rightarrow> browser_wallet" where
  "walletCreateObjective W c o' data w =
     fst (onStore (createAndStoreOpenChannelObjective (w2_browser W) c o' data) w)"

end
