(* ===== verification/BrowserFacts.thy ===== *)
theory BrowserFacts
  imports BrowserStore Fixtures
begin

text \<open>
  Facts about the entries of the browser wallet's store: how the states of an entry follow from its
  rows, what adding a state does to them, and what a call leaves in the backend.
\<close>

section \<open>The monad\<close>

lemma bindB_simps [simp]:
  "bindB (returnB x) f = f x"
  "bindB (throwB e) f = throwB e"
  by (auto simp: bindB_def returnB_def throwB_def fun_eq_iff)

lemma bindB_readB: "bindB (readB g) f s = (case g s of Inl e \<Rightarrow> (s, Inl e) | Inr x \<Rightarrow> f x s)"
  by (simp add: bindB_def readB_def split: sum.split)

lemma bindB_liftB: "bindB (liftB r) f s = (case r of Inl e \<Rightarrow> (s, Inl e) | Inr x \<Rightarrow> f x s)"
  by (simp add: liftB_def bindB_readB)

lemma bindB_writeB [simp]: "bindB (writeB g) f s = f () (g s)"
  by (simp add: bindB_def writeB_def)

lemma bindB_InrE:
  assumes "bindB m f s = (s', Inr y)"
  obtains s1 x where "m s = (s1, Inr x)" and "f x s1 = (s', Inr y)"
  using assms by (auto simp: bindB_def split: prod.splits sum.splits)

section \<open>Rows of an entry\<close>

lemma newEntry_simps [simp]:
  "ce_constants (newEntry d) = csd_constants d"
  "ce_funding (newEntry d) = csd_funding d"
  "ce_applicationDomain (newEntry d) = csd_applicationDomain d"
  "ce_myIndex (newEntry d) = csd_myIndex d"
  "ce_objects (newEntry d) = csd_vars d"
  "ce_own (newEntry d) = [0..<length (csd_vars d)]"
  "ce_shared (newEntry d) = [0..<length (csd_vars d)]"
  "ce_detached (newEntry d) = False"
  by (simp_all add: newEntry_def)

lemma states_newEntry [simp]:
  "ownStates (newEntry d) = csd_vars d" "sharedStates (newEntry d) = csd_vars d"
  by (simp_all add: ownStates_def sharedStates_def map_nth)

lemma hashedWith_simps [simp]:
  "chainId (hashedWith h ref s) = chainId s" "participants (hashedWith h ref s) = participants s"
  "channelNonce (hashedWith h ref s) = channelNonce s" "appDefinition (hashedWith h ref s) = appDefinition s"
  "challengeDuration (hashedWith h ref s) = challengeDuration s" "outcome (hashedWith h ref s) = outcome s"
  "turnNum (hashedWith h ref s) = turnNum s" "appData (hashedWith h ref s) = appData s"
  "isFinal (hashedWith h ref s) = isFinal s" "signatures (hashedWith h ref s) = []"
  "stateHash (hashedWith h ref s) = h" "outcomeRef (hashedWith h ref s) = ref"
  by (simp_all add: hashedWith_def)

text \<open>Sorting and cutting work on the rows as on a list of states.\<close>

lemma sort_key_map: "sort_key f (map g xs) = map g (sort_key (f \<circ> g) xs)"
proof -
  have ins: "insort_key f (g x) (map g ys) = map g (insort_key (\<lambda>a. f (g a)) x ys)" for x ys
    by (induction ys) auto
  show ?thesis by (induction xs) (simp_all add: ins comp_def)
qed

lemma findIndex_map: "findIndex P (map g xs) = findIndex (P \<circ> g) xs"
  by (induction xs) (simp_all add: Let_def)

definition clearedStates :: "channel_constants \<Rightarrow> stored_state list \<Rightarrow> stored_state list" where
  "clearedStates c ss =
     (let sorted' = rev (sort_key turnNum ss) in
      case supportIn c sorted' of
        [] \<Rightarrow> sorted'
      | t # ts \<Rightarrow> take (nat (findIndex (\<lambda>s. stateHash s = stateHash (last (t # ts))) sorted' + 1)) sorted')"

lemma ownStates_clearOldEntries: "ownStates (clearOldEntries e) = clearedStates (ce_constants e) (ownStates e)"
proof -
  have sorted: "map ((!) (ce_objects e)) (rev (sort_key (\<lambda>i. turnNum (ce_objects e ! i)) (ce_own e))) =
      rev (sort_key turnNum (ownStates e))"
    by (simp add: ownStates_def sort_key_map comp_def rev_map)
  show ?thesis
    by (simp add: clearOldEntries_def clearedStates_def entrySupport_def Let_def sorted [symmetric]
        ownStates_def [of "_\<lparr>ce_own := _, ce_detached := _\<rparr>"] ownStates_def [of "_\<lparr>ce_own := _\<rparr>"]
        take_map findIndex_map comp_def split: list.split)
qed

lemma clearOldEntries_simps [simp]:
  "ce_constants (clearOldEntries e) = ce_constants e" "ce_myIndex (clearOldEntries e) = ce_myIndex e"
  "ce_funding (clearOldEntries e) = ce_funding e"
  "ce_applicationDomain (clearOldEntries e) = ce_applicationDomain e"
  "ce_objects (clearOldEntries e) = ce_objects e" "ce_shared (clearOldEntries e) = ce_shared e"
  by (simp_all add: clearOldEntries_def Let_def split: list.split)

lemma pushEntry_new:
  "pushEntry r (newEntry d) = (length (csd_vars d), newEntry (d\<lparr>csd_vars := csd_vars d @ [r]\<rparr>))"
  by (simp add: pushEntry_def newEntry_def Let_def)

lemma findIndex_participant:
  "findIndex (\<lambda>p. signingAddress p = a) ps = -1 \<longleftrightarrow> a \<notin> signingAddress ` set ps"
  by (auto simp: findIndex_neg_iff)

lemma find_row:
  "find (\<lambda>i. stateHash (ss ! i) = h) [0..<length ss] = None \<longleftrightarrow> (\<forall>s \<in> set ss. stateHash s \<noteq> h)"
  by (auto simp: find_None_iff in_set_conv_nth dest: nth_mem)

text \<open>A state nobody of the channel signed: it is refused, and stays in the backend's array.\<close>

lemma entryAddState_refuses:
  assumes "hashState P st = Inr h" and "\<forall>r \<in> set (csd_vars d). stateHash r \<noteq> h"
    and "signer g \<notin> signingAddress ` set (participants (csd_constants d))"
  shows "entryAddState P ref st g (newEntry d) =
    (newEntry (d\<lparr>csd_vars := csd_vars d @ [hashedWith h ref st]\<rparr>),
     Inl (Error ''State not signed by a participant of this channel''))"
  using assms(1,3) assms(2) [folded find_row]
  by (simp add: entryAddState_def Let_def pushEntry_new findIndex_participant)

text \<open>A new state by a participant: the entry's states are those before and the new one, cleared.\<close>

definition withRow :: "stored_channel \<Rightarrow> stored_state \<Rightarrow> store_entry" where
  "withRow d row = clearOldEntries (newEntry (d\<lparr>csd_vars := csd_vars d @ [row]\<rparr>))"

lemma withRow_simps [simp]:
  "ownStates (withRow d row) = clearedStates (csd_constants d) (csd_vars d @ [row])"
  "sharedStates (withRow d row) = csd_vars d @ [row]"
  "ce_constants (withRow d row) = csd_constants d" "ce_myIndex (withRow d row) = csd_myIndex d"
  "ce_funding (withRow d row) = csd_funding d" "ce_applicationDomain (withRow d row) = csd_applicationDomain d"
proof -
  have "sharedStates (withRow d row) = sharedStates (newEntry (d\<lparr>csd_vars := csd_vars d @ [row]\<rparr>))"
    by (simp add: sharedStates_def withRow_def)
  then show "sharedStates (withRow d row) = csd_vars d @ [row]" by simp
qed (simp_all add: withRow_def ownStates_clearOldEntries)

lemma entryAddState_new:
  assumes "hashState P st = Inr h" and "\<forall>r \<in> set (csd_vars d). stateHash r \<noteq> h"
    and "signer g \<in> signingAddress ` set (participants (csd_constants d))"
    and "row = (hashedWith h ref st)\<lparr>signatures := [g]\<rparr>"
  shows "entryAddState P ref st g (newEntry d) =
    (withRow d row, bindE (checkEntryInvariants (withRow d row)) (\<lambda>_. Inr row))"
proof -
  let ?row = "(hashedWith h ref st)\<lparr>signatures := [g]\<rparr>"
  let ?e1 = "newEntry (d\<lparr>csd_vars := csd_vars d @ [hashedWith h ref st]\<rparr>)"
  have upd: "?e1\<lparr>ce_objects := csd_vars d @ [?row]\<rparr> = newEntry (d\<lparr>csd_vars := csd_vars d @ [row]\<rparr>)"
    by (simp add: newEntry_def assms(4))
  show ?thesis
    using assms(1) assms(2) [folded find_row] assms(3)
    by (simp add: entryAddState_def Let_def pushEntry_new findIndex_participant upd bindE_def withRow_def
        split: sum.split) (simp add: assms(4))
qed

section \<open>The store around an entry\<close>

lemma getChannel_setChannel [simp]:
  "getChannel (setChannel cid d s) c = (if c = cid then Some d else getChannel s c)"
  by (simp add: getChannel_def setChannel_def update_conv)

lemma setChannel_fields [simp]:
  "bs_privateKeys (setChannel cid d s) = bs_privateKeys s" "bs_budgets (setChannel cid d s) = bs_budgets s"
  "bs_nonces (setChannel cid d s) = bs_nonces s" "bs_events (setChannel cid d s) = bs_events s"
  by (simp_all add: setChannel_def)

lemma getEntry_Inr: "getEntry cid s = (s', Inr e) \<longleftrightarrow> s' = s \<and> (\<exists>d. getChannel s cid = Some d \<and> e = newEntry d)"
  by (auto simp: getEntry_def readB_def split: option.splits)

lemma emit_result:
  "emitChannelUpdatedEventAfterTX e r s = (s', x) \<Longrightarrow>
   x = Inr e \<and> bs_channels s' = bs_channels s \<and> bs_privateKeys s' = bs_privateKeys s \<and>
   bs_nonces s' = bs_nonces s \<and> bs_budgets s' = bs_budgets s"
  by (auto simp: emitChannelUpdatedEventAfterTX_def emitEvent_def returnB_def bindB_def writeB_def split: option.splits)

text \<open>A received state that starts with the signature of somebody who is no participant.\<close>

lemma storeAddState_refuses:
  assumes "getChannel s (calculateChannelId P st) = Some d" and "hashState P st = Inr h"
    and "\<forall>r \<in> set (csd_vars d). stateHash r \<noteq> h"
    and "signatures st = g # gs" and "signer g \<notin> signingAddress ` set (participants (csd_constants d))"
  shows "storeAddState P st b s =
    (setChannel (calculateChannelId P st)
       (d\<lparr>csd_vars := csd_vars d @ [hashedWith h (freshRef (csd_vars d)) st]\<rparr>) s,
     Inl (Error ''State not signed by a participant of this channel''))"
  by (simp add: storeAddState_def Let_def bindB_def readB_def returnB_def onEntry_def assms
      entryAddState_refuses [OF assms(2,3,5)])

text \<open>Signing a state whose hash no stored row has.\<close>

lemma signAndAddStateWithinTx_new:
  assumes "signAndAddStateWithinTx P cid ref v s = (s', Inr (e, row))"
    and "getChannel s cid = Some d"
    and "\<forall>r \<in> set (csd_vars d). hashState P (entryState (csd_constants d) v) \<noteq> Inr (stateHash r)"
  obtains h g n where "hashState P (entryState (csd_constants d) v) = Inr h"
    and "row = (hashedWith h n (entryState (csd_constants d) v))\<lparr>signatures := [g]\<rparr>"
    and "ownStates e = clearedStates (csd_constants d) (csd_vars d @ [row])"
    and "checkEntryInvariants e = Inr ()"
    and "ce_constants e = csd_constants d" and "getChannel s' cid = Some (entryData e)"
proof -
  let ?st = "entryState (csd_constants d) v" and ?e = "newEntry d"
  define r where "r = (case ref of None \<Rightarrow> freshRef (csd_vars d) | Some r \<Rightarrow> r)"
  from assms(1,2) obtain key s1 where tx: "onEntry cid (signAndAdd P r v key) ?e s = (s1, Inr (e, row))"
    and s': "s' = setChannel cid (entryData e) s1"
    unfolding r_def by (cases ref) (auto simp: signAndAddStateWithinTx_def bindB_def getEntry_def readB_def liftB_def returnB_def
        writeB_def split: prod.splits sum.splits)
  from tx have sign: "signAndAdd P r v key ?e = (e, Inr row)"
    by (auto simp: onEntry_def bindE_eq_Inr split: prod.splits)
  then obtain g where g: "createSignatureEntry P ?st key = Inr g" "entryAddState P r ?st g ?e = (e, Inr row)"
    by (auto simp: signAndAdd_def Let_def split: sum.splits if_splits)
  then obtain h where h: "hashState P ?st = Inr h"
    by (cases "hashState P ?st") (auto simp: entryAddState_def)
  with assms(3) have new: "\<forall>r \<in> set (csd_vars d). stateHash r \<noteq> h" by auto
  have "signer g \<in> signingAddress ` set (participants (csd_constants d))"
    using entryAddState_refuses [OF h new, of g r] g(2) by (cases "signer g \<in> signingAddress ` set (participants (csd_constants d))") auto
  from entryAddState_new [OF h new this refl, where ref = r] g(2) have e:
    "e = withRow d ((hashedWith h r ?st)\<lparr>signatures := [g]\<rparr>)" "row = (hashedWith h r ?st)\<lparr>signatures := [g]\<rparr>"
    "checkEntryInvariants e = Inr ()"
    by (auto simp: bindE_eq_Inr eq_commute [of "Inr row"])
  with that [OF h e(2)] s' show ?thesis by simp
qed

end
