(* ===== verification/BrowserSafety.thy ===== *)
theory BrowserSafety
  imports BrowserFacts
begin

text \<open>
  What the in-memory store of the browser wallet does to its channels and budgets: a refused state
  stays and blocks its turn, an update rewrites the state before it, and reservations are taken off
  the budget's capacities.
\<close>

section \<open>Clearing old states\<close>

lemma sort_key_append_last:
  fixes f :: "'a \<Rightarrow> int"
  assumes "\<forall>x \<in> set xs. f x \<le> f y"
  shows "sort_key f (xs @ [y]) = sort_key f xs @ [y]"
  using assms
proof (induction xs)
  case (Cons x xs)
  have "f x \<le> f y \<Longrightarrow> insort_key f x (zs @ [y]) = insort_key f x zs @ [y]" for zs
    by (induction zs) auto
  with Cons show ?case by simp
qed simp

lemma rev_sort_turns:
  assumes "sorted_wrt (\<lambda>a b. turnNum a > turnNum b) ss"
  shows "rev (sort_key turnNum ss) = ss"
  using assms
proof (induction ss)
  case (Cons s ss)
  have "insort_key turnNum s xs = xs @ [s]" if "\<forall>x \<in> set xs. turnNum x < turnNum s" for xs
    using that by (induction xs) auto
  with Cons have "sort_key turnNum (s # ss) = sort_key turnNum ss @ [s]" by simp
  with Cons show ?case by simp
qed simp

lemma findIndex_append_none:
  assumes "\<forall>x \<in> set xs. \<not> P x" and "\<exists>y \<in> set ys. P y"
  shows "findIndex P (xs @ ys) = int (length xs) + findIndex P ys"
  using assms
proof (induction xs)
  case (Cons x xs)
  from assms(2) have "findIndex P ys \<noteq> -1" by (simp add: findIndex_neg_iff)
  with findIndex_ge [of P ys] have "0 \<le> findIndex P ys" by linarith
  with Cons show ?case by (auto simp: Let_def)
qed simp

text \<open>A support ends with one of the states the loop still had to see.\<close>

lemma entrySupportLoop_last:
  "entrySupportLoop ps supp notSigned prev ss \<noteq> [] \<Longrightarrow> last (entrySupportLoop ps supp notSigned prev ss) \<in> set ss"
proof (induction ss arbitrary: supp notSigned prev)
  case (Cons s ss)
  from Cons.prems show ?case
    by (simp add: Let_def split: if_splits) (auto dest: Cons.IH)
qed simp

text \<open>States at the top that cannot end the support stay, together with the first state below them.\<close>

lemma cleared_prefix:
  assumes "rev (sort_key turnNum ss) = xs @ ys"
    and "supportIn c (xs @ ys) \<noteq> [] \<Longrightarrow> last (supportIn c (xs @ ys)) \<in> set ys"
    and "\<forall>x \<in> set xs. \<forall>y \<in> set ys. stateHash x \<noteq> stateHash y"
  shows "\<exists>zs. clearedStates c ss = xs @ take 1 ys @ zs"
proof (cases "supportIn c (xs @ ys)")
  case Nil
  then have "clearedStates c ss = xs @ take 1 ys @ drop 1 ys"
    using assms(1) by (simp add: clearedStates_def Let_def)
  then show ?thesis by blast
next
  case (Cons t ts)
  let ?P = "\<lambda>s. stateHash s = stateHash (last (t # ts))"
  from assms(2) Cons have l: "last (t # ts) \<in> set ys" by simp
  with assms(3) have "\<forall>x \<in> set xs. \<not> ?P x" by blast
  moreover from l have "\<exists>y \<in> set ys. ?P y" by blast
  ultimately have i: "findIndex ?P (xs @ ys) = int (length xs) + findIndex ?P ys"
    by (rule findIndex_append_none)
  from l have "findIndex ?P ys \<noteq> -1" by (auto simp: findIndex_neg_iff)
  with findIndex_ge [of ?P ys] have "0 \<le> findIndex ?P ys" by linarith
  then have n: "nat (findIndex ?P (xs @ ys) + 1) = length xs + Suc (nat (findIndex ?P ys))"
    unfolding i by linarith
  define n where "n = nat (findIndex ?P ys)"
  have "clearedStates c ss = take (length xs + Suc n) (xs @ ys)"
    using assms(1) Cons n by (simp add: clearedStates_def Let_def n_def)
  also have "\<dots> = xs @ take 1 ys @ take n (drop 1 ys)" by (cases ys) simp_all
  finally show ?thesis by blast
qed

lemma not_everyone:
  assumes "2 \<le> length ps" and "distinct (map signingAddress ps)"
  shows "filter (\<lambda>a. a \<notin> signer ` {g}) (map signingAddress ps) \<noteq> []"
proof -
  from assms have "card (set (map signingAddress ps)) = length ps"
    by (metis distinct_card length_map)
  moreover have "card {signer g} = 1" by simp
  ultimately have "\<not> set (map signingAddress ps) \<subseteq> {signer g}"
    using assms(1) card_mono [of "{signer g}" "set (map signingAddress ps)"] by fastforce
  then show ?thesis by (auto simp: filter_empty_conv)
qed

section \<open>The checks after adding\<close>

lemma checkEntryInvariants_distinct:
  assumes "checkEntryInvariants e = Inr u"
  shows "distinct (map turnNum (ownStates e))"
proof -
  let ?ts = "map turnNum (ownStates e)"
  from assms have *: "findIndex (\<lambda>t. t = ?ts ! i) ?ts = int i" if "i < length ?ts" for i
    using that by (auto simp: checkEntryInvariants_def Let_def list_ex_iff bindE_eq_Inr split: if_splits)
  show ?thesis unfolding distinct_conv_nth
  proof (intro allI impI)
    fix i j assume "i < length ?ts" "j < length ?ts" "i \<noteq> j"
    with * [of i] * [of j] show "?ts ! i \<noteq> ?ts ! j" by (metis of_nat_eq_iff)
  qed
qed

section \<open>A refused state\<close>

text \<open>
  an outsider stops a channel. A state of the next turn that somebody who is no participant has
  signed is refused, but it stays among the channel's rows; from then on the wallet cannot sign any
  other state of that turn.
\<close>

theorem outsider_blocks_a_turn:
  assumes "getChannel s (calculateChannelId P st) = Some d"
    and "signatures st = g # gs" and "signer g \<notin> signingAddress ` set (participants (csd_constants d))"
    and "hashState P st = Inr h"
    and "\<forall>r \<in> set (csd_vars d). stateHash r \<noteq> h \<and> turnNum r < turnNum st"
    and "2 \<le> length (participants (csd_constants d))"
    and "distinct (map signingAddress (participants (csd_constants d)))"
    and "storeAddState P st b s = (s', res)"
    and "v_turnNum v = turnNum st"
    and "\<forall>r \<in> set (csd_vars d). hashState P (entryState (csd_constants d) v) \<noteq> Inr (stateHash r)"
    and "hashState P (entryState (csd_constants d) v) \<noteq> Inr h"
  shows "isl res \<and> isl (snd (signAndAddState P (calculateChannelId P st) v s'))"
proof -
  let ?cid = "calculateChannelId P st" and ?ps = "participants (csd_constants d)"
  define f where "f = hashedWith h (freshRef (csd_vars d)) st"
  let ?d = "d\<lparr>csd_vars := csd_vars d @ [f]\<rparr>"
  from assms(5) have hashes: "\<forall>r \<in> set (csd_vars d). stateHash r \<noteq> h" by blast
  from storeAddState_refuses [OF assms(1,4) hashes assms(2,3), of b] assms(8)
  have s': "s' = setChannel ?cid ?d s" and "isl res" by (auto simp: f_def)
  have "isl (snd (signAndAddState P ?cid v s'))"
  proof (rule ccontr)
    assume "\<not> ?thesis"
    then obtain s2 e row where "signAndAddStateWithinTx P ?cid None v s' = (s2, Inr (e, row))"
      by (auto simp: signAndAddState_def bindB_def split: prod.splits sum.splits)
    moreover have "getChannel s' ?cid = Some ?d" by (simp add: s')
    moreover have "\<forall>r \<in> set (csd_vars ?d). hashState P (entryState (csd_constants ?d) v) \<noteq> Inr (stateHash r)"
      using assms(10,11) by (simp add: f_def)
    ultimately obtain h2 n g2 where h2: "hashState P (entryState (csd_constants ?d) v) = Inr h2"
      and row: "row = (hashedWith h2 n (entryState (csd_constants ?d) v))\<lparr>signatures := [g2]\<rparr>"
      and own: "ownStates e = clearedStates (csd_constants ?d) (csd_vars ?d @ [row])"
      and ok: "checkEntryInvariants e = Inr ()"
      by (rule signAndAddStateWithinTx_new)
    let ?rest = "rev (sort_key turnNum (csd_vars d))"
    have row': "turnNum row = turnNum f" "stateHash row = h2" "signatures row = [g2]"
      using assms(9) by (simp_all add: row f_def entryState_def)
    have "sort_key turnNum (csd_vars d @ [f]) = sort_key turnNum (csd_vars d) @ [f]"
      by (rule sort_key_append_last) (use assms(5) in \<open>auto simp: f_def intro: less_imp_le\<close>)
    moreover have "sort_key turnNum ((csd_vars d @ [f]) @ [row]) = sort_key turnNum (csd_vars d @ [f]) @ [row]"
      by (rule sort_key_append_last) (use assms(5) row' in \<open>auto simp: f_def intro: less_imp_le\<close>)
    ultimately have sorted: "rev (sort_key turnNum (csd_vars ?d @ [row])) = [row, f] @ ?rest" by simp
    have sup: "last (supportIn (csd_constants d) ([row, f] @ ?rest)) \<in> set ?rest"
      if "supportIn (csd_constants d) ([row, f] @ ?rest) \<noteq> []"
    proof -
      have "\<not> validChain (length ?ps) f row" using row' by (simp add: validChain_def)
      moreover have "\<not> moverSigned ?ps f" by (simp add: moverSigned_def f_def split: option.split)
      moreover have "filter (\<lambda>a. a \<notin> signer ` set (signatures row)) (map signingAddress ?ps) \<noteq> []"
        using not_everyone [OF assms(6,7), of g2] row' by simp
      ultimately obtain supp where "supportIn (csd_constants d) ([row, f] @ ?rest) =
          entrySupportLoop ?ps supp (map signingAddress ?ps) (Some f) ?rest"
        by (simp add: supportIn_def Let_def split: if_splits)
      with that entrySupportLoop_last show ?thesis by metis
    qed
    have "\<exists>zs. clearedStates (csd_constants d) (csd_vars ?d @ [row]) = [row, f] @ take 1 ?rest @ zs"
      by (rule cleared_prefix [OF sorted sup])
         (use assms(4,5,10,11) h2 row' in \<open>auto simp: f_def\<close>)
    with own row' have "\<not> distinct (map turnNum (ownStates e))" by auto
    with checkEntryInvariants_distinct [OF ok] show False by simp
  qed
  with \<open>isl res\<close> show ?thesis by simp
qed

section \<open>Updating a channel\<close>

lemma mergeItems_eq: "mergeItems xs ys = ys @ drop (length ys) xs"
  by (induction xs ys rule: mergeItems.induct) simp_all

definition rewritten :: "stored_state \<Rightarrow> simple_allocation \<Rightarrow> stored_state \<Rightarrow> stored_state" where
  "rewritten old u r = (if outcomeRef r = outcomeRef old then r\<lparr>outcome := mergeOutcome (outcome r) u\<rparr> else r)"

lemma rewritten_simps [simp]:
  "turnNum (rewritten old u r) = turnNum r" "stateHash (rewritten old u r) = stateHash r"
  "signatures (rewritten old u r) = signatures r"
  by (simp_all add: rewritten_def)

text \<open>
  The hypotheses of the two theorems on updates: the channel's rows come latest first and the latest
  is the supported one; at least two participants; the new state is none that is stored.
\<close>

definition readyToUpdate :: "platform \<Rightarrow> bytes32 \<Rightarrow> update_data \<Rightarrow> browser_store \<Rightarrow> stored_channel \<Rightarrow> stored_state \<Rightarrow> bool"
where
  "readyToUpdate P cid u s d old \<longleftrightarrow>
     getChannel s cid = Some d \<and> entrySupported (newEntry d) = Inr old \<and> old = hd (csd_vars d) \<and>
     csd_vars d \<noteq> [] \<and> sorted_wrt (\<lambda>a b. turnNum a > turnNum b) (csd_vars d) \<and>
     2 \<le> length (participants (csd_constants d)) \<and> distinct (map signingAddress (participants (csd_constants d))) \<and>
     (\<forall>r \<in> set (csd_vars d).
        hashState P (entryState (csd_constants d) (mergedVars old u)) \<noteq> Inr (stateHash r))"

lemma browserUpdateChannel_rows:
  assumes ready: "readyToUpdate P cid u s d old" and u: "ud_outcome u = Some a"
    and run: "browserUpdateChannel P cid u s = (s', Inr e)"
  obtains zs row g where "ownStates e = row # rewritten old a old # zs" and "signatures row = [g]"
    and "turnNum row = turnNum old + 1" and "outcome row = mergeOutcome (outcome old) a"
    and "getChannel s' cid = Some (entryData e)"
proof -
  from ready have d: "getChannel s cid = Some d" "entrySupported (newEntry d) = Inr old"
    and hashes: "\<forall>r \<in> set (csd_vars d).
        hashState P (entryState (csd_constants d) (mergedVars old u)) \<noteq> Inr (stateHash r)"
    unfolding readyToUpdate_def by blast+
  let ?s1 = "setChannel cid (mergeInPlace (outcomeRef old) a d) s"
  let ?d1 = "mergeInPlace (outcomeRef old) a d"
  have merged: "mergeStored cid (outcomeRef old) (Some a) = writeB (\<lambda>s. case getChannel s cid of
      Some d \<Rightarrow> setChannel cid (mergeInPlace (outcomeRef old) a d) s | None \<Rightarrow> s)"
    by (simp add: mergeStored_def split: option.splits)
  from run obtain e1 row s2 where
    tx: "signAndAddStateWithinTx P cid (Some (outcomeRef old)) (mergedVars old u) ?s1 = (s2, Inr (e1, row))"
    and em: "emitChannelUpdatedEventAfterTX e1 (Some row) s2 = (s', Inr e)"
    by (auto simp: browserUpdateChannel_def getEntry_def readB_def liftB_def d u merged throwB_def bindB_def
        writeB_def split: prod.splits sum.splits if_splits)
  have d1: "csd_vars ?d1 = map (rewritten old a) (csd_vars d)" "csd_constants ?d1 = csd_constants d"
    by (simp_all add: mergeInPlace_def rewritten_def fun_eq_iff)
  have s1: "getChannel ?s1 cid = Some ?d1" by simp
  have "\<forall>r \<in> set (csd_vars ?d1). hashState P (entryState (csd_constants ?d1) (mergedVars old u)) \<noteq> Inr (stateHash r)"
    using hashes by (simp add: d1)
  from tx s1 this obtain h n g where hash: "hashState P (entryState (csd_constants ?d1) (mergedVars old u)) = Inr h"
    and row: "row = (hashedWith h n (entryState (csd_constants ?d1) (mergedVars old u)))\<lparr>signatures := [g]\<rparr>"
    and own: "ownStates e1 = clearedStates (csd_constants ?d1) (csd_vars ?d1 @ [row])"
    and "checkEntryInvariants e1 = Inr ()" and "ce_constants e1 = csd_constants ?d1"
    and g1: "getChannel s2 cid = Some (entryData e1)"
    by (rule signAndAddStateWithinTx_new)
  let ?rows = "csd_vars ?d1" and ?ps = "participants (csd_constants d)"
  have row': "turnNum row = turnNum old + 1" "signatures row = [g]" "outcome row = mergeOutcome (outcome old) a"
    "stateHash row = h"
    by (simp_all add: row entryState_def mergedVars_def u)
  from ready have desc: "sorted_wrt (\<lambda>a b. turnNum a > turnNum b) (csd_vars d)" and ne: "csd_vars d \<noteq> []"
    and hd: "old = hd (csd_vars d)" by (auto simp: readyToUpdate_def)
  from desc have "sorted_wrt (\<lambda>a b. turnNum a > turnNum b) ?rows" by (simp add: d1 sorted_wrt_map)
  then have rev_rows: "rev (sort_key turnNum ?rows) = ?rows" by (rule rev_sort_turns)
  have "\<forall>r \<in> set (csd_vars d). turnNum r \<le> turnNum old"
    using desc ne by (cases "csd_vars d") (auto simp: hd)
  then have le: "\<forall>r \<in> set ?rows. turnNum r \<le> turnNum row"
    by (auto simp: d1 row')
  have sorted: "rev (sort_key turnNum (?rows @ [row])) = [row] @ ?rows"
    by (simp add: sort_key_append_last [OF le] rev_rows)
  have sup: "last (supportIn (csd_constants d) ([row] @ ?rows)) \<in> set ?rows"
    if "supportIn (csd_constants d) ([row] @ ?rows) \<noteq> []"
  proof -
    have "filter (\<lambda>a. a \<notin> signer ` {g}) (map signingAddress ?ps) \<noteq> []"
      using ready unfolding readyToUpdate_def by (intro not_everyone) blast+
    then have ne: "filter (\<lambda>a. a \<notin> signer ` set (signatures row)) (map signingAddress ?ps) \<noteq> []"
      unfolding row' by simp
    obtain supp notSigned where "supportIn (csd_constants d) ([row] @ ?rows) =
        entrySupportLoop ?ps supp notSigned (Some row) ?rows"
      by (cases "moverSigned ?ps row")
         (simp_all only: supportIn_def append.simps entrySupportLoop.simps Let_def option.case if_False if_True ne)
    with that entrySupportLoop_last show ?thesis by metis
  qed
  have "\<exists>zs. clearedStates (csd_constants d) (?rows @ [row]) = [row] @ take 1 ?rows @ zs"
  proof (rule cleared_prefix [OF sorted sup])
    show "\<forall>x \<in> set [row]. \<forall>y \<in> set ?rows. stateHash x \<noteq> stateHash y"
      using hashes hash row' by (auto simp: d1)
  qed
  moreover have "take 1 ?rows = [rewritten old a old]" unfolding d1 using ne hd by (cases "csd_vars d") simp_all
  ultimately obtain zs where "ownStates e1 = row # rewritten old a old # zs" using own by (auto simp: d1)
  moreover from emit_result [OF em] have "e = e1" "bs_channels s' = bs_channels s2" by auto
  moreover from this g1 have "getChannel s' cid = Some (entryData e)" by (simp add: getChannel_def)
  ultimately show ?thesis using that row' by blast
qed

text \<open>
  an update rewrites the state below it. The merge of the new outcome changes the object that the
  supported state holds: afterwards that state is stored with the new outcome and with the hash and
  the signatures that were made for the old one.
\<close>

theorem update_rewrites_signed_state:
  assumes "readyToUpdate P cid u s d old" and "ud_outcome u = Some a"
    and "browserUpdateChannel P cid u s = (s', Inr e)"
  shows "\<exists>d' r. getChannel s' cid = Some d' \<and> r \<in> set (csd_vars d') \<and> turnNum r = turnNum old \<and>
     stateHash r = stateHash old \<and> signatures r = signatures old \<and>
     outcome r = mergeOutcome (outcome old) a"
proof -
  from browserUpdateChannel_rows [OF assms] obtain zs row g where
    "ownStates e = row # rewritten old a old # zs" "getChannel s' cid = Some (entryData e)" by metis
  then show ?thesis
    by (intro exI [of _ "entryData e"] exI [of _ "rewritten old a old"]) (simp add: entryData_def rewritten_def)
qed

text \<open>
  an update with fewer items than the outcome before keeps the rest of the old ones. The state
  the wallet signs then divides the new items and the old tail, whatever the channel holds.
\<close>

theorem update_keeps_removed_items:
  assumes "readyToUpdate P cid u s d old" and "ud_outcome u = Some a"
    and "browserUpdateChannel P cid u s = (s', Inr e)" and "outcome old = SimpleAllocation b"
  shows "\<exists>r b'. r \<in> set (ownStates e) \<and> turnNum r = turnNum old + 1 \<and> length (signatures r) = 1 \<and>
     outcome r = SimpleAllocation b' \<and>
     allocationItems b' = allocationItems a @ drop (length (allocationItems a)) (allocationItems b)"
proof -
  from browserUpdateChannel_rows [OF assms(1-3)] obtain zs row g where
    "ownStates e = row # rewritten old a old # zs" "signatures row = [g]" "turnNum row = turnNum old + 1"
    "outcome row = mergeOutcome (outcome old) a" by metis
  then show ?thesis by (intro exI [of _ row]) (simp add: assms(4) mergeItems_eq)
qed

section \<open>Budgets\<close>

definition assetTotal :: "asset_budget \<Rightarrow> uint256" where
  "assetTotal ab =
     ab_availableSendCapacity ab + ab_availableReceiveCapacity ab + sum_list (map snd (ab_channels ab))"

lemma sum_update:
  assumes "distinct (map fst xs)"
  shows "sum_list (map snd (AList.update k v xs)) =
    sum_list (map snd xs) - (case map_of xs k of None \<Rightarrow> 0 | Some n \<Rightarrow> n) + (v :: int)"
  using assms
proof (induction xs)
  case (Cons x xs)
  then show ?case by (cases x) (auto dest: map_of_SomeD split: option.splits simp: map_of_eq_None_iff)
qed simp

lemma map_of_setAssetBudget:
  "map_of (bud_forAsset (setAssetBudget a ab b)) c = (if c = a then Some ab else map_of (bud_forAsset b) c)"
  by (simp add: setAssetBudget_def update_conv)

text \<open>
  what a reservation does to a budget. It needs both capacities, takes the two amounts off them and
  books their sum for the channel, so that the total stays; only what was booked for the same channel
  before is forgotten.
\<close>

theorem reserveFunds_accounts:
  assumes "reserveFunds a cid send receive s = (s', Inr b')"
    and "getChannel s cid = Some d" and "csd_applicationDomain d = Some domain"
    and "bs_budgets s domain = Some b" and "map_of (bud_forAsset b) a = Some ab"
    and "distinct (map fst (ab_channels ab))"
  shows "\<exists>ab'. bs_budgets s' (bud_domain b) = Some b' \<and> map_of (bud_forAsset b') a = Some ab' \<and>
     send \<le> ab_availableSendCapacity ab \<and> receive \<le> ab_availableReceiveCapacity ab \<and>
     map_of (ab_channels ab') cid = Some (send + receive) \<and>
     assetTotal ab' = assetTotal ab - (case map_of (ab_channels ab) cid of None \<Rightarrow> 0 | Some n \<Rightarrow> n)"
proof -
  let ?ab = "ab\<lparr>ab_availableSendCapacity := ab_availableSendCapacity ab - send,
      ab_availableReceiveCapacity := ab_availableReceiveCapacity ab - receive,
      ab_channels := AList.update cid (send + receive) (ab_channels ab)\<rparr>"
  from assms(1-5) have enough: "send \<le> ab_availableSendCapacity ab" "receive \<le> ab_availableReceiveCapacity ab"
    and r: "s' = setBudget (bud_domain b) (setAssetBudget a ?ab b) s" "b' = setAssetBudget a ?ab b"
    by (auto simp: reserveFunds_def bindB_def getEntry_def readB_def throwB_def writeB_def returnB_def Let_def
        split: if_splits)
  have "assetTotal ?ab = assetTotal ab - (case map_of (ab_channels ab) cid of None \<Rightarrow> 0 | Some n \<Rightarrow> n)"
    by (simp add: assetTotal_def sum_update [OF assms(6)] split: option.split)
  with enough show ?thesis
    by (intro exI [of _ ?ab]) (simp add: r setBudget_def map_of_setAssetBudget update_conv)
qed

section \<open>Witnesses\<close>

definition browserRow :: "int \<Rightarrow> address \<Rightarrow> stored_state" where
  "browserRow n a = (hashedWith (replicate (nat n) (CHR ''h'')) (nat n)
     (sampleState n (sampleAllocation [(CHR ''a'', 5), (CHR ''b'', 5)]) []))
     \<lparr>signatures := [\<lparr>signature = ''sig'' @ a, signer = a\<rparr>]\<rparr>"

definition browserChannel :: stored_channel where
  "browserChannel = \<lparr>csd_vars = [browserRow 5 ''0xB'', browserRow 4 ''0xA''], csd_constants = sampleConstants,
     csd_funding = None, csd_applicationDomain = Some ''app.com'', csd_myIndex = 0\<rparr>"

definition browserBudget :: domain_budget where
  "browserBudget = \<lparr>bud_domain = ''app.com'', bud_hubAddress = ''0xH'', bud_forAsset =
     [(zeroAddress, \<lparr>ab_asset = zeroAddress, ab_availableReceiveCapacity = 10, ab_availableSendCapacity = 10,
        ab_channels = []\<rparr>)]\<rparr>"

definition sampleStore :: browser_store where
  "sampleStore = emptyStore\<lparr>bs_channels := [(sampleDest CHR ''l'', browserChannel)],
     bs_privateKeys := [(''0xA'', ''0xA'')], bs_budgets := (\<lambda>_. None)(''app.com'' \<mapsto> browserBudget)\<rparr>"

definition sampleUpdate :: update_data where
  "sampleUpdate = \<lparr>ud_outcome = Some (sampleAllocation [(CHR ''a'', 10)]), ud_appData = None, ud_isFinal = None\<rparr>"

lemma getChannel_sample: "getChannel sampleStore (sampleDest CHR ''l'') = Some browserChannel"
  by (simp add: sampleStore_def getChannel_def)

lemma sample_ready:
  "readyToUpdate samplePlatform (sampleDest CHR ''l'') sampleUpdate sampleStore browserChannel (browserRow 5 ''0xB'')"
  unfolding readyToUpdate_def
proof (intro conjI)
  show "getChannel sampleStore (sampleDest CHR ''l'') = Some browserChannel" by (rule getChannel_sample)
  show "entrySupported (newEntry browserChannel) = Inr (browserRow 5 ''0xB'')" by code_simp
  show "browserRow 5 ''0xB'' = hd (csd_vars browserChannel)" "csd_vars browserChannel \<noteq> []"
    by (simp_all add: browserChannel_def)
  show "sorted_wrt (\<lambda>a b. turnNum a > turnNum b) (csd_vars browserChannel)"
    by (simp add: browserChannel_def browserRow_def sampleState_def)
  show "2 \<le> length (participants (csd_constants browserChannel))"
    "distinct (map signingAddress (participants (csd_constants browserChannel)))"
    by (simp_all add: browserChannel_def sampleConstants_def sampleParticipants_def)
  show "\<forall>r \<in> set (csd_vars browserChannel).
      hashState samplePlatform (entryState (csd_constants browserChannel) (mergedVars (browserRow 5 ''0xB'') sampleUpdate))
        \<noteq> Inr (stateHash r)" by code_simp
qed

lemma sample_update_succeeds:
  "\<not> isl (snd (browserUpdateChannel samplePlatform (sampleDest CHR ''l'') sampleUpdate sampleStore))"
  by code_simp

lemma sample_update:
  obtains s' e where
    "browserUpdateChannel samplePlatform (sampleDest CHR ''l'') sampleUpdate sampleStore = (s', Inr e)"
proof -
  obtain s' r where run: "browserUpdateChannel samplePlatform (sampleDest CHR ''l'') sampleUpdate sampleStore = (s', r)"
    by (cases "browserUpdateChannel samplePlatform (sampleDest CHR ''l'') sampleUpdate sampleStore")
  with sample_update_succeeds obtain e where "r = Inr e" by (cases r) auto
  with run that show ?thesis by simp
qed

theorem update_rewrites_signed_state_witness:
  "\<exists>s' e d' r. browserUpdateChannel samplePlatform (sampleDest CHR ''l'') sampleUpdate sampleStore = (s', Inr e) \<and>
     getChannel s' (sampleDest CHR ''l'') = Some d' \<and> r \<in> set (csd_vars d') \<and> turnNum r = 5 \<and>
     signatures r = signatures (browserRow 5 ''0xB'') \<and> outcome r \<noteq> outcome (browserRow 5 ''0xB'')"
proof -
  obtain s' e where run: "browserUpdateChannel samplePlatform (sampleDest CHR ''l'') sampleUpdate sampleStore = (s', Inr e)"
    by (rule sample_update)
  have u: "ud_outcome sampleUpdate = Some (sampleAllocation [(CHR ''a'', 10)])" by (simp add: sampleUpdate_def)
  have "mergeOutcome (outcome (browserRow 5 ''0xB'')) (sampleAllocation [(CHR ''a'', 10)]) \<noteq> outcome (browserRow 5 ''0xB'')"
    "turnNum (browserRow 5 ''0xB'') = 5"
    by (simp_all add: browserRow_def sampleState_def sampleAllocation_def)
  with update_rewrites_signed_state [OF sample_ready u run] run show ?thesis by metis
qed

theorem update_keeps_removed_items_witness:
  "\<exists>s' e r b. browserUpdateChannel samplePlatform (sampleDest CHR ''l'') sampleUpdate sampleStore = (s', Inr e) \<and>
     r \<in> set (ownStates e) \<and> outcome r = SimpleAllocation b \<and> map amount (allocationItems b) = [10, 5]"
proof -
  obtain s' e where run: "browserUpdateChannel samplePlatform (sampleDest CHR ''l'') sampleUpdate sampleStore = (s', Inr e)"
    by (rule sample_update)
  have u: "ud_outcome sampleUpdate = Some (sampleAllocation [(CHR ''a'', 10)])" by (simp add: sampleUpdate_def)
  have o5: "outcome (browserRow 5 ''0xB'') = SimpleAllocation (sampleAllocation [(CHR ''a'', 5), (CHR ''b'', 5)])"
    by (simp add: browserRow_def sampleState_def)
  from update_keeps_removed_items [OF sample_ready u run o5] obtain r b where
    "r \<in> set (ownStates e)" "outcome r = SimpleAllocation b"
    "allocationItems b = allocationItems (sampleAllocation [(CHR ''a'', 10)]) @
       drop 1 (allocationItems (sampleAllocation [(CHR ''a'', 5), (CHR ''b'', 5)]))"
    by (auto simp: sampleAllocation_def)
  with run show ?thesis by (auto simp: sampleAllocation_def intro!: exI)
qed

theorem reserveFunds_accounts_witness:
  "\<exists>s' b' ab. reserveFunds zeroAddress (sampleDest CHR ''l'') 3 4 sampleStore = (s', Inr b') \<and>
     map_of (bud_forAsset b') zeroAddress = Some ab \<and> assetTotal ab = 20 \<and>
     map_of (ab_channels ab) (sampleDest CHR ''l'') = Some 7"
proof -
  let ?ab = "\<lparr>ab_asset = zeroAddress, ab_availableReceiveCapacity = 10, ab_availableSendCapacity = 10, ab_channels = []\<rparr>"
  have "\<not> isl (snd (reserveFunds zeroAddress (sampleDest CHR ''l'') 3 4 sampleStore))" by code_simp
  then obtain s' b' where run: "reserveFunds zeroAddress (sampleDest CHR ''l'') 3 4 sampleStore = (s', Inr b')"
    by (cases "reserveFunds zeroAddress (sampleDest CHR ''l'') 3 4 sampleStore"; cases "snd (reserveFunds zeroAddress (sampleDest CHR ''l'') 3 4 sampleStore)") auto
  have "csd_applicationDomain browserChannel = Some ''app.com''" by (simp add: browserChannel_def)
  moreover have "bs_budgets sampleStore ''app.com'' = Some browserBudget" by (simp add: sampleStore_def)
  moreover have "map_of (bud_forAsset browserBudget) zeroAddress = Some ?ab" by (simp add: browserBudget_def)
  moreover have "distinct (map fst (ab_channels ?ab))" by simp
  ultimately obtain ab where "map_of (bud_forAsset b') zeroAddress = Some ab" "assetTotal ab = assetTotal ?ab"
    "map_of (ab_channels ab) (sampleDest CHR ''l'') = Some 7"
    using reserveFunds_accounts [OF run getChannel_sample] by fastforce
  with run show ?thesis by (auto simp: assetTotal_def)
qed

definition outsiderState :: signed_state where
  "outsiderState = (sampleState 6 (sampleAllocation [(CHR ''a'', 10)]) [''0xC''])\<lparr>appData := ''evil''\<rparr>"

definition movedVars :: state_variables where
  "movedVars = \<lparr>v_outcome = SimpleAllocation (sampleAllocation [(CHR ''a'', 7), (CHR ''b'', 3)]), v_turnNum = 6,
     v_appData = ''0x'', v_isFinal = False\<rparr>"

text \<open>Hashing that looks at the application's data too.\<close>

definition finePlatform :: platform where
  "finePlatform = samplePlatform\<lparr>hashNitroState := (\<lambda>n. ns_appData n @ replicate (nat (ns_turnNum n)) (CHR ''h''))\<rparr>"

theorem outsider_blocks_a_turn_witness:
  "\<exists>s' res. storeAddState finePlatform outsiderState False sampleStore = (s', res) \<and> isl res \<and>
     \<not> isl (snd (signAndAddState finePlatform (sampleDest CHR ''l'') movedVars sampleStore)) \<and>
     isl (snd (signAndAddState finePlatform (sampleDest CHR ''l'') movedVars s'))"
proof -
  let ?cid = "sampleDest CHR ''l''" and ?h = "''evil'' @ replicate 6 (CHR ''h'')"
  obtain s' res where run: "storeAddState finePlatform outsiderState False sampleStore = (s', res)"
    by (cases "storeAddState finePlatform outsiderState False sampleStore")
  have cid: "calculateChannelId finePlatform outsiderState = ?cid" by code_simp
  have d: "getChannel sampleStore (calculateChannelId finePlatform outsiderState) = Some browserChannel"
    unfolding cid by (rule getChannel_sample)
  have g: "signatures outsiderState = \<lparr>signature = ''sig0xC'', signer = ''0xC''\<rparr> # []" by code_simp
  have out: "signer \<lparr>signature = ''sig0xC'', signer = ''0xC''\<rparr> \<notin> signingAddress ` set (participants (csd_constants browserChannel))"
    by code_simp
  have h: "hashState finePlatform outsiderState = Inr ?h" by code_simp
  have rows: "\<forall>r \<in> set (csd_vars browserChannel). stateHash r \<noteq> ?h \<and> turnNum r < turnNum outsiderState" by code_simp
  have ps: "2 \<le> length (participants (csd_constants browserChannel))"
    "distinct (map signingAddress (participants (csd_constants browserChannel)))" by code_simp+
  have v: "v_turnNum movedVars = turnNum outsiderState" by code_simp
  have other: "\<forall>r \<in> set (csd_vars browserChannel).
      hashState finePlatform (entryState (csd_constants browserChannel) movedVars) \<noteq> Inr (stateHash r)"
    "hashState finePlatform (entryState (csd_constants browserChannel) movedVars) \<noteq> Inr ?h" by code_simp+
  have "\<not> isl (snd (signAndAddState finePlatform ?cid movedVars sampleStore))" by code_simp
  with outsider_blocks_a_turn [OF d g out h rows ps run v other] run show ?thesis by (auto simp: cid)
qed

end
