(* ===== verification/NitroFacts.thy ===== *)
theory NitroFacts
  imports ChannelStorage ChannelStates
begin

text \<open>
  The signature arguments of a transaction to the adjudicator: what they say of who signed what, and
  that nothing is missing when every participant has signed.
\<close>

section \<open>The loops over signed states\<close>

lemma foldE_prefix:
  assumes "I [] s"
    and "\<And>ys y zs s. xs = ys @ y # zs \<Longrightarrow> I ys s \<Longrightarrow> \<exists>s'. f s y = Inr s' \<and> I (ys @ [y]) s'"
  shows "\<exists>s'. foldE f s xs = Inr s' \<and> I xs s'"
proof -
  have "xs = ys @ zs \<Longrightarrow> I ys s \<Longrightarrow> \<exists>s'. foldE f s zs = Inr s' \<and> I xs s'" for ys zs s
  proof (induction zs arbitrary: ys s)
    case (Cons y zs)
    from assms(2) [OF Cons.prems] obtain s' where "f s y = Inr s'" "I (ys @ [y]) s'" by blast
    with Cons.IH [of "ys @ [y]" s'] Cons.prems(1) show ?case by simp
  qed simp
  from this [of "[]" xs s] assms(1) show ?thesis by simp
qed

lemma length_jsSet: "length (jsSet k x xs) = (if k < 0 then length xs else max (length xs) (Suc (nat k)))"
  by (auto simp: jsSet_def)

lemma nth_jsSet:
  assumes "j < length (jsSet k x xs)" and "0 \<le> k"
  shows "jsSet k x xs ! j = (if j = nat k then Some x else if j < length xs then xs ! j else None)"
  using assms by (auto simp: jsSet_def nth_append nth_list_update nth_Cons' length_jsSet)

text \<open>
  Between the loops: \<open>us\<close> are the signed states done so far, each with the index of its state. A
  participant has an entry exactly when one of them is signed by it, and then the entry names such
  a one.
\<close>

definition recoversTo :: "platform \<Rightarrow> signed_nitro \<Rightarrow> address \<Rightarrow> bool" where
  "recoversTo P s a \<longleftrightarrow> recoverNitro P (sn_state s) (sn_signature s) = Some a"

definition argumentsOk ::
  "platform \<Rightarrow> address list \<Rightarrow> nat \<Rightarrow> (nat \<times> signed_nitro) set \<Rightarrow>
   string option list \<times> nat option list \<Rightarrow> bool" where
  "argumentsOk P ps m us acc \<longleftrightarrow>
     length (snd acc) = length ps \<and> m \<le> length (fst acc) \<and> length (fst acc) \<le> max m (length ps) \<and>
     (\<forall>k < length ps.
        case snd acc ! k of
          None \<Rightarrow> \<forall>(i, s) \<in> us. \<not> recoversTo P s (ps ! k)
        | Some i \<Rightarrow> k < length (fst acc) \<and>
            (\<exists>s. (i, s) \<in> us \<and> recoversTo P s (ps ! k) \<and> fst acc ! k = Some (sn_signature s)))"

lemma argumentsOk_entry:
  assumes "argumentsOk P ps m us acc" and "k < length ps" and "(i, s) \<in> us" and "recoversTo P s (ps ! k)"
  shows "\<exists>i s. snd acc ! k = Some i \<and> k < length (fst acc) \<and> (i, s) \<in> us \<and>
     recoversTo P s (ps ! k) \<and> fst acc ! k = Some (sn_signature s)"
proof -
  from assms(1,2) have "case snd acc ! k of
      None \<Rightarrow> \<forall>(i, s) \<in> us. \<not> recoversTo P s (ps ! k)
    | Some i \<Rightarrow> k < length (fst acc) \<and>
        (\<exists>s. (i, s) \<in> us \<and> recoversTo P s (ps ! k) \<and> fst acc ! k = Some (sn_signature s))"
    unfolding argumentsOk_def by blast
  with assms(3,4) show ?thesis by (cases "snd acc ! k") auto
qed

lemma findIndex_distinct: "distinct ps \<Longrightarrow> k < length ps \<Longrightarrow> findIndex (\<lambda>p. p = ps ! k) ps = int k"
proof (induction ps arbitrary: k)
  case (Cons p ps) then show ?case by (cases k) (auto simp: Let_def)
qed simp

lemma setSignature_ok:
  assumes "argumentsOk P ps m us acc" and "distinct ps"
    and "recoversTo P s a" and "a \<in> set ps" and "nc_participants (ns_channel (sn_state s)) = ps"
  shows "\<exists>acc'. setSignature P ps i acc s = Inr acc' \<and> argumentsOk P ps m (insert (i, s) us) acc'"
proof -
  from assms(4) obtain k where k: "k < length ps" "a = ps ! k" by (auto simp: in_set_conv_nth)
  let ?acc = "(jsSet (int k) (sn_signature s) (fst acc), jsSet (int k) i (snd acc))"
  have "setSignature P ps i acc s = Inr ?acc"
    using assms(3-5) k findIndex_distinct [OF assms(2) k(1)]
    by (simp add: setSignature_def getStateSignerAddress_def recoversTo_def Let_def)
  moreover have "argumentsOk P ps m (insert (i, s) us) ?acc"
  proof -
    have other: "\<not> recoversTo P s (ps ! j)" if "j < length ps" "j \<noteq> k" for j
      using assms(2,3) k that by (auto simp: recoversTo_def nth_eq_iff_index_eq)
    have "case snd ?acc ! j of
          None \<Rightarrow> \<forall>(i, s) \<in> insert (i, s) us. \<not> recoversTo P s (ps ! j)
        | Some i' \<Rightarrow> j < length (fst ?acc) \<and>
            (\<exists>s'. (i', s') \<in> insert (i, s) us \<and> recoversTo P s' (ps ! j) \<and> fst ?acc ! j = Some (sn_signature s'))"
      if j: "j < length ps" for j
    proof (cases "j = k")
      case True
      then show ?thesis
        using assms(1,3) k j by (auto simp: argumentsOk_def length_jsSet nth_jsSet)
    next
      case False
      from assms(1) j have old: "case snd acc ! j of
          None \<Rightarrow> \<forall>(i, s) \<in> us. \<not> recoversTo P s (ps ! j)
        | Some i \<Rightarrow> j < length (fst acc) \<and>
            (\<exists>s. (i, s) \<in> us \<and> recoversTo P s (ps ! j) \<and> fst acc ! j = Some (sn_signature s))"
        by (simp add: argumentsOk_def)
      have "snd ?acc ! j = snd acc ! j"
        using assms(1) j False k by (simp add: nth_jsSet length_jsSet argumentsOk_def)
      moreover have "j < length (fst acc) \<Longrightarrow> fst ?acc ! j = fst acc ! j \<and> j < length (fst ?acc)"
        using False k by (simp add: nth_jsSet length_jsSet)
      ultimately show ?thesis using old other [OF j False]
        by (auto split: option.splits)
    qed
    then show ?thesis using assms(1) k by (auto simp: argumentsOk_def length_jsSet)
  qed
  ultimately show ?thesis by blast
qed

text \<open>Every signed state is genuine, and all are of one channel.\<close>

definition genuine :: "platform \<Rightarrow> address list \<Rightarrow> signed_nitro \<Rightarrow> bool" where
  "genuine P ps s \<longleftrightarrow> nc_participants (ns_channel (sn_state s)) = ps \<and> (\<exists>a \<in> set ps. recoversTo P s a)"

lemma setSignaturesOf_ok:
  assumes "argumentsOk P ps m us acc" and "distinct ps" and "\<forall>s \<in> set xs. genuine P ps s"
  shows "\<exists>acc'. setSignaturesOf P ps xs acc (i, r) = Inr acc' \<and>
     argumentsOk P ps m (us \<union> Pair i ` set (filter (\<lambda>s. sn_stateObject s = sn_stateObject r) xs)) acc'"
proof -
  let ?fs = "filter (\<lambda>s. sn_stateObject s = sn_stateObject r) xs"
  have "\<exists>acc'. foldE (setSignature P ps i) acc ?fs = Inr acc' \<and>
      argumentsOk P ps m (us \<union> Pair i ` set ?fs) acc'"
  proof (rule foldE_prefix [where I = "\<lambda>ys acc. argumentsOk P ps m (us \<union> Pair i ` set ys) acc"])
    fix ys y zs acc'
    assume fs: "?fs = ys @ y # zs" and I: "argumentsOk P ps m (us \<union> Pair i ` set ys) acc'"
    from fs have "y \<in> set ?fs" by simp
    with assms(3) obtain a where "recoversTo P y a" "a \<in> set ps" "nc_participants (ns_channel (sn_state y)) = ps"
      by (auto simp: genuine_def)
    from setSignature_ok [OF I assms(2) this, of i]
    show "\<exists>s'. setSignature P ps i acc' y = Inr s' \<and>
        argumentsOk P ps m (us \<union> Pair i ` set (ys @ [y])) s'" by simp
  qed (use assms(1) in simp)
  then show ?thesis by (simp add: setSignaturesOf_def)
qed

text \<open>All the states, each numbered by its place.\<close>

lemma setAll_ok:
  assumes "distinct ps" and "\<forall>s \<in> set xs. genuine P ps s" and "m = length states"
  shows "\<exists>acc. foldE (setSignaturesOf P ps xs) (replicate m None, replicate (length ps) None)
       (enumerate 0 states) = Inr acc \<and>
     argumentsOk P ps m {(i, s). i < length states \<and> s \<in> set xs \<and>
       sn_stateObject s = sn_stateObject (states ! i)} acc"
proof -
  let ?I = "\<lambda>ys. argumentsOk P ps m {(i, s). (\<exists>r. (i, r) \<in> set ys \<and> s \<in> set xs \<and>
       sn_stateObject s = sn_stateObject r)}"
  have "\<exists>acc. foldE (setSignaturesOf P ps xs) (replicate m None, replicate (length ps) None)
       (enumerate 0 states) = Inr acc \<and> ?I (enumerate 0 states) acc"
  proof (rule foldE_prefix)
    show "?I [] (replicate m None, replicate (length ps) None)" by (simp add: argumentsOk_def)
    fix ys zs :: "(nat \<times> signed_nitro) list" and y :: "nat \<times> signed_nitro" and acc
    assume I: "?I ys acc"
    obtain i r where y: "y = (i, r)" by (cases y)
    have "{(i, s). \<exists>r. (i, r) \<in> set ys \<and> s \<in> set xs \<and> sn_stateObject s = sn_stateObject r} \<union>
        Pair i ` set (filter (\<lambda>s. sn_stateObject s = sn_stateObject r) xs) =
        {(i, s). \<exists>r. (i, r) \<in> set (ys @ [y]) \<and> s \<in> set xs \<and> sn_stateObject s = sn_stateObject r}"
      by (auto simp: y)
    with setSignaturesOf_ok [OF I assms(1,2), of i r]
    show "\<exists>s'. setSignaturesOf P ps xs acc y = Inr s' \<and> ?I (ys @ [y]) s'" by (simp add: y)
  qed
  moreover have "{(i, s). (\<exists>r. (i, r) \<in> set (enumerate 0 states) \<and> s \<in> set xs \<and>
       sn_stateObject s = sn_stateObject r)} =
      {(i, s). i < length states \<and> s \<in> set xs \<and> sn_stateObject s = sn_stateObject (states ! i)}"
    by (auto simp: in_set_enumerate_eq)
  ultimately show ?thesis by simp
qed

section \<open>Signed states of the wallet\<close>

lemma list_all2_concat_map:
  "list_all2 (\<lambda>x y. y = g x) xs yss \<Longrightarrow> concat yss = concat (map g xs)"
  by (induction rule: list_all2_induct) simp_all

text \<open>The conversion of a list, once every state has an encoding.\<close>

definition nitroOf :: "platform \<Rightarrow> 'a signed_state_scheme \<Rightarrow> nitro_state" where
  "nitroOf P s = projr (toNitroState P s)"

definition objectsOf :: "platform \<Rightarrow> nat \<times> 'a signed_state_scheme \<Rightarrow> signed_nitro list" where
  "objectsOf P x = map (\<lambda>(j, g). \<lparr>sn_object = (fst x, j), sn_stateObject = fst x, sn_state = nitroOf P (snd x),
     sn_signature = signature g\<rparr>) (enumerate 0 (signatures (snd x)))"

lemma flatMapNitro_eq:
  assumes "flatMapNitro P ss = Inr sns"
  shows "sns = concat (map (objectsOf P) (enumerate 0 ss)) \<and> (\<forall>s \<in> set ss. toNitroState P s = Inr (nitroOf P s))"
proof -
  from assms obtain xss where xss: "mapE (\<lambda>(i, s). toNitroSignedState P i s) (enumerate 0 ss) = Inr xss"
    and sns: "sns = concat xss" by (auto simp: flatMapNitro_def bindE_eq_Inr)
  from mapE_all2 [OF xss] have all: "list_all2 (\<lambda>x ys. toNitroSignedState P (fst x) (snd x) = Inr ys) (enumerate 0 ss) xss"
    by (simp add: case_prod_beta)
  have one: "toNitroSignedState P i s = Inr ys \<Longrightarrow> ys = objectsOf P (i, s) \<and> toNitroState P s = Inr (nitroOf P s)"
    for i ys and s :: "'a signed_state_scheme"
    by (auto simp: toNitroSignedState_def objectsOf_def nitroOf_def bindE_eq_Inr)
  from all have "list_all2 (\<lambda>x ys. ys = objectsOf P x) (enumerate 0 ss) xss"
    by (rule list_all2_mono) (auto dest: one)
  then have "concat xss = concat (map (objectsOf P) (enumerate 0 ss))" by (rule list_all2_concat_map)
  moreover have "toNitroState P s = Inr (nitroOf P s)" if "s \<in> set ss" for s
  proof -
    from that obtain i where "i < length ss" "ss ! i = s" by (auto simp: in_set_conv_nth)
    with list_all2_nthD2 [OF all, of i] list_all2_lengthD [OF all] one show ?thesis
      by (auto simp: nth_enumerate_eq)
  qed
  ultimately show ?thesis by (simp add: sns)
qed

lemma objects_distinct: "distinct (map sn_object (concat (map (objectsOf P) (enumerate n ss))))"
proof (induction ss arbitrary: n)
  case (Cons s ss)
  have "map sn_object (objectsOf P (n, s)) = map (Pair n) (map fst (enumerate 0 (signatures s)))"
    unfolding objectsOf_def map_map by (rule map_cong) (auto split: prod.split)
  then have "map sn_object (objectsOf P (n, s)) = map (Pair n) [0..<length (signatures s)]"
    by (simp only: map_fst_enumerate add_0)
  then have first: "distinct (map sn_object (objectsOf P (n, s)))" by (simp add: distinct_map inj_on_def)
  have owner: "fst (sn_object x) = fst y" if "x \<in> set (objectsOf P y)" for x and y :: "nat \<times> 'b signed_state_scheme"
    using that by (auto simp: objectsOf_def)
  have later: "n < fst (sn_object x)" if "x \<in> set (concat (map (objectsOf P) (enumerate (Suc n) ss)))" for x
    using that owner by (fastforce simp: in_set_enumerate_eq)
  have "sn_object ` set (objectsOf P (n, s)) \<inter>
      sn_object ` set (concat (map (objectsOf P) (enumerate (Suc n) ss))) = {}"
    using owner [of _ "(n, s)"] later by fastforce
  with first Cons [of "Suc n"] show ?case by (simp add: distinct_append)
qed simp

lemma flatMapNitro_states:
  assumes "flatMapNitro P ss = Inr sns"
  shows "uniqBy sn_object sns = sns"
    and "s \<in> set sns \<Longrightarrow> sn_stateObject s < length ss \<and> sn_state s = nitroOf P (ss ! sn_stateObject s) \<and>
      (\<exists>g \<in> set (signatures (ss ! sn_stateObject s)). sn_signature s = signature g)"
    and "i < length ss \<Longrightarrow> g \<in> set (signatures (ss ! i)) \<Longrightarrow>
      \<exists>s \<in> set sns. sn_stateObject s = i \<and> sn_state s = nitroOf P (ss ! i) \<and> sn_signature s = signature g"
proof -
  from flatMapNitro_eq [OF assms] have sns: "sns = concat (map (objectsOf P) (enumerate 0 ss))" ..
  show "uniqBy sn_object sns = sns" unfolding sns by (intro uniqBy_distinct objects_distinct)
  show "s \<in> set sns \<Longrightarrow> sn_stateObject s < length ss \<and> sn_state s = nitroOf P (ss ! sn_stateObject s) \<and>
      (\<exists>g \<in> set (signatures (ss ! sn_stateObject s)). sn_signature s = signature g)"
    by (auto simp: sns objectsOf_def in_set_enumerate_eq)
  assume i: "i < length ss" and "g \<in> set (signatures (ss ! i))"
  then obtain j where j: "j < length (signatures (ss ! i))" "signatures (ss ! i) ! j = g"
    by (auto simp: in_set_conv_nth)
  have "(i, ss ! i) \<in> set (enumerate 0 ss)" and "(j, g) \<in> set (enumerate 0 (signatures (ss ! i)))"
    using i j by (auto simp: in_set_enumerate_eq)
  then show "\<exists>s \<in> set sns. sn_stateObject s = i \<and> sn_state s = nitroOf P (ss ! i) \<and> sn_signature s = signature g"
    unfolding sns objectsOf_def set_concat set_map by force
qed

lemma uniqBy_states:
  assumes "flatMapNitro P ss = Inr sns" and "s \<in> set sns"
  shows "\<exists>i < length (uniqBy sn_stateObject sns). sn_stateObject s = sn_stateObject (uniqBy sn_stateObject sns ! i)"
    and "i < length (uniqBy sn_stateObject sns) \<Longrightarrow>
      sn_stateObject s = sn_stateObject (uniqBy sn_stateObject sns ! i) \<Longrightarrow>
      sn_state (uniqBy sn_stateObject sns ! i) = sn_state s"
proof -
  let ?u = "uniqBy sn_stateObject sns"
  have "sn_stateObject s \<in> sn_stateObject ` set ?u" using assms(2) by simp
  then obtain r where "r \<in> set ?u" "sn_stateObject s = sn_stateObject r" by (rule imageE)
  then show "\<exists>i < length ?u. sn_stateObject s = sn_stateObject (?u ! i)" by (metis in_set_conv_nth)
  assume "i < length ?u" and same: "sn_stateObject s = sn_stateObject (?u ! i)"
  then have "?u ! i \<in> set sns" using set_uniqBy_subset [of sn_stateObject sns] nth_mem by blast
  with flatMapNitro_states(2) [OF assms(1)] assms(2) same show "sn_state (?u ! i) = sn_state s" by metis
qed

section \<open>Complete arguments\<close>

text \<open>The signatures stored with the states are those of their signers, who are participants.\<close>

definition genuineSignatures :: "platform \<Rightarrow> participant list \<Rightarrow> 'a signed_state_scheme list \<Rightarrow> bool" where
  "genuineSignatures P ps ss \<longleftrightarrow>
     (\<forall>s \<in> set ss. participants s = ps \<and> (\<forall>g \<in> set (signatures s). signer g \<in> signingAddress ` set ps \<and>
        (\<forall>n. toNitroState P s = Inr n \<longrightarrow> recoverNitro P n (signature g) = Some (signer g))))"

lemma genuine_flat:
  assumes "flatMapNitro P ss = Inr sns" and "genuineSignatures P ps ss" and "s \<in> set sns"
  shows "genuine P (map signingAddress ps) s"
proof -
  let ?w = "ss ! sn_stateObject s"
  from flatMapNitro_states(2) [OF assms(1,3)] obtain g where
    i: "sn_stateObject s < length ss" and st: "sn_state s = nitroOf P ?w"
    and g: "g \<in> set (signatures ?w)" "sn_signature s = signature g" by blast
  from i have w: "?w \<in> set ss" by simp
  with flatMapNitro_eq [OF assms(1)] have n: "toNitroState P ?w = Inr (nitroOf P ?w)" by blast
  from assms(2) w g n have "participants ?w = ps" "signer g \<in> signingAddress ` set ps"
    "recoverNitro P (nitroOf P ?w) (signature g) = Some (signer g)" by (auto simp: genuineSignatures_def)
  moreover from toNitroState_fields [OF n]
  have "nc_participants (ns_channel (nitroOf P ?w)) = map signingAddress (participants ?w)" by simp
  ultimately show ?thesis by (auto simp: genuine_def recoversTo_def st g(2))
qed

lemma createSignatureArguments_ok:
  assumes "flatMapNitro P ss = Inr sns" and "genuineSignatures P ps ss" and "sns \<noteq> []"
    and "distinct (map signingAddress ps)"
  shows "\<exists>a. createSignatureArguments P sns = Inr a \<and>
     sa_states a = map sn_state (uniqBy sn_stateObject sns) \<and>
     argumentsOk P (map signingAddress ps) (length (sa_states a))
       {(i, s). i < length (sa_states a) \<and> s \<in> set sns \<and>
          sn_stateObject s = sn_stateObject (uniqBy sn_stateObject sns ! i)}
       (sa_signatures a, sa_whoSignedWhat a)"
proof -
  let ?u = "uniqBy sn_stateObject sns" and ?ps = "map signingAddress ps"
  have gen: "\<forall>s \<in> set sns. genuine P ?ps s" using genuine_flat [OF assms(1,2)] by blast
  from setAll_ok [OF assms(4) gen refl, of ?u] obtain acc where
    acc: "foldE (setSignaturesOf P ?ps sns) (replicate (length ?u) None, replicate (length ps) None)
       (enumerate 0 ?u) = Inr acc"
      "argumentsOk P ?ps (length ?u) {(i, s). i < length ?u \<and> s \<in> set sns \<and>
        sn_stateObject s = sn_stateObject (?u ! i)} acc" by auto
  obtain s0 rest where s0: "sns = s0 # rest" using assms(3) by (cases sns) auto
  have p0: "nc_participants (ns_channel (sn_state s0)) = ?ps" using gen by (simp add: s0 genuine_def)
  have "createSignatureArguments P sns = Inr \<lparr>sa_states = map sn_state ?u, sa_signatures = fst acc,
      sa_whoSignedWhat = snd acc\<rparr>"
    using acc(1) flatMapNitro_states(1) [OF assms(1)] p0
    by (simp add: createSignatureArguments_def s0 Let_def case_prod_beta)
  with acc(2) show ?thesis by auto
qed

text \<open>
  the arguments of a transaction are complete when the states are a support with genuine
  signatures: there is one signature per participant, in the order of the participants, and each
  is that participant's signature on the state \<open>whoSignedWhat\<close> names.
\<close>

theorem support_gives_signature_arguments:
  assumes "flatMapNitro P (support P c) = Inr sns"
    and "genuineSignatures P (participants c) (support P c)"
    and "support P c \<noteq> []" and "length (support P c) \<le> length (participants c)"
    and "distinct (map signingAddress (participants c))"
  shows "\<exists>a. createSignatureArguments P sns = Inr a \<and>
     length (sa_signatures a) = length (participants c) \<and>
     (\<forall>k < length (participants c). \<exists>i g. sa_whoSignedWhat a ! k = Some i \<and> i < length (sa_states a) \<and>
        sa_signatures a ! k = Some g \<and>
        recoverNitro P (sa_states a ! i) g = Some (signingAddress (participants c ! k)))"
proof -
  let ?ss = "support P c" and ?u = "uniqBy sn_stateObject sns" and ?ps = "map signingAddress (participants c)"
  have everyone: "everyoneIn (participants c) ?ss" using support_segment [OF assms(3)] by blast
  have slot: "\<exists>i < length ?u. \<exists>s \<in> set sns. recoversTo P s (?ps ! k) \<and> sn_stateObject s = sn_stateObject (?u ! i)"
    if k: "k < length (participants c)" for k
  proof -
    from bspec [OF everyone [unfolded everyoneIn_def] nth_mem [OF k]] k obtain w where
      "w \<in> set ?ss" "?ps ! k \<in> signer ` set (signatures w)" by auto
    then obtain g where w: "w \<in> set ?ss" "g \<in> set (signatures w)" "signer g = ?ps ! k" by auto
    then obtain i where i: "i < length ?ss" "?ss ! i = w" by (auto simp: in_set_conv_nth)
    with flatMapNitro_states(3) [OF assms(1), of i g] w obtain s where
      s: "s \<in> set sns" "sn_state s = nitroOf P w" "sn_signature s = signature g" by auto
    from flatMapNitro_eq [OF assms(1)] w(1) have "toNitroState P w = Inr (nitroOf P w)" by blast
    with assms(2) w s have "recoversTo P s (?ps ! k)" by (auto simp: genuineSignatures_def recoversTo_def)
    with uniqBy_states(1) [OF assms(1) s(1)] s(1) show ?thesis by blast
  qed
  have ne: "participants c \<noteq> []"
    using assms(3,4) by auto
  with slot [of 0] have "sns \<noteq> []" by auto
  from createSignatureArguments_ok [OF assms(1,2) this assms(5)] obtain a where
    a: "createSignatureArguments P sns = Inr a" "sa_states a = map sn_state ?u"
    and ok: "argumentsOk P ?ps (length ?u) {(i, s). i < length ?u \<and> s \<in> set sns \<and>
        sn_stateObject s = sn_stateObject (?u ! i)} (sa_signatures a, sa_whoSignedWhat a)" by auto
  have entry: "\<exists>i g. sa_whoSignedWhat a ! k = Some i \<and> i < length (sa_states a) \<and> k < length (sa_signatures a) \<and>
      sa_signatures a ! k = Some g \<and> recoverNitro P (sa_states a ! i) g = Some (?ps ! k)"
    if k: "k < length (participants c)" for k
  proof -
    from slot [OF k] obtain i s where here: "i < length ?u" "s \<in> set sns" "recoversTo P s (?ps ! k)"
      "sn_stateObject s = sn_stateObject (?u ! i)" by blast
    from argumentsOk_entry [OF ok _ _ here(3), of i] k here obtain i' s' where
      got: "sa_whoSignedWhat a ! k = Some i'" "k < length (sa_signatures a)"
      "i' < length ?u" "s' \<in> set sns" "sn_stateObject s' = sn_stateObject (?u ! i')"
      "recoversTo P s' (?ps ! k)" "sa_signatures a ! k = Some (sn_signature s')"
      by auto
    with uniqBy_states(2) [OF assms(1) got(4,3,5)] a(2) show ?thesis by (auto simp: recoversTo_def)
  qed
  have "set (map sn_stateObject ?u) \<subseteq> {..<length ?ss}"
    using flatMapNitro_states(2) [OF assms(1)] by auto
  from card_mono [OF _ this] have "length ?u \<le> length ?ss"
    using distinct_card [OF distinct_map_uniqBy [of sn_stateObject sns]] by simp
  with ok assms(4) have "length (sa_signatures a) \<le> length (participants c)" by (simp add: argumentsOk_def)
  moreover from entry [of "length (participants c) - 1"] ne
  have "length (participants c) \<le> length (sa_signatures a)" by (cases "participants c") auto
  ultimately have "length (sa_signatures a) = length (participants c)" by simp
  with a(1) entry show ?thesis by (intro exI [of _ a]) auto
qed

theorem support_gives_signature_arguments_witness:
  "\<exists>sns a. flatMapNitro samplePlatform (support samplePlatform
       (sampleChannel [sampleVars 1 [''0xB''], sampleVars 0 [''0xA'']])) = Inr sns \<and>
     createSignatureArguments samplePlatform sns = Inr a \<and> length (sa_signatures a) = 2"
proof -
  let ?c = "sampleChannel [sampleVars 1 [''0xB''], sampleVars 0 [''0xA'']]"
  have s: "support samplePlatform ?c = [sampleHashed 1 [''0xB''], sampleHashed 0 [''0xA'']]" by code_simp
  have "\<exists>sns. flatMapNitro samplePlatform (support samplePlatform ?c) = Inr sns"
  proof -
    have "\<not> isl (flatMapNitro samplePlatform (support samplePlatform ?c))" by code_simp
    then show ?thesis by (cases "flatMapNitro samplePlatform (support samplePlatform ?c)") auto
  qed
  then obtain sns where sns: "flatMapNitro samplePlatform (support samplePlatform ?c) = Inr sns" ..
  have g: "genuineSignatures samplePlatform (participants ?c) (support samplePlatform ?c)"
    unfolding s by (auto simp: genuineSignatures_def sampleHashed_def sampleVars_def sampleChannel_def
      sampleParticipants_def spreadVars_def channelConstants_def channel_constants.truncate_def samplePlatform_def)
  have "participants ?c = sampleParticipants" by (simp add: sampleChannel_def)
  with support_gives_signature_arguments [OF sns g] s sns show ?thesis
    by (auto simp: sampleParticipants_def)
qed

section \<open>The order of the states in a challenge\<close>

lemma filter_uniqBy: "filter (\<lambda>y. f y \<noteq> a) (uniqBy f xs) = uniqBy f (filter (\<lambda>y. f y \<noteq> a) xs)"
proof (induction xs)
  case (Cons x xs)
  have "filter (\<lambda>y. f y \<noteq> a) (filter (\<lambda>y. f y \<noteq> f x) (uniqBy f xs)) =
      filter (\<lambda>y. f y \<noteq> f x) (filter (\<lambda>y. f y \<noteq> a) (uniqBy f xs))"
    by (simp add: conj_commute)
  moreover have "filter (\<lambda>y. f y \<noteq> a) (filter (\<lambda>y. f y \<noteq> a) (uniqBy f xs)) = filter (\<lambda>y. f y \<noteq> a) (uniqBy f xs)"
    by simp
  ultimately show ?case using Cons by (cases "f x = a") simp_all
qed simp

lemma uniqBy_group:
  assumes "xs \<noteq> []" and "\<forall>x \<in> set xs. f x = a" and "\<forall>y \<in> set ys. f y \<noteq> a"
  shows "uniqBy f (xs @ ys) = hd xs # uniqBy f ys"
proof -
  from assms(1) obtain x xs' where xs: "xs = x # xs'" by (cases xs) auto
  have "filter (\<lambda>y. f y \<noteq> f x) (xs' @ ys) = ys" using assms(2,3) by (auto simp: xs filter_id_conv filter_empty_conv)
  then show ?thesis by (simp add: xs filter_uniqBy)
qed

lemma states_in_order:
  assumes "\<forall>s \<in> set ss. signatures s \<noteq> []"
  shows "map sn_state (uniqBy sn_stateObject (concat (map (objectsOf P) (enumerate n ss)))) = map (nitroOf P) ss"
  using assms
proof (induction ss arbitrary: n)
  case (Cons s ss)
  let ?rest = "concat (map (objectsOf P) (enumerate (Suc n) ss))"
  have "objectsOf P (n, s) \<noteq> []" and "sn_state (hd (objectsOf P (n, s))) = nitroOf P s"
    using Cons.prems by (cases "signatures s"; simp add: objectsOf_def)+
  moreover have "\<forall>x \<in> set (objectsOf P (n, s)). sn_stateObject x = n" by (auto simp: objectsOf_def)
  moreover have "\<forall>x \<in> set ?rest. sn_stateObject x \<noteq> n" by (auto simp: objectsOf_def in_set_enumerate_eq)
  ultimately have "uniqBy sn_stateObject (objectsOf P (n, s) @ ?rest) =
      hd (objectsOf P (n, s)) # uniqBy sn_stateObject ?rest"
    by (intro uniqBy_group)
  with Cons \<open>sn_state (hd (objectsOf P (n, s))) = nitroOf P s\<close> show ?case by simp
qed simp

lemma support_descending:
  assumes "support P c \<noteq> []"
  shows "sorted_wrt (\<lambda>s t. turnNum t < turnNum s) (support P c)"
proof -
  from support_segment [OF assms] obtain seg where
    l: "linked P (\<not> isNullApp P c) seg" and f: "support P c = filter (moverSigned (participants c)) seg" by blast
  from linked_turnNums [OF l] have "successively (\<lambda>s t. turnNum t < turnNum s) seg"
    by (rule successively_mono) simp
  then have "sorted_wrt (\<lambda>s t. turnNum t < turnNum s) seg"
    by (subst (asm) successively_conv_sorted_wrt) (auto simp: transp_def)
  then show ?thesis unfolding f by (rule sorted_wrt_filter)
qed

lemma foldl_max_first:
  "\<forall>s \<in> set ss. ns_turnNum s \<le> m \<Longrightarrow> foldl (\<lambda>m s. max m (ns_turnNum s)) m ss = m"
  by (induction ss arbitrary: m) auto

lemma support_signatures: "s \<in> set (support P c) \<Longrightarrow> signatures s \<noteq> []"
proof -
  assume s: "s \<in> set (support P c)"
  then have "support P c \<noteq> []" by auto
  from support_segment [OF this] s have "moverSigned (participants c) s" by auto
  then show ?thesis by (auto simp: moverSigned_def split: option.splits)
qed

text \<open>
  the states of a challenge are in the wrong order. A support lists its latest state first,
  while the adjudicator and \<open>createChallengeTransaction\<close> expect the latest state last: with more
  than one state in the support, the turn number sent is that of the first state, and the
  challenger's signature is over the last, which is an older one.
\<close>

theorem challenge_signs_an_older_state:
  assumes "flatMapNitro P (support P c) = Inr sns" and "2 \<le> length (support P c)"
    and "createChallengeTransaction P A sns key = Inr call"
  shows "\<exists>fp vps n sigs who. call = ChallengeCall fp (turnNum (hd (support P c))) vps n sigs who
       (signDigestOfChallenge A (nitroOf P (last (support P c))) key) \<and>
     turnNum (last (support P c)) < turnNum (hd (support P c))"
proof -
  let ?ss = "support P c"
  from assms(2) have ne: "?ss \<noteq> []" by auto
  from assms(3) obtain a where a: "createSignatureArguments P sns = Inr a" "challengeArgs P A a key = Inr call"
    by (auto simp: createChallengeTransaction_def bindE_eq_Inr)
  have sns: "sns = concat (map (objectsOf P) (enumerate 0 ?ss))"
    and nitro: "\<forall>s \<in> set ?ss. toNitroState P s = Inr (nitroOf P s)"
    using flatMapNitro_eq [OF assms(1)] by blast+
  have states: "sa_states a = map (nitroOf P) ?ss"
  proof -
    from a(1) have "sa_states a = map sn_state (uniqBy sn_stateObject (uniqBy sn_object sns))"
      by (auto simp: createSignatureArguments_def Let_def bindE_eq_Inr split: list.splits prod.splits)
    then have "sa_states a = map sn_state (uniqBy sn_stateObject sns)"
      by (simp only: flatMapNitro_states(1) [OF assms(1)])
    moreover have "\<forall>s \<in> set ?ss. signatures s \<noteq> []" using support_signatures by blast
    ultimately show ?thesis using states_in_order [of ?ss P 0] by (simp only: sns)
  qed
  have turn: "ns_turnNum (nitroOf P s) = turnNum s" if "s \<in> set ?ss" for s
    using toNitroState_fields nitro that by blast
  from support_descending [OF ne] ne obtain s ss where
    ss: "?ss = s # ss" "\<forall>t \<in> set ss. turnNum t < turnNum s" by (cases ?ss) auto
  have "maxTurnNum (sa_states a) = turnNum s"
    using ss(2) turn unfolding maxTurnNum_def states ss(1)
    by (subst foldl_max_first) (auto simp: ss(1))
  moreover from assms(2) ss have "turnNum (last ?ss) < turnNum s" by (cases ss) auto
  moreover from a(2) have "\<exists>fp vps n sigs who. call = ChallengeCall fp (maxTurnNum (sa_states a)) vps n sigs who
      (signDigestOfChallenge A (last (sa_states a)) key)"
    by (auto simp: challengeArgs_def signChallengeMessage_def Let_def bindE_eq_Inr split: list.splits if_splits)
  moreover have l: "last (sa_states a) = nitroOf P (last ?ss)" using ne by (simp add: states last_map)
  moreover have h: "hd ?ss = s" by (simp add: ss(1))
  ultimately show ?thesis unfolding h by auto
qed

theorem challenge_signs_an_older_state_witness:
  "\<exists>sns fp vps n sigs who.
     flatMapNitro samplePlatform (support samplePlatform
       (sampleChannel [sampleVars 1 [''0xB''], sampleVars 0 [''0xA'']])) = Inr sns \<and>
     createChallengeTransaction samplePlatform sampleAbi sns ''0xA'' =
       Inr (ChallengeCall fp 1 vps n sigs who ''0xA'')"
proof -
  let ?c = "sampleChannel [sampleVars 1 [''0xB''], sampleVars 0 [''0xA'']]"
  let ?m = "flatMapNitro samplePlatform (support samplePlatform ?c)"
  have s: "support samplePlatform ?c = [sampleHashed 1 [''0xB''], sampleHashed 0 [''0xA'']]" by code_simp
  have "\<not> isl (bindE ?m (\<lambda>sns. createChallengeTransaction samplePlatform sampleAbi sns ''0xA''))" by code_simp
  then obtain sns call where ok: "?m = Inr sns"
    "createChallengeTransaction samplePlatform sampleAbi sns ''0xA'' = Inr call"
    by (cases ?m; cases "bindE ?m (\<lambda>sns. createChallengeTransaction samplePlatform sampleAbi sns ''0xA'')") auto
  have "2 \<le> length (support samplePlatform ?c)" by (simp add: s)
  from challenge_signs_an_older_state [OF ok(1) this ok(2)] obtain fp vps n sigs who where
    "call = ChallengeCall fp (turnNum (hd (support samplePlatform ?c))) vps n sigs who
       (signDigestOfChallenge sampleAbi (nitroOf samplePlatform (last (support samplePlatform ?c))) ''0xA'')"
    by blast
  moreover have "turnNum (hd (support samplePlatform ?c)) = 1" by code_simp
  moreover have "signDigestOfChallenge sampleAbi (nitroOf samplePlatform (last (support samplePlatform ?c))) ''0xA'' = ''0xA''"
    unfolding nitroOf_def by code_simp
  ultimately show ?thesis using ok by auto
qed

end
