(* ===== verification/BrowserWalletFacts.thy ===== *)
theory BrowserWalletFacts
  imports BrowserWallet BrowserSafety NitroFacts DirectFunderFacts
begin

text \<open>
  Facts about the browser wallet: the challenge its chain sends, and what happens to events whose
  cranks overlap.
\<close>

section \<open>The support of an entry\<close>

lemma entrySupportLoop_descending:
  assumes "sorted_wrt (\<lambda>s t. turnNum t < turnNum s) supp"
    and "\<forall>s \<in> set supp. case prev of None \<Rightarrow> False | Some p \<Rightarrow> turnNum p \<le> turnNum s"
    and "\<forall>s \<in> set supp. signatures s \<noteq> []"
  shows "sorted_wrt (\<lambda>s t. turnNum t < turnNum s) (entrySupportLoop ps supp notSigned prev ss) \<and>
    (\<forall>s \<in> set (entrySupportLoop ps supp notSigned prev ss). signatures s \<noteq> [])"
  using assms
proof (induction ss arbitrary: supp notSigned prev)
  case (Cons s ss)
  define broken where "broken = (case prev of None \<Rightarrow> False | Some p \<Rightarrow> \<not> validChain (length ps) s p)"
  define supp1 where "supp1 = (if broken then [] else supp)"
  define notSigned1 where "notSigned1 = (if broken then map signingAddress ps else notSigned)"
  have sorted1: "sorted_wrt (\<lambda>s t. turnNum t < turnNum s) supp1"
    and sigs1: "\<forall>s \<in> set supp1. signatures s \<noteq> []"
    using Cons.prems by (simp_all add: supp1_def)
  have later: "\<forall>t \<in> set supp1. turnNum s < turnNum t"
  proof (cases "supp1 = []")
    case False
    then have nb: "\<not> broken" and s1: "supp1 = supp" by (auto simp: supp1_def split: if_splits)
    from False s1 Cons.prems(2) obtain p where p: "prev = Some p" by (cases prev; cases supp) auto
    with nb have "turnNum s + 1 = turnNum p" by (simp add: broken_def validChain_def split: if_splits)
    with Cons.prems(2) show ?thesis by (auto simp: s1 p)
  qed simp
  let ?ns = "filter (\<lambda>a. a \<notin> signer ` set (signatures s)) notSigned1"
  have step: "entrySupportLoop ps supp notSigned prev (s # ss) =
      (if moverSigned ps s then (if ?ns = [] then supp1 @ [s] else entrySupportLoop ps (supp1 @ [s]) ?ns (Some s) ss)
       else entrySupportLoop ps supp1 notSigned1 (Some s) ss)"
    by (simp only: entrySupportLoop.simps Let_def broken_def supp1_def notSigned1_def)
  have mover: "moverSigned ps s \<Longrightarrow> signatures s \<noteq> []" by (auto simp: moverSigned_def split: option.splits)
  have sorted2: "sorted_wrt (\<lambda>s t. turnNum t < turnNum s) (supp1 @ [s])"
    using sorted1 later by (simp add: sorted_wrt_append)
  have 1: "\<forall>t \<in> set supp1. case Some s of None \<Rightarrow> False | Some p \<Rightarrow> turnNum p \<le> turnNum t"
    using later by auto
  then have 2: "\<forall>t \<in> set (supp1 @ [s]). case Some s of None \<Rightarrow> False | Some p \<Rightarrow> turnNum p \<le> turnNum t"
    by auto
  show ?case
  proof (cases "moverSigned ps s")
    case True
    with sigs1 mover have sigs2: "\<forall>t \<in> set (supp1 @ [s]). signatures t \<noteq> []" by auto
    show ?thesis
      unfolding step using True sorted2 sigs2 Cons.IH [OF sorted2 2 sigs2] by simp
  next
    case False
    then show ?thesis unfolding step using Cons.IH [OF sorted1 1 sigs1] by simp
  qed
qed simp

lemma entrySupport_descending:
  "sorted_wrt (\<lambda>s t. turnNum t < turnNum s) (entrySupport e)"
  "s \<in> set (entrySupport e) \<Longrightarrow> signatures s \<noteq> []"
  using entrySupportLoop_descending [of "[]" None] by (auto simp: entrySupport_def supportIn_def)

section \<open>The order of the states in a challenge of the browser wallet\<close>

lemma sort_key_group:
  fixes f :: "'a \<Rightarrow> int"
  assumes "\<forall>x \<in> set xs. f x = n" and "\<forall>y \<in> set ys. f y < n"
  shows "sort_key f (xs @ ys) = sort_key f ys @ xs"
  using assms
proof (induction xs)
  case (Cons x xs)
  have "insort_key f x (zs @ xs) = zs @ x # xs" if "\<forall>z \<in> set zs. f z < n" for zs
    using that Cons.prems(1) by (induction zs) (auto, cases xs, auto)
  with Cons show ?case by simp
qed simp

lemma uniqBy_append:
  "uniqBy f (xs @ ys) = uniqBy f xs @ filter (\<lambda>y. f y \<notin> f ` set xs) (uniqBy f ys)"
proof (induction xs)
  case (Cons x xs)
  then show ?case by (simp add: conj_commute)
qed simp

lemma uniqBy_last_group:
  assumes "xs \<noteq> []" and "\<forall>x \<in> set xs. f x = a" and "\<forall>y \<in> set ys. f y \<noteq> a"
  shows "uniqBy f (ys @ xs) = uniqBy f ys @ [hd xs]"
proof -
  from assms(1) obtain x xs' where xs: "xs = x # xs'" by (cases xs) auto
  with assms(2) have "filter (\<lambda>y. f y \<noteq> f x) (uniqBy f xs') = []"
    using set_uniqBy_subset [of f xs'] by (auto simp: filter_empty_conv)
  moreover from assms(2,3) xs have "f x \<notin> f ` set ys" by auto
  ultimately show ?thesis by (simp add: uniqBy_append xs)
qed

lemma foldl_max:
  fixes m :: int
  assumes "m \<le> n" and "\<forall>s \<in> set ss. g s \<le> n" and "m = n \<or> n \<in> g ` set ss"
  shows "foldl (\<lambda>m s. max m (g s)) m ss = n"
  using assms by (induction ss arbitrary: m) auto

text \<open>
  the challenge of the browser wallet is over the latest state. Its chain sorts the signed states
  by turn number first, so that the turn number sent and the challenger's signature are both those
  of the latest state of the entry's support.
\<close>

theorem browser_challenge_signs_latest:
  assumes "watcherChallenge P A (entrySupport e) key = Inr (call, sent)"
  shows "\<exists>fp vps n sigs who. call = ChallengeCall fp (turnNum (hd (entrySupport e))) vps n sigs who
       (signDigestOfChallenge A (nitroOf P (hd (entrySupport e))) key)"
proof -
  let ?ss = "entrySupport e"
  from assms obtain sns a where sns': "flatMapNitro P ?ss = Inr sns"
    and a: "createSignatureArguments P (sort_key (ns_turnNum \<circ> sn_state) sns) = Inr a" "challengeArgs P A a key = Inr call"
    by (auto simp: watcherChallenge_def createChallengeTransaction_def bindE_eq_Inr)
  from flatMapNitro_eq [OF sns'] have sns: "sns = concat (map (objectsOf P) (enumerate 0 ?ss))"
    and nitro: "\<forall>s \<in> set ?ss. toNitroState P s = Inr (nitroOf P s)" by blast+
  define ys where "ys = sort_key (ns_turnNum \<circ> sn_state) sns"
  have "distinct (map sn_object sns)" unfolding sns by (rule objects_distinct)
  then have "distinct (map sn_object ys)" unfolding ys_def by (simp add: distinct_map)
  then have uo: "uniqBy sn_object ys = ys" by (rule uniqBy_distinct)
  from a(1) have "ys \<noteq> []" by (auto simp: ys_def createSignatureArguments_def)
  then have "?ss \<noteq> []" by (auto simp: ys_def sns)
  then obtain s ss where ss: "?ss = s # ss" by (cases ?ss) auto
  with entrySupport_descending(1) [of e] have lt: "\<forall>t \<in> set ss. turnNum t < turnNum s" by simp
  let ?xs = "objectsOf P (0, s)" and ?rest = "concat (map (objectsOf P) (enumerate (Suc 0) ss))"
  have split: "sns = ?xs @ ?rest" by (simp add: sns ss)
  have turn: "ns_turnNum (nitroOf P t) = turnNum t" if "t \<in> set ?ss" for t
    using toNitroState_fields nitro that by blast
  have xs: "\<forall>x \<in> set ?xs. sn_stateObject x = 0 \<and> sn_state x = nitroOf P s"
    by (auto simp: objectsOf_def)
  have rest: "\<exists>t \<in> set ss. sn_stateObject y \<noteq> 0 \<and> sn_state y = nitroOf P t" if "y \<in> set ?rest" for y
  proof -
    from that obtain x where x: "x \<in> set (enumerate (Suc 0) ss)" "y \<in> set (objectsOf P x)" by auto
    then have "snd x \<in> set ss" by (metis map_snd_enumerate image_eqI list.set_map)
    moreover from x(1) have "fst x \<noteq> 0" by (auto simp: in_set_enumerate_eq)
    ultimately show ?thesis using x(2) by (auto simp: objectsOf_def)
  qed
  have "ys = sort_key (ns_turnNum \<circ> sn_state) ?rest @ ?xs"
    unfolding ys_def split
    by (rule sort_key_group [where n = "turnNum s"]) (use xs rest turn lt in \<open>fastforce simp: ss\<close>)+
  moreover have ne: "?xs \<noteq> []" using entrySupport_descending(2) [of s e]
    by (cases "signatures s") (auto simp: ss objectsOf_def)
  moreover have "uniqBy sn_stateObject (sort_key (ns_turnNum \<circ> sn_state) ?rest @ ?xs) =
      uniqBy sn_stateObject (sort_key (ns_turnNum \<circ> sn_state) ?rest) @ [hd ?xs]"
    by (rule uniqBy_last_group [OF ne, where a = 0]) (use xs rest in auto)
  ultimately have u: "uniqBy sn_stateObject ys = uniqBy sn_stateObject (sort_key (ns_turnNum \<circ> sn_state) ?rest) @ [hd ?xs]"
    by simp
  from a(1) [folded ys_def] have "sa_states a = map sn_state (uniqBy sn_stateObject (uniqBy sn_object ys))"
    by (auto simp: createSignatureArguments_def Let_def bindE_eq_Inr split: list.splits prod.splits)
  then have "sa_states a = map sn_state (uniqBy sn_stateObject ys)" by (simp only: uo)
  with u xs ne obtain zs where st: "sa_states a = zs @ [nitroOf P s]" and zs: "set zs \<subseteq> nitroOf P ` set ss"
  proof -
    have "sn_state (hd ?xs) = nitroOf P s" using xs ne by simp
    moreover have "sn_state ` set (uniqBy sn_stateObject (sort_key (ns_turnNum \<circ> sn_state) ?rest)) \<subseteq> nitroOf P ` set ss"
      using set_uniqBy_subset [of sn_stateObject "sort_key (ns_turnNum \<circ> sn_state) ?rest"] rest by fastforce
    ultimately show ?thesis
      using that [of "map sn_state (uniqBy sn_stateObject (sort_key (ns_turnNum \<circ> sn_state) ?rest))"]
        \<open>sa_states a = map sn_state (uniqBy sn_stateObject ys)\<close> u by simp
  qed
  have le: "\<forall>t \<in> set (sa_states a). ns_turnNum t \<le> turnNum s"
    using zs turn lt by (fastforce simp: st ss)
  have "maxTurnNum (sa_states a) = turnNum s"
    unfolding maxTurnNum_def
    by (rule foldl_max) (use le turn [of s] st in \<open>cases zs; auto simp: ss\<close>)+
  moreover from a(2) have "\<exists>fp vps n sigs who. call = ChallengeCall fp (maxTurnNum (sa_states a)) vps n sigs who
      (signDigestOfChallenge A (last (sa_states a)) key)"
    by (auto simp: challengeArgs_def signChallengeMessage_def Let_def bindE_eq_Inr split: list.splits if_splits)
  ultimately show ?thesis by (simp add: st ss)
qed

section \<open>Overlapping cranks\<close>

text \<open>Calls of the store that leave the rich objectives and the keys alone.\<close>

named_theorems keeping \<open>calls that leave the rich objectives and the private keys alone\<close>

definition keeps :: "'a bio \<Rightarrow> bool" where
  "keeps m \<longleftrightarrow> (\<forall>s. bs_richObjectives (fst (m s)) = bs_richObjectives s \<and>
     bs_privateKeys (fst (m s)) = bs_privateKeys s)"

lemma keeps_basic [keeping]: "keeps (returnB x)" "keeps (throwB e)" "keeps (readB f)" "keeps (liftB r)"
  by (simp_all add: keeps_def returnB_def throwB_def readB_def liftB_def)

lemma keeps_bind [keeping]: "keeps m \<Longrightarrow> (\<And>x. keeps (f x)) \<Longrightarrow> keeps (bindB m f)"
  by (auto simp: keeps_def bindB_def split: prod.splits sum.splits) (metis fst_conv)+

lemma keeps_all: "(\<And>x. keeps (f x)) \<Longrightarrow> keeps (allB f xs)"
proof (induction xs)
  case (Cons x xs)
  show ?case
    unfolding keeps_def
  proof
    fix s
    obtain s1 r where 1: "f x s = (s1, r)" by fastforce
    obtain s2 rs where 2: "allB f xs s1 = (s2, rs)" by fastforce
    have "keeps (f x)" "keeps (allB f xs)" using Cons by simp_all
    with 1 2 show "bs_richObjectives (fst (allB f (x # xs) s)) = bs_richObjectives s \<and>
        bs_privateKeys (fst (allB f (x # xs) s)) = bs_privateKeys s"
      unfolding keeps_def by (metis allB.simps(2) case_prod_conv fst_conv)
  qed
qed (simp add: keeps_def)

lemma keeps_setChannel [keeping]: "keeps (writeB (setChannel cid d))"
  by (simp add: keeps_def writeB_def setChannel_def)

lemma keeps_setNonce [keeping]: "keeps (setNonce as n)"
  by (simp add: keeps_def setNonce_def)

lemma keeps_emit [keeping]: "keeps (emitEvent ev)"
  by (simp add: keeps_def emitEvent_def writeB_def)

lemma keeps_onEntry [keeping]: "keeps (onEntry key f e)"
  by (auto simp: keeps_def onEntry_def setChannel_def split: prod.splits option.splits)

lemma keeps_if [keeping]: "keeps m \<Longrightarrow> keeps n \<Longrightarrow> keeps (if b then m else n)"
  by simp

lemma keeps_prod [keeping]: "(\<And>a b. keeps (f a b)) \<Longrightarrow> keeps (case x of (a, b) \<Rightarrow> f a b)"
  by (cases x) simp

lemma keeps_storeAddState: "keeps (storeAddState P st b)"
proof -
  have "keeps (initializeChannel P st d)" for d
    unfolding initializeChannel_def Let_def by (intro keeping)
  then have "keeps (case known of Some d \<Rightarrow> returnB (newEntry d) | None \<Rightarrow> initializeChannel P st None)" for known
    by (cases known) (simp_all add: keeping)
  moreover have "keeps (case x of None \<Rightarrow> returnB () | Some y \<Rightarrow> emitEvent (AddToOutbox [signed_state.truncate y]))" for x
    by (cases x) (simp_all add: keeping)
  ultimately show ?thesis
    unfolding storeAddState_def emitChannelUpdatedEventAfterTX_def Let_def by (intro keeping)
qed

lemma keptD:
  "keeps m \<Longrightarrow> bs_richObjectives (fst (m s)) = bs_richObjectives s"
  "keeps m \<Longrightarrow> bs_privateKeys (fst (m s)) = bs_privateKeys s"
  by (simp_all add: keeps_def)

lemma startCrank_store [simp]: "bw_store (startCrank ev w) = bw_store w"
  by (simp add: startCrank_def split: option.split)

lemma performAction_keeps:
  "bs_richObjectives (bw_store (fst (performAction W ob a w))) = bs_richObjectives (bw_store w) \<and>
   bs_privateKeys (bw_store (fst (performAction W ob a w))) = bs_privateKeys (bw_store w)"
proof (cases a)
  case (SendStates ss)
  have "keeps (allB (\<lambda>st. storeAddState (w2_platform W) st True) ss)"
    by (intro keeps_all keeps_storeAddState)
  with keptD [OF this] SendStates show ?thesis
    by (auto simp: bindW_def onStore_def split: prod.splits sum.splits) (metis fst_conv)+
next
  case (DepositAction n)
  then show ?thesis by (simp add: chainDeposit_def split: sum.split)
qed simp

lemma performActions_keeps:
  "bs_richObjectives (bw_store (fst (performActions W ob ev as w))) = bs_richObjectives (bw_store w) \<and>
   bs_privateKeys (bw_store (fst (performActions W ob ev as w))) = bs_privateKeys (bw_store w)"
proof (induction as arbitrary: w)
  case (Cons a as)
  obtain w1 r where p: "performAction W ob a w = (w1, r)" by fastforce
  with performAction_keeps [of W ob a w] have
    w1: "bs_richObjectives (bw_store w1) = bs_richObjectives (bw_store w)" "bs_privateKeys (bw_store w1) = bs_privateKeys (bw_store w)"
    by simp_all
  have s: "bw_store (sendObjective cid w1) = bw_store w1" for cid
    by (simp add: sendObjective_def split: option.split)
  show ?case using Cons.IH [of w1] Cons.IH [of "sendObjective (ob_channelId ob) w1"]
    by (cases r) (simp_all add: bindW_def p w1 s)
qed simp

lemma finishCrank_objective:
  assumes "storedKey (bw_store w) = Inr key" and "openChannelCranker (w2_platform W) ob ev key = Inr (ob', acts)"
  shows "bs_richObjectives (bw_store (fst (finishCrank W (ob, ev) w))) =
      (bs_richObjectives (bw_store w))(ob_channelId ob \<mapsto> ob')"
    and "bs_privateKeys (bw_store (fst (finishCrank W (ob, ev) w))) = bs_privateKeys (bw_store w)"
  using performActions_keeps [of W ob ev acts "w\<lparr>bw_store := (bw_store w)\<lparr>bs_richObjectives :=
      (bs_richObjectives (bw_store w))(ob_channelId ob \<mapsto> ob')\<rparr>\<rparr>"]
  by (simp_all add: finishCrank_def assms)

lemma storedKey_cong: "bs_privateKeys s = bs_privateKeys t \<Longrightarrow> storedKey s = storedKey t"
  by (simp add: storedKey_def storeAddress_def getPrivateKey_def split: list.split)

text \<open>
  an event is lost when the next one of the channel comes before its crank has the private key.
  Both cranks start from the same objective; after both are done, the objective is what the second
  event alone makes of it, and what the first one brought (a signature, a deposit that was seen) is
  gone.
\<close>

theorem overlapping_cranks_lose_an_event:
  assumes "bs_richObjectives (bw_store w) cid = Some ob" and "ob_channelId ob = cid" and "bw_pending w = []"
    and "ev_channelId ev1 = cid" and "ev_channelId ev2 = cid"
    and "storedKey (bw_store w) = Inr key"
    and "openChannelCranker (w2_platform W) ob ev1 key = Inr (ob1, acts1)"
    and "\<forall>n. DepositAction n \<notin> set acts1"
    and "openChannelCranker (w2_platform W) ob ev2 key = Inr (ob2, acts2)"
  shows "bs_richObjectives (bw_store (finishNth W 0 (finishNth W 0 (startCrank ev2 (startCrank ev1 w))))) cid = Some ob2"
proof -
  have started: "startCrank ev2 (startCrank ev1 w) = w\<lparr>bw_pending := [(ob, ev1), (ob, ev2)]\<rparr>"
    using assms(1,3-5) by (simp add: startCrank_def)
  have no_crank: "bw_pending (fst (performActions W' ob' ev as v)) = bw_pending v"
    if "\<forall>n. DepositAction n \<notin> set as" for W' ob' ev as v
    using that
  proof (induction as arbitrary: v)
    case (Cons a as)
    obtain v1 r where p: "performAction W' ob' a v = (v1, r)" by fastforce
    with Cons.prems have "bw_pending v1 = bw_pending v"
      by (cases a) (auto simp: bindW_def onStore_def split: prod.splits sum.splits)
    moreover have "bw_pending (sendObjective c v1) = bw_pending v1" for c
      by (simp add: sendObjective_def split: option.split)
    ultimately show ?case using Cons by (cases r) (simp_all add: bindW_def p)
  qed simp
  let ?w1 = "w\<lparr>bw_pending := [(ob, ev2)]\<rparr>"
  let ?w2 = "fst (finishCrank W (ob, ev1) ?w1)"
  have first: "finishNth W 0 (w\<lparr>bw_pending := [(ob, ev1), (ob, ev2)]\<rparr>) = ?w2"
    by (simp add: finishNth_def nthOpt_def)
  have "bw_pending ?w2 = [(ob, ev2)]"
    using assms(6,7) no_crank [OF assms(8)] by (simp add: finishCrank_def)
  then have second: "finishNth W 0 ?w2 = fst (finishCrank W (ob, ev2) (?w2\<lparr>bw_pending := []\<rparr>))"
    by (simp add: finishNth_def nthOpt_def)
  have "storedKey (bw_store ?w1) = Inr key" using assms(6) by simp
  from finishCrank_objective(2) [OF this assms(7)] have "storedKey (bw_store ?w2) = Inr key"
    using storedKey_cong [of "bw_store ?w2" "bw_store w"] assms(6) by simp
  then have "storedKey (bw_store (?w2\<lparr>bw_pending := []\<rparr>)) = Inr key" by simp
  from finishCrank_objective(1) [OF this assms(9)] show ?thesis
    unfolding started first second by (simp add: assms(2))
qed

section \<open>Witnesses\<close>

theorem browser_challenge_signs_latest_witness:
  "\<exists>fp vps n sigs who sent. watcherChallenge samplePlatform sampleAbi (entrySupport (newEntry browserChannel)) ''0xA'' =
     Inr (ChallengeCall fp 5 vps n sigs who ''ccccc0xA'', sent)"
proof -
  let ?c = "watcherChallenge samplePlatform sampleAbi (entrySupport (newEntry browserChannel)) ''0xA''"
  have "\<not> isl ?c" by code_simp
  then obtain call sent where ok: "?c = Inr (call, sent)" by (cases ?c) auto
  from browser_challenge_signs_latest [OF ok] obtain fp vps n sigs who where
    "call = ChallengeCall fp (turnNum (hd (entrySupport (newEntry browserChannel)))) vps n sigs who
       (signDigestOfChallenge sampleAbi (nitroOf samplePlatform (hd (entrySupport (newEntry browserChannel)))) ''0xA'')"
    by blast
  moreover have "turnNum (hd (entrySupport (newEntry browserChannel))) = 5" by code_simp
  moreover have "signDigestOfChallenge sampleAbi (nitroOf samplePlatform (hd (entrySupport (newEntry browserChannel)))) ''0xA'' = ''ccccc0xA''"
    unfolding nitroOf_def by code_simp
  ultimately show ?thesis using ok by auto
qed

text \<open>Alice has deposited; Bob's last signature and the money come at the same time.\<close>

definition signatureArrives :: open_channel_event where
  "signatureArrives = sampleEvent (StatesReceived
     [withSignatures (setupState sampleOpening PostFundSetup) [sampleSignature ''0xB'']])"

definition moneyArrives :: open_channel_event where
  "moneyArrives = sampleEvent (FundingUpdated 5 True)"

definition sampleDeposited :: open_channel_objective where
  "sampleDeposited = fst (sampleCrank (fst (sampleCrank (sampleObjective [''0xB'']) Crank)) (DepositSubmitted ''tx'' 0 100))"

definition sampleBrowserWallet :: browser_wallet where
  "sampleBrowserWallet =
     \<lparr>bw_store = emptyStore\<lparr>bs_privateKeys := [(''0xA'', ''0xA'')],
        bs_richObjectives := (\<lambda>_. None)(sampleDest CHR ''l'' \<mapsto> sampleDeposited)\<rparr>,
      bw_pending = [], bw_deposits = [], bw_objectivesSent = []\<rparr>"

definition sampleWallet2Env :: wallet2_env where
  "sampleWallet2Env = \<lparr>w2_browser = \<lparr>be_platform = samplePlatform, be_chainNetworkId = ''1'',
       be_hubDestination = sampleDest CHR ''h'', be_randomKey = ''0xA'', be_connected = True\<rparr>,
     w2_deposit = (\<lambda>_. Inr None), w2_now = 100\<rparr>"

text \<open>With the cranks one after the other the channel would be open.\<close>

theorem overlapping_cranks_lose_an_event_witness:
  "\<exists>ob1 ob2. bs_richObjectives (bw_store (finishNth sampleWallet2Env 0 (finishNth sampleWallet2Env 0
       (startCrank moneyArrives (startCrank signatureArrives sampleBrowserWallet))))) (sampleDest CHR ''l'') = Some ob2 \<and>
     ob_status ob2 \<noteq> ObjectiveSuccess \<and>
     bs_richObjectives (bw_store (finishNth sampleWallet2Env 0 (startCrank moneyArrives
       (finishNth sampleWallet2Env 0 (startCrank signatureArrives sampleBrowserWallet))))) (sampleDest CHR ''l'') = Some ob1 \<and>
     ob_status ob1 = ObjectiveSuccess"
proof -
  let ?ob = sampleDeposited
  let ?P = "w2_platform sampleWallet2Env"
  define r1 where "r1 = openChannelCranker ?P ?ob signatureArrives ''0xA''"
  define r2 where "r2 = openChannelCranker ?P ?ob moneyArrives ''0xA''"
  have ok: "\<not> isl r1" "\<not> isl r2" unfolding r1_def r2_def by code_simp+
  have 1: "r1 = Inr (fst (projr r1), snd (projr r1))" and 2: "r2 = Inr (fst (projr r2), snd (projr r2))"
    using ok by (cases r1; cases r2; simp)+
  have acts: "list_all isSend (snd (projr r1))" unfolding r1_def by code_simp
  then have "\<forall>n. DepositAction n \<notin> set (snd (projr r1))" by (auto simp: list_all_iff)
  moreover have "bs_richObjectives (bw_store sampleBrowserWallet) (sampleDest CHR ''l'') = Some ?ob"
    by (simp add: sampleBrowserWallet_def)
  moreover have "ob_channelId ?ob = sampleDest CHR ''l''" "ev_channelId signatureArrives = sampleDest CHR ''l''"
    "ev_channelId moneyArrives = sampleDest CHR ''l''" "storedKey (bw_store sampleBrowserWallet) = Inr ''0xA''"
    "bw_pending sampleBrowserWallet = []"
    by code_simp+
  ultimately have lost: "bs_richObjectives (bw_store (finishNth sampleWallet2Env 0 (finishNth sampleWallet2Env 0
       (startCrank moneyArrives (startCrank signatureArrives sampleBrowserWallet))))) (sampleDest CHR ''l'') =
      Some (fst (projr r2))"
    using overlapping_cranks_lose_an_event [OF _ _ _ _ _ _ 1 [unfolded r1_def] _ 2 [unfolded r2_def]]
    unfolding r1_def r2_def by blast
  have "ob_status (fst (projr r2)) \<noteq> ObjectiveSuccess" unfolding r2_def by code_simp
  moreover have "map_option ob_status (bs_richObjectives (bw_store (finishNth sampleWallet2Env 0 (startCrank moneyArrives
       (finishNth sampleWallet2Env 0 (startCrank signatureArrives sampleBrowserWallet))))) (sampleDest CHR ''l'')) =
      Some ObjectiveSuccess"
    by code_simp
  ultimately show ?thesis using lost by auto
qed

end
