(* ===== verification/BrowserFunding.thy ===== *)
theory BrowserFunding
  imports BrowserChain
begin

text \<open>
  The workflows of \<open>packages/browser-wallet/src/workflows/\<close> that put money on the chain: what
  \<open>direct-funding.ts\<close>, \<open>create-and-fund.ts\<close>, \<open>create-and-fund-ledger.ts\<close> and
  \<open>approve-budget-and-fund.ts\<close> compute from the store, the machine of \<open>depositing.ts\<close>, and the
  contract function it calls, \<open>deposit\<close> of \<open>packages/nitro-protocol/contracts/MultiAssetHolder.sol\<close>.
\<close>

section \<open>Reading the store\<close>

definition entryIn :: "browser_store \<Rightarrow> bytes32 \<Rightarrow> store_entry result" where
  "entryIn s cid = (case getChannel s cid of None \<Rightarrow> Inl entryMissing | Some d \<Rightarrow> Inr (newEntry d))"

text \<open>\<open>checkThat(outcome, isSimpleEthAllocation).allocationItems\<close>, and the cast without the check.\<close>

definition ethItems :: "outcome \<Rightarrow> allocation_item list result" where
  "ethItems o' =
     bindE (checkThat ''isSimpleEthAllocation'' isSimpleEthAllocation o') (\<lambda>o1.
       case o1 of SimpleAllocation a \<Rightarrow> Inr (allocationItems a) | _ \<Rightarrow> Inl TypeError)"

fun castItems :: "outcome \<Rightarrow> allocation_item list result" where
  "castItems (SimpleAllocation a) = Inr (allocationItems a)"
| "castItems _ = Inl TypeError"

record deposit_info =
  di_channelId :: bytes32
  di_depositAt :: uint256
  di_totalAfterDeposit :: uint256
  di_fundedAt :: uint256

text \<open>The loop over the items: what is deposited before item \<open>i\<close>, and with it.\<close>

fun depositLoop :: "int \<Rightarrow> int \<Rightarrow> uint256 \<Rightarrow> uint256 list \<Rightarrow> (uint256 \<times> uint256) option" where
  "depositLoop me i before' [] = None"
| "depositLoop me i before' (a # as) =
     (if i = me then Some (before', before' + a) else depositLoop me (i + 1) (before' + a) as)"

definition depositInfo :: "bytes32 \<Rightarrow> int \<Rightarrow> uint256 \<Rightarrow> uint256 list \<Rightarrow> deposit_info result" where
  "depositInfo cid me fundedAt as =
     (case depositLoop me 0 0 as of
        None \<Rightarrow> Inl (Error ''Could not find an allocation for participant id'')
      | Some (at, after) \<Rightarrow>
          Inr \<lparr>di_channelId = cid, di_depositAt = at, di_totalAfterDeposit = after, di_fundedAt = fundedAt\<rparr>)"

section \<open>Direct funding\<close>

definition checkCurrentLevel :: "browser_store \<Rightarrow> bytes32 \<Rightarrow> chain_info \<Rightarrow> unit result" where
  "checkCurrentLevel s cid info =
     bindE (entryIn s cid) (\<lambda>e.
     bindE (entrySupported e) (\<lambda>st.
     bindE (ethItems (outcome st)) (\<lambda>items.
       if sum_list (map amount items) > ci_amount info
       then Inl (Error ''DirectFunding: Channel outcome is already underfunded; aborting'') else Inr ())))"

text \<open>A destination that has no item yet has nothing to reduce.\<close>

definition minimalOutcome :: "allocation_item list \<Rightarrow> allocation_item list \<Rightarrow> outcome result" where
  "minimalOutcome current minimal =
     bindE (mapE (\<lambda>i. bindE (reduceAdd (map amount (filter (\<lambda>c. item_destination c = item_destination i) current)))
                        (\<lambda>allocated. Inr (i\<lparr>amount := (if amount i > allocated then amount i - allocated else 0)\<rparr>))) minimal)
       (\<lambda>left. Inr (simpleEthAllocation (current @ left)))"

definition mergeDestinations :: "allocation_item list \<Rightarrow> outcome" where
  "mergeDestinations items =
     simpleEthAllocation (map (\<lambda>d. \<lparr>item_destination = d,
         amount = sum_list (map amount (filter (\<lambda>i. item_destination i = d) items))\<rparr>)
       (uniq (map item_destination items)))"

definition directDepositingInfo ::
  "browser_store \<Rightarrow> bytes32 \<Rightarrow> allocation_item list \<Rightarrow> deposit_info result" where
  "directDepositingInfo s cid minimal =
     bindE (entryIn s cid) (\<lambda>e.
     bindE (entrySupported e) (\<lambda>st.
       if \<not> isSimpleEthAllocation (outcome st) then Inl (Error ''Unsupported outcome'')
       else
         bindE (castItems (outcome st)) (\<lambda>items.
           if depositLoop (ce_myIndex e) 0 0 (map amount minimal) = None
           then Inl (Error ''Could not find an allocation for participant id'')
           else
             bindE (reduceAdd (map amount items)) (\<lambda>fundedAt.
               depositInfo cid (ce_myIndex e) fundedAt (map amount minimal)))))"

text \<open>
  The constants of an entry are the object the channel was created with, a whole state: spread last,
  they bring its application data and its final flag back, here \<open>first\<close>.
\<close>

definition getPrefundOutcome ::
  "browser_store \<Rightarrow> bytes32 \<Rightarrow> allocation_item list \<Rightarrow> state_variables \<Rightarrow> state result" where
  "getPrefundOutcome s cid minimal first' =
     bindE (entryIn s cid) (\<lambda>e.
       if length minimal \<noteq> length (participants (ce_constants e))
       then Inl (Error ''Must be exactly one allocation item per participant'')
       else if entryIsSupported e then
         (case entryLatest e of
            None \<Rightarrow> Inl TypeError
          | Some l \<Rightarrow>
              bindE (castItems (outcome l)) (\<lambda>items.
              bindE (minimalOutcome items minimal) (\<lambda>o'.
                Inr (entryState (ce_constants e) (first'\<lparr>v_outcome := o', v_turnNum := turnNum l + 1\<rparr>)))))
       else
         bindE (minimalOutcome [] minimal) (\<lambda>o'.
           Inr (entryState ((ce_constants e)\<lparr>challengeDuration := 1, appDefinition := zeroAddress\<rparr>)
                  \<lparr>v_outcome = o', v_turnNum = 0, v_appData = ''0x'' @ replicate 64 (CHR ''0''), v_isFinal = False\<rparr>)))"

definition getPostfundOutcome :: "browser_store \<Rightarrow> bytes32 \<Rightarrow> state result" where
  "getPostfundOutcome s cid =
     bindE (entryIn s cid) (\<lambda>e.
     bindE (entrySupported e) (\<lambda>st.
     bindE (castItems (outcome st)) (\<lambda>items.
       Inr ((state.truncate st)\<lparr>turnNum := turnNum st + 1, outcome := mergeDestinations items\<rparr>))))"

section \<open>The deposits of the other workflows\<close>

text \<open>\<open>create-and-fund.ts\<close>: the items of the supported outcome, one after the other.\<close>

definition createDepositingInfo :: "browser_store \<Rightarrow> bytes32 \<Rightarrow> deposit_info result" where
  "createDepositingInfo s cid =
     bindE (entryIn s cid) (\<lambda>e.
     bindE (entrySupported e) (\<lambda>st.
     bindE (ethItems (outcome st)) (\<lambda>items.
     bindE (reduceAdd (map amount items)) (\<lambda>fundedAt.
       depositInfo cid (ce_myIndex e) fundedAt (map amount items)))))"

text \<open>\<open>create-and-fund-ledger.ts\<close>: the player with index 0 comes second, and everyone up to the total.\<close>

definition ledgerDepositingInfo :: "browser_store \<Rightarrow> bytes32 \<Rightarrow> deposit_info result" where
  "ledgerDepositingInfo s cid =
     bindE (entryIn s cid) (\<lambda>e.
     bindE (entrySupported e) (\<lambda>st.
     bindE (ethItems (outcome st)) (\<lambda>items.
     bindE (reduceAdd (map amount items)) (\<lambda>fundedAt.
       Inr \<lparr>di_channelId = cid,
            di_depositAt = (if ce_myIndex e = 0 then amount (hd items) else 0),
            di_totalAfterDeposit = fundedAt, di_fundedAt = fundedAt\<rparr>))))"

text \<open>\<open>approve-budget-and-fund.ts\<close>: the ledger's outcome, and when to deposit how much of it.\<close>

definition convertPendingBudgetToAllocation ::
  "domain_budget \<Rightarrow> participant \<Rightarrow> participant \<Rightarrow> outcome result" where
  "convertPendingBudgetToAllocation b player hub =
     (if length (bud_forAsset b) \<noteq> 1 then Inl (Error ''Cannot handle mixed budget'')
      else (case map_of (bud_forAsset b) zeroAddress of
              None \<Rightarrow> Inl (Error ''not valid, exists failed on undefined'')
            | Some ab \<Rightarrow>
                Inr (simpleEthAllocation
                  [\<lparr>item_destination = destination hub, amount = ab_availableReceiveCapacity ab\<rparr>,
                   \<lparr>item_destination = destination player, amount = ab_availableSendCapacity ab\<rparr>])))"

definition calculateDepositInfo :: "bytes32 \<Rightarrow> domain_budget \<Rightarrow> deposit_info result" where
  "calculateDepositInfo cid b =
     (case map_of (bud_forAsset b) zeroAddress of
        None \<Rightarrow> Inl (Error ''not valid, exists failed on undefined'')
      | Some ab \<Rightarrow>
          (let ourAmount = ab_availableSendCapacity ab;
               hubAmount = ab_availableSendCapacity ab;
               totalAmount = ourAmount + hubAmount
           in Inr \<lparr>di_channelId = cid, di_depositAt = hubAmount, di_totalAfterDeposit = totalAmount,
                   di_fundedAt = totalAmount\<rparr>))"

section \<open>The depositing machine\<close>

datatype dep_state = DepIdle | DepSubmit | DepDone | DepFailure

datatype dep_event = Funded | SafeToDeposit uint256

text \<open>What a report of the chain is to the machine.\<close>

definition depositEvent :: "deposit_info \<Rightarrow> uint256 \<Rightarrow> dep_event option" where
  "depositEvent i held =
     (if held \<ge> di_fundedAt i then Some Funded
      else if held \<ge> di_depositAt i then Some (SafeToDeposit held)
      else None)"

text \<open>\<open>FUNDED\<close> is handled at the root, in every state that is not final.\<close>

fun depositingStep :: "dep_state \<Rightarrow> dep_event \<Rightarrow> dep_state" where
  "depositingStep DepDone ev = DepDone"
| "depositingStep st Funded = DepDone"
| "depositingStep DepIdle (SafeToDeposit _) = DepSubmit"
| "depositingStep st (SafeToDeposit _) = st"

record deposit_tx =
  tx_from :: nat
  tx_expectedHeld :: uint256
  tx_amount :: uint256

definition submitDepositTransaction :: "nat \<Rightarrow> deposit_info \<Rightarrow> uint256 \<Rightarrow> deposit_tx option" where
  "submitDepositTransaction who i currentHoldings =
     (let amount = di_totalAfterDeposit i - currentHoldings in
      if amount \<le> 0 then None
      else Some \<lparr>tx_from = who, tx_expectedHeld = currentHoldings, tx_amount = amount\<rparr>)"

text \<open>
  The contract: None is a revert, otherwise the new holdings and what the sender has paid. The value
  sent is the amount, as \<open>ChainWatcher.deposit\<close> sets it, and what was too much is refunded.
\<close>

definition contractDeposit :: "uint256 \<Rightarrow> deposit_tx \<Rightarrow> (uint256 \<times> uint256) option" where
  "contractDeposit held t =
     (let target = tx_expectedHeld t + tx_amount t in
      if held < tx_expectedHeld t \<or> target \<ge> 2 ^ 256 \<or> held \<ge> target then None
      else Some (target, target - held))"

section \<open>Participants depositing against each other\<close>

text \<open>
  The machines of all participants and the chain. Transactions wait in a pool, in which they may be
  overtaken and from which they may be lost.
\<close>

record deposit_system =
  ds_states :: "dep_state list"
  ds_holdings :: uint256
  ds_paid :: "nat \<Rightarrow> uint256"
  ds_pool :: "deposit_tx list"
  ds_reports :: "uint256 list"

definition initDeposits :: "nat \<Rightarrow> uint256 \<Rightarrow> uint256 list \<Rightarrow> deposit_system" where
  "initDeposits n held reports =
     \<lparr>ds_states = replicate n DepIdle, ds_holdings = held, ds_paid = (\<lambda>_. 0), ds_pool = [], ds_reports = reports\<rparr>"

definition deliverReport :: "deposit_info list \<Rightarrow> nat \<Rightarrow> uint256 \<Rightarrow> deposit_system \<Rightarrow> deposit_system" where
  "deliverReport infos i h s =
     (case depositEvent (infos ! i) h of
        None \<Rightarrow> s
      | Some ev \<Rightarrow>
          (let st = ds_states s ! i; st' = depositingStep st ev
           in s\<lparr>ds_states := (ds_states s)[i := st'],
                ds_pool := (if st = DepIdle \<and> st' = DepSubmit
                            then (case submitDepositTransaction i (infos ! i) h of
                                    None \<Rightarrow> ds_pool s | Some t \<Rightarrow> ds_pool s @ [t])
                            else ds_pool s)\<rparr>))"

definition mineDeposit :: "deposit_tx \<Rightarrow> deposit_system \<Rightarrow> deposit_system" where
  "mineDeposit t s =
     (let s1 = s\<lparr>ds_pool := remove1 t (ds_pool s)\<rparr> in
      case contractDeposit (ds_holdings s) t of
        None \<Rightarrow> s1
      | Some (held, paid) \<Rightarrow>
          s1\<lparr>ds_holdings := held, ds_paid := (ds_paid s)(tx_from t := ds_paid s (tx_from t) + paid),
             ds_reports := ds_reports s @ [held]\<rparr>)"

text \<open>
  What can happen when nothing is known of the feed: a holding that was once reported may reach a
  participant late, more than once or never. The real feeds do less (see below); what holds for all of
  these runs holds for theirs.
\<close>

inductive deposits :: "deposit_info list \<Rightarrow> deposit_system \<Rightarrow> deposit_system \<Rightarrow> bool"
  for infos :: "deposit_info list" and start :: deposit_system where
  start: "deposits infos start start"
| report: "deposits infos start s \<Longrightarrow> i < length infos \<Longrightarrow> h \<in> set (ds_reports s) \<Longrightarrow>
     deposits infos start (deliverReport infos i h s)"
| submitted: "deposits infos start s \<Longrightarrow> i < length infos \<Longrightarrow> ds_states s ! i = DepSubmit \<Longrightarrow>
     deposits infos start (s\<lparr>ds_states := (ds_states s)[i := DepIdle]\<rparr>)"
| failed: "deposits infos start s \<Longrightarrow> i < length infos \<Longrightarrow> ds_states s ! i = DepSubmit \<Longrightarrow>
     deposits infos start (s\<lparr>ds_states := (ds_states s)[i := DepFailure]\<rparr>)"
| mined: "deposits infos start s \<Longrightarrow> t \<in> set (ds_pool s) \<Longrightarrow> deposits infos start (mineDeposit t s)"
| lost: "deposits infos start s \<Longrightarrow> t \<in> set (ds_pool s) \<Longrightarrow>
     deposits infos start (s\<lparr>ds_pool := remove1 t (ds_pool s)\<rparr>)"

text \<open>
  The feeds of \<open>chain.ts\<close>: every participant has the reports that are still on their way to it. The one of
  \<open>ChainWatcher\<close> has none at first, the one of \<open>FakeChain\<close> the current holdings. A deposit that is
  mined is reported once to everyone; reports may overtake each other, since each waits for
  \<open>getChainInfo\<close>, and one that comes before the workflow has subscribed is missed.
\<close>

definition depositedEvent :: "deposit_tx \<Rightarrow> deposit_system \<Rightarrow> (nat \<Rightarrow> uint256 list) \<Rightarrow> nat \<Rightarrow> uint256 list" where
  "depositedEvent t s q i =
     (case contractDeposit (ds_holdings s) t of None \<Rightarrow> q i | Some (held, paid) \<Rightarrow> q i @ [held])"

inductive feed_deposits ::
  "deposit_info list \<Rightarrow> deposit_system \<Rightarrow> (nat \<Rightarrow> uint256 list) \<Rightarrow> deposit_system \<Rightarrow> (nat \<Rightarrow> uint256 list) \<Rightarrow> bool"
  for infos :: "deposit_info list" and start :: deposit_system and q0 :: "nat \<Rightarrow> uint256 list" where
  start: "feed_deposits infos start q0 start q0"
| report: "feed_deposits infos start q0 s q \<Longrightarrow> i < length infos \<Longrightarrow> h \<in> set (q i) \<Longrightarrow>
     feed_deposits infos start q0 (deliverReport infos i h s) (q(i := remove1 h (q i)))"
| missed: "feed_deposits infos start q0 s q \<Longrightarrow> h \<in> set (q i) \<Longrightarrow>
     feed_deposits infos start q0 s (q(i := remove1 h (q i)))"
| submitted: "feed_deposits infos start q0 s q \<Longrightarrow> i < length infos \<Longrightarrow> ds_states s ! i = DepSubmit \<Longrightarrow>
     feed_deposits infos start q0 (s\<lparr>ds_states := (ds_states s)[i := DepIdle]\<rparr>) q"
| failed: "feed_deposits infos start q0 s q \<Longrightarrow> i < length infos \<Longrightarrow> ds_states s ! i = DepSubmit \<Longrightarrow>
     feed_deposits infos start q0 (s\<lparr>ds_states := (ds_states s)[i := DepFailure]\<rparr>) q"
| mined: "feed_deposits infos start q0 s q \<Longrightarrow> t \<in> set (ds_pool s) \<Longrightarrow>
     feed_deposits infos start q0 (mineDeposit t s) (depositedEvent t s q)"
| lost: "feed_deposits infos start q0 s q \<Longrightarrow> t \<in> set (ds_pool s) \<Longrightarrow>
     feed_deposits infos start q0 (s\<lparr>ds_pool := remove1 t (ds_pool s)\<rparr>) q"

end
