(* ===== verification/BrowserFundingFacts.thy ===== *)
theory BrowserFundingFacts
  imports BrowserFunding BrowserSafety
begin

text \<open>
  Facts about the deposits of the browser wallet: no participant pays more than its share whatever is
  late, lost or repeated, and with the shares of one outcome the channel is funded by everyone's own.
\<close>

section \<open>Shares\<close>

lemma depositLoop_eq:
  "depositLoop me i b as =
     (if i \<le> me \<and> nat (me - i) < length as
      then Some (b + sum_list (take (nat (me - i)) as), b + sum_list (take (Suc (nat (me - i))) as)) else None)"
proof (induction as arbitrary: i b)
  case (Cons a as)
  consider "i = me" | "i < me" | "me < i" by linarith
  then show ?case
  proof cases
    case 2
    then have "nat (me - i) = Suc (nat (me - (i + 1)))" by simp
    with 2 Cons.IH [of "i + 1" "b + a"] show ?thesis by simp
  qed (use Cons.IH in simp_all)
qed simp

lemma depositInfo_share:
  assumes "depositInfo cid (int j) total' as = Inr i"
  shows "j < length as" and "di_depositAt i = sum_list (take j as)"
    and "di_totalAfterDeposit i = sum_list (take (Suc j) as)" and "di_fundedAt i = total'"
  using assms by (auto simp: depositInfo_def depositLoop_eq split: if_splits)

section \<open>The invariant of the deposits\<close>

definition fairTx :: "deposit_info list \<Rightarrow> deposit_tx \<Rightarrow> bool" where
  "fairTx infos t \<longleftrightarrow> tx_from t < length infos \<and>
     di_depositAt (infos ! tx_from t) \<le> tx_expectedHeld t \<and>
     tx_expectedHeld t + tx_amount t = di_totalAfterDeposit (infos ! tx_from t)"

definition fairShare :: "deposit_info \<Rightarrow> uint256 \<Rightarrow> uint256 \<Rightarrow> bool" where
  "fairShare i held paid \<longleftrightarrow> paid = 0 \<or> (0 \<le> paid \<and>
     paid \<le> di_totalAfterDeposit i - di_depositAt i \<and> di_totalAfterDeposit i \<le> held)"

definition depositsInv :: "deposit_info list \<Rightarrow> uint256 \<Rightarrow> deposit_system \<Rightarrow> bool" where
  "depositsInv infos h0 s \<longleftrightarrow>
     length (ds_states s) = length infos \<and>
     h0 + (\<Sum>i<length infos. ds_paid s i) = ds_holdings s \<and>
     (\<forall>t \<in> set (ds_pool s). fairTx infos t) \<and>
     (\<forall>i<length infos. fairShare (infos ! i) (ds_holdings s) (ds_paid s i)) \<and>
     (\<forall>h \<in> set (ds_reports s). h \<le> ds_holdings s) \<and>
     (\<forall>i<length infos. ds_states s ! i = DepDone \<longrightarrow> di_fundedAt (infos ! i) \<le> ds_holdings s)"

lemma depositsInv_init:
  assumes "\<forall>h \<in> set reports. h \<le> h0"
  shows "depositsInv infos h0 (initDeposits (length infos) h0 reports)"
  using assms by (auto simp: depositsInv_def initDeposits_def fairShare_def)

lemma fairShare_mono: "fairShare i h p \<Longrightarrow> h \<le> h' \<Longrightarrow> fairShare i h' p"
  by (auto simp: fairShare_def)

lemma depositingStep_Done: "depositingStep st ev = DepDone \<Longrightarrow> st = DepDone \<or> ev = Funded"
  by (cases st; cases ev) simp_all

lemma deliverReport_inv:
  assumes inv: "depositsInv infos h0 s" and i: "i < length infos" and h: "h \<in> set (ds_reports s)"
  shows "depositsInv infos h0 (deliverReport infos i h s)"
proof (cases "depositEvent (infos ! i) h")
  case (Some ev)
  from inv h have le: "h \<le> ds_holdings s" by (simp add: depositsInv_def)
  let ?st = "depositingStep (ds_states s ! i) ev"
  have fin: "di_fundedAt (infos ! i) \<le> ds_holdings s" if "?st = DepDone"
  proof (cases "ds_states s ! i = DepDone")
    case True
    with inv i show ?thesis by (simp add: depositsInv_def)
  next
    case False
    with depositingStep_Done [OF that] have "ev = Funded" by blast
    with Some le show ?thesis by (simp add: depositEvent_def split: if_splits)
  qed
  have tx: "fairTx infos t"
    if "ds_states s ! i = DepIdle" "?st = DepSubmit" "submitDepositTransaction i (infos ! i) h = Some t" for t
  proof -
    from that(1,2) have "ev \<noteq> Funded" by (cases ev) simp_all
    with Some have "di_depositAt (infos ! i) \<le> h" by (auto simp: depositEvent_def split: if_splits)
    with that(3) i show ?thesis by (auto simp: submitDepositTransaction_def fairTx_def Let_def split: if_splits)
  qed
  define pool where "pool = (if ds_states s ! i = DepIdle \<and> ?st = DepSubmit
      then (case submitDepositTransaction i (infos ! i) h of None \<Rightarrow> ds_pool s | Some t \<Rightarrow> ds_pool s @ [t])
      else ds_pool s)"
  have "\<forall>t \<in> set pool. t \<in> set (ds_pool s) \<or> fairTx infos t"
    using tx by (auto simp: pool_def split: option.splits)
  with inv have pool: "\<forall>t \<in> set pool. fairTx infos t" by (auto simp: depositsInv_def)
  have "deliverReport infos i h s = s\<lparr>ds_states := (ds_states s)[i := ?st], ds_pool := pool\<rparr>"
    by (simp add: deliverReport_def Some Let_def pool_def)
  moreover have "\<forall>j<length infos. (ds_states s)[i := ?st] ! j = DepDone \<longrightarrow> di_fundedAt (infos ! j) \<le> ds_holdings s"
  proof (intro allI impI)
    fix j
    assume j: "j < length infos" "(ds_states s)[i := ?st] ! j = DepDone"
    show "di_fundedAt (infos ! j) \<le> ds_holdings s"
    proof (cases "j = i")
      case True
      with fin j inv i show ?thesis by (simp add: depositsInv_def)
    next
      case False
      with j inv show ?thesis by (simp add: depositsInv_def)
    qed
  qed
  ultimately show ?thesis using inv pool by (simp add: depositsInv_def)
qed (use inv in \<open>simp add: deliverReport_def\<close>)

lemma mineDeposit_inv:
  assumes inv: "depositsInv infos h0 s" and t: "t \<in> set (ds_pool s)"
  shows "depositsInv infos h0 (mineDeposit t s)"
proof -
  have pool: "\<forall>t \<in> set (remove1 t (ds_pool s)). fairTx infos t"
    using inv set_remove1_subset [of t "ds_pool s"] unfolding depositsInv_def by blast
  show ?thesis
  proof (cases "contractDeposit (ds_holdings s) t")
    case None
    then have "mineDeposit t s = s\<lparr>ds_pool := remove1 t (ds_pool s)\<rparr>" by (simp add: mineDeposit_def Let_def)
    with inv pool show ?thesis by (simp add: depositsInv_def)
  next
    case (Some r)
    let ?i = "tx_from t" let ?target = "tx_expectedHeld t + tx_amount t"
    from Some have r: "r = (?target, ?target - ds_holdings s)" "tx_expectedHeld t \<le> ds_holdings s"
      "ds_holdings s < ?target"
      by (auto simp: contractDeposit_def Let_def split: if_splits)
    from inv t have "fairTx infos t" by (simp add: depositsInv_def)
    then have i: "?i < length infos" "di_depositAt (infos ! ?i) \<le> tx_expectedHeld t"
      "?target = di_totalAfterDeposit (infos ! ?i)"
      by (auto simp: fairTx_def)
    from inv i(1) have "fairShare (infos ! ?i) (ds_holdings s) (ds_paid s ?i)" by (simp add: depositsInv_def)
    with r(3) i(3) have paid0: "ds_paid s ?i = 0" by (auto simp: fairShare_def)
    define paid where "paid = (ds_paid s)(?i := ?target - ds_holdings s)"
    have total: "(\<Sum>j<length infos. paid j) = (\<Sum>j<length infos. ds_paid s j) + (?target - ds_holdings s)"
      using i(1) paid0 by (simp add: paid_def sum.remove [of "{..<length infos}" ?i])
    have shares: "fairShare (infos ! j) ?target (paid j)" if "j < length infos" for j
    proof (cases "j = ?i")
      case True
      with i r(2,3) show ?thesis by (simp add: paid_def fairShare_def)
    next
      case False
      from inv that have "fairShare (infos ! j) (ds_holdings s) (ds_paid s j)" by (simp add: depositsInv_def)
      from fairShare_mono [OF this, of ?target] r(3) False show ?thesis by (simp add: paid_def)
    qed
    have mono: "x \<le> ds_holdings s \<Longrightarrow> x \<le> ?target" for x using r(3) by simp
    have eq: "mineDeposit t s = s\<lparr>ds_pool := remove1 t (ds_pool s), ds_holdings := ?target,
        ds_paid := paid, ds_reports := ds_reports s @ [?target]\<rparr>"
      by (simp add: mineDeposit_def Some r(1) Let_def paid_def paid0)
    show ?thesis
      unfolding depositsInv_def eq
    proof (intro conjI)
      show "length (ds_states (s\<lparr>ds_pool := remove1 t (ds_pool s), ds_holdings := ?target, ds_paid := paid,
          ds_reports := ds_reports s @ [?target]\<rparr>)) = length infos"
        using inv by (simp add: depositsInv_def)
    qed (use inv pool total shares mono in \<open>auto simp: depositsInv_def\<close>)
  qed
qed

lemma deposits_inv:
  assumes "deposits infos start s" and "depositsInv infos h0 start"
  shows "depositsInv infos h0 s"
  using assms
proof (induction rule: deposits.induct)
  case (report s i h)
  then show ?case by (simp add: deliverReport_inv)
next
  case (submitted s i)
  then show ?case by (auto simp: depositsInv_def nth_list_update)
next
  case (failed s i)
  then show ?case by (auto simp: depositsInv_def nth_list_update)
next
  case (mined s t)
  then show ?case by (simp add: mineDeposit_inv)
next
  case (lost s t)
  then have "depositsInv infos h0 s" by simp
  moreover from this have "\<forall>t' \<in> set (remove1 t (ds_pool s)). fairTx infos t'"
    using set_remove1_subset [of t "ds_pool s"] unfolding depositsInv_def by blast
  ultimately show ?case unfolding depositsInv_def by simp
qed

section \<open>Nobody pays more than its share\<close>

text \<open>
  C34: whatever the chain reports late or twice, whichever transactions overtake each other or are
  lost, no participant ever pays more than the difference between its two marks, and the holdings are
  what was there and what was paid.
\<close>

theorem deposits_within_share:
  assumes "deposits infos (initDeposits (length infos) h0 reports) s" and "\<forall>h \<in> set reports. h \<le> h0"
  shows "ds_holdings s = h0 + (\<Sum>i<length infos. ds_paid s i) \<and>
    (\<forall>i<length infos. 0 \<le> ds_paid s i \<and>
       ds_paid s i \<le> max 0 (di_totalAfterDeposit (infos ! i) - di_depositAt (infos ! i)))"
proof -
  from deposits_inv [OF assms(1) depositsInv_init [OF assms(2)]] have "depositsInv infos h0 s" .
  then show ?thesis by (force simp: depositsInv_def fairShare_def)
qed

text \<open>The participants of one channel with the same supported outcome, each with its own store.\<close>

definition fundingTogether :: "bytes32 \<Rightarrow> allocation_item list \<Rightarrow> (nat \<Rightarrow> browser_store) \<Rightarrow> deposit_info list \<Rightarrow> bool" where
  "fundingTogether cid items stores infos \<longleftrightarrow>
     length infos = length items \<and>
     (\<forall>i \<in> set items. 0 \<le> amount i) \<and>
     (\<forall>j<length items. \<exists>e st. entryIn (stores j) cid = Inr e \<and> entrySupported e = Inr st \<and>
        outcome st = simpleEthAllocation items \<and> ce_myIndex e = int j \<and>
        createDepositingInfo (stores j) cid = Inr (infos ! j))"

lemma fundingTogether_infos:
  assumes "fundingTogether cid items stores infos" and "j < length items"
  shows "infos ! j = \<lparr>di_channelId = cid, di_depositAt = sum_list (take j (map amount items)),
    di_totalAfterDeposit = sum_list (take (Suc j) (map amount items)), di_fundedAt = sum_list (map amount items)\<rparr>"
proof -
  from assms obtain e st where "entryIn (stores j) cid = Inr e" "entrySupported e = Inr st"
    "outcome st = simpleEthAllocation items" "ce_myIndex e = int j" "createDepositingInfo (stores j) cid = Inr (infos ! j)"
    unfolding fundingTogether_def by blast
  moreover have "ethItems (simpleEthAllocation items) = Inr items"
    by (simp add: ethItems_def checkThat_def simpleEthAllocation_def)
  ultimately have "depositInfo cid (int j) (sum_list (map amount items)) (map amount items) = Inr (infos ! j)"
    by (auto simp: createDepositingInfo_def reduceAdd_def bindE_eq_Inr split: if_splits)
  with assms(2) show ?thesis by (auto simp: depositInfo_def depositLoop_eq split: if_splits)
qed

lemma sum_paid_shares:
  fixes f :: "nat \<Rightarrow> int"
  assumes "\<forall>j<length xs. f j \<le> xs ! j" and "sum_list xs \<le> (\<Sum>j<length xs. f j)"
  shows "\<forall>j<length xs. f j = xs ! j"
proof (rule ccontr)
  assume "\<not> ?thesis"
  then obtain j where "j < length xs" "f j \<noteq> xs ! j" by blast
  with assms(1) have "f j < xs ! j" by force
  with \<open>j < length xs\<close> assms(1) have "(\<Sum>j<length xs. f j) < (\<Sum>j<length xs. xs ! j)"
    by (intro sum_strict_mono_ex1) auto
  with assms(2) show False by (simp add: sum_list_sum_nth lessThan_atLeast0)
qed

text \<open>
  when the participants fund a channel from its supported outcome and the workflow of one of them
  has ended, then everyone has paid exactly its own item.
\<close>

theorem funded_by_everyone:
  assumes "fundingTogether cid items stores infos" and "deposits infos (initDeposits (length infos) 0 reports) s"
    and "set reports \<subseteq> {0}" and "i < length items" and "ds_states s ! i = DepDone"
  shows "\<forall>j<length items. ds_paid s j = amount (items ! j)"
proof -
  have len: "length infos = length items" using assms(1) by (simp add: fundingTogether_def)
  have "\<forall>h \<in> set reports. h \<le> 0" using assms(3) by auto
  from deposits_inv [OF assms(2) depositsInv_init [OF this]] have inv: "depositsInv infos 0 s" .
  have nonneg: "0 \<le> map amount items ! j" if "j < length items" for j
    using assms(1) that by (simp add: fundingTogether_def)
  have share: "ds_paid s j \<le> map amount items ! j" if "j < length items" for j
  proof -
    have "fairShare (infos ! j) (ds_holdings s) (ds_paid s j)" using inv that by (simp add: depositsInv_def len)
    moreover have "di_totalAfterDeposit (infos ! j) - di_depositAt (infos ! j) = map amount items ! j"
      using fundingTogether_infos [OF assms(1) that] that by (simp add: take_Suc_conv_app_nth)
    ultimately show ?thesis using nonneg [OF that] by (auto simp: fairShare_def)
  qed
  have "sum_list (map amount items) \<le> ds_holdings s"
    using inv assms(4,5) fundingTogether_infos [OF assms(1,4)] by (auto simp: depositsInv_def len)
  moreover have "ds_holdings s = (\<Sum>j<length items. ds_paid s j)" using inv by (simp add: depositsInv_def len)
  ultimately show ?thesis using sum_paid_shares [of "map amount items" "ds_paid s"] share by simp
qed

section \<open>The feeds of the chain\<close>

text \<open>Every run with a real feed is one of the runs above.\<close>

lemma feed_deposits_sound:
  assumes "feed_deposits infos start q0 s q" and "\<forall>i. set (q0 i) \<subseteq> set (ds_reports start)"
  shows "deposits infos start s \<and> (\<forall>i. set (q i) \<subseteq> set (ds_reports s))"
  using assms(1)
proof (induction rule: feed_deposits.induct)
  case (report s q i h)
  then have "deposits infos start (deliverReport infos i h s)" by (blast intro: deposits.report)
  moreover have "ds_reports (deliverReport infos i h s) = ds_reports s"
    by (simp add: deliverReport_def Let_def split: option.split)
  ultimately show ?case using report.IH set_remove1_subset [of h "q i"] by auto
next
  case (missed s q h i)
  then show ?case using set_remove1_subset [of h "q i"] by auto
next
  case (mined s q t)
  then have "deposits infos start (mineDeposit t s)" by (blast intro: deposits.mined)
  moreover have "set (depositedEvent t s q i) \<subseteq> set (ds_reports (mineDeposit t s))" for i
    using mined.IH by (auto simp: depositedEvent_def mineDeposit_def Let_def split: option.splits)
  ultimately show ?case by blast
qed (use assms(2) in \<open>auto intro: deposits.intros\<close>)

definition initialFeed :: "nat \<Rightarrow> uint256 list \<Rightarrow> nat \<Rightarrow> uint256 list" where
  "initialFeed n hs i = (if i < n then hs else [])"

lemma initialFeed_simps [simp]: "i < n \<Longrightarrow> initialFeed n hs i = hs" "initialFeed n hs i = (if i < n then hs else [])"
  by (simp_all add: initialFeed_def)

text \<open>With a feed that is silent before the first deposit, everybody waits.\<close>

lemma silent_feed:
  assumes "feed_deposits infos (initDeposits (length infos) h0 reports) (\<lambda>_. []) s q"
  shows "s = initDeposits (length infos) h0 reports \<and> q = (\<lambda>_. [])"
  using assms by (induction rule: feed_deposits.induct) (auto simp: initDeposits_def depositedEvent_def)

text \<open>A report that asks for nothing more leaves things as they were.\<close>

lemma report_without_effect:
  assumes "feed_deposits infos start q0 s q" and "i < length infos" and "length (ds_states s) = length infos"
    and "ds_states s ! i = DepIdle" and "q i = h # hs" and "h < di_fundedAt (infos ! i)"
    and "h < di_depositAt (infos ! i) \<or> di_totalAfterDeposit (infos ! i) \<le> h"
  shows "feed_deposits infos start q0 s (q(i := hs))"
proof -
  have r: "feed_deposits infos start q0 (deliverReport infos i h s) (q(i := hs))"
    using feed_deposits.report [OF assms(1,2), of h] assms(5) by simp
  show ?thesis
  proof (cases "h < di_depositAt (infos ! i)")
    case True
    with assms(6) have "deliverReport infos i h s = s" by (simp add: deliverReport_def depositEvent_def)
    with r show ?thesis by simp
  next
    case False
    with assms(4,6,7) have "deliverReport infos i h s = s\<lparr>ds_states := (ds_states s)[i := DepSubmit]\<rparr>"
      by (simp add: deliverReport_def depositEvent_def submitDepositTransaction_def Let_def)
    with feed_deposits.submitted [OF r assms(2)] assms(2,3)
    have "feed_deposits infos start q0 (s\<lparr>ds_states := (ds_states s)[i := DepIdle]\<rparr>) (q(i := hs))" by simp
    moreover have "(ds_states s)[i := DepIdle] = ds_states s" using assms(4) by (simp flip: assms(4))
    ultimately show ?thesis by simp
  qed
qed

text \<open>All participants wait, and each is about to be told the current holdings.\<close>

definition waitingAt :: "nat \<Rightarrow> uint256 \<Rightarrow> deposit_system \<Rightarrow> (nat \<Rightarrow> uint256 list) \<Rightarrow> bool" where
  "waitingAt n h s q \<longleftrightarrow> length (ds_states s) = n \<and> (\<forall>i<n. ds_states s ! i = DepIdle) \<and>
     ds_holdings s = h \<and> ds_pool s = [] \<and> (\<forall>i<n. q i = [h])"

lemma reports_without_effect:
  assumes "feed_deposits infos start q0 s q" and "length (ds_states s) = length infos"
    and "\<forall>i<length infos. ds_states s ! i = DepIdle" and "\<forall>i<length infos. i \<noteq> j \<longrightarrow> q i = [h, h'] \<and>
      h < di_fundedAt (infos ! i) \<and> (h < di_depositAt (infos ! i) \<or> di_totalAfterDeposit (infos ! i) \<le> h)"
    and "m \<le> length infos"
  shows "\<exists>q'. feed_deposits infos start q0 s q' \<and> (\<forall>i. q' i = (if i < m \<and> i \<noteq> j then [h'] else q i))"
  using assms(5)
proof (induction m)
  case 0
  with assms(1) show ?case by (intro exI [of _ q]) simp
next
  case (Suc m)
  then obtain q' where q': "feed_deposits infos start q0 s q'" "\<forall>i. q' i = (if i < m \<and> i \<noteq> j then [h'] else q i)" by auto
  show ?case
  proof (cases "m = j")
    case True
    then have "\<forall>i. q' i = (if i < Suc m \<and> i \<noteq> j then [h'] else q i)" using q'(2) by (auto simp: less_Suc_eq)
    with q'(1) show ?thesis by blast
  next
    case False
    with q'(2) Suc.prems assms(4) have "q' m = h # [h']" by simp
    from report_without_effect [OF q'(1) _ assms(2) _ this] False Suc.prems assms(3,4)
    have "feed_deposits infos start q0 s (q'(m := [h']))" by simp
    moreover have "\<forall>i. (q'(m := [h'])) i = (if i < Suc m \<and> i \<noteq> j then [h'] else q i)"
      using q'(2) False by (auto simp: less_Suc_eq)
    ultimately show ?thesis by blast
  qed
qed

lemma take_le_take:
  fixes as :: "int list"
  assumes "\<forall>a \<in> set as. 0 \<le> a" and "i \<le> j"
  shows "sum_list (take i as) \<le> sum_list (take j as)"
proof -
  obtain k where j: "j = i + k" using assms(2) le_Suc_ex by blast
  have "0 \<le> sum_list (take k (drop i as))"
    using assms(1) by (intro sum_list_nonneg) (meson in_set_dropD in_set_takeD)
  then show ?thesis by (simp add: j take_add)
qed

lemma next_share:
  assumes fund: "fundingTogether cid items stores infos" and small: "sum_list (map amount items) < 2 ^ 256"
    and run: "feed_deposits infos start q0 s q" and k: "k < length items"
    and w: "waitingAt (length infos) (sum_list (take k (map amount items))) s q"
  shows "\<exists>s' q'. feed_deposits infos start q0 s' q' \<and>
    waitingAt (length infos) (sum_list (take (Suc k) (map amount items))) s' q'"
proof (cases "amount (items ! k) = 0")
  case True
  with w run k show ?thesis by (auto simp: take_Suc_conv_app_nth)
next
  case False
  let ?as = "map amount items"
  let ?h = "sum_list (take k ?as)" and ?h' = "sum_list (take (Suc k) ?as)"
  have len: "length infos = length items" using fund by (simp add: fundingTogether_def)
  have nonneg: "\<forall>a \<in> set ?as. 0 \<le> a" using fund by (auto simp: fundingTogether_def)
  then have "0 \<le> amount (items ! k)" using k by simp
  with False k have less: "?h < ?h'" by (simp add: take_Suc_conv_app_nth)
  have le: "?h' \<le> sum_list ?as" using take_le_take [OF nonneg, of "Suc k" "length items"] k by simp
  note info = fundingTogether_infos [OF fund]
  have idle: "ds_states s ! k = DepIdle" "q k = [?h]" using w k len by (simp_all add: waitingAt_def)
  let ?t = "\<lparr>tx_from = k, tx_expectedHeld = ?h, tx_amount = ?h' - ?h\<rparr>"
  let ?s1 = "s\<lparr>ds_states := (ds_states s)[k := DepSubmit], ds_pool := [?t]\<rparr>" and ?q1 = "q(k := [])"
  have "depositEvent (infos ! k) ?h = Some (SafeToDeposit ?h)"
    using info [OF k] less le by (simp add: depositEvent_def)
  moreover have "submitDepositTransaction k (infos ! k) ?h = Some ?t"
    using info [OF k] less by (simp add: submitDepositTransaction_def)
  ultimately have "deliverReport infos k ?h s = ?s1"
    using idle w by (simp add: deliverReport_def Let_def waitingAt_def)
  with feed_deposits.report [OF run, of k ?h] idle k len have 1: "feed_deposits infos start q0 ?s1 ?q1" by simp
  let ?s2 = "mineDeposit ?t ?s1" and ?q2 = "depositedEvent ?t ?s1 ?q1"
  have 2: "feed_deposits infos start q0 ?s2 ?q2" by (rule feed_deposits.mined [OF 1]) simp
  have "contractDeposit ?h ?t = Some (?h', ?h' - ?h)"
    using less le small by (simp add: contractDeposit_def Let_def)
  then have s2: "ds_states ?s2 = (ds_states s)[k := DepSubmit]" "ds_holdings ?s2 = ?h'" "ds_pool ?s2 = []"
    "\<And>i. ?q2 i = ?q1 i @ [?h']"
    using w by (simp_all add: mineDeposit_def depositedEvent_def Let_def waitingAt_def)
  let ?s3 = "?s2\<lparr>ds_states := (ds_states ?s2)[k := DepIdle]\<rparr>"
  have lens: "length (ds_states s) = length infos" using w by (simp add: waitingAt_def)
  then have "ds_states ?s2 ! k = DepSubmit" using k len by (simp add: s2)
  then have 3: "feed_deposits infos start q0 ?s3 ?q2" using 2 k len by (intro feed_deposits.submitted) simp_all
  have states: "ds_states ?s3 = ds_states s" using idle(1) by (simp add: s2) (simp flip: idle(1))
  have stale: "\<forall>i<length infos. i \<noteq> k \<longrightarrow> ?q2 i = [?h, ?h'] \<and> ?h < di_fundedAt (infos ! i) \<and>
      (?h < di_depositAt (infos ! i) \<or> di_totalAfterDeposit (infos ! i) \<le> ?h)"
  proof (intro allI impI)
    fix i assume i: "i < length infos" "i \<noteq> k"
    with w have "?q2 i = [?h, ?h']" by (simp add: s2(4) waitingAt_def)
    moreover have "?h < di_fundedAt (infos ! i)" using info [of i] i len less le by simp
    moreover have "?h < di_depositAt (infos ! i) \<or> di_totalAfterDeposit (infos ! i) \<le> ?h"
    proof (cases "i < k")
      case True
      then show ?thesis using take_le_take [OF nonneg, of "Suc i" k] info [of i] i len by simp
    next
      case False
      with i(2) have "Suc k \<le> i" by simp
      then show ?thesis using take_le_take [OF nonneg, of "Suc k" i] info [of i] i len less by simp
    qed
    ultimately show "?q2 i = [?h, ?h'] \<and> ?h < di_fundedAt (infos ! i) \<and>
      (?h < di_depositAt (infos ! i) \<or> di_totalAfterDeposit (infos ! i) \<le> ?h)" by blast
  qed
  have "length (ds_states ?s3) = length infos" "\<forall>i<length infos. ds_states ?s3 ! i = DepIdle"
    unfolding states using w by (simp_all add: waitingAt_def)
  from reports_without_effect [OF 3 this stale order_refl] obtain q' where
    q': "feed_deposits infos start q0 ?s3 q'" "\<forall>i. q' i = (if i < length infos \<and> i \<noteq> k then [?h'] else ?q2 i)" by blast
  have "ds_holdings ?s3 = ?h'" "ds_pool ?s3 = []" by (simp_all add: s2(2,3))
  then have "waitingAt (length infos) ?h' ?s3 q'"
    unfolding waitingAt_def states using w q'(2) by (simp add: waitingAt_def s2(4))
  with q'(1) show ?thesis by blast
qed

lemma everyone_told:
  assumes "feed_deposits infos start q0 s q" and "waitingAt (length infos) h s q"
    and "\<forall>i<length infos. di_fundedAt (infos ! i) \<le> h" and "m \<le> length infos"
  shows "\<exists>s' q'. feed_deposits infos start q0 s' q' \<and> length (ds_states s') = length infos \<and>
    (\<forall>i<m. ds_states s' ! i = DepDone) \<and> (\<forall>i<length infos. m \<le> i \<longrightarrow> q' i = [h])"
  using assms(4)
proof (induction m)
  case 0
  with assms(1,2) show ?case by (intro exI [of _ s] exI [of _ q]) (simp add: waitingAt_def)
next
  case (Suc m)
  then obtain s' q' where s': "feed_deposits infos start q0 s' q'" "length (ds_states s') = length infos"
    "\<forall>i<m. ds_states s' ! i = DepDone" "\<forall>i<length infos. m \<le> i \<longrightarrow> q' i = [h]" by auto
  have "depositEvent (infos ! m) h = Some Funded" using Suc.prems assms(3) by (simp add: depositEvent_def)
  moreover have "depositingStep (ds_states s' ! m) Funded = DepDone" by (cases "ds_states s' ! m") simp_all
  ultimately have "ds_states (deliverReport infos m h s') = (ds_states s')[m := DepDone]"
    by (simp add: deliverReport_def Let_def)
  moreover have "q' m = [h]" using s'(4) Suc.prems by simp
  then have "feed_deposits infos start q0 (deliverReport infos m h s') (q'(m := []))"
    using feed_deposits.report [OF s'(1), of m h] Suc.prems by simp
  moreover have "\<forall>i<length infos. Suc m \<le> i \<longrightarrow> (q'(m := [])) i = [h]" using s'(4) by simp
  moreover have "\<forall>i<Suc m. (ds_states s')[m := DepDone] ! i = DepDone"
    using s'(2,3) Suc.prems by (auto simp: nth_list_update less_Suc_eq)
  ultimately show ?case using s'(2) by (metis length_list_update)
qed

lemma shares_paid:
  assumes fund: "fundingTogether cid items stores infos" and small: "sum_list (map amount items) < 2 ^ 256"
    and "k \<le> length items"
  shows "\<exists>s q. feed_deposits infos (initDeposits (length infos) 0 [0]) (initialFeed (length infos) [0]) s q \<and>
    waitingAt (length infos) (sum_list (take k (map amount items))) s q"
  using assms(3)
proof (induction k)
  case 0
  have "waitingAt (length infos) 0 (initDeposits (length infos) 0 [0]) (initialFeed (length infos) [0])"
    by (simp add: waitingAt_def initDeposits_def)
  then show ?case using feed_deposits.start by (metis sum_list.Nil take_0)
next
  case (Suc k)
  then show ?case using next_share [OF fund small] by (metis Suc_le_lessD Suc_leD)
qed

text \<open>
  C35: the deposits begin only when the feed says what the channel holds at first. With a feed that
  does, as the one of \<open>FakeChain\<close>, the participants of an outcome can all deposit in turn, each told
  every holding once, until every workflow has ended. With the feed of \<open>ChainWatcher\<close>, which reports
  the deposits that are mined from now on, no run leads anywhere: nobody ever sends a transaction,
  whatever the channel holds, since everybody waits for a report of somebody else's deposit.
\<close>

theorem deposits_need_a_first_report:
  assumes "fundingTogether cid items stores infos" and "sum_list (map amount items) < 2 ^ 256"
  shows "(\<exists>s q. feed_deposits infos (initDeposits (length infos) 0 [0]) (initialFeed (length infos) [0]) s q \<and>
      ds_holdings s = sum_list (map amount items) \<and>
      (\<forall>j<length items. ds_states s ! j = DepDone \<and> ds_paid s j = amount (items ! j))) \<and>
    (\<forall>h0 s q. feed_deposits infos (initDeposits (length infos) h0 []) (\<lambda>_. []) s q \<longrightarrow>
      s = initDeposits (length infos) h0 [])"
proof -
  have len: "length infos = length items" using assms(1) by (simp add: fundingTogether_def)
  let ?total = "sum_list (map amount items)" and ?s0 = "initDeposits (length infos) 0 [0]"
    and ?q0 = "initialFeed (length infos) [0]"
  obtain s q where s: "feed_deposits infos ?s0 ?q0 s q" "waitingAt (length infos) ?total s q"
    using shares_paid [OF assms order_refl] by auto
  have "\<forall>i<length infos. di_fundedAt (infos ! i) \<le> ?total" using fundingTogether_infos [OF assms(1)] len by simp
  from everyone_told [OF s this order_refl] obtain s' q' where s': "feed_deposits infos ?s0 ?q0 s' q'"
    "\<forall>i<length infos. ds_states s' ! i = DepDone" by blast
  have run: "deposits infos ?s0 s'"
    using feed_deposits_sound [OF s'(1)] by (auto simp: initialFeed_def initDeposits_def)
  have paid: "\<forall>j<length items. ds_paid s' j = amount (items ! j)"
  proof (cases items)
    case (Cons i rest)
    with funded_by_everyone [OF assms(1) run _ _, of 0] s'(2) len show ?thesis by simp
  qed simp
  have "depositsInv infos 0 s'" by (rule deposits_inv [OF run depositsInv_init]) simp
  then have "ds_holdings s' = (\<Sum>j<length items. ds_paid s' j)" by (simp add: depositsInv_def len)
  also have "\<dots> = ?total" using paid by (simp add: sum_list_sum_nth lessThan_atLeast0)
  finally have "ds_holdings s' = ?total" .
  with s' paid len have "\<exists>s q. feed_deposits infos ?s0 ?q0 s q \<and> ds_holdings s = ?total \<and>
      (\<forall>j<length items. ds_states s ! j = DepDone \<and> ds_paid s j = amount (items ! j))"
    by (intro exI [of _ s'] exI [of _ q']) simp
  then show ?thesis using silent_feed [of infos _ "[]"] by blast
qed

section \<open>Topping up a channel that has money\<close>

definition allocatedTo :: "allocation_item list \<Rightarrow> bytes32 \<Rightarrow> uint256" where
  "allocatedTo items d = sum_list (map amount (filter (\<lambda>i. item_destination i = d) items))"

lemma allocatedTo_simps [simp]:
  "allocatedTo [] d = 0"
  "allocatedTo (i # items) d = (if item_destination i = d then amount i else 0) + allocatedTo items d"
  "allocatedTo (xs @ ys) d = allocatedTo xs d + allocatedTo ys d"
  by (simp_all add: allocatedTo_def)

lemma allocatedTo_none: "d \<notin> item_destination ` set items \<Longrightarrow> allocatedTo items d = 0"
  by (induction items) auto

lemma allocatedTo_merged:
  assumes "distinct ds"
  shows "allocatedTo (map (\<lambda>d. \<lparr>item_destination = d, amount = f d\<rparr>) ds) d = (if d \<in> set ds then f d else 0)"
  using assms by (induction ds) auto

lemma mergeDestinations_allocatedTo:
  assumes "mergeDestinations items = SimpleAllocation a"
  shows "allocatedTo (allocationItems a) d = allocatedTo items d"
    and "distinct (map item_destination (allocationItems a))"
proof -
  have a: "allocationItems a = map (\<lambda>d. \<lparr>item_destination = d, amount = allocatedTo items d\<rparr>)
      (uniq (map item_destination items))"
    using assms by (auto simp: mergeDestinations_def simpleEthAllocation_def allocatedTo_def)
  have u: "distinct (uniq (map item_destination items))" "set (uniq (map item_destination items)) = item_destination ` set items"
    by (simp_all only: distinct_uniq set_uniq set_map)
  show "allocatedTo (allocationItems a) d = allocatedTo items d"
    unfolding a using allocatedTo_merged [OF u(1)] u(2) allocatedTo_none [of d items] by auto
  show "distinct (map item_destination (allocationItems a))"
    unfolding a using u(1) by (simp add: comp_def)
qed

lemma minimal_left:
  assumes "mapE (\<lambda>i. bindE (reduceAdd (map amount (filter (\<lambda>c. item_destination c = item_destination i) current)))
             (\<lambda>al. Inr (i\<lparr>amount := (if amount i > al then amount i - al else 0)\<rparr>))) minimal = Inr left"
    and "distinct (map item_destination minimal)"
  shows "allocatedTo left d = (if d \<in> item_destination ` set minimal
    then max 0 (allocatedTo minimal d - allocatedTo current d) else 0)"
  using assms
proof (induction minimal arbitrary: left)
  case (Cons i minimal)
  from Cons.prems(1) obtain al rest where al: "al = allocatedTo current (item_destination i)"
    and rest: "mapE (\<lambda>i. bindE (reduceAdd (map amount (filter (\<lambda>c. item_destination c = item_destination i) current)))
             (\<lambda>al. Inr (i\<lparr>amount := (if amount i > al then amount i - al else 0)\<rparr>))) minimal = Inr rest"
    and left: "left = i\<lparr>amount := (if amount i > al then amount i - al else 0)\<rparr> # rest"
    by (auto simp: bindE_eq_Inr reduceAdd_def allocatedTo_def split: if_splits)
  have "allocatedTo minimal (item_destination i) = 0"
    using Cons.prems(2) by (intro allocatedTo_none) auto
  with Cons.IH [OF rest] Cons.prems(2) al show ?case unfolding left by auto
qed simp

text \<open>
  what direct funding makes of an outcome. After the excess was appended and equal destinations
  were merged, every destination has what it had or its minimal amount, whichever is more, and one item.
\<close>

theorem direct_funding_outcome:
  assumes "minimalOutcome current minimal = Inr (SimpleAllocation a)"
    and "mergeDestinations (allocationItems a) = SimpleAllocation b"
    and "distinct (map item_destination minimal)"
  shows "distinct (map item_destination (allocationItems b)) \<and>
    (\<forall>d. allocatedTo (allocationItems b) d =
       (if d \<in> item_destination ` set minimal then max (allocatedTo current d) (allocatedTo minimal d)
        else allocatedTo current d))"
proof -
  from assms(1) obtain left where left: "mapE (\<lambda>i. bindE (reduceAdd (map amount (filter (\<lambda>c. item_destination c = item_destination i) current)))
      (\<lambda>al. Inr (i\<lparr>amount := (if amount i > al then amount i - al else 0)\<rparr>))) minimal = Inr left"
    and a: "allocationItems a = current @ left"
    by (auto simp: minimalOutcome_def simpleEthAllocation_def bindE_eq_Inr)
  show ?thesis
    using mergeDestinations_allocatedTo [OF assms(2)] minimal_left [OF left assms(3)] by (auto simp: a)
qed

lemma no_deposit_below:
  assumes "deposits infos start s" and "depositsInv infos h0 start" and "i < length infos"
    and "di_totalAfterDeposit (infos ! i) \<le> h0" and "ds_paid start i = 0"
  shows "ds_paid s i = 0"
  using assms
proof (induction rule: deposits.induct)
  case (mined s t)
  from deposits_inv [OF mined.hyps(1) mined.prems(1)] have inv: "depositsInv infos h0 s" .
  then have "\<forall>j<length infos. 0 \<le> ds_paid s j" by (auto simp: depositsInv_def fairShare_def)
  then have "0 \<le> (\<Sum>j<length infos. ds_paid s j)" by (intro sum_nonneg) simp
  with inv have le: "h0 \<le> ds_holdings s" by (simp add: depositsInv_def)
  have fair: "fairTx infos t" using inv mined.hyps(2) by (simp add: depositsInv_def)
  have "contractDeposit (ds_holdings s) t = None" if "tx_from t = i"
    using fair that le mined.prems(3) by (simp add: fairTx_def contractDeposit_def Let_def)
  with mined show ?case by (auto simp: mineDeposit_def Let_def split: option.splits)
qed (simp_all add: deliverReport_def Let_def split: option.splits)

text \<open>
  C36: but the deposits are computed from the minimal amounts, not from the excess. In a channel that
  already holds what the participants up to the \<open>i\<close>th are to have at least, the \<open>i\<close>th never pays
  anything, whatever it gains; the ones after it pay for it.
\<close>

theorem topping_up_is_paid_by_others:
  assumes "\<forall>j<length infos. \<exists>e. entryIn (stores j) cid = Inr e \<and> ce_myIndex e = int j \<and>
      directDepositingInfo (stores j) cid minimal = Inr (infos ! j)"
    and "i < length infos" and "sum_list (map amount (take (Suc i) minimal)) \<le> h0"
    and "deposits infos (initDeposits (length infos) h0 reports) s" and "\<forall>h \<in> set reports. h \<le> h0"
  shows "ds_paid s i = 0"
proof -
  from assms(1,2) obtain e where e: "entryIn (stores i) cid = Inr e" "ce_myIndex e = int i"
    and d: "directDepositingInfo (stores i) cid minimal = Inr (infos ! i)" by blast
  from d e obtain total' where "depositInfo cid (int i) total' (map amount minimal) = Inr (infos ! i)"
    by (auto simp: directDepositingInfo_def bindE_eq_Inr split: if_splits)
  then have "di_totalAfterDeposit (infos ! i) = sum_list (map amount (take (Suc i) minimal))"
    by (simp add: depositInfo_share(3) take_map)
  with assms(3) have le: "di_totalAfterDeposit (infos ! i) \<le> h0" by simp
  have inv: "depositsInv infos h0 (initDeposits (length infos) h0 reports)"
    using assms(5) by (rule depositsInv_init)
  have "ds_paid (initDeposits (length infos) h0 reports) i = 0" by (simp add: initDeposits_def)
  from no_deposit_below [OF assms(4) inv assms(2) le this] show ?thesis .
qed

section \<open>Witnesses\<close>

text \<open>Alice and Bob with 5 each, and a run in which both deposit and Alice hears of it.\<close>

definition fundStore :: "nat \<Rightarrow> browser_store" where
  "fundStore j = sampleStore\<lparr>bs_channels := [(sampleDest CHR ''l'', browserChannel\<lparr>csd_myIndex := int j\<rparr>)]\<rparr>"

definition fundItems :: "allocation_item list" where
  "fundItems = allocationItems (sampleAllocation [(CHR ''a'', 5), (CHR ''b'', 5)])"

definition fundInfos :: "deposit_info list" where
  "fundInfos = map (\<lambda>j. projr (createDepositingInfo (fundStore j) (sampleDest CHR ''l''))) [0, 1]"

definition fundRun :: "deposit_system" where
  "fundRun = (let s0 = initDeposits 2 0 [0];
                  s1 = deliverReport fundInfos 0 0 s0; s2 = mineDeposit (hd (ds_pool s1)) s1;
                  s3 = deliverReport fundInfos 1 5 s2; s4 = mineDeposit (hd (ds_pool s3)) s3
              in deliverReport fundInfos 0 10 s4)"

lemma fund_together: "fundingTogether (sampleDest CHR ''l'') fundItems fundStore fundInfos"
  unfolding fundingTogether_def
proof (intro conjI allI impI)
  fix j assume "j < length fundItems"
  then have "j = 0 \<or> j = 1" by (auto simp: fundItems_def sampleAllocation_def)
  moreover have
    "entrySupported (newEntry (browserChannel\<lparr>csd_myIndex := int 0\<rparr>)) = Inr (browserRow 5 ''0xB'')"
    "entrySupported (newEntry (browserChannel\<lparr>csd_myIndex := int 1\<rparr>)) = Inr (browserRow 5 ''0xB'')"
    "outcome (browserRow 5 ''0xB'') = simpleEthAllocation fundItems"
    "createDepositingInfo (fundStore 0) (sampleDest CHR ''l'') = Inr (fundInfos ! 0)"
    "createDepositingInfo (fundStore 1) (sampleDest CHR ''l'') = Inr (fundInfos ! 1)"
    by code_simp+
  moreover have "entryIn (fundStore j) (sampleDest CHR ''l'') = Inr (newEntry (browserChannel\<lparr>csd_myIndex := int j\<rparr>))"
    by (simp add: entryIn_def fundStore_def getChannel_def)
  moreover have "ce_myIndex (newEntry (browserChannel\<lparr>csd_myIndex := int j\<rparr>)) = int j" by (simp add: newEntry_def)
  ultimately show "\<exists>e st. entryIn (fundStore j) (sampleDest CHR ''l'') = Inr e \<and> entrySupported e = Inr st \<and>
      outcome st = simpleEthAllocation fundItems \<and> ce_myIndex e = int j \<and>
      createDepositingInfo (fundStore j) (sampleDest CHR ''l'') = Inr (fundInfos ! j)"
    by blast
next
  show "length fundInfos = length fundItems" by code_simp
  show "\<forall>i \<in> set fundItems. 0 \<le> amount i" by code_simp
qed

lemma fund_run: "deposits fundInfos (initDeposits (length fundInfos) 0 [0]) fundRun"
proof -
  let ?s0 = "initDeposits (length fundInfos) 0 [0]"
  let ?s1 = "deliverReport fundInfos 0 0 ?s0" let ?s2 = "mineDeposit (hd (ds_pool ?s1)) ?s1"
  let ?s3 = "deliverReport fundInfos 1 5 ?s2" let ?s4 = "mineDeposit (hd (ds_pool ?s3)) ?s3"
  have n: "length fundInfos = 2" by (simp add: fundInfos_def)
  have "deposits fundInfos ?s0 ?s1"
    by (intro deposits.report deposits.start) (simp_all add: n initDeposits_def)
  moreover have "hd (ds_pool ?s1) \<in> set (ds_pool ?s1)" by code_simp
  ultimately have 2: "deposits fundInfos ?s0 ?s2" by (rule deposits.mined)
  have "5 \<in> set (ds_reports ?s2)" by code_simp
  with 2 have "deposits fundInfos ?s0 ?s3" by (intro deposits.report) (simp_all add: n)
  moreover have "hd (ds_pool ?s3) \<in> set (ds_pool ?s3)" by code_simp
  ultimately have 4: "deposits fundInfos ?s0 ?s4" by (rule deposits.mined)
  have "10 \<in> set (ds_reports ?s4)" by code_simp
  with 4 have "deposits fundInfos ?s0 (deliverReport fundInfos 0 10 ?s4)" by (intro deposits.report) (simp_all add: n)
  then show ?thesis by (simp only: fundRun_def Let_def n)
qed

theorem deposits_within_share_witness:
  "ds_holdings fundRun = 0 + (\<Sum>i<length fundInfos. ds_paid fundRun i) \<and> ds_holdings fundRun = 10"
proof -
  have "ds_holdings fundRun = 10" by code_simp
  with deposits_within_share [OF fund_run] show ?thesis by simp
qed

theorem funded_by_everyone_witness: "ds_paid fundRun 0 = 5 \<and> ds_paid fundRun 1 = 5"
proof -
  have "(0::nat) < length fundItems" "ds_states fundRun ! 0 = DepDone" by code_simp+
  from funded_by_everyone [OF fund_together fund_run _ this] show ?thesis
    by (simp add: fundItems_def sampleAllocation_def)
qed

theorem deposits_need_a_first_report_witness:
  "\<exists>s q. feed_deposits fundInfos (initDeposits 2 0 [0]) (initialFeed 2 [0]) s q \<and> ds_holdings s = 10 \<and>
     ds_paid s 0 = 5 \<and> ds_paid s 1 = 5"
proof -
  have small: "sum_list (map amount fundItems) < 2 ^ 256" by code_simp
  have "length fundInfos = 2" "length fundItems = 2" "sum_list (map amount fundItems) = 10"
    "amount (fundItems ! 0) = 5" "amount (fundItems ! 1) = 5" by code_simp+
  with deposits_need_a_first_report [OF fund_together small, THEN conjunct1] show ?thesis
    by (auto simp: numeral_2_eq_2)
qed

theorem direct_funding_outcome_witness:
  "\<exists>a b. minimalOutcome fundItems [\<lparr>item_destination = sampleDest CHR ''b'', amount = 7\<rparr>] = Inr (SimpleAllocation a) \<and>
     mergeDestinations (allocationItems a) = SimpleAllocation b \<and>
     allocatedTo (allocationItems b) (sampleDest CHR ''b'') = 7"
proof -
  let ?m = "[\<lparr>item_destination = sampleDest CHR ''b'', amount = 7\<rparr>]"
  let ?a = "\<lparr>asset = zeroAddress, allocationItems = fundItems @ [\<lparr>item_destination = sampleDest CHR ''b'', amount = 2\<rparr>]\<rparr>"
  have a: "minimalOutcome fundItems ?m = Inr (SimpleAllocation ?a)" by code_simp
  obtain b where b: "mergeDestinations (allocationItems ?a) = SimpleAllocation b"
    by (simp add: mergeDestinations_def simpleEthAllocation_def)
  have "allocatedTo fundItems (sampleDest CHR ''b'') = 5" by code_simp
  with direct_funding_outcome [OF a b] have "allocatedTo (allocationItems b) (sampleDest CHR ''b'') = 7" by simp
  with a b show ?thesis by blast
qed

text \<open>The channel holds 10; Alice is to have 9 and Bob 6. Bob pays everything.\<close>

definition topUp :: "allocation_item list" where
  "topUp = allocationItems (sampleAllocation [(CHR ''a'', 9), (CHR ''b'', 6)])"

definition topUpChannel :: "nat \<Rightarrow> stored_channel" where
  "topUpChannel j = browserChannel\<lparr>csd_myIndex := int j,
     csd_vars := map (\<lambda>r. r\<lparr>outcome := projr (minimalOutcome fundItems topUp)\<rparr>) (csd_vars browserChannel)\<rparr>"

definition topUpStore :: "nat \<Rightarrow> browser_store" where
  "topUpStore j = sampleStore\<lparr>bs_channels := [(sampleDest CHR ''l'', topUpChannel j)]\<rparr>"

definition topUpInfos :: "deposit_info list" where
  "topUpInfos = map (\<lambda>j. projr (directDepositingInfo (topUpStore j) (sampleDest CHR ''l'') topUp)) [0, 1]"

definition topUpRun :: deposit_system where
  "topUpRun = (let s1 = deliverReport topUpInfos 1 10 (initDeposits 2 10 [10]) in mineDeposit (hd (ds_pool s1)) s1)"

theorem topping_up_is_paid_by_others_witness:
  "ds_paid topUpRun 0 = 0 \<and> ds_paid topUpRun 1 = 5 \<and> ds_holdings topUpRun = 15"
proof -
  let ?s0 = "initDeposits (length topUpInfos) 10 [10]" let ?s1 = "deliverReport topUpInfos 1 10 ?s0"
  have n: "length topUpInfos = 2" by (simp add: topUpInfos_def)
  have infos: "\<forall>j<length topUpInfos. \<exists>e. entryIn (topUpStore j) (sampleDest CHR ''l'') = Inr e \<and> ce_myIndex e = int j \<and>
      directDepositingInfo (topUpStore j) (sampleDest CHR ''l'') topUp = Inr (topUpInfos ! j)"
  proof (intro allI impI)
    fix j assume "j < length topUpInfos"
    then have "j = 0 \<or> j = 1" by (auto simp: n)
    moreover have "directDepositingInfo (topUpStore 0) (sampleDest CHR ''l'') topUp = Inr (topUpInfos ! 0)"
      "directDepositingInfo (topUpStore 1) (sampleDest CHR ''l'') topUp = Inr (topUpInfos ! 1)" by code_simp+
    moreover have "entryIn (topUpStore j) (sampleDest CHR ''l'') = Inr (newEntry (topUpChannel j))"
      by (simp add: entryIn_def topUpStore_def getChannel_def)
    moreover have "ce_myIndex (newEntry (topUpChannel j)) = int j" by (simp add: newEntry_def topUpChannel_def)
    ultimately show "\<exists>e. entryIn (topUpStore j) (sampleDest CHR ''l'') = Inr e \<and> ce_myIndex e = int j \<and>
      directDepositingInfo (topUpStore j) (sampleDest CHR ''l'') topUp = Inr (topUpInfos ! j)" by blast
  qed
  have "deposits topUpInfos ?s0 ?s1"
    by (intro deposits.report deposits.start) (simp_all add: n initDeposits_def)
  moreover have "hd (ds_pool ?s1) \<in> set (ds_pool ?s1)" by code_simp
  ultimately have "deposits topUpInfos ?s0 (mineDeposit (hd (ds_pool ?s1)) ?s1)" by (rule deposits.mined)
  then have run: "deposits topUpInfos ?s0 topUpRun" by (simp only: topUpRun_def Let_def n)
  have "0 < length topUpInfos" by (simp add: n)
  moreover have "sum_list (map amount (take (Suc 0) topUp)) \<le> 10" by code_simp
  ultimately have "ds_paid topUpRun 0 = 0" using topping_up_is_paid_by_others [OF infos _ _ run] by simp
  moreover have "ds_paid topUpRun 1 = 5" "ds_holdings topUpRun = 15" by code_simp+
  ultimately show ?thesis by blast
qed

end
