(* ===== verification/BrowserVirtual.thy ===== *)
theory BrowserVirtual
  imports BrowserFunding
begin

text \<open>
  The services of the workflows that fund a channel off the chain, under
  \<open>packages/browser-wallet/src/workflows/\<close>: \<open>ledger-funding.ts\<close>, \<open>virtual-funding-as-leaf.ts\<close>,
  \<open>virtual-funding-as-hub.ts\<close>, \<open>virtual-defunding-as-leaf.ts\<close> and \<open>virtual-defunding-as-hub.ts\<close>.
  A service that reads the store is a function of it; what the chain tells is an argument.
\<close>

section \<open>Ledger funding\<close>

definition checkTarget :: "browser_store \<Rightarrow> bytes32 \<Rightarrow> unit result" where
  "checkTarget s target =
     bindE (entryIn s target) (\<lambda>e.
       if \<not> entryIsSupported e then Inl (Error (''Target channel has no supported state: '' @ target)) else Inr ())"

definition getTargetOutcome ::
  "platform \<Rightarrow> browser_store \<Rightarrow> chain_info \<Rightarrow> bytes32 \<Rightarrow> bytes32 \<Rightarrow> allocation_item list \<Rightarrow> state result" where
  "getTargetOutcome P s info target ledger deductions =
     bindE (entryIn s ledger) (\<lambda>e.
     bindE (entrySupported e) (\<lambda>st.
       if ci_finalized info then Inl (Error ''Ledger channel is finalized'')
       else
         bindE (ethItems (outcome st)) (\<lambda>items.
         bindE (reduceAdd (map amount items)) (\<lambda>currentlyAllocated.
         bindE (reduceAdd (map amount deductions)) (\<lambda>toDeduct.
           if ci_amount info < currentlyAllocated then Inl (Error ''Ledger channel is underfunded'')
           else if currentlyAllocated < toDeduct then Inl (Error ''Ledger channel is underallocated'')
           else
             bindE (allocateToTarget (ethersLib P) (outcome st) deductions target) (\<lambda>o'.
               Inr ((state.truncate st)\<lparr>turnNum := turnNum st + 1, outcome := o'\<rparr>)))))))"

definition updateLedgerFunding :: "platform \<Rightarrow> bytes32 \<Rightarrow> bytes32 \<Rightarrow> unit bio" where
  "updateLedgerFunding P target ledger = setFunding P target (IndirectFunding ledger)"

section \<open>Virtual funding as a leaf\<close>

text \<open>The places of the parties in the joint outcome and among the participants.\<close>

abbreviation (input) OutA :: nat where "OutA \<equiv> 0"
abbreviation (input) OutHub :: nat where "OutHub \<equiv> 1"
abbreviation (input) OutB :: nat where "OutB \<equiv> 2"
abbreviation (input) PartA :: nat where "PartA \<equiv> 0"
abbreviation (input) PartB :: nat where "PartB \<equiv> 1"
abbreviation (input) PartHub :: nat where "PartHub \<equiv> 2"

text \<open>Reading a field of a missing element throws.\<close>

definition itemAt :: "'a list \<Rightarrow> nat \<Rightarrow> 'a result" where
  "itemAt xs i = (case nthOpt xs i of None \<Rightarrow> Inl TypeError | Some x \<Rightarrow> Inr x)"

definition destinationIs :: "allocation_item list \<Rightarrow> nat \<Rightarrow> participant \<Rightarrow> bool" where
  "destinationIs items i p \<longleftrightarrow> map_option item_destination (nthOpt items i) = Some (destination p)"

definition checkJointState :: "'a state_scheme \<Rightarrow> unit result" where
  "checkJointState st =
     bindE (ethItems (outcome st)) (\<lambda>items.
     bindE (itemAt (participants st) PartA) (\<lambda>a.
       if \<not> destinationIs items OutA a then Inl (Error ''Incorrect participants'')
       else bindE (itemAt (participants st) PartB) (\<lambda>b.
         if \<not> destinationIs items OutB b then Inl (Error ''Incorrect participants'')
         else bindE (itemAt (participants st) PartHub) (\<lambda>h.
           if \<not> destinationIs items OutHub h then Inl (Error ''Incorrect participants'')
           else if amount (items ! OutA) + amount (items ! OutB) \<noteq> amount (items ! OutHub)
           then Inl (Error ''Incorrect allocation'') else Inr ()))))"

text \<open>With an entry of the joint channel: None is to wait for the next one.\<close>

definition waitForFirstJointState :: "store_entry \<Rightarrow> state result option" where
  "waitForFirstJointState e =
     map_option (\<lambda>st. bindE (checkJointState st) (\<lambda>_. Inr (state.truncate st)))
       (find (\<lambda>st. turnNum st = 0) (ownStates e))"

definition jointChannelUpdate :: "platform \<Rightarrow> bytes32 \<Rightarrow> store_entry \<Rightarrow> state result option" where
  "jointChannelUpdate P target e =
     (case entrySupport e of
        [] \<Rightarrow> None
      | st # _ \<Rightarrow>
          if turnNum st \<noteq> 0 then None
          else Some (
            bindE (ethItems (outcome st)) (\<lambda>items.
            bindE (itemAt items OutHub) (\<lambda>hubItem.
            bindE (makeDestination (ethersLib P) target) (\<lambda>d.
            bindE (itemAt (participants st) PartHub) (\<lambda>hub.
              Inr ((state.truncate st)\<lparr>turnNum := 1,
                outcome := simpleEthAllocation
                  [\<lparr>item_destination = d, amount = amount hubItem\<rparr>,
                   \<lparr>item_destination = destination hub, amount = amount hubItem\<rparr>]\<rparr>)))))))"

text \<open>The leaf's own item, and the hub's with the amount of the other leaf.\<close>

definition leafDeductions :: "allocation_item list \<Rightarrow> nat \<Rightarrow> allocation_item list result" where
  "leafDeductions items role =
     bindE (itemAt items OutHub) (\<lambda>hub.
     bindE (itemAt items (2 - role)) (\<lambda>other.
     bindE (itemAt items role) (\<lambda>own.
       Inr [\<lparr>item_destination = item_destination hub, amount = amount other\<rparr>, own])))"

definition outcomeRole :: "int \<Rightarrow> nat" where
  "outcomeRole i = (if i = int PartA then OutA else OutB)"

definition getDeductions :: "browser_store \<Rightarrow> bytes32 \<Rightarrow> allocation_item list result" where
  "getDeductions s joint =
     bindE (entryIn s joint) (\<lambda>e.
     bindE (latestSignedByMeOrThrow e) (\<lambda>st.
     bindE (ethItems (outcome st)) (\<lambda>items. leafDeductions items (outcomeRole (ce_myIndex e)))))"

text \<open>The hub and the duration of challenges the wallet is configured with.\<close>

record flow_env =
  fe_browser :: browser_env
  fe_hub :: participant
  fe_challengeDuration :: int

abbreviation fe_platform :: "flow_env \<Rightarrow> platform" where
  "fe_platform F \<equiv> be_platform (fe_browser F)"

definition getFundGuarantorObjective :: "flow_env \<Rightarrow> bytes32 \<Rightarrow> bytes32 \<Rightarrow> objective bio" where
  "getFundGuarantorObjective F joint target =
     bindB (getEntry joint) (\<lambda>e.
     bindB (liftB (entryParticipant e)) (\<lambda>me.
     bindB (liftB (itemAt (participants (ce_constants e)) PartHub)) (\<lambda>hub.
     bindB (getLedger (participantId hub)) (\<lambda>ledger.
     bindB (browserCreateChannel (fe_browser F) [me, hub] (fe_challengeDuration F)
         \<lparr>v_outcome = simpleEthGuarantee joint [target, destination me, destination hub], v_turnNum = 0,
          v_appData = ''0x'', v_isFinal = False\<rparr> zeroAddress None) (\<lambda>guarantor.
       returnB (FundGuarantor [me, hub]
         \<lparr>fg_jointChannelId = joint, fg_ledgerId = entryChannelId (fe_platform F) ledger,
          fg_guarantorId = entryChannelId (fe_platform F) guarantor\<rparr>))))))"

definition updateJointChannelFunding :: "platform \<Rightarrow> bytes32 \<Rightarrow> bytes32 \<Rightarrow> unit bio" where
  "updateJointChannelFunding P joint guarantor = setFunding P joint (GuaranteeFunding guarantor)"

section \<open>Virtual funding as the hub\<close>

definition hubDeductions :: "browser_store \<Rightarrow> bytes32 \<Rightarrow> (allocation_item list \<times> allocation_item list) result" where
  "hubDeductions s joint =
     bindE (entryIn s joint) (\<lambda>e.
     bindE (latestSignedByMeOrThrow e) (\<lambda>st.
     bindE (ethItems (outcome st)) (\<lambda>items.
     bindE (leafDeductions items OutA) (\<lambda>da.
     bindE (leafDeductions items OutB) (\<lambda>db. Inr (da, db))))))"

datatype guarantor_event = FundGuarantorWithA state | FundGuarantorWithB state

text \<open>What an objective is to the hub that waits for those of a joint channel.\<close>

definition watchObjective :: "browser_store \<Rightarrow> bytes32 \<Rightarrow> objective \<Rightarrow> guarantor_event result option" where
  "watchObjective s joint o' =
     (case o' of
        FundGuarantor ps d \<Rightarrow>
          if fg_jointChannelId d \<noteq> joint then None
          else Some (
            bindE (itemAt ps 0) (\<lambda>p.
            bindE (entryIn s joint) (\<lambda>je.
            bindE (entryIn s (fg_guarantorId d)) (\<lambda>ge.
            bindE (case entryLatest ge of None \<Rightarrow> Inl TypeError | Some st \<Rightarrow> Inr st) (\<lambda>st.
            bindE (itemAt (participants (ce_constants je)) PartA) (\<lambda>a.
              if participantId p = participantId a then Inr (FundGuarantorWithA (state.truncate st))
              else bindE (itemAt (participants (ce_constants je)) PartB) (\<lambda>b.
                if participantId p = participantId b then Inr (FundGuarantorWithB (state.truncate st))
                else Inl (Error ''Participant not found''))))))))
      | _ \<Rightarrow> None)"

section \<open>Virtual defunding as a leaf\<close>

record channel_ids =
  id_joint :: bytes32
  id_guarantor :: bytes32
  id_ledger :: bytes32
  id_role :: nat

fun virtualOf :: "funding_kind option \<Rightarrow> bytes32 result" where
  "virtualOf (Some (VirtualFunding joint)) = Inr joint"
| "virtualOf _ = Inl (Error ''not valid, isVirtualFunding failed'')"

fun guarantorOf :: "funding_kind option \<Rightarrow> bytes32 result" where
  "guarantorOf (Some (GuaranteeFunding g)) = Inr g"
| "guarantorOf _ = Inl (Error ''not valid, isGuarantee failed'')"

fun ledgerOf :: "funding_kind option \<Rightarrow> bytes32 result" where
  "ledgerOf (Some (IndirectFunding l)) = Inr l"
| "ledgerOf _ = Inl (Error ''not valid, isIndirectFunding failed'')"

fun guarantorsOf :: "funding_kind option \<Rightarrow> (bytes32 \<times> bytes32) result" where
  "guarantorsOf (Some (GuaranteesFunding gs)) = Inr gs"
| "guarantorsOf _ = Inl (Error ''not valid, isGuarantees failed'')"

definition checkChannelsService :: "browser_store \<Rightarrow> bytes32 \<Rightarrow> channel_ids result" where
  "checkChannelsService s target =
     bindE (entryIn s target) (\<lambda>te.
     bindE (virtualOf (ce_funding te)) (\<lambda>joint.
     bindE (entryIn s joint) (\<lambda>je.
     bindE (guarantorOf (ce_funding je)) (\<lambda>g.
     bindE (entryIn s g) (\<lambda>ge.
     bindE (ledgerOf (ce_funding ge)) (\<lambda>l.
       Inr \<lparr>id_joint = joint, id_guarantor = g, id_ledger = l, id_role = outcomeRole (ce_myIndex je)\<rparr>))))))"

definition finalTargetState :: "browser_store \<Rightarrow> bytes32 \<Rightarrow> state result" where
  "finalTargetState s target =
     bindE (entryIn s target) (\<lambda>e.
     bindE (entrySupported e) (\<lambda>st. Inr ((state.truncate st)\<lparr>turnNum := turnNum st + 1, isFinal := True\<rparr>)))"

definition finalJointChannelUpdate :: "browser_store \<Rightarrow> bytes32 \<Rightarrow> bytes32 \<Rightarrow> state result" where
  "finalJointChannelUpdate s joint target =
     bindE (entryIn s target) (\<lambda>te.
     bindE (entrySupported te) (\<lambda>tst.
       if \<not> isFinal tst then Inl (Error ''Target channel not finalized'')
       else
         bindE (entryIn s joint) (\<lambda>je.
         bindE (entrySupported je) (\<lambda>jst.
         bindE (ethItems (outcome jst)) (\<lambda>jointItems.
         bindE (ethItems (outcome tst)) (\<lambda>targetItems.
         bindE (itemAt targetItems 0) (\<lambda>a.
         bindE (itemAt jointItems OutHub) (\<lambda>h.
         bindE (itemAt targetItems 1) (\<lambda>b.
           nextState (state.truncate jst) (simpleEthAllocation [a, h, b]))))))))))"

definition defundGuarantorInLedger ::
  "browser_store \<Rightarrow> chain_info \<Rightarrow> channel_ids \<Rightarrow> state result" where
  "defundGuarantorInLedger s info c =
     (if ci_finalized info then Inl (Error ''Ledger channel is finalized'')
      else
        bindE (entryIn s (id_joint c)) (\<lambda>je.
        bindE (entrySupported je) (\<lambda>jst.
        bindE (ethItems (outcome jst)) (\<lambda>jAlloc.
        bindE (entryIn s (id_ledger c)) (\<lambda>le.
        bindE (entrySupported le) (\<lambda>lst.
        bindE (ethItems (outcome lst)) (\<lambda>lAlloc.
        let without = filter (\<lambda>i. item_destination i \<noteq> id_guarantor c) lAlloc in
        bindE (itemAt without 0) (\<lambda>hub.
        bindE (itemAt jAlloc OutHub) (\<lambda>jHub.
          if item_destination hub \<noteq> item_destination jHub then Inl (Error ''Invalid ledger channel outcome'')
          else
            bindE (itemAt without 1) (\<lambda>leaf.
            bindE (itemAt jAlloc (id_role c)) (\<lambda>jLeaf.
              if item_destination leaf \<noteq> item_destination jLeaf then Inl (Error ''Invalid ledger channel outcome'')
              else
                bindE (itemAt jAlloc (2 - id_role c)) (\<lambda>jOther.
                  nextState (state.truncate lst) (simpleEthAllocation
                    (\<lparr>item_destination = item_destination hub, amount = amount hub + amount jOther\<rparr> #
                     \<lparr>item_destination = item_destination leaf, amount = amount leaf + amount jLeaf\<rparr> #
                     drop 2 without))))))))))))))"

section \<open>Virtual defunding as the hub\<close>

definition hubChannelsService ::
  "browser_store \<Rightarrow> bytes32 \<Rightarrow> ((bytes32 \<times> bytes32) \<times> (bytes32 \<times> bytes32)) result" where
  "hubChannelsService s joint =
     bindE (entryIn s joint) (\<lambda>je.
     bindE (guarantorsOf (ce_funding je)) (\<lambda>gs.
     bindE (entryIn s (fst gs)) (\<lambda>l.
     bindE (ledgerOf (ce_funding l)) (\<lambda>leftLedger.
     bindE (entryIn s (snd gs)) (\<lambda>r.
     bindE (ledgerOf (ce_funding r)) (\<lambda>rightLedger. Inr (gs, (leftLedger, rightLedger))))))))"

text \<open>With an entry of the joint channel: None is to wait for a later state than the supported one.\<close>

definition hubFinalJointChannelUpdate :: "store_entry \<Rightarrow> state result option" where
  "hubFinalJointChannelUpdate e =
     (case (entryLatest e, entrySupported e) of
        (Some l, Inr st) \<Rightarrow>
          if turnNum l \<le> turnNum st then None
          else Some (
            bindE (ethItems (outcome l)) (\<lambda>newItems.
            bindE (ethItems (outcome st)) (\<lambda>supportedItems.
              if nthOpt newItems 1 \<noteq> nthOpt supportedItems 1 then Inl (Error ''Hub allocation changed'')
              else
                bindE (reduceAdd (map amount supportedItems)) (\<lambda>supportedAmount.
                bindE (reduceAdd (map amount newItems)) (\<lambda>newAmount.
                  if supportedAmount \<noteq> newAmount then Inl (Error ''Total allocation changed'')
                  else Inr (state.truncate l))))))
      | (_, Inl err) \<Rightarrow> Some (Inl err)
      | (None, _) \<Rightarrow> Some (Inl TypeError))"

record hub_ids =
  hid_joint :: bytes32
  hid_guarantors :: "bytes32 \<times> bytes32"
  hid_ledgers :: "bytes32 \<times> bytes32"

definition defundGuarantor :: "bool \<Rightarrow> browser_store \<Rightarrow> chain_info \<Rightarrow> hub_ids \<Rightarrow> state result" where
  "defundGuarantor left s info c =
     bindE (entryIn s (hid_joint c)) (\<lambda>je.
     bindE (entrySupported je) (\<lambda>st.
     bindE (ethItems (outcome st)) (\<lambda>items.
     bindE (itemAt items 0) (\<lambda>_.
       defundGuarantorInLedger s info
         \<lparr>id_joint = hid_joint c,
          id_guarantor = (if left then fst else snd) (hid_guarantors c),
          id_ledger = (if left then fst else snd) (hid_ledgers c),
          id_role = (if left then OutA else OutB)\<rparr>))))"

text \<open>Both services of the hub are for the left leaf.\<close>

definition defundLeftGuarantor :: "browser_store \<Rightarrow> chain_info \<Rightarrow> hub_ids \<Rightarrow> state result" where
  "defundLeftGuarantor = defundGuarantor True"

definition defundRightGuarantor :: "browser_store \<Rightarrow> chain_info \<Rightarrow> hub_ids \<Rightarrow> state result" where
  "defundRightGuarantor = defundGuarantor True"

end
