(* ===== verification/BrowserFlows.thy ===== *)
theory BrowserFlows
  imports BrowserVirtual
begin

text \<open>
  The machines of \<open>ledger-funding.ts\<close>, \<open>virtual-funding-as-leaf.ts\<close>, \<open>create-and-fund.ts\<close> and
  \<open>support-state.ts\<close> under \<open>packages/browser-wallet/src/workflows/\<close>, as step relations. A machine reads
  the world as it is when a service runs, and may change the store; between two of its steps the other
  workflows, the peers and the chain change the world as they like. A promise that is refused without an
  \<open>onError\<close> leaves the machine where it is, so there is no step for it.
\<close>

section \<open>Worlds and runs\<close>

record flow_world =
  fw_store :: browser_store
  fw_chain :: "bytes32 \<Rightarrow> chain_info"

text \<open>A run with all the worlds it went through; the last one is the present.\<close>

inductive flow_run ::
  "(flow_world \<Rightarrow> 'm \<Rightarrow> 'm \<Rightarrow> browser_store \<Rightarrow> bool) \<Rightarrow> 'm \<Rightarrow> flow_world list \<Rightarrow> 'm \<Rightarrow> bool"
  for step :: "flow_world \<Rightarrow> 'm \<Rightarrow> 'm \<Rightarrow> browser_store \<Rightarrow> bool" and init :: 'm where
  start: "flow_run step init [w] init"
| world: "flow_run step init h m \<Longrightarrow> flow_run step init (h @ [w]) m"
| move: "flow_run step init h m \<Longrightarrow> step (last h) m m' s' \<Longrightarrow>
     flow_run step init (h @ [(last h)\<lparr>fw_store := s'\<rparr>]) m'"

section \<open>Supporting a state\<close>

definition statesEqual :: "platform \<Rightarrow> 'a state_scheme \<Rightarrow> 'b state_scheme \<Rightarrow> bool" where
  "statesEqual P l r \<longleftrightarrow>
     (case (hashState P l, hashState P r) of (Inr g, Inr h) \<Rightarrow> g = h | _ \<Rightarrow> False)"

text \<open>What the observer of \<open>support-state.ts\<close> waits for.\<close>

definition stateSupported :: "platform \<Rightarrow> state \<Rightarrow> browser_store \<Rightarrow> bool" where
  "stateSupported P st s \<longleftrightarrow>
     (case bindE (entryIn s (calculateChannelId P st)) entrySupported of
        Inl _ \<Rightarrow> False | Inr st' \<Rightarrow> statesEqual P st st')"

definition askSupport :: "platform \<Rightarrow> state \<Rightarrow> browser_store \<Rightarrow> browser_store" where
  "askSupport P st s = fst (supportState P st s)"

section \<open>Ledger funding\<close>

datatype lf_state =
    AcquiringLock | CheckingTarget | GettingTargetOutcome | SupportingLedger state | UpdatingFunding
  | LedgerFunded | LedgerFailure error

record lf_machine =
  lf_st :: lf_state
  lf_locked :: bool

definition initLedgerFunding :: lf_machine where
  "initLedgerFunding = \<lparr>lf_st = AcquiringLock, lf_locked = False\<rparr>"

text \<open>Both final states release the lock on entry.\<close>

definition lfFail :: "error \<Rightarrow> lf_machine" where
  "lfFail e = \<lparr>lf_st = LedgerFailure e, lf_locked = False\<rparr>"

inductive ledger_step ::
  "platform \<Rightarrow> bytes32 \<Rightarrow> bytes32 \<Rightarrow> allocation_item list \<Rightarrow> flow_world \<Rightarrow> lf_machine \<Rightarrow> lf_machine \<Rightarrow>
   browser_store \<Rightarrow> bool"
  for P :: platform and target :: bytes32 and ledger :: bytes32 and deductions :: "allocation_item list"
    and w :: flow_world where
  lock: "lf_st m = AcquiringLock \<Longrightarrow>
     ledger_step P target ledger deductions w m \<lparr>lf_st = CheckingTarget, lf_locked = True\<rparr> (fw_store w)"
| checked: "lf_st m = CheckingTarget \<Longrightarrow> checkTarget (fw_store w) target = Inr () \<Longrightarrow>
     ledger_step P target ledger deductions w m (m\<lparr>lf_st := GettingTargetOutcome\<rparr>) (fw_store w)"
| not_checked: "lf_st m = CheckingTarget \<Longrightarrow> checkTarget (fw_store w) target = Inl e \<Longrightarrow>
     ledger_step P target ledger deductions w m (lfFail e) (fw_store w)"
| outcome: "lf_st m = GettingTargetOutcome \<Longrightarrow>
     getTargetOutcome P (fw_store w) (fw_chain w ledger) target ledger deductions = Inr st \<Longrightarrow>
     ledger_step P target ledger deductions w m (m\<lparr>lf_st := SupportingLedger st\<rparr>) (askSupport P st (fw_store w))"
| no_outcome: "lf_st m = GettingTargetOutcome \<Longrightarrow>
     getTargetOutcome P (fw_store w) (fw_chain w ledger) target ledger deductions = Inl e \<Longrightarrow>
     ledger_step P target ledger deductions w m (lfFail e) (fw_store w)"
| supported: "lf_st m = SupportingLedger st \<Longrightarrow> stateSupported P st (fw_store w) \<Longrightarrow>
     ledger_step P target ledger deductions w m (m\<lparr>lf_st := UpdatingFunding\<rparr>) (fw_store w)"
| updated: "lf_st m = UpdatingFunding \<Longrightarrow> updateLedgerFunding P target ledger (fw_store w) = (s', Inr ()) \<Longrightarrow>
     ledger_step P target ledger deductions w m \<lparr>lf_st = LedgerFunded, lf_locked = False\<rparr> s'"

section \<open>Virtual funding as a leaf\<close>

datatype vf_state =
    WaitForJoint | SupportJoint state | DetermineDeductions | GetGuarantorObjective "allocation_item list"
  | PreparingGuarantor "allocation_item list" bytes32 bytes32
  | RunObjective "allocation_item list" bytes32 bytes32 lf_machine
  | UpdateJointFunding bytes32 | WaitForJointSupport | SupportTarget state | VirtuallyFunded | VirtualFailure

inductive virtual_step ::
  "flow_env \<Rightarrow> bytes32 \<Rightarrow> bytes32 \<Rightarrow> flow_world \<Rightarrow> vf_state \<Rightarrow> vf_state \<Rightarrow> browser_store \<Rightarrow> bool"
  for F :: flow_env and target :: bytes32 and joint :: bytes32 and w :: flow_world where
  first: "entryIn (fw_store w) joint = Inr e \<Longrightarrow> waitForFirstJointState e = Some (Inr st) \<Longrightarrow>
     virtual_step F target joint w WaitForJoint (SupportJoint st) (askSupport (fe_platform F) st (fw_store w))"
| refused: "entryIn (fw_store w) joint = Inr e \<Longrightarrow> waitForFirstJointState e = Some (Inl err) \<Longrightarrow>
     virtual_step F target joint w WaitForJoint VirtualFailure (fw_store w)"
| joint_supported: "stateSupported (fe_platform F) st (fw_store w) \<Longrightarrow>
     virtual_step F target joint w (SupportJoint st) DetermineDeductions (fw_store w)"
| deductions: "getDeductions (fw_store w) joint = Inr d \<Longrightarrow>
     virtual_step F target joint w DetermineDeductions (GetGuarantorObjective d) (fw_store w)"
| objective: "getFundGuarantorObjective F joint target (fw_store w) = (s', Inr (FundGuarantor ps fg)) \<Longrightarrow>
     virtual_step F target joint w (GetGuarantorObjective d)
       (PreparingGuarantor d (fg_guarantorId fg) (fg_ledgerId fg)) (fst (addObjective (FundGuarantor ps fg) s'))"
| no_objective: "getFundGuarantorObjective F joint target (fw_store w) = (s', Inl err) \<Longrightarrow>
     virtual_step F target joint w (GetGuarantorObjective d) VirtualFailure s'"
| prepared: "entryIn (fw_store w) guarantor = Inr e \<Longrightarrow> entryIsSupported e \<Longrightarrow>
     virtual_step F target joint w (PreparingGuarantor d guarantor ledger)
       (RunObjective d guarantor ledger initLedgerFunding) (fw_store w)"
| running: "ledger_step (fe_platform F) guarantor ledger d w m m' s' \<Longrightarrow>
     virtual_step F target joint w (RunObjective d guarantor ledger m)
       (case lf_st m' of LedgerFunded \<Rightarrow> UpdateJointFunding guarantor | LedgerFailure _ \<Rightarrow> VirtualFailure
        | _ \<Rightarrow> RunObjective d guarantor ledger m') s'"
| joint_funded: "updateJointChannelFunding (fe_platform F) joint guarantor (fw_store w) = (s', Inr ()) \<Longrightarrow>
     virtual_step F target joint w (UpdateJointFunding guarantor) WaitForJointSupport s'"
| target: "entryIn (fw_store w) joint = Inr e \<Longrightarrow> jointChannelUpdate (fe_platform F) target e = Some (Inr st) \<Longrightarrow>
     virtual_step F target joint w WaitForJointSupport (SupportTarget st) (askSupport (fe_platform F) st (fw_store w))"
| target_supported: "stateSupported (fe_platform F) st (fw_store w) \<Longrightarrow>
     virtual_step F target joint w (SupportTarget st) VirtuallyFunded (fw_store w)"

section \<open>Creating and funding a channel\<close>

text \<open>The earliest stored state, when it is the first of the channel.\<close>

definition earliestState :: "store_entry \<Rightarrow> stored_state option" where
  "earliestState e =
     (case sort_key turnNum (ownStates e) of
        [] \<Rightarrow> None | st # _ \<Rightarrow> if turnNum st = 0 then Some st else None)"

definition getPreFundSetup :: "store_entry \<Rightarrow> state option" where
  "getPreFundSetup e = map_option state.truncate (earliestState e)"

definition getPostFundSetup :: "store_entry \<Rightarrow> state option" where
  "getPostFundSetup e = map_option (\<lambda>st. (state.truncate st)\<lparr>turnNum := 3\<rparr>) (earliestState e)"

text \<open>The first participant creates the joint channel; the call is not awaited.\<close>

definition triggerObjective :: "flow_env \<Rightarrow> bytes32 \<Rightarrow> unit bio" where
  "triggerObjective F cid =
     bindB (getEntry cid) (\<lambda>e.
     bindB (liftB (entrySupported e)) (\<lambda>st.
       if ce_myIndex e \<noteq> 0 then returnB ()
       else
         bindB (liftB (ethItems (outcome st))) (\<lambda>items.
         bindB (liftB (reduceAdd (map amount items))) (\<lambda>total'.
         bindB (liftB (itemAt items 0)) (\<lambda>a.
         bindB (liftB (itemAt items 1)) (\<lambda>b.
         let ps = participants (ce_constants e) @ [fe_hub F] in
         bindB (browserCreateChannel (fe_browser F) ps (fe_challengeDuration F)
             \<lparr>v_outcome = simpleEthAllocation
                [a, \<lparr>item_destination = destination (fe_hub F), amount = total'\<rparr>, b],
              v_turnNum = 0, v_appData = ''0x'', v_isFinal = False\<rparr> zeroAddress None) (\<lambda>je.
           addObjective (VirtuallyFund ps
             \<lparr>vf_targetChannelId = cid, vf_jointChannelId = entryChannelId (fe_platform F) je\<rparr>))))))))"

text \<open>What the player receives is the first item of somebody else, what it sends the first of its own.\<close>

definition reserveFundsService :: "flow_env \<Rightarrow> bytes32 \<Rightarrow> domain_budget bio" where
  "reserveFundsService F cid =
     bindB (getEntry cid) (\<lambda>e.
     bindB (liftB (entrySupported e)) (\<lambda>st.
     bindB (liftB (ethItems (outcome st))) (\<lambda>items.
     bindB (readB (\<lambda>s. Inr (storeAddress s))) (\<lambda>me.
       let own = (case find (\<lambda>p. Some (signingAddress p) = me) (participants st) of
                    None \<Rightarrow> ''0x00'' | Some p \<Rightarrow> destination p);
           receive = (case find (\<lambda>i. item_destination i \<noteq> own) items of None \<Rightarrow> 0 | Some i \<Rightarrow> amount i);
           send = (case find (\<lambda>i. item_destination i = own) items of None \<Rightarrow> 0 | Some i \<Rightarrow> amount i)
       in reserveFunds zeroAddress cid send receive))))"

text \<open>The objective feed gives the objectives already there, too.\<close>

definition getObjective :: "browser_store \<Rightarrow> bytes32 \<Rightarrow> bytes32 option" where
  "getObjective s cid =
     map_option (\<lambda>o'. case o' of VirtuallyFund _ d \<Rightarrow> vf_jointChannelId d | _ \<Rightarrow> [])
       (find (\<lambda>o'. case o' of VirtuallyFund _ d \<Rightarrow> vf_targetChannelId d = cid | _ \<Rightarrow> False) (bs_objectives s))"

datatype cf_state =
    GetPreFund | SupportPreFund state | GetDepositingInfo | Depositing deposit_info dep_state | SetFundingDirect
  | ReserveFunds | GetObjective | VirtualFundingOf bytes32 vf_state | SetFundingVirtual bytes32
  | GetPostFund | SupportPostFund state | ChannelCreated | CreateFailure

inductive create_step ::
  "flow_env \<Rightarrow> bytes32 \<Rightarrow> funding_strategy \<Rightarrow> flow_world \<Rightarrow> cf_state \<Rightarrow> cf_state \<Rightarrow> browser_store \<Rightarrow> bool"
  for F :: flow_env and cid :: bytes32 and funding :: funding_strategy and w :: flow_world where
  prefund: "entryIn (fw_store w) cid = Inr e \<Longrightarrow> getPreFundSetup e = Some st \<Longrightarrow>
     create_step F cid funding w GetPreFund (SupportPreFund st) (askSupport (fe_platform F) st (fw_store w))"
| direct: "stateSupported (fe_platform F) st (fw_store w) \<Longrightarrow> funding = Direct \<Longrightarrow>
     create_step F cid funding w (SupportPreFund st) GetDepositingInfo (fw_store w)"
| virtual: "stateSupported (fe_platform F) st (fw_store w) \<Longrightarrow> funding = Virtual \<Longrightarrow>
     create_step F cid funding w (SupportPreFund st) ReserveFunds (fst (triggerObjective F cid (fw_store w)))"
| info: "createDepositingInfo (fw_store w) cid = Inr i \<Longrightarrow>
     create_step F cid funding w GetDepositingInfo (Depositing i DepIdle) (fw_store w)"
| report: "depositEvent i (ci_amount (fw_chain w cid)) = Some ev \<Longrightarrow>
     create_step F cid funding w (Depositing i d)
       (if depositingStep d ev = DepDone then SetFundingDirect else Depositing i (depositingStep d ev)) (fw_store w)"
| submitted: "create_step F cid funding w (Depositing i DepSubmit) (Depositing i DepIdle) (fw_store w)"
| failed: "create_step F cid funding w (Depositing i DepSubmit) (Depositing i DepFailure) (fw_store w)"
| set_direct: "setFunding (fe_platform F) cid DirectFunding (fw_store w) = (s', Inr ()) \<Longrightarrow>
     create_step F cid funding w SetFundingDirect GetPostFund s'"
| reserved: "reserveFundsService F cid (fw_store w) = (s', Inr b) \<Longrightarrow>
     create_step F cid funding w ReserveFunds GetObjective s'"
| objective: "getObjective (fw_store w) cid = Some joint \<Longrightarrow>
     create_step F cid funding w GetObjective (VirtualFundingOf joint WaitForJoint) (fw_store w)"
| virtual_moves: "virtual_step F cid joint w v v' s' \<Longrightarrow>
     create_step F cid funding w (VirtualFundingOf joint v)
       (case v' of VirtuallyFunded \<Rightarrow> SetFundingVirtual joint | VirtualFailure \<Rightarrow> CreateFailure
        | _ \<Rightarrow> VirtualFundingOf joint v') s'"
| set_virtual: "setFunding (fe_platform F) cid (VirtualFunding joint) (fw_store w) = (s', Inr ()) \<Longrightarrow>
     create_step F cid funding w (SetFundingVirtual joint) GetPostFund s'"
| postfund: "entryIn (fw_store w) cid = Inr e \<Longrightarrow> getPostFundSetup e = Some st \<Longrightarrow>
     create_step F cid funding w GetPostFund (SupportPostFund st) (askSupport (fe_platform F) st (fw_store w))"
| created: "stateSupported (fe_platform F) st (fw_store w) \<Longrightarrow>
     create_step F cid funding w (SupportPostFund st) ChannelCreated (fw_store w)"

end
