(* ===== verification/BrowserVirtualFacts.thy ===== *)
theory BrowserVirtualFacts
  imports BrowserVirtual BrowserSafety
begin

text \<open>
  Facts about virtual funding: what a leaf's ledger channel looks like after a channel was funded
  through the hub and defunded again, when that fails, and what the hub does with its second ledger.
\<close>

section \<open>The items of a joint channel\<close>

lemma itemAt_eq: "itemAt xs i = (if i < length xs then Inr (xs ! i) else Inl TypeError)"
  by (simp add: itemAt_def nthOpt_def)

lemma item_eta: "\<lparr>item_destination = item_destination i, amount = n\<rparr> = i\<lparr>amount := n\<rparr>"
  by (cases i) simp

lemma ethItems_eq [simp]: "ethItems (simpleEthAllocation items) = Inr items"
  by (simp add: ethItems_def checkThat_def simpleEthAllocation_def)

lemma ethItems_Inr: "ethItems o' = Inr items \<Longrightarrow> o' = simpleEthAllocation items"
  by (cases o') (auto simp: ethItems_def checkThat_def simpleEthAllocation_def split: if_splits)

lemma leafDeductions_eq:
  assumes "role = OutA \<or> role = OutB"
  shows "leafDeductions [a, h, b] role =
    Inr (if role = OutA then [\<lparr>item_destination = item_destination h, amount = amount b\<rparr>, a]
         else [\<lparr>item_destination = item_destination h, amount = amount a\<rparr>, b])"
  using assms by (auto simp: leafDeductions_def itemAt_eq)

text \<open>
  A joint state that passed the check has a hub item that covers both leaves, and each guarantor is
  funded with exactly that.
\<close>

lemma guarantors_cover_the_joint_channel:
  assumes "checkJointState st = Inr ()" and "ethItems (outcome st) = Inr items"
    and "leafDeductions items role = Inr d" and "role = OutA \<or> role = OutB"
  shows "itemsTotal d = amount (items ! OutHub)"
proof -
  from assms(1,2) have "amount (items ! OutA) + amount (items ! OutB) = amount (items ! OutHub)"
    by (auto simp: checkJointState_def bindE_eq_Inr split: if_splits)
  with assms(3,4) show ?thesis
    by (auto simp: leafDeductions_def itemAt_eq bindE_eq_Inr itemsTotal_def split: if_splits)
qed

section \<open>Funding from a ledger\<close>

lemma allocate_two:
  assumes "item_destination hub \<noteq> item_destination leaf" and "0 \<le> b" and "0 \<le> a"
    and "b < amount hub" and "a \<le> amount leaf" and "\<forall>i \<in> set rest. 0 < amount i" and "0 < a + b"
    and "makeDestination eth g = Inr g"
  shows "allocateToTarget eth (simpleEthAllocation (hub # leaf # rest))
      [\<lparr>item_destination = item_destination hub, amount = b\<rparr>, \<lparr>item_destination = item_destination leaf, amount = a\<rparr>] g =
    Inr (simpleEthAllocation (hub\<lparr>amount := amount hub - b\<rparr> #
      (if a = amount leaf then [] else [leaf\<lparr>amount := amount leaf - a\<rparr>]) @ rest @ [\<lparr>item_destination = g, amount = a + b\<rparr>]))"
proof -
  have r: "filter (\<lambda>i. 0 < amount i) rest = rest" using assms(6) by (simp add: filter_id_conv)
  show ?thesis
    using assms r by (auto simp: allocateToTarget_def simpleEthAllocation_def deductItem_def)
qed

lemma getTargetOutcome_outcome:
  assumes "getTargetOutcome P s info g ledger d = Inr st" and "entryIn s ledger = Inr e" and "entrySupported e = Inr lst"
  shows "allocateToTarget (ethersLib P) (outcome lst) d g = Inr (outcome st)"
  using assms by (auto simp: getTargetOutcome_def bindE_eq_Inr split: if_splits)

text \<open>What the ledger of a leaf looks like when it is to fund a guarantor.\<close>

definition ledgerWith :: "browser_store \<Rightarrow> bytes32 \<Rightarrow> outcome \<Rightarrow> bool" where
  "ledgerWith s cid o' \<longleftrightarrow> (\<exists>e st. entryIn s cid = Inr e \<and> entrySupported e = Inr st \<and> outcome st = o')"

definition leafLedger ::
  "platform \<Rightarrow> bytes32 \<Rightarrow> allocation_item \<Rightarrow> allocation_item \<Rightarrow> allocation_item list \<Rightarrow> bool" where
  "leafLedger P g hub leaf rest \<longleftrightarrow>
     item_destination hub \<noteq> item_destination leaf \<and> (\<forall>i \<in> set rest. 0 < amount i) \<and>
     g \<notin> item_destination ` set (hub # leaf # rest) \<and> makeDestination (ethersLib P) g = Inr g"

lemma ledger_after_funding:
  assumes "leafLedger P g hub leaf rest" and "ledgerWith s ledger (simpleEthAllocation (hub # leaf # rest))"
    and "leafDeductions [a, h, b] role = Inr d" and "role = OutA \<or> role = OutB"
    and "item_destination h = item_destination hub"
    and "item_destination ([a, h, b] ! role) = item_destination leaf"
    and "0 \<le> amount a" and "0 \<le> amount b" and "0 < amount a + amount b"
    and "amount ([a, h, b] ! (2 - role)) < amount hub" and "amount ([a, h, b] ! role) \<le> amount leaf"
    and "getTargetOutcome P s info g ledger d = Inr st"
  shows "outcome st = simpleEthAllocation (hub\<lparr>amount := amount hub - amount ([a, h, b] ! (2 - role))\<rparr> #
    (if amount ([a, h, b] ! role) = amount leaf then [] else [leaf\<lparr>amount := amount leaf - amount ([a, h, b] ! role)\<rparr>]) @
    rest @ [\<lparr>item_destination = g, amount = amount a + amount b\<rparr>])"
proof -
  from assms(2) obtain e lst where e: "entryIn s ledger = Inr e" "entrySupported e = Inr lst"
    and o': "outcome lst = simpleEthAllocation (hub # leaf # rest)" by (auto simp: ledgerWith_def)
  have al: "allocateToTarget (ethersLib P) (simpleEthAllocation (hub # leaf # rest)) d g = Inr (outcome st)"
    using getTargetOutcome_outcome [OF assms(12) e] by (simp add: o')
  have own: "\<lparr>item_destination = item_destination leaf, amount = amount ([a, h, b] ! role)\<rparr> = [a, h, b] ! role"
    using assms(6) by simp
  have d: "d = [\<lparr>item_destination = item_destination hub, amount = amount ([a, h, b] ! (2 - role))\<rparr>,
      \<lparr>item_destination = item_destination leaf, amount = amount ([a, h, b] ! role)\<rparr>]"
    unfolding own using assms(3,4,5) by (auto simp: leafDeductions_eq)
  from assms(1) have l: "item_destination hub \<noteq> item_destination leaf" "\<forall>i \<in> set rest. 0 < amount i"
    "makeDestination (ethersLib P) g = Inr g"
    by (auto simp: leafLedger_def)
  have nn: "0 \<le> amount ([a, h, b] ! (2 - role))" "0 \<le> amount ([a, h, b] ! role)"
    "amount ([a, h, b] ! role) + amount ([a, h, b] ! (2 - role)) = amount a + amount b"
    using assms(4,7,8) by auto
  from allocate_two [OF l(1) nn(1,2) assms(10,11) l(2) _ l(3)] nn(3) assms(9) al
  show ?thesis by (simp add: d)
qed

text \<open>
  C38: funding a channel through the hub and defunding it again, when neither the leaf nor the hub puts its
  whole balance of the ledger into it. Afterwards the leaf's ledger is as it was before, except that
  what the leaf has won in the channel (or lost) has moved between it and the hub; the items of other
  channels are untouched. With a whole balance the item is gone and nothing comes back
  (\<open>whole_balance_cannot_come_back\<close>).
\<close>

theorem virtual_round_trip:
  assumes "leafLedger P g hub leaf rest" and "ledgerWith s ledger (simpleEthAllocation (hub # leaf # rest))"
    and "leafDeductions [a, h, b] role = Inr d" and "role = OutA \<or> role = OutB"
    and "item_destination h = item_destination hub"
    and "item_destination ([a, h, b] ! role) = item_destination leaf"
    and "0 \<le> amount a" and "0 \<le> amount b" and "0 < amount a + amount b"
    and "amount ([a, h, b] ! (2 - role)) < amount hub" and "amount ([a, h, b] ! role) < amount leaf"
    and "getTargetOutcome P s info g ledger d = Inr st"
    and "ledgerWith s' ledger (outcome st)" and "ledgerWith s' joint (simpleEthAllocation [a', h', b'])"
    and "map item_destination [a', h', b'] = map item_destination [a, h, b]" and "\<not> ci_finalized info'"
  shows "\<exists>st'. defundGuarantorInLedger s' info'
      \<lparr>id_joint = joint, id_guarantor = g, id_ledger = ledger, id_role = role\<rparr> = Inr st' \<and>
    outcome st' = simpleEthAllocation
      (hub\<lparr>amount := amount hub + (amount ([a', h', b'] ! (2 - role)) - amount ([a, h, b] ! (2 - role)))\<rparr> #
       leaf\<lparr>amount := amount leaf + (amount ([a', h', b'] ! role) - amount ([a, h, b] ! role))\<rparr> # rest)"
proof -
  let ?x = "amount ([a, h, b] ! (2 - role))" and ?y = "amount ([a, h, b] ! role)"
  from assms(11) have "?y \<le> amount leaf" by simp
  note after = ledger_after_funding [OF assms(1-10) this assms(12)]
  with assms(11) have o1: "outcome st = simpleEthAllocation (hub\<lparr>amount := amount hub - ?x\<rparr> #
      leaf\<lparr>amount := amount leaf - ?y\<rparr> # rest @ [\<lparr>item_destination = g, amount = amount a + amount b\<rparr>])"
    by simp
  from assms(13) obtain le lst where le: "entryIn s' ledger = Inr le" "entrySupported le = Inr lst"
    "outcome lst = outcome st" by (auto simp: ledgerWith_def)
  from assms(14) obtain je jst where je: "entryIn s' joint = Inr je" "entrySupported je = Inr jst"
    "outcome jst = simpleEthAllocation [a', h', b']" by (auto simp: ledgerWith_def)
  from assms(1) have g: "item_destination hub \<noteq> g" "item_destination leaf \<noteq> g" "\<forall>i \<in> set rest. item_destination i \<noteq> g"
    by (auto simp: leafLedger_def)
  have r: "filter (\<lambda>i. item_destination i \<noteq> g) rest = rest" using g(3) by (simp add: filter_id_conv)
  from assms(4,5,6,15) have dest: "item_destination h' = item_destination hub"
    "item_destination ([a', h', b'] ! role) = item_destination leaf" by auto
  have same: "nextState (state.truncate lst) (simpleEthAllocation xs) =
      Inr ((state.truncate lst)\<lparr>turnNum := turnNum lst + 1, outcome := simpleEthAllocation xs\<rparr>)" for xs
    by (simp add: nextState_def le(3) o1 simpleEthAllocation_def state.defs)
  have role3: "role < 3" "2 - role < 3" "Suc 0 < 3" using assms(4) by auto
  show ?thesis
    using role3 assms(16)
    by (simp add: defundGuarantorInLedger_def je le o1 g r itemAt_eq dest same Let_def algebra_simps flip: item_eta)
qed

text \<open>
  but when the channel took the leaf's whole balance, the ledger has no item of the leaf any more,
  the check of the order of the items fails, and what the guarantor holds does not come back this way.
\<close>

theorem whole_balance_cannot_come_back:
  assumes "leafLedger P g hub leaf rest" and "ledgerWith s ledger (simpleEthAllocation (hub # leaf # rest))"
    and "leafDeductions [a, h, b] role = Inr d" and "role = OutA \<or> role = OutB"
    and "item_destination h = item_destination hub"
    and "item_destination ([a, h, b] ! role) = item_destination leaf"
    and "0 \<le> amount a" and "0 \<le> amount b" and "0 < amount a + amount b"
    and "amount ([a, h, b] ! (2 - role)) < amount hub" and "amount ([a, h, b] ! role) = amount leaf"
    and "item_destination leaf \<notin> item_destination ` set rest"
    and "getTargetOutcome P s info g ledger d = Inr st"
    and "ledgerWith s' ledger (outcome st)" and "ledgerWith s' joint (simpleEthAllocation [a', h', b'])"
    and "map item_destination [a', h', b'] = map item_destination [a, h, b]"
  shows "isl (defundGuarantorInLedger s' info' \<lparr>id_joint = joint, id_guarantor = g, id_ledger = ledger, id_role = role\<rparr>)"
proof -
  let ?x = "amount ([a, h, b] ! (2 - role))"
  from assms(11) have "amount ([a, h, b] ! role) \<le> amount leaf" by simp
  note after = ledger_after_funding [OF assms(1-10) this assms(13)]
  with assms(11) have o1: "outcome st = simpleEthAllocation (hub\<lparr>amount := amount hub - ?x\<rparr> #
      rest @ [\<lparr>item_destination = g, amount = amount a + amount b\<rparr>])"
    by simp
  from assms(14) obtain le lst where le: "entryIn s' ledger = Inr le" "entrySupported le = Inr lst"
    "outcome lst = outcome st" by (auto simp: ledgerWith_def)
  from assms(15) obtain je jst where je: "entryIn s' joint = Inr je" "entrySupported je = Inr jst"
    "outcome jst = simpleEthAllocation [a', h', b']" by (auto simp: ledgerWith_def)
  from assms(1) have g: "item_destination hub \<noteq> g" "\<forall>i \<in> set rest. item_destination i \<noteq> g"
    by (auto simp: leafLedger_def)
  have r: "filter (\<lambda>i. item_destination i \<noteq> g) rest = rest" using g(2) by (simp add: filter_id_conv)
  from assms(4,6,16) have dest: "item_destination ([a', h', b'] ! role) = item_destination leaf" by auto
  have "rest ! 0 \<in> set rest" if "rest \<noteq> []" using that by simp
  with assms(12) have other: "rest \<noteq> [] \<Longrightarrow> item_destination (rest ! 0) \<noteq> item_destination leaf"
    by (metis image_eqI)
  have role3: "role < 3" using assms(4) by auto
  show ?thesis
    using role3 other
    by (cases rest) (auto simp: defundGuarantorInLedger_def je le o1 g r itemAt_eq dest Let_def)
qed

section \<open>The hub\<close>

lemma defundGuarantorInLedger_eq:
  assumes "defundGuarantorInLedger s info c = Inr st"
  obtains jAlloc hub leaf rest where "ledgerWith s (id_joint c) (simpleEthAllocation jAlloc)"
    and "OutHub < length jAlloc" and "id_role c < length jAlloc" and "2 - id_role c < length jAlloc"
    and "outcome st = simpleEthAllocation
      (\<lparr>item_destination = item_destination hub, amount = amount hub + amount (jAlloc ! (2 - id_role c))\<rparr> #
       \<lparr>item_destination = item_destination leaf, amount = amount leaf + amount (jAlloc ! id_role c)\<rparr> # rest)"
    and "item_destination hub = item_destination (jAlloc ! OutHub)"
    and "item_destination leaf = item_destination (jAlloc ! id_role c)"
    and "\<forall>i \<in> set (hub # leaf # rest). item_destination i \<noteq> id_guarantor c"
proof -
  from assms obtain je jst jAlloc le lst lAlloc where
    je: "entryIn s (id_joint c) = Inr je" "entrySupported je = Inr jst" "ethItems (outcome jst) = Inr jAlloc"
    and le: "entryIn s (id_ledger c) = Inr le" "entrySupported le = Inr lst" "ethItems (outcome lst) = Inr lAlloc"
    by (auto simp: defundGuarantorInLedger_def bindE_eq_Inr Let_def split: if_splits)
  define without where "without = filter (\<lambda>i. item_destination i \<noteq> id_guarantor c) lAlloc"
  from assms have "1 < length without" "OutHub < length jAlloc" "id_role c < length jAlloc" "2 - id_role c < length jAlloc"
    and dest: "item_destination (without ! 0) = item_destination (jAlloc ! OutHub)"
    "item_destination (without ! 1) = item_destination (jAlloc ! id_role c)"
    and n: "nextState (state.truncate lst) (simpleEthAllocation
      (\<lparr>item_destination = item_destination (without ! 0), amount = amount (without ! 0) + amount (jAlloc ! (2 - id_role c))\<rparr> #
       \<lparr>item_destination = item_destination (without ! 1), amount = amount (without ! 1) + amount (jAlloc ! id_role c)\<rparr> #
       drop 2 without)) = Inr st"
    by (auto simp: defundGuarantorInLedger_def bindE_eq_Inr Let_def je le itemAt_eq without_def split: if_splits)
  then have idx: "0 < length without" "1 < length without" by auto
  have all: "\<forall>i \<in> set without. item_destination i \<noteq> id_guarantor c" by (simp add: without_def)
  have "ledgerWith s (id_joint c) (simpleEthAllocation jAlloc)"
    using je ethItems_Inr [OF je(3)] by (auto simp: ledgerWith_def)
  moreover have "outcome st = simpleEthAllocation
      (\<lparr>item_destination = item_destination (without ! 0), amount = amount (without ! 0) + amount (jAlloc ! (2 - id_role c))\<rparr> #
       \<lparr>item_destination = item_destination (without ! 1), amount = amount (without ! 1) + amount (jAlloc ! id_role c)\<rparr> #
       drop 2 without)"
    using n by (auto simp: nextState_def split: if_splits)
  moreover have "\<forall>i \<in> set (without ! 0 # without ! 1 # drop 2 without). item_destination i \<noteq> id_guarantor c"
    using all idx by (auto dest: in_set_dropD)
  ultimately show thesis using that [of jAlloc "without ! 0" "without ! 1" "drop 2 without"] dest
    \<open>OutHub < length jAlloc\<close> \<open>id_role c < length jAlloc\<close> \<open>2 - id_role c < length jAlloc\<close> by blast
qed

text \<open>
  the hub's service for the right leaf is a second one for the left leaf. Run after the first one's
  update is supported, it asks for an update of the left ledger that pays out the channel once more:
  its outcome has more than the ledger, by all the channel held, and the right ledger stays as it is.
\<close>

theorem hub_pays_the_left_leaf_twice:
  assumes "defundLeftGuarantor s info c = Inr st"
    and "ledgerWith s (hid_joint c) (simpleEthAllocation [a, h, b])"
    and "ledgerWith s' (hid_joint c) (simpleEthAllocation [a, h, b])"
    and "ledgerWith s' (fst (hid_ledgers c)) (outcome st)" and "\<not> ci_finalized info'"
  shows "\<exists>st' items items'. defundRightGuarantor s' info' c = Inr st' \<and>
    outcome st = simpleEthAllocation items \<and> outcome st' = simpleEthAllocation items' \<and>
    itemsTotal items' = itemsTotal items + amount a + amount b"
proof -
  let ?c = "\<lparr>id_joint = hid_joint c, id_guarantor = fst (hid_guarantors c), id_ledger = fst (hid_ledgers c), id_role = OutA\<rparr>"
  from assms(1) have "defundGuarantorInLedger s info ?c = Inr st"
    by (auto simp: defundLeftGuarantor_def defundGuarantor_def bindE_eq_Inr)
  then obtain jAlloc hub leaf rest where j: "ledgerWith s (id_joint ?c) (simpleEthAllocation jAlloc)"
    and o1: "outcome st = simpleEthAllocation
      (\<lparr>item_destination = item_destination hub, amount = amount hub + amount (jAlloc ! (2 - id_role ?c))\<rparr> #
       \<lparr>item_destination = item_destination leaf, amount = amount leaf + amount (jAlloc ! id_role ?c)\<rparr> # rest)"
    and dest: "item_destination hub = item_destination (jAlloc ! OutHub)"
      "item_destination leaf = item_destination (jAlloc ! id_role ?c)"
    and g: "\<forall>i \<in> set (hub # leaf # rest). item_destination i \<noteq> id_guarantor ?c"
    by (rule defundGuarantorInLedger_eq)
  from j assms(2) have "simpleEthAllocation jAlloc = simpleEthAllocation [a, h, b]" by (auto simp: ledgerWith_def)
  then have jA: "jAlloc = [a, h, b]" by (simp add: simpleEthAllocation_def)
  from assms(4) obtain le lst where le: "entryIn s' (fst (hid_ledgers c)) = Inr le" "entrySupported le = Inr lst"
    "outcome lst = outcome st" by (auto simp: ledgerWith_def)
  from assms(3) obtain je jst where je: "entryIn s' (hid_joint c) = Inr je" "entrySupported je = Inr jst"
    "outcome jst = simpleEthAllocation [a, h, b]" by (auto simp: ledgerWith_def)
  have r: "filter (\<lambda>i. item_destination i \<noteq> fst (hid_guarantors c)) rest = rest" using g by (simp add: filter_id_conv)
  have same: "nextState (state.truncate lst) (simpleEthAllocation xs) =
      Inr ((state.truncate lst)\<lparr>turnNum := turnNum lst + 1, outcome := simpleEthAllocation xs\<rparr>)" for xs
    by (simp add: nextState_def le(3) o1 simpleEthAllocation_def state.defs)
  have "\<exists>st'. defundRightGuarantor s' info' c = Inr st' \<and> outcome st' = simpleEthAllocation
      (\<lparr>item_destination = item_destination hub, amount = amount hub + amount b + amount b\<rparr> #
       \<lparr>item_destination = item_destination leaf, amount = amount leaf + amount a + amount a\<rparr> # rest)"
    using assms(5) g dest
    by (simp add: defundRightGuarantor_def defundGuarantor_def defundGuarantorInLedger_def je le o1 jA r itemAt_eq same Let_def)
  then obtain st' where st': "defundRightGuarantor s' info' c = Inr st'" "outcome st' = simpleEthAllocation
      (\<lparr>item_destination = item_destination hub, amount = amount hub + amount b + amount b\<rparr> #
       \<lparr>item_destination = item_destination leaf, amount = amount leaf + amount a + amount a\<rparr> # rest)" by blast
  show ?thesis
    by (rule exI [of _ st'], rule exI, rule exI, intro conjI, rule st'(1), rule o1, rule st'(2)) (simp add: jA)
qed

section \<open>Witnesses\<close>

lemma ledgerWith_eval:
  "ledgerWith s cid o' \<longleftrightarrow>
     (case bindE (entryIn s cid) entrySupported of Inl _ \<Rightarrow> False | Inr st \<Rightarrow> outcome st = o')"
  by (auto simp: ledgerWith_def bindE_def split: sum.splits)

definition itemsOf :: "(char \<times> int) list \<Rightarrow> allocation_item list" where
  "itemsOf ps = allocationItems (sampleAllocation ps)"

definition flowChannel :: "allocation_item list \<Rightarrow> stored_channel" where
  "flowChannel items = browserChannel\<lparr>csd_vars :=
     map (\<lambda>r. r\<lparr>outcome := simpleEthAllocation items\<rparr>) (csd_vars browserChannel)\<rparr>"

definition flowStore :: "allocation_item list \<Rightarrow> allocation_item list \<Rightarrow> browser_store" where
  "flowStore ledger joint =
     sampleStore\<lparr>bs_channels := [(''ledger'', flowChannel ledger), (''joint'', flowChannel joint)]\<rparr>"

definition liveInfo :: chain_info where
  "liveInfo = \<lparr>ci_amount = 18, ci_turnNumRecord = 0, ci_finalizesAt = 0, ci_finalized = False, ci_blockNum = 7\<rparr>"

definition jointBefore :: "allocation_item list" where
  "jointBefore = itemsOf [(CHR ''a'', 5), (CHR ''h'', 9), (CHR ''b'', 4)]"

definition fundedBy :: "allocation_item list \<Rightarrow> state result" where
  "fundedBy ledger = bindE (leafDeductions jointBefore 0) (getTargetOutcome samplePlatform
     (flowStore ledger jointBefore) liveInfo (sampleDest CHR ''g'') ''ledger'')"

lemma fundedBy_steps:
  assumes "\<not> isl (fundedBy ledger)"
  obtains d st where "leafDeductions jointBefore 0 = Inr d"
    and "getTargetOutcome samplePlatform (flowStore ledger jointBefore) liveInfo (sampleDest CHR ''g'') ''ledger'' d = Inr st"
    and "fundedBy ledger = Inr st"
proof -
  from assms obtain st where st: "fundedBy ledger = Inr st" by (cases "fundedBy ledger") auto
  from st [unfolded fundedBy_def] obtain d where "leafDeductions jointBefore 0 = Inr d"
    "getTargetOutcome samplePlatform (flowStore ledger jointBefore) liveInfo (sampleDest CHR ''g'') ''ledger'' d = Inr st"
    by (auto simp: bindE_eq_Inr)
  with st that show thesis by blast
qed

text \<open>The leaf brings 5 of its 8 and wins 2.\<close>

theorem virtual_round_trip_witness:
  "\<exists>s st'. defundGuarantorInLedger s liveInfo
      \<lparr>id_joint = ''joint'', id_guarantor = sampleDest CHR ''g'', id_ledger = ''ledger'', id_role = 0\<rparr> = Inr st' \<and>
    outcome st' = simpleEthAllocation (itemsOf [(CHR ''h'', 8), (CHR ''a'', 10)])"
proof -
  let ?L = "itemsOf [(CHR ''h'', 10), (CHR ''a'', 8)]"
  let ?hub = "\<lparr>item_destination = sampleDest CHR ''h'', amount = 10\<rparr>"
  let ?leaf = "\<lparr>item_destination = sampleDest CHR ''a'', amount = 8\<rparr>"
  let ?i = "\<lambda>c n. \<lparr>item_destination = sampleDest c, amount = n\<rparr>"
  have L: "?L = [?hub, ?leaf]" and J: "jointBefore = [?i CHR ''a'' 5, ?i CHR ''h'' 9, ?i CHR ''b'' 4]"
    by (simp_all add: itemsOf_def jointBefore_def sampleAllocation_def)
  have ok: "\<not> isl (fundedBy ?L)" by code_simp
  obtain d st where d: "leafDeductions jointBefore 0 = Inr d"
    and f: "getTargetOutcome samplePlatform (flowStore ?L jointBefore) liveInfo (sampleDest CHR ''g'') ''ledger'' d = Inr st"
    and st: "fundedBy ?L = Inr st"
    by (rule fundedBy_steps [OF ok])
  have "outcome (projr (fundedBy ?L)) = simpleEthAllocation (itemsOf [(CHR ''h'', 6), (CHR ''a'', 3), (CHR ''g'', 9)])"
    by code_simp
  then have o1: "outcome st = simpleEthAllocation (itemsOf [(CHR ''h'', 6), (CHR ''a'', 3), (CHR ''g'', 9)])"
    by (simp only: st sum.sel)
  let ?s' = "flowStore (itemsOf [(CHR ''h'', 6), (CHR ''a'', 3), (CHR ''g'', 9)]) (itemsOf [(CHR ''a'', 7), (CHR ''h'', 9), (CHR ''b'', 2)])"
  have ledger: "leafLedger samplePlatform (sampleDest CHR ''g'') ?hub ?leaf []"
    unfolding leafLedger_def by code_simp
  have w: "ledgerWith (flowStore ?L jointBefore) ''ledger'' (simpleEthAllocation [?hub, ?leaf])"
    "ledgerWith ?s' ''ledger'' (outcome st)"
    "ledgerWith ?s' ''joint'' (simpleEthAllocation [?i CHR ''a'' 7, ?i CHR ''h'' 9, ?i CHR ''b'' 2])"
    unfolding ledgerWith_eval o1 by code_simp+
  from virtual_round_trip [OF ledger w(1) d [unfolded J] _ _ _ _ _ _ _ _ f w(2,3), of liveInfo] show ?thesis
    by (intro exI [of _ ?s']) (simp add: liveInfo_def itemsOf_def sampleAllocation_def)
qed

text \<open>The leaf brings all of its 5.\<close>

theorem whole_balance_cannot_come_back_witness:
  "isl (defundGuarantorInLedger (flowStore (itemsOf [(CHR ''h'', 9), (CHR ''g'', 9)]) jointBefore) liveInfo
     \<lparr>id_joint = ''joint'', id_guarantor = sampleDest CHR ''g'', id_ledger = ''ledger'', id_role = 0\<rparr>)"
proof -
  let ?L = "itemsOf [(CHR ''h'', 13), (CHR ''a'', 5)]"
  let ?hub = "\<lparr>item_destination = sampleDest CHR ''h'', amount = 13\<rparr>"
  let ?leaf = "\<lparr>item_destination = sampleDest CHR ''a'', amount = 5\<rparr>"
  let ?i = "\<lambda>c n. \<lparr>item_destination = sampleDest c, amount = n\<rparr>"
  have L: "?L = [?hub, ?leaf]" and J: "jointBefore = [?i CHR ''a'' 5, ?i CHR ''h'' 9, ?i CHR ''b'' 4]"
    by (simp_all add: itemsOf_def jointBefore_def sampleAllocation_def)
  have ok: "\<not> isl (fundedBy ?L)" by code_simp
  obtain d st where d: "leafDeductions jointBefore 0 = Inr d"
    and f: "getTargetOutcome samplePlatform (flowStore ?L jointBefore) liveInfo (sampleDest CHR ''g'') ''ledger'' d = Inr st"
    and st: "fundedBy ?L = Inr st"
    by (rule fundedBy_steps [OF ok])
  have "outcome (projr (fundedBy ?L)) = simpleEthAllocation (itemsOf [(CHR ''h'', 9), (CHR ''g'', 9)])" by code_simp
  then have o1: "outcome st = simpleEthAllocation (itemsOf [(CHR ''h'', 9), (CHR ''g'', 9)])"
    by (simp only: st sum.sel)
  let ?s' = "flowStore (itemsOf [(CHR ''h'', 9), (CHR ''g'', 9)]) jointBefore"
  have ledger: "leafLedger samplePlatform (sampleDest CHR ''g'') ?hub ?leaf []"
    unfolding leafLedger_def by code_simp
  have w: "ledgerWith (flowStore ?L jointBefore) ''ledger'' (simpleEthAllocation [?hub, ?leaf])"
    "ledgerWith ?s' ''ledger'' (outcome st)"
    "ledgerWith ?s' ''joint'' (simpleEthAllocation [?i CHR ''a'' 5, ?i CHR ''h'' 9, ?i CHR ''b'' 4])"
    unfolding ledgerWith_eval o1 by code_simp+
  from whole_balance_cannot_come_back [OF ledger w(1) d [unfolded J] _ _ _ _ _ _ _ _ _ f w(2,3)] show ?thesis by simp
qed

definition hubIds :: hub_ids where
  "hubIds = \<lparr>hid_joint = ''joint'', hid_guarantors = (sampleDest CHR ''g'', sampleDest CHR ''k''),
     hid_ledgers = (''ledger'', ''ledger2'')\<rparr>"

theorem hub_pays_the_left_leaf_twice_witness:
  "\<exists>s s' st st'. defundLeftGuarantor s liveInfo hubIds = Inr st \<and>
     outcome st = simpleEthAllocation (itemsOf [(CHR ''h'', 10), (CHR ''a'', 8)]) \<and>
     defundRightGuarantor s' liveInfo hubIds = Inr st' \<and>
     (\<exists>items. outcome st' = simpleEthAllocation items \<and> itemsTotal items = 27)"
proof -
  let ?s = "flowStore (itemsOf [(CHR ''h'', 6), (CHR ''a'', 3), (CHR ''g'', 9)]) jointBefore"
  let ?s' = "flowStore (itemsOf [(CHR ''h'', 10), (CHR ''a'', 8)]) jointBefore"
  let ?r = "defundLeftGuarantor ?s liveInfo hubIds"
  let ?i = "\<lambda>c n. \<lparr>item_destination = sampleDest c, amount = n\<rparr>"
  have J: "jointBefore = [?i CHR ''a'' 5, ?i CHR ''h'' 9, ?i CHR ''b'' 4]"
    by (simp add: itemsOf_def jointBefore_def sampleAllocation_def)
  have "\<not> isl ?r" by code_simp
  then obtain st where st: "?r = Inr st" by (cases ?r) auto
  have "outcome (projr ?r) = simpleEthAllocation (itemsOf [(CHR ''h'', 10), (CHR ''a'', 8)])" by code_simp
  then have o1: "outcome st = simpleEthAllocation (itemsOf [(CHR ''h'', 10), (CHR ''a'', 8)])"
    by (simp only: st sum.sel)
  have w: "ledgerWith ?s (hid_joint hubIds) (simpleEthAllocation [?i CHR ''a'' 5, ?i CHR ''h'' 9, ?i CHR ''b'' 4])"
    "ledgerWith ?s' (hid_joint hubIds) (simpleEthAllocation [?i CHR ''a'' 5, ?i CHR ''h'' 9, ?i CHR ''b'' 4])"
    "ledgerWith ?s' (fst (hid_ledgers hubIds)) (outcome st)"
    unfolding ledgerWith_eval o1 by code_simp+
  from hub_pays_the_left_leaf_twice [OF st w, of liveInfo] obtain st' items items' where
    "defundRightGuarantor ?s' liveInfo hubIds = Inr st'" "outcome st = simpleEthAllocation items"
    "outcome st' = simpleEthAllocation items'" "itemsTotal items' = itemsTotal items + 5 + 4"
    by (auto simp: liveInfo_def)
  moreover from this(2) o1 have "items = itemsOf [(CHR ''h'', 10), (CHR ''a'', 8)]" by (simp add: simpleEthAllocation_def)
  ultimately show ?thesis using st o1
    by (intro exI [of _ ?s] exI [of _ ?s'] exI [of _ st] exI [of _ st']) (auto simp: itemsOf_def sampleAllocation_def)
qed

end
