(* ===== verification/BrowserFlowsFacts.thy ===== *)
theory BrowserFlowsFacts
  imports BrowserFlows BrowserVirtualFacts BrowserFundingFacts
begin

text \<open>
  What the runs of the funding machines guarantee, whatever the peers, the chain and the other
  workflows do between their steps: nothing is signed that counts on money before the money is there.
\<close>

section \<open>Invariants of runs\<close>

lemma flow_run_nonempty: "flow_run step init h m \<Longrightarrow> h \<noteq> []"
  by (induction rule: flow_run.induct) simp_all

locale flow_invariant =
  fixes step :: "flow_world \<Rightarrow> 'm \<Rightarrow> 'm \<Rightarrow> browser_store \<Rightarrow> bool"
    and init :: 'm
    and inv :: "flow_world list \<Rightarrow> 'm \<Rightarrow> bool"
  assumes at_start: "inv [w] init"
    and later: "inv h m \<Longrightarrow> inv (h @ [w]) m"
    and kept: "inv h m \<Longrightarrow> h \<noteq> [] \<Longrightarrow> step (last h) m m' s' \<Longrightarrow> inv (h @ [(last h)\<lparr>fw_store := s'\<rparr>]) m'"
begin

lemma run_inv: "flow_run step init h m \<Longrightarrow> inv h m"
proof (induction rule: flow_run.induct)
  case (start w)
  show ?case by (rule at_start)
next
  case (world h m w)
  then show ?case by (simp add: later)
next
  case (move h m m' s')
  show ?case by (rule kept [OF move.IH flow_run_nonempty [OF move.hyps(1)] move.hyps(2)])
qed

end

text \<open>Something the machine saw, once or in this order.\<close>

definition seen :: "(flow_world \<Rightarrow> bool) \<Rightarrow> flow_world list \<Rightarrow> bool" where
  "seen Q h \<longleftrightarrow> (\<exists>w \<in> set h. Q w)"

definition seenThen :: "(flow_world \<Rightarrow> bool) \<Rightarrow> (flow_world \<Rightarrow> bool) \<Rightarrow> flow_world list \<Rightarrow> bool" where
  "seenThen Q R h \<longleftrightarrow> (\<exists>h1 h2. h = h1 @ h2 \<and> seen Q h1 \<and> seen R h2)"

lemma seen_append: "seen Q h \<Longrightarrow> seen Q (h @ h')"
  by (auto simp: seen_def)

lemma seenThen_append: "seenThen Q R h \<Longrightarrow> seenThen Q R (h @ h')"
  unfolding seenThen_def by (metis append.assoc seen_append)

lemma seen_now: "h \<noteq> [] \<Longrightarrow> Q (last h) \<Longrightarrow> seen Q h"
  by (auto simp: seen_def)

text \<open>With a world before the present one.\<close>

lemma seenThen_now:
  assumes "seen Q (butlast h)" and "h \<noteq> []" and "R (last h)"
  shows "seenThen Q R h"
  unfolding seenThen_def using assms by (intro exI [of _ "butlast h"] exI [of _ "[last h]"]) (simp add: seen_def)

lemma seen_butlast: "seen Q (butlast h) \<Longrightarrow> seen Q h"
  by (auto simp: seen_def dest: in_set_butlastD)

section \<open>Ledger funding\<close>

abbreviation targetOutcomeIs ::
  "platform \<Rightarrow> bytes32 \<Rightarrow> bytes32 \<Rightarrow> allocation_item list \<Rightarrow> state \<Rightarrow> flow_world \<Rightarrow> bool" where
  "targetOutcomeIs P target ledger d st w \<equiv>
     getTargetOutcome P (fw_store w) (fw_chain w ledger) target ledger d = Inr st"

definition ledgerUpdated ::
  "platform \<Rightarrow> bytes32 \<Rightarrow> bytes32 \<Rightarrow> allocation_item list \<Rightarrow> flow_world list \<Rightarrow> bool" where
  "ledgerUpdated P target ledger d h \<longleftrightarrow>
     (\<exists>st. seenThen (targetOutcomeIs P target ledger d st) (\<lambda>w. stateSupported P st (fw_store w)) h)"

definition ledgerInv ::
  "platform \<Rightarrow> bytes32 \<Rightarrow> bytes32 \<Rightarrow> allocation_item list \<Rightarrow> flow_world list \<Rightarrow> lf_machine \<Rightarrow> bool" where
  "ledgerInv P target ledger d h m \<longleftrightarrow>
     (case lf_st m of
        SupportingLedger st \<Rightarrow> seen (targetOutcomeIs P target ledger d st) (butlast h)
      | UpdatingFunding \<Rightarrow> ledgerUpdated P target ledger d h
      | LedgerFunded \<Rightarrow> ledgerUpdated P target ledger d h
      | _ \<Rightarrow> True)"

lemma ledgerInv_init: "ledgerInv P target ledger d h initLedgerFunding"
  by (simp add: ledgerInv_def initLedgerFunding_def)

lemma ledgerUpdated_append: "ledgerUpdated P t l d h \<Longrightarrow> ledgerUpdated P t l d (h @ h')"
  unfolding ledgerUpdated_def using seenThen_append by blast

lemma ledgerInv_later: "ledgerInv P target ledger d h m \<Longrightarrow> ledgerInv P target ledger d (h @ [w]) m"
  by (auto simp: ledgerInv_def ledgerUpdated_append seen_butlast split: lf_state.splits)

lemma ledgerInv_step:
  assumes "ledgerInv P target ledger d h m" and "h \<noteq> []" and "ledger_step P target ledger d (last h) m m' s'"
  shows "ledgerInv P target ledger d (h @ [w]) m'"
  using assms(3)
proof (cases rule: ledger_step.cases)
  case (outcome st)
  then show ?thesis using assms(2) by (simp add: ledgerInv_def seen_now)
next
  case (supported st)
  with assms have "seenThen (targetOutcomeIs P target ledger d st) (\<lambda>w. stateSupported P st (fw_store w)) h"
    by (intro seenThen_now) (simp_all add: ledgerInv_def)
  with supported show ?thesis by (auto simp: ledgerInv_def ledgerUpdated_def intro: seenThen_append)
next
  case updated
  with assms(1) show ?thesis by (simp add: ledgerInv_def ledgerUpdated_append)
qed (simp_all add: ledgerInv_def lfFail_def)

interpretation ledgerFunding: flow_invariant "ledger_step P target ledger d" initLedgerFunding "ledgerInv P target ledger d"
  for P target ledger d
  by unfold_locales (auto intro: ledgerInv_init ledgerInv_later ledgerInv_step)

section \<open>Virtual funding\<close>

text \<open>A guarantor was funded by an update of the ledger with the deductions of the joint channel.\<close>

definition guarantorFunded :: "platform \<Rightarrow> bytes32 \<Rightarrow> flow_world list \<Rightarrow> bool" where
  "guarantorFunded P joint h \<longleftrightarrow>
     (\<exists>guarantor ledger d. seen (\<lambda>w. getDeductions (fw_store w) joint = Inr d) h \<and>
        ledgerUpdated P guarantor ledger d h)"

definition virtualInv :: "platform \<Rightarrow> bytes32 \<Rightarrow> flow_world list \<Rightarrow> vf_state \<Rightarrow> bool" where
  "virtualInv P joint h v \<longleftrightarrow>
     (case v of
        GetGuarantorObjective d \<Rightarrow> seen (\<lambda>w. getDeductions (fw_store w) joint = Inr d) h
      | PreparingGuarantor d g l \<Rightarrow> seen (\<lambda>w. getDeductions (fw_store w) joint = Inr d) h
      | RunObjective d g l m \<Rightarrow>
          seen (\<lambda>w. getDeductions (fw_store w) joint = Inr d) h \<and> ledgerInv P g l d h m
      | UpdateJointFunding g \<Rightarrow> guarantorFunded P joint h
      | WaitForJointSupport \<Rightarrow> guarantorFunded P joint h
      | SupportTarget st \<Rightarrow> guarantorFunded P joint h
      | VirtuallyFunded \<Rightarrow> guarantorFunded P joint h
      | _ \<Rightarrow> True)"

lemma guarantorFunded_append: "guarantorFunded P joint h \<Longrightarrow> guarantorFunded P joint (h @ h')"
  unfolding guarantorFunded_def using ledgerUpdated_append seen_append by blast

lemma virtualInv_init: "virtualInv P joint h WaitForJoint"
  by (simp add: virtualInv_def)

lemma virtualInv_later: "virtualInv P joint h v \<Longrightarrow> virtualInv P joint (h @ [w]) v"
  by (auto simp: virtualInv_def guarantorFunded_append seen_append ledgerInv_later split: vf_state.splits)

lemma virtualInv_step:
  assumes "virtualInv (fe_platform F) joint h v" and "h \<noteq> []" and "virtual_step F target joint (last h) v v' s'"
  shows "virtualInv (fe_platform F) joint (h @ [w]) v'"
  using assms(3)
proof (cases rule: virtual_step.cases)
  case (deductions d)
  then have "seen (\<lambda>w. getDeductions (fw_store w) joint = Inr d) h" using assms(2) by (intro seen_now)
  with deductions show ?thesis by (simp add: virtualInv_def seen_append)
next
  case (running g l d m m')
  with assms have s: "seen (\<lambda>w. getDeductions (fw_store w) joint = Inr d) (h @ [w])"
    and i: "ledgerInv (fe_platform F) g l d (h @ [w]) m'"
    by (auto simp: virtualInv_def seen_append intro: ledgerInv_step)
  show ?thesis
  proof (cases "lf_st m'")
    case LedgerFunded
    with i have "ledgerUpdated (fe_platform F) g l d (h @ [w])" by (simp add: ledgerInv_def)
    with s running LedgerFunded show ?thesis by (auto simp: virtualInv_def guarantorFunded_def)
  qed (use s i running in \<open>simp_all add: virtualInv_def\<close>)
qed (use assms(1) in \<open>simp_all add: virtualInv_def seen_append guarantorFunded_append ledgerInv_init\<close>)

interpretation virtualFunding: flow_invariant "virtual_step F target joint" WaitForJoint "virtualInv (fe_platform F) joint"
  for F target joint
  by unfold_locales (auto intro: virtualInv_init virtualInv_later virtualInv_step)

text \<open>
  a leaf asks for the joint channel's update that funds the target only after an update of its
  ledger that pays its deductions into a guarantor has been supported.
\<close>

theorem target_signed_only_when_guaranteed:
  assumes "flow_run (virtual_step F target joint) WaitForJoint h (SupportTarget st)"
  shows "\<exists>guarantor ledger d upd. seen (\<lambda>w. getDeductions (fw_store w) joint = Inr d) h \<and>
    seenThen (targetOutcomeIs (fe_platform F) guarantor ledger d upd)
      (\<lambda>w. stateSupported (fe_platform F) upd (fw_store w)) h"
  using virtualFunding.run_inv [OF assms]
  by (auto simp: virtualInv_def guarantorFunded_def ledgerUpdated_def)

section \<open>Creating a channel\<close>

definition directlyFunded :: "bytes32 \<Rightarrow> flow_world list \<Rightarrow> bool" where
  "directlyFunded cid h \<longleftrightarrow> (\<exists>i. seenThen (\<lambda>w. createDepositingInfo (fw_store w) cid = Inr i)
     (\<lambda>w. di_fundedAt i \<le> ci_amount (fw_chain w cid)) h)"

definition virtuallyFunded :: "platform \<Rightarrow> bytes32 \<Rightarrow> flow_world list \<Rightarrow> bool" where
  "virtuallyFunded P cid h \<longleftrightarrow> (\<exists>joint. seen (\<lambda>w. getObjective (fw_store w) cid = Some joint) h \<and>
     guarantorFunded P joint h)"

definition channelFunded :: "platform \<Rightarrow> bytes32 \<Rightarrow> funding_strategy \<Rightarrow> flow_world list \<Rightarrow> bool" where
  "channelFunded P cid funding h \<longleftrightarrow>
     (funding = Direct \<and> directlyFunded cid h) \<or> (funding = Virtual \<and> virtuallyFunded P cid h)"

definition createInv :: "platform \<Rightarrow> bytes32 \<Rightarrow> funding_strategy \<Rightarrow> flow_world list \<Rightarrow> cf_state \<Rightarrow> bool" where
  "createInv P cid funding h c \<longleftrightarrow>
     (case c of
        GetDepositingInfo \<Rightarrow> funding = Direct
      | Depositing i d \<Rightarrow> funding = Direct \<and> d \<noteq> DepDone \<and>
          seen (\<lambda>w. createDepositingInfo (fw_store w) cid = Inr i) (butlast h)
      | SetFundingDirect \<Rightarrow> channelFunded P cid funding h
      | ReserveFunds \<Rightarrow> funding = Virtual
      | GetObjective \<Rightarrow> funding = Virtual
      | VirtualFundingOf joint v \<Rightarrow> funding = Virtual \<and>
          seen (\<lambda>w. getObjective (fw_store w) cid = Some joint) h \<and> virtualInv P joint h v
      | SetFundingVirtual joint \<Rightarrow> channelFunded P cid funding h
      | GetPostFund \<Rightarrow> channelFunded P cid funding h
      | SupportPostFund st \<Rightarrow> channelFunded P cid funding h
      | ChannelCreated \<Rightarrow> channelFunded P cid funding h
      | _ \<Rightarrow> True)"

lemma channelFunded_append: "channelFunded P cid funding h \<Longrightarrow> channelFunded P cid funding (h @ h')"
  unfolding channelFunded_def directlyFunded_def virtuallyFunded_def
  using seenThen_append seen_append guarantorFunded_append by blast

lemma createInv_init: "createInv P cid funding h GetPreFund"
  by (simp add: createInv_def)

lemma createInv_later: "createInv P cid funding h c \<Longrightarrow> createInv P cid funding (h @ [w]) c"
  by (auto simp: createInv_def channelFunded_append seen_append seen_butlast virtualInv_later split: cf_state.splits)

lemma createInv_step:
  assumes "createInv (fe_platform F) cid funding h c" and "h \<noteq> []"
    and "create_step F cid funding (last h) c c' s'"
  shows "createInv (fe_platform F) cid funding (h @ [w]) c'"
  using assms(3)
proof (cases rule: create_step.cases)
  case (info i)
  then have "seen (\<lambda>w. createDepositingInfo (fw_store w) cid = Inr i) h" using assms(2) by (intro seen_now)
  with info assms(1) show ?thesis by (simp add: createInv_def)
next
  case (report i ev d)
  from report assms(1) have f: "funding = Direct" "d \<noteq> DepDone"
    and s: "seen (\<lambda>w. createDepositingInfo (fw_store w) cid = Inr i) (butlast h)"
    by (simp_all add: createInv_def)
  show ?thesis
  proof (cases "depositingStep d ev = DepDone")
    case True
    with depositingStep_Done f(2) have "ev = Funded" by blast
    with report have "di_fundedAt i \<le> ci_amount (fw_chain (last h) cid)" by (simp add: depositEvent_def split: if_splits)
    with s assms(2) have "directlyFunded cid h" unfolding directlyFunded_def by (intro exI seenThen_now)
    with f have "channelFunded (fe_platform F) cid funding h" by (simp add: channelFunded_def)
    with report True show ?thesis by (simp add: createInv_def channelFunded_append)
  next
    case False
    with report f s seen_butlast show ?thesis by (simp add: createInv_def)
  qed
next
  case (objective joint)
  then have "seen (\<lambda>w. getObjective (fw_store w) cid = Some joint) h" using assms(2) by (intro seen_now)
  with objective assms(1) show ?thesis by (simp add: createInv_def seen_append virtualInv_def)
next
  case (virtual_moves joint v v')
  with assms have s: "funding = Virtual" "seen (\<lambda>w. getObjective (fw_store w) cid = Some joint) (h @ [w])"
    and i: "virtualInv (fe_platform F) joint (h @ [w]) v'"
    by (auto simp: createInv_def seen_append intro: virtualInv_step)
  show ?thesis
  proof (cases v')
    case VirtuallyFunded
    with i have "guarantorFunded (fe_platform F) joint (h @ [w])" by (simp add: virtualInv_def)
    with s virtual_moves VirtuallyFunded show ?thesis
      by (auto simp: createInv_def channelFunded_def virtuallyFunded_def)
  qed (use s i virtual_moves in \<open>simp_all add: createInv_def\<close>)
qed (use assms(1) in \<open>auto simp: createInv_def channelFunded_append seen_append seen_butlast\<close>)

interpretation creating: flow_invariant "create_step F cid funding" GetPreFund "createInv (fe_platform F) cid funding"
  for F cid funding
  by unfold_locales (auto intro: createInv_init createInv_later createInv_step)

text \<open>
  the workflow that creates a channel asks for the post-fund state only when the channel is
  funded: for a directly funded one, the chain has reported all that the supported outcome allocates;
  for a virtually funded one, a guarantor of the joint channel was funded by a supported update of the
  ledger.
\<close>

theorem postfund_signed_only_when_funded:
  assumes "flow_run (create_step F cid funding) GetPreFund h (SupportPostFund st)"
  shows "channelFunded (fe_platform F) cid funding h"
  using creating.run_inv [OF assms] by (simp add: createInv_def)

section \<open>Witnesses\<close>

definition sampleFlowEnv :: flow_env where
  "sampleFlowEnv = \<lparr>fe_browser = \<lparr>be_platform = samplePlatform, be_chainNetworkId = ''1'',
       be_hubDestination = sampleDest CHR ''h'', be_randomKey = ''0xA'', be_connected = True\<rparr>,
     fe_hub = \<lparr>participantId = ''hub'', signingAddress = ''0xH'', destination = sampleDest CHR ''h''\<rparr>,
     fe_challengeDuration = 300\<rparr>"

text \<open>A channel whose first state both have signed, and the chain with and without the money.\<close>

definition setupChannel :: stored_channel where
  "setupChannel = browserChannel\<lparr>csd_vars := [(browserRow 0 ''0xA'')
     \<lparr>signatures := [\<lparr>signature = ''sig0xA'', signer = ''0xA''\<rparr>, \<lparr>signature = ''sig0xB'', signer = ''0xB''\<rparr>]\<rparr>]\<rparr>"

definition setupWorld :: "int \<Rightarrow> flow_world" where
  "setupWorld held = \<lparr>fw_store = sampleStore\<lparr>bs_channels := [(sampleDest CHR ''l'', setupChannel)]\<rparr>,
     fw_chain = (\<lambda>_. liveInfo\<lparr>ci_amount := held\<rparr>)\<rparr>"

lemma flow_move:
  assumes "flow_run step init h m" and "step w m m' s'"
  shows "\<exists>h'. flow_run step init h' m'"
proof -
  have "flow_run step init (h @ [w]) m" using assms(1) by (rule flow_run.world)
  from flow_run.move [OF this, of m' s'] assms(2) show ?thesis by auto
qed

lemma setup_entry: "entryIn (fw_store (setupWorld n)) (sampleDest CHR ''l'') = Inr (newEntry setupChannel)"
  by (simp add: entryIn_def setupWorld_def getChannel_def)

theorem postfund_signed_only_when_funded_witness:
  "\<exists>h st. flow_run (create_step sampleFlowEnv (sampleDest CHR ''l'') Direct) GetPreFund h (SupportPostFund st) \<and>
     channelFunded samplePlatform (sampleDest CHR ''l'') Direct h"
proof -
  let ?step = "create_step sampleFlowEnv (sampleDest CHR ''l'') Direct"
  have P: "fe_platform sampleFlowEnv = samplePlatform" by (simp add: sampleFlowEnv_def)
  have "getPreFundSetup (newEntry setupChannel) \<noteq> None" "getPostFundSetup (newEntry setupChannel) \<noteq> None" by code_simp+
  then obtain st0 st3 where st: "getPreFundSetup (newEntry setupChannel) = Some st0"
    "getPostFundSetup (newEntry setupChannel) = Some st3" by auto
  have "stateSupported samplePlatform (the (getPreFundSetup (newEntry setupChannel))) (fw_store (setupWorld 0))"
    by code_simp
  then have sup: "stateSupported (fe_platform sampleFlowEnv) st0 (fw_store (setupWorld 0))" by (simp add: st P)
  define i where "i = projr (createDepositingInfo (fw_store (setupWorld 0)) (sampleDest CHR ''l''))"
  have "\<not> isl (createDepositingInfo (fw_store (setupWorld 0)) (sampleDest CHR ''l''))" by code_simp
  then have i: "createDepositingInfo (fw_store (setupWorld 0)) (sampleDest CHR ''l'') = Inr i"
    by (cases "createDepositingInfo (fw_store (setupWorld 0)) (sampleDest CHR ''l'')") (simp_all add: i_def)
  have ev: "depositEvent i (ci_amount (fw_chain (setupWorld 10) (sampleDest CHR ''l''))) = Some Funded"
    unfolding i_def by code_simp
  let ?d = "setFunding (fe_platform sampleFlowEnv) (sampleDest CHR ''l'') DirectFunding (fw_store (setupWorld 10))"
  have "\<not> isl (snd ?d)" by code_simp
  then have d: "?d = (fst ?d, Inr ())" by (cases ?d; cases "snd ?d") auto
  have "flow_run ?step GetPreFund [setupWorld 0] GetPreFund" by (rule flow_run.start)
  from flow_move [OF this create_step.prefund [OF setup_entry st(1)]]
  obtain h1 where "flow_run ?step GetPreFund h1 (SupportPreFund st0)" by blast
  from flow_move [OF this create_step.direct [OF sup]]
  obtain h2 where "flow_run ?step GetPreFund h2 GetDepositingInfo" by blast
  from flow_move [OF this create_step.info [OF i]]
  obtain h3 where "flow_run ?step GetPreFund h3 (Depositing i DepIdle)" by blast
  from flow_move [OF this create_step.report [OF ev]]
  obtain h4 where "flow_run ?step GetPreFund h4 SetFundingDirect" by auto
  from flow_move [OF this create_step.set_direct [OF d]]
  obtain h5 where "flow_run ?step GetPreFund h5 GetPostFund" by blast
  from flow_move [OF this create_step.postfund [OF setup_entry st(2)]]
  obtain h where run: "flow_run ?step GetPreFund h (SupportPostFund st3)" by blast
  from postfund_signed_only_when_funded [OF run] run show ?thesis unfolding P by blast
qed

end
