(* ===== verification/BrowserMessaging.thy ===== *)
theory BrowserMessaging
  imports BrowserWallet
begin

text \<open>
  \<open>packages/browser-wallet/src/messaging.ts\<close>: the requests of the application, what becomes of each, and
  what is sent back; with the budgets of \<open>packages/wallet-core/src/serde/app-messages/\<close>. The schemas by
  which requests, responses and messages are checked are generated code and arguments here. Requests
  are read as their parser leaves them.
\<close>

section \<open>Budgets of the application\<close>

record token_budget =
  tb_asset :: address
  tb_availableReceiveCapacity :: uint256
  tb_availableSendCapacity :: uint256
  tb_channels :: "(bytes32 \<times> uint256) list"

record app_domain_budget =
  adb_domain :: string
  adb_hubAddress :: address
  adb_budgets :: "token_budget list"

text \<open>\<open>asset || AddressZero\<close>\<close>

definition assetOrZero :: "address \<Rightarrow> address" where
  "assetOrZero a = (if a = [] then zeroAddress else a)"

text \<open>The channels are formatted first, then the capacity to receive and the one to send.\<close>

definition serializeTokenBudget :: "address \<times> asset_budget \<Rightarrow> token_budget result" where
  "serializeTokenBudget x =
     bindE (mapE (\<lambda>(c, n). bindE (formatAmount n) (\<lambda>n'. Inr (c, n'))) (ab_channels (snd x))) (\<lambda>cs.
     bindE (formatAmount (ab_availableReceiveCapacity (snd x))) (\<lambda>receive.
     bindE (formatAmount (ab_availableSendCapacity (snd x))) (\<lambda>send.
       Inr \<lparr>tb_asset = assetOrZero (fst x), tb_availableReceiveCapacity = receive,
            tb_availableSendCapacity = send, tb_channels = cs\<rparr>)))"

definition serializeDomainBudget :: "domain_budget \<Rightarrow> app_domain_budget result" where
  "serializeDomainBudget b =
     bindE (mapE serializeTokenBudget (bud_forAsset b)) (\<lambda>bs.
       Inr \<lparr>adb_domain = bud_domain b, adb_hubAddress = bud_hubAddress b, adb_budgets = bs\<rparr>)"

text \<open>Assigning the entries one after the other to the keys of a new object.\<close>

definition recordOf :: "('a \<times> 'b) list \<Rightarrow> ('a \<times> 'b) list" where
  "recordOf xs = fold (\<lambda>(k, v). AList.update k v) xs []"

definition deserializeTokenBudget :: "token_budget \<Rightarrow> asset_budget" where
  "deserializeTokenBudget t =
     \<lparr>ab_asset = assetOrZero (tb_asset t),
      ab_availableReceiveCapacity = tb_availableReceiveCapacity t,
      ab_availableSendCapacity = tb_availableSendCapacity t,
      ab_channels = recordOf (tb_channels t)\<rparr>"

definition deserializeDomainBudget :: "app_domain_budget \<Rightarrow> domain_budget" where
  "deserializeDomainBudget b =
     \<lparr>bud_domain = adb_domain b, bud_hubAddress = adb_hubAddress b,
      bud_forAsset = recordOf (map (\<lambda>a. (ab_asset a, a)) (map deserializeTokenBudget (adb_budgets b)))\<rparr>"

record budget_request =
  br_hub :: participant
  br_playerParticipantId :: string
  br_asset :: address
  br_requestedSendCapacity :: uint256
  br_requestedReceiveCapacity :: uint256

text \<open>The asset of the request is not looked at.\<close>

definition deserializeBudgetRequest :: "budget_request \<Rightarrow> string \<Rightarrow> domain_budget" where
  "deserializeBudgetRequest r domain =
     \<lparr>bud_domain = domain, bud_hubAddress = signingAddress (br_hub r),
      bud_forAsset = [(zeroAddress,
        \<lparr>ab_asset = zeroAddress, ab_availableReceiveCapacity = br_requestedReceiveCapacity r,
         ab_availableSendCapacity = br_requestedSendCapacity r, ab_channels = []\<rparr>)]\<rparr>"

section \<open>Requests\<close>

record create_channel_params =
  cp_participants :: "participant list"
  cp_allocations :: "app_allocation list"
  cp_appDefinition :: address
  cp_appData :: string
  cp_fundingStrategy :: funding_strategy

datatype app_request =
    GetWalletInformation
  | EnableEthereum
  | GetChannels bool
  | ChallengeChannelRequest bytes32
  | CreateChannelRequest create_channel_params
  | UpdateChannelRequest bytes32 "app_allocation list" string
  | CloseChannelRequest bytes32
  | JoinChannelRequest bytes32
  | ApproveBudgetAndFundRequest budget_request
  | CloseAndWithdrawRequest string
  | PushMessageRequest wire_message
  | GetBudget
  | GetStateRequest
  | SyncChannelRequest

section \<open>Events for the wallet\<close>

record create_channel_event =
  cce_participants :: "participant list"
  cce_outcome :: outcome
  cce_appDefinition :: address
  cce_appData :: string
  cce_challengeDuration :: int
  cce_chainId :: string
  cce_applicationDomain :: string
  cce_fundingStrategy :: funding_strategy

datatype app_event =
    PlayerRequestChallenge int bytes32
  | PlayerRequestConclude int bytes32
  | PlayerStateUpdate int bytes32 outcome string
  | CreateChannelEvent int create_channel_event
  | JoinChannelEvent int bytes32 string
  | ApproveBudgetAndFundEvent int domain_budget participant participant
  | EnableEthereumEvent int
  | CloseAndWithdrawEvent int participant participant string

section \<open>What is sent to the application\<close>

record wallet_information =
  wi_signingAddress :: "address option"
  wi_destinationAddress :: "string option"
  wi_walletVersion :: string

datatype response_result =
    WalletInformation wallet_information
  | Channels "channel_result list"
  | ChannelResponse channel_result
  | BudgetResponse "app_domain_budget option"
  | Success

datatype wallet_output =
    Response int response_result
  | ErrorResponse int int string
  | BudgetUpdated app_domain_budget
  | ChannelNotification string channel_result
  | MessageQueued wire_message
  | UIUpdate bool

record messaging =
  ms_store :: browser_store
  ms_sent :: "wallet_output list"
  ms_requests :: "app_event list"

text \<open>
  The configuration, the validators, whether the page's provider is enabled, and which objects of a
  payload are one and the same: the numbers of its participants, those of the objectives first.
\<close>

record messaging_env =
  me_browser :: browser_env
  me_version :: string
  me_walletVersion :: string
  me_hubParticipantId :: string
  me_hubAddress :: address
  me_challengeDuration :: int
  me_validResponse :: "int \<Rightarrow> response_result \<Rightarrow> bool"
  me_validMessage :: "wire_message \<Rightarrow> bool"
  me_ethereumIsEnabled :: bool
  me_objectIds :: "payload \<Rightarrow> nat list"

abbreviation me_platform :: "messaging_env \<Rightarrow> platform" where
  "me_platform M \<equiv> be_platform (me_browser M)"

type_synonym 'a mio = "messaging \<Rightarrow> messaging \<times> 'a result"

definition bindM :: "'a mio \<Rightarrow> ('a \<Rightarrow> 'b mio) \<Rightarrow> 'b mio" where
  "bindM m f s = (case m s of (s1, Inl e) \<Rightarrow> (s1, Inl e) | (s1, Inr x) \<Rightarrow> f x s1)"

definition readM :: "(browser_store \<Rightarrow> 'a result) \<Rightarrow> 'a mio" where
  "readM f s = (s, f (ms_store s))"

definition runStore :: "'a bio \<Rightarrow> 'a mio" where
  "runStore m s = (case m (ms_store s) of (st, r) \<Rightarrow> (s\<lparr>ms_store := st\<rparr>, r))"

definition sendM :: "wallet_output \<Rightarrow> unit mio" where
  "sendM x s = (s\<lparr>ms_sent := ms_sent s @ [x]\<rparr>, Inr ())"

definition emitRequest :: "app_event \<Rightarrow> unit mio" where
  "emitRequest ev s = (s\<lparr>ms_requests := ms_requests s @ [ev]\<rparr>, Inr ())"

definition invalidResponse :: error where
  "invalidResponse = Error ''Validation Error''"

definition sendResponse :: "messaging_env \<Rightarrow> int \<Rightarrow> response_result \<Rightarrow> unit mio" where
  "sendResponse M i r s =
     (if me_validResponse M i r then sendM (Response i r) s else (s, Inl invalidResponse))"

definition sendError :: "int \<Rightarrow> int \<Rightarrow> string \<Rightarrow> unit mio" where
  "sendError i code msg = sendM (ErrorResponse i code msg)"

definition sendBudgetNotification :: "domain_budget \<Rightarrow> unit mio" where
  "sendBudgetNotification b = bindM (readM (\<lambda>_. serializeDomainBudget b)) (\<lambda>w. sendM (BudgetUpdated w))"

definition sendChannelNotification :: "string \<Rightarrow> channel_result \<Rightarrow> unit mio" where
  "sendChannelNotification method r = sendM (ChannelNotification method r)"

definition sendDisplayMessage :: "bool \<Rightarrow> unit mio" where
  "sendDisplayMessage showWallet = sendM (UIUpdate showWallet)"

section \<open>Messages to the other participants\<close>

text \<open>The participants of all objectives, then those of all states, one after the other.\<close>

definition payloadParticipants :: "payload \<Rightarrow> participant list" where
  "payloadParticipants m =
     concat (map objectiveParticipants (case objectives m of None \<Rightarrow> [] | Some os \<Rightarrow> os)) @
     concat (map participants (case signedStates m of None \<Rightarrow> [] | Some ss \<Rightarrow> ss))"

text \<open>A \<open>Set\<close> of objects tells them apart by identity; it keeps the first occurrence of each.\<close>

fun distinctObjects :: "(nat \<times> 'a) list \<Rightarrow> 'a list" where
  "distinctObjects [] = []"
| "distinctObjects ((i, x) # rest) = x # distinctObjects (filter (\<lambda>(j, _). j \<noteq> i) rest)"

definition filteredRecipients :: "nat list \<Rightarrow> address option \<Rightarrow> payload \<Rightarrow> string list" where
  "filteredRecipients ids me m =
     map participantId
       (filter (\<lambda>p. Some (signingAddress p) \<noteq> me) (distinctObjects (zip ids (payloadParticipants m))))"

fun queueNotifications :: "messaging_env \<Rightarrow> payload \<Rightarrow> string option \<Rightarrow> string list \<Rightarrow> unit mio" where
  "queueNotifications M m me [] s = (s, Inr ())"
| "queueNotifications M m me (to # tos) s =
     (case serializeMessage (me_platform M) (me_walletVersion M) m to me None of
        Inl e \<Rightarrow> (s, Inl e)
      | Inr w \<Rightarrow>
          if me_validMessage M w then queueNotifications M m me tos (fst (sendM (MessageQueued w) s))
          else (s, Inl (Error ''Validation Error'')))"

definition sendMessageNotification :: "messaging_env \<Rightarrow> payload \<Rightarrow> unit mio" where
  "sendMessageNotification M m =
     bindM (readM (\<lambda>s. Inr (storeAddress s))) (\<lambda>me.
       queueNotifications M m me (filteredRecipients (me_objectIds M m) me m))"

section \<open>From requests to events\<close>

definition supportedFundingStrategyOrThrow :: "funding_strategy \<Rightarrow> funding_strategy result" where
  "supportedFundingStrategyOrThrow fs =
     (if fs \<noteq> Fake \<and> fs \<noteq> UnknownStrategy then Inr fs else Inl (Error ''Unsupported funding strategy''))"

definition noDestination :: error where
  "noDestination = Error ''No selected destination''"

definition onlySimpleEth :: error where
  "onlySimpleEth = Error ''Currently only a simple ETH allocation is supported''"

text \<open>The participant a store stands for; without a key it has no address, which \<open>makeAddress\<close> refuses.\<close>

definition playerFor :: "messaging_env \<Rightarrow> string option \<Rightarrow> browser_store \<Rightarrow> string \<Rightarrow> participant result" where
  "playerFor M pid s dest =
     (case storeAddress s of
        None \<Rightarrow> Inl TypeError
      | Some a \<Rightarrow>
          convertToInternalParticipant (ethersLib (me_platform M))
            \<lparr>participantId = (case pid of None \<Rightarrow> a | Some p \<Rightarrow> p), signingAddress = a, destination = dest\<rparr>)"

definition destinationOf :: "browser_store \<Rightarrow> string result" where
  "destinationOf s =
     (case bs_destinationAddress s of None \<Rightarrow> Inl noDestination | Some d \<Rightarrow> if d = [] then Inl noDestination else Inr d)"

fun convertToInternalEvent ::
  "messaging_env \<Rightarrow> int \<Rightarrow> string \<Rightarrow> app_request \<Rightarrow> browser_store \<Rightarrow> app_event option result" where
  "convertToInternalEvent M i domain (ChallengeChannelRequest cid) s = Inr (Some (PlayerRequestChallenge i cid))"
| "convertToInternalEvent M i domain (CloseAndWithdrawRequest hubId) s =
     bindE (destinationOf s) (\<lambda>d.
     if \<not> (hubId \<noteq> me_hubParticipantId M)
     then Inl (Error (''You may only closeAndWithdraw for hub with id '' @ me_hubParticipantId M))
     else
       bindE (playerFor M None s d) (\<lambda>player.
       bindE (convertToInternalParticipant (ethersLib (me_platform M))
           \<lparr>participantId = hubId, signingAddress = me_hubAddress M,
            destination = be_hubDestination (me_browser M)\<rparr>) (\<lambda>hub.
         Inr (Some (CloseAndWithdrawEvent i player hub domain)))))"
| "convertToInternalEvent M i domain (ApproveBudgetAndFundRequest r) s =
     bindE (destinationOf s) (\<lambda>d.
     bindE (playerFor M (Some (br_playerParticipantId r)) s d) (\<lambda>player.
     bindE (convertToInternalParticipant (ethersLib (me_platform M)) (br_hub r)) (\<lambda>hub.
       Inr (Some (ApproveBudgetAndFundEvent i (deserializeBudgetRequest r domain) player hub)))))"
| "convertToInternalEvent M i domain (CloseChannelRequest cid) s = Inr (Some (PlayerRequestConclude i cid))"
| "convertToInternalEvent M i domain (CreateChannelRequest p) s =
     bindE (deserializeAllocations (ethersLib (me_platform M)) (cp_allocations p)) (\<lambda>o'.
     if \<not> isSimpleEthAllocation o' then Inl onlySimpleEth
     else
       bindE (supportedFundingStrategyOrThrow (cp_fundingStrategy p)) (\<lambda>fs.
       bindE (mapE (convertToInternalParticipant (ethersLib (me_platform M))) (cp_participants p)) (\<lambda>ps.
         Inr (Some (CreateChannelEvent i
           \<lparr>cce_participants = ps, cce_outcome = o', cce_appDefinition = cp_appDefinition p,
            cce_appData = cp_appData p, cce_challengeDuration = me_challengeDuration M,
            cce_chainId = be_chainNetworkId (me_browser M), cce_applicationDomain = domain,
            cce_fundingStrategy = fs\<rparr>)))))"
| "convertToInternalEvent M i domain (JoinChannelRequest cid) s = Inr (Some (JoinChannelEvent i cid domain))"
| "convertToInternalEvent M i domain (UpdateChannelRequest cid as data) s =
     bindE (deserializeAllocations (ethersLib (me_platform M)) as) (\<lambda>o'.
     if \<not> isSimpleEthAllocation o' then Inl onlySimpleEth
     else Inr (Some (PlayerStateUpdate i cid o' data)))"
| "convertToInternalEvent M i domain _ s = Inr None"

section \<open>Receiving a request\<close>

definition walletInformation :: "messaging_env \<Rightarrow> browser_store \<Rightarrow> wallet_information" where
  "walletInformation M s =
     \<lparr>wi_signingAddress = storeAddress s, wi_destinationAddress = bs_destinationAddress s,
      wi_walletVersion = me_version M\<rparr>"

fun receiveRequest :: "messaging_env \<Rightarrow> int \<Rightarrow> app_request \<Rightarrow> string \<Rightarrow> unit mio" where
  "receiveRequest M i GetWalletInformation domain =
     bindM (readM (\<lambda>s. Inr (WalletInformation (walletInformation M s)))) (sendResponse M i)"
| "receiveRequest M i EnableEthereum domain =
     bindM (readM (\<lambda>s. Inr s)) (\<lambda>s.
       if me_ethereumIsEnabled M \<and> \<not> isl (destinationOf s)
       then sendResponse M i (WalletInformation (walletInformation M s))
       else emitRequest (EnableEthereumEvent i))"
| "receiveRequest M i (GetChannels includeClosed) domain =
     bindM (readM (\<lambda>s.
         mapE (serializeChannelEntry (me_platform M)) (getApplicationChannels (me_platform M) domain includeClosed s)))
       (\<lambda>rs. sendResponse M i (Channels rs))"
| "receiveRequest M i (PushMessageRequest m) domain =
     (\<lambda>s. if \<not> me_validMessage M m then (s, Inl (Error ''Validation Error''))
          else if Some (recipient m) \<noteq> storeAddress (ms_store s)
          then (s, Inl (Error ''Received message not addressed to us''))
          else bindM (readM (\<lambda>_. deserializeMessage (me_platform M) m)) (\<lambda>p.
               bindM (runStore (browserPushMessage (me_browser M) p)) (\<lambda>_. sendResponse M i Success)) s)"
| "receiveRequest M i GetBudget domain =
     bindM (readM (\<lambda>s. mapOptionE serializeDomainBudget (bs_budgets s domain))) (\<lambda>b.
       sendResponse M i (BudgetResponse b))"
| "receiveRequest M i GetStateRequest domain = (\<lambda>s. (s, Inr ()))"
| "receiveRequest M i SyncChannelRequest domain = (\<lambda>s. (s, Inr ()))"
| "receiveRequest M i r domain =
     bindM (readM (convertToInternalEvent M i domain r)) (\<lambda>ev.
       case ev of None \<Rightarrow> (\<lambda>s. (s, Inr ())) | Some e \<Rightarrow> emitRequest e)"

end
