(* ===== verification/BrowserApproval.thy ===== *)
theory BrowserApproval
  imports BrowserFlows BrowserMessaging
begin

text \<open>
  \<open>approve-budget-and-fund.ts\<close>, \<open>create-and-fund-ledger.ts\<close>, \<open>ethereum-enable.ts\<close> and \<open>confirm.ts\<close> under
  \<open>packages/browser-wallet/src/workflows/\<close>: what a wallet does when the application asks for a budget
  and for an address. The user's answers are steps that are always possible.
\<close>

section \<open>Depositing into the ledger\<close>

text \<open>The state \<open>retry\<close> is left out: nothing leads to it.\<close>

datatype budget_deposit =
    BdInit | BdWaitTurn | BdSubmit uint256 | BdWaitMining | BdWaitFullyFunded

definition fullAmountConfirmed :: "deposit_info \<Rightarrow> uint256 \<Rightarrow> bool" where
  "fullAmountConfirmed i balance \<longleftrightarrow> balance \<ge> di_fundedAt i"

definition myTurnNow :: "deposit_info \<Rightarrow> uint256 \<Rightarrow> bool" where
  "myTurnNow i balance \<longleftrightarrow> balance \<ge> di_depositAt i \<and> balance < di_totalAfterDeposit i"

definition notMyTurnYet :: "deposit_info \<Rightarrow> uint256 \<Rightarrow> bool" where
  "notMyTurnYet i balance \<longleftrightarrow> balance < di_depositAt i"

definition myAmountConfirmed :: "deposit_info \<Rightarrow> uint256 \<Rightarrow> bool" where
  "myAmountConfirmed i balance \<longleftrightarrow> balance \<ge> di_totalAfterDeposit i \<and> balance < di_fundedAt i"

text \<open>The transitions of the state \<open>deposit\<close> itself; None leads on to the budget.\<close>

definition budgetDepositRoot :: "deposit_info \<Rightarrow> budget_deposit \<Rightarrow> uint256 \<Rightarrow> budget_deposit option" where
  "budgetDepositRoot i st balance =
     (if fullAmountConfirmed i balance then None
      else if myAmountConfirmed i balance then Some BdWaitFullyFunded
      else Some st)"

text \<open>The substates come first.\<close>

fun budgetDepositStep :: "deposit_info \<Rightarrow> budget_deposit \<Rightarrow> uint256 \<Rightarrow> budget_deposit option" where
  "budgetDepositStep i BdInit balance =
     (if myTurnNow i balance then Some (BdSubmit balance)
      else if notMyTurnYet i balance then Some BdWaitTurn
      else budgetDepositRoot i BdInit balance)"
| "budgetDepositStep i BdWaitTurn balance =
     (if myTurnNow i balance then Some (BdSubmit balance) else budgetDepositRoot i BdWaitTurn balance)"
| "budgetDepositStep i st balance = budgetDepositRoot i st balance"

definition submitBudgetDeposit :: "deposit_info \<Rightarrow> uint256 \<Rightarrow> (bytes32 \<times> uint256 \<times> uint256) result" where
  "submitBudgetDeposit i ledgerTotal =
     (let n = di_totalAfterDeposit i - ledgerTotal in
      if n \<le> 0 then Inl (Error ''Something is wrong!'')
      else Inr (di_channelId i, ledgerTotal, n))"

datatype budget_event = BalanceReport uint256 | DepositSent

text \<open>The amounts a run sends to the chain, one for every time it enters \<open>submitTransaction\<close>.\<close>

fun budgetDeposits :: "deposit_info \<Rightarrow> budget_deposit \<Rightarrow> budget_event list \<Rightarrow> uint256 list" where
  "budgetDeposits i st [] = []"
| "budgetDeposits i st (DepositSent # evs) =
     budgetDeposits i (case st of BdSubmit n \<Rightarrow> BdWaitMining | _ \<Rightarrow> st) evs"
| "budgetDeposits i st (BalanceReport balance # evs) =
     (case budgetDepositStep i st balance of
        None \<Rightarrow> []
      | Some st' \<Rightarrow>
          (case st' of
             BdSubmit n \<Rightarrow> if st = st' then [] else [di_totalAfterDeposit i - n]
           | _ \<Rightarrow> []) @ budgetDeposits i st' evs)"

section \<open>Approving a budget\<close>

datatype ab_state =
    AbUserApproval | AbFundsInit | AbWaitForFunds | AbCreateLedger | AbWaitForPreFS bytes32 state
  | AbDeposit bytes32 deposit_info budget_deposit | AbCreateBudget bytes32 deposit_info
  | AbDone bytes32 deposit_info | AbFailure

definition ethBudget :: "domain_budget \<Rightarrow> asset_budget result" where
  "ethBudget b =
     (case map_of (bud_forAsset b) zeroAddress of
        None \<Rightarrow> Inl (Error ''not valid, exists failed on undefined'') | Some ab \<Rightarrow> Inr ab)"

definition createLedger :: "flow_env \<Rightarrow> domain_budget \<Rightarrow> participant \<Rightarrow> participant \<Rightarrow> (bytes32 \<times> state) bio" where
  "createLedger F b player hub =
     (let P = fe_platform F; ps = [player, hub] in
      bindB (liftB (convertPendingBudgetToAllocation b player hub)) (\<lambda>o'.
      bindB (browserCreateChannel (fe_browser F) ps (fe_challengeDuration F)
          \<lparr>v_outcome = o', v_turnNum = 0, v_appData = ''0x00'', v_isFinal = False\<rparr> zeroAddress None) (\<lambda>e.
      let ledger = entryChannelId P e in
      bindB (setFunding P ledger DirectFunding) (\<lambda>_.
      bindB (browserSetLedger P ledger) (\<lambda>_.
      bindB (setapplicationDomain ledger (bud_domain b)) (\<lambda>_.
      bindB (addObjective (FundLedger ps ledger)) (\<lambda>_.
        case entryLatest e of
          None \<Rightarrow> throwB TypeError
        | Some st \<Rightarrow> returnB (ledger, state.truncate st))))))))"

inductive approve_step ::
  "flow_env \<Rightarrow> domain_budget \<Rightarrow> participant \<Rightarrow> participant \<Rightarrow> flow_world \<Rightarrow> ab_state \<Rightarrow> ab_state \<Rightarrow> browser_store \<Rightarrow> bool"
  for F :: flow_env and b :: domain_budget and player :: participant and hub :: participant and w :: flow_world where
  approved: "approve_step F b player hub w AbUserApproval AbFundsInit (fw_store w)"
| rejected: "approve_step F b player hub w AbUserApproval AbFailure (fw_store w)"
| too_little: "ethBudget b = Inr ab \<Longrightarrow> m = AbFundsInit \<or> m = AbWaitForFunds \<Longrightarrow>
     balance < ab_availableSendCapacity ab \<Longrightarrow> approve_step F b player hub w m AbWaitForFunds (fw_store w)"
| enough: "ethBudget b = Inr ab \<Longrightarrow> m = AbFundsInit \<or> m = AbWaitForFunds \<Longrightarrow>
     balance \<ge> ab_availableSendCapacity ab \<Longrightarrow> approve_step F b player hub w m AbCreateLedger (fw_store w)"
| created: "createLedger F b player hub (fw_store w) = (s', Inr (ledger, st)) \<Longrightarrow>
     approve_step F b player hub w AbCreateLedger (AbWaitForPreFS ledger st) s'"
| prefund: "entryIn (fw_store w) ledger = Inr e \<Longrightarrow> entrySupported e = Inr sup' \<Longrightarrow>
     statesEqual (fe_platform F) st sup' \<Longrightarrow> calculateDepositInfo ledger b = Inr i \<Longrightarrow>
     approve_step F b player hub w (AbWaitForPreFS ledger st) (AbDeposit ledger i BdInit) (fw_store w)"
| report: "budgetDepositStep i d (ci_amount (fw_chain w ledger)) = Some d' \<Longrightarrow>
     approve_step F b player hub w (AbDeposit ledger i d) (AbDeposit ledger i d') (fw_store w)"
| funded: "budgetDepositStep i d (ci_amount (fw_chain w ledger)) = None \<Longrightarrow>
     approve_step F b player hub w (AbDeposit ledger i d) (AbCreateBudget ledger i) (fw_store w)"
| sent: "submitBudgetDeposit i n = Inr t \<Longrightarrow>
     approve_step F b player hub w (AbDeposit ledger i (BdSubmit n)) (AbDeposit ledger i BdWaitMining) (fw_store w)"
| budget: "createBudget b (fw_store w) = (s', Inr ()) \<Longrightarrow>
     approve_step F b player hub w (AbCreateBudget ledger i) (AbDone ledger i) s'"

section \<open>Creating and funding a ledger\<close>

datatype fl_state =
    IsChannelIdDefined | InitializeLedger | CreateLedgerObjective bytes32 | GetPreFundState bytes32
  | SupportPreFundState bytes32 state | LedgerDepositInfo bytes32 | LedgerDepositing bytes32 deposit_info dep_state
  | LedgerCreated

definition initializeLedger :: "flow_env \<Rightarrow> participant list \<Rightarrow> simple_allocation \<Rightarrow> bytes32 bio" where
  "initializeLedger F ps o' =
     (let P = fe_platform F in
      bindB (browserCreateChannel (fe_browser F) ps (fe_challengeDuration F)
          \<lparr>v_outcome = SimpleAllocation o', v_turnNum = 0, v_appData = ''0x00'', v_isFinal = False\<rparr> zeroAddress None)
        (\<lambda>e.
      bindB (setFunding P (entryChannelId P e) DirectFunding) (\<lambda>_.
      bindB (browserSetLedger P (entryChannelId P e)) (\<lambda>_. returnB (entryChannelId P e)))))"

definition getPreFundState :: "browser_store \<Rightarrow> bytes32 \<Rightarrow> state result" where
  "getPreFundState s ledger =
     bindE (entryIn s ledger) (\<lambda>e. case entryLatest e of None \<Rightarrow> Inl TypeError | Some st \<Rightarrow> Inr (state.truncate st))"

inductive fund_ledger_step ::
  "flow_env \<Rightarrow> participant list \<Rightarrow> simple_allocation \<Rightarrow> bytes32 option \<Rightarrow> flow_world \<Rightarrow> fl_state \<Rightarrow> fl_state \<Rightarrow>
   browser_store \<Rightarrow> bool"
  for F :: flow_env and ps :: "participant list" and o' :: simple_allocation and known :: "bytes32 option"
    and w :: flow_world where
  has_id: "known = Some ledger \<Longrightarrow> ledger \<noteq> [] \<Longrightarrow>
     fund_ledger_step F ps o' known w IsChannelIdDefined (GetPreFundState ledger) (fw_store w)"
| no_id: "known = None \<or> known = Some [] \<Longrightarrow>
     fund_ledger_step F ps o' known w IsChannelIdDefined InitializeLedger (fw_store w)"
| initialized: "initializeLedger F ps o' (fw_store w) = (s', Inr ledger) \<Longrightarrow>
     fund_ledger_step F ps o' known w InitializeLedger (CreateLedgerObjective ledger) s'"
| objective: "fund_ledger_step F ps o' known w (CreateLedgerObjective ledger) (GetPreFundState ledger)
     (fst (addObjective (FundLedger ps ledger) (fw_store w)))"
| prefund: "getPreFundState (fw_store w) ledger = Inr st \<Longrightarrow>
     fund_ledger_step F ps o' known w (GetPreFundState ledger) (SupportPreFundState ledger st)
       (askSupport (fe_platform F) st (fw_store w))"
| supported: "stateSupported (fe_platform F) st (fw_store w) \<Longrightarrow>
     fund_ledger_step F ps o' known w (SupportPreFundState ledger st) (LedgerDepositInfo ledger) (fw_store w)"
| info: "ledgerDepositingInfo (fw_store w) ledger = Inr i \<Longrightarrow>
     fund_ledger_step F ps o' known w (LedgerDepositInfo ledger) (LedgerDepositing ledger i DepIdle) (fw_store w)"
| report: "depositEvent i (ci_amount (fw_chain w ledger)) = Some ev \<Longrightarrow>
     fund_ledger_step F ps o' known w (LedgerDepositing ledger i d)
       (if depositingStep d ev = DepDone then LedgerCreated else LedgerDepositing ledger i (depositingStep d ev))
       (fw_store w)"
| submitted: "fund_ledger_step F ps o' known w (LedgerDepositing ledger i DepSubmit) (LedgerDepositing ledger i DepIdle)
     (fw_store w)"
| failed: "fund_ledger_step F ps o' known w (LedgerDepositing ledger i DepSubmit)
     (LedgerDepositing ledger i DepFailure) (fw_store w)"

section \<open>Enabling the page's provider\<close>

datatype eth_state = ExplainToUser | Enabling | EthEnabled | EthFailure

datatype eth_event = UserApprovesEnable | UserRejectsEnable | ProviderAnswer "string result"

definition setDestinationAddressIfEmpty :: "string \<Rightarrow> string bio" where
  "setDestinationAddressIfEmpty enabled =
     (\<lambda>s. case bs_destinationAddress s of
        Some d \<Rightarrow> if d \<noteq> [] then (s, Inr d) else (s\<lparr>bs_destinationAddress := Some enabled\<rparr>, Inr enabled)
      | None \<Rightarrow> (s\<lparr>bs_destinationAddress := Some enabled\<rparr>, Inr enabled))"

definition sendEthResponse :: "messaging_env \<Rightarrow> int \<Rightarrow> messaging \<Rightarrow> messaging" where
  "sendEthResponse M i s =
     fst (bindM (readM (\<lambda>st. Inr (WalletInformation (walletInformation M st)))) (sendResponse M i)
       (fst (sendDisplayMessage False s)))"

definition sendEthError :: "int \<Rightarrow> messaging \<Rightarrow> messaging" where
  "sendEthError i s = fst (sendError i 100 ''Ethereum Not Enabled'' (fst (sendDisplayMessage False s)))"

text \<open>
  Setting the address follows the answer of the provider at once: over the memory backend its promise is
  not refused.
\<close>

fun ethStep :: "messaging_env \<Rightarrow> int \<Rightarrow> eth_state \<Rightarrow> eth_event \<Rightarrow> messaging \<Rightarrow> messaging \<times> eth_state" where
  "ethStep M i ExplainToUser UserApprovesEnable s = (s, Enabling)"
| "ethStep M i ExplainToUser UserRejectsEnable s = (sendEthError i s, EthFailure)"
| "ethStep M i Enabling (ProviderAnswer (Inl e)) s = (sendEthError i s, EthFailure)"
| "ethStep M i Enabling (ProviderAnswer (Inr a)) s =
     (sendEthResponse M i (fst (runStore (setDestinationAddressIfEmpty a) s)), EthEnabled)"
| "ethStep M i st ev s = (s, st)"

section \<open>Asking the user\<close>

datatype confirm_state = WaitForUserConfirmation | Confirmed | NotConfirmed

datatype confirm_event = UserApproves | UserRejects

fun confirmStep :: "confirm_state \<Rightarrow> confirm_event \<Rightarrow> confirm_state" where
  "confirmStep WaitForUserConfirmation UserApproves = Confirmed"
| "confirmStep WaitForUserConfirmation UserRejects = NotConfirmed"
| "confirmStep st ev = st"

end
