(* ===== verification/BrowserClosing.thy ===== *)
theory BrowserClosing
  imports BrowserFlows
begin

text \<open>
  The machines that end channels: \<open>challenge-channel.ts\<close>, \<open>virtual-defunding-as-leaf.ts\<close>,
  \<open>conclude-channel.ts\<close> and \<open>close-ledger-and-withdraw.ts\<close> under
  \<open>packages/browser-wallet/src/workflows/\<close>. As in the theory of the funding machines, a step reads the
  world and may change the store, and a promise that is refused without an \<open>onError\<close> leaves the machine
  where it is. What the page is told to show is left out.
\<close>

section \<open>Challenging\<close>

datatype challenge_state =
    ChallengeInit | SubmitChallengeTx | ChallengeRetry | ChallengeMining | WaitForResponseOrTimeout
  | ChallengeFinal | ChallengeFailed

datatype challenge_event =
    ChallengeChannelUpdated
  | ChainEvent chain_info
  | ChallengeSubmitted
  | UserApprovesRetry
  | UserRejectsRetry
  | OtherEvent

definition noChallengeOnchain :: "chain_info \<Rightarrow> bool" where
  "noChallengeOnchain i \<longleftrightarrow> ci_finalizesAt i = 0"

definition challengeOnchainAsExpected :: "chain_info \<Rightarrow> bool" where
  "challengeOnchainAsExpected i \<longleftrightarrow> ci_finalizesAt i > 0 \<and> \<not> ci_finalized i"

definition challengeFinalized :: "chain_info \<Rightarrow> bool" where
  "challengeFinalized i \<longleftrightarrow> ci_finalized i"

text \<open>The transitions at the root, which any state falls back to.\<close>

definition challengeRoot :: "challenge_state \<Rightarrow> chain_info \<Rightarrow> challenge_state" where
  "challengeRoot st i =
     (if challengeOnchainAsExpected i then WaitForResponseOrTimeout
      else if challengeFinalized i then ChallengeFinal
      else st)"

text \<open>
  The machine is strict: it throws when it is sent an event that it has no transition for anywhere. A
  machine in a final state has stopped. The answer to a transaction that is no longer waited for is
  dropped.
\<close>

fun challengeStep :: "challenge_state \<Rightarrow> challenge_event \<Rightarrow> challenge_state result" where
  "challengeStep ChallengeFinal ev = Inr ChallengeFinal"
| "challengeStep ChallengeFailed ev = Inr ChallengeFailed"
| "challengeStep st OtherEvent = Inl (Error ''Machine 'challenge-channel' does not accept event'')"
| "challengeStep ChallengeInit (ChainEvent i) =
     Inr (if noChallengeOnchain i then SubmitChallengeTx else challengeRoot ChallengeInit i)"
| "challengeStep st (ChainEvent i) = Inr (challengeRoot st i)"
| "challengeStep SubmitChallengeTx ChallengeSubmitted = Inr ChallengeMining"
| "challengeStep ChallengeRetry UserApprovesRetry = Inr SubmitChallengeTx"
| "challengeStep ChallengeRetry UserRejectsRetry = Inr ChallengeFailed"
| "challengeStep st ev = Inr st"

text \<open>The transaction that is sent on entering \<open>submitTransaction\<close>.\<close>

definition submitChallengeTransaction :: "platform \<Rightarrow> abi \<Rightarrow> bytes32 \<Rightarrow> browser_store \<Rightarrow> watcher_tx result" where
  "submitChallengeTransaction P A cid s =
     bindE (entryIn s cid) (\<lambda>e.
     bindE (entryAddress e) (\<lambda>a.
     bindE (getPrivateKey a s) (watcherChallenge P A (entrySupport e))))"

text \<open>A run, with the number of transactions sent; an event that is thrown on changes nothing.\<close>

fun challengeRun :: "challenge_state \<Rightarrow> challenge_event list \<Rightarrow> challenge_state \<times> nat" where
  "challengeRun st [] = (st, 0)"
| "challengeRun st (ev # evs) =
     (case challengeStep st ev of
        Inl _ \<Rightarrow> challengeRun st evs
      | Inr st' \<Rightarrow>
          (case challengeRun st' evs of
             (st'', n) \<Rightarrow> (st'', if st' = SubmitChallengeTx \<and> st \<noteq> SubmitChallengeTx then Suc n else n)))"

section \<open>Virtual defunding as a leaf\<close>

datatype vd_state =
    CheckChannels | CloseTarget channel_ids | SupportFinalTarget channel_ids state
  | DefundTarget channel_ids | SupportFinalJoint channel_ids state
  | AcquireLedgerLock channel_ids | DefundInLedger channel_ids | SupportLedgerUpdate channel_ids state
  | ReleaseFromBudget channel_ids | VirtuallyDefunded

inductive defund_step ::
  "browser_env \<Rightarrow> bytes32 \<Rightarrow> flow_world \<Rightarrow> vd_state \<Rightarrow> vd_state \<Rightarrow> browser_store \<Rightarrow> bool"
  for E :: browser_env and target :: bytes32 and w :: flow_world where
  channels: "checkChannelsService (fw_store w) target = Inr c \<Longrightarrow>
     defund_step E target w CheckChannels (CloseTarget c) (fw_store w)"
| final_target: "finalTargetState (fw_store w) target = Inr st \<Longrightarrow>
     defund_step E target w (CloseTarget c) (SupportFinalTarget c st) (askSupport (be_platform E) st (fw_store w))"
| target_closed: "stateSupported (be_platform E) st (fw_store w) \<Longrightarrow>
     defund_step E target w (SupportFinalTarget c st) (DefundTarget c) (fw_store w)"
| final_joint: "finalJointChannelUpdate (fw_store w) (id_joint c) target = Inr st \<Longrightarrow>
     defund_step E target w (DefundTarget c) (SupportFinalJoint c st) (askSupport (be_platform E) st (fw_store w))"
| joint_updated: "stateSupported (be_platform E) st (fw_store w) \<Longrightarrow>
     defund_step E target w (SupportFinalJoint c st) (AcquireLedgerLock c) (fw_store w)"
| locked: "defund_step E target w (AcquireLedgerLock c) (DefundInLedger c) (fw_store w)"
| ledger_update: "defundGuarantorInLedger (fw_store w) (fw_chain w (id_ledger c)) c = Inr st \<Longrightarrow>
     defund_step E target w (DefundInLedger c) (SupportLedgerUpdate c st) (askSupport (be_platform E) st (fw_store w))"
| ledger_updated: "stateSupported (be_platform E) st (fw_store w) \<Longrightarrow>
     defund_step E target w (SupportLedgerUpdate c st) (ReleaseFromBudget c) (fw_store w)"
| released: "releaseFunds E zeroAddress (id_ledger c) target (fw_store w) = (s', Inr b) \<Longrightarrow>
     defund_step E target w (ReleaseFromBudget c) VirtuallyDefunded s'"

section \<open>Concluding a channel\<close>

datatype cc_state =
    SigningFinalState | WaitForConclusionProof | DetermineFundingType
  | GettingRole | DefundingAsLeaf vd_state | DefundingAsHub
  | GettingWithdrawRole | SubmitWithdraw | WaitForWithdrawal | Concluded

definition participantHub :: int where
  "participantHub = 2"

text \<open>What the observer of the funds is told; it starts with the withdrawing state.\<close>

definition fundsWithdrawn :: "chain_info \<Rightarrow> bool" where
  "fundsWithdrawn i \<longleftrightarrow> ci_amount i = 0"

definition withdrawing :: "cc_state \<Rightarrow> bool" where
  "withdrawing m \<longleftrightarrow> m = GettingWithdrawRole \<or> m = SubmitWithdraw \<or> m = WaitForWithdrawal"

definition submitWithdrawTransaction :: "platform \<Rightarrow> abi \<Rightarrow> store_entry \<Rightarrow> watcher_tx result" where
  "submitWithdrawTransaction P A e =
     (if \<not> entryHasConclusionProof e then Inl (Error ''Channel is not finalized'')
      else watcherFinalizeAndWithdraw P A (entrySupport e))"

text \<open>No service is registered for the hub, which therefore stays in that state.\<close>

inductive conclude_step ::
  "browser_env \<Rightarrow> abi \<Rightarrow> bytes32 \<Rightarrow> flow_world \<Rightarrow> cc_state \<Rightarrow> cc_state \<Rightarrow> browser_store \<Rightarrow> bool"
  for E :: browser_env and A :: abi and cid :: bytes32 and w :: flow_world where
  signed: "browserSignFinalState (be_platform E) cid (fw_store w) = (s', Inr ()) \<Longrightarrow>
     conclude_step E A cid w SigningFinalState WaitForConclusionProof s'"
| proven: "entryIn (fw_store w) cid = Inr e \<Longrightarrow> entryHasConclusionProof e \<Longrightarrow>
     conclude_step E A cid w WaitForConclusionProof DetermineFundingType (fw_store w)"
| direct: "entryIn (fw_store w) cid = Inr e \<Longrightarrow> ce_funding e = Some DirectFunding \<Longrightarrow>
     conclude_step E A cid w DetermineFundingType GettingWithdrawRole (fw_store w)"
| virtual: "entryIn (fw_store w) cid = Inr e \<Longrightarrow> ce_funding e = Some (VirtualFunding joint) \<Longrightarrow>
     conclude_step E A cid w DetermineFundingType GettingRole (fw_store w)"
| as_hub: "entryIn (fw_store w) cid = Inr e \<Longrightarrow> ce_myIndex e = participantHub \<Longrightarrow>
     conclude_step E A cid w GettingRole DefundingAsHub (fw_store w)"
| as_leaf: "entryIn (fw_store w) cid = Inr e \<Longrightarrow> ce_myIndex e \<noteq> participantHub \<Longrightarrow>
     conclude_step E A cid w GettingRole (DefundingAsLeaf CheckChannels) (fw_store w)"
| defunding: "defund_step E cid w v v' s' \<Longrightarrow>
     conclude_step E A cid w (DefundingAsLeaf v)
       (if v' = VirtuallyDefunded then Concluded else DefundingAsLeaf v') s'"
| am_A: "entryIn (fw_store w) cid = Inr e \<Longrightarrow> ce_myIndex e = 0 \<Longrightarrow>
     conclude_step E A cid w GettingWithdrawRole SubmitWithdraw (fw_store w)"
| am_B: "entryIn (fw_store w) cid = Inr e \<Longrightarrow> ce_myIndex e \<noteq> 0 \<Longrightarrow>
     conclude_step E A cid w GettingWithdrawRole WaitForWithdrawal (fw_store w)"
| submitted: "entryIn (fw_store w) cid = Inr e \<Longrightarrow> submitWithdrawTransaction (be_platform E) A e = Inr t \<Longrightarrow>
     conclude_step E A cid w SubmitWithdraw WaitForWithdrawal (fw_store w)"
| withdrawn: "withdrawing m \<Longrightarrow> fundsWithdrawn (fw_chain w cid) \<Longrightarrow>
     conclude_step E A cid w m Concluded (fw_store w)"

section \<open>Closing a ledger\<close>

datatype cl_state =
    FetchBudget | WaitForUserApproval | CreateCloseObjective
  | ConstructFinalState bytes32 | SupportFinalState bytes32 state
  | SubmitLedgerWithdraw bytes32 | LedgerWaitMining bytes32
  | ClearBudget bytes32 | LedgerClosed bytes32 | UserDeclined | BudgetFailure

definition ledgerEntry :: "browser_store \<Rightarrow> string \<Rightarrow> store_entry result" where
  "ledgerEntry s peer = snd (getLedger peer s)"

definition constructFinalState :: "browser_store \<Rightarrow> string \<Rightarrow> state result" where
  "constructFinalState s hub =
     bindE (ledgerEntry s hub) (\<lambda>e.
     bindE (latestSignedByMeOrThrow e) (\<lambda>mine.
       case entryLatest e of
         None \<Rightarrow> Inl TypeError
       | Some l \<Rightarrow>
           Inr (if isFinal l \<and> outcomesEqual (outcome mine) (Some (outcome l)) then state.truncate l
                else if isFinal mine then state.truncate mine
                else (state.truncate mine)\<lparr>turnNum := turnNum mine + 1, isFinal := True\<rparr>)))"

definition closeObjective :: "participant \<Rightarrow> participant \<Rightarrow> bytes32 \<Rightarrow> objective" where
  "closeObjective player opponent ledger = CloseLedger [player, opponent] ledger"

inductive close_step ::
  "browser_env \<Rightarrow> abi \<Rightarrow> participant \<Rightarrow> participant \<Rightarrow> string \<Rightarrow> flow_world \<Rightarrow> cl_state \<Rightarrow> cl_state \<Rightarrow>
   browser_store \<Rightarrow> bool"
  for E :: browser_env and A :: abi and player :: participant and opponent :: participant and domain :: string
    and w :: flow_world where
  fetched: "close_step E A player opponent domain w FetchBudget WaitForUserApproval (fw_store w)"
| approved: "close_step E A player opponent domain w WaitForUserApproval CreateCloseObjective (fw_store w)"
| declined: "close_step E A player opponent domain w WaitForUserApproval UserDeclined (fw_store w)"
| objective: "ledgerEntry (fw_store w) (participantId opponent) = Inr e \<Longrightarrow>
     ledger = entryChannelId (be_platform E) e \<Longrightarrow>
     close_step E A player opponent domain w CreateCloseObjective (ConstructFinalState ledger)
       (fst (addObjective (closeObjective player opponent ledger) (fw_store w)))"
| final: "constructFinalState (fw_store w) (participantId opponent) = Inr st \<Longrightarrow>
     close_step E A player opponent domain w (ConstructFinalState ledger) (SupportFinalState ledger st)
       (askSupport (be_platform E) st (fw_store w))"
| supported: "stateSupported (be_platform E) st (fw_store w) \<Longrightarrow>
     close_step E A player opponent domain w (SupportFinalState ledger st) (SubmitLedgerWithdraw ledger) (fw_store w)"
| submitted: "ledgerEntry (fw_store w) (participantId opponent) = Inr e \<Longrightarrow>
     submitWithdrawTransaction (be_platform E) A e = Inr t \<Longrightarrow>
     close_step E A player opponent domain w (SubmitLedgerWithdraw ledger) (LedgerWaitMining ledger) (fw_store w)"
| withdrawn: "m = SubmitLedgerWithdraw ledger \<or> m = LedgerWaitMining ledger \<Longrightarrow>
     fundsWithdrawn (fw_chain w ledger) \<Longrightarrow>
     close_step E A player opponent domain w m (ClearBudget ledger) (fw_store w)"
| cleared: "close_step E A player opponent domain w (ClearBudget ledger) (LedgerClosed ledger)
       (fst (clearBudget domain (fw_store w)))"
| not_cleared: "close_step E A player opponent domain w (ClearBudget ledger) BudgetFailure (fw_store w)"

end
