(* ===== verification/BrowserApplication.thy ===== *)
theory BrowserApplication
  imports BrowserApproval BrowserClosing
begin

text \<open>
  \<open>packages/browser-wallet/src/workflows/application.ts\<close>, the workflow of one channel of an application
  with the machines it invokes, and the dispatch of \<open>packages/browser-wallet/src/channel-wallet.ts\<close>:
  which request and which objective starts which workflow. The actions of a transition are asynchronous
  in the code; here they happen with it.
\<close>

section \<open>The workflow\<close>

text \<open>What a workflow is started with: None for the event of a creator is a joiner.\<close>

record app_init =
  ai_creator :: "(int \<times> create_channel_event) option"
  ai_fundingStrategy :: funding_strategy
  ai_channelId :: "bytes32 option"

record app_env =
  ae_flow :: flow_env
  ae_messaging :: messaging_env
  ae_abi :: abi
  ae_init :: app_init

abbreviation ae_platform :: "app_env \<Rightarrow> platform" where
  "ae_platform A \<equiv> fe_platform (ae_flow A)"

datatype app_state =
    AppJoining | AppJoinFailure | AppSettingDomain string | AppConfirming confirm_state | AppCreating
  | AppFunding cf_state | AppRunning | AppClosing cc_state | AppChallenging challenge_state | AppDone

record app_machine =
  am_state :: app_state
  am_requestId :: "int option"
  am_channelId :: "bytes32 option"
  am_observing :: bool
  am_sent :: "wallet_output list"

definition initApplication :: "app_init \<Rightarrow> app_machine" where
  "initApplication I = \<lparr>am_state = AppJoining, am_requestId = map_option fst (ai_creator I),
     am_channelId = ai_channelId I, am_observing = False, am_sent = []\<rparr>"

section \<open>Guards and actions\<close>

definition channelClosing :: "store_entry \<Rightarrow> bool" where
  "channelClosing e \<longleftrightarrow> (case entryLatest e of None \<Rightarrow> False | Some l \<Rightarrow> isFinal l)"

text \<open>The getter the guard reads is not implemented yet.\<close>

definition channelChallenging :: "store_entry \<Rightarrow> bool" where
  "channelChallenging e \<longleftrightarrow> False"

definition responseFor :: "messaging_env \<Rightarrow> int \<Rightarrow> store_entry result \<Rightarrow> wallet_output list" where
  "responseFor M i r =
     (case bindE r (serializeChannelEntry (me_platform M)) of
        Inl _ \<Rightarrow> []
      | Inr c \<Rightarrow> if me_validResponse M i (ChannelResponse c) then [Response i (ChannelResponse c)] else [])"

text \<open>The response of a workflow to the request it was started or joined with.\<close>

definition contextResponse :: "app_env \<Rightarrow> browser_store \<Rightarrow> app_machine \<Rightarrow> wallet_output list" where
  "contextResponse A s m =
     (case (am_requestId m, am_channelId m) of
        (Some i, Some cid) \<Rightarrow> responseFor (ae_messaging A) i (entryIn s cid)
      | _ \<Rightarrow> [])"

fun hasInfix :: "string \<Rightarrow> string \<Rightarrow> bool" where
  "hasInfix p [] = (p = [])"
| "hasInfix p (c # cs) = (take (length p) (c # cs) = p \<or> hasInfix p cs)"

fun matchesError :: "error \<Rightarrow> error \<Rightarrow> bool" where
  "matchesError (Error reason) (Error msg) = hasInfix reason msg"
| "matchesError _ _ = False"

definition updateError :: "error \<Rightarrow> int \<times> string" where
  "updateError e =
     (if matchesError entryMissing e then (400, ''Channel not found'')
      else if matchesError notMyTurn e then (403, ''Not your turn'')
      else (500, ''Wallet error''))"

definition closeError :: "error \<Rightarrow> int \<times> string" where
  "closeError e =
     (if matchesError notMyTurn e then (300, ''Not your turn'')
      else if matchesError entryMissing e then (301, ''Channel not found'')
      else (500, ''Wallet error''))"

fun simpleOf :: "outcome \<Rightarrow> simple_allocation option" where
  "simpleOf (SimpleAllocation a) = Some a"
| "simpleOf _ = None"

text \<open>An update of the channel, and the answer: also a result that cannot be shown is an error.\<close>

definition answerUpdate ::
  "messaging_env \<Rightarrow> int \<Rightarrow> bytes32 \<Rightarrow> update_data \<Rightarrow> (error \<Rightarrow> int \<times> string) \<Rightarrow> browser_store \<Rightarrow>
   browser_store \<times> wallet_output list" where
  "answerUpdate M i cid u describe s =
     (case browserUpdateChannel (me_platform M) cid u s of
        (s', r) \<Rightarrow>
          (s', case bindE r (serializeChannelEntry (me_platform M)) of
                 Inl e \<Rightarrow> [case describe e of (code, msg) \<Rightarrow> ErrorResponse i code msg]
               | Inr _ \<Rightarrow> responseFor M i r))"

section \<open>Requests of the application\<close>

text \<open>
  What the request observer passes on, once it was spawned: the requests for the channel. In the closing
  and challenging states they are forwarded to the machine under way, which ignores them or throws.
\<close>

fun appRequest :: "app_env \<Rightarrow> app_event \<Rightarrow> app_machine \<Rightarrow> browser_store \<Rightarrow> app_machine \<times> browser_store" where
  "appRequest A (PlayerStateUpdate i cid o' data) m s =
     (if am_observing m \<and> am_channelId m = Some cid \<and> am_state m = AppRunning
      then (case answerUpdate (ae_messaging A) i cid
                   \<lparr>ud_outcome = simpleOf o', ud_appData = Some data, ud_isFinal = None\<rparr> updateError s of
              (s', out) \<Rightarrow> (m\<lparr>am_sent := am_sent m @ out\<rparr>, s'))
      else (m, s))"
| "appRequest A (PlayerRequestConclude i cid) m s =
     (if am_observing m \<and> am_channelId m = Some cid \<and> am_state m = AppRunning
      then (case answerUpdate (ae_messaging A) i cid
                   \<lparr>ud_outcome = None, ud_appData = None, ud_isFinal = Some True\<rparr> closeError s of
              (s', out) \<Rightarrow> (m\<lparr>am_sent := am_sent m @ out\<rparr>, s'))
      else (m, s))"
| "appRequest A (PlayerRequestChallenge i cid) m s =
     (if am_observing m \<and> am_channelId m = Some cid \<and> am_state m = AppRunning
      then (m\<lparr>am_state := AppChallenging ChallengeInit, am_sent := am_sent m @ [UIUpdate True]\<rparr>, s)
      else (m, s))"
| "appRequest A ev m s = (m, s)"

text \<open>
  An update of the channel. The running state comes first: with a final latest state it goes on to the
  closing protocol. Otherwise the application is told.
\<close>

definition appChannelUpdated :: "app_env \<Rightarrow> app_machine \<Rightarrow> browser_store \<Rightarrow> app_machine" where
  "appChannelUpdated A m s =
     (case am_channelId m of
        None \<Rightarrow> m
      | Some cid \<Rightarrow>
          (case entryIn s cid of
             Inl _ \<Rightarrow> m
           | Inr e \<Rightarrow>
               if \<not> am_observing m \<or> \<not> entryIsSupported e \<or> am_state m = AppDone then m
               else if am_state m = AppRunning \<and> channelClosing e then m\<lparr>am_state := AppClosing SigningFinalState\<rparr>
               else if am_state m = AppRunning \<and> channelChallenging e
               then m\<lparr>am_state := AppChallenging ChallengeInit, am_sent := am_sent m @ [UIUpdate True]\<rparr>
               else
                 (case serializeChannelEntry (ae_platform A) e of
                    Inl _ \<Rightarrow> m
                  | Inr r \<Rightarrow> m\<lparr>am_sent := am_sent m @ [ChannelNotification ''ChannelUpdated'' r]\<rparr>)))"

text \<open>A joiner is waiting for this; the response is for the channel of the objective.\<close>

definition appJoin :: "app_env \<Rightarrow> int \<Rightarrow> string \<Rightarrow> app_machine \<Rightarrow> browser_store \<Rightarrow> app_machine" where
  "appJoin A i domain m s =
     (if am_state m = AppJoining \<and> ai_creator (ae_init A) = None \<and> ai_fundingStrategy (ae_init A) \<noteq> Ledger
      then (let m' = m\<lparr>am_requestId := Some i\<rparr>
            in m'\<lparr>am_state := AppSettingDomain domain, am_sent := am_sent m @ contextResponse A s m'\<rparr>)
      else m)"

section \<open>The services\<close>

definition afterJoining :: "app_env \<Rightarrow> app_state option" where
  "afterJoining A =
     (if ai_fundingStrategy (ae_init A) = Direct then Some (AppConfirming WaitForUserConfirmation)
      else if ai_fundingStrategy (ae_init A) = Virtual then Some AppCreating
      else None)"

definition createChannelService :: "app_env \<Rightarrow> create_channel_event \<Rightarrow> bytes32 bio" where
  "createChannelService A ev =
     bindB (browserCreateChannel (fe_browser (ae_flow A)) (cce_participants ev) (cce_challengeDuration ev)
       \<lparr>v_outcome = cce_outcome ev, v_turnNum = 0, v_appData = cce_appData ev, v_isFinal = False\<rparr>
       (cce_appDefinition ev) (Some (cce_applicationDomain ev))) (\<lambda>e.
     let target = entryChannelId (ae_platform A) e in
     bindB (addObjective (OpenChannel [cce_participants ev ! 1]
       \<lparr>oc_targetChannelId = target, oc_fundingStrategy = cce_fundingStrategy ev, oc_role = None,
        oc_fundingLedgerChannelId = None\<rparr>)) (\<lambda>_. returnB target))"

text \<open>
  What goes on without the application: the services and the machines invoked. A channel of fewer than two
  participants is not looked at.
\<close>

inductive app_step :: "app_env \<Rightarrow> flow_world \<Rightarrow> app_machine \<Rightarrow> app_machine \<Rightarrow> browser_store \<Rightarrow> bool"
  for A :: app_env and w :: flow_world where
  ledger: "am_state m = AppJoining \<Longrightarrow> ai_fundingStrategy (ae_init A) = Ledger \<Longrightarrow>
     app_step A w m (m\<lparr>am_state := AppJoinFailure\<rparr>) (fw_store w)"
| creator: "am_state m = AppJoining \<Longrightarrow> ai_creator (ae_init A) = Some c \<Longrightarrow> afterJoining A = Some st \<Longrightarrow>
     app_step A w m (m\<lparr>am_state := st, am_sent := am_sent m @ (if st = AppCreating then [] else [UIUpdate True])\<rparr>)
       (fw_store w)"
| domain_set: "am_state m = AppSettingDomain domain \<Longrightarrow> am_channelId m = Some cid \<Longrightarrow>
     setapplicationDomain cid domain (fw_store w) = (s', Inr ()) \<Longrightarrow> afterJoining A = Some st \<Longrightarrow>
     app_step A w m (m\<lparr>am_state := st, am_sent := am_sent m @ (if st = AppCreating then [] else [UIUpdate True])\<rparr>) s'"
| user: "am_state m = AppConfirming c \<Longrightarrow>
     app_step A w m (m\<lparr>am_state := (if confirmStep c ev = Confirmed then AppCreating else AppConfirming (confirmStep c ev))\<rparr>)
       (fw_store w)"
| joiner: "am_state m = AppCreating \<Longrightarrow> ai_creator (ae_init A) = None \<Longrightarrow>
     app_step A w m (m\<lparr>am_state := AppFunding GetPreFund\<rparr>) (fw_store w)"
| created: "am_state m = AppCreating \<Longrightarrow> ai_creator (ae_init A) = Some (i, ev) \<Longrightarrow> length (cce_participants ev) > 1 \<Longrightarrow>
     createChannelService A ev (fw_store w) = (s', Inr cid) \<Longrightarrow>
     m' = m\<lparr>am_state := AppFunding GetPreFund, am_channelId := (case am_channelId m of None \<Rightarrow> Some cid | Some c \<Rightarrow> Some c)\<rparr> \<Longrightarrow>
     app_step A w m (m'\<lparr>am_sent := am_sent m @ contextResponse A s' m'\<rparr>) s'"
| funding: "am_state m = AppFunding c \<Longrightarrow> am_channelId m = Some cid \<Longrightarrow>
     create_step (ae_flow A) cid (ai_fundingStrategy (ae_init A)) w c c' s' \<Longrightarrow>
     app_step A w m
       (if c' = ChannelCreated
        then m\<lparr>am_state := AppRunning, am_observing := True, am_sent := am_sent m @ [UIUpdate False]\<rparr>
        else m\<lparr>am_state := AppFunding c'\<rparr>) s'"
| closing: "am_state m = AppClosing c \<Longrightarrow> am_channelId m = Some cid \<Longrightarrow>
     conclude_step (fe_browser (ae_flow A)) (ae_abi A) cid w c c' s' \<Longrightarrow>
     app_step A w m (m\<lparr>am_state := (if c' = Concluded then AppDone else AppClosing c')\<rparr>) s'"
| challenging: "am_state m = AppChallenging c \<Longrightarrow> am_channelId m = Some cid \<Longrightarrow>
     ev = ChainEvent (fw_chain w cid) \<or> ev = ChallengeSubmitted \<Longrightarrow> challengeStep c ev = Inr c' \<Longrightarrow>
     app_step A w m
       (if c' = ChallengeFinal
        then m\<lparr>am_state := AppRunning, am_sent := am_sent m @ UIUpdate False # contextResponse A (fw_store w) m\<rparr>
        else m\<lparr>am_state := AppChallenging c'\<rparr>) (fw_store w)"

text \<open>The workflow with all that can happen to it.\<close>

inductive application_step :: "app_env \<Rightarrow> flow_world \<Rightarrow> app_machine \<Rightarrow> app_machine \<Rightarrow> browser_store \<Rightarrow> bool"
  for A :: app_env and w :: flow_world where
  internal: "app_step A w m m' s' \<Longrightarrow> application_step A w m m' s'"
| join: "application_step A w m (appJoin A i domain m (fw_store w)) (fw_store w)"
| request: "application_step A w m (fst (appRequest A ev m (fw_store w))) (snd (appRequest A ev m (fw_store w)))"
| updated: "application_step A w m (appChannelUpdated A m (fw_store w)) (fw_store w)"

section \<open>The wallet's dispatch\<close>

datatype workflow =
    ApplicationWorkflow app_init app_machine
  | ApproveBudgetWorkflow domain_budget participant participant ab_state
  | CloseLedgerWorkflow participant participant string cl_state
  | EnableEthereumWorkflow int eth_state

text \<open>The wallet with its workflows and what it has sent to the application.\<close>

record channel_wallet =
  cw_wallet :: browser_wallet
  cw_workflows :: "(string \<times> workflow) list"
  cw_sent :: "wallet_output list"

definition isWorkflowIdInUse :: "string \<Rightarrow> channel_wallet \<Rightarrow> bool" where
  "isWorkflowIdInUse i cw \<longleftrightarrow> i \<in> fst ` set (cw_workflows cw)"

text \<open>Only three kinds of events have ids of their own; the others get a new identifier.\<close>

fun calculateWorkflowId :: "string \<Rightarrow> app_event \<Rightarrow> string" where
  "calculateWorkflowId guid (JoinChannelEvent i cid domain) = ''JOIN_CHANNEL-'' @ cid"
| "calculateWorkflowId guid (ApproveBudgetAndFundEvent i b player hub) =
     ''APPROVE_BUDGET_AND_FUND-'' @ participantId player @ ''-'' @ participantId hub"
| "calculateWorkflowId guid (PlayerRequestChallenge i cid) = ''PLAYER_REQUEST_CHALLENGE-'' @ guid"
| "calculateWorkflowId guid (PlayerRequestConclude i cid) = ''PLAYER_REQUEST_CONCLUDE-'' @ guid"
| "calculateWorkflowId guid (PlayerStateUpdate i cid o' data) = ''PLAYER_STATE_UPDATE-'' @ guid"
| "calculateWorkflowId guid (CreateChannelEvent i ev) = ''CREATE_CHANNEL-'' @ guid"
| "calculateWorkflowId guid (EnableEthereumEvent i) = ''ENABLE_ETHEREUM-'' @ guid"
| "calculateWorkflowId guid (CloseAndWithdrawEvent i player hub domain) = ''CLOSE_AND_WITHDRAW-'' @ guid"

definition openChannelWorkflowId :: "open_channel_data \<Rightarrow> string" where
  "openChannelWorkflowId d = ''JOIN_CHANNEL-'' @ oc_targetChannelId d"

definition startWorkflow :: "string \<Rightarrow> workflow \<Rightarrow> channel_wallet \<Rightarrow> channel_wallet \<times> unit result" where
  "startWorkflow i flow cw =
     (if isWorkflowIdInUse i cw then (cw, Inl (Error ''There is already a workflow running''))
      else (cw\<lparr>cw_workflows := cw_workflows cw @ [(i, flow)]\<rparr>, Inr ()))"

text \<open>
  A new objective starts a workflow for joining, and the application is told of the channel. It waits for
  the entry of the channel; without a strategy that is supported nothing happens.
\<close>

definition handleOpenChannel :: "platform \<Rightarrow> open_channel_data \<Rightarrow> channel_wallet \<Rightarrow> channel_wallet" where
  "handleOpenChannel P d cw =
     (case entryIn (bw_store (cw_wallet cw)) (oc_targetChannelId d) of
        Inl _ \<Rightarrow> cw
      | Inr e \<Rightarrow>
          if isWorkflowIdInUse (openChannelWorkflowId d) cw then cw
          else
            (case supportedFundingStrategyOrThrow (oc_fundingStrategy d) of
               Inl _ \<Rightarrow> cw
             | Inr fs \<Rightarrow>
                 (let I = \<lparr>ai_creator = None, ai_fundingStrategy = fs, ai_channelId = Some (oc_targetChannelId d)\<rparr>;
                      cw1 = fst (startWorkflow (openChannelWorkflowId d)
                              (ApplicationWorkflow I (initApplication I)) cw)
                  in case serializeChannelEntry P e of
                       Inl _ \<Rightarrow> cw1
                     | Inr r \<Rightarrow> cw1\<lparr>cw_sent := cw_sent cw1 @ [ChannelNotification ''ChannelProposed'' r]\<rparr>)))"

definition channelConstantsOf :: "create_channel_event \<Rightarrow> channel_constants" where
  "channelConstantsOf ev = \<lparr>chainId = cce_chainId ev, participants = cce_participants ev, channelNonce = 0,
     appDefinition = cce_appDefinition ev, challengeDuration = cce_challengeDuration ev\<rparr>"

text \<open>
  The requests the wallet handles itself. A creation is started and not awaited; joining is the approval
  of the objective. The other requests are for the observers of the workflows.
\<close>

fun handleRequest :: "wallet2_env \<Rightarrow> string \<Rightarrow> app_event \<Rightarrow> channel_wallet \<Rightarrow> channel_wallet" where
  "handleRequest W guid (CreateChannelEvent i ev) cw =
     (case makeAddress (ethersLib (w2_platform W)) (cce_appDefinition ev) of
        Inl _ \<Rightarrow> cw
      | Inr a \<Rightarrow>
          cw\<lparr>cw_wallet := fst (onStore (createAndStoreOpenChannelObjective (w2_browser W)
                (channelConstantsOf (ev\<lparr>cce_appDefinition := a\<rparr>)) (cce_outcome ev) (cce_appData ev)) (cw_wallet cw))\<rparr>)"
| "handleRequest W guid (JoinChannelEvent i cid domain) cw = cw\<lparr>cw_wallet := walletApprove cid (cw_wallet cw)\<rparr>"
| "handleRequest W guid (ApproveBudgetAndFundEvent i b player hub) cw =
     fst (startWorkflow (calculateWorkflowId guid (ApproveBudgetAndFundEvent i b player hub))
            (ApproveBudgetWorkflow b player hub AbUserApproval) cw)"
| "handleRequest W guid (CloseAndWithdrawEvent i player hub domain) cw =
     fst (startWorkflow (calculateWorkflowId guid (CloseAndWithdrawEvent i player hub domain))
            (CloseLedgerWorkflow player hub domain FetchBudget) cw)"
| "handleRequest W guid (EnableEthereumEvent i) cw =
     fst (startWorkflow (calculateWorkflowId guid (EnableEthereumEvent i)) (EnableEthereumWorkflow i ExplainToUser) cw)"
| "handleRequest W guid ev cw = cw"

text \<open>The workflow under an id moves, and is taken out when it has ended.\<close>

definition setWorkflow :: "string \<Rightarrow> workflow option \<Rightarrow> channel_wallet \<Rightarrow> channel_wallet" where
  "setWorkflow i flow cw = cw\<lparr>cw_workflows :=
     (case flow of
        None \<Rightarrow> filter (\<lambda>(j, _). j \<noteq> i) (cw_workflows cw)
      | Some flow' \<Rightarrow> map (\<lambda>(j, x). if j = i then (j, flow') else (j, x)) (cw_workflows cw))\<rparr>"

end
