(* ===== verification/BrowserClosingFacts.thy ===== *)
theory BrowserClosingFacts
  imports BrowserClosing BrowserFlowsFacts
begin

text \<open>
  Properties of the machines that end channels: what is sent to the chain and how often, what is signed
  to close, and in which order the money is set free.
\<close>

section \<open>Challenging\<close>

lemma challengeStep_submits:
  "challengeStep st ev = Inr SubmitChallengeTx \<Longrightarrow> st = ChallengeInit \<or> st = ChallengeRetry \<or> st = SubmitChallengeTx"
  by (cases "(st, ev)" rule: challengeStep.cases) (auto simp: challengeRoot_def split: if_splits)

lemma challengeStep_progress:
  assumes "challengeStep st ev = Inr st'"
  shows "st' \<noteq> ChallengeRetry \<or> st = ChallengeRetry" and "st' \<noteq> ChallengeInit \<or> st = ChallengeInit"
  using assms
  by (cases "(st, ev)" rule: challengeStep.cases; auto simp: challengeRoot_def split: if_splits)+

lemma challengeRun_later:
  "st \<noteq> ChallengeInit \<Longrightarrow> st \<noteq> ChallengeRetry \<Longrightarrow> snd (challengeRun st evs) = 0"
proof (induction evs arbitrary: st)
  case (Cons ev evs)
  show ?case
  proof (cases "challengeStep st ev")
    case (Inr st')
    with Cons.prems challengeStep_progress [OF Inr] challengeStep_submits [of st ev]
    have "st' \<noteq> ChallengeInit" "st' \<noteq> ChallengeRetry" "st' = SubmitChallengeTx \<Longrightarrow> st = SubmitChallengeTx" by auto
    with Inr Cons.IH [of st'] show ?thesis by (auto split: prod.splits)
  qed (use Cons in simp)
qed simp

text \<open>
  whatever the chain, the application and the user do, and in whatever order, the workflow sends one
  challenge at the most.
\<close>

theorem challenge_submitted_once: "snd (challengeRun ChallengeInit evs) \<le> 1"
proof (induction evs)
  case (Cons ev evs)
  show ?case
  proof (cases "challengeStep ChallengeInit ev")
    case (Inr st')
    from challengeStep_progress [OF Inr] have "st' \<noteq> ChallengeRetry" by simp
    with Inr Cons.IH challengeRun_later [of st' evs] show ?thesis
      by (cases "st' = ChallengeInit") (auto split: prod.splits)
  qed (use Cons.IH in simp)
qed simp

lemma challengeStep_final:
  assumes "challengeStep st ev = Inr ChallengeFinal" "st \<noteq> ChallengeFinal"
  shows "\<exists>i. ev = ChainEvent i \<and> ci_finalized i"
  using assms
  by (cases "(st, ev)" rule: challengeStep.cases)
     (auto simp: challengeRoot_def challengeFinalized_def split: if_splits)

lemma challengeRun_final:
  assumes "fst (challengeRun st evs) = ChallengeFinal" "st \<noteq> ChallengeFinal"
  shows "\<exists>i. ChainEvent i \<in> set evs \<and> ci_finalized i"
  using assms
proof (induction evs arbitrary: st)
  case (Cons ev evs)
  show ?case
  proof (cases "challengeStep st ev")
    case (Inr st')
    show ?thesis
    proof (cases "st' = ChallengeFinal")
      case True
      with challengeStep_final Inr Cons.prems(2) show ?thesis by fastforce
    next
      case False
      with Inr Cons.prems(1) Cons.IH [of st'] show ?thesis by (auto split: prod.splits)
    qed
  qed (use Cons in auto)
qed simp

text \<open>the workflow ends only when the chain has reported that the channel is finalized.\<close>

theorem challenge_ends_when_finalized:
  assumes "fst (challengeRun ChallengeInit evs) = ChallengeFinal"
  shows "\<exists>i. ChainEvent i \<in> set evs \<and> ci_finalized i"
  using challengeRun_final [OF assms] by simp

section \<open>Closing a ledger\<close>

lemma simpleAllocationsEqual_refl: "simpleAllocationsEqual a a"
  by (auto simp: simpleAllocationsEqual_def zip_same_conv_map)

lemma outcomesEqual_refl: "outcomesEqual o' (Some o')"
  by (cases o') (auto simp: simpleAllocationsEqual_refl zip_same_conv_map)

text \<open>
  closing a ledger gives nothing away. The final state the wallet asks support for has the outcome of
  the latest state it has signed, whatever the hub has sent.
\<close>

theorem closing_keeps_outcome:
  assumes "constructFinalState s hub = Inr st" and "ledgerEntry s hub = Inr e" and "latestSignedByMeOrThrow e = Inr mine"
  shows "isFinal st \<and> outcomesEqual (outcome mine) (Some (outcome st))"
  using assms
  by (auto simp: constructFinalState_def state.defs outcomesEqual_refl split: option.splits if_splits)

text \<open>What an entry has signed last and what it has latest.\<close>

definition closingAt :: "browser_store \<Rightarrow> string \<Rightarrow> state \<Rightarrow> state \<Rightarrow> bool" where
  "closingAt s hub mine l \<longleftrightarrow>
     (\<exists>e m l'. ledgerEntry s hub = Inr e \<and> latestSignedByMeOrThrow e = Inr m \<and> entryLatest e = Some l' \<and>
        state.truncate m = mine \<and> state.truncate l' = l)"

definition finalOf :: "state \<Rightarrow> state" where
  "finalOf st = st\<lparr>turnNum := turnNum st + 1, isFinal := True\<rparr>"

lemma truncate_sel [simp]:
  "outcome (state.truncate x) = outcome x" "isFinal (state.truncate x) = isFinal x" "turnNum (state.truncate x) = turnNum x"
  by (simp_all add: state.defs)

lemma constructFinalState_at:
  assumes "closingAt s hub mine l"
  shows "constructFinalState s hub =
    Inr (if isFinal l \<and> outcomesEqual (outcome mine) (Some (outcome l)) then l
         else if isFinal mine then mine else finalOf mine)"
proof -
  from assms obtain e m l' where e: "ledgerEntry s hub = Inr e" "latestSignedByMeOrThrow e = Inr m" "entryLatest e = Some l'"
    and t: "mine = state.truncate m" "l = state.truncate l'" unfolding closingAt_def by blast
  show ?thesis unfolding t by (simp add: constructFinalState_def e finalOf_def)
qed

text \<open>
  both sides ask for the same final state. When each has last signed the same state, the one that
  closes second supports the final state of the first if it has arrived, and if not, constructs the same.
\<close>

theorem both_close_alike:
  assumes "closingAt s1 hub1 st st" and "closingAt s2 hub2 st l" and "l = st \<or> l = finalOf st" and "\<not> isFinal st"
  shows "constructFinalState s1 hub1 = constructFinalState s2 hub2"
  using assms(3,4)
  by (auto simp: constructFinalState_at [OF assms(1)] constructFinalState_at [OF assms(2)] finalOf_def outcomesEqual_refl)

text \<open>A final state with the outcome last signed has been supported, and the money is off the chain.\<close>

definition finalSupported :: "browser_env \<Rightarrow> string \<Rightarrow> flow_world list \<Rightarrow> bool" where
  "finalSupported E hub h \<longleftrightarrow>
     (\<exists>st. seenThen (\<lambda>w. constructFinalState (fw_store w) hub = Inr st) (\<lambda>w. stateSupported (be_platform E) st (fw_store w)) h)"

lemma finalSupported_append: "finalSupported E hub h \<Longrightarrow> finalSupported E hub (h @ h')"
  unfolding finalSupported_def using seenThen_append by blast

definition closeInv :: "browser_env \<Rightarrow> string \<Rightarrow> flow_world list \<Rightarrow> cl_state \<Rightarrow> bool" where
  "closeInv E hub h m \<longleftrightarrow>
     (case m of
        SupportFinalState l st \<Rightarrow> seen (\<lambda>w. constructFinalState (fw_store w) hub = Inr st) (butlast h)
      | SubmitLedgerWithdraw l \<Rightarrow> finalSupported E hub h
      | LedgerWaitMining l \<Rightarrow> finalSupported E hub h
      | ClearBudget l \<Rightarrow> finalSupported E hub h \<and> seen (\<lambda>w. fundsWithdrawn (fw_chain w l)) h
      | LedgerClosed l \<Rightarrow> finalSupported E hub h \<and> seen (\<lambda>w. fundsWithdrawn (fw_chain w l)) h
      | _ \<Rightarrow> True)"

lemma closeInv_later: "closeInv E hub h m \<Longrightarrow> closeInv E hub (h @ [w]) m"
  by (auto simp: closeInv_def finalSupported_append seen_append seen_butlast split: cl_state.splits)

lemma closeInv_step:
  assumes "closeInv E (participantId opponent) h m" and "h \<noteq> []"
    and "close_step E A player opponent domain (last h) m m' s'"
  shows "closeInv E (participantId opponent) (h @ [w]) m'"
  using assms(3)
proof (cases rule: close_step.cases)
  case (final st ledger)
  then show ?thesis using assms(2) by (simp add: closeInv_def seen_now)
next
  case (supported st ledger)
  with assms have "seenThen (\<lambda>w. constructFinalState (fw_store w) (participantId opponent) = Inr st)
      (\<lambda>w. stateSupported (be_platform E) st (fw_store w)) h"
    by (intro seenThen_now) (simp_all add: closeInv_def)
  with supported show ?thesis by (auto simp: closeInv_def finalSupported_def intro: seenThen_append)
next
  case (submitted e t ledger)
  with assms(1) show ?thesis by (simp add: closeInv_def finalSupported_append)
next
  case (withdrawn ledger)
  with assms(2) have "seen (\<lambda>w. fundsWithdrawn (fw_chain w ledger)) h" by (intro seen_now)
  with withdrawn assms(1) show ?thesis
    by (auto simp: closeInv_def finalSupported_append seen_append)
next
  case (cleared ledger)
  with assms(1) show ?thesis by (simp add: closeInv_def finalSupported_append seen_append)
qed (simp_all add: closeInv_def)

interpretation closingLedger: flow_invariant "close_step E A player opponent domain" FetchBudget
  "closeInv E (participantId opponent)" for E A player opponent domain
  by unfold_locales (auto simp: closeInv_def [of _ _ _ FetchBudget] intro: closeInv_later closeInv_step)

text \<open>
  the budget of a domain is cleared only after a final state of the ledger with the outcome last
  signed was supported and the chain has reported that the ledger's funds are gone.
\<close>

theorem budget_cleared_after_withdrawal:
  assumes "flow_run (close_step E A player opponent domain) FetchBudget h (LedgerClosed ledger)"
  shows "finalSupported E (participantId opponent) h \<and> seen (\<lambda>w. fundsWithdrawn (fw_chain w ledger)) h"
  using closingLedger.run_inv [OF assms] by (simp add: closeInv_def)

section \<open>Virtual defunding\<close>

abbreviation finalTargetIs :: "bytes32 \<Rightarrow> state \<Rightarrow> flow_world \<Rightarrow> bool" where
  "finalTargetIs target st w \<equiv> finalTargetState (fw_store w) target = Inr st"

abbreviation finalJointIs :: "bytes32 \<Rightarrow> channel_ids \<Rightarrow> state \<Rightarrow> flow_world \<Rightarrow> bool" where
  "finalJointIs target c st w \<equiv> finalJointChannelUpdate (fw_store w) (id_joint c) target = Inr st"

abbreviation ledgerUpdateIs :: "channel_ids \<Rightarrow> state \<Rightarrow> flow_world \<Rightarrow> bool" where
  "ledgerUpdateIs c st w \<equiv> defundGuarantorInLedger (fw_store w) (fw_chain w (id_ledger c)) c = Inr st"

definition supportedAfter :: "browser_env \<Rightarrow> (state \<Rightarrow> flow_world \<Rightarrow> bool) \<Rightarrow> flow_world list \<Rightarrow> bool" where
  "supportedAfter E Q h \<longleftrightarrow> (\<exists>st. seenThen (Q st) (\<lambda>w. stateSupported (be_platform E) st (fw_store w)) h)"

lemma supportedAfter_append: "supportedAfter E Q h \<Longrightarrow> supportedAfter E Q (h @ h')"
  unfolding supportedAfter_def using seenThen_append by blast

lemma supportedAfter_now:
  "seen (Q st) (butlast h) \<Longrightarrow> h \<noteq> [] \<Longrightarrow> stateSupported (be_platform E) st (fw_store (last h)) \<Longrightarrow> supportedAfter E Q h"
  unfolding supportedAfter_def by (blast intro: seenThen_now)

definition defundInv :: "browser_env \<Rightarrow> bytes32 \<Rightarrow> flow_world list \<Rightarrow> vd_state \<Rightarrow> bool" where
  "defundInv E target h m \<longleftrightarrow>
     (let closed = supportedAfter E (finalTargetIs target) h; joint = (\<lambda>c. supportedAfter E (finalJointIs target c) h) in
      case m of
        SupportFinalTarget c st \<Rightarrow> seen (finalTargetIs target st) (butlast h)
      | DefundTarget c \<Rightarrow> closed
      | SupportFinalJoint c st \<Rightarrow> closed \<and> seen (finalJointIs target c st) (butlast h)
      | AcquireLedgerLock c \<Rightarrow> closed \<and> joint c
      | DefundInLedger c \<Rightarrow> closed \<and> joint c
      | SupportLedgerUpdate c st \<Rightarrow> closed \<and> joint c \<and> seen (ledgerUpdateIs c st) (butlast h)
      | ReleaseFromBudget c \<Rightarrow> closed \<and> joint c \<and> supportedAfter E (ledgerUpdateIs c) h
      | VirtuallyDefunded \<Rightarrow> (\<exists>c. closed \<and> joint c \<and> supportedAfter E (ledgerUpdateIs c) h)
      | _ \<Rightarrow> True)"

lemma defundInv_later: "defundInv E target h m \<Longrightarrow> defundInv E target (h @ [w]) m"
  by (cases m) (simp_all add: defundInv_def Let_def supportedAfter_append seen_butlast, blast intro: supportedAfter_append)

lemma defundInv_step:
  assumes "defundInv E target h m" and "h \<noteq> []" and "defund_step E target (last h) m m' s'"
  shows "defundInv E target (h @ [w]) m'"
  using assms(3)
proof (cases rule: defund_step.cases)
  case (target_closed st c)
  with assms have "supportedAfter E (finalTargetIs target) h"
    by (intro supportedAfter_now) (simp_all add: defundInv_def)
  with target_closed show ?thesis by (simp add: defundInv_def supportedAfter_append)
next
  case (joint_updated st c)
  with assms have "supportedAfter E (finalJointIs target c) h"
    by (intro supportedAfter_now [of "finalJointIs target c" st]) (simp_all add: defundInv_def)
  with joint_updated assms(1) show ?thesis by (simp add: defundInv_def supportedAfter_append)
next
  case (ledger_updated st c)
  with assms have "supportedAfter E (ledgerUpdateIs c) h"
    by (intro supportedAfter_now [of "ledgerUpdateIs c" st]) (simp_all add: defundInv_def)
  with ledger_updated assms(1) show ?thesis by (simp add: defundInv_def supportedAfter_append)
next
  case (released c b)
  with assms(1) show ?thesis by (simp add: defundInv_def Let_def supportedAfter_append) (blast intro: supportedAfter_append)
qed (use assms(1,2) in \<open>simp_all add: defundInv_def supportedAfter_append seen_now\<close>)

interpretation defundingLeaf: flow_invariant "defund_step E target" CheckChannels "defundInv E target" for E target
  by unfold_locales (auto simp: defundInv_def [of _ _ _ CheckChannels] intro: defundInv_later defundInv_step)

text \<open>
  the money is set free in order. The leaf asks for the update that takes the guarantor out of its
  ledger only after a final state of the channel was supported, and after that an update of the joint
  channel that carries its outcome.
\<close>

theorem ledger_defunded_in_order:
  assumes "flow_run (defund_step E target) CheckChannels h (SupportLedgerUpdate c st)"
  shows "supportedAfter E (finalTargetIs target) h \<and> supportedAfter E (finalJointIs target c) h"
  using defundingLeaf.run_inv [OF assms] by (simp add: defundInv_def)

end
