(* ===== verification/BrowserMessagingFacts.thy ===== *)
theory BrowserMessagingFacts
  imports BrowserMessaging BrowserSafety
begin

text \<open>
  Properties of what the browser wallet exchanges with the application: budgets survive being shown,
  a queued message reaches the participants it is about, and what keeps it from doing so.
\<close>

section \<open>Budgets\<close>

lemma fold_update_distinct:
  "distinct (map fst xs) \<Longrightarrow> set (map fst xs) \<inter> set (map fst ys) = {} \<Longrightarrow>
   fold (\<lambda>(k, v). AList.update k v) xs ys = ys @ xs"
proof (induction xs arbitrary: ys)
  case (Cons x xs)
  obtain k v where x: "x = (k, v)" by (cases x)
  have "AList.update k v ys = ys @ [(k, v)]" if "k \<notin> fst ` set ys" for ys
    using that by (induction ys) auto
  with Cons.prems Cons.IH [of "ys @ [(k, v)]"] show ?case by (auto simp: x)
qed simp

lemma recordOf_distinct: "distinct (map fst xs) \<Longrightarrow> recordOf xs = xs"
  by (simp add: recordOf_def fold_update_distinct)

text \<open>
  The keys of a budget are the assets of its entries, none of them empty, no key appears twice, and
  every amount fits 32 bytes.
\<close>

definition fits :: "uint256 \<Rightarrow> bool" where
  "fits n \<longleftrightarrow> 0 \<le> n \<and> n < 2 ^ 256"

lemma formatAmount_fits: "fits n \<Longrightarrow> formatAmount n = Inr n"
  by (simp add: fits_def formatAmount_def)

definition wellKeyedEntry :: "address \<Rightarrow> asset_budget \<Rightarrow> bool" where
  "wellKeyedEntry a ab \<longleftrightarrow> a = ab_asset ab \<and> a \<noteq> [] \<and> distinct (map fst (ab_channels ab)) \<and>
     fits (ab_availableReceiveCapacity ab) \<and> fits (ab_availableSendCapacity ab) \<and>
     (\<forall>(c, n) \<in> set (ab_channels ab). fits n)"

definition wellKeyed :: "domain_budget \<Rightarrow> bool" where
  "wellKeyed b \<longleftrightarrow> distinct (map fst (bud_forAsset b)) \<and>
     (\<forall>(a, ab) \<in> set (bud_forAsset b). wellKeyedEntry a ab)"

lemma deserializeTokenBudget_serialize:
  assumes "wellKeyedEntry a ab"
  shows "\<exists>t. serializeTokenBudget (a, ab) = Inr t \<and> deserializeTokenBudget t = ab"
proof -
  have "mapE (\<lambda>(c, n). bindE (formatAmount n) (\<lambda>n'. Inr (c, n'))) (ab_channels ab) = Inr (ab_channels ab)"
  proof (rule mapE_id)
    fix x assume x: "x \<in> set (ab_channels ab)"
    obtain c n where cn: "x = (c, n)" by (cases x)
    with x assms have "fits n" by (fastforce simp: wellKeyedEntry_def)
    then show "(case x of (c, n) \<Rightarrow> bindE (formatAmount n) (\<lambda>n'. Inr (c, n'))) = Inr x"
      by (simp add: cn formatAmount_fits)
  qed
  with assms show ?thesis
    by (auto simp: deserializeTokenBudget_def serializeTokenBudget_def assetOrZero_def recordOf_distinct
        wellKeyedEntry_def formatAmount_fits)
qed

text \<open>a budget shown to the application and read back is the same budget.\<close>

theorem deserializeDomainBudget_serialize:
  assumes "wellKeyed b"
  shows "\<exists>w. serializeDomainBudget b = Inr w \<and> deserializeDomainBudget w = b"
proof -
  have "\<exists>ts. mapE serializeTokenBudget xs = Inr ts \<and> map (\<lambda>a. (ab_asset a, a)) (map deserializeTokenBudget ts) = xs"
    if "\<forall>(a, ab) \<in> set xs. wellKeyedEntry a ab" for xs
    using that
  proof (induction xs)
    case (Cons x xs)
    obtain a ab where x: "x = (a, ab)" by (cases x)
    with Cons.prems have a: "wellKeyedEntry a ab" by simp
    from deserializeTokenBudget_serialize [OF a] obtain t where
      "serializeTokenBudget x = Inr t" "deserializeTokenBudget t = ab" unfolding x by blast
    moreover have "a = ab_asset ab" using a by (simp add: wellKeyedEntry_def)
    ultimately show ?case using Cons by (fastforce simp: x)
  qed simp
  with assms obtain ts where "mapE serializeTokenBudget (bud_forAsset b) = Inr ts"
    "map (\<lambda>a. (ab_asset a, a)) (map deserializeTokenBudget ts) = bud_forAsset b"
    by (auto simp: wellKeyed_def)
  with assms show ?thesis
    by (simp add: deserializeDomainBudget_def serializeDomainBudget_def wellKeyed_def recordOf_distinct)
qed

theorem deserializeDomainBudget_serialize_witness:
  "\<exists>w. serializeDomainBudget
     \<lparr>bud_domain = ''app'', bud_hubAddress = ''hub'', bud_forAsset = [(''0x0'',
        \<lparr>ab_asset = ''0x0'', ab_availableReceiveCapacity = 5, ab_availableSendCapacity = 7,
         ab_channels = [(''c1'', 2), (''c2'', 3)]\<rparr>)]\<rparr> = Inr w \<and>
   deserializeDomainBudget w = \<lparr>bud_domain = ''app'', bud_hubAddress = ''hub'', bud_forAsset = [(''0x0'',
        \<lparr>ab_asset = ''0x0'', ab_availableReceiveCapacity = 5, ab_availableSendCapacity = 7,
         ab_channels = [(''c1'', 2), (''c2'', 3)]\<rparr>)]\<rparr>"
  by (rule deserializeDomainBudget_serialize) (simp add: wellKeyed_def wellKeyedEntry_def fits_def)

section \<open>Recipients\<close>

text \<open>Objects with one identity are equal.\<close>

definition identifies :: "nat list \<Rightarrow> 'a list \<Rightarrow> bool" where
  "identifies ids xs \<longleftrightarrow> length ids = length xs \<and>
     (\<forall>i < length xs. \<forall>j < length xs. ids ! i = ids ! j \<longrightarrow> xs ! i = xs ! j)"

lemma set_distinctObjects:
  assumes "\<forall>(i, x) \<in> set xs. \<forall>(j, y) \<in> set xs. i = j \<longrightarrow> x = y"
  shows "set (distinctObjects xs) = snd ` set xs"
  using assms
proof (induction xs rule: distinctObjects.induct)
  case (2 i x rest)
  have "\<forall>(i', x) \<in> set (filter (\<lambda>(j, _). j \<noteq> i) rest). \<forall>(j, y) \<in> set (filter (\<lambda>(j, _). j \<noteq> i) rest). i' = j \<longrightarrow> x = y"
    using "2.prems" by fastforce
  from "2.IH" [OF this] have "set (distinctObjects ((i, x) # rest)) =
      insert x (snd ` set (filter (\<lambda>(j, _). j \<noteq> i) rest))" by simp
  moreover have "snd z = x" if "z \<in> set rest" "fst z = i" for z
    using "2.prems" that by (cases z) fastforce
  ultimately show ?case by (auto simp: image_iff)
qed simp

lemma set_filteredRecipients:
  assumes "identifies ids (payloadParticipants m)"
  shows "set (filteredRecipients ids me m) =
    participantId ` {p \<in> set (payloadParticipants m). Some (signingAddress p) \<noteq> me}"
proof -
  let ?ps = "payloadParticipants m"
  have "\<forall>(i, x) \<in> set (zip ids ?ps). \<forall>(j, y) \<in> set (zip ids ?ps). i = j \<longrightarrow> x = y"
    using assms by (auto simp: identifies_def set_zip)
  from set_distinctObjects [OF this]
  have "set (distinctObjects (zip ids ?ps)) = set ?ps"
    using assms by (simp add: identifies_def flip: set_map)
  then show ?thesis by (auto simp: filteredRecipients_def)
qed

lemma queueNotifications_sends:
  assumes "mapE (\<lambda>to. serializeMessage (me_platform M) (me_walletVersion M) m to me None) tos = Inr ws"
    and "\<forall>w \<in> set ws. me_validMessage M w"
  shows "queueNotifications M m me tos s = (s\<lparr>ms_sent := ms_sent s @ map MessageQueued ws\<rparr>, Inr ())"
  using assms
proof (induction tos arbitrary: ws s)
  case (Cons to tos)
  then obtain w vs where "serializeMessage (me_platform M) (me_walletVersion M) m to me None = Inr w"
    "mapE (\<lambda>to. serializeMessage (me_platform M) (me_walletVersion M) m to me None) tos = Inr vs" "ws = w # vs"
    by (auto simp: bindE_eq_Inr)
  with Cons show ?case by (simp add: sendM_def)
qed simp

lemma sendMessageNotification_sends:
  assumes "mapE (\<lambda>to. serializeMessage (me_platform M) (me_walletVersion M) m to (storeAddress (ms_store s)) None)
      (filteredRecipients (me_objectIds M m) (storeAddress (ms_store s)) m) = Inr ws"
    and "\<forall>w \<in> set ws. me_validMessage M w"
  shows "sendMessageNotification M m s = (s\<lparr>ms_sent := ms_sent s @ map MessageQueued ws\<rparr>, Inr ())"
  using queueNotifications_sends [OF assms] by (simp add: sendMessageNotification_def bindM_def readM_def)

section \<open>From one wallet to the other\<close>

text \<open>What the receiver of a payload reads.\<close>

definition readPayload :: "messaging_env \<Rightarrow> payload \<Rightarrow> payload" where
  "readPayload M m = m\<lparr>walletVersion := me_walletVersion M,
     signedStates := Some (case signedStates m of None \<Rightarrow> [] | Some ss \<Rightarrow> ss)\<rparr>"

definition canonicalPayload :: "platform \<Rightarrow> payload \<Rightarrow> bool" where
  "canonicalPayload P m \<longleftrightarrow>
     (\<forall>s \<in> set (case signedStates m of None \<Rightarrow> [] | Some ss \<Rightarrow> ss). canonicalState P s) \<and>
     (\<forall>o' \<in> set (case objectives m of None \<Rightarrow> [] | Some os \<Rightarrow> os).
        \<forall>p \<in> set (objectiveParticipants o'). canonicalParticipant (ethersLib P) p)"

text \<open>What a wallet does with a message it has accepted.\<close>

definition acceptMessage :: "messaging_env \<Rightarrow> int \<Rightarrow> payload \<Rightarrow> unit mio" where
  "acceptMessage M i p = bindM (runStore (browserPushMessage (me_browser M) p)) (\<lambda>_. sendResponse M i Success)"

text \<open>
  A payload of canonical values is serialised for every recipient. Whether the schema takes the
  message is another matter: it is an argument, and asked of the messages that are sent.
\<close>

lemma serialize_canonicalPayload:
  assumes "canonicalPayload (me_platform M) m"
  shows "\<exists>w. serializeMessage (me_platform M) (me_walletVersion M) m to me None = Inr w \<and> recipient w = to \<and>
    deserializeMessage (me_platform M) w = Inr (readPayload M m)"
  using assms unfolding canonicalPayload_def readPayload_def by (intro deserializeMessage_of_serialize) simp_all

lemma mapE_exists:
  assumes "\<And>x. x \<in> set xs \<Longrightarrow> \<exists>y. f x = Inr y \<and> Q x y"
  shows "\<exists>ys. mapE f xs = Inr ys \<and> list_all2 Q xs ys"
  using assms
proof (induction xs)
  case (Cons x xs)
  from Cons.prems [of x] obtain y where "f x = Inr y" "Q x y" by auto
  with Cons show ?case by fastforce
qed simp

definition acceptsOutgoing :: "messaging_env \<Rightarrow> payload \<Rightarrow> string option \<Rightarrow> participant \<Rightarrow> bool" where
  "acceptsOutgoing M m me q \<longleftrightarrow>
     (\<forall>w. serializeMessage (me_platform M) (me_walletVersion M) m (participantId q) me None = Inr w \<longrightarrow> me_validMessage M w)"

lemma sendMessageNotification_canonical:
  assumes "canonicalPayload (me_platform M) m" and "identifies (me_objectIds M m) (payloadParticipants m) \<or>
      distinct (me_objectIds M m) \<and> length (me_objectIds M m) = length (payloadParticipants m)"
    and "\<forall>q \<in> set (payloadParticipants m). acceptsOutgoing M m (storeAddress (ms_store s)) q"
  shows "\<exists>ws. list_all2 (\<lambda>to w. recipient w = to \<and> deserializeMessage (me_platform M) w = Inr (readPayload M m))
      (filteredRecipients (me_objectIds M m) (storeAddress (ms_store s)) m) ws \<and>
    sendMessageNotification M m s = (s\<lparr>ms_sent := ms_sent s @ map MessageQueued ws\<rparr>, Inr ())"
proof -
  let ?me = "storeAddress (ms_store s)"
  let ?tos = "filteredRecipients (me_objectIds M m) ?me m"
    and ?f = "\<lambda>to. serializeMessage (me_platform M) (me_walletVersion M) m to ?me None"
  have ids: "identifies (me_objectIds M m) (payloadParticipants m)"
    using assms(2) by (auto simp: identifies_def nth_eq_iff_index_eq)
  obtain ws where ws: "mapE ?f ?tos = Inr ws" and all: "list_all2 (\<lambda>to w. recipient w = to \<and>
      deserializeMessage (me_platform M) w = Inr (readPayload M m)) ?tos ws"
    using mapE_exists [of ?tos ?f "\<lambda>to w. recipient w = to \<and> deserializeMessage (me_platform M) w = Inr (readPayload M m)",
        OF serialize_canonicalPayload [OF assms(1)]] by blast
  have "me_validMessage M w" if "w \<in> set ws" for w
  proof -
    from that ws obtain i where "i < length ?tos" "?f (?tos ! i) = Inr w"
      by (auto simp: mapE_Inr_iff list_all2_conv_all_nth in_set_conv_nth)
    moreover from this(1) have "?tos ! i \<in> participantId ` set (payloadParticipants m)"
      using set_filteredRecipients [OF ids, of ?me] nth_mem by blast
    ultimately show ?thesis using assms(3) by (auto simp: acceptsOutgoing_def)
  qed
  with sendMessageNotification_sends [OF ws] all show ?thesis by blast
qed

text \<open>
  C28: a message of canonical states and objectives, which the schema of the sender takes, goes to
  exactly the other participants of its states and objectives. When the schema of the receiver takes
  it too, the wallet of a participant takes in the payload that was sent, provided its participant id
  is its address: a message is addressed to the id of a participant, but accepted only when it is
  addressed to the address of the wallet.
\<close>

theorem sent_message_is_pushed:
  assumes "canonicalPayload (me_platform M) m"
    and "\<forall>q \<in> set (payloadParticipants m). acceptsOutgoing M m (storeAddress (ms_store s)) q"
    and "me_platform M' = me_platform M"
    and "identifies (me_objectIds M m) (payloadParticipants m)"
    and "p \<in> set (payloadParticipants m)" and "Some (signingAddress p) \<noteq> storeAddress (ms_store s)"
    and "storeAddress (ms_store r) = Some (signingAddress p)"
  shows "\<exists>ws. sendMessageNotification M m s = (s\<lparr>ms_sent := ms_sent s @ map MessageQueued ws\<rparr>, Inr ()) \<and>
    recipient ` set ws =
      participantId ` {q \<in> set (payloadParticipants m). Some (signingAddress q) \<noteq> storeAddress (ms_store s)} \<and>
    (\<exists>w \<in> set ws. recipient w = participantId p \<and>
      receiveRequest M' i (PushMessageRequest w) domain r =
        (if \<not> me_validMessage M' w then (r, Inl (Error ''Validation Error''))
         else if participantId p = signingAddress p then acceptMessage M' i (readPayload M m) r
         else (r, Inl (Error ''Received message not addressed to us''))))"
proof -
  let ?tos = "filteredRecipients (me_objectIds M m) (storeAddress (ms_store s)) m"
  obtain ws where all: "list_all2 (\<lambda>to w. recipient w = to \<and> deserializeMessage (me_platform M) w = Inr (readPayload M m)) ?tos ws"
    and sent: "sendMessageNotification M m s = (s\<lparr>ms_sent := ms_sent s @ map MessageQueued ws\<rparr>, Inr ())"
    using sendMessageNotification_canonical [OF assms(1) disjI1 [OF assms(4)] assms(2)] by blast
  have to: "map recipient ws = ?tos"
    using all by (auto simp: list_all2_conv_all_nth intro: nth_equalityI)
  have who: "recipient ` set ws =
      participantId ` {q \<in> set (payloadParticipants m). Some (signingAddress q) \<noteq> storeAddress (ms_store s)}"
    by (simp only: to set_filteredRecipients [OF assms(4)] flip: list.set_map)
  have "participantId p \<in> recipient ` set ws" unfolding who using assms(5,6) by blast
  then obtain w where w: "w \<in> set ws" "recipient w = participantId p" by (metis imageE)
  with all have "deserializeMessage (me_platform M) w = Inr (readPayload M m)"
    by (auto simp: list_all2_conv_all_nth in_set_conv_nth)
  with w(2) have "receiveRequest M' i (PushMessageRequest w) domain r =
      (if \<not> me_validMessage M' w then (r, Inl (Error ''Validation Error''))
       else if participantId p = signingAddress p then acceptMessage M' i (readPayload M m) r
       else (r, Inl (Error ''Received message not addressed to us'')))"
    by (simp add: assms(3,7) bindM_def readM_def acceptMessage_def)
  with sent who w show ?thesis by blast
qed

text \<open>
  The participants are told apart by identity, and what was read from a message or from two channels
  are different objects.
\<close>

lemma distinctObjects_distinct: "distinct ids \<Longrightarrow> length ids = length xs \<Longrightarrow> distinctObjects (zip ids xs) = xs"
proof (induction ids xs rule: list_induct2')
  case (4 i ids x xs)
  then have "filter (\<lambda>(j, _). j \<noteq> i) (zip ids xs) = zip ids xs"
    by (auto simp: filter_id_conv dest: set_zip_leftD)
  with 4 show ?case by simp
qed simp_all

text \<open>
  a participant that occurs in several objectives or states, each time as another object, is sent
  the same message once for every occurrence.
\<close>

theorem message_queued_repeatedly:
  assumes "canonicalPayload (me_platform M) m"
    and "\<forall>q \<in> set (payloadParticipants m). acceptsOutgoing M m (storeAddress (ms_store s)) q"
    and "distinct (me_objectIds M m)" and "length (me_objectIds M m) = length (payloadParticipants m)"
    and "Some (signingAddress p) \<noteq> storeAddress (ms_store s)"
  shows "count_list (payloadParticipants m) p \<le>
    length (filter (\<lambda>x. \<exists>w. x = MessageQueued w \<and> recipient w = participantId p)
      (drop (length (ms_sent s)) (ms_sent (fst (sendMessageNotification M m s)))))"
proof -
  let ?me = "storeAddress (ms_store s)"
  let ?Q = "\<lambda>x. \<exists>w. x = MessageQueued w \<and> recipient w = participantId p"
  let ?tos = "filteredRecipients (me_objectIds M m) ?me m"
  obtain ws where all: "list_all2 (\<lambda>to w. recipient w = to \<and> deserializeMessage (me_platform M) w = Inr (readPayload M m)) ?tos ws"
    and sent: "sendMessageNotification M m s = (s\<lparr>ms_sent := ms_sent s @ map MessageQueued ws\<rparr>, Inr ())"
    using sendMessageNotification_canonical [OF assms(1) disjI2 [OF conjI [OF assms(3,4)]] assms(2)] by blast
  have many: "count_list ps p \<le> length (filter (\<lambda>to. to = participantId p)
      (map participantId (filter (\<lambda>q. Some (signingAddress q) \<noteq> ?me) ps)))" for ps
    using assms(5) by (induction ps) auto
  have "length (filter (\<lambda>to. to = participantId p) tos) = length (filter ?Q (map MessageQueued ws))"
    if "list_all2 (\<lambda>to w. recipient w = to \<and> deserializeMessage (me_platform M) w = Inr (readPayload M m)) tos ws" for tos ws
    using that by (induction rule: list_all2_induct) auto
  from this [OF all] have "length (filter ?Q (map MessageQueued ws)) = length (filter (\<lambda>to. to = participantId p) ?tos)" ..
  moreover have "?tos = map participantId (filter (\<lambda>q. Some (signingAddress q) \<noteq> ?me) (payloadParticipants m))"
    by (simp add: filteredRecipients_def distinctObjects_distinct assms(3,4))
  ultimately show ?thesis
    using many [of "payloadParticipants m"] unfolding sent
    by (simp del: filter_map)
qed

section \<open>Closing a ledger\<close>

text \<open>
  a request to close the ledger with a hub is passed on for every hub but the one of the
  configuration, which is the only one the error message allows.
\<close>

theorem closes_only_with_other_hubs:
  assumes "convertToInternalEvent M i domain (CloseAndWithdrawRequest hubId) s = Inr (Some ev)"
  shows "hubId \<noteq> me_hubParticipantId M \<and> (\<exists>player hub. ev = CloseAndWithdrawEvent i player hub domain \<and> participantId hub = hubId)"
  using assms
  by (auto simp: bindE_eq_Inr convertToInternalParticipant_def split: if_splits)

section \<open>Witnesses\<close>

definition bobByAddress :: participant where
  "bobByAddress = \<lparr>participantId = ''0xB'', signingAddress = ''0xB'', destination = sampleDest CHR ''b''\<rparr>"

definition defundPayload :: "participant list \<Rightarrow> payload" where
  "defundPayload ps = \<lparr>walletVersion = ''v0'', signedStates = None, objectives = Some [DefundChannel ps ''0xc''],
     requests = None\<rparr>"

definition sampleMessagingEnv :: messaging_env where
  "sampleMessagingEnv = \<lparr>me_browser = \<lparr>be_platform = samplePlatform, be_chainNetworkId = ''1'',
       be_hubDestination = sampleDest CHR ''h'', be_randomKey = ''0xA'', be_connected = True\<rparr>,
     me_version = ''1'', me_walletVersion = ''v1'', me_hubParticipantId = ''hub'', me_hubAddress = ''0xH'',
     me_challengeDuration = 300, me_validResponse = (\<lambda>_ _. True), me_validMessage = (\<lambda>_. True),
     me_ethereumIsEnabled = True, me_objectIds = (\<lambda>m. [0..<length (payloadParticipants m)])\<rparr>"

definition messagingOf :: "address \<Rightarrow> messaging" where
  "messagingOf a = \<lparr>ms_store = emptyStore\<lparr>bs_privateKeys := [(a, a)]\<rparr>, ms_sent = [], ms_requests = []\<rparr>"

lemma canonical_defundPayload:
  "canonicalPayload samplePlatform (defundPayload [hd sampleParticipants, bobByAddress])"
  by (simp add: canonicalPayload_def defundPayload_def sampleParticipants_def bobByAddress_def canonical_defs
      samplePlatform_def makeAddress_def sampleEthers_def toLowerChar_def)

lemma identifies_defundPayload:
  "identifies (me_objectIds sampleMessagingEnv (defundPayload ps)) (payloadParticipants (defundPayload ps))"
  by (simp add: identifies_def sampleMessagingEnv_def)

theorem sent_message_is_pushed_witness:
  "\<exists>ws w. sendMessageNotification sampleMessagingEnv (defundPayload [hd sampleParticipants, bobByAddress])
        (messagingOf ''0xA'') = ((messagingOf ''0xA'')\<lparr>ms_sent := map MessageQueued ws\<rparr>, Inr ()) \<and>
    w \<in> set ws \<and> recipient w = ''0xB'' \<and>
    receiveRequest sampleMessagingEnv 1 (PushMessageRequest w) ''app'' (messagingOf ''0xB'') =
      acceptMessage sampleMessagingEnv 1
        (readPayload sampleMessagingEnv (defundPayload [hd sampleParticipants, bobByAddress])) (messagingOf ''0xB'')"
proof -
  have "me_platform sampleMessagingEnv = samplePlatform" by (simp add: sampleMessagingEnv_def)
  then have can: "canonicalPayload (me_platform sampleMessagingEnv) (defundPayload [hd sampleParticipants, bobByAddress])"
    using canonical_defundPayload by simp
  have "\<forall>q \<in> set (payloadParticipants (defundPayload [hd sampleParticipants, bobByAddress])).
      acceptsOutgoing sampleMessagingEnv (defundPayload [hd sampleParticipants, bobByAddress])
        (storeAddress (ms_store (messagingOf ''0xA''))) q"
    by (simp add: acceptsOutgoing_def sampleMessagingEnv_def)
  from sent_message_is_pushed [OF can this refl identifies_defundPayload,
        of bobByAddress "messagingOf ''0xB''" 1 "''app''"]
  obtain ws w where "sendMessageNotification sampleMessagingEnv (defundPayload [hd sampleParticipants, bobByAddress])
        (messagingOf ''0xA'') = ((messagingOf ''0xA'')\<lparr>ms_sent := map MessageQueued ws\<rparr>, Inr ())"
    "w \<in> set ws" "recipient w = ''0xB''"
    "receiveRequest sampleMessagingEnv 1 (PushMessageRequest w) ''app'' (messagingOf ''0xB'') =
      acceptMessage sampleMessagingEnv 1
        (readPayload sampleMessagingEnv (defundPayload [hd sampleParticipants, bobByAddress])) (messagingOf ''0xB'')"
    by (auto simp: sampleMessagingEnv_def messagingOf_def storeAddress_def emptyStore_def bobByAddress_def
        payloadParticipants_def defundPayload_def)
  then show ?thesis by blast
qed

text \<open>Bob is a participant of two objectives.\<close>

theorem message_queued_repeatedly_witness:
  "2 \<le> length (filter (\<lambda>x. \<exists>w. x = MessageQueued w \<and> recipient w = ''0xB'')
     (ms_sent (fst (sendMessageNotification sampleMessagingEnv
        ((defundPayload [])\<lparr>objectives := Some [DefundChannel [bobByAddress] ''c'', DefundChannel [bobByAddress] ''d'']\<rparr>)
        (messagingOf ''0xA'')))))"
  using message_queued_repeatedly [of sampleMessagingEnv
      "(defundPayload [])\<lparr>objectives := Some [DefundChannel [bobByAddress] ''c'', DefundChannel [bobByAddress] ''d'']\<rparr>"
      "messagingOf ''0xA''" bobByAddress]
  by (simp add: sampleMessagingEnv_def messagingOf_def storeAddress_def emptyStore_def bobByAddress_def
      payloadParticipants_def defundPayload_def acceptsOutgoing_def canonicalPayload_def canonical_defs
      samplePlatform_def makeAddress_def sampleEthers_def toLowerChar_def)

theorem closes_only_with_other_hubs_witness:
  "\<exists>ev. convertToInternalEvent sampleMessagingEnv 1 ''app'' (CloseAndWithdrawRequest ''other'')
      (emptyStore\<lparr>bs_privateKeys := [(''0xA'', ''0xA'')], bs_destinationAddress := Some (sampleDest CHR ''a'')\<rparr>) =
      Inr (Some ev) \<and> ''other'' \<noteq> me_hubParticipantId sampleMessagingEnv"
proof -
  let ?s = "emptyStore\<lparr>bs_privateKeys := [(''0xA'', ''0xA'')], bs_destinationAddress := Some (sampleDest CHR ''a'')\<rparr>"
  have "\<exists>ev. convertToInternalEvent sampleMessagingEnv 1 ''app'' (CloseAndWithdrawRequest ''other'') ?s = Inr (Some ev)"
    by (simp add: destinationOf_def playerFor_def storeAddress_def sampleMessagingEnv_def emptyStore_def sampleDest_def
        convertToInternalParticipant_def samplePlatform_def makeAddress_def makeDestination_sample [unfolded sampleDest_def]
        toLowerChar_def sampleEthers_def)
  with closes_only_with_other_hubs show ?thesis by blast
qed

end
