(* ===== verification/BrowserApprovalFacts.thy ===== *)
theory BrowserApprovalFacts
  imports BrowserApproval BrowserFlowsFacts BrowserMessagingFacts
begin

text \<open>
  Properties of the workflows by which an application gets a budget: what the wallet deposits for it, and
  when the budget comes into being.
\<close>

section \<open>The deposit\<close>

fun deposited :: "budget_deposit \<Rightarrow> bool" where
  "deposited BdInit = False"
| "deposited BdWaitTurn = False"
| "deposited _ = True"

lemma budgetDepositStep_deposited:
  "deposited st \<Longrightarrow> budgetDepositStep i st balance = Some st' \<Longrightarrow> deposited st' \<and> (\<forall>n. st' = BdSubmit n \<longrightarrow> st = st')"
  by (cases st) (auto simp: budgetDepositRoot_def split: if_splits)

lemma budgetDepositStep_submits:
  "budgetDepositStep i st balance = Some (BdSubmit n) \<Longrightarrow> \<not> deposited st \<Longrightarrow>
   n = balance \<and> di_depositAt i \<le> n \<and> n < di_totalAfterDeposit i"
  by (cases st) (auto simp: budgetDepositRoot_def myTurnNow_def split: if_splits)

lemma budgetDeposits_deposited: "deposited st \<Longrightarrow> budgetDeposits i st evs = []"
proof (induction i st evs rule: budgetDeposits.induct)
  case (2 i st evs)
  then show ?case by (cases st) simp_all
next
  case (3 i st balance evs)
  then show ?case
    by (auto dest: budgetDepositStep_deposited split: option.splits budget_deposit.splits)
qed simp

text \<open>
  whatever the chain reports, the workflow deposits once at the most, and no more than what lies
  between its two marks.
\<close>

theorem budget_deposited_once:
  "budgetDeposits i BdInit evs = [] \<or>
   (\<exists>n. budgetDeposits i BdInit evs = [n] \<and> 0 < n \<and> n \<le> di_totalAfterDeposit i - di_depositAt i)"
proof -
  have "budgetDeposits i st evs = [] \<or>
      (\<exists>n. budgetDeposits i st evs = [n] \<and> 0 < n \<and> n \<le> di_totalAfterDeposit i - di_depositAt i)"
    if "\<not> deposited st" for st
    using that
  proof (induction i st evs rule: budgetDeposits.induct)
    case (2 i st evs)
    then show ?case by (cases st) simp_all
  next
    case (3 i st balance evs)
    show ?case
    proof (cases "budgetDepositStep i st balance")
      case (Some st')
      show ?thesis
      proof (cases "deposited st'")
        case True
        then have rest: "budgetDeposits i st' evs = []" by (rule budgetDeposits_deposited)
        show ?thesis
        proof (cases st')
          case (BdSubmit n)
          with budgetDepositStep_submits Some 3(2) have "n = balance" "di_depositAt i \<le> n" "n < di_totalAfterDeposit i" by blast+
          with Some BdSubmit rest 3(2) show ?thesis by auto
        qed (use Some rest in simp_all)
      next
        case False
        have "(case st' of BdSubmit n \<Rightarrow> if st = st' then [] else [di_totalAfterDeposit i - n] | _ \<Rightarrow> []) = []"
          using False by (cases st') simp_all
        with Some "3.IH" [OF Some False] show ?thesis by simp
      qed
    qed simp
  qed simp
  then show ?thesis by simp
qed

text \<open>
  C25: the marks are those of a budget that is as large in both directions. In the ledger that the wallet
  proposes, the hub has what the wallet may receive and the wallet what it may send; once the hub has
  deposited its part, the wallet deposits exactly its own if and only if the two are equal. Otherwise it
  waits for ever, pays too little, or takes the ledger for funded without having paid.
\<close>

theorem budget_deposit_exact_iff_symmetric:
  assumes "convertPendingBudgetToAllocation b player hub =
      Inr (simpleEthAllocation [\<lparr>item_destination = destination hub, amount = receive\<rparr>,
                                \<lparr>item_destination = destination player, amount = send\<rparr>])"
    and "calculateDepositInfo ledger b = Inr i" and "0 < send" and "0 \<le> receive"
  shows "budgetDeposits i BdInit [BalanceReport 0, BalanceReport receive] = [send] \<longleftrightarrow> receive = send"
proof -
  from assms(1,2) have i: "di_depositAt i = send" "di_totalAfterDeposit i = send + send" "di_fundedAt i = send + send"
    by (auto simp: convertPendingBudgetToAllocation_def calculateDepositInfo_def simpleEthAllocation_def Let_def
        split: if_splits option.splits)
  have "budgetDepositStep i BdInit 0 = Some BdWaitTurn"
    using assms(3) by (simp add: myTurnNow_def notMyTurnYet_def i)
  moreover have "budgetDepositStep i BdWaitTurn receive =
      (if send \<le> receive \<and> receive < send + send then Some (BdSubmit receive)
       else if send + send \<le> receive then None else Some BdWaitTurn)"
    by (simp add: myTurnNow_def budgetDepositRoot_def fullAmountConfirmed_def myAmountConfirmed_def i)
  ultimately show ?thesis using assms(3) by (auto simp: i)
qed

section \<open>The budget\<close>

text \<open>The first state of the ledger was supported, and the chain has reported all that is waited for.\<close>

definition ledgerFundedAt :: "domain_budget \<Rightarrow> bytes32 \<Rightarrow> deposit_info \<Rightarrow> flow_world list \<Rightarrow> bool" where
  "ledgerFundedAt b ledger i h \<longleftrightarrow> calculateDepositInfo ledger b = Inr i \<and>
     seen (\<lambda>w. di_fundedAt i \<le> ci_amount (fw_chain w ledger)) h"

definition preFundSupported :: "platform \<Rightarrow> bytes32 \<Rightarrow> flow_world list \<Rightarrow> bool" where
  "preFundSupported P ledger h \<longleftrightarrow>
     seen (\<lambda>w. \<exists>e st. entryIn (fw_store w) ledger = Inr e \<and> entrySupported e = Inr st) h"

definition approveInv :: "platform \<Rightarrow> domain_budget \<Rightarrow> flow_world list \<Rightarrow> ab_state \<Rightarrow> bool" where
  "approveInv P b h m \<longleftrightarrow>
     (case m of
        AbDeposit l i d \<Rightarrow> preFundSupported P l h \<and> calculateDepositInfo l b = Inr i
      | AbCreateBudget l i \<Rightarrow> preFundSupported P l h \<and> ledgerFundedAt b l i h
      | AbDone l i \<Rightarrow> preFundSupported P l h \<and> ledgerFundedAt b l i h
      | _ \<Rightarrow> True)"

lemma approveInv_later: "approveInv P b h m \<Longrightarrow> approveInv P b (h @ [w]) m"
  by (cases m) (simp_all add: approveInv_def preFundSupported_def ledgerFundedAt_def seen_append)

lemma budgetDepositStep_None: "budgetDepositStep i d balance = None \<Longrightarrow> di_fundedAt i \<le> balance"
  by (cases d) (auto simp: budgetDepositRoot_def fullAmountConfirmed_def split: if_splits)

lemma approveInv_step:
  assumes "approveInv P b h m" and "h \<noteq> []" and "approve_step F b player hub (last h) m m' s'"
  shows "approveInv P b (h @ [w]) m'"
  using assms(3)
proof (cases rule: approve_step.cases)
  case (prefund ledger e sup' st i)
  with assms(2) have "preFundSupported P ledger h" unfolding preFundSupported_def by (intro seen_now) auto
  with prefund show ?thesis by (simp add: approveInv_def preFundSupported_def seen_append)
next
  case (funded i d ledger)
  with assms(1,2) show ?thesis
    by (simp add: approveInv_def preFundSupported_def ledgerFundedAt_def seen_append seen_now budgetDepositStep_None)
qed (use assms(1) in \<open>simp_all add: approveInv_def preFundSupported_def ledgerFundedAt_def seen_append\<close>)

interpretation approving: flow_invariant "approve_step F b player hub" AbUserApproval "approveInv (fe_platform F) b"
  for F b player hub
  by unfold_locales (auto simp: approveInv_def [of _ _ _ AbUserApproval] intro: approveInv_later approveInv_step)

text \<open>
  a budget comes into being only after a first state of the ledger was supported and the chain has
  reported all that the workflow waits for.
\<close>

theorem budget_created_when_funded:
  assumes "flow_run (approve_step F b player hub) AbUserApproval h (AbDone ledger i)"
  shows "preFundSupported (fe_platform F) ledger h \<and> ledgerFundedAt b ledger i h"
  using approving.run_inv [OF assms] by (simp add: approveInv_def)

section \<open>The provider\<close>

text \<open>whatever the provider and the user answer, a destination address once set stays.\<close>

theorem destination_address_stays:
  assumes "bs_destinationAddress (ms_store s) = Some d" and "d \<noteq> []"
  shows "bs_destinationAddress (ms_store (fst (ethStep M i st ev s))) = Some d"
  using assms
  by (cases "(M, i, st, ev, s)" rule: ethStep.cases)
     (simp_all add: sendEthError_def sendEthResponse_def sendError_def sendDisplayMessage_def sendM_def bindM_def readM_def
       sendResponse_def runStore_def setDestinationAddressIfEmpty_def)

section \<open>Witnesses\<close>

definition sampleBudget :: "uint256 \<Rightarrow> uint256 \<Rightarrow> domain_budget" where
  "sampleBudget send receive = \<lparr>bud_domain = ''app.com'', bud_hubAddress = ''0xH'', bud_forAsset =
     [(zeroAddress, \<lparr>ab_asset = zeroAddress, ab_availableReceiveCapacity = receive, ab_availableSendCapacity = send,
        ab_channels = []\<rparr>)]\<rparr>"

text \<open>Seven to send and ten to receive: the wallet pays four.\<close>

theorem budget_deposit_exact_iff_symmetric_witness:
  "\<exists>i. calculateDepositInfo ''l'' (sampleBudget 7 10) = Inr i \<and>
     budgetDeposits i BdInit [BalanceReport 0, BalanceReport 10] \<noteq> [7] \<and>
     budgetDeposits i BdInit [BalanceReport 0, BalanceReport 10] = [4]"
proof -
  let ?i = "\<lparr>di_channelId = ''l'', di_depositAt = 7, di_totalAfterDeposit = 14, di_fundedAt = 14\<rparr>"
  have i: "calculateDepositInfo ''l'' (sampleBudget 7 10) = Inr ?i"
    by (simp add: calculateDepositInfo_def sampleBudget_def)
  have c: "convertPendingBudgetToAllocation (sampleBudget 7 10) bobByAddress bobByAddress =
      Inr (simpleEthAllocation [\<lparr>item_destination = destination bobByAddress, amount = 10\<rparr>,
        \<lparr>item_destination = destination bobByAddress, amount = 7\<rparr>])"
    by (simp add: convertPendingBudgetToAllocation_def sampleBudget_def)
  from budget_deposit_exact_iff_symmetric [OF c i] have "budgetDeposits ?i BdInit [BalanceReport 0, BalanceReport 10] \<noteq> [7]"
    by simp
  moreover have "budgetDeposits ?i BdInit [BalanceReport 0, BalanceReport 10] = [4]" by code_simp
  ultimately show ?thesis using i by blast
qed

end
