(* ===== verification/BrowserApplicationFacts.thy ===== *)
theory BrowserApplicationFacts
  imports BrowserApplication BrowserClosingFacts BrowserApprovalFacts
begin

text \<open>
  Properties of the workflow of an application's channel, alone and as the wallet starts it: it runs only
  over money that is there, what blocks it, and which requests are never answered.
\<close>

section \<open>Running only when funded\<close>

definition fundedFor :: "app_env \<Rightarrow> flow_world list \<Rightarrow> app_machine \<Rightarrow> bool" where
  "fundedFor A h m \<longleftrightarrow>
     (\<exists>cid. am_channelId m = Some cid \<and> channelFunded (ae_platform A) cid (ai_fundingStrategy (ae_init A)) h)"

definition pastFunding :: "app_machine \<Rightarrow> bool" where
  "pastFunding m \<longleftrightarrow> am_observing m \<or> am_state m = AppRunning \<or> am_state m = AppDone \<or>
     (\<exists>c. am_state m = AppClosing c) \<or> (\<exists>c. am_state m = AppChallenging c)"

definition appInv :: "app_env \<Rightarrow> flow_world list \<Rightarrow> app_machine \<Rightarrow> bool" where
  "appInv A h m \<longleftrightarrow> (pastFunding m \<longrightarrow> fundedFor A h m) \<and>
     (\<forall>c cid. am_state m = AppFunding c \<longrightarrow> am_channelId m = Some cid \<longrightarrow>
        createInv (ae_platform A) cid (ai_fundingStrategy (ae_init A)) h c)"

lemma fundedFor_append: "fundedFor A h m \<Longrightarrow> fundedFor A (h @ h') m"
  unfolding fundedFor_def using channelFunded_append by blast

lemma appInv_init: "appInv A [w] (initApplication I)"
  by (simp add: appInv_def initApplication_def pastFunding_def)

lemma appInv_later: "appInv A h m \<Longrightarrow> appInv A (h @ [w]) m"
  by (simp add: appInv_def fundedFor_append createInv_later)

text \<open>A step that neither starts to observe nor enters another of the states of interest.\<close>

lemma appInv_keeps:
  assumes "appInv A h m" "am_channelId m' = am_channelId m" "pastFunding m' \<Longrightarrow> pastFunding m"
    and "\<And>c. am_state m' = AppFunding c \<Longrightarrow> am_state m = AppFunding c"
  shows "appInv A (h @ [w]) m'"
  using appInv_later [OF assms(1), of w] assms(2-4) by (auto simp: appInv_def fundedFor_def)

lemma appInv_step:
  assumes inv: "appInv A h m" and "h \<noteq> []" and step: "app_step A (last h) m m' s'"
  shows "appInv A (h @ [(last h)\<lparr>fw_store := s'\<rparr>]) m'"
  using step
proof (cases rule: app_step.cases)
  case (joiner)
  with inv show ?thesis
    by (auto simp: appInv_def pastFunding_def fundedFor_def createInv_init intro: channelFunded_append)
next
  case (created i ev cid m1)
  with inv show ?thesis
    by (auto simp: appInv_def pastFunding_def fundedFor_def createInv_init intro: channelFunded_append split: option.splits)
next
  case (funding c cid c')
  with inv have "createInv (ae_platform A) cid (ai_fundingStrategy (ae_init A)) h c" by (simp add: appInv_def)
  from createInv_step [OF this \<open>h \<noteq> []\<close>] funding
  have c': "createInv (ae_platform A) cid (ai_fundingStrategy (ae_init A)) (h @ [(last h)\<lparr>fw_store := s'\<rparr>]) c'" by simp
  show ?thesis
  proof (cases "c' = ChannelCreated")
    case True
    with c' funding show ?thesis by (auto simp: appInv_def fundedFor_def createInv_def)
  next
    case False
    with c' funding inv show ?thesis
      by (auto simp: appInv_def pastFunding_def fundedFor_def intro: channelFunded_append)
  qed
qed (rule appInv_keeps [OF inv]; auto simp: pastFunding_def afterJoining_def split: if_splits)+

lemma appJoin_shape:
  "appJoin A i domain m s = m \<or>
   (\<exists>out. am_state m = AppJoining \<and> appJoin A i domain m s =
      m\<lparr>am_requestId := Some i, am_state := AppSettingDomain domain, am_sent := am_sent m @ out\<rparr>)"
  by (auto simp: appJoin_def Let_def)

lemma appRequest_shape:
  "\<exists>out. fst (appRequest A ev m s) = m\<lparr>am_sent := am_sent m @ out\<rparr> \<or>
    (am_observing m \<and> am_state m = AppRunning \<and>
     fst (appRequest A ev m s) = m\<lparr>am_state := AppChallenging ChallengeInit, am_sent := am_sent m @ out\<rparr>)"
proof (cases "(A, ev, m, s)" rule: appRequest.cases)
  case (1 A' i cid o' data m' s')
  then show ?thesis
    by (cases "am_observing m \<and> am_channelId m = Some cid \<and> am_state m = AppRunning")
       (auto split: prod.splits intro: exI [of _ "[]"])
next
  case (2 A' i cid m' s')
  then show ?thesis
    by (cases "am_observing m \<and> am_channelId m = Some cid \<and> am_state m = AppRunning")
       (auto split: prod.splits intro: exI [of _ "[]"])
next
  case (3 A' i cid m' s')
  then show ?thesis by (auto intro: exI [of _ "[]"] exI [of _ "[UIUpdate True]"])
qed (auto intro: exI [of _ "[]"])

lemma appChannelUpdated_shape:
  "\<exists>out. appChannelUpdated A m s = m\<lparr>am_sent := am_sent m @ out\<rparr> \<or>
    (am_observing m \<and> am_state m = AppRunning \<and>
     appChannelUpdated A m s = m\<lparr>am_state := AppClosing SigningFinalState, am_sent := am_sent m @ out\<rparr>)"
  by (auto simp: appChannelUpdated_def channelChallenging_def split: option.splits sum.splits
      intro: exI [of _ "[]"])

lemma application_invariant_step:
  assumes "appInv A h m" and "h \<noteq> []" and "application_step A (last h) m m' s'"
  shows "appInv A (h @ [(last h)\<lparr>fw_store := s'\<rparr>]) m'"
  using assms(3)
proof (cases rule: application_step.cases)
  case internal
  with appInv_step [OF assms(1,2)] show ?thesis by blast
next
  case (join i domain)
  from appJoin_shape [of A i domain m "fw_store (last h)"] show ?thesis unfolding join(1)
    by (elim disjE exE conjE; intro appInv_keeps [OF assms(1)]) (auto simp: pastFunding_def)
next
  case (request ev)
  from appRequest_shape [of A ev m "fw_store (last h)"] show ?thesis unfolding request(1)
    by (elim disjE exE conjE; intro appInv_keeps [OF assms(1)]) (auto simp: pastFunding_def)
next
  case updated
  from appChannelUpdated_shape [of A m "fw_store (last h)"] show ?thesis unfolding updated(1)
    by (elim disjE exE conjE; intro appInv_keeps [OF assms(1)]) (auto simp: pastFunding_def)
qed

interpretation application: flow_invariant "application_step A" "initApplication I" "appInv A" for A I
  by unfold_locales (auto intro: appInv_init appInv_later application_invariant_step)

text \<open>
  C39: whatever the peers, the chain, the user and the application do, and in whatever order, a workflow
  of an application runs, and from then on updates its channel, only when the channel is funded as the
  application has asked.
\<close>

theorem application_runs_only_when_funded:
  assumes "flow_run (application_step A) (initApplication I) h m" and "am_state m = AppRunning"
  shows "fundedFor A h m"
  using application.run_inv [OF assms(1)] assms(2) by (simp add: appInv_def pastFunding_def)

section \<open>What blocks a workflow\<close>

text \<open>The channel of a workflow has a final state that is not supported.\<close>

definition finalUnsupported :: "browser_store \<Rightarrow> bytes32 \<Rightarrow> bool" where
  "finalUnsupported s cid \<longleftrightarrow>
     (\<exists>e st l. entryIn s cid = Inr e \<and> entrySupported e = Inr st \<and> \<not> isFinal st \<and> entryLatest e = Some l \<and> isFinal l)"

lemma signFinalState_refused:
  assumes "finalUnsupported s cid"
  shows "browserSignFinalState P cid s \<noteq> (s', Inr ())"
proof -
  from assms obtain e st l where e: "entryIn s cid = Inr e" "entrySupported e = Inr st" "\<not> isFinal st"
    unfolding finalUnsupported_def by blast
  from e(1) have g: "getEntry cid s = (s, Inr e)"
    by (auto simp: getEntry_def readB_def entryIn_def split: option.splits)
  show ?thesis
    by (cases "latestSignedByMeOrThrow e")
       (simp_all add: browserSignFinalState_def bindB_def g liftB_def readB_def e(2,3) throwB_def)
qed

text \<open>
  one state that the opponent alone has signed blocks a running workflow. When it is final and the
  latest one, the workflow goes on to the closing protocol without telling the application, and as long
  as no final state is supported nothing leads out of its first state: no update is made, no request
  answered, and no challenge can be started.
\<close>

theorem unsupported_final_state_blocks:
  assumes "am_state m = AppRunning" and "am_observing m" and "am_channelId m = Some cid"
    and "finalUnsupported (fw_store w) cid"
    and "application_step A w (appChannelUpdated A m (fw_store w)) m' s'"
  shows "am_state (appChannelUpdated A m (fw_store w)) = AppClosing SigningFinalState \<and>
    am_state m' = AppClosing SigningFinalState \<and> s' = fw_store w \<and>
    (\<forall>x \<in> set (drop (length (am_sent m)) (am_sent m')). \<exists>r. x = ChannelNotification ''ChannelUpdated'' r)"
proof -
  from assms(4) obtain e st l where e: "entryIn (fw_store w) cid = Inr e" "entrySupported e = Inr st"
    "entryLatest e = Some l" "isFinal l" unfolding finalUnsupported_def by blast
  then have sup: "entryIsSupported e"
    by (auto simp: entrySupported_def entryIsSupported_def split: list.splits)
  let ?m1 = "m\<lparr>am_state := AppClosing SigningFinalState\<rparr>"
  have up: "appChannelUpdated A m (fw_store w) = ?m1"
    using assms(1-3) e sup by (simp add: appChannelUpdated_def channelClosing_def)
  have "am_state m' = AppClosing SigningFinalState \<and> s' = fw_store w \<and>
    (\<forall>x \<in> set (drop (length (am_sent m)) (am_sent m')). \<exists>r. x = ChannelNotification ''ChannelUpdated'' r)"
    using assms(5) unfolding up
  proof (cases rule: application_step.cases)
    case internal
    then show ?thesis
    proof (cases rule: app_step.cases)
      case (closing c cid' c')
      with assms(3) have "conclude_step (fe_browser (ae_flow A)) (ae_abi A) cid w SigningFinalState c' s'" by simp
      then show ?thesis
      proof (cases rule: conclude_step.cases)
        case signed
        with signFinalState_refused [OF assms(4)] show ?thesis by blast
      qed (simp add: withdrawing_def)
    qed simp_all
  next
    case (join i domain)
    then show ?thesis by (simp add: appJoin_def)
  next
    case (request ev)
    then show ?thesis by (cases "(A, ev, ?m1, fw_store w)" rule: appRequest.cases) auto
  next
    case updated
    then show ?thesis
      by (auto simp: appChannelUpdated_def channelChallenging_def assms(2,3) e(1) sup split: sum.splits)
  qed
  with up show ?thesis by simp
qed

section \<open>The wallet's workflows\<close>

text \<open>
  The wallet as it comes from its requests and objectives. Workflows of an application move by what their
  services do and by what their observers are told; the other workflows and the store change in any way.
  Nothing sends the event that a joiner waits for: the wallet's \<open>JOIN_CHANNEL\<close> approves the objective.
\<close>

inductive wallet_run :: "app_env \<Rightarrow> wallet2_env \<Rightarrow> channel_wallet \<Rightarrow> bool"
  for A :: app_env and W :: wallet2_env where
  start: "cw_workflows cw = [] \<Longrightarrow> wallet_run A W cw"
| request: "wallet_run A W cw \<Longrightarrow> wallet_run A W (handleRequest W guid ev cw)"
| objective: "wallet_run A W cw \<Longrightarrow> wallet_run A W (handleOpenChannel (ae_platform A) d cw)"
| application: "wallet_run A W cw \<Longrightarrow> (i, ApplicationWorkflow I m) \<in> set (cw_workflows cw) \<Longrightarrow>
     app_step (A\<lparr>ae_init := I\<rparr>) w m m' s' \<Longrightarrow> wallet_run A W (setWorkflow i (Some (ApplicationWorkflow I m')) cw)"
| observed: "wallet_run A W cw \<Longrightarrow> (i, ApplicationWorkflow I m) \<in> set (cw_workflows cw) \<Longrightarrow>
     wallet_run A W (setWorkflow i (Some (ApplicationWorkflow I (fst (appRequest (A\<lparr>ae_init := I\<rparr>) ev m s)))) cw)"
| updated: "wallet_run A W cw \<Longrightarrow> (i, ApplicationWorkflow I m) \<in> set (cw_workflows cw) \<Longrightarrow>
     wallet_run A W (setWorkflow i (Some (ApplicationWorkflow I (appChannelUpdated (A\<lparr>ae_init := I\<rparr>) m s))) cw)"
| other: "wallet_run A W cw \<Longrightarrow> (i, x) \<in> set (cw_workflows cw) \<Longrightarrow> \<forall>I m. x \<noteq> ApplicationWorkflow I m \<Longrightarrow>
     y = None \<or> (\<exists>y'. y = Some y' \<and> (\<forall>I m. y' \<noteq> ApplicationWorkflow I m)) \<Longrightarrow> wallet_run A W (setWorkflow i y cw)"
| store: "wallet_run A W cw \<Longrightarrow> wallet_run A W (cw\<lparr>cw_wallet := x\<rparr>)"

text \<open>The workflows are under different ids, and those of applications still wait to be joined.\<close>

definition waiting :: "workflow \<Rightarrow> bool" where
  "waiting x \<longleftrightarrow> (\<forall>I m. x = ApplicationWorkflow I m \<longrightarrow> ai_creator I = None \<and> \<not> am_observing m \<and>
     (am_state m = AppJoining \<or> am_state m = AppJoinFailure))"

definition walletInv :: "channel_wallet \<Rightarrow> bool" where
  "walletInv cw \<longleftrightarrow> distinct (map fst (cw_workflows cw)) \<and> (\<forall>(i, x) \<in> set (cw_workflows cw). waiting x)"

lemma walletInv_start: "walletInv cw \<Longrightarrow> waiting x \<Longrightarrow> walletInv (fst (startWorkflow i x cw))"
  by (auto simp: walletInv_def startWorkflow_def isWorkflowIdInUse_def)

lemma waiting_initApplication: "ai_creator I = None \<Longrightarrow> waiting (ApplicationWorkflow I (initApplication I))"
  by (simp add: waiting_def initApplication_def)

lemma waiting_others [simp]:
  "waiting (ApproveBudgetWorkflow b p q x)" "waiting (CloseLedgerWorkflow p q d c)" "waiting (EnableEthereumWorkflow i st)"
  by (simp_all add: waiting_def)

lemma walletInv_sent [simp]: "walletInv (cw\<lparr>cw_sent := x\<rparr>) = walletInv cw"
  and walletInv_wallet [simp]: "walletInv (cw\<lparr>cw_wallet := y\<rparr>) = walletInv cw"
  by (simp_all add: walletInv_def)

lemma walletInv_handleRequest: "walletInv cw \<Longrightarrow> walletInv (handleRequest W guid ev cw)"
  by (cases "(W, guid, ev, cw)" rule: handleRequest.cases) (auto simp: walletInv_start split: sum.splits)

lemma walletInv_handleOpenChannel: "walletInv cw \<Longrightarrow> walletInv (handleOpenChannel P d cw)"
  by (auto simp: handleOpenChannel_def Let_def walletInv_start waiting_initApplication split: sum.splits)

lemma walletInv_setWorkflow:
  assumes "walletInv cw" and "\<And>x. y = Some x \<Longrightarrow> waiting x"
  shows "walletInv (setWorkflow i y cw)"
proof (cases y)
  case None
  with assms(1) show ?thesis
    by (auto simp: walletInv_def setWorkflow_def distinct_map intro: inj_on_subset)
next
  case (Some x)
  have "map fst (cw_workflows (setWorkflow i (Some x) cw)) = map fst (cw_workflows cw)"
    by (induction "cw_workflows cw" arbitrary: cw) (auto simp: setWorkflow_def)
  moreover have "\<forall>(i, z) \<in> set (cw_workflows (setWorkflow i (Some x) cw)). waiting z"
    using Some assms by (auto simp: walletInv_def setWorkflow_def split: if_splits)
  ultimately show ?thesis using Some assms(1) by (simp add: walletInv_def)
qed

lemma waiting_app_step:
  assumes "waiting (ApplicationWorkflow I m)" and "app_step (A\<lparr>ae_init := I\<rparr>) w m m' s'"
  shows "waiting (ApplicationWorkflow I m')"
  using assms(2,1) by (cases rule: app_step.cases) (auto simp: waiting_def)

lemma walletInv_run: "wallet_run A W cw \<Longrightarrow> walletInv cw"
proof (induction rule: wallet_run.induct)
  case (start cw)
  then show ?case by (simp add: walletInv_def)
next
  case (request cw guid ev)
  then show ?case by (simp add: walletInv_handleRequest)
next
  case (objective cw d)
  then show ?case by (simp add: walletInv_handleOpenChannel)
next
  case (application cw i I m w m' s')
  then have "waiting (ApplicationWorkflow I m)" by (auto simp: walletInv_def)
  from waiting_app_step [OF this application.hyps(3)] application.IH show ?case by (intro walletInv_setWorkflow) auto
next
  case (observed cw i I m ev s)
  then have "waiting (ApplicationWorkflow I m)" by (auto simp: walletInv_def)
  with appRequest_shape [of "A\<lparr>ae_init := I\<rparr>" ev m s]
  have "waiting (ApplicationWorkflow I (fst (appRequest (A\<lparr>ae_init := I\<rparr>) ev m s)))"
    by (auto simp: waiting_def)
  with observed.IH show ?case by (intro walletInv_setWorkflow) auto
next
  case (updated cw i I m s)
  then have "waiting (ApplicationWorkflow I m)" by (auto simp: walletInv_def)
  with appChannelUpdated_shape [of "A\<lparr>ae_init := I\<rparr>" m s]
  have "waiting (ApplicationWorkflow I (appChannelUpdated (A\<lparr>ae_init := I\<rparr>) m s))"
    by (auto simp: waiting_def)
  with updated.IH show ?case by (intro walletInv_setWorkflow) auto
next
  case (other cw i x y)
  then show ?case by (intro walletInv_setWorkflow) (auto simp: waiting_def)
next
  case (store cw x)
  then show ?case by simp
qed

text \<open>
  C40: in a wallet as it comes from its requests and objectives, a request to update a channel is never
  answered. The wallet leaves it to the workflow of the channel, and every workflow of a channel is still
  waiting to be joined: it has no observer for requests.
\<close>

theorem updates_are_never_answered:
  assumes "wallet_run A W cw" and "(j, ApplicationWorkflow I m) \<in> set (cw_workflows cw)"
  shows "handleRequest W guid (PlayerStateUpdate i cid o' data) cw = cw \<and>
    appRequest (A\<lparr>ae_init := I\<rparr>) (PlayerStateUpdate i cid o' data) m s = (m, s)"
  using walletInv_run [OF assms(1)] assms(2) by (auto simp: walletInv_def waiting_def)

text \<open>no two workflows of the wallet have the same id, however often requests are repeated.\<close>

theorem workflow_ids_distinct:
  assumes "wallet_run A W cw"
  shows "distinct (map fst (cw_workflows cw))"
  using walletInv_run [OF assms] by (simp add: walletInv_def)

end
