(* ===== verification/BrowserClosingWitnesses.thy ===== *)
theory BrowserClosingWitnesses
  imports BrowserApplicationFacts BrowserWalletFacts
begin

text \<open>Concrete runs of the closing, application and wallet workflows, on which their properties are applied.\<close>

section \<open>Closing a ledger\<close>

definition closingStore :: browser_store where
  "closingStore = sampleStore\<lparr>bs_ledgers := (\<lambda>_. None)(''hub'' \<mapsto> sampleDest CHR ''l'')\<rparr>"

theorem closing_keeps_outcome_witness:
  "\<exists>st. constructFinalState closingStore ''hub'' = Inr st \<and> isFinal st \<and>
     outcomesEqual (SimpleAllocation (sampleAllocation [(CHR ''a'', 5), (CHR ''b'', 5)])) (Some (outcome st))"
proof -
  have "\<not> isl (constructFinalState closingStore ''hub'')" "\<not> isl (ledgerEntry closingStore ''hub'')" by code_simp+
  then obtain st e where st: "constructFinalState closingStore ''hub'' = Inr st" and e: "ledgerEntry closingStore ''hub'' = Inr e"
    by (cases "constructFinalState closingStore ''hub''"; cases "ledgerEntry closingStore ''hub''") auto
  let ?mine = "bindE (ledgerEntry closingStore ''hub'') latestSignedByMeOrThrow"
  have "\<not> isl ?mine" "outcome (projr ?mine) = SimpleAllocation (sampleAllocation [(CHR ''a'', 5), (CHR ''b'', 5)])"
    by code_simp+
  with e obtain mine where m: "latestSignedByMeOrThrow e = Inr mine"
    "outcome mine = SimpleAllocation (sampleAllocation [(CHR ''a'', 5), (CHR ''b'', 5)])"
    by (cases "latestSignedByMeOrThrow e") auto
  from closing_keeps_outcome [OF st e m(1)] st show ?thesis unfolding m(2) by blast
qed

section \<open>Applications\<close>

definition sampleAppEnv :: app_env where
  "sampleAppEnv = \<lparr>ae_flow = sampleFlowEnv, ae_messaging = sampleMessagingEnv, ae_abi = sampleAbi,
     ae_init = \<lparr>ai_creator = None, ai_fundingStrategy = Direct, ai_channelId = Some (sampleDest CHR ''l'')\<rparr>\<rparr>"

definition runningApplication :: app_machine where
  "runningApplication = (initApplication (ae_init sampleAppEnv))\<lparr>am_state := AppRunning, am_observing := True\<rparr>"

text \<open>The opponent has sent a final state four turns ahead.\<close>

definition blockedStore :: browser_store where
  "blockedStore = sampleStore\<lparr>bs_channels := [(sampleDest CHR ''l'',
     browserChannel\<lparr>csd_vars := (browserRow 9 ''0xB'')\<lparr>isFinal := True\<rparr> # csd_vars browserChannel\<rparr>)]\<rparr>"

lemma finalUnsupported_eval:
  "finalUnsupported s cid \<longleftrightarrow>
     (case entryIn s cid of Inl _ \<Rightarrow> False
      | Inr e \<Rightarrow> (case (entrySupported e, entryLatest e) of
          (Inr st, Some l) \<Rightarrow> \<not> isFinal st \<and> isFinal l | _ \<Rightarrow> False))"
  by (auto simp: finalUnsupported_def split: sum.splits option.splits)

theorem unsupported_final_state_blocks_witness:
  "am_state (appChannelUpdated sampleAppEnv runningApplication blockedStore) = AppClosing SigningFinalState"
proof -
  let ?w = "\<lparr>fw_store = blockedStore, fw_chain = (\<lambda>_. liveInfo)\<rparr>"
  let ?m1 = "appChannelUpdated sampleAppEnv runningApplication (fw_store ?w)"
  have "finalUnsupported (fw_store ?w) (sampleDest CHR ''l'')" unfolding finalUnsupported_eval by code_simp
  moreover have "application_step sampleAppEnv ?w ?m1 (fst (appRequest sampleAppEnv (EnableEthereumEvent 1) ?m1 (fw_store ?w)))
      (snd (appRequest sampleAppEnv (EnableEthereumEvent 1) ?m1 (fw_store ?w)))"
    by (rule application_step.request)
  ultimately show ?thesis
    using unsupported_final_state_blocks [of runningApplication "sampleDest CHR ''l''" ?w sampleAppEnv]
    by (simp add: runningApplication_def initApplication_def sampleAppEnv_def)
qed

section \<open>A wallet\<close>

definition openData :: open_channel_data where
  "openData = \<lparr>oc_targetChannelId = sampleDest CHR ''l'', oc_fundingStrategy = Direct, oc_role = None,
     oc_fundingLedgerChannelId = None\<rparr>"

definition emptyChannelWallet :: channel_wallet where
  "emptyChannelWallet = \<lparr>cw_wallet = sampleBrowserWallet\<lparr>bw_store := sampleStore\<rparr>, cw_workflows = [], cw_sent = []\<rparr>"

theorem updates_are_never_answered_witness:
  "\<exists>cw. wallet_run sampleAppEnv sampleWallet2Env cw \<and> cw_workflows cw \<noteq> [] \<and>
     handleRequest sampleWallet2Env ''guid'' (PlayerStateUpdate 3 (sampleDest CHR ''l'')
       (SimpleAllocation (sampleAllocation [(CHR ''a'', 10)])) ''0x'') cw = cw"
proof -
  let ?cw = "handleOpenChannel (ae_platform sampleAppEnv) openData emptyChannelWallet"
  let ?I = "\<lparr>ai_creator = None, ai_fundingStrategy = Direct, ai_channelId = Some (sampleDest CHR ''l'')\<rparr>"
  have run: "wallet_run sampleAppEnv sampleWallet2Env ?cw"
    by (intro wallet_run.objective wallet_run.start) (simp add: emptyChannelWallet_def)
  have e: "entryIn (bw_store (cw_wallet emptyChannelWallet)) (sampleDest CHR ''l'') = Inr (newEntry browserChannel)"
    by (simp add: emptyChannelWallet_def entryIn_def getChannel_sample)
  have "(openChannelWorkflowId openData, ApplicationWorkflow ?I (initApplication ?I)) \<in> set (cw_workflows ?cw)"
    using e
    by (simp add: handleOpenChannel_def openData_def supportedFundingStrategyOrThrow_def isWorkflowIdInUse_def
        startWorkflow_def Let_def emptyChannelWallet_def split: sum.splits)
  with updates_are_never_answered [OF run this] run show ?thesis by (intro exI [of _ ?cw]) auto
qed

section \<open>A run of an application\<close>

lemma application_moves:
  assumes "flow_run (application_step A) I h m" and "application_step A w m m' s'"
  shows "\<exists>h'. flow_run (application_step A) I h' m'"
  using assms by (rule flow_move)

lemma app_moves:
  assumes "flow_run (application_step A) I h m" and "app_step A w m m' s'"
  shows "\<exists>h'. flow_run (application_step A) I h' m'"
  using flow_move [OF assms(1)] application_step.internal [OF assms(2)] by blast

text \<open>The workflow is funding its channel, having got as far as \<open>c\<close>.\<close>

definition atFunding :: "app_env \<Rightarrow> app_machine \<Rightarrow> bytes32 \<Rightarrow> cf_state \<Rightarrow> bool" where
  "atFunding A I cid c \<longleftrightarrow>
     (\<exists>h m. flow_run (application_step A) I h m \<and> am_state m = AppFunding c \<and> am_channelId m = Some cid)"

lemma atFunding_moves:
  assumes "atFunding A I cid c" and "create_step (ae_flow A) cid (ai_fundingStrategy (ae_init A)) w c c' s'"
    and "c' \<noteq> ChannelCreated"
  shows "atFunding A I cid c'"
proof -
  from assms(1) obtain h m where m: "flow_run (application_step A) I h m" "am_state m = AppFunding c" "am_channelId m = Some cid"
    unfolding atFunding_def by blast
  from app_moves [OF m(1) app_step.funding [OF m(2,3) assms(2)]] assms(3)
  obtain h' where "flow_run (application_step A) I h' (m\<lparr>am_state := AppFunding c'\<rparr>)" by auto
  with m(3) show ?thesis unfolding atFunding_def by (intro exI [of _ h'] exI [of _ "m\<lparr>am_state := AppFunding c'\<rparr>"]) simp
qed

lemma atFunding_ends:
  assumes "atFunding A I cid c" and "create_step (ae_flow A) cid (ai_fundingStrategy (ae_init A)) w c ChannelCreated s'"
  shows "\<exists>h m. flow_run (application_step A) I h m \<and> am_state m = AppRunning"
proof -
  from assms(1) obtain h m where m: "flow_run (application_step A) I h m" "am_state m = AppFunding c" "am_channelId m = Some cid"
    unfolding atFunding_def by blast
  from app_moves [OF m(1) app_step.funding [OF m(2,3) assms(2)]] obtain h' where
    "flow_run (application_step A) I h'
       (m\<lparr>am_state := AppRunning, am_observing := True, am_sent := am_sent m @ [UIUpdate False]\<rparr>)" by auto
  then show ?thesis by (intro exI conjI) (assumption, simp)
qed

definition undomainedStore :: browser_store where
  "undomainedStore = sampleStore\<lparr>bs_channels := [(sampleDest CHR ''l'', setupChannel\<lparr>csd_applicationDomain := None\<rparr>)]\<rparr>"

text \<open>The post-fund state, signed by both.\<close>

definition postfundWorld :: flow_world where
  "postfundWorld = \<lparr>fw_store = sampleStore\<lparr>bs_channels := [(sampleDest CHR ''l'', setupChannel\<lparr>csd_vars := [(browserRow 3 ''0xA'')
     \<lparr>signatures := [\<lparr>signature = ''sig0xA'', signer = ''0xA''\<rparr>, \<lparr>signature = ''sig0xB'', signer = ''0xB''\<rparr>]\<rparr>]\<rparr>)]\<rparr>,
     fw_chain = (\<lambda>_. liveInfo)\<rparr>"

lemma sample_reaches_funding:
  "atFunding sampleAppEnv (initApplication (ae_init sampleAppEnv)) (sampleDest CHR ''l'') GetPreFund"
proof -
  let ?I = "initApplication (ae_init sampleAppEnv)" and ?w = "\<lparr>fw_store = undomainedStore, fw_chain = (\<lambda>_. liveInfo)\<rparr>"
  have j: "afterJoining sampleAppEnv = Some (AppConfirming WaitForUserConfirmation)"
    by (simp add: afterJoining_def sampleAppEnv_def)
  have r0: "flow_run (application_step sampleAppEnv) ?I [?w] ?I" by (rule flow_run.start)
  have "application_step sampleAppEnv ?w ?I (appJoin sampleAppEnv 1 ''app.com'' ?I (fw_store ?w)) (fw_store ?w)"
    by (rule application_step.join)
  from application_moves [OF r0 this]
  obtain h1 where 1: "flow_run (application_step sampleAppEnv) ?I h1 (appJoin sampleAppEnv 1 ''app.com'' ?I (fw_store ?w))"
    by (rule exE)
  have s1: "am_state (appJoin sampleAppEnv 1 ''app.com'' ?I (fw_store ?w)) = AppSettingDomain ''app.com''"
    "am_channelId (appJoin sampleAppEnv 1 ''app.com'' ?I (fw_store ?w)) = Some (sampleDest CHR ''l'')"
    by (simp_all add: appJoin_def initApplication_def sampleAppEnv_def Let_def)
  let ?d = "setapplicationDomain (sampleDest CHR ''l'') ''app.com'' (fw_store ?w)"
  have "\<not> isl (snd ?d)" by code_simp
  then have d: "?d = (fst ?d, Inr ())" by (cases ?d; cases "snd ?d") auto
  let ?m1 = "appJoin sampleAppEnv 1 ''app.com'' ?I (fw_store ?w)"
  let ?m2 = "?m1\<lparr>am_state := AppConfirming WaitForUserConfirmation,
    am_sent := am_sent ?m1 @ (if AppConfirming WaitForUserConfirmation = AppCreating then [] else [UIUpdate True])\<rparr>"
  let ?m3 = "?m2\<lparr>am_state := AppCreating\<rparr>"
  have "app_step sampleAppEnv ?w ?m1 ?m2 (fst ?d)" by (rule app_step.domain_set [OF s1 _ j]) (use d in simp)
  from app_moves [OF 1 this] obtain h2 where 2: "flow_run (application_step sampleAppEnv) ?I h2 ?m2" by (rule exE)
  have "app_step sampleAppEnv ?w ?m2 ?m3 (fw_store ?w)"
    using app_step.user [of ?m2 WaitForUserConfirmation sampleAppEnv ?w UserApproves] by simp
  from app_moves [OF 2 this] obtain h3 where 3: "flow_run (application_step sampleAppEnv) ?I h3 ?m3" by (rule exE)
  have "app_step sampleAppEnv ?w ?m3 (?m3\<lparr>am_state := AppFunding GetPreFund\<rparr>) (fw_store ?w)"
    by (rule app_step.joiner) (simp_all add: sampleAppEnv_def)
  from app_moves [OF 3 this]
  obtain h4 where 4: "flow_run (application_step sampleAppEnv) ?I h4 (?m3\<lparr>am_state := AppFunding GetPreFund\<rparr>)" by (rule exE)
  show ?thesis unfolding atFunding_def
    by (rule exI [of _ h4], rule exI [of _ "?m3\<lparr>am_state := AppFunding GetPreFund\<rparr>"]) (use 4 s1(2) in simp)
qed

theorem application_runs_only_when_funded_witness:
  "\<exists>h m. am_state m = AppRunning \<and> fundedFor sampleAppEnv h m"
proof -
  let ?A = "sampleAppEnv" and ?I = "initApplication (ae_init sampleAppEnv)" and ?l = "sampleDest CHR ''l''"
  have A: "ae_flow ?A = sampleFlowEnv" "ai_fundingStrategy (ae_init ?A) = Direct" "fe_platform sampleFlowEnv = samplePlatform"
    by (simp_all add: sampleAppEnv_def sampleFlowEnv_def)
  note step = atFunding_moves [of ?A ?I ?l, unfolded A(1,2)]
  have "getPreFundSetup (newEntry setupChannel) \<noteq> None" "getPostFundSetup (newEntry setupChannel) \<noteq> None" by code_simp+
  then obtain st0 st3 where st: "getPreFundSetup (newEntry setupChannel) = Some st0"
    "getPostFundSetup (newEntry setupChannel) = Some st3" by auto
  have "stateSupported samplePlatform (the (getPreFundSetup (newEntry setupChannel))) (fw_store (setupWorld 0))"
    "stateSupported samplePlatform (the (getPostFundSetup (newEntry setupChannel))) (fw_store postfundWorld)" by code_simp+
  then have sup: "stateSupported (fe_platform sampleFlowEnv) st0 (fw_store (setupWorld 0))"
    "stateSupported (fe_platform sampleFlowEnv) st3 (fw_store postfundWorld)" by (simp_all add: st A)
  define i where "i = projr (createDepositingInfo (fw_store (setupWorld 0)) ?l)"
  have "\<not> isl (createDepositingInfo (fw_store (setupWorld 0)) ?l)" by code_simp
  then have i: "createDepositingInfo (fw_store (setupWorld 0)) ?l = Inr i"
    by (cases "createDepositingInfo (fw_store (setupWorld 0)) ?l") (simp_all add: i_def)
  have ev: "depositEvent i (ci_amount (fw_chain (setupWorld 10) ?l)) = Some Funded" unfolding i_def by code_simp
  let ?d = "setFunding (fe_platform sampleFlowEnv) ?l DirectFunding (fw_store (setupWorld 10))"
  have "\<not> isl (snd ?d)" by code_simp
  then have d: "?d = (fst ?d, Inr ())" by (cases ?d; cases "snd ?d") auto
  have "atFunding ?A ?I ?l (SupportPreFund st0)"
    by (rule step [OF sample_reaches_funding create_step.prefund [OF setup_entry st(1)]]) simp
  from step [OF this create_step.direct [OF sup(1) refl]] have "atFunding ?A ?I ?l GetDepositingInfo" by simp
  from step [OF this create_step.info [OF i]] have "atFunding ?A ?I ?l (Depositing i DepIdle)" by simp
  from step [OF this create_step.report [OF ev]] have "atFunding ?A ?I ?l SetFundingDirect" by simp
  from step [OF this create_step.set_direct [OF d]] have "atFunding ?A ?I ?l GetPostFund" by simp
  from step [OF this create_step.postfund [OF setup_entry st(2)]] have "atFunding ?A ?I ?l (SupportPostFund st3)" by simp
  from atFunding_ends [OF this, unfolded A(1,2), OF create_step.created [OF sup(2)]]
  obtain h m where run: "flow_run (application_step ?A) ?I h m" "am_state m = AppRunning" by blast
  from application_runs_only_when_funded [OF run] run(2) show ?thesis by blast
qed

end
