(* ===== verification/BrowserHub.thy ===== *)
theory BrowserHub
  imports BrowserFlows
begin

text \<open>
  The machines of the hub, \<open>virtual-funding-as-hub.ts\<close> and \<open>virtual-defunding-as-hub.ts\<close> under
  \<open>packages/browser-wallet/src/workflows/\<close>. Each has a state with two regions that run side by side, one
  for each leaf; a step is a step of one of them.
\<close>

section \<open>Funding\<close>

text \<open>One leaf's region: its guarantor and its ledger come with the objective.\<close>

datatype hub_region =
    WaitForObjective | SupportGuarantor bytes32 bytes32 state | HubRunObjective bytes32 bytes32 lf_machine | RegionDone

text \<open>Which leaf an event is for.\<close>

fun guarantorState :: "bool \<Rightarrow> guarantor_event \<Rightarrow> state option" where
  "guarantorState left (FundGuarantorWithA st) = (if left then Some st else None)"
| "guarantorState left (FundGuarantorWithB st) = (if left then None else Some st)"

inductive region_step ::
  "platform \<Rightarrow> bytes32 \<Rightarrow> bool \<Rightarrow> allocation_item list \<Rightarrow> flow_world \<Rightarrow> hub_region \<Rightarrow> hub_region \<Rightarrow> browser_store \<Rightarrow> bool"
  for P :: platform and joint :: bytes32 and left :: bool and d :: "allocation_item list" and w :: flow_world where
  objective: "FundGuarantor ps fg \<in> set (bs_objectives (fw_store w)) \<Longrightarrow>
     watchObjective (fw_store w) joint (FundGuarantor ps fg) = Some (Inr ev) \<Longrightarrow> guarantorState left ev = Some st \<Longrightarrow>
     region_step P joint left d w WaitForObjective
       (SupportGuarantor (fg_guarantorId fg) (fg_ledgerId fg) st) (askSupport P st (fw_store w))"
| supported: "stateSupported P st (fw_store w) \<Longrightarrow>
     region_step P joint left d w (SupportGuarantor g l st) (HubRunObjective g l initLedgerFunding) (fw_store w)"
| running: "ledger_step P g l d w m m' s' \<Longrightarrow>
     region_step P joint left d w (HubRunObjective g l m)
       (if lf_st m' = LedgerFunded then RegionDone else HubRunObjective g l m') s'"

datatype vh_state =
    HubWaitForJoint | HubSupportJoint state | HubDetermineDeductions
  | HubFundJoint "allocation_item list" "allocation_item list" hub_region hub_region
  | HubWaitForJointSupport | HubSupportTarget state | HubFunded | HubFailure

inductive hub_step ::
  "platform \<Rightarrow> bytes32 \<Rightarrow> bytes32 \<Rightarrow> flow_world \<Rightarrow> vh_state \<Rightarrow> vh_state \<Rightarrow> browser_store \<Rightarrow> bool"
  for P :: platform and target :: bytes32 and joint :: bytes32 and w :: flow_world where
  first: "entryIn (fw_store w) joint = Inr e \<Longrightarrow> waitForFirstJointState e = Some (Inr st) \<Longrightarrow>
     hub_step P target joint w HubWaitForJoint (HubSupportJoint st) (askSupport P st (fw_store w))"
| refused: "entryIn (fw_store w) joint = Inr e \<Longrightarrow> waitForFirstJointState e = Some (Inl err) \<Longrightarrow>
     hub_step P target joint w HubWaitForJoint HubFailure (fw_store w)"
| joint_supported: "stateSupported P st (fw_store w) \<Longrightarrow>
     hub_step P target joint w (HubSupportJoint st) HubDetermineDeductions (fw_store w)"
| deductions: "hubDeductions (fw_store w) joint = Inr (da, db) \<Longrightarrow>
     hub_step P target joint w HubDetermineDeductions (HubFundJoint da db WaitForObjective WaitForObjective) (fw_store w)"
| left: "region_step P joint True da w ra ra' s' \<Longrightarrow>
     hub_step P target joint w (HubFundJoint da db ra rb) (HubFundJoint da db ra' rb) s'"
| right: "region_step P joint False db w rb rb' s' \<Longrightarrow>
     hub_step P target joint w (HubFundJoint da db ra rb) (HubFundJoint da db ra rb') s'"
| both: "hub_step P target joint w (HubFundJoint da db RegionDone RegionDone) HubWaitForJointSupport (fw_store w)"
| target: "entryIn (fw_store w) joint = Inr e \<Longrightarrow> jointChannelUpdate P target e = Some (Inr st) \<Longrightarrow>
     hub_step P target joint w HubWaitForJointSupport (HubSupportTarget st) (askSupport P st (fw_store w))"
| target_supported: "stateSupported P st (fw_store w) \<Longrightarrow>
     hub_step P target joint w (HubSupportTarget st) HubFunded (fw_store w)"

section \<open>Defunding\<close>

datatype defund_region = GetLedgerUpdate | SupportLedger state | DefundRegionDone

datatype hd_state =
    HubCheckChannels | HubDefundTarget hub_ids | HubSupportFinal hub_ids state
  | HubDefundGuarantors hub_ids defund_region defund_region | HubDefunded

inductive defund_region_step ::
  "platform \<Rightarrow> (browser_store \<Rightarrow> chain_info \<Rightarrow> hub_ids \<Rightarrow> state result) \<Rightarrow> hub_ids \<Rightarrow> bytes32 \<Rightarrow> flow_world \<Rightarrow>
   defund_region \<Rightarrow> defund_region \<Rightarrow> browser_store \<Rightarrow> bool"
  for P :: platform and service :: "browser_store \<Rightarrow> chain_info \<Rightarrow> hub_ids \<Rightarrow> state result" and c :: hub_ids
    and ledger :: bytes32 and w :: flow_world where
  update: "service (fw_store w) (fw_chain w ledger) c = Inr st \<Longrightarrow>
     defund_region_step P service c ledger w GetLedgerUpdate (SupportLedger st) (askSupport P st (fw_store w))"
| updated: "stateSupported P st (fw_store w) \<Longrightarrow>
     defund_region_step P service c ledger w (SupportLedger st) DefundRegionDone (fw_store w)"

text \<open>Both services read the chain's status of the left leaf's ledger.\<close>

inductive hub_defund_step ::
  "platform \<Rightarrow> bytes32 \<Rightarrow> flow_world \<Rightarrow> hd_state \<Rightarrow> hd_state \<Rightarrow> browser_store \<Rightarrow> bool"
  for P :: platform and joint :: bytes32 and w :: flow_world where
  channels: "hubChannelsService (fw_store w) joint = Inr (gs, ls) \<Longrightarrow>
     hub_defund_step P joint w HubCheckChannels
       (HubDefundTarget \<lparr>hid_joint = joint, hid_guarantors = gs, hid_ledgers = ls\<rparr>) (fw_store w)"
| final: "entryIn (fw_store w) joint = Inr e \<Longrightarrow> hubFinalJointChannelUpdate e = Some (Inr st) \<Longrightarrow>
     hub_defund_step P joint w (HubDefundTarget c) (HubSupportFinal c st) (askSupport P st (fw_store w))"
| final_supported: "stateSupported P st (fw_store w) \<Longrightarrow>
     hub_defund_step P joint w (HubSupportFinal c st) (HubDefundGuarantors c GetLedgerUpdate GetLedgerUpdate) (fw_store w)"
| left: "defund_region_step P defundLeftGuarantor c (fst (hid_ledgers c)) w ra ra' s' \<Longrightarrow>
     hub_defund_step P joint w (HubDefundGuarantors c ra rb) (HubDefundGuarantors c ra' rb) s'"
| right: "defund_region_step P defundRightGuarantor c (fst (hid_ledgers c)) w rb rb' s' \<Longrightarrow>
     hub_defund_step P joint w (HubDefundGuarantors c ra rb) (HubDefundGuarantors c ra rb') s'"
| both: "hub_defund_step P joint w (HubDefundGuarantors c DefundRegionDone DefundRegionDone) HubDefunded (fw_store w)"

section \<open>What the hub does not risk\<close>

text \<open>Facts of the two machines that need no other theory.\<close>

inductive_cases region_doneE: "region_step P joint left d w RegionDone r s"
inductive_cases defund_region_doneE: "defund_region_step P service c l w DefundRegionDone r s"

lemma region_done_stays: "\<not> region_step P joint left d w RegionDone r s"
  by (auto elim: region_doneE)

lemma defund_region_done_stays: "\<not> defund_region_step P service c l w DefundRegionDone r s"
  by (auto elim: defund_region_doneE)

end
