(* ===== verification/BrowserHubFacts.thy ===== *)
theory BrowserHubFacts
  imports BrowserHub BrowserClosingFacts
begin

text \<open>
  What the runs of the hub's machines guarantee: the hub commits itself only when both leaves have, and it
  pays out only the result it has agreed to.
\<close>

section \<open>Funding\<close>

text \<open>The guarantor of a leaf was funded by a supported update of its ledger, with the hub's deductions.\<close>

definition leafFunded :: "platform \<Rightarrow> allocation_item list \<Rightarrow> flow_world list \<Rightarrow> bool" where
  "leafFunded P d h \<longleftrightarrow> (\<exists>g l. ledgerUpdated P g l d h)"

definition regionInv :: "platform \<Rightarrow> allocation_item list \<Rightarrow> flow_world list \<Rightarrow> hub_region \<Rightarrow> bool" where
  "regionInv P d h r \<longleftrightarrow>
     (case r of
        HubRunObjective g l m \<Rightarrow> ledgerInv P g l d h m
      | RegionDone \<Rightarrow> leafFunded P d h
      | _ \<Rightarrow> True)"

lemma leafFunded_append: "leafFunded P d h \<Longrightarrow> leafFunded P d (h @ h')"
  unfolding leafFunded_def using ledgerUpdated_append by blast

lemma regionInv_later: "regionInv P d h r \<Longrightarrow> regionInv P d (h @ [w]) r"
  by (cases r) (simp_all add: regionInv_def leafFunded_append ledgerInv_later)

lemma regionInv_step:
  assumes "regionInv P d h r" and "h \<noteq> []" and "region_step P joint left d (last h) r r' s'"
  shows "regionInv P d (h @ [w]) r'"
  using assms(3)
proof (cases rule: region_step.cases)
  case (running g l m m')
  with assms have "ledgerInv P g l d (h @ [w]) m'" by (intro ledgerInv_step) (simp_all add: regionInv_def)
  moreover from this have "leafFunded P d (h @ [w])" if "lf_st m' = LedgerFunded"
    using that unfolding leafFunded_def by (intro exI) (simp add: ledgerInv_def)
  ultimately show ?thesis using running by (simp add: regionInv_def)
qed (simp_all add: regionInv_def ledgerInv_init)

text \<open>Both leaves' guarantors were funded, each with the deductions that the hub has computed for it.\<close>

definition bothFunded :: "platform \<Rightarrow> bytes32 \<Rightarrow> flow_world list \<Rightarrow> bool" where
  "bothFunded P joint h \<longleftrightarrow>
     (\<exists>da db. seen (\<lambda>w. hubDeductions (fw_store w) joint = Inr (da, db)) h \<and> leafFunded P da h \<and> leafFunded P db h)"

definition hubInv :: "platform \<Rightarrow> bytes32 \<Rightarrow> flow_world list \<Rightarrow> vh_state \<Rightarrow> bool" where
  "hubInv P joint h v \<longleftrightarrow>
     (case v of
        HubFundJoint da db ra rb \<Rightarrow> seen (\<lambda>w. hubDeductions (fw_store w) joint = Inr (da, db)) h \<and>
          regionInv P da h ra \<and> regionInv P db h rb
      | HubWaitForJointSupport \<Rightarrow> bothFunded P joint h
      | HubSupportTarget st \<Rightarrow> bothFunded P joint h
      | HubFunded \<Rightarrow> bothFunded P joint h
      | _ \<Rightarrow> True)"

lemma bothFunded_append: "bothFunded P joint h \<Longrightarrow> bothFunded P joint (h @ h')"
  unfolding bothFunded_def using leafFunded_append seen_append by blast

lemma hubInv_later: "hubInv P joint h v \<Longrightarrow> hubInv P joint (h @ [w]) v"
  by (cases v) (simp_all add: hubInv_def bothFunded_append seen_append regionInv_later)

lemma hubInv_step:
  assumes "hubInv P joint h v" and "h \<noteq> []" and "hub_step P target joint (last h) v v' s'"
  shows "hubInv P joint (h @ [w]) v'"
  using assms(3)
proof (cases rule: hub_step.cases)
  case (deductions da db)
  then have "seen (\<lambda>w. hubDeductions (fw_store w) joint = Inr (da, db)) h" using assms(2) by (intro seen_now)
  with deductions show ?thesis by (simp add: hubInv_def seen_append regionInv_def)
next
  case (left da ra ra' db rb)
  with assms(1,2) regionInv_step [of P da h ra joint True ra' s' w] show ?thesis
    by (simp add: hubInv_def seen_append regionInv_later)
next
  case (right db rb rb' da ra)
  with assms(1,2) regionInv_step [of P db h rb joint False rb' s' w] show ?thesis
    by (simp add: hubInv_def seen_append regionInv_later)
next
  case (both da db)
  with assms(1) have "bothFunded P joint h" by (auto simp: hubInv_def regionInv_def bothFunded_def)
  with both show ?thesis by (simp add: hubInv_def bothFunded_append)
qed (use assms(1) in \<open>simp_all add: hubInv_def bothFunded_append\<close>)

interpretation hubFunding: flow_invariant "hub_step P target joint" HubWaitForJoint "hubInv P joint" for P target joint
  by unfold_locales (auto simp: hubInv_def [of _ _ _ HubWaitForJoint] intro: hubInv_later hubInv_step)

text \<open>
  the hub asks for the update of the joint channel that funds the target only when the guarantors of
  both leaves were funded by supported updates of their ledgers: it never stands between a leaf that has
  committed its money and one that has not.
\<close>

theorem hub_commits_only_when_both_have:
  assumes "flow_run (hub_step P target joint) HubWaitForJoint h (HubSupportTarget st)"
  shows "bothFunded P joint h"
  using hubFunding.run_inv [OF assms] by (simp add: hubInv_def)

section \<open>Defunding\<close>

text \<open>An update of the joint channel that keeps the hub's item and the total was supported.\<close>

definition finalAgreed :: "platform \<Rightarrow> bytes32 \<Rightarrow> flow_world list \<Rightarrow> bool" where
  "finalAgreed P joint h \<longleftrightarrow>
     (\<exists>st. seenThen (\<lambda>w. \<exists>e. entryIn (fw_store w) joint = Inr e \<and> hubFinalJointChannelUpdate e = Some (Inr st))
             (\<lambda>w. stateSupported P st (fw_store w)) h)"

definition hubDefundInv :: "platform \<Rightarrow> bytes32 \<Rightarrow> flow_world list \<Rightarrow> hd_state \<Rightarrow> bool" where
  "hubDefundInv P joint h m \<longleftrightarrow>
     (case m of
        HubSupportFinal c st \<Rightarrow>
          seen (\<lambda>w. \<exists>e. entryIn (fw_store w) joint = Inr e \<and> hubFinalJointChannelUpdate e = Some (Inr st)) (butlast h)
      | HubDefundGuarantors c ra rb \<Rightarrow> finalAgreed P joint h
      | HubDefunded \<Rightarrow> finalAgreed P joint h
      | _ \<Rightarrow> True)"

lemma finalAgreed_append: "finalAgreed P joint h \<Longrightarrow> finalAgreed P joint (h @ h')"
  unfolding finalAgreed_def using seenThen_append by blast

lemma hubDefundInv_later: "hubDefundInv P joint h m \<Longrightarrow> hubDefundInv P joint (h @ [w]) m"
  by (cases m) (simp_all add: hubDefundInv_def finalAgreed_append seen_butlast)

lemma hubDefundInv_step:
  assumes "hubDefundInv P joint h m" and "h \<noteq> []" and "hub_defund_step P joint (last h) m m' s'"
  shows "hubDefundInv P joint (h @ [w]) m'"
  using assms(3)
proof (cases rule: hub_defund_step.cases)
  case (final e st c)
  with assms(2) show ?thesis by (simp add: hubDefundInv_def seen_now)
next
  case (final_supported st c)
  with assms have "finalAgreed P joint h" unfolding finalAgreed_def
    by (intro exI [of _ st] seenThen_now) (simp_all add: hubDefundInv_def)
  with final_supported show ?thesis by (simp add: hubDefundInv_def finalAgreed_append)
qed (use assms(1) in \<open>simp_all add: hubDefundInv_def finalAgreed_append\<close>)

interpretation hubDefunding: flow_invariant "hub_defund_step P joint" HubCheckChannels "hubDefundInv P joint" for P joint
  by unfold_locales (auto simp: hubDefundInv_def [of _ _ _ HubCheckChannels] intro: hubDefundInv_later hubDefundInv_step)

text \<open>
  the hub touches the leaves' ledgers only after an update of the joint channel was supported that
  leaves its own item and the total as they were.
\<close>

theorem hub_defunds_only_when_agreed:
  assumes "flow_run (hub_defund_step P joint) HubCheckChannels h (HubDefundGuarantors c ra rb)"
  shows "finalAgreed P joint h"
  using hubDefunding.run_inv [OF assms] by (simp add: hubDefundInv_def)

end
