(* ===== verification/Workers.thy ===== *)
theory Workers
  imports Engine
begin

text \<open>
  The multi-threaded engine, \<open>packages/server-wallet/src/engine/multi-threaded-engine/\<close>: a manager that
  hands the calls of the engine to a pool of worker threads (\<open>manager.ts\<close>), and the thread itself
  (\<open>worker.ts\<close>, \<open>worker-data.ts\<close>). A call of the engine is one step; the channels of messages keep
  their order; what happens between two turns of the main thread's event loop is left open. The pool
  is the library tarn: which worker it hands out, and when, is a parameter.
\<close>

section \<open>Messages\<close>

datatype worker_data =
    UpdateChannelData bytes32 "app_allocation list" string
  | PushMessageData wire_payload
  | PushUpdateData wire_payload

fun isStateChannelWorkerData :: "worker_data \<Rightarrow> bool" where
  "isStateChannelWorkerData (UpdateChannelData _ _ _) = True"
| "isStateChannelWorkerData (PushMessageData _) = True"
| "isStateChannelWorkerData (PushUpdateData _) = False"

datatype worker_result = SingleResult single_output | MultipleResult multiple_output

type_synonym reply = "worker_result result"

definition incorrectData :: reply where
  "incorrectData = Inl (Error ''Incorrect worker data'')"

text \<open>
  What the thread runs for a message. It runs it for every message, also for one it has just answered
  with an error.
\<close>

fun workerRun :: "store_env \<Rightarrow> worker_data \<Rightarrow> worker_result io" where
  "workerRun E (UpdateChannelData cid allocations data) =
     bindIO (updateChannel E cid allocations data) (\<lambda>r. returnIO (SingleResult r))"
| "workerRun E (PushMessageData m) = bindIO (pushMessage E m) (\<lambda>r. returnIO (MultipleResult r))"
| "workerRun E (PushUpdateData m) = bindIO (pushUpdate E m) (\<lambda>r. returnIO (SingleResult r))"

section \<open>The manager\<close>

text \<open>
  A call is known by its number, which is also the name of its promise and of its listener. The
  messages carry it in the model so that statements can speak of their origin; no operation depends
  on it, just as the code's messages do not have one.
\<close>

record worker =
  wk_inbox :: "(nat \<times> worker_data) list"
  wk_running :: "(nat \<times> worker_data) list"
  wk_outbox :: "(nat \<times> reply) list"
  wk_handlers :: "nat list"

text \<open>What was asked of the pool, the last first.\<close>

datatype pool_event = PoolAcquired nat | PoolReleased nat

fun inUse :: "pool_event list \<Rightarrow> nat \<Rightarrow> bool" where
  "inUse [] w = False"
| "inUse (PoolAcquired v # h) w = (v = w \<or> inUse h w)"
| "inUse (PoolReleased v # h) w = (v \<noteq> w \<and> inUse h w)"

text \<open>
  \<open>mg_todo\<close> holds the listeners that have still to be called for the message being delivered;
  \<open>mg_granted\<close> the calls that have a worker but have not gone on yet.
\<close>

record manager =
  mg_world :: world
  mg_workers :: "nat \<Rightarrow> worker"
  mg_pool :: "pool_event list"
  mg_calls :: "worker_data list"
  mg_waiting :: "nat list"
  mg_granted :: "(nat \<times> nat) list"
  mg_todo :: "(nat \<times> nat \<times> reply) list"
  mg_settled :: "(nat \<times> reply) list"

definition idleWorker :: worker where
  "idleWorker = \<lparr>wk_inbox = [], wk_running = [], wk_outbox = [], wk_handlers = []\<rparr>"

definition createManager :: "int \<Rightarrow> world \<Rightarrow> manager result" where
  "createManager threadAmount w =
     (if threadAmount = 0 then Inl (Error ''Invalid engineConfig: threadAmount should not be 0'')
      else Inr \<lparr>mg_world = w, mg_workers = (\<lambda>_. idleWorker), mg_pool = [], mg_calls = [], mg_waiting = [],
                mg_granted = [], mg_todo = [], mg_settled = []\<rparr>)"

definition atWorker :: "nat \<Rightarrow> (worker \<Rightarrow> worker) \<Rightarrow> manager \<Rightarrow> manager" where
  "atWorker w f m = m\<lparr>mg_workers := (mg_workers m)(w := f (mg_workers m w))\<rparr>"

section \<open>Its steps\<close>

text \<open>\<open>sendOperation\<close> up to its first await, the pool's grant, and the rest of \<open>sendOperation\<close>.\<close>

definition sendOperation :: "worker_data \<Rightarrow> manager \<Rightarrow> manager" where
  "sendOperation d m = m\<lparr>mg_calls := mg_calls m @ [d], mg_waiting := mg_waiting m @ [length (mg_calls m)]\<rparr>"

definition grantWorker :: "nat \<Rightarrow> nat \<Rightarrow> manager \<Rightarrow> manager" where
  "grantWorker c w m =
     m\<lparr>mg_pool := PoolAcquired w # mg_pool m, mg_waiting := filter (\<lambda>x. x \<noteq> c) (mg_waiting m),
       mg_granted := mg_granted m @ [(c, w)]\<rparr>"

definition startOperation :: "nat \<Rightarrow> nat \<Rightarrow> manager \<Rightarrow> manager" where
  "startOperation c w m =
     atWorker w (\<lambda>k. k\<lparr>wk_handlers := wk_handlers k @ [c], wk_inbox := wk_inbox k @ [(c, mg_calls m ! c)]\<rparr>)
       (m\<lparr>mg_granted := filter (\<lambda>x. x \<noteq> (c, w)) (mg_granted m)\<rparr>)"

text \<open>The thread takes the next message, and an operation it has started ends.\<close>

fun takeMessage :: "worker \<Rightarrow> worker" where
  "takeMessage k =
     (case wk_inbox k of
        [] \<Rightarrow> k
      | (c, d) # rest \<Rightarrow>
          k\<lparr>wk_inbox := rest, wk_running := wk_running k @ [(c, d)],
            wk_outbox := wk_outbox k @ (if isStateChannelWorkerData d then [] else [(c, incorrectData)])\<rparr>)"

definition receiveMessage :: "nat \<Rightarrow> manager \<Rightarrow> manager" where
  "receiveMessage w = atWorker w takeMessage"

definition finishOperation :: "store_env \<Rightarrow> nat \<Rightarrow> nat \<times> worker_data \<Rightarrow> manager \<Rightarrow> manager option" where
  "finishOperation E w x m =
     (case workerRun E (snd x) (mg_world m) of
        None \<Rightarrow> None
      | Some (world', r) \<Rightarrow>
          Some (atWorker w (\<lambda>k. k\<lparr>wk_running := remove1 x (wk_running k), wk_outbox := wk_outbox k @ [(fst x, r)]\<rparr>)
                 (m\<lparr>mg_world := world'\<rparr>)))"

text \<open>A message reaches the main thread: all listeners of the worker are called, one after the other.\<close>

definition deliverMessage :: "nat \<Rightarrow> manager \<Rightarrow> manager" where
  "deliverMessage w m =
     (case wk_outbox (mg_workers m w) of
        [] \<Rightarrow> m
      | (_, r) # rest \<Rightarrow>
          atWorker w (\<lambda>k. k\<lparr>wk_outbox := rest\<rparr>)
            (m\<lparr>mg_todo := map (\<lambda>h. (w, h, r)) (wk_handlers (mg_workers m w))\<rparr>))"

text \<open>A promise keeps what it is settled with first.\<close>

definition settlePromise :: "nat \<Rightarrow> reply \<Rightarrow> manager \<Rightarrow> manager" where
  "settlePromise c r m = (if c \<in> fst ` set (mg_settled m) then m else m\<lparr>mg_settled := mg_settled m @ [(c, r)]\<rparr>)"

fun removeListener :: "nat \<Rightarrow> reply \<Rightarrow> worker \<Rightarrow> worker" where
  "removeListener c (Inl e) k = k"
| "removeListener c (Inr x) k = k\<lparr>wk_handlers := filter (\<lambda>h. h \<noteq> c) (wk_handlers k)\<rparr>"

definition handleReply :: "manager \<Rightarrow> manager" where
  "handleReply m =
     (case mg_todo m of
        [] \<Rightarrow> m
      | (w, c, r) # rest \<Rightarrow>
          settlePromise c r (atWorker w (removeListener c r)
            (m\<lparr>mg_todo := rest, mg_pool := PoolReleased w # mg_pool m\<rparr>)))"

text \<open>
  \<open>warmUpThreads\<close> takes as many workers as there are and gives them back; it is called before anything
  else is.
\<close>

definition warmUpThreads :: "nat list \<Rightarrow> manager \<Rightarrow> manager" where
  "warmUpThreads ws m = m\<lparr>mg_pool := map PoolReleased (rev ws) @ map PoolAcquired (rev ws) @ mg_pool m\<rparr>"

text \<open>
  The main thread runs the listeners of a message without interruption; only the pool can hand out
  a worker in between, which it does inside the call that releases one. \<open>grants\<close> tells which workers
  the pool may hand out after what was asked of it.
\<close>

inductive manager_step ::
  "(pool_event list \<Rightarrow> nat \<Rightarrow> bool) \<Rightarrow> store_env \<Rightarrow> manager \<Rightarrow> manager \<Rightarrow> bool"
  for grants :: "pool_event list \<Rightarrow> nat \<Rightarrow> bool" and E :: store_env where
  send: "mg_todo m = [] \<Longrightarrow> manager_step grants E m (sendOperation d m)"
| grant: "c \<in> set (mg_waiting m) \<Longrightarrow> grants (mg_pool m) w \<Longrightarrow> manager_step grants E m (grantWorker c w m)"
| start: "mg_todo m = [] \<Longrightarrow> (c, w) \<in> set (mg_granted m) \<Longrightarrow> manager_step grants E m (startOperation c w m)"
| receive: "wk_inbox (mg_workers m w) \<noteq> [] \<Longrightarrow> manager_step grants E m (receiveMessage w m)"
| finish: "x \<in> set (wk_running (mg_workers m w)) \<Longrightarrow> finishOperation E w x m = Some m' \<Longrightarrow>
    manager_step grants E m m'"
| deliver: "mg_todo m = [] \<Longrightarrow> wk_outbox (mg_workers m w) \<noteq> [] \<Longrightarrow>
    manager_step grants E m (deliverMessage w m)"
| handle: "mg_todo m \<noteq> [] \<Longrightarrow> manager_step grants E m (handleReply m)"

inductive_cases manager_stepE: "manager_step grants E m m'"

end
