(* ===== verification/WorkersFacts.thy ===== *)
theory WorkersFacts
  imports Workers EngineFixtures
begin

text \<open>
  What the pool of worker threads guarantees: as long as no call is rejected, every call gets its own
  answer, because a worker serves one call at a time. A rejected call leaves its listener behind, and
  then both fail.
\<close>

section \<open>The calls that workers serve\<close>

text \<open>What the library documents: it hands out only workers that are not in use.\<close>

definition exclusivePool :: "(pool_event list \<Rightarrow> nat \<Rightarrow> bool) \<Rightarrow> bool" where
  "exclusivePool grants \<longleftrightarrow> (\<forall>h w. grants h w \<longrightarrow> \<not> inUse h w)"

definition answers :: "store_env \<Rightarrow> worker_data \<Rightarrow> reply \<Rightarrow> bool" where
  "answers E d r \<longleftrightarrow> (\<exists>x x'. workerRun E d x = Some (x', r))"

definition unrejected :: "manager \<Rightarrow> bool" where
  "unrejected m \<longleftrightarrow> (\<forall>(c, r) \<in> set (mg_settled m). \<not> isl r)"

abbreviation silent :: "manager \<Rightarrow> nat \<Rightarrow> bool" where
  "silent m w \<equiv> \<forall>x \<in> set (mg_todo m). fst x \<noteq> w"

text \<open>
  Where call \<open>c\<close> is, for the worker \<open>w\<close> that serves it: with the pool, on its way to the worker, being
  run, on its way back, or at its listener. After an error only the way back matters.
\<close>

inductive serving :: "store_env \<Rightarrow> manager \<Rightarrow> nat \<Rightarrow> nat \<Rightarrow> bool" for E :: store_env and m :: manager and w c :: nat where
  granted: "(c, w) \<in> set (mg_granted m) \<Longrightarrow> mg_workers m w = idleWorker \<Longrightarrow> silent m w \<Longrightarrow> serving E m w c"
| sent: "mg_workers m w = idleWorker\<lparr>wk_handlers := [c], wk_inbox := [(c, mg_calls m ! c)]\<rparr> \<Longrightarrow>
    (c, w) \<notin> set (mg_granted m) \<Longrightarrow> silent m w \<Longrightarrow> serving E m w c"
| running: "mg_workers m w = idleWorker\<lparr>wk_handlers := [c], wk_running := [(c, mg_calls m ! c)]\<rparr> \<Longrightarrow>
    (c, w) \<notin> set (mg_granted m) \<Longrightarrow> silent m w \<Longrightarrow> serving E m w c"
| answered: "mg_workers m w = idleWorker\<lparr>wk_handlers := [c], wk_outbox := [(c, r)]\<rparr> \<Longrightarrow>
    answers E (mg_calls m ! c) r \<Longrightarrow> (c, w) \<notin> set (mg_granted m) \<Longrightarrow> silent m w \<Longrightarrow> serving E m w c"
| refused: "wk_handlers (mg_workers m w) = [c] \<Longrightarrow> wk_inbox (mg_workers m w) = [] \<Longrightarrow>
    wk_outbox (mg_workers m w) = (c, Inl e) # rest \<Longrightarrow>
    (c, w) \<notin> set (mg_granted m) \<Longrightarrow> silent m w \<Longrightarrow> serving E m w c"
| settling: "mg_workers m w = idleWorker\<lparr>wk_handlers := [c]\<rparr> \<Longrightarrow> mg_todo m = [(w, c, r)] \<Longrightarrow>
    answers E (mg_calls m ! c) r \<Longrightarrow> (c, w) \<notin> set (mg_granted m) \<Longrightarrow> serving E m w c"
| rejecting: "mg_todo m = [(w, c, Inl e)] \<Longrightarrow> (c, w) \<notin> set (mg_granted m) \<Longrightarrow> serving E m w c"

definition unsettled :: "manager \<Rightarrow> nat \<Rightarrow> bool" where
  "unsettled m c \<longleftrightarrow> c < length (mg_calls m) \<and> c \<notin> fst ` set (mg_settled m)"

definition orderly :: "store_env \<Rightarrow> (nat \<Rightarrow> nat option) \<Rightarrow> manager \<Rightarrow> bool" where
  "orderly E f m \<longleftrightarrow>
     (\<forall>c \<in> set (mg_waiting m). unsettled m c \<and> (\<forall>w. f w \<noteq> Some c)) \<and>
     (\<forall>c w. f w = Some c \<longrightarrow> unsettled m c \<and> (\<forall>v. f v = Some c \<longrightarrow> v = w) \<and> serving E m w c) \<and>
     (\<forall>w. inUse (mg_pool m) w \<longleftrightarrow> f w \<noteq> None) \<and>
     (\<forall>c w. (c, w) \<in> set (mg_granted m) \<longrightarrow> f w = Some c) \<and>
     (\<forall>w c r. (w, c, r) \<in> set (mg_todo m) \<longrightarrow> f w = Some c) \<and>
     (\<forall>w. f w = None \<longrightarrow> mg_workers m w = idleWorker) \<and>
     (\<forall>c r. (c, r) \<in> set (mg_settled m) \<longrightarrow> c < length (mg_calls m) \<and> answers E (mg_calls m ! c) r)"

lemma orderlyI:
  assumes "\<And>c. c \<in> set (mg_waiting m) \<Longrightarrow> unsettled m c"
    and "\<And>c w. c \<in> set (mg_waiting m) \<Longrightarrow> f w \<noteq> Some c"
    and "\<And>c w. f w = Some c \<Longrightarrow> unsettled m c"
    and "\<And>c v w. f w = Some c \<Longrightarrow> f v = Some c \<Longrightarrow> v = w"
    and "\<And>c w. f w = Some c \<Longrightarrow> serving E m w c"
    and "\<And>w. inUse (mg_pool m) w \<longleftrightarrow> f w \<noteq> None"
    and "\<And>c w. (c, w) \<in> set (mg_granted m) \<Longrightarrow> f w = Some c"
    and "\<And>w c r. (w, c, r) \<in> set (mg_todo m) \<Longrightarrow> f w = Some c"
    and "\<And>w. f w = None \<Longrightarrow> mg_workers m w = idleWorker"
    and "\<And>c r. (c, r) \<in> set (mg_settled m) \<Longrightarrow> c < length (mg_calls m) \<and> answers E (mg_calls m ! c) r"
  shows "orderly E f m"
  unfolding orderly_def by (intro conjI allI ballI impI) (simp_all add: assms(1-9) assms(10) [THEN conjunct1] assms(10) [THEN conjunct2])

lemma orderlyD:
  assumes "orderly E f m"
  shows "\<And>c. c \<in> set (mg_waiting m) \<Longrightarrow> unsettled m c"
    and "\<And>c w. c \<in> set (mg_waiting m) \<Longrightarrow> f w \<noteq> Some c"
    and "\<And>c w. f w = Some c \<Longrightarrow> unsettled m c"
    and "\<And>c v w. f w = Some c \<Longrightarrow> f v = Some c \<Longrightarrow> v = w"
    and "\<And>c w. f w = Some c \<Longrightarrow> serving E m w c"
    and "\<And>w. inUse (mg_pool m) w \<longleftrightarrow> f w \<noteq> None"
    and "\<And>c w. (c, w) \<in> set (mg_granted m) \<Longrightarrow> f w = Some c"
    and "\<And>w c r. (w, c, r) \<in> set (mg_todo m) \<Longrightarrow> f w = Some c"
    and "\<And>w. f w = None \<Longrightarrow> mg_workers m w = idleWorker"
    and "\<And>c r. (c, r) \<in> set (mg_settled m) \<Longrightarrow> c < length (mg_calls m) \<and> answers E (mg_calls m ! c) r"
  using assms by (simp_all add: orderly_def) blast

text \<open>A worker is not affected by what happens elsewhere.\<close>

lemma serving_frame:
  assumes "serving E m w c" and "mg_workers m' w = mg_workers m w" and "(c, w) \<in> set (mg_granted m') \<longleftrightarrow> (c, w) \<in> set (mg_granted m)"
    and "mg_calls m' ! c = mg_calls m ! c" and "mg_todo m' = mg_todo m \<or> silent m w \<and> silent m' w"
  shows "serving E m' w c"
  using assms(1)
proof cases
  case granted
  then show ?thesis using assms(2-) by (intro serving.granted) auto
next
  case sent
  then show ?thesis using assms(2-) by (intro serving.sent) auto
next
  case running
  then show ?thesis using assms(2-) by (intro serving.running) auto
next
  case (answered r)
  then show ?thesis using assms(2-) by (intro serving.answered [where r = r]) auto
next
  case (refused e rest)
  then show ?thesis using assms(2-) by (intro serving.refused [where e = e and rest = rest]) auto
next
  case (settling r)
  then show ?thesis using assms(2-) by (intro serving.settling [where r = r]) auto
next
  case (rejecting e)
  then show ?thesis using assms(2-) by (intro serving.rejecting [where e = e]) auto
qed

lemma orderly_send:
  assumes "orderly E f m"
  shows "orderly E f (sendOperation d m)"
proof -
  note o = orderlyD [OF assms]
  have old: "(mg_calls m @ [d]) ! c = mg_calls m ! c" if "c < length (mg_calls m)" for c
    using that by (simp add: nth_append)
  have kept: "unsettled (sendOperation d m) c" if "unsettled m c" for c
    using that by (simp add: unsettled_def sendOperation_def)
  have new: "unsettled (sendOperation d m) (length (mg_calls m))"
    using o(10) by (force simp: unsettled_def sendOperation_def)
  have unserved: "f w \<noteq> Some (length (mg_calls m))" for w using o(3) by (auto simp: unsettled_def)
  show ?thesis
  proof (rule orderlyI)
    fix c w assume "f w = Some c"
    then show "serving E (sendOperation d m) w c"
      using o(3) by (intro serving_frame [OF o(5)]) (auto simp: sendOperation_def unsettled_def old)
  next
    fix c r assume "(c, r) \<in> set (mg_settled (sendOperation d m))"
    then show "c < length (mg_calls (sendOperation d m)) \<and> answers E (mg_calls (sendOperation d m) ! c) r"
      using o(10) [of c r] by (simp add: sendOperation_def old)
  next
    fix c assume "c \<in> set (mg_waiting (sendOperation d m))"
    then show "unsettled (sendOperation d m) c"
      using o(1) kept new by (auto simp: sendOperation_def)
  next
    fix c w assume "c \<in> set (mg_waiting (sendOperation d m))"
    then show "f w \<noteq> Some c" using o(2) unserved by (auto simp: sendOperation_def)
  qed (use o(3,4,6-9) kept in \<open>simp_all add: sendOperation_def\<close>)
qed

lemma orderly_grant:
  assumes "orderly E f m" and "c \<in> set (mg_waiting m)" and "\<not> inUse (mg_pool m) w"
  shows "orderly E (f(w \<mapsto> c)) (grantWorker c w m)"
proof -
  note o = orderlyD [OF assms(1)]
  have free: "f w = None" using o(6) assms(3) by simp
  have quiet: "silent m w" using o(8) free by fastforce
  have kept: "unsettled (grantWorker c w m) = unsettled m" by (simp add: unsettled_def grantWorker_def fun_eq_iff)
  have "serving E (grantWorker c w m) w c"
    using o(9) [OF free] quiet by (intro serving.granted) (simp_all add: grantWorker_def)
  moreover have "serving E (grantWorker c w m) v c'" if "f v = Some c'" "v \<noteq> w" for v c'
    by (rule serving_frame [OF o(5) [OF that(1)]]) (use that in \<open>simp_all add: grantWorker_def\<close>)
  ultimately have serves: "serving E (grantWorker c w m) v c'" if "(f(w \<mapsto> c)) v = Some c'" for v c'
    using that by (simp split: if_splits)
  have unserved: "f v \<noteq> Some c" for v using o(2) assms(2) by simp
  show ?thesis
  proof (rule orderlyI)
    fix v x u assume "(f(w \<mapsto> c)) u = Some x" "(f(w \<mapsto> c)) v = Some x"
    then show "v = u" using o(4) unserved by (simp split: if_splits)
  next
    fix x v assume "(x, v) \<in> set (mg_granted (grantWorker c w m))"
    then show "(f(w \<mapsto> c)) v = Some x" using o(7) free by (fastforce simp: grantWorker_def)
  next
    fix v x r assume "(v, x, r) \<in> set (mg_todo (grantWorker c w m))"
    then show "(f(w \<mapsto> c)) v = Some x" using o(8) free by (fastforce simp: grantWorker_def)
  next
    fix v x assume "(f(w \<mapsto> c)) v = Some x"
    then show "unsettled (grantWorker c w m) x" using o(1,3) assms(2) by (simp add: kept split: if_splits)
  qed (use o(1,2,6,9,10) serves kept in \<open>auto simp: grantWorker_def split: if_splits\<close>)
qed

lemma atWorker_simps [simp]:
  "mg_workers (atWorker w f m) = (mg_workers m)(w := f (mg_workers m w))"
  "mg_pool (atWorker w f m) = mg_pool m" "mg_calls (atWorker w f m) = mg_calls m"
  "mg_waiting (atWorker w f m) = mg_waiting m" "mg_granted (atWorker w f m) = mg_granted m"
  "mg_todo (atWorker w f m) = mg_todo m" "mg_settled (atWorker w f m) = mg_settled m"
  by (simp_all add: atWorker_def)

text \<open>A step at one worker in use keeps order if that worker goes on serving its call.\<close>

lemma orderly_at:
  assumes "orderly E f m" and "f w = Some c" and "serving E m' w c"
    and "\<And>v. v \<noteq> w \<Longrightarrow> mg_workers m' v = mg_workers m v"
    and "\<And>c' v. v \<noteq> w \<Longrightarrow> (c', v) \<in> set (mg_granted m') \<longleftrightarrow> (c', v) \<in> set (mg_granted m)"
    and "\<And>c'. (c', w) \<in> set (mg_granted m') \<Longrightarrow> c' = c"
    and "mg_calls m' = mg_calls m" and "mg_waiting m' = mg_waiting m" and "mg_pool m' = mg_pool m"
    and "mg_settled m' = mg_settled m"
    and "mg_todo m' = mg_todo m \<or> mg_todo m = [] \<and> (\<forall>x \<in> set (mg_todo m'). fst x = w \<and> fst (snd x) = c)"
  shows "orderly E f m'"
proof -
  note o = orderlyD [OF assms(1)]
  have kept: "unsettled m' = unsettled m" using assms(7,10) by (simp add: unsettled_def fun_eq_iff)
  show ?thesis
  proof (rule orderlyI)
    fix c' v assume *: "f v = Some c'"
    show "serving E m' v c'"
    proof (cases "v = w")
      case True
      with * assms(2,3) show ?thesis by simp
    next
      case False
      show ?thesis by (rule serving_frame [OF o(5) [OF *]]) (use assms(4,5,7,11) False in auto)
    qed
  next
    fix v c' r assume "(v, c', r) \<in> set (mg_todo m')"
    then show "f v = Some c'" using assms(2,11) o(8) by (cases "mg_todo m' = mg_todo m") auto
  next
    fix c' v assume "(c', v) \<in> set (mg_granted m')"
    then show "f v = Some c'" using assms(2,5,6) o(7) by (cases "v = w") auto
  next
    fix v assume "f v = None"
    then show "mg_workers m' v = idleWorker" using assms(2,4) o(9) by (cases "v = w") auto
  qed (use o(1-4,6,10) assms(7-10) kept in simp_all)
qed

lemma orderly_start:
  assumes "orderly E f m" and "mg_todo m = []" and "(c, w) \<in> set (mg_granted m)"
  shows "orderly E f (startOperation c w m)"
proof -
  note o = orderlyD [OF assms(1)]
  have f: "f w = Some c" by (rule o(7) [OF assms(3)])
  have "mg_workers m w = idleWorker" using o(5) [OF f] assms(2,3) by cases simp_all
  then have "serving E (startOperation c w m) w c"
    using assms(2) by (intro serving.sent) (simp_all add: startOperation_def idleWorker_def)
  moreover have "c' = c" if "(c', w) \<in> set (mg_granted m)" for c' using o(7) [OF that] f by simp
  ultimately show ?thesis by (intro orderly_at [OF assms(1) f]) (auto simp: startOperation_def)
qed

text \<open>Steps of the worker itself: the manager's lists stay as they are.\<close>

lemma orderly_worker:
  assumes "orderly E f m" and "f w = Some c" and "serving E m' w c"
    and "mg_workers m' = (mg_workers m)(w := k)" and "mg_granted m' = mg_granted m" and "mg_calls m' = mg_calls m"
    and "mg_waiting m' = mg_waiting m" and "mg_pool m' = mg_pool m" and "mg_settled m' = mg_settled m"
    and "mg_todo m' = mg_todo m"
  shows "orderly E f m'"
proof -
  have "c' = c" if "(c', w) \<in> set (mg_granted m)" for c' using orderlyD(7) [OF assms(1) that] assms(2) by simp
  with assms(4-) show ?thesis by (intro orderly_at [OF assms(1-3)]) simp_all
qed

lemma orderly_busy:
  assumes "orderly E f m" and "mg_workers m w \<noteq> idleWorker"
  obtains c where "f w = Some c" and "serving E m w c"
  using orderlyD(5,9) [OF assms(1)] assms(2) by (cases "f w") auto

lemma orderly_receive:
  assumes "orderly E f m" and "wk_inbox (mg_workers m w) \<noteq> []"
  shows "orderly E f (receiveMessage w m)"
proof -
  obtain c where f: "f w = Some c" and s: "serving E m w c"
    by (rule orderly_busy [OF assms(1), of w]) (use assms(2) in \<open>auto simp: idleWorker_def\<close>)
  from s have "serving E (receiveMessage w m) w c"
  proof cases
    case sent
    show ?thesis
    proof (cases "isStateChannelWorkerData (mg_calls m ! c)")
      case True
      with sent show ?thesis by (intro serving.running) (simp_all add: receiveMessage_def idleWorker_def)
    next
      case False
      with sent show ?thesis
        by (intro serving.refused [where e = "Error ''Incorrect worker data''" and rest = "[]"])
          (simp_all add: receiveMessage_def idleWorker_def incorrectData_def)
    qed
  next
    case (rejecting e)
    then show ?thesis by (intro serving.rejecting [where e = e]) (simp_all add: receiveMessage_def)
  qed (use assms(2) in \<open>simp_all add: idleWorker_def\<close>)
  from orderly_worker [OF assms(1) f this] show ?thesis by (simp add: receiveMessage_def)
qed

lemma orderly_finish:
  assumes "orderly E f m" and "x \<in> set (wk_running (mg_workers m w))" and "finishOperation E w x m = Some m'"
  shows "orderly E f m'"
proof -
  obtain c where f: "f w = Some c" and s: "serving E m w c"
    by (rule orderly_busy [OF assms(1), of w]) (use assms(2) in \<open>auto simp: idleWorker_def\<close>)
  from assms(3) obtain world' r where run: "workerRun E (snd x) (mg_world m) = Some (world', r)"
    and m': "m' = atWorker w (\<lambda>k. k\<lparr>wk_running := remove1 x (wk_running k), wk_outbox := wk_outbox k @ [(fst x, r)]\<rparr>)
                 (m\<lparr>mg_world := world'\<rparr>)"
    by (auto simp: finishOperation_def split: option.splits)
  from s have "serving E m' w c"
  proof cases
    case running
    with assms(2) have x: "x = (c, mg_calls m ! c)" by simp
    with run have "answers E (mg_calls m ! c) r" by (auto simp: answers_def)
    with running x show ?thesis by (intro serving.answered [where r = r]) (simp_all add: m' idleWorker_def)
  next
    case (refused e rest)
    then show ?thesis by (intro serving.refused [where e = e and rest = "rest @ [(fst x, r)]"]) (simp_all add: m')
  next
    case (rejecting e)
    then show ?thesis by (intro serving.rejecting [where e = e]) (simp_all add: m')
  qed (use assms(2) in \<open>simp_all add: idleWorker_def\<close>)
  from orderly_worker [OF assms(1) f this] show ?thesis by (simp add: m')
qed

lemma orderly_deliver:
  assumes "orderly E f m" and "mg_todo m = []" and "wk_outbox (mg_workers m w) \<noteq> []"
  shows "orderly E f (deliverMessage w m)"
proof -
  note o = orderlyD [OF assms(1)]
  obtain c where f: "f w = Some c" and s: "serving E m w c"
    by (rule orderly_busy [OF assms(1), of w]) (use assms(3) in \<open>auto simp: idleWorker_def\<close>)
  from s have d: "serving E (deliverMessage w m) w c \<and> wk_handlers (mg_workers m w) = [c]"
  proof cases
    case (answered r)
    then show ?thesis by (intro conjI serving.settling [where r = r]) (simp_all add: deliverMessage_def idleWorker_def)
  next
    case (refused e rest)
    then show ?thesis by (intro conjI serving.rejecting [where e = e]) (simp_all add: deliverMessage_def)
  qed (use assms(2,3) in \<open>simp_all add: idleWorker_def\<close>)
  have g: "c' = c" if "(c', w) \<in> set (mg_granted m)" for c' using o(7) [OF that] f by simp
  show ?thesis
    by (rule orderly_at [OF assms(1) f conjunct1 [OF d]])
      (use assms(2) d g in \<open>auto simp: deliverMessage_def split: list.splits\<close>)
qed

lemma settlePromise_settled: "set (mg_settled m) \<subseteq> set (mg_settled (settlePromise c r m))"
  by (auto simp: settlePromise_def)

lemma orderly_handle:
  assumes "orderly E f m" and "mg_todo m \<noteq> []" and "unrejected (handleReply m)"
  shows "\<exists>f'. orderly E f' (handleReply m)"
proof -
  note o = orderlyD [OF assms(1)]
  obtain w c r rest where todo: "mg_todo m = (w, c, r) # rest" by (metis assms(2) list.exhaust prod_cases3)
  then have f: "f w = Some c" using o(8) [of w c r] by simp
  let ?k = "atWorker w (removeListener c r) (m\<lparr>mg_todo := rest, mg_pool := PoolReleased w # mg_pool m\<rparr>)"
  have fresh: "c \<notin> fst ` set (mg_settled m)" and c: "c < length (mg_calls m)" using o(3) [OF f] by (auto simp: unsettled_def)
  have h: "handleReply m = ?k\<lparr>mg_settled := mg_settled m @ [(c, r)]\<rparr>"
    using fresh by (simp add: handleReply_def todo settlePromise_def)
  have right: "\<not> isl r" using assms(3) by (simp add: h unrejected_def)
  from o(5) [OF f] todo right have
    s: "mg_workers m w = idleWorker\<lparr>wk_handlers := [c]\<rparr>" "rest = []" "answers E (mg_calls m ! c) r" "(c, w) \<notin> set (mg_granted m)"
    by (cases; auto)+
  then have idle: "removeListener c r (mg_workers m w) = idleWorker" using right by (cases r) (simp_all add: idleWorker_def)
  have "orderly E (f(w := None)) (handleReply m)"
  proof (rule orderlyI)
    fix x v assume *: "(f(w := None)) v = Some x"
    then have v: "v \<noteq> w" "f v = Some x" by (auto split: if_splits)
    with o(4) f have "x \<noteq> c" by blast
    then show "unsettled (handleReply m) x" using o(3) [OF v(2)] by (simp add: unsettled_def h)
    show "serving E (handleReply m) v x"
      by (rule serving_frame [OF o(5) [OF v(2)]]) (use v(1) s(2) todo in \<open>simp_all add: h\<close>)
  next
    fix x assume *: "x \<in> set (mg_waiting (handleReply m))"
    then have "x \<noteq> c" using o(2) f by (auto simp: h)
    with * show "unsettled (handleReply m) x" using o(1) [of x] by (simp add: unsettled_def h)
  next
    fix x v assume *: "(x, v) \<in> set (mg_granted (handleReply m))"
    then have "f v = Some x" using o(7) by (simp add: h)
    moreover have "v \<noteq> w" using * s(4) calculation f by (auto simp: h)
    ultimately show "(f(w := None)) v = Some x" by simp
  next
    fix x q assume "(x, q) \<in> set (mg_settled (handleReply m))"
    then show "x < length (mg_calls (handleReply m)) \<and> answers E (mg_calls (handleReply m) ! x) q"
      using o(10) c s(3) by (auto simp: h)
  next
    fix x v u assume "(f(w := None)) u = Some x" "(f(w := None)) v = Some x"
    then show "v = u" using o(4) by (simp split: if_splits)
  next
    fix x v assume "x \<in> set (mg_waiting (handleReply m))"
    then show "(f(w := None)) v \<noteq> Some x" using o(2) by (simp add: h)
  next
    fix v show "inUse (mg_pool (handleReply m)) v = ((f(w := None)) v \<noteq> None)" using o(6) by (simp add: h)
  next
    fix v assume "(f(w := None)) v = None"
    then show "mg_workers (handleReply m) v = idleWorker" using o(9) idle by (simp add: h split: if_splits)
  qed (simp add: h s(2))
  then show ?thesis by blast
qed

lemma manager_step_settled:
  assumes "manager_step grants E m m'"
  shows "set (mg_settled m) \<subseteq> set (mg_settled m')"
  using assms
proof cases
  case handle
  then show ?thesis by (auto simp: handleReply_def settlePromise_def split: list.splits)
qed (auto simp: sendOperation_def grantWorker_def startOperation_def receiveMessage_def deliverMessage_def
      finishOperation_def split: list.splits option.splits)

lemma orderly_step:
  assumes "manager_step grants E m m'" and "exclusivePool grants" and "orderly E f m" and "unrejected m'"
  shows "\<exists>f'. orderly E f' m'"
  using assms(1)
proof cases
  case (send d)
  then show ?thesis using orderly_send [OF assms(3)] by metis
next
  case (grant c w)
  with assms(2) have "\<not> inUse (mg_pool m) w" by (simp add: exclusivePool_def)
  with grant orderly_grant [OF assms(3)] show ?thesis by metis
next
  case (start c w)
  then show ?thesis using orderly_start [OF assms(3)] by metis
next
  case (receive w)
  then show ?thesis using orderly_receive [OF assms(3)] by metis
next
  case (finish x w)
  then show ?thesis using orderly_finish [OF assms(3)] by metis
next
  case (deliver w)
  then show ?thesis using orderly_deliver [OF assms(3)] by metis
next
  case handle
  then show ?thesis using orderly_handle [OF assms(3)] assms(4) by metis
qed

lemma warm_pool: "\<not> inUse (mg_pool m) w \<Longrightarrow> \<not> inUse (mg_pool (warmUpThreads ws m)) w"
proof -
  assume "\<not> inUse (mg_pool m) w"
  then have "inUse (map PoolAcquired vs @ mg_pool m) w \<longleftrightarrow> w \<in> set vs" for vs by (induction vs) auto
  moreover have "inUse (map PoolReleased vs @ h) w \<longleftrightarrow> w \<notin> set vs \<and> inUse h w" for vs h by (induction vs) auto
  ultimately show ?thesis by (simp add: warmUpThreads_def)
qed

lemma orderly_initially:
  assumes "createManager n d = Inr m"
  shows "orderly E (\<lambda>_. None) (warmUpThreads ws m)"
  using assms warm_pool [of m _ ws]
  by (intro orderlyI) (auto simp: createManager_def warmUpThreads_def split: if_splits)

lemma orderly_run:
  assumes "(manager_step grants E)\<^sup>*\<^sup>* m0 m" and "exclusivePool grants" and "orderly E f m0" and "unrejected m"
  shows "\<exists>f'. orderly E f' m"
  using assms(1,4)
proof (induction rule: rtranclp_induct)
  case (step y z)
  from manager_step_settled [OF step.hyps(2)] step.prems have "unrejected y" by (auto simp: unrejected_def)
  with step.IH orderly_step [OF step.hyps(2) assms(2)] step.prems show ?case by blast
qed (use assms(3) in blast)

text \<open>
  C33: as long as no call was rejected, every call that has come back has its own answer: what the engine
  gave for the data of that very call.
\<close>

theorem calls_get_their_own_answer:
  assumes "createManager n d = Inr m0" and "exclusivePool grants"
    and "(manager_step grants E)\<^sup>*\<^sup>* (warmUpThreads ws m0) m"
    and "\<And>c r. (c, r) \<in> set (mg_settled m) \<Longrightarrow> \<not> isl r" and "(c, r) \<in> set (mg_settled m)"
  shows "\<exists>x x'. workerRun E (mg_calls m ! c) x = Some (x', r)"
proof -
  have "unrejected m" using assms(4) by (auto simp: unrejected_def)
  from orderly_run [OF assms(3,2) orderly_initially [OF assms(1)] this] obtain f where "orderly E f m" by blast
  from orderlyD(10) [OF this assms(5)] show ?thesis by (simp add: answers_def)
qed

section \<open>Runs given move by move\<close>

datatype move = Send worker_data | Grant nat nat | Start nat nat | Receive nat | Finish nat | Deliver nat | Handle

fun execMove :: "(pool_event list \<Rightarrow> nat \<Rightarrow> bool) \<Rightarrow> store_env \<Rightarrow> move \<Rightarrow> manager \<Rightarrow> manager option" where
  "execMove g E (Send d) m = (if mg_todo m = [] then Some (sendOperation d m) else None)"
| "execMove g E (Grant c w) m = (if c \<in> set (mg_waiting m) \<and> g (mg_pool m) w then Some (grantWorker c w m) else None)"
| "execMove g E (Start c w) m =
     (if mg_todo m = [] \<and> (c, w) \<in> set (mg_granted m) then Some (startOperation c w m) else None)"
| "execMove g E (Receive w) m = (if wk_inbox (mg_workers m w) \<noteq> [] then Some (receiveMessage w m) else None)"
| "execMove g E (Finish w) m =
     (case wk_running (mg_workers m w) of [] \<Rightarrow> None | x # _ \<Rightarrow> finishOperation E w x m)"
| "execMove g E (Deliver w) m =
     (if mg_todo m = [] \<and> wk_outbox (mg_workers m w) \<noteq> [] then Some (deliverMessage w m) else None)"
| "execMove g E Handle m = (if mg_todo m \<noteq> [] then Some (handleReply m) else None)"

fun execMoves :: "(pool_event list \<Rightarrow> nat \<Rightarrow> bool) \<Rightarrow> store_env \<Rightarrow> move list \<Rightarrow> manager \<Rightarrow> manager option" where
  "execMoves g E [] m = Some m"
| "execMoves g E (x # xs) m = (case execMove g E x m of None \<Rightarrow> None | Some m' \<Rightarrow> execMoves g E xs m')"

lemma execMove_step: "execMove g E x m = Some m' \<Longrightarrow> manager_step g E m m'"
proof (cases x)
  case (Finish w)
  moreover assume "execMove g E x m = Some m'"
  ultimately obtain y ys where "wk_running (mg_workers m w) = y # ys" "finishOperation E w y m = Some m'"
    by (auto split: list.splits)
  then show ?thesis by (intro manager_step.finish [where x = y and w = w]) simp_all
qed (auto intro: manager_step.intros split: if_splits)

lemma execMoves_run: "execMoves g E xs m = Some m' \<Longrightarrow> (manager_step g E)\<^sup>*\<^sup>* m m'"
  by (induction xs arbitrary: m)
    (auto split: option.splits intro: converse_rtranclp_into_rtranclp dest!: execMove_step)

lemmas manager_defs = sendOperation_def grantWorker_def startOperation_def receiveMessage_def finishOperation_def
  deliverMessage_def handleReply_def settlePromise_def atWorker_def idleWorker_def incorrectData_def

lemma createManager_eq:
  "createManager n d = Inr m \<Longrightarrow>
   m = \<lparr>mg_world = d, mg_workers = (\<lambda>_. idleWorker), mg_pool = [], mg_calls = [], mg_waiting = [],
        mg_granted = [], mg_todo = [], mg_settled = []\<rparr>"
  by (simp add: createManager_def split: if_splits)

text \<open>
  C37: the thread refuses the data of an update that was pushed, and runs it all the same. The caller is
  told that its data is incorrect; and whatever call comes next, there is a run in which it is sent
  before the result of the update arrives and in which that result becomes its answer.
\<close>

theorem pushed_update_answers_the_next_call:
  assumes "createManager n d = Inr m0" and "\<And>h w. grants h w \<longleftrightarrow> w < threads \<and> \<not> inUse h w" and "0 < threads"
    and "workerRun E (PushUpdateData p) d = Some (d', r)"
  shows "\<exists>m. (manager_step grants E)\<^sup>*\<^sup>* m0 m \<and> mg_calls m = [PushUpdateData p, q] \<and>
    mg_settled m = [(0, incorrectData), (1, r)]"
proof -
  let ?moves = "[Send (PushUpdateData p), Grant 0 0, Start 0 0, Receive 0, Deliver 0, Handle,
    Send q, Grant 1 0, Start 1 0, Finish 0, Deliver 0, Handle, Handle]"
  have "\<exists>m. execMoves grants E ?moves m0 = Some m \<and> mg_calls m = [PushUpdateData p, q] \<and>
      mg_settled m = [(0, incorrectData), (1, r)]"
    by (cases r) (simp_all add: createManager_eq [OF assms(1)] manager_defs assms(2-4) del: workerRun.simps)
  then show ?thesis using execMoves_run by blast
qed

text \<open>
  after a call that failed, its listener gives back the worker of the next call a second time. The
  pool has handed it out again by then, so two further calls are sent to one worker at once, which is
  what the comment in \<open>sendOperation\<close> takes to be impossible.
\<close>

theorem failed_call_shares_a_worker:
  assumes "createManager n d = Inr m0" and "\<And>h w. grants h w \<longleftrightarrow> w < threads \<and> \<not> inUse h w" and "0 < threads"
    and "isStateChannelWorkerData q0" and "isStateChannelWorkerData q1"
    and "workerRun E q0 d = Some (d1, Inl e)" and "workerRun E q1 d1 = Some (d2, r)"
  shows "\<exists>m w. (manager_step grants E)\<^sup>*\<^sup>* m0 m \<and> mg_calls m = [q0, q1, q2, q3] \<and>
    wk_inbox (mg_workers m w) = [(2, q2), (3, q3)]"
proof -
  let ?moves = "[Send q0, Send q1, Send q2, Send q3, Grant 0 0, Start 0 0, Receive 0, Finish 0, Deliver 0, Handle,
    Grant 1 0, Start 1 0, Receive 0, Finish 0, Deliver 0, Handle, Grant 2 0, Handle, Grant 3 0, Start 2 0, Start 3 0]"
  have "\<exists>m. execMoves grants E ?moves m0 = Some m \<and> mg_calls m = [q0, q1, q2, q3] \<and>
      wk_inbox (mg_workers m 0) = [(2, q2), (3, q3)]"
    by (cases r) (simp_all add: createManager_eq [OF assms(1)] manager_defs assms(2-7) nth_Cons' del: workerRun.simps)
  then show ?thesis using execMoves_run by blast
qed

section \<open>Concrete runs\<close>

definition blankPayload :: wire_payload where
  "blankPayload = \<lparr>wp_walletVersion = ''1'', wp_signedStates = None, wp_objectives = None, wp_requests = None\<rparr>"

definition onlyWorker :: "pool_event list \<Rightarrow> nat \<Rightarrow> bool" where
  "onlyWorker h w \<longleftrightarrow> w < 1 \<and> \<not> inUse h w"

lemma sample_push: obtains x d where "workerRun sampleEnv (PushMessageData blankPayload) (worldOf (sampleDb [])) = Some (d, Inr x)"
proof -
  have "case workerRun sampleEnv (PushMessageData blankPayload) (worldOf (sampleDb [])) of Some (d, Inr x) \<Rightarrow> True | _ \<Rightarrow> False"
    by code_simp
  then show ?thesis using that by (auto split: option.splits prod.splits sum.splits)
qed

lemma sample_pushed_update:
  obtains d x where "workerRun sampleEnv (PushUpdateData blankPayload) (worldOf (sampleDb [])) = Some (d, x)"
proof -
  have "workerRun sampleEnv (PushUpdateData blankPayload) (worldOf (sampleDb [])) \<noteq> None" by code_simp
  then show ?thesis using that by auto
qed

lemma sample_failure:
  obtains d1 e d2 r where "workerRun sampleEnv (UpdateChannelData [] [] []) (worldOf (sampleDb [])) = Some (d1, Inl e)"
    and "workerRun sampleEnv (PushMessageData blankPayload) d1 = Some (d2, r)"
proof -
  have "case workerRun sampleEnv (UpdateChannelData [] [] []) (worldOf (sampleDb [])) of
      Some (d1, Inl e) \<Rightarrow> workerRun sampleEnv (PushMessageData blankPayload) d1 \<noteq> None | _ \<Rightarrow> False" by code_simp
  then show ?thesis using that by (auto split: option.splits prod.splits sum.splits)
qed

lemma sample_manager: obtains m0 where "createManager 1 (worldOf (sampleDb [])) = Inr m0"
  by (simp add: createManager_def)

text \<open>One call, a message without content, on one worker that was warmed up.\<close>

theorem calls_get_their_own_answer_witness:
  "\<exists>m0 m x d d'. createManager 1 (worldOf (sampleDb [])) = Inr m0 \<and>
     (manager_step onlyWorker sampleEnv)\<^sup>*\<^sup>* (warmUpThreads [0] m0) m \<and>
     mg_settled m = [(0, Inr x)] \<and> workerRun sampleEnv (mg_calls m ! 0) d = Some (d', Inr x)"
proof -
  obtain m0 where m0: "createManager 1 (worldOf (sampleDb [])) = Inr m0" by (rule sample_manager)
  obtain x d where run: "workerRun sampleEnv (PushMessageData blankPayload) (worldOf (sampleDb [])) = Some (d, Inr x)"
    by (rule sample_push)
  let ?moves = "[Send (PushMessageData blankPayload), Grant 0 0, Start 0 0, Receive 0, Finish 0, Deliver 0, Handle]"
  have "\<exists>m. execMoves onlyWorker sampleEnv ?moves (warmUpThreads [0] m0) = Some m \<and> mg_settled m = [(0, Inr x)]"
    by (simp add: createManager_eq [OF m0] manager_defs warmUpThreads_def onlyWorker_def run del: workerRun.simps)
  then obtain m where m: "(manager_step onlyWorker sampleEnv)\<^sup>*\<^sup>* (warmUpThreads [0] m0) m" "mg_settled m = [(0, Inr x)]"
    using execMoves_run by blast
  have "exclusivePool onlyWorker" by (simp add: exclusivePool_def onlyWorker_def)
  from calls_get_their_own_answer [OF m0 this m(1), of 0 "Inr x"] m m0 show ?thesis by auto
qed

theorem pushed_update_answers_the_next_call_witness:
  "\<exists>m0 m r d. createManager 1 (worldOf (sampleDb [])) = Inr m0 \<and> (manager_step onlyWorker sampleEnv)\<^sup>*\<^sup>* m0 m \<and>
     mg_calls m = [PushUpdateData blankPayload, PushMessageData blankPayload] \<and>
     workerRun sampleEnv (PushUpdateData blankPayload) (worldOf (sampleDb [])) = Some (d, r) \<and>
     mg_settled m = [(0, incorrectData), (1, r)]"
proof -
  obtain m0 where m0: "createManager 1 (worldOf (sampleDb [])) = Inr m0" by (rule sample_manager)
  obtain d r where run: "workerRun sampleEnv (PushUpdateData blankPayload) (worldOf (sampleDb [])) = Some (d, r)"
    by (rule sample_pushed_update)
  from pushed_update_answers_the_next_call [OF m0 onlyWorker_def zero_less_one run, of "PushMessageData blankPayload"] m0 run
  show ?thesis by blast
qed

theorem failed_call_shares_a_worker_witness:
  "\<exists>m0 m w. createManager 1 (worldOf (sampleDb [])) = Inr m0 \<and> (manager_step onlyWorker sampleEnv)\<^sup>*\<^sup>* m0 m \<and>
     wk_inbox (mg_workers m w) = [(2, PushMessageData blankPayload), (3, PushMessageData blankPayload)]"
proof -
  obtain m0 where m0: "createManager 1 (worldOf (sampleDb [])) = Inr m0" by (rule sample_manager)
  obtain d1 e d2 r where run: "workerRun sampleEnv (UpdateChannelData [] [] []) (worldOf (sampleDb [])) = Some (d1, Inl e)"
    "workerRun sampleEnv (PushMessageData blankPayload) d1 = Some (d2, r)" by (rule sample_failure)
  from failed_call_shares_a_worker [OF m0 onlyWorker_def _ _ _ run] m0 show ?thesis by fastforce
qed

end
