(* ===== verification/MessageService.thy ===== *)
theory MessageService
  imports WireFormat Complex_Main
begin

text \<open>
  The class \<open>TestMessageService\<close> of \<open>packages/server-wallet/src/message-service/test-message-service.ts\<close>, by
  which the wallets of one process talk to each other. What a wallet does with a message is a
  parameter, as are the random numbers; waiting is left out, but what can happen meanwhile is not.
\<close>

section \<open>A service\<close>

record latency_options =
  dropRate :: rat
  meanDelay :: "rat option"

record message_service =
  ts_options :: latency_options
  ts_frozen :: bool
  ts_queue :: "wire_message list"
  ts_destroyed :: bool
  ts_linked :: bool

text \<open>A service in front of a wallet, whose state its handler changes.\<close>

record 's endpoint =
  ep_service :: message_service
  ep_wallet :: 's

type_synonym 's message_handler = "wire_message \<Rightarrow> 's \<Rightarrow> 's \<times> unit result"

definition createService :: message_service where
  "createService = \<lparr>ts_options = \<lparr>dropRate = 0, meanDelay = None\<rparr>, ts_frozen = False, ts_queue = [],
     ts_destroyed = False, ts_linked = False\<rparr>"

definition freeze :: "message_service \<Rightarrow> message_service" where
  "freeze s = s\<lparr>ts_frozen := True\<rparr>"

definition destroyService :: "message_service \<Rightarrow> message_service" where
  "destroyService s = s\<lparr>ts_destroyed := True\<rparr>"

text \<open>Merging options: what is not given stays.\<close>

definition setLatencyOptions :: "rat option \<Rightarrow> rat option \<Rightarrow> message_service \<Rightarrow> message_service" where
  "setLatencyOptions rate delay s =
     s\<lparr>ts_options := \<lparr>dropRate = (case rate of None \<Rightarrow> dropRate (ts_options s) | Some x \<Rightarrow> x),
                      meanDelay = (case delay of None \<Rightarrow> meanDelay (ts_options s) | Some x \<Rightarrow> Some x)\<rparr>\<rparr>"

section \<open>Handling and sending\<close>

text \<open>One message after the other; an error of the wallet ends the loop.\<close>

fun handleMessages :: "'s message_handler \<Rightarrow> wire_message list \<Rightarrow> 's endpoint \<Rightarrow> 's endpoint \<times> unit result" where
  "handleMessages h [] p = (p, Inr ())"
| "handleMessages h (x # xs) p =
     (if ts_destroyed (ep_service p) then handleMessages h xs p
      else case h x (ep_wallet p) of
             (s, Inl e) \<Rightarrow> (p\<lparr>ep_wallet := s\<rparr>, Inl e)
           | (s, Inr _) \<Rightarrow> handleMessages h xs (p\<lparr>ep_wallet := s\<rparr>))"

definition unfreeze :: "'s message_handler \<Rightarrow> 's endpoint \<Rightarrow> 's endpoint \<times> unit result" where
  "unfreeze h p =
     (let p1 = p\<lparr>ep_service := (ep_service p)\<lparr>ts_frozen := False\<rparr>\<rparr>
      in handleMessages h (ts_queue (ep_service p1)) p1)"

definition linkMessageServices :: "'s endpoint \<times> 's endpoint \<Rightarrow> 's endpoint \<times> 's endpoint" where
  "linkMessageServices = (\<lambda>(p, q).
     (p\<lparr>ep_service := (ep_service p)\<lparr>ts_linked := True\<rparr>\<rparr>, q\<lparr>ep_service := (ep_service q)\<lparr>ts_linked := True\<rparr>\<rparr>))"

definition shouldDrop :: "rat \<Rightarrow> message_service \<Rightarrow> bool" where
  "shouldDrop random s \<longleftrightarrow> random > 1 - dropRate (ts_options s)"

definition delays :: "message_service \<Rightarrow> bool" where
  "delays s \<longleftrightarrow> (case meanDelay (ts_options s) of None \<Rightarrow> False | Some d \<Rightarrow> d \<noteq> 0)"

text \<open>
  \<open>send\<close> in two parts, before and after the delay. The first says whether there is anything left to
  do. A service that was destroyed has aborted its delays, which then reject.
\<close>

definition beginSend :: "rat \<Rightarrow> wire_message list \<Rightarrow> message_service \<Rightarrow> message_service \<times> bool" where
  "beginSend random ms s =
     (if ts_frozen s then (s\<lparr>ts_queue := ts_queue s @ ms\<rparr>, False)
      else (s, \<not> shouldDrop random s))"

definition completeSend ::
  "'s message_handler \<Rightarrow> bool \<Rightarrow> wire_message list \<Rightarrow> message_service \<Rightarrow> 's endpoint \<Rightarrow> 's endpoint \<times> unit result" where
  "completeSend h delayed ms origin peer =
     (if ts_destroyed origin
      then (peer, if delayed then Inl (Error ''AbortError'') else Inr ())
      else if \<not> ts_linked origin then (peer, Inl (Error ''No sendMessage defined''))
      else handleMessages h ms peer)"

text \<open>The whole of \<open>send\<close>, when nothing else happens during the delay.\<close>

definition send ::
  "'s message_handler \<Rightarrow> rat \<Rightarrow> wire_message list \<Rightarrow> 's endpoint \<times> 's endpoint \<Rightarrow> ('s endpoint \<times> 's endpoint) \<times> unit result" where
  "send h random ms = (\<lambda>(p, q).
     case beginSend random ms (ep_service p) of
       (s, False) \<Rightarrow> ((p\<lparr>ep_service := s\<rparr>, q), Inr ())
     | (s, True) \<Rightarrow>
         (case completeSend h (delays s) ms s q of (q1, r) \<Rightarrow> ((p\<lparr>ep_service := s\<rparr>, q1), r)))"

text \<open>
  The static functions for both wallets of a test: they stop at the first service that is of another
  class.
\<close>

datatype any_service = TestService message_service | OtherService

fun onTestServices :: "(message_service \<Rightarrow> message_service) \<Rightarrow> any_service list \<Rightarrow> any_service list \<times> unit result" where
  "onTestServices f [] = ([], Inr ())"
| "onTestServices f (OtherService # xs) =
     (OtherService # xs, Inl (Error ''Can only set latency options on a TestMessageService''))"
| "onTestServices f (TestService s # xs) =
     (case onTestServices f xs of (ys, r) \<Rightarrow> (TestService (f s) # ys, r))"

section \<open>What arrives\<close>

text \<open>What a wallet becomes by handling messages without an error.\<close>

definition handled :: "'s message_handler \<Rightarrow> wire_message list \<Rightarrow> 's \<Rightarrow> 's" where
  "handled h ms s = foldl (\<lambda>s m. fst (h m s)) s ms"

lemma handled_simps [simp]:
  "handled h [] s = s" "handled h (m # ms) s = handled h ms (fst (h m s))"
  "handled h (ms @ ns) s = handled h ns (handled h ms s)"
  by (simp_all add: handled_def)

lemma handleMessages_handled:
  assumes "\<And>m s. snd (h m s) = Inr ()" and "\<not> ts_destroyed (ep_service p)"
  shows "handleMessages h ms p = (p\<lparr>ep_wallet := handled h ms (ep_wallet p)\<rparr>, Inr ())"
  using assms(2)
proof (induction ms arbitrary: p)
  case (Cons m ms)
  obtain s r where *: "h m (ep_wallet p) = (s, r)" by fastforce
  with assms(1) [of m "ep_wallet p"] have "r = Inr ()" by simp
  with * Cons.IH [of "p\<lparr>ep_wallet := s\<rparr>"] Cons.prems show ?case by simp
qed simp

fun sendAll ::
  "'s message_handler \<Rightarrow> (rat \<times> wire_message list) list \<Rightarrow> 's endpoint \<times> 's endpoint \<Rightarrow> 's endpoint \<times> 's endpoint" where
  "sendAll h [] pq = pq"
| "sendAll h ((random, ms) # xs) pq = sendAll h xs (fst (send h random ms pq))"

text \<open>
  between two linked services that drop nothing, all messages arrive, in the order they were sent and
  each once.
\<close>

theorem linked_messages_arrive_in_order:
  assumes "\<And>m s. snd (h m s) = Inr ()" and "\<And>x. x \<in> set batches \<Longrightarrow> fst x < 1"
    and "ep_service p = createService\<lparr>ts_linked := True\<rparr>"
    and "\<not> ts_destroyed (ep_service q)"
  shows "ep_wallet (snd (sendAll h batches (p, q))) = handled h (concat (map snd batches)) (ep_wallet q) \<and>
    fst (sendAll h batches (p, q)) = p"
  using assms(2,4)
proof (induction batches arbitrary: q)
  case (Cons x xs)
  obtain random ms where x: "x = (random, ms)" by fastforce
  with Cons.prems(1) have "random < 1" by force
  with assms(3) have "fst (send h random ms (p, q)) = (p, q\<lparr>ep_wallet := handled h ms (ep_wallet q)\<rparr>)"
    by (simp add: send_def beginSend_def completeSend_def createService_def shouldDrop_def
        handleMessages_handled [OF assms(1) Cons.prems(2)])
  then show ?case using Cons.IH [of "q\<lparr>ep_wallet := handled h ms (ep_wallet q)\<rparr>"] Cons.prems by (simp add: x)
qed simp

text \<open>
  messages sent while the service was frozen go to the wrong wallet. When it is unfrozen, the sender
  handles them itself, the receiver never sees them; and as they stay in the queue, the sender handles
  them again each time.
\<close>

theorem frozen_messages_come_back:
  assumes "\<And>m s. snd (h m s) = Inr ()" and "\<not> ts_destroyed (ep_service p)" and "ts_queue (ep_service p) = []"
    and "send h random ms (p\<lparr>ep_service := freeze (ep_service p)\<rparr>, q) = ((p1, q1), r)"
  shows "q1 = q \<and> ep_wallet (fst (unfreeze h p1)) = handled h ms (ep_wallet p) \<and>
    ep_wallet (fst (unfreeze h (fst (unfreeze h p1)))) = handled h (ms @ ms) (ep_wallet p)"
proof -
  from assms(3,4) have 1: "q1 = q" "ts_queue (ep_service p1) = ms" "ep_wallet p1 = ep_wallet p"
    "ts_destroyed (ep_service p1) = ts_destroyed (ep_service p)"
    by (auto simp: send_def beginSend_def freeze_def)
  have un: "unfreeze h x = (x\<lparr>ep_service := (ep_service x)\<lparr>ts_frozen := False\<rparr>,
      ep_wallet := handled h (ts_queue (ep_service x)) (ep_wallet x)\<rparr>, Inr ())"
    if "\<not> ts_destroyed (ep_service x)" for x
    using that by (simp add: unfreeze_def handleMessages_handled [OF assms(1)])
  show ?thesis using 1 assms(2) by (simp add: un)
qed

section \<open>Concrete services\<close>

definition noteMessage :: "string list message_handler" where
  "noteMessage m s = (s @ [recipient m], Inr ())"

definition sampleEndpoint :: "string list endpoint" where
  "sampleEndpoint = \<lparr>ep_service = createService\<lparr>ts_linked := True\<rparr>, ep_wallet = []\<rparr>"

definition messageFor :: "string \<Rightarrow> wire_message" where
  "messageFor r = \<lparr>recipient = r, sender = None,
     msg_data = \<lparr>wp_walletVersion = ''1'', wp_signedStates = None, wp_objectives = None, wp_requests = None\<rparr>\<rparr>"

theorem linked_messages_arrive_in_order_witness:
  "ep_wallet (snd (sendAll noteMessage [(0, [messageFor ''b'', messageFor ''c'']), (1 / 2, [messageFor ''d''])]
     (sampleEndpoint, sampleEndpoint))) = [''b'', ''c'', ''d'']"
proof -
  let ?batches = "[(0, [messageFor ''b'', messageFor ''c'']), (1 / 2 :: rat, [messageFor ''d''])]"
  have q: "ep_service sampleEndpoint = createService\<lparr>ts_linked := True\<rparr>" "ep_wallet sampleEndpoint = []"
    and live: "\<not> ts_destroyed (ep_service sampleEndpoint)" and h: "\<And>m s. snd (noteMessage m s) = Inr ()"
    by (simp_all add: sampleEndpoint_def createService_def noteMessage_def)
  have ok: "fst x < 1" if "x \<in> set ?batches" for x using that by auto
  from linked_messages_arrive_in_order [where h = noteMessage and batches = ?batches, OF h ok q(1) live]
  have "ep_wallet (snd (sendAll noteMessage ?batches (sampleEndpoint, sampleEndpoint))) =
      handled noteMessage (concat (map snd ?batches)) []" unfolding q(2) by blast
  then show ?thesis by (simp add: noteMessage_def messageFor_def del: sendAll.simps)
qed

theorem frozen_messages_come_back_witness:
  "ep_wallet (fst (unfreeze noteMessage (fst (fst (send noteMessage 0 [messageFor ''b'']
     (sampleEndpoint\<lparr>ep_service := freeze (ep_service sampleEndpoint)\<rparr>, sampleEndpoint)))))) = [''b'']"
proof -
  obtain p1 q1 r where sent: "send noteMessage 0 [messageFor ''b'']
      (sampleEndpoint\<lparr>ep_service := freeze (ep_service sampleEndpoint)\<rparr>, sampleEndpoint) = ((p1, q1), r)"
    by (metis prod.collapse)
  then have "ep_wallet (fst (unfreeze noteMessage p1)) = handled noteMessage [messageFor ''b''] []"
    using frozen_messages_come_back [of noteMessage sampleEndpoint 0 "[messageFor ''b'']" sampleEndpoint p1 q1 r]
    by (simp add: noteMessage_def sampleEndpoint_def createService_def)
  with sent show ?thesis by (simp add: noteMessage_def messageFor_def)
qed

end
