(* ===== verification/AssetContract.thy ===== *)
theory AssetContract
  imports AssetHolder "HOL-Library.Word"
begin

unbundle bit_operations_syntax

text \<open>
  The contracts \<open>MultiAssetHolder.sol\<close>, \<open>StatusManager.sol\<close> and \<open>transferAllAssets\<close> of \<open>NitroAdjudicator.sol\<close> under
  \<open>packages/nitro-protocol/contracts\<close>. They are compiled for Solidity 0.7.4, so \<open>+\<close> and \<open>-\<close> on \<open>uint256\<close> wrap
  around except where SafeMath is called. None is a revert. Lengths and positions in memory are far
  below \<open>2 ^ 256\<close> and are natural numbers; bytes are their hex strings. A call pays out at its end, and
  who is paid in ether may call again before the payments are done; so a call is its effects together
  with the payments it leaves (\<open>ForceMove\<close> has the runs). The call of a token returns without calling back.
\<close>

section \<open>Data\<close>

type_synonym evm_word = "256 word"

type_synonym evm_address = "160 word"

record sol_allocation =
  sa_destination :: evm_word
  sa_amount :: evm_word
  sa_type :: "8 word"
  sa_metadata :: string

record asset_exit =
  xe_asset :: evm_address
  xe_metadata :: string
  xe_allocations :: "sol_allocation list"

definition emptyAllocation :: sol_allocation where
  "emptyAllocation = \<lparr>sa_destination = 0, sa_amount = 0, sa_type = 0, sa_metadata = ''0x''\<rparr>"

definition minWord :: "evm_word \<Rightarrow> evm_word \<Rightarrow> evm_word" where
  "minWord a b = (if a > b then b else a)"

fun requireIncreasingIndices :: "evm_word list \<Rightarrow> bool" where
  "requireIncreasingIndices (x # y # ys) = (x < y \<and> requireIncreasingIndices (y # ys))"
| "requireIncreasingIndices _ = True"

definition isExternalWord :: "evm_word \<Rightarrow> bool" where
  "isExternalWord d \<longleftrightarrow> drop_bit 160 d = 0"

section \<open>Computing a transfer\<close>

record transfer_memory =
  tm_new :: "sol_allocation list"
  tm_onlyZeros :: bool
  tm_exits :: "sol_allocation list"
  tm_payouts :: evm_word
  tm_surplus :: evm_word
  tm_cursor :: nat

definition selects :: "evm_word list \<Rightarrow> nat \<Rightarrow> nat \<Rightarrow> bool" where
  "selects indices k i \<longleftrightarrow> indices = [] \<or> (k < length indices \<and> unat (indices ! k) = i)"

text \<open>The check looks at the allocation of the cursor, not at the one being paid out.\<close>

definition transferItem ::
  "evm_word list \<Rightarrow> sol_allocation list \<Rightarrow> nat \<Rightarrow> transfer_memory \<Rightarrow> transfer_memory option" where
  "transferItem indices allocations i s =
     (let a = allocations ! i;
          k = tm_cursor s;
          affords = minWord (sa_amount a) (tm_surplus s)
      in if selects indices k i
         then
           if \<not> k < length allocations \<or> sa_type (allocations ! k) = 2 then None
           else
             (let new = sa_amount a - affords in
              Some (s\<lparr>tm_new := tm_new s @ [a\<lparr>sa_amount := new\<rparr>],
                      tm_exits := (tm_exits s)[k := a\<lparr>sa_amount := affords\<rparr>],
                      tm_payouts := tm_payouts s + affords,
                      tm_cursor := Suc k,
                      tm_onlyZeros := (if new \<noteq> 0 then False else tm_onlyZeros s),
                      tm_surplus := tm_surplus s - affords\<rparr>))
         else
           Some (s\<lparr>tm_new := tm_new s @ [a],
                   tm_onlyZeros := (if sa_amount a \<noteq> 0 then False else tm_onlyZeros s),
                   tm_surplus := tm_surplus s - affords\<rparr>))"

fun transferItems ::
  "evm_word list \<Rightarrow> sol_allocation list \<Rightarrow> nat list \<Rightarrow> transfer_memory \<Rightarrow> transfer_memory option" where
  "transferItems indices allocations [] s = Some s"
| "transferItems indices allocations (i # is) s =
     (case transferItem indices allocations i s of
        None \<Rightarrow> None | Some s' \<Rightarrow> transferItems indices allocations is s')"

definition transferEffects :: "evm_word \<Rightarrow> sol_allocation list \<Rightarrow> evm_word list \<Rightarrow> transfer_memory option" where
  "transferEffects initialHoldings allocations indices =
     transferItems indices allocations [0..<length allocations]
       \<lparr>tm_new = [], tm_onlyZeros = True,
        tm_exits = replicate (if indices \<noteq> [] then length indices else length allocations) emptyAllocation,
        tm_payouts = 0, tm_surplus = initialHoldings, tm_cursor = 0\<rparr>"

section \<open>Computing a claim\<close>

record claim_memory =
  cm_source :: "sol_allocation list"
  cm_target :: "sol_allocation list"
  cm_exits :: "sol_allocation list"
  cm_payouts :: evm_word
  cm_surplus :: evm_word
  cm_cursor :: nat

fun surplusAfter :: "evm_word \<Rightarrow> sol_allocation list \<Rightarrow> evm_word" where
  "surplusAfter s [] = s"
| "surplusAfter s (a # as) = (if s = 0 then s else surplusAfter (s - minWord (sa_amount a) s) as)"

text \<open>What is afforded comes from the amounts before the claim, and replaces the amount of the exit.\<close>

definition claimFound ::
  "evm_word list \<Rightarrow> sol_allocation list \<Rightarrow> nat \<Rightarrow> nat \<Rightarrow> claim_memory \<Rightarrow> claim_memory" where
  "claimFound indices targets g i s =
     (let affords = minWord (sa_amount (targets ! i)) (cm_surplus s);
          s1 = s\<lparr>cm_surplus := cm_surplus s - affords\<rparr>
      in if selects indices (cm_cursor s) i
         then s1\<lparr>cm_target := (cm_target s)[i := (cm_target s ! i)\<lparr>sa_amount := sa_amount (cm_target s ! i) - affords\<rparr>],
                 cm_source := (cm_source s)[g := (cm_source s ! g)\<lparr>sa_amount := sa_amount (cm_source s ! g) - affords\<rparr>],
                 cm_exits := (cm_exits s)[i := (cm_exits s ! i)\<lparr>sa_amount := affords\<rparr>],
                 cm_payouts := cm_payouts s + affords,
                 cm_cursor := Suc (cm_cursor s)\<rparr>
         else s1)"

fun claimFind ::
  "evm_word list \<Rightarrow> sol_allocation list \<Rightarrow> nat \<Rightarrow> evm_word \<Rightarrow> nat list \<Rightarrow> claim_memory \<Rightarrow> claim_memory" where
  "claimFind indices targets g d [] s = s"
| "claimFind indices targets g d (i # is) s =
     (if cm_surplus s = 0 then s
      else if d = sa_destination (cm_target s ! i) then claimFound indices targets g i s
      else claimFind indices targets g d is s)"

fun claimDestinations ::
  "evm_word list \<Rightarrow> sol_allocation list \<Rightarrow> nat \<Rightarrow> evm_word list \<Rightarrow> claim_memory \<Rightarrow> claim_memory" where
  "claimDestinations indices targets g [] s = s"
| "claimDestinations indices targets g (d # ds) s =
     (if cm_surplus s = 0 then s
      else claimDestinations indices targets g ds (claimFind indices targets g d [0..<length (cm_target s)] s))"

text \<open>\<open>decode\<close> is \<open>abi.decode\<close>, which reverts on what it cannot read.\<close>

definition claimEffects ::
  "(string \<Rightarrow> evm_word list option) \<Rightarrow> evm_word \<Rightarrow> sol_allocation list \<Rightarrow> sol_allocation list \<Rightarrow> nat \<Rightarrow>
   evm_word list \<Rightarrow> claim_memory option" where
  "claimEffects decode initialHoldings sources targets g indices =
     (if \<not> g < length sources then None
      else
        (case decode (sa_metadata (sources ! g)) of
           None \<Rightarrow> None
         | Some ds \<Rightarrow>
             Some (claimDestinations indices targets g ds
               \<lparr>cm_source = sources, cm_target = targets,
                cm_exits = map (\<lambda>a. a\<lparr>sa_amount := 0\<rparr>) targets, cm_payouts = 0,
                cm_surplus = minWord (surplusAfter initialHoldings (take g sources)) (sa_amount (sources ! g)),
                cm_cursor = 0\<rparr>)))"

section \<open>Status words\<close>

record evm_env =
  keccakBytes :: "string \<Rightarrow> evm_word"
  encodeExits :: "asset_exit list \<Rightarrow> string"
  encodeBytes :: "string \<Rightarrow> string"
  decodeExits :: "string \<Rightarrow> asset_exit list option"
  decodeDestinations :: "string \<Rightarrow> evm_word list option"
  hashPair :: "evm_word \<Rightarrow> evm_word \<Rightarrow> evm_word"

datatype sol_mode = SolOpen | SolChallenge | SolFinalized

definition unpackStatus :: "evm_word \<Rightarrow> 48 word \<times> 48 word \<times> 160 word" where
  "unpackStatus w = (ucast (drop_bit 208 w), ucast (drop_bit 160 w), ucast w)"

definition generateFingerprint :: "'x evm_env_scheme \<Rightarrow> evm_word \<Rightarrow> evm_word \<Rightarrow> 160 word" where
  "generateFingerprint V stateHash outcomeHash = ucast (hashPair V stateHash outcomeHash)"

definition generateStatus :: "'x evm_env_scheme \<Rightarrow> 48 word \<Rightarrow> 48 word \<Rightarrow> evm_word \<Rightarrow> evm_word \<Rightarrow> evm_word" where
  "generateStatus V turnNumRecord finalizesAt stateHash outcomeHash =
     push_bit 208 (ucast turnNumRecord) OR push_bit 160 (ucast finalizesAt) OR
     ucast (generateFingerprint V stateHash outcomeHash)"

definition modeOfStatus :: "evm_word \<Rightarrow> evm_word \<Rightarrow> sol_mode" where
  "modeOfStatus now status =
     (case unpackStatus status of (_, finalizesAt, _) \<Rightarrow>
        if finalizesAt = 0 then SolOpen
        else if ucast finalizesAt \<le> now then SolFinalized
        else SolChallenge)"

section \<open>State\<close>

record adjudicator =
  ad_holdings :: "evm_address \<Rightarrow> evm_word \<Rightarrow> evm_word"
  ad_statusOf :: "evm_word \<Rightarrow> evm_word"
  ad_balance :: nat
  ad_now :: evm_word

definition setHoldings :: "evm_address \<Rightarrow> evm_word \<Rightarrow> evm_word \<Rightarrow> adjudicator \<Rightarrow> adjudicator" where
  "setHoldings asset c v s = s\<lparr>ad_holdings := (ad_holdings s)(asset := (ad_holdings s asset)(c := v))\<rparr>"

text \<open>\<open>ad_now\<close> is the time of the block, which is no storage of the contract.\<close>

definition solModeOf :: "adjudicator \<Rightarrow> evm_word \<Rightarrow> sol_mode" where
  "solModeOf s c = modeOfStatus (ad_now s) (ad_statusOf s c)"

definition requireChannelFinalized :: "evm_word \<Rightarrow> adjudicator \<Rightarrow> bool" where
  "requireChannelFinalized c s \<longleftrightarrow> solModeOf s c = SolFinalized"

definition requireMatchingFingerprint :: "'x evm_env_scheme \<Rightarrow> evm_word \<Rightarrow> evm_word \<Rightarrow> evm_word \<Rightarrow> adjudicator \<Rightarrow> bool" where
  "requireMatchingFingerprint V stateHash outcomeHash c s \<longleftrightarrow>
     (case unpackStatus (ad_statusOf s c) of (_, _, f) \<Rightarrow> f = generateFingerprint V stateHash outcomeHash)"

definition updateFingerprint :: "'x evm_env_scheme \<Rightarrow> evm_word \<Rightarrow> evm_word \<Rightarrow> evm_word \<Rightarrow> adjudicator \<Rightarrow> adjudicator" where
  "updateFingerprint V c stateHash outcomeHash s =
     (case unpackStatus (ad_statusOf s c) of (t, f, _) \<Rightarrow>
        s\<lparr>ad_statusOf := (ad_statusOf s)(c := generateStatus V t f stateHash outcomeHash)\<rparr>)"

section \<open>Paying out\<close>

datatype payment = PayExit evm_address sol_allocation | Refund evm_word

definition payEther :: "evm_word \<Rightarrow> adjudicator \<Rightarrow> adjudicator option" where
  "payEther n s = (if unat n \<le> ad_balance s then Some (s\<lparr>ad_balance := ad_balance s - unat n\<rparr>) else None)"

fun payOut :: "payment \<Rightarrow> adjudicator \<Rightarrow> adjudicator option" where
  "payOut (PayExit asset a) s =
     (if isExternalWord (sa_destination a)
      then (if asset = 0 then payEther (sa_amount a) s else Some s)
      else Some (setHoldings asset (sa_destination a) (ad_holdings s asset (sa_destination a) + sa_amount a) s))"
| "payOut (Refund n) s = payEther n s"

section \<open>Calls\<close>

type_synonym call_effects = "(adjudicator \<times> payment list) option"

definition safeAdd :: "evm_word \<Rightarrow> evm_word \<Rightarrow> evm_word option" where
  "safeAdd a b = (if unat a + unat b < 2 ^ 256 then Some (a + b) else None)"

definition safeSub :: "evm_word \<Rightarrow> evm_word \<Rightarrow> evm_word option" where
  "safeSub a b = (if b \<le> a then Some (a - b) else None)"

text \<open>\<open>tokenOk\<close> is what the token's \<open>transferFrom\<close> returns. The value sent has arrived with the call.\<close>

definition depositCall ::
  "bool \<Rightarrow> evm_word \<Rightarrow> evm_address \<Rightarrow> evm_word \<Rightarrow> evm_word \<Rightarrow> evm_word \<Rightarrow> adjudicator \<Rightarrow> call_effects" where
  "depositCall tokenOk msgValue asset c expectedHeld amount' s =
     (if isExternalWord c then None
      else
        let held = ad_holdings s asset c in
        if held < expectedHeld then None
        else
          (case safeAdd expectedHeld amount' of
             None \<Rightarrow> None
           | Some target \<Rightarrow>
               if \<not> held < target then None
               else
                 (case safeSub target held of
                    None \<Rightarrow> None
                  | Some deposited \<Rightarrow>
                      if (if asset = 0 then msgValue \<noteq> amount' else \<not> tokenOk) then None
                      else
                        (case safeAdd held deposited of
                           None \<Rightarrow> None
                         | Some nowHeld \<Rightarrow>
                             if asset = 0
                             then map_option (\<lambda>refund. (setHoldings asset c nowHeld s, [Refund refund])) (safeSub amount' deposited)
                             else Some (setHoldings asset c nowHeld s, [])))))"

definition transferCall ::
  "'x evm_env_scheme \<Rightarrow> nat \<Rightarrow> evm_word \<Rightarrow> string \<Rightarrow> evm_word \<Rightarrow> evm_word list \<Rightarrow> adjudicator \<Rightarrow> call_effects" where
  "transferCall V assetIndex c outcomeBytes stateHash indices s =
     (if \<not> requireIncreasingIndices indices \<or> \<not> requireChannelFinalized c s \<or>
         \<not> requireMatchingFingerprint V stateHash (keccakBytes V outcomeBytes) c s then None
      else
        (case decodeExits V outcomeBytes of
           None \<Rightarrow> None
         | Some exits \<Rightarrow>
             if \<not> assetIndex < length exits then None
             else
               let x = exits ! assetIndex; asset = xe_asset x; held = ad_holdings s asset c in
               (case transferEffects held (xe_allocations x) indices of
                  None \<Rightarrow> None
                | Some m \<Rightarrow>
                    Some (updateFingerprint V c stateHash
                            (keccakBytes V (encodeExits V (exits[assetIndex := x\<lparr>xe_allocations := tm_new m\<rparr>])))
                            (setHoldings asset c (held - tm_payouts m) s),
                          map (PayExit asset) (tm_exits m)))))"

record claim_args =
  ca_sourceChannelId :: evm_word
  ca_sourceStateHash :: evm_word
  ca_sourceOutcomeBytes :: string
  ca_sourceAssetIndex :: nat
  ca_indexOfTargetInSource :: nat
  ca_targetStateHash :: evm_word
  ca_targetOutcomeBytes :: string
  ca_targetAssetIndex :: nat
  ca_indices :: "evm_word list"

text \<open>The type is checked of the source item at the position of the target's asset.\<close>

definition claimChecks ::
  "'x evm_env_scheme \<Rightarrow> claim_args \<Rightarrow> adjudicator \<Rightarrow> (asset_exit list \<times> asset_exit list) option" where
  "claimChecks V A s =
     (if \<not> requireIncreasingIndices (ca_indices A) \<or> \<not> requireChannelFinalized (ca_sourceChannelId A) s \<or>
         \<not> requireMatchingFingerprint V (ca_sourceStateHash A) (keccakBytes V (ca_sourceOutcomeBytes A)) (ca_sourceChannelId A) s
      then None
      else
        (case (decodeExits V (ca_sourceOutcomeBytes A), decodeExits V (ca_targetOutcomeBytes A)) of
           (Some sources, Some targets) \<Rightarrow>
             if \<not> ca_sourceAssetIndex A < length sources then None
             else
               let items = xe_allocations (sources ! ca_sourceAssetIndex A) in
               if \<not> ca_targetAssetIndex A < length items \<or> sa_type (items ! ca_targetAssetIndex A) \<noteq> 2 \<or>
                  \<not> ca_indexOfTargetInSource A < length items \<or> \<not> ca_targetAssetIndex A < length targets \<or>
                  xe_asset (targets ! ca_targetAssetIndex A) \<noteq> xe_asset (sources ! ca_sourceAssetIndex A)
               then None
               else
                 let target = sa_destination (items ! ca_indexOfTargetInSource A) in
                 if \<not> requireChannelFinalized target s \<or>
                    \<not> requireMatchingFingerprint V (ca_targetStateHash A) (keccakBytes V (ca_targetOutcomeBytes A)) target s
                 then None
                 else Some (sources, targets)
         | _ \<Rightarrow> None))"

definition claimCall :: "'x evm_env_scheme \<Rightarrow> claim_args \<Rightarrow> adjudicator \<Rightarrow> call_effects" where
  "claimCall V A s =
     (case claimChecks V A s of
        None \<Rightarrow> None
      | Some (sources, targets) \<Rightarrow>
          let x = sources ! ca_sourceAssetIndex A;
              y = targets ! ca_targetAssetIndex A;
              asset = xe_asset x;
              c = ca_sourceChannelId A;
              held = ad_holdings s asset c;
              target = sa_destination (xe_allocations x ! ca_indexOfTargetInSource A)
          in case claimEffects (decodeDestinations V) held (xe_allocations x) (xe_allocations y)
                    (ca_indexOfTargetInSource A) (ca_indices A) of
               None \<Rightarrow> None
             | Some m \<Rightarrow>
                 Some (updateFingerprint V target (ca_targetStateHash A)
                         (keccakBytes V (encodeExits V (targets[ca_targetAssetIndex A := y\<lparr>xe_allocations := cm_target m\<rparr>])))
                         (updateFingerprint V c (ca_sourceStateHash A)
                            (keccakBytes V (encodeExits V (sources[ca_sourceAssetIndex A := x\<lparr>xe_allocations := cm_source m\<rparr>])))
                            (setHoldings asset c (held - cm_payouts m) s)),
                       map (PayExit (xe_asset y)) (cm_exits m)))"

text \<open>All assets: the holdings of every entry are read before any of them is charged.\<close>

fun transferAllEffects :: "adjudicator \<Rightarrow> evm_word \<Rightarrow> asset_exit list \<Rightarrow> (asset_exit \<times> transfer_memory) list option" where
  "transferAllEffects s c [] = Some []"
| "transferAllEffects s c (x # xs) =
     (case transferEffects (ad_holdings s (xe_asset x) c) (xe_allocations x) [] of
        None \<Rightarrow> None
      | Some m \<Rightarrow> map_option (Cons (x, m)) (transferAllEffects s c xs))"

fun chargeAll :: "evm_word \<Rightarrow> (asset_exit \<times> transfer_memory) list \<Rightarrow> adjudicator \<Rightarrow> adjudicator" where
  "chargeAll c [] s = s"
| "chargeAll c ((x, m) # xs) s =
     chargeAll c xs (setHoldings (xe_asset x) c (ad_holdings s (xe_asset x) c - tm_payouts m) s)"

definition payAll :: "(asset_exit \<times> transfer_memory) list \<Rightarrow> payment list" where
  "payAll xs = concat (map (\<lambda>(x, m). map (PayExit (xe_asset x)) (tm_exits m)) xs)"

text \<open>What is left unpaid is hashed as it came, encoded once more.\<close>

definition transferAllCall ::
  "'x evm_env_scheme \<Rightarrow> evm_word \<Rightarrow> string \<Rightarrow> evm_word \<Rightarrow> adjudicator \<Rightarrow> call_effects" where
  "transferAllCall V c outcomeBytes stateHash s =
     (if \<not> requireChannelFinalized c s \<or>
         \<not> requireMatchingFingerprint V stateHash (keccakBytes V outcomeBytes) c s then None
      else
        (case decodeExits V outcomeBytes of
           None \<Rightarrow> None
         | Some exits \<Rightarrow>
             (case transferAllEffects s c exits of
                None \<Rightarrow> None
              | Some xs \<Rightarrow>
                  let s1 = chargeAll c xs s in
                  Some (if \<forall>(x, m) \<in> set xs. tm_onlyZeros m
                        then s1\<lparr>ad_statusOf := (ad_statusOf s1)(c := 0)\<rparr>
                        else updateFingerprint V c stateHash (keccakBytes V (encodeBytes V outcomeBytes)) s1,
                        payAll xs))))"

end
