(* ===== verification/ForceMove.thy ===== *)
theory ForceMove
  imports AssetContract
begin

text \<open>
  The contract \<open>packages/nitro-protocol/contracts/ForceMove.sol\<close>, \<open>concludeAndTransferAllAssets\<close> of
  \<open>NitroAdjudicator.sol\<close>, and the runs of the whole adjudicator. Turn numbers and times are 48 bit words
  and wrap around. The hashes, the recovery of a signer and the application's contract are parameters;
  \<open>_bytesEqual\<close> is equality.
\<close>

section \<open>Data\<close>

record sol_signature =
  sg_v :: "8 word"
  sg_r :: evm_word
  sg_s :: evm_word

record fm_fixed_part =
  ff_chainId :: evm_word
  ff_participants :: "evm_address list"
  ff_channelNonce :: "48 word"
  ff_appDefinition :: evm_address
  ff_challengeDuration :: "48 word"

record fm_variable_part =
  fv_outcome :: string
  fv_appData :: string

record sol_state =
  so_turnNum :: "48 word"
  so_isFinal :: bool
  so_channelId :: evm_word
  so_appPartHash :: evm_word
  so_outcomeHash :: evm_word

record fm_env = evm_env +
  chainID :: evm_word
  hashId :: "evm_word \<Rightarrow> evm_address list \<Rightarrow> 48 word \<Rightarrow> evm_word"
  hashApp :: "48 word \<Rightarrow> evm_address \<Rightarrow> string \<Rightarrow> evm_word"
  hashSolState :: "sol_state \<Rightarrow> evm_word"
  hashForceMove :: "evm_word \<Rightarrow> evm_word"
  prefixedHash :: "evm_word \<Rightarrow> evm_word"
  ecrecover :: "evm_word \<Rightarrow> sol_signature \<Rightarrow> evm_address"
  appTransition :: "evm_address \<Rightarrow> fm_variable_part \<Rightarrow> fm_variable_part \<Rightarrow> 48 word \<Rightarrow> nat \<Rightarrow> bool option"

definition channelIdOf :: "fm_env \<Rightarrow> fm_fixed_part \<Rightarrow> evm_word option" where
  "channelIdOf V f =
     (if ff_chainId f = chainID V then Some (hashId V (chainID V) (ff_participants f) (ff_channelNonce f)) else None)"

definition hashStateOf ::
  "fm_env \<Rightarrow> 48 word \<Rightarrow> bool \<Rightarrow> evm_word \<Rightarrow> fm_fixed_part \<Rightarrow> string \<Rightarrow> evm_word \<Rightarrow> evm_word" where
  "hashStateOf V turnNum isFinal c f appData outcomeHash = hashSolState V
     \<lparr>so_turnNum = turnNum, so_isFinal = isFinal, so_channelId = c,
      so_appPartHash = hashApp V (ff_challengeDuration f) (ff_appDefinition f) appData, so_outcomeHash = outcomeHash\<rparr>"

definition requireValidInput :: "nat \<Rightarrow> nat \<Rightarrow> nat \<Rightarrow> nat \<Rightarrow> bool" where
  "requireValidInput numParticipants numStates numSigs numWhoSignedWhats \<longleftrightarrow>
     numParticipants \<ge> numStates \<and> numStates > 0 \<and>
     numSigs = numParticipants \<and> numWhoSignedWhats = numParticipants \<and> numParticipants \<le> 255"

section \<open>Transitions\<close>

datatype transition_check = TransitionTrue | NeedToCheckTransition

definition protocolTransition ::
  "nat \<Rightarrow> bool \<Rightarrow> bool \<Rightarrow> fm_variable_part \<Rightarrow> fm_variable_part \<Rightarrow> 48 word \<Rightarrow> transition_check option" where
  "protocolTransition nParticipants finalA finalB a b turnNumB =
     (if finalB then (if fv_outcome b = fv_outcome a then Some TransitionTrue else None)
      else if finalA then None
      else if unat turnNumB < 2 * nParticipants
      then (if fv_outcome b = fv_outcome a \<and> fv_appData b = fv_appData a then Some TransitionTrue else None)
      else Some NeedToCheckTransition)"

definition requireTransition ::
  "fm_env \<Rightarrow> nat \<Rightarrow> bool \<Rightarrow> bool \<Rightarrow> fm_variable_part \<Rightarrow> fm_variable_part \<Rightarrow> 48 word \<Rightarrow> evm_address \<Rightarrow> bool" where
  "requireTransition V nParticipants finalA finalB a b turnNumB app \<longleftrightarrow>
     (case protocolTransition nParticipants finalA finalB a b turnNumB of
        None \<Rightarrow> False
      | Some TransitionTrue \<Rightarrow> True
      | Some NeedToCheckTransition \<Rightarrow> appTransition V app a b turnNumB nParticipants = Some True)"

text \<open>The turn number of the state at \<open>i\<close>, and whether it counts as final.\<close>

definition turnNumAt :: "48 word \<Rightarrow> nat \<Rightarrow> nat \<Rightarrow> 48 word" where
  "turnNumAt largestTurnNum n i = largestTurnNum - of_nat n + 1 + of_nat i"

definition impliedFinal :: "48 word \<Rightarrow> 8 word \<Rightarrow> 48 word \<Rightarrow> bool" where
  "impliedFinal largestTurnNum isFinalCount turnNum \<longleftrightarrow> turnNum \<ge> largestTurnNum - ucast isFinalCount + 1"

definition chainHash ::
  "fm_env \<Rightarrow> 48 word \<Rightarrow> fm_variable_part list \<Rightarrow> 8 word \<Rightarrow> evm_word \<Rightarrow> fm_fixed_part \<Rightarrow> nat \<Rightarrow> evm_word" where
  "chainHash V largestTurnNum parts isFinalCount c f i =
     (let t = turnNumAt largestTurnNum (length parts) i
      in hashStateOf V t (impliedFinal largestTurnNum isFinalCount t) c f (fv_appData (parts ! i))
           (keccakBytes V (fv_outcome (parts ! i))))"

definition chainLink ::
  "fm_env \<Rightarrow> 48 word \<Rightarrow> fm_variable_part list \<Rightarrow> 8 word \<Rightarrow> fm_fixed_part \<Rightarrow> nat \<Rightarrow> bool" where
  "chainLink V largestTurnNum parts isFinalCount f i \<longleftrightarrow>
     (let t = turnNumAt largestTurnNum (length parts) i
      in t < largestTurnNum \<longrightarrow>
         requireTransition V (length (ff_participants f))
           (impliedFinal largestTurnNum isFinalCount t) (impliedFinal largestTurnNum isFinalCount (t + 1))
           (parts ! i) (parts ! Suc i) (t + 1) (ff_appDefinition f))"

definition requireValidTransitionChain ::
  "fm_env \<Rightarrow> 48 word \<Rightarrow> fm_variable_part list \<Rightarrow> 8 word \<Rightarrow> evm_word \<Rightarrow> fm_fixed_part \<Rightarrow> evm_word list option" where
  "requireValidTransitionChain V largestTurnNum parts isFinalCount c f =
     (if list_all (chainLink V largestTurnNum parts isFinalCount f) [0..<length parts]
      then Some (map (chainHash V largestTurnNum parts isFinalCount c f) [0..<length parts])
      else None)"

section \<open>Signatures\<close>

definition recoverSigner :: "fm_env \<Rightarrow> evm_word \<Rightarrow> sol_signature \<Rightarrow> evm_address option" where
  "recoverSigner V d g =
     (let a = ecrecover V (prefixedHash V d) g in if a = 0 then None else Some a)"

definition acceptableWhoSignedWhat :: "8 word list \<Rightarrow> 48 word \<Rightarrow> nat \<Rightarrow> nat \<Rightarrow> bool option" where
  "acceptableWhoSignedWhat whoSignedWhat largestTurnNum nParticipants nStates =
     (if length whoSignedWhat \<noteq> nParticipants then None
      else Some (list_all (\<lambda>i.
             \<not> unat (whoSignedWhat ! i) + (nParticipants + unat largestTurnNum - i) mod nParticipants + 1 < nStates)
             [0..<nParticipants]))"

fun signersMatch ::
  "fm_env \<Rightarrow> evm_word list \<Rightarrow> (evm_address \<times> sol_signature \<times> 8 word) list \<Rightarrow> bool option" where
  "signersMatch V stateHashes [] = Some True"
| "signersMatch V stateHashes ((p, g, w) # xs) =
     (if \<not> unat w < length stateHashes then None
      else
        (case recoverSigner V (stateHashes ! unat w) g of
           None \<Rightarrow> None
         | Some signer \<Rightarrow> if signer \<noteq> p then Some False else signersMatch V stateHashes xs))"

definition validSignatures ::
  "fm_env \<Rightarrow> 48 word \<Rightarrow> evm_address list \<Rightarrow> evm_word list \<Rightarrow> sol_signature list \<Rightarrow> 8 word list \<Rightarrow> bool option" where
  "validSignatures V largestTurnNum participants stateHashes sigs whoSignedWhat =
     (case acceptableWhoSignedWhat whoSignedWhat largestTurnNum (length participants) (length stateHashes) of
        Some True \<Rightarrow> signersMatch V stateHashes (zip participants (zip sigs whoSignedWhat))
      | _ \<Rightarrow> None)"

definition requireStateSupportedBy ::
  "fm_env \<Rightarrow> 48 word \<Rightarrow> fm_variable_part list \<Rightarrow> 8 word \<Rightarrow> evm_word \<Rightarrow> fm_fixed_part \<Rightarrow>
   sol_signature list \<Rightarrow> 8 word list \<Rightarrow> evm_word option" where
  "requireStateSupportedBy V largestTurnNum parts isFinalCount c f sigs whoSignedWhat =
     (case requireValidTransitionChain V largestTurnNum parts isFinalCount c f of
        None \<Rightarrow> None
      | Some hashes \<Rightarrow>
          if validSignatures V largestTurnNum (ff_participants f) hashes sigs whoSignedWhat = Some True
          then Some (last hashes) else None)"

section \<open>Calls\<close>

definition setStatusWord :: "evm_word \<Rightarrow> evm_word \<Rightarrow> adjudicator \<Rightarrow> adjudicator" where
  "setStatusWord c w s = s\<lparr>ad_statusOf := (ad_statusOf s)(c := w)\<rparr>"

definition turnNumRecordOf :: "adjudicator \<Rightarrow> evm_word \<Rightarrow> 48 word" where
  "turnNumRecordOf s c = fst (unpackStatus (ad_statusOf s c))"

definition clearChallenge :: "fm_env \<Rightarrow> evm_word \<Rightarrow> 48 word \<Rightarrow> adjudicator \<Rightarrow> adjudicator" where
  "clearChallenge V c newTurnNumRecord s = setStatusWord c (generateStatus V newTurnNumRecord 0 0 0) s"

definition challengerIsParticipant :: "fm_env \<Rightarrow> evm_word \<Rightarrow> evm_address list \<Rightarrow> sol_signature \<Rightarrow> bool" where
  "challengerIsParticipant V supportedStateHash participants g =
     (case recoverSigner V (hashForceMove V supportedStateHash) g of
        None \<Rightarrow> False | Some challenger \<Rightarrow> challenger \<in> set participants)"

definition challengeCall ::
  "fm_env \<Rightarrow> fm_fixed_part \<Rightarrow> 48 word \<Rightarrow> fm_variable_part list \<Rightarrow> 8 word \<Rightarrow> sol_signature list \<Rightarrow> 8 word list \<Rightarrow>
   sol_signature \<Rightarrow> adjudicator \<Rightarrow> adjudicator option" where
  "challengeCall V f largestTurnNum parts isFinalCount sigs whoSignedWhat challengerSig s =
     (if \<not> requireValidInput (length (ff_participants f)) (length parts) (length sigs) (length whoSignedWhat) then None
      else
        (case channelIdOf V f of
           None \<Rightarrow> None
         | Some c \<Rightarrow>
             if \<not> (case solModeOf s c of
                     SolOpen \<Rightarrow> largestTurnNum \<ge> turnNumRecordOf s c
                   | SolChallenge \<Rightarrow> largestTurnNum > turnNumRecordOf s c
                   | SolFinalized \<Rightarrow> False) then None
             else
               (case requireStateSupportedBy V largestTurnNum parts isFinalCount c f sigs whoSignedWhat of
                  None \<Rightarrow> None
                | Some supportedStateHash \<Rightarrow>
                    if \<not> challengerIsParticipant V supportedStateHash (ff_participants f) challengerSig then None
                    else Some (setStatusWord c
                      (generateStatus V largestTurnNum (ucast (ad_now s) + ff_challengeDuration f) supportedStateHash
                        (keccakBytes V (fv_outcome (last parts)))) s))))"

definition respondCall ::
  "fm_env \<Rightarrow> bool \<Rightarrow> bool \<Rightarrow> fm_fixed_part \<Rightarrow> fm_variable_part \<Rightarrow> fm_variable_part \<Rightarrow> sol_signature \<Rightarrow>
   adjudicator \<Rightarrow> adjudicator option" where
  "respondCall V finalA finalB f a b g s =
     (case channelIdOf V f of
        None \<Rightarrow> None
      | Some c \<Rightarrow>
          (case unpackStatus (ad_statusOf s c) of (turnNumRecord, finalizesAt, _) \<Rightarrow>
             let challengeOutcomeHash = keccakBytes V (fv_outcome a);
                 responseOutcomeHash = keccakBytes V (fv_outcome b);
                 challengeStateHash = hashStateOf V turnNumRecord finalA c f (fv_appData a) challengeOutcomeHash;
                 responseStateHash = hashStateOf V (turnNumRecord + 1) finalB c f (fv_appData b) responseOutcomeHash;
                 n = length (ff_participants f)
             in if generateStatus V turnNumRecord finalizesAt challengeStateHash challengeOutcomeHash \<noteq> ad_statusOf s c \<or>
                   solModeOf s c \<noteq> SolChallenge \<or> n = 0 \<or>
                   recoverSigner V responseStateHash g \<noteq> Some (ff_participants f ! (unat (turnNumRecord + 1) mod n)) \<or>
                   \<not> requireTransition V n finalA finalB a b (turnNumRecord + 1) (ff_appDefinition f)
                then None
                else Some (clearChallenge V c (turnNumRecord + 1) s)))"

definition checkpointCall ::
  "fm_env \<Rightarrow> fm_fixed_part \<Rightarrow> 48 word \<Rightarrow> fm_variable_part list \<Rightarrow> 8 word \<Rightarrow> sol_signature list \<Rightarrow> 8 word list \<Rightarrow>
   adjudicator \<Rightarrow> adjudicator option" where
  "checkpointCall V f largestTurnNum parts isFinalCount sigs whoSignedWhat s =
     (if \<not> requireValidInput (length (ff_participants f)) (length parts) (length sigs) (length whoSignedWhat) then None
      else
        (case channelIdOf V f of
           None \<Rightarrow> None
         | Some c \<Rightarrow>
             if solModeOf s c = SolFinalized \<or> \<not> largestTurnNum > turnNumRecordOf s c then None
             else
               (case requireStateSupportedBy V largestTurnNum parts isFinalCount c f sigs whoSignedWhat of
                  None \<Rightarrow> None
                | Some _ \<Rightarrow> Some (clearChallenge V c largestTurnNum s))))"

definition concludeHash :: "fm_env \<Rightarrow> 48 word \<Rightarrow> evm_word \<Rightarrow> evm_word \<Rightarrow> evm_word \<Rightarrow> 8 word \<Rightarrow> nat \<Rightarrow> evm_word" where
  "concludeHash V largestTurnNum c appPartHash outcomeHash numStates i = hashSolState V
     \<lparr>so_turnNum = largestTurnNum + (of_nat i + 1) - ucast numStates, so_isFinal = True, so_channelId = c,
      so_appPartHash = appPartHash, so_outcomeHash = outcomeHash\<rparr>"

definition concludeCall ::
  "fm_env \<Rightarrow> 48 word \<Rightarrow> fm_fixed_part \<Rightarrow> evm_word \<Rightarrow> evm_word \<Rightarrow> 8 word \<Rightarrow> 8 word list \<Rightarrow> sol_signature list \<Rightarrow>
   adjudicator \<Rightarrow> (adjudicator \<times> evm_word) option" where
  "concludeCall V largestTurnNum f appPartHash outcomeHash numStates whoSignedWhat sigs s =
     (case channelIdOf V f of
        None \<Rightarrow> None
      | Some c \<Rightarrow>
          if solModeOf s c = SolFinalized \<or>
             \<not> requireValidInput (length (ff_participants f)) (unat numStates) (length sigs) (length whoSignedWhat) \<or>
             \<not> largestTurnNum + 1 \<ge> ucast numStates \<or>
             validSignatures V largestTurnNum (ff_participants f)
               (map (concludeHash V largestTurnNum c appPartHash outcomeHash numStates) [0..<unat numStates]) sigs whoSignedWhat
               \<noteq> Some True
          then None
          else Some (setStatusWord c (generateStatus V 0 (ucast (ad_now s)) 0 outcomeHash) s, c))"

definition concludeAndTransferAllAssets ::
  "fm_env \<Rightarrow> 48 word \<Rightarrow> fm_fixed_part \<Rightarrow> evm_word \<Rightarrow> string \<Rightarrow> 8 word \<Rightarrow> 8 word list \<Rightarrow> sol_signature list \<Rightarrow>
   adjudicator \<Rightarrow> call_effects" where
  "concludeAndTransferAllAssets V largestTurnNum f appPartHash outcomeBytes numStates whoSignedWhat sigs s =
     (case concludeCall V largestTurnNum f appPartHash (keccakBytes V outcomeBytes) numStates whoSignedWhat sigs s of
        None \<Rightarrow> None
      | Some (s', c) \<Rightarrow> transferAllCall V c outcomeBytes 0 s')"

section \<open>Runs\<close>

text \<open>
  The calls under way, the innermost first, each with the state it would be rolled back to. Time passes
  between transactions only. Ether can arrive without a call; there is less of it than a word can hold.
  \<open>covered\<close> restricts the outcomes that are paid out all at once.
\<close>

type_synonym call_stack = "(adjudicator \<times> payment list) list"

definition receiveEther :: "nat \<Rightarrow> adjudicator \<Rightarrow> adjudicator" where
  "receiveEther n s = s\<lparr>ad_balance := ad_balance s + n\<rparr>"

inductive contract_step ::
  "fm_env \<Rightarrow> (asset_exit list \<Rightarrow> bool) \<Rightarrow> adjudicator \<times> call_stack \<Rightarrow> adjudicator \<times> call_stack \<Rightarrow> bool"
  for V :: fm_env and covered :: "asset_exit list \<Rightarrow> bool" where
  deposit: "ad_balance s + unat v < 2 ^ 256 \<Longrightarrow>
     depositCall ok v asset c expected n (receiveEther (unat v) s) = Some (s', ps) \<Longrightarrow>
     contract_step V covered (s, calls) (s', (s, ps) # calls)"
| transfer: "transferCall V i c bytes h indices s = Some (s', ps) \<Longrightarrow>
     contract_step V covered (s, calls) (s', (s, ps) # calls)"
| claim: "claimCall V A s = Some (s', ps) \<Longrightarrow> contract_step V covered (s, calls) (s', (s, ps) # calls)"
| transfer_all: "transferAllCall V c bytes h s = Some (s', ps) \<Longrightarrow> decodeExits V bytes = Some exits \<Longrightarrow> covered exits \<Longrightarrow>
     contract_step V covered (s, calls) (s', (s, ps) # calls)"
| challenge: "challengeCall V f t parts k sigs who g s = Some s' \<Longrightarrow> contract_step V covered (s, calls) (s', calls)"
| respond: "respondCall V fa fb f a b g s = Some s' \<Longrightarrow> contract_step V covered (s, calls) (s', calls)"
| checkpoint: "checkpointCall V f t parts k sigs who s = Some s' \<Longrightarrow> contract_step V covered (s, calls) (s', calls)"
| conclude: "concludeCall V t f h out n who sigs s = Some (s', c) \<Longrightarrow> contract_step V covered (s, calls) (s', calls)"
| conclude_all: "concludeAndTransferAllAssets V t f h bytes n who sigs s = Some (s', ps) \<Longrightarrow>
     decodeExits V bytes = Some exits \<Longrightarrow> covered exits \<Longrightarrow>
     contract_step V covered (s, calls) (s', (s, ps) # calls)"
| pay: "payOut p s = Some s' \<Longrightarrow>
     contract_step V covered (s, (saved, p # ps) # calls) (s', (saved, ps) # calls)"
| finished: "contract_step V covered (s, (saved, []) # calls) (s, calls)"
| revert: "contract_step V covered (s, (saved, ps) # calls) (saved, calls)"
| ether: "ad_balance s + n < 2 ^ 256 \<Longrightarrow> contract_step V covered (s, calls) (receiveEther n s, calls)"
| tick: "ad_now s \<le> n \<Longrightarrow> contract_step V covered (s, []) (s\<lparr>ad_now := n\<rparr>, [])"

inductive_cases contract_stepE: "contract_step V covered x y"

end
