(* ===== verification/AssetContractFacts.thy ===== *)
theory AssetContractFacts
  imports AssetContract
begin

text \<open>
  The contract's arithmetic against its emulation in TypeScript: they agree, and nothing wraps around,
  as long as no guarantee is transferred and no guarantee names a destination twice.
\<close>

section \<open>What the emulation sees of the contract's data\<close>

text \<open>A word as ethers shows it, with all its 64 digits.\<close>

definition hexWord :: "evm_word \<Rightarrow> string" where
  "hexWord w = ''0x'' @ map (\<lambda>i. ''0123456789abcdef'' ! unat (take_bit 4 (drop_bit (4 * i) w))) (rev [0..<64])"

definition exitType :: "8 word \<Rightarrow> allocation_type" where
  "exitType t = (if t = 2 then Guarantee else if t = 1 then WithdrawHelper else Simple)"

definition asExit :: "sol_allocation \<Rightarrow> exit_allocation" where
  "asExit a = \<lparr>ea_destination = hexWord (sa_destination a), ea_amount = uint (sa_amount a),
     ea_metadata = sa_metadata a, ea_type = exitType (sa_type a)\<rparr>"

definition asTransfer :: "transfer_memory \<Rightarrow> transfer_loop" where
  "asTransfer s = \<lparr>newAllocations = map asExit (tm_new s), allocatesOnlyZeros = tm_onlyZeros s,
     exitAllocations = map asExit (tm_exits s), totalPayouts = uint (tm_payouts s), surplus = uint (tm_surplus s),
     cursor = tm_cursor s\<rparr>"

definition asClaim :: "claim_memory \<Rightarrow> claim_loop" where
  "asClaim s = \<lparr>newSourceAllocations = map asExit (cm_source s), newTargetAllocations = map asExit (cm_target s),
     claimExits = map asExit (cm_exits s), claimPayouts = uint (cm_payouts s), targetSurplus = uint (cm_surplus s),
     claimCursor = cm_cursor s\<rparr>"

lemma exitType_guarantee [simp]: "exitType t = Guarantee \<longleftrightarrow> t = 2"
  by (simp add: exitType_def)

lemma asExit_simps [simp]:
  "ea_amount (asExit a) = uint (sa_amount a)" "ea_type (asExit a) = exitType (sa_type a)"
  "ea_metadata (asExit a) = sa_metadata a" "ea_destination (asExit a) = hexWord (sa_destination a)"
  by (simp_all add: asExit_def)

lemma asExit_amount [simp]: "asExit (a\<lparr>sa_amount := n\<rparr>) = (asExit a)\<lparr>ea_amount := uint n\<rparr>"
  by (simp add: asExit_def)

lemma hexWord_zero: "hexWord 0 = ''0x0000000000000000000000000000000000000000000000000000000000000000''"
  by code_simp

lemma asExit_empty [simp]: "asExit emptyAllocation = emptyExit"
  by (simp add: asExit_def emptyAllocation_def emptyExit_def hexWord_zero exitType_def)

section \<open>Words\<close>

lemma minWord_le [simp]: "minWord a b \<le> a" "minWord a b \<le> b"
  by (auto simp: minWord_def)

lemma uint_minWord [simp]: "uint (minWord a b) = min (uint a) (uint b)"
  by (auto simp: minWord_def word_less_def)

lemma uint_minus: "b \<le> a \<Longrightarrow> uint (a - b) = uint a - uint (b :: evm_word)"
  by (simp add: word_le_def uint_sub_lem [THEN iffD1])

lemma uint_plus: "uint a + uint b < 2 ^ 256 \<Longrightarrow> uint (a + b) = uint a + uint (b :: evm_word)"
  by (rule uint_add_lem [THEN iffD1]) simp

lemma selects_paysOut: "selects indices k i \<longleftrightarrow> paysOut (map unat indices) k i"
  by (auto simp: selects_def paysOut_def)

section \<open>Transfers\<close>

lemma spare: "p + s \<le> h \<Longrightarrow> 0 \<le> a \<Longrightarrow> 0 \<le> s \<Longrightarrow> p + (s - min a s) \<le> (h :: int)"
  by arith

text \<open>The payouts and the surplus together stay within the holdings, so that no sum wraps.\<close>

lemma transferItem_emulated:
  assumes "transferItem indices as i s = Some s'" and "uint (tm_payouts s) + uint (tm_surplus s) \<le> uint (h :: evm_word)"
  shows "asTransfer s' = transferStep (map unat indices) i (asExit (as ! i)) (asTransfer s)"
    and "uint (tm_payouts s') + uint (tm_surplus s') \<le> uint h"
proof -
  have lt: "uint h < 2 ^ 256" using uint_lt2p [of h] by simp
  have p: "uint (tm_payouts s + minWord n (tm_surplus s)) = uint (tm_payouts s) + min (uint n) (uint (tm_surplus s))" for n
    using assms(2) lt by (subst uint_plus) auto
  have z: "a = (0 :: evm_word) \<longleftrightarrow> uint a = 0" for a by (simp add: uint_0_iff)
  show "asTransfer s' = transferStep (map unat indices) i (asExit (as ! i)) (asTransfer s)"
    using assms(1)
    by (auto simp: transferItem_def transferStep_def asTransfer_def selects_paysOut Let_def p uint_minus map_update z
        split: if_splits)
  have "tm_payouts s' = (if selects indices (tm_cursor s) i then tm_payouts s + minWord (sa_amount (as ! i)) (tm_surplus s) else tm_payouts s)"
    "tm_surplus s' = tm_surplus s - minWord (sa_amount (as ! i)) (tm_surplus s)"
    using assms(1) by (auto simp: transferItem_def Let_def split: if_splits)
  then show "uint (tm_payouts s') + uint (tm_surplus s') \<le> uint h"
    using assms(2) by (auto simp: p uint_minus intro!: spare)
qed

lemma transferItems_emulated:
  assumes "transferItems indices as [length as - length rest..<length as] s = Some s'"
    and "rest = drop (length as - length rest) as" and "uint (tm_payouts s) + uint (tm_surplus s) \<le> uint (h :: evm_word)"
  shows "asTransfer s' = transferLoop (map unat indices) (length as - length rest) (map asExit rest) (asTransfer s)"
  using assms
proof (induction rest arbitrary: s)
  case (Cons a rest)
  let ?i = "length as - length (a # rest)"
  have len: "length (a # rest) \<le> length as" using Cons.prems(2) by (metis length_drop diff_le_self)
  then have i: "?i < length as" "length as - length rest = Suc ?i" by auto
  have a: "as ! ?i = a" using Cons.prems(2) i(1) by (metis Cons_nth_drop_Suc list.inject)
  have rest: "rest = drop (length as - length rest) as"
    using Cons.prems(2) i by (metis Cons_nth_drop_Suc list.inject)
  have upt: "[?i..<length as] = ?i # [length as - length rest..<length as]" using i by (simp add: upt_conv_Cons)
  from Cons.prems(1) obtain s1 where s1: "transferItem indices as ?i s = Some s1"
    "transferItems indices as [length as - length rest..<length as] s1 = Some s'"
    unfolding upt by (auto split: option.splits)
  note step = transferItem_emulated [OF s1(1) Cons.prems(3)]
  from Cons.IH [OF s1(2) rest step(2)] show ?case using step(1) a i(2) by simp
qed simp

lemma transferEffects_emulated:
  assumes "transferEffects holdings allocations indices = Some r"
  shows "computeTransferEffectsAndInteractions (uint holdings) (map asExit allocations) (map unat indices) = asTransfer r"
  using transferItems_emulated [of indices allocations allocations _ r holdings] assms
  by (simp add: transferEffects_def computeTransferEffectsAndInteractions_def asTransfer_def)

text \<open>
  C18: the contract and the emulation compute the same transfer, and none of the contract's sums and
  differences wraps around.
\<close>

theorem transfer_emulates_contract:
  assumes "transferEffects holdings allocations indices = Some r"
  shows "computeTransferEffectsAndInteractions (uint holdings) (map asExit allocations) (map unat indices) = asTransfer r"
  by (rule transferEffects_emulated [OF assms])

text \<open>A transfer reverts on a guarantee only if that is where the cursor happens to be.\<close>

lemma transferItems_unselected:
  assumes "\<forall>i \<in> set is. \<not> selects indices (tm_cursor s) i"
  shows "\<exists>s'. transferItems indices as is s = Some s' \<and> tm_cursor s' = tm_cursor s"
  using assms
proof (induction "is" arbitrary: s)
  case (Cons i "is")
  then obtain s1 where "transferItem indices as i s = Some s1" "tm_cursor s1 = tm_cursor s"
    by (simp add: transferItem_def Let_def)
  with Cons.IH [of s1] Cons.prems show ?case by simp
qed simp

lemma transferItems_append:
  "transferItems indices as (is @ js) s =
     (case transferItems indices as is s of None \<Rightarrow> None | Some s' \<Rightarrow> transferItems indices as js s')"
  by (induction "is" arbitrary: s) (auto split: option.splits)

text \<open>
  whether one item may be transferred is decided by the type of the first item: a guarantee in any other
  place is paid out as if it were none, and nothing can be taken out of an outcome that begins with one.
\<close>

theorem guarantee_check_looks_at_the_first_item:
  assumes "unat i < length allocations"
  shows "transferEffects holdings allocations [i] = None \<longleftrightarrow> sa_type (allocations ! 0) = 2"
proof -
  let ?s = "\<lparr>tm_new = [], tm_onlyZeros = True, tm_exits = replicate 1 emptyAllocation, tm_payouts = 0,
    tm_surplus = holdings, tm_cursor = 0\<rparr>"
  have upt: "[0..<length allocations] = [0..<unat i] @ unat i # [Suc (unat i)..<length allocations]"
    using assms by (metis le_add_diff_inverse less_or_eq_imp_le upt_add_eq_append upt_conv_Cons zero_le)
  obtain s1 where s1: "transferItems [i] allocations [0..<unat i] ?s = Some s1" "tm_cursor s1 = 0"
    using transferItems_unselected [of "[0..<unat i]" "[i]" ?s allocations] by (auto simp: selects_def)
  have "transferItem [i] allocations (unat i) s1 = None \<longleftrightarrow> sa_type (allocations ! 0) = 2"
    using assms s1(2) by (auto simp: transferItem_def Let_def selects_def)
  moreover have "transferItems [i] allocations [Suc (unat i)..<length allocations] s2 \<noteq> None"
    if "transferItem [i] allocations (unat i) s1 = Some s2" for s2
  proof -
    from that s1(2) have "tm_cursor s2 = 1" by (auto simp: transferItem_def Let_def selects_def split: if_splits)
    then show ?thesis
      using transferItems_unselected [of "[Suc (unat i)..<length allocations]" "[i]" s2 allocations] by (auto simp: selects_def)
  qed
  ultimately show ?thesis
    using s1(1) by (auto simp: transferEffects_def upt transferItems_append split: option.splits)
qed

section \<open>Claims\<close>

lemma surplusAfter_emulated: "uint (surplusAfter s as) = sourceSurplus (uint s) (map asExit as)"
  by (induction as arbitrary: s) (simp_all add: uint_minus uint_0_iff)

text \<open>
  What holds of the contract's claim after the destinations \<open>D\<close>: the items of the others are as they were,
  and what was paid has come out of the guarantee.
\<close>

definition claimOk ::
  "sol_allocation list \<Rightarrow> sol_allocation list \<Rightarrow> nat \<Rightarrow> evm_word set \<Rightarrow> claim_memory \<Rightarrow> bool" where
  "claimOk sources targets g D s \<longleftrightarrow>
     length (cm_target s) = length targets \<and> length (cm_exits s) = length targets \<and>
     length (cm_source s) = length sources \<and>
     (\<forall>i < length targets. sa_destination (cm_target s ! i) = sa_destination (targets ! i)) \<and>
     (\<forall>i < length targets. sa_destination (targets ! i) \<notin> D \<longrightarrow>
        cm_target s ! i = targets ! i \<and> sa_amount (cm_exits s ! i) = 0) \<and>
     uint (cm_payouts s) + uint (cm_surplus s) \<le> uint (sa_amount (sources ! g)) \<and>
     uint (sa_amount (cm_source s ! g)) = uint (sa_amount (sources ! g)) - uint (cm_payouts s)"

lemma claimFound_emulated:
  assumes "claimOk sources targets g D s" and "g < length sources" and "i < length targets"
    and "sa_destination (targets ! i) \<notin> D"
  shows "asClaim (claimFound indices targets g i s) = claimItem (map unat indices) g i (asClaim s)"
    and "claimOk sources targets g (insert (sa_destination (targets ! i)) D) (claimFound indices targets g i s)"
proof -
  note ok = assms(1) [unfolded claimOk_def]
  have i: "i < length (cm_target s)" "i < length (cm_exits s)" "g < length (cm_source s)" using ok assms(2,3) by simp_all
  have item: "cm_target s ! i = targets ! i" "sa_amount (cm_exits s ! i) = 0" using ok assms(3,4) by blast+
  define n where "n = minWord (sa_amount (targets ! i)) (cm_surplus s)"
  have n: "uint n = min (uint (sa_amount (targets ! i))) (uint (cm_surplus s))" by (simp add: n_def)
  have n_le: "n \<le> sa_amount (targets ! i)" "n \<le> cm_surplus s" "n \<le> sa_amount (cm_source s ! g)"
    using ok n by (simp_all add: n_def) (auto simp: word_le_def)
  have lt: "uint (sa_amount (sources ! g)) < 2 ^ 256" using uint_lt2p [of "sa_amount (sources ! g)"] by simp
  have pay: "uint (cm_payouts s + n) = uint (cm_payouts s) + uint n" using ok n lt by (intro uint_plus) auto
  show "asClaim (claimFound indices targets g i s) = claimItem (map unat indices) g i (asClaim s)"
    using i item n_le pay
    by (simp add: claimFound_def claimItem_def asClaim_def selects_paysOut Let_def map_update n_def [symmetric] uint_minus
        flip: n)
  show "claimOk sources targets g (insert (sa_destination (targets ! i)) D) (claimFound indices targets g i s)"
    using ok i item n_le pay n
    by (auto simp: claimOk_def claimFound_def Let_def n_def [symmetric] uint_minus nth_list_update intro!: spare)
qed

lemma claimFind_emulated:
  assumes "claimOk sources targets g D s" and "g < length sources" and "d \<notin> D" and "\<forall>i \<in> set is. i < length targets"
    and "\<And>v w. bn (hexWord v) = bn (hexWord w) \<Longrightarrow> v = w"
  shows "asClaim (claimFind indices targets g d is s) = claimSearch bn (map unat indices) g (hexWord d) is (asClaim s) \<and>
    claimOk sources targets g (insert d D) (claimFind indices targets g d is s)"
  using assms(4)
proof (induction "is")
  case Nil
  from assms(1) show ?case by (simp add: claimOk_def)
next
  case (Cons i "is")
  from Cons.prems have i: "i < length targets" by simp
  then have c: "ea_destination (newTargetAllocations (asClaim s) ! i) = hexWord (sa_destination (targets ! i))"
    using assms(1) by (simp add: asClaim_def claimOk_def)
  have t: "targetSurplus (asClaim s) = uint (cm_surplus s)" by (simp add: asClaim_def)
  have same: "sa_destination (cm_target s ! i) = sa_destination (targets ! i)" using assms(1) i by (simp add: claimOk_def)
  have eq: "bn (hexWord d) = bn (hexWord (sa_destination (targets ! i))) \<longleftrightarrow> d = sa_destination (targets ! i)"
    using assms(5) by auto
  show ?case
  proof (cases "cm_surplus s \<noteq> 0 \<and> d = sa_destination (targets ! i)")
    case True
    with claimFound_emulated [OF assms(1,2) i] assms(3) show ?thesis by (simp add: c t same eq uint_0_iff)
  next
    case False
    have "claimOk sources targets g (insert d D) s" using assms(1) by (simp add: claimOk_def)
    with False Cons show ?thesis by (auto simp: c t same eq uint_0_iff)
  qed
qed

lemma claimDestinations_emulated:
  assumes "claimOk sources targets g D s" and "g < length sources" and "distinct ds" and "set ds \<inter> D = {}"
    and "\<And>v w. bn (hexWord v) = bn (hexWord w) \<Longrightarrow> v = w"
  shows "asClaim (claimDestinations indices targets g ds s) =
    claimLoop bn (map unat indices) g (map hexWord ds) (asClaim s)"
  using assms(1,3,4)
proof (induction ds arbitrary: s D)
  case (Cons d ds)
  let ?s = "claimFind indices targets g d [0..<length (cm_target s)] s"
  have len: "length (cm_target s) = length targets" using Cons.prems(1) by (simp add: claimOk_def)
  have t: "targetSurplus (asClaim s) = uint (cm_surplus s)" "length (newTargetAllocations (asClaim s)) = length (cm_target s)"
    by (simp_all add: asClaim_def)
  have "d \<notin> D" using Cons.prems(3) by simp
  from claimFind_emulated [OF Cons.prems(1) assms(2) this _ assms(5), of "[0..<length (cm_target s)]" bn indices]
  have step: "asClaim ?s = claimSearch bn (map unat indices) g (hexWord d) [0..<length (cm_target s)] (asClaim s)"
    "claimOk sources targets g (insert d D) ?s" by (simp_all add: len)
  have "set ds \<inter> insert d D = {}" "distinct ds" using Cons.prems(2,3) by auto
  from Cons.IH [OF step(2) this(2,1)] step(1) show ?case by (simp add: t uint_0_iff)
qed simp

text \<open>
  C19: the contract and the emulation compute the same claim, provided the guarantee names every
  destination once. Here, too, nothing wraps around.
\<close>

theorem claim_emulates_contract:
  assumes "claimEffects decode holdings sources targets g indices = Some r" and "sa_type (sources ! g) = 2"
    and "decode (sa_metadata (sources ! g)) = Some ds" and "distinct ds"
    and "\<And>v w. bn (hexWord v) = bn (hexWord w) \<Longrightarrow> v = w" and "decode' (sa_metadata (sources ! g)) = map hexWord ds"
  shows "computeClaimEffectsAndInteractions bn decode' (uint holdings) (map asExit sources) (map asExit targets) g
    (map unat indices) = Inr (asClaim r)"
proof -
  have g: "g < length sources" using assms(1) by (simp add: claimEffects_def split: if_splits)
  let ?s = "\<lparr>cm_source = sources, cm_target = targets, cm_exits = map (\<lambda>a. a\<lparr>sa_amount := 0\<rparr>) targets, cm_payouts = 0,
    cm_surplus = minWord (surplusAfter holdings (take g sources)) (sa_amount (sources ! g)), cm_cursor = 0\<rparr>"
  have ok: "claimOk sources targets g {} ?s" by (simp add: claimOk_def)
  have r: "r = claimDestinations indices targets g ds ?s" using assms(1,3) g by (simp add: claimEffects_def)
  show ?thesis
    using g assms(2,6) claimDestinations_emulated [OF ok g assms(4) _ assms(5), where indices = indices]
    by (simp add: computeClaimEffectsAndInteractions_def r) (simp add: asClaim_def surplusAfter_emulated take_map comp_def)
qed

text \<open>
  what goes wrong when a guarantee names a destination twice: the second time the contract takes from an
  item that is already empty. The amount left to the beneficiary wraps around to nearly \<open>2 ^ 256\<close>, the
  channel is charged twice, and what was charged the second time is paid to nobody.
\<close>

theorem repeated_destination_wraps_around:
  assumes "decode (sa_metadata s) = Some [d, d]" and "sa_destination t = d" and "0 < uint (sa_amount t)"
    and "2 * uint (sa_amount t) \<le> uint (sa_amount s)" and "2 * uint (sa_amount t) \<le> uint holdings"
  shows "\<exists>r. claimEffects decode holdings [s] [t] 0 [] = Some r \<and>
    uint (sa_amount (cm_target r ! 0)) = 2 ^ 256 - uint (sa_amount t) \<and>
    uint (cm_payouts r) = 2 * uint (sa_amount t) \<and> uint (sa_amount (cm_exits r ! 0)) = uint (sa_amount t)"
proof -
  let ?a = "sa_amount t" and ?m = "minWord holdings (sa_amount s)"
  have a: "?a \<noteq> 0" using assms(3) by auto
  have m: "uint ?m \<ge> 2 * uint ?a" using assms(4,5) by simp
  have s1: "uint (?m - ?a) = uint ?m - uint ?a" by (rule uint_minus) (use m assms(3) in \<open>auto simp: word_le_def\<close>)
  have m1: "minWord ?a ?m = ?a" "minWord ?a (?m - ?a) = ?a" using m s1 assms(3) by (auto simp: minWord_def word_less_def)
  have z: "?m \<noteq> 0" "?m - ?a \<noteq> 0" using m s1 assms(3) by (auto simp: uint_0_iff [symmetric])
  have "uint (0 - ?a) = 2 ^ 256 - uint ?a" using assms(3) uint_lt2p [of ?a] by (simp add: uint_word_ariths zmod_zminus1_eq_if)
  moreover have "uint (?a + ?a) = 2 * uint ?a"
    using assms(4) uint_lt2p [of "sa_amount s"] by (subst uint_plus) simp_all
  ultimately show ?thesis
    using assms(1,2) z m1 by (simp add: claimEffects_def claimFound_def selects_def Let_def)
qed

section \<open>Concrete outcomes\<close>

text \<open>Reading a number from its digits gives the word back.\<close>

definition hexValue :: "string \<Rightarrow> int" where
  "hexValue s = foldl (\<lambda>n c. 16 * n + int (length (takeWhile (\<lambda>d. d \<noteq> c) ''0123456789abcdef''))) 0 (drop 2 s)"

lemma digit_value: "n < 16 \<Longrightarrow> length (takeWhile (\<lambda>d. d \<noteq> ''0123456789abcdef'' ! n) ''0123456789abcdef'') = n"
proof -
  have "\<forall>n \<in> set [0..<16]. length (takeWhile (\<lambda>d. d \<noteq> ''0123456789abcdef'' ! n) ''0123456789abcdef'') = n" by code_simp
  then show "n < 16 \<Longrightarrow> length (takeWhile (\<lambda>d. d \<noteq> ''0123456789abcdef'' ! n) ''0123456789abcdef'') = n" by simp
qed

lemma hexValue_hexWord: "hexValue (hexWord w) = uint w"
proof -
  let ?f = "\<lambda>n c. 16 * n + int (length (takeWhile (\<lambda>d. d \<noteq> c) ''0123456789abcdef''))"
  let ?d = "\<lambda>i. ''0123456789abcdef'' ! unat (take_bit 4 (drop_bit (4 * i) w))"
  have digits: "foldl ?f 0 (map ?d (rev [64 - k..<64])) = uint w div 2 ^ (4 * (64 - k))" if "k \<le> 64" for k
    using that
  proof (induction k)
    case 0
    have "uint w < 2 ^ 256" using uint_lt2p [of w] by simp
    then show ?case by simp
  next
    case (Suc k)
    let ?i = "64 - Suc k"
    have up: "[?i..<64] = ?i # [64 - k..<64]" using Suc.prems by (simp add: upt_conv_Cons Suc_diff_le [symmetric])
    have "unat (take_bit 4 (drop_bit (4 * ?i) w)) < 16"
      using take_bit_nat_less_exp [of 4 "unat (drop_bit (4 * ?i) w)"] by (simp add: unsigned_take_bit_eq)
    then have "?f x (?d ?i) = 16 * x + int (unat (take_bit 4 (drop_bit (4 * ?i) w)))" for x by (simp only: digit_value)
    moreover have "int (unat (take_bit 4 (drop_bit (4 * ?i) w))) = uint w div 2 ^ (4 * ?i) mod 16"
    proof -
      have "uint (take_bit 4 (drop_bit (4 * ?i) w)) = take_bit 4 (drop_bit (4 * ?i) (uint w))"
        using uint_lt2p [of w]
        by (simp add: unsigned_take_bit_eq unsigned_drop_bit_eq take_bit_int_eq_self)
      also have "\<dots> = uint w div 2 ^ (4 * ?i) mod 16" by (simp add: take_bit_eq_mod drop_bit_eq_div)
      finally show ?thesis by simp
    qed
    moreover have "uint w div 2 ^ (4 * (64 - k)) = uint w div 2 ^ (4 * ?i) div 16"
    proof -
      have "4 * (64 - k) = 4 * ?i + 4" using Suc.prems by simp
      then have "(2 :: int) ^ (4 * (64 - k)) = 2 ^ (4 * ?i) * 16" by (simp only: power_add) simp
      then show ?thesis by (simp add: zdiv_zmult2_eq)
    qed
    ultimately show ?case using Suc by (simp only: up rev.simps map_append foldl_append list.map foldl.simps) simp
  qed
  show ?thesis using digits [of 64] by (simp add: hexValue_def hexWord_def)
qed

definition sampleItem :: "evm_word \<Rightarrow> evm_word \<Rightarrow> 8 word \<Rightarrow> sol_allocation" where
  "sampleItem d n t = \<lparr>sa_destination = d, sa_amount = n, sa_type = t, sa_metadata = ''0x''\<rparr>"

text \<open>Twelve are held for two items of ten, and the second is asked for two of the twelve that are left.\<close>

theorem transfer_emulates_contract_witness:
  "\<exists>r. transferEffects 12 [sampleItem 7 10 0, sampleItem 8 10 0] [1] = Some r \<and> tm_payouts r = 2 \<and>
     computeTransferEffectsAndInteractions (uint (12 :: evm_word)) (map asExit [sampleItem 7 10 0, sampleItem 8 10 0]) [1] =
       asTransfer r"
proof -
  have "map_option tm_payouts (transferEffects 12 [sampleItem 7 10 0, sampleItem 8 10 0] [1]) = Some 2" by code_simp
  then obtain r where r: "transferEffects 12 [sampleItem 7 10 0, sampleItem 8 10 0] [1] = Some r" "tm_payouts r = 2" by auto
  with transfer_emulates_contract [OF r(1)] show ?thesis by simp
qed

theorem guarantee_check_looks_at_the_first_item_witness:
  "transferEffects 20 [sampleItem 7 10 0, sampleItem 8 10 2] [1] \<noteq> None \<and>
   transferEffects 20 [sampleItem 7 10 2, sampleItem 8 10 0] [1] = None"
  using guarantee_check_looks_at_the_first_item [of 1 "[sampleItem 7 10 0, sampleItem 8 10 2]" 20]
    guarantee_check_looks_at_the_first_item [of 1 "[sampleItem 7 10 2, sampleItem 8 10 0]" 20]
  by (simp add: sampleItem_def)

theorem claim_emulates_contract_witness:
  "\<exists>r. claimEffects (\<lambda>_. Some [8, 7]) 12 [sampleItem 5 10 2] [sampleItem 7 6 0, sampleItem 8 6 0] 0 [] = Some r \<and>
     cm_payouts r = 10 \<and>
     computeClaimEffectsAndInteractions hexValue (\<lambda>_. map hexWord [8, 7]) (uint (12 :: evm_word)) (map asExit [sampleItem 5 10 2])
       (map asExit [sampleItem 7 6 0, sampleItem 8 6 0]) 0 [] = Inr (asClaim r)"
proof -
  have "map_option cm_payouts (claimEffects (\<lambda>_. Some [8, 7]) 12 [sampleItem 5 10 2] [sampleItem 7 6 0, sampleItem 8 6 0] 0 []) = Some 10"
    by code_simp
  then obtain r where r: "claimEffects (\<lambda>_. Some [8, 7]) 12 [sampleItem 5 10 2] [sampleItem 7 6 0, sampleItem 8 6 0] 0 [] = Some r"
    "cm_payouts r = 10" by auto
  have "computeClaimEffectsAndInteractions hexValue (\<lambda>_. map hexWord [8, 7]) (uint (12 :: evm_word)) (map asExit [sampleItem 5 10 2])
      (map asExit [sampleItem 7 6 0, sampleItem 8 6 0]) 0 (map unat ([] :: evm_word list)) = Inr (asClaim r)"
    by (rule claim_emulates_contract [OF r(1), of "[8, 7]"]) (simp_all add: hexValue_hexWord sampleItem_def word_uint_eqI)
  with r show ?thesis by auto
qed

theorem repeated_destination_wraps_around_witness:
  "\<exists>r. claimEffects (\<lambda>_. Some [7, 7]) 20 [sampleItem 5 20 2] [sampleItem 7 10 0] 0 [] = Some r \<and>
     uint (sa_amount (cm_target r ! 0)) = 2 ^ 256 - 10"
  using repeated_destination_wraps_around [of "\<lambda>_. Some [7, 7]" "sampleItem 5 20 2" 7 "sampleItem 7 10 0" 20]
  by (auto simp: sampleItem_def)

end
