(* ===== verification/AdjudicatorFacts.thy ===== *)
theory AdjudicatorFacts
  imports ForceMove AssetContractFacts
begin

text \<open>
  The contract as a whole: its status words, and that it always has the ether it owes, however calls are
  nested, as long as no outcome that is paid out all at once names an asset twice.
\<close>

section \<open>Status words\<close>

lemma status_bits:
  fixes t f :: "48 word" and p :: "160 word"
  defines "w \<equiv> push_bit 208 (ucast t) OR push_bit 160 (ucast f) OR (ucast p :: evm_word)"
  shows "ucast (drop_bit 208 w) = t" and "ucast (drop_bit 160 w) = f" and "ucast w = p"
proof -
  show "ucast (drop_bit 208 w) = t"
    by (rule bit_eqI) (auto simp: w_def bit_simps dest: bit_imp_le_length)
  show "ucast (drop_bit 160 w) = f"
    by (rule bit_eqI) (auto simp: w_def bit_simps dest: bit_imp_le_length)
  show "ucast w = p" by (rule bit_eqI) (auto simp: w_def bit_simps dest: bit_imp_le_length)
qed

text \<open>a status word gives back the two numbers and the fingerprint it was made of.\<close>

theorem unpackStatus_generateStatus:
  "unpackStatus (generateStatus V t f stateHash outcomeHash) = (t, f, generateFingerprint V stateHash outcomeHash)"
  unfolding unpackStatus_def generateStatus_def by (simp only: status_bits)

section \<open>What is owed\<close>

definition owed :: "adjudicator \<Rightarrow> nat" where
  "owed s = (\<Sum>c \<in> UNIV. unat (ad_holdings s 0 c))"

fun dueOf :: "payment \<Rightarrow> nat" where
  "dueOf (PayExit asset a) = (if asset = 0 then unat (sa_amount a) else 0)"
| "dueOf (Refund n) = unat n"

definition due :: "payment list \<Rightarrow> nat" where
  "due ps = sum_list (map dueOf ps)"

definition dueAll :: "call_stack \<Rightarrow> nat" where
  "dueAll calls = sum_list (map (due \<circ> snd) calls)"

lemma due_simps [simp]: "due [] = 0" "due (p # ps) = dueOf p + due ps" "due (ps @ qs) = due ps + due qs"
  by (simp_all add: due_def)

lemma dueAll_simps [simp]: "dueAll [] = 0" "dueAll ((s, ps) # calls) = due ps + dueAll calls"
  by (simp_all add: dueAll_def)

text \<open>The contract can pay what it holds for channels and what calls under way have still to pay.\<close>

definition solvent :: "adjudicator \<Rightarrow> call_stack \<Rightarrow> bool" where
  "solvent s calls \<longleftrightarrow> owed s + dueAll calls \<le> ad_balance s \<and> ad_balance s < 2 ^ 256"

fun solventStack :: "call_stack \<Rightarrow> bool" where
  "solventStack [] = True"
| "solventStack ((saved, ps) # calls) = (solvent saved calls \<and> solventStack calls)"

lemma owed_setHoldings:
  "owed (setHoldings asset c v s) =
    (if asset = 0 then owed s - unat (ad_holdings s 0 c) + unat v else owed s)"
  by (auto simp: owed_def setHoldings_def sum.remove [of UNIV c] intro!: sum.cong)

lemma holding_owed: "unat (ad_holdings s 0 c) \<le> owed s"
  unfolding owed_def by (rule member_le_sum) auto

lemma setHoldings_simps [simp]:
  "ad_balance (setHoldings asset c v s) = ad_balance s" "ad_statusOf (setHoldings asset c v s) = ad_statusOf s"
  by (simp_all add: setHoldings_def)

lemma updateFingerprint_simps [simp]:
  "owed (updateFingerprint V c h g s) = owed s" "ad_balance (updateFingerprint V c h g s) = ad_balance s"
  by (simp_all add: owed_def updateFingerprint_def split: prod.splits)

section \<open>Exits carry no more than was charged\<close>

definition totalSol :: "sol_allocation list \<Rightarrow> nat" where
  "totalSol as = sum_list (map (\<lambda>a. unat (sa_amount a)) as)"

lemma due_PayExit: "due (map (PayExit asset) as) = (if asset = 0 then totalSol as else 0)"
  by (induction as) (simp_all add: totalSol_def)

lemma totalSol_asExit: "int (totalSol as) = totalAmounts (map asExit as)"
  by (induction as) (simp_all add: totalSol_def)

lemma transferEffects_total:
  assumes "transferEffects h as indices = Some m"
  shows "totalSol (tm_exits m) = unat (tm_payouts m)" and "tm_payouts m \<le> h"
proof -
  have nn: "\<forall>a \<in> set (map asExit as). 0 \<le> ea_amount a" by simp
  from transfer_inv [of "uint h" "map asExit as" "map unat indices"] nn
  have "totalAmounts (exitAllocations (asTransfer m)) = totalPayouts (asTransfer m) \<and> totalPayouts (asTransfer m) \<le> uint h"
    unfolding transferEffects_emulated [OF assms] transferInv_def nonneg_def by simp
  then have "int (totalSol (tm_exits m)) = uint (tm_payouts m)" "uint (tm_payouts m) \<le> uint h"
    by (simp_all add: asTransfer_def totalSol_asExit)
  then show "totalSol (tm_exits m) = unat (tm_payouts m)" "tm_payouts m \<le> h"
    by (simp_all add: word_le_def) (metis nat_int unat_eq_nat_uint)
qed

definition claimBound :: "evm_word \<Rightarrow> nat \<Rightarrow> claim_memory \<Rightarrow> bool" where
  "claimBound c n s \<longleftrightarrow> totalSol (cm_exits s) \<le> unat (cm_payouts s) \<and> unat (cm_payouts s) + unat (cm_surplus s) \<le> unat c \<and>
     length (cm_exits s) = n \<and> length (cm_target s) = n"

lemma totalSol_update:
  "i < length as \<Longrightarrow> totalSol (as[i := a]) \<le> totalSol as + unat (sa_amount a)"
  unfolding totalSol_def
proof (induction as arbitrary: i)
  case (Cons x xs)
  then show ?case by (cases i) fastforce+
qed simp

lemma claimFound_bound:
  assumes "claimBound c n s" and "i < n"
  shows "claimBound c n (claimFound indices targets g i s)"
proof -
  let ?n = "minWord (sa_amount (targets ! i)) (cm_surplus s)"
  have le: "?n \<le> cm_surplus s" by simp
  have lt: "unat c < 2 ^ LENGTH(256)" by (rule unsigned_less)
  from le have "unat (cm_surplus s - ?n) = unat (cm_surplus s) - unat ?n" "unat ?n \<le> unat (cm_surplus s)"
    by (simp_all add: unat_sub word_le_nat_alt)
  moreover from this assms(1) have "unat (cm_payouts s + ?n) = unat (cm_payouts s) + unat ?n"
    using lt by (intro unat_add_lem [THEN iffD1]) (simp add: claimBound_def)
  ultimately show ?thesis
    using assms totalSol_update [of i "cm_exits s" "(cm_exits s ! i)\<lparr>sa_amount := ?n\<rparr>"]
    by (auto simp: claimBound_def claimFound_def Let_def)
qed

lemma claimFind_bound:
  assumes "claimBound c n s" and "\<forall>i \<in> set is. i < n"
  shows "claimBound c n (claimFind indices targets g d is s)"
  using assms by (induction "is") (auto intro: claimFound_bound)

lemma claimDestinations_bound:
  assumes "claimBound c n s"
  shows "claimBound c n (claimDestinations indices targets g ds s)"
  using assms
proof (induction ds arbitrary: s)
  case (Cons d ds)
  have "claimBound c n (claimFind indices targets g d [0..<length (cm_target s)] s)"
    using Cons.prems by (intro claimFind_bound) (auto simp: claimBound_def)
  with Cons show ?case by simp
qed simp

lemma surplusAfter_le: "surplusAfter h as \<le> h"
proof (induction as arbitrary: h)
  case (Cons a as)
  have "h - minWord (sa_amount a) h \<le> h" by (rule word_sub_le) simp
  with Cons [of "h - minWord (sa_amount a) h"] show ?case by (auto intro: order_trans)
qed simp

lemma claimEffects_total:
  assumes "claimEffects decode h sources targets g indices = Some m"
  shows "totalSol (cm_exits m) \<le> unat (cm_payouts m)" and "cm_payouts m \<le> h"
proof -
  have z: "totalSol (map (\<lambda>a. a\<lparr>sa_amount := 0\<rparr>) targets) = 0" by (induction targets) (simp_all add: totalSol_def)
  have le: "minWord (surplusAfter h (take g sources)) (sa_amount (sources ! g)) \<le> h"
    by (rule order_trans [OF minWord_le(1) surplusAfter_le])
  from assms have "claimBound h (length targets) m"
    by (auto simp: claimEffects_def split: if_splits option.splits
        intro!: claimDestinations_bound) (use z le in \<open>simp add: claimBound_def word_le_nat_alt comp_def\<close>)
  then show "totalSol (cm_exits m) \<le> unat (cm_payouts m)" "cm_payouts m \<le> h"
    by (simp_all add: claimBound_def word_le_nat_alt)
qed

section \<open>Every step keeps the contract solvent\<close>

lemma charge:
  assumes "n \<le> ad_holdings s asset c"
  shows "owed (setHoldings asset c (ad_holdings s asset c - n) s) + (if asset = 0 then unat n else 0) = owed s"
  using assms holding_owed [of s c] by (auto simp: owed_setHoldings unat_sub word_le_nat_alt)

lemma deposit_due:
  assumes "depositCall ok v asset c expected n s = Some (s', ps)"
  shows "owed s' + due ps \<le> owed s + unat v \<and> ad_balance s' = ad_balance s"
proof -
  from assms obtain target deposited nowHeld where
    d: "safeAdd expected n = Some target" "safeSub target (ad_holdings s asset c) = Some deposited"
      "safeAdd (ad_holdings s asset c) deposited = Some nowHeld"
    and s': "s' = setHoldings asset c nowHeld s"
    and ps: "asset \<noteq> 0 \<Longrightarrow> ps = []" "asset = 0 \<Longrightarrow> v = n \<and> (\<exists>r. safeSub n deposited = Some r \<and> ps = [Refund r])"
    by (auto simp: depositCall_def Let_def split: if_splits option.splits)
  from d(3) have now: "unat nowHeld = unat (ad_holdings s asset c) + unat deposited"
    by (auto simp: safeAdd_def unat_add_lem [THEN iffD1] split: if_splits)
  show ?thesis
  proof (cases "asset = 0")
    case True
    with ps obtain r where r: "v = n" "safeSub n deposited = Some r" "ps = [Refund r]" by auto
    then have "unat r + unat deposited = unat v"
      by (auto simp: safeSub_def unat_sub word_le_nat_alt split: if_splits)
    with now True r(3) holding_owed [of s c] show ?thesis by (simp add: s' owed_setHoldings)
  next
    case False
    with ps(1) show ?thesis by (simp add: s' owed_setHoldings)
  qed
qed

lemma transfer_due:
  assumes "transferCall V i c bytes h indices s = Some (s', ps)"
  shows "owed s' + due ps \<le> owed s \<and> ad_balance s' = ad_balance s"
proof -
  from assms obtain exits m where m: "transferEffects (ad_holdings s (xe_asset (exits ! i)) c) (xe_allocations (exits ! i)) indices = Some m"
    and s': "s' = updateFingerprint V c h (keccakBytes V (encodeExits V (exits[i := (exits ! i)\<lparr>xe_allocations := tm_new m\<rparr>])))
      (setHoldings (xe_asset (exits ! i)) c (ad_holdings s (xe_asset (exits ! i)) c - tm_payouts m) s)"
    and ps: "ps = map (PayExit (xe_asset (exits ! i))) (tm_exits m)"
    by (auto simp: transferCall_def Let_def split: if_splits option.splits)
  from charge [OF transferEffects_total(2) [OF m]] transferEffects_total(1) [OF m]
  show ?thesis by (auto simp: s' ps due_PayExit split: if_splits)
qed

lemma claim_due:
  assumes "claimCall V A s = Some (s', ps)"
  shows "owed s' + due ps \<le> owed s \<and> ad_balance s' = ad_balance s"
proof -
  let ?c = "ca_sourceChannelId A"
  from assms obtain sources targets m t h1 g1 h2 g2 where chk: "claimChecks V A s = Some (sources, targets)"
    and m: "claimEffects (decodeDestinations V) (ad_holdings s (xe_asset (sources ! ca_sourceAssetIndex A)) ?c)
      (xe_allocations (sources ! ca_sourceAssetIndex A)) (xe_allocations (targets ! ca_targetAssetIndex A))
      (ca_indexOfTargetInSource A) (ca_indices A) = Some m"
    and s': "s' = updateFingerprint V t h1 g1 (updateFingerprint V ?c h2 g2 (setHoldings (xe_asset (sources ! ca_sourceAssetIndex A)) ?c
      (ad_holdings s (xe_asset (sources ! ca_sourceAssetIndex A)) ?c - cm_payouts m) s))"
    and ps: "ps = map (PayExit (xe_asset (targets ! ca_targetAssetIndex A))) (cm_exits m)"
    by (auto simp: claimCall_def Let_def split: option.splits prod.splits)
  from chk have "xe_asset (targets ! ca_targetAssetIndex A) = xe_asset (sources ! ca_sourceAssetIndex A)"
    by (auto simp: claimChecks_def Let_def split: if_splits option.splits)
  with charge [OF claimEffects_total(2) [OF m]] claimEffects_total(1) [OF m]
  show ?thesis by (auto simp: s' ps due_PayExit split: if_splits)
qed

text \<open>Several assets at once: each entry is charged to the holdings it was computed from.\<close>

lemma chargeAll_simps [simp]: "ad_balance (chargeAll c xs s) = ad_balance s"
  by (induction c xs s rule: chargeAll.induct) simp_all

lemma payAll_simps [simp]:
  "payAll [] = []" "payAll ((x, m) # xs) = map (PayExit (xe_asset x)) (tm_exits m) @ payAll xs"
  by (simp_all add: payAll_def)

lemma transferAllEffects_fst: "transferAllEffects s c xs = Some ys \<Longrightarrow> map fst ys = xs"
  by (induction xs arbitrary: ys) (auto split: option.splits)

lemma chargeAll_due:
  assumes "transferAllEffects s0 c xs = Some ys" and "distinct (map xe_asset xs)"
    and "\<And>x. x \<in> set xs \<Longrightarrow> ad_holdings s (xe_asset x) c = ad_holdings s0 (xe_asset x) c"
  shows "owed (chargeAll c ys s) + due (payAll ys) = owed s"
  using assms
proof (induction xs arbitrary: ys s)
  case (Cons x xs)
  from Cons.prems(1) obtain m zs where m: "transferEffects (ad_holdings s0 (xe_asset x) c) (xe_allocations x) [] = Some m"
    and zs: "transferAllEffects s0 c xs = Some zs" and ys: "ys = (x, m) # zs" by (auto split: option.splits)
  let ?s = "setHoldings (xe_asset x) c (ad_holdings s (xe_asset x) c - tm_payouts m) s"
  have same: "ad_holdings s (xe_asset x) c = ad_holdings s0 (xe_asset x) c" using Cons.prems(3) by simp
  have "owed ?s + (if xe_asset x = 0 then unat (tm_payouts m) else 0) = owed s"
    by (rule charge) (simp add: same transferEffects_total(2) [OF m])
  moreover have "owed (chargeAll c zs ?s) + due (payAll zs) = owed ?s"
  proof (rule Cons.IH [OF zs])
    fix y assume "y \<in> set xs"
    then have "xe_asset y \<in> xe_asset ` set xs" by (rule imageI)
    moreover have "xe_asset x \<notin> xe_asset ` set xs" using Cons.prems(2) by simp
    ultimately have "xe_asset y \<noteq> xe_asset x" by metis
    with Cons.prems(3) [of y] \<open>y \<in> set xs\<close> show "ad_holdings ?s (xe_asset y) c = ad_holdings s0 (xe_asset y) c"
      by (simp add: setHoldings_def)
  qed (use Cons.prems(2) in simp)
  ultimately show ?case using transferEffects_total(1) [OF m] by (auto simp: ys due_PayExit split: if_splits)
qed simp

lemma transferAll_due:
  assumes "transferAllCall V c bytes h s = Some (s', ps)" and "decodeExits V bytes = Some exits"
    and "distinct (map xe_asset exits)"
  shows "owed s' + due ps \<le> owed s \<and> ad_balance s' = ad_balance s"
proof -
  from assms(1,2) obtain ys where ys: "transferAllEffects s c exits = Some ys" and ps: "ps = payAll ys"
    and s': "owed s' = owed (chargeAll c ys s)" "ad_balance s' = ad_balance s"
    by (auto simp: transferAllCall_def Let_def owed_def split: if_splits option.splits) (auto simp: owed_def [symmetric])
  from chargeAll_due [OF ys assms(3)] show ?thesis by (simp add: s' ps)
qed

lemma payOut_due:
  assumes "payOut p s = Some s'" and "solvent s calls" and "dueOf p \<le> dueAll calls"
  shows "owed s' + (dueAll calls - dueOf p) \<le> ad_balance s' \<and> ad_balance s' < 2 ^ 256"
proof (cases p)
  case (Refund n)
  with assms show ?thesis by (auto simp: payEther_def solvent_def owed_def split: if_splits)
next
  case (PayExit asset a)
  show ?thesis
  proof (cases "isExternalWord (sa_destination a)")
    case True
    with assms PayExit show ?thesis by (auto simp: payEther_def solvent_def owed_def split: if_splits)
  next
    case False
    let ?h = "ad_holdings s 0 (sa_destination a)"
    have "asset = 0 \<Longrightarrow> unat (?h + sa_amount a) = unat ?h + unat (sa_amount a)"
      using assms(2,3) holding_owed [of s "sa_destination a"] PayExit
      by (intro unat_add_lem [THEN iffD1]) (simp add: solvent_def)
    with False assms PayExit holding_owed [of s "sa_destination a"] show ?thesis
      by (auto simp: solvent_def owed_setHoldings)
  qed
qed

lemma solvent_called:
  assumes "solvent s calls" and "solventStack calls"
    and "owed s' + due ps \<le> owed s + n" and "ad_balance s' = ad_balance s + n" and "ad_balance s + n < 2 ^ 256"
  shows "solvent s' ((s, ps) # calls) \<and> solventStack ((s, ps) # calls)"
  using assms by (auto simp: solvent_def)

lemma receiveEther_simps [simp]:
  "owed (receiveEther n s) = owed s" "ad_balance (receiveEther n s) = ad_balance s + n"
  by (simp_all add: receiveEther_def owed_def)

text \<open>The calls of ForceMove change the status of one channel.\<close>

lemma setStatusWord_simps [simp]:
  "owed (setStatusWord c w s) = owed s" "ad_balance (setStatusWord c w s) = ad_balance s" "ad_now (setStatusWord c w s) = ad_now s"
  "ad_statusOf (setStatusWord c w s) = (ad_statusOf s)(c := w)" "ad_holdings (setStatusWord c w s) = ad_holdings s"
  by (simp_all add: setStatusWord_def owed_def)

lemma challenge_status:
  "challengeCall V f t parts k sigs who g s = Some s' \<Longrightarrow> \<exists>c w. channelIdOf V f = Some c \<and> s' = setStatusWord c w s"
  by (auto simp: challengeCall_def split: if_splits option.splits)

lemma respond_status:
  "respondCall V fa fb f a b g s = Some s' \<Longrightarrow> \<exists>c w. channelIdOf V f = Some c \<and> s' = setStatusWord c w s"
  by (auto simp: respondCall_def clearChallenge_def Let_def split: if_splits option.splits prod.splits)

lemma checkpoint_status:
  "checkpointCall V f t parts k sigs who s = Some s' \<Longrightarrow> \<exists>c w. channelIdOf V f = Some c \<and> s' = setStatusWord c w s"
  by (auto simp: checkpointCall_def clearChallenge_def split: if_splits option.splits)

lemma conclude_status:
  "concludeCall V t f h out n who sigs s = Some (s', c) \<Longrightarrow> channelIdOf V f = Some c \<and> (\<exists>w. s' = setStatusWord c w s)"
  by (auto simp: concludeCall_def split: if_splits option.splits)

lemma owed_now [simp]: "owed (s\<lparr>ad_now := n\<rparr>) = owed s"
  by (simp add: owed_def)

lemma solvent_step:
  assumes "contract_step V (\<lambda>exits. distinct (map xe_asset exits)) (s, calls) (s', calls')"
    and "solvent s calls" and "solventStack calls"
  shows "solvent s' calls' \<and> solventStack calls'"
  using assms(1)
proof cases
  case (deposit v ok asset c expected n ps)
  with deposit_due [OF deposit(3)] solvent_called [OF assms(2,3), of s' ps "unat v"] show ?thesis by simp
next
  case (transfer i c bytes h indices ps)
  with transfer_due [OF transfer(2)] solvent_called [OF assms(2,3), of s' ps 0] assms(2) show ?thesis by (simp add: solvent_def)
next
  case (claim A ps)
  with claim_due [OF claim(2)] solvent_called [OF assms(2,3), of s' ps 0] assms(2) show ?thesis by (simp add: solvent_def)
next
  case (transfer_all c bytes h ps exits)
  with transferAll_due [OF transfer_all(2-4)] solvent_called [OF assms(2,3), of s' ps 0] assms(2) show ?thesis
    by (simp add: solvent_def)
next
  case (challenge f t parts k sigs who g)
  with assms(2,3) show ?thesis by (auto dest!: challenge_status simp: solvent_def)
next
  case (respond fa fb f a b g)
  with assms(2,3) show ?thesis by (auto dest!: respond_status simp: solvent_def)
next
  case (checkpoint f t parts k sigs who)
  with assms(2,3) show ?thesis by (auto dest!: checkpoint_status simp: solvent_def)
next
  case (conclude t f h out n who sigs c)
  with assms(2,3) show ?thesis by (auto dest!: conclude_status simp: solvent_def)
next
  case (conclude_all t f h bytes n who sigs ps exits)
  from conclude_all(2) obtain c u where u: "concludeCall V t f h (keccakBytes V bytes) n who sigs s = Some (u, c)"
    and all: "transferAllCall V c bytes 0 u = Some (s', ps)"
    by (auto simp: concludeAndTransferAllAssets_def split: option.splits)
  from conclude_status [OF u] have "owed u = owed s" "ad_balance u = ad_balance s" by auto
  with transferAll_due [OF all conclude_all(3,4)] solvent_called [OF assms(2,3), of s' ps 0] assms(2) conclude_all show ?thesis
    by (simp add: solvent_def)
next
  case (pay p saved ps cs)
  with payOut_due [OF pay(3), of calls] assms(2,3) show ?thesis by (simp add: solvent_def)
qed (use assms(2,3) in \<open>auto simp: solvent_def\<close>)

lemma solvent_run:
  assumes "(contract_step V (\<lambda>exits. distinct (map xe_asset exits)))\<^sup>*\<^sup>* (s, calls) (s', calls')"
    and "solvent s calls" and "solventStack calls"
  shows "solvent s' calls' \<and> solventStack calls'"
  using assms
proof (induction rule: rtranclp_induct2)
  case (step t cs u ds)
  with solvent_step [OF step.hyps(2)] show ?case by blast
qed simp

definition newAdjudicator :: adjudicator where
  "newAdjudicator = \<lparr>ad_holdings = (\<lambda>_ _. 0), ad_statusOf = (\<lambda>_. 0), ad_balance = 0, ad_now = 0\<rparr>"

text \<open>
  C17: the contract can always pay the ether it owes, as long as the outcomes that are paid out all at once
  name every asset once: whatever else is called, whoever is called back in the middle of a payment,
  and whatever is rolled back, the ether held for all channels together and the payments under way
  never exceed its balance. An outcome that names an asset twice breaks this, as a later property says.
\<close>

theorem contract_stays_solvent:
  assumes "(contract_step V (\<lambda>exits. distinct (map xe_asset exits)))\<^sup>*\<^sup>* (newAdjudicator, []) (s, calls)"
  shows "(\<Sum>c \<in> UNIV. unat (ad_holdings s 0 c)) + sum_list (map (due \<circ> snd) calls) \<le> ad_balance s"
proof -
  have "solvent newAdjudicator []" by (simp add: solvent_def owed_def newAdjudicator_def)
  from solvent_run [OF assms this] show ?thesis by (simp add: solvent_def owed_def dueAll_def)
qed

section \<open>An asset named twice\<close>

definition soleExit :: "evm_address \<Rightarrow> sol_allocation \<Rightarrow> asset_exit" where
  "soleExit asset a = \<lparr>xe_asset = asset, xe_metadata = ''0x'', xe_allocations = [a]\<rparr>"

lemma transferEffects_sole:
  assumes "sa_type a \<noteq> 2" and "sa_amount a = n"
  shows "\<exists>m. transferEffects n [a] [] = Some m \<and> tm_payouts m = n \<and> tm_exits m = [a]"
  using assms by (auto simp: transferEffects_def transferItem_def selects_def minWord_def Let_def)

text \<open>
  C20: an outcome that names ether twice takes the holdings of its channel twice. Both entries are computed
  from the holdings there are, both are paid, the second with what other channels have deposited, and
  the holdings of the channel wrap around.
\<close>

theorem asset_named_twice_is_paid_twice:
  assumes "requireChannelFinalized c s" and "requireMatchingFingerprint V h (keccakBytes V bytes) c s"
    and "decodeExits V bytes = Some [soleExit 0 a, soleExit 0 a]"
    and "sa_type a \<noteq> 2" and "isExternalWord (sa_destination a)" and "sa_amount a = ad_holdings s 0 c"
    and "2 * unat (ad_holdings s 0 c) \<le> ad_balance s"
  shows "\<exists>s'. (contract_step V (\<lambda>_. True))\<^sup>*\<^sup>* (s, []) (s', []) \<and>
    ad_balance s' = ad_balance s - 2 * unat (ad_holdings s 0 c) \<and> ad_holdings s' 0 c = - ad_holdings s 0 c \<and>
    (\<forall>d. d \<noteq> c \<longrightarrow> ad_holdings s' 0 d = ad_holdings s 0 d)"
proof -
  let ?n = "ad_holdings s 0 c"
  obtain m where m: "transferEffects ?n [a] [] = Some m" "tm_payouts m = ?n" "tm_exits m = [a]"
    using transferEffects_sole [OF assms(4,6)] by blast
  then obtain s1 where call: "transferAllCall V c bytes h s = Some (s1, [PayExit 0 a, PayExit 0 a])"
    and s1: "ad_balance s1 = ad_balance s" "ad_holdings s1 = (ad_holdings s)(0 := (ad_holdings s 0)(c := - ?n))"
    using assms(1-3) by (auto simp: transferAllCall_def soleExit_def Let_def setHoldings_def updateFingerprint_def split: prod.splits)
  define s2 where "s2 = s1\<lparr>ad_balance := ad_balance s1 - unat ?n\<rparr>"
  define s3 where "s3 = s2\<lparr>ad_balance := ad_balance s2 - unat ?n\<rparr>"
  have pay: "payOut (PayExit 0 a) s1 = Some s2" "payOut (PayExit 0 a) s2 = Some s3"
    using assms(5-7) s1(1) by (simp_all add: payEther_def s2_def s3_def)
  have "contract_step V (\<lambda>_. True) (s, []) (s1, [(s, [PayExit 0 a, PayExit 0 a])])"
    by (rule contract_step.transfer_all [OF call assms(3)]) simp
  moreover have "contract_step V (\<lambda>_. True) (s1, [(s, [PayExit 0 a, PayExit 0 a])]) (s2, [(s, [PayExit 0 a])])"
    by (rule contract_step.pay [OF pay(1)])
  moreover have "contract_step V (\<lambda>_. True) (s2, [(s, [PayExit 0 a])]) (s3, [(s, [])])"
    by (rule contract_step.pay [OF pay(2)])
  moreover have "contract_step V (\<lambda>_. True) (s3, [(s, [])]) (s3, [])" by (rule contract_step.finished)
  ultimately have "(contract_step V (\<lambda>_. True))\<^sup>*\<^sup>* (s, []) (s3, [])"
    by (meson converse_rtranclp_into_rtranclp rtranclp.rtrancl_refl)
  then show ?thesis using s1 by (intro exI [of _ s3]) (simp add: s2_def s3_def)
qed

section \<open>Concrete contracts\<close>

definition paidAllocation :: "evm_word \<Rightarrow> sol_allocation" where
  "paidAllocation n = \<lparr>sa_destination = 7, sa_amount = n, sa_type = 0, sa_metadata = ''0x''\<rparr>"

definition sampleEvm :: "asset_exit list \<Rightarrow> fm_env" where
  "sampleEvm exits = \<lparr>keccakBytes = (\<lambda>_. 0), encodeExits = (\<lambda>_. []), encodeBytes = (\<lambda>b. b), decodeExits = (\<lambda>_. Some exits),
     decodeDestinations = (\<lambda>_. None), hashPair = (\<lambda>_ _. 0), chainID = 1, hashId = (\<lambda>_ _ n. ucast n), hashApp = (\<lambda>_ _ _. 0),
     hashSolState = (\<lambda>_. 0), hashForceMove = (\<lambda>h. h), prefixedHash = (\<lambda>h. h), ecrecover = (\<lambda>_ _. 0),
     appTransition = (\<lambda>_ _ _ _ _. None)\<rparr>"

text \<open>A finalized channel that holds ten, and another ten of somebody else.\<close>

definition sampleAdjudicator :: adjudicator where
  "sampleAdjudicator = \<lparr>ad_holdings = (\<lambda>_ c. if c = 1 \<or> c = 2 then 10 else 0),
     ad_statusOf = (\<lambda>_. push_bit 160 1), ad_balance = 20, ad_now = 1\<rparr>"

theorem asset_named_twice_is_paid_twice_witness:
  "\<exists>s'. (contract_step (sampleEvm [soleExit 0 (paidAllocation 10), soleExit 0 (paidAllocation 10)]) (\<lambda>_. True))\<^sup>*\<^sup>*
     (sampleAdjudicator, []) (s', []) \<and> ad_balance s' = 0 \<and> ad_holdings s' 0 2 = 10"
proof -
  let ?V = "sampleEvm [soleExit 0 (paidAllocation 10), soleExit 0 (paidAllocation 10)]"
  have "requireChannelFinalized 1 sampleAdjudicator" "requireMatchingFingerprint ?V 0 (keccakBytes ?V []) 1 sampleAdjudicator"
    by code_simp+
  moreover have "decodeExits ?V [] = Some [soleExit 0 (paidAllocation 10), soleExit 0 (paidAllocation 10)]"
    by (simp add: sampleEvm_def)
  moreover have "isExternalWord (sa_destination (paidAllocation 10))" by code_simp
  ultimately show ?thesis
    using asset_named_twice_is_paid_twice [of 1 sampleAdjudicator ?V 0 "[]" "paidAllocation 10"]
    by (auto simp: paidAllocation_def sampleAdjudicator_def)
qed

theorem contract_stays_solvent_witness:
  "\<exists>s calls. (contract_step (sampleEvm []) (\<lambda>exits. distinct (map xe_asset exits)))\<^sup>*\<^sup>* (newAdjudicator, []) (s, calls) \<and>
     ad_holdings s 0 (- 1) = 5 \<and>
     (\<Sum>c \<in> UNIV. unat (ad_holdings s 0 c)) + sum_list (map (due \<circ> snd) calls) \<le> ad_balance s"
proof -
  let ?s = "receiveEther 5 newAdjudicator"
  have ok: "\<not> isExternalWord (- 1)" by code_simp
  have "depositCall True 5 0 (- 1) 0 5 (receiveEther (unat (5 :: evm_word)) newAdjudicator) =
      Some (setHoldings 0 (- 1) 5 ?s, [Refund 0])"
    by (simp add: depositCall_def ok Let_def newAdjudicator_def receiveEther_def safeAdd_def safeSub_def)
  from contract_step.deposit [OF _ this, of "sampleEvm []" "\<lambda>exits. distinct (map xe_asset exits)" "[]"]
  have run: "(contract_step (sampleEvm []) (\<lambda>exits. distinct (map xe_asset exits)))\<^sup>*\<^sup>* (newAdjudicator, [])
      (setHoldings 0 (- 1) 5 ?s, [(newAdjudicator, [Refund 0])])"
    by (intro r_into_rtranclp) (simp add: newAdjudicator_def)
  moreover have "ad_holdings (setHoldings 0 (- 1) 5 ?s) 0 (- 1) = 5" by (simp add: setHoldings_def)
  ultimately show ?thesis using contract_stays_solvent [OF run] by blast
qed

end
