(* ===== verification/ForceMoveFacts.thy ===== *)
theory ForceMoveFacts
  imports AdjudicatorFacts
begin

text \<open>
  What the adjudicator guarantees a participant: nothing is registered without a state it has signed,
  the turn number that is registered never goes back, a challenge leaves time to answer, and a later
  supported state answers it.
\<close>

section \<open>Support\<close>

text \<open>How far the state a participant signs last is from the end of the chain.\<close>

definition moverOffset :: "48 word \<Rightarrow> nat \<Rightarrow> nat \<Rightarrow> nat" where
  "moverOffset largestTurnNum n i = (n + unat largestTurnNum - i) mod n"

lemma signersMatch_nth:
  "signersMatch V hashes xs = Some True \<Longrightarrow> i < length xs \<Longrightarrow> xs ! i = (p, g, w) \<Longrightarrow>
     unat w < length hashes \<and> recoverSigner V (hashes ! unat w) g = Some p"
proof (induction xs arbitrary: i)
  case (Cons x xs)
  obtain q h v where x: "x = (q, h, v)" by (cases x)
  with Cons.prems(1) have "unat v < length hashes" "recoverSigner V (hashes ! unat v) h = Some q"
    "signersMatch V hashes xs = Some True" by (auto split: if_splits option.splits)
  with Cons.IH Cons.prems(2,3) x show ?case by (cases i) auto
qed simp

lemma signersMatch_all:
  "(\<And>p g w. (p, g, w) \<in> set xs \<Longrightarrow> unat w < length hashes \<and> recoverSigner V (hashes ! unat w) g = Some p) \<Longrightarrow>
     signersMatch V hashes xs = Some True"
proof (induction xs)
  case (Cons x xs)
  obtain p g w where x: "x = (p, g, w)" by (cases x)
  have "signersMatch V hashes xs = Some True" using Cons.prems by (intro Cons.IH) auto
  moreover have "unat w < length hashes \<and> recoverSigner V (hashes ! unat w) g = Some p" using x by (intro Cons.prems) simp
  ultimately show ?case using x by simp
qed simp

lemma validSignatures_nth:
  assumes "validSignatures V t ps hashes sigs who = Some True" and "length sigs = length ps" and "i < length ps"
  shows "unat (who ! i) < length hashes \<and> recoverSigner V (hashes ! unat (who ! i)) (sigs ! i) = Some (ps ! i) \<and>
    length hashes \<le> Suc (unat (who ! i) + moverOffset t (length ps) i)"
proof -
  from assms(1) have acc: "acceptableWhoSignedWhat who t (length ps) (length hashes) = Some True"
    and m: "signersMatch V hashes (zip ps (zip sigs who)) = Some True"
    by (auto simp: validSignatures_def split: option.splits bool.splits)
  from acc have len: "length who = length ps" by (auto simp: acceptableWhoSignedWhat_def split: if_splits)
  from acc assms(3) have "length hashes \<le> Suc (unat (who ! i) + moverOffset t (length ps) i)"
    by (auto simp: acceptableWhoSignedWhat_def list_all_iff moverOffset_def split: if_splits) (meson atLeastLessThan_iff le0 not_less)
  with signersMatch_nth [OF m, of i "ps ! i" "sigs ! i" "who ! i"] assms(2,3) len show ?thesis by simp
qed

lemma chain_hashes:
  "requireValidTransitionChain V t parts k c f = Some hashes \<Longrightarrow>
     hashes = map (chainHash V t parts k c f) [0..<length parts] \<and> list_all (chainLink V t parts k f) [0..<length parts]"
  by (auto simp: requireValidTransitionChain_def split: if_splits)

lemma supported_nth:
  assumes "requireStateSupportedBy V t parts k c f sigs who = Some h"
    and "length sigs = length (ff_participants f)" and "i < length (ff_participants f)"
  obtains j where "j < length parts" and "length parts \<le> Suc (j + moverOffset t (length (ff_participants f)) i)"
    and "recoverSigner V (chainHash V t parts k c f j) (sigs ! i) = Some (ff_participants f ! i)"
    and "list_all (chainLink V t parts k f) [0..<length parts]"
proof -
  from assms(1) obtain hashes where h: "requireValidTransitionChain V t parts k c f = Some hashes"
    and v: "validSignatures V t (ff_participants f) hashes sigs who = Some True"
    by (auto simp: requireStateSupportedBy_def split: option.splits if_splits)
  note hs = chain_hashes [OF h]
  from validSignatures_nth [OF v assms(2,3)] have "unat (who ! i) < length hashes"
    "recoverSigner V (hashes ! unat (who ! i)) (sigs ! i) = Some (ff_participants f ! i)"
    "length hashes \<le> Suc (unat (who ! i) + moverOffset t (length (ff_participants f)) i)" by auto
  with that [of "unat (who ! i)"] hs show ?thesis by auto
qed

text \<open>
  C14: no challenge is registered behind a participant's back. Whoever challenges with whatever arguments,
  each participant has signed a state of the chain presented, one from which the end is not farther
  than from the latest state it moves; and from that state on every step is a valid transition, its
  turn numbers one after the other, as long as the turn number of the earlier state, counted back
  from the largest one, is not below zero. Below zero the 48 bits wrap around and the contract does
  not check the step; with a largest turn number of at least the number of participants that does
  not happen.
\<close>

theorem challenged_state_was_signed:
  assumes "challengeCall V f t parts k sigs who g s = Some s'" and "i < length (ff_participants f)"
  shows "\<exists>c j. channelIdOf V f = Some c \<and> j < length parts \<and>
    length parts \<le> Suc (j + (length (ff_participants f) + unat t - i) mod length (ff_participants f)) \<and>
    recoverSigner V (hashStateOf V (t - of_nat (length parts - Suc j))
        (impliedFinal t k (t - of_nat (length parts - Suc j))) c f (fv_appData (parts ! j)) (keccakBytes V (fv_outcome (parts ! j))))
      (sigs ! i) = Some (ff_participants f ! i) \<and>
    (\<forall>m. j \<le> m \<longrightarrow> Suc m < length parts \<longrightarrow> length parts \<le> Suc m + unat t \<longrightarrow>
       (let u = t - of_nat (length parts - Suc m)
        in requireTransition V (length (ff_participants f)) (impliedFinal t k u) (impliedFinal t k (u + 1))
             (parts ! m) (parts ! Suc m) (u + 1) (ff_appDefinition f)))"
proof -
  from assms(1) obtain c h where c: "channelIdOf V f = Some c" and
    h: "requireStateSupportedBy V t parts k c f sigs who = Some h" and len: "length sigs = length (ff_participants f)"
    by (auto simp: challengeCall_def requireValidInput_def split: if_splits option.splits)
  from supported_nth [OF h len assms(2)] obtain j where j: "j < length parts"
    "length parts \<le> Suc (j + moverOffset t (length (ff_participants f)) i)"
    "recoverSigner V (chainHash V t parts k c f j) (sigs ! i) = Some (ff_participants f ! i)"
    "list_all (chainLink V t parts k f) [0..<length parts]" .
  have at: "turnNumAt t (length parts) m = t - of_nat (length parts - Suc m)" if "m < length parts" for m
    using that by (simp add: turnNumAt_def of_nat_diff)
  have less: "t - of_nat (length parts - Suc m) < t"
    if "Suc m < length parts" "length parts \<le> Suc m + unat t" for m
  proof -
    define d where "d = length parts - Suc m"
    have d: "d \<le> unat t" "0 < d" using that by (auto simp: d_def)
    have "unat t < 2 ^ LENGTH(48)" by (rule unsigned_less)
    with d have u: "unat (of_nat d :: 48 word) = d" by (simp add: unat_of_nat)
    have "unat (t - of_nat d) = unat t - unat (of_nat d :: 48 word)"
      by (rule unat_sub) (use u d(1) in \<open>simp add: word_le_nat_alt\<close>)
    with u d show ?thesis unfolding d_def [symmetric] word_less_nat_alt by simp
  qed
  show ?thesis
    using j c at less by (intro exI [of _ c] exI [of _ j]) (auto simp: moverOffset_def chainHash_def chainLink_def Let_def list_all_iff)
qed

section \<open>What a step does to the status of a channel\<close>

definition finalizesAtOf :: "adjudicator \<Rightarrow> evm_word \<Rightarrow> 48 word" where
  "finalizesAtOf s c = fst (snd (unpackStatus (ad_statusOf s c)))"

lemma solModeOf_iff:
  "solModeOf s c = SolOpen \<longleftrightarrow> finalizesAtOf s c = 0"
  "solModeOf s c = SolFinalized \<longleftrightarrow> finalizesAtOf s c \<noteq> 0 \<and> ucast (finalizesAtOf s c) \<le> ad_now s"
  by (auto simp: solModeOf_def modeOfStatus_def finalizesAtOf_def split: prod.splits)

lemma unat_of_time: "unat (ucast (x :: 48 word) :: evm_word) = unat x"
proof -
  have "unat x < 2 ^ LENGTH(48)" by (rule unsigned_less)
  then show ?thesis by (simp add: unsigned_ucast_eq take_bit_nat_eq_self)
qed

lemma statusOf_cong:
  "ad_statusOf s c = ad_statusOf u c \<Longrightarrow> finalizesAtOf s c = finalizesAtOf u c \<and> turnNumRecordOf s c = turnNumRecordOf u c"
  by (simp add: finalizesAtOf_def turnNumRecordOf_def)

lemma setStatusWord_generateStatus [simp]:
  "finalizesAtOf (setStatusWord c (generateStatus V t f h g) s) d = (if d = c then f else finalizesAtOf s d)"
  "turnNumRecordOf (setStatusWord c (generateStatus V t f h g) s) d = (if d = c then t else turnNumRecordOf s d)"
  by (simp_all add: finalizesAtOf_def turnNumRecordOf_def unpackStatus_generateStatus)

text \<open>Payouts touch only what is finalized.\<close>

definition untouched :: "evm_word \<Rightarrow> adjudicator \<Rightarrow> adjudicator \<Rightarrow> bool" where
  "untouched c s s' \<longleftrightarrow> ad_now s' = ad_now s \<and> (solModeOf s c = SolFinalized \<or> ad_statusOf s' c = ad_statusOf s c)"

lemma untouchedI: "s' = s \<Longrightarrow> untouched c s s'"
  by (simp add: untouched_def)

lemma updateFingerprint_status:
  "ad_now (updateFingerprint V d h g s) = ad_now s"
  "c \<noteq> d \<Longrightarrow> ad_statusOf (updateFingerprint V d h g s) c = ad_statusOf s c"
  by (auto simp: updateFingerprint_def split: prod.splits)

lemma setHoldings_now [simp]: "ad_now (setHoldings asset d v s) = ad_now s"
  by (simp add: setHoldings_def)

lemma chargeAll_status [simp]:
  "ad_now (chargeAll d xs s) = ad_now s" "ad_statusOf (chargeAll d xs s) = ad_statusOf s"
  by (induction d xs s rule: chargeAll.induct) simp_all

lemma deposit_untouched:
  "depositCall ok v asset d expected n s = Some (s', ps) \<Longrightarrow> untouched c s s'"
  by (auto simp: depositCall_def untouched_def Let_def split: if_splits option.splits)

lemma transfer_untouched:
  "transferCall V i d bytes h indices s = Some (s', ps) \<Longrightarrow> untouched c s s'"
  by (cases "c = d")
    (auto simp: transferCall_def untouched_def requireChannelFinalized_def updateFingerprint_status Let_def
      split: if_splits option.splits)

lemma claim_untouched:
  assumes "claimCall V A s = Some (s', ps)"
  shows "untouched c s s'"
proof -
  let ?d = "ca_sourceChannelId A"
  from assms obtain sources targets u h1 g1 h2 g2 where chk: "claimChecks V A s = Some (sources, targets)" and
    s': "s' = updateFingerprint V (sa_destination (xe_allocations (sources ! ca_sourceAssetIndex A) ! ca_indexOfTargetInSource A)) h1 g1
      (updateFingerprint V ?d h2 g2 u)" and u: "ad_now u = ad_now s" "ad_statusOf u = ad_statusOf s"
    by (auto simp: claimCall_def Let_def split: option.splits prod.splits)
  from chk have "solModeOf s ?d = SolFinalized"
    "solModeOf s (sa_destination (xe_allocations (sources ! ca_sourceAssetIndex A) ! ca_indexOfTargetInSource A)) = SolFinalized"
    by (auto simp: claimChecks_def requireChannelFinalized_def Let_def split: if_splits option.splits)
  with u show ?thesis
    by (cases "c = ?d"; cases "c = sa_destination (xe_allocations (sources ! ca_sourceAssetIndex A) ! ca_indexOfTargetInSource A)")
      (simp_all add: untouched_def s' updateFingerprint_status)
qed

lemma transferAll_untouched:
  "transferAllCall V d bytes h s = Some (s', ps) \<Longrightarrow> untouched c s s'"
  by (cases "c = d")
    (auto simp: transferAllCall_def untouched_def requireChannelFinalized_def updateFingerprint_status Let_def
      split: if_splits option.splits)

lemma payOut_untouched: "payOut p s = Some s' \<Longrightarrow> untouched c s s'"
  by (cases p) (auto simp: payEther_def untouched_def split: if_splits)

lemma receiveEther_untouched [simp]:
  "ad_now (receiveEther n s) = ad_now s" "ad_statusOf (receiveEther n s) = ad_statusOf s"
  by (simp_all add: receiveEther_def)

text \<open>
  A property of a channel lasts if payouts, the four calls of ForceMove on the channel and the passing of
  time keep it. What is rolled back had it before.
\<close>

definition runs_while :: "fm_env \<Rightarrow> (asset_exit list \<Rightarrow> bool) \<Rightarrow> (adjudicator \<Rightarrow> bool) \<Rightarrow> adjudicator \<times> call_stack \<Rightarrow>
  adjudicator \<times> call_stack \<Rightarrow> bool" where
  "runs_while V covered G = (\<lambda>x y. contract_step V covered x y \<and> G (fst y))\<^sup>*\<^sup>*"

lemma conclude_all_split:
  assumes "concludeAndTransferAllAssets V t f h bytes n who sigs s = Some (s', ps)"
  obtains u d where "concludeCall V t f h (keccakBytes V bytes) n who sigs s = Some (u, d)"
    and "transferAllCall V d bytes 0 u = Some (s', ps)"
  using assms by (auto simp: concludeAndTransferAllAssets_def split: option.splits)

lemma status_lasts:
  assumes run: "runs_while V covered G (s, []) (s', calls')" and init: "G s" "F s"
    and untouched: "\<And>u u'. F u \<Longrightarrow> G u \<Longrightarrow> untouched c u u' \<Longrightarrow> F u'"
    and challenge: "\<And>f t parts k sigs who g u u'. F u \<Longrightarrow> G u \<Longrightarrow> channelIdOf V f = Some c \<Longrightarrow>
      challengeCall V f t parts k sigs who g u = Some u' \<Longrightarrow> G u' \<Longrightarrow> F u'"
    and respond: "\<And>fa fb f a b g u u'. F u \<Longrightarrow> G u \<Longrightarrow> channelIdOf V f = Some c \<Longrightarrow>
      respondCall V fa fb f a b g u = Some u' \<Longrightarrow> G u' \<Longrightarrow> F u'"
    and checkpoint: "\<And>f t parts k sigs who u u'. F u \<Longrightarrow> G u \<Longrightarrow> channelIdOf V f = Some c \<Longrightarrow>
      checkpointCall V f t parts k sigs who u = Some u' \<Longrightarrow> G u' \<Longrightarrow> F u'"
    and conclude: "\<And>t f h out n who sigs u u'. F u \<Longrightarrow> G u \<Longrightarrow> concludeCall V t f h out n who sigs u \<noteq> Some (u', c)"
    and tick: "\<And>u n. F u \<Longrightarrow> ad_now u \<le> n \<Longrightarrow> F (u\<lparr>ad_now := n\<rparr>)"
  shows "F s'"
proof -
  let ?ok = "\<lambda>u cs. (F u \<and> G u) \<and> (\<forall>(v, ps) \<in> set cs. F v \<and> G v)"
  have elsewhere: "F u'" if "F u" "G u" "channelIdOf V f = Some d" "d \<noteq> c" "u' = setStatusWord d w u" for u u' f d w
    using that by (intro untouched [OF that(1,2)]) (simp add: untouched_def)
  have one: "?ok u' cs'" if st: "contract_step V covered (u, cs) (u', cs')" and g: "G u'" and ok: "?ok u cs" for u cs u' cs'
  proof -
    from ok have u: "F u" "G u" by simp_all
    from st show ?thesis
    proof cases
      case (deposit v tok asset d expected n ps)
      have "untouched c u u'" using deposit_untouched [OF deposit(3), of c] by (simp add: untouched_def solModeOf_def)
      with deposit(1) ok g untouched [OF u] show ?thesis by auto
    next
      case (transfer i d bytes h indices ps)
      with ok g untouched [OF u transfer_untouched [OF transfer(2)]] show ?thesis by auto
    next
      case (claim A ps)
      with ok g untouched [OF u claim_untouched [OF claim(2)]] show ?thesis by auto
    next
      case (transfer_all d bytes h ps exits)
      with ok g untouched [OF u transferAll_untouched [OF transfer_all(2)]] show ?thesis by auto
    next
      case (challenge f t parts k sigs who gg)
      from challenge_status [OF challenge(2)] obtain d w where d: "channelIdOf V f = Some d" "u' = setStatusWord d w u" by auto
      have "F u'" using elsewhere [OF u d(1) _ d(2)] assms(5) [OF u _ challenge(2) g] d(1) by (cases "d = c") auto
      with challenge(1) ok g show ?thesis by auto
    next
      case (respond fa fb f a b gg)
      from respond_status [OF respond(2)] obtain d w where d: "channelIdOf V f = Some d" "u' = setStatusWord d w u" by auto
      have "F u'" using elsewhere [OF u d(1) _ d(2)] assms(6) [OF u _ respond(2) g] d(1) by (cases "d = c") auto
      with respond(1) ok g show ?thesis by auto
    next
      case (checkpoint f t parts k sigs who)
      from checkpoint_status [OF checkpoint(2)] obtain d w where d: "channelIdOf V f = Some d" "u' = setStatusWord d w u" by auto
      have "F u'" using elsewhere [OF u d(1) _ d(2)] assms(7) [OF u _ checkpoint(2) g] d(1) by (cases "d = c") auto
      with checkpoint(1) ok g show ?thesis by auto
    next
      case (conclude t f h out n who sigs d)
      from conclude_status [OF conclude(2)] obtain w where d: "channelIdOf V f = Some d" "u' = setStatusWord d w u" by auto
      have "d \<noteq> c" using assms(8) [OF u] conclude(2) by blast
      with elsewhere [OF u d(1) _ d(2)] conclude(1) ok g show ?thesis by auto
    next
      case (conclude_all t f h bytes n who sigs ps exits)
      from conclude_all_split [OF conclude_all(2)] obtain v d where
        v: "concludeCall V t f h (keccakBytes V bytes) n who sigs u = Some (v, d)" "transferAllCall V d bytes 0 v = Some (u', ps)" .
      from conclude_status [OF v(1)] obtain w where d: "v = setStatusWord d w u" by auto
      have "d \<noteq> c" using assms(8) [OF u] v(1) by blast
      with transferAll_untouched [OF v(2), of c] have "untouched c u u'" by (auto simp: d untouched_def solModeOf_def)
      with conclude_all(1) ok g untouched [OF u] show ?thesis by auto
    next
      case (pay p saved ps cs1)
      with ok g untouched [OF u payOut_untouched [OF pay(3)]] show ?thesis by auto
    next
      case (ether n)
      have "F u'" by (rule untouched [OF u]) (simp add: untouched_def ether)
      with ether ok g show ?thesis by auto
    next
      case (tick n)
      with ok g assms(9) [OF u(1) tick(4)] show ?thesis by auto
    qed (use ok g in auto)
  qed
  have "?ok s' calls'"
    using run unfolding runs_while_def
  proof (induction rule: rtranclp_induct2)
    case refl
    show ?case using init by simp
  next
    case (step u cs u' cs')
    from step.hyps(2) have "contract_step V covered (u, cs) (u', cs')" "G u'" by simp_all
    from this step.IH show ?case by (rule one)
  qed
  then show ?thesis by simp
qed

section \<open>A participant that is careful\<close>

text \<open>
  What a participant \<open>p\<close> of the channel \<open>c\<close> has signed: nothing but the hashes in \<open>H\<close>, of states of \<open>c\<close> that are
  not final and have the challenge duration \<open>dur\<close>. That the hashes tell states apart is part of it.
\<close>

definition signs_carefully :: "fm_env \<Rightarrow> evm_word \<Rightarrow> evm_address \<Rightarrow> 48 word \<Rightarrow> evm_word set \<Rightarrow> bool" where
  "signs_carefully V c p dur H \<longleftrightarrow>
     (\<forall>f. channelIdOf V f = Some c \<longrightarrow> p \<in> set (ff_participants f)) \<and>
     (\<forall>h g. recoverSigner V h g = Some p \<longrightarrow> h \<in> H) \<and>
     (\<forall>st. hashSolState V st \<in> H \<longrightarrow> so_channelId st = c \<longrightarrow>
        \<not> so_isFinal st \<and> (\<exists>a x. so_appPartHash st = hashApp V dur a x)) \<and>
     (\<forall>d a x e b y. hashApp V d a x = hashApp V e b y \<longrightarrow> d = e)"

lemma careful_participant:
  assumes "signs_carefully V c p dur H" and "channelIdOf V f = Some c"
  obtains i where "i < length (ff_participants f)" and "ff_participants f ! i = p"
  using assms by (auto simp: signs_carefully_def in_set_conv_nth)

lemma careful_support:
  assumes "signs_carefully V c p dur H" and "channelIdOf V f = Some c"
    and "requireStateSupportedBy V t parts k c f sigs who = Some h" and "length sigs = length (ff_participants f)"
  shows "ff_challengeDuration f = dur"
proof -
  from careful_participant [OF assms(1,2)] obtain i where i: "i < length (ff_participants f)" "ff_participants f ! i = p" .
  from supported_nth [OF assms(3,4) i(1)] obtain j where
    "recoverSigner V (chainHash V t parts k c f j) (sigs ! i) = Some p" using i(2) by auto
  with assms(1) have "chainHash V t parts k c f j \<in> H" by (auto simp: signs_carefully_def)
  with assms(1) obtain a x where
    "hashApp V (ff_challengeDuration f) (ff_appDefinition f) (fv_appData (parts ! j)) = hashApp V dur a x"
    by (fastforce simp: signs_carefully_def chainHash_def hashStateOf_def Let_def)
  with assms(1) show ?thesis unfolding signs_carefully_def by blast
qed

lemma careful_conclude:
  assumes "signs_carefully V c p dur H"
  shows "concludeCall V t f h out n who sigs s \<noteq> Some (s', c)"
proof
  assume call: "concludeCall V t f h out n who sigs s = Some (s', c)"
  then have f: "channelIdOf V f = Some c" by (auto dest: conclude_status)
  let ?hashes = "map (concludeHash V t c h out n) [0..<unat n]"
  from call f have v: "validSignatures V t (ff_participants f) ?hashes sigs who = Some True"
    and len: "length sigs = length (ff_participants f)"
    by (auto simp: concludeCall_def requireValidInput_def split: if_splits)
  from careful_participant [OF assms f] obtain i where i: "i < length (ff_participants f)" "ff_participants f ! i = p" .
  from validSignatures_nth [OF v len i(1)] i(2) have "unat (who ! i) < unat n"
    "recoverSigner V (concludeHash V t c h out n (unat (who ! i))) (sigs ! i) = Some p" by auto
  with assms have "concludeHash V t c h out n (unat (who ! i)) \<in> H" by (auto simp: signs_carefully_def)
  with assms show False by (fastforce simp: signs_carefully_def concludeHash_def)
qed

lemma challenge_registers:
  assumes "challengeCall V f t parts k sigs who g s = Some s'" and "channelIdOf V f = Some c"
  shows "\<exists>h out. s' = setStatusWord c (generateStatus V t (ucast (ad_now s) + ff_challengeDuration f) h out) s"
  using assms by (auto simp: challengeCall_def split: if_splits option.splits)

lemma deadline_word:
  assumes "unat now + unat dur < 2 ^ 48"
  shows "unat (ucast (now :: evm_word) + dur :: 48 word) = unat now + unat dur"
proof -
  from assms have "unat (ucast now :: 48 word) = unat now" by (simp add: unsigned_ucast_eq take_bit_nat_eq_self)
  with assms show ?thesis by (subst unat_add_lem [THEN iffD1]) simp_all
qed

lemma open_until_deadline:
  assumes careful: "signs_carefully V c p dur H" and "solModeOf s c = SolOpen"
    and wide: "unat (ad_now s) + 2 * unat dur < 2 ^ 48" and "0 < dur"
    and run: "runs_while V covered (\<lambda>u. unat (ad_now u) < unat (ad_now s) + unat dur) (s, []) (s', calls')"
  shows "ad_now s \<le> ad_now s' \<and>
    (finalizesAtOf s' c = 0 \<or> unat (ad_now s) + unat dur \<le> unat (finalizesAtOf s' c))"
proof (rule status_lasts [OF run, where c = c])
  let ?F = "\<lambda>u. ad_now s \<le> ad_now u \<and> (finalizesAtOf u c = 0 \<or> unat (ad_now s) + unat dur \<le> unat (finalizesAtOf u c))"
  let ?G = "\<lambda>u. unat (ad_now u) < unat (ad_now s) + unat dur"
  show "?G s" using assms(4) by (simp add: word_less_nat_alt)
  show "?F s" using assms(2) by (simp add: solModeOf_iff)
  show "?F u'" if "?F u" "?G u" "untouched c u u'" for u u'
  proof -
    from that(1,2) have "solModeOf u c \<noteq> SolFinalized"
      by (auto simp: solModeOf_iff word_le_nat_alt unat_of_time)
    with that(1,3) show ?thesis by (auto simp: untouched_def dest!: statusOf_cong)
  qed
  show "?F u'" if "?F u" "?G u" "channelIdOf V f = Some c" "challengeCall V f t parts k sigs who g u = Some u'"
    for f t parts k sigs who g u u'
  proof -
    from that(3,4) obtain h o' where "requireStateSupportedBy V t parts k c f sigs who = Some h"
      "length sigs = length (ff_participants f)" and
      u': "u' = setStatusWord c (generateStatus V t (ucast (ad_now u) + ff_challengeDuration f) h o') u"
      by (auto simp: challengeCall_def requireValidInput_def split: if_splits option.splits)
    from careful_support [OF careful that(3) this(1,2)] u' deadline_word [of "ad_now u" dur] that(1,2) wide
    show ?thesis by (simp add: word_le_nat_alt)
  qed
  show "?F u'" if "?F u" "?G u" "channelIdOf V f = Some c" "respondCall V fa fb f a b g u = Some u'" for fa fb f a b g u u'
    using that by (auto simp: respondCall_def clearChallenge_def Let_def split: if_splits prod.splits)
  show "?F u'" if "?F u" "?G u" "channelIdOf V f = Some c" "checkpointCall V f t parts k sigs who u = Some u'"
    for f t parts k sigs who u u'
    using that by (auto simp: checkpointCall_def clearChallenge_def split: if_splits option.splits)
  show "concludeCall V t f h out n who sigs u \<noteq> Some (u', c)" for t f h out n who sigs u u'
    by (rule careful_conclude [OF careful])
  show "?F (u\<lparr>ad_now := n\<rparr>)" if "?F u" "ad_now u \<le> n" for u n
    using that by (auto simp: finalizesAtOf_def)
qed

text \<open>
  C11: a participant has the whole challenge duration to answer. If it has signed no final state, and
  only states of that duration, then a channel that is open is not finalized before the duration is
  over, whatever anybody calls and whatever fixed part he calls it with. The times stay below what 48
  bits hold: the present one and twice the duration.
\<close>

theorem time_to_answer:
  assumes "signs_carefully V c p dur H" and "solModeOf s c = SolOpen"
    and "unat (ad_now s) + 2 * unat dur < 2 ^ 48" and "0 < dur"
    and "runs_while V covered (\<lambda>u. unat (ad_now u) < unat (ad_now s) + unat dur) (s, []) (s', calls')"
    and "unat (ad_now s') < unat (ad_now s) + unat dur"
  shows "solModeOf s' c \<noteq> SolFinalized"
  using open_until_deadline [OF assms(1-5)] assms(6)
  by (auto simp: solModeOf_iff word_le_nat_alt unat_of_time)

text \<open>
  C12: and the answer is always taken. Until then, under the same conditions (the participant has signed no
  final state and only states of that duration, and the times do not overflow), whoever holds
  signatures for a state of a later turn than the one registered can open the channel again at that
  turn.
\<close>

theorem later_state_answers:
  assumes "signs_carefully V c p dur H" and "solModeOf s c = SolOpen"
    and "unat (ad_now s) + 2 * unat dur < 2 ^ 48" and "0 < dur"
    and "runs_while V covered (\<lambda>u. unat (ad_now u) < unat (ad_now s) + unat dur) (s, []) (s', calls')"
    and "unat (ad_now s') < unat (ad_now s) + unat dur"
    and "channelIdOf V f = Some c"
    and "requireValidInput (length (ff_participants f)) (length parts) (length sigs) (length who)"
    and "requireStateSupportedBy V t parts k c f sigs who \<noteq> None" and "turnNumRecordOf s' c < t"
  shows "\<exists>s''. checkpointCall V f t parts k sigs who s' = Some s'' \<and> solModeOf s'' c = SolOpen \<and> turnNumRecordOf s'' c = t"
proof -
  have "solModeOf s' c \<noteq> SolFinalized"
    using open_until_deadline [OF assms(1-5)] assms(6) by (auto simp: solModeOf_iff word_le_nat_alt unat_of_time)
  with assms(7-10) show ?thesis by (auto simp: checkpointCall_def clearChallenge_def solModeOf_iff)
qed

lemma word_le_Suc: "(x :: 48 word) \<noteq> - 1 \<Longrightarrow> x \<le> x + 1"
proof -
  assume "x \<noteq> - 1"
  then have "1 + x \<noteq> 0" by (simp add: add_eq_0_iff)
  from unatSuc [OF this] show ?thesis by (simp add: word_le_nat_alt add.commute)
qed

text \<open>
  C13: the turn number registered for a channel never goes back while the channel is not finalized and no
  final state has been signed, so that no state older than it can be put forward again. The last of
  all turn numbers is excluded: answered with a state after it, the number starts over.
\<close>

theorem turn_number_never_goes_back:
  assumes "signs_carefully V c p dur H"
    and "runs_while V covered (\<lambda>u. solModeOf u c \<noteq> SolFinalized \<and> turnNumRecordOf u c \<noteq> - 1) (s, []) (s', calls')"
    and "solModeOf s c \<noteq> SolFinalized" and "turnNumRecordOf s c \<noteq> - 1"
  shows "turnNumRecordOf s c \<le> turnNumRecordOf s' c"
proof (rule status_lasts [OF assms(2), where c = c])
  let ?F = "\<lambda>u. turnNumRecordOf s c \<le> turnNumRecordOf u c"
  let ?G = "\<lambda>u. solModeOf u c \<noteq> SolFinalized \<and> turnNumRecordOf u c \<noteq> - 1"
  show "?F u'" if "?F u" "?G u" "untouched c u u'" for u u'
    using that by (auto simp: untouched_def dest!: statusOf_cong)
  show "?F u'" if "?F u" "?G u" "challengeCall V f t parts k sigs who g u = Some u'" "channelIdOf V f = Some c"
    for f t parts k sigs who g u u'
    using that by (auto simp: challengeCall_def split: if_splits option.splits sol_mode.splits)
  show "?F u'" if "?F u" "?G u" "channelIdOf V f = Some c" "respondCall V fa fb f a b g u = Some u'" for fa fb f a b g u u'
  proof -
    from that(3,4) have "turnNumRecordOf u' c = turnNumRecordOf u c + 1"
      by (auto simp: respondCall_def clearChallenge_def Let_def split: if_splits prod.splits) (simp add: turnNumRecordOf_def)
    with that(1,2) word_le_Suc [of "turnNumRecordOf u c"] show ?thesis by (auto intro: order_trans)
  qed
  show "?F u'" if "?F u" "?G u" "channelIdOf V f = Some c" "checkpointCall V f t parts k sigs who u = Some u'"
    for f t parts k sigs who u u'
    using that by (auto simp: checkpointCall_def clearChallenge_def split: if_splits option.splits)
  show "concludeCall V t f h out n who sigs u \<noteq> Some (u', c)" for t f h out n who sigs u u'
    by (rule careful_conclude [OF assms(1)])
qed (use assms(3,4) in \<open>auto simp: turnNumRecordOf_def\<close>)

section \<open>A careful participant and a challenge\<close>

text \<open>Two participants; the second has signed one state, for a duration of a minute.\<close>

definition minuteEnv :: fm_env where
  "minuteEnv = \<lparr>keccakBytes = (\<lambda>_. 0), encodeExits = (\<lambda>_. []), encodeBytes = (\<lambda>b. b), decodeExits = (\<lambda>_. None),
     decodeDestinations = (\<lambda>_. None), hashPair = (\<lambda>a _. a), chainID = 1, hashId = (\<lambda>_ ps _. if ps = [10, 20] then 7 else 8),
     hashApp = (\<lambda>d _ _. ucast d), hashSolState = (\<lambda>st. if so_isFinal st then 0 else so_appPartHash st + 1),
     hashForceMove = (\<lambda>h. h), prefixedHash = (\<lambda>h. h),
     ecrecover = (\<lambda>h g. if sg_v g = 1 \<and> h = 61 then 20 else 10), appTransition = (\<lambda>_ _ _ _ _. None)\<rparr>"

definition minuteFixed :: fm_fixed_part where
  "minuteFixed = \<lparr>ff_chainId = 1, ff_participants = [10, 20], ff_channelNonce = 0, ff_appDefinition = 0,
     ff_challengeDuration = 60\<rparr>"

definition minuteSignature :: "8 word \<Rightarrow> sol_signature" where
  "minuteSignature v = \<lparr>sg_v = v, sg_r = 0, sg_s = 0\<rparr>"

definition minuteParts :: "fm_variable_part list" where
  "minuteParts = [\<lparr>fv_outcome = [], fv_appData = []\<rparr>]"

lemma minute_careful: "signs_carefully minuteEnv 7 20 60 {61}"
proof -
  have "(ucast (d :: 48 word) :: evm_word) = ucast e \<Longrightarrow> d = e" for d e by (metis unat_of_time word_unat_eq_iff)
  moreover have "so_appPartHash st = 60" if "so_appPartHash st + 1 = 61" for st using that by (simp add: diff_eq_eq [symmetric])
  ultimately show ?thesis
    by (auto simp: signs_carefully_def minuteEnv_def channelIdOf_def recoverSigner_def Let_def split: if_splits)
qed

definition minuteStart :: adjudicator where
  "minuteStart = newAdjudicator\<lparr>ad_now := 100\<rparr>"

text \<open>Somebody challenges at once, and 59 seconds pass.\<close>

definition minuteRegistered :: adjudicator where
  "minuteRegistered = the (challengeCall minuteEnv minuteFixed 0 minuteParts 0 [minuteSignature 0, minuteSignature 1] [0, 0]
     (minuteSignature 0) minuteStart)"

definition minuteChallenged :: adjudicator where
  "minuteChallenged = minuteRegistered\<lparr>ad_now := 159\<rparr>"

lemma minute_call:
  "challengeCall minuteEnv minuteFixed 0 minuteParts 0 [minuteSignature 0, minuteSignature 1] [0, 0]
     (minuteSignature 0) minuteStart = Some minuteRegistered"
proof -
  have "challengeCall minuteEnv minuteFixed 0 minuteParts 0 [minuteSignature 0, minuteSignature 1] [0, 0]
      (minuteSignature 0) minuteStart \<noteq> None" by code_simp
  then show ?thesis unfolding minuteRegistered_def by fastforce
qed

lemma minute_now: "ad_now minuteStart = 100" "ad_now minuteRegistered = 100" "ad_now minuteChallenged = 159"
proof -
  from challenge_status [OF minute_call] obtain d w where u: "minuteRegistered = setStatusWord d w minuteStart" by blast
  have "ad_now minuteRegistered = ad_now minuteStart" by (subst u) simp
  then show "ad_now minuteStart = 100" "ad_now minuteRegistered = 100" "ad_now minuteChallenged = 159"
    by (simp_all add: minuteStart_def minuteChallenged_def)
qed

lemma minute_run:
  assumes "G minuteRegistered" and "G minuteChallenged"
  shows "runs_while minuteEnv covered G (minuteStart, []) (minuteChallenged, [])"
proof -
  have "contract_step minuteEnv covered (minuteStart, []) (minuteRegistered, [])"
    by (rule contract_step.challenge [OF minute_call])
  moreover have "contract_step minuteEnv covered (minuteRegistered, []) (minuteChallenged, [])"
    unfolding minuteChallenged_def by (rule contract_step.tick) (simp add: minute_now)
  ultimately show ?thesis
    unfolding runs_while_def
    by (intro converse_rtranclp_into_rtranclp [OF _ r_into_rtranclp]) (simp_all add: assms)
qed

lemma minute_start: "solModeOf minuteStart 7 = SolOpen" "unat (ad_now minuteStart) + 2 * unat (60 :: 48 word) < 2 ^ 48"
  "unat (ad_now minuteChallenged) < unat (ad_now minuteStart) + unat (60 :: 48 word)"
  by (simp_all add: minute_now) (simp add: minuteStart_def solModeOf_iff finalizesAtOf_def newAdjudicator_def unpackStatus_def)

lemma minute_challenged: "turnNumRecordOf minuteChallenged 7 = 0" "solModeOf minuteChallenged 7 \<noteq> SolFinalized"
    "turnNumRecordOf minuteRegistered 7 = 0" "solModeOf minuteRegistered 7 \<noteq> SolFinalized"
proof -
  have c: "channelIdOf minuteEnv minuteFixed = Some 7" by code_simp
  from challenge_registers [OF minute_call this] obtain h out where
    u: "minuteRegistered = setStatusWord 7 (generateStatus minuteEnv 0 (ucast (ad_now minuteStart) + ff_challengeDuration minuteFixed) h out) minuteStart"
    by blast
  have "finalizesAtOf minuteRegistered 7 = 160" "turnNumRecordOf minuteRegistered 7 = 0"
    by (subst u, simp add: minute_now minuteFixed_def)+
  moreover have "finalizesAtOf minuteChallenged 7 = finalizesAtOf minuteRegistered 7"
    "turnNumRecordOf minuteChallenged 7 = turnNumRecordOf minuteRegistered 7"
    by (simp_all add: minuteChallenged_def finalizesAtOf_def turnNumRecordOf_def)
  ultimately show "turnNumRecordOf minuteChallenged 7 = 0" "solModeOf minuteChallenged 7 \<noteq> SolFinalized"
    "turnNumRecordOf minuteRegistered 7 = 0" "solModeOf minuteRegistered 7 \<noteq> SolFinalized"
    by (simp_all add: solModeOf_iff minute_now)
qed

lemma minute_before: "runs_while minuteEnv covered (\<lambda>u. unat (ad_now u) < unat (ad_now minuteStart) + unat (60 :: 48 word))
    (minuteStart, []) (minuteChallenged, [])"
  by (rule minute_run) (simp_all add: minute_now)

theorem time_to_answer_witness:
  "ad_now minuteChallenged = 159 \<and> solModeOf minuteChallenged 7 \<noteq> SolFinalized"
  using time_to_answer [OF minute_careful minute_start(1,2) _ minute_before minute_start(3)] by (simp add: minute_now)

theorem later_state_answers_witness:
  "\<exists>s. checkpointCall minuteEnv minuteFixed 1 minuteParts 0 [minuteSignature 0, minuteSignature 1] [0, 0] minuteChallenged = Some s \<and>
     solModeOf s 7 = SolOpen \<and> turnNumRecordOf s 7 = 1"
proof (rule later_state_answers [OF minute_careful minute_start(1,2) _ minute_before minute_start(3)])
  show "channelIdOf minuteEnv minuteFixed = Some 7" by code_simp
  show "requireStateSupportedBy minuteEnv 1 minuteParts 0 7 minuteFixed [minuteSignature 0, minuteSignature 1] [0, 0] \<noteq> None"
    by code_simp
qed (simp_all add: minute_challenged minuteFixed_def minuteParts_def requireValidInput_def)

theorem challenged_state_was_signed_witness:
  "\<exists>j. j < length minuteParts \<and> recoverSigner minuteEnv
     (hashStateOf minuteEnv (0 - of_nat (length minuteParts - Suc j))
        (impliedFinal 0 0 (0 - of_nat (length minuteParts - Suc j))) 7 minuteFixed
        (fv_appData (minuteParts ! j)) (keccakBytes minuteEnv (fv_outcome (minuteParts ! j)))) (minuteSignature 1) = Some 20"
proof -
  have "channelIdOf minuteEnv minuteFixed = Some 7" by code_simp
  with challenged_state_was_signed [OF minute_call, of 1] show ?thesis by (auto simp: minuteFixed_def minuteParts_def)
qed

theorem turn_number_never_goes_back_witness:
  "turnNumRecordOf minuteStart 7 \<le> turnNumRecordOf minuteChallenged 7"
proof (rule turn_number_never_goes_back [OF minute_careful minute_run [where covered = "\<lambda>_. True"]])
  show "solModeOf minuteStart 7 \<noteq> SolFinalized" "turnNumRecordOf minuteStart 7 \<noteq> - 1" by code_simp+
qed (simp_all add: minute_challenged)

end
