(* ===== verification/ContractCalls.thy ===== *)
theory ContractCalls
  imports NitroFacts ForceMoveFacts
begin

text \<open>
  The challenges of the wallet as the contract takes them: the call \<open>createChallengeTransaction\<close> makes,
  encoded by ethers, run by the model of \<open>contracts/ForceMove.sol\<close>. The server wallet passes the
  support it has stored for the channel (\<open>protocols/challenge-submitter.ts\<close>, \<open>chain-service.ts\<close>). One state is
  taken, more than one are refused.
\<close>

section \<open>Encoding\<close>

record encoder =
  encAddress :: "address \<Rightarrow> evm_address"
  encWord :: "string \<Rightarrow> evm_word"
  encSignature :: "string \<Rightarrow> sol_signature"

definition encodeFixedPart :: "encoder \<Rightarrow> fixed_part \<Rightarrow> fm_fixed_part" where
  "encodeFixedPart E f =
     \<lparr>ff_chainId = encWord E (fp_chainId f), ff_participants = map (encAddress E) (fp_participants f),
      ff_channelNonce = word_of_int (fp_channelNonce f), ff_appDefinition = encAddress E (fp_appDefinition f),
      ff_challengeDuration = word_of_int (fp_challengeDuration f)\<rparr>"

definition encodeVariablePart :: "variable_part \<Rightarrow> fm_variable_part" where
  "encodeVariablePart v = \<lparr>fv_outcome = vp_outcome v, fv_appData = vp_appData v\<rparr>"

text \<open>What \<open>hashState\<close> encodes and hashes.\<close>

definition solStateOf :: "fm_env \<Rightarrow> abi \<Rightarrow> encoder \<Rightarrow> nitro_state \<Rightarrow> sol_state" where
  "solStateOf V A E n =
     \<lparr>so_turnNum = word_of_int (ns_turnNum n), so_isFinal = ns_isFinal n,
      so_channelId = hashId V (encWord E (nc_chainId (ns_channel n))) (map (encAddress E) (nc_participants (ns_channel n)))
        (word_of_int (nc_channelNonce (ns_channel n))),
      so_appPartHash = hashApp V (word_of_int (ns_challengeDuration n)) (encAddress E (ns_appDefinition n)) (ns_appData n),
      so_outcomeHash = keccakBytes V (encodeOutcome A (ns_outcome n))\<rparr>"

text \<open>Ethers throws when a signature or an index is missing; the contract then sees nothing.\<close>

fun submitChallenge :: "fm_env \<Rightarrow> encoder \<Rightarrow> adjudicator_call \<Rightarrow> adjudicator \<Rightarrow> adjudicator option" where
  "submitChallenge V E (ChallengeCall f t parts k sigs who g) s =
     (if None \<in> set sigs \<or> None \<in> set who then None
      else challengeCall V (encodeFixedPart E f) (word_of_int t) (map encodeVariablePart parts) (of_nat k)
             (map (encSignature E \<circ> the) sigs) (map (of_nat \<circ> the) who) (encSignature E g) s)"
| "submitChallenge V E _ s = None"

text \<open>
  What the wallet relies on: the contract recovers from a signature the participant ethers recovers from
  it, and from the signature of a challenge the owner of the key. For the refusal, that a signature
  recovers to an address for one digest only, and that hashes tell turn numbers apart.
\<close>

definition nativeSignatures :: "platform \<Rightarrow> abi \<Rightarrow> encoder \<Rightarrow> fm_env \<Rightarrow> bool" where
  "nativeSignatures P A E V \<longleftrightarrow>
     (\<forall>n g a. recoverNitro P n g = Some a \<longrightarrow>
        recoverSigner V (hashSolState V (solStateOf V A E n)) (encSignature E g) = Some (encAddress E a))"

definition nativeChallenges :: "platform \<Rightarrow> abi \<Rightarrow> encoder \<Rightarrow> fm_env \<Rightarrow> bool" where
  "nativeChallenges P A E V \<longleftrightarrow>
     (\<forall>n key. recoverSigner V (hashForceMove V (hashSolState V (solStateOf V A E n)))
        (encSignature E (signDigestOfChallenge A n key)) = Some (encAddress E (walletAddress P key)))"

definition tellsApart :: "fm_env \<Rightarrow> bool" where
  "tellsApart V \<longleftrightarrow>
     (\<forall>h k g a. recoverSigner V h g = Some a \<longrightarrow> recoverSigner V k g = Some a \<longrightarrow> h = k) \<and>
     (\<forall>x y. hashSolState V x = hashSolState V y \<longrightarrow> so_turnNum x = so_turnNum y)"

section \<open>The arguments of a challenge\<close>

lemma challenge_states:
  assumes "flatMapNitro P (support P c) = Inr sns" and "createSignatureArguments P sns = Inr a"
  shows "sa_states a = map (nitroOf P) (support P c)"
proof -
  have sns: "sns = concat (map (objectsOf P) (enumerate 0 (support P c)))"
    using flatMapNitro_eq [OF assms(1)] by blast
  from assms(2) have "sa_states a = map sn_state (uniqBy sn_stateObject (uniqBy sn_object sns))"
    by (auto simp: createSignatureArguments_def Let_def bindE_eq_Inr split: list.splits prod.splits)
  then have "sa_states a = map sn_state (uniqBy sn_stateObject sns)"
    by (simp only: flatMapNitro_states(1) [OF assms(1)])
  moreover have "\<forall>s \<in> set (support P c). signatures s \<noteq> []" using support_signatures by blast
  ultimately show ?thesis using states_in_order [of "support P c" P 0] by (simp only: sns)
qed

lemma nitro_fields:
  assumes "flatMapNitro P ss = Inr sns" and "s \<in> set ss"
  shows "ns_turnNum (nitroOf P s) = turnNum s" and "ns_isFinal (nitroOf P s) = isFinal s"
    and "nc_participants (ns_channel (nitroOf P s)) = map signingAddress (participants s)"
  using flatMapNitro_eq [OF assms(1)] assms(2) by (auto dest: toNitroState_fields)

lemma challenge_call:
  assumes "flatMapNitro P (support P c) = Inr sns" and "support P c \<noteq> []"
    and "createChallengeTransaction P A sns key = Inr call"
  obtains a where "createSignatureArguments P sns = Inr a"
    and "call = ChallengeCall (getFixedPart (nitroOf P (hd (support P c)))) (turnNum (hd (support P c)))
      (map (getVariablePart A \<circ> nitroOf P) (support P c)) (length (filter isFinal (support P c))) (sa_signatures a)
      (sa_whoSignedWhat a) (signDigestOfChallenge A (nitroOf P (last (support P c))) key)"
    and "walletAddress P key \<in> signingAddress ` set (participants (hd (support P c)))"
proof -
  let ?ss = "support P c"
  from assms(3) obtain a where a: "createSignatureArguments P sns = Inr a" "challengeArgs P A a key = Inr call"
    by (auto simp: createChallengeTransaction_def bindE_eq_Inr)
  note states = challenge_states [OF assms(1) a(1)]
  note field = nitro_fields [OF assms(1)]
  from support_descending [OF assms(2)] assms(2) obtain s ss where
    ss: "?ss = s # ss" "\<forall>t \<in> set ss. turnNum t < turnNum s" by (cases ?ss) auto
  have "maxTurnNum (sa_states a) = turnNum s"
    using ss(2) field(1) unfolding maxTurnNum_def states ss(1)
    by (subst foldl_max_first) (auto simp: ss(1))
  moreover have "length (filter ns_isFinal (sa_states a)) = length (filter isFinal ?ss)"
    using field(2) by (simp add: states filter_map comp_def cong: filter_cong)
  ultimately show ?thesis
    using that [OF a(1)] a(2) states assms(2) field(3) [of s] ss(1)
    by (auto simp: challengeArgs_def signChallengeMessage_def Let_def bindE_eq_Inr last_map hd_map
        split: list.splits if_splits)
qed

text \<open>The arguments, participant by participant.\<close>

lemma challenge_arguments:
  assumes "flatMapNitro P (support P c) = Inr sns" and "genuineSignatures P (participants c) (support P c)"
    and "support P c \<noteq> []" and "length (support P c) \<le> length (participants c)"
    and "distinct (map signingAddress (participants c))" and "nativeSignatures P A E V"
    and "createSignatureArguments P sns = Inr a"
  shows "length (sa_signatures a) = length (participants c)" and "length (sa_whoSignedWhat a) = length (participants c)"
    and "None \<notin> set (sa_signatures a)" and "None \<notin> set (sa_whoSignedWhat a)"
    and "k < length (participants c) \<Longrightarrow> the (sa_whoSignedWhat a ! k) < length (support P c) \<and>
      recoverSigner V (hashSolState V (solStateOf V A E (nitroOf P (support P c ! the (sa_whoSignedWhat a ! k)))))
        (encSignature E (the (sa_signatures a ! k))) = Some (encAddress E (signingAddress (participants c ! k)))"
proof -
  from support_gives_signature_arguments [OF assms(1-5)] assms(7)
  have len: "length (sa_signatures a) = length (participants c)" and each: "\<forall>k < length (participants c). \<exists>i g.
      sa_whoSignedWhat a ! k = Some i \<and> i < length (sa_states a) \<and> sa_signatures a ! k = Some g \<and>
      recoverNitro P (sa_states a ! i) g = Some (signingAddress (participants c ! k))" by auto
  have ne: "sns \<noteq> []" using assms(7) by (cases sns) (simp_all add: createSignatureArguments_def)
  from createSignatureArguments_ok [OF assms(1,2) ne assms(5)] assms(7)
  have who: "length (sa_whoSignedWhat a) = length (participants c)" by (auto simp: argumentsOk_def)
  show "length (sa_signatures a) = length (participants c)" "length (sa_whoSignedWhat a) = length (participants c)"
    by (fact len, fact who)
  show "None \<notin> set (sa_signatures a)" "None \<notin> set (sa_whoSignedWhat a)"
    using each len who by (fastforce simp: in_set_conv_nth)+
  assume "k < length (participants c)"
  with each obtain i g where ig: "sa_whoSignedWhat a ! k = Some i" "i < length (sa_states a)" "sa_signatures a ! k = Some g"
    "recoverNitro P (sa_states a ! i) g = Some (signingAddress (participants c ! k))" by blast
  with assms(6) challenge_states [OF assms(1,7)] show "the (sa_whoSignedWhat a ! k) < length (support P c) \<and>
      recoverSigner V (hashSolState V (solStateOf V A E (nitroOf P (support P c ! the (sa_whoSignedWhat a ! k)))))
        (encSignature E (the (sa_signatures a ! k))) = Some (encAddress E (signingAddress (participants c ! k)))"
    by (auto simp: nativeSignatures_def)
qed

lemma mover_offset_zero: "0 < n \<Longrightarrow> moverOffset t n (unat t mod n) = 0"
proof -
  have "n + unat t - unat t mod n = n * Suc (unat t div n)"
    using mult_div_mod_eq [of n "unat t"] by (simp add: minus_mod_eq_mult_div [symmetric])
  then show ?thesis by (simp only: moverOffset_def mod_mult_self1_is_0)
qed

lemma turnNum_word_inj:
  assumes "word_of_int x = (word_of_int y :: 48 word)" and "0 \<le> x" "x < 2 ^ 48" "0 \<le> y" "y < 2 ^ 48"
  shows "x = y"
proof -
  from assms(1) have "take_bit 48 x = take_bit 48 y" by (simp add: word_of_int_eq_iff)
  with assms(2-) show ?thesis by (simp add: take_bit_int_eq_self)
qed

section \<open>Refused\<close>

text \<open>
  C15: a challenge with a support of more than one state is always refused by the contract, in whatever
  state it is. The states arrive latest first, so the contract expects of the last of them, the oldest,
  the largest turn number, and the participant whose turn that is has not signed this.
\<close>

theorem contract_refuses_longer_support:
  assumes "flatMapNitro P (support P c) = Inr sns" and "genuineSignatures P (participants c) (support P c)"
    and "2 \<le> length (support P c)" and "length (support P c) \<le> length (participants c)"
    and "distinct (map signingAddress (participants c))" and "nativeSignatures P A E V" and "tellsApart V"
    and "\<forall>s \<in> set (support P c). 0 \<le> turnNum s \<and> turnNum s < 2 ^ 48"
    and "createChallengeTransaction P A sns key = Inr call"
  shows "submitChallenge V E call s = None"
proof (rule ccontr)
  let ?ss = "support P c" and ?n = "length (participants c)"
  have ne: "?ss \<noteq> []" using assms(3) by auto
  from challenge_call [OF assms(1) ne assms(9)] obtain a where a: "createSignatureArguments P sns = Inr a" and
    call: "call = ChallengeCall (getFixedPart (nitroOf P (hd ?ss))) (turnNum (hd ?ss))
      (map (getVariablePart A \<circ> nitroOf P) ?ss) (length (filter isFinal ?ss)) (sa_signatures a)
      (sa_whoSignedWhat a) (signDigestOfChallenge A (nitroOf P (last ?ss)) key)" .
  note args = challenge_arguments [OF assms(1,2) ne assms(4,5,6) a]
  let ?f = "encodeFixedPart E (getFixedPart (nitroOf P (hd ?ss)))" and ?t = "word_of_int (turnNum (hd ?ss)) :: 48 word"
    and ?parts = "map encodeVariablePart (map (getVariablePart A \<circ> nitroOf P) ?ss)"
    and ?sigs = "map (encSignature E \<circ> the) (sa_signatures a)" and ?who = "map (of_nat \<circ> the) (sa_whoSignedWhat a) :: 8 word list"
  assume "submitChallenge V E call s \<noteq> None"
  with args(3,4) obtain s' where ok: "challengeCall V ?f ?t ?parts (of_nat (length (filter isFinal ?ss))) ?sigs ?who
      (encSignature E (signDigestOfChallenge A (nitroOf P (last ?ss)) key)) s = Some s'"
    by (auto simp: call)
  have ps: "ff_participants ?f = map (encAddress E) (map signingAddress (participants c))"
    using nitro_fields(3) [OF assms(1), of "hd ?ss"] ne assms(2)
    by (simp add: encodeFixedPart_def getFixedPart_def genuineSignatures_def)
  from ok have small: "?n \<le> 255" by (auto simp: challengeCall_def requireValidInput_def ps split: if_splits)
  from ok obtain d h where "requireStateSupportedBy V ?t ?parts (of_nat (length (filter isFinal ?ss))) d ?f ?sigs ?who = Some h"
    by (auto simp: challengeCall_def split: if_splits option.splits)
  then obtain hashes where hs: "requireValidTransitionChain V ?t ?parts (of_nat (length (filter isFinal ?ss))) d ?f = Some hashes"
    and v: "validSignatures V ?t (ff_participants ?f) hashes ?sigs ?who = Some True"
    by (auto simp: requireStateSupportedBy_def split: option.splits if_splits)
  have len: "length hashes = length ?ss" using chain_hashes [OF hs] by auto
  let ?k = "unat ?t mod ?n"
  have k: "?k < ?n" using assms(3,4) by (intro mod_less_divisor) linarith
  have zero: "moverOffset ?t ?n ?k = 0" using k by (intro mover_offset_zero) linarith
  define i where "i = the (sa_whoSignedWhat a ! ?k)"
  from args(5) [OF k] have i: "i < length ?ss" and sig: "recoverSigner V (hashSolState V (solStateOf V A E (nitroOf P (?ss ! i))))
      (?sigs ! ?k) = Some (ff_participants ?f ! ?k)"
    using k args(1) by (simp_all add: i_def ps)
  have "unat (?who ! ?k) = i" using i k args(2) assms(4) small by (simp add: i_def [symmetric] unat_of_nat)
  with validSignatures_nth [OF v, of ?k] zero k len args(1) have last: "length ?ss \<le> Suc i"
    and rec: "recoverSigner V (hashes ! i) (?sigs ! ?k) = Some (ff_participants ?f ! ?k)" by (simp_all add: ps)
  from last i have i_last: "i = length ?ss - 1" by simp
  have "hashes ! i = chainHash V ?t ?parts (of_nat (length (filter isFinal ?ss))) d ?f i"
    using chain_hashes [OF hs] i by simp
  also have "turnNumAt ?t (length ?ss) i = ?t" proof -
    have "Suc i = length ?ss" using last i by simp
    then have "of_nat (length ?ss) = (1 + of_nat i :: 48 word)" by (metis of_nat_Suc)
    then show ?thesis by (simp add: turnNumAt_def)
  qed
  ultimately have "\<exists>y. hashes ! i = hashSolState V y \<and> so_turnNum y = ?t"
    by (auto simp: chainHash_def hashStateOf_def Let_def)
  moreover from rec sig assms(7) have "hashes ! i = hashSolState V (solStateOf V A E (nitroOf P (?ss ! i)))"
    unfolding tellsApart_def by blast
  ultimately have "?t = so_turnNum (solStateOf V A E (nitroOf P (?ss ! i)))" using assms(7) unfolding tellsApart_def by metis
  then have "?t = word_of_int (turnNum (last ?ss))"
    using nitro_fields(1) [OF assms(1), of "?ss ! i"] i ne by (simp add: solStateOf_def i_last last_conv_nth)
  with assms(8) ne have "turnNum (hd ?ss) = turnNum (last ?ss)"
    by (intro turnNum_word_inj) simp_all
  moreover have "turnNum (last ?ss) < turnNum (hd ?ss)"
    using support_descending [OF ne] assms(3) by (cases ?ss) (auto simp: last_conv_nth)
  ultimately show False by simp
qed

section \<open>Taken\<close>

lemma not_after_itself: "(t :: 48 word) \<noteq> - 1 \<Longrightarrow> \<not> t + 1 \<le> t"
  using word_le_Suc [of t] by (metis add_cancel_right_right antisym zero_neq_one)

lemma impliedFinal_single:
  assumes "t \<noteq> - 1"
  shows "impliedFinal t (of_nat (length (filter p [x]))) t \<longleftrightarrow> p x"
  using not_after_itself [OF assms] by (auto simp: impliedFinal_def)

lemma single_state_supported:
  assumes "requireValidInput (length (ff_participants f)) 1 (length sigs) (length who)" and "t \<noteq> - 1"
    and "\<And>i. i < length (ff_participants f) \<Longrightarrow> who ! i = 0 \<and>
      recoverSigner V (chainHash V t [part] k c f 0) (sigs ! i) = Some (ff_participants f ! i)"
  shows "requireStateSupportedBy V t [part] k c f sigs who = Some (chainHash V t [part] k c f 0)"
proof -
  have "requireValidTransitionChain V t [part] k c f = Some [chainHash V t [part] k c f 0]"
    by (simp add: requireValidTransitionChain_def chainLink_def turnNumAt_def)
  moreover have "validSignatures V t (ff_participants f) [chainHash V t [part] k c f 0] sigs who = Some True"
  proof -
    have "acceptableWhoSignedWhat who t (length (ff_participants f)) 1 = Some True"
      using assms(1) by (auto simp: acceptableWhoSignedWhat_def requireValidInput_def list_all_iff)
    moreover have "signersMatch V [chainHash V t [part] k c f 0] (zip (ff_participants f) (zip sigs who)) = Some True"
      using assms(3) by (intro signersMatch_all) (auto simp: set_zip)
    ultimately show ?thesis by (simp add: validSignatures_def)
  qed
  ultimately show ?thesis by (simp add: requireStateSupportedBy_def)
qed

text \<open>
  C16: and with a support of one state it is taken: its turn number is registered, and the time to
  answer begins. The channel has at most 255 participants with different addresses and the chain id
  of the contract, the turn number is below the last one of 48 bits, the signatures are genuine and
  the contract recovers their signers. An open channel has at most the same turn number registered,
  a challenged one a smaller one; a finalized channel takes no challenge.
\<close>

theorem contract_takes_single_state:
  assumes "flatMapNitro P (support P c) = Inr sns" and "genuineSignatures P (participants c) (support P c)"
    and "support P c = [st]" and "participants c \<noteq> []" and "length (participants c) \<le> 255"
    and "distinct (map signingAddress (participants c))" and "nativeSignatures P A E V" and "nativeChallenges P A E V"
    and "0 \<le> turnNum st" and "turnNum st < 2 ^ 48 - 1"
    and "createChallengeTransaction P A sns key = Inr call"
    and "encWord E (nc_chainId (ns_channel (nitroOf P st))) = chainID V"
    and "d = so_channelId (solStateOf V A E (nitroOf P st))"
    and "case solModeOf s d of SolOpen \<Rightarrow> turnNumRecordOf s d \<le> word_of_int (turnNum st)
      | SolChallenge \<Rightarrow> turnNumRecordOf s d < word_of_int (turnNum st) | SolFinalized \<Rightarrow> False"
  shows "\<exists>s'. submitChallenge V E call s = Some s' \<and> turnNumRecordOf s' d = word_of_int (turnNum st) \<and>
    finalizesAtOf s' d = ucast (ad_now s) + word_of_int (ns_challengeDuration (nitroOf P st))"
proof -
  let ?n = "length (participants c)" and ?m = "nitroOf P st" and ?t = "word_of_int (turnNum st) :: 48 word"
  have ne: "support P c \<noteq> []" and one: "length (support P c) \<le> ?n" using assms(3,4) by (auto simp: Suc_leI)
  from challenge_call [OF assms(1) ne assms(11)] obtain a where a: "createSignatureArguments P sns = Inr a" and
    call: "call = ChallengeCall (getFixedPart ?m) (turnNum st) [getVariablePart A ?m] (length (filter isFinal [st]))
      (sa_signatures a) (sa_whoSignedWhat a) (signDigestOfChallenge A ?m key)"
    and key: "walletAddress P key \<in> signingAddress ` set (participants st)" by (auto simp: assms(3))
  note args = challenge_arguments [OF assms(1,2) ne one assms(6,7) a]
  let ?f = "encodeFixedPart E (getFixedPart ?m)" and ?part = "encodeVariablePart (getVariablePart A ?m)"
    and ?k = "of_nat (length (filter isFinal [st])) :: 8 word"
    and ?sigs = "map (encSignature E \<circ> the) (sa_signatures a)" and ?who = "map (of_nat \<circ> the) (sa_whoSignedWhat a) :: 8 word list"
    and ?g = "encSignature E (signDigestOfChallenge A ?m key)"
  have st: "participants st = participants c" using assms(2,3) by (simp add: genuineSignatures_def)
  have fields: "ns_turnNum ?m = turnNum st" "ns_isFinal ?m = isFinal st"
    "nc_participants (ns_channel ?m) = map signingAddress (participants c)"
    using nitro_fields [OF assms(1), of st] assms(3) st by simp_all
  have ps: "ff_participants ?f = map (encAddress E) (map signingAddress (participants c))"
    by (simp add: encodeFixedPart_def getFixedPart_def fields)
  have id: "channelIdOf V ?f = Some d"
    using assms(12,13) by (simp add: channelIdOf_def encodeFixedPart_def getFixedPart_def solStateOf_def fields)
  have t: "?t \<noteq> - 1"
  proof
    assume "?t = - 1"
    then have "?t = word_of_int (2 ^ 48 - 1)" by simp
    from turnNum_word_inj [OF this] assms(9,10) show False by simp
  qed
  have input: "requireValidInput (length (ff_participants ?f)) 1 (length ?sigs) (length ?who)"
    using args(1,2) assms(4,5) by (cases "participants c") (simp_all add: requireValidInput_def ps)
  have hash: "chainHash V ?t [?part] ?k d ?f 0 = hashSolState V (solStateOf V A E ?m)"
  proof -
    have "impliedFinal ?t ?k ?t \<longleftrightarrow> isFinal st" by (rule impliedFinal_single [OF t])
    then show ?thesis
      by (simp add: chainHash_def hashStateOf_def turnNumAt_def solStateOf_def fields Let_def encodeVariablePart_def
          getVariablePart_def encodeFixedPart_def getFixedPart_def assms(13) del: filter.simps)
  qed
  have "requireStateSupportedBy V ?t [?part] ?k d ?f ?sigs ?who = Some (chainHash V ?t [?part] ?k d ?f 0)"
  proof (rule single_state_supported [OF input t])
    fix i assume "i < length (ff_participants ?f)"
    then have i: "i < ?n" by (simp add: ps)
    with args(5) [OF i] args(1,2) show "?who ! i = 0 \<and>
        recoverSigner V (chainHash V ?t [?part] ?k d ?f 0) (?sigs ! i) = Some (ff_participants ?f ! i)"
      unfolding hash by (auto simp: assms(3) ps)
  qed
  moreover have "challengerIsParticipant V (chainHash V ?t [?part] ?k d ?f 0) (ff_participants ?f) ?g"
    using assms(8) key unfolding hash
    by (auto simp: challengerIsParticipant_def nativeChallenges_def ps st)
  ultimately have "challengeCall V ?f ?t [?part] ?k ?sigs ?who ?g s =
      Some (setStatusWord d (generateStatus V ?t (ucast (ad_now s) + ff_challengeDuration ?f)
        (chainHash V ?t [?part] ?k d ?f 0) (keccakBytes V (fv_outcome ?part))) s)"
    using input id assms(14) by (cases "solModeOf s d") (simp_all add: challengeCall_def)
  with args(3,4) show ?thesis
    by (simp add: call del: filter.simps) (simp add: encodeFixedPart_def getFixedPart_def)
qed

section \<open>Concrete challenges\<close>

definition contractEnv :: "(evm_word \<Rightarrow> sol_signature \<Rightarrow> evm_address) \<Rightarrow> fm_env" where
  "contractEnv recover = \<lparr>keccakBytes = (\<lambda>_. 0), encodeExits = (\<lambda>_. []), encodeBytes = (\<lambda>b. b), decodeExits = (\<lambda>_. None),
     decodeDestinations = (\<lambda>_. None), hashPair = (\<lambda>a _. a), chainID = 1, hashId = (\<lambda>_ _ _. 7), hashApp = (\<lambda>_ _ _. 0),
     hashSolState = (\<lambda>st. ucast (so_turnNum st)), hashForceMove = (\<lambda>h. h), prefixedHash = (\<lambda>h. h),
     ecrecover = recover, appTransition = (\<lambda>_ _ _ _ _. None)\<rparr>"

definition sampleEncoder :: encoder where
  "sampleEncoder = \<lparr>encAddress = (\<lambda>a. if a = ''0xA'' then 10 else 11), encWord = (\<lambda>_. 1),
     encSignature = (\<lambda>g. if drop 3 g = ''0xA'' then \<lparr>sg_v = 0, sg_r = 10, sg_s = 0\<rparr> else \<lparr>sg_v = 0, sg_r = 11, sg_s = 1\<rparr>)\<rparr>"

text \<open>A state both have signed.\<close>

theorem contract_takes_single_state_witness:
  "\<exists>sns call s. flatMapNitro samplePlatform (support samplePlatform (sampleChannel [sampleVars 1 [''0xA'', ''0xB'']])) = Inr sns \<and>
     createChallengeTransaction samplePlatform (sampleAbi\<lparr>signDigestOfChallenge := \<lambda>n k. ''sig'' @ k\<rparr>) sns ''0xA'' = Inr call \<and>
     submitChallenge (contractEnv (\<lambda>_ g. ucast (sg_r g))) sampleEncoder call newAdjudicator = Some s \<and> turnNumRecordOf s 7 = 1"
proof -
  let ?c = "sampleChannel [sampleVars 1 [''0xA'', ''0xB'']]" and ?A = "sampleAbi\<lparr>signDigestOfChallenge := \<lambda>n k. ''sig'' @ k\<rparr>"
    and ?V = "contractEnv (\<lambda>_ g. ucast (sg_r g))"
  let ?m = "flatMapNitro samplePlatform (support samplePlatform ?c)"
  have s: "support samplePlatform ?c = [sampleHashed 1 [''0xA'', ''0xB'']]" by code_simp
  have "\<not> isl (bindE ?m (\<lambda>sns. createChallengeTransaction samplePlatform ?A sns ''0xA''))" by code_simp
  then obtain sns call where ok: "?m = Inr sns" "createChallengeTransaction samplePlatform ?A sns ''0xA'' = Inr call"
    by (cases ?m; cases "bindE ?m (\<lambda>sns. createChallengeTransaction samplePlatform ?A sns ''0xA'')") auto
  have g: "genuineSignatures samplePlatform (participants ?c) (support samplePlatform ?c)"
    unfolding s by (auto simp: genuineSignatures_def sampleHashed_def sampleVars_def sampleChannel_def
      sampleParticipants_def spreadVars_def channelConstants_def channel_constants.truncate_def samplePlatform_def)
  have p: "participants ?c = sampleParticipants" by (simp add: sampleChannel_def)
  have n: "nativeSignatures samplePlatform ?A sampleEncoder ?V" "nativeChallenges samplePlatform ?A sampleEncoder ?V"
    by (simp_all add: nativeSignatures_def nativeChallenges_def recoverSigner_def contractEnv_def sampleEncoder_def samplePlatform_def)
  have t: "turnNum (sampleHashed 1 [''0xA'', ''0xB'']) = 1" by code_simp
  have fresh: "solModeOf newAdjudicator 7 = SolOpen" "turnNumRecordOf newAdjudicator 7 = 0"
    by (simp_all add: newAdjudicator_def solModeOf_iff finalizesAtOf_def turnNumRecordOf_def unpackStatus_def)
  have "\<exists>s'. submitChallenge ?V sampleEncoder call newAdjudicator = Some s' \<and> turnNumRecordOf s' 7 = word_of_int 1 \<and>
      finalizesAtOf s' 7 = ucast (ad_now newAdjudicator) +
        word_of_int (ns_challengeDuration (nitroOf samplePlatform (sampleHashed 1 [''0xA'', ''0xB''])))"
    by (rule contract_takes_single_state [OF ok(1) g s _ _ _ n _ _ ok(2), unfolded t])
      (simp_all add: p sampleParticipants_def sampleEncoder_def contractEnv_def solStateOf_def fresh)
  with ok show ?thesis by auto
qed

text \<open>Two states, one signed by each.\<close>

definition turnPlatform :: platform where
  "turnPlatform = samplePlatform\<lparr>recoverNitro := \<lambda>n g.
     if g = ''sig0xA'' \<and> ns_turnNum n = 0 then Some ''0xA'' else if g = ''sig0xB'' \<and> ns_turnNum n = 1 then Some ''0xB'' else None\<rparr>"

theorem contract_refuses_longer_support_witness:
  "\<exists>sns call. flatMapNitro turnPlatform (support turnPlatform (sampleChannel [sampleVars 1 [''0xB''], sampleVars 0 [''0xA'']])) = Inr sns \<and>
     createChallengeTransaction turnPlatform sampleAbi sns ''0xA'' = Inr call \<and>
     submitChallenge (contractEnv (\<lambda>h g. if h = sg_s g then ucast (sg_r g) else 0)) sampleEncoder call newAdjudicator = None"
proof -
  let ?c = "sampleChannel [sampleVars 1 [''0xB''], sampleVars 0 [''0xA'']]"
    and ?V = "contractEnv (\<lambda>h g. if h = sg_s g then ucast (sg_r g) else 0)"
  let ?m = "flatMapNitro turnPlatform (support turnPlatform ?c)"
  have s: "support turnPlatform ?c = [sampleHashed 1 [''0xB''], sampleHashed 0 [''0xA'']]" by code_simp
  have "\<not> isl (bindE ?m (\<lambda>sns. createChallengeTransaction turnPlatform sampleAbi sns ''0xA''))" by code_simp
  then obtain sns call where ok: "?m = Inr sns" "createChallengeTransaction turnPlatform sampleAbi sns ''0xA'' = Inr call"
    by (cases ?m; cases "bindE ?m (\<lambda>sns. createChallengeTransaction turnPlatform sampleAbi sns ''0xA'')") auto
  have g: "genuineSignatures turnPlatform (participants ?c) (support turnPlatform ?c)"
    unfolding s by (auto simp: genuineSignatures_def sampleHashed_def sampleVars_def sampleChannel_def
      sampleParticipants_def spreadVars_def channelConstants_def channel_constants.truncate_def turnPlatform_def
      dest!: toNitroState_fields)
  have n: "nativeSignatures turnPlatform sampleAbi sampleEncoder ?V"
    by (auto simp: nativeSignatures_def recoverSigner_def contractEnv_def sampleEncoder_def turnPlatform_def solStateOf_def
        split: if_splits)
  have "(ucast (d :: 48 word) :: evm_word) = ucast e \<Longrightarrow> d = e" for d e by (metis unat_of_time word_unat_eq_iff)
  then have apart: "tellsApart ?V"
    by (auto simp: tellsApart_def recoverSigner_def contractEnv_def Let_def split: if_splits)
  have "\<forall>x \<in> set (support turnPlatform ?c). 0 \<le> turnNum x \<and> turnNum x < 2 ^ 48"
    unfolding s by (simp add: sampleHashed_def sampleVars_def spreadVars_def)
  from contract_refuses_longer_support [OF ok(1) g _ _ _ n apart this ok(2)] s ok show ?thesis
    by (auto simp: sampleChannel_def sampleParticipants_def)
qed

end
