(* ===== verification/Spec2Isabelle.thy ===== *)
theory Spec2Isabelle
  imports AssetHolder LedgerSafety ChannelStates DirectFunderFacts EngineSafety StoreSafety ResponseFacts
    WalletSafety BrowserWalletFacts BrowserFundingFacts BrowserFlowsFacts
    BrowserClosingWitnesses BrowserHubFacts WorkersFacts MessageService ContractCalls
begin

text \<open>
  A model of the statechannels monorepo, its wallets and its contracts, with the properties that make it
  correct and the places where it is not. All paths are under \<open>src/packages/\<close>.

  \<^bold>\<open>The program.\<close> A state channel is a sequence of states that participants sign and exchange instead of
  putting transactions on a chain; the chain holds the deposits and enforces the latest state that is
  supported by signatures. \<open>wallet-core\<close> has the data model, outcomes, messages and the direct funding
  machine; \<open>nitro-protocol\<close> the contracts, the transition rules and what is sent to and reported by the contracts;
  \<open>server-wallet\<close> an engine over a database, whose objectives (opening, closing, defunding, challenging)
  are cranked whenever a message or a chain event comes in, with a ledger protocol that funds channels
  from another channel, and a wallet around the engine that talks to application, peers and chain;
  \<open>browser-wallet\<close> a wallet of workflows (state machines of the library xstate) over an in-memory store.

  \<^bold>\<open>Conventions.\<close> A function of the code is a definition with its name. A thrown error is \<open>Inl\<close> of a value
  that names the error, a result is \<open>Inr\<close> (\<open>Prelude\<close>). Numbers of any size are \<open>int\<close>, as the code's BigNumbers and
  the sums of JavaScript integers it makes; an amount is checked to fit 32 bytes where the code pads it
  for a message (\<open>formatAmount\<close>), and the message is not made when it does not. Hex strings and addresses are strings. Interfaces are
  records, tagged unions datatypes; a subinterface is an extension of the record. Objects are keys in
  their order of insertion, so association lists. Arrays shared between objects are modelled where the
  code relies on it: the entries of the browser store (\<open>BrowserEntry\<close>) and the states whose signatures a
  transaction carries (\<open>NitroTransactions\<close>). Where a promise is not awaited, what it does is an event
  of its own. Machines of xstate are step relations between worlds that others change meanwhile
  (\<open>flow_run\<close>).

  \<^bold>\<open>Theories and sources.\<close>
  \<^item> \<open>Prelude\<close>: errors, the functions of lodash and of arrays that the code uses, hints and generic lemmas.
  \<^item> \<open>CoreTypes\<close>, \<open>Outcomes\<close>: \<open>wallet-core/src/types.ts\<close>, \<open>utils/outcome.ts\<close>, \<open>state-utils.ts\<close>. \<open>WireFormat\<close>:
    \<open>wire-format/src/types.ts\<close> and \<open>wallet-core/src/serde\<close>. \<open>DirectFunder\<close>: \<open>protocols/direct-funder.ts\<close>, one
    definition per stage of a crank.
  \<^item> \<open>ValidTransition\<close>, \<open>NitroTransactions\<close>, \<open>ChannelStorage\<close>, \<open>AssetHolder\<close>: \<open>nitro-protocol/src\<close>, the rules for
    the next state, transactions with their signature arguments, the status word and challenge
    events, and the TypeScript emulation of transfer and claim.
  \<^item> \<open>AssetContract\<close>, \<open>ForceMove\<close>: the contracts \<open>MultiAssetHolder.sol\<close>, \<open>StatusManager.sol\<close>,
    \<open>ForceMove.sol\<close> and \<open>NitroAdjudicator.sol\<close> of \<open>nitro-protocol/contracts\<close>, on words that wrap around, with a step
    relation of whole runs in which who is paid may call again. \<open>AssetContractFacts\<close> proves the emulation
    equivalent to the contract, \<open>AdjudicatorFacts\<close> that the contract stays solvent, \<open>ForceMoveFacts\<close> what it
    guarantees a participant; \<open>ContractCalls\<close> runs the wallet's challenges on it.
  \<^item> \<open>LedgerOutcome\<close>, \<open>LedgerRequests\<close>, \<open>LedgerProtocol\<close>: \<open>server-wallet/src/models/channel/outcome.ts\<close>,
    \<open>models/ledger-request.ts\<close>, \<open>protocols/ledger-protocol.ts\<close>; the two cranks as functions from the states and
    the queue to what is signed and the queue after it. \<open>LedgerFacts\<close>, \<open>LedgerSettle\<close>, \<open>LedgerLifecycle\<close>,
    \<open>LedgerAgreement\<close> and \<open>LedgerSafety\<close> prove conservation of funds, the life cycle of requests and that
    the two cranks agree.
  \<^item> \<open>ChannelModel\<close>, \<open>ChannelStates\<close>: the class of \<open>models/channel.ts\<close> and its stored states, with support,
    garbage collection and signing; \<open>ChannelFacts\<close>, \<open>ChannelAdvance\<close> their properties.
  \<^item> \<open>Tables\<close>, \<open>Database\<close>: the tables and the other models of \<open>server-wallet/src/models\<close>; \<open>DatabaseFacts\<close> and
    \<open>Advance\<close> the invariant of the database and that rows only move forward.
  \<^item> \<open>Response\<close>, \<open>Store\<close>, \<open>Protocols\<close>, \<open>Engine\<close>: \<open>engine/engine-response.ts\<close>, \<open>engine/store.ts\<close>, the cranks of
    \<open>protocols/\<close> and \<open>objectives/\<close>, \<open>engine/engine.ts\<close> and \<open>handlers/\<close>. \<open>StoreFacts\<close>, \<open>ProtocolFacts\<close>, \<open>EngineFacts\<close> carry the
    invariant through every operation, \<open>StoreSafety\<close> and \<open>EngineSafety\<close> draw the conclusions:
    well-formedness of every reachable database, termination of \<open>takeActions\<close>, no turn signed twice,
    no deposit or post-fund signature before the money is safe.
  \<^item> \<open>EventTracker\<close>, \<open>ChainService\<close>, \<open>Wallet\<close>: \<open>chain-service/\<close> and \<open>wallet/wallet.ts\<close>. \<open>WalletFacts\<close> shows
    that the wallet touches the database by calls of the engine only, \<open>WalletSafety\<close> what becomes of its promises.
  \<^item> \<open>Workers\<close>, \<open>MessageService\<close>: \<open>engine/multi-threaded-engine/\<close> and \<open>message-service/test-message-service.ts\<close>.
  \<^item> \<open>BrowserEntry\<close>, \<open>BrowserStore\<close>, \<open>BrowserChain\<close>, \<open>BrowserWallet\<close>: \<open>browser-wallet/src/store/\<close>, \<open>chain.ts\<close> and the rich
    objectives of \<open>channel-wallet.ts\<close>.
  \<^item> \<open>BrowserFunding\<close>, \<open>BrowserVirtual\<close>: the services of the funding and defunding workflows under \<open>workflows/\<close>;
    \<open>BrowserFlows\<close>, \<open>BrowserHub\<close>, \<open>BrowserClosing\<close>, \<open>BrowserApproval\<close>: their machines, of the leaf, of the hub, for
    closing, and for budgets and the user's approvals. The participants of \<open>BrowserFunding\<close> deposit against each other with
    the feeds of \<open>chain.ts\<close> (\<open>feed_deposits\<close>), whose runs are among those with a feed of which nothing is known
    (\<open>deposits\<close>). \<open>BrowserMessaging\<close>: \<open>messaging.ts\<close> with the budgets of the
    application messages. \<open>BrowserApplication\<close>: \<open>workflows/application.ts\<close> and how \<open>channel-wallet.ts\<close> starts
    workflows. The theories named \<open>...Facts\<close>, \<open>BrowserSafety\<close> and \<open>BrowserClosingWitnesses\<close> hold their properties.
  \<^item> \<open>Fixtures\<close>, \<open>EngineFixtures\<close>, \<open>WalletFixtures\<close>: concrete values for witnesses; they model no code.

  \<^bold>\<open>Parameters.\<close> What is not code of the repository is an argument: \<open>ethers\<close> and \<open>platform\<close> (number parsing, hashing,
  signing and recovering, running the EVM), \<open>abi\<close> and \<open>encoder\<close> (ABI encoding), \<open>evm_env\<close> and \<open>fm_env\<close> (hashes,
  encodings and signer recovery of the EVM, the contract of an application), \<open>chain_provider\<close> and \<open>chain_view\<close> (what a node
  answers), \<open>store_env\<close>, \<open>wallet_env\<close>, \<open>wallet2_env\<close>, \<open>flow_env\<close>, \<open>messaging_env\<close> and \<open>app_env\<close> (configuration, clocks,
  new identifiers, answers of validators that are generated from types, and of the user's browser),
  \<open>grants\<close> (the pool of worker threads). Theorems name what they need of them, and their witnesses
  instantiate them with functions that compute.

  \<^bold>\<open>Interfaces.\<close> A contract that several operations share is a locale, interpreted where the operations are:
  \<open>keyed_update\<close> for updates that keep the key of a table, \<open>conserving_step\<close> for the passes of the ledger
  protocol that keep the funds, and \<open>flow_invariant\<close>, by which an invariant of a machine holds in all its runs whatever the world does
  between its steps.

  \<^bold>\<open>Termination.\<close> Loops are recursive functions, with one exception: \<open>takeActions\<close> of the engine, which is
  a \<open>partial_function\<close> and proved to return on every well-formed database. The recursion of
  \<open>checkFinalizingChannels\<close> is over a measure. No bound or fuel is used anywhere.

  \<^bold>\<open>Simplifications.\<close> The transactions of one engine run one after the other: the row locks of the
  database are what makes that so, and they are not modelled. The calls of different worker threads
  are atomic with respect to each other. Logging, timing and metrics have no counterpart. A
  JavaScript integer is taken as unbounded; the code keeps amounts as BigNumbers and turn numbers far
  below the limit. In the contracts words have their width, but tokens do not call back, events are left
  out, and so are gas and the limits of memory.

  \<^bold>\<open>Not modelled.\<close> The example and test contracts, and the library that decodes outcomes on the chain. The wallets do not
  run against the model of the contracts but against arbitrary chain events; the deposit function where
  the browser wallet's deposits meet it and the challenges of \<open>ContractCalls\<close> are the exceptions. The
  ABI encodings and hashes of \<open>nitro-protocol\<close>, which call ethers. The indexed-database backend of the browser
  wallet, which is calls of the library Dexie. The user interface. Configuration, logging, metrics,
  database migrations and administration, the socket transport, build and test tooling, benchmarks,
  documentation, and the schema validators that are generated from types.
\<close>

end
